(* ===== verification/Prelude.thy ===== *)
theory Prelude
  imports Main "HOL-Library.Word" "HOL-Library.Char_ord" "HOL-Library.List_Lexorder"
    "HOL-Library.Sublist"
begin

text \<open>
  Generic vocabulary of the development: Rust's \<open>Result\<close> as a sum with the error on the
  left, the early-return combinators that stand for the \<open>?\<close> operator and for loops that
  return an error, fixed-width unsigned integers as words, the checked and saturating
  arithmetic of the standard library, and the operations of \<open>str\<close> the code uses.

  A Rust \<open>String\<close> is its UTF-8 encoding, so it is modelled as the list of its bytes
  (\<^typ>\<open>char\<close> is one byte). \<open>len\<close> and \<open>bytes\<close> are then the list's own, and
  \<open>chars().count()\<close> counts the bytes that start a code point.
\<close>

section \<open>Collections of facts\<close>

named_theorems result_iff \<open>when a Result-valued combinator returns Ok\<close>

section \<open>Results\<close>

type_synonym ('e, 'a) result = "'e + 'a"

definition res_bind :: "('e, 'a) result \<Rightarrow> ('a \<Rightarrow> ('e, 'b) result) \<Rightarrow> ('e, 'b) result" where
  "res_bind r f = (case r of Inl e \<Rightarrow> Inl e | Inr x \<Rightarrow> f x)"

definition ensure :: "bool \<Rightarrow> 'e \<Rightarrow> ('e, unit) result" where
  "ensure b e = (if b then Inr () else Inl e)"

definition ok_or :: "'a option \<Rightarrow> 'e \<Rightarrow> ('e, 'a) result" where
  "ok_or x e = (case x of None \<Rightarrow> Inl e | Some y \<Rightarrow> Inr y)"

definition map_err :: "('e \<Rightarrow> 'f) \<Rightarrow> ('e, 'a) result \<Rightarrow> ('f, 'a) result" where
  "map_err g r = (case r of Inl e \<Rightarrow> Inl (g e) | Inr x \<Rightarrow> Inr x)"

definition is_ok :: "('e, 'a) result \<Rightarrow> bool" where
  "is_ok r = (case r of Inl _ \<Rightarrow> False | Inr _ \<Rightarrow> True)"

text \<open>A \<open>for\<close> loop whose body may return early with an error.\<close>

fun check_all :: "('a \<Rightarrow> ('e, unit) result) \<Rightarrow> 'a list \<Rightarrow> ('e, unit) result" where
  "check_all f [] = Inr ()"
| "check_all f (x # xs) = res_bind (f x) (\<lambda>_. check_all f xs)"

text \<open>\<open>iter.map(f).collect::<Result<Vec<_>, _>>()\<close>.\<close>

fun try_map :: "('a \<Rightarrow> ('e, 'b) result) \<Rightarrow> 'a list \<Rightarrow> ('e, 'b list) result" where
  "try_map f [] = Inr []"
| "try_map f (x # xs) = res_bind (f x) (\<lambda>y. res_bind (try_map f xs) (\<lambda>ys. Inr (y # ys)))"

text \<open>A loop with an accumulator and early return.\<close>

fun try_fold :: "('s \<Rightarrow> 'a \<Rightarrow> ('e, 's) result) \<Rightarrow> 's \<Rightarrow> 'a list \<Rightarrow> ('e, 's) result" where
  "try_fold f s [] = Inr s"
| "try_fold f s (x # xs) = res_bind (f s x) (\<lambda>s'. try_fold f s' xs)"

lemma res_bind_simps [simp]:
  "res_bind (Inl e) f = Inl e"
  "res_bind (Inr x) f = f x"
  by (simp_all add: res_bind_def)

lemma res_bind_Inr_iff [result_iff]:
  "res_bind r f = Inr y \<longleftrightarrow> (\<exists>x. r = Inr x \<and> f x = Inr y)"
  by (cases r) simp_all

lemma res_bind_Inl_iff:
  "res_bind r f = Inl e \<longleftrightarrow> r = Inl e \<or> (\<exists>x. r = Inr x \<and> f x = Inl e)"
  by (cases r) simp_all

lemma res_bind_assoc:
  "res_bind (res_bind r f) g = res_bind r (\<lambda>x. res_bind (f x) g)"
  by (cases r) simp_all

lemma ensure_simps [simp]:
  "ensure True e = Inr ()"
  "ensure False e = Inl e"
  by (simp_all add: ensure_def)

lemma ensure_Inr_iff [result_iff]: "ensure b e = Inr u \<longleftrightarrow> b"
  by (simp add: ensure_def)

lemma ensure_Inl_iff: "ensure b e = Inl e' \<longleftrightarrow> \<not> b \<and> e = e'"
  by (simp add: ensure_def)

lemma ok_or_simps [simp]:
  "ok_or None e = Inl e"
  "ok_or (Some x) e = Inr x"
  by (simp_all add: ok_or_def)

lemma ok_or_Inr_iff [result_iff]: "ok_or x e = Inr y \<longleftrightarrow> x = Some y"
  by (cases x) simp_all

lemma ok_or_Inl_iff: "ok_or x e = Inl e' \<longleftrightarrow> x = None \<and> e = e'"
  by (cases x) simp_all

lemma map_err_simps [simp]:
  "map_err g (Inl e) = Inl (g e)"
  "map_err g (Inr x) = Inr x"
  by (simp_all add: map_err_def)

lemma map_err_Inr_iff [result_iff]: "map_err g r = Inr x \<longleftrightarrow> r = Inr x"
  by (cases r) simp_all

lemma map_err_Inl_iff: "map_err g r = Inl f \<longleftrightarrow> (\<exists>e. r = Inl e \<and> f = g e)"
  by (cases r) auto

lemma is_ok_simps [simp]: "is_ok (Inl e) = False" "is_ok (Inr x) = True"
  by (simp_all add: is_ok_def)

lemma check_all_Inr_iff [result_iff]:
  "check_all f xs = Inr u \<longleftrightarrow> (\<forall>x\<in>set xs. f x = Inr ())"
  by (induction xs) (auto simp: result_iff)

lemma check_all_append:
  "check_all f (xs @ ys) = res_bind (check_all f xs) (\<lambda>_. check_all f ys)"
  by (induction xs) (simp_all add: res_bind_assoc)

lemma try_map_Inr_iff:
  "try_map f xs = Inr ys \<longleftrightarrow> list_all2 (\<lambda>x y. f x = Inr y) xs ys"
  by (induction xs arbitrary: ys) (auto simp: result_iff list_all2_Cons1)

lemma try_map_length: "try_map f xs = Inr ys \<Longrightarrow> length ys = length xs"
  by (simp add: try_map_Inr_iff list_all2_lengthD)

section \<open>Fixed-width integers\<close>

type_synonym u8 = "8 word"
type_synonym u16 = "16 word"
type_synonym u32 = "32 word"
type_synonym u64 = "64 word"

definition saturating_add :: "'a::len word \<Rightarrow> 'a word \<Rightarrow> 'a word" where
  "saturating_add a b = (if unat a + unat b < 2 ^ LENGTH('a) then a + b else - 1)"

definition checked_add :: "'a::len word \<Rightarrow> 'a word \<Rightarrow> 'a word option" where
  "checked_add a b = (if unat a + unat b < 2 ^ LENGTH('a) then Some (a + b) else None)"

text \<open>\<open>u32::try_from(n)\<close> and \<open>u64::try_from(n)\<close> of a \<open>usize\<close> length.\<close>

definition try_u32 :: "nat \<Rightarrow> u32 option" where
  "try_u32 n = (if n < 2 ^ 32 then Some (of_nat n) else None)"

text \<open>Signed 64-bit values are integers; the checked operations fail outside the range.\<close>

definition i64_max :: int where "i64_max = 9223372036854775807"
definition i64_min :: int where "i64_min = - 9223372036854775808"

definition i64_checked :: "int \<Rightarrow> int option" where
  "i64_checked x = (if i64_min \<le> x \<and> x \<le> i64_max then Some x else None)"

lemma saturating_add_unat:
  "unat (saturating_add (a :: 'a::len word) b) = min (unat a + unat b) (2 ^ LENGTH('a) - 1)"
proof (cases "unat a + unat b < 2 ^ LENGTH('a)")
  case True
  then show ?thesis by (simp add: saturating_add_def unat_word_ariths)
next
  case False
  then show ?thesis by (simp add: saturating_add_def unsigned_minus_1_eq_mask mask_eq_exp_minus_1)
qed

lemma checked_add_Some_iff:
  "checked_add (a :: 'a::len word) b = Some c \<longleftrightarrow>
     unat c = unat a + unat b"
proof
  assume "checked_add a b = Some c"
  then show "unat c = unat a + unat b"
    by (auto simp: checked_add_def unat_word_ariths split: if_splits)
next
  assume c: "unat c = unat a + unat b"
  have "unat c < 2 ^ LENGTH('a)" by (rule unsigned_less)
  with c have "unat (a + b) = unat c" by (simp add: unat_word_ariths)
  then have "a + b = c" by (rule unsigned_word_eqI)
  with c \<open>unat c < 2 ^ LENGTH('a)\<close> show "checked_add a b = Some c"
    by (simp add: checked_add_def)
qed

lemma try_u32_Some_iff: "try_u32 n = Some c \<longleftrightarrow> unat c = n"
proof
  assume "try_u32 n = Some c"
  then show "unat c = n" by (auto simp: try_u32_def unat_of_nat split: if_splits)
next
  assume c: "unat c = n"
  have "unat c < 2 ^ 32" using unsigned_less [of c] by simp
  with c show "try_u32 n = Some c" by (auto simp: try_u32_def)
qed

lemma i64_checked_Some_iff: "i64_checked x = Some y \<longleftrightarrow> y = x \<and> i64_min \<le> x \<and> x \<le> i64_max"
  by (auto simp: i64_checked_def)

text \<open>\<open>u32::try_from(len).ok().and_then(|n| n.checked_add(1))\<close>: the number of the next entry.\<close>

definition next_ordinal :: "nat \<Rightarrow> u32 option" where
  "next_ordinal n = Option.bind (try_u32 n) (\<lambda>v. checked_add v 1)"

lemma next_ordinal_Some_iff: "next_ordinal n = Some k \<longleftrightarrow> unat k = n + 1"
proof
  assume "next_ordinal n = Some k"
  then show "unat k = n + 1"
    by (auto simp: next_ordinal_def bind_eq_Some_conv try_u32_Some_iff checked_add_Some_iff)
next
  assume k: "unat k = n + 1"
  have "unat k < 2 ^ 32" using unsigned_less [of k] by simp
  with k have "unat (of_nat n :: u32) = n" by (simp add: unat_of_nat)
  then have "try_u32 n = Some (of_nat n)" by (simp add: try_u32_Some_iff)
  moreover have "checked_add (of_nat n :: u32) 1 = Some k"
    using k \<open>unat (of_nat n :: u32) = n\<close> by (simp add: checked_add_Some_iff)
  ultimately show "next_ordinal n = Some k" by (simp add: next_ordinal_def)
qed

section \<open>Lists\<close>

text \<open>\<open>iter_mut().find(P)\<close> followed by a write through the reference.\<close>

fun update_first :: "('a \<Rightarrow> bool) \<Rightarrow> ('a \<Rightarrow> 'a) \<Rightarrow> 'a list \<Rightarrow> 'a list" where
  "update_first P f [] = []"
| "update_first P f (x # xs) = (if P x then f x # xs else x # update_first P f xs)"

lemma length_update_first [simp]: "length (update_first P f xs) = length xs"
  by (induction xs) auto

lemma update_first_split:
  assumes "List.find P xs = Some x"
  obtains ys zs where "xs = ys @ x # zs" and "P x" and "\<forall>y\<in>set ys. \<not> P y"
    and "\<And>f. update_first P f xs = ys @ f x # zs"
  using assms
proof (induction xs arbitrary: thesis)
  case (Cons a xs)
  show ?case
  proof (cases "P a")
    case True
    with Cons.prems show ?thesis by (intro Cons.prems(1) [of "[]" xs]) auto
  next
    case False
    with Cons.prems have "List.find P xs = Some x" by simp
    then obtain ys zs where "xs = ys @ x # zs" "P x" "\<forall>y\<in>set ys. \<not> P y"
      "\<And>f. update_first P f xs = ys @ f x # zs"
      using Cons.IH by blast
    with False show ?thesis by (intro Cons.prems(1) [of "a # ys" zs]) auto
  qed
qed simp

text \<open>The private helper \<open>has_duplicates\<close> of \<open>chat.rs\<close>: an element that occurs before itself.\<close>

definition has_duplicates :: "'a list \<Rightarrow> bool" where
  "has_duplicates xs = list_ex (\<lambda>i. xs ! i \<in> set (take i xs)) [0..<length xs]"

lemma has_duplicates_iff: "has_duplicates xs \<longleftrightarrow> \<not> distinct xs"
proof (induction xs rule: rev_induct)
  case Nil
  then show ?case by (simp add: has_duplicates_def)
next
  case (snoc x xs)
  have "list_ex (\<lambda>i. (xs @ [x]) ! i \<in> set (take i (xs @ [x]))) [0..<length xs] =
        list_ex (\<lambda>i. xs ! i \<in> set (take i xs)) [0..<length xs]"
    by (auto simp: list_ex_iff nth_append)
  with snoc show ?case by (auto simp: has_duplicates_def)
qed

section \<open>Strings\<close>

definition byte_of :: "char \<Rightarrow> nat" where
  "byte_of c = of_char c"

text \<open>\<open>s.chars().count()\<close>: every byte but the continuation bytes \<open>10xxxxxx\<close>.\<close>

definition chars_count :: "string \<Rightarrow> nat" where
  "chars_count s = length (filter (\<lambda>c. \<not> (128 \<le> byte_of c \<and> byte_of c < 192)) s)"

definition is_ascii_digit :: "char \<Rightarrow> bool" where
  "is_ascii_digit c = (48 \<le> byte_of c \<and> byte_of c \<le> 57)"

definition is_ascii_alphabetic :: "char \<Rightarrow> bool" where
  "is_ascii_alphabetic c =
     (65 \<le> byte_of c \<and> byte_of c \<le> 90 \<or> 97 \<le> byte_of c \<and> byte_of c \<le> 122)"

definition is_ascii_alphanumeric :: "char \<Rightarrow> bool" where
  "is_ascii_alphanumeric c = (is_ascii_digit c \<or> is_ascii_alphabetic c)"

definition is_ascii_hexdigit :: "char \<Rightarrow> bool" where
  "is_ascii_hexdigit c =
     (is_ascii_digit c \<or> 65 \<le> byte_of c \<and> byte_of c \<le> 70 \<or> 97 \<le> byte_of c \<and> byte_of c \<le> 102)"

definition to_ascii_uppercase :: "string \<Rightarrow> string" where
  "to_ascii_uppercase s =
     map (\<lambda>c. if 97 \<le> byte_of c \<and> byte_of c \<le> 122 then char_of (byte_of c - 32) else c) s"

text \<open>The UTF-8 encodings of the code points with the Unicode property \<open>White_Space\<close>.\<close>

definition whitespace_encodings :: "string list" where
  "whitespace_encodings =
     map (\<lambda>b. [char_of (b::nat)]) [9, 10, 11, 12, 13, 32] @
     map (\<lambda>b. [char_of (194::nat), char_of (b::nat)]) [133, 160] @
     [[char_of (225::nat), char_of (154::nat), char_of (128::nat)]] @
     map (\<lambda>b. [char_of (226::nat), char_of (128::nat), char_of (b::nat)])
       [128, 129, 130, 131, 132, 133, 134, 135, 136, 137, 138, 168, 169, 175] @
     [[char_of (226::nat), char_of (129::nat), char_of (159::nat)],
      [char_of (227::nat), char_of (128::nat), char_of (128::nat)]]"

text \<open>Drops the first of the given encodings that starts (or ends) the string, repeatedly.\<close>

function trim_start_with :: "string list \<Rightarrow> string \<Rightarrow> string" where
  "trim_start_with ws s =
     (case List.find (\<lambda>w. w \<noteq> [] \<and> prefix w s) ws of
        None \<Rightarrow> s
      | Some w \<Rightarrow> trim_start_with ws (drop (length w) s))"
  by pat_completeness auto
termination
  by (relation "measure (\<lambda>(ws, s). length s)")
    (auto simp: find_Some_iff prefix_def)

declare trim_start_with.simps [simp del]

definition trim_start :: "string \<Rightarrow> string" where
  "trim_start s = trim_start_with whitespace_encodings s"

definition trim_end :: "string \<Rightarrow> string" where
  "trim_end s = rev (trim_start_with (map rev whitespace_encodings) (rev s))"

definition str_trim :: "string \<Rightarrow> string" where
  "str_trim s = trim_end (trim_start s)"

text \<open>\<open>s.chars().any(char::is_whitespace)\<close>.\<close>

definition has_whitespace :: "string \<Rightarrow> bool" where
  "has_whitespace s = (\<exists>w\<in>set whitespace_encodings. sublist w s)"

definition str_starts_with :: "string \<Rightarrow> string \<Rightarrow> bool" where
  "str_starts_with s p = prefix p s"

definition str_ends_with :: "string \<Rightarrow> string \<Rightarrow> bool" where
  "str_ends_with s p = suffix p s"

text \<open>\<open>s.find(p)\<close>: the byte index of the first occurrence.\<close>

fun str_find :: "string \<Rightarrow> string \<Rightarrow> nat option" where
  "str_find p s =
     (if prefix p s then Some 0
      else case s of [] \<Rightarrow> None | _ # t \<Rightarrow> map_option Suc (str_find p t))"

declare str_find.simps [simp del]

definition str_contains :: "string \<Rightarrow> string \<Rightarrow> bool" where
  "str_contains s p = (str_find p s \<noteq> None)"

text \<open>\<open>s.split(c)\<close> for a single-byte separator.\<close>

fun str_split :: "char \<Rightarrow> string \<Rightarrow> string list" where
  "str_split c [] = [[]]"
| "str_split c (x # xs) =
     (if x = c then [] # str_split c xs
      else case str_split c xs of [] \<Rightarrow> [[x]] | y # ys \<Rightarrow> (x # y) # ys)"

lemma str_split_nonempty [simp]: "str_split c s \<noteq> []"
  by (induction s) (auto split: list.splits)

lemma trim_start_with_suffix: "suffix (trim_start_with ws s) s"
proof (induction ws s rule: trim_start_with.induct)
  case (1 ws s)
  show ?case
  proof (cases "List.find (\<lambda>w. w \<noteq> [] \<and> prefix w s) ws")
    case None
    then show ?thesis by (simp add: trim_start_with.simps [of ws s])
  next
    case (Some w)
    with 1 have "suffix (trim_start_with ws (drop (length w) s)) (drop (length w) s)" by blast
    then have "suffix (trim_start_with ws (drop (length w) s)) s"
      by (rule suffix_order.trans) (rule suffix_drop)
    with Some show ?thesis by (simp add: trim_start_with.simps [of ws s])
  qed
qed

lemma trim_start_with_done:
  "w \<in> set ws \<Longrightarrow> w \<noteq> [] \<Longrightarrow> \<not> prefix w (trim_start_with ws s)"
proof (induction ws s rule: trim_start_with.induct)
  case (1 ws s)
  show ?case
  proof (cases "List.find (\<lambda>w. w \<noteq> [] \<and> prefix w s) ws")
    case None
    then have "trim_start_with ws s = s" by (simp add: trim_start_with.simps [of ws s])
    with None "1.prems" show ?thesis by (auto simp: find_None_iff)
  next
    case (Some v)
    with 1 show ?thesis by (simp add: trim_start_with.simps [of ws s])
  qed
qed

lemma trim_start_with_id:
  "(\<And>w. w \<in> set ws \<Longrightarrow> w \<noteq> [] \<Longrightarrow> \<not> prefix w s) \<Longrightarrow> trim_start_with ws s = s"
  by (subst trim_start_with.simps) (auto split: option.splits simp: find_Some_iff)

lemma trim_end_prefix: "prefix (trim_end s) s"
  by (metis rev_rev_ident suffix_to_prefix trim_end_def trim_start_with_suffix)

lemma trim_start_no_space: "w \<in> set whitespace_encodings \<Longrightarrow> w \<noteq> [] \<Longrightarrow> \<not> prefix w (trim_start s)"
  by (simp add: trim_start_def trim_start_with_done)

lemma trim_end_no_space:
  assumes "w \<in> set whitespace_encodings" and "w \<noteq> []"
  shows "\<not> suffix w (trim_end s)"
proof -
  have "\<not> prefix (rev w) (trim_start_with (map rev whitespace_encodings) (rev s))"
    using assms by (intro trim_start_with_done) auto
  then show ?thesis by (simp add: trim_end_def suffix_to_prefix)
qed

lemma str_trim_no_space:
  assumes "w \<in> set whitespace_encodings" and "w \<noteq> []"
  shows "\<not> prefix w (str_trim s)" and "\<not> suffix w (str_trim s)"
proof -
  show "\<not> suffix w (str_trim s)"
    using assms by (simp add: str_trim_def trim_end_no_space)
  show "\<not> prefix w (str_trim s)"
    using trim_start_no_space [OF assms] trim_end_prefix [of "trim_start s"]
    unfolding str_trim_def by (meson prefix_order.trans)
qed

lemma str_trim_id:
  assumes "\<And>w. w \<in> set whitespace_encodings \<Longrightarrow> w \<noteq> [] \<Longrightarrow> \<not> prefix w s \<and> \<not> suffix w s"
  shows "str_trim s = s"
proof -
  have "trim_start s = s"
    unfolding trim_start_def using assms by (intro trim_start_with_id) blast
  moreover have "trim_end s = s"
    unfolding trim_end_def using assms
    by (subst trim_start_with_id) (auto simp: suffix_to_prefix)
  ultimately show ?thesis by (simp add: str_trim_def)
qed

lemma str_trim_idem [simp]: "str_trim (str_trim s) = str_trim s"
  using str_trim_no_space by (intro str_trim_id) blast

lemma str_find_Some_iff:
  "str_find p s = Some i \<longleftrightarrow>
     i \<le> length s \<and> prefix p (drop i s) \<and> (\<forall>j<i. \<not> prefix p (drop j s))"
proof (induction s arbitrary: i)
  case Nil
  then show ?case by (auto simp: str_find.simps [of p "[]"])
next
  case (Cons x s)
  show ?case
  proof (cases "prefix p (x # s)")
    case True
    then show ?thesis by (auto simp: str_find.simps [of p "x # s"])
  next
    case False
    then show ?thesis
      by (cases i) (auto simp: str_find.simps [of p "x # s"] Cons.IH less_Suc_eq_0_disj)
  qed
qed

lemma str_find_None_iff: "str_find p s = None \<longleftrightarrow> \<not> sublist p s"
proof (induction s)
  case Nil
  then show ?case by (auto simp: str_find.simps [of p "[]"])
next
  case (Cons x s)
  then show ?case by (auto simp: str_find.simps [of p "x # s"] sublist_Cons_right)
qed

end
