(* ===== verification/BTree_Map.thy ===== *)
theory BTree_Map
  imports Prelude
begin

text \<open>
  \<open>std::collections::BTreeMap\<close> and \<open>BTreeSet\<close>: finite maps that iterate in key order. A map is
  a list of entries whose keys strictly increase, so two maps are equal exactly when they hold
  the same entries, as the derived \<open>PartialEq\<close> of the code compares them. The locale
  \<open>ordered_map\<close> states the interface every component relies on; its interpretation on the
  entry lists discharges the laws.
\<close>

section \<open>Sorted entry lists\<close>

fun al_get :: "('k \<times> 'v) list \<Rightarrow> 'k \<Rightarrow> 'v option" where
  "al_get [] k = None"
| "al_get ((a, b) # ps) k = (if k = a then Some b else al_get ps k)"

fun al_insert :: "'k::linorder \<Rightarrow> 'v \<Rightarrow> ('k \<times> 'v) list \<Rightarrow> ('k \<times> 'v) list" where
  "al_insert k v [] = [(k, v)]"
| "al_insert k v ((a, b) # ps) =
     (if k < a then (k, v) # (a, b) # ps
      else if k = a then (k, v) # ps
      else (a, b) # al_insert k v ps)"

abbreviation keys_sorted :: "('k::linorder \<times> 'v) list \<Rightarrow> bool" where
  "keys_sorted ps \<equiv> sorted_wrt (<) (map fst ps)"

lemma set_keys_al_insert: "fst ` set (al_insert k v ps) = insert k (fst ` set ps)"
  by (induction k v ps rule: al_insert.induct) auto

lemma keys_sorted_al_insert: "keys_sorted ps \<Longrightarrow> keys_sorted (al_insert k v ps)"
proof (induction k v ps rule: al_insert.induct)
  case (2 k v a b ps)
  have keys: "fst x = k \<or> fst x \<in> fst ` set ps" if "x \<in> set (al_insert k v ps)" for x
    using set_keys_al_insert [of k v ps] that by (metis image_eqI insertE)
  have above: "\<forall>y\<in>fst ` set ps. a < y" using "2.prems" by auto
  show ?case using 2 keys above by (auto dest!: keys)
qed simp

lemma keys_sorted_filter: "keys_sorted ps \<Longrightarrow> keys_sorted (filter P ps)"
  by (induction ps) auto

lemma al_get_insert: "al_get (al_insert k v ps) = (al_get ps)(k := Some v)"
  by (induction k v ps rule: al_insert.induct) (auto simp: fun_eq_iff)

lemma al_get_None_iff: "al_get ps k = None \<longleftrightarrow> k \<notin> fst ` set ps"
  by (induction ps k rule: al_get.induct) auto

lemma al_get_SomeD: "al_get ps k = Some v \<Longrightarrow> (k, v) \<in> set ps"
  by (induction ps k rule: al_get.induct) (auto split: if_splits)

lemma al_get_Some_iff: "keys_sorted ps \<Longrightarrow> al_get ps k = Some v \<longleftrightarrow> (k, v) \<in> set ps"
proof (induction ps k rule: al_get.induct)
  case (2 a b ps k)
  then show ?case by (force simp: image_iff)
qed simp

lemma al_get_map_snd:
  "al_get (map (\<lambda>(k, v). (k, f k v)) ps) k = map_option (f k) (al_get ps k)"
  by (induction ps k rule: al_get.induct) auto

lemma al_get_filter:
  "keys_sorted ps \<Longrightarrow> al_get (filter (\<lambda>(k, v). P k v) ps) k =
     (case al_get ps k of None \<Rightarrow> None | Some v \<Rightarrow> if P k v then Some v else None)"
proof (induction ps k rule: al_get.induct)
  case (2 a b ps k)
  have "k = a \<Longrightarrow> al_get ps k = None" and "k = a \<Longrightarrow> al_get (filter (\<lambda>(x, y). P x y) ps) k = None"
    using "2.prems" by (auto simp: al_get_None_iff)
  with 2 show ?case by (auto split: option.splits)
qed simp

lemma keys_sorted_ext:
  assumes "keys_sorted ps" and "keys_sorted qs" and "\<And>k. al_get ps k = al_get qs k"
  shows "ps = qs"
proof -
  have "set ps = set qs"
    using assms by (auto simp: al_get_Some_iff [symmetric])
  then have "set (map fst ps) = set (map fst qs)" by simp
  then have fst_eq: "map fst ps = map fst qs"
    using assms(1,2)
    by (metis sorted_distinct_set_unique strict_sorted_iff)
  have "length ps = length qs" using arg_cong [OF fst_eq, of length] by simp
  moreover have "ps ! i = qs ! i" if "i < length ps" for i
  proof -
    have i: "i < length qs" using that \<open>length ps = length qs\<close> by simp
    have eq: "fst (ps ! i) = fst (qs ! i)"
      using arg_cong [OF fst_eq, of "\<lambda>l. l ! i"] that i by simp
    have "al_get ps (fst (ps ! i)) = Some (snd (ps ! i))"
      using assms(1) that by (simp add: al_get_Some_iff)
    moreover have "al_get qs (fst (qs ! i)) = Some (snd (qs ! i))"
      using assms(2) i by (simp add: al_get_Some_iff)
    ultimately have "snd (ps ! i) = snd (qs ! i)" using eq assms(3) by simp
    with eq show ?thesis by (simp add: prod_eq_iff)
  qed
  ultimately show ?thesis by (rule nth_equalityI)
qed

section \<open>The type of ordered maps\<close>

typedef (overloaded) ('k::linorder, 'v) bmap = "{ps :: ('k \<times> 'v) list. keys_sorted ps}"
  morphisms entries Abs_bmap
  by (rule exI [of _ "[]"]) simp

setup_lifting type_definition_bmap

lift_definition bm_empty :: "('k::linorder, 'v) bmap" is "[]" by simp

lift_definition bm_insert :: "'k::linorder \<Rightarrow> 'v \<Rightarrow> ('k, 'v) bmap \<Rightarrow> ('k, 'v) bmap" is al_insert
  by (rule keys_sorted_al_insert)

text \<open>\<open>retain\<close>, and \<open>remove\<close> as its special case.\<close>

lift_definition bm_retain ::
  "('k::linorder \<Rightarrow> 'v \<Rightarrow> bool) \<Rightarrow> ('k, 'v) bmap \<Rightarrow> ('k, 'v) bmap" is
  "\<lambda>P ps. filter (\<lambda>(k, v). P k v) ps"
  by (rule keys_sorted_filter)

text \<open>Writing through \<open>values_mut\<close> or \<open>get_mut\<close>: the keys stay.\<close>

lift_definition bm_map :: "('k::linorder \<Rightarrow> 'v \<Rightarrow> 'w) \<Rightarrow> ('k, 'v) bmap \<Rightarrow> ('k, 'w) bmap" is
  "\<lambda>f ps. map (\<lambda>(k, v). (k, f k v)) ps"
  by (simp add: case_prod_unfold comp_def)

definition bm_get :: "('k::linorder, 'v) bmap \<Rightarrow> 'k \<Rightarrow> 'v option" where
  "bm_get m k = al_get (entries m) k"

definition bm_contains :: "('k::linorder, 'v) bmap \<Rightarrow> 'k \<Rightarrow> bool" where
  "bm_contains m k = (bm_get m k \<noteq> None)"

definition bm_remove :: "'k::linorder \<Rightarrow> ('k, 'v) bmap \<Rightarrow> ('k, 'v) bmap" where
  "bm_remove k m = bm_retain (\<lambda>k' _. k' \<noteq> k) m"

definition bm_update :: "'k::linorder \<Rightarrow> ('v \<Rightarrow> 'v) \<Rightarrow> ('k, 'v) bmap \<Rightarrow> ('k, 'v) bmap" where
  "bm_update k f m = bm_map (\<lambda>k' v. if k' = k then f v else v) m"

definition bm_keys :: "('k::linorder, 'v) bmap \<Rightarrow> 'k list" where
  "bm_keys m = map fst (entries m)"

definition bm_values :: "('k::linorder, 'v) bmap \<Rightarrow> 'v list" where
  "bm_values m = map snd (entries m)"

definition bm_len :: "('k::linorder, 'v) bmap \<Rightarrow> nat" where
  "bm_len m = length (entries m)"

text \<open>\<open>iter.collect::<BTreeMap<_, _>>()\<close>: a later pair replaces an earlier one.\<close>

definition bm_of_list :: "('k::linorder \<times> 'v) list \<Rightarrow> ('k, 'v) bmap" where
  "bm_of_list ps = fold (\<lambda>(k, v) m. bm_insert k v m) ps bm_empty"

text \<open>The largest key, \<open>keys().next_back()\<close>.\<close>

definition bm_last_key :: "('k::linorder, 'v) bmap \<Rightarrow> 'k option" where
  "bm_last_key m = (case bm_keys m of [] \<Rightarrow> None | k # ks \<Rightarrow> Some (last (k # ks)))"

instantiation bmap :: (linorder, type) equal
begin

definition equal_bmap :: "('a, 'b) bmap \<Rightarrow> ('a, 'b) bmap \<Rightarrow> bool" where
  "equal_bmap m n = (entries m = entries n)"

instance
  by standard (simp add: equal_bmap_def entries_inject)

end

instantiation bmap :: (linorder, type) size
begin

definition size_bmap :: "('a, 'b) bmap \<Rightarrow> nat" where
  "size_bmap m = bm_len m"

instance ..

end

lemma keys_sorted_entries [simp]: "keys_sorted (entries m)"
  using entries [of m] by simp

lemma entries_simps [simp]:
  "entries bm_empty = []"
  "entries (bm_insert k v m) = al_insert k v (entries m)"
  "entries (bm_retain P m) = filter (\<lambda>(k, v). P k v) (entries m)"
  "entries (bm_map f m) = map (\<lambda>(k, v). (k, f k v)) (entries m)"
  by (transfer; simp)+

lemma bmap_ext: "(\<And>k. bm_get m k = bm_get n k) \<Longrightarrow> m = n"
  by (metis bm_get_def entries_inject keys_sorted_entries keys_sorted_ext)

lemma bm_get_simps [simp]:
  "bm_get bm_empty k = None"
  "bm_get (bm_insert k' v m) k = (if k = k' then Some v else bm_get m k)"
  "bm_get (bm_remove k' m) k = (if k = k' then None else bm_get m k)"
  "bm_get (bm_update k' f m) k = (if k = k' then map_option f (bm_get m k) else bm_get m k)"
  by (simp_all add: bm_get_def al_get_insert bm_remove_def bm_update_def al_get_filter
      al_get_map_snd option.map_ident split: option.splits)

lemma bm_get_retain:
  "bm_get (bm_retain P m) k =
     (case bm_get m k of None \<Rightarrow> None | Some v \<Rightarrow> if P k v then Some v else None)"
  by (simp add: bm_get_def al_get_filter)

lemma bm_get_map: "bm_get (bm_map f m) k = map_option (f k) (bm_get m k)"
  by (simp add: bm_get_def al_get_map_snd)

lemma bm_contains_simps [simp]:
  "bm_contains bm_empty k = False"
  "bm_contains (bm_insert k' v m) k = (k = k' \<or> bm_contains m k)"
  "bm_contains (bm_remove k' m) k = (k \<noteq> k' \<and> bm_contains m k)"
  "bm_contains (bm_update k' f m) k = bm_contains m k"
  by (auto simp: bm_contains_def)

lemma bm_contains_map [simp]: "bm_contains (bm_map f m) k = bm_contains m k"
  by (simp add: bm_contains_def bm_get_map)

lemma bm_get_Some_iff: "bm_get m k = Some v \<longleftrightarrow> (k, v) \<in> set (entries m)"
  by (simp add: bm_get_def al_get_Some_iff)

lemma bm_contains_iff: "bm_contains m k \<longleftrightarrow> (\<exists>v. bm_get m k = Some v)"
  by (auto simp: bm_contains_def)

lemma set_bm_keys: "k \<in> set (bm_keys m) \<longleftrightarrow> bm_contains m k"
  by (force simp: bm_keys_def bm_contains_iff bm_get_Some_iff)

lemma set_bm_values: "v \<in> set (bm_values m) \<longleftrightarrow> (\<exists>k. bm_get m k = Some v)"
  by (force simp: bm_values_def bm_get_Some_iff)

lemma sorted_bm_keys [simp]: "sorted_wrt (<) (bm_keys m)"
  by (simp add: bm_keys_def)

lemma distinct_bm_keys [simp]: "distinct (bm_keys m)"
  using sorted_bm_keys [of m] strict_sorted_iff by blast

lemma bm_len_keys: "bm_len m = card {k. bm_contains m k}"
proof -
  have "bm_len m = length (bm_keys m)" by (simp add: bm_len_def bm_keys_def)
  also have "\<dots> = card (set (bm_keys m))" by (simp add: distinct_card)
  finally show ?thesis by (simp add: set_bm_keys [symmetric])
qed

lemma finite_bm_contains [simp]: "finite {k. bm_contains m k}"
proof -
  have "{k. bm_contains m k} = set (bm_keys m)" by (auto simp: set_bm_keys)
  then show ?thesis by simp
qed

lemma bm_len_map [simp]: "bm_len (bm_map f m) = bm_len m"
  by (simp add: bm_len_def)

lemma bm_len_update [simp]: "bm_len (bm_update k f m) = bm_len m"
  by (simp add: bm_update_def)

lemma bm_len_remove: "bm_contains m k \<Longrightarrow> bm_len (bm_remove k m) = bm_len m - 1"
proof -
  assume "bm_contains m k"
  moreover have "{k'. bm_contains (bm_remove k m) k'} = {k'. bm_contains m k'} - {k}" by auto
  ultimately show ?thesis by (simp add: bm_len_keys)
qed

lemma bm_len_pos: "bm_contains m k \<Longrightarrow> 0 < bm_len m"
  by (auto simp: bm_len_keys card_gt_0_iff)

lemma find_entries_contains: "List.find P (entries m) = Some (k, v) \<Longrightarrow> bm_get m k = Some v"
  by (auto simp: find_Some_iff bm_get_Some_iff in_set_conv_nth)

lemma bm_insert_update: "bm_get m k = Some v \<Longrightarrow> bm_insert k (f v) m = bm_update k f m"
  by (rule bmap_ext) simp

lemma bm_get_fold_insert:
  "bm_get (fold (\<lambda>(k, v) m. bm_insert k v m) ps m) k =
     (case map_of (rev ps) k of None \<Rightarrow> bm_get m k | Some v \<Rightarrow> Some v)"
  by (induction ps arbitrary: m) (auto simp: map_add_def split: option.splits)

lemma bm_get_of_list: "bm_get (bm_of_list ps) k = map_of (rev ps) k"
  by (simp add: bm_of_list_def bm_get_fold_insert split: option.splits)

lemma bm_contains_of_list: "bm_contains (bm_of_list ps) k \<longleftrightarrow> k \<in> fst ` set ps"
  by (simp add: bm_contains_def bm_get_of_list map_of_eq_None_iff)

lemma bm_get_of_list_distinct:
  assumes "distinct (map fst ps)"
  shows "bm_get (bm_of_list ps) k = map_of ps k"
proof -
  have "map_of (rev ps) = map_of ps"
    using assms by (intro map_of_eqI) (auto simp: rev_map [symmetric])
  then show ?thesis by (simp add: bm_get_of_list)
qed

lemma bm_last_key_ge: "bm_last_key m = Some k \<Longrightarrow> bm_contains m k' \<Longrightarrow> k' \<le> k"
proof -
  assume last: "bm_last_key m = Some k" and "bm_contains m k'"
  then have k': "k' \<in> set (bm_keys m)" by (simp add: set_bm_keys)
  then have k: "k = last (bm_keys m)" "bm_keys m \<noteq> []"
    using last by (auto simp: bm_last_key_def split: list.splits)
  then obtain ks where "bm_keys m = ks @ [k]" by (metis append_butlast_last_id)
  with k' sorted_bm_keys [of m] show ?thesis by (auto simp: sorted_wrt_append)
qed

lemma bm_last_key_None: "bm_last_key m = None \<longleftrightarrow> m = bm_empty"
proof
  assume "bm_last_key m = None"
  then have "entries m = []" by (simp add: bm_last_key_def bm_keys_def split: list.splits)
  then show "m = bm_empty" by (metis entries_inject entries_simps(1))
qed (simp add: bm_last_key_def bm_keys_def)

section \<open>Sets\<close>

type_synonym 'a bset = "('a, unit) bmap"

definition bs_insert :: "'a::linorder \<Rightarrow> 'a bset \<Rightarrow> 'a bset" where
  "bs_insert x s = bm_insert x () s"

definition bs_of_list :: "'a::linorder list \<Rightarrow> 'a bset" where
  "bs_of_list xs = fold bs_insert xs bm_empty"

definition bs_elems :: "'a::linorder bset \<Rightarrow> 'a set" where
  "bs_elems s = {x. bm_contains s x}"

lemma bs_elems_simps [simp]:
  "bs_elems bm_empty = {}"
  "bs_elems (bs_insert x s) = insert x (bs_elems s)"
  by (auto simp: bs_elems_def bs_insert_def)

lemma bs_elems_fold: "bs_elems (fold bs_insert xs s) = set xs \<union> bs_elems s"
  by (induction xs arbitrary: s) auto

lemma bs_elems_of_list [simp]: "bs_elems (bs_of_list xs) = set xs"
  by (simp add: bs_of_list_def bs_elems_fold)

lemma bm_contains_bs_insert [simp]: "bm_contains (bs_insert x s) y = (y = x \<or> bm_contains s y)"
  by (simp add: bs_insert_def)

lemma bm_contains_bs_of_list [simp]: "bm_contains (bs_of_list xs) x \<longleftrightarrow> x \<in> set xs"
  using bs_elems_of_list [of xs] by (auto simp: bs_elems_def)

lemma set_bm_keys_bs [simp]: "set (bm_keys s) = bs_elems s"
  by (auto simp: set_bm_keys bs_elems_def)

lemma finite_bs_elems [simp]: "finite (bs_elems s)"
  by (simp add: bs_elems_def)

lemma bm_len_bs: "bm_len s = card (bs_elems s)"
  by (simp add: bm_len_keys bs_elems_def)

section \<open>The interface\<close>

locale ordered_map =
  fixes empty :: "'m"
    and get :: "'m \<Rightarrow> 'k::linorder \<Rightarrow> 'v option"
    and put :: "'k \<Rightarrow> 'v \<Rightarrow> 'm \<Rightarrow> 'm"
    and del :: "'k \<Rightarrow> 'm \<Rightarrow> 'm"
    and vals :: "'m \<Rightarrow> 'v list"
    and ident :: "'v \<Rightarrow> 'k"
  assumes get_empty: "get empty k = None"
    and get_put: "get (put k v m) k' = (if k' = k then Some v else get m k')"
    and get_del: "get (del k m) k' = (if k' = k then None else get m k')"
    and set_vals: "v \<in> set (vals m) \<longleftrightarrow> (\<exists>k. get m k = Some v)"
begin

text \<open>A collection keyed by the identifier its entities carry.\<close>

definition keyed :: "'m \<Rightarrow> bool" where
  "keyed m \<longleftrightarrow> (\<forall>k v. get m k = Some v \<longrightarrow> ident v = k)"

lemma keyed_empty: "keyed empty"
  by (simp add: keyed_def get_empty)

lemma keyed_put: "keyed m \<Longrightarrow> keyed (put (ident v) v m)"
  by (simp add: keyed_def get_put)

lemma keyed_del: "keyed m \<Longrightarrow> keyed (del k m)"
  by (simp add: keyed_def get_del)

lemma keyed_replace:
  "keyed m \<Longrightarrow> ident v = k \<Longrightarrow> keyed (put k v m)"
  by (simp add: keyed_def get_put)

lemma keyedD: "keyed m \<Longrightarrow> get m k = Some v \<Longrightarrow> ident v = k"
  by (simp add: keyed_def)

lemma keyed_vals: "keyed m \<Longrightarrow> v \<in> set (vals m) \<Longrightarrow> get m (ident v) = Some v"
  by (auto simp: keyed_def set_vals)

lemma vals_put_fresh:
  "get m k = None \<Longrightarrow> set (vals (put k v m)) = insert v (set (vals m))"
  by (auto simp: set_vals get_put split: if_splits) (metis option.distinct(1))+

end

text \<open>The entry lists satisfy the laws, whatever identifier the entities carry.\<close>

lemma bmap_ordered_map: "ordered_map bm_empty bm_get bm_insert bm_remove bm_values"
  by unfold_locales (simp_all add: set_bm_values)

end
