(* ===== verification/Values.thy ===== *)
theory Values
  imports BTree_Map
begin

text \<open>
  The identifiers of \<open>src/domain/ids.rs\<close> and the validated value objects of
  \<open>src/domain/value_objects.rs\<close>, with the small validated strings of \<open>chat.rs\<close>,
  \<open>agents.rs\<close> and \<open>canvas_content.rs\<close>. A constructor that can refuse its input returns a
  result; the lemmas say what an accepted value satisfies.
\<close>

section \<open>Identifiers\<close>

text \<open>
  The macro \<open>define_id!\<close> generates one distinct newtype over \<open>u64\<close> per entity. The phantom
  parameter keeps the identifiers of different entities apart.
\<close>

datatype 'a id = Id (id_get: u64)

instantiation id :: (type) linorder
begin

definition less_eq_id :: "'a id \<Rightarrow> 'a id \<Rightarrow> bool" where
  "less_eq_id x y = (id_get x \<le> id_get y)"

definition less_id :: "'a id \<Rightarrow> 'a id \<Rightarrow> bool" where
  "less_id x y = (id_get x < id_get y)"

instance
  by standard (auto simp: less_eq_id_def less_id_def id.expand)

end

lemma id_less_simps [simp]:
  "(Id a < Id b) = (a < b)"
  "(Id a \<le> Id b) = (a \<le> b)"
  by (simp_all add: less_id_def less_eq_id_def)

datatype workspace_tag = Workspace_Tag
datatype environment_profile_tag = Environment_Profile_Tag
datatype command_preset_tag = Command_Preset_Tag
datatype role_tag = Role_Tag
datatype agent_tag = Agent_Tag
datatype chat_thread_tag = Chat_Thread_Tag
datatype chat_message_tag = Chat_Message_Tag
datatype chat_attachment_tag = Chat_Attachment_Tag
datatype task_tag = Task_Tag
datatype handoff_tag = Handoff_Tag
datatype node_tag = Node_Tag
datatype node_group_tag = Node_Group_Tag
datatype connection_tag = Connection_Tag
datatype timeline_event_tag = Timeline_Event_Tag
datatype routine_tag = Routine_Tag
datatype routine_version_tag = Routine_Version_Tag
datatype routine_step_tag = Routine_Step_Tag
datatype routine_trigger_tag = Routine_Trigger_Tag
datatype routine_run_tag = Routine_Run_Tag
datatype routine_attempt_tag = Routine_Attempt_Tag

type_synonym workspace_id = "workspace_tag id"
type_synonym environment_profile_id = "environment_profile_tag id"
type_synonym command_preset_id = "command_preset_tag id"
type_synonym role_id = "role_tag id"
type_synonym agent_id = "agent_tag id"
type_synonym chat_thread_id = "chat_thread_tag id"
type_synonym chat_message_id = "chat_message_tag id"
type_synonym chat_attachment_id = "chat_attachment_tag id"
type_synonym task_id = "task_tag id"
type_synonym handoff_id = "handoff_tag id"
type_synonym node_id = "node_tag id"
type_synonym node_group_id = "node_group_tag id"
type_synonym connection_id = "connection_tag id"
type_synonym timeline_event_id = "timeline_event_tag id"
type_synonym routine_id = "routine_tag id"
type_synonym routine_version_id = "routine_version_tag id"
type_synonym routine_step_id = "routine_step_tag id"
type_synonym routine_trigger_id = "routine_trigger_tag id"
type_synonym routine_run_id = "routine_run_tag id"
type_synonym routine_attempt_id = "routine_attempt_tag id"

section \<open>Validation errors\<close>

datatype validation_problem = VP_Empty | VP_TooLong nat | VP_NotFinite | VP_NotPositive

datatype validation_error = ValidationError string validation_problem

section \<open>Validated strings\<close>

datatype name = Name (name_str: string)

definition name_max_chars :: nat where "name_max_chars = 100"

definition name_new :: "string \<Rightarrow> (validation_error, name) result" where
  "name_new value =
     (let value = str_trim value in
      if value = [] then Inl (ValidationError ''name'' VP_Empty)
      else if name_max_chars < chars_count value
      then Inl (ValidationError ''name'' (VP_TooLong name_max_chars))
      else Inr (Name value))"

datatype workspace_icon = WorkspaceIcon (workspace_icon_str: string)

definition workspace_icon_max_chars :: nat where "workspace_icon_max_chars = 32"

definition workspace_icon_new :: "string \<Rightarrow> (validation_error, workspace_icon) result" where
  "workspace_icon_new value =
     (let value = str_trim value in
      if value = [] then Inl (ValidationError ''workspace icon'' VP_Empty)
      else if workspace_icon_max_chars < chars_count value
      then Inl (ValidationError ''workspace icon'' (VP_TooLong workspace_icon_max_chars))
      else Inr (WorkspaceIcon value))"

datatype workspace_directory = WorkspaceDirectory (workspace_directory_str: string)

definition workspace_directory_max_chars :: nat where "workspace_directory_max_chars = 32768"

definition workspace_directory_new ::
  "string \<Rightarrow> (validation_error, workspace_directory) result" where
  "workspace_directory_new value =
     (if value = [] then Inl (ValidationError ''working directory'' VP_Empty)
      else if workspace_directory_max_chars < chars_count value
      then Inl (ValidationError ''working directory'' (VP_TooLong workspace_directory_max_chars))
      else Inr (WorkspaceDirectory value))"

datatype content = Content (content_str: string)

definition content_max_chars :: nat where "content_max_chars = 65536"

definition content_new :: "string \<Rightarrow> (validation_error, content) result" where
  "content_new value =
     (if str_trim value = [] then Inl (ValidationError ''content'' VP_Empty)
      else if content_max_chars < chars_count value
      then Inl (ValidationError ''content'' (VP_TooLong content_max_chars))
      else Inr (Content value))"

instantiation workspace_directory :: linorder
begin

definition less_eq_workspace_directory :: "workspace_directory \<Rightarrow> workspace_directory \<Rightarrow> bool" where
  "less_eq_workspace_directory x y = (workspace_directory_str x \<le> workspace_directory_str y)"

definition less_workspace_directory :: "workspace_directory \<Rightarrow> workspace_directory \<Rightarrow> bool" where
  "less_workspace_directory x y = (workspace_directory_str x < workspace_directory_str y)"

instance
  by standard
    (auto simp: less_eq_workspace_directory_def less_workspace_directory_def
      workspace_directory.expand)

end

section \<open>Canvas geometry\<close>

text \<open>
  An \<open>f32\<close> is its IEEE 754 bit pattern: a sign bit, eight exponent bits and 23 fraction bits.
  The domain only tests finiteness and sign and compares for equality, where the two zeros are
  equal and a NaN is equal to nothing.
\<close>

datatype f32 = F32 (f32_bits: u32)

definition f32_exponent :: "f32 \<Rightarrow> nat" where
  "f32_exponent x = (unat (f32_bits x) div 2 ^ 23) mod 256"

definition f32_is_finite :: "f32 \<Rightarrow> bool" where
  "f32_is_finite x = (f32_exponent x \<noteq> 255)"

definition f32_is_zero :: "f32 \<Rightarrow> bool" where
  "f32_is_zero x = (unat (f32_bits x) mod 2 ^ 31 = 0)"

definition f32_is_nan :: "f32 \<Rightarrow> bool" where
  "f32_is_nan x = (\<not> f32_is_finite x \<and> unat (f32_bits x) mod 2 ^ 23 \<noteq> 0)"

definition f32_le_zero :: "f32 \<Rightarrow> bool" where
  "f32_le_zero x = (\<not> f32_is_nan x \<and> (2 ^ 31 \<le> unat (f32_bits x) \<or> f32_is_zero x))"

definition f32_eq :: "f32 \<Rightarrow> f32 \<Rightarrow> bool" where
  "f32_eq x y =
     (\<not> f32_is_nan x \<and> \<not> f32_is_nan y \<and>
      (f32_bits x = f32_bits y \<or> f32_is_zero x \<and> f32_is_zero y))"

record canvas_point =
  point_x :: f32
  point_y :: f32

definition canvas_point_new :: "f32 \<Rightarrow> f32 \<Rightarrow> (validation_error, canvas_point) result" where
  "canvas_point_new x y =
     (if \<not> f32_is_finite x \<or> \<not> f32_is_finite y
      then Inl (ValidationError ''canvas position'' VP_NotFinite)
      else Inr \<lparr>point_x = x, point_y = y\<rparr>)"

record canvas_size =
  size_width :: f32
  size_height :: f32

definition canvas_size_new :: "f32 \<Rightarrow> f32 \<Rightarrow> (validation_error, canvas_size) result" where
  "canvas_size_new w h =
     (if \<not> f32_is_finite w \<or> \<not> f32_is_finite h
      then Inl (ValidationError ''canvas size'' VP_NotFinite)
      else if f32_le_zero w \<or> f32_le_zero h
      then Inl (ValidationError ''canvas size'' VP_NotPositive)
      else Inr \<lparr>size_width = w, size_height = h\<rparr>)"

definition canvas_point_eq :: "canvas_point \<Rightarrow> canvas_point \<Rightarrow> bool" where
  "canvas_point_eq p q = (f32_eq (point_x p) (point_x q) \<and> f32_eq (point_y p) (point_y q))"

definition canvas_size_eq :: "canvas_size \<Rightarrow> canvas_size \<Rightarrow> bool" where
  "canvas_size_eq p q =
     (f32_eq (size_width p) (size_width q) \<and> f32_eq (size_height p) (size_height q))"

section \<open>Timestamps\<close>

type_synonym timestamp = u64 \<comment> \<open>milliseconds since the Unix epoch\<close>

section \<open>Colours and project paths\<close>

definition is_hex_color :: "string \<Rightarrow> bool" where
  "is_hex_color value =
     (length value = 7 \<and> str_starts_with value ''#'' \<and> list_all is_ascii_hexdigit (drop 1 value))"

datatype thread_color = ThreadColor (thread_color_str: string)

definition thread_color_default :: thread_color where
  "thread_color_default = ThreadColor ''#2563EB''"

definition project_path_max_chars :: nat where "project_path_max_chars = 32768"

datatype project_path_error = PPE_Empty | PPE_TooLong | PPE_NotNormalized | PPE_InvalidCharacter

datatype project_path = ProjectPath (project_path_str: string)

definition is_invalid_component :: "string \<Rightarrow> bool" where
  "is_invalid_component component = (component = [] \<or> component = ''.'' \<or> component = ''..'')"

definition looks_like_windows_drive :: "string \<Rightarrow> bool" where
  "looks_like_windows_drive component =
     (case component of
        a # b # _ \<Rightarrow> b = CHR '':'' \<and> is_ascii_alphabetic a
      | _ \<Rightarrow> False)"

definition project_path_new :: "string \<Rightarrow> (project_path_error, project_path) result" where
  "project_path_new value =
     (if value = [] then Inl PPE_Empty
      else if project_path_max_chars < chars_count value then Inl PPE_TooLong
      else if value = ''.'' then Inr (ProjectPath value)
      else if str_starts_with value ''/'' \<or> str_starts_with value [CHR 0x5C]
              \<or> CHR 0x5C \<in> set value
      then Inl PPE_NotNormalized
      else if CHR 0x00 \<in> set value then Inl PPE_InvalidCharacter
      else case str_split (CHR ''/'') value of
             [] \<Rightarrow> Inl PPE_Empty
           | first # components \<Rightarrow>
               if is_invalid_component first \<or> looks_like_windows_drive first
               then Inl PPE_NotNormalized
               else if list_ex is_invalid_component components
               then Inl PPE_NotNormalized
               else Inr (ProjectPath value))"

section \<open>What an accepted value satisfies\<close>

lemma name_new_Inr_iff [result_iff]:
  "name_new s = Inr n \<longleftrightarrow>
     n = Name (str_trim s) \<and> str_trim s \<noteq> [] \<and> chars_count (str_trim s) \<le> name_max_chars"
  by (auto simp: name_new_def Let_def)

lemma content_new_Inr_iff [result_iff]:
  "content_new s = Inr c \<longleftrightarrow>
     c = Content s \<and> str_trim s \<noteq> [] \<and> chars_count s \<le> content_max_chars"
  by (auto simp: content_new_def)

lemma canvas_size_new_Inr_iff [result_iff]:
  "canvas_size_new w h = Inr s \<longleftrightarrow>
     s = \<lparr>size_width = w, size_height = h\<rparr> \<and> f32_is_finite w \<and> f32_is_finite h \<and>
     \<not> f32_le_zero w \<and> \<not> f32_le_zero h"
  by (auto simp: canvas_size_new_def)

text \<open>Where a normalized relative path leads, one component at a time from a directory depth.\<close>

fun path_depth :: "nat \<Rightarrow> string list \<Rightarrow> nat option" where
  "path_depth d [] = Some d"
| "path_depth d (c # cs) =
     (if c = '''' \<or> c = ''.'' then path_depth d cs
      else if c = ''..'' then (case d of 0 \<Rightarrow> None | Suc d' \<Rightarrow> path_depth d' cs)
      else path_depth (Suc d) cs)"

lemma path_depth_valid:
  "list_all (\<lambda>c. \<not> is_invalid_component c) cs \<Longrightarrow> path_depth d cs = Some (d + length cs)"
  by (induction cs arbitrary: d) (auto simp: is_invalid_component_def)

lemma project_path_new_components:
  assumes "project_path_new s = Inr p" and "s \<noteq> ''.''"
  shows "list_all (\<lambda>c. \<not> is_invalid_component c) (str_split (CHR ''/'') s)"
  using assms
  by (auto simp: project_path_new_def list_ex_iff list_all_iff split: if_splits list.splits)

lemma project_path_new_str: "project_path_new s = Inr p \<Longrightarrow> p = ProjectPath s"
  by (auto simp: project_path_new_def split: if_splits list.splits)

end
