(* ===== verification/Config.thy ===== *)
theory Config
  imports Values
begin

text \<open>
  Command presets, role appearance (\<open>src/domain/agents.rs\<close>) and execution environments
  (\<open>src/domain/environments.rs\<close>): configuration that ends up as arguments of a spawned
  process, so every text is length-checked and free of the bytes that would split a command.
\<close>

section \<open>Errors\<close>

text \<open>
  \<open>AgentConfigurationError\<close> and \<open>EnvironmentValidationError\<close> have the same shape; one type
  with the union of their problems stands for both.
\<close>

datatype config_problem =
    CP_Empty
  | CP_TooLong nat
  | CP_TooManyArguments nat
  | CP_Zero
  | CP_ControlCharacter
  | CP_InvalidColor
  | CP_InvalidIdentifier

datatype config_error = ConfigError string config_problem

definition max_arguments :: nat where "max_arguments = 256"
definition max_value_chars :: nat where "max_value_chars = 32768"

definition has_control :: "string \<Rightarrow> bool" where
  "has_control value = (list_ex (\<lambda>c. c = CHR 0x00 \<or> c = CHR 0x0A \<or> c = CHR 0x0D) value)"

text \<open>Both files declare the same private checks.\<close>

definition validate_text :: "string \<Rightarrow> string \<Rightarrow> (config_error, string) result" where
  "validate_text field value =
     (if value = [] then Inl (ConfigError field CP_Empty)
      else if max_value_chars < chars_count value
      then Inl (ConfigError field (CP_TooLong max_value_chars))
      else if has_control value then Inl (ConfigError field CP_ControlCharacter)
      else Inr value)"

definition validate_argument :: "string \<Rightarrow> string \<Rightarrow> (config_error, string) result" where
  "validate_argument field value =
     (if max_value_chars < chars_count value
      then Inl (ConfigError field (CP_TooLong max_value_chars))
      else if CHR 0x00 \<in> set value then Inl (ConfigError field CP_ControlCharacter)
      else Inr value)"

definition validate_identifier :: "string \<Rightarrow> string \<Rightarrow> (config_error, string) result" where
  "validate_identifier field value =
     res_bind (validate_text field value) (\<lambda>value.
       if str_starts_with value ''-'' \<or> has_whitespace value
       then Inl (ConfigError field CP_InvalidIdentifier)
       else Inr value)"

section \<open>Command presets\<close>

record command_preset =
  preset_id :: command_preset_id
  preset_name :: name
  preset_executable :: string
  preset_arguments :: "string list"

definition command_preset_new ::
  "command_preset_id \<Rightarrow> name \<Rightarrow> string \<Rightarrow> string list \<Rightarrow> (config_error, command_preset) result" where
  "command_preset_new pid nm executable arguments =
     (if max_arguments < length arguments
      then Inl (ConfigError ''preset arguments'' (CP_TooManyArguments max_arguments))
      else res_bind (try_map (validate_argument ''preset argument'') arguments) (\<lambda>arguments.
           res_bind (validate_text ''preset executable'' executable) (\<lambda>executable.
             Inr \<lparr>preset_id = pid, preset_name = nm, preset_executable = executable,
                  preset_arguments = arguments\<rparr>)))"

section \<open>Role appearance\<close>

datatype role_color = RoleColor (role_color_str: string)

definition role_color_default :: role_color where "role_color_default = RoleColor ''#6D7CFF''"

definition role_color_new :: "string \<Rightarrow> (config_error, role_color) result" where
  "role_color_new value =
     (if \<not> is_hex_color value then Inl (ConfigError ''role color'' CP_InvalidColor)
      else Inr (RoleColor (to_ascii_uppercase value)))"

datatype role_icon = RoleIcon (role_icon_str: string)

definition role_icon_default :: role_icon where "role_icon_default = RoleIcon ''agent''"

definition role_icon_max_chars :: nat where "role_icon_max_chars = 32"

definition role_icon_new :: "string \<Rightarrow> (config_error, role_icon) result" where
  "role_icon_new value =
     (let value = str_trim value in
      if value = [] then Inl (ConfigError ''role icon'' CP_Empty)
      else if role_icon_max_chars < chars_count value
      then Inl (ConfigError ''role icon'' (CP_TooLong role_icon_max_chars))
      else if has_control value then Inl (ConfigError ''role icon'' CP_ControlCharacter)
      else Inr (RoleIcon value))"

section \<open>Environments\<close>

record ssh_environment =
  ssh_host :: string
  ssh_user :: "string option"
  ssh_port :: "u16 option"
  ssh_working_directory :: string

record container_environment =
  container_engine :: string
  container_name :: string
  container_working_directory :: string

record custom_environment =
  custom_executable :: string
  custom_arguments :: "string list"
  custom_working_directory :: workspace_directory

datatype environment_kind =
    EK_Ssh ssh_environment
  | EK_Container container_environment
  | EK_Custom custom_environment

record environment_profile =
  env_id :: environment_profile_id
  env_name :: name
  env_kind :: environment_kind

definition ssh_environment_new ::
  "string \<Rightarrow> string option \<Rightarrow> u16 option \<Rightarrow> string \<Rightarrow> (config_error, ssh_environment) result" where
  "ssh_environment_new host user port dir =
     res_bind (validate_identifier ''SSH host'' host) (\<lambda>host.
     res_bind (case user of
                 None \<Rightarrow> Inr None
               | Some u \<Rightarrow> res_bind (validate_identifier ''SSH user'' u) (\<lambda>u. Inr (Some u)))
       (\<lambda>user.
     res_bind (ensure (port \<noteq> Some 0) (ConfigError ''SSH port'' CP_Zero)) (\<lambda>_.
     res_bind (validate_text ''remote working directory'' dir) (\<lambda>dir.
       Inr \<lparr>ssh_host = host, ssh_user = user, ssh_port = port, ssh_working_directory = dir\<rparr>))))"

definition container_environment_new ::
  "string \<Rightarrow> string \<Rightarrow> string \<Rightarrow> (config_error, container_environment) result" where
  "container_environment_new engine container dir =
     res_bind (validate_text ''container engine'' engine) (\<lambda>engine.
     res_bind (validate_identifier ''container'' container) (\<lambda>container.
     res_bind (validate_text ''container working directory'' dir) (\<lambda>dir.
       Inr \<lparr>container_engine = engine, container_name = container,
            container_working_directory = dir\<rparr>)))"

definition custom_environment_new ::
  "string \<Rightarrow> string list \<Rightarrow> workspace_directory \<Rightarrow> (config_error, custom_environment) result" where
  "custom_environment_new executable arguments dir =
     (if max_arguments < length arguments
      then Inl (ConfigError ''custom arguments'' (CP_TooManyArguments max_arguments))
      else res_bind (try_map (validate_argument ''custom argument'') arguments) (\<lambda>arguments.
           res_bind (validate_text ''custom executable'' executable) (\<lambda>executable.
             Inr \<lparr>custom_executable = executable, custom_arguments = arguments,
                  custom_working_directory = dir\<rparr>)))"

section \<open>Accepted configuration\<close>

lemma validate_text_Inr_iff [result_iff]:
  "validate_text field s = Inr t \<longleftrightarrow>
     t = s \<and> s \<noteq> [] \<and> chars_count s \<le> max_value_chars \<and> \<not> has_control s"
  by (auto simp: validate_text_def)

lemma validate_argument_Inr_iff [result_iff]:
  "validate_argument field s = Inr t \<longleftrightarrow>
     t = s \<and> chars_count s \<le> max_value_chars \<and> CHR 0x00 \<notin> set s"
  by (auto simp: validate_argument_def)

lemma validate_identifier_Inr_iff [result_iff]:
  "validate_identifier field s = Inr t \<longleftrightarrow>
     t = s \<and> s \<noteq> [] \<and> chars_count s \<le> max_value_chars \<and> \<not> has_control s \<and>
     \<not> str_starts_with s ''-'' \<and> \<not> has_whitespace s"
  by (auto simp: validate_identifier_def result_iff)

lemma try_map_validate_argument:
  "try_map (validate_argument field) args = Inr args' \<Longrightarrow>
     args' = args \<and> (\<forall>a\<in>set args. CHR 0x00 \<notin> set a)"
  unfolding try_map_Inr_iff
  by (induction args args' rule: list_all2_induct) (auto simp: result_iff)

lemma ssh_environment_new_Inr:
  "ssh_environment_new h u p d = Inr e \<Longrightarrow>
     e = \<lparr>ssh_host = h, ssh_user = u, ssh_port = p, ssh_working_directory = d\<rparr> \<and>
     h \<noteq> [] \<and> \<not> str_starts_with h ''-'' \<and> \<not> has_whitespace h \<and>
     (\<forall>v. u = Some v \<longrightarrow> \<not> str_starts_with v ''-'' \<and> \<not> has_whitespace v) \<and> p \<noteq> Some 0"
  by (auto simp: ssh_environment_new_def result_iff split: option.splits)

end
