(* ===== verification/Lifecycle.thy ===== *)
theory Lifecycle
  imports Values
begin

text \<open>
  The agent and task state machines of \<open>src/domain/lifecycle.rs\<close>, and the locale that states
  what the rest of the domain relies on when it moves an entity along one of them.
\<close>

section \<open>Transition tables\<close>

datatype agent_state = AS_Starting | AS_Running | AS_Waiting | AS_Completed | AS_Failed | AS_Stopped

definition agent_can_transition :: "agent_state \<Rightarrow> agent_state \<Rightarrow> bool" where
  "agent_can_transition from to =
     (case from of
        AS_Starting \<Rightarrow> to \<in> set [AS_Running, AS_Failed, AS_Stopped]
      | AS_Running \<Rightarrow> to \<in> set [AS_Waiting, AS_Completed, AS_Failed, AS_Stopped]
      | AS_Waiting \<Rightarrow> to \<in> set [AS_Running, AS_Completed, AS_Failed, AS_Stopped]
      | _ \<Rightarrow> False)"

datatype task_state =
  TS_Queued | TS_Delivered | TS_Running | TS_Blocked | TS_Completed | TS_Failed | TS_Cancelled

definition task_can_transition :: "task_state \<Rightarrow> task_state \<Rightarrow> bool" where
  "task_can_transition from to =
     (case from of
        TS_Queued \<Rightarrow> to \<in> set [TS_Delivered, TS_Failed, TS_Cancelled]
      | TS_Delivered \<Rightarrow> to \<in> set [TS_Running, TS_Failed, TS_Cancelled]
      | TS_Running \<Rightarrow> to \<in> set [TS_Blocked, TS_Completed, TS_Failed, TS_Cancelled]
      | TS_Blocked \<Rightarrow> to \<in> set [TS_Running, TS_Failed, TS_Cancelled]
      | _ \<Rightarrow> False)"

text \<open>The states of the tables of \<open>docs/domain-model.md\<close> with no successor.\<close>

fun agent_terminal :: "agent_state \<Rightarrow> bool" where
  "agent_terminal s = (s \<in> set [AS_Completed, AS_Failed, AS_Stopped])"

fun task_terminal :: "task_state \<Rightarrow> bool" where
  "task_terminal s = (s \<in> set [TS_Completed, TS_Failed, TS_Cancelled])"

section \<open>The contract of a lifecycle\<close>

locale lifecycle =
  fixes step :: "'s \<Rightarrow> 's \<Rightarrow> bool"
    and terminal :: "'s \<Rightarrow> bool"
    and start :: "'s"
  assumes stuck_iff: "terminal s \<longleftrightarrow> (\<forall>t. \<not> step s t)"
    and irreflexive: "\<not> step s s"
    and never_restarts: "\<not> step s start"
begin

lemma terminal_absorbing: "step\<^sup>*\<^sup>* s t \<Longrightarrow> terminal s \<Longrightarrow> t = s"
  by (erule converse_rtranclpE) (auto simp: stuck_iff)

lemma no_return_to_start: "step\<^sup>*\<^sup>* s start \<Longrightarrow> s = start"
  by (erule rtranclp.cases) (auto simp: never_restarts)

lemma live_can_move: "\<not> terminal s \<Longrightarrow> \<exists>t. step s t \<and> t \<noteq> s"
  by (metis stuck_iff irreflexive)

text \<open>A history is a list of states in which neighbours are related.\<close>

fun history :: "'s \<Rightarrow> 's list \<Rightarrow> bool" where
  "history s [] = True"
| "history s (t # ts) = (step s t \<and> history t ts)"

lemma history_reach: "history s ts \<Longrightarrow> t \<in> set ts \<Longrightarrow> step\<^sup>+\<^sup>+ s t"
proof (induction ts arbitrary: s)
  case (Cons u ts)
  then show ?case
    by (cases "t = u") (auto intro: tranclp.r_into_trancl tranclp_into_tranclp2)
qed simp

lemma history_terminal_last:
  assumes "history s (ts @ t # us)" and "terminal t"
  shows "us = []"
  using assms by (induction ts arbitrary: s; cases us) (auto simp: stuck_iff)

end

text \<open>Every state that is not terminal can still be brought to an end.\<close>

locale ending_lifecycle = lifecycle +
  assumes can_end: "\<not> terminal s \<Longrightarrow> \<exists>t. step s t \<and> terminal t"
begin

lemma always_ends: "\<exists>t. step\<^sup>*\<^sup>* s t \<and> terminal t"
  by (metis can_end r_into_rtranclp rtranclp.rtrancl_refl)

end

section \<open>Both tables satisfy it\<close>

lemma agent_can_transition_simps [simp]:
  "agent_can_transition AS_Starting t = (t \<in> {AS_Running, AS_Failed, AS_Stopped})"
  "agent_can_transition AS_Running t = (t \<in> {AS_Waiting, AS_Completed, AS_Failed, AS_Stopped})"
  "agent_can_transition AS_Waiting t = (t \<in> {AS_Running, AS_Completed, AS_Failed, AS_Stopped})"
  "agent_can_transition AS_Completed t = False"
  "agent_can_transition AS_Failed t = False"
  "agent_can_transition AS_Stopped t = False"
  by (simp_all add: agent_can_transition_def)

lemma task_can_transition_simps [simp]:
  "task_can_transition TS_Queued t = (t \<in> {TS_Delivered, TS_Failed, TS_Cancelled})"
  "task_can_transition TS_Delivered t = (t \<in> {TS_Running, TS_Failed, TS_Cancelled})"
  "task_can_transition TS_Running t = (t \<in> {TS_Blocked, TS_Completed, TS_Failed, TS_Cancelled})"
  "task_can_transition TS_Blocked t = (t \<in> {TS_Running, TS_Failed, TS_Cancelled})"
  "task_can_transition TS_Completed t = False"
  "task_can_transition TS_Failed t = False"
  "task_can_transition TS_Cancelled t = False"
  by (simp_all add: task_can_transition_def)

interpretation agent_lc: ending_lifecycle agent_can_transition agent_terminal AS_Starting
proof unfold_locales
  fix s t :: agent_state
  show "agent_terminal s \<longleftrightarrow> (\<forall>t. \<not> agent_can_transition s t)" by (cases s) auto
  show "\<not> agent_can_transition s s" by (cases s) auto
  show "\<not> agent_can_transition s AS_Starting" by (cases s) auto
  show "\<not> agent_terminal s \<Longrightarrow> \<exists>t. agent_can_transition s t \<and> agent_terminal t"
    by (cases s) auto
qed

interpretation task_lc: ending_lifecycle task_can_transition task_terminal TS_Queued
proof unfold_locales
  fix s t :: task_state
  show "task_terminal s \<longleftrightarrow> (\<forall>t. \<not> task_can_transition s t)" by (cases s) auto
  show "\<not> task_can_transition s s" by (cases s) auto
  show "\<not> task_can_transition s TS_Queued" by (cases s) auto
  show "\<not> task_terminal s \<Longrightarrow> \<exists>t. task_can_transition s t \<and> task_terminal t"
    by (cases s) auto
qed

text \<open>A task completes only from Running: no completion without a delivery.\<close>

lemma task_completes_from_running: "task_can_transition s TS_Completed \<Longrightarrow> s = TS_Running"
  by (cases s) auto

lemma agent_cannot_complete_unstarted: "\<not> agent_can_transition AS_Starting AS_Completed"
  by simp

end
