(* ===== verification/Routine_Base.thy ===== *)
theory Routine_Base
  imports Values
begin

text \<open>
  The vocabulary of \<open>src/domain/routines.rs\<close>: validated keys and values, the states of runs and
  steps, and the error type of the module.
\<close>

section \<open>Limits\<close>

definition max_routine_steps :: nat where "max_routine_steps = 128"
definition max_step_dependencies :: nat where "max_step_dependencies = 32"
definition max_routine_keys :: nat where "max_routine_keys = 64"
definition max_step_resources :: nat where "max_step_resources = 16"
definition max_trigger_patterns :: nat where "max_trigger_patterns = 64"

section \<open>Keys\<close>

text \<open>The macro \<open>define_key!\<close> generates one newtype over \<open>String\<close> per kind of key.\<close>

datatype 'a key = Key (key_str: string)

instantiation key :: (type) linorder
begin

definition less_eq_key :: "'a key \<Rightarrow> 'a key \<Rightarrow> bool" where
  "less_eq_key x y = (key_str x \<le> key_str y)"

definition less_key :: "'a key \<Rightarrow> 'a key \<Rightarrow> bool" where
  "less_key x y = (key_str x < key_str y)"

instance
  by standard (auto simp: less_eq_key_def less_key_def key.expand)

end

lemma key_less_simps [simp]:
  "(Key a < Key b) = (a < b)"
  "(Key a \<le> Key b) = (a \<le> b)"
  by (simp_all add: less_key_def less_eq_key_def)

datatype routine_input_tag = Routine_Input_Tag
datatype routine_output_tag = Routine_Output_Tag
datatype routine_resource_tag = Routine_Resource_Tag
datatype routine_occurrence_tag = Routine_Occurrence_Tag

type_synonym routine_input_key = "routine_input_tag key"
type_synonym routine_output_key = "routine_output_tag key"
type_synonym routine_resource_key = "routine_resource_tag key"
type_synonym routine_occurrence_key = "routine_occurrence_tag key"

datatype routine_value = RoutineValue (routine_value_str: string)

section \<open>States\<close>

datatype routine_run_state =
    RS_Running
  | RS_Cancelling
  | RS_Completed
  | RS_Failed
  | RS_Cancelled
  | RS_Interrupted

definition run_state_is_terminal :: "routine_run_state \<Rightarrow> bool" where
  "run_state_is_terminal s = (s \<in> set [RS_Completed, RS_Failed, RS_Cancelled, RS_Interrupted])"

datatype routine_step_state =
    SS_Pending
  | SS_AwaitingApproval
  | SS_Dispatched
  | SS_Completed
  | SS_Failed
  | SS_Cancelled
  | SS_Skipped
  | SS_Interrupted

definition step_state_is_terminal :: "routine_step_state \<Rightarrow> bool" where
  "step_state_is_terminal s = (s \<in> set [SS_Completed, SS_Failed, SS_Cancelled, SS_Skipped])"

definition step_state_holds_reservations :: "routine_step_state \<Rightarrow> bool" where
  "step_state_holds_reservations s = (s \<in> set [SS_Dispatched, SS_Interrupted])"

lemma run_state_is_terminal_simps [simp]:
  "run_state_is_terminal RS_Running = False"
  "run_state_is_terminal RS_Cancelling = False"
  "run_state_is_terminal RS_Completed = True"
  "run_state_is_terminal RS_Failed = True"
  "run_state_is_terminal RS_Cancelled = True"
  "run_state_is_terminal RS_Interrupted = True"
  by (simp_all add: run_state_is_terminal_def)

lemma step_state_is_terminal_simps [simp]:
  "step_state_is_terminal SS_Pending = False"
  "step_state_is_terminal SS_AwaitingApproval = False"
  "step_state_is_terminal SS_Dispatched = False"
  "step_state_is_terminal SS_Completed = True"
  "step_state_is_terminal SS_Failed = True"
  "step_state_is_terminal SS_Cancelled = True"
  "step_state_is_terminal SS_Skipped = True"
  "step_state_is_terminal SS_Interrupted = False"
  by (simp_all add: step_state_is_terminal_def)

lemma step_state_holds_reservations_simps [simp]:
  "step_state_holds_reservations SS_Pending = False"
  "step_state_holds_reservations SS_AwaitingApproval = False"
  "step_state_holds_reservations SS_Dispatched = True"
  "step_state_holds_reservations SS_Completed = False"
  "step_state_holds_reservations SS_Failed = False"
  "step_state_holds_reservations SS_Cancelled = False"
  "step_state_holds_reservations SS_Skipped = False"
  "step_state_holds_reservations SS_Interrupted = True"
  by (simp_all add: step_state_holds_reservations_def)

section \<open>Errors\<close>

datatype routine_error =
    RE_InvalidKey string
  | RE_ValueTooLong nat
  | RE_TooMany string nat
  | RE_EmptyRoutine routine_id
  | RE_DuplicateStep routine_step_id
  | RE_DuplicateInput routine_input_key
  | RE_DuplicateVersion routine_version_id
  | RE_UnknownDependency routine_step_id routine_step_id
  | RE_DependencyCycle routine_step_id
  | RE_UnknownInputReference routine_step_id routine_input_key
  | RE_UnorderedOutputReference routine_step_id routine_step_id
  | RE_UndeclaredOutputReference routine_step_id routine_step_id routine_output_key
  | RE_UnterminatedPlaceholder routine_step_id
  | RE_UnboundPlaceholder routine_step_id routine_input_key
  | RE_EmptyRenderedPrompt routine_step_id
  | RE_InvalidVersionNumber u32
  | RE_VersionRoutineMismatch routine_id routine_version_id
  | RE_InvalidRetryPolicy
  | RE_InvalidCadence
  | RE_InvalidTimezoneOffset int
  | RE_InvalidDebounce u64
  | RE_InvalidGitRef string
  | RE_OccurrenceAlreadyConsumed routine_occurrence_key
  | RE_UnknownInput routine_input_key
  | RE_MissingInput routine_input_key
  | RE_UnpinnedStepBinding routine_step_id
  | RE_UnpinnedStepCheckout routine_step_id
  | RE_UnknownStep routine_step_id
  | RE_MissingStepOutput routine_step_id routine_step_id routine_output_key
  | RE_UndeclaredOutput routine_step_id routine_output_key
  | RE_MissingOutput routine_step_id routine_output_key
  | RE_DependenciesUnmet routine_step_id
  | RE_ApprovalAlreadyRecorded routine_step_id
  | RE_InvalidStepTransition routine_step_id routine_step_state string
  | RE_InvalidRunTransition routine_run_id routine_run_state string
  | RE_InvalidAttemptOrdinal u32
  | RE_InvalidAttemptTime u32
  | RE_AttemptAlreadyFinished u32
  | RE_NoAttempt routine_step_id
  | RE_RetryBudgetExhausted routine_step_id u32
  | RE_IdentifierExhausted string

section \<open>Validated keys and values\<close>

definition is_key_byte :: "char \<Rightarrow> bool" where
  "is_key_byte c = (is_ascii_alphanumeric c \<or> c = CHR ''-'' \<or> c = CHR ''_'' \<or> c = CHR ''.'')"

definition key_new :: "string \<Rightarrow> nat \<Rightarrow> string \<Rightarrow> (routine_error, 'a key) result" where
  "key_new field max_chars value =
     (if value = [] \<or> max_chars < chars_count value then Inl (RE_InvalidKey field)
      else if \<not> list_all is_key_byte value then Inl (RE_InvalidKey field)
      else Inr (Key value))"

definition input_key_new :: "string \<Rightarrow> (routine_error, routine_input_key) result" where
  "input_key_new = key_new ''routine input key'' 64"

definition output_key_new :: "string \<Rightarrow> (routine_error, routine_output_key) result" where
  "output_key_new = key_new ''routine output key'' 64"

definition resource_key_new :: "string \<Rightarrow> (routine_error, routine_resource_key) result" where
  "resource_key_new = key_new ''routine resource key'' 64"

definition occurrence_key_new :: "string \<Rightarrow> (routine_error, routine_occurrence_key) result" where
  "occurrence_key_new = key_new ''routine trigger occurrence'' 160"

definition routine_value_max_chars :: nat where "routine_value_max_chars = 16384"

definition routine_value_new :: "string \<Rightarrow> (routine_error, routine_value) result" where
  "routine_value_new value =
     (if routine_value_max_chars < chars_count value
      then Inl (RE_ValueTooLong routine_value_max_chars)
      else Inr (RoutineValue value))"

lemma key_new_Inr_iff [result_iff]:
  "key_new field mx s = Inr k \<longleftrightarrow>
     k = Key s \<and> s \<noteq> [] \<and> chars_count s \<le> mx \<and> list_all is_key_byte s"
  by (auto simp: key_new_def)

lemma input_key_new_error: "input_key_new s = Inl e \<Longrightarrow> e = RE_InvalidKey ''routine input key''"
  by (auto simp: input_key_new_def key_new_def split: if_splits)

end
