(* ===== verification/Entities.thy ===== *)
theory Entities
  imports Config Lifecycle Routine_Base
begin

text \<open>
  The workspace-owned entities of \<open>src/domain/entities.rs\<close> that are plain data: roles, agents,
  tasks, the settings record of \<open>workspace.rs\<close>, and the descriptions of who submitted a handoff and what it carries.
\<close>

section \<open>Workspace settings\<close>

record workspace_settings =
  ws_name :: name
  ws_icon :: "workspace_icon option"
  ws_working_directory :: "workspace_directory option"
  ws_instructions :: "content option"

section \<open>Roles\<close>

record role =
  role_ident :: role_id
  role_name :: name
  role_color :: role_color
  role_icon :: role_icon
  role_instructions :: content

definition role_new :: "role_id \<Rightarrow> name \<Rightarrow> content \<Rightarrow> role" where
  "role_new rid nm instructions =
     \<lparr>role_ident = rid, role_name = nm, role_color = role_color_default,
      role_icon = role_icon_default, role_instructions = instructions\<rparr>"

section \<open>Agents\<close>

datatype agent_program = AP_Codex | AP_Claude | AP_OpenCode | AP_Custom command_preset_id | AP_Shell

record agent =
  agent_ident :: agent_id
  agent_name :: name
  agent_role :: "role_id option"
  agent_program :: agent_program
  agent_environment :: "environment_profile_id option"
  agent_state :: agent_state

definition agent_with_program ::
  "agent_id \<Rightarrow> name \<Rightarrow> role_id option \<Rightarrow> agent_program \<Rightarrow> agent" where
  "agent_with_program aid nm rid program =
     \<lparr>agent_ident = aid, agent_name = nm, agent_role = rid, agent_program = program,
      agent_environment = None, agent_state = AS_Starting\<rparr>"

definition agent_new :: "agent_id \<Rightarrow> name \<Rightarrow> role_id option \<Rightarrow> agent" where
  "agent_new aid nm rid = agent_with_program aid nm rid AP_Shell"

definition agent_in_environment :: "environment_profile_id \<Rightarrow> agent \<Rightarrow> agent" where
  "agent_in_environment eid a = a\<lparr>agent_environment := Some eid\<rparr>"

section \<open>Tasks\<close>

record task =
  task_ident :: task_id
  task_title :: name
  task_prompt :: content
  task_assignee :: "agent_id option"
  task_retry_of :: "task_id option"
  task_state :: task_state

definition task_new ::
  "task_id \<Rightarrow> name \<Rightarrow> content \<Rightarrow> agent_id option \<Rightarrow> task_id option \<Rightarrow> task" where
  "task_new tid title prompt assignee retry_of =
     \<lparr>task_ident = tid, task_title = title, task_prompt = prompt, task_assignee = assignee,
      task_retry_of = retry_of, task_state = TS_Queued\<rparr>"

section \<open>Handoff participants\<close>

datatype handoff_payload = HP_Task task_id | HP_Question content

datatype handoff_origin = HO_Agent agent_id | HO_Routine routine_run_id routine_step_id

fun origin_agent :: "handoff_origin \<Rightarrow> agent_id option" where
  "origin_agent (HO_Agent a) = Some a"
| "origin_agent (HO_Routine _ _) = None"

fun origin_run :: "handoff_origin \<Rightarrow> (routine_run_id \<times> routine_step_id) option" where
  "origin_run (HO_Routine r s) = Some (r, s)"
| "origin_run (HO_Agent _) = None"

datatype node_target = NT_Agent agent_id | NT_Task task_id | NT_Handoff handoff_id

interpretation role_map: ordered_map bm_empty bm_get bm_insert bm_remove bm_values role_ident
  by (rule bmap_ordered_map)

interpretation agent_map: ordered_map bm_empty bm_get bm_insert bm_remove bm_values agent_ident
  by (rule bmap_ordered_map)

interpretation task_map: ordered_map bm_empty bm_get bm_insert bm_remove bm_values task_ident
  by (rule bmap_ordered_map)

end
