(* ===== verification/Chat.thy ===== *)
theory Chat
  imports Entities
begin

text \<open>
  Conversations of \<open>src/domain/chat.rs\<close>: the draft the user edits, stored attachments, messages
  and threads. Every constructor refuses more than eight attachments and repeated references.
\<close>

datatype chat_validation_error =
    CV_InvalidColor
  | CV_DraftTooLong nat
  | CV_TooManyAttachments nat
  | CV_DuplicateAttachment
  | CV_DuplicateMention
  | CV_InvalidStorageKey
  | CV_InvalidDisplayName
  | CV_InvalidMediaType
  | CV_AttachmentTooLarge u64 u64
  | CV_EmptyMessage

definition thread_color_new :: "string \<Rightarrow> (chat_validation_error, thread_color) result" where
  "thread_color_new value =
     (if \<not> is_hex_color value then Inl CV_InvalidColor
      else Inr (ThreadColor (to_ascii_uppercase value)))"

datatype chat_author = CA_User | CA_Agent agent_id

section \<open>Drafts\<close>

definition max_attachments :: nat where "max_attachments = 8"
definition max_total_attachment_bytes :: u64 where "max_total_attachment_bytes = 26214400"

record chat_draft =
  dr_text :: string
  dr_attachments :: "chat_attachment_id list"
  dr_mentions :: "node_target list"

definition chat_draft_default :: chat_draft where
  "chat_draft_default = \<lparr>dr_text = [], dr_attachments = [], dr_mentions = []\<rparr>"

definition chat_draft_new ::
  "string \<Rightarrow> chat_attachment_id list \<Rightarrow> node_target list \<Rightarrow>
   (chat_validation_error, chat_draft) result" where
  "chat_draft_new text attachments mentions =
     (if content_max_chars < chars_count text then Inl (CV_DraftTooLong content_max_chars)
      else if max_attachments < length attachments then Inl (CV_TooManyAttachments max_attachments)
      else if has_duplicates attachments then Inl CV_DuplicateAttachment
      else if has_duplicates mentions then Inl CV_DuplicateMention
      else Inr \<lparr>dr_text = text, dr_attachments = attachments, dr_mentions = mentions\<rparr>)"

definition chat_draft_is_empty :: "chat_draft \<Rightarrow> bool" where
  "chat_draft_is_empty d = (str_trim (dr_text d) = [] \<and> dr_attachments d = [] \<and> dr_mentions d = [])"

section \<open>Attachments\<close>

definition max_attachment_bytes :: u64 where "max_attachment_bytes = 10485760"
definition max_display_name_chars :: nat where "max_display_name_chars = 255"
definition max_media_type_chars :: nat where "max_media_type_chars = 127"

record chat_attachment =
  ca_id :: chat_attachment_id
  ca_thread :: chat_thread_id
  ca_storage_key :: string
  ca_display_name :: string
  ca_media_type :: string
  ca_byte_len :: u64

definition is_media_byte :: "char \<Rightarrow> bool" where
  "is_media_byte b = (is_ascii_alphanumeric b \<or> b \<in> set ''/-+.'')"

definition chat_attachment_new ::
  "chat_attachment_id \<Rightarrow> chat_thread_id \<Rightarrow> string \<Rightarrow> string \<Rightarrow> string \<Rightarrow> u64 \<Rightarrow>
   (chat_validation_error, chat_attachment) result" where
  "chat_attachment_new aid thread storage_key display_name media_type byte_len =
     (if storage_key = [] \<or> storage_key = ''.'' \<or> storage_key = ''..''
         \<or> \<not> list_all is_key_byte storage_key
      then Inl CV_InvalidStorageKey
      else if str_trim display_name = [] \<or> max_display_name_chars < chars_count display_name
         \<or> CHR ''/'' \<in> set display_name \<or> CHR 0x5C \<in> set display_name
      then Inl CV_InvalidDisplayName
      else if str_trim media_type = [] \<or> max_media_type_chars < chars_count media_type
         \<or> \<not> list_all is_media_byte media_type
      then Inl CV_InvalidMediaType
      else if max_attachment_bytes < byte_len
      then Inl (CV_AttachmentTooLarge max_attachment_bytes byte_len)
      else Inr \<lparr>ca_id = aid, ca_thread = thread, ca_storage_key = storage_key,
                ca_display_name = display_name, ca_media_type = media_type,
                ca_byte_len = byte_len\<rparr>)"

section \<open>Messages and threads\<close>

record chat_message =
  msg_id :: chat_message_id
  msg_thread :: chat_thread_id
  msg_author :: chat_author
  msg_content :: content
  msg_attachments :: "chat_attachment_id list"
  msg_mentions :: "node_target list"
  msg_sent_at :: timestamp

definition chat_message_new ::
  "chat_message_id \<Rightarrow> chat_thread_id \<Rightarrow> chat_author \<Rightarrow> content \<Rightarrow> chat_attachment_id list \<Rightarrow>
   node_target list \<Rightarrow> timestamp \<Rightarrow> (chat_validation_error, chat_message) result" where
  "chat_message_new mid thread author body attachments mentions sent_at =
     (if max_attachments < length attachments then Inl (CV_TooManyAttachments max_attachments)
      else if has_duplicates attachments then Inl CV_DuplicateAttachment
      else if has_duplicates mentions then Inl CV_DuplicateMention
      else Inr \<lparr>msg_id = mid, msg_thread = thread, msg_author = author, msg_content = body,
                msg_attachments = attachments, msg_mentions = mentions, msg_sent_at = sent_at\<rparr>)"

definition chat_message_from_draft ::
  "chat_message_id \<Rightarrow> chat_thread_id \<Rightarrow> chat_draft \<Rightarrow> timestamp \<Rightarrow>
   (chat_validation_error, chat_message) result" where
  "chat_message_from_draft mid thread draft sent_at =
     res_bind (map_err (\<lambda>_. CV_EmptyMessage) (content_new (dr_text draft))) (\<lambda>body.
       chat_message_new mid thread CA_User body (dr_attachments draft) (dr_mentions draft) sent_at)"

record chat_thread =
  th_id :: chat_thread_id
  th_agent :: agent_id
  th_name :: name
  th_color :: thread_color
  th_draft :: chat_draft
  th_messages :: "chat_message list"

definition chat_thread_new :: "chat_thread_id \<Rightarrow> agent_id \<Rightarrow> name \<Rightarrow> chat_thread" where
  "chat_thread_new tid agent nm =
     \<lparr>th_id = tid, th_agent = agent, th_name = nm, th_color = thread_color_default,
      th_draft = chat_draft_default, th_messages = []\<rparr>"

definition chat_thread_with_color ::
  "chat_thread_id \<Rightarrow> agent_id \<Rightarrow> name \<Rightarrow> thread_color \<Rightarrow> chat_thread" where
  "chat_thread_with_color tid agent nm color = (chat_thread_new tid agent nm)\<lparr>th_color := color\<rparr>"

definition set_thread_appearance :: "name \<Rightarrow> thread_color \<Rightarrow> chat_thread \<Rightarrow> chat_thread" where
  "set_thread_appearance nm color t = t\<lparr>th_name := nm, th_color := color\<rparr>"

definition set_draft :: "chat_draft \<Rightarrow> chat_thread \<Rightarrow> chat_thread" where
  "set_draft d t = t\<lparr>th_draft := d\<rparr>"

definition push_message :: "chat_message \<Rightarrow> chat_thread \<Rightarrow> chat_thread" where
  "push_message m t = t\<lparr>th_messages := th_messages t @ [m]\<rparr>"

interpretation thread_map: ordered_map bm_empty bm_get bm_insert bm_remove bm_values th_id
  by (rule bmap_ordered_map)

section \<open>What accepted values satisfy\<close>

lemma chat_message_new_Inr_iff:
  "chat_message_new mid thread author body attachments mentions sent_at = Inr m \<longleftrightarrow>
     length attachments \<le> max_attachments \<and> distinct attachments \<and> distinct mentions \<and>
     m = \<lparr>msg_id = mid, msg_thread = thread, msg_author = author, msg_content = body,
          msg_attachments = attachments, msg_mentions = mentions, msg_sent_at = sent_at\<rparr>"
  by (auto simp: chat_message_new_def has_duplicates_iff)

lemma chat_message_from_draft_Inr_iff:
  "chat_message_from_draft mid thread draft sent_at = Inr m \<longleftrightarrow>
     str_trim (dr_text draft) \<noteq> [] \<and> chars_count (dr_text draft) \<le> content_max_chars \<and>
     chat_message_new mid thread CA_User (Content (dr_text draft)) (dr_attachments draft)
       (dr_mentions draft) sent_at = Inr m"
  by (auto simp: chat_message_from_draft_def res_bind_Inr_iff map_err_Inr_iff content_new_Inr_iff)

text \<open>A submitted draft is never empty, and a draft within bounds with text always submits.\<close>

lemma draft_submits_iff:
  assumes "chat_draft_new text attachments mentions = Inr d"
  shows "(\<exists>m. chat_message_from_draft mid thread d sent_at = Inr m) \<longleftrightarrow> str_trim text \<noteq> []"
  using assms
  by (auto simp: chat_message_from_draft_Inr_iff chat_message_new_Inr_iff chat_draft_new_def
      has_duplicates_iff split: if_splits)

lemma storage_key_single_component:
  assumes "chat_attachment_new aid thread key nm media n = Inr a"
  shows "path_depth d (str_split (CHR ''/'') (ca_storage_key a)) = Some (d + 1)"
proof -
  have key: "ca_storage_key a = key" "key \<noteq> []" "key \<noteq> ''.''" "key \<noteq> ''..''" "list_all is_key_byte key"
    using assms by (auto simp: chat_attachment_new_def split: if_splits)
  have "CHR ''/'' \<notin> set key"
    using key(5) by (auto simp: list_all_iff is_key_byte_def is_ascii_alphanumeric_def
        is_ascii_digit_def is_ascii_alphabetic_def byte_of_def)
  then have "str_split (CHR ''/'') key = [key]"
    by (induction key) auto
  with key show ?thesis by simp
qed

end
