(* ===== verification/Routine_Version.thy ===== *)
theory Routine_Version
  imports Routine_Base
begin

text \<open>
  Routine definitions of \<open>src/domain/routines.rs\<close>: steps, prompt rendering, and immutable
  versions. \<open>RoutineVersion::new\<close> accepts a directed acyclic graph of steps whose bindings only
  read declared inputs and outputs of earlier steps.
\<close>

section \<open>Declarations\<close>

record routine_input_declaration =
  in_key :: routine_input_key
  in_label :: name
  in_required :: bool
  in_default :: "routine_value option"

datatype routine_binding_source =
    BS_Input routine_input_key
  | BS_StepOutput routine_step_id routine_output_key
  | BS_Literal routine_value

datatype routine_approval = RA_NotRequired | RA_Required

datatype routine_retry_policy = RetryPolicy (max_attempts: u32)

definition retry_policy_new :: "u32 \<Rightarrow> (routine_error, routine_retry_policy) result" where
  "retry_policy_new n = (if n = 0 then Inl RE_InvalidRetryPolicy else Inr (RetryPolicy n))"

definition retry_policy_default :: routine_retry_policy where
  "retry_policy_default = RetryPolicy 1"

datatype routine_checkout_claim = CC_AgentDefault | CC_Floor u64

record routine_step_claims =
  claim_checkout :: routine_checkout_claim
  claim_resources :: "routine_resource_key bset"

definition step_claims_new ::
  "routine_checkout_claim \<Rightarrow> routine_resource_key list \<Rightarrow>
   (routine_error, routine_step_claims) result" where
  "step_claims_new checkout resources =
     (let resources = bs_of_list resources in
      if max_step_resources < bm_len resources
      then Inl (RE_TooMany ''step resource claims'' max_step_resources)
      else Inr \<lparr>claim_checkout = checkout, claim_resources = resources\<rparr>)"

record routine_step =
  st_id :: routine_step_id
  st_name :: name
  st_agent :: agent_id
  st_prompt :: content
  st_depends_on :: "routine_step_id bset"
  st_bindings :: "(routine_input_key, routine_binding_source) bmap"
  st_outputs :: "routine_output_key bset"
  st_approval :: routine_approval
  st_retry :: routine_retry_policy
  st_claims :: routine_step_claims

definition routine_step_new ::
  "routine_step_id \<Rightarrow> name \<Rightarrow> agent_id \<Rightarrow> content \<Rightarrow> routine_step_id list \<Rightarrow>
   (routine_input_key \<times> routine_binding_source) list \<Rightarrow> routine_output_key list \<Rightarrow>
   routine_approval \<Rightarrow> routine_retry_policy \<Rightarrow> routine_step_claims \<Rightarrow>
   (routine_error, routine_step) result" where
  "routine_step_new sid nm agent prompt depends_on bindings outputs approval retry claims =
     (let depends_on = bs_of_list depends_on;
          bindings = bm_of_list bindings;
          outputs = bs_of_list outputs in
      if max_step_dependencies < bm_len depends_on
      then Inl (RE_TooMany ''step dependencies'' max_step_dependencies)
      else if bm_contains depends_on sid then Inl (RE_DependencyCycle sid)
      else if max_routine_keys < bm_len bindings
      then Inl (RE_TooMany ''step bindings'' max_routine_keys)
      else if max_routine_keys < bm_len outputs
      then Inl (RE_TooMany ''step outputs'' max_routine_keys)
      else Inr \<lparr>st_id = sid, st_name = nm, st_agent = agent, st_prompt = prompt,
                st_depends_on = depends_on, st_bindings = bindings, st_outputs = outputs,
                st_approval = approval, st_retry = retry, st_claims = claims\<rparr>)"

definition declares_output :: "routine_step \<Rightarrow> routine_output_key \<Rightarrow> bool" where
  "declares_output s k = bm_contains (st_outputs s) k"

section \<open>Prompts\<close>

text \<open>
  The loop of \<open>render_prompt\<close>: \<open>rest\<close> is what is still to be scanned, and the result is
  what the loop appends to the rendered text.
\<close>

function render_from ::
  "routine_step_id \<Rightarrow> (routine_input_key, routine_value) bmap \<Rightarrow> string \<Rightarrow>
   (routine_error, string) result" where
  "render_from sid vals rest =
     (case str_find ''{{'' rest of
        None \<Rightarrow> Inr rest
      | Some start \<Rightarrow>
          let after = drop (start + 2) rest in
          (case str_find ''}}'' after of
             None \<Rightarrow> Inl (RE_UnterminatedPlaceholder sid)
           | Some stop \<Rightarrow>
               res_bind (input_key_new (str_trim (take stop after))) (\<lambda>k.
               res_bind (ok_or (bm_get vals k) (RE_UnboundPlaceholder sid k)) (\<lambda>v.
               res_bind (render_from sid vals (drop (stop + 2) after)) (\<lambda>tail.
                 Inr (take start rest @ routine_value_str v @ tail))))))"
  by pat_completeness auto
termination
  by (relation "measure (\<lambda>(sid, vals, rest). length rest)")
    (auto simp: str_find_Some_iff prefix_def dest!: arg_cong [where f = length])

declare render_from.simps [simp del]

definition render_prompt ::
  "routine_step \<Rightarrow> (routine_input_key, routine_value) bmap \<Rightarrow> (routine_error, content) result" where
  "render_prompt s vals =
     res_bind (render_from (st_id s) vals (content_str (st_prompt s)))
       (\<lambda>text. map_err (\<lambda>_. RE_EmptyRenderedPrompt (st_id s)) (content_new text))"

function placeholders ::
  "string \<Rightarrow> routine_step_id \<Rightarrow> (routine_error, routine_input_key list) result" where
  "placeholders rest sid =
     (case str_find ''{{'' rest of
        None \<Rightarrow> Inr []
      | Some start \<Rightarrow>
          let after = drop (start + 2) rest in
          (case str_find ''}}'' after of
             None \<Rightarrow> Inl (RE_UnterminatedPlaceholder sid)
           | Some stop \<Rightarrow>
               res_bind (input_key_new (str_trim (take stop after))) (\<lambda>k.
               res_bind (placeholders (drop (stop + 2) after) sid) (\<lambda>ks. Inr (k # ks)))))"
  by pat_completeness auto
termination
  by (relation "measure (\<lambda>(rest, sid). length rest)")
    (auto simp: str_find_Some_iff prefix_def dest!: arg_cong [where f = length])

declare placeholders.simps [simp del]

section \<open>Ordering the steps\<close>

text \<open>\<open>dependents.entry(dependency).or_default().push(step.id())\<close>.\<close>

definition push_dependent ::
  "routine_step_id \<Rightarrow> routine_step_id \<Rightarrow> (routine_step_id, routine_step_id list) bmap \<Rightarrow>
   (routine_step_id, routine_step_id list) bmap" where
  "push_dependent sid d m =
     bm_insert d ((case bm_get m d of None \<Rightarrow> [] | Some l \<Rightarrow> l) @ [sid]) m"

definition dependents_of ::
  "routine_step list \<Rightarrow> (routine_step_id, routine_step_id list) bmap" where
  "dependents_of steps =
     fold (\<lambda>s m. fold (push_dependent (st_id s)) (bm_keys (st_depends_on s)) m) steps bm_empty"

definition release_dependents ::
  "routine_step_id list \<Rightarrow> (routine_step_id, nat) bmap \<Rightarrow> (routine_step_id, nat) bmap" where
  "release_dependents ds remaining = fold (\<lambda>d. bm_update d (\<lambda>p. p - 1)) ds remaining"

lemma bm_len_release [simp]: "bm_len (release_dependents ds m) = bm_len m"
  unfolding release_dependents_def by (induction ds arbitrary: m) auto

text \<open>
  The loop of \<open>topological_order\<close>; the result is the ids it pushes, and what remains when no
  step is free of pending dependencies.
\<close>

function topo_loop ::
  "(routine_step_id, routine_step_id list) bmap \<Rightarrow> (routine_step_id, nat) bmap \<Rightarrow>
   routine_step_id list \<Rightarrow> routine_step_id list \<times> (routine_step_id, nat) bmap" where
  "topo_loop dependents remaining order =
     (case List.find (\<lambda>(_, pending). pending = 0) (entries remaining) of
        None \<Rightarrow> (order, remaining)
      | Some (nxt, _) \<Rightarrow>
          topo_loop dependents
            (release_dependents (case bm_get dependents nxt of None \<Rightarrow> [] | Some ds \<Rightarrow> ds)
              (bm_remove nxt remaining))
            (order @ [nxt]))"
  by pat_completeness auto
termination
proof (relation "measure (\<lambda>(dependents, remaining, order). bm_len remaining)")
  fix dependents order and remaining :: "(routine_step_id, nat) bmap" and a nxt y
  assume "List.find (\<lambda>(_, pending). pending = 0) (entries remaining) = Some a"
    and "(nxt, y) = a"
  then have "bm_get remaining nxt = Some y" by (auto dest: find_entries_contains)
  then have "bm_contains remaining nxt" by (simp add: bm_contains_iff)
  then show "((dependents,
       release_dependents (case bm_get dependents nxt of None \<Rightarrow> [] | Some ds \<Rightarrow> ds)
        (bm_remove nxt remaining), order @ [nxt]), dependents, remaining, order)
      \<in> measure (\<lambda>(dependents, remaining, order). bm_len remaining)"
    using bm_len_pos [of remaining nxt] by (simp add: bm_len_remove)
qed simp

declare topo_loop.simps [simp del]

definition topological_order ::
  "routine_step list \<Rightarrow> (routine_error, routine_step_id list) result" where
  "topological_order steps =
     (let remaining = bm_of_list (map (\<lambda>s. (st_id s, bm_len (st_depends_on s))) steps);
          (order, left) = topo_loop (dependents_of steps) remaining []
      in case bm_keys left of
           sid # _ \<Rightarrow> Inl (RE_DependencyCycle sid)
         | [] \<Rightarrow> Inr order)"

text \<open>One round of \<open>transitive_dependencies\<close>: the set of one step from those before it.\<close>

definition inherit_from ::
  "(routine_step_id, routine_step_id bset) bmap \<Rightarrow> routine_step_id \<Rightarrow> routine_step_id bset \<Rightarrow>
   routine_step_id bset" where
  "inherit_from ancestors d acc =
     (case bm_get ancestors d of
        None \<Rightarrow> bs_insert d acc
      | Some inherited \<Rightarrow> fold bs_insert (bm_keys inherited) (bs_insert d acc))"

definition transitive_dependencies ::
  "(routine_step_id, routine_step) bmap \<Rightarrow> routine_step_id list \<Rightarrow>
   (routine_step_id, routine_step_id bset) bmap" where
  "transitive_dependencies by_id order =
     fold (\<lambda>sid ancestors.
        bm_insert sid
          (case bm_get by_id sid of
             None \<Rightarrow> bm_empty
           | Some s \<Rightarrow> fold (inherit_from ancestors) (bm_keys (st_depends_on s)) bm_empty)
          ancestors)
       order bm_empty"

section \<open>Versions\<close>

record routine_version =
  ver_id :: routine_version_id
  ver_routine :: routine_id
  ver_number :: u32
  ver_inputs :: "routine_input_declaration list"
  ver_steps :: "routine_step list"
  ver_template :: "content option"
  ver_created_at :: timestamp

definition collect_inputs ::
  "routine_input_declaration list \<Rightarrow> (routine_error, routine_input_key bset) result" where
  "collect_inputs inputs =
     try_fold (\<lambda>declared i. if bm_contains declared (in_key i)
                             then Inl (RE_DuplicateInput (in_key i))
                             else Inr (bs_insert (in_key i) declared)) bm_empty inputs"

definition collect_steps ::
  "routine_step list \<Rightarrow> (routine_error, (routine_step_id, routine_step) bmap) result" where
  "collect_steps steps =
     try_fold (\<lambda>by_id s. if bm_contains by_id (st_id s)
                          then Inl (RE_DuplicateStep (st_id s))
                          else Inr (bm_insert (st_id s) s by_id)) bm_empty steps"

definition check_dependencies ::
  "(routine_step_id, routine_step) bmap \<Rightarrow> routine_step list \<Rightarrow> (routine_error, unit) result" where
  "check_dependencies by_id steps =
     check_all (\<lambda>s. check_all (\<lambda>d. ensure (bm_contains by_id d) (RE_UnknownDependency (st_id s) d))
                      (bm_keys (st_depends_on s))) steps"

definition check_binding ::
  "routine_input_key bset \<Rightarrow> (routine_step_id, routine_step) bmap \<Rightarrow>
   (routine_step_id, routine_step_id bset) bmap \<Rightarrow> routine_step \<Rightarrow> routine_binding_source \<Rightarrow>
   (routine_error, unit) result" where
  "check_binding declared by_id ancestors s source =
     (case source of
        BS_Input k \<Rightarrow> ensure (bm_contains declared k) (RE_UnknownInputReference (st_id s) k)
      | BS_StepOutput p k \<Rightarrow>
          res_bind (ok_or (bm_get by_id p) (RE_UnknownDependency (st_id s) p)) (\<lambda>producer.
            if \<not> (case bm_get ancestors (st_id s) of None \<Rightarrow> False | Some a \<Rightarrow> bm_contains a p)
            then Inl (RE_UnorderedOutputReference (st_id s) p)
            else ensure (declares_output producer k) (RE_UndeclaredOutputReference (st_id s) p k))
      | BS_Literal _ \<Rightarrow> Inr ())"

definition check_prompt :: "routine_step \<Rightarrow> (routine_error, unit) result" where
  "check_prompt s =
     res_bind (placeholders (content_str (st_prompt s)) (st_id s)) (\<lambda>ks.
       check_all (\<lambda>k. ensure (bm_contains (st_bindings s) k) (RE_UnboundPlaceholder (st_id s) k)) ks)"

definition routine_version_new ::
  "routine_version_id \<Rightarrow> routine_id \<Rightarrow> u32 \<Rightarrow> routine_input_declaration list \<Rightarrow>
   routine_step list \<Rightarrow> content option \<Rightarrow> timestamp \<Rightarrow> (routine_error, routine_version) result" where
  "routine_version_new vid rid number inputs steps template created_at =
     (if number = 0 then Inl (RE_InvalidVersionNumber number)
      else if steps = [] then Inl (RE_EmptyRoutine rid)
      else if max_routine_steps < length steps
      then Inl (RE_TooMany ''routine steps'' max_routine_steps)
      else if max_routine_keys < length inputs
      then Inl (RE_TooMany ''routine inputs'' max_routine_keys)
      else let steps = sort_key st_id steps in
        res_bind (collect_inputs inputs) (\<lambda>declared.
        res_bind (collect_steps steps) (\<lambda>by_id.
        res_bind (check_dependencies by_id steps) (\<lambda>_.
        res_bind (topological_order steps) (\<lambda>order.
        let ancestors = transitive_dependencies by_id order in
        res_bind (check_all (\<lambda>s.
            res_bind (check_all (check_binding declared by_id ancestors s)
                        (bm_values (st_bindings s)))
              (\<lambda>_. check_prompt s)) steps) (\<lambda>_.
          Inr \<lparr>ver_id = vid, ver_routine = rid, ver_number = number, ver_inputs = inputs,
               ver_steps = steps, ver_template = template, ver_created_at = created_at\<rparr>))))))"

definition version_step :: "routine_version \<Rightarrow> routine_step_id \<Rightarrow> routine_step option" where
  "version_step v sid = List.find (\<lambda>s. st_id s = sid) (ver_steps v)"

text \<open>One declaration of \<open>resolve_inputs\<close>.\<close>

definition resolve_input ::
  "(routine_input_key, routine_value) bmap \<Rightarrow> (routine_input_key, routine_value) bmap \<Rightarrow>
   routine_input_declaration \<Rightarrow> (routine_error, (routine_input_key, routine_value) bmap) result" where
  "resolve_input supplied resolved i =
     (case (case bm_get supplied (in_key i) of Some v \<Rightarrow> Some v | None \<Rightarrow> in_default i) of
        Some v \<Rightarrow> Inr (bm_insert (in_key i) v resolved)
      | None \<Rightarrow> if in_required i then Inl (RE_MissingInput (in_key i)) else Inr resolved)"

definition resolve_inputs ::
  "routine_version \<Rightarrow> (routine_input_key, routine_value) bmap \<Rightarrow>
   (routine_error, (routine_input_key, routine_value) bmap) result" where
  "resolve_inputs v supplied =
     (let declared = bs_of_list (map in_key (ver_inputs v)) in
      case List.find (\<lambda>k. \<not> bm_contains declared k) (bm_keys supplied) of
        Some k \<Rightarrow> Inl (RE_UnknownInput k)
      | None \<Rightarrow> try_fold (resolve_input supplied) bm_empty (ver_inputs v))"

end
