(* ===== verification/Routine_Version_Props.thy ===== *)
theory Routine_Version_Props
  imports Routine_Version
begin

text \<open>
  What an accepted routine version satisfies: prompts whose placeholders are bound render with
  every binding supplied, the order of the steps is topological exactly when the dependencies
  are acyclic, and the sets of ancestors are the transitive closure.
\<close>

section \<open>Prompts\<close>

lemma placeholders_error:
  "placeholders rest sid = Inl e \<Longrightarrow>
     e = RE_UnterminatedPlaceholder sid \<or> e = RE_InvalidKey ''routine input key''"
  by (induction rest sid rule: placeholders.induct, subst (asm) (2) placeholders.simps)
    (auto simp: Let_def res_bind_Inl_iff dest: input_key_new_error split: option.splits)

lemma iff_trans3: "(B \<longleftrightarrow> B') \<Longrightarrow> (A \<longleftrightarrow> A') \<Longrightarrow> (A' \<longleftrightarrow> B') \<Longrightarrow> (A \<longleftrightarrow> B)"
  by blast

lemma render_from_Inr_iff:
  "(\<exists>text. render_from sid vals rest = Inr text) \<longleftrightarrow>
     (\<exists>ks. placeholders rest sid = Inr ks \<and> (\<forall>k\<in>set ks. bm_contains vals k))"
proof (induction sid vals rest rule: render_from.induct)
  case (1 sid vals rest)
  show ?case
  proof (cases "str_find ''{{'' rest")
    case None
    then show ?thesis by (simp add: render_from.simps [of sid vals rest] placeholders.simps [of rest])
  next
    case (Some start)
    let ?after = "drop (start + 2) rest"
    show ?thesis
    proof (cases "str_find ''}}'' ?after")
      case None
      with Some show ?thesis
        by (simp add: render_from.simps [of sid vals rest] placeholders.simps [of rest] Let_def)
    next
      case stop: (Some stop)
      have IH: "(\<exists>text. render_from sid vals (drop (stop + 2) ?after) = Inr text) \<longleftrightarrow>
          (\<exists>ks. placeholders (drop (stop + 2) ?after) sid = Inr ks
             \<and> (\<forall>k\<in>set ks. bm_contains vals k))"
        if "input_key_new (str_trim (take stop ?after)) = Inr k" and "bm_get vals k = Some v" for k v
        using "1.IH" Some stop that by fastforce
      show ?thesis
      proof (cases "input_key_new (str_trim (take stop ?after))")
        case (Inl e)
        with Some stop show ?thesis
          by (simp add: render_from.simps [of sid vals rest] placeholders.simps [of rest] Let_def)
      next
        case (Inr k)
        have ph: "placeholders rest sid =
            res_bind (placeholders (drop (stop + 2) ?after) sid) (\<lambda>ks. Inr (k # ks))"
          by (subst placeholders.simps) (simp only: Some stop Inr option.case Let_def res_bind_simps)
        have rf: "render_from sid vals rest =
            res_bind (ok_or (bm_get vals k) (RE_UnboundPlaceholder sid k)) (\<lambda>v.
            res_bind (render_from sid vals (drop (stop + 2) ?after)) (\<lambda>tail.
              Inr (take start rest @ routine_value_str v @ tail)))"
          by (subst render_from.simps) (simp only: Some stop Inr option.case Let_def res_bind_simps)
        show ?thesis
        proof (cases "bm_get vals k")
          case None
          then have "\<not> bm_contains vals k" by (simp add: bm_contains_def)
          with None show ?thesis unfolding ph rf by (auto simp: res_bind_Inr_iff)
        next
          case v: (Some v)
          then have "bm_contains vals k" by (simp add: bm_contains_def)
          then have "(\<exists>ks. placeholders rest sid = Inr ks \<and> (\<forall>k\<in>set ks. bm_contains vals k)) \<longleftrightarrow>
              (\<exists>ks. placeholders (drop (stop + 2) ?after) sid = Inr ks
                \<and> (\<forall>k\<in>set ks. bm_contains vals k))"
            unfolding ph res_bind_Inr_iff by auto
          moreover have "(\<exists>text. render_from sid vals rest = Inr text) \<longleftrightarrow>
              (\<exists>text. render_from sid vals (drop (stop + 2) ?after) = Inr text)"
            unfolding rf v ok_or_simps res_bind_simps res_bind_Inr_iff by blast
          ultimately show ?thesis using IH [OF Inr v] by (rule iff_trans3)
        qed
      qed
    qed
  qed
qed

lemma check_prompt_Inr_iff:
  "check_prompt s = Inr u \<longleftrightarrow>
     (\<exists>ks. placeholders (content_str (st_prompt s)) (st_id s) = Inr ks
        \<and> (\<forall>k\<in>set ks. bm_contains (st_bindings s) k))"
  by (simp add: check_prompt_def result_iff)

text \<open>A prompt that passed the check renders once every binding of the step has a value.\<close>

lemma checked_prompt_renders:
  assumes "check_prompt s = Inr ()"
    and "\<And>k. bm_contains (st_bindings s) k \<Longrightarrow> bm_contains vals k"
  shows "\<exists>text. render_from (st_id s) vals (content_str (st_prompt s)) = Inr text"
  using assms unfolding render_from_Inr_iff check_prompt_Inr_iff by blast

lemma render_prompt_checked_cases:
  assumes "check_prompt s = Inr ()"
    and "\<And>k. bm_contains (st_bindings s) k \<Longrightarrow> bm_contains vals k"
  shows "(\<exists>c. render_prompt s vals = Inr c) \<or>
         render_prompt s vals = Inl (RE_EmptyRenderedPrompt (st_id s))"
proof -
  obtain out where out: "render_from (st_id s) vals (content_str (st_prompt s)) = Inr out"
    using checked_prompt_renders [OF assms] by blast
  show ?thesis by (cases "content_new out") (simp_all add: render_prompt_def out)
qed

section \<open>The dependency relation\<close>

definition depends :: "routine_step list \<Rightarrow> (routine_step_id \<times> routine_step_id) set" where
  "depends steps = {(st_id s, d) |s d. s \<in> set steps \<and> bm_contains (st_depends_on s) d}"

definition deps_before :: "routine_step list \<Rightarrow> routine_step_id list \<Rightarrow> bool" where
  "deps_before steps order \<longleftrightarrow>
     (\<forall>xs x ys. order = xs @ x # ys \<longrightarrow> (\<forall>d. (x, d) \<in> depends steps \<longrightarrow> d \<in> set xs))"

definition topological :: "routine_step list \<Rightarrow> routine_step_id list \<Rightarrow> bool" where
  "topological steps order \<longleftrightarrow>
     distinct order \<and> set order = st_id ` set steps \<and> deps_before steps order"

definition deps_closed :: "routine_step list \<Rightarrow> bool" where
  "deps_closed steps \<longleftrightarrow>
     (\<forall>s\<in>set steps. \<forall>d. bm_contains (st_depends_on s) d \<longrightarrow> d \<in> st_id ` set steps)"

lemma depends_iff:
  "distinct (map st_id steps) \<Longrightarrow> s \<in> set steps \<Longrightarrow>
     (st_id s, d) \<in> depends steps \<longleftrightarrow> bm_contains (st_depends_on s) d"
  by (auto simp: depends_def distinct_map inj_on_def)

lemma deps_before_snoc:
  "deps_before steps (xs @ [x]) \<longleftrightarrow>
     deps_before steps xs \<and> (\<forall>d. (x, d) \<in> depends steps \<longrightarrow> d \<in> set xs)"
  (is "?L \<longleftrightarrow> ?R")
proof
  assume L: ?L
  have "\<forall>d. (x, d) \<in> depends steps \<longrightarrow> d \<in> set xs"
    using L unfolding deps_before_def by blast
  moreover have "deps_before steps xs"
    unfolding deps_before_def
  proof (intro allI impI)
    fix as a bs d
    assume "xs = as @ a # bs" and "(a, d) \<in> depends steps"
    then show "d \<in> set as"
      using L [unfolded deps_before_def, rule_format, of as a "bs @ [x]" d] by simp
  qed
  ultimately show ?R by blast
next
  assume R: ?R
  show ?L
    unfolding deps_before_def
  proof (intro allI impI)
    fix as a bs d
    assume eq: "xs @ [x] = as @ a # bs" and d: "(a, d) \<in> depends steps"
    show "d \<in> set as"
    proof (cases bs rule: rev_cases)
      case Nil
      with eq d R show ?thesis by auto
    next
      case (snoc cs c)
      with eq have "xs = as @ a # cs" by simp
      with d R show ?thesis unfolding deps_before_def by blast
    qed
  qed
qed

lemma topological_acyclic:
  assumes "topological steps order"
  shows "acyclic (depends steps)"
proof -
  let ?pos = "\<lambda>x. length (takeWhile (\<lambda>z. z \<noteq> x) order)"
  have "(depends steps)\<inverse> \<subseteq> measure ?pos"
  proof
    fix p
    assume "p \<in> (depends steps)\<inverse>"
    then obtain x d where p: "p = (d, x)" and xd: "(x, d) \<in> depends steps" by auto
    then have "x \<in> set order" using assms by (auto simp: topological_def depends_def)
    then obtain xs ys where order: "order = xs @ x # ys" and new: "x \<notin> set xs"
      by (meson split_list_first)
    then have "d \<in> set xs" using xd assms by (auto simp: topological_def deps_before_def)
    moreover have "?pos d < length xs"
    proof -
      obtain us vs where "xs = us @ d # vs" and "d \<notin> set us"
        using \<open>d \<in> set xs\<close> by (meson split_list_first)
      then have "takeWhile (\<lambda>z. z \<noteq> d) order = us"
        by (auto simp: order takeWhile_append)
      with \<open>xs = us @ d # vs\<close> show ?thesis by simp
    qed
    moreover have "?pos x = length xs"
      using new by (auto simp: order takeWhile_append)
    ultimately show "p \<in> measure ?pos" by (simp add: p)
  qed
  then have "wf ((depends steps)\<inverse>)" by (rule wf_subset [OF wf_measure])
  then show ?thesis using wf_acyclic acyclic_converse by blast
qed

lemma no_sink_cyclic:
  assumes "finite S" and "S \<noteq> {}" and "\<And>x. x \<in> S \<Longrightarrow> \<exists>y\<in>S. (x, y) \<in> r"
  shows "\<not> acyclic r"
proof
  assume "acyclic r"
  then have "acyclic (r \<inter> S \<times> S)" by (rule acyclic_subset) blast
  moreover have "finite (r \<inter> S \<times> S)" using assms(1) by simp
  ultimately have "wf ((r \<inter> S \<times> S)\<inverse>)" by (simp add: finite_acyclic_wf_converse)
  then obtain z where "z \<in> S" and "\<And>y. (y, z) \<in> (r \<inter> S \<times> S)\<inverse> \<Longrightarrow> y \<notin> S"
    using assms(2) by (metis wfE_min ex_in_conv)
  with assms(3) show False by blast
qed


section \<open>The topological order\<close>

abbreviation dependents_at ::
  "(routine_step_id, routine_step_id list) bmap \<Rightarrow> routine_step_id \<Rightarrow> routine_step_id list" where
  "dependents_at m d \<equiv> (case bm_get m d of None \<Rightarrow> [] | Some l \<Rightarrow> l)"

lemma dependents_at_push:
  "dependents_at (push_dependent sid d m) x = dependents_at m x @ (if x = d then [sid] else [])"
  by (auto simp: push_dependent_def split: option.splits)

lemma dependents_at_fold:
  "distinct ds \<Longrightarrow> dependents_at (fold (push_dependent sid) ds m) x =
     dependents_at m x @ (if x \<in> set ds then [sid] else [])"
  by (induction ds arbitrary: m) (auto simp: dependents_at_push)

lemma dependents_at_steps:
  "dependents_at (fold (\<lambda>s m. fold (push_dependent (st_id s)) (bm_keys (st_depends_on s)) m) steps m) x =
     dependents_at m x @ map st_id (filter (\<lambda>s. bm_contains (st_depends_on s) x) steps)"
  by (induction steps arbitrary: m) (simp_all add: dependents_at_fold bs_elems_def)

lemma dependents_of_at:
  "dependents_at (dependents_of steps) x =
     map st_id (filter (\<lambda>s. bm_contains (st_depends_on s) x) steps)"
  by (simp add: dependents_of_def dependents_at_steps)

lemma bm_get_release:
  "distinct ds \<Longrightarrow> bm_get (release_dependents ds m) k =
     map_option (\<lambda>p. if k \<in> set ds then p - 1 else p) (bm_get m k)"
proof (induction ds arbitrary: m)
  case (Cons d ds)
  have "release_dependents (d # ds) m = release_dependents ds (bm_update d (\<lambda>p. p - 1) m)"
    by (simp add: release_dependents_def)
  with Cons show ?case by (auto simp: option.map_comp comp_def intro!: option.map_cong)
qed (simp add: release_dependents_def option.map_ident)

lemma bm_contains_release: "bm_contains (release_dependents ds m) x = bm_contains m x"
  unfolding release_dependents_def by (induction ds arbitrary: m) auto

text \<open>What holds at the head of the loop: a counter is the number of dependencies still to come.\<close>

definition topo_inv ::
  "routine_step list \<Rightarrow> (routine_step_id, nat) bmap \<Rightarrow> routine_step_id list \<Rightarrow> bool" where
  "topo_inv steps remaining order \<longleftrightarrow>
     distinct order \<and> set order \<subseteq> st_id ` set steps \<and> deps_before steps order \<and>
     (\<forall>x. bm_contains remaining x \<longleftrightarrow> x \<in> st_id ` set steps \<and> x \<notin> set order) \<and>
     (\<forall>s\<in>set steps. st_id s \<notin> set order \<longrightarrow>
        bm_get remaining (st_id s) = Some (card (bs_elems (st_depends_on s) - set order)))"

lemma topo_inv_init:
  assumes "distinct (map st_id steps)"
  shows "topo_inv steps (bm_of_list (map (\<lambda>s. (st_id s, bm_len (st_depends_on s))) steps)) []"
proof -
  have keys: "map fst (map (\<lambda>s. (st_id s, bm_len (st_depends_on s))) steps) = map st_id steps"
    by simp
  have "bm_get (bm_of_list (map (\<lambda>s. (st_id s, bm_len (st_depends_on s))) steps)) (st_id s) =
      Some (bm_len (st_depends_on s))" if "s \<in> set steps" for s
    using assms that by (subst bm_get_of_list_distinct) (auto simp: keys comp_def intro!: map_of_is_SomeI)
  then show ?thesis
    by (auto simp: topo_inv_def deps_before_def bm_contains_of_list bm_len_bs image_image)
qed

lemma topo_inv_step:
  assumes ids: "distinct (map st_id steps)"
    and inv: "topo_inv steps remaining order"
    and free: "bm_get remaining x = Some 0"
  shows "topo_inv steps
     (release_dependents (dependents_at (dependents_of steps) x) (bm_remove x remaining))
     (order @ [x])"
proof -
  have "bm_contains remaining x" using free by (simp add: bm_contains_def)
  then obtain s where s: "s \<in> set steps" "x = st_id s" and new: "x \<notin> set order"
    using inv by (auto simp: topo_inv_def)
  then have "card (bs_elems (st_depends_on s) - set order) = 0"
    using inv free by (auto simp: topo_inv_def)
  then have ready: "bs_elems (st_depends_on s) \<subseteq> set order" by simp
  have ds: "dependents_at (dependents_of steps) x =
      map st_id (filter (\<lambda>s. bm_contains (st_depends_on s) x) steps)"
    by (rule dependents_of_at)
  have dist: "distinct (dependents_at (dependents_of steps) x)"
    unfolding ds using ids by (simp add: distinct_map inj_on_def)
  have mem: "st_id t \<in> set (dependents_at (dependents_of steps) x) \<longleftrightarrow> bm_contains (st_depends_on t) x"
    if "t \<in> set steps" for t
    unfolding ds using ids that by (auto simp: distinct_map inj_on_def)
  have count: "bm_get (release_dependents (dependents_at (dependents_of steps) x)
        (bm_remove x remaining)) (st_id t) =
      Some (card (bs_elems (st_depends_on t) - set (order @ [x])))"
    if t: "t \<in> set steps" "st_id t \<notin> set (order @ [x])" for t
  proof -
    have get: "bm_get remaining (st_id t) = Some (card (bs_elems (st_depends_on t) - set order))"
      using inv t by (auto simp: topo_inv_def)
    have rest: "bs_elems (st_depends_on t) - set (order @ [x]) =
        (bs_elems (st_depends_on t) - set order) - {x}" by auto
    show ?thesis
      unfolding bm_get_release [OF dist] mem [OF t(1)] rest
      using t get new by (auto simp: bs_elems_def)
  qed
  have keys: "bm_contains (release_dependents (dependents_at (dependents_of steps) x)
        (bm_remove x remaining)) y \<longleftrightarrow> y \<noteq> x \<and> bm_contains remaining y" for y
    by (simp add: bm_contains_release)
  have "deps_before steps (order @ [x])"
    using inv ready s ids by (auto simp: topo_inv_def deps_before_snoc depends_iff bs_elems_def)
  then show ?thesis
    using inv new s count unfolding topo_inv_def keys by auto
qed

lemma topo_loop_inv:
  assumes "distinct (map st_id steps)" and "topo_inv steps remaining order"
    and "topo_loop (dependents_of steps) remaining order = (order', left)"
  shows "topo_inv steps left order' \<and> (\<forall>x. bm_get left x \<noteq> Some 0)"
  using assms(2,3)
proof (induction "dependents_of steps" remaining order rule: topo_loop.induct)
  case (1 remaining order)
  show ?case
  proof (cases "List.find (\<lambda>(_, pending). pending = 0) (entries remaining)")
    case None
    then have "bm_get remaining x \<noteq> Some 0" for x
      by (auto simp: find_None_iff bm_get_Some_iff)
    with None 1 show ?thesis by (simp add: topo_loop.simps [of _ remaining])
  next
    case (Some e)
    then obtain x where e: "e = (x, 0)" by (cases e) (auto simp: find_Some_iff)
    with Some have "bm_get remaining x = Some 0" by (auto dest: find_entries_contains)
    then show ?thesis
      using "1.hyps" [OF Some] e topo_inv_step [OF assms(1) "1.prems"(1)] "1.prems"(2) Some
      by (simp add: topo_loop.simps [of _ remaining])
  qed
qed

lemma topological_order_Inr:
  assumes "distinct (map st_id steps)" and "topological_order steps = Inr order"
  shows "topological steps order"
proof -
  let ?init = "bm_of_list (map (\<lambda>s. (st_id s, bm_len (st_depends_on s))) steps)"
  obtain order' left where loop: "topo_loop (dependents_of steps) ?init [] = (order', left)"
    by fastforce
  with assms(2) have left: "bm_keys left = []" "order' = order"
    by (auto simp: topological_order_def split: list.splits)
  then have "\<not> bm_contains left x" for x using set_bm_keys [of x left] by simp
  with topo_loop_inv [OF assms(1) topo_inv_init [OF assms(1)] loop] left show ?thesis
    by (auto simp: topo_inv_def topological_def)
qed

lemma topological_order_Inl:
  assumes "distinct (map st_id steps)" and closed: "deps_closed steps"
    and "topological_order steps = Inl e"
  shows "\<not> acyclic (depends steps)"
proof -
  let ?init = "bm_of_list (map (\<lambda>s. (st_id s, bm_len (st_depends_on s))) steps)"
  obtain order left where loop: "topo_loop (dependents_of steps) ?init [] = (order, left)"
    by fastforce
  with assms(3) have left: "bm_keys left \<noteq> []"
    by (auto simp: topological_order_def split: list.splits)
  have inv: "topo_inv steps left order" and busy: "\<forall>x. bm_get left x \<noteq> Some 0"
    using topo_loop_inv [OF assms(1) topo_inv_init [OF assms(1)] loop] by auto
  let ?S = "{x. bm_contains left x}"
  have "?S \<noteq> {}" using left by (auto simp: set_bm_keys [symmetric])
  moreover have "\<exists>y\<in>?S. (x, y) \<in> depends steps" if "x \<in> ?S" for x
  proof -
    have "x \<in> st_id ` set steps \<and> x \<notin> set order"
      using that inv unfolding topo_inv_def by blast
    then obtain s where s: "s \<in> set steps" "x = st_id s" "st_id s \<notin> set order"
      by blast
    then have "bm_get left (st_id s) = Some (card (bs_elems (st_depends_on s) - set order))"
      using inv by (simp add: topo_inv_def)
    then have "card (bs_elems (st_depends_on s) - set order) \<noteq> 0" using busy by metis
    then obtain y where y: "bm_contains (st_depends_on s) y" "y \<notin> set order"
      by (auto simp: bs_elems_def card_eq_0_iff)
    then have "bm_contains left y"
      using inv closed s by (auto simp: topo_inv_def deps_closed_def)
    with s y show ?thesis by (auto simp: depends_def)
  qed
  ultimately show ?thesis by (rule no_sink_cyclic [OF finite_bm_contains])
qed


text \<open>The loop decides acyclicity: it returns an order exactly when one exists.\<close>

lemma topological_order_iff:
  assumes "distinct (map st_id steps)" and "deps_closed steps"
  shows "(\<exists>order. topological_order steps = Inr order) \<longleftrightarrow> acyclic (depends steps)"
proof (cases "topological_order steps")
  case (Inl e)
  with topological_order_Inl [OF assms Inl] show ?thesis by simp
next
  case (Inr order)
  with topological_acyclic [OF topological_order_Inr [OF assms(1) Inr]] show ?thesis by simp
qed

section \<open>Ancestors\<close>

definition indexes :: "(routine_step_id, routine_step) bmap \<Rightarrow> routine_step list \<Rightarrow> bool" where
  "indexes by_id steps \<longleftrightarrow>
     (\<forall>x s. bm_get by_id x = Some s \<longleftrightarrow> s \<in> set steps \<and> st_id s = x)"

lemma bs_elems_inherit:
  "bs_elems (inherit_from ancestors d acc) =
     insert d (bs_elems acc \<union> (case bm_get ancestors d of None \<Rightarrow> {} | Some a \<Rightarrow> bs_elems a))"
  by (auto simp: inherit_from_def bs_elems_fold split: option.splits)

lemma bs_elems_fold_inherit:
  "bs_elems (fold (inherit_from ancestors) ds acc) =
     bs_elems acc \<union> (\<Union>d\<in>set ds. insert d (case bm_get ancestors d of None \<Rightarrow> {} | Some a \<Rightarrow> bs_elems a))"
  by (induction ds arbitrary: acc) (auto simp: bs_elems_inherit)

lemma trancl_image_step: "r\<^sup>+ `` {x} = (\<Union>d\<in>r `` {x}. insert d (r\<^sup>+ `` {d}))"
proof
  show "r\<^sup>+ `` {x} \<subseteq> (\<Union>d\<in>r `` {x}. insert d (r\<^sup>+ `` {d}))"
    by (auto dest!: tranclD simp: rtrancl_eq_or_trancl)
  show "(\<Union>d\<in>r `` {x}. insert d (r\<^sup>+ `` {d})) \<subseteq> r\<^sup>+ `` {x}"
    by (auto intro: trancl_into_trancl2)
qed

lemma transitive_dependencies_closure:
  assumes ids: "distinct (map st_id steps)" and idx: "indexes by_id steps"
    and "deps_before steps order" and "distinct order" and "set order \<subseteq> st_id ` set steps"
  shows "(\<forall>x\<in>set order. \<exists>a. bm_get (transitive_dependencies by_id order) x = Some a
            \<and> bs_elems a = (depends steps)\<^sup>+ `` {x})"
  using assms(3-5)
proof (induction order rule: rev_induct)
  case (snoc y ys)
  let ?anc = "transitive_dependencies by_id ys"
  have prev: "\<exists>a. bm_get ?anc x = Some a \<and> bs_elems a = (depends steps)\<^sup>+ `` {x}"
    if "x \<in> set ys" for x
    using snoc that by (auto simp: deps_before_snoc)
  obtain s where s: "s \<in> set steps" "st_id s = y" using snoc.prems by auto
  then have get: "bm_get by_id y = Some s" using idx by (simp add: indexes_def)
  let ?set = "fold (inherit_from ?anc) (bm_keys (st_depends_on s)) bm_empty"
  have new: "transitive_dependencies by_id (ys @ [y]) = bm_insert y ?set ?anc"
    by (simp add: transitive_dependencies_def get)
  have image: "depends steps `` {y} = bs_elems (st_depends_on s)"
    using depends_iff [OF ids s(1)] s(2) by (auto simp: bs_elems_def)
  have "bs_elems ?set = (\<Union>d\<in>bs_elems (st_depends_on s). insert d ((depends steps)\<^sup>+ `` {d}))"
  proof -
    have "(case bm_get ?anc d of None \<Rightarrow> {} | Some a \<Rightarrow> bs_elems a) = (depends steps)\<^sup>+ `` {d}"
      if "d \<in> bs_elems (st_depends_on s)" for d
    proof -
      have "(y, d) \<in> depends steps" using image that by blast
      then have "d \<in> set ys" using snoc.prems(1) by (simp add: deps_before_snoc)
      with prev show ?thesis by fastforce
    qed
    then show ?thesis by (simp add: bs_elems_fold_inherit)
  qed
  then have elems: "bs_elems ?set = (depends steps)\<^sup>+ `` {y}"
    by (subst trancl_image_step) (simp add: image)
  show ?case
    using prev elems unfolding new by (auto simp: bm_get_simps)
qed simp

section \<open>Accepted versions\<close>

definition binding_ok ::
  "routine_version \<Rightarrow> routine_step \<Rightarrow> routine_binding_source \<Rightarrow> bool" where
  "binding_ok v s source \<longleftrightarrow>
     (case source of
        BS_Input k \<Rightarrow> k \<in> in_key ` set (ver_inputs v)
      | BS_StepOutput p k \<Rightarrow>
          (st_id s, p) \<in> (depends (ver_steps v))\<^sup>+ \<and>
          (\<exists>producer\<in>set (ver_steps v). st_id producer = p \<and> declares_output producer k)
      | BS_Literal _ \<Rightarrow> True)"

definition version_wf :: "routine_version \<Rightarrow> bool" where
  "version_wf v \<longleftrightarrow>
     ver_number v \<noteq> 0 \<and> ver_steps v \<noteq> [] \<and>
     length (ver_steps v) \<le> max_routine_steps \<and> length (ver_inputs v) \<le> max_routine_keys \<and>
     sorted_wrt (<) (map st_id (ver_steps v)) \<and> distinct (map in_key (ver_inputs v)) \<and>
     deps_closed (ver_steps v) \<and> acyclic (depends (ver_steps v)) \<and>
     (\<forall>s\<in>set (ver_steps v).
        (\<forall>source\<in>set (bm_values (st_bindings s)). binding_ok v s source) \<and>
        check_prompt s = Inr ())"

lemma collect_inputs_from:
  "try_fold (\<lambda>declared i. if bm_contains declared (in_key i)
               then Inl (RE_DuplicateInput (in_key i))
               else Inr (bs_insert (in_key i) declared)) d inputs = Inr d' \<longleftrightarrow>
   d' = fold bs_insert (map in_key inputs) d \<and> distinct (map in_key inputs) \<and>
   (\<forall>i\<in>set inputs. \<not> bm_contains d (in_key i))"
  by (induction inputs arbitrary: d) (auto simp: image_iff)

lemma collect_inputs_Inr_iff:
  "collect_inputs inputs = Inr d \<longleftrightarrow> d = bs_of_list (map in_key inputs) \<and> distinct (map in_key inputs)"
  unfolding collect_inputs_def collect_inputs_from by (simp add: bs_of_list_def)

lemma collect_steps_from:
  "try_fold (\<lambda>by_id s. if bm_contains by_id (st_id s)
               then Inl (RE_DuplicateStep (st_id s))
               else Inr (bm_insert (st_id s) s by_id)) m steps = Inr m' \<longleftrightarrow>
   m' = fold (\<lambda>s. bm_insert (st_id s) s) steps m \<and> distinct (map st_id steps) \<and>
   (\<forall>s\<in>set steps. \<not> bm_contains m (st_id s))"
  by (induction steps arbitrary: m) (auto simp: image_iff)

lemma bm_get_fold_steps:
  "distinct (map st_id steps) \<Longrightarrow>
   bm_get (fold (\<lambda>s. bm_insert (st_id s) s) steps m) x = Some s \<longleftrightarrow>
     s \<in> set steps \<and> st_id s = x \<or> x \<notin> st_id ` set steps \<and> bm_get m x = Some s"
  by (induction steps arbitrary: m) auto

lemma collect_steps_Inr_iff:
  "collect_steps steps = Inr m \<longleftrightarrow>
     m = fold (\<lambda>s. bm_insert (st_id s) s) steps bm_empty \<and> distinct (map st_id steps)"
  unfolding collect_steps_def collect_steps_from by simp

lemma collect_steps_indexes: "collect_steps steps = Inr m \<Longrightarrow> indexes m steps"
  by (auto simp: collect_steps_Inr_iff indexes_def bm_get_fold_steps)

lemma check_dependencies_Inr_iff:
  assumes "indexes by_id steps"
  shows "check_dependencies by_id steps = Inr u \<longleftrightarrow> deps_closed steps"
proof -
  have "bm_contains by_id d \<longleftrightarrow> d \<in> st_id ` set steps" for d
    using assms by (auto simp: indexes_def bm_contains_iff)
  then show ?thesis
    by (auto simp: check_dependencies_def result_iff deps_closed_def bs_elems_def)
qed

lemma sorted_ids_strict:
  "distinct (map st_id steps) \<Longrightarrow> sorted_wrt (<) (map st_id (sort_key st_id steps))"
  by (simp add: strict_sorted_iff distinct_map)

lemma check_binding_ok:
  assumes idx: "indexes by_id (ver_steps v)"
    and decl: "declared = bs_of_list (map in_key (ver_inputs v))"
    and anc: "\<exists>a. bm_get ancestors (st_id s) = Some a \<and> bs_elems a = (depends (ver_steps v))\<^sup>+ `` {st_id s}"
  shows "check_binding declared by_id ancestors s source = Inr u \<longleftrightarrow> binding_ok v s source"
  using idx decl anc
  by (cases source)
    (auto simp: check_binding_def binding_ok_def result_iff indexes_def bs_elems_def)

lemma routine_version_new_wf:
  assumes "routine_version_new vid rid number inputs steps template created_at = Inr v"
  shows "version_wf v"
proof -
  let ?steps = "sort_key st_id steps"
  obtain declared by_id order where
    basic: "number \<noteq> 0" "steps \<noteq> []" "length steps \<le> max_routine_steps"
      "length inputs \<le> max_routine_keys" and
    declared: "collect_inputs inputs = Inr declared" and
    by_id: "collect_steps ?steps = Inr by_id" and
    deps: "check_dependencies by_id ?steps = Inr ()" and
    order: "topological_order ?steps = Inr order" and
    checks: "check_all (\<lambda>s. res_bind (check_all
        (check_binding declared by_id (transitive_dependencies by_id order) s)
        (bm_values (st_bindings s))) (\<lambda>_. check_prompt s)) ?steps = Inr ()" and
    v: "v = \<lparr>ver_id = vid, ver_routine = rid, ver_number = number, ver_inputs = inputs,
          ver_steps = ?steps, ver_template = template, ver_created_at = created_at\<rparr>"
    using assms by (auto simp: routine_version_new_def Let_def res_bind_Inr_iff split: if_splits)
  have idx: "indexes by_id ?steps" using by_id by (rule collect_steps_indexes)
  have ids: "distinct (map st_id ?steps)" using by_id by (simp add: collect_steps_Inr_iff)
  have topo: "topological ?steps order" using topological_order_Inr [OF ids order] .
  have anc: "\<exists>a. bm_get (transitive_dependencies by_id order) (st_id s) = Some a \<and>
      bs_elems a = (depends ?steps)\<^sup>+ `` {st_id s}" if "s \<in> set ?steps" for s
    using transitive_dependencies_closure [OF ids idx] topo that by (auto simp: topological_def)
  have "check_prompt s = Inr ()" and
    "\<forall>source\<in>set (bm_values (st_bindings s)). binding_ok v s source" if s: "s \<in> set ?steps" for s
  proof -
    have both: "check_all (check_binding declared by_id (transitive_dependencies by_id order) s)
        (bm_values (st_bindings s)) = Inr ()" "check_prompt s = Inr ()"
      using checks s by (auto simp: check_all_Inr_iff res_bind_Inr_iff)
    then show "check_prompt s = Inr ()" by blast
    have "declared = bs_of_list (map in_key (ver_inputs v))"
      using declared by (simp add: v collect_inputs_Inr_iff)
    with both(1) show "\<forall>source\<in>set (bm_values (st_bindings s)). binding_ok v s source"
      using check_binding_ok [of by_id v declared "transitive_dependencies by_id order" s] idx anc [OF s]
      by (auto simp: check_all_Inr_iff v)
  qed
  moreover have "deps_closed ?steps" using check_dependencies_Inr_iff [OF idx] deps by simp
  moreover have "acyclic (depends ?steps)" using topo by (rule topological_acyclic)
  moreover have "sorted_wrt (<) (map st_id ?steps)"
    using ids by (simp add: strict_sorted_iff)
  moreover have "?steps \<noteq> []" using basic(2) by (metis length_0_conv length_sort)
  ultimately show ?thesis
    using basic declared by (simp add: version_wf_def v collect_inputs_Inr_iff)
qed


section \<open>Resolving the inputs of a run\<close>

definition input_value ::
  "(routine_input_key, routine_value) bmap \<Rightarrow> routine_input_declaration \<Rightarrow> routine_value option" where
  "input_value supplied i =
     (case bm_get supplied (in_key i) of Some v \<Rightarrow> Some v | None \<Rightarrow> in_default i)"

lemma resolve_input_Inr_iff:
  "resolve_input supplied m i = Inr m' \<longleftrightarrow>
     (case input_value supplied i of
        Some v \<Rightarrow> m' = bm_insert (in_key i) v m
      | None \<Rightarrow> \<not> in_required i \<and> m' = m)"
  by (auto simp: resolve_input_def input_value_def split: option.splits)

lemma resolve_fold_get:
  assumes "distinct (map in_key inputs)"
    and "try_fold (resolve_input supplied) m inputs = Inr r"
  shows "bm_get r k =
     (case List.find (\<lambda>i. in_key i = k) inputs of
        Some i \<Rightarrow> (case input_value supplied i of Some v \<Rightarrow> Some v | None \<Rightarrow> bm_get m k)
      | None \<Rightarrow> bm_get m k)"
  using assms
proof (induction inputs arbitrary: m)
  case (Cons i inputs)
  then obtain m' where m': "resolve_input supplied m i = Inr m'"
    and rest: "try_fold (resolve_input supplied) m' inputs = Inr r"
    by (auto simp: res_bind_Inr_iff)
  have fresh: "List.find (\<lambda>j. in_key j = in_key i) inputs = None"
    using Cons.prems(1) by (simp add: find_None_iff) (metis image_eqI)
  have get: "bm_get m' k =
      (if in_key i = k then (case input_value supplied i of Some v \<Rightarrow> Some v | None \<Rightarrow> bm_get m k)
       else bm_get m k)"
    using m' by (auto simp: resolve_input_Inr_iff split: option.splits)
  show ?case
    using Cons.IH [OF _ rest] Cons.prems(1) fresh get by (auto split: option.splits)
qed simp

lemma resolve_fold_ok:
  "(\<exists>r. try_fold (resolve_input supplied) m inputs = Inr r) \<longleftrightarrow>
     (\<forall>i\<in>set inputs. in_required i \<longrightarrow> input_value supplied i \<noteq> None)"
proof (induction inputs arbitrary: m)
  case (Cons i inputs)
  show ?case
  proof (cases "resolve_input supplied m i")
    case (Inl e)
    then have "in_required i \<and> input_value supplied i = None"
      by (auto simp: resolve_input_def input_value_def split: option.splits if_splits)
    with Inl show ?thesis by auto
  next
    case (Inr m')
    then have "in_required i \<longrightarrow> input_value supplied i \<noteq> None"
      by (auto simp: resolve_input_Inr_iff split: option.splits)
    with Inr Cons.IH [of m'] show ?thesis by auto
  qed
qed simp

lemma supplied_keys_declared:
  "List.find (\<lambda>k. \<not> bm_contains (bs_of_list ds) k) (bm_keys supplied) = None \<longleftrightarrow>
     (\<forall>k. bm_contains supplied k \<longrightarrow> k \<in> set ds)"
  by (auto simp: find_None_iff set_bm_keys)

lemma resolve_inputs_ok_iff:
  "(\<exists>r. resolve_inputs v supplied = Inr r) \<longleftrightarrow>
     (\<forall>k. bm_contains supplied k \<longrightarrow> k \<in> in_key ` set (ver_inputs v)) \<and>
     (\<forall>i\<in>set (ver_inputs v). in_required i \<longrightarrow> input_value supplied i \<noteq> None)"
proof (cases "List.find (\<lambda>k. \<not> bm_contains (bs_of_list (map in_key (ver_inputs v))) k)
    (bm_keys supplied)")
  case None
  with supplied_keys_declared [of "map in_key (ver_inputs v)" supplied] resolve_fold_ok
  show ?thesis by (simp add: resolve_inputs_def)
next
  case (Some k)
  with supplied_keys_declared [of "map in_key (ver_inputs v)" supplied]
  have "\<not> (\<forall>k. bm_contains supplied k \<longrightarrow> k \<in> in_key ` set (ver_inputs v))" by simp
  with Some show ?thesis by (simp add: resolve_inputs_def)
qed

lemma resolve_inputs_get:
  assumes "version_wf v" and "resolve_inputs v supplied = Inr r"
  shows "bm_get r k =
     Option.bind (List.find (\<lambda>i. in_key i = k) (ver_inputs v)) (input_value supplied)"
proof -
  have "try_fold (resolve_input supplied) bm_empty (ver_inputs v) = Inr r"
    using assms(2) by (auto simp: resolve_inputs_def Let_def split: option.splits)
  moreover have "distinct (map in_key (ver_inputs v))" using assms(1) by (simp add: version_wf_def)
  ultimately show ?thesis by (auto simp: resolve_fold_get split: option.splits)
qed

end
