(* ===== verification/Routine_Schedule.thy ===== *)
theory Routine_Schedule
  imports Routine_Base
begin

text \<open>
  The schedules of \<open>src/domain/routines.rs\<close>: when a cadence fires next. The code computes with
  checked \<open>i64\<close> operations; every one is an \<^const>\<open>i64_checked\<close> here. The theorems read the
  result back as a wall-clock time.
\<close>

section \<open>Cadences\<close>

datatype routine_cadence =
    CD_Hourly u32
  | CD_Daily u32 u32
  | CD_Weekly u32 u32 u32

definition cadence_validate :: "routine_cadence \<Rightarrow> (routine_error, routine_cadence) result" where
  "cadence_validate c =
     (let valid = (case c of
          CD_Hourly minute \<Rightarrow> minute < 60
        | CD_Daily hour minute \<Rightarrow> hour < 24 \<and> minute < 60
        | CD_Weekly weekday hour minute \<Rightarrow> weekday < 7 \<and> hour < 24 \<and> minute < 60)
      in if valid then Inr c else Inl RE_InvalidCadence)"

fun period_ms :: "routine_cadence \<Rightarrow> u64" where
  "period_ms (CD_Hourly _) = 3600000"
| "period_ms (CD_Daily _ _) = 86400000"
| "period_ms (CD_Weekly _ _ _) = 604800000"

text \<open>
  The phase is computed in \<open>i64\<close> from \<open>u32\<close> fields, too small to overflow; day zero of the
  epoch was a Thursday.
\<close>

fun cadence_phase :: "routine_cadence \<Rightarrow> int" where
  "cadence_phase (CD_Hourly minute) = uint minute * 60000"
| "cadence_phase (CD_Daily hour minute) = uint hour * 3600000 + uint minute * 60000"
| "cadence_phase (CD_Weekly weekday hour minute) =
     (uint weekday + 3) mod 7 * 86400000 + uint hour * 3600000 + uint minute * 60000"

definition next_occurrence :: "routine_cadence \<Rightarrow> timestamp \<Rightarrow> int \<Rightarrow> timestamp option" where
  "next_occurrence c from offset_minutes =
     Option.bind (i64_checked (offset_minutes * 60000)) (\<lambda>offset_ms.
     Option.bind (i64_checked (uint from)) (\<lambda>start.
     Option.bind (i64_checked (start + offset_ms)) (\<lambda>local.
     Option.bind (i64_checked (uint (period_ms c))) (\<lambda>period.
     let phase = cadence_phase c in
     Option.bind (i64_checked (local - phase)) (\<lambda>elapsed.
     let periods = elapsed div period in
     Option.bind (i64_checked (periods * period)) (\<lambda>span.
     Option.bind (i64_checked (phase + span)) (\<lambda>candidate.
     Option.bind (if candidate < local then i64_checked (candidate + period) else Some candidate)
       (\<lambda>candidate.
     Option.bind (i64_checked (candidate - offset_ms)) (\<lambda>t.
       if 0 \<le> t then Some (word_of_int t) else None)))))))))"

section \<open>Schedules\<close>

record routine_schedule =
  sch_cadence :: routine_cadence
  sch_offset_minutes :: int
  sch_timezone_label :: "name option"
  sch_next_occurrence :: "timestamp option"

definition max_offset_minutes :: int where "max_offset_minutes = 840"

definition i32_min :: int where "i32_min = - 2147483648"

text \<open>\<open>i32::abs\<close> without overflow checks: the least value is its own absolute value.\<close>

definition i32_abs :: "int \<Rightarrow> int" where
  "i32_abs x = (if x = i32_min then i32_min else \<bar>x\<bar>)"

definition routine_schedule_new ::
  "routine_cadence \<Rightarrow> int \<Rightarrow> name option \<Rightarrow> timestamp option \<Rightarrow>
   (routine_error, routine_schedule) result" where
  "routine_schedule_new c offset_minutes label next_at =
     res_bind (cadence_validate c) (\<lambda>c.
       if max_offset_minutes < i32_abs offset_minutes
       then Inl (RE_InvalidTimezoneOffset offset_minutes)
       else Inr \<lparr>sch_cadence = c, sch_offset_minutes = offset_minutes,
                 sch_timezone_label = label, sch_next_occurrence = next_at\<rparr>)"

definition with_next_occurrence :: "timestamp option \<Rightarrow> routine_schedule \<Rightarrow> routine_schedule" where
  "with_next_occurrence t s = s\<lparr>sch_next_occurrence := t\<rparr>"

section \<open>The next occurrence\<close>

text \<open>The instants, in milliseconds of UTC, at which a cadence fires at a fixed offset.\<close>

definition fires_at :: "routine_cadence \<Rightarrow> int \<Rightarrow> int \<Rightarrow> bool" where
  "fires_at c offset_minutes t \<longleftrightarrow>
     (t + offset_minutes * 60000 - cadence_phase c) mod uint (period_ms c) = 0"

lemma uint_period: "uint (period_ms c) = (case c of CD_Hourly _ \<Rightarrow> 3600000
    | CD_Daily _ _ \<Rightarrow> 86400000 | CD_Weekly _ _ _ \<Rightarrow> 604800000)"
  by (cases c) simp_all

lemma period_pos: "0 < uint (period_ms c)"
  by (cases c) simp_all

lemma i64_bind_Some [simp]:
  "Option.bind (i64_checked x) f = Some y \<longleftrightarrow> i64_min \<le> x \<and> x \<le> i64_max \<and> f x = Some y"
  by (auto simp: i64_checked_def)

text \<open>The multiple of the period that the division finds, rounded up to the start.\<close>

lemma round_up_period:
  fixes p :: int
  assumes "0 < p" and c: "c = phase + (local - phase) div p * p"
    and c': "c' = (if c < local then c + p else c)"
  shows "local \<le> c'" and "c' < local + p" and "(c' - phase) mod p = 0"
proof -
  have div: "(local - phase) div p * p = local - phase - (local - phase) mod p"
    by (simp add: minus_mod_eq_div_mult)
  have "0 \<le> (local - phase) mod p" and "(local - phase) mod p < p"
    using assms(1) by simp_all
  with div c c' show "local \<le> c'" and "c' < local + p" by (auto split: if_splits)
  have "c' - phase = ((local - phase) div p + (if c < local then 1 else 0)) * p"
    using c c' by (simp add: algebra_simps)
  then show "(c' - phase) mod p = 0" by simp
qed

lemma uint_of_i64: "0 \<le> n \<Longrightarrow> n \<le> i64_max \<Longrightarrow> uint (word_of_int n :: u64) = n"
  by (simp add: i64_max_def uint_word_of_int)

lemma next_occurrence_Some:
  assumes "next_occurrence c from off = Some t"
  shows "uint from \<le> uint t" and "uint t < uint from + uint (period_ms c)" and "fires_at c off (uint t)"
proof -
  let ?p = "uint (period_ms c)" and ?local = "uint from + off * 60000"
  define k where "k = cadence_phase c + (?local - cadence_phase c) div ?p * ?p"
  define k' where "k' = (if k < ?local then k + ?p else k)"
  have t: "t = word_of_int (k' - off * 60000)" and lo: "0 \<le> k' - off * 60000"
    and hi: "k' - off * 60000 \<le> i64_max"
    using assms
    by (auto simp: next_occurrence_def Let_def k_def k'_def split: if_splits)
  have "uint t = k' - off * 60000"
    unfolding t using lo hi by (rule uint_of_i64)
  moreover note round_up_period [OF period_pos k_def k'_def]
  ultimately show "uint from \<le> uint t" and "uint t < uint from + ?p" and "fires_at c off (uint t)"
    by (simp_all add: fires_at_def)
qed

text \<open>Two instants at which a cadence fires are whole periods apart, so no earlier one exists.\<close>

lemma fires_at_gap:
  assumes "fires_at c off s" and "fires_at c off t" and "s < t"
  shows "s + uint (period_ms c) \<le> t"
proof -
  let ?p = "uint (period_ms c)"
  have "?p dvd (t + off * 60000 - cadence_phase c) - (s + off * 60000 - cadence_phase c)"
    using assms(1,2) unfolding fires_at_def by (metis dvd_diff mod_0_imp_dvd)
  then have "?p dvd t - s" by simp
  then have "?p \<le> t - s" using assms(3) by (intro zdvd_imp_le) auto
  then show ?thesis by simp
qed

lemma next_occurrence_least:
  assumes "next_occurrence c from off = Some t" and "fires_at c off s" and "uint from \<le> s"
  shows "uint t \<le> s"
proof (rule ccontr)
  assume "\<not> uint t \<le> s"
  then have "s + uint (period_ms c) \<le> uint t"
    using fires_at_gap [OF assms(2) next_occurrence_Some(3) [OF assms(1)]] by simp
  with next_occurrence_Some(2) [OF assms(1)] assms(3) show False by simp
qed

text \<open>A valid cadence at a plausible offset has a next occurrence for the next 140 million years.\<close>

lemma cadence_phase_bounds:
  assumes "cadence_validate c = Inr c'"
  shows "0 \<le> cadence_phase c" and "cadence_phase c < uint (period_ms c)"
proof -
  have small: "uint x < int n" if "x < of_nat n" "n < 2 ^ 32" for x :: u32 and n
    using that by (simp add: word_less_def uint_nat [symmetric] unat_of_nat take_bit_eq_mod
        unsigned_of_nat)
  show "0 \<le> cadence_phase c" by (cases c) simp_all
  show "cadence_phase c < uint (period_ms c)"
  proof (cases c)
    case (CD_Hourly m)
    then have "uint m < 60" using assms small [of m 60] by (simp add: cadence_validate_def split: if_splits)
    with CD_Hourly show ?thesis by simp
  next
    case (CD_Daily h m)
    then have "uint m < 60" "uint h < 24"
      using assms small [of m 60] small [of h 24] by (auto simp: cadence_validate_def split: if_splits)
    with CD_Daily show ?thesis by simp
  next
    case (CD_Weekly w h m)
    then have "uint m < 60" "uint h < 24"
      using assms small [of m 60] small [of h 24] by (auto simp: cadence_validate_def split: if_splits)
    moreover have "(uint w + 3) mod 7 \<le> 6"
      using pos_mod_bound [of 7 "uint w + 3"] by linarith
    ultimately show ?thesis using CD_Weekly by simp
  qed
qed

lemma next_occurrence_exists:
  assumes "cadence_validate c = Inr c'" and "\<bar>off\<bar> \<le> max_offset_minutes"
    and "uint from < 2 ^ 62"
  shows "\<exists>t. next_occurrence c from off = Some t"
proof -
  define p where "p = uint (period_ms c)"
  define loc where "loc = uint from + off * 60000"
  define ph where "ph = cadence_phase c"
  define k where "k = ph + (loc - ph) div p * p"
  define k' where "k' = (if k < loc then k + p else k)"
  have p: "0 < p" "p \<le> 604800000" unfolding p_def by (cases c; simp)+
  have ph: "0 \<le> ph" "ph < p"
    using cadence_phase_bounds [OF assms(1)] by (simp_all add: ph_def p_def)
  have off: "\<bar>off * 60000\<bar> \<le> 50400000"
    using assms(2) by (simp add: max_offset_minutes_def abs_mult)
  have start: "0 \<le> uint from" "uint from < 4611686018427387904" using assms(3) by simp_all
  have span: "(loc - ph) div p * p = loc - ph - (loc - ph) mod p"
    by (simp add: minus_mod_eq_div_mult)
  have md: "0 \<le> (loc - ph) mod p" "(loc - ph) mod p < p" using p by simp_all
  note k' = round_up_period [OF p(1) k_def k'_def]
  have ok: "i64_min \<le> off * 60000 \<and> off * 60000 \<le> i64_max \<and> i64_min \<le> uint from \<and>
      uint from \<le> i64_max \<and> i64_min \<le> loc \<and> loc \<le> i64_max \<and> i64_min \<le> p \<and> p \<le> i64_max \<and>
      i64_min \<le> loc - ph \<and> loc - ph \<le> i64_max \<and> i64_min \<le> (loc - ph) div p * p \<and>
      (loc - ph) div p * p \<le> i64_max \<and> i64_min \<le> k \<and> k \<le> i64_max \<and>
      i64_min \<le> k + p \<and> k + p \<le> i64_max \<and>
      i64_min \<le> k' - off * 60000 \<and> k' - off * 60000 \<le> i64_max \<and> 0 \<le> k' - off * 60000"
    using p ph off start span md k'(1,2) loc_def k_def unfolding i64_max_def i64_min_def
    by linarith
  have "next_occurrence c from off = Some (word_of_int (k' - off * 60000))"
    unfolding next_occurrence_def Let_def i64_bind_Some loc_def [symmetric] p_def [symmetric]
      ph_def [symmetric] k_def [symmetric]
    using ok by (cases "k < loc") (simp_all add: k'_def)
  then show ?thesis by blast
qed


text \<open>
  The wall clock at a fixed offset: day of the week with Sunday as 0, hour and minute. The epoch
  was a Thursday, day 4.
\<close>

definition local_weekday :: "int \<Rightarrow> int \<Rightarrow> int" where
  "local_weekday off t = ((t + off * 60000) div 86400000 + 4) mod 7"

definition local_time_of_day :: "int \<Rightarrow> int \<Rightarrow> int" where
  "local_time_of_day off t = (t + off * 60000) mod 86400000"

fun shows_on_clock :: "routine_cadence \<Rightarrow> int \<Rightarrow> int \<Rightarrow> bool" where
  "shows_on_clock (CD_Hourly minute) off t =
     (local_time_of_day off t mod 3600000 = uint minute * 60000)"
| "shows_on_clock (CD_Daily hour minute) off t =
     (local_time_of_day off t = uint hour * 3600000 + uint minute * 60000)"
| "shows_on_clock (CD_Weekly weekday hour minute) off t =
     (local_time_of_day off t = uint hour * 3600000 + uint minute * 60000 \<and>
      local_weekday off t = uint weekday)"

lemma mod_zero_offset:
  fixes p :: int
  assumes "0 < p" "0 \<le> a" "a < p" "(x - a) mod p = 0"
  shows "\<exists>q. x = q * p + a"
  using assms by (metis add.commute diff_add_cancel div_mult_mod_eq add.right_neutral)

lemma fires_at_shows_on_clock:
  assumes valid: "cadence_validate c = Inr c'" and "fires_at c off t"
  shows "shows_on_clock c off t"
proof -
  let ?x = "t + off * 60000"
  obtain q where q: "?x = q * uint (period_ms c) + cadence_phase c"
    using mod_zero_offset [OF period_pos cadence_phase_bounds [OF valid]
        assms(2) [unfolded fires_at_def]] by blast
  note bounds = cadence_phase_bounds [OF valid]
  show ?thesis
  proof (cases c)
    case (CD_Hourly m)
    have "?x mod 86400000 mod 3600000 = ?x mod 3600000" by (rule mod_mod_cancel) simp
    also have "\<dots> = uint m * 60000" using q bounds CD_Hourly by simp
    finally show ?thesis by (simp add: CD_Hourly local_time_of_day_def)
  next
    case (CD_Daily h m)
    then show ?thesis using q bounds by (simp add: local_time_of_day_def)
  next
    case (CD_Weekly w h m)
    define d where "d = (uint w + 3) mod 7"
    define r where "r = uint h * 3600000 + uint m * 60000"
    have wd: "uint w < 7" and r: "0 \<le> r" "r < 86400000"
      using valid CD_Weekly
      by (auto simp: cadence_validate_def r_def word_less_def split: if_splits)
    have "uint (period_ms c) = 604800000" by (simp add: CD_Weekly)
    moreover have "cadence_phase c = d * 86400000 + r" by (simp add: CD_Weekly d_def r_def)
    ultimately have x: "?x = (q * 7 + d) * 86400000 + r" using q by simp
    have split: "(k * 86400000 + r) div 86400000 = k \<and> (k * 86400000 + r) mod 86400000 = r" for k
      using r by simp
    have day: "?x div 86400000 = q * 7 + d" and tod: "?x mod 86400000 = r"
      unfolding x using split by blast+
    have "(q * 7 + d + 4) mod 7 = (d + 4 + q * 7) mod 7" by (simp add: ac_simps)
    also have "\<dots> = (d + 4) mod 7" by (rule mod_mult_self1)
    also have "(d + 4) mod 7 = (uint w + 3 + 4) mod 7" unfolding d_def by (simp add: mod_add_left_eq)
    also have "\<dots> = uint w" using wd by simp
    finally show ?thesis
      using day tod by (simp add: CD_Weekly local_time_of_day_def local_weekday_def r_def)
  qed
qed

lemma mod_sub_zero: "(x::int) mod p = a \<Longrightarrow> (x - a) mod p = 0"
  by (metis minus_mod_eq_mult_div mod_mult_self1_is_0)

lemma shows_on_clock_fires_at:
  assumes valid: "cadence_validate c = Inr c'" and shown: "shows_on_clock c off t"
  shows "fires_at c off t"
proof -
  let ?x = "t + off * 60000"
  show ?thesis
  proof (cases c)
    case (CD_Hourly m)
    then have "?x mod 86400000 mod 3600000 = uint m * 60000" using shown by (simp add: local_time_of_day_def)
    moreover have "?x mod 86400000 mod 3600000 = ?x mod 3600000" by (rule mod_mod_cancel) simp
    ultimately show ?thesis using mod_sub_zero [of ?x 3600000] by (simp add: fires_at_def CD_Hourly)
  next
    case (CD_Daily h m)
    then have "?x mod 86400000 = uint h * 3600000 + uint m * 60000" using shown by (simp add: local_time_of_day_def)
    from mod_sub_zero [OF this] show ?thesis by (simp add: fires_at_def CD_Daily)
  next
    case (CD_Weekly w h m)
    define r where "r = uint h * 3600000 + uint m * 60000"
    have wd: "uint w < 7" using valid CD_Weekly by (auto simp: cadence_validate_def word_less_def split: if_splits)
    have tod: "?x mod 86400000 = r" and day: "(?x div 86400000 + 4) mod 7 = uint w"
      using shown by (simp_all add: CD_Weekly local_time_of_day_def local_weekday_def r_def)
    define q where "q = ?x div 86400000"
    have x: "?x = q * 86400000 + r" using tod unfolding q_def by (metis div_mult_mod_eq)
    have "7 dvd q - (uint w + 3) mod 7"
      using day unfolding q_def [symmetric] by presburger
    then obtain k where "q - (uint w + 3) mod 7 = 7 * k" by blast
    then have "?x - cadence_phase c = k * 604800000" by (simp add: x CD_Weekly r_def algebra_simps)
    then show ?thesis by (simp add: fires_at_def CD_Weekly)
  qed
qed

end
