(* ===== verification/Routine_Trigger.thy ===== *)
theory Routine_Trigger
  imports Routine_Version_Props Routine_Schedule
begin

text \<open>
  Triggers and routines of \<open>src/domain/routines.rs\<close>: what may start a run, which occurrences
  were consumed, and the append-only history of versions a routine keeps.
\<close>

section \<open>Trigger sources\<close>

datatype routine_trigger_kind =
    TK_Manual
  | TK_Filesystem "string list" u64
  | TK_Git "string list"
  | TK_Schedule routine_schedule

definition max_debounce_ms :: u64 where "max_debounce_ms = 600000"

text \<open>The bytes the function rejects: controls, space, non-ASCII, and \<open>~^:?*[\\<close>.\<close>

definition is_ref_byte :: "char \<Rightarrow> bool" where
  "is_ref_byte b = (32 < byte_of b \<and> byte_of b < 127 \<and> b \<notin> set (CHR 0x5C # ''~^:?*[''))"

definition is_ref_part :: "string \<Rightarrow> bool" where
  "is_ref_part part =
     (part \<noteq> [] \<and> \<not> str_starts_with part ''.'' \<and> \<not> str_ends_with part ''.''
      \<and> \<not> str_ends_with part ''.lock'')"

definition validate_ref_name :: "string \<Rightarrow> (routine_error, unit) result" where
  "validate_ref_name name =
     (let invalid = (name = [] \<or> 200 < length name \<or> str_starts_with name ''-''
         \<or> str_contains name ''..'' \<or> str_contains name [CHR 0x40, CHR 0x7B]
         \<or> list_ex (\<lambda>b. \<not> is_ref_byte b) name
         \<or> list_ex (\<lambda>part. \<not> is_ref_part part) (str_split (CHR ''/'') name))
      in if invalid then Inl (RE_InvalidGitRef name) else Inr ())"

definition trigger_kind_validate :: "routine_trigger_kind \<Rightarrow> (routine_error, unit) result" where
  "trigger_kind_validate k =
     (case k of
        TK_Manual \<Rightarrow> Inr ()
      | TK_Filesystem patterns debounce_ms \<Rightarrow>
          if patterns = [] \<or> max_trigger_patterns < length patterns
          then Inl (RE_TooMany ''filesystem trigger patterns'' max_trigger_patterns)
          else if max_debounce_ms < debounce_ms then Inl (RE_InvalidDebounce debounce_ms)
          else Inr ()
      | TK_Git refs \<Rightarrow>
          if refs = [] \<or> max_trigger_patterns < length refs
          then Inl (RE_TooMany ''Git trigger refs'' max_trigger_patterns)
          else check_all validate_ref_name refs
      | TK_Schedule _ \<Rightarrow> Inr ())"

section \<open>Triggers\<close>

record routine_trigger_firing =
  fire_occurrence :: routine_occurrence_key
  fire_at :: timestamp

record routine_trigger =
  tr_id :: routine_trigger_id
  tr_routine :: routine_id
  tr_name :: name
  tr_kind :: routine_trigger_kind
  tr_enabled :: bool
  tr_inputs :: "(routine_input_key, routine_value) bmap"
  tr_last_firing :: "routine_trigger_firing option"
  tr_skipped :: u32

definition routine_trigger_new ::
  "routine_trigger_id \<Rightarrow> routine_id \<Rightarrow> name \<Rightarrow> routine_trigger_kind \<Rightarrow> bool \<Rightarrow>
   (routine_input_key, routine_value) bmap \<Rightarrow> (routine_error, routine_trigger) result" where
  "routine_trigger_new tid rid nm kind enabled inputs =
     res_bind (trigger_kind_validate kind) (\<lambda>_.
       if max_routine_keys < bm_len inputs then Inl (RE_TooMany ''trigger inputs'' max_routine_keys)
       else Inr \<lparr>tr_id = tid, tr_routine = rid, tr_name = nm, tr_kind = kind, tr_enabled = enabled,
                 tr_inputs = inputs, tr_last_firing = None, tr_skipped = 0\<rparr>)"

definition trigger_with_history ::
  "routine_trigger_firing option \<Rightarrow> u32 \<Rightarrow> routine_trigger \<Rightarrow> routine_trigger" where
  "trigger_with_history firing skipped t = t\<lparr>tr_last_firing := firing, tr_skipped := skipped\<rparr>"

definition trigger_schedule :: "routine_trigger \<Rightarrow> routine_schedule option" where
  "trigger_schedule t = (case tr_kind t of TK_Schedule s \<Rightarrow> Some s | _ \<Rightarrow> None)"

definition trigger_with_enabled :: "bool \<Rightarrow> routine_trigger \<Rightarrow> routine_trigger" where
  "trigger_with_enabled b t = t\<lparr>tr_enabled := b\<rparr>"

definition trigger_fire ::
  "routine_occurrence_key \<Rightarrow> timestamp \<Rightarrow> routine_trigger \<Rightarrow>
   (routine_error, routine_trigger) result" where
  "trigger_fire occurrence fired_at t =
     (if (case tr_last_firing t of None \<Rightarrow> False | Some f \<Rightarrow> fire_occurrence f = occurrence)
      then Inl (RE_OccurrenceAlreadyConsumed occurrence)
      else Inr (t\<lparr>tr_last_firing :=
             Some \<lparr>fire_occurrence = occurrence, fire_at = fired_at\<rparr>\<rparr>))"

definition trigger_skip :: "u32 \<Rightarrow> routine_trigger \<Rightarrow> routine_trigger" where
  "trigger_skip n t = t\<lparr>tr_skipped := saturating_add (tr_skipped t) n\<rparr>"

definition set_schedule_next :: "timestamp option \<Rightarrow> routine_trigger \<Rightarrow> routine_trigger" where
  "set_schedule_next at t =
     (case tr_kind t of
        TK_Schedule s \<Rightarrow> t\<lparr>tr_kind := TK_Schedule (s\<lparr>sch_next_occurrence := at\<rparr>)\<rparr>
      | _ \<Rightarrow> t)"

section \<open>Routines\<close>

record routine =
  rt_id :: routine_id
  rt_name :: name
  rt_description :: "content option"
  rt_versions :: "routine_version list"
  rt_triggers :: "(routine_trigger_id, routine_trigger) bmap"

definition routine_new ::
  "routine_id \<Rightarrow> name \<Rightarrow> content option \<Rightarrow> routine_version \<Rightarrow> (routine_error, routine) result" where
  "routine_new rid nm description version =
     (if ver_routine version \<noteq> rid then Inl (RE_VersionRoutineMismatch rid (ver_id version))
      else if ver_number version \<noteq> 1 then Inl (RE_InvalidVersionNumber (ver_number version))
      else Inr \<lparr>rt_id = rid, rt_name = nm, rt_description = description,
                rt_versions = [version], rt_triggers = bm_empty\<rparr>)"

definition restore_version ::
  "routine_id \<Rightarrow> nat \<times> routine_version \<Rightarrow> (routine_error, unit) result" where
  "restore_version rid = (\<lambda>(index, version).
     if ver_routine version \<noteq> rid then Inl (RE_VersionRoutineMismatch rid (ver_id version))
     else res_bind (ok_or (try_u32 (index + 1)) (RE_TooMany ''routine versions'' 4294967295))
       (\<lambda>expected. ensure (ver_number version = expected)
          (RE_InvalidVersionNumber (ver_number version))))"

definition restore_trigger ::
  "routine_id \<Rightarrow> routine_version \<Rightarrow> (routine_trigger_id, routine_trigger) bmap \<Rightarrow>
   routine_trigger \<Rightarrow> (routine_error, (routine_trigger_id, routine_trigger) bmap) result" where
  "restore_trigger rid first m t =
     (if tr_routine t \<noteq> rid then Inl (RE_VersionRoutineMismatch rid (ver_id first))
      else res_bind (trigger_kind_validate (tr_kind t)) (\<lambda>_. Inr (bm_insert (tr_id t) t m)))"

definition routine_restore ::
  "routine_id \<Rightarrow> name \<Rightarrow> content option \<Rightarrow> routine_version list \<Rightarrow> routine_trigger list \<Rightarrow>
   (routine_error, routine) result" where
  "routine_restore rid nm description versions triggers =
     (case versions of
        [] \<Rightarrow> Inl (RE_EmptyRoutine rid)
      | first # _ \<Rightarrow>
          if ver_number first \<noteq> 1 then Inl (RE_InvalidVersionNumber (ver_number first))
          else
            res_bind (check_all (restore_version rid) (enumerate 0 versions)) (\<lambda>_.
            res_bind (try_fold (restore_trigger rid first) bm_empty triggers) (\<lambda>by_id.
              Inr \<lparr>rt_id = rid, rt_name = nm, rt_description = description,
                   rt_versions = versions, rt_triggers = by_id\<rparr>)))"

definition routine_version_of :: "routine \<Rightarrow> routine_version_id \<Rightarrow> routine_version option" where
  "routine_version_of r vid = List.find (\<lambda>v. ver_id v = vid) (rt_versions r)"

text \<open>The code expects a version to exist; every routine it builds has one.\<close>

definition latest_version :: "routine \<Rightarrow> routine_version" where
  "latest_version r = last (rt_versions r)"

definition routine_trigger_of :: "routine \<Rightarrow> routine_trigger_id \<Rightarrow> routine_trigger option" where
  "routine_trigger_of r tid = bm_get (rt_triggers r) tid"

definition push_version :: "routine_version \<Rightarrow> routine \<Rightarrow> (routine_error, routine) result" where
  "push_version version r =
     (if ver_routine version \<noteq> rt_id r
      then Inl (RE_VersionRoutineMismatch (rt_id r) (ver_id version))
      else res_bind (ok_or (checked_add (ver_number (latest_version r)) 1)
             (RE_IdentifierExhausted ''routine version'')) (\<lambda>expected.
        if ver_number version \<noteq> expected then Inl (RE_InvalidVersionNumber (ver_number version))
        else if routine_version_of r (ver_id version) \<noteq> None
        then Inl (RE_DuplicateVersion (ver_id version))
        else Inr (r\<lparr>rt_versions := rt_versions r @ [version]\<rparr>)))"

definition set_appearance :: "name \<Rightarrow> content option \<Rightarrow> routine \<Rightarrow> routine" where
  "set_appearance nm description r = r\<lparr>rt_name := nm, rt_description := description\<rparr>"

definition put_trigger :: "routine_trigger \<Rightarrow> routine \<Rightarrow> routine" where
  "put_trigger t r = r\<lparr>rt_triggers := bm_insert (tr_id t) t (rt_triggers r)\<rparr>"

definition remove_trigger :: "routine_trigger_id \<Rightarrow> routine \<Rightarrow> routine \<times> bool" where
  "remove_trigger tid r =
     (r\<lparr>rt_triggers := bm_remove tid (rt_triggers r)\<rparr>, bm_contains (rt_triggers r) tid)"

interpretation trigger_map: ordered_map bm_empty bm_get bm_insert bm_remove bm_values tr_id
  by (rule bmap_ordered_map)

section \<open>Refs\<close>

lemma ref_part_valid_component: "is_ref_part part \<Longrightarrow> \<not> is_invalid_component part"
  by (auto simp: is_ref_part_def is_invalid_component_def str_starts_with_def)

lemma validate_ref_name_Inr:
  assumes "validate_ref_name name = Inr ()"
  shows "name \<noteq> []" and "length name \<le> 200" and "\<not> prefix ''-'' name"
    and "\<not> sublist ''..'' name" and "list_all is_ref_byte name"
    and "list_all is_ref_part (str_split (CHR ''/'') name)"
  using assms
  by (auto simp: validate_ref_name_def Let_def str_starts_with_def str_contains_def
      str_find_None_iff list_ex_iff list_all_iff split: if_splits)

lemma validate_ref_name_depth:
  assumes "validate_ref_name name = Inr ()"
  shows "path_depth d (str_split (CHR ''/'') name) =
     Some (d + length (str_split (CHR ''/'') name))"
proof (rule path_depth_valid)
  show "list_all (\<lambda>c. \<not> is_invalid_component c) (str_split (CHR ''/'') name)"
    using validate_ref_name_Inr(6) [OF assms] ref_part_valid_component
    by (auto simp: list_all_iff)
qed

section \<open>The invariant of a routine\<close>

definition routine_wf :: "routine \<Rightarrow> bool" where
  "routine_wf r \<longleftrightarrow>
     rt_versions r \<noteq> [] \<and>
     (\<forall>i<length (rt_versions r). unat (ver_number (rt_versions r ! i)) = i + 1) \<and>
     (\<forall>v\<in>set (rt_versions r). ver_routine v = rt_id r) \<and>
     (\<forall>k t. bm_get (rt_triggers r) k = Some t \<longrightarrow>
        tr_id t = k \<and> tr_routine t = rt_id r \<and> trigger_kind_validate (tr_kind t) = Inr ())"

lemma routine_new_wf: "routine_new rid nm d v = Inr r \<Longrightarrow> routine_wf r"
  by (auto simp: routine_new_def routine_wf_def split: if_splits)

lemma restore_version_Inr_iff:
  "restore_version rid (i, v) = Inr () \<longleftrightarrow> ver_routine v = rid \<and> unat (ver_number v) = i + 1"
  by (auto simp: restore_version_def result_iff try_u32_Some_iff)

lemma restore_trigger_Inr_iff:
  "restore_trigger rid first m t = Inr m' \<longleftrightarrow>
     tr_routine t = rid \<and> trigger_kind_validate (tr_kind t) = Inr () \<and> m' = bm_insert (tr_id t) t m"
  by (auto simp: restore_trigger_def result_iff)

lemma restore_triggers_wf:
  assumes "try_fold (restore_trigger rid first) m triggers = Inr m'"
    and "\<And>k t. bm_get m k = Some t \<Longrightarrow>
        tr_id t = k \<and> tr_routine t = rid \<and> trigger_kind_validate (tr_kind t) = Inr ()"
    and "bm_get m' k = Some t"
  shows "tr_id t = k \<and> tr_routine t = rid \<and> trigger_kind_validate (tr_kind t) = Inr ()"
  using assms
proof (induction triggers arbitrary: m)
  case (Cons u triggers)
  then obtain m1 where m1: "restore_trigger rid first m u = Inr m1"
    and rest: "try_fold (restore_trigger rid first) m1 triggers = Inr m'"
    by (auto simp: res_bind_Inr_iff)
  have "tr_id t = k \<and> tr_routine t = rid \<and> trigger_kind_validate (tr_kind t) = Inr ()"
    if "bm_get m1 k = Some t" for k t
    using that m1 Cons.prems(2) [of k t]
    unfolding restore_trigger_Inr_iff by (cases "k = tr_id u") auto
  from Cons.IH [OF rest this Cons.prems(3)] show ?case .
qed simp

lemma routine_restore_wf:
  assumes "routine_restore rid nm d versions triggers = Inr r"
  shows "routine_wf r"
proof -
  obtain first rest by_id where versions: "versions = first # rest"
    and all: "check_all (restore_version rid) (enumerate 0 versions) = Inr ()"
    and fold: "try_fold (restore_trigger rid first) bm_empty triggers = Inr by_id"
    and r: "r = \<lparr>rt_id = rid, rt_name = nm, rt_description = d, rt_versions = versions,
        rt_triggers = by_id\<rparr>"
    using assms
    by (auto simp: routine_restore_def res_bind_Inr_iff split: list.splits if_splits)
  have each: "ver_routine (versions ! i) = rid \<and> unat (ver_number (versions ! i)) = i + 1"
    if "i < length versions" for i
  proof -
    have "(i, versions ! i) \<in> set (enumerate 0 versions)"
      using that by (auto simp: in_set_enumerate_eq)
    then show ?thesis
      using all by (auto simp: check_all_Inr_iff restore_version_Inr_iff simp del: enumerate_simps)
  qed
  have trg: "tr_id t = k \<and> tr_routine t = rid \<and> trigger_kind_validate (tr_kind t) = Inr ()"
    if "bm_get by_id k = Some t" for k t
    using restore_triggers_wf [OF fold _ that] by simp
  have "versions \<noteq> []" by (simp add: versions)
  then show ?thesis
    using each trg unfolding routine_wf_def r by (auto simp: in_set_conv_nth)
qed

lemma push_version_Inr_iff:
  "push_version v r = Inr r' \<longleftrightarrow>
     ver_routine v = rt_id r \<and>
     checked_add (ver_number (latest_version r)) 1 = Some (ver_number v) \<and>
     routine_version_of r (ver_id v) = None \<and> r' = r\<lparr>rt_versions := rt_versions r @ [v]\<rparr>"
  by (auto simp: push_version_def result_iff)

lemma push_version_wf:
  assumes "routine_wf r" and "push_version v r = Inr r'"
  shows "routine_wf r'"
proof -
  have last: "unat (ver_number (latest_version r)) = length (rt_versions r)"
    using assms(1) by (simp add: routine_wf_def latest_version_def last_conv_nth)
  have "unat (ver_number v) = length (rt_versions r) + 1"
    using assms(2) last by (auto simp: push_version_Inr_iff checked_add_Some_iff)
  then show ?thesis
    using assms by (auto simp: push_version_Inr_iff routine_wf_def nth_append less_Suc_eq)
qed

lemma set_appearance_wf: "routine_wf r \<Longrightarrow> routine_wf (set_appearance nm d r)"
  by (simp add: routine_wf_def set_appearance_def)

lemma put_trigger_wf:
  "routine_wf r \<Longrightarrow> tr_routine t = rt_id r \<Longrightarrow> trigger_kind_validate (tr_kind t) = Inr () \<Longrightarrow>
     routine_wf (put_trigger t r)"
  by (simp add: routine_wf_def put_trigger_def)

lemma remove_trigger_wf: "routine_wf r \<Longrightarrow> routine_wf (fst (remove_trigger k r))"
  by (simp add: routine_wf_def remove_trigger_def)

lemma trigger_fire_Inr_iff:
  "trigger_fire k at t = Inr t' \<longleftrightarrow>
     (\<forall>f. tr_last_firing t = Some f \<longrightarrow> fire_occurrence f \<noteq> k) \<and>
     t' = t\<lparr>tr_last_firing := Some \<lparr>fire_occurrence = k, fire_at = at\<rparr>\<rparr>"
  by (auto simp: trigger_fire_def split: option.splits)

end
