(* ===== verification/Value_Properties.thy ===== *)
theory Value_Properties
  imports Config Chat Routine_Trigger Lifecycle
begin

text \<open>
  What the values the rest of the program trusts are guaranteed to satisfy: names, project
  paths, process arguments, git references and chat drafts.
\<close>

section \<open>Names and paths\<close>

text \<open>A name is stored trimmed and bounded, and validating the stored text again changes
  nothing, so a name survives being written out and read back.\<close>

lemma name_new_stable:
  assumes "name_new s = Inr n"
  shows "name_new (name_str n) = Inr n \<and> name_str n \<noteq> [] \<and> chars_count (name_str n) \<le> 100"
  using assms by (auto simp: name_new_Inr_iff name_max_chars_def)

lemma name_new_stable_witness:
  "name_new (name_str (Name ''Ada'')) = Inr (Name ''Ada'') \<and> name_str (Name ''Ada'') \<noteq> [] \<and>
   chars_count (name_str (Name ''Ada'')) \<le> 100"
proof -
  have "name_new '' Ada '' = Inr (Name ''Ada'')" by code_simp
  then show ?thesis by (rule name_new_stable)
qed

text \<open>C39: An accepted project path never leaves the directory it is resolved against: it is not
  absolute, has no backslash or NUL, and walking its components never goes above the start.\<close>

lemma project_path_stays_inside:
  assumes "project_path_new s = Inr p"
  shows "project_path_str p = s \<and> \<not> prefix ''/'' s \<and> CHR 0x5C \<notin> set s \<and> CHR 0x00 \<notin> set s \<and>
    (\<exists>d'. path_depth d (str_split (CHR ''/'') (project_path_str p)) = Some d' \<and> d \<le> d')"
proof (cases "s = ''.''")
  case True
  with assms show ?thesis by (auto simp: project_path_new_def prefix_def split: if_splits)
next
  case False
  have "p = ProjectPath s" using assms by (rule project_path_new_str)
  moreover have "\<not> prefix ''/'' s \<and> CHR 0x5C \<notin> set s \<and> CHR 0x00 \<notin> set s"
    using assms False by (auto simp: project_path_new_def str_starts_with_def split: if_splits)
  moreover have "path_depth d (str_split (CHR ''/'') s) = Some (d + length (str_split (CHR ''/'') s))"
    using path_depth_valid project_path_new_components [OF assms False] .
  ultimately show ?thesis by simp
qed

lemma project_path_stays_inside_witness:
  "project_path_str (ProjectPath ''src/lib.rs'') = ''src/lib.rs'' \<and> \<not> prefix ''/'' ''src/lib.rs'' \<and>
   CHR 0x5C \<notin> set ''src/lib.rs'' \<and> CHR 0x00 \<notin> set ''src/lib.rs'' \<and>
   (\<exists>d'. path_depth 0 (str_split (CHR ''/'') (project_path_str (ProjectPath ''src/lib.rs''))) = Some d' \<and>
      0 \<le> d')"
proof -
  have "project_path_new ''src/lib.rs'' = Inr (ProjectPath ''src/lib.rs'')" by code_simp
  then show ?thesis by (rule project_path_stays_inside)
qed

section \<open>Arguments of spawned processes\<close>

text \<open>The host and the user of an accepted SSH environment can never be read as an option by
  the ssh client or split into two arguments, and the port is never zero.\<close>

lemma ssh_destination_is_no_option:
  assumes "ssh_environment_new host user port dir = Inr e"
  shows "ssh_host e = host \<and> host \<noteq> [] \<and> \<not> prefix ''-'' host \<and> \<not> has_whitespace host \<and>
    (\<forall>u. ssh_user e = Some u \<longrightarrow> u \<noteq> [] \<and> \<not> prefix ''-'' u \<and> \<not> has_whitespace u) \<and>
    ssh_port e \<noteq> Some 0"
  using assms
  by (auto simp: ssh_environment_new_def result_iff str_starts_with_def split: option.splits)

definition sample_ssh :: ssh_environment where
  "sample_ssh =
     \<lparr>ssh_host = ''box'', ssh_user = Some ''ada'', ssh_port = Some 22, ssh_working_directory = ''/srv''\<rparr>"

lemma ssh_destination_is_no_option_witness:
  "ssh_host sample_ssh = ''box'' \<and> \<not> prefix ''-'' ''box'' \<and> \<not> has_whitespace ''box'' \<and>
   ssh_user sample_ssh = Some ''ada'' \<and> \<not> prefix ''-'' ''ada'' \<and> \<not> has_whitespace ''ada'' \<and>
   ssh_port sample_ssh \<noteq> Some 0"
proof -
  have no_space: "\<not> has_whitespace ''box''" "\<not> has_whitespace ''ada''" by code_simp+
  have "ssh_environment_new ''box'' (Some ''ada'') (Some 22) ''/srv'' = Inr sample_ssh"
    by (simp add: ssh_environment_new_def validate_identifier_def validate_text_def has_control_def
        chars_count_def max_value_chars_def str_starts_with_def no_space sample_ssh_def)
  from ssh_destination_is_no_option [OF this] show ?thesis by (simp add: sample_ssh_def)
qed

text \<open>C40: A git reference a trigger accepts is no option, has no parent-directory step and no
  space, and every component of it names a file inside the reference store.\<close>

lemma git_ref_stays_inside:
  assumes "validate_ref_name ref = Inr ()"
  shows "\<not> prefix ''-'' ref \<and> \<not> sublist ''..'' ref \<and> (\<forall>c\<in>set ref. 33 \<le> byte_of c \<and> byte_of c \<le> 126) \<and>
    path_depth d (str_split (CHR ''/'') ref) = Some (d + length (str_split (CHR ''/'') ref))"
proof -
  have "33 \<le> byte_of c \<and> byte_of c \<le> 126" if "c \<in> set ref" for c
  proof -
    have "is_ref_byte c" using validate_ref_name_Inr(5) [OF assms] that by (simp add: list_all_iff)
    then show ?thesis by (simp add: is_ref_byte_def)
  qed
  then show ?thesis
    using validate_ref_name_Inr(3,4) [OF assms] validate_ref_name_depth [OF assms] by blast
qed

lemma git_ref_stays_inside_witness:
  "\<not> prefix ''-'' ''feature/x'' \<and> \<not> sublist ''..'' ''feature/x'' \<and>
   path_depth 0 (str_split (CHR ''/'') ''feature/x'') = Some (0 + length (str_split (CHR ''/'') ''feature/x''))"
proof -
  have "validate_ref_name ''feature/x'' = Inr ()" by code_simp
  from git_ref_stays_inside [OF this] show ?thesis by blast
qed

section \<open>Conversations\<close>

text \<open>A draft the editor accepted can be submitted exactly when its text is not blank; the
  message then carries the draft's text, attachments and mentions unchanged.\<close>

lemma draft_submission:
  assumes "chat_draft_new body attachments mentions = Inr d"
  shows "((\<exists>m. chat_message_from_draft mid thread d sent_at = Inr m) \<longleftrightarrow> str_trim body \<noteq> []) \<and>
    (\<forall>m. chat_message_from_draft mid thread d sent_at = Inr m \<longrightarrow>
      msg_content m = Content body \<and> msg_attachments m = attachments \<and> msg_mentions m = mentions \<and>
      msg_author m = CA_User \<and> msg_thread m = thread \<and> length attachments \<le> 8 \<and> distinct attachments)"
  using draft_submits_iff [OF assms] assms
  by (auto simp: chat_message_from_draft_Inr_iff chat_message_new_Inr_iff chat_draft_new_def
      has_duplicates_iff max_attachments_def split: if_splits)

definition sample_draft :: chat_draft where
  "sample_draft = \<lparr>dr_text = ''hi'', dr_attachments = [Id 3], dr_mentions = []\<rparr>"

lemma draft_submission_witness:
  "\<exists>m. chat_message_from_draft (Id 1) (Id 2) sample_draft 5 = Inr m \<and> msg_content m = Content ''hi'' \<and>
      msg_attachments m = [Id 3] \<and> msg_mentions m = [] \<and> msg_author m = CA_User \<and> msg_thread m = Id 2"
proof -
  have "chat_draft_new ''hi'' [Id 3] [] = Inr sample_draft"
    by (simp add: chat_draft_new_def has_duplicates_iff chars_count_def content_max_chars_def
        max_attachments_def sample_draft_def)
  note props = draft_submission [OF this, of "Id 1" "Id 2" 5]
  have "str_trim ''hi'' \<noteq> []" by code_simp
  with props show ?thesis by blast
qed

text \<open>The storage key of an accepted attachment is a single file name, so the file it names
  lies directly in the attachment directory, and its size is at most ten megabytes.\<close>

lemma attachment_stored_in_place:
  assumes "chat_attachment_new aid thread key nm media n = Inr a"
  shows "path_depth d (str_split (CHR ''/'') (ca_storage_key a)) = Some (d + 1) \<and>
    CHR 0x5C \<notin> set (ca_storage_key a) \<and> ca_byte_len a \<le> 10485760"
proof -
  have "list_all is_key_byte (ca_storage_key a)" "ca_byte_len a \<le> 10485760"
    using assms by (auto simp: chat_attachment_new_def max_attachment_bytes_def split: if_splits)
  moreover from this(1) have "CHR 0x5C \<notin> set (ca_storage_key a)"
    by (auto simp: list_all_iff is_key_byte_def is_ascii_alphanumeric_def
        is_ascii_digit_def is_ascii_alphabetic_def byte_of_def)
  ultimately show ?thesis using storage_key_single_component [OF assms] by blast
qed

lemma attachment_stored_in_place_witness:
  "path_depth 0 (str_split (CHR ''/'') (ca_storage_key
      \<lparr>ca_id = Id 1, ca_thread = Id 2, ca_storage_key = ''k.png'', ca_display_name = ''shot'',
       ca_media_type = ''image/png'', ca_byte_len = 9\<rparr>)) = Some (0 + 1) \<and>
   CHR 0x5C \<notin> set (ca_storage_key
      \<lparr>ca_id = Id 1, ca_thread = Id 2, ca_storage_key = ''k.png'', ca_display_name = ''shot'',
       ca_media_type = ''image/png'', ca_byte_len = 9\<rparr>) \<and>
   ca_byte_len \<lparr>ca_id = Id 1, ca_thread = Id 2, ca_storage_key = ''k.png'', ca_display_name = ''shot'',
       ca_media_type = ''image/png'', ca_byte_len = 9\<rparr> \<le> 10485760"
proof -
  have "chat_attachment_new (Id 1) (Id 2) ''k.png'' ''shot'' ''image/png'' 9 =
      Inr \<lparr>ca_id = Id 1, ca_thread = Id 2, ca_storage_key = ''k.png'', ca_display_name = ''shot'',
       ca_media_type = ''image/png'', ca_byte_len = 9\<rparr>"
    by code_simp
  then show ?thesis by (rule attachment_stored_in_place)
qed

end
