(* ===== verification/Handoff.thy ===== *)
theory Handoff
  imports Entities
begin

text \<open>
  The typed handoff of \<open>src/domain/orchestration.rs\<close>: delivery attempts, progress reports, the
  response, cancellation and timeout, and the check that a replacement handoff is one atomic
  step away from the stored one.
\<close>

section \<open>State\<close>

definition max_handoff_depth :: nat where "max_handoff_depth = 16"

datatype handoff_message_id = HandoffMessageId (message_id_str: string)

datatype delivery_mechanism = DM_CodexTerminal | DM_ClaudeTerminal | DM_OpenCodeTerminal

datatype delivery_outcome =
    DO_Started
  | DO_Delivered timestamp
  | DO_Failed timestamp content bool

record delivery_attempt =
  att_ordinal :: u32
  att_message_id :: handoff_message_id
  att_started_at :: timestamp
  att_mechanism :: delivery_mechanism
  att_outcome :: delivery_outcome

record handoff_progress =
  prog_message_id :: handoff_message_id
  prog_body :: content
  prog_reported_at :: timestamp

datatype handoff_response_status = HR_Completed | HR_Failed | HR_Blocked

record handoff_response =
  resp_message_id :: handoff_message_id
  resp_status :: handoff_response_status
  resp_body :: content
  resp_responded_at :: timestamp
  resp_outputs :: "(routine_output_key, routine_value) bmap"

datatype handoff_termination =
    HT_Cancelled handoff_message_id content timestamp
  | HT_TimedOut timestamp

record handoff =
  ho_id :: handoff_id
  ho_origin :: handoff_origin
  ho_recipient :: agent_id
  ho_payload :: handoff_payload
  ho_message_id :: "handoff_message_id option"
  ho_parent :: "handoff_id option"
  ho_created_at :: "timestamp option"
  ho_response_deadline :: "timestamp option"
  ho_attempts :: "delivery_attempt list"
  ho_progress :: "handoff_progress list"
  ho_response :: "handoff_response option"
  ho_termination :: "handoff_termination option"

datatype handoff_mutation_error =
    HE_InvalidMessageId
  | HE_InvalidResponseDeadline
  | HE_DuplicateMessageId
  | HE_UnknownDeliveryMessage
  | HE_AlreadyDelivered
  | HE_AttemptInProgress
  | HE_AttemptLimitReached
  | HE_UnknownAttempt
  | HE_AttemptAlreadyFinished
  | HE_InvalidAttemptTime
  | HE_NotDelivered
  | HE_AlreadyTerminal
  | HE_NoResponseDeadline
  | HE_ResponseDeadlineNotReached
  | HE_LegacyHandoff
  | HE_IdentityChanged
  | HE_NonAtomicChange

section \<open>Construction\<close>

definition handoff_message_id_new ::
  "string \<Rightarrow> (handoff_mutation_error, handoff_message_id) result" where
  "handoff_message_id_new value =
     (if value = [] \<or> 128 < chars_count value \<or> \<not> list_all is_key_byte value
      then Inl HE_InvalidMessageId
      else Inr (HandoffMessageId value))"

definition handoff_with_origin ::
  "handoff_id \<Rightarrow> handoff_origin \<Rightarrow> agent_id \<Rightarrow> handoff_payload \<Rightarrow> handoff" where
  "handoff_with_origin hid origin recipient payload =
     \<lparr>ho_id = hid, ho_origin = origin, ho_recipient = recipient, ho_payload = payload,
      ho_message_id = None, ho_parent = None, ho_created_at = None, ho_response_deadline = None,
      ho_attempts = [], ho_progress = [], ho_response = None, ho_termination = None\<rparr>"

definition handoff_new ::
  "handoff_id \<Rightarrow> agent_id \<Rightarrow> agent_id \<Rightarrow> handoff_payload \<Rightarrow> handoff" where
  "handoff_new hid source recipient payload =
     handoff_with_origin hid (HO_Agent source) recipient payload"

definition handoff_tracked ::
  "handoff_id \<Rightarrow> handoff_message_id \<Rightarrow> handoff_origin \<Rightarrow> agent_id \<Rightarrow> handoff_payload \<Rightarrow>
   handoff_id option \<Rightarrow> timestamp \<Rightarrow> timestamp option \<Rightarrow>
   (handoff_mutation_error, handoff) result" where
  "handoff_tracked hid mid origin recipient payload parent created_at deadline =
     (if (case deadline of None \<Rightarrow> False | Some d \<Rightarrow> d \<le> created_at)
      then Inl HE_InvalidResponseDeadline
      else Inr \<lparr>ho_id = hid, ho_origin = origin, ho_recipient = recipient, ho_payload = payload,
                ho_message_id = Some mid, ho_parent = parent, ho_created_at = Some created_at,
                ho_response_deadline = deadline, ho_attempts = [], ho_progress = [],
                ho_response = None, ho_termination = None\<rparr>)"

section \<open>Queries\<close>

fun outcome_is_delivered :: "delivery_outcome \<Rightarrow> bool" where
  "outcome_is_delivered (DO_Delivered _) = True"
| "outcome_is_delivered _ = False"

fun outcome_is_terminal :: "delivery_outcome \<Rightarrow> bool" where
  "outcome_is_terminal (DO_Delivered _) = True"
| "outcome_is_terminal (DO_Failed _ _ retryable) = (\<not> retryable)"
| "outcome_is_terminal DO_Started = False"

definition is_message_delivered :: "handoff \<Rightarrow> handoff_message_id \<Rightarrow> bool" where
  "is_message_delivered h mid =
     list_ex (\<lambda>a. att_message_id a = mid \<and> outcome_is_delivered (att_outcome a)) (ho_attempts h)"

definition is_delivered :: "handoff \<Rightarrow> bool" where
  "is_delivered h =
     (case ho_message_id h of None \<Rightarrow> False | Some mid \<Rightarrow> is_message_delivered h mid)"

definition is_delivery_terminal :: "handoff \<Rightarrow> handoff_message_id \<Rightarrow> bool" where
  "is_delivery_terminal h mid =
     list_ex (\<lambda>a. att_message_id a = mid \<and> outcome_is_terminal (att_outcome a)) (ho_attempts h)"

definition has_delivery_message :: "handoff \<Rightarrow> handoff_message_id \<Rightarrow> bool" where
  "has_delivery_message h mid =
     (ho_message_id h = Some mid
      \<or> list_ex (\<lambda>p. prog_message_id p = mid) (ho_progress h)
      \<or> (case ho_response h of None \<Rightarrow> False | Some r \<Rightarrow> resp_message_id r = mid)
      \<or> (case ho_termination h of Some (HT_Cancelled c _ _) \<Rightarrow> c = mid | _ \<Rightarrow> False))"

definition ensure_active :: "handoff \<Rightarrow> (handoff_mutation_error, unit) result" where
  "ensure_active h =
     (if ho_response h \<noteq> None \<or> ho_termination h \<noteq> None then Inl HE_AlreadyTerminal
      else if ho_message_id h = None then Inl HE_LegacyHandoff
      else Inr ())"

definition ensure_delivered_and_active :: "handoff \<Rightarrow> (handoff_mutation_error, unit) result" where
  "ensure_delivered_and_active h =
     res_bind (ensure_active h) (\<lambda>_. ensure (is_delivered h) HE_NotDelivered)"

section \<open>Operations\<close>

text \<open>An operation that succeeds returns the changed handoff; \<open>begin_delivery\<close> also the ordinal.\<close>

definition begin_delivery ::
  "handoff_message_id \<Rightarrow> delivery_mechanism \<Rightarrow> timestamp \<Rightarrow> handoff \<Rightarrow>
   (handoff_mutation_error, handoff \<times> u32) result" where
  "begin_delivery mid mechanism started_at h =
     (if \<not> has_delivery_message h mid then Inl HE_UnknownDeliveryMessage
      else if ho_message_id h = Some mid \<and> (ho_response h \<noteq> None \<or> ho_termination h \<noteq> None)
      then Inl HE_AlreadyTerminal
      else if is_message_delivered h mid then Inl HE_AlreadyDelivered
      else if list_ex (\<lambda>a. att_outcome a = DO_Started) (ho_attempts h)
      then Inl HE_AttemptInProgress
      else res_bind (ok_or (next_ordinal (length (ho_attempts h))) HE_AttemptLimitReached)
        (\<lambda>ordinal. Inr (h\<lparr>ho_attempts := ho_attempts h @
            [\<lparr>att_ordinal = ordinal, att_message_id = mid, att_started_at = started_at,
              att_mechanism = mechanism, att_outcome = DO_Started\<rparr>]\<rparr>, ordinal)))"

text \<open>\<open>started_attempt\<close>: the attempt a completion may write to.\<close>

definition started_attempt ::
  "handoff \<Rightarrow> u32 \<Rightarrow> timestamp \<Rightarrow> (handoff_mutation_error, delivery_attempt) result" where
  "started_attempt h ordinal finished_at =
     res_bind (ok_or (List.find (\<lambda>a. att_ordinal a = ordinal) (ho_attempts h)) HE_UnknownAttempt)
       (\<lambda>attempt.
         if att_outcome attempt \<noteq> DO_Started then Inl HE_AttemptAlreadyFinished
         else if finished_at < att_started_at attempt then Inl HE_InvalidAttemptTime
         else Inr attempt)"

definition finish_delivery :: "u32 \<Rightarrow> delivery_outcome \<Rightarrow> handoff \<Rightarrow> handoff" where
  "finish_delivery ordinal outcome h =
     h\<lparr>ho_attempts := update_first (\<lambda>a. att_ordinal a = ordinal)
          (\<lambda>a. a\<lparr>att_outcome := outcome\<rparr>) (ho_attempts h)\<rparr>"

definition complete_delivery ::
  "u32 \<Rightarrow> timestamp \<Rightarrow> handoff \<Rightarrow> (handoff_mutation_error, handoff) result" where
  "complete_delivery ordinal finished_at h =
     res_bind (started_attempt h ordinal finished_at)
       (\<lambda>_. Inr (finish_delivery ordinal (DO_Delivered finished_at) h))"

definition fail_delivery ::
  "u32 \<Rightarrow> timestamp \<Rightarrow> content \<Rightarrow> bool \<Rightarrow> handoff \<Rightarrow> (handoff_mutation_error, handoff) result" where
  "fail_delivery ordinal finished_at err retryable h =
     res_bind (started_attempt h ordinal finished_at)
       (\<lambda>_. Inr (finish_delivery ordinal (DO_Failed finished_at err retryable) h))"

definition report_progress ::
  "handoff_progress \<Rightarrow> handoff \<Rightarrow> (handoff_mutation_error, handoff) result" where
  "report_progress p h =
     res_bind (ensure_delivered_and_active h) (\<lambda>_.
       if list_ex (\<lambda>e. prog_message_id e = prog_message_id p) (ho_progress h)
       then Inl HE_DuplicateMessageId
       else Inr (h\<lparr>ho_progress := ho_progress h @ [p]\<rparr>))"

definition respond :: "handoff_response \<Rightarrow> handoff \<Rightarrow> (handoff_mutation_error, handoff) result" where
  "respond r h =
     res_bind (ensure_delivered_and_active h) (\<lambda>_. Inr (h\<lparr>ho_response := Some r\<rparr>))"

definition cancel_handoff ::
  "handoff_message_id \<Rightarrow> content \<Rightarrow> timestamp \<Rightarrow> handoff \<Rightarrow>
   (handoff_mutation_error, handoff) result" where
  "cancel_handoff mid reason cancelled_at h =
     res_bind (ensure_active h)
       (\<lambda>_. Inr (h\<lparr>ho_termination := Some (HT_Cancelled mid reason cancelled_at)\<rparr>))"

definition time_out :: "timestamp \<Rightarrow> handoff \<Rightarrow> (handoff_mutation_error, handoff) result" where
  "time_out timed_out_at h =
     res_bind (ensure_active h) (\<lambda>_.
     res_bind (ok_or (ho_response_deadline h) HE_NoResponseDeadline) (\<lambda>deadline.
       if timed_out_at < deadline then Inl HE_ResponseDeadlineNotReached
       else Inr (h\<lparr>ho_termination := Some (HT_TimedOut timed_out_at)\<rparr>)))"

section \<open>The successor check\<close>

definition same_identity :: "handoff \<Rightarrow> handoff \<Rightarrow> bool" where
  "same_identity after before =
     (ho_id after = ho_id before \<and> ho_origin after = ho_origin before
      \<and> ho_recipient after = ho_recipient before \<and> ho_payload after = ho_payload before
      \<and> ho_message_id after = ho_message_id before \<and> ho_parent after = ho_parent before
      \<and> ho_created_at after = ho_created_at before
      \<and> ho_response_deadline after = ho_response_deadline before)"

text \<open>The branch of \<open>validate_successor\<close> for a change of the delivery attempts.\<close>

definition attempts_candidate ::
  "handoff \<Rightarrow> handoff \<Rightarrow> (handoff_mutation_error, handoff) result" where
  "attempts_candidate after previous =
     (if length (ho_attempts after) = length (ho_attempts previous) + 1 then
        let attempt = last (ho_attempts after) in
        if att_outcome attempt \<noteq> DO_Started then Inl HE_NonAtomicChange
        else res_bind
          (begin_delivery (att_message_id attempt) (att_mechanism attempt)
             (att_started_at attempt) previous)
          (\<lambda>(candidate, ordinal).
             if ordinal \<noteq> att_ordinal attempt then Inl HE_NonAtomicChange else Inr candidate)
      else if length (ho_attempts after) = length (ho_attempts previous) then
        (case filter (\<lambda>(a, b). a \<noteq> b) (zip (ho_attempts after) (ho_attempts previous)) of
           [(attempt, _)] \<Rightarrow>
             (case att_outcome attempt of
                DO_Delivered finished_at \<Rightarrow>
                  complete_delivery (att_ordinal attempt) finished_at previous
              | DO_Failed finished_at err retryable \<Rightarrow>
                  fail_delivery (att_ordinal attempt) finished_at err retryable previous
              | DO_Started \<Rightarrow> Inl HE_NonAtomicChange)
         | _ \<Rightarrow> Inl HE_NonAtomicChange)
      else Inl HE_NonAtomicChange)"

definition progress_candidate ::
  "handoff \<Rightarrow> handoff \<Rightarrow> (handoff_mutation_error, handoff) result" where
  "progress_candidate after previous =
     (if length (ho_progress after) \<noteq> length (ho_progress previous) + 1
         \<or> take (length (ho_progress previous)) (ho_progress after) \<noteq> ho_progress previous
      then Inl HE_NonAtomicChange
      else report_progress (last (ho_progress after)) previous)"

definition response_candidate ::
  "handoff \<Rightarrow> handoff \<Rightarrow> (handoff_mutation_error, handoff) result" where
  "response_candidate after previous =
     (case (ho_response previous, ho_response after) of
        (None, Some r) \<Rightarrow> respond r previous
      | _ \<Rightarrow> Inl HE_NonAtomicChange)"

definition termination_candidate ::
  "handoff \<Rightarrow> handoff \<Rightarrow> (handoff_mutation_error, handoff) result" where
  "termination_candidate after previous =
     (case (ho_termination previous, ho_termination after) of
        (None, Some (HT_Cancelled mid reason cancelled_at)) \<Rightarrow>
          cancel_handoff mid reason cancelled_at previous
      | (None, Some (HT_TimedOut timed_out_at)) \<Rightarrow> time_out timed_out_at previous
      | _ \<Rightarrow> Inl HE_NonAtomicChange)"

definition validate_successor ::
  "handoff \<Rightarrow> handoff \<Rightarrow> (handoff_mutation_error, unit) result" where
  "validate_successor after previous =
     (if \<not> same_identity after previous then Inl HE_IdentityChanged
      else
        let attempts_changed = (ho_attempts after \<noteq> ho_attempts previous);
            progress_changed = (ho_progress after \<noteq> ho_progress previous);
            response_changed = (ho_response after \<noteq> ho_response previous);
            termination_changed = (ho_termination after \<noteq> ho_termination previous)
        in if length (filter id [attempts_changed, progress_changed, response_changed,
                                 termination_changed]) \<noteq> 1
           then Inl HE_NonAtomicChange
           else res_bind
             (if attempts_changed then attempts_candidate after previous
              else if progress_changed then progress_candidate after previous
              else if response_changed then response_candidate after previous
              else termination_candidate after previous)
             (\<lambda>candidate. ensure (candidate = after) HE_NonAtomicChange))"

end
