(* ===== verification/Handoff_Steps.thy ===== *)
theory Handoff_Steps
  imports Handoff
begin

text \<open>
  The operational reading of a handoff: a step relation with one rule per operation. The
  successor check that guards every stored update accepts exactly these steps, and the steps
  keep the invariant of the delivery log.
\<close>

section \<open>One atomic step\<close>

inductive handoff_step :: "handoff \<Rightarrow> handoff \<Rightarrow> bool" where
  step_begin: "begin_delivery mid mech t h = Inr (h', n) \<Longrightarrow> handoff_step h h'"
| step_complete: "complete_delivery n t h = Inr h' \<Longrightarrow> handoff_step h h'"
| step_fail: "fail_delivery n t e r h = Inr h' \<Longrightarrow> handoff_step h h'"
| step_progress: "report_progress p h = Inr h' \<Longrightarrow> handoff_step h h'"
| step_respond: "respond rsp h = Inr h' \<Longrightarrow> handoff_step h h'"
| step_cancel: "cancel_handoff mid c t h = Inr h' \<Longrightarrow> handoff_step h h'"
| step_time_out: "time_out t h = Inr h' \<Longrightarrow> handoff_step h h'"

lemmas handoff_op_defs =
  begin_delivery_def complete_delivery_def fail_delivery_def report_progress_def respond_def
  cancel_handoff_def time_out_def ensure_delivered_and_active_def ensure_active_def
  started_attempt_def finish_delivery_def

lemma ensure_active_Inr_iff [result_iff]:
  "ensure_active h = Inr u \<longleftrightarrow>
     ho_response h = None \<and> ho_termination h = None \<and> ho_message_id h \<noteq> None"
  by (simp add: ensure_active_def)

lemma ensure_delivered_and_active_Inr_iff [result_iff]:
  "ensure_delivered_and_active h = Inr u \<longleftrightarrow>
     ho_response h = None \<and> ho_termination h = None \<and> is_delivered h"
  by (auto simp: ensure_delivered_and_active_def is_delivered_def result_iff split: option.splits)

lemma begin_delivery_Inr_iff:
  "begin_delivery mid mech t h = Inr (h', n) \<longleftrightarrow>
     has_delivery_message h mid \<and>
     \<not> (ho_message_id h = Some mid \<and> (ho_response h \<noteq> None \<or> ho_termination h \<noteq> None)) \<and>
     \<not> is_message_delivered h mid \<and>
     (\<forall>a\<in>set (ho_attempts h). att_outcome a \<noteq> DO_Started) \<and>
     unat n = length (ho_attempts h) + 1 \<and>
     h' = h\<lparr>ho_attempts := ho_attempts h @
            [\<lparr>att_ordinal = n, att_message_id = mid, att_started_at = t,
              att_mechanism = mech, att_outcome = DO_Started\<rparr>]\<rparr>"
  by (auto simp: begin_delivery_def result_iff list_ex_iff next_ordinal_Some_iff)

lemma started_attempt_Inr_iff [result_iff]:
  "started_attempt h n t = Inr a \<longleftrightarrow>
     List.find (\<lambda>a. att_ordinal a = n) (ho_attempts h) = Some a \<and>
     att_outcome a = DO_Started \<and> att_started_at a \<le> t"
  by (auto simp: started_attempt_def result_iff not_less split: if_splits)

text \<open>Finishing an attempt rewrites exactly one entry of the log.\<close>

lemma finish_deliveryE:
  assumes "started_attempt h n t = Inr a"
  obtains ys zs where "ho_attempts h = ys @ a # zs" and "att_ordinal a = n"
    and "att_outcome a = DO_Started" and "att_started_at a \<le> t"
    and "\<forall>y\<in>set ys. att_ordinal y \<noteq> n"
    and "\<And>out. finish_delivery n out h = h\<lparr>ho_attempts := ys @ a\<lparr>att_outcome := out\<rparr> # zs\<rparr>"
proof -
  from assms have find: "List.find (\<lambda>a. att_ordinal a = n) (ho_attempts h) = Some a"
    and props: "att_outcome a = DO_Started" "att_started_at a \<le> t"
    by (simp_all add: result_iff)
  from find obtain ys zs where "ho_attempts h = ys @ a # zs" "att_ordinal a = n"
    "\<forall>y\<in>set ys. att_ordinal y \<noteq> n"
    "\<And>f. update_first (\<lambda>a. att_ordinal a = n) f (ho_attempts h) = ys @ f a # zs"
    by (rule update_first_split) blast
  with props show ?thesis by (intro that [of ys zs]) (auto simp: finish_delivery_def)
qed

text \<open>The shape of an accepted change: which single field moved, and how.\<close>

lemma complete_delivery_Inr_iff:
  "complete_delivery n t h = Inr h' \<longleftrightarrow>
     (\<exists>a. started_attempt h n t = Inr a \<and> h' = finish_delivery n (DO_Delivered t) h)"
  by (auto simp: complete_delivery_def result_iff)

lemma fail_delivery_Inr_iff:
  "fail_delivery n t e r h = Inr h' \<longleftrightarrow>
     (\<exists>a. started_attempt h n t = Inr a \<and> h' = finish_delivery n (DO_Failed t e r) h)"
  by (auto simp: fail_delivery_def result_iff)

lemma report_progress_Inr_iff:
  "report_progress p h = Inr h' \<longleftrightarrow>
     ho_response h = None \<and> ho_termination h = None \<and> is_delivered h \<and>
     (\<forall>e\<in>set (ho_progress h). prog_message_id e \<noteq> prog_message_id p) \<and>
     h' = h\<lparr>ho_progress := ho_progress h @ [p]\<rparr>"
  by (auto simp: report_progress_def result_iff list_ex_iff)

lemma respond_Inr_iff:
  "respond r h = Inr h' \<longleftrightarrow>
     ho_response h = None \<and> ho_termination h = None \<and> is_delivered h \<and>
     h' = h\<lparr>ho_response := Some r\<rparr>"
  by (auto simp: respond_def result_iff)

lemma cancel_handoff_Inr_iff:
  "cancel_handoff mid c t h = Inr h' \<longleftrightarrow>
     ho_response h = None \<and> ho_termination h = None \<and> ho_message_id h \<noteq> None \<and>
     h' = h\<lparr>ho_termination := Some (HT_Cancelled mid c t)\<rparr>"
  by (auto simp: cancel_handoff_def result_iff)

lemma time_out_Inr_iff:
  "time_out t h = Inr h' \<longleftrightarrow>
     ho_response h = None \<and> ho_termination h = None \<and> ho_message_id h \<noteq> None \<and>
     (\<exists>d. ho_response_deadline h = Some d \<and> d \<le> t) \<and>
     h' = h\<lparr>ho_termination := Some (HT_TimedOut t)\<rparr>"
  by (auto simp: time_out_def result_iff not_less split: if_splits)

lemmas handoff_op_iffs =
  begin_delivery_Inr_iff complete_delivery_Inr_iff fail_delivery_Inr_iff
  report_progress_Inr_iff respond_Inr_iff cancel_handoff_Inr_iff time_out_Inr_iff

lemma handoff_step_identity: "handoff_step h h' \<Longrightarrow> same_identity h' h"
  by (induction rule: handoff_step.induct)
    (auto simp: handoff_op_iffs same_identity_def finish_delivery_def)

section \<open>The successor check accepts exactly the steps\<close>

lemma filter_zip_same: "filter (\<lambda>(a, b). a \<noteq> b) (zip xs xs) = []"
  by (induction xs) auto

lemma attempts_candidate_begin:
  assumes "begin_delivery mid mech t h = Inr (h', n)"
  shows "attempts_candidate h' h = Inr h'"
proof -
  from assms have "h' = h\<lparr>ho_attempts := ho_attempts h @
      [\<lparr>att_ordinal = n, att_message_id = mid, att_started_at = t, att_mechanism = mech,
        att_outcome = DO_Started\<rparr>]\<rparr>"
    by (simp add: begin_delivery_Inr_iff)
  with assms show ?thesis by (simp add: attempts_candidate_def)
qed

lemma attempts_candidate_finish:
  assumes "started_attempt h n t = Inr a"
    and "out = DO_Delivered t \<or> (\<exists>e r. out = DO_Failed t e r)"
  shows "attempts_candidate (finish_delivery n out h) h = Inr (finish_delivery n out h)"
    and "ho_attempts (finish_delivery n out h) \<noteq> ho_attempts h"
proof -
  obtain ys zs where split: "ho_attempts h = ys @ a # zs" "att_ordinal a = n"
    "att_outcome a = DO_Started"
    "finish_delivery n out h = h\<lparr>ho_attempts := ys @ a\<lparr>att_outcome := out\<rparr> # zs\<rparr>"
    using assms(1) by (rule finish_deliveryE) blast
  have ne: "a\<lparr>att_outcome := out\<rparr> \<noteq> a"
    using assms(2) split(3) by (metis delivery_attempt.select_convs(5) delivery_attempt.surjective
        delivery_attempt.update_convs(5) delivery_outcome.distinct(1,3))
  then show "ho_attempts (finish_delivery n out h) \<noteq> ho_attempts h"
    by (simp add: split)
  have "filter (\<lambda>(x, y). x \<noteq> y) (zip (ho_attempts (finish_delivery n out h)) (ho_attempts h))
          = [(a\<lparr>att_outcome := out\<rparr>, a)]"
    using ne by (simp add: split(1,4) filter_zip_same)
  moreover have "length (ho_attempts (finish_delivery n out h)) = length (ho_attempts h)"
    by (simp add: finish_delivery_def)
  ultimately show "attempts_candidate (finish_delivery n out h) h = Inr (finish_delivery n out h)"
    using assms split(2)
    by (auto simp: attempts_candidate_def complete_delivery_def fail_delivery_def)
qed

lemma validate_attempts_changed:
  assumes "attempts_candidate h' h = Inr h'" and "ho_attempts h' \<noteq> ho_attempts h"
    and "h' = h\<lparr>ho_attempts := as\<rparr>"
  shows "validate_successor h' h = Inr ()"
  using assms by (simp add: validate_successor_def same_identity_def)

lemma validate_finished:
  assumes "started_attempt h n t = Inr a"
    and "out = DO_Delivered t \<or> (\<exists>e r. out = DO_Failed t e r)"
  shows "validate_successor (finish_delivery n out h) h = Inr ()"
  using attempts_candidate_finish [OF assms] finish_delivery_def
  by (rule validate_attempts_changed)

lemma validate_successor_complete: "handoff_step h h' \<Longrightarrow> validate_successor h' h = Inr ()"
proof (induction rule: handoff_step.induct)
  case (step_begin mid mech t h h' n)
  then have "attempts_candidate h' h = Inr h'" by (rule attempts_candidate_begin)
  with step_begin show ?case
    unfolding begin_delivery_Inr_iff by (intro validate_attempts_changed) auto
next
  case (step_complete n t h h')
  then show ?case
    unfolding complete_delivery_Inr_iff by (auto intro: validate_finished)
next
  case (step_fail n t e r h h')
  then show ?case
    unfolding fail_delivery_Inr_iff by (auto intro: validate_finished)
next
  case (step_progress p h h')
  then have eq: "h' = h\<lparr>ho_progress := ho_progress h @ [p]\<rparr>"
    unfolding report_progress_Inr_iff by blast
  then have "progress_candidate h' h = report_progress p h"
    by (simp add: progress_candidate_def)
  then have "progress_candidate h' h = Inr h'" using step_progress by (rule trans)
  with eq show ?case by (simp add: validate_successor_def same_identity_def)
next
  case (step_respond rsp h h')
  then have eq: "h' = h\<lparr>ho_response := Some rsp\<rparr>" and none: "ho_response h = None"
    by (simp_all add: respond_Inr_iff)
  then have "response_candidate h' h = Inr h'"
    using step_respond by (simp add: response_candidate_def)
  with eq none show ?case by (simp add: validate_successor_def same_identity_def)
next
  case (step_cancel mid c t h h')
  then have eq: "h' = h\<lparr>ho_termination := Some (HT_Cancelled mid c t)\<rparr>"
    and none: "ho_termination h = None"
    by (simp_all add: cancel_handoff_Inr_iff)
  then have "termination_candidate h' h = Inr h'"
    using step_cancel by (simp add: termination_candidate_def)
  with eq none show ?case by (simp add: validate_successor_def same_identity_def)
next
  case (step_time_out t h h')
  then have eq: "h' = h\<lparr>ho_termination := Some (HT_TimedOut t)\<rparr>"
    and none: "ho_termination h = None"
    by (simp_all add: time_out_Inr_iff)
  then have "termination_candidate h' h = Inr h'"
    using step_time_out by (simp add: termination_candidate_def)
  with eq none show ?case by (simp add: validate_successor_def same_identity_def)
qed

lemma attempts_candidate_step: "attempts_candidate h' h = Inr c \<Longrightarrow> handoff_step h c"
  by (auto simp: attempts_candidate_def Let_def result_iff
      split: if_splits prod.splits list.splits delivery_outcome.splits
      intro: handoff_step.intros)

lemma validate_successor_sound:
  assumes "validate_successor h' h = Inr ()"
  shows "handoff_step h h'"
  using assms
  by (auto simp: validate_successor_def Let_def result_iff progress_candidate_def
      response_candidate_def termination_candidate_def
      split: if_splits option.splits handoff_termination.splits
      intro: attempts_candidate_step handoff_step.intros)

section \<open>The invariant of the delivery log\<close>

definition delivered_ids :: "handoff \<Rightarrow> handoff_message_id list" where
  "delivered_ids h =
     map att_message_id (filter (\<lambda>a. outcome_is_delivered (att_outcome a)) (ho_attempts h))"

fun attempt_time_ok :: "delivery_attempt \<Rightarrow> bool" where
  "attempt_time_ok a =
     (case att_outcome a of
        DO_Started \<Rightarrow> True
      | DO_Delivered t \<Rightarrow> att_started_at a \<le> t
      | DO_Failed t _ _ \<Rightarrow> att_started_at a \<le> t)"

definition handoff_log_ok :: "handoff \<Rightarrow> bool" where
  "handoff_log_ok h \<longleftrightarrow>
     map (\<lambda>a. unat (att_ordinal a)) (ho_attempts h) = [1..<length (ho_attempts h) + 1] \<and>
     (\<forall>a\<in>set (ho_attempts h). attempt_time_ok a \<and> has_delivery_message h (att_message_id a)) \<and>
     (\<forall>a\<in>set (butlast (ho_attempts h)). att_outcome a \<noteq> DO_Started) \<and>
     (\<forall>a\<in>set (ho_attempts h). att_outcome a = DO_Started \<longrightarrow>
        att_message_id a \<notin> set (delivered_ids h)) \<and>
     distinct (delivered_ids h)"

definition handoff_wf :: "handoff \<Rightarrow> bool" where
  "handoff_wf h \<longleftrightarrow>
     handoff_log_ok h \<and>
     distinct (map prog_message_id (ho_progress h)) \<and>
     (ho_progress h \<noteq> [] \<or> ho_response h \<noteq> None \<longrightarrow> is_delivered h) \<and>
     (ho_response h = None \<or> ho_termination h = None) \<and>
     (ho_termination h \<noteq> None \<longrightarrow> ho_message_id h \<noteq> None)"

lemma is_message_delivered_ids: "is_message_delivered h mid \<longleftrightarrow> mid \<in> set (delivered_ids h)"
  by (auto simp: is_message_delivered_def delivered_ids_def list_ex_iff)

lemma is_delivered_iff:
  "is_delivered h \<longleftrightarrow> (\<exists>mid. ho_message_id h = Some mid \<and> mid \<in> set (delivered_ids h))"
  by (auto simp: is_delivered_def is_message_delivered_ids split: option.splits)

text \<open>Fields other than the one a step writes do not disturb the log.\<close>

lemma delivered_ids_frame [simp]:
  "delivered_ids (h\<lparr>ho_progress := ps\<rparr>) = delivered_ids h"
  "delivered_ids (h\<lparr>ho_response := r\<rparr>) = delivered_ids h"
  "delivered_ids (h\<lparr>ho_termination := t\<rparr>) = delivered_ids h"
  by (simp_all add: delivered_ids_def)

lemma is_delivered_frame [simp]:
  "is_delivered (h\<lparr>ho_progress := ps\<rparr>) = is_delivered h"
  "is_delivered (h\<lparr>ho_response := r\<rparr>) = is_delivered h"
  "is_delivered (h\<lparr>ho_termination := t\<rparr>) = is_delivered h"
  by (simp_all add: is_delivered_iff)

lemma has_delivery_message_mono:
  "has_delivery_message h m \<Longrightarrow> has_delivery_message (h\<lparr>ho_progress := ho_progress h @ ps\<rparr>) m"
  "has_delivery_message h m \<Longrightarrow> ho_response h = None \<Longrightarrow>
     has_delivery_message (h\<lparr>ho_response := r\<rparr>) m"
  "has_delivery_message h m \<Longrightarrow> ho_termination h = None \<Longrightarrow>
     has_delivery_message (h\<lparr>ho_termination := t\<rparr>) m"
  "has_delivery_message (h\<lparr>ho_attempts := as\<rparr>) m = has_delivery_message h m"
  by (auto simp: has_delivery_message_def list_ex_iff)

lemma handoff_log_ok_mono:
  assumes "handoff_log_ok h" and "ho_attempts h' = ho_attempts h"
    and "\<And>m. has_delivery_message h m \<Longrightarrow> has_delivery_message h' m"
  shows "handoff_log_ok h'"
proof -
  have "delivered_ids h' = delivered_ids h" using assms(2) by (simp add: delivered_ids_def)
  with assms show ?thesis by (simp add: handoff_log_ok_def)
qed

lemma begin_delivery_log_ok:
  assumes "begin_delivery mid mech t h = Inr (h', n)" and "handoff_log_ok h"
  shows "handoff_log_ok h'" and "delivered_ids h' = delivered_ids h"
proof -
  let ?a = "\<lparr>att_ordinal = n, att_message_id = mid, att_started_at = t, att_mechanism = mech,
    att_outcome = DO_Started\<rparr>"
  from assms(1) have facts: "has_delivery_message h mid" "mid \<notin> set (delivered_ids h)"
    "\<forall>a\<in>set (ho_attempts h). att_outcome a \<noteq> DO_Started" "unat n = length (ho_attempts h) + 1"
    and h': "h' = h\<lparr>ho_attempts := ho_attempts h @ [?a]\<rparr>"
    unfolding begin_delivery_Inr_iff is_message_delivered_ids by blast+
  show ids: "delivered_ids h' = delivered_ids h" by (simp add: h' delivered_ids_def)
  show "handoff_log_ok h'"
    using assms(2) facts unfolding handoff_log_ok_def ids
    by (auto simp: h' has_delivery_message_mono(4))
qed

lemma finish_delivery_log_ok:
  assumes start: "started_attempt h n t = Inr a" and ok: "handoff_log_ok h"
    and out: "out = DO_Delivered t \<or> (\<exists>e r. out = DO_Failed t e r)"
  shows "handoff_log_ok (finish_delivery n out h)"
    and "set (delivered_ids h) \<subseteq> set (delivered_ids (finish_delivery n out h))"
proof -
  obtain ys zs where split: "ho_attempts h = ys @ a # zs" "att_outcome a = DO_Started"
      "att_started_at a \<le> t"
    and fin: "finish_delivery n out h = h\<lparr>ho_attempts := ys @ a\<lparr>att_outcome := out\<rparr> # zs\<rparr>"
    using start by (rule finish_deliveryE) blast
  have zs: "zs = []"
    using ok split(1,2) by (cases zs rule: rev_cases) (auto simp: handoff_log_ok_def butlast_append)
  have ids: "delivered_ids (finish_delivery n out h) =
      delivered_ids h @ (if outcome_is_delivered out then [att_message_id a] else [])"
    by (simp add: fin zs split(1,2) delivered_ids_def)
  then show "set (delivered_ids h) \<subseteq> set (delivered_ids (finish_delivery n out h))" by simp
  have "out \<noteq> DO_Started" and "attempt_time_ok (a\<lparr>att_outcome := out\<rparr>)"
    using out split(3) by auto
  then show "handoff_log_ok (finish_delivery n out h)"
    using ok split(2) unfolding handoff_log_ok_def ids
    by (auto simp: fin zs split(1) has_delivery_message_mono(4))
qed

lemma handoff_step_log_ok:
  assumes "handoff_step h h'" and "handoff_log_ok h"
  shows "handoff_log_ok h'" and "set (delivered_ids h) \<subseteq> set (delivered_ids h')"
  using assms
proof (induction rule: handoff_step.induct)
  case (step_begin mid mech t h h' n)
  case 1 then show ?case using begin_delivery_log_ok step_begin by blast
  case 2 then show ?case using begin_delivery_log_ok(2) [OF step_begin] by simp
next
  case (step_complete n t h h')
  then obtain a where a: "started_attempt h n t = Inr a" "h' = finish_delivery n (DO_Delivered t) h"
    unfolding complete_delivery_Inr_iff by blast
  case 1 with a show ?case by (auto intro: finish_delivery_log_ok)
  case 2 with a show ?case using finish_delivery_log_ok(2) [OF a(1)] by blast
next
  case (step_fail n t e r h h')
  then obtain a where a: "started_attempt h n t = Inr a" "h' = finish_delivery n (DO_Failed t e r) h"
    unfolding fail_delivery_Inr_iff by blast
  case 1 with a show ?case by (auto intro: finish_delivery_log_ok)
  case 2 with a show ?case using finish_delivery_log_ok(2) [OF a(1)] by blast
next
  case (step_progress p h h')
  then have h': "h' = h\<lparr>ho_progress := ho_progress h @ [p]\<rparr>"
    unfolding report_progress_Inr_iff by blast
  case 1 then show ?case
    by (rule handoff_log_ok_mono) (simp_all add: h' has_delivery_message_mono)
  case 2 show ?case by (simp add: h')
next
  case (step_respond rsp h h')
  then have h': "h' = h\<lparr>ho_response := Some rsp\<rparr>" "ho_response h = None"
    by (simp_all add: respond_Inr_iff)
  case 1 then show ?case
    by (rule handoff_log_ok_mono) (simp_all add: h' has_delivery_message_mono)
  case 2 show ?case by (simp add: h')
next
  case (step_cancel mid c t h h')
  then have h': "h' = h\<lparr>ho_termination := Some (HT_Cancelled mid c t)\<rparr>" "ho_termination h = None"
    by (simp_all add: cancel_handoff_Inr_iff)
  case 1 then show ?case
    by (rule handoff_log_ok_mono) (simp_all add: h' has_delivery_message_mono)
  case 2 show ?case by (simp add: h')
next
  case (step_time_out t h h')
  then have h': "h' = h\<lparr>ho_termination := Some (HT_TimedOut t)\<rparr>" "ho_termination h = None"
    by (simp_all add: time_out_Inr_iff)
  case 1 then show ?case
    by (rule handoff_log_ok_mono) (simp_all add: h' has_delivery_message_mono)
  case 2 show ?case by (simp add: h')
qed

lemma handoff_step_wf: "handoff_step h h' \<Longrightarrow> handoff_wf h \<Longrightarrow> handoff_wf h'"
proof -
  assume step: "handoff_step h h'" and wf: "handoff_wf h"
  have log: "handoff_log_ok h'" and ids: "set (delivered_ids h) \<subseteq> set (delivered_ids h')"
    using handoff_step_log_ok [OF step] wf by (simp_all add: handoff_wf_def)
  have mid: "ho_message_id h' = ho_message_id h"
    using handoff_step_identity [OF step] by (simp add: same_identity_def)
  have deliv: "is_delivered h \<Longrightarrow> is_delivered h'"
    using ids by (auto simp: is_delivered_iff mid)
  show ?thesis
    using step
  proof cases
    case (step_begin mid mech t n)
    then show ?thesis using wf log deliv
      unfolding begin_delivery_Inr_iff handoff_wf_def by auto
  next
    case (step_complete n t)
    then show ?thesis using wf log deliv
      by (auto simp: complete_delivery_Inr_iff handoff_wf_def finish_delivery_def)
  next
    case (step_fail n t e r)
    then show ?thesis using wf log deliv
      by (auto simp: fail_delivery_Inr_iff handoff_wf_def finish_delivery_def)
  next
    case (step_progress p)
    then have "h' = h\<lparr>ho_progress := ho_progress h @ [p]\<rparr>" "is_delivered h"
      "\<forall>e\<in>set (ho_progress h). prog_message_id e \<noteq> prog_message_id p"
      unfolding report_progress_Inr_iff by blast+
    then show ?thesis using wf log deliv by (auto simp: handoff_wf_def)
  next
    case (step_respond rsp)
    then show ?thesis using wf log deliv by (auto simp: respond_Inr_iff handoff_wf_def)
  next
    case (step_cancel mid c t)
    then show ?thesis using wf log deliv by (auto simp: cancel_handoff_Inr_iff handoff_wf_def)
  next
    case (step_time_out t)
    then show ?thesis using wf log deliv by (auto simp: time_out_Inr_iff handoff_wf_def)
  qed
qed

lemma handoff_with_origin_wf: "handoff_wf (handoff_with_origin hid origin recipient payload)"
  by (simp add: handoff_wf_def handoff_log_ok_def handoff_with_origin_def delivered_ids_def)

lemma handoff_tracked_wf:
  "handoff_tracked hid mid origin recipient payload parent t d = Inr h \<Longrightarrow> handoff_wf h"
  by (auto simp: handoff_wf_def handoff_log_ok_def handoff_tracked_def delivered_ids_def
      split: if_splits)

section \<open>Settled handoffs\<close>

text \<open>
  Once a handoff is answered, cancelled or timed out, its outcome never changes; only the
  delivery of the closing message itself can still be recorded.
\<close>

definition handoff_closed :: "handoff \<Rightarrow> bool" where
  "handoff_closed h \<longleftrightarrow> ho_response h \<noteq> None \<or> ho_termination h \<noteq> None"

lemma handoff_step_closed:
  assumes "handoff_step h h'" and "handoff_closed h"
  shows "ho_response h' = ho_response h \<and> ho_termination h' = ho_termination h \<and>
     ho_progress h' = ho_progress h"
  using assms
  by cases (auto simp: handoff_closed_def handoff_op_iffs finish_delivery_def)

lemma handoff_steps_closed:
  assumes "handoff_step\<^sup>*\<^sup>* h h'" and "handoff_closed h"
  shows "ho_response h' = ho_response h \<and> ho_termination h' = ho_termination h \<and>
     ho_progress h' = ho_progress h"
  using assms
proof (induction rule: rtranclp_induct)
  case (step y z)
  then have "handoff_closed y" by (simp add: handoff_closed_def)
  with step show ?case using handoff_step_closed by metis
qed simp

lemma handoff_steps_wf: "handoff_step\<^sup>*\<^sup>* h h' \<Longrightarrow> handoff_wf h \<Longrightarrow> handoff_wf h'"
  by (induction rule: rtranclp_induct) (auto intro: handoff_step_wf)

end
