(* ===== verification/Handoff_Properties.thy ===== *)
theory Handoff_Properties
  imports Handoff_Steps
begin

text \<open>
  The guarantees of a handoff: the stored history can only grow by the operations of the code,
  its delivery log stays consistent, and its outcome is final.
\<close>

text \<open>C17: The successor check that guards every stored update accepts exactly the handoffs that
  one operation (begin, complete or fail a delivery, report progress, respond, cancel, time out)
  makes of the stored one.\<close>

lemma successor_check_exact:
  "validate_successor after before = Inr () \<longleftrightarrow> handoff_step before after"
  using validate_successor_sound validate_successor_complete by blast

text \<open>C21: Whatever sequence of operations a tracked handoff goes through, its attempts are numbered
  1, 2, 3 and so on, only the last can be open, no message is delivered twice, progress and a
  response exist only after delivery, and it is never both answered and terminated.\<close>

lemma handoff_log_consistent:
  assumes "handoff_tracked hid mid origin recipient payload parent created_at deadline = Inr h"
    and "handoff_step\<^sup>*\<^sup>* h h'"
  shows "map (\<lambda>a. unat (att_ordinal a)) (ho_attempts h') = [1..<length (ho_attempts h') + 1] \<and>
    (\<forall>a\<in>set (butlast (ho_attempts h')). att_outcome a \<noteq> DO_Started) \<and>
    distinct (delivered_ids h') \<and>
    (ho_progress h' \<noteq> [] \<or> ho_response h' \<noteq> None \<longrightarrow> is_delivered h') \<and>
    (ho_response h' = None \<or> ho_termination h' = None) \<and> ho_id h' = hid"
proof -
  have wf: "handoff_wf h'" using handoff_steps_wf handoff_tracked_wf assms by blast
  have "ho_id h' = ho_id h"
    using assms(2) by (induction rule: rtranclp_induct)
      (auto dest: handoff_step_identity simp: same_identity_def)
  moreover have "ho_id h = hid" using assms(1) by (auto simp: handoff_tracked_def split: if_splits)
  ultimately show ?thesis using wf unfolding handoff_wf_def handoff_log_ok_def by (elim conjE) (intro conjI, simp_all)
qed

definition sample_handoff :: handoff where
  "sample_handoff =
     \<lparr>ho_id = Id 7, ho_origin = HO_Agent (Id 1), ho_recipient = Id 2,
      ho_payload = HP_Question (Content ''ready?''), ho_message_id = Some (HandoffMessageId ''m1''),
      ho_parent = None, ho_created_at = Some 10, ho_response_deadline = Some 50, ho_attempts = [],
      ho_progress = [], ho_response = None, ho_termination = None\<rparr>"

definition sample_delivered :: handoff where
  "sample_delivered =
     sample_handoff\<lparr>ho_attempts := [\<lparr>att_ordinal = 1, att_message_id = HandoffMessageId ''m1'',
       att_started_at = 11, att_mechanism = DM_ClaudeTerminal, att_outcome = DO_Delivered 12\<rparr>]\<rparr>"

lemma sample_tracked:
  "handoff_tracked (Id 7) (HandoffMessageId ''m1'') (HO_Agent (Id 1)) (Id 2)
     (HP_Question (Content ''ready?'')) None 10 (Some 50) = Inr sample_handoff"
  by (simp add: handoff_tracked_def sample_handoff_def)

lemma sample_delivery: "handoff_step\<^sup>*\<^sup>* sample_handoff sample_delivered"
proof -
  let ?h = "sample_handoff\<lparr>ho_attempts := [\<lparr>att_ordinal = 1, att_message_id = HandoffMessageId ''m1'',
       att_started_at = 11, att_mechanism = DM_ClaudeTerminal, att_outcome = DO_Started\<rparr>]\<rparr>"
  have "begin_delivery (HandoffMessageId ''m1'') DM_ClaudeTerminal 11 sample_handoff = Inr (?h, 1)"
    by (simp add: begin_delivery_Inr_iff sample_handoff_def has_delivery_message_def
        is_message_delivered_def)
  then have "handoff_step sample_handoff ?h" by (rule step_begin)
  moreover have "complete_delivery 1 12 ?h = Inr sample_delivered"
    by (simp add: complete_delivery_Inr_iff started_attempt_Inr_iff finish_delivery_def
        sample_delivered_def sample_handoff_def)
  then have "handoff_step ?h sample_delivered" by (rule step_complete)
  ultimately show ?thesis by (meson rtranclp.rtrancl_refl rtranclp.rtrancl_into_rtrancl)
qed

lemma handoff_log_consistent_witness:
  "map (\<lambda>a. unat (att_ordinal a)) (ho_attempts sample_delivered) = [1] \<and>
   distinct (delivered_ids sample_delivered) \<and>
   (ho_response sample_delivered = None \<or> ho_termination sample_delivered = None) \<and>
   ho_id sample_delivered = Id 7"
proof -
  note props = handoff_log_consistent [OF sample_tracked sample_delivery]
  have "length (ho_attempts sample_delivered) = 1" by (simp add: sample_delivered_def)
  with props show ?thesis by simp
qed

text \<open>C22: The outcome of a handoff is final: after a response, a cancellation or a timeout no
  sequence of operations changes the response, the termination or the progress log, and no answer,
  progress report, cancellation or timeout is ever accepted again.\<close>

lemma handoff_outcome_final:
  assumes "handoff_closed h" and "handoff_step\<^sup>*\<^sup>* h h'"
  shows "ho_response h' = ho_response h \<and> ho_termination h' = ho_termination h \<and>
    ho_progress h' = ho_progress h \<and> handoff_closed h' \<and>
    (\<forall>rsp p mid c t. \<not> is_ok (respond rsp h') \<and> \<not> is_ok (report_progress p h') \<and>
       \<not> is_ok (cancel_handoff mid c t h') \<and> \<not> is_ok (time_out t h'))"
proof -
  note same = handoff_steps_closed [OF assms(2,1)]
  then have closed: "handoff_closed h'" using assms(1) by (simp add: handoff_closed_def)
  then have "\<not> is_ok (respond rsp h')" "\<not> is_ok (report_progress p h')"
    "\<not> is_ok (cancel_handoff mid c t h')" "\<not> is_ok (time_out t h')" for rsp p mid c t
    by (auto simp: is_ok_def handoff_closed_def handoff_op_iffs split: sum.splits)
  with same closed show ?thesis by simp
qed

definition sample_response :: handoff_response where
  "sample_response =
     \<lparr>resp_message_id = HandoffMessageId ''r1'', resp_status = HR_Completed,
      resp_body = Content ''done'', resp_responded_at = 20, resp_outputs = bm_empty\<rparr>"

definition sample_answered :: handoff where
  "sample_answered = sample_delivered\<lparr>ho_response := Some sample_response\<rparr>"

definition sample_reopened :: handoff where
  "sample_reopened = sample_answered\<lparr>ho_attempts := ho_attempts sample_delivered @
     [\<lparr>att_ordinal = 2, att_message_id = HandoffMessageId ''r1'', att_started_at = 30,
       att_mechanism = DM_ClaudeTerminal, att_outcome = DO_Started\<rparr>]\<rparr>"

text \<open>After the answer its own message goes out: one attempt more, and the outcome as it was.\<close>

lemma handoff_outcome_final_witness:
  "respond sample_response sample_delivered = Inr sample_answered \<and>
   handoff_step sample_answered sample_reopened \<and> length (ho_attempts sample_reopened) = 2 \<and>
   ho_response sample_reopened = Some sample_response \<and> ho_termination sample_reopened = None \<and>
   ho_progress sample_reopened = [] \<and> handoff_closed sample_reopened"
proof -
  have respond: "respond sample_response sample_delivered = Inr sample_answered"
    by (simp add: respond_Inr_iff sample_answered_def sample_delivered_def sample_handoff_def is_delivered_def
        is_message_delivered_def)
  have "begin_delivery (HandoffMessageId ''r1'') DM_ClaudeTerminal 30 sample_answered = Inr (sample_reopened, 2)"
    by (simp add: begin_delivery_Inr_iff)
      (simp add: sample_reopened_def sample_answered_def sample_delivered_def sample_handoff_def
        sample_response_def has_delivery_message_def is_message_delivered_def)
  then have step: "handoff_step sample_answered sample_reopened" by (rule step_begin)
  have "handoff_closed sample_answered" by (simp add: handoff_closed_def sample_answered_def)
  moreover from step have "handoff_step\<^sup>*\<^sup>* sample_answered sample_reopened" by (rule r_into_rtranclp)
  ultimately have "ho_response sample_reopened = ho_response sample_answered"
    "ho_termination sample_reopened = ho_termination sample_answered"
    "ho_progress sample_reopened = ho_progress sample_answered" "handoff_closed sample_reopened"
    using handoff_outcome_final by blast+
  with respond step show ?thesis
    by (simp add: sample_answered_def)
      (simp add: sample_reopened_def sample_answered_def sample_delivered_def sample_handoff_def)
qed

text \<open>A handoff is answered only by a delivered recipient, within the operations of the code:
  a response appears exactly when \<open>respond\<close> ran on a delivered, still open handoff.\<close>

lemma response_needs_delivery:
  assumes "handoff_step h h'" and "ho_response h = None" and "ho_response h' = Some rsp"
  shows "is_delivered h \<and> ho_termination h = None \<and> respond rsp h = Inr h'"
  using assms by cases (auto simp: handoff_op_iffs finish_delivery_def)

lemma response_needs_delivery_witness:
  "is_delivered sample_delivered \<and> ho_termination sample_delivered = None \<and>
   respond sample_response sample_delivered = Inr (sample_delivered\<lparr>ho_response := Some sample_response\<rparr>)"
proof -
  have "respond sample_response sample_delivered =
      Inr (sample_delivered\<lparr>ho_response := Some sample_response\<rparr>)"
    by (simp add: respond_Inr_iff sample_delivered_def sample_handoff_def is_delivered_def
        is_message_delivered_def)
  then have "handoff_step sample_delivered (sample_delivered\<lparr>ho_response := Some sample_response\<rparr>)"
    by (rule step_respond)
  then show ?thesis
    by (rule response_needs_delivery) (simp_all add: sample_delivered_def sample_handoff_def)
qed

end
