(* ===== verification/Routine_Run.thy ===== *)
theory Routine_Run
  imports Routine_Trigger
begin

text \<open>
  Routine runs of \<open>src/domain/routines.rs\<close>: what a run pins, the attempts and states of its
  steps, and every transition the run accepts. A transition that fails leaves the run as it was.
\<close>

section \<open>Checkouts and reservations\<close>

datatype routine_checkout = RoutineCheckout (checkout_directory: workspace_directory)

instantiation routine_checkout :: linorder
begin

definition less_eq_routine_checkout :: "routine_checkout \<Rightarrow> routine_checkout \<Rightarrow> bool" where
  "less_eq_routine_checkout x y = (checkout_directory x \<le> checkout_directory y)"

definition less_routine_checkout :: "routine_checkout \<Rightarrow> routine_checkout \<Rightarrow> bool" where
  "less_routine_checkout x y = (checkout_directory x < checkout_directory y)"

instance
  by standard
    (auto simp: less_eq_routine_checkout_def less_routine_checkout_def routine_checkout.expand)

end

datatype routine_reservation =
    RV_Agent agent_id
  | RV_Checkout routine_checkout
  | RV_Named routine_resource_key

text \<open>The derived order: by variant first, then by the field.\<close>

instantiation routine_reservation :: linorder
begin

fun less_eq_routine_reservation :: "routine_reservation \<Rightarrow> routine_reservation \<Rightarrow> bool" where
  "less_eq_routine_reservation (RV_Agent a) (RV_Agent b) = (a \<le> b)"
| "less_eq_routine_reservation (RV_Agent a) _ = True"
| "less_eq_routine_reservation (RV_Checkout a) (RV_Agent b) = False"
| "less_eq_routine_reservation (RV_Checkout a) (RV_Checkout b) = (a \<le> b)"
| "less_eq_routine_reservation (RV_Checkout a) (RV_Named b) = True"
| "less_eq_routine_reservation (RV_Named a) (RV_Named b) = (a \<le> b)"
| "less_eq_routine_reservation (RV_Named a) _ = False"

definition less_routine_reservation :: "routine_reservation \<Rightarrow> routine_reservation \<Rightarrow> bool" where
  "less_routine_reservation x y = (x \<le> y \<and> \<not> y \<le> x)"

instance
proof
  fix x y z :: routine_reservation
  show "(x < y) = (x \<le> y \<and> \<not> y \<le> x)" by (rule less_routine_reservation_def)
  show "x \<le> x" by (cases x) auto
  show "x \<le> y \<Longrightarrow> y \<le> z \<Longrightarrow> x \<le> z" by (cases x; cases y; cases z) auto
  show "x \<le> y \<Longrightarrow> y \<le> x \<Longrightarrow> x = y" by (cases x; cases y) auto
  show "x \<le> y \<or> y \<le> x" by (cases x; cases y) auto
qed

end

section \<open>What a run pins\<close>

record routine_run_pin =
  pin_version :: routine_version
  pin_inputs :: "(routine_input_key, routine_value) bmap"
  pin_agents :: "(routine_step_id, agent_id) bmap"
  pin_checkouts :: "(routine_step_id, routine_checkout) bmap"
  pin_revisions :: "(routine_checkout, string) bmap"
  pin_template :: "content option"

definition run_pin_new ::
  "routine_version \<Rightarrow> (routine_input_key, routine_value) bmap \<Rightarrow>
   (routine_step_id, agent_id) bmap \<Rightarrow> (routine_step_id, routine_checkout) bmap \<Rightarrow>
   (routine_checkout, string) bmap \<Rightarrow> (routine_error, routine_run_pin) result" where
  "run_pin_new version inputs agents checkouts revisions =
     res_bind (check_all (\<lambda>s.
         if \<not> bm_contains agents (st_id s) then Inl (RE_UnpinnedStepBinding (st_id s))
         else ensure (bm_contains checkouts (st_id s)) (RE_UnpinnedStepCheckout (st_id s)))
       (ver_steps version))
     (\<lambda>_. Inr \<lparr>pin_version = version, pin_inputs = inputs, pin_agents = agents,
               pin_checkouts = checkouts, pin_revisions = revisions,
               pin_template = ver_template version\<rparr>)"

section \<open>Attempts and step runs\<close>

datatype routine_interruption_reason = IR_DispatchOutcomeUnknown | IR_ShutdownUnconfirmed

record routine_interruption =
  intr_reason :: routine_interruption_reason
  intr_detected_at :: timestamp

datatype routine_approval_decision = AD_Approved | AD_Rejected

record routine_approval_record =
  ar_decision :: routine_approval_decision
  ar_decided_at :: timestamp
  ar_note :: "content option"

datatype routine_attempt_outcome = AO_Completed | AO_Failed | AO_Cancelled

record routine_attempt =
  at_id :: routine_attempt_id
  at_ordinal :: u32
  at_task :: task_id
  at_handoff :: handoff_id
  at_agent :: agent_id
  at_checkout :: routine_checkout
  at_resources :: "routine_resource_key bset"
  at_started_at :: timestamp
  at_outcome :: "routine_attempt_outcome option"
  at_finished_at :: "timestamp option"

definition routine_attempt_new ::
  "routine_attempt_id \<Rightarrow> u32 \<Rightarrow> task_id \<Rightarrow> handoff_id \<Rightarrow> agent_id \<Rightarrow> routine_checkout \<Rightarrow>
   routine_resource_key list \<Rightarrow> timestamp \<Rightarrow> (routine_error, routine_attempt) result" where
  "routine_attempt_new aid ordinal task handoff agent checkout resources started_at =
     (if ordinal = 0 then Inl (RE_InvalidAttemptOrdinal ordinal)
      else Inr \<lparr>at_id = aid, at_ordinal = ordinal, at_task = task, at_handoff = handoff,
                at_agent = agent, at_checkout = checkout, at_resources = bs_of_list resources,
                at_started_at = started_at, at_outcome = None, at_finished_at = None\<rparr>)"

definition attempt_finish ::
  "routine_attempt_outcome \<Rightarrow> timestamp \<Rightarrow> routine_attempt \<Rightarrow>
   (routine_error, routine_attempt) result" where
  "attempt_finish outcome finished_at a =
     (if at_outcome a \<noteq> None then Inl (RE_AttemptAlreadyFinished (at_ordinal a))
      else if finished_at < at_started_at a then Inl (RE_InvalidAttemptTime (at_ordinal a))
      else Inr (a\<lparr>at_outcome := Some outcome, at_finished_at := Some finished_at\<rparr>))"

record routine_step_run =
  sr_step :: routine_step_id
  sr_state :: routine_step_state
  sr_attempts :: "routine_attempt list"
  sr_outputs :: "(routine_output_key, routine_value) bmap"
  sr_approval :: "routine_approval_record option"
  sr_interruption :: "routine_interruption option"
  sr_failure :: "content option"

definition step_run_pending :: "routine_step_id \<Rightarrow> routine_step_run" where
  "step_run_pending sid =
     \<lparr>sr_step = sid, sr_state = SS_Pending, sr_attempts = [], sr_outputs = bm_empty,
      sr_approval = None, sr_interruption = None, sr_failure = None\<rparr>"

definition expected_ordinal :: "nat \<Rightarrow> u32" where
  "expected_ordinal n = (case try_u32 n of None \<Rightarrow> - 1 | Some k \<Rightarrow> k)"

definition step_run_restore ::
  "routine_step_id \<Rightarrow> routine_step_state \<Rightarrow> routine_attempt list \<Rightarrow>
   (routine_output_key, routine_value) bmap \<Rightarrow> routine_approval_record option \<Rightarrow>
   routine_interruption option \<Rightarrow> content option \<Rightarrow> (routine_error, routine_step_run) result" where
  "step_run_restore sid state attempts outputs approval interruption failure =
     res_bind (check_all (\<lambda>(index, a).
         ensure (at_ordinal a = expected_ordinal (index + 1))
           (RE_InvalidAttemptOrdinal (at_ordinal a))) (enumerate 0 attempts)) (\<lambda>_.
       if step_state_holds_reservations state
          \<and> (attempts = [] \<or> at_outcome (last attempts) \<noteq> None)
       then Inl (RE_NoAttempt sid)
       else if state = SS_Interrupted \<and> interruption = None
       then Inl (RE_InvalidStepTransition sid state ''restore'')
       else Inr \<lparr>sr_step = sid, sr_state = state, sr_attempts = attempts, sr_outputs = outputs,
                 sr_approval = approval, sr_interruption = interruption, sr_failure = failure\<rparr>)"

definition active_attempt :: "routine_step_run \<Rightarrow> routine_attempt option" where
  "active_attempt s =
     (if sr_attempts s \<noteq> [] \<and> at_outcome (last (sr_attempts s)) = None
      then Some (last (sr_attempts s)) else None)"

definition active_or_last_attempt :: "routine_step_run \<Rightarrow> routine_attempt option" where
  "active_or_last_attempt s = (if sr_attempts s = [] then None else Some (last (sr_attempts s)))"

definition expect_state ::
  "routine_step_run \<Rightarrow> routine_step_state \<Rightarrow> string \<Rightarrow> (routine_error, unit) result" where
  "expect_state s expected action =
     ensure (sr_state s = expected) (RE_InvalidStepTransition (sr_step s) (sr_state s) action)"

definition finish_attempt ::
  "routine_attempt_outcome \<Rightarrow> timestamp \<Rightarrow> routine_step_run \<Rightarrow>
   (routine_error, routine_step_run) result" where
  "finish_attempt outcome finished_at s =
     (if sr_attempts s = [] then Inl (RE_NoAttempt (sr_step s))
      else res_bind (attempt_finish outcome finished_at (last (sr_attempts s)))
        (\<lambda>a. Inr (s\<lparr>sr_attempts := butlast (sr_attempts s) @ [a]\<rparr>)))"

section \<open>Runs\<close>

record routine_run =
  run_id :: routine_run_id
  run_routine :: routine_id
  run_version :: routine_version_id
  run_trigger :: "routine_trigger_id option"
  run_occurrence :: "routine_occurrence_key option"
  run_pin :: routine_run_pin
  run_state :: routine_run_state
  run_started_at :: timestamp
  run_finished_at :: "timestamp option"
  run_steps :: "(routine_step_id, routine_step_run) bmap"

definition run_start ::
  "routine_run_id \<Rightarrow> routine_trigger_id option \<Rightarrow> routine_occurrence_key option \<Rightarrow>
   routine_run_pin \<Rightarrow> timestamp \<Rightarrow> routine_run" where
  "run_start rid trigger occurrence pin started_at =
     \<lparr>run_id = rid, run_routine = ver_routine (pin_version pin), run_version = ver_id (pin_version pin),
      run_trigger = trigger, run_occurrence = occurrence, run_pin = pin, run_state = RS_Running,
      run_started_at = started_at, run_finished_at = None,
      run_steps = bm_of_list (map (\<lambda>s. (st_id s, step_run_pending (st_id s)))
                                  (ver_steps (pin_version pin)))\<rparr>"

definition run_restore ::
  "routine_run_id \<Rightarrow> routine_trigger_id option \<Rightarrow> routine_occurrence_key option \<Rightarrow>
   routine_run_pin \<Rightarrow> routine_run_state \<Rightarrow> timestamp \<Rightarrow> timestamp option \<Rightarrow>
   routine_step_run list \<Rightarrow> (routine_error, routine_run) result" where
  "run_restore rid trigger occurrence pin state started_at finished_at steps =
     (let steps = bm_of_list (map (\<lambda>s. (sr_step s, s)) steps);
          version = pin_version pin in
      res_bind (check_all (\<lambda>s. ensure (bm_contains steps (st_id s)) (RE_UnknownStep (st_id s)))
                  (ver_steps version)) (\<lambda>_.
      if bm_len steps \<noteq> length (ver_steps version)
      then Inl (RE_UnknownStep
             (the (List.find (\<lambda>sid. version_step version sid = None) (bm_keys steps))))
      else if run_state_is_terminal state \<noteq> (finished_at \<noteq> None)
      then Inl (RE_InvalidRunTransition rid state ''restore'')
      else Inr \<lparr>run_id = rid, run_routine = ver_routine version, run_version = ver_id version,
                run_trigger = trigger, run_occurrence = occurrence, run_pin = pin,
                run_state = state, run_started_at = started_at, run_finished_at = finished_at,
                run_steps = steps\<rparr>))"

definition run_is_active :: "routine_run \<Rightarrow> bool" where
  "run_is_active r = (\<not> run_state_is_terminal (run_state r))"

definition step_for_task :: "routine_run \<Rightarrow> task_id \<Rightarrow> routine_step_run option" where
  "step_for_task r tid =
     List.find (\<lambda>s. list_ex (\<lambda>a. at_task a = tid) (sr_attempts s)) (bm_values (run_steps r))"

definition attempt_reservations :: "routine_attempt \<Rightarrow> routine_reservation list" where
  "attempt_reservations a =
     [RV_Agent (at_agent a), RV_Checkout (at_checkout a)] @ map RV_Named (bm_keys (at_resources a))"

definition held_reservations :: "routine_run \<Rightarrow> routine_reservation list" where
  "held_reservations r =
     concat (map attempt_reservations
       (List.map_filter active_or_last_attempt
         (filter (\<lambda>s. step_state_holds_reservations (sr_state s)) (bm_values (run_steps r)))))"

definition dependencies_completed :: "routine_run \<Rightarrow> routine_step_id \<Rightarrow> bool" where
  "dependencies_completed r sid =
     (case version_step (pin_version (run_pin r)) sid of
        None \<Rightarrow> False
      | Some s \<Rightarrow> list_all (\<lambda>d. case bm_get (run_steps r) d of
            None \<Rightarrow> False | Some run \<Rightarrow> sr_state run = SS_Completed) (bm_keys (st_depends_on s)))"

definition ready_steps :: "routine_run \<Rightarrow> routine_step_id list" where
  "ready_steps r =
     map sr_step (filter (\<lambda>s. dependencies_completed r (sr_step s))
       (filter (\<lambda>s. sr_state s = SS_Pending) (bm_values (run_steps r))))"

definition pinned_step :: "routine_run \<Rightarrow> routine_step_id \<Rightarrow> (routine_error, routine_step) result" where
  "pinned_step r sid = ok_or (version_step (pin_version (run_pin r)) sid) (RE_UnknownStep sid)"

definition resolve_source ::
  "routine_run \<Rightarrow> routine_step_id \<Rightarrow> routine_binding_source \<Rightarrow> (routine_error, routine_value) result" where
  "resolve_source r sid source =
     (case source of
        BS_Input k \<Rightarrow> ok_or (bm_get (pin_inputs (run_pin r)) k) (RE_MissingInput k)
      | BS_StepOutput p k \<Rightarrow>
          ok_or (Option.bind (bm_get (run_steps r) p) (\<lambda>run. bm_get (sr_outputs run) k))
            (RE_MissingStepOutput sid p k)
      | BS_Literal v \<Rightarrow> Inr v)"

definition resolve_bindings ::
  "routine_run \<Rightarrow> routine_step_id \<Rightarrow> (routine_error, (routine_input_key, routine_value) bmap) result" where
  "resolve_bindings r sid =
     res_bind (pinned_step r sid) (\<lambda>s.
       try_fold (\<lambda>resolved (k, source).
           res_bind (resolve_source r sid source) (\<lambda>v. Inr (bm_insert k v resolved)))
         bm_empty (entries (st_bindings s)))"

section \<open>Skipping what can no longer run\<close>

abbreviation waiting_state :: "routine_step_state \<Rightarrow> bool" where
  "waiting_state st \<equiv> st = SS_Pending \<or> st = SS_AwaitingApproval"

abbreviation dead_state :: "routine_step_state \<Rightarrow> bool" where
  "dead_state st \<equiv> st = SS_Failed \<or> st = SS_Cancelled \<or> st = SS_Skipped"

definition is_blocked ::
  "routine_version \<Rightarrow> (routine_step_id, routine_step_run) bmap \<Rightarrow> routine_step_run \<Rightarrow> bool" where
  "is_blocked version steps s =
     (waiting_state (sr_state s) \<and>
      (case version_step version (sr_step s) of
         None \<Rightarrow> False
       | Some st \<Rightarrow> list_ex (\<lambda>d. case bm_get steps d of
             None \<Rightarrow> False | Some other \<Rightarrow> dead_state (sr_state other)) (bm_keys (st_depends_on st))))"

definition blocked_steps ::
  "routine_version \<Rightarrow> (routine_step_id, routine_step_run) bmap \<Rightarrow> routine_step_id list" where
  "blocked_steps version steps = map sr_step (filter (is_blocked version steps) (bm_values steps))"

definition skip_steps ::
  "routine_step_id list \<Rightarrow> (routine_step_id, routine_step_run) bmap \<Rightarrow>
   (routine_step_id, routine_step_run) bmap" where
  "skip_steps ids steps = fold (\<lambda>sid. bm_update sid (\<lambda>s. s\<lparr>sr_state := SS_Skipped\<rparr>)) ids steps"

text \<open>
  The loop of \<open>propagate_skips\<close>. Every round moves a waiting step to a state that does not wait,
  so as many rounds as there are steps are enough; the fuel is the number of steps and one more.
\<close>

fun propagate_rounds ::
  "nat \<Rightarrow> routine_version \<Rightarrow> (routine_step_id, routine_step_run) bmap \<Rightarrow>
   (routine_step_id, routine_step_run) bmap" where
  "propagate_rounds 0 version steps = steps"
| "propagate_rounds (Suc n) version steps =
     (case blocked_steps version steps of
        [] \<Rightarrow> steps
      | blocked \<Rightarrow> propagate_rounds n version (skip_steps blocked steps))"

definition propagate_skips :: "routine_run \<Rightarrow> routine_run" where
  "propagate_skips r =
     r\<lparr>run_steps := propagate_rounds (bm_len (run_steps r) + 1) (pin_version (run_pin r)) (run_steps r)\<rparr>"

section \<open>Transitions\<close>

definition step_mut :: "routine_run \<Rightarrow> routine_step_id \<Rightarrow> (routine_error, routine_step_run) result" where
  "step_mut r sid = ok_or (bm_get (run_steps r) sid) (RE_UnknownStep sid)"

definition put_step :: "routine_step_id \<Rightarrow> routine_step_run \<Rightarrow> routine_run \<Rightarrow> routine_run" where
  "put_step sid s r = r\<lparr>run_steps := bm_insert sid s (run_steps r)\<rparr>"

definition require_approval ::
  "routine_step_id \<Rightarrow> routine_run \<Rightarrow> (routine_error, routine_run) result" where
  "require_approval sid r =
     res_bind (step_mut r sid) (\<lambda>s.
     res_bind (expect_state s SS_Pending ''await approval'') (\<lambda>_.
       Inr (put_step sid (s\<lparr>sr_state := SS_AwaitingApproval\<rparr>) r)))"

definition record_approval ::
  "routine_step_id \<Rightarrow> routine_approval_record \<Rightarrow> routine_run \<Rightarrow> (routine_error, routine_run) result" where
  "record_approval sid rec r =
     res_bind (step_mut r sid) (\<lambda>s.
       if \<not> waiting_state (sr_state s)
       then Inl (RE_InvalidStepTransition sid (sr_state s) ''approve'')
       else if sr_approval s \<noteq> None then Inl (RE_ApprovalAlreadyRecorded sid)
       else case ar_decision rec of
           AD_Approved \<Rightarrow>
             Inr (put_step sid (s\<lparr>sr_approval := Some rec, sr_state := SS_Pending\<rparr>) r)
         | AD_Rejected \<Rightarrow>
             Inr (propagate_skips
               (put_step sid (s\<lparr>sr_approval := Some rec, sr_state := SS_Cancelled\<rparr>) r)))"

definition dispatch ::
  "routine_step_id \<Rightarrow> routine_attempt \<Rightarrow> routine_run \<Rightarrow> (routine_error, routine_run) result" where
  "dispatch sid attempt r =
     res_bind (pinned_step r sid) (\<lambda>st.
       let max_attempts = max_attempts (st_retry st) in
       if run_state r \<noteq> RS_Running
       then Inl (RE_InvalidRunTransition (run_id r) (run_state r) ''dispatch'')
       else if \<not> dependencies_completed r sid then Inl (RE_DependenciesUnmet sid)
       else res_bind (step_mut r sid) (\<lambda>s.
         res_bind (expect_state s SS_Pending ''dispatch'') (\<lambda>_.
         res_bind (ok_or (next_ordinal (length (sr_attempts s)))
                     (RE_IdentifierExhausted ''routine attempt'')) (\<lambda>expected.
           if at_ordinal attempt \<noteq> expected
           then Inl (RE_InvalidAttemptOrdinal (at_ordinal attempt))
           else if max_attempts < expected then Inl (RE_RetryBudgetExhausted sid max_attempts)
           else Inr (put_step sid (s\<lparr>sr_attempts := sr_attempts s @ [attempt],
                                     sr_state := SS_Dispatched\<rparr>) r)))))"

definition complete_step ::
  "routine_step_id \<Rightarrow> (routine_output_key, routine_value) bmap \<Rightarrow> timestamp \<Rightarrow> routine_run \<Rightarrow>
   (routine_error, routine_run) result" where
  "complete_step sid outputs finished_at r =
     res_bind (pinned_step r sid) (\<lambda>st.
       let declared = st_outputs st in
       case List.find (\<lambda>k. \<not> bm_contains declared k) (bm_keys outputs) of
         Some k \<Rightarrow> Inl (RE_UndeclaredOutput sid k)
       | None \<Rightarrow>
           (case List.find (\<lambda>k. \<not> bm_contains outputs k) (bm_keys declared) of
              Some k \<Rightarrow> Inl (RE_MissingOutput sid k)
            | None \<Rightarrow>
                res_bind (step_mut r sid) (\<lambda>s.
                res_bind (expect_state s SS_Dispatched ''complete'') (\<lambda>_.
                res_bind (finish_attempt AO_Completed finished_at s) (\<lambda>s.
                  Inr (put_step sid (s\<lparr>sr_outputs := outputs, sr_state := SS_Completed\<rparr>) r))))))"

text \<open>\<open>u32::try_from(step.attempts.len()).unwrap_or(u32::MAX) < max_attempts\<close>.\<close>

definition retry_left :: "routine_step \<Rightarrow> routine_step_run \<Rightarrow> bool" where
  "retry_left st s = (expected_ordinal (length (sr_attempts s)) < max_attempts (st_retry st))"

text \<open>The step after a failed attempt: pending again while the retry policy allows, else failed.\<close>

definition failed_step :: "routine_step \<Rightarrow> content \<Rightarrow> routine_step_run \<Rightarrow> routine_step_run" where
  "failed_step st reason s =
     s\<lparr>sr_failure := Some reason, sr_interruption := None,
       sr_state := (if retry_left st s then SS_Pending else SS_Failed)\<rparr>"

definition fail_step ::
  "routine_step_id \<Rightarrow> content \<Rightarrow> timestamp \<Rightarrow> routine_run \<Rightarrow>
   (routine_error, routine_run \<times> bool) result" where
  "fail_step sid reason finished_at r =
     res_bind (pinned_step r sid) (\<lambda>st.
     res_bind (step_mut r sid) (\<lambda>s.
       if \<not> (sr_state s = SS_Dispatched \<or> sr_state s = SS_Interrupted)
       then Inl (RE_InvalidStepTransition sid (sr_state s) ''fail'')
       else res_bind (finish_attempt AO_Failed finished_at s) (\<lambda>s.
         let retryable = retry_left st s;
             r = put_step sid (failed_step st reason s) r
         in Inr (if \<not> retryable then propagate_skips r else r, retryable))))"

definition interrupt_step ::
  "routine_step_id \<Rightarrow> routine_interruption_reason \<Rightarrow> timestamp \<Rightarrow> routine_run \<Rightarrow>
   (routine_error, routine_run) result" where
  "interrupt_step sid reason detected_at r =
     res_bind (step_mut r sid) (\<lambda>s.
     res_bind (expect_state s SS_Dispatched ''interrupt'') (\<lambda>_.
       Inr (put_step sid (s\<lparr>sr_state := SS_Interrupted,
              sr_interruption := Some \<lparr>intr_reason = reason, intr_detected_at = detected_at\<rparr>\<rparr>) r)))"

text \<open>A run that is cancelling does not retry the work it just confirmed stopped.\<close>

definition resolved_state :: "routine_run \<Rightarrow> routine_step \<Rightarrow> routine_step_run \<Rightarrow> routine_step_state" where
  "resolved_state r st s =
     (if run_state r = RS_Cancelling then SS_Cancelled
      else if retry_left st s then SS_Pending else SS_Failed)"

definition resolve_interruption ::
  "routine_step_id \<Rightarrow> timestamp \<Rightarrow> routine_run \<Rightarrow> (routine_error, routine_run) result" where
  "resolve_interruption sid finished_at r =
     res_bind (pinned_step r sid) (\<lambda>st.
     res_bind (step_mut r sid) (\<lambda>s.
     res_bind (expect_state s SS_Interrupted ''resolve'') (\<lambda>_.
     res_bind (finish_attempt AO_Cancelled finished_at s) (\<lambda>s.
       let state = resolved_state r st s;
           r = put_step sid (s\<lparr>sr_interruption := None, sr_state := state\<rparr>) r
       in Inr (if state = SS_Failed \<or> state = SS_Cancelled then propagate_skips r else r)))))"

definition cancel_step ::
  "routine_step_id \<Rightarrow> content option \<Rightarrow> timestamp \<Rightarrow> routine_run \<Rightarrow>
   (routine_error, routine_run) result" where
  "cancel_step sid reason finished_at r =
     res_bind (step_mut r sid) (\<lambda>s.
       if step_state_is_terminal (sr_state s) then Inr r
       else res_bind (if sr_state s = SS_Dispatched
                      then finish_attempt AO_Cancelled finished_at s else Inr s) (\<lambda>s.
         let s = (if reason \<noteq> None then s\<lparr>sr_failure := reason\<rparr> else s)
         in Inr (propagate_skips (put_step sid (s\<lparr>sr_state := SS_Cancelled\<rparr>) r))))"

definition request_cancellation ::
  "timestamp \<Rightarrow> routine_run \<Rightarrow> (routine_error, routine_run) result" where
  "request_cancellation at r =
     (if run_state_is_terminal (run_state r)
      then Inl (RE_InvalidRunTransition (run_id r) (run_state r) ''cancel'')
      else Inr (r\<lparr>run_steps := bm_map (\<lambda>_ s. if waiting_state (sr_state s)
                                             then s\<lparr>sr_state := SS_Cancelled\<rparr> else s) (run_steps r),
                  run_state := RS_Cancelling\<rparr>))"

definition any_step :: "routine_run \<Rightarrow> (routine_step_state \<Rightarrow> bool) \<Rightarrow> bool" where
  "any_step r P = list_ex (\<lambda>s. P (sr_state s)) (bm_values (run_steps r))"

definition settle :: "timestamp \<Rightarrow> routine_run \<Rightarrow> routine_run \<times> bool" where
  "settle at r =
     (if run_state_is_terminal (run_state r) then (r, False)
      else
        let interrupted = any_step r (\<lambda>st. st = SS_Interrupted);
            busy = any_step r (\<lambda>st. st = SS_Dispatched);
            waiting = any_step r (\<lambda>st. waiting_state st)
        in if busy \<or> interrupted \<or> waiting \<and> run_state r = RS_Running then (r, False)
           else
             let cancelled = (run_state r = RS_Cancelling \<or> any_step r (\<lambda>st. st = SS_Cancelled));
                 failed = any_step r (\<lambda>st. st = SS_Failed \<or> st = SS_Skipped)
             in (r\<lparr>run_state := (if failed then RS_Failed
                                 else if cancelled then RS_Cancelled else RS_Completed),
                   run_finished_at := Some at\<rparr>, True))"

datatype routine_transition =
    RT_AwaitApproval routine_step_id
  | RT_RecordApproval routine_step_id routine_approval_record
  | RT_CompleteStep routine_step_id "(routine_output_key, routine_value) bmap" timestamp
  | RT_FailStep routine_step_id content timestamp
  | RT_InterruptStep routine_step_id routine_interruption_reason timestamp
  | RT_ResolveInterruption routine_step_id timestamp
  | RT_CancelStep routine_step_id "content option" timestamp
  | RT_RequestCancellation timestamp
  | RT_Settle timestamp

definition apply_transition ::
  "routine_transition \<Rightarrow> routine_run \<Rightarrow> (routine_error, routine_run) result" where
  "apply_transition t r =
     (case t of
        RT_AwaitApproval sid \<Rightarrow> require_approval sid r
      | RT_RecordApproval sid rec \<Rightarrow> record_approval sid rec r
      | RT_CompleteStep sid outputs at \<Rightarrow> complete_step sid outputs at r
      | RT_FailStep sid reason at \<Rightarrow> res_bind (fail_step sid reason at r) (\<lambda>(r', _). Inr r')
      | RT_InterruptStep sid reason at \<Rightarrow> interrupt_step sid reason at r
      | RT_ResolveInterruption sid at \<Rightarrow> resolve_interruption sid at r
      | RT_CancelStep sid reason at \<Rightarrow> cancel_step sid reason at r
      | RT_RequestCancellation at \<Rightarrow> request_cancellation at r
      | RT_Settle at \<Rightarrow>
          (case settle at r of
             (r', True) \<Rightarrow> Inr r'
           | (_, False) \<Rightarrow>
               Inl (RE_InvalidRunTransition (run_id r) (run_state r) ''settle'')))"

end
