(* ===== verification/Domain_Error.thy ===== *)
theory Domain_Error
  imports Handoff Routine_Run Chat
begin

text \<open>
  The errors a workspace command can fail with and the references they name, from
  \<open>src/domain/events.rs\<close>.
\<close>

datatype entity_ref =
    ER_Workspace workspace_id
  | ER_EnvironmentProfile environment_profile_id
  | ER_CommandPreset command_preset_id
  | ER_Role role_id
  | ER_Agent agent_id
  | ER_ChatThread chat_thread_id
  | ER_ChatMessage chat_message_id
  | ER_ChatAttachment chat_attachment_id
  | ER_Task task_id
  | ER_Handoff handoff_id
  | ER_Node node_id
  | ER_NodeGroup node_group_id
  | ER_Connection connection_id
  | ER_TimelineEvent timeline_event_id
  | ER_Routine routine_id
  | ER_RoutineVersion routine_version_id
  | ER_RoutineTrigger routine_trigger_id
  | ER_RoutineRun routine_run_id

fun target_ref :: "node_target \<Rightarrow> entity_ref" where
  "target_ref (NT_Agent a) = ER_Agent a"
| "target_ref (NT_Task t) = ER_Task t"
| "target_ref (NT_Handoff h) = ER_Handoff h"

text \<open>\<open>Display\<close> of a reservation; an identifier prints as its decimal digits.\<close>

fun decimal :: "nat \<Rightarrow> string" where
  "decimal n = (if n < 10 then [char_of (48 + n)]
                else decimal (n div 10) @ [char_of (48 + n mod 10)])"

declare decimal.simps [simp del]

fun reservation_display :: "routine_reservation \<Rightarrow> string" where
  "reservation_display (RV_Agent a) = ''agent '' @ decimal (unat (id_get a))"
| "reservation_display (RV_Checkout c) =
     ''checkout '' @ workspace_directory_str (checkout_directory c)"
| "reservation_display (RV_Named k) = ''resource '' @ key_str k"

datatype domain_error =
    DE_FloorConflict
  | DE_UnchangedWorkspaceSettings
  | DE_WorkspaceSettingsConflict
  | DE_UnchangedEnvironmentProfile
  | DE_EnvironmentProfileConflict environment_profile_id
  | DE_EnvironmentProfileInUse environment_profile_id agent_id
  | DE_UnchangedCommandPreset
  | DE_CommandPresetConflict command_preset_id
  | DE_CommandPresetInUse command_preset_id agent_id
  | DE_UnchangedRole
  | DE_RoleConflict role_id
  | DE_RoleInUse role_id agent_id
  | DE_UnchangedAgentRole
  | DE_UnchangedChatThread
  | DE_UnchangedChatDraft
  | DE_ChatThreadConflict chat_thread_id
  | DE_ChatDraftConflict chat_thread_id
  | DE_ChatMessageConflict chat_message_id
  | DE_ChatAttachmentWrongThread chat_attachment_id chat_thread_id chat_thread_id
  | DE_ChatAttachmentTotalTooLarge chat_thread_id u64 u64
  | DE_InvalidChatAuthor chat_message_id agent_id
  | DE_MentionNotConnected chat_thread_id node_target
  | DE_InvalidChat chat_validation_error
  | DE_AgentRoleConflict agent_id "role_id option" "role_id option"
  | DE_CanvasConflict
  | DE_DuplicateEntity entity_ref
  | DE_EntityNotFound entity_ref
  | DE_InvalidReference entity_ref string entity_ref
  | DE_InvalidGroup node_group_id string
  | DE_NodeInMultipleGroups node_id
  | DE_InvalidConnection connection_id string
  | DE_DuplicateConnection node_id node_id
  | DE_SameHandoffParticipant handoff_id agent_id
  | DE_DuplicateHandoffMessageId
  | DE_HandoffChainTooDeep handoff_id nat
  | DE_TaskHandoffMismatch handoff_id task_id
  | DE_HandoffConflict handoff_id
  | DE_InvalidHandoff handoff_mutation_error
  | DE_InvalidRetrySource task_id task_id task_state
  | DE_InvalidAgentTransition agent_id agent_state agent_state
  | DE_InvalidTaskTransition task_id task_state task_state
  | DE_AgentStateConflict agent_id agent_state agent_state
  | DE_AgentNameConflict agent_id
  | DE_TaskStateConflict task_id task_state task_state
  | DE_WorkspaceMismatch timeline_event_id workspace_id workspace_id
  | DE_UnchangedRoutine
  | DE_RoutineConflict routine_id
  | DE_RoutineTriggerConflict routine_trigger_id
  | DE_InvalidRoutine routine_error
  | DE_RoutineRunMismatch routine_run_id routine_id
  | DE_RoutineStepTaskMismatch routine_run_id routine_step_id
  | DE_RoutineOccurrenceConsumed routine_trigger_id
  | DE_RoutineRunAlreadyActive routine_id routine_run_id
  | DE_RoutineReservationHeld routine_run_id routine_step_id string

end
