(* ===== verification/Canvas.thy ===== *)
theory Canvas
  imports Entities
begin

text \<open>
  The canvas of \<open>src/domain/entities.rs\<close> and \<open>canvas_content.rs\<close>: nodes, groups, connections
  and layouts, and the floors of \<open>floors.rs\<close> that split a canvas by checkout. Derived equality
  on a node compares its geometry as \<open>f32\<close>, where the two zeros are equal.
\<close>

section \<open>Node content\<close>

datatype diff_comparison = DC_WorkingTreeAgainstHead

datatype canvas_text = CanvasText (canvas_text_str: string)

definition canvas_text_max_chars :: nat where "canvas_text_max_chars = 65536"

definition canvas_text_new :: "string \<Rightarrow> (unit, canvas_text) result" where
  "canvas_text_new value =
     (if canvas_text_max_chars < chars_count value then Inl () else Inr (CanvasText value))"

datatype normalized_point = NormalizedPoint u16 u16

datatype canvas_color = CanvasColor u8 u8 u8 u8

datatype stroke_width = StrokeWidth u16

datatype shape_kind = SK_Rectangle | SK_Ellipse

record shape =
  shape_kind :: shape_kind
  shape_fill :: canvas_color
  shape_stroke :: canvas_color
  shape_stroke_width :: stroke_width

record arrow =
  arrow_start :: normalized_point
  arrow_end :: normalized_point
  arrow_stroke :: canvas_color
  arrow_stroke_width :: stroke_width
  arrow_label :: "name option"

record freehand =
  free_points :: "normalized_point list"
  free_stroke :: canvas_color
  free_stroke_width :: stroke_width

datatype drawing_validation_error =
    DV_NotFinite | DV_OutsideNode | DV_InvalidStrokeWidth | DV_TooFewPoints | DV_TooManyPoints

definition freehand_max_points :: nat where "freehand_max_points = 65536"

definition freehand_new ::
  "normalized_point list \<Rightarrow> canvas_color \<Rightarrow> stroke_width \<Rightarrow>
   (drawing_validation_error, freehand) result" where
  "freehand_new points stroke width =
     (if length points < 2 then Inl DV_TooFewPoints
      else if freehand_max_points < length points then Inl DV_TooManyPoints
      else Inr \<lparr>free_points = points, free_stroke = stroke, free_stroke_width = width\<rparr>)"

text \<open>The portal configuration a node carries, \<open>src/portal.rs\<close>.\<close>

datatype portal_target_kind = PK_Browser | PK_Android | PK_Ios

record portal_target =
  pt_kind :: portal_target_kind
  pt_selector :: string

record portal_presentation =
  pp_preserve_aspect_ratio :: bool
  pp_frame_rate_limit :: u16

record portal_config =
  pc_target :: portal_target
  pc_presentation :: portal_presentation

datatype canvas_node_content =
    CC_Reference node_target
  | CC_Note project_path name
  | CC_FileTree project_path
  | CC_Artifact project_path
  | CC_Diff project_path diff_comparison
  | CC_Text canvas_text
  | CC_Portal portal_config
  | CC_Shape shape
  | CC_Arrow arrow
  | CC_Freehand freehand

definition content_reference :: "canvas_node_content \<Rightarrow> node_target option" where
  "content_reference c = (case c of CC_Reference t \<Rightarrow> Some t | _ \<Rightarrow> None)"

section \<open>Nodes, groups and connections\<close>

record node =
  node_ident :: node_id
  node_content :: canvas_node_content
  node_position :: canvas_point
  node_size :: canvas_size
  node_z_index :: int

definition node_reference :: "node \<Rightarrow> node_target option" where
  "node_reference n = content_reference (node_content n)"

definition node_with_content ::
  "node_id \<Rightarrow> canvas_node_content \<Rightarrow> canvas_point \<Rightarrow> canvas_size \<Rightarrow> node" where
  "node_with_content nid content position sz =
     \<lparr>node_ident = nid, node_content = content, node_position = position, node_size = sz,
      node_z_index = 0\<rparr>"

definition node_new :: "node_id \<Rightarrow> node_target \<Rightarrow> canvas_point \<Rightarrow> canvas_size \<Rightarrow> node" where
  "node_new nid target position sz = node_with_content nid (CC_Reference target) position sz"

definition node_eq :: "node \<Rightarrow> node \<Rightarrow> bool" where
  "node_eq m n =
     (node_ident m = node_ident n \<and> node_content m = node_content n
      \<and> canvas_point_eq (node_position m) (node_position n)
      \<and> canvas_size_eq (node_size m) (node_size n) \<and> node_z_index m = node_z_index n)"

record node_group =
  grp_ident :: node_group_id
  grp_members :: "node_id bset"

definition node_group_new :: "node_group_id \<Rightarrow> node_id list \<Rightarrow> node_group" where
  "node_group_new gid members = \<lparr>grp_ident = gid, grp_members = bs_of_list members\<rparr>"

datatype connection_kind = CK_Coordination | CK_Assignment | CK_Dependency | CK_Handoff | CK_Reference

fun kind_between :: "node_target \<Rightarrow> node_target \<Rightarrow> connection_kind option" where
  "kind_between (NT_Agent _) (NT_Agent _) = Some CK_Coordination"
| "kind_between (NT_Agent _) (NT_Task _) = Some CK_Assignment"
| "kind_between (NT_Task _) (NT_Task _) = Some CK_Dependency"
| "kind_between _ (NT_Handoff _) = Some CK_Handoff"
| "kind_between (NT_Handoff _) (NT_Agent _) = Some CK_Handoff"
| "kind_between (NT_Handoff _) (NT_Task _) = Some CK_Handoff"
| "kind_between (NT_Task _) (NT_Agent _) = None"

definition kind_between_content ::
  "canvas_node_content \<Rightarrow> canvas_node_content \<Rightarrow> connection_kind option" where
  "kind_between_content source target =
     (case (content_reference source, content_reference target) of
        (Some s, Some t) \<Rightarrow> kind_between s t
      | _ \<Rightarrow> Some CK_Reference)"

record connection =
  con_ident :: connection_id
  con_source :: node_id
  con_target :: node_id
  con_kind :: connection_kind

section \<open>Layouts\<close>

record canvas_layout =
  cl_nodes :: "node list"
  cl_groups :: "node_group list"
  cl_connections :: "connection list"

definition canvas_layout_new ::
  "node list \<Rightarrow> node_group list \<Rightarrow> connection list \<Rightarrow> canvas_layout" where
  "canvas_layout_new nodes groups connections =
     \<lparr>cl_nodes = sort_key node_ident nodes, cl_groups = sort_key grp_ident groups,
      cl_connections = sort_key con_ident connections\<rparr>"

definition canvas_layout_eq :: "canvas_layout \<Rightarrow> canvas_layout \<Rightarrow> bool" where
  "canvas_layout_eq a b =
     (list_all2 node_eq (cl_nodes a) (cl_nodes b) \<and> cl_groups a = cl_groups b
      \<and> cl_connections a = cl_connections b)"

section \<open>Floors\<close>

datatype floor_owner = FO_Agent agent_id | FO_Task task_id

datatype floor_lifecycle = FL_Available | FL_Missing | FL_Removed

record floor =
  fl_name :: name
  fl_directory :: workspace_directory
  fl_repository :: workspace_directory
  fl_branch :: "string option"
  fl_base_revision :: string
  fl_base_branch :: "string option"
  fl_managed :: bool
  fl_ownership_token :: "string option"
  fl_owner :: "floor_owner option"
  fl_dirty :: bool
  fl_lifecycle :: floor_lifecycle

record floors =
  fs_entries :: "(u64, floor) bmap"
  fs_node_floors :: "(node_id, u64) bmap"
  fs_active :: "u64 option"

definition floors_default :: floors where
  "floors_default = \<lparr>fs_entries = bm_empty, fs_node_floors = bm_empty, fs_active = None\<rparr>"

definition contains_node :: "floors \<Rightarrow> node_id \<Rightarrow> bool" where
  "contains_node f n = (bm_get (fs_node_floors f) n = fs_active f)"

interpretation node_map: ordered_map bm_empty bm_get bm_insert bm_remove bm_values node_ident
  by (rule bmap_ordered_map)

interpretation group_map: ordered_map bm_empty bm_get bm_insert bm_remove bm_values grp_ident
  by (rule bmap_ordered_map)

interpretation connection_map: ordered_map bm_empty bm_get bm_insert bm_remove bm_values con_ident
  by (rule bmap_ordered_map)

section \<open>Equality\<close>

text \<open>Coordinates a constructor accepted are finite, so the derived equality is reflexive on them.\<close>

definition node_finite :: "node \<Rightarrow> bool" where
  "node_finite n =
     (f32_is_finite (point_x (node_position n)) \<and> f32_is_finite (point_y (node_position n))
      \<and> f32_is_finite (size_width (node_size n)) \<and> f32_is_finite (size_height (node_size n)))"

lemma node_eq_refl: "node_finite n \<Longrightarrow> node_eq n n"
  by (simp add: node_finite_def node_eq_def canvas_point_eq_def canvas_size_eq_def f32_eq_def
      f32_is_nan_def)

lemma node_eq_ident: "node_eq m n \<Longrightarrow> node_ident m = node_ident n"
  by (simp add: node_eq_def)

lemma node_eq_reference: "node_eq m n \<Longrightarrow> node_reference m = node_reference n"
  by (simp add: node_eq_def node_reference_def)

lemma canvas_layout_eq_idents:
  assumes "canvas_layout_eq a b"
  shows "map node_ident (cl_nodes a) = map node_ident (cl_nodes b)"
    and "map node_reference (cl_nodes a) = map node_reference (cl_nodes b)"
  using assms
  by (auto simp: canvas_layout_eq_def list_all2_map1 list_all2_map2 list.rel_eq [symmetric]
      elim!: list_all2_mono dest: node_eq_ident node_eq_reference)

end
