(* ===== verification/Domain_Event.thy ===== *)
theory Domain_Event
  imports Handoff Routine_Run Chat Canvas
begin

text \<open>
  The events a workspace applies, the journal entries that record them and the commands, from
  \<open>src/domain/events.rs\<close>.
\<close>

datatype domain_event =
    EV_FloorsChanged floors floors
  | EV_WorkspaceSettingsChanged workspace_settings workspace_settings
  | EV_EnvironmentProfileAdded environment_profile
  | EV_EnvironmentProfileChanged environment_profile environment_profile
  | EV_EnvironmentProfileRemoved environment_profile
  | EV_CommandPresetAdded command_preset
  | EV_CommandPresetChanged command_preset command_preset
  | EV_CommandPresetRemoved command_preset
  | EV_RoleAdded role
  | EV_RoleChanged role role
  | EV_RoleRemoved role
  | EV_AgentRoleChanged agent_id "role_id option" "role_id option"
  | EV_AgentAdded agent
  | EV_AgentRenamed agent_id name name
  | EV_ChatThreadAdded chat_thread
  | EV_ChatThreadChanged chat_thread_id name name thread_color thread_color
  | EV_ChatAttachmentAdded chat_attachment
  | EV_ChatDraftChanged chat_thread_id chat_draft chat_draft
  | EV_ChatDraftSubmitted chat_thread_id chat_draft chat_message
  | EV_AgentChatMessageAppended chat_message
  | EV_TaskAdded task
  | EV_HandoffAdded handoff
  | EV_TaskHandoffAdded task handoff
  | EV_HandoffChanged handoff handoff
  | EV_TaskCancelled task_id task_state handoff handoff
  | EV_TaskResumed task_id task_state handoff
  | EV_NodeAdded node
  | EV_AgentNodeAdded agent node
  | EV_CanvasReplaced canvas_layout canvas_layout
  | EV_AgentStateChanged agent_id agent_state agent_state
  | EV_TaskStateChanged task_id task_state task_state
  | EV_RoutineAdded routine
  | EV_RoutineVersionAdded routine_id routine_version
  | EV_RoutineChanged routine_id name name "content option" "content option"
  | EV_RoutineTriggerChanged routine_id "routine_trigger option" routine_trigger
  | EV_RoutineTriggerRemoved routine_id routine_trigger
  | EV_RoutineRunStarted routine_run "routine_trigger_firing option" "timestamp option"
  | EV_RoutineOccurrencesSkipped routine_id routine_trigger_id u32 "timestamp option"
  | EV_RoutineRunAdvanced routine_run_id routine_transition
  | EV_RoutineStepDispatched routine_run_id routine_step_id routine_attempt task handoff

record timeline_event =
  te_id :: timeline_event_id
  te_workspace :: workspace_id
  te_occurred_at :: timestamp
  te_event :: domain_event

section \<open>Commands\<close>

text \<open>The commands a workspace executes.\<close>

datatype domain_command =
    DC_ReplaceFloors floors floors
  | DC_UpdateWorkspaceSettings workspace_settings
  | DC_AddEnvironmentProfile environment_profile
  | DC_UpdateEnvironmentProfile environment_profile
  | DC_RemoveEnvironmentProfile environment_profile_id
  | DC_AddCommandPreset command_preset
  | DC_UpdateCommandPreset command_preset
  | DC_RemoveCommandPreset command_preset_id
  | DC_AddRole role
  | DC_UpdateRole role
  | DC_RemoveRole role_id
  | DC_AssignAgentRole agent_id "role_id option"
  | DC_AddAgent agent
  | DC_RenameAgent agent_id name
  | DC_AddChatThread chat_thread
  | DC_UpdateChatThread chat_thread_id name thread_color
  | DC_AddChatAttachment chat_attachment
  | DC_UpdateChatDraft chat_thread_id chat_draft
  | DC_SubmitChatDraft chat_thread_id chat_message_id timestamp
  | DC_AppendAgentChatMessage chat_message
  | DC_AddTask task
  | DC_AddHandoff handoff
  | DC_AddTaskHandoff task handoff
  | DC_UpdateHandoff handoff handoff
  | DC_CancelTask task_id handoff handoff
  | DC_ResumeTask task_id handoff
  | DC_AddNode node
  | DC_AddAgentNode agent node
  | DC_ReplaceCanvas canvas_layout canvas_layout
  | DC_TransitionAgent agent_id agent_state
  | DC_TransitionTask task_id task_state
  | DC_AddRoutine routine
  | DC_AddRoutineVersion routine_id routine_version
  | DC_UpdateRoutine routine_id name "content option"
  | DC_PutRoutineTrigger routine_id routine_trigger
  | DC_RemoveRoutineTrigger routine_id routine_trigger_id
  | DC_StartRoutineRun routine_run "routine_trigger_firing option" "timestamp option"
  | DC_SkipRoutineOccurrences routine_id routine_trigger_id u32 "timestamp option"
  | DC_AdvanceRoutineRun routine_run_id routine_transition
  | DC_DispatchRoutineStep routine_run_id routine_step_id routine_attempt task handoff

end
