(* ===== verification/Workspace.thy ===== *)
theory Workspace
  imports Domain_Error Domain_Event "HOL-Library.Product_Lexorder"
begin

text \<open>
  The workspace aggregate of \<open>src/domain/workspace.rs\<close>: its state, the queries and checks its
  handlers share. A check returns the first error the code would return.
\<close>

section \<open>State\<close>

record workspace =
  w_id :: workspace_id
  w_floors :: floors
  w_settings :: workspace_settings
  w_profiles :: "(environment_profile_id, environment_profile) bmap"
  w_presets :: "(command_preset_id, command_preset) bmap"
  w_roles :: "(role_id, role) bmap"
  w_agents :: "(agent_id, agent) bmap"
  w_archived :: "(agent_id, agent) bmap"
  w_threads :: "(chat_thread_id, chat_thread) bmap"
  w_attachments :: "(chat_attachment_id, chat_attachment) bmap"
  w_tasks :: "(task_id, task) bmap"
  w_handoffs :: "(handoff_id, handoff) bmap"
  w_nodes :: "(node_id, node) bmap"
  w_groups :: "(node_group_id, node_group) bmap"
  w_connections :: "(connection_id, connection) bmap"
  w_routines :: "(routine_id, routine) bmap"
  w_runs :: "(routine_run_id, routine_run) bmap"

type_synonym 'a checked = "(domain_error, 'a) result"

definition workspace_new :: "workspace_id \<Rightarrow> name \<Rightarrow> workspace" where
  "workspace_new wid nm =
     \<lparr>w_id = wid, w_floors = floors_default,
      w_settings = \<lparr>ws_name = nm, ws_icon = None, ws_working_directory = None,
                    ws_instructions = None\<rparr>,
      w_profiles = bm_empty, w_presets = bm_empty, w_roles = bm_empty, w_agents = bm_empty,
      w_archived = bm_empty, w_threads = bm_empty, w_attachments = bm_empty, w_tasks = bm_empty,
      w_handoffs = bm_empty, w_nodes = bm_empty, w_groups = bm_empty, w_connections = bm_empty,
      w_routines = bm_empty, w_runs = bm_empty\<rparr>"

section \<open>Agents, active and archived\<close>

definition recorded_agents :: "workspace \<Rightarrow> agent list" where
  "recorded_agents w = bm_values (w_agents w) @ bm_values (w_archived w)"

definition recorded_agent :: "workspace \<Rightarrow> agent_id \<Rightarrow> agent option" where
  "recorded_agent w a =
     (case bm_get (w_agents w) a of Some x \<Rightarrow> Some x | None \<Rightarrow> bm_get (w_archived w) a)"

text \<open>Writing through \<open>agents.get_mut(id).or_else(|| archived_agents.get_mut(id))\<close>.\<close>

definition update_recorded_agent :: "agent_id \<Rightarrow> (agent \<Rightarrow> agent) \<Rightarrow> workspace \<Rightarrow> workspace" where
  "update_recorded_agent a f w =
     (if bm_contains (w_agents w) a then w\<lparr>w_agents := bm_update a f (w_agents w)\<rparr>
      else w\<lparr>w_archived := bm_update a f (w_archived w)\<rparr>)"

definition archive_agent :: "agent_id \<Rightarrow> workspace \<Rightarrow> workspace" where
  "archive_agent a w =
     (if list_ex (\<lambda>n. node_reference n = Some (NT_Agent a)) (bm_values (w_nodes w)) then w
      else case bm_get (w_agents w) a of
             None \<Rightarrow> w
           | Some x \<Rightarrow> w\<lparr>w_agents := bm_remove a (w_agents w),
                         w_archived := bm_insert a x (w_archived w)\<rparr>)"

definition archive_unplaced_agents :: "agent_id list \<Rightarrow> workspace \<Rightarrow> workspace" where
  "archive_unplaced_agents candidates w = fold archive_agent candidates w"

text \<open>\<open>filter_map\<close> of the agents some nodes show.\<close>

definition shown_agents :: "node list \<Rightarrow> agent_id list" where
  "shown_agents nodes =
     List.map_filter (\<lambda>n. case node_reference n of Some (NT_Agent a) \<Rightarrow> Some a | _ \<Rightarrow> None) nodes"

definition restore_agent :: "agent_id \<Rightarrow> workspace \<Rightarrow> workspace" where
  "restore_agent a w =
     (case bm_get (w_archived w) a of
        None \<Rightarrow> w
      | Some x \<Rightarrow> w\<lparr>w_archived := bm_remove a (w_archived w),
                    w_agents := bm_insert a x (w_agents w)\<rparr>)"

definition restore_placed_agents :: "workspace \<Rightarrow> workspace" where
  "restore_placed_agents w = fold restore_agent (shown_agents (bm_values (w_nodes w))) w"

section \<open>Queries\<close>

definition highest_task_id :: "workspace \<Rightarrow> u64" where
  "highest_task_id w = (case bm_last_key (w_tasks w) of None \<Rightarrow> 0 | Some k \<Rightarrow> id_get k)"

definition highest_handoff_id :: "workspace \<Rightarrow> u64" where
  "highest_handoff_id w = (case bm_last_key (w_handoffs w) of None \<Rightarrow> 0 | Some k \<Rightarrow> id_get k)"

definition active_routine_runs :: "workspace \<Rightarrow> routine_run list" where
  "active_routine_runs w = filter run_is_active (bm_values (w_runs w))"

definition held_routine_reservations :: "workspace \<Rightarrow> routine_reservation bset" where
  "held_routine_reservations w =
     bs_of_list (concat (map held_reservations (active_routine_runs w)))"

definition routine_occurrence_consumed ::
  "workspace \<Rightarrow> routine_trigger_id \<Rightarrow> routine_occurrence_key \<Rightarrow> bool" where
  "routine_occurrence_consumed w tid k =
     (list_ex (\<lambda>r. run_trigger r = Some tid \<and> run_occurrence r = Some k) (bm_values (w_runs w))
      \<or> list_ex (\<lambda>rt. case routine_trigger_of rt tid of
            None \<Rightarrow> False
          | Some t \<Rightarrow> (case tr_last_firing t of None \<Rightarrow> False | Some f \<Rightarrow> fire_occurrence f = k))
        (bm_values (w_routines w)))"

definition floor_directory :: "workspace \<Rightarrow> u64 \<Rightarrow> workspace_directory option" where
  "floor_directory w fid =
     Option.bind (bm_get (fs_entries (w_floors w)) fid)
       (\<lambda>f. if fl_lifecycle f = FL_Available then Some (fl_directory f) else None)"

definition active_directory :: "workspace \<Rightarrow> workspace_directory option" where
  "active_directory w =
     (case fs_active (w_floors w) of
        Some fid \<Rightarrow> floor_directory w fid
      | None \<Rightarrow> ws_working_directory (w_settings w))"

definition node_directory :: "workspace \<Rightarrow> node_id \<Rightarrow> workspace_directory option" where
  "node_directory w n =
     (case bm_get (fs_node_floors (w_floors w)) n of
        Some fid \<Rightarrow> floor_directory w fid
      | None \<Rightarrow> ws_working_directory (w_settings w))"

definition all_canvas_layout :: "workspace \<Rightarrow> canvas_layout" where
  "all_canvas_layout w =
     canvas_layout_new (bm_values (w_nodes w)) (bm_values (w_groups w)) (bm_values (w_connections w))"

definition canvas_layout :: "workspace \<Rightarrow> canvas_layout" where
  "canvas_layout w =
     (let f = w_floors w in
      canvas_layout_new
        (filter (\<lambda>n. contains_node f (node_ident n)) (bm_values (w_nodes w)))
        (filter (\<lambda>g. list_all (contains_node f) (bm_keys (grp_members g))) (bm_values (w_groups w)))
        (filter (\<lambda>c. contains_node f (con_source c) \<and> contains_node f (con_target c))
           (bm_values (w_connections w))))"

section \<open>References\<close>

definition contains :: "workspace \<Rightarrow> entity_ref \<Rightarrow> bool" where
  "contains w e =
     (case e of
        ER_Workspace i \<Rightarrow> w_id w = i
      | ER_EnvironmentProfile i \<Rightarrow> bm_contains (w_profiles w) i
      | ER_CommandPreset i \<Rightarrow> bm_contains (w_presets w) i
      | ER_Role i \<Rightarrow> bm_contains (w_roles w) i
      | ER_Agent i \<Rightarrow> recorded_agent w i \<noteq> None
      | ER_ChatThread i \<Rightarrow> bm_contains (w_threads w) i
      | ER_ChatMessage i \<Rightarrow>
          list_ex (\<lambda>t. list_ex (\<lambda>m. msg_id m = i) (th_messages t)) (bm_values (w_threads w))
      | ER_ChatAttachment i \<Rightarrow> bm_contains (w_attachments w) i
      | ER_Task i \<Rightarrow> bm_contains (w_tasks w) i
      | ER_Handoff i \<Rightarrow> bm_contains (w_handoffs w) i
      | ER_Node i \<Rightarrow> bm_contains (w_nodes w) i
      | ER_NodeGroup i \<Rightarrow> bm_contains (w_groups w) i
      | ER_Connection i \<Rightarrow> bm_contains (w_connections w) i
      | ER_TimelineEvent _ \<Rightarrow> False
      | ER_Routine i \<Rightarrow> bm_contains (w_routines w) i
      | ER_RoutineVersion i \<Rightarrow>
          list_ex (\<lambda>r. routine_version_of r i \<noteq> None) (bm_values (w_routines w))
      | ER_RoutineTrigger i \<Rightarrow>
          list_ex (\<lambda>r. routine_trigger_of r i \<noteq> None) (bm_values (w_routines w))
      | ER_RoutineRun i \<Rightarrow> bm_contains (w_runs w) i)"

definition ensure_absent :: "workspace \<Rightarrow> entity_ref \<Rightarrow> unit checked" where
  "ensure_absent w e = (if contains w e then Inl (DE_DuplicateEntity e) else Inr ())"

definition ensure_reference ::
  "workspace \<Rightarrow> entity_ref \<Rightarrow> string \<Rightarrow> entity_ref \<Rightarrow> unit checked" where
  "ensure_reference w e field target =
     (if contains w target then Inr () else Inl (DE_InvalidReference e field target))"

text \<open>\<open>if let Some(x) = v { ... }\<close> around a check.\<close>

definition check_option :: "('a \<Rightarrow> unit checked) \<Rightarrow> 'a option \<Rightarrow> unit checked" where
  "check_option f v = (case v of None \<Rightarrow> Inr () | Some x \<Rightarrow> f x)"

definition get_or :: "('k::linorder, 'v) bmap \<Rightarrow> 'k \<Rightarrow> entity_ref \<Rightarrow> 'v checked" where
  "get_or m k e = ok_or (bm_get m k) (DE_EntityNotFound e)"

section \<open>Tasks and handoffs\<close>

definition validate_new_task :: "workspace \<Rightarrow> task \<Rightarrow> unit checked" where
  "validate_new_task w t =
     res_bind (ensure_absent w (ER_Task (task_ident t))) (\<lambda>_.
     res_bind (check_option (\<lambda>a. ensure_reference w (ER_Task (task_ident t)) ''assignee'' (ER_Agent a))
                 (task_assignee t)) (\<lambda>_.
     check_option (\<lambda>prev.
         res_bind (ok_or (bm_get (w_tasks w) prev)
                     (DE_InvalidReference (ER_Task (task_ident t)) ''retry_of'' (ER_Task prev)))
           (\<lambda>previous.
              ensure (task_state previous = TS_Failed \<or> task_state previous = TS_Cancelled)
                (DE_InvalidRetrySource (task_ident t) prev (task_state previous))))
       (task_retry_of t)))"

text \<open>
  The parent loop of \<open>validate_new_handoff\<close>; \<open>depth\<close> counts the handoff itself and every
  ancestor walked so far.
\<close>

function handoff_chain ::
  "(handoff_id, handoff) bmap \<Rightarrow> handoff_id \<Rightarrow> nat \<Rightarrow> handoff_id option \<Rightarrow> unit checked" where
  "handoff_chain hs hid depth parent =
     (case parent of
        None \<Rightarrow> Inr ()
      | Some p \<Rightarrow>
          res_bind (ok_or (bm_get hs p)
              (DE_InvalidReference (ER_Handoff hid) ''parent'' (ER_Handoff p))) (\<lambda>ph.
            if max_handoff_depth < depth + 1
            then Inl (DE_HandoffChainTooDeep hid max_handoff_depth)
            else handoff_chain hs hid (depth + 1) (ho_parent ph)))"
  by pat_completeness auto
termination
  by (relation "measure (\<lambda>(hs, hid, depth, parent). Suc max_handoff_depth - depth)") auto

declare handoff_chain.simps [simp del]

definition validate_handoff_origin :: "workspace \<Rightarrow> handoff \<Rightarrow> unit checked" where
  "validate_handoff_origin w h =
     (case ho_origin h of
        HO_Agent source \<Rightarrow>
          if source = ho_recipient h then Inl (DE_SameHandoffParticipant (ho_id h) source)
          else ensure_reference w (ER_Handoff (ho_id h)) ''source'' (ER_Agent source)
      | HO_Routine rid sid \<Rightarrow>
          res_bind (get_or (w_runs w) rid (ER_RoutineRun rid)) (\<lambda>run.
            ensure (bm_get (run_steps run) sid \<noteq> None)
              (DE_InvalidReference (ER_Handoff (ho_id h)) ''origin'' (ER_RoutineRun rid))))"

definition validate_handoff_payload :: "workspace \<Rightarrow> handoff \<Rightarrow> task option \<Rightarrow> unit checked" where
  "validate_handoff_payload w h pending =
     (case ho_payload h of
        HP_Task tid \<Rightarrow>
          if (case pending of None \<Rightarrow> True | Some t \<Rightarrow> task_ident t \<noteq> tid)
          then ensure_reference w (ER_Handoff (ho_id h)) ''payload'' (ER_Task tid) else Inr ()
      | HP_Question _ \<Rightarrow> Inr ())"

definition validate_new_handoff :: "workspace \<Rightarrow> handoff \<Rightarrow> task option \<Rightarrow> unit checked" where
  "validate_new_handoff w h pending =
     res_bind (ensure_absent w (ER_Handoff (ho_id h))) (\<lambda>_.
     res_bind (validate_handoff_origin w h) (\<lambda>_.
     res_bind (ensure_reference w (ER_Handoff (ho_id h)) ''recipient'' (ER_Agent (ho_recipient h))) (\<lambda>_.
     res_bind (validate_handoff_payload w h pending) (\<lambda>_.
     if (case ho_message_id h of
           None \<Rightarrow> False
         | Some m \<Rightarrow> list_ex (\<lambda>e. ho_message_id e = Some m) (bm_values (w_handoffs w)))
     then Inl DE_DuplicateHandoffMessageId
     else handoff_chain (w_handoffs w) (ho_id h) 1 (ho_parent h)))))"

section \<open>Routines\<close>

definition validate_routine_step :: "workspace \<Rightarrow> routine_version_id \<Rightarrow> routine_step \<Rightarrow> unit checked" where
  "validate_routine_step w vid s =
     res_bind (ensure_reference w (ER_RoutineVersion vid) ''agent_id'' (ER_Agent (st_agent s))) (\<lambda>_.
       case claim_checkout (st_claims s) of
         CC_Floor f \<Rightarrow> ensure (bm_contains (fs_entries (w_floors w)) f)
                        (DE_InvalidRoutine (RE_UnpinnedStepCheckout (st_id s)))
       | CC_AgentDefault \<Rightarrow> Inr ())"

definition validate_routine_version :: "workspace \<Rightarrow> routine_version \<Rightarrow> unit checked" where
  "validate_routine_version w v = check_all (validate_routine_step w (ver_id v)) (ver_steps v)"

definition validate_pinned_agents :: "workspace \<Rightarrow> routine_run \<Rightarrow> unit checked" where
  "validate_pinned_agents w run =
     check_all (\<lambda>s.
         res_bind (ok_or (bm_get (pin_agents (run_pin run)) (st_id s))
                     (DE_InvalidRoutine (RE_UnpinnedStepBinding (st_id s)))) (\<lambda>a.
           ensure_reference w (ER_RoutineRun (run_id run)) ''agent'' (ER_Agent a)))
       (ver_steps (pin_version (run_pin run)))"

definition dispatch_matches ::
  "routine_run \<Rightarrow> routine_run_id \<Rightarrow> routine_step_id \<Rightarrow> routine_attempt \<Rightarrow> task \<Rightarrow> handoff \<Rightarrow> bool" where
  "dispatch_matches run rid sid a t h =
     (at_task a = task_ident t \<and> at_handoff a = ho_id h \<and> ho_payload h = HP_Task (task_ident t)
      \<and> ho_origin h = HO_Routine rid sid \<and> ho_recipient h = at_agent a
      \<and> task_assignee t = Some (at_agent a)
      \<and> bm_get (pin_agents (run_pin run)) sid = Some (at_agent a)
      \<and> bm_get (pin_checkouts (run_pin run)) sid = Some (at_checkout a))"

definition validate_routine_dispatch ::
  "workspace \<Rightarrow> routine_run_id \<Rightarrow> routine_step_id \<Rightarrow> routine_attempt \<Rightarrow> task \<Rightarrow> handoff \<Rightarrow>
   unit checked" where
  "validate_routine_dispatch w rid sid a t h =
     res_bind (get_or (w_runs w) rid (ER_RoutineRun rid)) (\<lambda>run.
       if \<not> dispatch_matches run rid sid a t h then Inl (DE_RoutineStepTaskMismatch rid sid)
       else
         let held = held_routine_reservations w in
         case List.find (bm_contains held) (attempt_reservations a) of
           Some conflict \<Rightarrow>
             Inl (DE_RoutineReservationHeld rid sid (reservation_display conflict))
         | None \<Rightarrow> Inr ())"

section \<open>Chat\<close>

definition sum_attachment ::
  "workspace \<Rightarrow> chat_thread_id \<Rightarrow> u64 \<Rightarrow> chat_attachment_id \<Rightarrow> u64 checked" where
  "sum_attachment w thread acc aid =
     res_bind (get_or (w_attachments w) aid (ER_ChatAttachment aid)) (\<lambda>a.
       if ca_thread a \<noteq> thread
       then Inl (DE_ChatAttachmentWrongThread aid thread (ca_thread a))
       else Inr (saturating_add acc (ca_byte_len a)))"

definition nodes_showing :: "workspace \<Rightarrow> node_target \<Rightarrow> node_id list" where
  "nodes_showing w target =
     map node_ident (filter (\<lambda>n. node_reference n = Some target) (bm_values (w_nodes w)))"

definition mention_connected :: "workspace \<Rightarrow> agent_id \<Rightarrow> node_target \<Rightarrow> bool" where
  "mention_connected w owner mention =
     (let owner_nodes = nodes_showing w (NT_Agent owner); target_nodes = nodes_showing w mention in
      list_ex (\<lambda>c. con_source c \<in> set owner_nodes \<and> con_target c \<in> set target_nodes
                  \<or> con_target c \<in> set owner_nodes \<and> con_source c \<in> set target_nodes)
        (bm_values (w_connections w)))"

definition validate_chat_references ::
  "workspace \<Rightarrow> chat_thread_id \<Rightarrow> chat_attachment_id list \<Rightarrow> node_target list \<Rightarrow> unit checked" where
  "validate_chat_references w tid attachments mentions =
     res_bind (get_or (w_threads w) tid (ER_ChatThread tid)) (\<lambda>thread.
     res_bind (try_fold (sum_attachment w tid) 0 attachments) (\<lambda>sum.
       if max_total_attachment_bytes < sum
       then Inl (DE_ChatAttachmentTotalTooLarge tid max_total_attachment_bytes sum)
       else check_all (\<lambda>m.
           res_bind (ensure_reference w (ER_ChatThread tid) ''mention'' (target_ref m)) (\<lambda>_.
             ensure (mention_connected w (th_agent thread) m) (DE_MentionNotConnected tid m)))
         mentions))"

section \<open>Canvases\<close>

definition check_canvas_node :: "workspace \<Rightarrow> node_id bset \<Rightarrow> node \<Rightarrow> node_id bset checked" where
  "check_canvas_node w ids n =
     (if bm_contains ids (node_ident n) then Inl (DE_DuplicateEntity (ER_Node (node_ident n)))
      else res_bind (check_option (\<lambda>t.
               ensure_reference w (ER_Node (node_ident n)) ''target'' (target_ref t))
             (node_reference n))
           (\<lambda>_. Inr (bs_insert (node_ident n) ids)))"

definition check_member ::
  "node_group_id \<Rightarrow> node_id bset \<Rightarrow> node_id bset \<Rightarrow> node_id \<Rightarrow> node_id bset checked" where
  "check_member gid ids grouped n =
     (if \<not> bm_contains ids n then Inl (DE_InvalidGroup gid ''a member node does not exist'')
      else if bm_contains grouped n then Inl (DE_NodeInMultipleGroups n)
      else Inr (bs_insert n grouped))"

definition check_canvas_group ::
  "node_id bset \<Rightarrow> node_id bset \<times> node_group_id bset \<Rightarrow> node_group \<Rightarrow>
   (node_id bset \<times> node_group_id bset) checked" where
  "check_canvas_group ids = (\<lambda>(grouped, seen) g.
     if bm_contains seen (grp_ident g) then Inl (DE_DuplicateEntity (ER_NodeGroup (grp_ident g)))
     else if bm_len (grp_members g) < 2
     then Inl (DE_InvalidGroup (grp_ident g) ''a group must contain at least two nodes'')
     else res_bind (try_fold (check_member (grp_ident g) ids) grouped (bm_keys (grp_members g)))
       (\<lambda>grouped. Inr (grouped, bs_insert (grp_ident g) seen)))"

definition check_canvas_connection ::
  "(node_id, node) bmap \<Rightarrow> connection_id bset \<times> (node_id \<times> node_id) bset \<Rightarrow> connection \<Rightarrow>
   (connection_id bset \<times> (node_id \<times> node_id) bset) checked" where
  "check_canvas_connection nodes = (\<lambda>(seen, endpoints) c.
     if bm_contains seen (con_ident c) then Inl (DE_DuplicateEntity (ER_Connection (con_ident c)))
     else if con_source c = con_target c
     then Inl (DE_InvalidConnection (con_ident c) ''source and target must differ'')
     else
       res_bind (ok_or (bm_get nodes (con_source c))
           (DE_InvalidConnection (con_ident c) ''source node does not exist'')) (\<lambda>source.
       res_bind (ok_or (bm_get nodes (con_target c))
           (DE_InvalidConnection (con_ident c) ''target node does not exist'')) (\<lambda>target.
         if kind_between_content (node_content source) (node_content target) \<noteq> Some (con_kind c)
         then Inl (DE_InvalidConnection (con_ident c)
                     ''kind is incompatible with its endpoint targets'')
         else if bm_contains endpoints (con_source c, con_target c)
         then Inl (DE_DuplicateConnection (con_source c) (con_target c))
         else Inr (bs_insert (con_ident c) seen,
                   bs_insert (con_source c, con_target c) endpoints))))"

definition validate_canvas :: "workspace \<Rightarrow> canvas_layout \<Rightarrow> unit checked" where
  "validate_canvas w l =
     res_bind (try_fold (check_canvas_node w) bm_empty (cl_nodes l)) (\<lambda>ids.
     res_bind (try_fold (check_canvas_group ids) (bm_empty, bm_empty) (cl_groups l)) (\<lambda>_.
     let nodes = bm_of_list (map (\<lambda>n. (node_ident n, n)) (cl_nodes l)) in
     res_bind (try_fold (check_canvas_connection nodes) (bm_empty, bm_empty) (cl_connections l))
       (\<lambda>_. Inr ())))"

section \<open>Facts about the checks\<close>

lemma ensure_absent_Inr_iff [result_iff]: "ensure_absent w e = Inr u \<longleftrightarrow> \<not> contains w e"
  by (simp add: ensure_absent_def)

lemma ensure_reference_Inr_iff [result_iff]:
  "ensure_reference w e field target = Inr u \<longleftrightarrow> contains w target"
  by (simp add: ensure_reference_def)

lemma check_option_Inr_iff [result_iff]:
  "check_option f v = Inr u \<longleftrightarrow> (\<forall>x. v = Some x \<longrightarrow> f x = Inr ())"
  by (cases v) (simp_all add: check_option_def)

lemma get_or_Inr_iff [result_iff]: "get_or m k e = Inr v \<longleftrightarrow> bm_get m k = Some v"
  by (simp add: get_or_def result_iff)

lemma contains_simps [simp]:
  "contains w (ER_Workspace wi) = (w_id w = wi)"
  "contains w (ER_EnvironmentProfile pi) = bm_contains (w_profiles w) pi"
  "contains w (ER_CommandPreset ci) = bm_contains (w_presets w) ci"
  "contains w (ER_Role ri) = bm_contains (w_roles w) ri"
  "contains w (ER_Agent a) = (bm_contains (w_agents w) a \<or> bm_contains (w_archived w) a)"
  "contains w (ER_ChatThread ti) = bm_contains (w_threads w) ti"
  "contains w (ER_ChatAttachment ai) = bm_contains (w_attachments w) ai"
  "contains w (ER_Task t) = bm_contains (w_tasks w) t"
  "contains w (ER_Handoff h) = bm_contains (w_handoffs w) h"
  "contains w (ER_Node n) = bm_contains (w_nodes w) n"
  "contains w (ER_NodeGroup g) = bm_contains (w_groups w) g"
  "contains w (ER_Connection c) = bm_contains (w_connections w) c"
  "contains w (ER_Routine r) = bm_contains (w_routines w) r"
  "contains w (ER_RoutineRun rr) = bm_contains (w_runs w) rr"
  by (simp_all add: contains_def recorded_agent_def bm_contains_def split: option.splits)

end
