(* ===== verification/Workspace_Apply.thy ===== *)
theory Workspace_Apply
  imports Workspace
begin

text \<open>
  \<open>Workspace::apply\<close> of \<open>src/domain/workspace.rs\<close>, one definition per event. A handler checks
  the event against the state and returns the changed workspace; when a check fails the code
  returns before any write, so a failing handler has no state to return.
\<close>

section \<open>Floors, settings and configuration\<close>

definition floor_owner_exists :: "workspace \<Rightarrow> floor_owner \<Rightarrow> bool" where
  "floor_owner_exists w owner =
     (case owner of
        FO_Agent a \<Rightarrow> recorded_agent w a \<noteq> None
      | FO_Task t \<Rightarrow> bm_contains (w_tasks w) t)"

definition apply_floors_changed :: "workspace \<Rightarrow> floors \<Rightarrow> floors \<Rightarrow> workspace checked" where
  "apply_floors_changed w before after =
     (if w_floors w \<noteq> before then Inl DE_FloorConflict
      else if (case fs_active after of None \<Rightarrow> False | Some f \<Rightarrow> \<not> bm_contains (fs_entries after) f)
         \<or> list_ex (\<lambda>(n, f). \<not> bm_contains (w_nodes w) n \<or> \<not> bm_contains (fs_entries after) f)
             (entries (fs_node_floors after))
      then Inl DE_FloorConflict
      else res_bind (check_all (\<lambda>f. check_option
               (\<lambda>owner. ensure (floor_owner_exists w owner) DE_FloorConflict) (fl_owner f))
             (bm_values (fs_entries after)))
           (\<lambda>_. Inr (w\<lparr>w_floors := after\<rparr>)))"

definition apply_settings_changed ::
  "workspace \<Rightarrow> workspace_settings \<Rightarrow> workspace_settings \<Rightarrow> workspace checked" where
  "apply_settings_changed w from to =
     (if w_settings w \<noteq> from then Inl DE_WorkspaceSettingsConflict
      else Inr (w\<lparr>w_settings := to\<rparr>))"

definition apply_profile_added :: "workspace \<Rightarrow> environment_profile \<Rightarrow> workspace checked" where
  "apply_profile_added w p =
     res_bind (ensure_absent w (ER_EnvironmentProfile (env_id p)))
       (\<lambda>_. Inr (w\<lparr>w_profiles := bm_insert (env_id p) p (w_profiles w)\<rparr>))"

definition apply_profile_changed ::
  "workspace \<Rightarrow> environment_profile \<Rightarrow> environment_profile \<Rightarrow> workspace checked" where
  "apply_profile_changed w from to =
     res_bind (get_or (w_profiles w) (env_id from) (ER_EnvironmentProfile (env_id from))) (\<lambda>current.
       if current \<noteq> from \<or> env_id to \<noteq> env_id from
       then Inl (DE_EnvironmentProfileConflict (env_id from))
       else Inr (w\<lparr>w_profiles := bm_insert (env_id to) to (w_profiles w)\<rparr>))"

definition apply_profile_removed :: "workspace \<Rightarrow> environment_profile \<Rightarrow> workspace checked" where
  "apply_profile_removed w p =
     res_bind (get_or (w_profiles w) (env_id p) (ER_EnvironmentProfile (env_id p))) (\<lambda>current.
       if current \<noteq> p then Inl (DE_EnvironmentProfileConflict (env_id p))
       else case List.find (\<lambda>a. agent_environment a = Some (env_id p)) (recorded_agents w) of
              Some a \<Rightarrow> Inl (DE_EnvironmentProfileInUse (env_id p) (agent_ident a))
            | None \<Rightarrow> Inr (w\<lparr>w_profiles := bm_remove (env_id p) (w_profiles w)\<rparr>))"

definition apply_preset_added :: "workspace \<Rightarrow> command_preset \<Rightarrow> workspace checked" where
  "apply_preset_added w p =
     res_bind (ensure_absent w (ER_CommandPreset (preset_id p)))
       (\<lambda>_. Inr (w\<lparr>w_presets := bm_insert (preset_id p) p (w_presets w)\<rparr>))"

definition apply_preset_changed ::
  "workspace \<Rightarrow> command_preset \<Rightarrow> command_preset \<Rightarrow> workspace checked" where
  "apply_preset_changed w from to =
     res_bind (get_or (w_presets w) (preset_id from) (ER_CommandPreset (preset_id from))) (\<lambda>current.
       if current \<noteq> from \<or> preset_id to \<noteq> preset_id from
       then Inl (DE_CommandPresetConflict (preset_id from))
       else Inr (w\<lparr>w_presets := bm_insert (preset_id to) to (w_presets w)\<rparr>))"

definition apply_preset_removed :: "workspace \<Rightarrow> command_preset \<Rightarrow> workspace checked" where
  "apply_preset_removed w p =
     res_bind (get_or (w_presets w) (preset_id p) (ER_CommandPreset (preset_id p))) (\<lambda>current.
       if current \<noteq> p then Inl (DE_CommandPresetConflict (preset_id p))
       else case List.find (\<lambda>a. agent_program a = AP_Custom (preset_id p)) (recorded_agents w) of
              Some a \<Rightarrow> Inl (DE_CommandPresetInUse (preset_id p) (agent_ident a))
            | None \<Rightarrow> Inr (w\<lparr>w_presets := bm_remove (preset_id p) (w_presets w)\<rparr>))"

definition apply_role_added :: "workspace \<Rightarrow> role \<Rightarrow> workspace checked" where
  "apply_role_added w r =
     res_bind (ensure_absent w (ER_Role (role_ident r)))
       (\<lambda>_. Inr (w\<lparr>w_roles := bm_insert (role_ident r) r (w_roles w)\<rparr>))"

definition apply_role_changed :: "workspace \<Rightarrow> role \<Rightarrow> role \<Rightarrow> workspace checked" where
  "apply_role_changed w from to =
     res_bind (get_or (w_roles w) (role_ident from) (ER_Role (role_ident from))) (\<lambda>current.
       if current \<noteq> from \<or> role_ident to \<noteq> role_ident from
       then Inl (DE_RoleConflict (role_ident from))
       else Inr (w\<lparr>w_roles := bm_insert (role_ident to) to (w_roles w)\<rparr>))"

definition apply_role_removed :: "workspace \<Rightarrow> role \<Rightarrow> workspace checked" where
  "apply_role_removed w r =
     res_bind (get_or (w_roles w) (role_ident r) (ER_Role (role_ident r))) (\<lambda>current.
       if current \<noteq> r then Inl (DE_RoleConflict (role_ident r))
       else case List.find (\<lambda>a. agent_role a = Some (role_ident r)) (recorded_agents w) of
              Some a \<Rightarrow> Inl (DE_RoleInUse (role_ident r) (agent_ident a))
            | None \<Rightarrow> Inr (w\<lparr>w_roles := bm_remove (role_ident r) (w_roles w)\<rparr>))"

section \<open>Agents\<close>

definition get_recorded :: "workspace \<Rightarrow> agent_id \<Rightarrow> agent checked" where
  "get_recorded w a = ok_or (recorded_agent w a) (DE_EntityNotFound (ER_Agent a))"

definition apply_agent_role_changed ::
  "workspace \<Rightarrow> agent_id \<Rightarrow> role_id option \<Rightarrow> role_id option \<Rightarrow> workspace checked" where
  "apply_agent_role_changed w a from to =
     res_bind (get_recorded w a) (\<lambda>x.
       if agent_role x \<noteq> from then Inl (DE_AgentRoleConflict a from (agent_role x))
       else res_bind (check_option (\<lambda>r. ensure_reference w (ER_Agent a) ''role_id'' (ER_Role r)) to)
         (\<lambda>_. Inr (update_recorded_agent a (\<lambda>x. x\<lparr>agent_role := to\<rparr>) w)))"

definition check_agent_references :: "workspace \<Rightarrow> agent \<Rightarrow> unit checked" where
  "check_agent_references w a =
     res_bind (check_option (\<lambda>r. ensure_reference w (ER_Agent (agent_ident a)) ''role_id'' (ER_Role r))
                 (agent_role a)) (\<lambda>_.
     res_bind (check_option (\<lambda>e. ensure_reference w (ER_Agent (agent_ident a)) ''environment_id''
                 (ER_EnvironmentProfile e)) (agent_environment a)) (\<lambda>_.
     case agent_program a of
       AP_Custom p \<Rightarrow> ensure_reference w (ER_Agent (agent_ident a)) ''program'' (ER_CommandPreset p)
     | _ \<Rightarrow> Inr ()))"

definition apply_agent_added :: "workspace \<Rightarrow> agent \<Rightarrow> workspace checked" where
  "apply_agent_added w a =
     res_bind (ensure_absent w (ER_Agent (agent_ident a))) (\<lambda>_.
     res_bind (check_agent_references w a) (\<lambda>_.
       Inr (w\<lparr>w_agents := bm_insert (agent_ident a) a (w_agents w)\<rparr>)))"

definition apply_agent_renamed ::
  "workspace \<Rightarrow> agent_id \<Rightarrow> name \<Rightarrow> name \<Rightarrow> workspace checked" where
  "apply_agent_renamed w a from to =
     res_bind (get_recorded w a) (\<lambda>x.
       if agent_name x \<noteq> from then Inl (DE_AgentNameConflict a)
       else Inr (update_recorded_agent a (\<lambda>x. x\<lparr>agent_name := to\<rparr>) w))"

definition apply_agent_state_changed ::
  "workspace \<Rightarrow> agent_id \<Rightarrow> agent_state \<Rightarrow> agent_state \<Rightarrow> workspace checked" where
  "apply_agent_state_changed w a from to =
     res_bind (get_recorded w a) (\<lambda>x.
       if agent_state x \<noteq> from then Inl (DE_AgentStateConflict a from (agent_state x))
       else if \<not> agent_can_transition from to then Inl (DE_InvalidAgentTransition a from to)
       else Inr (update_recorded_agent a (\<lambda>x. x\<lparr>agent_state := to\<rparr>) w))"

section \<open>Conversations\<close>

definition get_thread :: "workspace \<Rightarrow> chat_thread_id \<Rightarrow> chat_thread checked" where
  "get_thread w t = get_or (w_threads w) t (ER_ChatThread t)"

definition put_thread :: "chat_thread_id \<Rightarrow> chat_thread \<Rightarrow> workspace \<Rightarrow> workspace" where
  "put_thread t x w = w\<lparr>w_threads := bm_insert t x (w_threads w)\<rparr>"

definition apply_thread_added :: "workspace \<Rightarrow> chat_thread \<Rightarrow> workspace checked" where
  "apply_thread_added w t =
     res_bind (ensure_absent w (ER_ChatThread (th_id t))) (\<lambda>_.
     res_bind (ensure_reference w (ER_ChatThread (th_id t)) ''agent_id'' (ER_Agent (th_agent t))) (\<lambda>_.
       if \<not> chat_draft_is_empty (th_draft t) \<or> th_messages t \<noteq> []
       then Inl (DE_ChatThreadConflict (th_id t))
       else Inr (put_thread (th_id t) t w)))"

definition apply_thread_changed ::
  "workspace \<Rightarrow> chat_thread_id \<Rightarrow> name \<Rightarrow> name \<Rightarrow> thread_color \<Rightarrow> thread_color \<Rightarrow>
   workspace checked" where
  "apply_thread_changed w t from_name to_name from_color to_color =
     res_bind (get_thread w t) (\<lambda>x.
       if th_name x \<noteq> from_name \<or> th_color x \<noteq> from_color then Inl (DE_ChatThreadConflict t)
       else Inr (put_thread t (set_thread_appearance to_name to_color x) w))"

definition apply_attachment_added :: "workspace \<Rightarrow> chat_attachment \<Rightarrow> workspace checked" where
  "apply_attachment_added w a =
     res_bind (ensure_absent w (ER_ChatAttachment (ca_id a))) (\<lambda>_.
     res_bind (ensure_reference w (ER_ChatAttachment (ca_id a)) ''thread_id''
                 (ER_ChatThread (ca_thread a))) (\<lambda>_.
       Inr (w\<lparr>w_attachments := bm_insert (ca_id a) a (w_attachments w)\<rparr>)))"

definition apply_draft_changed ::
  "workspace \<Rightarrow> chat_thread_id \<Rightarrow> chat_draft \<Rightarrow> chat_draft \<Rightarrow> workspace checked" where
  "apply_draft_changed w t from to =
     res_bind (get_thread w t) (\<lambda>x.
       if th_draft x \<noteq> from then Inl (DE_ChatDraftConflict t)
       else res_bind (validate_chat_references w t (dr_attachments to) (dr_mentions to))
         (\<lambda>_. Inr (put_thread t (set_draft to x) w)))"

definition apply_draft_submitted ::
  "workspace \<Rightarrow> chat_thread_id \<Rightarrow> chat_draft \<Rightarrow> chat_message \<Rightarrow> workspace checked" where
  "apply_draft_submitted w t from m =
     res_bind (get_thread w t) (\<lambda>x.
       if th_draft x \<noteq> from then Inl (DE_ChatDraftConflict t)
       else res_bind (map_err DE_InvalidChat
                        (chat_message_from_draft (msg_id m) t from (msg_sent_at m))) (\<lambda>expected.
         if expected \<noteq> m then Inl (DE_ChatMessageConflict (msg_id m))
         else res_bind (ensure_absent w (ER_ChatMessage (msg_id m))) (\<lambda>_.
              res_bind (validate_chat_references w t (msg_attachments m) (msg_mentions m)) (\<lambda>_.
                Inr (put_thread t (set_draft chat_draft_default (push_message m x)) w)))))"

definition apply_message_appended :: "workspace \<Rightarrow> chat_message \<Rightarrow> workspace checked" where
  "apply_message_appended w m =
     res_bind (get_thread w (msg_thread m)) (\<lambda>x.
       if msg_author m \<noteq> CA_Agent (th_agent x) then Inl (DE_InvalidChatAuthor (msg_id m) (th_agent x))
       else res_bind (ensure_absent w (ER_ChatMessage (msg_id m))) (\<lambda>_.
            res_bind (validate_chat_references w (msg_thread m) (msg_attachments m) (msg_mentions m))
              (\<lambda>_. Inr (put_thread (msg_thread m) (push_message m x) w))))"

section \<open>Tasks and handoffs\<close>

definition insert_task :: "task \<Rightarrow> workspace \<Rightarrow> workspace" where
  "insert_task t w = w\<lparr>w_tasks := bm_insert (task_ident t) t (w_tasks w)\<rparr>"

definition insert_handoff :: "handoff \<Rightarrow> workspace \<Rightarrow> workspace" where
  "insert_handoff h w = w\<lparr>w_handoffs := bm_insert (ho_id h) h (w_handoffs w)\<rparr>"

definition set_task_state :: "task_id \<Rightarrow> task_state \<Rightarrow> workspace \<Rightarrow> workspace" where
  "set_task_state t s w = w\<lparr>w_tasks := bm_update t (\<lambda>x. x\<lparr>task_state := s\<rparr>) (w_tasks w)\<rparr>"

definition apply_task_added :: "workspace \<Rightarrow> task \<Rightarrow> workspace checked" where
  "apply_task_added w t = res_bind (validate_new_task w t) (\<lambda>_. Inr (insert_task t w))"

definition apply_handoff_added :: "workspace \<Rightarrow> handoff \<Rightarrow> workspace checked" where
  "apply_handoff_added w h = res_bind (validate_new_handoff w h None) (\<lambda>_. Inr (insert_handoff h w))"

definition apply_task_handoff_added :: "workspace \<Rightarrow> task \<Rightarrow> handoff \<Rightarrow> workspace checked" where
  "apply_task_handoff_added w t h =
     res_bind (validate_new_task w t) (\<lambda>_.
       if ho_payload h \<noteq> HP_Task (task_ident t) \<or> task_assignee t \<noteq> Some (ho_recipient h)
       then Inl (DE_TaskHandoffMismatch (ho_id h) (task_ident t))
       else res_bind (validate_new_handoff w h (Some t))
         (\<lambda>_. Inr (insert_handoff h (insert_task t w))))"

definition check_current_handoff :: "workspace \<Rightarrow> handoff \<Rightarrow> unit checked" where
  "check_current_handoff w before =
     res_bind (get_or (w_handoffs w) (ho_id before) (ER_Handoff (ho_id before))) (\<lambda>current.
       ensure (current = before) (DE_HandoffConflict (ho_id before)))"

definition apply_handoff_changed :: "workspace \<Rightarrow> handoff \<Rightarrow> handoff \<Rightarrow> workspace checked" where
  "apply_handoff_changed w before after =
     res_bind (check_current_handoff w before) (\<lambda>_.
     res_bind (map_err DE_InvalidHandoff (validate_successor after before)) (\<lambda>_.
       Inr (insert_handoff after w)))"

text \<open>The checks \<open>TaskCancelled\<close>, \<open>TaskResumed\<close> and \<open>TaskStateChanged\<close> share.\<close>

definition check_task_move ::
  "workspace \<Rightarrow> task_id \<Rightarrow> task_state \<Rightarrow> task_state \<Rightarrow> task checked" where
  "check_task_move w t from to =
     res_bind (get_or (w_tasks w) t (ER_Task t)) (\<lambda>x.
       if task_state x \<noteq> from then Inl (DE_TaskStateConflict t from (task_state x))
       else if \<not> task_can_transition from to then Inl (DE_InvalidTaskTransition t from to)
       else Inr x)"

definition apply_task_cancelled ::
  "workspace \<Rightarrow> task_id \<Rightarrow> task_state \<Rightarrow> handoff \<Rightarrow> handoff \<Rightarrow> workspace checked" where
  "apply_task_cancelled w t from before after =
     res_bind (check_task_move w t from TS_Cancelled) (\<lambda>_.
     res_bind (check_current_handoff w before) (\<lambda>_.
       if ho_payload before \<noteq> HP_Task t \<or> ho_payload after \<noteq> HP_Task t
       then Inl (DE_TaskHandoffMismatch (ho_id before) t)
       else res_bind (map_err DE_InvalidHandoff (validate_successor after before)) (\<lambda>_.
         Inr (set_task_state t TS_Cancelled (insert_handoff after w)))))"

definition apply_task_resumed ::
  "workspace \<Rightarrow> task_id \<Rightarrow> task_state \<Rightarrow> handoff \<Rightarrow> workspace checked" where
  "apply_task_resumed w t from h =
     res_bind (check_task_move w t from TS_Running) (\<lambda>x.
       if ho_payload h \<noteq> HP_Task t \<or> task_assignee x \<noteq> Some (ho_recipient h)
       then Inl (DE_TaskHandoffMismatch (ho_id h) t)
       else res_bind (validate_new_handoff w h None) (\<lambda>_.
         Inr (set_task_state t TS_Running (insert_handoff h w))))"

definition apply_task_state_changed ::
  "workspace \<Rightarrow> task_id \<Rightarrow> task_state \<Rightarrow> task_state \<Rightarrow> workspace checked" where
  "apply_task_state_changed w t from to =
     res_bind (check_task_move w t from to) (\<lambda>_. Inr (set_task_state t to w))"

section \<open>The canvas\<close>

text \<open>The node and its place on the active floor.\<close>

definition place_node :: "node \<Rightarrow> workspace \<Rightarrow> workspace" where
  "place_node n w =
     (let w = w\<lparr>w_nodes := bm_insert (node_ident n) n (w_nodes w)\<rparr> in
      case fs_active (w_floors w) of
        None \<Rightarrow> w
      | Some f \<Rightarrow> w\<lparr>w_floors := (w_floors w)\<lparr>fs_node_floors :=
                    bm_insert (node_ident n) f (fs_node_floors (w_floors w))\<rparr>\<rparr>)"

definition apply_node_added :: "workspace \<Rightarrow> node \<Rightarrow> workspace checked" where
  "apply_node_added w n =
     res_bind (ensure_absent w (ER_Node (node_ident n))) (\<lambda>_.
     res_bind (check_option (\<lambda>t. ensure_reference w (ER_Node (node_ident n)) ''target'' (target_ref t))
                 (node_reference n)) (\<lambda>_.
       Inr (restore_placed_agents (place_node n w))))"

definition apply_agent_node_added :: "workspace \<Rightarrow> agent \<Rightarrow> node \<Rightarrow> workspace checked" where
  "apply_agent_node_added w a n =
     res_bind (ensure_absent w (ER_Agent (agent_ident a))) (\<lambda>_.
     res_bind (ensure_absent w (ER_Node (node_ident n))) (\<lambda>_.
     res_bind (check_agent_references w a) (\<lambda>_.
       if node_reference n \<noteq> Some (NT_Agent (agent_ident a))
       then Inl (DE_InvalidReference (ER_Node (node_ident n)) ''target'' (ER_Agent (agent_ident a)))
       else Inr (place_node n (w\<lparr>w_agents := bm_insert (agent_ident a) a (w_agents w)\<rparr>)))))"

text \<open>The whole canvas with the visible layout exchanged for the new one.\<close>

definition combine_layouts :: "canvas_layout \<Rightarrow> canvas_layout \<Rightarrow> canvas_layout \<Rightarrow> canvas_layout" where
  "combine_layouts whole before after =
     (let removed = bs_of_list (map node_ident (cl_nodes before));
          groups = bs_of_list (map grp_ident (cl_groups before));
          connections = bs_of_list (map con_ident (cl_connections before))
      in canvas_layout_new
           (filter (\<lambda>n. \<not> bm_contains removed (node_ident n)) (cl_nodes whole) @ cl_nodes after)
           (filter (\<lambda>g. \<not> bm_contains groups (grp_ident g)) (cl_groups whole) @ cl_groups after)
           (filter (\<lambda>c. \<not> bm_contains connections (con_ident c)) (cl_connections whole)
              @ cl_connections after))"

text \<open>The floors of the nodes after the exchange.\<close>

definition move_nodes :: "canvas_layout \<Rightarrow> canvas_layout \<Rightarrow> floors \<Rightarrow> floors" where
  "move_nodes before after f =
     (let removed = bs_of_list (map node_ident (cl_nodes before));
          kept = bm_retain (\<lambda>n _. \<not> bm_contains removed n) (fs_node_floors f)
      in f\<lparr>fs_node_floors :=
            (case fs_active f of
               None \<Rightarrow> kept
             | Some fid \<Rightarrow> fold (\<lambda>n. bm_insert (node_ident n) fid) (cl_nodes after) kept)\<rparr>)"

definition install_layout :: "canvas_layout \<Rightarrow> workspace \<Rightarrow> workspace" where
  "install_layout l w =
     w\<lparr>w_nodes := bm_of_list (map (\<lambda>n. (node_ident n, n)) (cl_nodes l)),
       w_groups := bm_of_list (map (\<lambda>g. (grp_ident g, g)) (cl_groups l)),
       w_connections := bm_of_list (map (\<lambda>c. (con_ident c, c)) (cl_connections l))\<rparr>"

definition apply_canvas_replaced ::
  "workspace \<Rightarrow> canvas_layout \<Rightarrow> canvas_layout \<Rightarrow> workspace checked" where
  "apply_canvas_replaced w before after =
     (if \<not> canvas_layout_eq (canvas_layout w) before then Inl DE_CanvasConflict
      else res_bind (validate_canvas w after) (\<lambda>_.
        let combined = combine_layouts (all_canvas_layout w) before after in
        res_bind (validate_canvas w combined) (\<lambda>_.
          let w = (install_layout combined w)\<lparr>w_floors := move_nodes before after (w_floors w)\<rparr>
          in Inr (restore_placed_agents
                (archive_unplaced_agents (shown_agents (cl_nodes before)) w)))))"

section \<open>Routines\<close>

definition get_routine :: "workspace \<Rightarrow> routine_id \<Rightarrow> routine checked" where
  "get_routine w r = get_or (w_routines w) r (ER_Routine r)"

definition put_routine :: "routine_id \<Rightarrow> routine \<Rightarrow> workspace \<Rightarrow> workspace" where
  "put_routine r x w = w\<lparr>w_routines := bm_insert r x (w_routines w)\<rparr>"

definition apply_routine_added :: "workspace \<Rightarrow> routine \<Rightarrow> workspace checked" where
  "apply_routine_added w r =
     res_bind (ensure_absent w (ER_Routine (rt_id r))) (\<lambda>_.
     res_bind (check_all (validate_routine_version w) (rt_versions r)) (\<lambda>_.
     res_bind (check_all (\<lambda>t. ensure (tr_routine t = rt_id r)
                   (DE_InvalidReference (ER_RoutineTrigger (tr_id t)) ''routine_id''
                      (ER_Routine (rt_id r)))) (bm_values (rt_triggers r))) (\<lambda>_.
       Inr (put_routine (rt_id r) r w))))"

definition apply_version_added ::
  "workspace \<Rightarrow> routine_id \<Rightarrow> routine_version \<Rightarrow> workspace checked" where
  "apply_version_added w r v =
     res_bind (get_routine w r) (\<lambda>x.
       if ver_routine v \<noteq> r
       then Inl (DE_InvalidReference (ER_RoutineVersion (ver_id v)) ''routine_id'' (ER_Routine r))
       else res_bind (validate_routine_version w v) (\<lambda>_.
            res_bind (map_err DE_InvalidRoutine (push_version v x)) (\<lambda>x.
              Inr (put_routine r x w))))"

definition apply_routine_changed ::
  "workspace \<Rightarrow> routine_id \<Rightarrow> name \<Rightarrow> name \<Rightarrow> content option \<Rightarrow> content option \<Rightarrow>
   workspace checked" where
  "apply_routine_changed w r from_name to_name from_description to_description =
     res_bind (get_routine w r) (\<lambda>x.
       if rt_name x \<noteq> from_name \<or> rt_description x \<noteq> from_description
       then Inl (DE_RoutineConflict r)
       else Inr (put_routine r (set_appearance to_name to_description x) w))"

definition apply_trigger_changed ::
  "workspace \<Rightarrow> routine_id \<Rightarrow> routine_trigger option \<Rightarrow> routine_trigger \<Rightarrow> workspace checked" where
  "apply_trigger_changed w r from to =
     res_bind (get_routine w r) (\<lambda>x.
       if tr_routine to \<noteq> r \<or> (case from of None \<Rightarrow> False | Some t \<Rightarrow> tr_id t \<noteq> tr_id to)
       then Inl (DE_InvalidReference (ER_RoutineTrigger (tr_id to)) ''routine_id'' (ER_Routine r))
       else if routine_trigger_of x (tr_id to) \<noteq> from
       then Inl (DE_RoutineTriggerConflict (tr_id to))
       else res_bind (map_err DE_InvalidRoutine (trigger_kind_validate (tr_kind to)))
         (\<lambda>_. Inr (put_routine r (put_trigger to x) w)))"

definition apply_trigger_removed ::
  "workspace \<Rightarrow> routine_id \<Rightarrow> routine_trigger \<Rightarrow> workspace checked" where
  "apply_trigger_removed w r t =
     res_bind (get_routine w r) (\<lambda>x.
       if routine_trigger_of x (tr_id t) \<noteq> Some t then Inl (DE_RoutineTriggerConflict (tr_id t))
       else Inr (put_routine r (fst (remove_trigger (tr_id t) x)) w))"

text \<open>Consuming the occurrence that starts a run; a run without a trigger consumes nothing.\<close>

definition consume_occurrence ::
  "workspace \<Rightarrow> routine_run \<Rightarrow> routine \<Rightarrow> routine_trigger_firing option \<Rightarrow> timestamp option \<Rightarrow>
   workspace checked" where
  "consume_occurrence w run x firing next_at =
     (case (run_trigger run, firing) of
        (Some tid, Some f) \<Rightarrow>
          res_bind (ok_or (routine_trigger_of x tid) (DE_EntityNotFound (ER_RoutineTrigger tid))) (\<lambda>t.
            if run_occurrence run \<noteq> Some (fire_occurrence f) \<or> \<not> tr_enabled t
               \<or> routine_occurrence_consumed w tid (fire_occurrence f)
            then Inl (DE_RoutineOccurrenceConsumed tid)
            else res_bind (map_err DE_InvalidRoutine (trigger_fire (fire_occurrence f) (fire_at f) t))
              (\<lambda>t. Inr (put_routine (run_routine run)
                 (x\<lparr>rt_triggers := bm_insert tid (set_schedule_next next_at t) (rt_triggers x)\<rparr>) w)))
      | (None, None) \<Rightarrow> Inr w
      | _ \<Rightarrow> Inl (DE_RoutineRunMismatch (run_id run) (run_routine run)))"

definition insert_run :: "routine_run \<Rightarrow> workspace \<Rightarrow> workspace" where
  "insert_run r w = w\<lparr>w_runs := bm_insert (run_id r) r (w_runs w)\<rparr>"

definition apply_run_started ::
  "workspace \<Rightarrow> routine_run \<Rightarrow> routine_trigger_firing option \<Rightarrow> timestamp option \<Rightarrow>
   workspace checked" where
  "apply_run_started w run firing next_at =
     res_bind (ensure_absent w (ER_RoutineRun (run_id run))) (\<lambda>_.
     res_bind (get_routine w (run_routine run)) (\<lambda>x.
       if routine_version_of x (run_version run) \<noteq> Some (pin_version (run_pin run))
       then Inl (DE_RoutineRunMismatch (run_id run) (run_routine run))
       else case List.find (\<lambda>other. run_routine other = run_routine run \<and> run_is_active other)
                   (bm_values (w_runs w)) of
              Some active \<Rightarrow> Inl (DE_RoutineRunAlreadyActive (run_routine run) (run_id active))
            | None \<Rightarrow>
                res_bind (validate_pinned_agents w run) (\<lambda>_.
                res_bind (consume_occurrence w run x firing next_at) (\<lambda>w.
                  Inr (insert_run run w)))))"

definition apply_occurrences_skipped ::
  "workspace \<Rightarrow> routine_id \<Rightarrow> routine_trigger_id \<Rightarrow> u32 \<Rightarrow> timestamp option \<Rightarrow>
   workspace checked" where
  "apply_occurrences_skipped w r tid n next_at =
     res_bind (get_routine w r) (\<lambda>x.
     res_bind (ok_or (routine_trigger_of x tid) (DE_EntityNotFound (ER_RoutineTrigger tid))) (\<lambda>t.
       Inr (put_routine r
         (x\<lparr>rt_triggers := bm_insert tid (set_schedule_next next_at (trigger_skip n t))
                            (rt_triggers x)\<rparr>) w)))"

definition apply_run_advanced ::
  "workspace \<Rightarrow> routine_run_id \<Rightarrow> routine_transition \<Rightarrow> workspace checked" where
  "apply_run_advanced w r t =
     res_bind (get_or (w_runs w) r (ER_RoutineRun r)) (\<lambda>x.
     res_bind (map_err DE_InvalidRoutine (apply_transition t x)) (\<lambda>x.
       Inr (w\<lparr>w_runs := bm_insert r x (w_runs w)\<rparr>)))"

definition apply_step_dispatched ::
  "workspace \<Rightarrow> routine_run_id \<Rightarrow> routine_step_id \<Rightarrow> routine_attempt \<Rightarrow> task \<Rightarrow> handoff \<Rightarrow>
   workspace checked" where
  "apply_step_dispatched w r sid a t h =
     res_bind (validate_routine_dispatch w r sid a t h) (\<lambda>_.
     res_bind (validate_new_task w t) (\<lambda>_.
     res_bind (validate_new_handoff w h (Some t)) (\<lambda>_.
     res_bind (get_or (w_runs w) r (ER_RoutineRun r)) (\<lambda>x.
     res_bind (map_err DE_InvalidRoutine (dispatch sid a x)) (\<lambda>x.
       Inr (insert_handoff h (insert_task t (w\<lparr>w_runs := bm_insert r x (w_runs w)\<rparr>))))))))"

definition restore_routine_run :: "workspace \<Rightarrow> routine_run \<Rightarrow> workspace checked" where
  "restore_routine_run w run =
     res_bind (ensure_absent w (ER_RoutineRun (run_id run))) (\<lambda>_.
     res_bind (get_routine w (run_routine run)) (\<lambda>x.
       if routine_version_of x (run_version run) \<noteq> Some (pin_version (run_pin run))
       then Inl (DE_RoutineRunMismatch (run_id run) (run_routine run))
       else res_bind (validate_pinned_agents w run) (\<lambda>_. Inr (insert_run run w))))"

section \<open>The dispatcher\<close>

definition apply_event :: "workspace \<Rightarrow> domain_event \<Rightarrow> workspace checked" where
  "apply_event w e =
     (case e of
        EV_FloorsChanged before after \<Rightarrow> apply_floors_changed w before after
      | EV_WorkspaceSettingsChanged from to \<Rightarrow> apply_settings_changed w from to
      | EV_EnvironmentProfileAdded p \<Rightarrow> apply_profile_added w p
      | EV_EnvironmentProfileChanged from to \<Rightarrow> apply_profile_changed w from to
      | EV_EnvironmentProfileRemoved p \<Rightarrow> apply_profile_removed w p
      | EV_CommandPresetAdded p \<Rightarrow> apply_preset_added w p
      | EV_CommandPresetChanged from to \<Rightarrow> apply_preset_changed w from to
      | EV_CommandPresetRemoved p \<Rightarrow> apply_preset_removed w p
      | EV_RoleAdded r \<Rightarrow> apply_role_added w r
      | EV_RoleChanged from to \<Rightarrow> apply_role_changed w from to
      | EV_RoleRemoved r \<Rightarrow> apply_role_removed w r
      | EV_AgentRoleChanged a from to \<Rightarrow> apply_agent_role_changed w a from to
      | EV_AgentAdded a \<Rightarrow> apply_agent_added w a
      | EV_AgentRenamed a from to \<Rightarrow> apply_agent_renamed w a from to
      | EV_ChatThreadAdded t \<Rightarrow> apply_thread_added w t
      | EV_ChatThreadChanged t fn tn fc tc \<Rightarrow> apply_thread_changed w t fn tn fc tc
      | EV_ChatAttachmentAdded a \<Rightarrow> apply_attachment_added w a
      | EV_ChatDraftChanged t from to \<Rightarrow> apply_draft_changed w t from to
      | EV_ChatDraftSubmitted t from m \<Rightarrow> apply_draft_submitted w t from m
      | EV_AgentChatMessageAppended m \<Rightarrow> apply_message_appended w m
      | EV_TaskAdded t \<Rightarrow> apply_task_added w t
      | EV_HandoffAdded h \<Rightarrow> apply_handoff_added w h
      | EV_TaskHandoffAdded t h \<Rightarrow> apply_task_handoff_added w t h
      | EV_HandoffChanged before after \<Rightarrow> apply_handoff_changed w before after
      | EV_TaskCancelled t from before after \<Rightarrow> apply_task_cancelled w t from before after
      | EV_TaskResumed t from h \<Rightarrow> apply_task_resumed w t from h
      | EV_NodeAdded n \<Rightarrow> apply_node_added w n
      | EV_AgentNodeAdded a n \<Rightarrow> apply_agent_node_added w a n
      | EV_CanvasReplaced before after \<Rightarrow> apply_canvas_replaced w before after
      | EV_AgentStateChanged a from to \<Rightarrow> apply_agent_state_changed w a from to
      | EV_TaskStateChanged t from to \<Rightarrow> apply_task_state_changed w t from to
      | EV_RoutineAdded r \<Rightarrow> apply_routine_added w r
      | EV_RoutineVersionAdded r v \<Rightarrow> apply_version_added w r v
      | EV_RoutineChanged r fn tn fd td \<Rightarrow> apply_routine_changed w r fn tn fd td
      | EV_RoutineTriggerChanged r from to \<Rightarrow> apply_trigger_changed w r from to
      | EV_RoutineTriggerRemoved r t \<Rightarrow> apply_trigger_removed w r t
      | EV_RoutineRunStarted run firing next_at \<Rightarrow> apply_run_started w run firing next_at
      | EV_RoutineOccurrencesSkipped r t n next_at \<Rightarrow> apply_occurrences_skipped w r t n next_at
      | EV_RoutineRunAdvanced r t \<Rightarrow> apply_run_advanced w r t
      | EV_RoutineStepDispatched r s a t h \<Rightarrow> apply_step_dispatched w r s a t h)"

definition replay :: "workspace \<Rightarrow> timeline_event \<Rightarrow> workspace checked" where
  "replay w e =
     (if te_workspace e \<noteq> w_id w then Inl (DE_WorkspaceMismatch (te_id e) (w_id w) (te_workspace e))
      else apply_event w (te_event e))"

end
