(* ===== verification/Workspace_Execute.thy ===== *)
theory Workspace_Execute
  imports Workspace_Apply
begin

text \<open>
  \<open>Workspace::execute\<close> of \<open>src/domain/workspace.rs\<close>: a command becomes the event that records
  its outcome, and the event is applied. Replaying that event is all a restart needs.
\<close>

section \<open>From commands to events\<close>

definition decide_settings :: "workspace \<Rightarrow> workspace_settings \<Rightarrow> domain_event checked" where
  "decide_settings w s =
     (if s = w_settings w then Inl DE_UnchangedWorkspaceSettings
      else Inr (EV_WorkspaceSettingsChanged (w_settings w) s))"

definition decide_update_profile :: "workspace \<Rightarrow> environment_profile \<Rightarrow> domain_event checked" where
  "decide_update_profile w p =
     res_bind (get_or (w_profiles w) (env_id p) (ER_EnvironmentProfile (env_id p))) (\<lambda>current.
       if current = p then Inl DE_UnchangedEnvironmentProfile
       else Inr (EV_EnvironmentProfileChanged current p))"

definition decide_remove_profile ::
  "workspace \<Rightarrow> environment_profile_id \<Rightarrow> domain_event checked" where
  "decide_remove_profile w i =
     res_bind (get_or (w_profiles w) i (ER_EnvironmentProfile i))
       (\<lambda>p. Inr (EV_EnvironmentProfileRemoved p))"

definition decide_update_preset :: "workspace \<Rightarrow> command_preset \<Rightarrow> domain_event checked" where
  "decide_update_preset w p =
     res_bind (get_or (w_presets w) (preset_id p) (ER_CommandPreset (preset_id p))) (\<lambda>current.
       if current = p then Inl DE_UnchangedCommandPreset
       else Inr (EV_CommandPresetChanged current p))"

definition decide_remove_preset :: "workspace \<Rightarrow> command_preset_id \<Rightarrow> domain_event checked" where
  "decide_remove_preset w i =
     res_bind (get_or (w_presets w) i (ER_CommandPreset i)) (\<lambda>p. Inr (EV_CommandPresetRemoved p))"

definition decide_update_role :: "workspace \<Rightarrow> role \<Rightarrow> domain_event checked" where
  "decide_update_role w r =
     res_bind (get_or (w_roles w) (role_ident r) (ER_Role (role_ident r))) (\<lambda>current.
       if current = r then Inl DE_UnchangedRole else Inr (EV_RoleChanged current r))"

definition decide_remove_role :: "workspace \<Rightarrow> role_id \<Rightarrow> domain_event checked" where
  "decide_remove_role w i =
     res_bind (get_or (w_roles w) i (ER_Role i)) (\<lambda>r. Inr (EV_RoleRemoved r))"

text \<open>A command for an agent needs it active; archived agents refuse every command.\<close>

definition get_agent :: "workspace \<Rightarrow> agent_id \<Rightarrow> agent checked" where
  "get_agent w a = get_or (w_agents w) a (ER_Agent a)"

definition decide_assign_role :: "workspace \<Rightarrow> agent_id \<Rightarrow> role_id option \<Rightarrow> domain_event checked" where
  "decide_assign_role w a r =
     res_bind (get_agent w a) (\<lambda>x.
       if agent_role x = r then Inl DE_UnchangedAgentRole
       else Inr (EV_AgentRoleChanged a (agent_role x) r))"

definition decide_rename_agent :: "workspace \<Rightarrow> agent_id \<Rightarrow> name \<Rightarrow> domain_event checked" where
  "decide_rename_agent w a nm =
     res_bind (get_agent w a) (\<lambda>x. Inr (EV_AgentRenamed a (agent_name x) nm))"

definition decide_update_thread ::
  "workspace \<Rightarrow> chat_thread_id \<Rightarrow> name \<Rightarrow> thread_color \<Rightarrow> domain_event checked" where
  "decide_update_thread w t nm color =
     res_bind (get_thread w t) (\<lambda>x.
       if th_name x = nm \<and> th_color x = color then Inl DE_UnchangedChatThread
       else Inr (EV_ChatThreadChanged t (th_name x) nm (th_color x) color))"

definition decide_update_draft :: "workspace \<Rightarrow> chat_thread_id \<Rightarrow> chat_draft \<Rightarrow> domain_event checked" where
  "decide_update_draft w t d =
     res_bind (get_thread w t) (\<lambda>x.
       if th_draft x = d then Inl DE_UnchangedChatDraft
       else Inr (EV_ChatDraftChanged t (th_draft x) d))"

definition decide_submit_draft ::
  "workspace \<Rightarrow> chat_thread_id \<Rightarrow> chat_message_id \<Rightarrow> timestamp \<Rightarrow> domain_event checked" where
  "decide_submit_draft w t m at =
     res_bind (get_thread w t) (\<lambda>x.
     res_bind (map_err DE_InvalidChat (chat_message_from_draft m t (th_draft x) at)) (\<lambda>msg.
       Inr (EV_ChatDraftSubmitted t (th_draft x) msg)))"

definition decide_cancel_task ::
  "workspace \<Rightarrow> task_id \<Rightarrow> handoff \<Rightarrow> handoff \<Rightarrow> domain_event checked" where
  "decide_cancel_task w t before after =
     res_bind (get_or (w_tasks w) t (ER_Task t))
       (\<lambda>x. Inr (EV_TaskCancelled t (task_state x) before after))"

definition decide_resume_task :: "workspace \<Rightarrow> task_id \<Rightarrow> handoff \<Rightarrow> domain_event checked" where
  "decide_resume_task w t h =
     res_bind (get_or (w_tasks w) t (ER_Task t)) (\<lambda>x. Inr (EV_TaskResumed t (task_state x) h))"

definition decide_transition_agent ::
  "workspace \<Rightarrow> agent_id \<Rightarrow> agent_state \<Rightarrow> domain_event checked" where
  "decide_transition_agent w a to =
     res_bind (get_agent w a) (\<lambda>x. Inr (EV_AgentStateChanged a (agent_state x) to))"

definition decide_transition_task :: "workspace \<Rightarrow> task_id \<Rightarrow> task_state \<Rightarrow> domain_event checked" where
  "decide_transition_task w t to =
     res_bind (get_or (w_tasks w) t (ER_Task t)) (\<lambda>x. Inr (EV_TaskStateChanged t (task_state x) to))"

definition decide_update_routine ::
  "workspace \<Rightarrow> routine_id \<Rightarrow> name \<Rightarrow> content option \<Rightarrow> domain_event checked" where
  "decide_update_routine w r nm description =
     res_bind (get_routine w r) (\<lambda>x.
       if rt_name x = nm \<and> rt_description x = description then Inl DE_UnchangedRoutine
       else Inr (EV_RoutineChanged r (rt_name x) nm (rt_description x) description))"

definition decide_put_trigger :: "workspace \<Rightarrow> routine_id \<Rightarrow> routine_trigger \<Rightarrow> domain_event checked" where
  "decide_put_trigger w r t =
     res_bind (get_routine w r)
       (\<lambda>x. Inr (EV_RoutineTriggerChanged r (routine_trigger_of x (tr_id t)) t))"

definition decide_remove_trigger ::
  "workspace \<Rightarrow> routine_id \<Rightarrow> routine_trigger_id \<Rightarrow> domain_event checked" where
  "decide_remove_trigger w r t =
     res_bind (ok_or (Option.bind (bm_get (w_routines w) r) (\<lambda>x. routine_trigger_of x t))
                 (DE_EntityNotFound (ER_RoutineTrigger t)))
       (\<lambda>x. Inr (EV_RoutineTriggerRemoved r x))"

definition decide :: "workspace \<Rightarrow> domain_command \<Rightarrow> domain_event checked" where
  "decide w c =
     (case c of
        DC_ReplaceFloors before after \<Rightarrow> Inr (EV_FloorsChanged before after)
      | DC_UpdateWorkspaceSettings s \<Rightarrow> decide_settings w s
      | DC_AddEnvironmentProfile p \<Rightarrow> Inr (EV_EnvironmentProfileAdded p)
      | DC_UpdateEnvironmentProfile p \<Rightarrow> decide_update_profile w p
      | DC_RemoveEnvironmentProfile i \<Rightarrow> decide_remove_profile w i
      | DC_AddCommandPreset p \<Rightarrow> Inr (EV_CommandPresetAdded p)
      | DC_UpdateCommandPreset p \<Rightarrow> decide_update_preset w p
      | DC_RemoveCommandPreset i \<Rightarrow> decide_remove_preset w i
      | DC_AddRole r \<Rightarrow> Inr (EV_RoleAdded r)
      | DC_UpdateRole r \<Rightarrow> decide_update_role w r
      | DC_RemoveRole i \<Rightarrow> decide_remove_role w i
      | DC_AssignAgentRole a r \<Rightarrow> decide_assign_role w a r
      | DC_AddAgent a \<Rightarrow> Inr (EV_AgentAdded a)
      | DC_RenameAgent a nm \<Rightarrow> decide_rename_agent w a nm
      | DC_AddChatThread t \<Rightarrow> Inr (EV_ChatThreadAdded t)
      | DC_UpdateChatThread t nm color \<Rightarrow> decide_update_thread w t nm color
      | DC_AddChatAttachment a \<Rightarrow> Inr (EV_ChatAttachmentAdded a)
      | DC_UpdateChatDraft t d \<Rightarrow> decide_update_draft w t d
      | DC_SubmitChatDraft t m at \<Rightarrow> decide_submit_draft w t m at
      | DC_AppendAgentChatMessage m \<Rightarrow> Inr (EV_AgentChatMessageAppended m)
      | DC_AddTask t \<Rightarrow> Inr (EV_TaskAdded t)
      | DC_AddHandoff h \<Rightarrow> Inr (EV_HandoffAdded h)
      | DC_AddTaskHandoff t h \<Rightarrow> Inr (EV_TaskHandoffAdded t h)
      | DC_UpdateHandoff before after \<Rightarrow> Inr (EV_HandoffChanged before after)
      | DC_CancelTask t before after \<Rightarrow> decide_cancel_task w t before after
      | DC_ResumeTask t h \<Rightarrow> decide_resume_task w t h
      | DC_AddNode n \<Rightarrow> Inr (EV_NodeAdded n)
      | DC_AddAgentNode a n \<Rightarrow> Inr (EV_AgentNodeAdded a n)
      | DC_ReplaceCanvas before after \<Rightarrow> Inr (EV_CanvasReplaced before after)
      | DC_TransitionAgent a to \<Rightarrow> decide_transition_agent w a to
      | DC_TransitionTask t to \<Rightarrow> decide_transition_task w t to
      | DC_AddRoutine r \<Rightarrow> Inr (EV_RoutineAdded r)
      | DC_AddRoutineVersion r v \<Rightarrow> Inr (EV_RoutineVersionAdded r v)
      | DC_UpdateRoutine r nm description \<Rightarrow> decide_update_routine w r nm description
      | DC_PutRoutineTrigger r t \<Rightarrow> decide_put_trigger w r t
      | DC_RemoveRoutineTrigger r t \<Rightarrow> decide_remove_trigger w r t
      | DC_StartRoutineRun run firing next_at \<Rightarrow> Inr (EV_RoutineRunStarted run firing next_at)
      | DC_SkipRoutineOccurrences r t n next_at \<Rightarrow> Inr (EV_RoutineOccurrencesSkipped r t n next_at)
      | DC_AdvanceRoutineRun r t \<Rightarrow> Inr (EV_RoutineRunAdvanced r t)
      | DC_DispatchRoutineStep r s a t h \<Rightarrow> Inr (EV_RoutineStepDispatched r s a t h))"

definition execute :: "workspace \<Rightarrow> domain_command \<Rightarrow> (workspace \<times> domain_event) checked" where
  "execute w c =
     res_bind (decide w c) (\<lambda>e. res_bind (apply_event w e) (\<lambda>w'. Inr (w', e)))"

end
