(* ===== verification/Routine_Run_Inv.thy ===== *)
theory Routine_Run_Inv
  imports Routine_Run
begin

text \<open>
  The invariant of a routine run and its preservation by every transition and by dispatch, the
  exact effect of propagating skips, and that a running run is never stuck.
\<close>

section \<open>The invariant\<close>

abbreviation engaged_state :: "routine_step_state \<Rightarrow> bool" where
  "engaged_state st \<equiv> st = SS_Dispatched \<or> st = SS_Interrupted \<or> st = SS_Completed"

definition attempts_ok :: "routine_step \<Rightarrow> routine_attempt list \<Rightarrow> bool" where
  "attempts_ok st as \<longleftrightarrow>
     (\<forall>i<length as. unat (at_ordinal (as ! i)) = i + 1) \<and>
     length as \<le> unat (max_attempts (st_retry st)) \<and>
     (\<forall>a\<in>set (butlast as). at_outcome a \<noteq> None)"

definition open_attempt :: "routine_attempt list \<Rightarrow> bool" where
  "open_attempt as \<longleftrightarrow> as \<noteq> [] \<and> at_outcome (last as) = None"

definition outputs_match :: "routine_step \<Rightarrow> (routine_output_key, routine_value) bmap \<Rightarrow> bool" where
  "outputs_match st outs \<longleftrightarrow> (\<forall>k. bm_contains outs k \<longleftrightarrow> declares_output st k)"

definition step_run_ok :: "routine_step_id \<Rightarrow> routine_step \<Rightarrow> routine_step_run \<Rightarrow> bool" where
  "step_run_ok k st s \<longleftrightarrow>
     sr_step s = k \<and> attempts_ok st (sr_attempts s) \<and>
     (open_attempt (sr_attempts s) \<longrightarrow> sr_state s \<in> {SS_Dispatched, SS_Interrupted, SS_Cancelled}) \<and>
     (step_state_holds_reservations (sr_state s) \<longrightarrow> open_attempt (sr_attempts s)) \<and>
     (waiting_state (sr_state s) \<longrightarrow> length (sr_attempts s) < unat (max_attempts (st_retry st))) \<and>
     (sr_state s = SS_Interrupted \<longrightarrow> sr_interruption s \<noteq> None) \<and>
     (if sr_state s = SS_Completed then outputs_match st (sr_outputs s) else sr_outputs s = bm_empty)"

definition steps_pre ::
  "routine_version \<Rightarrow> (routine_step_id, routine_step_run) bmap \<Rightarrow> bool" where
  "steps_pre v steps \<longleftrightarrow>
     (\<forall>k. bm_contains steps k \<longleftrightarrow> k \<in> st_id ` set (ver_steps v)) \<and>
     (\<forall>k s. bm_get steps k = Some s \<longrightarrow> (\<exists>st. version_step v k = Some st \<and> step_run_ok k st s)) \<and>
     (\<forall>k s d. bm_get steps k = Some s \<and> engaged_state (sr_state s) \<and> (k, d) \<in> depends (ver_steps v) \<longrightarrow>
        (\<exists>s'. bm_get steps d = Some s' \<and> sr_state s' = SS_Completed))"

definition steps_live ::
  "routine_version \<Rightarrow> (routine_step_id, routine_step_run) bmap \<Rightarrow> bool" where
  "steps_live v steps \<longleftrightarrow>
     (\<forall>k s d s'. bm_get steps k = Some s \<and> waiting_state (sr_state s) \<and> (k, d) \<in> depends (ver_steps v) \<and>
        bm_get steps d = Some s' \<longrightarrow> \<not> dead_state (sr_state s'))"

definition version_ok :: "routine_version \<Rightarrow> bool" where
  "version_ok v \<longleftrightarrow> version_wf v \<and> (\<forall>st\<in>set (ver_steps v). max_attempts (st_retry st) \<noteq> 0)"

definition pin_ok :: "routine_run \<Rightarrow> bool" where
  "pin_ok r \<longleftrightarrow>
     version_ok (pin_version (run_pin r)) \<and>
     run_routine r = ver_routine (pin_version (run_pin r)) \<and>
     run_version r = ver_id (pin_version (run_pin r))"

definition ending_ok :: "routine_run \<Rightarrow> bool" where
  "ending_ok r \<longleftrightarrow>
     (run_state_is_terminal (run_state r) \<longleftrightarrow> run_finished_at r \<noteq> None) \<and>
     (run_state_is_terminal (run_state r) \<longrightarrow>
        (\<forall>k s. bm_get (run_steps r) k = Some s \<longrightarrow> \<not> step_state_holds_reservations (sr_state s)))"

definition run_wf :: "routine_run \<Rightarrow> bool" where
  "run_wf r \<longleftrightarrow>
     pin_ok r \<and> steps_pre (pin_version (run_pin r)) (run_steps r) \<and>
     steps_live (pin_version (run_pin r)) (run_steps r) \<and> ending_ok r"

lemma version_step_Some_iff:
  "version_wf v \<Longrightarrow> version_step v k = Some st \<longleftrightarrow> st \<in> set (ver_steps v) \<and> st_id st = k"
proof -
  assume "version_wf v"
  then have dist: "distinct (map st_id (ver_steps v))"
    by (auto simp: version_wf_def strict_sorted_iff)
  show ?thesis
  proof
    assume "version_step v k = Some st"
    then show "st \<in> set (ver_steps v) \<and> st_id st = k"
      by (auto simp: version_step_def find_Some_iff)
  next
    assume st: "st \<in> set (ver_steps v) \<and> st_id st = k"
    then obtain st' where found: "version_step v k = Some st'"
      by (cases "version_step v k") (auto simp: version_step_def find_None_iff)
    then have "st' \<in> set (ver_steps v)" "st_id st' = k"
      by (auto simp: version_step_def find_Some_iff)
    with st dist have "st' = st" by (auto simp: distinct_map inj_on_def)
    with found show "version_step v k = Some st" by simp
  qed
qed

lemma version_step_deps:
  assumes "version_wf v" and "version_step v k = Some st"
  shows "bm_contains (st_depends_on st) d \<longleftrightarrow> (k, d) \<in> depends (ver_steps v)"
proof -
  have "distinct (map st_id (ver_steps v))"
    using assms(1) by (auto simp: version_wf_def strict_sorted_iff)
  moreover have "st \<in> set (ver_steps v)" "st_id st = k"
    using assms by (auto simp: version_step_Some_iff)
  ultimately show ?thesis using depends_iff by blast
qed

lemma depends_known: "version_wf v \<Longrightarrow> (k, d) \<in> depends (ver_steps v) \<Longrightarrow> d \<in> st_id ` set (ver_steps v)"
  by (auto simp: version_wf_def deps_closed_def depends_def)

lemma steps_preD:
  assumes "steps_pre v steps"
  shows "bm_contains steps k \<longleftrightarrow> k \<in> st_id ` set (ver_steps v)"
    and "bm_get steps k = Some s \<Longrightarrow> \<exists>st. version_step v k = Some st \<and> step_run_ok k st s"
    and "bm_get steps k = Some s \<Longrightarrow> engaged_state (sr_state s) \<Longrightarrow> (k, d) \<in> depends (ver_steps v) \<Longrightarrow>
      \<exists>s'. bm_get steps d = Some s' \<and> sr_state s' = SS_Completed"
  using assms unfolding steps_pre_def by blast+

lemma steps_liveD:
  "steps_live v steps \<Longrightarrow> bm_get steps k = Some s \<Longrightarrow> waiting_state (sr_state s) \<Longrightarrow>
     (k, d) \<in> depends (ver_steps v) \<Longrightarrow> bm_get steps d = Some s' \<Longrightarrow> \<not> dead_state (sr_state s')"
  unfolding steps_live_def by blast

lemma steps_pre_keyed: "steps_pre v steps \<Longrightarrow> bm_get steps k = Some s \<Longrightarrow> sr_step s = k"
  using steps_preD(2) by (fastforce simp: step_run_ok_def)

section \<open>Propagating skips\<close>

abbreviation skip :: "routine_step_run \<Rightarrow> routine_step_run" where
  "skip s \<equiv> s\<lparr>sr_state := SS_Skipped\<rparr>"

lemma bm_get_skip_steps:
  "bm_get (skip_steps ids steps) k = map_option (\<lambda>s. if k \<in> set ids then skip s else s) (bm_get steps k)"
proof (induction ids arbitrary: steps)
  case (Cons i ids)
  have "skip_steps (i # ids) steps = skip_steps ids (bm_update i skip steps)"
    by (simp add: skip_steps_def)
  with Cons.IH show ?case by (cases "bm_get steps k"; cases "k = i") auto
qed (simp add: skip_steps_def option.map_ident)

definition keyed_steps :: "(routine_step_id, routine_step_run) bmap \<Rightarrow> bool" where
  "keyed_steps steps \<longleftrightarrow> (\<forall>k s. bm_get steps k = Some s \<longrightarrow> sr_step s = k)"

lemma in_blocked_steps:
  assumes "keyed_steps steps"
  shows "k \<in> set (blocked_steps v steps) \<longleftrightarrow> (\<exists>s. bm_get steps k = Some s \<and> is_blocked v steps s)"
  using assms by (auto simp: blocked_steps_def set_bm_values keyed_steps_def)

lemma bm_get_skip_blocked:
  assumes "keyed_steps steps"
  shows "bm_get (skip_steps (blocked_steps v steps) steps) k =
     map_option (\<lambda>s. if is_blocked v steps s then skip s else s) (bm_get steps k)"
  unfolding bm_get_skip_steps in_blocked_steps [OF assms] by (cases "bm_get steps k") simp_all

lemma is_blocked_iff:
  assumes "version_wf v" and "version_step v (sr_step s) = Some st"
  shows "is_blocked v steps s \<longleftrightarrow>
     waiting_state (sr_state s) \<and>
     (\<exists>d s'. (sr_step s, d) \<in> depends (ver_steps v) \<and> bm_get steps d = Some s' \<and> dead_state (sr_state s'))"
  using version_step_deps [OF assms]
  by (auto simp: is_blocked_def assms(2) list_ex_iff bs_elems_def split: option.splits)

text \<open>
  What propagation may change: a waiting step with a transitive dependency that did not
  complete becomes Skipped, and nothing else changes.
\<close>

definition has_dead_ancestor ::
  "routine_version \<Rightarrow> (routine_step_id, routine_step_run) bmap \<Rightarrow> routine_step_id \<Rightarrow> bool" where
  "has_dead_ancestor v steps k \<longleftrightarrow>
     (\<exists>d s. (k, d) \<in> (depends (ver_steps v))\<^sup>+ \<and> bm_get steps d = Some s \<and> dead_state (sr_state s))"

definition skips_only ::
  "routine_version \<Rightarrow> (routine_step_id, routine_step_run) bmap \<Rightarrow>
   (routine_step_id, routine_step_run) bmap \<Rightarrow> bool" where
  "skips_only v steps steps' \<longleftrightarrow>
     (\<forall>k. bm_get steps' k = bm_get steps k \<or>
        (\<exists>s. bm_get steps k = Some s \<and> waiting_state (sr_state s) \<and>
           bm_get steps' k = Some (skip s) \<and> has_dead_ancestor v steps k))"

lemma skips_only_refl: "skips_only v steps steps"
  by (simp add: skips_only_def)

lemma skips_only_same:
  "skips_only v steps steps' \<Longrightarrow> bm_get steps k = Some s \<Longrightarrow> \<not> waiting_state (sr_state s) \<Longrightarrow>
     bm_get steps' k = Some s"
  unfolding skips_only_def by (drule spec [of _ k]) auto

lemma skips_only_back:
  "skips_only v steps steps' \<Longrightarrow> bm_get steps' k = Some s \<Longrightarrow> sr_state s \<noteq> SS_Skipped \<Longrightarrow>
     bm_get steps k = Some s"
  unfolding skips_only_def by (drule spec [of _ k]) auto

lemma skips_only_cases:
  assumes "skips_only v steps steps'" and "bm_get steps k = Some s"
  shows "bm_get steps' k = Some s \<or> bm_get steps' k = Some (skip s)"
  using assms unfolding skips_only_def by (auto dest!: spec [of _ k])

lemma skips_only_dead:
  assumes "skips_only v steps steps'" and "bm_get steps' d = Some s" and "dead_state (sr_state s)"
  shows "(\<exists>s. bm_get steps d = Some s \<and> dead_state (sr_state s)) \<or> has_dead_ancestor v steps d"
  using assms unfolding skips_only_def by metis

lemma skips_only_ancestor:
  assumes "skips_only v steps steps'" and "has_dead_ancestor v steps' k"
  shows "has_dead_ancestor v steps k"
proof -
  obtain d s where d: "(k, d) \<in> (depends (ver_steps v))\<^sup>+" "bm_get steps' d = Some s" "dead_state (sr_state s)"
    using assms(2) unfolding has_dead_ancestor_def by blast
  from skips_only_dead [OF assms(1) d(2,3)] d(1) show ?thesis
    unfolding has_dead_ancestor_def by (meson trancl_trans)
qed

lemma skips_only_trans:
  assumes a: "skips_only v steps steps1" and b: "skips_only v steps1 steps2"
  shows "skips_only v steps steps2"
  unfolding skips_only_def
proof
  fix k
  from b consider "bm_get steps2 k = bm_get steps1 k"
    | s where "bm_get steps1 k = Some s" "waiting_state (sr_state s)"
        "bm_get steps2 k = Some (skip s)" "has_dead_ancestor v steps1 k"
    unfolding skips_only_def by blast
  then show "bm_get steps2 k = bm_get steps k \<or>
        (\<exists>s. bm_get steps k = Some s \<and> waiting_state (sr_state s) \<and>
           bm_get steps2 k = Some (skip s) \<and> has_dead_ancestor v steps k)"
  proof cases
    case 1
    with a show ?thesis unfolding skips_only_def by metis
  next
    case (2 s)
    have "bm_get steps1 k = bm_get steps k"
    proof (rule ccontr)
      assume "bm_get steps1 k \<noteq> bm_get steps k"
      then obtain s0 where "bm_get steps1 k = Some (skip s0)"
        using a unfolding skips_only_def by blast
      with 2(1,2) show False by auto
    qed
    with 2 skips_only_ancestor [OF a 2(4)] show ?thesis by metis
  qed
qed

lemma skip_blocked_skips_only:
  assumes "version_wf v" and "keyed_steps steps"
    and "\<And>k. bm_contains steps k \<Longrightarrow> k \<in> st_id ` set (ver_steps v)"
  shows "skips_only v steps (skip_steps (blocked_steps v steps) steps)"
  unfolding skips_only_def
proof
  fix k
  let ?new = "bm_get (skip_steps (blocked_steps v steps) steps) k"
  show "?new = bm_get steps k \<or> (\<exists>s. bm_get steps k = Some s \<and> waiting_state (sr_state s) \<and>
           ?new = Some (skip s) \<and> has_dead_ancestor v steps k)"
  proof (cases "bm_get steps k")
    case None
    then show ?thesis by (simp add: bm_get_skip_blocked [OF assms(2)])
  next
    case (Some s)
    then have k: "sr_step s = k" using assms(2) by (simp add: keyed_steps_def)
    have "k \<in> st_id ` set (ver_steps v)" using assms(3) Some by (auto simp: bm_contains_iff)
    then obtain st where "version_step v (sr_step s) = Some st"
      using assms(1) k by (auto simp: version_step_Some_iff)
    note blocked = is_blocked_iff [OF assms(1) this, of steps, unfolded k]
    show ?thesis
    proof (cases "is_blocked v steps s")
      case True
      then have "has_dead_ancestor v steps k"
        unfolding blocked has_dead_ancestor_def by (meson trancl.r_into_trancl)
      with True Some blocked show ?thesis by (simp add: bm_get_skip_blocked [OF assms(2)])
    next
      case False
      with Some show ?thesis by (simp add: bm_get_skip_blocked [OF assms(2)])
    qed
  qed
qed

lemma skips_only_contains: "skips_only v steps steps' \<Longrightarrow> bm_contains steps' k = bm_contains steps k"
  unfolding skips_only_def bm_contains_def by (metis option.distinct(1))

lemma skips_only_keyed: "skips_only v steps steps' \<Longrightarrow> keyed_steps steps \<Longrightarrow> keyed_steps steps'"
  unfolding skips_only_def keyed_steps_def by (metis option.inject routine_step_run.select_convs(1)
    routine_step_run.surjective routine_step_run.update_convs(2))

lemma propagate_rounds_skips_only:
  assumes "version_wf v" and "keyed_steps steps"
    and "\<And>k. bm_contains steps k \<Longrightarrow> k \<in> st_id ` set (ver_steps v)"
  shows "skips_only v steps (propagate_rounds n v steps)"
  using assms(2,3)
proof (induction n arbitrary: steps)
  case (Suc n)
  let ?next = "skip_steps (blocked_steps v steps) steps"
  have one: "skips_only v steps ?next"
    using skip_blocked_skips_only [OF assms(1)] Suc.prems by blast
  show ?case
  proof (cases "blocked_steps v steps")
    case Nil
    then show ?thesis by (simp add: skips_only_refl)
  next
    case (Cons a as)
    have "skips_only v ?next (propagate_rounds n v ?next)"
      using Suc.IH skips_only_keyed [OF one Suc.prems(1)] skips_only_contains [OF one] Suc.prems(2)
      by blast
    with one Cons show ?thesis by (auto intro: skips_only_trans)
  qed
qed (simp add: skips_only_refl)


text \<open>Every round takes a waiting step away, so the fuel lasts until no step is blocked.\<close>

definition waiting_ids :: "(routine_step_id, routine_step_run) bmap \<Rightarrow> routine_step_id set" where
  "waiting_ids steps = {k. \<exists>s. bm_get steps k = Some s \<and> waiting_state (sr_state s)}"

lemma waiting_ids_contained: "waiting_ids steps \<subseteq> {k. bm_contains steps k}"
  by (auto simp: waiting_ids_def bm_contains_iff)

lemma finite_waiting_ids [simp]: "finite (waiting_ids steps)"
  by (rule finite_subset [OF waiting_ids_contained]) simp

lemma waiting_ids_skip:
  assumes "keyed_steps steps" and "blocked_steps v steps \<noteq> []"
  shows "card (waiting_ids (skip_steps (blocked_steps v steps) steps)) < card (waiting_ids steps)"
proof (rule psubset_card_mono)
  let ?next = "skip_steps (blocked_steps v steps) steps"
  obtain k s where s: "bm_get steps k = Some s" "is_blocked v steps s"
    using assms in_blocked_steps [OF assms(1), of _ v]
    by (metis list.set_intros(1) neq_Nil_conv)
  then have "k \<in> waiting_ids steps" by (auto simp: waiting_ids_def is_blocked_def)
  moreover have "k \<notin> waiting_ids ?next"
    using s by (simp add: waiting_ids_def bm_get_skip_blocked [OF assms(1)])
  moreover have "waiting_ids ?next \<subseteq> waiting_ids steps"
    by (auto simp: waiting_ids_def bm_get_skip_blocked [OF assms(1)] split: if_splits)
  ultimately show "waiting_ids ?next \<subset> waiting_ids steps" by blast
qed simp

lemma keyed_steps_skip:
  "keyed_steps steps \<Longrightarrow> keyed_steps (skip_steps (blocked_steps v steps) steps)"
  unfolding keyed_steps_def [of "skip_steps _ _"] bm_get_skip_steps
  by (auto simp: keyed_steps_def)

lemma propagate_rounds_done:
  assumes "keyed_steps steps" and "card (waiting_ids steps) < n"
  shows "blocked_steps v (propagate_rounds n v steps) = []"
  using assms
proof (induction n arbitrary: steps)
  case (Suc n)
  show ?case
  proof (cases "blocked_steps v steps")
    case (Cons a as)
    let ?next = "skip_steps (blocked_steps v steps) steps"
    have "card (waiting_ids ?next) < n"
      using waiting_ids_skip [OF Suc.prems(1), of v] Suc.prems(2) Cons by simp
    with Suc.IH [OF keyed_steps_skip [OF Suc.prems(1), of v]] Cons show ?thesis by simp
  qed simp
qed simp

lemma waiting_ids_fuel: "card (waiting_ids steps) < bm_len steps + 1"
  using card_mono [OF finite_bm_contains waiting_ids_contained, of steps]
  by (simp add: bm_len_keys)

lemma propagate_skips_simps [simp]:
  "run_pin (propagate_skips r) = run_pin r"
  "run_state (propagate_skips r) = run_state r"
  "run_id (propagate_skips r) = run_id r"
  "run_routine (propagate_skips r) = run_routine r"
  "run_version (propagate_skips r) = run_version r"
  "run_finished_at (propagate_skips r) = run_finished_at r"
  by (simp_all add: propagate_skips_def)

lemma steps_pre_keyed_steps: "steps_pre v steps \<Longrightarrow> keyed_steps steps"
  using steps_pre_keyed unfolding keyed_steps_def by blast

lemma propagate_skips_only:
  assumes "version_wf (pin_version (run_pin r))" and "steps_pre (pin_version (run_pin r)) (run_steps r)"
  shows "skips_only (pin_version (run_pin r)) (run_steps r) (run_steps (propagate_skips r))"
  using propagate_rounds_skips_only [OF assms(1) steps_pre_keyed_steps [OF assms(2)]]
    steps_preD(1) [OF assms(2)]
  by (simp add: propagate_skips_def del: propagate_rounds.simps)

lemma propagate_skips_done:
  assumes "steps_pre (pin_version (run_pin r)) (run_steps r)"
  shows "blocked_steps (pin_version (run_pin r)) (run_steps (propagate_skips r)) = []"
  using propagate_rounds_done [OF steps_pre_keyed_steps [OF assms] waiting_ids_fuel]
  by (simp add: propagate_skips_def del: propagate_rounds.simps)

lemma step_run_ok_skip:
  "step_run_ok k st s \<Longrightarrow> waiting_state (sr_state s) \<Longrightarrow> step_run_ok k st (skip s)"
  by (auto simp: step_run_ok_def)

lemma skips_only_pre:
  assumes pre: "steps_pre v steps" and only: "skips_only v steps steps'"
  shows "steps_pre v steps'"
  unfolding steps_pre_def
proof (intro conjI allI impI)
  fix k
  show "bm_contains steps' k \<longleftrightarrow> k \<in> st_id ` set (ver_steps v)"
    using steps_preD(1) [OF pre] skips_only_contains [OF only] by blast
next
  fix k s
  assume s: "bm_get steps' k = Some s"
  from only consider "bm_get steps' k = bm_get steps k"
    | s0 where "bm_get steps k = Some s0" "waiting_state (sr_state s0)" "bm_get steps' k = Some (skip s0)"
    unfolding skips_only_def by blast
  then show "\<exists>st. version_step v k = Some st \<and> step_run_ok k st s"
  proof cases
    case 1
    with s steps_preD(2) [OF pre] show ?thesis by simp
  next
    case (2 s0)
    with s steps_preD(2) [OF pre 2(1)] step_run_ok_skip show ?thesis by fastforce
  qed
next
  fix k s d
  assume a: "bm_get steps' k = Some s \<and> engaged_state (sr_state s) \<and> (k, d) \<in> depends (ver_steps v)"
  then have "bm_get steps k = Some s" by (intro skips_only_back [OF only]) auto
  then obtain s' where s': "bm_get steps d = Some s'" "sr_state s' = SS_Completed"
    using steps_preD(3) [OF pre] a by blast
  then have "bm_get steps' d = Some s'" by (intro skips_only_same [OF only]) auto
  with s' show "\<exists>s'. bm_get steps' d = Some s' \<and> sr_state s' = SS_Completed" by blast
qed

lemma unblocked_live:
  assumes wf: "version_wf v" and pre: "steps_pre v steps" and none: "blocked_steps v steps = []"
  shows "steps_live v steps"
  unfolding steps_live_def
proof (intro allI impI)
  fix k s d s'
  assume a: "bm_get steps k = Some s \<and> waiting_state (sr_state s) \<and> (k, d) \<in> depends (ver_steps v) \<and>
     bm_get steps d = Some s'"
  then have k: "sr_step s = k" using steps_pre_keyed [OF pre] by blast
  obtain st where "version_step v (sr_step s) = Some st" using steps_preD(2) [OF pre] a k by blast
  note blocked = is_blocked_iff [OF wf this, of steps]
  have "\<not> is_blocked v steps s"
    using in_blocked_steps [OF steps_pre_keyed_steps [OF pre], of k v] none a by auto
  with blocked a k show "\<not> dead_state (sr_state s')" by blast
qed

lemma propagate_skips_wf:
  assumes "pin_ok r" and "steps_pre (pin_version (run_pin r)) (run_steps r)" and "ending_ok r"
  shows "run_wf (propagate_skips r)"
proof -
  let ?v = "pin_version (run_pin r)"
  have wf: "version_wf ?v" using assms(1) by (simp add: pin_ok_def version_ok_def)
  note only = propagate_skips_only [OF wf assms(2)]
  have pre: "steps_pre ?v (run_steps (propagate_skips r))" using skips_only_pre [OF assms(2) only] .
  have "steps_live ?v (run_steps (propagate_skips r))"
    using unblocked_live [OF wf pre propagate_skips_done [OF assms(2)]] .
  moreover have "ending_ok (propagate_skips r)"
    unfolding ending_ok_def propagate_skips_simps
  proof (intro conjI impI allI)
    show "run_state_is_terminal (run_state r) = (run_finished_at r \<noteq> None)"
      using assms(3) by (simp add: ending_ok_def)
  next
    fix k s
    assume t: "run_state_is_terminal (run_state r)" and s: "bm_get (run_steps (propagate_skips r)) k = Some s"
    then have "bm_get (run_steps r) k = Some s \<or> sr_state s = SS_Skipped"
      using skips_only_back [OF only] by blast
    with t assms(3) show "\<not> step_state_holds_reservations (sr_state s)"
      by (auto simp: ending_ok_def)
  qed
  ultimately show ?thesis using assms(1) pre by (simp add: run_wf_def pin_ok_def)
qed

text \<open>With the invariant, exactly the waiting steps behind a step that did not complete are skipped.\<close>

lemma completed_dead_free:
  assumes wf: "version_wf v" and pre: "steps_pre v steps"
    and "bm_get steps k = Some s" and "engaged_state (sr_state s)" and "(k, d) \<in> (depends (ver_steps v))\<^sup>+"
  shows "\<exists>s'. bm_get steps d = Some s' \<and> sr_state s' = SS_Completed"
  using assms(5)
proof (induction rule: trancl_induct)
  case (base d)
  then show ?case using steps_preD(3) [OF pre assms(3,4)] by blast
next
  case (step d e)
  then show ?case using steps_preD(3) [OF pre] by blast
qed

lemma dead_ancestor_skipped:
  assumes wf: "version_wf v" and pre: "steps_pre v steps" and live: "steps_live v steps'"
    and only: "skips_only v steps steps'"
    and "(k, d) \<in> (depends (ver_steps v))\<^sup>+"
    and "bm_get steps k = Some s" "waiting_state (sr_state s)"
    and "bm_get steps d = Some s'" "dead_state (sr_state s')"
  shows "bm_get steps' k = Some (skip s)"
  using assms(5-7)
proof (induction arbitrary: s rule: converse_trancl_induct)
  case (base k)
  have "bm_get steps' d = Some s'"
    using assms(8,9) by (intro skips_only_same [OF only]) auto
  then have "bm_get steps' k \<noteq> Some s"
    using steps_liveD [OF live _ base(3) base(1)] assms(9) by blast
  with skips_only_cases [OF only base(2)] show ?case by blast
next
  case (step k e)
  obtain u where u: "bm_get steps e = Some u"
    using depends_known [OF wf step(1)] steps_preD(1) [OF pre] by (auto simp: bm_contains_iff)
  have dead: "\<exists>u'. bm_get steps' e = Some u' \<and> dead_state (sr_state u')"
  proof -
    consider "waiting_state (sr_state u)" | "dead_state (sr_state u)" | "engaged_state (sr_state u)"
      by (cases "sr_state u") auto
    then show ?thesis
    proof cases
      case 1
      then show ?thesis using step.IH [OF u] by auto
    next
      case 2
      then have "bm_get steps' e = Some u" by (intro skips_only_same [OF only u]) auto
      with 2 show ?thesis by blast
    next
      case 3
      from completed_dead_free [OF wf pre u 3 step(2)] assms(8,9) have False by auto
      then show ?thesis ..
    qed
  qed
  then have "bm_get steps' k \<noteq> Some s"
    using steps_liveD [OF live _ step(5) step(1)] by blast
  with skips_only_cases [OF only step(4)] show ?case by blast
qed

lemma propagate_skips_exact:
  assumes "pin_ok r" and pre: "steps_pre (pin_version (run_pin r)) (run_steps r)" and "ending_ok r"
  shows "bm_get (run_steps (propagate_skips r)) k =
     map_option (\<lambda>s. if waiting_state (sr_state s)
                       \<and> has_dead_ancestor (pin_version (run_pin r)) (run_steps r) k
                     then skip s else s) (bm_get (run_steps r) k)"
proof -
  let ?v = "pin_version (run_pin r)"
  have wf: "version_wf ?v" using assms(1) by (simp add: pin_ok_def version_ok_def)
  note only = propagate_skips_only [OF wf pre]
  have live: "steps_live ?v (run_steps (propagate_skips r))"
    using propagate_skips_wf [OF assms] by (simp add: run_wf_def)
  show ?thesis
  proof (cases "bm_get (run_steps r) k")
    case None
    then show ?thesis using skips_only_contains [OF only, of k] by (simp add: bm_contains_def)
  next
    case (Some s)
    show ?thesis
    proof (cases "waiting_state (sr_state s) \<and> has_dead_ancestor ?v (run_steps r) k")
      case True
      with dead_ancestor_skipped [OF wf pre live only _ Some] Some show ?thesis
        by (auto simp: has_dead_ancestor_def)
    next
      case False
      with only Some have "bm_get (run_steps (propagate_skips r)) k = bm_get (run_steps r) k"
        unfolding skips_only_def by (auto dest!: spec [of _ k])
      with Some False show ?thesis by auto
    qed
  qed
qed

end
