(* ===== verification/Routine_Run_Steps.thy ===== *)
theory Routine_Run_Steps
  imports Routine_Run_Inv
begin

text \<open>
  Every operation of a run keeps \<^const>\<open>run_wf\<close>, and a run that is Running always has a next
  move. A fact \<open>op_Inr_iff\<close> says when an operation succeeds and what it returns.
\<close>

section \<open>When the operations succeed\<close>

lemma step_mut_Inr_iff [result_iff]: "step_mut r sid = Inr s \<longleftrightarrow> bm_get (run_steps r) sid = Some s"
  by (simp add: step_mut_def result_iff)

lemma pinned_step_Inr_iff [result_iff]:
  "pinned_step r sid = Inr st \<longleftrightarrow> version_step (pin_version (run_pin r)) sid = Some st"
  by (simp add: pinned_step_def result_iff)

lemma expect_state_Inr_iff [result_iff]: "expect_state s st act = Inr u \<longleftrightarrow> sr_state s = st"
  by (simp add: expect_state_def result_iff)

lemma finish_attempt_Inr_iff:
  "finish_attempt oc at s = Inr s' \<longleftrightarrow>
     open_attempt (sr_attempts s) \<and> at_started_at (last (sr_attempts s)) \<le> at \<and>
     s' = s\<lparr>sr_attempts := butlast (sr_attempts s) @
            [(last (sr_attempts s))\<lparr>at_outcome := Some oc, at_finished_at := Some at\<rparr>]\<rparr>"
  by (auto simp: finish_attempt_def attempt_finish_def open_attempt_def)

lemma require_approval_Inr_iff:
  "require_approval sid r = Inr r' \<longleftrightarrow>
     (\<exists>s. bm_get (run_steps r) sid = Some s \<and> sr_state s = SS_Pending \<and>
        r' = put_step sid (s\<lparr>sr_state := SS_AwaitingApproval\<rparr>) r)"
  by (auto simp: require_approval_def result_iff)

lemma dispatch_Inr_iff:
  "dispatch sid attempt r = Inr r' \<longleftrightarrow>
     (\<exists>st s. version_step (pin_version (run_pin r)) sid = Some st \<and> run_state r = RS_Running \<and>
        dependencies_completed r sid \<and> bm_get (run_steps r) sid = Some s \<and> sr_state s = SS_Pending \<and>
        unat (at_ordinal attempt) = length (sr_attempts s) + 1 \<and>
        at_ordinal attempt \<le> max_attempts (st_retry st) \<and>
        r' = put_step sid (s\<lparr>sr_attempts := sr_attempts s @ [attempt],
                             sr_state := SS_Dispatched\<rparr>) r)"
  by (auto simp: dispatch_def Let_def res_bind_Inr_iff pinned_step_Inr_iff step_mut_Inr_iff
      expect_state_Inr_iff ok_or_Inr_iff next_ordinal_Some_iff not_less)

lemma outputs_match_find:
  "outputs_match st outs \<longleftrightarrow>
      List.find (\<lambda>k. \<not> bm_contains (st_outputs st) k) (bm_keys outs) = None \<and>
      List.find (\<lambda>k. \<not> bm_contains outs k) (bm_keys (st_outputs st)) = None"
proof -
  have find: "List.find (\<lambda>k. \<not> bm_contains b k) (bm_keys a) = None \<longleftrightarrow>
      (\<forall>k. bm_contains a k \<longrightarrow> bm_contains b k)" for a :: "(routine_output_key, 'x) bmap"
      and b :: "(routine_output_key, 'y) bmap"
    unfolding find_None_iff using set_bm_keys by fast
  show ?thesis unfolding find outputs_match_def declares_output_def by blast
qed

lemma complete_step_Inr_iff:
  "complete_step sid outs at r = Inr r' \<longleftrightarrow>
     (\<exists>st. version_step (pin_version (run_pin r)) sid = Some st \<and> outputs_match st outs \<and>
       (\<exists>s. bm_get (run_steps r) sid = Some s \<and> sr_state s = SS_Dispatched \<and>
         (\<exists>s'. finish_attempt AO_Completed at s = Inr s' \<and>
            put_step sid (s'\<lparr>sr_outputs := outs, sr_state := SS_Completed\<rparr>) r = r')))"
  unfolding complete_step_def Let_def res_bind_Inr_iff [of "pinned_step _ _"] pinned_step_Inr_iff
proof (intro ex_cong1 conj_cong refl)
  fix st
  show "((case List.find (\<lambda>k. \<not> bm_contains (st_outputs st) k) (bm_keys outs) of
         None \<Rightarrow>
           (case List.find (\<lambda>k. \<not> bm_contains outs k) (bm_keys (st_outputs st)) of
              None \<Rightarrow>
                res_bind (step_mut r sid) (\<lambda>s.
                res_bind (expect_state s SS_Dispatched ''complete'') (\<lambda>_.
                res_bind (finish_attempt AO_Completed at s) (\<lambda>s.
                  Inr (put_step sid (s\<lparr>sr_outputs := outs, sr_state := SS_Completed\<rparr>) r))))
            | Some k \<Rightarrow> Inl (RE_MissingOutput sid k))
       | Some k \<Rightarrow> Inl (RE_UndeclaredOutput sid k)) = Inr r') \<longleftrightarrow>
     outputs_match st outs \<and>
       (\<exists>s. bm_get (run_steps r) sid = Some s \<and> sr_state s = SS_Dispatched \<and>
         (\<exists>s'. finish_attempt AO_Completed at s = Inr s' \<and>
            put_step sid (s'\<lparr>sr_outputs := outs, sr_state := SS_Completed\<rparr>) r = r'))"
    unfolding outputs_match_find
    by (simp add: res_bind_Inr_iff step_mut_Inr_iff expect_state_Inr_iff split: option.split)
qed

lemma fail_step_Inr_iff:
  "fail_step sid reason at r = Inr p \<longleftrightarrow>
     (\<exists>st. version_step (pin_version (run_pin r)) sid = Some st \<and>
       (\<exists>s. bm_get (run_steps r) sid = Some s \<and> step_state_holds_reservations (sr_state s) \<and>
         (\<exists>s'. finish_attempt AO_Failed at s = Inr s' \<and>
            (if \<not> retry_left st s' then propagate_skips (put_step sid (failed_step st reason s') r)
             else put_step sid (failed_step st reason s') r, retry_left st s') = p)))"
proof -
  have holds: "(x = SS_Dispatched \<or> x = SS_Interrupted) = step_state_holds_reservations x" for x
    by (cases x) simp_all
  have guard: "(if \<not> b then Inl e else m) = Inr x \<longleftrightarrow> b \<and> m = Inr x" for b and e :: 'e and m and x :: 'x
    by simp
  show ?thesis
    unfolding fail_step_def Let_def res_bind_Inr_iff pinned_step_Inr_iff step_mut_Inr_iff holds guard
      sum.inject ..
qed

lemma interrupt_step_Inr_iff:
  "interrupt_step sid reason at r = Inr r' \<longleftrightarrow>
     (\<exists>s. bm_get (run_steps r) sid = Some s \<and> sr_state s = SS_Dispatched \<and>
        r' = put_step sid (s\<lparr>sr_state := SS_Interrupted,
          sr_interruption := Some \<lparr>intr_reason = reason, intr_detected_at = at\<rparr>\<rparr>) r)"
  by (auto simp: interrupt_step_def result_iff)

lemma resolve_interruption_Inr_iff:
  "resolve_interruption sid at r = Inr r' \<longleftrightarrow>
     (\<exists>st s s'. version_step (pin_version (run_pin r)) sid = Some st \<and>
        bm_get (run_steps r) sid = Some s \<and> sr_state s = SS_Interrupted \<and>
        finish_attempt AO_Cancelled at s = Inr s' \<and>
        (let u = put_step sid (s'\<lparr>sr_interruption := None, sr_state := resolved_state r st s'\<rparr>) r
         in (if resolved_state r st s' = SS_Failed \<or> resolved_state r st s' = SS_Cancelled
             then propagate_skips u else u) = r'))"
  unfolding resolve_interruption_def Let_def res_bind_Inr_iff pinned_step_Inr_iff
    step_mut_Inr_iff expect_state_Inr_iff sum.inject
  by blast

section \<open>Replacing one step\<close>

lemma put_step_simps [simp]:
  "run_pin (put_step sid s r) = run_pin r"
  "run_state (put_step sid s r) = run_state r"
  "run_id (put_step sid s r) = run_id r"
  "run_routine (put_step sid s r) = run_routine r"
  "run_version (put_step sid s r) = run_version r"
  "run_finished_at (put_step sid s r) = run_finished_at r"
  "run_steps (put_step sid s r) = bm_insert sid s (run_steps r)"
  by (simp_all add: put_step_def)

lemma steps_pre_insert:
  assumes pre: "steps_pre v steps" and old: "bm_get steps k = Some s"
    and st: "version_step v k = Some st" "step_run_ok k st s'"
    and stays: "sr_state s = SS_Completed \<Longrightarrow> sr_state s' = SS_Completed"
    and deps: "\<And>d. engaged_state (sr_state s') \<Longrightarrow> (k, d) \<in> depends (ver_steps v) \<Longrightarrow>
      \<exists>u. bm_get steps d = Some u \<and> sr_state u = SS_Completed"
  shows "steps_pre v (bm_insert k s' steps)"
  unfolding steps_pre_def
proof (intro conjI allI impI)
  fix x
  have "bm_contains steps k" using old by (simp add: bm_contains_def)
  then show "bm_contains (bm_insert k s' steps) x \<longleftrightarrow> x \<in> st_id ` set (ver_steps v)"
    using steps_preD(1) [OF pre] by auto
next
  fix x u
  assume "bm_get (bm_insert k s' steps) x = Some u"
  then show "\<exists>st. version_step v x = Some st \<and> step_run_ok x st u"
    using st steps_preD(2) [OF pre] by (cases "x = k") auto
next
  fix x u d
  assume a: "bm_get (bm_insert k s' steps) x = Some u \<and> engaged_state (sr_state u) \<and>
     (x, d) \<in> depends (ver_steps v)"
  then have "\<exists>w. bm_get steps d = Some w \<and> sr_state w = SS_Completed"
    using deps [of d] steps_preD(3) [OF pre, of x u d] by (cases "x = k") auto
  then show "\<exists>w. bm_get (bm_insert k s' steps) d = Some w \<and> sr_state w = SS_Completed"
    using old stays by auto
qed

lemma steps_live_insert:
  assumes live: "steps_live v steps" and alive: "\<not> dead_state (sr_state s')"
    and deps: "\<And>d u. waiting_state (sr_state s') \<Longrightarrow> (k, d) \<in> depends (ver_steps v) \<Longrightarrow>
      bm_get steps d = Some u \<Longrightarrow> \<not> dead_state (sr_state u)"
  shows "steps_live v (bm_insert k s' steps)"
  unfolding steps_live_def
proof (intro allI impI)
  fix x u d w
  assume a: "bm_get (bm_insert k s' steps) x = Some u \<and> waiting_state (sr_state u) \<and>
     (x, d) \<in> depends (ver_steps v) \<and> bm_get (bm_insert k s' steps) d = Some w"
  show "\<not> dead_state (sr_state w)"
  proof (cases "d = k")
    case True
    with a alive show ?thesis by simp
  next
    case False
    with a have w: "bm_get steps d = Some w" by simp
    show ?thesis
    proof (cases "x = k")
      case True
      then show ?thesis using a w deps by auto
    next
      case x: False
      then show ?thesis using a w steps_liveD [OF live, of x u d w] by auto
    qed
  qed
qed

lemma ending_ok_put:
  assumes "ending_ok r" and "run_state_is_terminal (run_state r) \<Longrightarrow> \<not> step_state_holds_reservations (sr_state s)"
  shows "ending_ok (put_step k s r)"
  using assms by (auto simp: ending_ok_def)

lemma run_wfD:
  assumes "run_wf r"
  shows "pin_ok r" and "steps_pre (pin_version (run_pin r)) (run_steps r)"
    and "steps_live (pin_version (run_pin r)) (run_steps r)" and "ending_ok r"
    and "version_wf (pin_version (run_pin r))"
  using assms by (auto simp: run_wf_def pin_ok_def version_ok_def)

text \<open>A step that does not die and is not made to wait behind a dead one.\<close>

lemma run_wf_put:
  assumes wf: "run_wf r" and old: "bm_get (run_steps r) k = Some s"
    and st: "version_step (pin_version (run_pin r)) k = Some st" "step_run_ok k st s'"
    and "sr_state s \<noteq> SS_Completed" and alive: "\<not> dead_state (sr_state s')"
    and deps: "engaged_state (sr_state s') \<Longrightarrow>
      engaged_state (sr_state s) \<or> dependencies_completed r k"
    and live: "waiting_state (sr_state s') \<Longrightarrow> \<not> dead_state (sr_state s)"
    and fin: "run_state_is_terminal (run_state r) \<Longrightarrow> \<not> step_state_holds_reservations (sr_state s')"
  shows "run_wf (put_step k s' r)"
proof -
  let ?v = "pin_version (run_pin r)"
  note w = run_wfD [OF wf]
  have dc: "\<exists>u. bm_get (run_steps r) d = Some u \<and> sr_state u = SS_Completed"
    if "dependencies_completed r k" "(k, d) \<in> depends (ver_steps ?v)" for d
  proof -
    have "bm_contains (st_depends_on st) d" using that(2) version_step_deps [OF w(5) st(1)] by simp
    with that(1) show ?thesis
      by (auto simp: dependencies_completed_def st(1) list_all_iff bs_elems_def split: option.splits)
  qed
  have eng: "\<exists>u. bm_get (run_steps r) d = Some u \<and> sr_state u = SS_Completed"
    if "engaged_state (sr_state s')" "(k, d) \<in> depends (ver_steps ?v)" for d
    using deps [OF that(1)] dc [OF _ that(2)] steps_preD(3) [OF w(2) old _ that(2)] by blast
  have "steps_pre ?v (bm_insert k s' (run_steps r))"
    using steps_pre_insert [OF w(2) old st _ eng] assms(5) by blast
  moreover have "steps_live ?v (bm_insert k s' (run_steps r))"
  proof (rule steps_live_insert [OF w(3) alive])
    fix d u
    assume wt: "waiting_state (sr_state s')" and d: "(k, d) \<in> depends (ver_steps ?v)"
      and u: "bm_get (run_steps r) d = Some u"
    consider "waiting_state (sr_state s)" | "engaged_state (sr_state s)"
      using live [OF wt] by (cases "sr_state s") auto
    then show "\<not> dead_state (sr_state u)"
      using steps_liveD [OF w(3) old _ d u] steps_preD(3) [OF w(2) old _ d] u by cases auto
  qed
  ultimately show ?thesis
    using w(1) ending_ok_put [OF w(4) fin] by (simp add: run_wf_def pin_ok_def)
qed

text \<open>A step that dies, followed by the propagation.\<close>

lemma run_wf_put_dead:
  assumes wf: "run_wf r" and old: "bm_get (run_steps r) k = Some s"
    and st: "version_step (pin_version (run_pin r)) k = Some st" "step_run_ok k st s'"
    and "sr_state s \<noteq> SS_Completed" and dead: "dead_state (sr_state s')"
  shows "run_wf (propagate_skips (put_step k s' r))"
proof (rule propagate_skips_wf)
  note w = run_wfD [OF wf]
  show "pin_ok (put_step k s' r)" using w(1) by (simp add: pin_ok_def)
  have "steps_pre (pin_version (run_pin r)) (bm_insert k s' (run_steps r))"
    using steps_pre_insert [OF w(2) old st] assms(5) dead by auto
  then show "steps_pre (pin_version (run_pin (put_step k s' r))) (run_steps (put_step k s' r))"
    by simp
  show "ending_ok (put_step k s' r)" using dead by (intro ending_ok_put [OF w(4)]) auto
qed


section \<open>The step runs the operations build\<close>

lemma attempts_ok_replace_last:
  assumes "attempts_ok st as" and "as \<noteq> []" and "at_ordinal a = at_ordinal (last as)"
  shows "attempts_ok st (butlast as @ [a])"
proof -
  have "unat (at_ordinal ((butlast as @ [a]) ! i)) = i + 1" if "i < length as" for i
  proof (cases "i < length as - 1")
    case True
    with assms(1) that show ?thesis by (simp add: attempts_ok_def nth_append nth_butlast)
  next
    case False
    with that have i: "i = length as - 1" by simp
    have "unat (at_ordinal (last as)) = length as - 1 + 1"
      using assms(1,2) that i by (auto simp: attempts_ok_def last_conv_nth)
    with i assms(3) show ?thesis by (simp add: nth_append)
  qed
  with assms show ?thesis by (simp add: attempts_ok_def)
qed

lemma attempts_ok_push:
  assumes "attempts_ok st as" and "\<not> open_attempt as"
    and "unat (at_ordinal a) = length as + 1" and "at_ordinal a \<le> max_attempts (st_retry st)"
  shows "attempts_ok st (as @ [a])"
proof -
  have "at_outcome b \<noteq> None" if "b \<in> set as" for b
  proof -
    have "as = butlast as @ [last as]" using that by (cases as rule: rev_cases) auto
    with that have "b \<in> set (butlast as) \<or> b = last as" by (metis Un_iff empty_iff insert_iff list.set(1,2) set_append)
    with assms(1,2) that show ?thesis by (auto simp: attempts_ok_def open_attempt_def)
  qed
  moreover have "length as + 1 \<le> unat (max_attempts (st_retry st))"
    using assms(3,4) by (simp add: word_le_nat_alt)
  ultimately show ?thesis
    using assms(1,3) by (auto simp: attempts_ok_def nth_append less_Suc_eq)
qed

lemma retry_left_less: "retry_left st s \<Longrightarrow> length (sr_attempts s) < unat (max_attempts (st_retry st))"
proof -
  assume left: "retry_left st s"
  show ?thesis
  proof (cases "try_u32 (length (sr_attempts s))")
    case None
    with left show ?thesis
      by (simp add: retry_left_def expected_ordinal_def)
  next
    case (Some k)
    then have "unat k = length (sr_attempts s)" by (simp add: try_u32_Some_iff)
    with left Some show ?thesis
      by (simp add: retry_left_def expected_ordinal_def word_less_nat_alt)
  qed
qed

lemma finish_attempt_fields:
  assumes "finish_attempt oc at s = Inr s'" and "attempts_ok st (sr_attempts s)"
  shows "attempts_ok st (sr_attempts s')" and "\<not> open_attempt (sr_attempts s')"
    and "sr_step s' = sr_step s" and "sr_state s' = sr_state s" and "sr_outputs s' = sr_outputs s"
    and "length (sr_attempts s') = length (sr_attempts s)" and "sr_approval s' = sr_approval s"
proof -
  have "sr_attempts s \<noteq> []" using assms(1) by (simp add: finish_attempt_Inr_iff open_attempt_def)
  with attempts_ok_replace_last [OF assms(2)] assms(1)
  show "attempts_ok st (sr_attempts s')" by (simp add: finish_attempt_Inr_iff)
qed (use assms(1) in \<open>auto simp: finish_attempt_Inr_iff open_attempt_def\<close>)

lemma step_run_ok_finished:
  assumes "step_run_ok k st s" and "finish_attempt oc at s = Inr s'" and "sr_state s \<noteq> SS_Completed"
    and "u = s'\<lparr>sr_failure := f, sr_interruption := i, sr_state := x\<rparr>"
    and "x \<in> {SS_Pending, SS_Failed, SS_Cancelled}"
    and "x = SS_Pending \<Longrightarrow> retry_left st s'"
  shows "step_run_ok k st u"
proof -
  have "attempts_ok st (sr_attempts s)" using assms(1) by (simp add: step_run_ok_def)
  note f = finish_attempt_fields [OF assms(2) this]
  have "sr_outputs s = bm_empty" using assms(1,3) by (simp add: step_run_ok_def)
  moreover have "x = SS_Pending \<Longrightarrow> length (sr_attempts s') < unat (max_attempts (st_retry st))"
    using assms(6) retry_left_less by blast
  moreover have "sr_step s = k" using assms(1) by (simp add: step_run_ok_def)
  ultimately show ?thesis
    using f(1-3,5) assms(5) unfolding assms(4) step_run_ok_def by (cases x) simp_all
qed

section \<open>Every operation keeps the invariant\<close>

lemma run_wf_step:
  assumes "run_wf r" and "bm_get (run_steps r) k = Some s"
    and "version_step (pin_version (run_pin r)) k = Some st"
  shows "step_run_ok k st s"
  using steps_preD(2) [OF run_wfD(2) [OF assms(1)] assms(2)] assms(3) by simp

lemma run_wf_pinned:
  assumes "run_wf r" and "bm_get (run_steps r) k = Some s"
  obtains st where "version_step (pin_version (run_pin r)) k = Some st" and "step_run_ok k st s"
  using steps_preD(2) [OF run_wfD(2) [OF assms(1)] assms(2)] by blast

lemma terminal_not_holding:
  "run_wf r \<Longrightarrow> run_state_is_terminal (run_state r) \<Longrightarrow> bm_get (run_steps r) k = Some s \<Longrightarrow>
     \<not> step_state_holds_reservations (sr_state s)"
  by (auto simp: run_wf_def ending_ok_def)

lemma require_approval_wf:
  assumes "run_wf r" and "require_approval sid r = Inr r'"
  shows "run_wf r'"
proof -
  obtain s where s: "bm_get (run_steps r) sid = Some s" "sr_state s = SS_Pending"
    and r': "r' = put_step sid (s\<lparr>sr_state := SS_AwaitingApproval\<rparr>) r"
    using assms(2) by (auto simp: require_approval_Inr_iff)
  obtain st where st: "version_step (pin_version (run_pin r)) sid = Some st" "step_run_ok sid st s"
    using run_wf_pinned [OF assms(1) s(1)] .
  have "step_run_ok sid st (s\<lparr>sr_state := SS_AwaitingApproval\<rparr>)"
    using st(2) s(2) by (auto simp: step_run_ok_def)
  from run_wf_put [OF assms(1) s(1) st(1) this] s(2) show ?thesis by (simp add: r')
qed

lemma record_approval_wf:
  assumes "run_wf r" and "record_approval sid rec r = Inr r'"
  shows "run_wf r'"
proof -
  obtain s where s: "bm_get (run_steps r) sid = Some s" "waiting_state (sr_state s)"
    using assms(2) by (auto simp: record_approval_def res_bind_Inr_iff step_mut_Inr_iff split: if_splits)
  obtain st where st: "version_step (pin_version (run_pin r)) sid = Some st" "step_run_ok sid st s"
    using run_wf_pinned [OF assms(1) s(1)] .
  have ok: "step_run_ok sid st (s\<lparr>sr_approval := Some rec, sr_state := x\<rparr>)"
    if "x = SS_Pending \<or> x = SS_Cancelled" for x
    using st(2) s(2) that by (auto simp: step_run_ok_def)
  show ?thesis
  proof (cases "ar_decision rec")
    case AD_Approved
    then have "r' = put_step sid (s\<lparr>sr_approval := Some rec, sr_state := SS_Pending\<rparr>) r"
      using assms(2) s by (simp add: record_approval_def step_mut_def split: if_splits)
    with run_wf_put [OF assms(1) s(1) st(1) ok] s(2) show ?thesis by auto
  next
    case AD_Rejected
    then have "r' = propagate_skips (put_step sid (s\<lparr>sr_approval := Some rec, sr_state := SS_Cancelled\<rparr>) r)"
      using assms(2) s by (simp add: record_approval_def step_mut_def split: if_splits)
    with run_wf_put_dead [OF assms(1) s(1) st(1) ok] s(2) show ?thesis by auto
  qed
qed

lemma dispatch_wf:
  assumes "run_wf r" and "dispatch sid attempt r = Inr r'" and fresh: "at_outcome attempt = None"
  shows "run_wf r'"
proof -
  obtain st s where st: "version_step (pin_version (run_pin r)) sid = Some st"
    and run: "run_state r = RS_Running" "dependencies_completed r sid"
    and s: "bm_get (run_steps r) sid = Some s" "sr_state s = SS_Pending"
    and ord: "unat (at_ordinal attempt) = length (sr_attempts s) + 1"
      "at_ordinal attempt \<le> max_attempts (st_retry st)"
    and r': "r' = put_step sid (s\<lparr>sr_attempts := sr_attempts s @ [attempt],
                             sr_state := SS_Dispatched\<rparr>) r"
    using assms(2) by (auto simp: dispatch_Inr_iff)
  have ok: "step_run_ok sid st s" using run_wf_step [OF assms(1) s(1) st] .
  then have "attempts_ok st (sr_attempts s @ [attempt])"
    using s(2) ord by (intro attempts_ok_push) (auto simp: step_run_ok_def)
  then have "step_run_ok sid st (s\<lparr>sr_attempts := sr_attempts s @ [attempt], sr_state := SS_Dispatched\<rparr>)"
    using ok s(2) fresh by (simp add: step_run_ok_def open_attempt_def)
  from run_wf_put [OF assms(1) s(1) st this] s(2) run show ?thesis by (simp add: r')
qed

lemma complete_step_wf:
  assumes "run_wf r" and "complete_step sid outs at r = Inr r'"
  shows "run_wf r'"
proof -
  obtain st s s' where st: "version_step (pin_version (run_pin r)) sid = Some st"
    and match: "outputs_match st outs"
    and s: "bm_get (run_steps r) sid = Some s" "sr_state s = SS_Dispatched"
    and s': "finish_attempt AO_Completed at s = Inr s'"
    and r': "r' = put_step sid (s'\<lparr>sr_outputs := outs, sr_state := SS_Completed\<rparr>) r"
    using assms(2) unfolding complete_step_Inr_iff by blast
  have ok: "step_run_ok sid st s" using run_wf_step [OF assms(1) s(1) st] .
  then have "attempts_ok st (sr_attempts s)" by (simp add: step_run_ok_def)
  note f = finish_attempt_fields [OF s' this]
  have "step_run_ok sid st (s'\<lparr>sr_outputs := outs, sr_state := SS_Completed\<rparr>)"
    using ok match f by (auto simp: step_run_ok_def)
  from run_wf_put [OF assms(1) s(1) st this] s(2) show ?thesis by (simp add: r')
qed

lemma fail_step_wf:
  assumes "run_wf r" and "fail_step sid reason at r = Inr (r', retryable)"
  shows "run_wf r'"
proof -
  obtain st s s' where st: "version_step (pin_version (run_pin r)) sid = Some st"
    and s: "bm_get (run_steps r) sid = Some s" "step_state_holds_reservations (sr_state s)"
    and s': "finish_attempt AO_Failed at s = Inr s'" and retry: "retryable = retry_left st s'"
    and r': "r' = (if \<not> retry_left st s' then propagate_skips (put_step sid (failed_step st reason s') r)
             else put_step sid (failed_step st reason s') r)"
    using assms(2) unfolding fail_step_Inr_iff prod.inject by blast
  have live: "sr_state s = SS_Dispatched \<or> sr_state s = SS_Interrupted"
    using s(2) by (auto simp: step_state_holds_reservations_def)
  have ok: "step_run_ok sid st (failed_step st reason s')"
    unfolding failed_step_def
    by (rule step_run_ok_finished [OF run_wf_step [OF assms(1) s(1) st] s' _ refl])
      (use live in \<open>auto split: if_splits\<close>)
  show ?thesis
  proof (cases "retry_left st s'")
    case True
    have "run_wf (put_step sid (failed_step st reason s') r)"
      by (rule run_wf_put [OF assms(1) s(1) st ok]) (use live True in \<open>auto simp: failed_step_def\<close>)
    with True show ?thesis by (simp add: r')
  next
    case False
    have "run_wf (propagate_skips (put_step sid (failed_step st reason s') r))"
      by (rule run_wf_put_dead [OF assms(1) s(1) st ok]) (use live False in \<open>auto simp: failed_step_def\<close>)
    with False show ?thesis by (simp add: r')
  qed
qed

lemma interrupt_step_wf:
  assumes "run_wf r" and "interrupt_step sid reason at r = Inr r'"
  shows "run_wf r'"
proof -
  obtain s where s: "bm_get (run_steps r) sid = Some s" "sr_state s = SS_Dispatched"
    and r': "r' = put_step sid (s\<lparr>sr_state := SS_Interrupted,
          sr_interruption := Some \<lparr>intr_reason = reason, intr_detected_at = at\<rparr>\<rparr>) r"
    using assms(2) by (auto simp: interrupt_step_Inr_iff)
  obtain st where st: "version_step (pin_version (run_pin r)) sid = Some st" "step_run_ok sid st s"
    using run_wf_pinned [OF assms(1) s(1)] .
  have "step_run_ok sid st (s\<lparr>sr_state := SS_Interrupted,
          sr_interruption := Some \<lparr>intr_reason = reason, intr_detected_at = at\<rparr>\<rparr>)"
    using st(2) s(2) by (simp add: step_run_ok_def)
  moreover have "\<not> run_state_is_terminal (run_state r)"
    using terminal_not_holding [OF assms(1) _ s(1)] s(2) by auto
  ultimately show ?thesis using run_wf_put [OF assms(1) s(1) st(1)] s(2) by (simp add: r')
qed

lemma resolve_interruption_wf:
  assumes "run_wf r" and "resolve_interruption sid at r = Inr r'"
  shows "run_wf r'"
proof -
  obtain st s s' where st: "version_step (pin_version (run_pin r)) sid = Some st"
    and s: "bm_get (run_steps r) sid = Some s" "sr_state s = SS_Interrupted"
    and s': "finish_attempt AO_Cancelled at s = Inr s'"
    and r': "r' = (let u = put_step sid (s'\<lparr>sr_interruption := None, sr_state := resolved_state r st s'\<rparr>) r
         in (if resolved_state r st s' = SS_Failed \<or> resolved_state r st s' = SS_Cancelled
             then propagate_skips u else u))"
    using assms(2) unfolding resolve_interruption_Inr_iff Let_def by blast
  let ?x = "resolved_state r st s'"
  have x: "?x = SS_Pending \<and> retry_left st s' \<or> ?x = SS_Cancelled \<or> ?x = SS_Failed"
    by (auto simp: resolved_state_def)
  have ok: "step_run_ok sid st (s'\<lparr>sr_interruption := None, sr_state := ?x\<rparr>)"
  proof (rule step_run_ok_finished [OF run_wf_step [OF assms(1) s(1) st] s'])
    show "s'\<lparr>sr_interruption := None, sr_state := ?x\<rparr> =
        s'\<lparr>sr_failure := sr_failure s', sr_interruption := None, sr_state := ?x\<rparr>"
      by (cases s') simp
  qed (use s(2) x in auto)
  let ?u = "put_step sid (s'\<lparr>sr_interruption := None, sr_state := ?x\<rparr>) r"
  from x consider "?x = SS_Pending" | "dead_state ?x" by blast
  then show ?thesis
  proof cases
    case 1
    have "run_wf ?u" by (rule run_wf_put [OF assms(1) s(1) st ok]) (simp_all add: s(2) 1)
    with 1 show ?thesis by (simp add: r')
  next
    case 2
    have "run_wf (propagate_skips ?u)"
      by (rule run_wf_put_dead [OF assms(1) s(1) st ok]) (use s(2) 2 in simp_all)
    with 2 x show ?thesis by (auto simp: r' Let_def)
  qed
qed

lemma cancel_step_wf:
  assumes "run_wf r" and "cancel_step sid reason at r = Inr r'"
  shows "run_wf r'"
proof -
  obtain s where s: "bm_get (run_steps r) sid = Some s"
    using assms(2) by (auto simp: cancel_step_def res_bind_Inr_iff step_mut_Inr_iff)
  obtain st where st: "version_step (pin_version (run_pin r)) sid = Some st" "step_run_ok sid st s"
    using run_wf_pinned [OF assms(1) s] .
  show ?thesis
  proof (cases "step_state_is_terminal (sr_state s)")
    case True
    with assms s show ?thesis by (simp add: cancel_step_def step_mut_def)
  next
    case False
    then obtain s' where s': "(if sr_state s = SS_Dispatched
          then finish_attempt AO_Cancelled at s else Inr s) = Inr s'"
      and r': "r' = propagate_skips (put_step sid
          ((if reason \<noteq> None then s'\<lparr>sr_failure := reason\<rparr> else s')\<lparr>sr_state := SS_Cancelled\<rparr>) r)"
      using assms(2) s by (auto simp: cancel_step_def step_mut_def res_bind_Inr_iff Let_def)
    have nc: "sr_state s \<noteq> SS_Completed" using False by auto
    have "step_run_ok sid st (s'\<lparr>sr_failure := f, sr_state := SS_Cancelled\<rparr>)" for f
    proof (cases "sr_state s = SS_Dispatched")
      case True
      with s' have fin: "finish_attempt AO_Cancelled at s = Inr s'" by simp
      show ?thesis
      proof (rule step_run_ok_finished [OF st(2) fin nc])
        show "s'\<lparr>sr_failure := f, sr_state := SS_Cancelled\<rparr> =
            s'\<lparr>sr_failure := f, sr_interruption := sr_interruption s', sr_state := SS_Cancelled\<rparr>"
          by (cases s') simp
      qed auto
    next
      case False
      with s' have "s' = s" by simp
      with st(2) nc show ?thesis by (simp add: step_run_ok_def)
    qed
    from this [of "if reason \<noteq> None then reason else sr_failure s'"]
    have "step_run_ok sid st
        ((if reason \<noteq> None then s'\<lparr>sr_failure := reason\<rparr> else s')\<lparr>sr_state := SS_Cancelled\<rparr>)"
      by (auto simp: step_run_ok_def split: if_splits)
    from run_wf_put_dead [OF assms(1) s st(1) this nc] show ?thesis by (simp add: r')
  qed
qed


lemma bm_get_cancelled:
  "bm_get (bm_map (\<lambda>_ s. if waiting_state (sr_state s) then s\<lparr>sr_state := SS_Cancelled\<rparr> else s) m) k =
     map_option (\<lambda>s. if waiting_state (sr_state s) then s\<lparr>sr_state := SS_Cancelled\<rparr> else s) (bm_get m k)"
  by (rule bm_get_map)

lemma steps_pre_cancelled:
  assumes pre: "steps_pre v steps"
  shows "steps_pre v (bm_map (\<lambda>_ s. if waiting_state (sr_state s)
           then s\<lparr>sr_state := SS_Cancelled\<rparr> else s) steps)" (is "steps_pre v ?new")
  unfolding steps_pre_def
proof (intro conjI allI impI)
  fix k show "bm_contains ?new k \<longleftrightarrow> k \<in> st_id ` set (ver_steps v)"
    using steps_preD(1) [OF pre] by simp
next
  fix k s
  assume "bm_get ?new k = Some s"
  then obtain u where u: "bm_get steps k = Some u"
    and s: "s = (if waiting_state (sr_state u) then u\<lparr>sr_state := SS_Cancelled\<rparr> else u)"
    by (auto simp: bm_get_cancelled)
  obtain st where "version_step v k = Some st" "step_run_ok k st u"
    using steps_preD(2) [OF pre u] by blast
  then show "\<exists>st. version_step v k = Some st \<and> step_run_ok k st s"
    unfolding s by (auto simp: step_run_ok_def)
next
  fix k s d
  assume a: "bm_get ?new k = Some s \<and> engaged_state (sr_state s) \<and> (k, d) \<in> depends (ver_steps v)"
  then have "bm_get steps k = Some s" by (auto simp: bm_get_cancelled split: if_splits)
  then obtain w where "bm_get steps d = Some w" "sr_state w = SS_Completed"
    using steps_preD(3) [OF pre] a by blast
  then show "\<exists>w. bm_get ?new d = Some w \<and> sr_state w = SS_Completed"
    by (auto simp: bm_get_cancelled)
qed

lemma request_cancellation_wf:
  assumes "run_wf r" and "request_cancellation at r = Inr r'"
  shows "run_wf r'"
proof -
  let ?new = "bm_map (\<lambda>_ s. if waiting_state (sr_state s)
     then s\<lparr>sr_state := SS_Cancelled\<rparr> else s) (run_steps r)"
  have act: "\<not> run_state_is_terminal (run_state r)"
    and r': "r' = r\<lparr>run_steps := ?new, run_state := RS_Cancelling\<rparr>"
    using assms(2) by (auto simp: request_cancellation_def split: if_splits)
  note w = run_wfD [OF assms(1)]
  have "\<not> waiting_state (sr_state s)" if "bm_get ?new k = Some s" for k s
    using that unfolding bm_get_cancelled by (cases "bm_get (run_steps r) k") (auto split: if_splits)
  then have "steps_live (pin_version (run_pin r)) ?new" unfolding steps_live_def by blast
  moreover have "run_finished_at r = None" using act w(4) by (simp add: ending_ok_def)
  then have "ending_ok r'" by (simp add: ending_ok_def r')
  moreover have "pin_ok r'" using w(1) by (simp add: pin_ok_def r')
  moreover note steps_pre_cancelled [OF w(2)]
  moreover have "run_pin r' = run_pin r" and "run_steps r' = ?new" by (simp_all add: r')
  ultimately show ?thesis unfolding run_wf_def by metis
qed

lemma any_step_iff: "any_step r P \<longleftrightarrow> (\<exists>k s. bm_get (run_steps r) k = Some s \<and> P (sr_state s))"
  unfolding any_step_def list_ex_iff Bex_def set_bm_values by blast

lemma settle_True_iff:
  "settle at r = (r', True) \<longleftrightarrow>
     \<not> run_state_is_terminal (run_state r) \<and>
     \<not> any_step r step_state_holds_reservations \<and>
     \<not> (any_step r waiting_state \<and> run_state r = RS_Running) \<and>
     r' = r\<lparr>run_state :=
            (if any_step r (\<lambda>st. st = SS_Failed \<or> st = SS_Skipped) then RS_Failed
             else if run_state r = RS_Cancelling \<or> any_step r (\<lambda>st. st = SS_Cancelled) then RS_Cancelled
             else RS_Completed), run_finished_at := Some at\<rparr>"
proof -
  have "any_step r step_state_holds_reservations \<longleftrightarrow>
      any_step r (\<lambda>st. st = SS_Dispatched) \<or> any_step r (\<lambda>st. st = SS_Interrupted)"
    unfolding any_step_iff step_state_holds_reservations_def by auto
  then show ?thesis unfolding settle_def Let_def by (auto split: if_splits)
qed

lemma settle_wf:
  assumes "run_wf r" and "settle at r = (r', True)"
  shows "run_wf r'"
proof -
  define x where "x = (if any_step r (\<lambda>st. st = SS_Failed \<or> st = SS_Skipped) then RS_Failed
     else if run_state r = RS_Cancelling \<or> any_step r (\<lambda>st. st = SS_Cancelled) then RS_Cancelled
     else RS_Completed)"
  have free: "\<not> any_step r step_state_holds_reservations"
    and r': "r' = r\<lparr>run_state := x, run_finished_at := Some at\<rparr>"
    using assms(2) unfolding settle_True_iff x_def by blast+
  have "run_state_is_terminal x" by (simp add: x_def)
  moreover have "\<And>k s. bm_get (run_steps r) k = Some s \<Longrightarrow> \<not> step_state_holds_reservations (sr_state s)"
    using free unfolding any_step_iff by blast
  ultimately have "ending_ok r'" by (simp add: ending_ok_def r')
  moreover have "pin_ok r'" using run_wfD(1) [OF assms(1)] by (simp add: pin_ok_def r')
  ultimately show ?thesis using run_wfD(2,3) [OF assms(1)] by (simp add: run_wf_def r')
qed

lemma apply_transition_wf:
  assumes "run_wf r" and "apply_transition t r = Inr r'"
  shows "run_wf r'"
proof (cases t)
  case (RT_FailStep sid reason at)
  then obtain b where "fail_step sid reason at r = Inr (r', b)"
    using assms(2) by (auto simp: apply_transition_def res_bind_Inr_iff)
  then show ?thesis by (rule fail_step_wf [OF assms(1)])
next
  case (RT_Settle at)
  obtain u b where "settle at r = (u, b)" by fastforce
  with assms(2) RT_Settle have "settle at r = (r', True)"
    by (cases b) (auto simp: apply_transition_def)
  then show ?thesis by (rule settle_wf [OF assms(1)])
qed (use assms in \<open>auto simp: apply_transition_def intro: require_approval_wf record_approval_wf
  complete_step_wf interrupt_step_wf resolve_interruption_wf cancel_step_wf request_cancellation_wf\<close>)

lemma run_start_wf:
  assumes "version_ok (pin_version pin)"
  shows "run_wf (run_start rid trigger occurrence pin at)"
proof -
  let ?v = "pin_version pin"
  let ?r = "run_start rid trigger occurrence pin at"
  have wf: "version_wf ?v" using assms by (simp add: version_ok_def)
  have keys: "map fst (map (\<lambda>s. (st_id s, step_run_pending (st_id s))) (ver_steps ?v)) =
      map st_id (ver_steps ?v)" by simp
  have dist: "distinct (map st_id (ver_steps ?v))"
    using wf by (auto simp: version_wf_def strict_sorted_iff)
  have steps: "run_steps ?r = bm_of_list (map (\<lambda>s. (st_id s, step_run_pending (st_id s))) (ver_steps ?v))"
    by (simp add: run_start_def)
  have get: "bm_get (run_steps ?r) k = Some s \<longleftrightarrow> k \<in> st_id ` set (ver_steps ?v) \<and> s = step_run_pending k"
    for k s
    unfolding steps
    by (subst bm_get_of_list_distinct) (use dist keys in \<open>auto simp: comp_def map_of_eq_Some_iff\<close>)
  have "step_run_ok k st (step_run_pending k)" if "version_step ?v k = Some st" for k st
  proof -
    have "max_attempts (st_retry st) \<noteq> 0"
      using that assms version_step_Some_iff [OF wf] by (auto simp: version_ok_def)
    then have "0 < unat (max_attempts (st_retry st))" by (simp add: unat_gt_0)
    then show ?thesis
      by (simp add: step_run_ok_def step_run_pending_def attempts_ok_def open_attempt_def)
  qed
  moreover have "\<exists>st. version_step ?v k = Some st" if "k \<in> st_id ` set (ver_steps ?v)" for k
    using that version_step_Some_iff [OF wf] by blast
  moreover have "sr_state (step_run_pending k) = SS_Pending" for k by (simp add: step_run_pending_def)
  ultimately have "steps_pre ?v (run_steps ?r)"
    unfolding steps_pre_def get bm_contains_iff by fastforce
  moreover have "steps_live ?v (run_steps ?r)"
    unfolding steps_live_def get by (auto simp: step_run_pending_def)
  moreover have "pin_ok ?r" and "ending_ok ?r" and "run_pin ?r = pin"
    using assms by (simp_all add: pin_ok_def ending_ok_def run_start_def)
  ultimately show ?thesis by (simp add: run_wf_def)
qed

section \<open>A running run is never stuck\<close>

lemma minimal_in_acyclic:
  assumes "acyclic r" and "finite S" and "S \<noteq> {}"
  shows "\<exists>x\<in>S. \<forall>y\<in>S. (x, y) \<notin> r"
  using no_sink_cyclic [of S r] assms by blast

lemma ready_steps_iff:
  assumes "run_wf r"
  shows "k \<in> set (ready_steps r) \<longleftrightarrow>
     (\<exists>s. bm_get (run_steps r) k = Some s \<and> sr_state s = SS_Pending) \<and>
     (\<forall>d. (k, d) \<in> depends (ver_steps (pin_version (run_pin r))) \<longrightarrow>
        (\<exists>u. bm_get (run_steps r) d = Some u \<and> sr_state u = SS_Completed))"
proof -
  note w = run_wfD [OF assms]
  have deps: "dependencies_completed r k \<longleftrightarrow>
      (\<forall>d. (k, d) \<in> depends (ver_steps (pin_version (run_pin r))) \<longrightarrow>
        (\<exists>u. bm_get (run_steps r) d = Some u \<and> sr_state u = SS_Completed))"
    if got: "bm_get (run_steps r) k = Some s" for s
  proof -
    obtain st where st: "version_step (pin_version (run_pin r)) k = Some st"
      using run_wf_pinned [OF assms got] by blast
    show ?thesis
      unfolding version_step_deps [OF w(5) st, symmetric]
      by (auto simp: dependencies_completed_def st list_all_iff bs_elems_def split: option.splits)
  qed
  show ?thesis
  proof
    assume "k \<in> set (ready_steps r)"
    then obtain s x where s: "bm_get (run_steps r) x = Some s" "sr_state s = SS_Pending"
      "dependencies_completed r (sr_step s)" "k = sr_step s"
      by (auto simp: ready_steps_def set_bm_values)
    moreover have "sr_step s = x" using steps_pre_keyed [OF w(2) s(1)] .
    ultimately show "(\<exists>s. bm_get (run_steps r) k = Some s \<and> sr_state s = SS_Pending) \<and>
      (\<forall>d. (k, d) \<in> depends (ver_steps (pin_version (run_pin r))) \<longrightarrow>
        (\<exists>u. bm_get (run_steps r) d = Some u \<and> sr_state u = SS_Completed))"
      using deps by auto
  next
    assume a: "(\<exists>s. bm_get (run_steps r) k = Some s \<and> sr_state s = SS_Pending) \<and>
      (\<forall>d. (k, d) \<in> depends (ver_steps (pin_version (run_pin r))) \<longrightarrow>
        (\<exists>u. bm_get (run_steps r) d = Some u \<and> sr_state u = SS_Completed))"
    then obtain s where s: "bm_get (run_steps r) k = Some s" "sr_state s = SS_Pending" by blast
    moreover have "sr_step s = k" using steps_pre_keyed [OF w(2) s(1)] .
    ultimately show "k \<in> set (ready_steps r)"
      using a deps [OF s(1)] by (force simp: ready_steps_def set_bm_values image_iff)
  qed
qed

lemma pending_run_has_ready_step:
  assumes wf: "run_wf r"
    and none: "\<not> any_step r (\<lambda>st. st = SS_Dispatched \<or> st = SS_Interrupted \<or> st = SS_AwaitingApproval)"
    and pending: "any_step r (\<lambda>st. st = SS_Pending)"
  shows "ready_steps r \<noteq> []"
proof -
  let ?v = "pin_version (run_pin r)"
  let ?S = "{k. \<exists>s. bm_get (run_steps r) k = Some s \<and> sr_state s = SS_Pending}"
  note w = run_wfD [OF wf]
  have "?S \<subseteq> {k. bm_contains (run_steps r) k}" by (auto simp: bm_contains_iff)
  then have "finite ?S" by (rule finite_subset) simp
  moreover have "?S \<noteq> {}" using pending by (auto simp: any_step_iff)
  moreover have "acyclic (depends (ver_steps ?v))" using w(5) by (simp add: version_wf_def)
  ultimately obtain k where k: "k \<in> ?S" and min: "\<forall>y\<in>?S. (k, y) \<notin> depends (ver_steps ?v)"
    using minimal_in_acyclic by blast
  then obtain s where s: "bm_get (run_steps r) k = Some s" "sr_state s = SS_Pending" by blast
  have "\<exists>u. bm_get (run_steps r) d = Some u \<and> sr_state u = SS_Completed"
    if d: "(k, d) \<in> depends (ver_steps ?v)" for d
  proof -
    obtain u where u: "bm_get (run_steps r) d = Some u"
      using depends_known [OF w(5) d] steps_preD(1) [OF w(2)] by (auto simp: bm_contains_iff)
    have "sr_state u \<noteq> SS_Pending" using min u d by blast
    moreover have "\<not> dead_state (sr_state u)" using steps_liveD [OF w(3) s(1) _ d u] s(2) by blast
    moreover have "\<not> (sr_state u = SS_Dispatched \<or> sr_state u = SS_Interrupted
        \<or> sr_state u = SS_AwaitingApproval)"
      using none u unfolding any_step_iff by blast
    ultimately have "sr_state u = SS_Completed" by (cases "sr_state u") auto
    with u show ?thesis by blast
  qed
  with s have "k \<in> set (ready_steps r)" unfolding ready_steps_iff [OF wf] by blast
  then show ?thesis by auto
qed

lemma running_progress:
  assumes "run_wf r" and "run_state r = RS_Running"
  shows "any_step r (\<lambda>st. st = SS_Dispatched \<or> st = SS_Interrupted \<or> st = SS_AwaitingApproval) \<or>
     ready_steps r \<noteq> [] \<or> (\<exists>r'. settle at r = (r', True))"
proof (cases "any_step r (\<lambda>st. st = SS_Pending)")
  case True
  with pending_run_has_ready_step [OF assms(1)] show ?thesis by blast
next
  case False
  then show ?thesis
    unfolding settle_True_iff assms(2) any_step_iff step_state_holds_reservations_def by auto
qed

lemma ready_step_dispatches:
  assumes wf: "run_wf r" and "run_state r = RS_Running" and ready: "sid \<in> set (ready_steps r)"
    and s: "bm_get (run_steps r) sid = Some s"
    and ord: "unat (at_ordinal attempt) = length (sr_attempts s) + 1"
  shows "\<exists>r'. dispatch sid attempt r = Inr r'"
proof -
  obtain st where st: "version_step (pin_version (run_pin r)) sid = Some st" "step_run_ok sid st s"
    using run_wf_pinned [OF wf s] .
  have pend: "sr_state s = SS_Pending" using ready s by (auto simp: ready_steps_iff [OF wf])
  have deps: "dependencies_completed r sid"
    using ready steps_pre_keyed [OF run_wfD(2) [OF wf]] by (auto simp: ready_steps_def)
  have "length (sr_attempts s) < unat (max_attempts (st_retry st))"
    using st(2) pend by (simp add: step_run_ok_def)
  then have "at_ordinal attempt \<le> max_attempts (st_retry st)" using ord by (simp add: word_le_nat_alt)
  then show ?thesis unfolding dispatch_Inr_iff using st assms(2) deps s pend ord by blast
qed

lemma settle_completed_all:
  assumes "settle at r = (r', True)" and "run_state r' = RS_Completed"
    and "bm_get (run_steps r) k = Some s"
  shows "sr_state s = SS_Completed"
proof -
  have "\<not> (any_step r (\<lambda>st. st = SS_Failed \<or> st = SS_Skipped))" "\<not> any_step r (\<lambda>st. st = SS_Cancelled)"
    "\<not> any_step r step_state_holds_reservations" "run_state r = RS_Running \<Longrightarrow> \<not> any_step r waiting_state"
    "run_state r \<noteq> RS_Cancelling" "\<not> run_state_is_terminal (run_state r)"
    using assms(1,2) by (auto simp: settle_True_iff split: if_splits)
  moreover from this have "run_state r = RS_Running" by (cases "run_state r") auto
  ultimately have "\<not> (sr_state s = SS_Failed \<or> sr_state s = SS_Skipped)" "sr_state s \<noteq> SS_Cancelled"
    "\<not> step_state_holds_reservations (sr_state s)" "\<not> waiting_state (sr_state s)"
    using assms(3) unfolding any_step_iff by blast+
  then show ?thesis by (cases "sr_state s") simp_all
qed

end
