(* ===== verification/Routine_Run_Bindings.thy ===== *)
theory Routine_Run_Bindings
  imports Routine_Run_Steps
begin

text \<open>
  A ready step can always be given its inputs: the producers of its bindings completed with the
  outputs they declare, so the values its prompt names exist. And what a completed step produced
  never changes again.
\<close>

section \<open>Resolving bindings\<close>

lemma resolve_fold_Inl:
  "try_fold (\<lambda>resolved (k, source).
       res_bind (f source) (\<lambda>v. Inr (bm_insert k v resolved))) m ps = Inl e \<Longrightarrow>
     \<exists>k source. (k, source) \<in> set ps \<and> f source = Inl e"
proof (induction ps arbitrary: m)
  case (Cons p ps)
  obtain k source where p: "p = (k, source)" by fastforce
  show ?case
  proof (cases "f source")
    case (Inl x)
    with Cons.prems p show ?thesis by auto
  next
    case (Inr v)
    with Cons.prems p have "try_fold (\<lambda>resolved (k, source).
       res_bind (f source) (\<lambda>v. Inr (bm_insert k v resolved))) (bm_insert k v m) ps = Inl e" by simp
    from Cons.IH [OF this] show ?thesis by auto
  qed
qed simp

lemma resolve_fold_keys:
  "try_fold (\<lambda>resolved (k, source).
       res_bind (f source) (\<lambda>v. Inr (bm_insert k v resolved))) m ps = Inr vals \<Longrightarrow>
     bm_contains vals k \<longleftrightarrow> bm_contains m k \<or> k \<in> fst ` set ps"
proof (induction ps arbitrary: m)
  case (Cons p ps)
  obtain x source where p: "p = (x, source)" by fastforce
  with Cons.prems obtain v where "f source = Inr v"
    and "try_fold (\<lambda>resolved (k, source).
       res_bind (f source) (\<lambda>v. Inr (bm_insert k v resolved))) (bm_insert x v m) ps = Inr vals"
    by (auto simp: res_bind_Inr_iff)
  from Cons.IH [OF this(2)] show ?case by (auto simp: p)
qed simp

lemma resolve_bindings_Inl:
  assumes "version_step (pin_version (run_pin r)) sid = Some st"
    and "resolve_bindings r sid = Inl e"
  shows "\<exists>source\<in>set (bm_values (st_bindings st)). resolve_source r sid source = Inl e"
proof -
  have "try_fold (\<lambda>resolved (k, source).
           res_bind (resolve_source r sid source) (\<lambda>v. Inr (bm_insert k v resolved)))
         bm_empty (entries (st_bindings st)) = Inl e"
    using assms by (simp add: resolve_bindings_def pinned_step_def)
  from resolve_fold_Inl [OF this] show ?thesis by (force simp: bm_values_def)
qed

lemma resolve_bindings_keys:
  assumes "version_step (pin_version (run_pin r)) sid = Some st"
    and "resolve_bindings r sid = Inr vals"
  shows "bm_contains vals k \<longleftrightarrow> bm_contains (st_bindings st) k"
proof -
  have "try_fold (\<lambda>resolved (k, source).
           res_bind (resolve_source r sid source) (\<lambda>v. Inr (bm_insert k v resolved)))
         bm_empty (entries (st_bindings st)) = Inr vals"
    using assms by (simp add: resolve_bindings_def pinned_step_def)
  from resolve_fold_keys [OF this, of k] show ?thesis
    by (force simp: bm_contains_iff bm_get_Some_iff)
qed

lemma ready_ancestor_completed:
  assumes wf: "run_wf r" and ready: "sid \<in> set (ready_steps r)"
    and anc: "(sid, p) \<in> (depends (ver_steps (pin_version (run_pin r))))\<^sup>+"
  shows "\<exists>u. bm_get (run_steps r) p = Some u \<and> sr_state u = SS_Completed"
proof -
  note w = run_wfD [OF wf]
  from tranclD [OF anc] obtain d
    where d: "(sid, d) \<in> depends (ver_steps (pin_version (run_pin r)))"
      and rest: "(d, p) \<in> (depends (ver_steps (pin_version (run_pin r))))\<^sup>*" by blast
  obtain u where u: "bm_get (run_steps r) d = Some u" "sr_state u = SS_Completed"
    using ready d unfolding ready_steps_iff [OF wf] by blast
  from rest show ?thesis
    unfolding rtrancl_eq_or_trancl using u completed_dead_free [OF w(5) w(2) u(1)] by blast
qed

lemma ready_source_resolves:
  assumes wf: "run_wf r" and ready: "sid \<in> set (ready_steps r)"
    and st: "version_step (pin_version (run_pin r)) sid = Some st"
    and source: "source \<in> set (bm_values (st_bindings st))"
    and err: "resolve_source r sid source = Inl e"
  shows "\<exists>k. k \<in> in_key ` set (ver_inputs (pin_version (run_pin r))) \<and>
     bm_get (pin_inputs (run_pin r)) k = None \<and> e = RE_MissingInput k"
proof -
  let ?v = "pin_version (run_pin r)"
  note w = run_wfD [OF wf]
  have "st \<in> set (ver_steps ?v)" and sid: "st_id st = sid"
    using st version_step_Some_iff [OF w(5)] by auto
  then have ok: "binding_ok ?v st source" using w(5) source by (auto simp: version_wf_def)
  show ?thesis
  proof (cases source)
    case (BS_Input k)
    with err ok show ?thesis
      by (auto simp: resolve_source_def binding_ok_def ok_or_Inl_iff)
  next
    case (BS_StepOutput p k)
    then obtain producer where anc: "(sid, p) \<in> (depends (ver_steps ?v))\<^sup>+"
      and producer: "producer \<in> set (ver_steps ?v)" "st_id producer = p" "declares_output producer k"
      using ok by (auto simp: binding_ok_def sid)
    obtain u where u: "bm_get (run_steps r) p = Some u" "sr_state u = SS_Completed"
      using ready_ancestor_completed [OF wf ready anc] by blast
    have "version_step ?v p = Some producer" using producer version_step_Some_iff [OF w(5)] by blast
    then have "step_run_ok p producer u" by (rule run_wf_step [OF wf u(1)])
    then have "bm_contains (sr_outputs u) k"
      using producer(3) u(2) by (simp add: step_run_ok_def outputs_match_def)
    with err u(1) BS_StepOutput show ?thesis
      by (auto simp: resolve_source_def bm_contains_iff)
  next
    case (BS_Literal v)
    with err show ?thesis by (simp add: resolve_source_def)
  qed
qed

lemma ready_step_renders:
  assumes wf: "run_wf r" and ready: "sid \<in> set (ready_steps r)"
    and st: "version_step (pin_version (run_pin r)) sid = Some st"
    and inputs: "\<And>k. k \<in> in_key ` set (ver_inputs (pin_version (run_pin r))) \<Longrightarrow>
      bm_contains (pin_inputs (run_pin r)) k"
  shows "\<exists>vals. resolve_bindings r sid = Inr vals \<and>
     ((\<exists>c. render_prompt st vals = Inr c) \<or> render_prompt st vals = Inl (RE_EmptyRenderedPrompt sid))"
proof (cases "resolve_bindings r sid")
  case (Inl e)
  from resolve_bindings_Inl [OF st Inl] obtain source
    where "source \<in> set (bm_values (st_bindings st))" "resolve_source r sid source = Inl e" by blast
  from ready_source_resolves [OF wf ready st this] obtain k
    where "k \<in> in_key ` set (ver_inputs (pin_version (run_pin r)))"
      and "bm_get (pin_inputs (run_pin r)) k = None" by blast
  with inputs [OF this(1)] show ?thesis by (simp add: bm_contains_def)
next
  case (Inr vals)
  note w = run_wfD [OF wf]
  have "st \<in> set (ver_steps (pin_version (run_pin r)))" and "st_id st = sid"
    using st version_step_Some_iff [OF w(5)] by auto
  moreover from this have "check_prompt st = Inr ()" using w(5) by (simp add: version_wf_def)
  ultimately show ?thesis
    using Inr render_prompt_checked_cases [of st vals] resolve_bindings_keys [OF st Inr] by auto
qed

section \<open>What a completed step produced\<close>

lemma completed_put:
  assumes "bm_get (run_steps r) sid = Some s" and "sr_state s \<noteq> SS_Completed"
    and "bm_get (run_steps r) k = Some u" and "sr_state u = SS_Completed"
  shows "bm_get (run_steps (put_step sid s' r)) k = Some u"
  using assms by auto

lemma completed_propagate:
  assumes "run_wf r" and "bm_get (run_steps r) sid = Some s" and "sr_state s \<noteq> SS_Completed"
    and "keyed_steps (run_steps (put_step sid s' r))"
    and "bm_get (run_steps r) k = Some u" and "sr_state u = SS_Completed"
  shows "bm_get (run_steps (propagate_skips (put_step sid s' r))) k = Some u"
proof -
  let ?r = "put_step sid s' r"
  have "bm_contains (run_steps r) sid" using assms(2) by (simp add: bm_contains_def)
  then have "skips_only (pin_version (run_pin r)) (run_steps ?r) (run_steps (propagate_skips ?r))"
    using propagate_rounds_skips_only [OF run_wfD(5) [OF assms(1)] assms(4)]
      steps_preD(1) [OF run_wfD(2) [OF assms(1)]]
    by (auto simp: propagate_skips_def simp del: propagate_rounds.simps)
  moreover have "bm_get (run_steps ?r) k = Some u" using completed_put [OF assms(2,3,5,6)] .
  ultimately show ?thesis by (rule skips_only_same) (simp add: assms(6))
qed

lemma put_step_keyed:
  "run_wf r \<Longrightarrow> sr_step s' = sid \<Longrightarrow> keyed_steps (run_steps (put_step sid s' r))"
  using steps_pre_keyed_steps [OF run_wfD(2)] by (auto simp: keyed_steps_def)

lemma run_wf_keyed: "run_wf r \<Longrightarrow> bm_get (run_steps r) k = Some s \<Longrightarrow> sr_step s = k"
  using steps_pre_keyed [OF run_wfD(2)] .

lemma finish_attempt_step: "finish_attempt oc at s = Inr s' \<Longrightarrow> sr_step s' = sr_step s"
  by (auto simp: finish_attempt_Inr_iff)

lemma completed_step_final:
  assumes wf: "run_wf r" and "apply_transition t r = Inr r'"
    and u: "bm_get (run_steps r) k = Some u" "sr_state u = SS_Completed"
  shows "bm_get (run_steps r') k = Some u"
proof (cases t)
  case (RT_AwaitApproval sid)
  with assms show ?thesis by (auto simp: apply_transition_def require_approval_Inr_iff)
next
  case (RT_RecordApproval sid rec)
  then obtain s where s: "bm_get (run_steps r) sid = Some s" "waiting_state (sr_state s)"
    and r': "r' = put_step sid (s\<lparr>sr_approval := Some rec, sr_state := SS_Pending\<rparr>) r \<or>
       r' = propagate_skips (put_step sid (s\<lparr>sr_approval := Some rec, sr_state := SS_Cancelled\<rparr>) r)"
    using assms(2)
    by (auto simp: apply_transition_def record_approval_def res_bind_Inr_iff step_mut_Inr_iff
        split: if_splits routine_approval_decision.splits)
  have nc: "sr_state s \<noteq> SS_Completed" using s(2) by auto
  show ?thesis
    using r' completed_put [OF s(1) nc u] completed_propagate [OF wf s(1) nc put_step_keyed [OF wf] u]
      run_wf_keyed [OF wf s(1)] by auto
next
  case (RT_CompleteStep sid outs at)
  then obtain s s' where "bm_get (run_steps r) sid = Some s" "sr_state s = SS_Dispatched"
    "r' = put_step sid (s'\<lparr>sr_outputs := outs, sr_state := SS_Completed\<rparr>) r"
    using assms(2) by (auto simp: apply_transition_def complete_step_Inr_iff)
  with completed_put [OF this(1) _ u] show ?thesis by simp
next
  case (RT_FailStep sid reason at)
  then obtain b where "fail_step sid reason at r = Inr (r', b)"
    using assms(2) by (auto simp: apply_transition_def res_bind_Inr_iff)
  then obtain st s s' where s: "bm_get (run_steps r) sid = Some s"
      "step_state_holds_reservations (sr_state s)" "finish_attempt AO_Failed at s = Inr s'"
    and r': "r' = put_step sid (failed_step st reason s') r \<or>
       r' = propagate_skips (put_step sid (failed_step st reason s') r)"
    unfolding fail_step_Inr_iff prod.inject by (metis (full_types))
  have nc: "sr_state s \<noteq> SS_Completed" using s(2) by auto
  have "sr_step (failed_step st reason s') = sid"
    using finish_attempt_step [OF s(3)] run_wf_keyed [OF wf s(1)] by (simp add: failed_step_def)
  then show ?thesis
    using r' completed_put [OF s(1) nc u] completed_propagate [OF wf s(1) nc put_step_keyed [OF wf] u] by auto
next
  case (RT_InterruptStep sid reason at)
  with assms show ?thesis by (auto simp: apply_transition_def interrupt_step_Inr_iff)
next
  case (RT_ResolveInterruption sid at)
  then obtain s s' x where s: "bm_get (run_steps r) sid = Some s" "sr_state s = SS_Interrupted"
      "finish_attempt AO_Cancelled at s = Inr s'"
    and r': "r' = put_step sid (s'\<lparr>sr_interruption := None, sr_state := x\<rparr>) r \<or>
       r' = propagate_skips (put_step sid (s'\<lparr>sr_interruption := None, sr_state := x\<rparr>) r)"
    using assms(2) unfolding apply_transition_def
    by (simp add: resolve_interruption_Inr_iff Let_def) metis
  have nc: "sr_state s \<noteq> SS_Completed" using s(2) by auto
  have "sr_step (s'\<lparr>sr_interruption := None, sr_state := x\<rparr>) = sid"
    using finish_attempt_step [OF s(3)] run_wf_keyed [OF wf s(1)] by simp
  then show ?thesis
    using r' completed_put [OF s(1) nc u] completed_propagate [OF wf s(1) nc put_step_keyed [OF wf] u] by auto
next
  case (RT_CancelStep sid reason at)
  then obtain s where s: "bm_get (run_steps r) sid = Some s"
    using assms(2) by (auto simp: apply_transition_def cancel_step_def res_bind_Inr_iff step_mut_Inr_iff)
  show ?thesis
  proof (cases "step_state_is_terminal (sr_state s)")
    case True
    with assms(2) s RT_CancelStep u show ?thesis
      by (simp add: apply_transition_def cancel_step_def step_mut_def)
  next
    case False
    then obtain s' where s': "(if sr_state s = SS_Dispatched
          then finish_attempt AO_Cancelled at s else Inr s) = Inr s'"
      and r': "r' = propagate_skips (put_step sid
          ((if reason \<noteq> None then s'\<lparr>sr_failure := reason\<rparr> else s')\<lparr>sr_state := SS_Cancelled\<rparr>) r)"
      using assms(2) s RT_CancelStep
      by (auto simp: apply_transition_def cancel_step_def step_mut_def res_bind_Inr_iff Let_def)
    have nc: "sr_state s \<noteq> SS_Completed" using False by auto
    have "sr_step s' = sid"
      using s' finish_attempt_step run_wf_keyed [OF wf s] by (auto split: if_splits)
    then show ?thesis
      unfolding r' by (intro completed_propagate [OF wf s nc put_step_keyed [OF wf] u]) auto
  qed
next
  case (RT_RequestCancellation at)
  with assms(2) u show ?thesis
    by (auto simp: apply_transition_def request_cancellation_def bm_get_map split: if_splits)
next
  case (RT_Settle at)
  obtain w b where "settle at r = (w, b)" by fastforce
  with assms(2) RT_Settle have "settle at r = (r', True)"
    by (cases b) (auto simp: apply_transition_def)
  with u show ?thesis by (auto simp: settle_True_iff)
qed

end
