(* ===== verification/Workspace_Inv.thy ===== *)
theory Workspace_Inv
  imports Workspace_Execute Handoff_Steps Routine_Run_Bindings
begin

text \<open>
  The invariant of the workspace. Each part is a predicate on the collections it speaks of and
  on what the rest of the workspace knows, so that an event leaves every part it does not touch
  syntactically unchanged.
\<close>

section \<open>Interpretations of the collections\<close>

interpretation profile_map: ordered_map bm_empty bm_get bm_insert bm_remove bm_values env_id
  by (rule bmap_ordered_map)

interpretation preset_map: ordered_map bm_empty bm_get bm_insert bm_remove bm_values preset_id
  by (rule bmap_ordered_map)

interpretation attachment_map: ordered_map bm_empty bm_get bm_insert bm_remove bm_values ca_id
  by (rule bmap_ordered_map)

interpretation handoff_map: ordered_map bm_empty bm_get bm_insert bm_remove bm_values ho_id
  by (rule bmap_ordered_map)

interpretation routine_map: ordered_map bm_empty bm_get bm_insert bm_remove bm_values rt_id
  by (rule bmap_ordered_map)

interpretation run_map: ordered_map bm_empty bm_get bm_insert bm_remove bm_values run_id
  by (rule bmap_ordered_map)

section \<open>What the workspace knows\<close>

definition known_agent :: "workspace \<Rightarrow> agent_id \<Rightarrow> bool" where
  "known_agent w a = (bm_contains (w_agents w) a \<or> bm_contains (w_archived w) a)"

definition known_step :: "(routine_run_id, routine_run) bmap \<Rightarrow> routine_run_id \<Rightarrow> routine_step_id \<Rightarrow> bool" where
  "known_step runs r s = (case bm_get runs r of None \<Rightarrow> False | Some x \<Rightarrow> bm_contains (run_steps x) s)"

fun known_target ::
  "(agent_id \<Rightarrow> bool) \<Rightarrow> (task_id \<Rightarrow> bool) \<Rightarrow> (handoff_id \<Rightarrow> bool) \<Rightarrow> node_target \<Rightarrow> bool" where
  "known_target ka kt kh (NT_Agent a) = ka a"
| "known_target ka kt kh (NT_Task t) = kt t"
| "known_target ka kt kh (NT_Handoff h) = kh h"

section \<open>The parts\<close>

definition config_ok ::
  "(environment_profile_id, environment_profile) bmap \<Rightarrow> (command_preset_id, command_preset) bmap \<Rightarrow>
   (role_id, role) bmap \<Rightarrow> bool" where
  "config_ok profiles presets roles \<longleftrightarrow>
     profile_map.keyed profiles \<and> preset_map.keyed presets \<and> role_map.keyed roles"

definition agent_refs_ok ::
  "(role_id \<Rightarrow> bool) \<Rightarrow> (environment_profile_id \<Rightarrow> bool) \<Rightarrow> (command_preset_id \<Rightarrow> bool) \<Rightarrow>
   agent \<Rightarrow> bool" where
  "agent_refs_ok kr ke kp a \<longleftrightarrow>
     (\<forall>r. agent_role a = Some r \<longrightarrow> kr r) \<and> (\<forall>e. agent_environment a = Some e \<longrightarrow> ke e) \<and>
     (\<forall>p. agent_program a = AP_Custom p \<longrightarrow> kp p)"

definition agents_ok ::
  "(role_id \<Rightarrow> bool) \<Rightarrow> (environment_profile_id \<Rightarrow> bool) \<Rightarrow> (command_preset_id \<Rightarrow> bool) \<Rightarrow>
   (agent_id, agent) bmap \<Rightarrow> (agent_id, agent) bmap \<Rightarrow> bool" where
  "agents_ok kr ke kp agents archived \<longleftrightarrow>
     agent_map.keyed agents \<and> agent_map.keyed archived \<and>
     (\<forall>a. \<not> (bm_contains agents a \<and> bm_contains archived a)) \<and>
     (\<forall>a x. bm_get agents a = Some x \<or> bm_get archived a = Some x \<longrightarrow> agent_refs_ok kr ke kp x)"

definition tasks_ok :: "(agent_id \<Rightarrow> bool) \<Rightarrow> (task_id, task) bmap \<Rightarrow> bool" where
  "tasks_ok ka tasks \<longleftrightarrow>
     task_map.keyed tasks \<and>
     (\<forall>t x. bm_get tasks t = Some x \<longrightarrow>
        (\<forall>a. task_assignee x = Some a \<longrightarrow> ka a) \<and>
        (\<forall>p. task_retry_of x = Some p \<longrightarrow> bm_contains tasks p))"

text \<open>The parents of a handoff, walked for at most the given number of steps.\<close>

fun chain_within :: "nat \<Rightarrow> (handoff_id, handoff) bmap \<Rightarrow> handoff_id option \<Rightarrow> bool" where
  "chain_within n hs None = True"
| "chain_within 0 hs (Some p) = False"
| "chain_within (Suc n) hs (Some p) =
     (case bm_get hs p of None \<Rightarrow> False | Some h \<Rightarrow> chain_within n hs (ho_parent h))"

definition handoff_refs_ok ::
  "(agent_id \<Rightarrow> bool) \<Rightarrow> (task_id \<Rightarrow> bool) \<Rightarrow> (routine_run_id \<Rightarrow> routine_step_id \<Rightarrow> bool) \<Rightarrow>
   handoff \<Rightarrow> bool" where
  "handoff_refs_ok ka kt ks h \<longleftrightarrow>
     ka (ho_recipient h) \<and>
     (\<forall>a. ho_origin h = HO_Agent a \<longrightarrow> ka a \<and> a \<noteq> ho_recipient h) \<and>
     (\<forall>r s. ho_origin h = HO_Routine r s \<longrightarrow> ks r s) \<and>
     (\<forall>t. ho_payload h = HP_Task t \<longrightarrow> kt t)"

definition handoffs_ok ::
  "(agent_id \<Rightarrow> bool) \<Rightarrow> (task_id \<Rightarrow> bool) \<Rightarrow> (routine_run_id \<Rightarrow> routine_step_id \<Rightarrow> bool) \<Rightarrow>
   (handoff_id, handoff) bmap \<Rightarrow> bool" where
  "handoffs_ok ka kt ks hs \<longleftrightarrow>
     handoff_map.keyed hs \<and>
     (\<forall>k h. bm_get hs k = Some h \<longrightarrow>
        handoff_refs_ok ka kt ks h \<and> handoff_wf h \<and>
        chain_within (max_handoff_depth - 1) hs (ho_parent h)) \<and>
     (\<forall>k k' h h' m. bm_get hs k = Some h \<and> bm_get hs k' = Some h' \<and>
        ho_message_id h = Some m \<and> ho_message_id h' = Some m \<longrightarrow> k = k')"

definition attachments_ok ::
  "(chat_attachment_id, chat_attachment) bmap \<Rightarrow> chat_thread_id \<Rightarrow> chat_attachment_id list \<Rightarrow> bool" where
  "attachments_ok atts t ids \<longleftrightarrow>
     (\<forall>i\<in>set ids. \<exists>a. bm_get atts i = Some a \<and> ca_thread a = t) \<and>
     (\<Sum>i\<leftarrow>ids. case bm_get atts i of None \<Rightarrow> 0 | Some a \<Rightarrow> unat (ca_byte_len a))
       \<le> unat max_total_attachment_bytes"

definition thread_ok ::
  "(agent_id \<Rightarrow> bool) \<Rightarrow> (chat_attachment_id, chat_attachment) bmap \<Rightarrow> chat_thread \<Rightarrow> bool" where
  "thread_ok ka atts t \<longleftrightarrow>
     ka (th_agent t) \<and> attachments_ok atts (th_id t) (dr_attachments (th_draft t)) \<and>
     (\<forall>m\<in>set (th_messages t).
        msg_thread m = th_id t \<and> (msg_author m = CA_User \<or> msg_author m = CA_Agent (th_agent t)) \<and>
        attachments_ok atts (th_id t) (msg_attachments m)) \<and>
     distinct (map msg_id (th_messages t))"

definition chat_ok ::
  "(agent_id \<Rightarrow> bool) \<Rightarrow> (chat_thread_id, chat_thread) bmap \<Rightarrow>
   (chat_attachment_id, chat_attachment) bmap \<Rightarrow> bool" where
  "chat_ok ka threads atts \<longleftrightarrow>
     thread_map.keyed threads \<and> attachment_map.keyed atts \<and>
     (\<forall>k t. bm_get threads k = Some t \<longrightarrow> thread_ok ka atts t) \<and>
     (\<forall>k k' t t'. bm_get threads k = Some t \<and> bm_get threads k' = Some t' \<and> k \<noteq> k' \<longrightarrow>
        msg_id ` set (th_messages t) \<inter> msg_id ` set (th_messages t') = {}) \<and>
     (\<forall>i a. bm_get atts i = Some a \<longrightarrow> bm_contains threads (ca_thread a))"

definition group_ok :: "(node_id, node) bmap \<Rightarrow> node_group \<Rightarrow> bool" where
  "group_ok nodes g \<longleftrightarrow>
     2 \<le> bm_len (grp_members g) \<and> (\<forall>n\<in>bs_elems (grp_members g). bm_contains nodes n)"

definition connection_ok :: "(node_id, node) bmap \<Rightarrow> connection \<Rightarrow> bool" where
  "connection_ok nodes c \<longleftrightarrow>
     con_source c \<noteq> con_target c \<and>
     (\<exists>s t. bm_get nodes (con_source c) = Some s \<and> bm_get nodes (con_target c) = Some t \<and>
        kind_between_content (node_content s) (node_content t) = Some (con_kind c))"

definition canvas_ok ::
  "(node_target \<Rightarrow> bool) \<Rightarrow> (node_id, node) bmap \<Rightarrow> (node_group_id, node_group) bmap \<Rightarrow>
   (connection_id, connection) bmap \<Rightarrow> bool" where
  "canvas_ok known nodes groups connections \<longleftrightarrow>
     node_map.keyed nodes \<and> group_map.keyed groups \<and> connection_map.keyed connections \<and>
     (\<forall>k n t. bm_get nodes k = Some n \<and> node_reference n = Some t \<longrightarrow> known t) \<and>
     (\<forall>k g. bm_get groups k = Some g \<longrightarrow> group_ok nodes g) \<and>
     (\<forall>k k' g g'. bm_get groups k = Some g \<and> bm_get groups k' = Some g' \<and> k \<noteq> k' \<longrightarrow>
        bs_elems (grp_members g) \<inter> bs_elems (grp_members g') = {}) \<and>
     (\<forall>k c. bm_get connections k = Some c \<longrightarrow> connection_ok nodes c) \<and>
     (\<forall>k k' c c'. bm_get connections k = Some c \<and> bm_get connections k' = Some c' \<and>
        con_source c = con_source c' \<and> con_target c = con_target c' \<longrightarrow> k = k')"

definition placed_ok :: "(agent_id, agent) bmap \<Rightarrow> (node_id, node) bmap \<Rightarrow> bool" where
  "placed_ok archived nodes \<longleftrightarrow>
     (\<forall>a k n. bm_contains archived a \<and> bm_get nodes k = Some n \<longrightarrow>
        node_reference n \<noteq> Some (NT_Agent a))"

definition floors_ok ::
  "(agent_id \<Rightarrow> bool) \<Rightarrow> (task_id \<Rightarrow> bool) \<Rightarrow> (node_id, node) bmap \<Rightarrow> floors \<Rightarrow> bool" where
  "floors_ok ka kt nodes f \<longleftrightarrow>
     (\<forall>i. fs_active f = Some i \<longrightarrow> bm_contains (fs_entries f) i) \<and>
     (\<forall>n i. bm_get (fs_node_floors f) n = Some i \<longrightarrow>
        bm_contains nodes n \<and> bm_contains (fs_entries f) i) \<and>
     (\<forall>i x. bm_get (fs_entries f) i = Some x \<longrightarrow>
        (\<forall>a. fl_owner x = Some (FO_Agent a) \<longrightarrow> ka a) \<and>
        (\<forall>t. fl_owner x = Some (FO_Task t) \<longrightarrow> kt t))"

definition routines_ok :: "(routine_id, routine) bmap \<Rightarrow> bool" where
  "routines_ok routines \<longleftrightarrow>
     routine_map.keyed routines \<and>
     (\<forall>k r. bm_get routines k = Some r \<longrightarrow>
        routine_wf r \<and> (\<forall>v\<in>set (rt_versions r). version_ok v))"

text \<open>The claims one step of one run holds.\<close>

definition step_run_claims :: "routine_step_run \<Rightarrow> routine_reservation set" where
  "step_run_claims x =
     (if step_state_holds_reservations (sr_state x) \<and> sr_attempts x \<noteq> []
      then set (attempt_reservations (last (sr_attempts x))) else {})"

definition step_claims :: "routine_run \<Rightarrow> routine_step_id \<Rightarrow> routine_reservation set" where
  "step_claims r s =
     (case bm_get (run_steps r) s of None \<Rightarrow> {} | Some x \<Rightarrow> step_run_claims x)"

definition held_claims ::
  "(routine_run_id, routine_run) bmap \<Rightarrow> routine_run_id \<times> routine_step_id \<Rightarrow>
   routine_reservation set" where
  "held_claims runs p = (case bm_get runs (fst p) of None \<Rightarrow> {} | Some r \<Rightarrow> step_claims r (snd p))"

definition exclusive :: "(routine_run_id, routine_run) bmap \<Rightarrow> bool" where
  "exclusive runs \<longleftrightarrow> (\<forall>p q. p \<noteq> q \<longrightarrow> held_claims runs p \<inter> held_claims runs q = {})"

definition run_pinned :: "(agent_id \<Rightarrow> bool) \<Rightarrow> (routine_id, routine) bmap \<Rightarrow> routine_run \<Rightarrow> bool" where
  "run_pinned ka routines r \<longleftrightarrow>
     (\<exists>x. bm_get routines (run_routine r) = Some x \<and>
        routine_version_of x (run_version r) = Some (pin_version (run_pin r))) \<and>
     (\<forall>s\<in>set (ver_steps (pin_version (run_pin r))).
        \<exists>a. bm_get (pin_agents (run_pin r)) (st_id s) = Some a \<and> ka a)"

definition runs_ok ::
  "(agent_id \<Rightarrow> bool) \<Rightarrow> (routine_id, routine) bmap \<Rightarrow> (routine_run_id, routine_run) bmap \<Rightarrow> bool" where
  "runs_ok ka routines runs \<longleftrightarrow>
     run_map.keyed runs \<and>
     (\<forall>k r. bm_get runs k = Some r \<longrightarrow> run_wf r \<and> run_pinned ka routines r) \<and>
     (\<forall>k k' r r'. bm_get runs k = Some r \<and> bm_get runs k' = Some r' \<and>
        run_is_active r \<and> run_is_active r' \<and> run_routine r = run_routine r' \<longrightarrow> k = k') \<and>
     exclusive runs"

definition ws_inv :: "workspace \<Rightarrow> bool" where
  "ws_inv w \<longleftrightarrow>
     config_ok (w_profiles w) (w_presets w) (w_roles w) \<and>
     agents_ok (bm_contains (w_roles w)) (bm_contains (w_profiles w)) (bm_contains (w_presets w))
       (w_agents w) (w_archived w) \<and>
     tasks_ok (known_agent w) (w_tasks w) \<and>
     handoffs_ok (known_agent w) (bm_contains (w_tasks w)) (known_step (w_runs w)) (w_handoffs w) \<and>
     chat_ok (known_agent w) (w_threads w) (w_attachments w) \<and>
     canvas_ok (known_target (known_agent w) (bm_contains (w_tasks w)) (bm_contains (w_handoffs w)))
       (w_nodes w) (w_groups w) (w_connections w) \<and>
     placed_ok (w_archived w) (w_nodes w) \<and>
     floors_ok (known_agent w) (bm_contains (w_tasks w)) (w_nodes w) (w_floors w) \<and>
     routines_ok (w_routines w) \<and>
     runs_ok (known_agent w) (w_routines w) (w_runs w)"

section \<open>A new workspace\<close>

lemma held_claims_empty [simp]: "held_claims bm_empty p = {}"
  by (simp add: held_claims_def)

lemma workspace_new_inv: "ws_inv (workspace_new wid nm)"
  by (simp add: ws_inv_def workspace_new_def config_ok_def agents_ok_def tasks_ok_def handoffs_ok_def
      chat_ok_def canvas_ok_def placed_ok_def floors_ok_def routines_ok_def runs_ok_def exclusive_def
      floors_default_def profile_map.keyed_empty preset_map.keyed_empty role_map.keyed_empty
      agent_map.keyed_empty task_map.keyed_empty handoff_map.keyed_empty thread_map.keyed_empty
      attachment_map.keyed_empty node_map.keyed_empty group_map.keyed_empty
      connection_map.keyed_empty routine_map.keyed_empty run_map.keyed_empty)

section \<open>Knowing more keeps every part\<close>

lemma agents_ok_mono:
  assumes "agents_ok kr ke kp agents archived"
    and "\<And>r. kr r \<Longrightarrow> kr' r" and "\<And>e. ke e \<Longrightarrow> ke' e" and "\<And>p. kp p \<Longrightarrow> kp' p"
  shows "agents_ok kr' ke' kp' agents archived"
  using assms unfolding agents_ok_def agent_refs_ok_def by blast

lemma tasks_ok_mono: "tasks_ok ka tasks \<Longrightarrow> (\<And>a. ka a \<Longrightarrow> ka' a) \<Longrightarrow> tasks_ok ka' tasks"
  unfolding tasks_ok_def by blast

lemma handoff_refs_ok_mono:
  assumes "handoff_refs_ok ka kt ks h" and "\<And>a. ka a \<Longrightarrow> ka' a" and "\<And>t. kt t \<Longrightarrow> kt' t"
    and "\<And>r s. ks r s \<Longrightarrow> ks' r s"
  shows "handoff_refs_ok ka' kt' ks' h"
  using assms unfolding handoff_refs_ok_def by blast

lemma handoffs_ok_mono:
  assumes ok: "handoffs_ok ka kt ks hs" and more: "\<And>a. ka a \<Longrightarrow> ka' a" "\<And>t. kt t \<Longrightarrow> kt' t"
    "\<And>r s. ks r s \<Longrightarrow> ks' r s"
  shows "handoffs_ok ka' kt' ks' hs"
proof -
  have "handoff_refs_ok ka kt ks h \<Longrightarrow> handoff_refs_ok ka' kt' ks' h" for h
    using handoff_refs_ok_mono more by blast
  with ok show ?thesis unfolding handoffs_ok_def by simp
qed

lemma chat_ok_mono: "chat_ok ka threads atts \<Longrightarrow> (\<And>a. ka a \<Longrightarrow> ka' a) \<Longrightarrow> chat_ok ka' threads atts"
  unfolding chat_ok_def thread_ok_def by blast

lemma canvas_ok_mono:
  "canvas_ok known nodes groups connections \<Longrightarrow> (\<And>t. known t \<Longrightarrow> known' t) \<Longrightarrow>
     canvas_ok known' nodes groups connections"
  unfolding canvas_ok_def by blast

lemma known_target_mono:
  "known_target ka kt kh t \<Longrightarrow> (\<And>a. ka a \<Longrightarrow> ka' a) \<Longrightarrow> (\<And>t. kt t \<Longrightarrow> kt' t) \<Longrightarrow>
     (\<And>h. kh h \<Longrightarrow> kh' h) \<Longrightarrow> known_target ka' kt' kh' t"
  by (cases t) auto

lemma floors_ok_mono:
  "floors_ok ka kt nodes f \<Longrightarrow> (\<And>a. ka a \<Longrightarrow> ka' a) \<Longrightarrow> (\<And>t. kt t \<Longrightarrow> kt' t) \<Longrightarrow>
     (\<And>n. bm_contains nodes n \<Longrightarrow> bm_contains nodes' n) \<Longrightarrow> floors_ok ka' kt' nodes' f"
  unfolding floors_ok_def by blast

lemma runs_ok_mono: "runs_ok ka routines runs \<Longrightarrow> (\<And>a. ka a \<Longrightarrow> ka' a) \<Longrightarrow> runs_ok ka' routines runs"
  unfolding runs_ok_def run_pinned_def by blast

lemma known_agent_contains: "known_agent w a = contains w (ER_Agent a)"
  by (simp add: known_agent_def)

lemma ws_invD:
  assumes "ws_inv w"
  shows "config_ok (w_profiles w) (w_presets w) (w_roles w)"
    and "agents_ok (bm_contains (w_roles w)) (bm_contains (w_profiles w)) (bm_contains (w_presets w))
       (w_agents w) (w_archived w)"
    and "tasks_ok (known_agent w) (w_tasks w)"
    and "handoffs_ok (known_agent w) (bm_contains (w_tasks w)) (known_step (w_runs w)) (w_handoffs w)"
    and "chat_ok (known_agent w) (w_threads w) (w_attachments w)"
    and "canvas_ok (known_target (known_agent w) (bm_contains (w_tasks w)) (bm_contains (w_handoffs w)))
       (w_nodes w) (w_groups w) (w_connections w)"
    and "placed_ok (w_archived w) (w_nodes w)"
    and "floors_ok (known_agent w) (bm_contains (w_tasks w)) (w_nodes w) (w_floors w)"
    and "routines_ok (w_routines w)"
    and "runs_ok (known_agent w) (w_routines w) (w_runs w)"
  using assms by (simp_all add: ws_inv_def)

text \<open>
  What the agents, tasks, handoffs and steps an event adds do to the parts it leaves alone: the
  known things may only grow.
\<close>

definition knows_more :: "workspace \<Rightarrow> workspace \<Rightarrow> bool" where
  "knows_more w w' \<longleftrightarrow>
     (\<forall>a. known_agent w a \<longrightarrow> known_agent w' a) \<and>
     (\<forall>t. bm_contains (w_tasks w) t \<longrightarrow> bm_contains (w_tasks w') t) \<and>
     (\<forall>h. bm_contains (w_handoffs w) h \<longrightarrow> bm_contains (w_handoffs w') h) \<and>
     (\<forall>r s. known_step (w_runs w) r s \<longrightarrow> known_step (w_runs w') r s)"

lemma ws_inv_frame:
  assumes inv: "ws_inv w" and more: "knows_more w w'"
    and config: "w_profiles w' = w_profiles w \<and> w_presets w' = w_presets w \<and> w_roles w' = w_roles w \<or>
      config_ok (w_profiles w') (w_presets w') (w_roles w')"
    and agents: "w_profiles w' = w_profiles w \<and> w_presets w' = w_presets w \<and> w_roles w' = w_roles w \<and>
        w_agents w' = w_agents w \<and> w_archived w' = w_archived w \<or>
      agents_ok (bm_contains (w_roles w')) (bm_contains (w_profiles w')) (bm_contains (w_presets w'))
        (w_agents w') (w_archived w')"
    and tasks: "w_tasks w' = w_tasks w \<or> tasks_ok (known_agent w') (w_tasks w')"
    and handoffs: "w_handoffs w' = w_handoffs w \<or>
      handoffs_ok (known_agent w') (bm_contains (w_tasks w')) (known_step (w_runs w')) (w_handoffs w')"
    and chat: "w_threads w' = w_threads w \<and> w_attachments w' = w_attachments w \<or>
      chat_ok (known_agent w') (w_threads w') (w_attachments w')"
    and canvas: "w_nodes w' = w_nodes w \<and> w_groups w' = w_groups w \<and> w_connections w' = w_connections w \<or>
      canvas_ok (known_target (known_agent w') (bm_contains (w_tasks w')) (bm_contains (w_handoffs w')))
       (w_nodes w') (w_groups w') (w_connections w')"
    and placed: "w_archived w' = w_archived w \<and> w_nodes w' = w_nodes w \<or>
      placed_ok (w_archived w') (w_nodes w')"
    and floors: "w_nodes w' = w_nodes w \<and> w_floors w' = w_floors w \<or>
      floors_ok (known_agent w') (bm_contains (w_tasks w')) (w_nodes w') (w_floors w')"
    and routines: "w_routines w' = w_routines w \<or> routines_ok (w_routines w')"
    and runs: "w_routines w' = w_routines w \<and> w_runs w' = w_runs w \<or>
      runs_ok (known_agent w') (w_routines w') (w_runs w')"
  shows "ws_inv w'"
proof -
  note d = ws_invD [OF inv]
  have ka: "known_agent w a \<Longrightarrow> known_agent w' a" and
    kt: "bm_contains (w_tasks w) t \<Longrightarrow> bm_contains (w_tasks w') t" and
    kh: "bm_contains (w_handoffs w) h \<Longrightarrow> bm_contains (w_handoffs w') h" and
    ks: "known_step (w_runs w) r s \<Longrightarrow> known_step (w_runs w') r s" for a t h r s
    using more by (auto simp: knows_more_def)
  have "known_target (known_agent w) (bm_contains (w_tasks w)) (bm_contains (w_handoffs w)) t \<Longrightarrow>
      known_target (known_agent w') (bm_contains (w_tasks w')) (bm_contains (w_handoffs w')) t" for t
    using known_target_mono ka kt kh by metis
  then have canvas0: "canvas_ok (known_target (known_agent w') (bm_contains (w_tasks w'))
      (bm_contains (w_handoffs w'))) (w_nodes w) (w_groups w) (w_connections w)"
    using canvas_ok_mono [OF d(6)] by blast
  have tasks0: "tasks_ok (known_agent w') (w_tasks w)" using tasks_ok_mono [OF d(3)] ka by blast
  have handoffs0: "handoffs_ok (known_agent w') (bm_contains (w_tasks w')) (known_step (w_runs w'))
      (w_handoffs w)"
    using handoffs_ok_mono [OF d(4)] ka kt ks by blast
  have chat0: "chat_ok (known_agent w') (w_threads w) (w_attachments w)"
    using chat_ok_mono [OF d(5)] ka by blast
  have floors0: "floors_ok (known_agent w') (bm_contains (w_tasks w')) (w_nodes w) (w_floors w)"
    using floors_ok_mono [OF d(8)] ka kt by blast
  have runs0: "runs_ok (known_agent w') (w_routines w) (w_runs w)"
    using runs_ok_mono [OF d(10)] ka by blast
  show ?thesis
    unfolding ws_inv_def
  proof (intro conjI)
    show "config_ok (w_profiles w') (w_presets w') (w_roles w')" using config d(1) by auto
    show "agents_ok (bm_contains (w_roles w')) (bm_contains (w_profiles w'))
        (bm_contains (w_presets w')) (w_agents w') (w_archived w')"
      using agents d(2) by auto
    show "tasks_ok (known_agent w') (w_tasks w')" using tasks tasks0 by auto
    show "handoffs_ok (known_agent w') (bm_contains (w_tasks w')) (known_step (w_runs w'))
        (w_handoffs w')"
      using handoffs handoffs0 by auto
    show "chat_ok (known_agent w') (w_threads w') (w_attachments w')" using chat chat0 by auto
    show "canvas_ok (known_target (known_agent w') (bm_contains (w_tasks w'))
        (bm_contains (w_handoffs w'))) (w_nodes w') (w_groups w') (w_connections w')"
      using canvas canvas0 by auto
    show "placed_ok (w_archived w') (w_nodes w')" using placed d(7) by auto
    show "floors_ok (known_agent w') (bm_contains (w_tasks w')) (w_nodes w') (w_floors w')"
      using floors floors0 by auto
    show "routines_ok (w_routines w')" using routines d(9) by auto
    show "runs_ok (known_agent w') (w_routines w') (w_runs w')" using runs runs0 by auto
  qed
qed

end
