(* ===== verification/Workspace_Runs.thy ===== *)
theory Workspace_Runs
  imports Workspace_Inv
begin

text \<open>
  What a transition or a dispatch does to the collection of runs: a run keeps its identity and
  its steps, claims only shrink under a transition, and a dispatch takes exactly the claims no
  other step holds.
\<close>

section \<open>Transitions keep the identity of a run\<close>

definition run_identity ::
  "routine_run \<Rightarrow> routine_run_id \<times> routine_id \<times> routine_version_id \<times> routine_trigger_id option \<times>
     routine_occurrence_key option \<times> routine_run_pin \<times> timestamp" where
  "run_identity r =
     (run_id r, run_routine r, run_version r, run_trigger r, run_occurrence r, run_pin r,
      run_started_at r)"

lemma run_identity_frame [simp]:
  "run_identity (put_step k s r) = run_identity r"
  "run_identity (propagate_skips r) = run_identity r"
  "run_identity (r\<lparr>run_state := x, run_finished_at := y\<rparr>) = run_identity r"
  "run_identity (r\<lparr>run_steps := m, run_state := x\<rparr>) = run_identity r"
  by (simp_all add: run_identity_def put_step_def propagate_skips_def)

lemma run_identityD:
  assumes "run_identity r' = run_identity r"
  shows "run_id r' = run_id r" and "run_routine r' = run_routine r" and "run_version r' = run_version r"
    and "run_trigger r' = run_trigger r" and "run_occurrence r' = run_occurrence r"
    and "run_pin r' = run_pin r"
  using assms by (simp_all add: run_identity_def)

lemma propagate_rounds_get:
  "bm_get (propagate_rounds n v steps) k = Some s' \<Longrightarrow>
     \<exists>s. bm_get steps k = Some s \<and> (s' = s \<or> s' = skip s)"
proof (induction n arbitrary: steps)
  case (Suc n)
  show ?case
  proof (cases "blocked_steps v steps")
    case Nil
    with Suc.prems show ?thesis by simp
  next
    case (Cons b bs)
    with Suc.prems have "bm_get (propagate_rounds n v (skip_steps (b # bs) steps)) k = Some s'" by simp
    from Suc.IH [OF this] show ?thesis
      by (cases "bm_get steps k") (auto simp: bm_get_skip_steps split: if_splits)
  qed
qed simp

lemma propagate_rounds_contains [simp]:
  "bm_contains (propagate_rounds n v steps) k = bm_contains steps k"
proof (induction n arbitrary: steps)
  case (Suc n)
  have "bm_contains (skip_steps ids steps) k = bm_contains steps k" for ids
    by (simp add: bm_contains_def bm_get_skip_steps)
  with Suc.IH show ?case by (cases "blocked_steps v steps") simp_all
qed simp

lemma propagate_skips_contains [simp]:
  "bm_contains (run_steps (propagate_skips r)) k = bm_contains (run_steps r) k"
  unfolding propagate_skips_def by (simp del: propagate_rounds.simps)

lemma propagate_skips_get:
  assumes "bm_get (run_steps (propagate_skips r)) k = Some s'"
  obtains s where "bm_get (run_steps r) k = Some s" and "s' = s \<or> s' = skip s"
proof -
  have "bm_get (propagate_rounds (bm_len (run_steps r) + 1) (pin_version (run_pin r)) (run_steps r)) k = Some s'"
    using assms unfolding propagate_skips_def by (simp del: propagate_rounds.simps)
  from propagate_rounds_get [OF this] that show thesis by blast
qed

lemma step_run_claims_free [simp]:
  "\<not> step_state_holds_reservations (sr_state s) \<Longrightarrow> step_run_claims s = {}"
  by (simp add: step_run_claims_def)

lemma step_claims_put [simp]:
  "step_claims (put_step sid s r) k = (if k = sid then step_run_claims s else step_claims r k)"
  by (simp add: step_claims_def)

lemma step_claims_propagate: "step_claims (propagate_skips r) k \<subseteq> step_claims r k"
proof (cases "bm_get (run_steps (propagate_skips r)) k")
  case (Some s')
  obtain s where "bm_get (run_steps r) k = Some s" "s' = s \<or> s' = skip s"
    using propagate_skips_get [OF Some] .
  with Some show ?thesis by (auto simp: step_claims_def)
qed (simp add: step_claims_def)

lemma step_claims_same_steps: "run_steps r' = run_steps r \<Longrightarrow> step_claims r' k = step_claims r k"
  by (simp add: step_claims_def)

section \<open>The effect of a transition\<close>

text \<open>What every transition does to a run, as far as the rest of the workspace can see.\<close>

definition shrinks :: "routine_run \<Rightarrow> routine_run \<Rightarrow> bool" where
  "shrinks r r' \<longleftrightarrow>
     run_identity r' = run_identity r \<and>
     (\<forall>k. bm_contains (run_steps r') k = bm_contains (run_steps r) k) \<and>
     (\<forall>k. step_claims r' k \<subseteq> step_claims r k) \<and>
     (run_is_active r' \<longrightarrow> run_is_active r)"

lemma shrinks_put:
  assumes "bm_get (run_steps r) sid = Some s" and "step_run_claims s' \<subseteq> step_run_claims s"
  shows "shrinks r (put_step sid s' r)"
  using assms by (auto simp: shrinks_def run_is_active_def bm_contains_def step_claims_def)

lemma shrinks_propagate:
  assumes "shrinks r r'" shows "shrinks r (propagate_skips r')"
  using assms step_claims_propagate [of r'] unfolding shrinks_def run_is_active_def by fastforce

lemma shrinks_put_free:
  assumes "bm_get (run_steps r) sid = Some s" and "\<not> step_state_holds_reservations (sr_state s')"
  shows "shrinks r (put_step sid s' r)" and "shrinks r (propagate_skips (put_step sid s' r))"
proof -
  show put: "shrinks r (put_step sid s' r)" by (rule shrinks_put [OF assms(1)]) (simp add: assms(2))
  show "shrinks r (propagate_skips (put_step sid s' r))" by (rule shrinks_propagate [OF put])
qed

lemma shrinks_cancelling:
  assumes "request_cancellation at r = Inr r'"
  shows "shrinks r r'"
proof -
  let ?f = "\<lambda>_ s. if waiting_state (sr_state s) then s\<lparr>sr_state := SS_Cancelled\<rparr> else s"
  have r': "r' = r\<lparr>run_steps := bm_map ?f (run_steps r), run_state := RS_Cancelling\<rparr>"
    and act: "run_is_active r"
    using assms by (auto simp: request_cancellation_def run_is_active_def split: if_splits)
  have "step_claims r' k \<subseteq> step_claims r k" for k
    unfolding r' by (cases "bm_get (run_steps r) k") (simp_all add: step_claims_def bm_get_map)
  then show ?thesis using act by (simp add: shrinks_def r')
qed

lemma shrinks_settle: "settle at r = (r', True) \<Longrightarrow> shrinks r r'"
  by (auto simp: settle_True_iff shrinks_def run_is_active_def step_claims_def)

lemma shrinks_refl [simp]: "shrinks r r"
  by (simp add: shrinks_def)

lemma apply_transition_shrinks:
  assumes "apply_transition t r = Inr r'"
  shows "shrinks r r'"
proof (cases t)
  case (RT_AwaitApproval sid)
  with assms show ?thesis
    by (auto simp: apply_transition_def require_approval_Inr_iff intro: shrinks_put_free)
next
  case (RT_RecordApproval sid rec)
  with assms show ?thesis
    by (auto simp: apply_transition_def record_approval_def result_iff step_mut_Inr_iff
        split: if_splits routine_approval_decision.splits intro: shrinks_put_free)
next
  case (RT_CompleteStep sid outs at)
  with assms obtain s s' where "bm_get (run_steps r) sid = Some s"
    "put_step sid (s'\<lparr>sr_outputs := outs, sr_state := SS_Completed\<rparr>) r = r'"
    by (auto simp: apply_transition_def complete_step_Inr_iff)
  then show ?thesis using shrinks_put_free(1) by force
next
  case (RT_FailStep sid reason at)
  with assms obtain b where "fail_step sid reason at r = Inr (r', b)"
    by (auto simp: apply_transition_def res_bind_Inr_iff)
  then obtain st s s' where s: "bm_get (run_steps r) sid = Some s"
    and r': "(if \<not> retry_left st s' then propagate_skips (put_step sid (failed_step st reason s') r)
             else put_step sid (failed_step st reason s') r) = r'"
    unfolding fail_step_Inr_iff by blast
  have "\<not> step_state_holds_reservations (sr_state (failed_step st reason s'))"
    by (simp add: failed_step_def)
  from shrinks_put_free [OF s this] r' show ?thesis by (auto split: if_splits)
next
  case (RT_InterruptStep sid reason at)
  with assms obtain s where "bm_get (run_steps r) sid = Some s" "sr_state s = SS_Dispatched"
    "r' = put_step sid (s\<lparr>sr_state := SS_Interrupted,
          sr_interruption := Some \<lparr>intr_reason = reason, intr_detected_at = at\<rparr>\<rparr>) r"
    by (auto simp: apply_transition_def interrupt_step_Inr_iff)
  then show ?thesis using shrinks_put by (force simp: step_run_claims_def)
next
  case (RT_ResolveInterruption sid at)
  with assms obtain st s s' where s: "bm_get (run_steps r) sid = Some s"
    and r': "(let u = put_step sid (s'\<lparr>sr_interruption := None, sr_state := resolved_state r st s'\<rparr>) r
         in (if resolved_state r st s' = SS_Failed \<or> resolved_state r st s' = SS_Cancelled
             then propagate_skips u else u) = r')"
    by (auto simp: apply_transition_def resolve_interruption_Inr_iff)
  have "\<not> step_state_holds_reservations
      (sr_state (s'\<lparr>sr_interruption := None, sr_state := resolved_state r st s'\<rparr>))"
    by (simp add: resolved_state_def)
  from shrinks_put_free [OF s this] r' show ?thesis by (auto simp: Let_def split: if_splits)
next
  case (RT_CancelStep sid reason at)
  with assms show ?thesis
    by (auto simp: apply_transition_def cancel_step_def result_iff step_mut_Inr_iff Let_def
        split: if_splits intro!: shrinks_put_free)
next
  case (RT_RequestCancellation at)
  with assms shrinks_cancelling show ?thesis by (auto simp: apply_transition_def)
next
  case (RT_Settle at)
  with assms shrinks_settle show ?thesis
    by (auto simp: apply_transition_def split: prod.splits bool.splits)
qed

end
