(* ===== verification/Routine_Run_Ends.thy ===== *)
theory Routine_Run_Ends
  imports Workspace_Runs
begin

text \<open>
  A routine run cannot go on for ever. Every operation that changes a run lowers a cost that
  counts the attempts its steps have left, the stage each step is in, and the state of the run.
\<close>

section \<open>The moves of a run\<close>

inductive run_step :: "routine_run \<Rightarrow> routine_run \<Rightarrow> bool" where
  step_transition: "apply_transition t r = Inr r' \<Longrightarrow> run_step r r'"
| step_dispatch: "dispatch sid a r = Inr r' \<Longrightarrow> at_outcome a = None \<Longrightarrow> run_step r r'"

inductive_cases run_stepE: "run_step r r'"

definition run_move :: "routine_run \<Rightarrow> routine_run \<Rightarrow> bool" where
  "run_move r r' \<longleftrightarrow> run_step r r' \<and> r' \<noteq> r"

lemma run_step_wf: "run_step r r' \<Longrightarrow> run_wf r \<Longrightarrow> run_wf r'"
  by (erule run_stepE) (auto intro: apply_transition_wf dispatch_wf)

lemma run_steps_wf: "run_step\<^sup>*\<^sup>* r r' \<Longrightarrow> run_wf r \<Longrightarrow> run_wf r'"
  by (induction rule: rtranclp_induct) (auto intro: run_step_wf)

lemma dispatch_identity: "dispatch sid a r = Inr r' \<Longrightarrow> run_identity r' = run_identity r"
  by (auto simp: dispatch_Inr_iff)

lemma run_step_identity: "run_step r r' \<Longrightarrow> run_identity r' = run_identity r"
  by (erule run_stepE) (auto dest: apply_transition_shrinks dispatch_identity simp: shrinks_def)

lemma run_steps_identity: "run_step\<^sup>*\<^sup>* r r' \<Longrightarrow> run_identity r' = run_identity r"
  by (induction rule: rtranclp_induct) (auto dest: run_step_identity)

section \<open>The cost of a run\<close>

definition step_rank :: "routine_step_run \<Rightarrow> nat" where
  "step_rank s =
     (case sr_state s of
        SS_Dispatched \<Rightarrow> 7
      | SS_Interrupted \<Rightarrow> 6
      | SS_Pending \<Rightarrow> if sr_approval s = None then 5 else 3
      | SS_AwaitingApproval \<Rightarrow> if sr_approval s = None then 4 else 2
      | _ \<Rightarrow> 0)"

definition attempt_limit :: "routine_version \<Rightarrow> routine_step_id \<Rightarrow> nat" where
  "attempt_limit v k =
     (case version_step v k of None \<Rightarrow> 0 | Some st \<Rightarrow> unat (max_attempts (st_retry st)))"

definition step_cost :: "routine_version \<Rightarrow> routine_step_id \<Rightarrow> routine_step_run \<Rightarrow> nat" where
  "step_cost v k s = 8 * (attempt_limit v k - length (sr_attempts s)) + step_rank s"

definition cost_at :: "routine_run \<Rightarrow> routine_step_id \<Rightarrow> nat" where
  "cost_at r k =
     (case bm_get (run_steps r) k of None \<Rightarrow> 0 | Some s \<Rightarrow> step_cost (pin_version (run_pin r)) k s)"

definition run_rank :: "routine_run_state \<Rightarrow> nat" where
  "run_rank st = (if run_state_is_terminal st then 0 else if st = RS_Cancelling then 1 else 2)"

definition run_cost :: "routine_run \<Rightarrow> nat" where
  "run_cost r = (\<Sum>k | bm_contains (run_steps r) k. cost_at r k) + run_rank (run_state r)"

lemma step_rank_simps [simp]:
  "sr_state s = SS_Dispatched \<Longrightarrow> step_rank s = 7"
  "sr_state s = SS_Interrupted \<Longrightarrow> step_rank s = 6"
  "sr_state s = SS_Pending \<Longrightarrow> step_rank s = (if sr_approval s = None then 5 else 3)"
  "sr_state s = SS_AwaitingApproval \<Longrightarrow> step_rank s = (if sr_approval s = None then 4 else 2)"
  "step_state_is_terminal (sr_state s) \<Longrightarrow> step_rank s = 0"
  by (auto simp: step_rank_def step_state_is_terminal_def)

lemma step_rank_pos: "\<not> step_state_is_terminal (sr_state s) \<Longrightarrow> 0 < step_rank s"
  by (cases "sr_state s") simp_all

lemma sum_cost_mono:
  assumes "\<And>k. bm_contains (run_steps r') k = bm_contains (run_steps r) k"
    and "\<And>k. cost_at r' k \<le> cost_at r k"
  shows "(\<Sum>k | bm_contains (run_steps r') k. cost_at r' k) \<le> (\<Sum>k | bm_contains (run_steps r) k. cost_at r k)"
  unfolding assms(1) by (intro sum_mono assms(2))

lemma sum_cost_strict:
  assumes same: "\<And>k. bm_contains (run_steps r') k = bm_contains (run_steps r) k"
    and le: "\<And>k. cost_at r' k \<le> cost_at r k"
    and less: "cost_at r' i < cost_at r i"
  shows "(\<Sum>k | bm_contains (run_steps r') k. cost_at r' k) < (\<Sum>k | bm_contains (run_steps r) k. cost_at r k)"
proof -
  have "bm_contains (run_steps r) i"
    using less by (cases "bm_get (run_steps r) i") (simp_all add: cost_at_def bm_contains_def)
  then show ?thesis
    unfolding same using le less by (intro sum_strict_mono_ex1) (auto simp: finite_bm_contains)
qed

lemma cost_at_put:
  "cost_at (put_step k s r) j = (if j = k then step_cost (pin_version (run_pin r)) k s else cost_at r j)"
  by (cases "bm_get (run_steps r) j") (simp_all add: cost_at_def)

lemma run_cost_put:
  assumes old: "bm_get (run_steps r) k = Some s"
    and less: "step_cost (pin_version (run_pin r)) k s' < step_cost (pin_version (run_pin r)) k s"
  shows "run_cost (put_step k s' r) < run_cost r"
proof -
  have "(\<Sum>j | bm_contains (run_steps (put_step k s' r)) j. cost_at (put_step k s' r) j) <
      (\<Sum>j | bm_contains (run_steps r) j. cost_at r j)"
  proof (rule sum_cost_strict)
    show "cost_at (put_step k s' r) k < cost_at r k" using old less by (simp add: cost_at_put) (simp add: cost_at_def)
    show "cost_at (put_step k s' r) j \<le> cost_at r j" for j
      using old less unfolding cost_at_put by (auto simp: cost_at_def)
    show "bm_contains (run_steps (put_step k s' r)) j = bm_contains (run_steps r) j" for j
      using old by (auto simp: bm_contains_def)
  qed
  then show ?thesis by (simp add: run_cost_def)
qed

lemma propagate_skips_fields [simp]:
  "run_pin (propagate_skips r) = run_pin r" "run_state (propagate_skips r) = run_state r"
  by (simp_all add: propagate_skips_def)

lemma run_cost_propagate: "run_cost (propagate_skips r) \<le> run_cost r"
proof -
  have "cost_at (propagate_skips r) k \<le> cost_at r k" for k
  proof (cases "bm_get (run_steps (propagate_skips r)) k")
    case (Some s')
    obtain s where s: "bm_get (run_steps r) k = Some s" "s' = s \<or> s' = skip s"
      using propagate_skips_get [OF Some] .
    have "step_rank (skip s) = 0" by simp
    with s have "step_cost v k s' \<le> step_cost v k s" for v by (auto simp: step_cost_def)
    with s(1) Some show ?thesis by (simp add: cost_at_def)
  qed (simp add: cost_at_def)
  then have "(\<Sum>k | bm_contains (run_steps (propagate_skips r)) k. cost_at (propagate_skips r) k) \<le>
      (\<Sum>k | bm_contains (run_steps r) k. cost_at r k)"
    by (intro sum_cost_mono) simp_all
  then show ?thesis by (simp add: run_cost_def)
qed

lemma run_cost_put_dead:
  assumes "bm_get (run_steps r) k = Some s"
    and "step_cost (pin_version (run_pin r)) k s' < step_cost (pin_version (run_pin r)) k s"
  shows "run_cost (propagate_skips (put_step k s' r)) < run_cost r"
  using run_cost_put [OF assms] run_cost_propagate le_less_trans by blast

lemma finish_attempt_cost:
  assumes "finish_attempt oc at s = Inr s'"
  shows "length (sr_attempts s') = length (sr_attempts s)" and "sr_approval s' = sr_approval s"
  using assms by (auto simp: finish_attempt_Inr_iff open_attempt_def)

section \<open>Every move lowers the cost\<close>

lemma cancel_step_lowers:
  assumes s: "bm_get (run_steps r) sid = Some s" and alive: "\<not> step_state_is_terminal (sr_state s)"
    and "cancel_step sid reason at r = Inr r'"
  shows "run_cost r' < run_cost r"
proof -
  obtain s' where u: "length (sr_attempts s') = length (sr_attempts s)"
    and r': "r' = propagate_skips (put_step sid ((if reason \<noteq> None then s'\<lparr>sr_failure := reason\<rparr> else s')
        \<lparr>sr_state := SS_Cancelled\<rparr>) r)"
  proof -
    obtain s' where fin: "(if sr_state s = SS_Dispatched then finish_attempt AO_Cancelled at s else Inr s) = Inr s'"
      and r': "propagate_skips (put_step sid ((if reason \<noteq> None then s'\<lparr>sr_failure := reason\<rparr> else s')
        \<lparr>sr_state := SS_Cancelled\<rparr>) r) = r'"
      using assms(3) s alive unfolding cancel_step_def step_mut_def Let_def
      by (simp add: res_bind_Inr_iff del: not_None_eq) blast
    have "length (sr_attempts s') = length (sr_attempts s)"
      using fin finish_attempt_cost(1) by (auto split: if_splits)
    then show thesis using r' [symmetric] by (rule that)
  qed
  have "step_rank (u\<lparr>sr_state := SS_Cancelled\<rparr>) < step_rank s" for u using step_rank_pos [OF alive] by simp
  with u show ?thesis unfolding r' by (intro run_cost_put_dead [OF s]) (simp add: step_cost_def)
qed

lemma cancel_step_cost:
  assumes "cancel_step sid reason at r = Inr r'"
  shows "r' = r \<or> run_cost r' < run_cost r"
proof -
  obtain s where s: "bm_get (run_steps r) sid = Some s"
    using assms by (auto simp: cancel_step_def res_bind_Inr_iff step_mut_Inr_iff)
  show ?thesis
  proof (cases "step_state_is_terminal (sr_state s)")
    case True
    then show ?thesis using assms s by (simp add: cancel_step_def step_mut_def)
  qed (use cancel_step_lowers [OF s _ assms] in blast)
qed

lemma request_cancellation_cost:
  assumes "request_cancellation at r = Inr r'"
  shows "r' = r \<or> run_cost r' < run_cost r"
proof -
  let ?f = "\<lambda>_ s. if waiting_state (sr_state s) then s\<lparr>sr_state := SS_Cancelled\<rparr> else s"
  have r': "r' = r\<lparr>run_steps := bm_map ?f (run_steps r), run_state := RS_Cancelling\<rparr>"
    and act: "\<not> run_state_is_terminal (run_state r)"
    using assms by (auto simp: request_cancellation_def split: if_splits)
  have le: "cost_at r' k \<le> cost_at r k" for k
    unfolding r' by (cases "bm_get (run_steps r) k") (auto simp: cost_at_def bm_get_map step_cost_def)
  have same: "bm_contains (run_steps r') k = bm_contains (run_steps r) k" for k by (simp add: r')
  have mono: "(\<Sum>k | bm_contains (run_steps r') k. cost_at r' k) \<le>
      (\<Sum>k | bm_contains (run_steps r) k. cost_at r k)"
    by (rule sum_cost_mono) (use same le in auto)
  show ?thesis
  proof (cases "run_state r = RS_Cancelling")
    case False
    then have "run_rank (run_state r') < run_rank (run_state r)" using act by (simp add: r' run_rank_def)
    with mono show ?thesis by (simp add: run_cost_def)
  next
    case canc: True
    show ?thesis
    proof (cases "\<exists>k s. bm_get (run_steps r) k = Some s \<and> waiting_state (sr_state s)")
      case True
      then obtain k s where s: "bm_get (run_steps r) k = Some s" "waiting_state (sr_state s)" by blast
      then have "cost_at r' k < cost_at r k"
        using step_rank_pos [of s] by (auto simp: r' cost_at_def bm_get_map step_cost_def)
      from sum_cost_strict [OF same le this] show ?thesis by (simp add: run_cost_def r' canc)
    next
      case False
      have "bm_map ?f (run_steps r) = run_steps r"
      proof (rule bmap_ext)
        fix k
        show "bm_get (bm_map ?f (run_steps r)) k = bm_get (run_steps r) k"
          using False by (cases "bm_get (run_steps r) k") (auto simp: bm_get_map)
      qed
      with canc show ?thesis by (simp add: r')
    qed
  qed
qed

text \<open>Only a cancellation may leave a run as it is.\<close>

fun cancels :: "routine_transition \<Rightarrow> bool" where
  "cancels (RT_CancelStep _ _ _) = True"
| "cancels (RT_RequestCancellation _) = True"
| "cancels _ = False"

lemma apply_transition_lowers:
  assumes "apply_transition t r = Inr r'"
  shows "cancels t \<or> run_cost r' < run_cost r"
proof (cases t)
  case (RT_AwaitApproval sid)
  with assms obtain s where s: "bm_get (run_steps r) sid = Some s" "sr_state s = SS_Pending"
    and r': "r' = put_step sid (s\<lparr>sr_state := SS_AwaitingApproval\<rparr>) r"
    by (auto simp: apply_transition_def require_approval_Inr_iff)
  show ?thesis unfolding r' by (intro disjI2 run_cost_put [OF s(1)]) (simp add: step_cost_def s(2))
next
  case (RT_RecordApproval sid rec)
  with assms obtain s where s: "bm_get (run_steps r) sid = Some s" "waiting_state (sr_state s)"
      "sr_approval s = None"
    and r': "r' = put_step sid (s\<lparr>sr_approval := Some rec, sr_state := SS_Pending\<rparr>) r \<or>
      r' = propagate_skips (put_step sid (s\<lparr>sr_approval := Some rec, sr_state := SS_Cancelled\<rparr>) r)"
    by (auto simp: apply_transition_def record_approval_def res_bind_Inr_iff step_mut_Inr_iff
        split: if_splits routine_approval_decision.splits)
  have "3 < step_rank s" using s(2,3) by auto
  then show ?thesis
    using r' run_cost_put [OF s(1)] run_cost_put_dead [OF s(1)] by (auto simp: step_cost_def)
next
  case (RT_CompleteStep sid outs at)
  with assms obtain s s' where s: "bm_get (run_steps r) sid = Some s" "sr_state s = SS_Dispatched"
      "finish_attempt AO_Completed at s = Inr s'"
    and r': "put_step sid (s'\<lparr>sr_outputs := outs, sr_state := SS_Completed\<rparr>) r = r'"
    by (auto simp: apply_transition_def complete_step_Inr_iff)
  show ?thesis unfolding r' [symmetric]
    by (intro disjI2 run_cost_put [OF s(1)]) (simp add: step_cost_def finish_attempt_cost [OF s(3)] s(2))
next
  case (RT_FailStep sid reason at)
  with assms obtain b where "fail_step sid reason at r = Inr (r', b)"
    by (auto simp: apply_transition_def res_bind_Inr_iff)
  then obtain st s s' where s: "bm_get (run_steps r) sid = Some s"
      "step_state_holds_reservations (sr_state s)" "finish_attempt AO_Failed at s = Inr s'"
    and r': "(if \<not> retry_left st s' then propagate_skips (put_step sid (failed_step st reason s') r)
             else put_step sid (failed_step st reason s') r) = r'"
    unfolding fail_step_Inr_iff by blast
  have "step_rank (failed_step st reason s') < step_rank s"
    using s(2) by (cases "sr_state s") (auto simp: failed_step_def)
  moreover have "length (sr_attempts (failed_step st reason s')) = length (sr_attempts s)"
    using finish_attempt_cost [OF s(3)] by (simp add: failed_step_def)
  ultimately have "step_cost v sid (failed_step st reason s') < step_cost v sid s" for v
    by (simp add: step_cost_def)
  with r' run_cost_put [OF s(1)] run_cost_put_dead [OF s(1)] show ?thesis by (auto split: if_splits)
next
  case (RT_InterruptStep sid reason at)
  with assms obtain s where s: "bm_get (run_steps r) sid = Some s" "sr_state s = SS_Dispatched"
    and r': "r' = put_step sid (s\<lparr>sr_state := SS_Interrupted,
          sr_interruption := Some \<lparr>intr_reason = reason, intr_detected_at = at\<rparr>\<rparr>) r"
    by (auto simp: apply_transition_def interrupt_step_Inr_iff)
  show ?thesis unfolding r' by (intro disjI2 run_cost_put [OF s(1)]) (simp add: step_cost_def s(2))
next
  case (RT_ResolveInterruption sid at)
  with assms obtain st s s' where s: "bm_get (run_steps r) sid = Some s" "sr_state s = SS_Interrupted"
      "finish_attempt AO_Cancelled at s = Inr s'"
    and r': "(let u = put_step sid (s'\<lparr>sr_interruption := None, sr_state := resolved_state r st s'\<rparr>) r
         in (if resolved_state r st s' = SS_Failed \<or> resolved_state r st s' = SS_Cancelled
             then propagate_skips u else u) = r')"
    by (auto simp: apply_transition_def resolve_interruption_Inr_iff)
  let ?u = "s'\<lparr>sr_interruption := None, sr_state := resolved_state r st s'\<rparr>"
  have "step_rank ?u < step_rank s" using s(2) by (simp add: resolved_state_def)
  then have "step_cost v sid ?u < step_cost v sid s" for v
    using finish_attempt_cost [OF s(3)] by (simp add: step_cost_def)
  with r' run_cost_put [OF s(1)] run_cost_put_dead [OF s(1)] show ?thesis
    by (auto simp: Let_def split: if_splits)
next
  case (RT_Settle at)
  with assms have "settle at r = (r', True)"
    by (auto simp: apply_transition_def split: prod.splits bool.splits)
  then obtain st where "run_state_is_terminal st" and act: "\<not> run_state_is_terminal (run_state r)"
    and r': "r' = r\<lparr>run_state := st, run_finished_at := Some at\<rparr>"
    unfolding settle_True_iff by (elim conjE) (rule that, auto)
  then have "run_rank (run_state r') < run_rank (run_state r)" by (simp add: run_rank_def)
  moreover have "cost_at r' = cost_at r" by (simp add: r' cost_at_def [abs_def] cong: option.case_cong)
  ultimately show ?thesis by (simp add: run_cost_def r')
qed simp_all

lemma apply_transition_cost:
  assumes "apply_transition t r = Inr r'"
  shows "r' = r \<or> run_cost r' < run_cost r"
proof (cases "cancels t")
  case True
  with assms cancel_step_cost request_cancellation_cost show ?thesis
    by (cases t) (auto simp: apply_transition_def)
qed (use apply_transition_lowers [OF assms] in blast)

lemma dispatch_cost:
  assumes "dispatch sid a r = Inr r'"
  shows "run_cost r' < run_cost r"
proof -
  obtain st s where st: "version_step (pin_version (run_pin r)) sid = Some st"
    and s: "bm_get (run_steps r) sid = Some s" "sr_state s = SS_Pending"
    and ord: "unat (at_ordinal a) = length (sr_attempts s) + 1" "at_ordinal a \<le> max_attempts (st_retry st)"
    and r': "r' = put_step sid (s\<lparr>sr_attempts := sr_attempts s @ [a], sr_state := SS_Dispatched\<rparr>) r"
    using assms by (auto simp: dispatch_Inr_iff)
  have "length (sr_attempts s) + 1 \<le> attempt_limit (pin_version (run_pin r)) sid"
    using ord by (simp add: attempt_limit_def st word_le_nat_alt)
  then show ?thesis
    unfolding r' by (intro run_cost_put [OF s(1)]) (auto simp: step_cost_def s(2))
qed

lemma run_move_cost: "run_move r r' \<Longrightarrow> run_cost r' < run_cost r"
  by (auto simp: run_move_def elim!: run_stepE dest: apply_transition_cost dispatch_cost)

lemma run_moves_bounded: "(run_move ^^ n) r r' \<Longrightarrow> n + run_cost r' \<le> run_cost r"
proof (induction n arbitrary: r')
  case (Suc n)
  then obtain u where "(run_move ^^ n) r u" "run_move u r'" by auto
  with Suc.IH [of u] run_move_cost [of u r'] show ?case by simp
qed simp

end
