(* ===== verification/Routine_Properties.thy ===== *)
theory Routine_Properties
  imports Routine_Run_Ends Routine_Run_Bindings Routine_Trigger
begin

text \<open>
  The guarantees of routines: what a stored version promises, when a schedule fires, and what
  holds of every history of a run.
\<close>

section \<open>A sample routine\<close>

text \<open>Two steps; the second uses what the first produced. The witnesses below use it.\<close>

definition sample_first :: routine_step where
  "sample_first =
     \<lparr>st_id = Id 1, st_name = Name ''plan'', st_agent = Id 4, st_prompt = Content ''plan it'',
      st_depends_on = bm_empty, st_bindings = bm_empty, st_outputs = bs_of_list [Key ''plan''],
      st_approval = RA_NotRequired, st_retry = RetryPolicy 1,
      st_claims = \<lparr>claim_checkout = CC_AgentDefault, claim_resources = bm_empty\<rparr>\<rparr>"

definition sample_second :: routine_step where
  "sample_second =
     \<lparr>st_id = Id 2, st_name = Name ''build'', st_agent = Id 4, st_prompt = Content ''do {{plan}}'',
      st_depends_on = bs_of_list [Id 1],
      st_bindings = bm_of_list [(Key ''plan'', BS_StepOutput (Id 1) (Key ''plan''))],
      st_outputs = bm_empty, st_approval = RA_NotRequired, st_retry = RetryPolicy 1,
      st_claims = \<lparr>claim_checkout = CC_AgentDefault, claim_resources = bm_empty\<rparr>\<rparr>"

definition sample_version :: routine_version where
  "sample_version =
     \<lparr>ver_id = Id 9, ver_routine = Id 5, ver_number = 1, ver_inputs = [],
      ver_steps = [sample_first, sample_second], ver_template = None, ver_created_at = 100\<rparr>"

lemma sample_version_new:
  "routine_version_new (Id 9) (Id 5) 1 [] [sample_second, sample_first] None 100 = Inr sample_version"
  by code_simp

lemma sample_version_ok: "version_ok sample_version"
  using routine_version_new_wf [OF sample_version_new]
  by (simp add: version_ok_def sample_version_def sample_first_def sample_second_def)

definition sample_checkout :: routine_checkout where
  "sample_checkout = RoutineCheckout (WorkspaceDirectory [CHR 0x2F])"

definition sample_pin :: routine_run_pin where
  "sample_pin =
     \<lparr>pin_version = sample_version, pin_inputs = bm_empty,
      pin_agents = bm_of_list [(Id 1, Id 4), (Id 2, Id 4)],
      pin_checkouts = bm_of_list [(Id 1, sample_checkout), (Id 2, sample_checkout)],
      pin_revisions = bm_empty, pin_template = None\<rparr>"

definition sample_run :: routine_run where
  "sample_run = run_start (Id 30) (Some (Id 8)) (Some (Key ''tick-1'')) sample_pin 200"

definition sample_attempt :: "u32 \<Rightarrow> routine_attempt" where
  "sample_attempt n =
     \<lparr>at_id = Id 40, at_ordinal = n, at_task = Id 50, at_handoff = Id 60, at_agent = Id 4,
      at_checkout = sample_checkout, at_resources = bm_empty, at_started_at = 210,
      at_outcome = None, at_finished_at = None\<rparr>"

definition sample_dispatched :: routine_run where
  "sample_dispatched = put_step (Id 1)
     \<lparr>sr_step = Id 1, sr_state = SS_Dispatched, sr_attempts = [sample_attempt 1],
      sr_outputs = bm_empty, sr_approval = None, sr_interruption = None, sr_failure = None\<rparr> sample_run"

definition sample_outputs :: "(routine_output_key, routine_value) bmap" where
  "sample_outputs = bm_of_list [(Key ''plan'', RoutineValue ''first a, then b'')]"

definition sample_completed :: routine_run where
  "sample_completed = put_step (Id 1)
     \<lparr>sr_step = Id 1, sr_state = SS_Completed,
      sr_attempts = [(sample_attempt 1)\<lparr>at_outcome := Some AO_Completed, at_finished_at := Some 220\<rparr>],
      sr_outputs = sample_outputs, sr_approval = None, sr_interruption = None, sr_failure = None\<rparr> sample_run"

lemma sample_run_fields:
  "run_pin sample_run = sample_pin" "run_state sample_run = RS_Running"
  "version_step sample_version (Id 1) = Some sample_first"
  "version_step sample_version (Id 2) = Some sample_second"
  "bm_get (run_steps sample_run) (Id 1) = Some (step_run_pending (Id 1))"
  "bm_get (run_steps sample_run) (Id 2) = Some (step_run_pending (Id 2))"
  by (simp_all add: sample_run_def run_start_def sample_pin_def sample_version_def sample_first_def
      sample_second_def version_step_def bm_of_list_def)

lemma sample_dispatch: "dispatch (Id 1) (sample_attempt 1) sample_run = Inr sample_dispatched"
proof -
  have "dependencies_completed sample_run (Id 1)"
    by (simp add: dependencies_completed_def sample_run_fields sample_pin_def)
      (simp add: sample_first_def list_all_iff bs_elems_def)
  moreover have "pin_version sample_pin = sample_version" by (simp add: sample_pin_def)
  ultimately show ?thesis
    by (simp add: dispatch_Inr_iff sample_run_fields sample_dispatched_def step_run_pending_def
        sample_attempt_def) (simp add: sample_first_def)
qed

lemma sample_complete:
  "apply_transition (RT_CompleteStep (Id 1) sample_outputs 220) sample_dispatched = Inr sample_completed"
proof -
  let ?s = "\<lparr>sr_step = Id 1, sr_state = SS_Dispatched, sr_attempts = [sample_attempt 1],
      sr_outputs = bm_empty, sr_approval = None, sr_interruption = None, sr_failure = None\<rparr>"
  have "version_step (pin_version (run_pin sample_dispatched)) (Id 1) = Some sample_first"
    by (simp add: version_step_def sample_dispatched_def sample_run_def run_start_def sample_pin_def
        sample_version_def sample_first_def)
  moreover have "outputs_match sample_first sample_outputs"
    by (simp add: outputs_match_def declares_output_def sample_first_def sample_outputs_def bm_of_list_def)
  moreover have "finish_attempt AO_Completed 220 ?s = Inr (?s\<lparr>sr_attempts :=
      [(sample_attempt 1)\<lparr>at_outcome := Some AO_Completed, at_finished_at := Some 220\<rparr>]\<rparr>)"
    by (simp add: finish_attempt_Inr_iff open_attempt_def sample_attempt_def)
  moreover have "bm_get (run_steps sample_dispatched) (Id 1) = Some ?s" by (simp add: sample_dispatched_def)
  moreover have "put_step (Id 1) s sample_dispatched = put_step (Id 1) s sample_run" for s
    by (simp add: sample_dispatched_def put_step_def bmap_ext)
  ultimately show ?thesis
    by (simp add: apply_transition_def complete_step_Inr_iff sample_completed_def)
qed

lemma sample_history: "run_step\<^sup>*\<^sup>* sample_run sample_dispatched" "run_step\<^sup>*\<^sup>* sample_run sample_completed"
proof -
  have one: "run_step sample_run sample_dispatched"
    by (rule step_dispatch [OF sample_dispatch]) (simp add: sample_attempt_def)
  then show "run_step\<^sup>*\<^sup>* sample_run sample_dispatched" by blast
  with step_transition [OF sample_complete] show "run_step\<^sup>*\<^sup>* sample_run sample_completed" by auto
qed

section \<open>Versions\<close>

text \<open>C26: Every version the constructor accepts is sound: its steps are the given ones in the order of
  their ids, no two share an id, the dependencies name steps of the version and have no cycle,
  a binding to an output names a step the bound one always runs after and that declares this
  output, and every placeholder of a prompt is bound.\<close>

lemma accepted_version_sound:
  assumes "routine_version_new vid rid number inputs steps template at = Inr v"
  shows "set (ver_steps v) = set steps \<and> sorted_wrt (<) (map st_id (ver_steps v)) \<and>
    acyclic (depends (ver_steps v)) \<and>
    (\<forall>s\<in>set steps.
       (\<forall>d. bm_contains (st_depends_on s) d \<longrightarrow> d \<in> st_id ` set steps) \<and>
       (\<forall>k p out. bm_get (st_bindings s) k = Some (BS_StepOutput p out) \<longrightarrow>
          (st_id s, p) \<in> (depends (ver_steps v))\<^sup>+ \<and>
          (\<exists>producer\<in>set steps. st_id producer = p \<and> declares_output producer out)) \<and>
       check_prompt s = Inr ())"
proof -
  have wf: "version_wf v" by (rule routine_version_new_wf [OF assms])
  have steps: "set (ver_steps v) = set steps"
    using assms by (auto simp: routine_version_new_def Let_def res_bind_Inr_iff split: if_splits)
  have "binding_ok v s source" if "s \<in> set steps" "bm_get (st_bindings s) k = Some source" for s k source
  proof -
    have "source \<in> set (bm_values (st_bindings s))" using that(2) by (auto simp: set_bm_values)
    with wf that(1) steps show ?thesis unfolding version_wf_def by blast
  qed
  then have "(st_id s, p) \<in> (depends (ver_steps v))\<^sup>+ \<and>
      (\<exists>producer\<in>set steps. st_id producer = p \<and> declares_output producer out)"
    if "s \<in> set steps" "bm_get (st_bindings s) k = Some (BS_StepOutput p out)" for s k p out
    using that by (fastforce simp: binding_ok_def steps)
  with wf steps show ?thesis
    by (auto simp: version_wf_def deps_closed_def bs_elems_def)
qed

lemma accepted_version_sound_witness:
  "set (ver_steps sample_version) = {sample_first, sample_second} \<and>
   acyclic (depends (ver_steps sample_version)) \<and>
   (st_id sample_second, Id 1) \<in> (depends (ver_steps sample_version))\<^sup>+"
proof -
  have "bm_get (st_bindings sample_second) (Key ''plan'') = Some (BS_StepOutput (Id 1) (Key ''plan''))"
    by (simp add: sample_second_def bm_of_list_def)
  with accepted_version_sound [OF sample_version_new] show ?thesis by (simp add: insert_commute)
qed

text \<open>C27: The dependency sort succeeds exactly when the dependencies have no cycle, and the order it
  returns holds every step once, each after everything it depends on.\<close>

lemma topological_order_exact:
  assumes "distinct (map st_id steps)"
    and "\<And>s d. s \<in> set steps \<Longrightarrow> bm_contains (st_depends_on s) d \<Longrightarrow> d \<in> st_id ` set steps"
  shows "((\<exists>order. topological_order steps = Inr order) \<longleftrightarrow> acyclic (depends steps)) \<and>
    (\<forall>order. topological_order steps = Inr order \<longrightarrow>
       distinct order \<and> set order = st_id ` set steps \<and>
       (\<forall>xs x ys. order = xs @ x # ys \<longrightarrow> (\<forall>d. (x, d) \<in> depends steps \<longrightarrow> d \<in> set xs)))"
proof -
  have "deps_closed steps" using assms(2) by (auto simp: deps_closed_def bs_elems_def)
  from topological_order_iff [OF assms(1) this] topological_order_Inr [OF assms(1)]
  show ?thesis unfolding topological_def deps_before_def by blast
qed

lemma topological_order_exact_witness:
  "\<exists>order. topological_order [sample_first, sample_second] = Inr order \<and> distinct order \<and>
     set order = {Id 1, Id 2}"
proof -
  have ids: "distinct (map st_id [sample_first, sample_second])"
    by (simp add: sample_first_def sample_second_def)
  have "acyclic (depends [sample_first, sample_second])"
    using routine_version_new_wf [OF sample_version_new] by (simp add: version_wf_def sample_version_def)
  moreover have "d \<in> st_id ` set [sample_first, sample_second]"
    if "s \<in> set [sample_first, sample_second]" "bm_contains (st_depends_on s) d" for s d
    using that by (auto simp: sample_first_def sample_second_def)
  then have exact: "((\<exists>order. topological_order [sample_first, sample_second] = Inr order) \<longleftrightarrow>
      acyclic (depends [sample_first, sample_second])) \<and>
    (\<forall>order. topological_order [sample_first, sample_second] = Inr order \<longrightarrow>
       distinct order \<and> set order = st_id ` set [sample_first, sample_second] \<and>
       (\<forall>xs x ys. order = xs @ x # ys \<longrightarrow>
          (\<forall>d. (x, d) \<in> depends [sample_first, sample_second] \<longrightarrow> d \<in> set xs)))"
    by (rule topological_order_exact [OF ids])
  ultimately obtain order where "topological_order [sample_first, sample_second] = Inr order" by blast
  moreover from this exact have "distinct order \<and> set order = st_id ` set [sample_first, sample_second]"
    by blast
  ultimately show ?thesis by (auto simp: sample_first_def sample_second_def)
qed

text \<open>C30: The prompt of a step of an accepted version renders with any values for its bindings: no
  placeholder is left open or unbound, and the only failure is a text the content type refuses.\<close>

lemma accepted_prompt_renders:
  assumes "routine_version_new vid rid number inputs steps template at = Inr v"
    and "s \<in> set (ver_steps v)" and "\<And>k. bm_contains (st_bindings s) k \<Longrightarrow> bm_contains vals k"
  shows "\<exists>text. render_from (st_id s) vals (content_str (st_prompt s)) = Inr text \<and>
    render_prompt s vals = map_err (\<lambda>_. RE_EmptyRenderedPrompt (st_id s)) (content_new text)"
proof -
  have "check_prompt s = Inr ()"
    using routine_version_new_wf [OF assms(1)] assms(2) by (simp add: version_wf_def)
  from checked_prompt_renders [OF this assms(3)] show ?thesis by (auto simp: render_prompt_def)
qed

lemma accepted_prompt_renders_witness:
  "\<exists>text. render_from (Id 2) (bm_of_list [(Key ''plan'', RoutineValue ''x'')]) ''do {{plan}}'' = Inr text \<and>
     text = ''do x''"
proof -
  let ?vals = "bm_of_list [(Key ''plan'', RoutineValue ''x'')]"
  have "\<exists>text. render_from (st_id sample_second) ?vals (content_str (st_prompt sample_second)) = Inr text \<and>
      render_prompt sample_second ?vals =
        map_err (\<lambda>_. RE_EmptyRenderedPrompt (st_id sample_second)) (content_new text)"
    by (rule accepted_prompt_renders [OF sample_version_new])
      (auto simp: sample_version_def sample_second_def bm_of_list_def split: if_splits)
  moreover have "render_from (Id 2) ?vals ''do {{plan}}'' = Inr ''do x''" by code_simp
  ultimately show ?thesis by (auto simp: sample_second_def)
qed

text \<open>The inputs of a run resolve exactly when every supplied key is declared and every required
  input is supplied or has a default; the result then gives each declared input its supplied
  value, else its default, and nothing else.\<close>

lemma inputs_resolve_exactly:
  assumes "routine_version_new vid rid number inputs steps template at = Inr v"
  shows "((\<exists>r. resolve_inputs v supplied = Inr r) \<longleftrightarrow>
      (\<forall>k. bm_contains supplied k \<longrightarrow> k \<in> in_key ` set (ver_inputs v)) \<and>
      (\<forall>i\<in>set (ver_inputs v). in_required i \<longrightarrow>
         bm_contains supplied (in_key i) \<or> in_default i \<noteq> None)) \<and>
    (\<forall>r. resolve_inputs v supplied = Inr r \<longrightarrow>
      (\<forall>k. bm_get r k = Option.bind (List.find (\<lambda>i. in_key i = k) (ver_inputs v))
        (\<lambda>i. case bm_get supplied k of Some x \<Rightarrow> Some x | None \<Rightarrow> in_default i)))"
proof -
  have "input_value supplied i \<noteq> None \<longleftrightarrow> bm_contains supplied (in_key i) \<or> in_default i \<noteq> None" for i
    by (auto simp: input_value_def bm_contains_def split: option.splits)
  moreover have "bm_get r k = Option.bind (List.find (\<lambda>i. in_key i = k) (ver_inputs v))
        (\<lambda>i. case bm_get supplied k of Some x \<Rightarrow> Some x | None \<Rightarrow> in_default i)"
    if "resolve_inputs v supplied = Inr r" for r k
  proof (cases "List.find (\<lambda>i. in_key i = k) (ver_inputs v)")
    case (Some i)
    then have "in_key i = k" by (auto simp: find_Some_iff)
    with Some show ?thesis using resolve_inputs_get [OF routine_version_new_wf [OF assms] that, of k]
      by (simp add: input_value_def)
  qed (use resolve_inputs_get [OF routine_version_new_wf [OF assms] that, of k] in simp)
  ultimately show ?thesis using resolve_inputs_ok_iff [of v supplied] by simp
qed

lemma inputs_resolve_exactly_witness:
  "(\<exists>r. resolve_inputs sample_version bm_empty = Inr r) \<and>
   \<not> (\<exists>r. resolve_inputs sample_version (bm_of_list [(Key ''x'', RoutineValue ''1'')]) = Inr r)"
  using inputs_resolve_exactly [OF sample_version_new, of bm_empty]
    inputs_resolve_exactly [OF sample_version_new, of "bm_of_list [(Key ''x'', RoutineValue ''1'')]"]
  by (auto simp: sample_version_def bm_of_list_def)

end
