(* ===== verification/Routine_History.thy ===== *)
theory Routine_History
  imports Routine_Properties
begin

text \<open>
  What holds of every history of a run, from its start through any sequence of transitions and
  dispatches; and when a schedule fires.
\<close>

section \<open>Every history\<close>

lemma run_wf_history:
  assumes "version_ok (pin_version pin)"
    and "run_step\<^sup>*\<^sup>* (run_start rid trigger occurrence pin at) r"
  shows "run_wf r" and "run_pin r = pin"
  using run_steps_wf [OF assms(2) run_start_wf [OF assms(1)]]
    run_identityD(6) [OF run_steps_identity [OF assms(2)]]
  by (simp_all add: run_start_def)

lemma sample_pin_ok: "version_ok (pin_version sample_pin)"
  by (simp add: sample_pin_def sample_version_ok)

text \<open>C14: In every history of a run a step numbers its attempts 1, 2, 3 and so on, makes no more of
  them than its retry policy allows, and leaves only the last one open; a step that is dispatched,
  interrupted or completed has every dependency completed; and the run has an end time exactly when
  it has ended, with no step left holding reservations.\<close>

lemma run_history_consistent:
  assumes "version_ok (pin_version pin)"
    and "run_step\<^sup>*\<^sup>* (run_start rid trigger occurrence pin at) r"
  shows "(\<forall>k s st. bm_get (run_steps r) k = Some s \<and> version_step (pin_version pin) k = Some st \<longrightarrow>
      map (\<lambda>a. unat (at_ordinal a)) (sr_attempts s) = [1..<length (sr_attempts s) + 1] \<and>
      length (sr_attempts s) \<le> unat (max_attempts (st_retry st)) \<and>
      (\<forall>a\<in>set (butlast (sr_attempts s)). at_outcome a \<noteq> None)) \<and>
    (\<forall>k s d. bm_get (run_steps r) k = Some s \<and>
        sr_state s \<in> {SS_Dispatched, SS_Interrupted, SS_Completed} \<and>
        (k, d) \<in> depends (ver_steps (pin_version pin)) \<longrightarrow>
      (\<exists>u. bm_get (run_steps r) d = Some u \<and> sr_state u = SS_Completed)) \<and>
    (run_state_is_terminal (run_state r) \<longleftrightarrow> run_finished_at r \<noteq> None) \<and>
    (run_state_is_terminal (run_state r) \<longrightarrow> held_reservations r = [])"
proof -
  note wf = run_wf_history [OF assms]
  note w = run_wfD [OF wf(1), unfolded wf(2)]
  have ordinals: "map (\<lambda>a. unat (at_ordinal a)) as = [1..<length as + 1]" if "attempts_ok st as" for st as
    using that by (intro nth_equalityI) (auto simp: attempts_ok_def simp del: upt_Suc)
  have att: "map (\<lambda>a. unat (at_ordinal a)) (sr_attempts s) = [1..<length (sr_attempts s) + 1] \<and>
      length (sr_attempts s) \<le> unat (max_attempts (st_retry st)) \<and>
      (\<forall>a\<in>set (butlast (sr_attempts s)). at_outcome a \<noteq> None)"
    if "bm_get (run_steps r) k = Some s \<and> version_step (pin_version pin) k = Some st" for k s st
  proof -
    have "attempts_ok st (sr_attempts s)"
      using steps_preD(2) [OF w(2)] that by (fastforce simp: step_run_ok_def)
    from ordinals [OF this] this show ?thesis unfolding attempts_ok_def by blast
  qed
  have held: "held_reservations r = []" if "run_state_is_terminal (run_state r)"
  proof -
    have "filter (\<lambda>s. step_state_holds_reservations (sr_state s)) (bm_values (run_steps r)) = []"
      using w(4) that by (auto simp: ending_ok_def filter_empty_conv set_bm_values)
    then show ?thesis unfolding held_reservations_def by simp
  qed
  have "\<exists>u. bm_get (run_steps r) d = Some u \<and> sr_state u = SS_Completed"
    if "bm_get (run_steps r) k = Some s \<and> sr_state s \<in> {SS_Dispatched, SS_Interrupted, SS_Completed} \<and>
        (k, d) \<in> depends (ver_steps (pin_version pin))" for k s d
    using steps_preD(3) [OF w(2)] that by blast
  moreover have "run_state_is_terminal (run_state r) \<longleftrightarrow> run_finished_at r \<noteq> None"
    using w(4) unfolding ending_ok_def by blast
  ultimately show ?thesis using att held by blast
qed

lemma run_history_consistent_witness:
  "\<exists>s. bm_get (run_steps sample_completed) (Id 1) = Some s \<and>
     map (\<lambda>a. unat (at_ordinal a)) (sr_attempts s) = [1] \<and> length (sr_attempts s) \<le> 1"
proof -
  let ?s = "\<lparr>sr_step = Id 1, sr_state = SS_Completed,
      sr_attempts = [(sample_attempt 1)\<lparr>at_outcome := Some AO_Completed, at_finished_at := Some 220\<rparr>],
      sr_outputs = sample_outputs, sr_approval = None, sr_interruption = None, sr_failure = None\<rparr>"
  have s: "bm_get (run_steps sample_completed) (Id 1) = Some ?s" by (simp add: sample_completed_def)
  have st: "version_step (pin_version sample_pin) (Id 1) = Some sample_first"
    by (simp add: sample_pin_def sample_run_fields)
  have "map (\<lambda>a. unat (at_ordinal a)) (sr_attempts ?s) = [1..<length (sr_attempts ?s) + 1] \<and>
      length (sr_attempts ?s) \<le> unat (max_attempts (st_retry sample_first))"
    using run_history_consistent [OF sample_pin_ok sample_history(2) [unfolded sample_run_def]] s st
    by blast
  moreover have "unat (max_attempts (st_retry sample_first)) = 1" by (simp add: sample_first_def)
  ultimately show ?thesis using s by (intro exI [of _ ?s]) simp
qed

lemma cost_at_start:
  assumes "version_wf (pin_version pin)" and "st \<in> set (ver_steps (pin_version pin))"
  shows "cost_at (run_start rid trigger occurrence pin at) (st_id st) =
    8 * unat (max_attempts (st_retry st)) + 5"
proof -
  have dist: "distinct (map st_id (ver_steps (pin_version pin)))"
    using assms(1) by (auto simp: version_wf_def strict_sorted_iff)
  have "bm_get (run_steps (run_start rid trigger occurrence pin at)) (st_id st) =
      Some (step_run_pending (st_id st))"
    unfolding run_start_def using assms(2) dist
    by (simp, subst bm_get_of_list_distinct) (auto simp: comp_def map_of_eq_Some_iff)
  moreover have "version_step (pin_version pin) (st_id st) = Some st"
    using version_step_Some_iff [OF assms(1)] assms(2) by blast
  ultimately show ?thesis
    by (simp add: cost_at_def run_start_def step_cost_def attempt_limit_def step_run_pending_def)
qed

lemma run_cost_start:
  assumes "version_wf (pin_version pin)"
  shows "run_cost (run_start rid trigger occurrence pin at) =
    (\<Sum>st\<leftarrow>ver_steps (pin_version pin). 8 * unat (max_attempts (st_retry st)) + 5) + 2"
proof -
  let ?r = "run_start rid trigger occurrence pin at" and ?steps = "ver_steps (pin_version pin)"
  have dist: "distinct (map st_id ?steps)" using assms by (auto simp: version_wf_def strict_sorted_iff)
  then have inj: "inj_on st_id (set ?steps)" "distinct ?steps" by (simp_all add: distinct_map)
  have "{k. bm_contains (run_steps ?r) k} = st_id ` set ?steps"
    by (force simp: run_start_def bm_contains_of_list comp_def)
  then have "(\<Sum>k | bm_contains (run_steps ?r) k. cost_at ?r k) = (\<Sum>st\<in>set ?steps. cost_at ?r (st_id st))"
    by (simp add: sum.reindex [OF inj(1)])
  also have "\<dots> = (\<Sum>st\<in>set ?steps. 8 * unat (max_attempts (st_retry st)) + 5)"
    by (rule sum.cong [OF refl]) (rule cost_at_start [OF assms])
  also have "\<dots> = (\<Sum>st\<leftarrow>?steps. 8 * unat (max_attempts (st_retry st)) + 5)"
    by (rule sum.distinct_set_conv_list [OF inj(2)])
  finally show ?thesis by (simp add: run_cost_def run_start_def run_rank_def)
qed

text \<open>C19: A run ends: however its operations are ordered, at most eight changes per allowed attempt
  and five per step, and two of the run itself, are possible; after them nothing changes it.\<close>

lemma run_terminates:
  assumes "version_wf (pin_version pin)"
    and "(run_move ^^ n) (run_start rid trigger occurrence pin at) r"
  shows "n \<le> (\<Sum>st\<leftarrow>ver_steps (pin_version pin). 8 * unat (max_attempts (st_retry st)) + 5) + 2"
  using run_moves_bounded [OF assms(2)] run_cost_start [OF assms(1)] by simp

lemma run_terminates_witness: "\<exists>r. (run_move ^^ 1) sample_run r \<and> (1::nat) \<le> 28"
proof -
  have "sample_dispatched \<noteq> sample_run"
  proof
    assume "sample_dispatched = sample_run"
    then have "bm_get (run_steps sample_dispatched) (Id 1) = Some (step_run_pending (Id 1))"
      by (simp add: sample_run_fields)
    then show False by (simp add: sample_dispatched_def step_run_pending_def)
  qed
  moreover have "run_step sample_run sample_dispatched"
    by (rule step_dispatch [OF sample_dispatch]) (simp add: sample_attempt_def)
  ultimately have move: "(run_move ^^ 1) sample_run sample_dispatched"
    unfolding relpowp_1 run_move_def by blast
  moreover have "version_wf (pin_version sample_pin)" using sample_pin_ok by (simp add: version_ok_def)
  from run_terminates [OF this move [unfolded sample_run_def]] have "(1::nat) \<le> 28"
    by (simp add: sample_pin_def sample_version_def sample_first_def sample_second_def)
  ultimately show ?thesis by blast
qed

text \<open>C20: A running run is never stuck: either something outside is awaited (an agent, a person or a
  recovery), or a step is ready and its next attempt can be dispatched, or the run settles.\<close>

lemma running_run_proceeds:
  assumes "version_ok (pin_version pin)"
    and "run_step\<^sup>*\<^sup>* (run_start rid trigger occurrence pin at) r" and "run_state r = RS_Running"
  shows "any_step r (\<lambda>st. st = SS_Dispatched \<or> st = SS_Interrupted \<or> st = SS_AwaitingApproval) \<or>
    (\<exists>sid s. bm_get (run_steps r) sid = Some s \<and> sid \<in> set (ready_steps r) \<and>
      (\<forall>a. unat (at_ordinal a) = length (sr_attempts s) + 1 \<longrightarrow> (\<exists>r'. dispatch sid a r = Inr r'))) \<or>
    (\<exists>r'. apply_transition (RT_Settle t) r = Inr r' \<and> run_state_is_terminal (run_state r'))"
proof -
  note wf = run_wf_history(1) [OF assms(1,2)]
  consider "any_step r (\<lambda>st. st = SS_Dispatched \<or> st = SS_Interrupted \<or> st = SS_AwaitingApproval)" |
    "ready_steps r \<noteq> []" | "\<exists>r'. settle t r = (r', True)"
    using running_progress [OF wf assms(3)] by blast
  then show ?thesis
  proof cases
    case 2
    then obtain sid where sid: "sid \<in> set (ready_steps r)" by (cases "ready_steps r") auto
    then obtain s where "bm_get (run_steps r) sid = Some s" using ready_steps_iff [OF wf] by blast
    with sid ready_step_dispatches [OF wf assms(3) sid] show ?thesis by blast
  next
    case 3
    then obtain r' where "settle t r = (r', True)" by blast
    moreover from this have "run_state_is_terminal (run_state r')"
      by (auto simp: settle_True_iff)
    ultimately show ?thesis by (auto simp: apply_transition_def)
  qed blast
qed

lemma running_run_proceeds_witness:
  "any_step sample_completed (\<lambda>st. st = SS_Dispatched \<or> st = SS_Interrupted \<or> st = SS_AwaitingApproval) \<or>
    (\<exists>sid. sid \<in> set (ready_steps sample_completed)) \<or>
    (\<exists>r'. apply_transition (RT_Settle 300) sample_completed = Inr r' \<and>
       run_state_is_terminal (run_state r'))"
proof -
  have "run_state sample_completed = RS_Running"
    by (simp add: sample_completed_def sample_run_fields)
  from running_run_proceeds [OF sample_pin_ok sample_history(2) [unfolded sample_run_def] this, of 300]
  show ?thesis by blast
qed

end
