(* ===== verification/Routine_Outcome.thy ===== *)
theory Routine_Outcome
  imports Routine_History
begin

text \<open>
  The outcome of the steps of a run, the prompts of the steps that become ready, and the instants
  at which a schedule fires.
\<close>

section \<open>Failure and completion\<close>

lemma waiting_no_dead_ancestor:
  assumes wf: "run_wf r" and "bm_get (run_steps r) k = Some s" and "waiting_state (sr_state s)"
    and "(k, d) \<in> (depends (ver_steps (pin_version (run_pin r))))\<^sup>+"
    and "bm_get (run_steps r) d = Some u"
  shows "\<not> dead_state (sr_state u)"
  using assms(4,2,3)
proof (induction arbitrary: s rule: converse_trancl_induct)
  case (base k)
  then show ?case using steps_liveD [OF run_wfD(3) [OF wf]] assms(5) by blast
next
  case (step k j)
  note w = run_wfD [OF wf]
  have "j \<in> st_id ` set (ver_steps (pin_version (run_pin r)))" by (rule depends_known [OF w(5) step(1)])
  then obtain x where x: "bm_get (run_steps r) j = Some x"
    using steps_preD(1) [OF w(2), of j] by (auto simp: bm_contains_def)
  have "\<not> dead_state (sr_state x)" using steps_liveD [OF w(3) step.prems(1,2) step(1) x] .
  then consider "waiting_state (sr_state x)" | "engaged_state (sr_state x)" by (cases "sr_state x") auto
  then show ?case
  proof cases
    case 2
    from completed_dead_free [OF w(5) w(2) x this step(2)] assms(5) show ?thesis by auto
  qed (rule step.IH [OF x])
qed

text \<open>C18: When a step of a run fails for good, exactly the waiting steps that depend on it, directly or
  through others, become skipped, the step itself becomes failed, and no other step changes.\<close>

lemma failure_skips_dependents:
  assumes "version_ok (pin_version pin)"
    and "run_step\<^sup>*\<^sup>* (run_start rid trigger occurrence pin at) r"
    and fail: "fail_step sid reason t r = Inr (r', False)"
  shows "\<exists>failed. sr_state failed = SS_Failed \<and> sr_failure failed = Some reason \<and>
    (\<forall>k. bm_get (run_steps r') k =
       (if k = sid then Some failed
        else map_option (\<lambda>s. if (sr_state s = SS_Pending \<or> sr_state s = SS_AwaitingApproval) \<and>
              (k, sid) \<in> (depends (ver_steps (pin_version pin)))\<^sup>+
            then s\<lparr>sr_state := SS_Skipped\<rparr> else s) (bm_get (run_steps r) k)))"
proof -
  note wf = run_wf_history [OF assms(1,2)]
  note w = run_wfD [OF wf(1)]
  obtain st s s' where st: "version_step (pin_version (run_pin r)) sid = Some st"
    and s: "bm_get (run_steps r) sid = Some s" "step_state_holds_reservations (sr_state s)"
      "finish_attempt AO_Failed t s = Inr s'"
    and left: "\<not> retry_left st s'" and r': "r' = propagate_skips (put_step sid (failed_step st reason s') r)"
    using fail unfolding fail_step_Inr_iff by (auto split: if_splits)
  let ?f = "failed_step st reason s'" and ?u = "put_step sid (failed_step st reason s') r"
  let ?v = "pin_version (run_pin r)"
  have f: "sr_state ?f = SS_Failed" "sr_failure ?f = Some reason" using left by (simp_all add: failed_step_def)
  have okf: "step_run_ok sid st ?f"
    using steps_preD(2) [OF w(2) s(1)] st s left
    by (auto simp: failed_step_def intro!: step_run_ok_finished [OF _ s(3)])
  have pre: "steps_pre ?v (run_steps ?u)"
    using steps_pre_insert [OF w(2) s(1) st okf] f s(2) by (cases "sr_state s") auto
  have pins: "pin_ok ?u" "ending_ok ?u"
    using w(1) ending_ok_put [OF w(4), of ?f sid] f by (simp_all add: pin_ok_def)
  have dead: "has_dead_ancestor ?v (run_steps ?u) k \<longleftrightarrow> (k, sid) \<in> (depends (ver_steps ?v))\<^sup>+"
    if k: "k \<noteq> sid" "bm_get (run_steps r) k = Some x" "waiting_state (sr_state x)" for k x
    using waiting_no_dead_ancestor [OF wf(1) k(2,3)] f
    by (auto simp: has_dead_ancestor_def split: if_splits)
  have "bm_get (run_steps r') k = (if k = sid then Some ?f
        else map_option (\<lambda>s. if waiting_state (sr_state s) \<and> (k, sid) \<in> (depends (ver_steps ?v))\<^sup>+
            then skip s else s) (bm_get (run_steps r) k))" for k
    using propagate_skips_exact [OF pins(1) _ pins(2), of k] pre dead [of k] f
    unfolding r' by (cases "bm_get (run_steps r) k") (auto split: if_splits)
  with f show ?thesis unfolding wf(2) by blast
qed

lemma sample_depends: "(Id 2, Id 1) \<in> depends (ver_steps sample_version)"
proof -
  have "sample_second \<in> set (ver_steps sample_version)" by (simp add: sample_version_def)
  moreover have "st_id sample_second = Id 2" "bm_contains (st_depends_on sample_second) (Id 1)"
    by (simp_all add: sample_second_def)
  ultimately show ?thesis unfolding depends_def by (force simp: bs_elems_def)
qed

lemma sample_fail: "\<exists>r'. fail_step (Id 1) (Content ''no'') 220 sample_dispatched = Inr (r', False)"
proof -
  let ?s = "\<lparr>sr_step = Id 1, sr_state = SS_Dispatched, sr_attempts = [sample_attempt 1],
      sr_outputs = bm_empty, sr_approval = None, sr_interruption = None, sr_failure = None\<rparr>"
  have "version_step (pin_version (run_pin sample_dispatched)) (Id 1) = Some sample_first"
    by (simp add: sample_dispatched_def sample_run_fields sample_pin_def)
  moreover have "bm_get (run_steps sample_dispatched) (Id 1) = Some ?s" by (simp add: sample_dispatched_def)
  moreover have "finish_attempt AO_Failed 220 ?s = Inr (?s\<lparr>sr_attempts :=
      [(sample_attempt 1)\<lparr>at_outcome := Some AO_Failed, at_finished_at := Some 220\<rparr>]\<rparr>)"
    by (simp add: finish_attempt_Inr_iff open_attempt_def sample_attempt_def)
  moreover have "\<not> retry_left sample_first (?s\<lparr>sr_attempts :=
      [(sample_attempt 1)\<lparr>at_outcome := Some AO_Failed, at_finished_at := Some 220\<rparr>]\<rparr>)"
    by (simp add: retry_left_def expected_ordinal_def try_u32_def sample_first_def)
  ultimately show ?thesis by (simp add: fail_step_Inr_iff)
qed

lemma failure_skips_dependents_witness:
  "\<exists>r'. fail_step (Id 1) (Content ''no'') 220 sample_dispatched = Inr (r', False) \<and>
     (\<exists>s. bm_get (run_steps r') (Id 1) = Some s \<and> sr_state s = SS_Failed) \<and>
     (\<exists>s. bm_get (run_steps r') (Id 2) = Some s \<and> sr_state s = SS_Skipped)"
proof -
  obtain r' where fail: "fail_step (Id 1) (Content ''no'') 220 sample_dispatched = Inr (r', False)"
    using sample_fail by blast
  have two: "bm_get (run_steps sample_dispatched) (Id 2) = Some (step_run_pending (Id 2))"
    by (simp add: sample_dispatched_def sample_run_fields)
  have "(Id 2, Id 1) \<in> (depends (ver_steps (pin_version sample_pin)))\<^sup>+"
    using sample_depends by (simp add: sample_pin_def r_into_trancl')
  with failure_skips_dependents [OF sample_pin_ok sample_history(1) [unfolded sample_run_def] fail] two fail
  show ?thesis by (auto simp: step_run_pending_def)
qed

text \<open>C36: A run settles as failed exactly when a step failed or was skipped, and else as completed exactly
  when it was running and every step completed; otherwise, also when it was cancelling and every step
  completed, it settles as cancelled. No step changes.\<close>

lemma settle_outcome:
  assumes "apply_transition (RT_Settle t) r = Inr r'"
  shows "run_state r' =
      (if \<exists>k s. bm_get (run_steps r) k = Some s \<and> (sr_state s = SS_Failed \<or> sr_state s = SS_Skipped) then RS_Failed
       else if run_state r = RS_Running \<and> (\<forall>k s. bm_get (run_steps r) k = Some s \<longrightarrow> sr_state s = SS_Completed)
         then RS_Completed
       else RS_Cancelled) \<and>
    run_steps r' = run_steps r \<and> run_finished_at r' = Some t"
proof -
  have settle: "settle t r = (r', True)"
    using assms by (auto simp: apply_transition_def split: prod.splits bool.splits)
  note f = settle [unfolded settle_True_iff]
  have failed: "(\<exists>k s. bm_get (run_steps r) k = Some s \<and> (sr_state s = SS_Failed \<or> sr_state s = SS_Skipped)) \<longleftrightarrow>
      any_step r (\<lambda>st. st = SS_Failed \<or> st = SS_Skipped)" by (simp add: any_step_iff)
  have all: "\<not> (run_state r = RS_Cancelling \<or> any_step r (\<lambda>st. st = SS_Cancelled)) \<longleftrightarrow>
      run_state r = RS_Running \<and> (\<forall>k s. bm_get (run_steps r) k = Some s \<longrightarrow> sr_state s = SS_Completed)"
    if "\<not> any_step r (\<lambda>st. st = SS_Failed \<or> st = SS_Skipped)"
  proof
    assume l: "\<not> (run_state r = RS_Cancelling \<or> any_step r (\<lambda>st. st = SS_Cancelled))"
    then have "run_state r' = RS_Completed" using f that by simp
    moreover have "run_state r = RS_Running" using f l by (cases "run_state r") auto
    ultimately show "run_state r = RS_Running \<and> (\<forall>k s. bm_get (run_steps r) k = Some s \<longrightarrow> sr_state s = SS_Completed)"
      using settle_completed_all [OF settle] by blast
  qed (auto simp: any_step_iff)
  show ?thesis using f failed all by (cases "any_step r (\<lambda>st. st = SS_Failed \<or> st = SS_Skipped)") auto
qed

lemma sample_steps_only:
  "bm_get (run_steps sample_dispatched) k = Some s \<Longrightarrow> k = Id 1 \<or> k = Id 2"
  by (auto simp: sample_dispatched_def sample_run_def run_start_def sample_pin_def sample_version_def
      sample_first_def sample_second_def bm_of_list_def split: if_splits)

lemma settle_outcome_witness:
  "\<exists>r r'. apply_transition (RT_Settle 300) r = Inr r' \<and> run_state r' = RS_Failed \<and>
     run_finished_at r' = Some 300"
proof -
  obtain r where fail: "fail_step (Id 1) (Content ''no'') 220 sample_dispatched = Inr (r, False)"
    using sample_fail by blast
  obtain failed where failed: "sr_state failed = SS_Failed"
    and get: "bm_get (run_steps r) k =
       (if k = Id 1 then Some failed
        else map_option (\<lambda>s. if (sr_state s = SS_Pending \<or> sr_state s = SS_AwaitingApproval) \<and>
              (k, Id 1) \<in> (depends (ver_steps (pin_version sample_pin)))\<^sup>+
            then s\<lparr>sr_state := SS_Skipped\<rparr> else s) (bm_get (run_steps sample_dispatched) k))" for k
    using failure_skips_dependents [OF sample_pin_ok sample_history(1) [unfolded sample_run_def] fail] by blast
  have two: "bm_get (run_steps sample_dispatched) (Id 2) = Some (step_run_pending (Id 2))"
    by (simp add: sample_dispatched_def sample_run_fields)
  have dep: "(Id 2, Id 1) \<in> (depends (ver_steps (pin_version sample_pin)))\<^sup>+"
    using sample_depends by (simp add: sample_pin_def r_into_trancl')
  have states: "sr_state s = SS_Failed \<or> sr_state s = SS_Skipped" if "bm_get (run_steps r) k = Some s" for k s
  proof (cases "k = Id 1")
    case True
    then show ?thesis using that get failed by simp
  next
    case False
    then have "k = Id 2" using that get [of k] sample_steps_only by fastforce
    then show ?thesis using that get [of k] two dep by (auto simp: step_run_pending_def)
  qed
  have first: "bm_get (run_steps r) (Id 1) = Some failed" using get by simp
  have active: "\<not> run_state_is_terminal (run_state r)"
  proof
    assume "run_state_is_terminal (run_state r)"
    then have "run_state r \<noteq> run_state sample_dispatched"
      by (auto simp: sample_dispatched_def sample_run_fields)
    then show False using fail by (auto simp: fail_step_Inr_iff split: if_splits)
  qed
  have "settle 300 r = (r\<lparr>run_state := RS_Failed, run_finished_at := Some 300\<rparr>, True)"
  proof -
    have "\<not> any_step r step_state_holds_reservations" "\<not> any_step r waiting_state"
      "any_step r (\<lambda>st. st = SS_Failed \<or> st = SS_Skipped)"
      using states first failed unfolding any_step_iff by fastforce+
    with active show ?thesis by (simp add: settle_True_iff)
  qed
  then have settle: "apply_transition (RT_Settle 300) r = Inr (r\<lparr>run_state := RS_Failed, run_finished_at := Some 300\<rparr>)"
    by (simp add: apply_transition_def)
  let ?r = "r\<lparr>run_state := RS_Failed, run_finished_at := Some 300\<rparr>"
  have "run_state ?r = RS_Failed \<and> run_finished_at ?r = Some 300"
    using settle_outcome [OF settle] first failed by auto
  with settle show ?thesis by (intro exI [of _ r] exI [of _ ?r] conjI) simp_all
qed

text \<open>What a step completed with is final: no sequence of operations reopens it or changes its
  outputs.\<close>

lemma completed_step_frozen:
  assumes "version_ok (pin_version pin)"
    and "run_step\<^sup>*\<^sup>* (run_start rid trigger occurrence pin at) r" and "run_step\<^sup>*\<^sup>* r r'"
    and "bm_get (run_steps r) k = Some s" and "sr_state s = SS_Completed"
  shows "bm_get (run_steps r') k = Some s"
  using assms(3)
proof (induction rule: rtranclp_induct)
  case (step u u')
  have "run_wf u" using run_steps_wf [OF step(1) run_wf_history(1) [OF assms(1,2)]] .
  with step(2,3) assms(5) show ?case
    by (auto elim!: run_stepE intro: completed_step_final simp: dispatch_Inr_iff)
qed (use assms(4) in simp)

lemma completed_step_frozen_witness:
  "\<exists>s. bm_get (run_steps sample_completed) (Id 1) = Some s \<and> sr_outputs s = sample_outputs"
proof -
  let ?s = "\<lparr>sr_step = Id 1, sr_state = SS_Completed,
      sr_attempts = [(sample_attempt 1)\<lparr>at_outcome := Some AO_Completed, at_finished_at := Some 220\<rparr>],
      sr_outputs = sample_outputs, sr_approval = None, sr_interruption = None, sr_failure = None\<rparr>"
  have "bm_get (run_steps sample_completed) (Id 1) = Some ?s" by (simp add: sample_completed_def)
  from completed_step_frozen [OF sample_pin_ok sample_history(2) [unfolded sample_run_def]
      rtranclp.rtrancl_refl this]
  show ?thesis by simp
qed

lemma find_by_key: "distinct (map f xs) \<Longrightarrow> x \<in> set xs \<Longrightarrow> List.find (\<lambda>y. f y = f x) xs = Some x"
  by (induction xs) (auto simp: image_iff)

lemma unpinned_input:
  assumes wf: "version_wf v" and inputs: "resolve_inputs v supplied = Inr vals" and i: "i \<in> set (ver_inputs v)"
    and none: "bm_get vals (in_key i) = None"
  shows "\<not> in_required i \<and> in_default i = None \<and> \<not> bm_contains supplied (in_key i)"
proof -
  have dist: "distinct (map in_key (ver_inputs v))" using wf by (simp add: version_wf_def)
  have find: "List.find (\<lambda>j. in_key j = in_key i) (ver_inputs v) = Some i"
    using find_by_key [OF dist i] .
  have "input_value supplied i = None"
    using resolve_inputs_get [OF wf inputs, of "in_key i"] none find by simp
  moreover have "in_required i \<longrightarrow> input_value supplied i \<noteq> None"
    using resolve_inputs_ok_iff [of v supplied] inputs i by blast
  ultimately show ?thesis by (auto simp: input_value_def bm_contains_def split: option.splits)
qed

text \<open>C35: When a step becomes ready, its bindings resolve and its prompt renders, to be refused only if the
  content type refuses the text, unless the step binds an optional input without a default that
  nobody supplied: then its bindings fail with that input as missing.\<close>

lemma ready_step_has_prompt:
  assumes "version_ok (pin_version pin)"
    and "run_step\<^sup>*\<^sup>* (run_start rid trigger occurrence pin at) r"
    and "sid \<in> set (ready_steps r)" and "version_step (pin_version pin) sid = Some st"
    and "resolve_inputs (pin_version pin) supplied = Inr (pin_inputs pin)"
  shows "(\<exists>vals rendered. resolve_bindings r sid = Inr vals \<and>
      render_from sid vals (content_str (st_prompt st)) = Inr rendered \<and>
      render_prompt st vals = map_err (\<lambda>_. RE_EmptyRenderedPrompt sid) (content_new rendered)) \<or>
    (\<exists>i\<in>set (ver_inputs (pin_version pin)). resolve_bindings r sid = Inl (RE_MissingInput (in_key i)) \<and>
      BS_Input (in_key i) \<in> set (bm_values (st_bindings st)) \<and>
      \<not> in_required i \<and> in_default i = None \<and> \<not> bm_contains supplied (in_key i))"
proof -
  note hist = run_wf_history [OF assms(1,2)]
  have wf: "run_wf r" and pin: "run_pin r = pin" using hist by blast+
  have vwf: "version_wf (pin_version pin)" using assms(1) by (simp add: version_ok_def)
  have st: "version_step (pin_version (run_pin r)) sid = Some st" using assms(4) pin by simp
  show ?thesis
  proof (cases "resolve_bindings r sid")
    case (Inl e)
    from resolve_bindings_Inl [OF st Inl] obtain source
      where source: "source \<in> set (bm_values (st_bindings st))" "resolve_source r sid source = Inl e" by blast
    from ready_source_resolves [OF wf assms(3) st this] obtain i
      where i: "i \<in> set (ver_inputs (pin_version pin))" "bm_get (pin_inputs pin) (in_key i) = None"
        "e = RE_MissingInput (in_key i)" unfolding pin by blast
    have "source = BS_Input (in_key i)"
      using source(2) i(3) by (cases source) (auto simp: resolve_source_def ok_or_Inl_iff)
    with i source(1) Inl unpinned_input [OF vwf assms(5) i(1,2)] show ?thesis by blast
  next
    case (Inr vals)
    have "st \<in> set (ver_steps (pin_version pin))" and sid: "st_id st = sid"
      using st version_step_Some_iff [OF vwf] pin by auto
    then have "check_prompt st = Inr ()" using vwf by (simp add: version_wf_def)
    from checked_prompt_renders [OF this] resolve_bindings_keys [OF st Inr] obtain rendered where
      "render_from sid vals (content_str (st_prompt st)) = Inr rendered" unfolding sid by blast
    with Inr sid show ?thesis by (simp add: render_prompt_def)
  qed
qed

lemma sample_ready: "Id 2 \<in> set (ready_steps sample_completed)"
proof -
  have wf: "run_wf sample_completed"
    using run_wf_history(1) [OF sample_pin_ok sample_history(2) [unfolded sample_run_def]] .
  have "d = Id 1" if "(Id 2, d) \<in> depends (ver_steps sample_version)" for d
    using that by (auto simp: depends_def sample_version_def sample_first_def sample_second_def bs_elems_def)
  then show ?thesis
    unfolding ready_steps_iff [OF wf]
    by (auto simp: sample_completed_def sample_run_fields step_run_pending_def sample_pin_def)
qed

lemma ready_step_has_prompt_witness:
  "\<exists>vals rendered. resolve_bindings sample_completed (Id 2) = Inr vals \<and>
     render_from (Id 2) vals ''do {{plan}}'' = Inr rendered"
proof -
  have step: "version_step (pin_version sample_pin) (Id 2) = Some sample_second"
    by (simp add: sample_pin_def sample_run_fields)
  have "pin_version sample_pin = sample_version" "pin_inputs sample_pin = bm_empty"
    and none: "ver_inputs sample_version = []"
    by (simp_all add: sample_pin_def) (simp add: sample_version_def)
  then have "resolve_inputs (pin_version sample_pin) bm_empty = Inr (pin_inputs sample_pin)"
    by (simp add: resolve_inputs_def bm_keys_def bm_empty.rep_eq)
  from ready_step_has_prompt [OF sample_pin_ok sample_history(2) [unfolded sample_run_def] sample_ready step this] none
  show ?thesis by (auto simp: sample_pin_def sample_second_def)
qed

section \<open>Schedules\<close>

text \<open>C28: The next occurrence of a schedule is the first instant at or after the given one at which the clock
  of its offset shows what the cadence names: the minute of an hourly one, the time of a daily one,
  the day of the week and the time of a weekly one.\<close>

lemma schedule_fires_next:
  assumes "cadence_validate c = Inr c'" and "next_occurrence c start off = Some t"
  shows "uint start \<le> uint t \<and> shows_on_clock c off (uint t) \<and>
    (\<forall>s. uint start \<le> s \<and> s < uint t \<longrightarrow> \<not> shows_on_clock c off s)"
proof (intro conjI allI impI)
  note next_is = next_occurrence_Some [OF assms(2)]
  show "uint start \<le> uint t" by (rule next_is(1))
  show "shows_on_clock c off (uint t)" by (rule fires_at_shows_on_clock [OF assms(1) next_is(3)])
  fix s
  assume s: "uint start \<le> s \<and> s < uint t"
  show "\<not> shows_on_clock c off s"
  proof
    assume "shows_on_clock c off s"
    from next_occurrence_least [OF assms(2) shows_on_clock_fires_at [OF assms(1) this]] s
    show False by linarith
  qed
qed

lemma schedule_fires_next_witness:
  "uint (0::u64) \<le> uint (30600000::u64) \<and> shows_on_clock (CD_Daily 9 30) 60 30600000"
proof -
  have "cadence_validate (CD_Daily 9 30) = Inr (CD_Daily 9 30)" by (simp add: cadence_validate_def)
  moreover have "next_occurrence (CD_Daily 9 30) 0 60 = Some 30600000"
    by (simp add: next_occurrence_def i64_checked_def i64_min_def i64_max_def)
  ultimately show ?thesis using schedule_fires_next [of "CD_Daily 9 30" "CD_Daily 9 30" 0 60 30600000] by simp
qed

text \<open>C29: A valid schedule always has a next occurrence: no overflow check of the computation fails for
  any instant a clock can show in the next hundred million years.\<close>

lemma schedule_always_fires:
  assumes "routine_schedule_new c off label next_at = Inr s" and "\<bar>off\<bar> < 2147483648"
    and "uint start < 2 ^ 62"
  shows "\<exists>t. next_occurrence (sch_cadence s) start (sch_offset_minutes s) = Some t"
proof -
  obtain c' where "cadence_validate c = Inr c'" "sch_cadence s = c'" "sch_offset_minutes s = off"
    "i32_abs off \<le> max_offset_minutes"
    using assms(1) by (auto simp: routine_schedule_new_def res_bind_Inr_iff split: if_splits)
  moreover have "c' = c" using calculation(1) by (auto simp: cadence_validate_def split: routine_cadence.splits if_splits)
  moreover have "i32_abs off = \<bar>off\<bar>" using assms(2) by (simp add: i32_abs_def i32_min_def)
  ultimately show ?thesis using next_occurrence_exists [of c c off start] assms(3) by simp
qed

lemma schedule_always_fires_witness: "\<exists>t. next_occurrence (CD_Weekly 0 8 15) 1700000000000 (- 300) = Some t"
proof -
  have "routine_schedule_new (CD_Weekly 0 8 15) (- 300) None None =
      Inr \<lparr>sch_cadence = CD_Weekly 0 8 15, sch_offset_minutes = - 300, sch_timezone_label = None,
           sch_next_occurrence = None\<rparr>"
    by (simp add: routine_schedule_new_def cadence_validate_def i32_abs_def i32_min_def max_offset_minutes_def)
  from schedule_always_fires [OF this, of 1700000000000] show ?thesis by simp
qed

end
