(* ===== verification/Workspace_Keep.thy ===== *)
theory Workspace_Keep
  imports Workspace_Runs
begin

text \<open>
  The events that touch configuration, agents, conversations, tasks and handoffs keep the
  workspace invariant.
\<close>

section \<open>Configuration\<close>

lemma knows_more_refl [simp]: "knows_more w w"
  by (simp add: knows_more_def)

lemma knows_more_same:
  assumes "w_agents w' = w_agents w" and "w_archived w' = w_archived w" and "w_tasks w' = w_tasks w"
    and "w_handoffs w' = w_handoffs w" and "w_runs w' = w_runs w"
  shows "knows_more w w'"
  using assms by (simp add: knows_more_def known_agent_def)

lemma known_agent_frame [simp]:
  "known_agent (w\<lparr>w_tasks := t\<rparr>) = known_agent w"
  "known_agent (w\<lparr>w_handoffs := h\<rparr>) = known_agent w"
  "known_agent (w\<lparr>w_threads := x\<rparr>) = known_agent w"
  "known_agent (w\<lparr>w_attachments := y\<rparr>) = known_agent w"
  "known_agent (w\<lparr>w_runs := r\<rparr>) = known_agent w"
  "known_agent (w\<lparr>w_routines := q\<rparr>) = known_agent w"
  "known_agent (w\<lparr>w_floors := f\<rparr>) = known_agent w"
  by (simp_all add: known_agent_def fun_eq_iff)

lemma ws_inv_config:
  assumes inv: "ws_inv w" and ok: "config_ok P Q R"
    and refs: "\<And>x. x \<in> set (recorded_agents w) \<Longrightarrow>
      agent_refs_ok (bm_contains (w_roles w)) (bm_contains (w_profiles w)) (bm_contains (w_presets w)) x \<Longrightarrow>
      agent_refs_ok (bm_contains R) (bm_contains P) (bm_contains Q) x"
  shows "ws_inv (w\<lparr>w_profiles := P, w_presets := Q, w_roles := R\<rparr>)"
proof -
  have "x \<in> set (recorded_agents w)"
    if "bm_get (w_agents w) a = Some x \<or> bm_get (w_archived w) a = Some x" for a x
    using that by (auto simp: recorded_agents_def set_bm_values)
  then have "agents_ok (bm_contains R) (bm_contains P) (bm_contains Q) (w_agents w) (w_archived w)"
    using ws_invD(2) [OF inv] refs unfolding agents_ok_def by blast
  with ok show ?thesis by (intro ws_inv_frame [OF inv] knows_more_same) simp_all
qed

lemma ws_inv_profiles:
  assumes "ws_inv w" and "profile_map.keyed P"
    and "\<And>x e. x \<in> set (recorded_agents w) \<Longrightarrow> agent_environment x = Some e \<Longrightarrow>
      bm_contains (w_profiles w) e \<Longrightarrow> bm_contains P e"
  shows "ws_inv (w\<lparr>w_profiles := P\<rparr>)"
proof -
  have "ws_inv (w\<lparr>w_profiles := P, w_presets := w_presets w, w_roles := w_roles w\<rparr>)"
    using assms ws_invD(1) [OF assms(1)]
    by (intro ws_inv_config) (auto simp: config_ok_def agent_refs_ok_def)
  then show ?thesis by simp
qed

lemma ws_inv_presets:
  assumes "ws_inv w" and "preset_map.keyed Q"
    and "\<And>x p. x \<in> set (recorded_agents w) \<Longrightarrow> agent_program x = AP_Custom p \<Longrightarrow>
      bm_contains (w_presets w) p \<Longrightarrow> bm_contains Q p"
  shows "ws_inv (w\<lparr>w_presets := Q\<rparr>)"
proof -
  have "ws_inv (w\<lparr>w_profiles := w_profiles w, w_presets := Q, w_roles := w_roles w\<rparr>)"
    using assms ws_invD(1) [OF assms(1)]
    by (intro ws_inv_config) (auto simp: config_ok_def agent_refs_ok_def)
  then show ?thesis by simp
qed

lemma ws_inv_roles:
  assumes "ws_inv w" and "role_map.keyed R"
    and "\<And>x r. x \<in> set (recorded_agents w) \<Longrightarrow> agent_role x = Some r \<Longrightarrow>
      bm_contains (w_roles w) r \<Longrightarrow> bm_contains R r"
  shows "ws_inv (w\<lparr>w_roles := R\<rparr>)"
proof -
  have "ws_inv (w\<lparr>w_profiles := w_profiles w, w_presets := w_presets w, w_roles := R\<rparr>)"
    using assms ws_invD(1) [OF assms(1)]
    by (intro ws_inv_config) (auto simp: config_ok_def agent_refs_ok_def)
  then show ?thesis by simp
qed

lemma profile_events_inv:
  assumes "ws_inv w"
  shows "apply_profile_added w p = Inr w' \<Longrightarrow> ws_inv w'"
    and "apply_profile_changed w p q = Inr w' \<Longrightarrow> ws_inv w'"
    and "apply_profile_removed w p = Inr w' \<Longrightarrow> ws_inv w'"
proof -
  have k: "profile_map.keyed (w_profiles w)" using ws_invD(1) [OF assms] by (simp add: config_ok_def)
  show "apply_profile_added w p = Inr w' \<Longrightarrow> ws_inv w'"
    by (auto simp: apply_profile_added_def result_iff
        intro!: ws_inv_profiles assms profile_map.keyed_put k)
  show "apply_profile_changed w p q = Inr w' \<Longrightarrow> ws_inv w'"
    by (auto simp: apply_profile_changed_def result_iff split: if_splits
        intro!: ws_inv_profiles assms profile_map.keyed_replace k)
  show "apply_profile_removed w p = Inr w' \<Longrightarrow> ws_inv w'"
    by (auto simp: apply_profile_removed_def result_iff find_None_iff split: if_splits option.splits
        intro!: ws_inv_profiles assms profile_map.keyed_del k)
qed

lemma preset_events_inv:
  assumes "ws_inv w"
  shows "apply_preset_added w p = Inr w' \<Longrightarrow> ws_inv w'"
    and "apply_preset_changed w p q = Inr w' \<Longrightarrow> ws_inv w'"
    and "apply_preset_removed w p = Inr w' \<Longrightarrow> ws_inv w'"
proof -
  have k: "preset_map.keyed (w_presets w)" using ws_invD(1) [OF assms] by (simp add: config_ok_def)
  show "apply_preset_added w p = Inr w' \<Longrightarrow> ws_inv w'"
    by (auto simp: apply_preset_added_def result_iff
        intro!: ws_inv_presets assms preset_map.keyed_put k)
  show "apply_preset_changed w p q = Inr w' \<Longrightarrow> ws_inv w'"
    by (auto simp: apply_preset_changed_def result_iff split: if_splits
        intro!: ws_inv_presets assms preset_map.keyed_replace k)
  show "apply_preset_removed w p = Inr w' \<Longrightarrow> ws_inv w'"
    by (auto simp: apply_preset_removed_def result_iff find_None_iff split: if_splits option.splits
        intro!: ws_inv_presets assms preset_map.keyed_del k)
qed

lemma role_events_inv:
  assumes "ws_inv w"
  shows "apply_role_added w r = Inr w' \<Longrightarrow> ws_inv w'"
    and "apply_role_changed w r q = Inr w' \<Longrightarrow> ws_inv w'"
    and "apply_role_removed w r = Inr w' \<Longrightarrow> ws_inv w'"
proof -
  have k: "role_map.keyed (w_roles w)" using ws_invD(1) [OF assms] by (simp add: config_ok_def)
  show "apply_role_added w r = Inr w' \<Longrightarrow> ws_inv w'"
    by (auto simp: apply_role_added_def result_iff
        intro!: ws_inv_roles assms role_map.keyed_put k)
  show "apply_role_changed w r q = Inr w' \<Longrightarrow> ws_inv w'"
    by (auto simp: apply_role_changed_def result_iff split: if_splits
        intro!: ws_inv_roles assms role_map.keyed_replace k)
  show "apply_role_removed w r = Inr w' \<Longrightarrow> ws_inv w'"
    by (auto simp: apply_role_removed_def result_iff find_None_iff split: if_splits option.splits
        intro!: ws_inv_roles assms role_map.keyed_del k)
qed

lemma apply_settings_changed_inv:
  assumes "ws_inv w" and "apply_settings_changed w from to = Inr w'"
  shows "ws_inv w'"
proof -
  have w': "w' = w\<lparr>w_settings := to\<rparr>"
    using assms(2) by (simp add: apply_settings_changed_def split: if_splits)
  show ?thesis unfolding w' by (intro ws_inv_frame [OF assms(1)] knows_more_same) simp_all
qed

section \<open>Agents\<close>

lemma recorded_agent_known: "recorded_agent w a = Some x \<Longrightarrow> known_agent w a"
  by (auto simp: recorded_agent_def known_agent_def bm_contains_def split: option.splits)

lemma known_update_recorded [simp]: "known_agent (update_recorded_agent a f w) b = known_agent w b"
  by (simp add: update_recorded_agent_def known_agent_def)

lemma update_recorded_frame [simp]:
  "w_profiles (update_recorded_agent a f w) = w_profiles w"
  "w_presets (update_recorded_agent a f w) = w_presets w"
  "w_roles (update_recorded_agent a f w) = w_roles w"
  "w_tasks (update_recorded_agent a f w) = w_tasks w"
  "w_handoffs (update_recorded_agent a f w) = w_handoffs w"
  "w_threads (update_recorded_agent a f w) = w_threads w"
  "w_attachments (update_recorded_agent a f w) = w_attachments w"
  "w_nodes (update_recorded_agent a f w) = w_nodes w"
  "w_groups (update_recorded_agent a f w) = w_groups w"
  "w_connections (update_recorded_agent a f w) = w_connections w"
  "w_floors (update_recorded_agent a f w) = w_floors w"
  "w_routines (update_recorded_agent a f w) = w_routines w"
  "w_runs (update_recorded_agent a f w) = w_runs w"
  "bm_contains (w_agents (update_recorded_agent a f w)) b = bm_contains (w_agents w) b"
  "bm_contains (w_archived (update_recorded_agent a f w)) b = bm_contains (w_archived w) b"
  by (simp_all add: update_recorded_agent_def)

lemma update_recorded_agents_ok:
  assumes ok: "agents_ok kr ke kp (w_agents w) (w_archived w)" and x: "recorded_agent w a = Some x"
    and ident: "agent_ident (f x) = agent_ident x" and refs: "agent_refs_ok kr ke kp (f x)"
  shows "agents_ok kr ke kp (w_agents (update_recorded_agent a f w)) (w_archived (update_recorded_agent a f w))"
proof (cases "bm_get (w_agents w) a")
  case (Some y)
  then have y: "y = x" using x by (simp add: recorded_agent_def)
  have "agent_ident x = a" using ok Some y agent_map.keyedD by (auto simp: agents_ok_def)
  moreover have "bm_get (w_archived w) a = None" 
  proof -
    have "\<not> (bm_contains (w_agents w) a \<and> bm_contains (w_archived w) a)"
      using ok by (simp add: agents_ok_def)
    with Some show ?thesis by (simp add: bm_contains_def)
  qed
  ultimately show ?thesis using ok Some y ident refs
    by (auto simp: agents_ok_def update_recorded_agent_def agent_map.keyed_def bm_contains_def)
next
  case None
  then have arch: "bm_get (w_archived w) a = Some x" using x by (simp add: recorded_agent_def)
  then have "agent_ident x = a" using ok agent_map.keyedD by (auto simp: agents_ok_def)
  then show ?thesis using ok arch None ident refs
    by (auto simp: agents_ok_def update_recorded_agent_def agent_map.keyed_def bm_contains_def)
qed

lemma update_recorded_agent_inv:
  assumes inv: "ws_inv w" and x: "recorded_agent w a = Some x"
    and ident: "agent_ident (f x) = agent_ident x"
    and refs: "agent_refs_ok (bm_contains (w_roles w)) (bm_contains (w_profiles w))
       (bm_contains (w_presets w)) x \<Longrightarrow>
      agent_refs_ok (bm_contains (w_roles w)) (bm_contains (w_profiles w)) (bm_contains (w_presets w)) (f x)"
  shows "ws_inv (update_recorded_agent a f w)"
proof (rule ws_inv_frame [OF inv])
  have "agent_refs_ok (bm_contains (w_roles w)) (bm_contains (w_profiles w)) (bm_contains (w_presets w)) x"
    using ws_invD(2) [OF inv] x by (auto simp: agents_ok_def recorded_agent_def split: option.splits)
  from update_recorded_agents_ok [where f = f, OF ws_invD(2) [OF inv] x ident refs [OF this]]
  show "w_profiles (update_recorded_agent a f w) = w_profiles w \<and>
      w_presets (update_recorded_agent a f w) = w_presets w \<and>
      w_roles (update_recorded_agent a f w) = w_roles w \<and>
      w_agents (update_recorded_agent a f w) = w_agents w \<and>
      w_archived (update_recorded_agent a f w) = w_archived w \<or>
      agents_ok (bm_contains (w_roles (update_recorded_agent a f w)))
        (bm_contains (w_profiles (update_recorded_agent a f w)))
        (bm_contains (w_presets (update_recorded_agent a f w)))
        (w_agents (update_recorded_agent a f w)) (w_archived (update_recorded_agent a f w))"
    by simp
  show "w_archived (update_recorded_agent a f w) = w_archived w \<and>
      w_nodes (update_recorded_agent a f w) = w_nodes w \<or>
      placed_ok (w_archived (update_recorded_agent a f w)) (w_nodes (update_recorded_agent a f w))"
    using ws_invD(7) [OF inv] by (intro disjI2) (simp add: placed_ok_def)
qed (simp_all add: knows_more_def)

lemma agent_events_inv:
  assumes "ws_inv w"
  shows "apply_agent_role_changed w a fr tr = Inr w' \<Longrightarrow> ws_inv w'"
    and "apply_agent_renamed w a fn tn = Inr w' \<Longrightarrow> ws_inv w'"
    and "apply_agent_state_changed w a fs ts = Inr w' \<Longrightarrow> ws_inv w'"
  by (auto simp: apply_agent_role_changed_def apply_agent_renamed_def apply_agent_state_changed_def
      get_recorded_def result_iff agent_refs_ok_def split: if_splits intro!: update_recorded_agent_inv assms)

lemma check_agent_references_Inr_iff [result_iff]:
  "check_agent_references w a = Inr u \<longleftrightarrow>
     agent_refs_ok (bm_contains (w_roles w)) (bm_contains (w_profiles w)) (bm_contains (w_presets w)) a"
  by (auto simp: check_agent_references_def agent_refs_ok_def result_iff split: agent_program.splits)

lemma agents_ok_insert:
  assumes "agents_ok kr ke kp agents archived" and "\<not> bm_contains archived (agent_ident a)"
    and "agent_refs_ok kr ke kp a"
  shows "agents_ok kr ke kp (bm_insert (agent_ident a) a agents) archived"
  using assms agent_map.keyed_put [of agents a] by (auto simp: agents_ok_def split: if_splits)

lemma apply_agent_added_inv:
  assumes inv: "ws_inv w" and "apply_agent_added w a = Inr w'"
  shows "ws_inv w'"
proof -
  have w': "w' = w\<lparr>w_agents := bm_insert (agent_ident a) a (w_agents w)\<rparr>"
    and new: "\<not> bm_contains (w_archived w) (agent_ident a)"
    and refs: "agent_refs_ok (bm_contains (w_roles w)) (bm_contains (w_profiles w))
       (bm_contains (w_presets w)) a"
    using assms(2) by (auto simp: apply_agent_added_def result_iff)
  from agents_ok_insert [OF ws_invD(2) [OF inv] new refs] show ?thesis
    unfolding w' by (intro ws_inv_frame [OF inv]) (auto simp: knows_more_def known_agent_def)
qed

end
