(* ===== verification/Workspace_Keep_Tasks.thy ===== *)
theory Workspace_Keep_Tasks
  imports Workspace_Keep
begin

text \<open>
  Tasks and handoffs: what the checks on a new task and a new handoff accept, and that the
  events which add or change them keep the workspace invariant.
\<close>

section \<open>New tasks\<close>

lemma validate_new_task_Inr_iff [result_iff]:
  "validate_new_task w t = Inr u \<longleftrightarrow>
     \<not> bm_contains (w_tasks w) (task_ident t) \<and>
     (\<forall>a. task_assignee t = Some a \<longrightarrow> known_agent w a) \<and>
     (\<forall>p. task_retry_of t = Some p \<longrightarrow>
        (\<exists>x. bm_get (w_tasks w) p = Some x \<and> (task_state x = TS_Failed \<or> task_state x = TS_Cancelled)))"
  by (auto simp: validate_new_task_def result_iff known_agent_def)

lemma tasks_ok_insert:
  assumes "tasks_ok ka tasks" and "\<forall>a. task_assignee t = Some a \<longrightarrow> ka a"
    and "\<forall>p. task_retry_of t = Some p \<longrightarrow> bm_contains tasks p"
  shows "tasks_ok ka (bm_insert (task_ident t) t tasks)"
  using assms task_map.keyed_put [of tasks t] by (auto simp: tasks_ok_def)

lemma new_task_ok:
  assumes "tasks_ok (known_agent w) (w_tasks w)" and new: "validate_new_task w t = Inr ()"
  shows "tasks_ok (known_agent w) (bm_insert (task_ident t) t (w_tasks w))"
proof (rule tasks_ok_insert [OF assms(1)])
  show "\<forall>a. task_assignee t = Some a \<longrightarrow> known_agent w a"
    using new unfolding validate_new_task_Inr_iff by blast
  show "\<forall>p. task_retry_of t = Some p \<longrightarrow> bm_contains (w_tasks w) p"
    using new unfolding validate_new_task_Inr_iff bm_contains_iff by blast
qed

lemma tasks_ok_update:
  assumes "tasks_ok ka tasks"
  shows "tasks_ok ka (bm_update k (\<lambda>x. x\<lparr>task_state := s\<rparr>) tasks)"
  using assms by (auto simp: tasks_ok_def task_map.keyed_def split: if_splits)

section \<open>New handoffs\<close>

lemma chain_within_cong:
  assumes "\<And>k h. bm_get hs k = Some h \<Longrightarrow> \<exists>h'. bm_get hs' k = Some h' \<and> ho_parent h' = ho_parent h"
  shows "chain_within n hs p \<Longrightarrow> chain_within n hs' p"
proof (induction n arbitrary: p)
  case 0
  then show ?case by (cases p) simp_all
next
  case (Suc n)
  show ?case
  proof (cases p)
    case (Some i)
    with Suc.prems obtain h where h: "bm_get hs i = Some h" "chain_within n hs (ho_parent h)"
      by (auto split: option.splits)
    from assms [OF h(1)] obtain h' where "bm_get hs' i = Some h'" "ho_parent h' = ho_parent h" by blast
    with Suc.IH [OF h(2)] Some show ?thesis by simp
  qed simp
qed

text \<open>The loop of the code accepts exactly the chains that fit within the depth bound.\<close>

lemma handoff_chain_iff:
  "handoff_chain hs hid depth p = Inr u \<longleftrightarrow> chain_within (max_handoff_depth - depth) hs p"
proof (induction hs hid depth p rule: handoff_chain.induct)
  case (1 hs hid depth p)
  show ?case
  proof (cases p)
    case None
    then show ?thesis by (simp add: handoff_chain.simps)
  next
    case (Some i)
    show ?thesis
    proof (cases "bm_get hs i")
      case None
      with Some show ?thesis
        by (cases "max_handoff_depth - depth") (simp_all add: handoff_chain.simps)
    next
      case (Some h)
      note p = \<open>p = Some i\<close> and h = this
      show ?thesis
      proof (cases "max_handoff_depth < depth + 1")
        case True
        then have "max_handoff_depth - depth = 0" by simp
        with True p h show ?thesis by (simp add: handoff_chain.simps)
      next
        case False
        then have step: "max_handoff_depth - depth = Suc (max_handoff_depth - (depth + 1))" by simp
        from "1.IH" [OF p False, of h] False p h show ?thesis
          unfolding step by (simp add: handoff_chain.simps)
      qed
    qed
  qed
qed

lemma validate_new_handoff_Inr_iff [result_iff]:
  "validate_new_handoff w h pending = Inr u \<longleftrightarrow>
     \<not> bm_contains (w_handoffs w) (ho_id h) \<and>
     handoff_refs_ok (known_agent w)
       (\<lambda>t. bm_contains (w_tasks w) t \<or> (\<exists>x. pending = Some x \<and> task_ident x = t))
       (known_step (w_runs w)) h \<and>
     (\<forall>m. ho_message_id h = Some m \<longrightarrow>
        (\<forall>k e. bm_get (w_handoffs w) k = Some e \<longrightarrow> ho_message_id e \<noteq> Some m)) \<and>
     chain_within (max_handoff_depth - 1) (w_handoffs w) (ho_parent h)"
proof -
  have origin: "validate_handoff_origin w h = Inr () \<longleftrightarrow>
      (\<forall>a. ho_origin h = HO_Agent a \<longrightarrow> known_agent w a \<and> a \<noteq> ho_recipient h) \<and>
      (\<forall>r s. ho_origin h = HO_Routine r s \<longrightarrow> known_step (w_runs w) r s)"
    by (cases "ho_origin h") (auto simp: validate_handoff_origin_def result_iff known_agent_def
        known_step_def bm_contains_def split: option.splits)
  have payload: "validate_handoff_payload w h pending = Inr () \<longleftrightarrow>
      (\<forall>t. ho_payload h = HP_Task t \<longrightarrow>
         bm_contains (w_tasks w) t \<or> (\<exists>x. pending = Some x \<and> task_ident x = t))"
    by (cases "ho_payload h") (auto simp: validate_handoff_payload_def result_iff split: option.splits)
  have dup: "list_ex (\<lambda>e. ho_message_id e = Some m) (bm_values (w_handoffs w)) \<longleftrightarrow>
      (\<exists>k e. bm_get (w_handoffs w) k = Some e \<and> ho_message_id e = Some m)" for m
    unfolding list_ex_iff Bex_def set_bm_values by blast
  have agent: "ensure_reference w x f (ER_Agent a) = Inr v \<longleftrightarrow> known_agent w a" for x f a v
    by (simp add: ensure_reference_Inr_iff known_agent_def)
  show ?thesis
    by (cases "ho_message_id h")
      (auto simp: validate_new_handoff_def res_bind_Inr_iff ensure_absent_Inr_iff agent
        handoff_refs_ok_def origin payload dup handoff_chain_iff)
qed

lemma handoffs_ok_insert:
  assumes ok: "handoffs_ok ka kt ks hs" and fresh: "\<not> bm_contains hs (ho_id h)"
    and h: "handoff_refs_ok ka kt ks h" "handoff_wf h" "chain_within (max_handoff_depth - 1) hs (ho_parent h)"
    and ids: "\<And>m k e. ho_message_id h = Some m \<Longrightarrow> bm_get hs k = Some e \<Longrightarrow> ho_message_id e \<noteq> Some m"
  shows "handoffs_ok ka kt ks (bm_insert (ho_id h) h hs)" (is "handoffs_ok ka kt ks ?new")
proof -
  have "\<exists>x'. bm_get ?new k = Some x' \<and> ho_parent x' = ho_parent x" if "bm_get hs k = Some x" for k x
    using that fresh by (auto simp: bm_contains_def)
  note chain = chain_within_cong [of hs ?new, OF this]
  show ?thesis
    unfolding handoffs_ok_def
  proof (intro conjI allI impI)
    show "handoff_map.keyed ?new"
      using ok by (simp add: handoffs_ok_def handoff_map.keyed_put)
  next
    fix k x assume x: "bm_get ?new k = Some x"
    then have "k = ho_id h \<and> x = h \<or> bm_get hs k = Some x" by (auto split: if_splits)
    then show "handoff_refs_ok ka kt ks x" "handoff_wf x" "chain_within (max_handoff_depth - 1) ?new (ho_parent x)"
      using ok h chain unfolding handoffs_ok_def by blast+
  next
    fix k k' x x' m
    assume "bm_get ?new k = Some x \<and> bm_get ?new k' = Some x' \<and>
      ho_message_id x = Some m \<and> ho_message_id x' = Some m"
    then show "k = k'" using ok ids unfolding handoffs_ok_def by (auto split: if_splits)
  qed
qed

lemma handoffs_ok_replace:
  assumes ok: "handoffs_ok ka kt ks hs" and old: "bm_get hs (ho_id h) = Some h"
    and step: "handoff_step h h'"
  shows "handoffs_ok ka kt ks (bm_insert (ho_id h') h' hs)" (is "handoffs_ok ka kt ks ?new")
proof -
  have same: "ho_id h' = ho_id h" "ho_origin h' = ho_origin h" "ho_recipient h' = ho_recipient h"
    "ho_payload h' = ho_payload h" "ho_message_id h' = ho_message_id h" "ho_parent h' = ho_parent h"
    using handoff_step_identity [OF step] by (simp_all add: same_identity_def)
  have "\<exists>x'. bm_get ?new k = Some x' \<and> ho_parent x' = ho_parent x" if "bm_get hs k = Some x" for k x
    using that old same by auto
  note chain = chain_within_cong [of hs ?new, OF this]
  have h: "handoff_refs_ok ka kt ks h" "handoff_wf h" "chain_within (max_handoff_depth - 1) hs (ho_parent h)"
    using ok old unfolding handoffs_ok_def by blast+
  have h': "handoff_refs_ok ka kt ks h'" using h(1) same by (simp add: handoff_refs_ok_def)
  show ?thesis
    unfolding handoffs_ok_def
  proof (intro conjI allI impI)
    show "handoff_map.keyed ?new"
      using ok by (simp add: handoffs_ok_def handoff_map.keyed_put)
  next
    fix k x assume x: "bm_get ?new k = Some x"
    then have "k = ho_id h \<and> x = h' \<or> bm_get hs k = Some x" using same by (auto split: if_splits)
    then show "handoff_refs_ok ka kt ks x" "handoff_wf x" "chain_within (max_handoff_depth - 1) ?new (ho_parent x)"
      using ok h h' handoff_step_wf [OF step] chain same unfolding handoffs_ok_def by auto
  next
    fix k k' x x' m
    assume a: "bm_get ?new k = Some x \<and> bm_get ?new k' = Some x' \<and>
      ho_message_id x = Some m \<and> ho_message_id x' = Some m"
    have "\<exists>y. bm_get hs i = Some y \<and> ho_message_id y = Some m"
      if "bm_get ?new i = Some z" "ho_message_id z = Some m" for i z
      using that old same by (auto split: if_splits)
    with a obtain y y' where "bm_get hs k = Some y" "ho_message_id y = Some m"
      "bm_get hs k' = Some y'" "ho_message_id y' = Some m" by blast
    then show "k = k'" using ok unfolding handoffs_ok_def by blast
  qed
qed

section \<open>The events\<close>

lemma ws_inv_tasks_handoffs:
  assumes inv: "ws_inv w" and "tasks_ok (known_agent w) T"
    and "handoffs_ok (known_agent w) (bm_contains T) (known_step (w_runs w)) H"
    and "\<And>t. bm_contains (w_tasks w) t \<Longrightarrow> bm_contains T t"
    and "\<And>h. bm_contains (w_handoffs w) h \<Longrightarrow> bm_contains H h"
  shows "ws_inv (w\<lparr>w_tasks := T, w_handoffs := H\<rparr>)"
  using assms(2-) by (intro ws_inv_frame [OF inv]) (simp_all add: knows_more_def)

lemma handoffs_ok_more_tasks:
  "handoffs_ok ka kt ks hs \<Longrightarrow> (\<And>t. kt t \<Longrightarrow> kt' t) \<Longrightarrow> handoffs_ok ka kt' ks hs"
  by (rule handoffs_ok_mono)

lemma apply_task_added_inv:
  assumes inv: "ws_inv w" and ap: "apply_task_added w t = Inr w'"
  shows "ws_inv w'"
proof -
  let ?T = "bm_insert (task_ident t) t (w_tasks w)"
  have w': "w' = insert_task t w" and new: "validate_new_task w t = Inr ()"
    using ap by (auto simp: apply_task_added_def res_bind_Inr_iff)
  have "ws_inv (w\<lparr>w_tasks := ?T, w_handoffs := w_handoffs w\<rparr>)"
  proof (rule ws_inv_tasks_handoffs [OF inv])
    show "tasks_ok (known_agent w) ?T"
      by (rule new_task_ok [OF ws_invD(3) [OF inv] new])
    show "handoffs_ok (known_agent w) (bm_contains ?T) (known_step (w_runs w)) (w_handoffs w)"
      by (rule handoffs_ok_more_tasks [OF ws_invD(4) [OF inv]]) simp
  qed simp_all
  then show ?thesis by (simp add: w' insert_task_def)
qed

lemma insert_handoff_inv:
  assumes inv: "ws_inv w" and new: "validate_new_handoff w h None = Inr ()" and wf: "handoff_wf h"
  shows "ws_inv (insert_handoff h w)"
proof -
  have "ws_inv (w\<lparr>w_tasks := w_tasks w, w_handoffs := bm_insert (ho_id h) h (w_handoffs w)\<rparr>)"
    using new handoffs_ok_insert [OF ws_invD(4) [OF inv] _ _ wf] ws_invD(3) [OF inv]
    by (intro ws_inv_tasks_handoffs [OF inv]) (simp_all add: validate_new_handoff_Inr_iff)
  then show ?thesis by (simp add: insert_handoff_def)
qed

lemma set_task_state_inv:
  assumes inv: "ws_inv w"
  shows "ws_inv (set_task_state t s w)"
proof -
  let ?T = "bm_update t (\<lambda>x. x\<lparr>task_state := s\<rparr>) (w_tasks w)"
  have "bm_contains ?T = bm_contains (w_tasks w)" by (simp add: fun_eq_iff)
  then have "ws_inv (w\<lparr>w_tasks := ?T, w_handoffs := w_handoffs w\<rparr>)"
    using tasks_ok_update [OF ws_invD(3) [OF inv]] ws_invD(4) [OF inv]
    by (intro ws_inv_tasks_handoffs [OF inv]) simp_all
  then show ?thesis by (simp add: set_task_state_def)
qed

lemma replace_handoff_inv:
  assumes inv: "ws_inv w" and "bm_get (w_handoffs w) (ho_id before) = Some before"
    and "handoff_step before after"
  shows "ws_inv (insert_handoff after w)"
proof -
  have "ws_inv (w\<lparr>w_tasks := w_tasks w, w_handoffs := bm_insert (ho_id after) after (w_handoffs w)\<rparr>)"
    using handoffs_ok_replace [OF ws_invD(4) [OF inv] assms(2,3)] ws_invD(3) [OF inv]
    by (intro ws_inv_tasks_handoffs [OF inv]) simp_all
  then show ?thesis by (simp add: insert_handoff_def)
qed

text \<open>A task together with the handoff that delivers it.\<close>

lemma insert_task_handoff_inv:
  assumes inv: "ws_inv w" and t: "validate_new_task w t = Inr ()"
    and h: "validate_new_handoff w h (Some t) = Inr ()" and wf: "handoff_wf h"
  shows "ws_inv (insert_handoff h (insert_task t w))"
proof -
  let ?T = "bm_insert (task_ident t) t (w_tasks w)" and ?H = "bm_insert (ho_id h) h (w_handoffs w)"
  have kt: "bm_contains ?T = (\<lambda>x. bm_contains (w_tasks w) x \<or> (\<exists>y. Some t = Some y \<and> task_ident y = x))"
    by (auto simp: fun_eq_iff)
  have "ws_inv (w\<lparr>w_tasks := ?T, w_handoffs := ?H\<rparr>)"
  proof (rule ws_inv_tasks_handoffs [OF inv])
    show "tasks_ok (known_agent w) ?T"
      by (rule new_task_ok [OF ws_invD(3) [OF inv] t])
    have "handoffs_ok (known_agent w) (bm_contains ?T) (known_step (w_runs w)) (w_handoffs w)"
      by (rule handoffs_ok_more_tasks [OF ws_invD(4) [OF inv]]) simp
    then show "handoffs_ok (known_agent w) (bm_contains ?T) (known_step (w_runs w)) ?H"
      using h unfolding validate_new_handoff_Inr_iff kt
      by (intro handoffs_ok_insert wf) simp_all
  qed simp_all
  then show ?thesis by (simp add: insert_task_def insert_handoff_def)
qed

lemma task_move_facts:
  assumes "check_task_move w t from to = Inr x"
  shows "bm_get (w_tasks w) t = Some x" and "task_state x = from" and "task_can_transition from to"
  using assms by (auto simp: check_task_move_def result_iff split: if_splits)

lemma check_current_handoff_Inr_iff [result_iff]:
  "check_current_handoff w h = Inr u \<longleftrightarrow> bm_get (w_handoffs w) (ho_id h) = Some h"
  by (auto simp: check_current_handoff_def result_iff)

lemma task_handoff_events_inv:
  assumes inv: "ws_inv w"
  shows "apply_handoff_added w h = Inr w' \<Longrightarrow> handoff_wf h \<Longrightarrow> ws_inv w'"
    and "apply_task_handoff_added w t h = Inr w' \<Longrightarrow> handoff_wf h \<Longrightarrow> ws_inv w'"
    and "apply_handoff_changed w h h' = Inr w' \<Longrightarrow> ws_inv w'"
    and "apply_task_cancelled w k from h h' = Inr w' \<Longrightarrow> ws_inv w'"
    and "apply_task_resumed w k from h = Inr w' \<Longrightarrow> handoff_wf h \<Longrightarrow> ws_inv w'"
    and "apply_task_state_changed w k from to = Inr w' \<Longrightarrow> ws_inv w'"
proof -
  show "apply_handoff_added w h = Inr w' \<Longrightarrow> handoff_wf h \<Longrightarrow> ws_inv w'"
    using insert_handoff_inv [OF inv] by (auto simp: apply_handoff_added_def res_bind_Inr_iff)
  show "apply_task_handoff_added w t h = Inr w' \<Longrightarrow> handoff_wf h \<Longrightarrow> ws_inv w'"
    using insert_task_handoff_inv [OF inv]
    by (auto simp: apply_task_handoff_added_def res_bind_Inr_iff split: if_splits)
  show "apply_handoff_changed w h h' = Inr w' \<Longrightarrow> ws_inv w'"
    using replace_handoff_inv [OF inv] validate_successor_sound
    by (auto simp: apply_handoff_changed_def res_bind_Inr_iff check_current_handoff_Inr_iff map_err_Inr_iff)
  show "apply_task_cancelled w k from h h' = Inr w' \<Longrightarrow> ws_inv w'"
    using set_task_state_inv [OF replace_handoff_inv [OF inv]] validate_successor_sound
    by (auto simp: apply_task_cancelled_def res_bind_Inr_iff check_current_handoff_Inr_iff map_err_Inr_iff
        split: if_splits)
  show "apply_task_resumed w k from h = Inr w' \<Longrightarrow> handoff_wf h \<Longrightarrow> ws_inv w'"
    using set_task_state_inv [OF insert_handoff_inv [OF inv]]
    by (auto simp: apply_task_resumed_def res_bind_Inr_iff split: if_splits)
  show "apply_task_state_changed w k from to = Inr w' \<Longrightarrow> ws_inv w'"
    using set_task_state_inv [OF inv] by (auto simp: apply_task_state_changed_def res_bind_Inr_iff)
qed

end
