(* ===== verification/Workspace_Keep_Routines.thy ===== *)
theory Workspace_Keep_Routines
  imports Workspace_Keep_Tasks
begin

text \<open>
  The events of routines and their runs keep the workspace invariant: a run stays pinned to a
  version its routine keeps, at most one run of a routine is active, and no two steps hold the
  same reservation.
\<close>

section \<open>Routines\<close>

definition routine_event_ok :: "routine \<Rightarrow> bool" where
  "routine_event_ok r \<longleftrightarrow> routine_wf r \<and> (\<forall>v\<in>set (rt_versions r). version_ok v)"

lemma put_routine_frame [simp]:
  "known_agent (put_routine r x w) = known_agent w" "w_profiles (put_routine r x w) = w_profiles w"
  "w_presets (put_routine r x w) = w_presets w" "w_roles (put_routine r x w) = w_roles w"
  "w_agents (put_routine r x w) = w_agents w" "w_archived (put_routine r x w) = w_archived w"
  "w_tasks (put_routine r x w) = w_tasks w" "w_handoffs (put_routine r x w) = w_handoffs w"
  "w_threads (put_routine r x w) = w_threads w" "w_attachments (put_routine r x w) = w_attachments w"
  "w_nodes (put_routine r x w) = w_nodes w" "w_groups (put_routine r x w) = w_groups w"
  "w_connections (put_routine r x w) = w_connections w" "w_floors (put_routine r x w) = w_floors w"
  "w_runs (put_routine r x w) = w_runs w"
  "w_routines (put_routine r x w) = bm_insert r x (w_routines w)"
  by (simp_all add: put_routine_def)

lemma runs_ok_put_routine:
  assumes "runs_ok ka routines runs"
    and "\<And>x i v. bm_get routines rid = Some x \<Longrightarrow> routine_version_of x i = Some v \<Longrightarrow>
      routine_version_of x' i = Some v"
  shows "runs_ok ka (bm_insert rid x' routines) runs"
proof -
  have "run_pinned ka (bm_insert rid x' routines) r" if "run_pinned ka routines r" for r
    using that assms(2) by (cases "run_routine r = rid") (auto simp: run_pinned_def)
  with assms(1) show ?thesis unfolding runs_ok_def by simp
qed

lemma put_routine_inv:
  assumes inv: "ws_inv w" and ok: "routine_event_ok x'" and ident: "rt_id x' = rid"
    and versions: "\<And>x i v. bm_get (w_routines w) rid = Some x \<Longrightarrow> routine_version_of x i = Some v \<Longrightarrow>
      routine_version_of x' i = Some v"
  shows "ws_inv (put_routine rid x' w)"
proof (rule ws_inv_frame [OF inv])
  show "knows_more w (put_routine rid x' w)" by (rule knows_more_same) simp_all
  have "routines_ok (bm_insert rid x' (w_routines w))"
    using ws_invD(9) [OF inv] ok ident
    by (auto simp: routines_ok_def routine_event_ok_def routine_map.keyed_put split: if_splits
        intro: routine_map.keyed_put [of _ x', unfolded ident])
  then show "w_routines (put_routine rid x' w) = w_routines w \<or> routines_ok (w_routines (put_routine rid x' w))"
    by simp
  show "w_routines (put_routine rid x' w) = w_routines w \<and> w_runs (put_routine rid x' w) = w_runs w \<or>
      runs_ok (known_agent (put_routine rid x' w)) (w_routines (put_routine rid x' w))
        (w_runs (put_routine rid x' w))"
    using runs_ok_put_routine [OF ws_invD(10) [OF inv] versions] by simp
qed simp_all

lemma get_routine_facts:
  assumes "ws_inv w" and "get_routine w r = Inr x"
  shows "bm_get (w_routines w) r = Some x" and "rt_id x = r" and "routine_event_ok x"
proof -
  show x: "bm_get (w_routines w) r = Some x" using assms(2) by (simp add: get_routine_def result_iff)
  show "rt_id x = r" "routine_event_ok x"
    using ws_invD(9) [OF assms(1)] x routine_map.keyedD by (auto simp: routines_ok_def routine_event_ok_def)
qed

text \<open>Only a new version changes what a routine's versions are.\<close>

lemma put_same_versions_inv:
  assumes inv: "ws_inv w" and x: "get_routine w r = Inr x"
    and "rt_versions x' = rt_versions x" and "rt_id x' = rt_id x" and "routine_wf x'"
  shows "ws_inv (put_routine r x' w)"
proof (rule put_routine_inv [OF inv])
  show "routine_event_ok x'" and "rt_id x' = r"
    using get_routine_facts [OF inv x] assms(3-) by (simp_all add: routine_event_ok_def)
qed (use get_routine_facts [OF inv x] assms(3) in \<open>simp add: routine_version_of_def\<close>)

lemma put_schedule_wf:
  assumes "routine_wf x" and "routine_trigger_of x k = Some t"
    and "tr_id t' = tr_id t" and "tr_routine t' = tr_routine t"
    and "trigger_kind_validate (tr_kind t') = trigger_kind_validate (tr_kind t)"
  shows "routine_wf (x\<lparr>rt_triggers := bm_insert k t' (rt_triggers x)\<rparr>)"
  using assms by (auto simp: routine_wf_def routine_trigger_of_def)

lemma set_schedule_next_fields [simp]:
  "tr_id (set_schedule_next at t) = tr_id t" "tr_routine (set_schedule_next at t) = tr_routine t"
  "trigger_kind_validate (tr_kind (set_schedule_next at t)) = trigger_kind_validate (tr_kind t)"
  by (simp_all add: set_schedule_next_def trigger_kind_validate_def split: routine_trigger_kind.split)

lemma trigger_skip_fields [simp]:
  "tr_id (trigger_skip n t) = tr_id t" "tr_routine (trigger_skip n t) = tr_routine t"
  "tr_kind (trigger_skip n t) = tr_kind t"
  by (simp_all add: trigger_skip_def)

lemma apply_routine_added_inv:
  assumes inv: "ws_inv w" and "apply_routine_added w r = Inr w'" and ok: "routine_event_ok r"
  shows "ws_inv w'"
proof -
  have r: "w' = put_routine (rt_id r) r w" and new: "\<not> bm_contains (w_routines w) (rt_id r)"
    using assms(2) by (auto simp: apply_routine_added_def result_iff)
  show ?thesis unfolding r
    by (rule put_routine_inv [OF inv ok]) (use new in \<open>simp_all add: bm_contains_def\<close>)
qed

lemma find_append_Some: "List.find P xs = Some x \<Longrightarrow> List.find P (xs @ ys) = Some x"
  by (induction xs) (auto split: if_splits)

lemma apply_version_added_inv:
  assumes inv: "ws_inv w" and "apply_version_added w r v = Inr w'" and ok: "version_ok v"
  shows "ws_inv w'"
proof -
  obtain x x' where x: "get_routine w r = Inr x" and push: "push_version v x = Inr x'"
    and r: "w' = put_routine r x' w"
    using assms(2) by (auto simp: apply_version_added_def result_iff split: if_splits)
  note f = get_routine_facts [OF inv x]
  have x': "x' = x\<lparr>rt_versions := rt_versions x @ [v]\<rparr>" using push by (simp add: push_version_Inr_iff)
  have wf: "routine_wf x'"
    using push_version_wf f(3) push unfolding routine_event_ok_def by blast
  show ?thesis unfolding r
  proof (rule put_routine_inv [OF inv])
    show "routine_event_ok x'" using wf f(3) ok by (simp add: routine_event_ok_def x')
    show "rt_id x' = r" using f(2) by (simp add: x')
    fix y i u
    assume "bm_get (w_routines w) r = Some y" and "routine_version_of y i = Some u"
    then show "routine_version_of x' i = Some u"
      using f(1) by (simp add: routine_version_of_def x' find_append_Some)
  qed
qed

lemma routine_events_inv:
  assumes inv: "ws_inv w"
  shows "apply_routine_changed w r fn tn fd td = Inr w' \<Longrightarrow> ws_inv w'"
    and "apply_trigger_changed w r from to = Inr w' \<Longrightarrow> ws_inv w'"
    and "apply_trigger_removed w r t = Inr w' \<Longrightarrow> ws_inv w'"
    and "apply_occurrences_skipped w r tid n next_at = Inr w' \<Longrightarrow> ws_inv w'"
proof -
  have wf: "get_routine w r = Inr x \<Longrightarrow> routine_wf x \<and> rt_id x = r" for x
    using get_routine_facts [OF inv] by (auto simp: routine_event_ok_def)
  show "apply_routine_changed w r fn tn fd td = Inr w' \<Longrightarrow> ws_inv w'"
    by (auto simp: apply_routine_changed_def result_iff set_appearance_wf wf split: if_splits
        intro!: put_same_versions_inv [OF inv]) (simp_all add: set_appearance_def wf)
  show "apply_trigger_changed w r from to = Inr w' \<Longrightarrow> ws_inv w'"
    by (auto simp: apply_trigger_changed_def result_iff put_trigger_wf wf split: if_splits
        intro!: put_same_versions_inv [OF inv]) (simp_all add: put_trigger_def wf)
  show "apply_trigger_removed w r t = Inr w' \<Longrightarrow> ws_inv w'"
    by (auto simp: apply_trigger_removed_def result_iff remove_trigger_wf wf split: if_splits
        intro!: put_same_versions_inv [OF inv]) (simp_all add: remove_trigger_def wf)
  show "apply_occurrences_skipped w r tid n next_at = Inr w' \<Longrightarrow> ws_inv w'"
    by (auto simp: apply_occurrences_skipped_def result_iff wf
        intro!: put_same_versions_inv [OF inv] put_schedule_wf)
qed

section \<open>Starting a run\<close>

lemma consume_occurrence_cases:
  assumes "consume_occurrence w run x firing next_at = Inr w1"
  obtains "w1 = w" | tid f t t' where "run_trigger run = Some tid" "firing = Some f"
      "routine_trigger_of x tid = Some t" "trigger_fire (fire_occurrence f) (fire_at f) t = Inr t'"
      "w1 = put_routine (run_routine run)
         (x\<lparr>rt_triggers := bm_insert tid (set_schedule_next next_at t') (rt_triggers x)\<rparr>) w"
  using assms by (auto simp: consume_occurrence_def result_iff split: option.splits if_splits)

lemma consume_occurrence_inv:
  assumes inv: "ws_inv w" and x: "get_routine w (run_routine run) = Inr x"
    and "consume_occurrence w run x firing next_at = Inr w1"
  shows "ws_inv w1 \<and> w_runs w1 = w_runs w \<and> known_agent w1 = known_agent w \<and>
    (\<exists>y. bm_get (w_routines w1) (run_routine run) = Some y \<and> rt_versions y = rt_versions x)"
  using assms(3)
proof (cases rule: consume_occurrence_cases)
  case 1
  then show ?thesis using inv get_routine_facts(1) [OF inv x] by simp
next
  case (2 tid f t t')
  note f = get_routine_facts [OF inv x]
  have "tr_id t' = tr_id t" "tr_routine t' = tr_routine t" "tr_kind t' = tr_kind t"
    using 2(4) by (simp_all add: trigger_fire_Inr_iff)
  then have "routine_wf (x\<lparr>rt_triggers := bm_insert tid (set_schedule_next next_at t') (rt_triggers x)\<rparr>)"
    using f(3) 2(3) by (intro put_schedule_wf) (simp_all add: routine_event_ok_def)
  then have "ws_inv w1" unfolding 2(5) by (intro put_same_versions_inv [OF inv x]) simp_all
  then show ?thesis by (simp add: 2(5))
qed

lemma held_claims_insert:
  "held_claims (bm_insert k r runs) p = (if fst p = k then step_claims r (snd p) else held_claims runs p)"
  by (simp add: held_claims_def)

lemma exclusive_insert_free:
  assumes "exclusive runs" and "\<And>s. step_claims r s \<subseteq> held_claims runs (k, s)"
  shows "exclusive (bm_insert k r runs)"
proof -
  have "held_claims (bm_insert k r runs) p \<subseteq> held_claims runs p" for p
    using assms(2) by (cases p) (auto simp: held_claims_insert)
  then show ?thesis using assms(1) unfolding exclusive_def by blast
qed

lemma run_start_claims [simp]: "step_claims (run_start rid trigger occurrence pin at) s = {}"
proof -
  have "x \<in> range step_run_pending" if "bm_get (run_steps (run_start rid trigger occurrence pin at)) s = Some x" for x
    using that by (auto simp: run_start_def bm_get_of_list dest!: map_of_SomeD)
  then have "step_run_claims x = {}"
    if "bm_get (run_steps (run_start rid trigger occurrence pin at)) s = Some x" for x
    using that by (fastforce simp: step_run_pending_def)
  then show ?thesis by (simp add: step_claims_def split: option.split)
qed

definition run_fresh :: "routine_run \<Rightarrow> bool" where
  "run_fresh r \<longleftrightarrow> (\<exists>rid trigger occurrence pin at. r = run_start rid trigger occurrence pin at)"

lemma validate_pinned_agents_Inr_iff [result_iff]:
  "validate_pinned_agents w r = Inr u \<longleftrightarrow>
     (\<forall>s\<in>set (ver_steps (pin_version (run_pin r))).
        \<exists>a. bm_get (pin_agents (run_pin r)) (st_id s) = Some a \<and> known_agent w a)"
  by (simp add: validate_pinned_agents_def check_all_Inr_iff result_iff known_agent_def)

lemma insert_run_inv:
  assumes inv: "ws_inv w" and new: "\<not> bm_contains (w_runs w) (run_id r)"
    and wf: "run_wf r" and pinned: "run_pinned (known_agent w) (w_routines w) r"
    and free: "\<And>s. step_claims r s = {}"
    and alone: "\<And>k q. bm_get (w_runs w) k = Some q \<Longrightarrow> run_routine q = run_routine r \<Longrightarrow> \<not> run_is_active q"
  shows "ws_inv (insert_run r w)"
proof -
  have "runs_ok (known_agent w) (w_routines w) (bm_insert (run_id r) r (w_runs w))"
    unfolding runs_ok_def
  proof (intro conjI allI impI)
    have ok: "run_map.keyed (w_runs w)" "exclusive (w_runs w)"
      using ws_invD(10) [OF inv] by (simp_all add: runs_ok_def)
    show "run_map.keyed (bm_insert (run_id r) r (w_runs w))" by (rule run_map.keyed_put [OF ok(1)])
    show "exclusive (bm_insert (run_id r) r (w_runs w))"
      using exclusive_insert_free [OF ok(2)] free by simp
  qed (use ws_invD(10) [OF inv] wf pinned alone in \<open>auto simp: runs_ok_def split: if_splits\<close>)
  moreover have "known_step (w_runs w) q s \<Longrightarrow> known_step (bm_insert (run_id r) r (w_runs w)) q s" for q s
    using new by (auto simp: known_step_def bm_contains_def split: option.splits)
  ultimately show ?thesis
    unfolding insert_run_def by (intro ws_inv_frame [OF inv]) (simp_all add: knows_more_def)
qed

lemma routines_ok_version:
  "ws_inv w \<Longrightarrow> bm_get (w_routines w) k = Some x \<Longrightarrow> routine_version_of x i = Some v \<Longrightarrow>
     version_ok v \<and> ver_id v = i"
  by (drule ws_invD(9)) (auto simp: routines_ok_def routine_version_of_def find_Some_iff)

lemma apply_run_started_inv:
  assumes inv: "ws_inv w" and "apply_run_started w run firing next_at = Inr w'" and fresh: "run_fresh run"
  shows "ws_inv w'"
proof -
  obtain x w1 where new: "\<not> bm_contains (w_runs w) (run_id run)"
    and x: "get_routine w (run_routine run) = Inr x"
    and version: "routine_version_of x (run_version run) = Some (pin_version (run_pin run))"
    and none: "List.find (\<lambda>other. run_routine other = run_routine run \<and> run_is_active other)
                   (bm_values (w_runs w)) = None"
    and agents: "\<forall>s\<in>set (ver_steps (pin_version (run_pin run))).
        \<exists>a. bm_get (pin_agents (run_pin run)) (st_id s) = Some a \<and> known_agent w a"
    and w1: "consume_occurrence w run x firing next_at = Inr w1" and w': "w' = insert_run run w1"
    using assms(2) by (auto simp: apply_run_started_def result_iff split: if_splits option.splits)
  note c = consume_occurrence_inv [OF inv x w1]
  have "version_ok (pin_version (run_pin run))"
    using routines_ok_version [OF inv get_routine_facts(1) [OF inv x] version] by blast
  moreover obtain rid trigger occurrence pin at where start: "run = run_start rid trigger occurrence pin at"
    using fresh by (auto simp: run_fresh_def)
  ultimately have wf: "run_wf run" using run_start_wf by (simp add: run_start_def)
  show ?thesis unfolding w'
  proof (rule insert_run_inv)
    show "run_pinned (known_agent w1) (w_routines w1) run"
      using c version agents by (auto simp: run_pinned_def routine_version_of_def)
    fix k q assume "bm_get (w_runs w1) k = Some q" "run_routine q = run_routine run"
    then show "\<not> run_is_active q" using none c by (auto simp: find_None_iff set_bm_values)
  qed (use c new wf in \<open>simp_all add: start\<close>)
qed

section \<open>Advancing and dispatching\<close>

lemma replace_run_inv:
  assumes inv: "ws_inv w" and r: "bm_get (w_runs w) k = Some r" and wf: "run_wf r'"
    and ident: "run_identity r' = run_identity r"
    and steps: "\<And>s. bm_contains (run_steps r') s = bm_contains (run_steps r) s"
    and act: "run_is_active r' \<Longrightarrow> run_is_active r" and excl: "exclusive (bm_insert k r' (w_runs w))"
  shows "ws_inv (w\<lparr>w_runs := bm_insert k r' (w_runs w)\<rparr>)"
proof -
  note ok = ws_invD(10) [OF inv]
  note i = run_identityD [OF ident]
  have "run_id r = k" using ok r run_map.keyedD by (auto simp: runs_ok_def)
  with ok have keyed: "run_map.keyed (bm_insert k r' (w_runs w))"
    using run_map.keyed_put [of "w_runs w" r'] i(1) by (simp add: runs_ok_def)
  have pinned: "run_pinned (known_agent w) (w_routines w) r'"
    using ok r i by (simp add: runs_ok_def run_pinned_def)
  have orig: "\<exists>q'. bm_get (w_runs w) j = Some q' \<and> run_routine q = run_routine q' \<and>
      (run_is_active q \<longrightarrow> run_is_active q')" if "bm_get (bm_insert k r' (w_runs w)) j = Some q" for j q
    using that r act i(2) by (cases "j = k") auto
  have each: "run_wf q \<and> run_pinned (known_agent w) (w_routines w) q"
    if "bm_get (bm_insert k r' (w_runs w)) j = Some q" for j q
    using that wf pinned ok by (cases "j = k") (auto simp: runs_ok_def)
  have one: "j = j'" if a: "bm_get (bm_insert k r' (w_runs w)) j = Some q"
    "bm_get (bm_insert k r' (w_runs w)) j' = Some q'" "run_is_active q" "run_is_active q'"
    "run_routine q = run_routine q'" for j j' q q'
  proof -
    obtain p p' where "bm_get (w_runs w) j = Some p" "bm_get (w_runs w) j' = Some p'"
      "run_is_active p" "run_is_active p'" "run_routine p = run_routine p'"
      using orig [OF a(1)] orig [OF a(2)] a(3-5) by auto
    with ok show ?thesis unfolding runs_ok_def by blast
  qed
  have "runs_ok (known_agent w) (w_routines w) (bm_insert k r' (w_runs w))"
    unfolding runs_ok_def
  proof (intro conjI allI impI)
    fix j j' q q'
    assume "bm_get (bm_insert k r' (w_runs w)) j = Some q \<and>
      bm_get (bm_insert k r' (w_runs w)) j' = Some q' \<and>
      run_is_active q \<and> run_is_active q' \<and> run_routine q = run_routine q'"
    then show "j = j'" by (elim conjE) (rule one)
  qed (fact keyed excl | erule each [THEN conjunct1] each [THEN conjunct2])+
  moreover have "known_step (w_runs w) q s \<Longrightarrow> known_step (bm_insert k r' (w_runs w)) q s" for q s
    by (cases "q = k") (simp_all add: known_step_def r steps)
  ultimately show ?thesis by (intro ws_inv_frame [OF inv]) (simp_all add: knows_more_def)
qed

lemma apply_run_advanced_inv:
  assumes inv: "ws_inv w" and "apply_run_advanced w k t = Inr w'"
  shows "ws_inv w'"
proof -
  obtain r r' where r: "bm_get (w_runs w) k = Some r" and step: "apply_transition t r = Inr r'"
    and w': "w' = w\<lparr>w_runs := bm_insert k r' (w_runs w)\<rparr>"
    using assms(2) by (auto simp: apply_run_advanced_def result_iff)
  note ok = ws_invD(10) [OF inv]
  have wf: "run_wf r" using ok r by (auto simp: runs_ok_def)
  note s = apply_transition_shrinks [OF step]
  have "exclusive (bm_insert k r' (w_runs w))"
    using ok s r by (intro exclusive_insert_free) (auto simp: runs_ok_def shrinks_def held_claims_def)
  then show ?thesis
    unfolding w' using s apply_transition_wf [OF wf step] by (intro replace_run_inv [OF inv r]) (auto simp: shrinks_def)
qed

lemma set_held_reservations:
  assumes "run_wf r" shows "set (held_reservations r) = (\<Union>s. step_claims r s)"
  by (fastforce simp: held_reservations_def step_claims_def step_run_claims_def set_bm_values
      active_or_last_attempt_def List.map_filter_def split: option.splits if_splits)

lemma inactive_claims:
  assumes "run_wf r" and "\<not> run_is_active r" shows "step_claims r s = {}"
proof (cases "bm_get (run_steps r) s")
  case (Some x)
  then show ?thesis using assms by (auto simp: run_wf_def ending_ok_def run_is_active_def step_claims_def)
qed (simp add: step_claims_def)

lemma held_routine_reservations_iff:
  assumes "runs_ok ka routines (w_runs w)"
  shows "bm_contains (held_routine_reservations w) c \<longleftrightarrow> (\<exists>p. c \<in> held_claims (w_runs w) p)"
proof -
  have wf: "run_wf r" if "r \<in> set (bm_values (w_runs w))" for r
    using assms that by (auto simp: runs_ok_def set_bm_values)
  have "bm_contains (held_routine_reservations w) c \<longleftrightarrow>
      (\<exists>r\<in>set (bm_values (w_runs w)). run_is_active r \<and> c \<in> set (held_reservations r))"
    by (auto simp: held_routine_reservations_def active_routine_runs_def)
  also have "\<dots> \<longleftrightarrow> (\<exists>r\<in>set (bm_values (w_runs w)). \<exists>s. c \<in> step_claims r s)"
    using set_held_reservations [OF wf] inactive_claims [OF wf] by blast
  also have "\<dots> \<longleftrightarrow> (\<exists>p. c \<in> held_claims (w_runs w) p)"
  proof
    assume "\<exists>r\<in>set (bm_values (w_runs w)). \<exists>s. c \<in> step_claims r s"
    then obtain k r s where "bm_get (w_runs w) k = Some r" "c \<in> step_claims r s"
      by (auto simp: set_bm_values)
    then have "c \<in> held_claims (w_runs w) (k, s)" by (simp add: held_claims_def)
    then show "\<exists>p. c \<in> held_claims (w_runs w) p" ..
  next
    assume "\<exists>p. c \<in> held_claims (w_runs w) p"
    then obtain k s r where "bm_get (w_runs w) k = Some r" "c \<in> step_claims r s"
      by (auto simp: held_claims_def split: option.splits)
    then have "r \<in> set (bm_values (w_runs w))" "\<exists>s. c \<in> step_claims r s"
      by (auto simp: set_bm_values)
    then show "\<exists>r\<in>set (bm_values (w_runs w)). \<exists>s. c \<in> step_claims r s" by (rule bexI [rotated])
  qed
  finally show ?thesis .
qed

lemma dispatch_claims:
  assumes "dispatch sid a r = Inr r'"
  shows "step_claims r' s = (if s = sid then set (attempt_reservations a) else step_claims r s)"
  using assms by (auto simp: dispatch_Inr_iff step_run_claims_def)

lemma validate_routine_dispatch_Inr_iff [result_iff]:
  "validate_routine_dispatch w rid sid a t h = Inr u \<longleftrightarrow>
     (\<exists>run. bm_get (w_runs w) rid = Some run \<and> dispatch_matches run rid sid a t h) \<and>
     (\<forall>c\<in>set (attempt_reservations a). \<not> bm_contains (held_routine_reservations w) c)"
  by (auto simp: validate_routine_dispatch_def result_iff Let_def find_None_iff find_Some_iff
      split: option.splits if_splits)

lemma exclusive_dispatch:
  assumes "exclusive runs" and r: "bm_get runs k = Some r" and step: "dispatch sid a r = Inr r'"
    and free: "\<And>c p. c \<in> set (attempt_reservations a) \<Longrightarrow> c \<notin> held_claims runs p"
  shows "exclusive (bm_insert k r' runs)"
proof -
  let ?A = "set (attempt_reservations a)"
  have claims: "held_claims (bm_insert k r' runs) p =
      (if p = (k, sid) then ?A else held_claims runs p)" for p
    using r by (cases p) (auto simp: held_claims_insert dispatch_claims [OF step] held_claims_def)
  show ?thesis unfolding exclusive_def
  proof (intro allI impI)
    fix p q :: "routine_run_id \<times> routine_step_id"
    assume pq: "p \<noteq> q"
    have "held_claims runs p \<inter> held_claims runs q = {}"
      using assms(1) pq unfolding exclusive_def by blast
    moreover have "?A \<inter> held_claims runs x = {}" "held_claims runs x \<inter> ?A = {}" for x using free by blast+
    ultimately show "held_claims (bm_insert k r' runs) p \<inter> held_claims (bm_insert k r' runs) q = {}"
      unfolding claims using pq by simp
  qed
qed

lemma apply_step_dispatched_inv:
  assumes inv: "ws_inv w" and "apply_step_dispatched w k sid a t h = Inr w'"
    and fresh: "at_outcome a = None" and hwf: "handoff_wf h"
  shows "ws_inv w'"
proof -
  obtain r r' where valid: "validate_routine_dispatch w k sid a t h = Inr ()"
    and task: "validate_new_task w t = Inr ()" and hand: "validate_new_handoff w h (Some t) = Inr ()"
    and r: "bm_get (w_runs w) k = Some r" and step: "dispatch sid a r = Inr r'"
    and w': "w' = insert_handoff h (insert_task t (w\<lparr>w_runs := bm_insert k r' (w_runs w)\<rparr>))"
    using assms(2) by (auto simp: apply_step_dispatched_def result_iff)
  let ?v = "w\<lparr>w_runs := bm_insert k r' (w_runs w)\<rparr>"
  note ok = ws_invD(10) [OF inv]
  have wf: "run_wf r" and excl: "exclusive (w_runs w)" using ok r by (auto simp: runs_ok_def)
  have free: "c \<notin> held_claims (w_runs w) p" if "c \<in> set (attempt_reservations a)" for c p
    using valid that held_routine_reservations_iff [OF ok, of c]
    unfolding validate_routine_dispatch_Inr_iff by metis
  have same: "run_identity r' = run_identity r" "\<And>s. bm_contains (run_steps r') s = bm_contains (run_steps r) s"
      "run_is_active r' \<Longrightarrow> run_is_active r"
    using step by (auto simp: dispatch_Inr_iff run_is_active_def bm_contains_def split: if_splits)
  have v: "ws_inv ?v"
    using replace_run_inv [OF inv r dispatch_wf [OF wf step fresh] same exclusive_dispatch [OF excl r step free]] .
  have ks: "known_step (bm_insert k r' (w_runs w)) = known_step (w_runs w)"
    using r same(2) by (auto simp: known_step_def fun_eq_iff split: option.splits)
  show ?thesis unfolding w'
  proof (rule insert_task_handoff_inv [OF v _ _ hwf])
    show "validate_new_task ?v t = Inr ()" using task unfolding validate_new_task_Inr_iff by simp
    show "validate_new_handoff ?v h (Some t) = Inr ()"
      using hand unfolding validate_new_handoff_Inr_iff by (simp add: ks)
  qed
qed

end
