(* ===== verification/Canvas_Check.thy ===== *)
theory Canvas_Check
  imports Workspace_Inv
begin

text \<open>
  What \<open>validate_canvas\<close> accepts: a declarative description of a well-formed layout, and the
  proof that the three loops of the code accept exactly the layouts it describes.
\<close>

section \<open>A well-formed layout\<close>

abbreviation members_apart :: "node_group \<Rightarrow> node_group \<Rightarrow> bool" where
  "members_apart g g' \<equiv> bs_elems (grp_members g) \<inter> bs_elems (grp_members g') = {}"

definition node_index :: "node list \<Rightarrow> (node_id, node) bmap" where
  "node_index ns = bm_of_list (map (\<lambda>n. (node_ident n, n)) ns)"

definition layout_ok :: "(node_target \<Rightarrow> bool) \<Rightarrow> canvas_layout \<Rightarrow> bool" where
  "layout_ok known l \<longleftrightarrow>
     distinct (map node_ident (cl_nodes l)) \<and>
     (\<forall>n\<in>set (cl_nodes l). \<forall>t. node_reference n = Some t \<longrightarrow> known t) \<and>
     distinct (map grp_ident (cl_groups l)) \<and>
     (\<forall>g\<in>set (cl_groups l). 2 \<le> bm_len (grp_members g) \<and>
        bs_elems (grp_members g) \<subseteq> node_ident ` set (cl_nodes l)) \<and>
     sorted_wrt members_apart (cl_groups l) \<and>
     distinct (map con_ident (cl_connections l)) \<and>
     (\<forall>c\<in>set (cl_connections l). connection_ok (node_index (cl_nodes l)) c) \<and>
     distinct (map (\<lambda>c. (con_source c, con_target c)) (cl_connections l))"

section \<open>The three loops\<close>

lemma bm_contains_fold_bs [simp]:
  "bm_contains (fold bs_insert xs s) x \<longleftrightarrow> x \<in> set xs \<or> bm_contains s x"
  using bs_elems_fold [of xs s] by (auto simp: bs_elems_def)

lemma canvas_nodes_fold:
  "try_fold (check_canvas_node w) ids ns = Inr ids' \<longleftrightarrow>
     distinct (map node_ident ns) \<and> (\<forall>n\<in>set ns. \<not> bm_contains ids (node_ident n)) \<and>
     (\<forall>n\<in>set ns. \<forall>t. node_reference n = Some t \<longrightarrow> contains w (target_ref t)) \<and>
     ids' = fold bs_insert (map node_ident ns) ids"
proof (induction ns arbitrary: ids)
  case (Cons n ns)
  have "check_canvas_node w ids n = Inr ids1 \<longleftrightarrow>
      \<not> bm_contains ids (node_ident n) \<and>
      (\<forall>t. node_reference n = Some t \<longrightarrow> contains w (target_ref t)) \<and> ids1 = bs_insert (node_ident n) ids"
    for ids1
    by (auto simp: check_canvas_node_def res_bind_Inr_iff check_option_Inr_iff ensure_reference_Inr_iff)
  then have "try_fold (check_canvas_node w) ids (n # ns) = Inr ids' \<longleftrightarrow>
      \<not> bm_contains ids (node_ident n) \<and>
      (\<forall>t. node_reference n = Some t \<longrightarrow> contains w (target_ref t)) \<and>
      try_fold (check_canvas_node w) (bs_insert (node_ident n) ids) ns = Inr ids'"
    by (auto simp: res_bind_Inr_iff)
  then show ?case unfolding Cons.IH by (auto intro: rev_image_eqI)
qed auto

lemma canvas_members_fold:
  "try_fold (check_member gid ids) grouped ms = Inr grouped' \<longleftrightarrow>
     distinct ms \<and> (\<forall>m\<in>set ms. bm_contains ids m \<and> \<not> bm_contains grouped m) \<and>
     grouped' = fold bs_insert ms grouped"
proof (induction ms arbitrary: grouped)
  case (Cons m ms)
  have "check_member gid ids grouped m = Inr g1 \<longleftrightarrow>
      bm_contains ids m \<and> \<not> bm_contains grouped m \<and> g1 = bs_insert m grouped" for g1
    by (auto simp: check_member_def)
  with Cons.IH show ?case by (auto simp: res_bind_Inr_iff)
qed auto

lemma check_canvas_group_Inr_iff:
  "check_canvas_group ids (grouped, seen) g = Inr p \<longleftrightarrow>
     \<not> bm_contains seen (grp_ident g) \<and> 2 \<le> bm_len (grp_members g) \<and>
     (\<forall>m\<in>bs_elems (grp_members g). bm_contains ids m \<and> \<not> bm_contains grouped m) \<and>
     p = (fold bs_insert (bm_keys (grp_members g)) grouped, bs_insert (grp_ident g) seen)"
  by (auto simp: check_canvas_group_def res_bind_Inr_iff canvas_members_fold)

lemma canvas_groups_fold:
  "(\<exists>p. try_fold (check_canvas_group ids) (grouped, seen) gs = Inr p) \<longleftrightarrow>
     distinct (map grp_ident gs) \<and> sorted_wrt members_apart gs \<and>
     (\<forall>g\<in>set gs. \<not> bm_contains seen (grp_ident g) \<and> 2 \<le> bm_len (grp_members g) \<and>
        (\<forall>m\<in>bs_elems (grp_members g). bm_contains ids m \<and> \<not> bm_contains grouped m))"
proof (induction gs arbitrary: grouped seen)
  case (Cons g gs)
  have "(\<exists>p. try_fold (check_canvas_group ids) (grouped, seen) (g # gs) = Inr p) \<longleftrightarrow>
      \<not> bm_contains seen (grp_ident g) \<and> 2 \<le> bm_len (grp_members g) \<and>
      (\<forall>m\<in>bs_elems (grp_members g). bm_contains ids m \<and> \<not> bm_contains grouped m) \<and>
      (\<exists>p. try_fold (check_canvas_group ids)
         (fold bs_insert (bm_keys (grp_members g)) grouped, bs_insert (grp_ident g) seen) gs = Inr p)"
    by (auto simp: res_bind_Inr_iff check_canvas_group_Inr_iff)
  moreover have "(\<forall>h\<in>set gs. \<forall>m\<in>bs_elems (grp_members h).
      \<not> bm_contains (fold bs_insert (bm_keys (grp_members g)) grouped) m) \<longleftrightarrow>
    (\<forall>h\<in>set gs. members_apart g h) \<and>
    (\<forall>h\<in>set gs. \<forall>m\<in>bs_elems (grp_members h). \<not> bm_contains grouped m)"
    by auto
  moreover have "(\<forall>h\<in>set gs. \<not> bm_contains (bs_insert (grp_ident g) seen) (grp_ident h)) \<longleftrightarrow>
    grp_ident g \<notin> grp_ident ` set gs \<and> (\<forall>h\<in>set gs. \<not> bm_contains seen (grp_ident h))"
    by (auto intro: rev_image_eqI)
  ultimately show ?case unfolding Cons.IH ball_conj_distrib by (simp only: list.set list.map distinct.simps sorted_wrt.simps ball_simps set_map) blast
qed simp

lemma check_canvas_connection_Inr_iff:
  "check_canvas_connection nodes (seen, ends) c = Inr p \<longleftrightarrow>
     \<not> bm_contains seen (con_ident c) \<and> connection_ok nodes c \<and>
     \<not> bm_contains ends (con_source c, con_target c) \<and>
     p = (bs_insert (con_ident c) seen, bs_insert (con_source c, con_target c) ends)"
  by (auto simp: check_canvas_connection_def res_bind_Inr_iff ok_or_Inr_iff connection_ok_def
      split: if_splits)

lemma canvas_connections_fold:
  "(\<exists>p. try_fold (check_canvas_connection nodes) (seen, ends) cs = Inr p) \<longleftrightarrow>
     distinct (map con_ident cs) \<and> distinct (map (\<lambda>c. (con_source c, con_target c)) cs) \<and>
     (\<forall>c\<in>set cs. \<not> bm_contains seen (con_ident c) \<and> connection_ok nodes c \<and>
        \<not> bm_contains ends (con_source c, con_target c))"
proof (induction cs arbitrary: seen ends)
  case (Cons c cs)
  have "(\<exists>p. try_fold (check_canvas_connection nodes) (seen, ends) (c # cs) = Inr p) \<longleftrightarrow>
      \<not> bm_contains seen (con_ident c) \<and> connection_ok nodes c \<and>
      \<not> bm_contains ends (con_source c, con_target c) \<and>
      (\<exists>p. try_fold (check_canvas_connection nodes)
         (bs_insert (con_ident c) seen, bs_insert (con_source c, con_target c) ends) cs = Inr p)"
    by (auto simp: res_bind_Inr_iff check_canvas_connection_Inr_iff)
  moreover have "(\<forall>d\<in>set cs. \<not> bm_contains (bs_insert (con_ident c) seen) (con_ident d)) \<longleftrightarrow>
    con_ident c \<notin> con_ident ` set cs \<and> (\<forall>d\<in>set cs. \<not> bm_contains seen (con_ident d))"
    by (auto intro: rev_image_eqI)
  moreover have "(\<forall>d\<in>set cs.
      \<not> bm_contains (bs_insert (con_source c, con_target c) ends) (con_source d, con_target d)) \<longleftrightarrow>
    (con_source c, con_target c) \<notin> (\<lambda>c. (con_source c, con_target c)) ` set cs \<and>
    (\<forall>d\<in>set cs. \<not> bm_contains ends (con_source d, con_target d))"
    by (auto intro: rev_image_eqI)
  ultimately show ?case
    unfolding Cons.IH ball_conj_distrib
    by (simp only: list.set list.map distinct.simps ball_simps set_map) blast
qed simp

lemma validate_canvas_iff:
  "validate_canvas w l = Inr u \<longleftrightarrow> layout_ok (\<lambda>t. contains w (target_ref t)) l"
proof -
  have "validate_canvas w l = Inr u \<longleftrightarrow>
    (\<exists>ids. try_fold (check_canvas_node w) bm_empty (cl_nodes l) = Inr ids \<and>
       (\<exists>p. try_fold (check_canvas_group ids) (bm_empty, bm_empty) (cl_groups l) = Inr p) \<and>
       (\<exists>p. try_fold (check_canvas_connection (node_index (cl_nodes l))) (bm_empty, bm_empty)
              (cl_connections l) = Inr p))"
    by (auto simp: validate_canvas_def res_bind_Inr_iff node_index_def Let_def)
  then show ?thesis
    unfolding canvas_nodes_fold canvas_groups_fold canvas_connections_fold layout_ok_def
    by (auto simp: subset_iff)
qed

section \<open>From a layout to the collections\<close>

lemma index_get:
  assumes "distinct (map f xs)"
  shows "bm_get (bm_of_list (map (\<lambda>x. (f x, x)) xs)) k = Some v \<longleftrightarrow> v \<in> set xs \<and> f v = k"
proof -
  have "distinct (map fst (map (\<lambda>x. (f x, x)) xs))" using assms by (simp add: comp_def)
  then show ?thesis by (auto simp: bm_get_of_list_distinct map_of_eq_Some_iff)
qed

lemma index_contains: "bm_contains (bm_of_list (map (\<lambda>x. (f x, x)) xs)) k \<longleftrightarrow> k \<in> f ` set xs"
  by (force simp: bm_contains_of_list)

lemma sorted_wrt_pair:
  "sorted_wrt P xs \<Longrightarrow> x \<in> set xs \<Longrightarrow> y \<in> set xs \<Longrightarrow> x \<noteq> y \<Longrightarrow> P x y \<or> P y x"
  by (induction xs) auto

lemma layout_ok_canvas_ok:
  assumes ok: "layout_ok known l"
  shows "canvas_ok known (node_index (cl_nodes l))
     (bm_of_list (map (\<lambda>g. (grp_ident g, g)) (cl_groups l)))
     (bm_of_list (map (\<lambda>c. (con_ident c, c)) (cl_connections l)))"
proof -
  have d: "distinct (map node_ident (cl_nodes l))" "distinct (map grp_ident (cl_groups l))"
    "distinct (map con_ident (cl_connections l))"
    using ok by (simp_all add: layout_ok_def)
  note get = index_get [OF d(1), folded node_index_def] index_get [OF d(2)] index_get [OF d(3)]
  show ?thesis
    unfolding canvas_ok_def
  proof (intro conjI allI impI)
    show "node_map.keyed (node_index (cl_nodes l))" by (simp add: node_map.keyed_def get)
    show "group_map.keyed (bm_of_list (map (\<lambda>g. (grp_ident g, g)) (cl_groups l)))"
      by (simp add: group_map.keyed_def get)
    show "connection_map.keyed (bm_of_list (map (\<lambda>c. (con_ident c, c)) (cl_connections l)))"
      by (simp add: connection_map.keyed_def get)
  next
    fix k n t assume "bm_get (node_index (cl_nodes l)) k = Some n \<and> node_reference n = Some t"
    then show "known t" using ok by (auto simp: get layout_ok_def)
  next
    fix k g assume "bm_get (bm_of_list (map (\<lambda>g. (grp_ident g, g)) (cl_groups l))) k = Some g"
    then have "g \<in> set (cl_groups l)" by (simp add: get)
    then show "group_ok (node_index (cl_nodes l)) g"
      using ok by (auto simp: layout_ok_def group_ok_def node_index_def index_contains)
  next
    fix k k' g g'
    assume "bm_get (bm_of_list (map (\<lambda>g. (grp_ident g, g)) (cl_groups l))) k = Some g \<and>
      bm_get (bm_of_list (map (\<lambda>g. (grp_ident g, g)) (cl_groups l))) k' = Some g' \<and> k \<noteq> k'"
    then have "g \<in> set (cl_groups l)" "g' \<in> set (cl_groups l)" "g \<noteq> g'" by (auto simp: get)
    moreover have "sorted_wrt members_apart (cl_groups l)" using ok by (simp add: layout_ok_def)
    ultimately have "members_apart g g' \<or> members_apart g' g"
      using sorted_wrt_pair [where P = members_apart] by metis
    then show "members_apart g g'" by blast
  next
    fix k c assume "bm_get (bm_of_list (map (\<lambda>c. (con_ident c, c)) (cl_connections l))) k = Some c"
    then show "connection_ok (node_index (cl_nodes l)) c" using ok by (simp add: get layout_ok_def)
  next
    fix k k' c c'
    assume a: "bm_get (bm_of_list (map (\<lambda>c. (con_ident c, c)) (cl_connections l))) k = Some c \<and>
      bm_get (bm_of_list (map (\<lambda>c. (con_ident c, c)) (cl_connections l))) k' = Some c' \<and>
      con_source c = con_source c' \<and> con_target c = con_target c'"
    have "inj_on (\<lambda>c. (con_source c, con_target c)) (set (cl_connections l))"
      using ok by (simp add: layout_ok_def distinct_map)
    with a have "c = c'" by (auto simp: get inj_on_def)
    with a show "k = k'" by (auto simp: get)
  qed
qed

end
