(* ===== verification/Workspace_Keep_Canvas.thy ===== *)
theory Workspace_Keep_Canvas
  imports Workspace_Keep Canvas_Check
begin

text \<open>
  The events of the canvas keep the workspace invariant. A canvas event may archive the agents it
  takes off the canvas and bring back the archived agents it places; \<open>relocated\<close> says that this
  moves agents between the two collections and changes nothing else.
\<close>

section \<open>Archiving and restoring agents\<close>

definition agents_apart :: "workspace \<Rightarrow> bool" where
  "agents_apart w \<longleftrightarrow> (\<forall>a. \<not> (bm_contains (w_agents w) a \<and> bm_contains (w_archived w) a))"

definition relocated :: "workspace \<Rightarrow> workspace \<Rightarrow> bool" where
  "relocated w w' \<longleftrightarrow>
     w' = w\<lparr>w_agents := w_agents w', w_archived := w_archived w'\<rparr> \<and>
     recorded_agent w' = recorded_agent w \<and> agents_apart w'"

lemma relocated_refl: "agents_apart w \<Longrightarrow> relocated w w"
  by (simp add: relocated_def)

lemma relocated_trans:
  assumes "relocated u v" and "relocated v w"
  shows "relocated u w"
proof -
  have v: "v = u\<lparr>w_agents := w_agents v, w_archived := w_archived v\<rparr>" and
    w: "w = v\<lparr>w_agents := w_agents w, w_archived := w_archived w\<rparr>"
    using assms by (simp_all only: relocated_def)
  have "w = u\<lparr>w_agents := w_agents w, w_archived := w_archived w\<rparr>"
    by (subst w, subst v) simp
  with assms show ?thesis by (simp only: relocated_def)
qed

lemma relocated_frame:
  assumes "relocated w w'"
  shows "w_id w' = w_id w" and "w_settings w' = w_settings w"
    and "w_profiles w' = w_profiles w" and "w_presets w' = w_presets w" and "w_roles w' = w_roles w"
    and "w_tasks w' = w_tasks w" and "w_handoffs w' = w_handoffs w" and "w_threads w' = w_threads w"
    and "w_attachments w' = w_attachments w" and "w_nodes w' = w_nodes w"
    and "w_groups w' = w_groups w" and "w_connections w' = w_connections w"
    and "w_floors w' = w_floors w" and "w_routines w' = w_routines w" and "w_runs w' = w_runs w"
proof -
  have "w' = w\<lparr>w_agents := w_agents w', w_archived := w_archived w'\<rparr>"
    using assms by (simp only: relocated_def)
  then obtain A B where w': "w' = w\<lparr>w_agents := A, w_archived := B\<rparr>" by blast
  show "w_id w' = w_id w" and "w_settings w' = w_settings w"
    and "w_profiles w' = w_profiles w" and "w_presets w' = w_presets w" and "w_roles w' = w_roles w"
    and "w_tasks w' = w_tasks w" and "w_handoffs w' = w_handoffs w" and "w_threads w' = w_threads w"
    and "w_attachments w' = w_attachments w" and "w_nodes w' = w_nodes w"
    and "w_groups w' = w_groups w" and "w_connections w' = w_connections w"
    and "w_floors w' = w_floors w" and "w_routines w' = w_routines w" and "w_runs w' = w_runs w"
    by (simp_all add: w')
qed

lemma known_agent_recorded: "known_agent w a \<longleftrightarrow> recorded_agent w a \<noteq> None"
  by (simp add: known_agent_def recorded_agent_def bm_contains_def split: option.splits)

lemma relocated_known: "relocated w w' \<Longrightarrow> known_agent w' a = known_agent w a"
  by (simp add: known_agent_recorded relocated_def)

lemma agents_apart_iff: "agents_ok kr ke kp (w_agents w) (w_archived w) \<Longrightarrow> agents_apart w"
  by (simp add: agents_ok_def agents_apart_def)

lemma apart_recorded:
  assumes "agents_apart w"
  shows "bm_get (w_agents w) a = Some x \<or> bm_get (w_archived w) a = Some x \<longleftrightarrow>
    recorded_agent w a = Some x"
proof -
  have "bm_get (w_agents w) a = None \<or> bm_get (w_archived w) a = None"
    using assms by (simp add: agents_apart_def bm_contains_def)
  then show ?thesis by (auto simp: recorded_agent_def split: option.splits)
qed

lemma relocated_agents_ok:
  assumes "agents_ok kr ke kp (w_agents w) (w_archived w)" and "relocated w w'"
  shows "agents_ok kr ke kp (w_agents w') (w_archived w')"
proof -
  have same: "recorded_agent w' = recorded_agent w" and apart: "agents_apart w'"
    using assms(2) by (simp_all only: relocated_def)
  have orig: "bm_get (w_agents w) a = Some x \<or> bm_get (w_archived w) a = Some x"
    if "bm_get (w_agents w') a = Some x \<or> bm_get (w_archived w') a = Some x" for a x
    using that apart_recorded [OF apart] apart_recorded [OF agents_apart_iff [OF assms(1)]] same
    by simp
  with assms(1) apart show ?thesis
    unfolding agents_ok_def agents_apart_def agent_map.keyed_def by blast
qed

lemma move_agent_relocated:
  assumes "agents_apart w" and "bm_get (w_agents w) a = Some x"
  shows "relocated w (w\<lparr>w_agents := bm_remove a (w_agents w),
    w_archived := bm_insert a x (w_archived w)\<rparr>)"
  using assms by (auto simp: relocated_def recorded_agent_def agents_apart_def bm_contains_def
      fun_eq_iff split: option.splits)

lemma archive_agent_relocated: "agents_apart w \<Longrightarrow> relocated w (archive_agent a w)"
  using move_agent_relocated by (simp add: archive_agent_def relocated_refl split: option.split)

lemma restore_agent_relocated:
  assumes "agents_apart w"
  shows "relocated w (restore_agent a w)"
proof (cases "bm_get (w_archived w) a")
  case (Some x)
  then have "bm_get (w_agents w) a = None"
    using assms by (auto simp: agents_apart_def bm_contains_def)
  with Some assms show ?thesis
    by (auto simp: restore_agent_def relocated_def recorded_agent_def agents_apart_def
        bm_contains_def fun_eq_iff split: option.splits)
qed (simp add: restore_agent_def relocated_refl assms)

lemma fold_relocated:
  assumes "\<And>a w. agents_apart w \<Longrightarrow> relocated w (f a w)" and "agents_apart w"
  shows "relocated w (fold f as w)"
  using assms(2)
proof (induction as arbitrary: w)
  case (Cons a as)
  then have "relocated w (f a w)" by (simp add: assms(1))
  moreover from this have "relocated (f a w) (fold f as (f a w))"
    by (intro Cons.IH) (simp only: relocated_def)
  ultimately show ?case using relocated_trans by simp
qed (simp add: relocated_refl)

lemma archive_unplaced_relocated: "agents_apart w \<Longrightarrow> relocated w (archive_unplaced_agents as w)"
  unfolding archive_unplaced_agents_def by (rule fold_relocated [OF archive_agent_relocated])

lemma restore_placed_relocated: "agents_apart w \<Longrightarrow> relocated w (restore_placed_agents w)"
  unfolding restore_placed_agents_def by (rule fold_relocated [OF restore_agent_relocated])

lemma relocated_apart: "relocated w w' \<Longrightarrow> agents_apart w'"
  by (simp only: relocated_def)

lemma set_shown_agents: "set (shown_agents ns) = {a. \<exists>n\<in>set ns. node_reference n = Some (NT_Agent a)}"
  by (force simp: shown_agents_def List.map_filter_def split: option.splits node_target.splits)

lemma restore_agent_archived:
  "bm_contains (w_archived (restore_agent a w)) b \<longleftrightarrow> bm_contains (w_archived w) b \<and> b \<noteq> a"
  by (auto simp: restore_agent_def bm_contains_def split: option.splits)

lemma restore_fold_archived:
  "bm_contains (w_archived (fold restore_agent as w)) b \<longleftrightarrow>
     bm_contains (w_archived w) b \<and> b \<notin> set as"
  by (induction as arbitrary: w) (auto simp: restore_agent_archived)

lemma restore_placed_ok: "placed_ok (w_archived (restore_placed_agents w)) (w_nodes w)"
  by (auto simp: placed_ok_def restore_placed_agents_def restore_fold_archived set_shown_agents
      set_bm_values)

section \<open>Adding a node\<close>

lemma canvas_ok_insert:
  assumes ok: "canvas_ok known nodes groups connections" and new: "\<not> bm_contains nodes (node_ident n)"
    and ref: "\<And>t. node_reference n = Some t \<Longrightarrow> known t"
  shows "canvas_ok known (bm_insert (node_ident n) n nodes) groups connections"
proof -
  let ?nodes = "bm_insert (node_ident n) n nodes"
  have get: "bm_get ?nodes k = Some m" if "bm_get nodes k = Some m" for k m
    using that new by (auto simp: bm_contains_def)
  have "connection_ok nodes c \<Longrightarrow> connection_ok ?nodes c" for c
    using get unfolding connection_ok_def by blast
  moreover have "group_ok nodes g \<Longrightarrow> group_ok ?nodes g" for g
    by (auto simp: group_ok_def)
  moreover have "known t" if "bm_get ?nodes k = Some m" "node_reference m = Some t" for k m t
    using that ok ref by (auto simp: canvas_ok_def split: if_splits)
  moreover have "node_map.keyed ?nodes"
    using ok by (simp add: canvas_ok_def node_map.keyed_put)
  ultimately show ?thesis using ok unfolding canvas_ok_def by (elim conjE) (intro conjI, simp_all only: simp_thms, blast+)
qed

lemma place_node_frame [simp]:
  "w_id (place_node n w) = w_id w" "w_settings (place_node n w) = w_settings w"
  "w_profiles (place_node n w) = w_profiles w" "w_presets (place_node n w) = w_presets w"
  "w_roles (place_node n w) = w_roles w" "w_agents (place_node n w) = w_agents w"
  "w_archived (place_node n w) = w_archived w" "w_tasks (place_node n w) = w_tasks w"
  "w_handoffs (place_node n w) = w_handoffs w" "w_threads (place_node n w) = w_threads w"
  "w_attachments (place_node n w) = w_attachments w" "w_groups (place_node n w) = w_groups w"
  "w_connections (place_node n w) = w_connections w" "w_routines (place_node n w) = w_routines w"
  "w_runs (place_node n w) = w_runs w"
  "w_nodes (place_node n w) = bm_insert (node_ident n) n (w_nodes w)"
  by (simp_all add: place_node_def Let_def split: option.split)

lemma place_node_floors:
  assumes "floors_ok ka kt (w_nodes w) (w_floors w)"
  shows "floors_ok ka kt (w_nodes (place_node n w)) (w_floors (place_node n w))"
  using assms by (cases "fs_active (w_floors w)") (auto simp: floors_ok_def place_node_def)

lemma known_agent_place [simp]: "known_agent (place_node n w) = known_agent w"
  by (simp add: known_agent_def fun_eq_iff)

lemma target_ref_known:
  "contains w (target_ref t) =
     known_target (known_agent w) (bm_contains (w_tasks w)) (bm_contains (w_handoffs w)) t"
  by (cases t) (simp_all add: known_agent_def)

text \<open>
  A canvas event: the nodes and floors change, then agents move between the two collections.
\<close>

lemma ws_inv_canvas:
  assumes inv: "ws_inv w" and agents: "agents_ok (bm_contains (w_roles w)) (bm_contains (w_profiles w))
      (bm_contains (w_presets w)) (w_agents v) (w_archived v)"
    and more: "\<And>a. known_agent w a \<Longrightarrow> known_agent v a"
    and frame: "w_profiles v = w_profiles w" "w_presets v = w_presets w" "w_roles v = w_roles w"
      "w_tasks v = w_tasks w" "w_handoffs v = w_handoffs w" "w_threads v = w_threads w"
      "w_attachments v = w_attachments w" "w_routines v = w_routines w" "w_runs v = w_runs w"
    and canvas: "canvas_ok (known_target (known_agent v) (bm_contains (w_tasks w))
      (bm_contains (w_handoffs w))) (w_nodes v) (w_groups v) (w_connections v)"
    and floors: "floors_ok (known_agent v) (bm_contains (w_tasks w)) (w_nodes v) (w_floors v)"
    and moved: "relocated v w'" and placed: "placed_ok (w_archived w') (w_nodes v)"
  shows "ws_inv w'"
proof -
  note f = relocated_frame [OF moved]
  have k: "known_agent w' = known_agent v" using relocated_known [OF moved] by blast
  show ?thesis
  proof (rule ws_inv_frame [OF inv])
    show "knows_more w w'" using more by (simp add: knows_more_def f frame k)
  qed (use relocated_agents_ok [OF agents moved] canvas floors placed in \<open>simp_all add: f frame k\<close>)
qed

lemma apply_node_added_inv:
  assumes inv: "ws_inv w" and w': "apply_node_added w n = Inr w'"
  shows "ws_inv w'"
proof -
  have new: "\<not> bm_contains (w_nodes w) (node_ident n)"
    and ref: "\<And>t. node_reference n = Some t \<Longrightarrow> contains w (target_ref t)"
    and r: "w' = restore_placed_agents (place_node n w)"
    using w' by (auto simp: apply_node_added_def result_iff)
  note d = ws_invD [OF inv]
  have apart: "agents_apart (place_node n w)"
    using agents_apart_iff [OF d(2)] by (simp add: agents_apart_def)
  show ?thesis
  proof (rule ws_inv_canvas [OF inv])
    show "relocated (place_node n w) w'" unfolding r by (rule restore_placed_relocated [OF apart])
    show "placed_ok (w_archived w') (w_nodes (place_node n w))"
      unfolding r by (rule restore_placed_ok)
  qed (use d canvas_ok_insert [OF d(6) new] ref place_node_floors [OF d(8)]
      in \<open>simp_all add: target_ref_known\<close>)
qed

lemma apply_agent_node_added_inv:
  assumes inv: "ws_inv w" and w': "apply_agent_node_added w a n = Inr w'"
  shows "ws_inv w'"
proof -
  let ?v = "w\<lparr>w_agents := bm_insert (agent_ident a) a (w_agents w)\<rparr>"
  have new: "\<not> bm_contains (w_nodes w) (node_ident n)"
    and newa: "\<not> bm_contains (w_archived w) (agent_ident a)"
    and refs: "agent_refs_ok (bm_contains (w_roles w)) (bm_contains (w_profiles w))
       (bm_contains (w_presets w)) a"
    and ref: "node_reference n = Some (NT_Agent (agent_ident a))"
    and r: "w' = place_node n ?v"
    using w' by (auto simp: apply_agent_node_added_def result_iff split: if_splits)
  have v: "ws_inv ?v" using apply_agent_added_inv [OF inv, of a] w'
    by (auto simp: apply_agent_added_def apply_agent_node_added_def result_iff)
  note d = ws_invD [OF v]
  have apart: "agents_apart (place_node n ?v)"
    using agents_apart_iff [OF d(2)] by (simp add: agents_apart_def)
  show ?thesis
  proof (rule ws_inv_canvas [OF v])
    show "relocated (place_node n ?v) w'" unfolding r by (rule relocated_refl [OF apart])
    show "placed_ok (w_archived w') (w_nodes (place_node n ?v))"
      using d(7) newa ref unfolding r by (auto simp: placed_ok_def)
    show "canvas_ok (known_target (known_agent (place_node n ?v)) (bm_contains (w_tasks ?v))
        (bm_contains (w_handoffs ?v))) (w_nodes (place_node n ?v)) (w_groups (place_node n ?v))
        (w_connections (place_node n ?v))"
      using canvas_ok_insert [OF d(6), of n] new ref by (simp add: known_agent_def)
  qed (use d place_node_floors [OF d(8)] in simp_all)
qed

section \<open>Replacing the visible canvas\<close>

lemma combine_layouts_nodes:
  "node_ident ` set (cl_nodes (combine_layouts whole before after)) =
     {k \<in> node_ident ` set (cl_nodes whole). k \<notin> node_ident ` set (cl_nodes before)} \<union>
     node_ident ` set (cl_nodes after)"
  by (auto simp: combine_layouts_def canvas_layout_new_def Let_def)

lemma fold_insert_get:
  "bm_get (fold (\<lambda>n. bm_insert (node_ident n) v) ns m) k =
     (if k \<in> node_ident ` set ns then Some v else bm_get m k)"
  by (induction ns arbitrary: m) auto

lemma move_nodes_get:
  "bm_get (fs_node_floors (move_nodes before after f)) k =
     (if fs_active f \<noteq> None \<and> k \<in> node_ident ` set (cl_nodes after) then fs_active f
      else if k \<in> node_ident ` set (cl_nodes before) then None
      else bm_get (fs_node_floors f) k)"
  by (cases "fs_active f") (simp_all add: move_nodes_def Let_def bm_get_retain fold_insert_get split: option.split)

lemma move_nodes_other [simp]:
  "fs_entries (move_nodes before after f) = fs_entries f"
  "fs_active (move_nodes before after f) = fs_active f"
  by (simp_all add: move_nodes_def Let_def)

lemma install_layout_frame [simp]:
  "w_profiles (install_layout l w) = w_profiles w" "w_presets (install_layout l w) = w_presets w"
  "w_roles (install_layout l w) = w_roles w" "w_agents (install_layout l w) = w_agents w"
  "w_archived (install_layout l w) = w_archived w" "w_tasks (install_layout l w) = w_tasks w"
  "w_handoffs (install_layout l w) = w_handoffs w" "w_threads (install_layout l w) = w_threads w"
  "w_attachments (install_layout l w) = w_attachments w" "w_floors (install_layout l w) = w_floors w"
  "w_routines (install_layout l w) = w_routines w" "w_runs (install_layout l w) = w_runs w"
  "w_nodes (install_layout l w) = node_index (cl_nodes l)"
  "w_groups (install_layout l w) = bm_of_list (map (\<lambda>g. (grp_ident g, g)) (cl_groups l))"
  "w_connections (install_layout l w) = bm_of_list (map (\<lambda>c. (con_ident c, c)) (cl_connections l))"
  by (simp_all add: install_layout_def node_index_def)

lemma all_canvas_nodes: "set (cl_nodes (all_canvas_layout w)) = set (bm_values (w_nodes w))"
  by (simp add: all_canvas_layout_def canvas_layout_new_def)

lemma apply_canvas_replaced_inv:
  assumes inv: "ws_inv w" and w': "apply_canvas_replaced w before after = Inr w'"
  shows "ws_inv w'"
proof -
  let ?l = "combine_layouts (all_canvas_layout w) before after"
  let ?v = "(install_layout ?l w)\<lparr>w_floors := move_nodes before after (w_floors w)\<rparr>"
  let ?u = "archive_unplaced_agents (shown_agents (cl_nodes before)) ?v"
  have valid: "validate_canvas w ?l = Inr ()" and r: "w' = restore_placed_agents ?u"
    using w' by (auto simp: apply_canvas_replaced_def result_iff Let_def split: if_splits)
  note d = ws_invD [OF inv]
  have k: "known_agent ?v = known_agent w" by (simp add: known_agent_def fun_eq_iff)
  have apart: "agents_apart ?v" using agents_apart_iff [OF d(2)] by (simp add: agents_apart_def)
  note u = archive_unplaced_relocated [OF apart]
  have nodes: "bm_contains (node_index (cl_nodes ?l)) i \<longleftrightarrow>
      bm_contains (w_nodes w) i \<and> i \<notin> node_ident ` set (cl_nodes before) \<or>
      i \<in> node_ident ` set (cl_nodes after)" for i
  proof -
    have "i \<in> node_ident ` set (cl_nodes (all_canvas_layout w)) \<longleftrightarrow> bm_contains (w_nodes w) i"
    proof -
      have "node_map.keyed (w_nodes w)" using d(6) by (simp add: canvas_ok_def)
      then show ?thesis
        unfolding all_canvas_nodes by (force simp: set_bm_values bm_contains_def node_map.keyed_def)
    qed
    then show ?thesis
      using combine_layouts_nodes [of "all_canvas_layout w" before after]
      by (simp add: node_index_def index_contains)
  qed
  show ?thesis
  proof (rule ws_inv_canvas [OF inv])
    show "relocated ?v w'"
      unfolding r using u restore_placed_relocated [OF relocated_apart [OF u]] relocated_trans by blast
    show "placed_ok (w_archived w') (w_nodes ?v)"
      using restore_placed_ok [of ?u] unfolding r relocated_frame [OF u] .
    show "canvas_ok (known_target (known_agent ?v) (bm_contains (w_tasks w))
        (bm_contains (w_handoffs w))) (w_nodes ?v) (w_groups ?v) (w_connections ?v)"
      using layout_ok_canvas_ok [of _ ?l] valid
      unfolding validate_canvas_iff k by (simp add: target_ref_known [abs_def])
    show "floors_ok (known_agent ?v) (bm_contains (w_tasks w)) (w_nodes ?v) (w_floors ?v)"
      using d(8) unfolding k by (auto simp: floors_ok_def move_nodes_get nodes split: if_splits)
  qed (use d k in simp_all)
qed

section \<open>Floors\<close>

lemma apply_floors_changed_inv:
  assumes inv: "ws_inv w" and w': "apply_floors_changed w before after = Inr w'"
  shows "ws_inv w'"
proof -
  have active: "fs_active after = Some i \<Longrightarrow> bm_contains (fs_entries after) i"
    and nodes: "bm_get (fs_node_floors after) n = Some i \<Longrightarrow>
      bm_contains (w_nodes w) n \<and> bm_contains (fs_entries after) i"
    and owner: "bm_get (fs_entries after) i = Some x \<Longrightarrow> fl_owner x = Some ow \<Longrightarrow> floor_owner_exists w ow"
    and r: "w' = w\<lparr>w_floors := after\<rparr>" for n i x ow
    using w' by (auto simp: apply_floors_changed_def result_iff list_ex_iff bm_get_Some_iff
        set_bm_values split: if_splits option.splits)
  have "floors_ok (known_agent w) (bm_contains (w_tasks w)) (w_nodes w) after"
    unfolding floors_ok_def
    using active nodes owner by (fastforce simp: floor_owner_exists_def known_agent_recorded)
  then show ?thesis unfolding r by (intro ws_inv_frame [OF inv] knows_more_same) simp_all
qed

end
