(* ===== verification/Workspace_Keep_Chat.thy ===== *)
theory Workspace_Keep_Chat
  imports Workspace_Keep
begin

text \<open>
  Conversations: what \<open>validate_chat_references\<close> accepts, and that the chat events keep the
  workspace invariant.
\<close>

section \<open>The reference check\<close>

definition attachment_bytes :: "(chat_attachment_id, chat_attachment) bmap \<Rightarrow> chat_attachment_id list \<Rightarrow> nat" where
  "attachment_bytes atts ids =
     (\<Sum>i\<leftarrow>ids. case bm_get atts i of None \<Rightarrow> 0 | Some a \<Rightarrow> unat (ca_byte_len a))"

lemma sum_attachment_fold_iff:
  "try_fold (sum_attachment w tid) acc ids = Inr s \<longleftrightarrow>
     (\<forall>i\<in>set ids. \<exists>a. bm_get (w_attachments w) i = Some a \<and> ca_thread a = tid) \<and>
     unat s = min (unat acc + attachment_bytes (w_attachments w) ids) (2 ^ 64 - 1)"
proof (induction ids arbitrary: acc)
  case Nil
  have "unat acc < 2 ^ 64" using unsigned_less [of acc, where 'a = nat] by simp
  then have "min (unat acc) (2 ^ 64 - 1) = unat acc" by (simp add: min_def)
  then show ?case by (simp add: attachment_bytes_def) (metis unsigned_word_eqI)
next
  case (Cons i ids)
  show ?case
  proof (cases "\<exists>a. bm_get (w_attachments w) i = Some a \<and> ca_thread a = tid")
    case True
    then obtain a where a: "bm_get (w_attachments w) i = Some a" "ca_thread a = tid" by blast
    have step: "sum_attachment w tid acc i = Inr (saturating_add acc (ca_byte_len a))"
      using a by (simp add: sum_attachment_def get_or_def)
    have "unat (saturating_add acc (ca_byte_len a)) = min (unat acc + unat (ca_byte_len a)) (2 ^ 64 - 1)"
      by (simp add: saturating_add_unat)
    then have "min (unat (saturating_add acc (ca_byte_len a)) + n) (2 ^ 64 - 1) =
        min (unat acc + (unat (ca_byte_len a) + n)) (2 ^ 64 - 1)" for n
      by (simp add: min_def)
    then show ?thesis using Cons.IH a step by (simp add: attachment_bytes_def)
  next
    case False
    then have "\<exists>e. sum_attachment w tid acc i = Inl e"
      by (cases "bm_get (w_attachments w) i") (simp_all add: sum_attachment_def get_or_def)
    with False show ?thesis by auto
  qed
qed

lemma attachments_ok_bytes:
  "attachments_ok atts t ids \<longleftrightarrow>
     (\<forall>i\<in>set ids. \<exists>a. bm_get atts i = Some a \<and> ca_thread a = t) \<and>
     attachment_bytes atts ids \<le> unat max_total_attachment_bytes"
  by (simp add: attachments_ok_def attachment_bytes_def)

lemma attachments_ok_Nil [simp]: "attachments_ok atts t []"
  by (simp add: attachments_ok_def)

lemma validate_chat_references_Inr_iff [result_iff]:
  "validate_chat_references w tid ids mentions = Inr u \<longleftrightarrow>
     (\<exists>thread. bm_get (w_threads w) tid = Some thread \<and>
        attachments_ok (w_attachments w) tid ids \<and>
        (\<forall>m\<in>set mentions. contains w (target_ref m) \<and> mention_connected w (th_agent thread) m))"
proof -
  have "(\<exists>s. try_fold (sum_attachment w tid) 0 ids = Inr s \<and> \<not> max_total_attachment_bytes < s) \<longleftrightarrow>
      attachments_ok (w_attachments w) tid ids" (is "?L \<longleftrightarrow> ?R")
  proof
    assume ?L
    then show ?R unfolding sum_attachment_fold_iff attachments_ok_bytes
      by (auto simp: word_less_nat_alt max_total_attachment_bytes_def)
  next
    assume ok: ?R
    let ?n = "attachment_bytes (w_attachments w) ids"
    have "unat (of_nat ?n :: u64) = ?n"
      using ok by (simp add: attachments_ok_bytes max_total_attachment_bytes_def unat_of_nat)
    then show ?L using ok unfolding sum_attachment_fold_iff attachments_ok_bytes
      by (intro exI [of _ "of_nat ?n"])
        (auto simp: word_less_nat_alt max_total_attachment_bytes_def)
  qed
  then show ?thesis
    by (auto simp: validate_chat_references_def result_iff split: if_splits)
qed

section \<open>Threads and attachments\<close>

lemma chat_ok_put:
  assumes ok: "chat_ok ka threads atts" and ident: "th_id t = k" and thread: "thread_ok ka atts t"
    and fresh: "\<And>k' t'. bm_get threads k' = Some t' \<Longrightarrow> k' \<noteq> k \<Longrightarrow>
      msg_id ` set (th_messages t) \<inter> msg_id ` set (th_messages t') = {}"
  shows "chat_ok ka (bm_insert k t threads) atts"
proof -
  have fresh': "msg_id ` set (th_messages t') \<inter> msg_id ` set (th_messages t) = {}"
    if "bm_get threads k' = Some t'" "k' \<noteq> k" for k' t'
    using fresh [OF that] by blast
  have old: "msg_id ` set (th_messages t1) \<inter> msg_id ` set (th_messages t2) = {}"
    if "bm_get threads k1 = Some t1" "bm_get threads k2 = Some t2" "k1 \<noteq> k2" for k1 k2 t1 t2
    using ok that unfolding chat_ok_def by blast
  show ?thesis
    unfolding chat_ok_def
  proof (intro conjI allI impI)
    show "thread_map.keyed (bm_insert k t threads)"
      by (rule thread_map.keyed_replace) (use ok ident in \<open>simp_all add: chat_ok_def\<close>)
    show "attachment_map.keyed atts" using ok by (simp add: chat_ok_def)
  next
    fix k' t' assume "bm_get (bm_insert k t threads) k' = Some t'"
    then show "thread_ok ka atts t'"
      using ok thread unfolding chat_ok_def by (auto split: if_splits)
  next
    fix k1 k2 t1 t2
    assume "bm_get (bm_insert k t threads) k1 = Some t1 \<and> bm_get (bm_insert k t threads) k2 = Some t2 \<and>
      k1 \<noteq> k2"
    then have "k1 = k \<and> t1 = t \<or> k1 \<noteq> k \<and> bm_get threads k1 = Some t1"
      and "k2 = k \<and> t2 = t \<or> k2 \<noteq> k \<and> bm_get threads k2 = Some t2" and "k1 \<noteq> k2"
      by (auto split: if_splits)
    then show "msg_id ` set (th_messages t1) \<inter> msg_id ` set (th_messages t2) = {}"
      using fresh [of k2 t2] fresh' [of k1 t1] old [of k1 t1 k2 t2] by blast
  next
    fix i a assume "bm_get atts i = Some a"
    then show "bm_contains (bm_insert k t threads) (ca_thread a)" using ok by (simp add: chat_ok_def)
  qed
qed

lemma ws_inv_chat:
  assumes "ws_inv w" and "chat_ok (known_agent w) T A"
  shows "ws_inv (w\<lparr>w_threads := T, w_attachments := A\<rparr>)"
  using assms(2) by (intro ws_inv_frame [OF assms(1)] knows_more_same) (simp_all add: known_agent_def)

lemma put_thread_inv:
  assumes inv: "ws_inv w" and "th_id t = k" and "thread_ok (known_agent w) (w_attachments w) t"
    and "\<And>k' t'. bm_get (w_threads w) k' = Some t' \<Longrightarrow> k' \<noteq> k \<Longrightarrow>
      msg_id ` set (th_messages t) \<inter> msg_id ` set (th_messages t') = {}"
  shows "ws_inv (put_thread k t w)"
proof -
  have "ws_inv (w\<lparr>w_threads := bm_insert k t (w_threads w), w_attachments := w_attachments w\<rparr>)"
    using ws_inv_chat [OF inv chat_ok_put [OF ws_invD(5) [OF inv]]] assms(2-) by blast
  then show ?thesis by (simp add: put_thread_def)
qed

lemma thread_facts:
  assumes "ws_inv w" and "bm_get (w_threads w) k = Some t"
  shows "th_id t = k" and "thread_ok (known_agent w) (w_attachments w) t"
    and "\<And>k' t'. bm_get (w_threads w) k' = Some t' \<Longrightarrow> k' \<noteq> k \<Longrightarrow>
      msg_id ` set (th_messages t) \<inter> msg_id ` set (th_messages t') = {}"
proof -
  note ok = ws_invD(5) [OF assms(1)]
  show "th_id t = k" using ok assms(2) thread_map.keyedD by (auto simp: chat_ok_def)
  show "thread_ok (known_agent w) (w_attachments w) t" using ok assms(2) by (simp add: chat_ok_def)
  fix k' t' assume "bm_get (w_threads w) k' = Some t'" "k' \<noteq> k"
  then show "msg_id ` set (th_messages t) \<inter> msg_id ` set (th_messages t') = {}"
    using ok assms(2) unfolding chat_ok_def by blast
qed

lemma apply_thread_added_inv:
  assumes inv: "ws_inv w" and ap: "apply_thread_added w t = Inr w'"
  shows "ws_inv w'"
proof -
  have w': "w' = put_thread (th_id t) t w" and "known_agent w (th_agent t)"
    and none: "chat_draft_is_empty (th_draft t)" "th_messages t = []"
    using ap by (auto simp: apply_thread_added_def result_iff known_agent_def split: if_splits)
  then show ?thesis
    by (auto simp: thread_ok_def chat_draft_is_empty_def intro!: put_thread_inv [OF inv])
qed

lemma apply_thread_changed_inv:
  assumes inv: "ws_inv w" and ap: "apply_thread_changed w t fn tn fc tc = Inr w'"
  shows "ws_inv w'"
proof -
  obtain x where x: "bm_get (w_threads w) t = Some x" and w': "w' = put_thread t (set_thread_appearance tn tc x) w"
    using ap by (auto simp: apply_thread_changed_def get_thread_def result_iff split: if_splits)
  from thread_facts [OF inv x] show ?thesis
    unfolding w' by (intro put_thread_inv [OF inv]) (simp_all add: set_thread_appearance_def thread_ok_def)
qed

lemma apply_draft_changed_inv:
  assumes inv: "ws_inv w" and ap: "apply_draft_changed w t fd td = Inr w'"
  shows "ws_inv w'"
proof -
  obtain x where x: "bm_get (w_threads w) t = Some x" and w': "w' = put_thread t (set_draft td x) w"
    and ok: "attachments_ok (w_attachments w) t (dr_attachments td)"
    using ap by (auto simp: apply_draft_changed_def get_thread_def result_iff split: if_splits)
  from thread_facts [OF inv x] ok show ?thesis
    unfolding w' by (intro put_thread_inv [OF inv]) (simp_all add: set_draft_def thread_ok_def)
qed

lemma fresh_message:
  assumes "\<not> contains w (ER_ChatMessage i)" and "bm_get (w_threads w) k = Some t"
  shows "i \<notin> msg_id ` set (th_messages t)"
proof -
  have "t \<in> set (bm_values (w_threads w))" unfolding set_bm_values using assms(2) by (rule exI)
  moreover have "\<not> (\<exists>t\<in>set (bm_values (w_threads w)). \<exists>m\<in>set (th_messages t). msg_id m = i)"
    using assms(1) unfolding contains_def entity_ref.case list_ex_iff .
  ultimately show ?thesis by blast
qed

lemma push_message_thread_ok:
  assumes "thread_ok ka atts x" and "msg_thread m = th_id x"
    and "msg_author m = CA_User \<or> msg_author m = CA_Agent (th_agent x)"
    and "attachments_ok atts (th_id x) (msg_attachments m)" and "msg_id m \<notin> msg_id ` set (th_messages x)"
  shows "thread_ok ka atts (push_message m x)"
    and "thread_ok ka atts (set_draft chat_draft_default (push_message m x))"
  using assms by (auto simp: thread_ok_def push_message_def set_draft_def chat_draft_default_def)

lemma push_message_inv:
  assumes inv: "ws_inv w" and x: "bm_get (w_threads w) t = Some x"
    and fresh: "\<not> contains w (ER_ChatMessage (msg_id m))" and m: "msg_thread m = t"
      "msg_author m = CA_User \<or> msg_author m = CA_Agent (th_agent x)"
      "attachments_ok (w_attachments w) t (msg_attachments m)"
  shows "ws_inv (put_thread t (push_message m x) w)"
    and "ws_inv (put_thread t (set_draft chat_draft_default (push_message m x)) w)"
proof -
  note f = thread_facts [OF inv x]
  have new: "msg_id m \<notin> msg_id ` set (th_messages x)" using fresh_message [OF fresh x] .
  have ok: "thread_ok (known_agent w) (w_attachments w) (push_message m x)"
    "thread_ok (known_agent w) (w_attachments w) (set_draft chat_draft_default (push_message m x))"
    using push_message_thread_ok [OF f(2) _ m(2) _ new] m(1,3) f(1) by simp_all
  have apart: "msg_id ` set (th_messages (push_message m x)) \<inter> msg_id ` set (th_messages t') = {}"
    if "bm_get (w_threads w) k' = Some t'" "k' \<noteq> t" for k' t'
    using f(3) [OF that] fresh_message [OF fresh that(1)] by (auto simp: push_message_def)
  show "ws_inv (put_thread t (push_message m x) w)"
    by (rule put_thread_inv [OF inv]) (use f(1) ok apart in \<open>simp_all add: push_message_def\<close>)
  show "ws_inv (put_thread t (set_draft chat_draft_default (push_message m x)) w)"
    by (rule put_thread_inv [OF inv]) (use f(1) ok apart in \<open>simp_all add: push_message_def set_draft_def\<close>)
qed

lemma from_draft_fields:
  "chat_message_from_draft mid tid d at = Inr m \<Longrightarrow>
     msg_id m = mid \<and> msg_thread m = tid \<and> msg_author m = CA_User"
  by (auto simp: chat_message_from_draft_Inr_iff chat_message_new_Inr_iff)

lemma apply_draft_submitted_inv:
  assumes inv: "ws_inv w" and ap: "apply_draft_submitted w t d m = Inr w'"
  shows "ws_inv w'"
proof -
  obtain x where x: "bm_get (w_threads w) t = Some x"
    and w': "w' = put_thread t (set_draft chat_draft_default (push_message m x)) w"
    and "chat_message_from_draft (msg_id m) t d (msg_sent_at m) = Inr m"
    and fresh: "\<not> contains w (ER_ChatMessage (msg_id m))"
    and att: "attachments_ok (w_attachments w) t (msg_attachments m)"
    using ap by (auto simp: apply_draft_submitted_def get_thread_def result_iff split: if_splits)
  then have "msg_thread m = t" "msg_author m = CA_User"
    using from_draft_fields by blast+
  with push_message_inv(2) [OF inv x fresh] att w' show ?thesis by simp
qed

lemma apply_message_appended_inv:
  assumes inv: "ws_inv w" and ap: "apply_message_appended w m = Inr w'"
  shows "ws_inv w'"
proof -
  obtain x where x: "bm_get (w_threads w) (msg_thread m) = Some x"
    and w': "w' = put_thread (msg_thread m) (push_message m x) w"
    and "msg_author m = CA_Agent (th_agent x)"
    and fresh: "\<not> contains w (ER_ChatMessage (msg_id m))"
    and att: "attachments_ok (w_attachments w) (msg_thread m) (msg_attachments m)"
    using ap by (auto simp: apply_message_appended_def get_thread_def result_iff split: if_splits)
  then show ?thesis using push_message_inv(1) [OF inv x fresh] by simp
qed

lemma attachments_ok_fresh:
  assumes "\<not> bm_contains atts (ca_id a)" and "attachments_ok atts t ids"
  shows "attachments_ok (bm_insert (ca_id a) a atts) t ids"
proof -
  have "i \<noteq> ca_id a" if "i \<in> set ids" for i
    using assms that by (auto simp: attachments_ok_def bm_contains_iff)
  then show ?thesis using assms(2) unfolding attachments_ok_def
    by (simp cong: map_cong)
qed

lemma apply_attachment_added_inv:
  assumes inv: "ws_inv w" and ap: "apply_attachment_added w a = Inr w'"
  shows "ws_inv w'"
proof -
  have w': "w' = w\<lparr>w_attachments := bm_insert (ca_id a) a (w_attachments w)\<rparr>"
    and fresh: "\<not> bm_contains (w_attachments w) (ca_id a)"
    and thread: "bm_contains (w_threads w) (ca_thread a)"
    using ap by (auto simp: apply_attachment_added_def result_iff)
  note ok = ws_invD(5) [OF inv]
  have "thread_ok (known_agent w) (bm_insert (ca_id a) a (w_attachments w)) t"
    if "bm_get (w_threads w) k = Some t" for k t
    using thread_facts(2) [OF inv that] attachments_ok_fresh [OF fresh] by (simp add: thread_ok_def)
  then have "chat_ok (known_agent w) (w_threads w) (bm_insert (ca_id a) a (w_attachments w))"
    using ok thread unfolding chat_ok_def by (simp add: attachment_map.keyed_put)
  then have "ws_inv (w\<lparr>w_threads := w_threads w,
      w_attachments := bm_insert (ca_id a) a (w_attachments w)\<rparr>)"
    by (rule ws_inv_chat [OF inv])
  then show ?thesis by (simp add: w')
qed

end
