(* ===== verification/Workspace_History.thy ===== *)
theory Workspace_History
  imports Workspace_Keep_Routines Workspace_Keep_Canvas Workspace_Keep_Chat Routine_Run_Ends
begin

text \<open>
  What an event may do to what the workspace already holds: nothing recorded is lost, and a record
  changes only along the moves of its own state machine.
\<close>

section \<open>Collections that only grow\<close>

definition grows :: "('v \<Rightarrow> 'v \<Rightarrow> bool) \<Rightarrow> ('k::linorder, 'v) bmap \<Rightarrow> ('k, 'v) bmap \<Rightarrow> bool" where
  "grows R m m' \<longleftrightarrow> (\<forall>k v. bm_get m k = Some v \<longrightarrow> (\<exists>v'. bm_get m' k = Some v' \<and> R v v'))"

lemma grows_refl: "(\<And>v. R v v) \<Longrightarrow> grows R m m"
  by (simp add: grows_def)

lemma grows_or_same: "m' = m \<or> grows R m m' \<Longrightarrow> (\<And>v. R v v) \<Longrightarrow> grows R m m'"
  by (auto simp: grows_def)

lemma grows_trans: "grows R m n \<Longrightarrow> grows R n p \<Longrightarrow> transp R \<Longrightarrow> grows R m p"
  unfolding grows_def by (meson transpD)

lemma grows_insert_new:
  "\<not> bm_contains m k \<Longrightarrow> (\<And>v. R v v) \<Longrightarrow> grows R m (bm_insert k v m)"
  by (auto simp: grows_def bm_contains_def)

lemma grows_insert_later:
  "bm_get m k = Some x \<Longrightarrow> R x v \<Longrightarrow> (\<And>v. R v v) \<Longrightarrow> grows R m (bm_insert k v m)"
  by (auto simp: grows_def)

lemma grows_update_later:
  "bm_get m k = Some x \<Longrightarrow> R x (f x) \<Longrightarrow> (\<And>v. R v v) \<Longrightarrow> grows R m (bm_update k f m)"
  by (auto simp: grows_def)

section \<open>Records that only move on\<close>

definition agent_later :: "agent \<Rightarrow> agent \<Rightarrow> bool" where
  "agent_later x x' \<longleftrightarrow>
     agent_ident x' = agent_ident x \<and> agent_can_transition\<^sup>*\<^sup>* (agent_state x) (agent_state x')"

definition task_later :: "task \<Rightarrow> task \<Rightarrow> bool" where
  "task_later x x' \<longleftrightarrow>
     x' = x\<lparr>task_state := task_state x'\<rparr> \<and> task_can_transition\<^sup>*\<^sup>* (task_state x) (task_state x')"

definition thread_later :: "chat_thread \<Rightarrow> chat_thread \<Rightarrow> bool" where
  "thread_later x x' \<longleftrightarrow>
     th_id x' = th_id x \<and> th_agent x' = th_agent x \<and> prefix (th_messages x) (th_messages x')"

definition routine_later :: "routine \<Rightarrow> routine \<Rightarrow> bool" where
  "routine_later x x' \<longleftrightarrow> rt_id x' = rt_id x \<and> prefix (rt_versions x) (rt_versions x')"

lemma agent_later_preorder: "agent_later x x" "agent_later x y \<Longrightarrow> agent_later y z \<Longrightarrow> agent_later x z"
  by (auto simp: agent_later_def intro: rtranclp_trans)

lemma task_later_preorder: "task_later x x" "task_later x y \<Longrightarrow> task_later y z \<Longrightarrow> task_later x z"
proof -
  show "task_later x x" by (simp add: task_later_def)
  assume xy: "task_later x y" and yz: "task_later y z"
  then obtain s t where "y = x\<lparr>task_state := s\<rparr>" "z = y\<lparr>task_state := t\<rparr>" unfolding task_later_def by blast
  with xy yz show "task_later x z" by (auto simp: task_later_def)
qed

lemma thread_later_preorder:
  "thread_later x x" "thread_later x y \<Longrightarrow> thread_later y z \<Longrightarrow> thread_later x z"
  by (auto simp: thread_later_def)

lemma routine_later_preorder:
  "routine_later x x" "routine_later x y \<Longrightarrow> routine_later y z \<Longrightarrow> routine_later x z"
  by (auto simp: routine_later_def)

text \<open>The relation between a workspace and what it becomes.\<close>

definition later :: "workspace \<Rightarrow> workspace \<Rightarrow> bool" where
  "later w w' \<longleftrightarrow>
     w_id w' = w_id w \<and>
     (\<forall>a x. recorded_agent w a = Some x \<longrightarrow>
        (\<exists>x'. recorded_agent w' a = Some x' \<and> agent_later x x')) \<and>
     grows task_later (w_tasks w) (w_tasks w') \<and>
     grows handoff_step\<^sup>*\<^sup>* (w_handoffs w) (w_handoffs w') \<and>
     grows thread_later (w_threads w) (w_threads w') \<and>
     grows (=) (w_attachments w) (w_attachments w') \<and>
     grows routine_later (w_routines w) (w_routines w') \<and>
     grows run_step\<^sup>*\<^sup>* (w_runs w) (w_runs w')"

lemmas later_preorders = agent_later_preorder(1) task_later_preorder(1) thread_later_preorder(1)
  routine_later_preorder(1) rtranclp.rtrancl_refl

lemma later_refl: "later w w"
  by (auto simp: later_def later_preorders intro!: grows_refl)

lemma later_transps:
  "transp agent_later" "transp task_later" "transp thread_later" "transp routine_later"
  "transp handoff_step\<^sup>*\<^sup>*" "transp run_step\<^sup>*\<^sup>*" "transp (=)"
  by (auto intro!: transpI elim: agent_later_preorder(2) task_later_preorder(2) thread_later_preorder(2)
      routine_later_preorder(2))

lemma later_trans: "later u v \<Longrightarrow> later v w \<Longrightarrow> later u w"
proof -
  assume uv: "later u v" and vw: "later v w"
  show "later u w"
    unfolding later_def
  proof (intro conjI)
    show "\<forall>a x. recorded_agent u a = Some x \<longrightarrow>
        (\<exists>x'. recorded_agent w a = Some x' \<and> agent_later x x')"
      using uv vw agent_later_preorder(2) unfolding later_def by meson
  qed (use uv vw in \<open>auto simp: later_def intro: grows_trans later_transps\<close>)
qed

lemma later_frame:
  assumes "w_id w' = w_id w"
    and "recorded_agent w' = recorded_agent w \<or>
      (\<forall>a x. recorded_agent w a = Some x \<longrightarrow> (\<exists>x'. recorded_agent w' a = Some x' \<and> agent_later x x'))"
    and "w_tasks w' = w_tasks w \<or> grows task_later (w_tasks w) (w_tasks w')"
    and "w_handoffs w' = w_handoffs w \<or> grows handoff_step\<^sup>*\<^sup>* (w_handoffs w) (w_handoffs w')"
    and "w_threads w' = w_threads w \<or> grows thread_later (w_threads w) (w_threads w')"
    and "w_attachments w' = w_attachments w \<or> grows (=) (w_attachments w) (w_attachments w')"
    and "w_routines w' = w_routines w \<or> grows routine_later (w_routines w) (w_routines w')"
    and "w_runs w' = w_runs w \<or> grows run_step\<^sup>*\<^sup>* (w_runs w) (w_runs w')"
  shows "later w w'"
  unfolding later_def
proof (intro conjI)
  show "\<forall>a x. recorded_agent w a = Some x \<longrightarrow> (\<exists>x'. recorded_agent w' a = Some x' \<and> agent_later x x')"
    using assms(2) later_preorders(1) by auto
qed (fact assms(1) | rule grows_or_same [OF assms(3) later_preorders(2)]
    grows_or_same [OF assms(4) later_preorders(5)] grows_or_same [OF assms(5) later_preorders(3)]
    grows_or_same [OF assms(6) refl] grows_or_same [OF assms(7) later_preorders(4)]
    grows_or_same [OF assms(8) later_preorders(5)])+

lemma recorded_agent_cong:
  "w_agents w' = w_agents w \<Longrightarrow> w_archived w' = w_archived w \<Longrightarrow> recorded_agent w' = recorded_agent w"
  by (intro ext) (simp add: recorded_agent_def cong: option.case_cong)

lemma recorded_agent_frame [simp]:
  "recorded_agent (w\<lparr>w_floors := a1\<rparr>) = recorded_agent w"
  "recorded_agent (w\<lparr>w_settings := a2\<rparr>) = recorded_agent w"
  "recorded_agent (w\<lparr>w_profiles := a3\<rparr>) = recorded_agent w"
  "recorded_agent (w\<lparr>w_presets := a4\<rparr>) = recorded_agent w"
  "recorded_agent (w\<lparr>w_roles := a5\<rparr>) = recorded_agent w"
  "recorded_agent (w\<lparr>w_threads := a6\<rparr>) = recorded_agent w"
  "recorded_agent (w\<lparr>w_attachments := a7\<rparr>) = recorded_agent w"
  "recorded_agent (w\<lparr>w_tasks := a8\<rparr>) = recorded_agent w"
  "recorded_agent (w\<lparr>w_handoffs := a9\<rparr>) = recorded_agent w"
  "recorded_agent (w\<lparr>w_routines := b1\<rparr>) = recorded_agent w"
  "recorded_agent (w\<lparr>w_runs := b2\<rparr>) = recorded_agent w"
  "recorded_agent (w\<lparr>w_nodes := b3\<rparr>) = recorded_agent w"
  "recorded_agent (w\<lparr>w_nodes := b3, w_groups := b4, w_connections := b5\<rparr>) = recorded_agent w"
  by (rule recorded_agent_cong; simp)+

section \<open>Configuration and agents\<close>

lemma config_events_later:
  shows "apply_floors_changed w f g = Inr w' \<Longrightarrow> later w w'"
    and "apply_settings_changed w s s' = Inr w' \<Longrightarrow> later w w'"
    and "apply_profile_added w p = Inr w' \<Longrightarrow> later w w'"
    and "apply_profile_changed w p p' = Inr w' \<Longrightarrow> later w w'"
    and "apply_profile_removed w p = Inr w' \<Longrightarrow> later w w'"
    and "apply_preset_added w q = Inr w' \<Longrightarrow> later w w'"
    and "apply_preset_changed w q q' = Inr w' \<Longrightarrow> later w w'"
    and "apply_preset_removed w q = Inr w' \<Longrightarrow> later w w'"
    and "apply_role_added w r = Inr w' \<Longrightarrow> later w w'"
    and "apply_role_changed w r r' = Inr w' \<Longrightarrow> later w w'"
    and "apply_role_removed w r = Inr w' \<Longrightarrow> later w w'"
  by (auto simp: apply_floors_changed_def apply_settings_changed_def apply_profile_added_def
      apply_profile_changed_def apply_profile_removed_def apply_preset_added_def apply_preset_changed_def
      apply_preset_removed_def apply_role_added_def apply_role_changed_def apply_role_removed_def
      result_iff split: if_splits option.splits intro!: later_frame)

lemma update_recorded_get:
  "recorded_agent (update_recorded_agent a f w) b =
     (if b = a then map_option f (recorded_agent w a) else recorded_agent w b)"
  by (auto simp: recorded_agent_def update_recorded_agent_def bm_contains_def split: option.splits)

lemma update_recorded_later:
  assumes "recorded_agent w a = Some x" and "agent_later x (f x)"
  shows "later w (update_recorded_agent a f w)"
proof (rule later_frame)
  show "w_id (update_recorded_agent a f w) = w_id w" by (simp add: update_recorded_agent_def)
  show "recorded_agent (update_recorded_agent a f w) = recorded_agent w \<or>
      (\<forall>b y. recorded_agent w b = Some y \<longrightarrow>
         (\<exists>x'. recorded_agent (update_recorded_agent a f w) b = Some x' \<and> agent_later y x'))"
    using assms later_preorders(1) by (auto simp: update_recorded_get)
qed simp_all

lemma agent_events_later:
  shows "apply_agent_role_changed w a fr tr = Inr w' \<Longrightarrow> later w w'"
    and "apply_agent_renamed w a fn tn = Inr w' \<Longrightarrow> later w w'"
    and "apply_agent_state_changed w a fs ts = Inr w' \<Longrightarrow> later w w'"
  by (auto simp: apply_agent_role_changed_def apply_agent_renamed_def apply_agent_state_changed_def
      get_recorded_def result_iff agent_later_def split: if_splits intro!: update_recorded_later)

lemma recorded_insert:
  "recorded_agent (w\<lparr>w_agents := bm_insert i a (w_agents w)\<rparr>) b = (if b = i then Some a else recorded_agent w b)"
  by (simp add: recorded_agent_def cong: option.case_cong)

lemma insert_agent_later:
  assumes "recorded_agent w i = None"
  shows "later w (w\<lparr>w_agents := bm_insert i a (w_agents w)\<rparr>)"
proof (rule later_frame)
  show "recorded_agent (w\<lparr>w_agents := bm_insert i a (w_agents w)\<rparr>) = recorded_agent w \<or>
      (\<forall>b y. recorded_agent w b = Some y \<longrightarrow>
         (\<exists>x'. recorded_agent (w\<lparr>w_agents := bm_insert i a (w_agents w)\<rparr>) b = Some x' \<and> agent_later y x'))"
    using assms later_preorders(1) by (auto simp: recorded_insert)
qed simp_all

lemma absent_agent: "\<not> contains w (ER_Agent a) \<Longrightarrow> recorded_agent w a = None"
  by (simp add: contains_def)

lemma apply_agent_added_later: "apply_agent_added w a = Inr w' \<Longrightarrow> later w w'"
  using insert_agent_later [OF absent_agent]
  by (auto simp: apply_agent_added_def result_iff simp del: contains_simps)

section \<open>Conversations\<close>

lemma put_thread_later:
  assumes "bm_get (w_threads w) t = Some x" and "thread_later x x'"
  shows "later w (put_thread t x' w)"
  unfolding put_thread_def using grows_insert_later [OF assms later_preorders(3)]
  by (intro later_frame) simp_all

lemma chat_events_later:
  shows "apply_thread_added w th = Inr w' \<Longrightarrow> later w w'"
    and "apply_thread_changed w t fn tn fc tc = Inr w' \<Longrightarrow> later w w'"
    and "apply_attachment_added w a = Inr w' \<Longrightarrow> later w w'"
    and "apply_draft_changed w t fd td = Inr w' \<Longrightarrow> later w w'"
    and "apply_draft_submitted w t d m = Inr w' \<Longrightarrow> later w w'"
    and "apply_message_appended w m = Inr w' \<Longrightarrow> later w w'"
proof -
  show "apply_thread_added w th = Inr w' \<Longrightarrow> later w w'"
    by (auto simp: apply_thread_added_def put_thread_def result_iff split: if_splits
        intro!: later_frame grows_insert_new later_preorders)
  show "apply_attachment_added w a = Inr w' \<Longrightarrow> later w w'"
    by (auto simp: apply_attachment_added_def result_iff intro!: later_frame grows_insert_new)
qed (auto simp: apply_thread_changed_def apply_draft_changed_def apply_draft_submitted_def
    apply_message_appended_def get_thread_def result_iff thread_later_def set_thread_appearance_def
    set_draft_def push_message_def split: if_splits intro!: put_thread_later)

section \<open>Tasks and handoffs\<close>

lemma insert_task_later: "\<not> bm_contains (w_tasks w) (task_ident t) \<Longrightarrow> later w (insert_task t w)"
  unfolding insert_task_def by (auto intro!: later_frame grows_insert_new later_preorders)

lemma insert_new_handoff_later: "\<not> bm_contains (w_handoffs w) (ho_id h) \<Longrightarrow> later w (insert_handoff h w)"
  unfolding insert_handoff_def by (auto intro!: later_frame grows_insert_new)

lemma replace_handoff_later:
  assumes "bm_get (w_handoffs w) (ho_id h) = Some h" and "validate_successor h' h = Inr ()"
  shows "later w (insert_handoff h' w)"
proof -
  have step: "handoff_step h h'" using assms(2) validate_successor_sound by blast
  then have "ho_id h' = ho_id h" using handoff_step_identity by (simp add: same_identity_def)
  with assms(1) step have "grows handoff_step\<^sup>*\<^sup>* (w_handoffs w) (bm_insert (ho_id h') h' (w_handoffs w))"
    by (intro grows_insert_later) auto
  then show ?thesis unfolding insert_handoff_def by (intro later_frame) simp_all
qed

lemma set_task_state_later:
  assumes "bm_get (w_tasks w) t = Some x" and "task_can_transition (task_state x) s"
  shows "later w (set_task_state t s w)"
proof -
  have "task_later x (x\<lparr>task_state := s\<rparr>)" using assms(2) by (auto simp: task_later_def)
  then show ?thesis
    unfolding set_task_state_def using grows_update_later [OF assms(1), of task_later] later_preorders(2)
    by (intro later_frame) simp_all
qed

lemma insert_handoff_tasks [simp]: "w_tasks (insert_handoff h w) = w_tasks w"
  by (simp add: insert_handoff_def)

lemma insert_task_handoffs [simp]: "w_handoffs (insert_task t w) = w_handoffs w"
  by (simp add: insert_task_def)

lemma task_handoff_later:
  assumes "validate_new_task w t = Inr ()" and "validate_new_handoff w h p = Inr ()"
  shows "later w (insert_handoff h (insert_task t w))"
  using assms later_trans [OF insert_task_later insert_new_handoff_later]
  by (simp add: validate_new_task_Inr_iff validate_new_handoff_Inr_iff)

lemma task_events_later:
  shows "apply_task_added w t = Inr w' \<Longrightarrow> later w w'"
    and "apply_handoff_added w h = Inr w' \<Longrightarrow> later w w'"
    and "apply_task_handoff_added w t h = Inr w' \<Longrightarrow> later w w'"
    and "apply_handoff_changed w h h' = Inr w' \<Longrightarrow> later w w'"
    and "apply_task_cancelled w k from h h' = Inr w' \<Longrightarrow> later w w'"
    and "apply_task_resumed w k from h = Inr w' \<Longrightarrow> later w w'"
    and "apply_task_state_changed w k from to = Inr w' \<Longrightarrow> later w w'"
proof -
  show "apply_task_added w t = Inr w' \<Longrightarrow> later w w'"
    using insert_task_later by (auto simp: apply_task_added_def result_iff)
  show "apply_handoff_added w h = Inr w' \<Longrightarrow> later w w'"
    using insert_new_handoff_later by (auto simp: apply_handoff_added_def result_iff)
  show "apply_task_handoff_added w t h = Inr w' \<Longrightarrow> later w w'"
    using task_handoff_later by (auto simp: apply_task_handoff_added_def res_bind_Inr_iff split: if_splits)
  show "apply_handoff_changed w h h' = Inr w' \<Longrightarrow> later w w'"
    using replace_handoff_later by (auto simp: apply_handoff_changed_def result_iff)
  have move: "later w v \<Longrightarrow> w_tasks v = w_tasks w \<Longrightarrow> check_task_move w k from s = Inr x \<Longrightarrow>
      later w (set_task_state k s v)" for v s x
    using later_trans [OF _ set_task_state_later, of w v k x s] task_move_facts [of w k "from" s x] by simp
  show "apply_task_cancelled w k from h h' = Inr w' \<Longrightarrow> later w w'"
    using move replace_handoff_later
    by (auto simp: apply_task_cancelled_def result_iff split: if_splits)
  show "apply_task_resumed w k from h = Inr w' \<Longrightarrow> later w w'"
    using move insert_new_handoff_later
    by (auto simp: apply_task_resumed_def result_iff split: if_splits)
  show "apply_task_state_changed w k from to = Inr w' \<Longrightarrow> later w w'"
    using move [OF later_refl] by (auto simp: apply_task_state_changed_def result_iff)
qed

section \<open>The canvas\<close>

lemma relocated_later:
  assumes "later w v" and "relocated v w'"
  shows "later w w'"
proof -
  have "recorded_agent w' = recorded_agent v" using assms(2) by (simp only: relocated_def)
  then have "later v w'" by (intro later_frame) (simp_all add: relocated_frame [OF assms(2)])
  with assms(1) show ?thesis by (rule later_trans)
qed

lemma place_node_later: "later w (place_node n w)"
proof -
  have "recorded_agent (place_node n w) = recorded_agent w" by (rule recorded_agent_cong; simp)
  then show ?thesis by (intro later_frame) simp_all
qed

lemma canvas_events_later:
  assumes inv: "ws_inv w"
  shows "apply_node_added w n = Inr w' \<Longrightarrow> later w w'"
    and "apply_agent_node_added w a n = Inr w' \<Longrightarrow> later w w'"
    and "apply_canvas_replaced w before after = Inr w' \<Longrightarrow> later w w'"
proof -
  have apart: "agents_apart w" using agents_apart_iff [OF ws_invD(2) [OF inv]] .
  then have "agents_apart (place_node n w)" by (simp add: agents_apart_def)
  then show "apply_node_added w n = Inr w' \<Longrightarrow> later w w'"
    using relocated_later [OF place_node_later restore_placed_relocated]
    by (auto simp: apply_node_added_def result_iff)
  show "apply_agent_node_added w a n = Inr w' \<Longrightarrow> later w w'"
    using later_trans [OF insert_agent_later [OF absent_agent] place_node_later]
    by (auto simp: apply_agent_node_added_def result_iff simp del: contains_simps split: if_splits)
  assume w': "apply_canvas_replaced w before after = Inr w'"
  let ?l = "combine_layouts (all_canvas_layout w) before after"
  let ?v = "(install_layout ?l w)\<lparr>w_floors := move_nodes before after (w_floors w)\<rparr>"
  have r: "w' = restore_placed_agents (archive_unplaced_agents (shown_agents (cl_nodes before)) ?v)"
    using w' by (auto simp: apply_canvas_replaced_def result_iff Let_def split: if_splits)
  have "agents_apart ?v" using apart by (simp add: agents_apart_def)
  note u = archive_unplaced_relocated [OF this]
  have "later w ?v" by (rule later_frame) (simp_all add: install_layout_def)
  from relocated_later [OF this relocated_trans [OF u restore_placed_relocated [OF relocated_apart [OF u]]]]
  show "later w w'" unfolding r .
qed

section \<open>Routines and runs\<close>

lemma put_routine_later:
  assumes "\<And>x. bm_get (w_routines w) r = Some x \<Longrightarrow> routine_later x x'"
  shows "later w (put_routine r x' w)"
  unfolding put_routine_def using assms later_preorders(4)
  by (intro later_frame) (auto simp: grows_def)

lemma routine_events_later:
  shows "apply_routine_added w x = Inr w' \<Longrightarrow> later w w'"
    and "apply_version_added w r v = Inr w' \<Longrightarrow> later w w'"
    and "apply_routine_changed w r fn tn fd td = Inr w' \<Longrightarrow> later w w'"
    and "apply_trigger_changed w r from to = Inr w' \<Longrightarrow> later w w'"
    and "apply_trigger_removed w r t = Inr w' \<Longrightarrow> later w w'"
    and "apply_occurrences_skipped w r tid n next_at = Inr w' \<Longrightarrow> later w w'"
proof -
  have put: "get_routine w r = Inr y \<Longrightarrow> rt_id y' = rt_id y \<Longrightarrow> rt_versions y' = rt_versions y \<Longrightarrow>
      later w (put_routine r y' w)" for y y'
    by (rule put_routine_later) (simp add: get_routine_def get_or_Inr_iff routine_later_def)
  show "apply_routine_added w x = Inr w' \<Longrightarrow> later w w'"
    using put_routine_later [of w "rt_id x" x]
    by (auto simp: apply_routine_added_def result_iff bm_contains_def)
  show "apply_routine_changed w r fn tn fd td = Inr w' \<Longrightarrow> later w w'"
    using put by (auto simp: apply_routine_changed_def res_bind_Inr_iff set_appearance_def split: if_splits)
  show "apply_trigger_changed w r from to = Inr w' \<Longrightarrow> later w w'"
    using put by (auto simp: apply_trigger_changed_def result_iff put_trigger_def split: if_splits)
  show "apply_trigger_removed w r t = Inr w' \<Longrightarrow> later w w'"
    using put by (auto simp: apply_trigger_removed_def res_bind_Inr_iff remove_trigger_def split: if_splits)
  show "apply_occurrences_skipped w r tid n next_at = Inr w' \<Longrightarrow> later w w'"
    using put by (auto simp: apply_occurrences_skipped_def result_iff)
  assume "apply_version_added w r v = Inr w'"
  then obtain y y' where "get_routine w r = Inr y" "push_version v y = Inr y'" "w' = put_routine r y' w"
    by (auto simp: apply_version_added_def result_iff split: if_splits)
  then show "later w w'"
    by (auto simp: push_version_Inr_iff get_routine_def get_or_Inr_iff routine_later_def
        intro!: put_routine_later)
qed

lemma insert_run_later: "\<not> bm_contains (w_runs w) (run_id r) \<Longrightarrow> later w (insert_run r w)"
  unfolding insert_run_def by (auto intro!: later_frame grows_insert_new)

lemma replace_run_later:
  assumes "bm_get (w_runs w) k = Some r" and "run_step r r'"
  shows "later w (w\<lparr>w_runs := bm_insert k r' (w_runs w)\<rparr>)"
  using grows_insert_later [OF assms(1), of "run_step\<^sup>*\<^sup>*" r'] assms(2) by (intro later_frame) auto

lemma apply_run_started_later: "apply_run_started w run firing next_at = Inr w' \<Longrightarrow> later w w'"
proof -
  assume "apply_run_started w run firing next_at = Inr w'"
  then obtain x w1 where new: "\<not> bm_contains (w_runs w) (run_id run)"
    and x: "bm_get (w_routines w) (run_routine run) = Some x"
    and w1: "consume_occurrence w run x firing next_at = Inr w1" and w': "w' = insert_run run w1"
    by (auto simp: apply_run_started_def get_routine_def result_iff split: if_splits option.splits)
  have "later w w1 \<and> w_runs w1 = w_runs w"
    using w1
  proof (cases rule: consume_occurrence_cases)
    case 2
    then show ?thesis using x by (auto simp: routine_later_def intro!: put_routine_later)
  qed (simp add: later_refl)
  with new show ?thesis unfolding w' by (intro later_trans [OF _ insert_run_later]) simp_all
qed

lemma run_events_later:
  shows "apply_run_advanced w k t = Inr w' \<Longrightarrow> later w w'"
    and "apply_step_dispatched w k sid a tk h = Inr w' \<Longrightarrow> at_outcome a = None \<Longrightarrow> later w w'"
proof -
  show "apply_run_advanced w k t = Inr w' \<Longrightarrow> later w w'"
    using replace_run_later [OF _ step_transition] by (auto simp: apply_run_advanced_def result_iff)
  assume ap: "apply_step_dispatched w k sid a tk h = Inr w'" and fresh: "at_outcome a = None"
  then obtain r r' where task: "validate_new_task w tk = Inr ()"
    and hand: "validate_new_handoff w h (Some tk) = Inr ()"
    and r: "bm_get (w_runs w) k = Some r" and step: "dispatch sid a r = Inr r'"
    and w': "w' = insert_handoff h (insert_task tk (w\<lparr>w_runs := bm_insert k r' (w_runs w)\<rparr>))"
    by (auto simp: apply_step_dispatched_def res_bind_Inr_iff get_or_Inr_iff map_err_Inr_iff)
  let ?v = "w\<lparr>w_runs := bm_insert k r' (w_runs w)\<rparr>"
  have "later ?v (insert_task tk ?v)"
    using task by (intro insert_task_later) (simp add: validate_new_task_Inr_iff)
  moreover have "later (insert_task tk ?v) w'"
    unfolding w' using hand by (intro insert_new_handoff_later) (simp add: validate_new_handoff_Inr_iff)
  ultimately show "later w w'"
    using later_trans replace_run_later [OF r step_dispatch [OF step fresh]] by blast
qed

end
