(* ===== verification/Workspace_Safe.thy ===== *)
theory Workspace_Safe
  imports Workspace_History
begin

text \<open>
  The workspace as an event-sourced aggregate: the contract of such an aggregate, its
  interpretation on \<open>execute\<close> and \<open>apply_event\<close>, and what holds of every workspace commands reach.
\<close>

section \<open>Event sourcing\<close>

text \<open>Running commands one after the other, keeping the events they produce.\<close>

definition run_logged ::
  "('s \<Rightarrow> 'c \<Rightarrow> ('x, 's \<times> 'e) result) \<Rightarrow> 's \<times> 'e list \<Rightarrow> 'c \<Rightarrow> ('x, 's \<times> 'e list) result" where
  "run_logged run = (\<lambda>(s, log) c. res_bind (run s c) (\<lambda>(s', e). Inr (s', log @ [e])))"

locale event_sourced =
  fixes run :: "'s \<Rightarrow> 'c \<Rightarrow> ('x, 's \<times> 'e) result"
    and step :: "'s \<Rightarrow> 'e \<Rightarrow> ('x, 's) result"
    and inv :: "'s \<Rightarrow> bool"
    and admissible :: "'e \<Rightarrow> bool"
    and rel :: "'s \<Rightarrow> 's \<Rightarrow> bool"
  assumes run_step: "run s c = Inr (s', e) \<Longrightarrow> step s e = Inr s'"
    and inv_step: "inv s \<Longrightarrow> admissible e \<Longrightarrow> step s e = Inr s' \<Longrightarrow> inv s'"
    and rel_step: "inv s \<Longrightarrow> admissible e \<Longrightarrow> step s e = Inr s' \<Longrightarrow> rel s s'"
    and rel_refl: "rel s s"
    and rel_trans: "rel s t \<Longrightarrow> rel t u \<Longrightarrow> rel s u"
begin

lemma fold_step_inv:
  "try_fold step s es = Inr s' \<Longrightarrow> inv s \<Longrightarrow> \<forall>e\<in>set es. admissible e \<Longrightarrow> inv s' \<and> rel s s'"
proof (induction es arbitrary: s)
  case (Cons e es)
  then obtain t where t: "step s e = Inr t" "try_fold step t es = Inr s'"
    by (auto simp: res_bind_Inr_iff)
  then have "inv t" and "rel s t" using inv_step rel_step Cons.prems by auto
  with Cons.IH [OF t(2)] Cons.prems(3) rel_trans show ?case by auto
qed (simp add: rel_refl)

lemma run_logged_rebuilds:
  "try_fold (run_logged run) (s, log) cs = Inr (s', log') \<Longrightarrow>
     \<exists>es. log' = log @ es \<and> length es = length cs \<and> try_fold step s es = Inr s'"
proof (induction cs arbitrary: s log)
  case (Cons c cs)
  then obtain t e where t: "run s c = Inr (t, e)"
    "try_fold (run_logged run) (t, log @ [e]) cs = Inr (s', log')"
    by (auto simp: run_logged_def res_bind_Inr_iff)
  from Cons.IH [OF t(2)] obtain es where
    es: "log' = log @ e # es" "length es = length cs" "try_fold step t es = Inr s'"
    by auto
  with run_step [OF t(1)] have "try_fold step s (e # es) = Inr s'" by simp
  with es show ?case by (intro exI [of _ "e # es"]) simp
qed simp

end

section \<open>The workspace\<close>

text \<open>
  What the callers of the aggregate put into events: handoffs, routines, versions and runs come
  from their constructors, and a dispatched attempt has no outcome yet. The handlers do not check
  this again.
\<close>

definition admissible :: "domain_event \<Rightarrow> bool" where
  "admissible e =
     (case e of
        EV_HandoffAdded h \<Rightarrow> handoff_wf h
      | EV_TaskHandoffAdded t h \<Rightarrow> handoff_wf h
      | EV_TaskResumed t from h \<Rightarrow> handoff_wf h
      | EV_RoutineAdded r \<Rightarrow> routine_event_ok r
      | EV_RoutineVersionAdded r v \<Rightarrow> version_ok v
      | EV_RoutineRunStarted run firing next_at \<Rightarrow> run_fresh run
      | EV_RoutineStepDispatched r s a t h \<Rightarrow> at_outcome a = None \<and> handoff_wf h
      | _ \<Rightarrow> True)"

lemma apply_event_inv:
  assumes "ws_inv w" and "admissible e" and "apply_event w e = Inr w'"
  shows "ws_inv w'"
  using assms(2,3)
  by (cases e)
    (simp_all add: apply_event_def admissible_def profile_events_inv [OF assms(1)]
      preset_events_inv [OF assms(1)] role_events_inv [OF assms(1)] agent_events_inv [OF assms(1)]
      apply_agent_added_inv [OF assms(1)] apply_settings_changed_inv [OF assms(1)]
      apply_floors_changed_inv [OF assms(1)] apply_thread_added_inv [OF assms(1)]
      apply_thread_changed_inv [OF assms(1)] apply_attachment_added_inv [OF assms(1)]
      apply_draft_changed_inv [OF assms(1)] apply_draft_submitted_inv [OF assms(1)]
      apply_message_appended_inv [OF assms(1)] apply_task_added_inv [OF assms(1)]
      task_handoff_events_inv [OF assms(1)] apply_node_added_inv [OF assms(1)]
      apply_agent_node_added_inv [OF assms(1)] apply_canvas_replaced_inv [OF assms(1)]
      apply_routine_added_inv [OF assms(1)] apply_version_added_inv [OF assms(1)]
      routine_events_inv [OF assms(1)] apply_run_started_inv [OF assms(1)]
      apply_run_advanced_inv [OF assms(1)] apply_step_dispatched_inv [OF assms(1)])

lemma apply_event_later:
  assumes "ws_inv w" and "admissible e" and "apply_event w e = Inr w'"
  shows "later w w'"
  using assms(2,3)
  by (cases e)
    (simp_all add: apply_event_def admissible_def config_events_later agent_events_later
      apply_agent_added_later chat_events_later task_events_later canvas_events_later [OF assms(1)]
      routine_events_later apply_run_started_later run_events_later)

lemma execute_applies: "execute w c = Inr (w', e) \<Longrightarrow> apply_event w e = Inr w'"
  by (auto simp: execute_def res_bind_Inr_iff)

interpretation ws: event_sourced execute apply_event ws_inv admissible later
  by unfold_locales
    (rule execute_applies apply_event_inv apply_event_later later_refl later_trans; assumption)+

text \<open>The workspaces commands reach.\<close>

inductive reachable :: "workspace \<Rightarrow> bool" where
  reachable_new: "reachable (workspace_new wid nm)"
| reachable_execute: "reachable w \<Longrightarrow> execute w c = Inr (w', e) \<Longrightarrow> admissible e \<Longrightarrow> reachable w'"

lemma reachable_inv: "reachable w \<Longrightarrow> ws_inv w"
  by (induction rule: reachable.induct) (auto intro: workspace_new_inv ws.inv_step ws.run_step)

end
