(* ===== verification/Workspace_Sample.thy ===== *)
theory Workspace_Sample
  imports Workspace_Safe Routine_Properties
begin

text \<open>
  A small workspace built by commands: one agent, the sample routine, a run of it, and its first
  step dispatched. The witnesses of the workspace properties evaluate on it.
\<close>

lemma bm_values_empty [simp]: "bm_values bm_empty = []"
  by (simp add: bm_values_def)

definition sample_agent :: agent where
  "sample_agent = agent_new (Id 4) (Name ''Ada'') None"

definition sample_trigger :: routine_trigger where
  "sample_trigger =
     \<lparr>tr_id = Id 8, tr_routine = Id 5, tr_name = Name ''tick'', tr_kind = TK_Manual, tr_enabled = True,
      tr_inputs = bm_empty, tr_last_firing = None, tr_skipped = 0\<rparr>"

definition sample_firing :: routine_trigger_firing where
  "sample_firing = \<lparr>fire_occurrence = Key ''tick-1'', fire_at = 190\<rparr>"

definition sample_routine :: routine where
  "sample_routine =
     \<lparr>rt_id = Id 5, rt_name = Name ''ship'', rt_description = None, rt_versions = [sample_version],
      rt_triggers = bm_insert (Id 8) sample_trigger bm_empty\<rparr>"

definition sample_fired :: routine where
  "sample_fired = sample_routine\<lparr>rt_triggers :=
     bm_insert (Id 8) (sample_trigger\<lparr>tr_last_firing := Some sample_firing\<rparr>) (rt_triggers sample_routine)\<rparr>"

definition sample_task :: task where
  "sample_task = task_new (Id 50) (Name ''plan'') (Content ''plan it'') (Some (Id 4)) None"

definition sample_step_handoff :: handoff where
  "sample_step_handoff =
     \<lparr>ho_id = Id 60, ho_origin = HO_Routine (Id 30) (Id 1), ho_recipient = Id 4,
      ho_payload = HP_Task (Id 50), ho_message_id = Some (HandoffMessageId ''m1''), ho_parent = None,
      ho_created_at = Some 210, ho_response_deadline = None, ho_attempts = [], ho_progress = [],
      ho_response = None, ho_termination = None\<rparr>"

definition sample_new :: workspace where
  "sample_new = workspace_new (Id 1) (Name ''Demo'')"

definition sample_with_agent :: workspace where
  "sample_with_agent = sample_new\<lparr>w_agents := bm_insert (Id 4) sample_agent bm_empty\<rparr>"

definition sample_with_routine :: workspace where
  "sample_with_routine = sample_with_agent\<lparr>w_routines := bm_insert (Id 5) sample_routine bm_empty\<rparr>"

definition sample_with_run :: workspace where
  "sample_with_run =
     insert_run sample_run (put_routine (Id 5) sample_fired sample_with_routine)"

definition sample_workspace :: workspace where
  "sample_workspace =
     insert_handoff sample_step_handoff (insert_task sample_task
       (sample_with_run\<lparr>w_runs := bm_insert (Id 30) sample_dispatched (w_runs sample_with_run)\<rparr>))"

lemma sample_new_fields [simp]:
  "w_id sample_new = Id 1" "w_floors sample_new = floors_default" "w_agents sample_new = bm_empty"
  "w_archived sample_new = bm_empty" "w_profiles sample_new = bm_empty" "w_presets sample_new = bm_empty"
  "w_roles sample_new = bm_empty" "w_tasks sample_new = bm_empty" "w_handoffs sample_new = bm_empty"
  "w_routines sample_new = bm_empty" "w_runs sample_new = bm_empty" "w_nodes sample_new = bm_empty"
  "w_threads sample_new = bm_empty" "w_attachments sample_new = bm_empty"
  by (simp_all add: sample_new_def workspace_new_def)

lemma sample_add_agent:
  "execute sample_new (DC_AddAgent sample_agent) = Inr (sample_with_agent, EV_AgentAdded sample_agent)"
  by (simp add: execute_def decide_def apply_event_def apply_agent_added_def ensure_absent_def
      check_agent_references_def check_option_def sample_agent_def agent_new_def
      agent_with_program_def sample_with_agent_def)

lemma sample_agent_known [simp]: "contains sample_with_agent (ER_Agent (Id 4))"
  by (simp add: sample_with_agent_def)

lemma sample_add_routine:
  "execute sample_with_agent (DC_AddRoutine sample_routine) =
     Inr (sample_with_routine, EV_RoutineAdded sample_routine)"
proof -
  have "check_all (validate_routine_version sample_with_agent) (rt_versions sample_routine) = Inr ()"
    by (simp add: sample_routine_def validate_routine_version_def sample_version_def sample_first_def
        sample_second_def validate_routine_step_def ensure_reference_def del: contains_simps)
  moreover have "rt_id sample_routine = Id 5" by (simp add: sample_routine_def)
  moreover have "tr_routine t = Id 5" if "t \<in> set (bm_values (rt_triggers sample_routine))" for t
    using that by (auto simp: set_bm_values sample_routine_def sample_trigger_def split: if_splits)
  then have "check_all (\<lambda>t. ensure (tr_routine t = Id 5) (DE_InvalidReference (ER_RoutineTrigger (tr_id t))
      ''routine_id'' (ER_Routine (Id 5)))) (bm_values (rt_triggers sample_routine)) = Inr ()"
    by (simp add: check_all_Inr_iff ensure_Inr_iff)
  ultimately show ?thesis
    by (simp add: execute_def decide_def apply_event_def apply_routine_added_def ensure_absent_def
        put_routine_def sample_with_routine_def) (simp add: sample_with_agent_def)
qed

lemma sample_run_ids [simp]:
  "run_id sample_run = Id 30" "run_routine sample_run = Id 5" "run_version sample_run = Id 9"
  "run_trigger sample_run = Some (Id 8)" "run_occurrence sample_run = Some (Key ''tick-1'')" "run_pin sample_run = sample_pin"
  by (simp_all add: sample_run_def run_start_def sample_pin_def sample_version_def)

lemma sample_start_run:
  "execute sample_with_routine (DC_StartRoutineRun sample_run (Some sample_firing) None) =
     Inr (sample_with_run, EV_RoutineRunStarted sample_run (Some sample_firing) None)"
proof -
  have routines: "w_routines sample_with_routine = bm_insert (Id 5) sample_routine bm_empty"
    and runs: "w_runs sample_with_routine = bm_empty"
    by (simp_all add: sample_with_routine_def sample_with_agent_def)
  note runs
  moreover have "get_routine sample_with_routine (Id 5) = Inr sample_routine"
    by (simp add: get_routine_def get_or_Inr_iff sample_with_routine_def)
  moreover have "routine_version_of sample_routine (Id 9) = Some (pin_version sample_pin)"
    by (simp add: routine_version_of_def sample_routine_def sample_pin_def sample_version_def)
  moreover have "validate_pinned_agents sample_with_routine sample_run = Inr ()"
    by (simp add: validate_pinned_agents_Inr_iff)
      (simp add: sample_pin_def sample_version_def sample_first_def sample_second_def bm_of_list_def
        known_agent_def sample_with_routine_def sample_with_agent_def)
  moreover have "\<not> routine_occurrence_consumed sample_with_routine (Id 8) (Key ''tick-1'')"
    by (auto simp: routine_occurrence_consumed_def runs routines list_ex_iff set_bm_values
        routine_trigger_of_def sample_routine_def sample_trigger_def split: if_splits)
  then have "consume_occurrence sample_with_routine sample_run sample_routine (Some sample_firing) None =
      Inr (put_routine (Id 5) sample_fired sample_with_routine)"
    by (simp add: consume_occurrence_def sample_firing_def)
      (simp add: sample_routine_def sample_fired_def routine_trigger_of_def sample_trigger_def
        trigger_fire_def set_schedule_next_def sample_firing_def)
  ultimately show ?thesis
    by (simp add: execute_def decide_def apply_event_def apply_run_started_def ensure_absent_def
        sample_with_run_def)
qed

lemma sample_run_reachable: "reachable sample_with_run"
proof -
  have "reachable sample_with_agent"
    by (rule reachable_execute [OF reachable_new sample_add_agent [unfolded sample_new_def]])
      (simp add: admissible_def)
  moreover have "routine_wf sample_routine"
    by (auto simp: routine_wf_def sample_routine_def sample_version_def sample_trigger_def
        trigger_kind_validate_def split: if_splits)
  then have "routine_event_ok sample_routine"
    using sample_version_ok by (simp add: routine_event_ok_def) (simp add: sample_routine_def)
  ultimately have "reachable sample_with_routine"
    by (intro reachable_execute [OF _ sample_add_routine]) (simp_all add: admissible_def)
  then show ?thesis
    by (rule reachable_execute [OF _ sample_start_run])
      (use sample_run_def in \<open>unfold admissible_def run_fresh_def, simp, blast\<close>)
qed

lemma sample_dispatch_step:
  "execute sample_with_run
     (DC_DispatchRoutineStep (Id 30) (Id 1) (sample_attempt 1) sample_task sample_step_handoff) =
   Inr (sample_workspace,
     EV_RoutineStepDispatched (Id 30) (Id 1) (sample_attempt 1) sample_task sample_step_handoff)"
proof -
  have run: "bm_get (w_runs sample_with_run) (Id 30) = Some sample_run"
    by (simp add: sample_with_run_def insert_run_def)
  have maps: "w_tasks sample_with_run = bm_empty" "w_handoffs sample_with_run = bm_empty"
    "known_agent sample_with_run (Id 4)"
    by (simp_all add: sample_with_run_def insert_run_def sample_with_routine_def sample_with_agent_def known_agent_def)
  have "held_claims (w_runs sample_with_run) p = {}" for p
    by (simp add: held_claims_def sample_with_run_def insert_run_def sample_run_def sample_with_routine_def
        sample_with_agent_def split: option.split)
  then have "\<not> bm_contains (held_routine_reservations sample_with_run) c" for c
    using held_routine_reservations_iff [OF ws_invD(10) [OF reachable_inv [OF sample_run_reachable]]]
    by simp
  moreover have "dispatch_matches sample_run (Id 30) (Id 1) (sample_attempt 1) sample_task sample_step_handoff"
    by (simp add: dispatch_matches_def)
      (simp add: sample_attempt_def sample_task_def task_new_def sample_step_handoff_def sample_pin_def
        bm_of_list_def)
  ultimately have "validate_routine_dispatch sample_with_run (Id 30) (Id 1) (sample_attempt 1)
      sample_task sample_step_handoff = Inr ()"
    using run by (simp add: validate_routine_dispatch_Inr_iff)
  moreover have "validate_new_task sample_with_run sample_task = Inr ()"
    using maps by (simp add: validate_new_task_Inr_iff sample_task_def task_new_def)
  moreover have "known_step (w_runs sample_with_run) (Id 30) (Id 1)"
    using run by (simp add: known_step_def bm_contains_def sample_run_fields)
  then have "validate_new_handoff sample_with_run sample_step_handoff (Some sample_task) = Inr ()"
    using maps by (simp add: validate_new_handoff_Inr_iff handoff_refs_ok_def sample_step_handoff_def
        sample_task_def task_new_def)
  ultimately show ?thesis
    using run sample_dispatch
    by (simp add: execute_def decide_def apply_event_def apply_step_dispatched_def get_or_def
        sample_workspace_def)
qed

lemma sample_reachable: "reachable sample_workspace"
  by (rule reachable_execute [OF sample_run_reachable sample_dispatch_step])
    (simp add: admissible_def sample_attempt_def sample_step_handoff_def handoff_wf_def
      handoff_log_ok_def delivered_ids_def)

end
