(* ===== verification/Workspace_Properties.thy ===== *)
theory Workspace_Properties
  imports Workspace_Sample
begin

text \<open>
  The guarantees of the workspace: what holds of every state commands reach, what no command can
  undo, and that the stored events rebuild the state.
\<close>

section \<open>Rebuilding\<close>

text \<open>The events a sequence of commands produced rebuild, applied to the state the sequence started
  from, exactly the state it ended in, one event per command.\<close>

lemma events_rebuild_state:
  assumes "try_fold (run_logged execute) (w, []) cs = Inr (w', es)"
  shows "try_fold apply_event w es = Inr w' \<and> length es = length cs"
  using ws.run_logged_rebuilds [OF assms] by auto

lemma events_rebuild_state_witness:
  "try_fold apply_event sample_new [EV_AgentAdded sample_agent, EV_RoutineAdded sample_routine] =
     Inr sample_with_routine"
proof -
  have "try_fold (run_logged execute) (sample_new, []) [DC_AddAgent sample_agent, DC_AddRoutine sample_routine] =
      Inr (sample_with_routine, [EV_AgentAdded sample_agent, EV_RoutineAdded sample_routine])"
    by (simp add: run_logged_def sample_add_agent sample_add_routine)
  from events_rebuild_state [OF this] show ?thesis by blast
qed

section \<open>Every reachable workspace\<close>

text \<open>What \<open>ws_inv\<close> does not mention: the agents the steps of routine versions name.\<close>

definition version_staffed :: "workspace \<Rightarrow> routine_version \<Rightarrow> bool" where
  "version_staffed w v \<longleftrightarrow> (\<forall>st\<in>set (ver_steps v). known_agent w (st_agent st))"

definition steps_staffed :: "workspace \<Rightarrow> bool" where
  "steps_staffed w \<longleftrightarrow>
     (\<forall>k x. bm_get (w_routines w) k = Some x \<longrightarrow> (\<forall>v\<in>set (rt_versions x). version_staffed w v))"

lemma validate_routine_version_staffed: "validate_routine_version w v = Inr () \<Longrightarrow> version_staffed w v"
  unfolding version_staffed_def
proof
  fix st assume "validate_routine_version w v = Inr ()" and "st \<in> set (ver_steps v)"
  then have "validate_routine_step w (ver_id v) st = Inr ()"
    by (simp add: validate_routine_version_def check_all_Inr_iff)
  then show "known_agent w (st_agent st)"
    by (simp add: validate_routine_step_def res_bind_Inr_iff ensure_reference_def known_agent_def split: if_splits)
qed

lemma later_known: "later w w' \<Longrightarrow> known_agent w a \<Longrightarrow> known_agent w' a"
  unfolding later_def known_agent_recorded by blast

text \<open>The versions of a routine after an event were there before, or were validated by it.\<close>

definition versions_from :: "workspace \<Rightarrow> workspace \<Rightarrow> bool" where
  "versions_from w w' \<longleftrightarrow>
     (\<forall>k x v. bm_get (w_routines w') k = Some x \<longrightarrow> v \<in> set (rt_versions x) \<longrightarrow>
        validate_routine_version w v = Inr () \<or>
        (\<exists>y. bm_get (w_routines w) k = Some y \<and> v \<in> set (rt_versions y)))"

lemma versions_from_same: "w_routines w' = w_routines w \<Longrightarrow> versions_from w w'"
  by (simp add: versions_from_def)

lemma versions_from_put:
  assumes "get_routine w k = Inr y" and "rt_versions x = rt_versions y"
  shows "versions_from w (put_routine k x w)"
  using assms by (auto simp: versions_from_def put_routine_def get_routine_def get_or_Inr_iff)

lemma config_versions_from:
  shows "apply_floors_changed w f g = Inr w' \<Longrightarrow> versions_from w w'"
    and "apply_settings_changed w s s' = Inr w' \<Longrightarrow> versions_from w w'"
    and "apply_profile_added w p = Inr w' \<Longrightarrow> versions_from w w'"
    and "apply_profile_changed w p p' = Inr w' \<Longrightarrow> versions_from w w'"
    and "apply_profile_removed w p = Inr w' \<Longrightarrow> versions_from w w'"
    and "apply_preset_added w q = Inr w' \<Longrightarrow> versions_from w w'"
    and "apply_preset_changed w q q' = Inr w' \<Longrightarrow> versions_from w w'"
    and "apply_preset_removed w q = Inr w' \<Longrightarrow> versions_from w w'"
    and "apply_role_added w r = Inr w' \<Longrightarrow> versions_from w w'"
    and "apply_role_changed w r r' = Inr w' \<Longrightarrow> versions_from w w'"
    and "apply_role_removed w r = Inr w' \<Longrightarrow> versions_from w w'"
  by (rule versions_from_same;
      auto simp: apply_floors_changed_def apply_settings_changed_def apply_profile_added_def
      apply_profile_changed_def apply_profile_removed_def apply_preset_added_def apply_preset_changed_def
      apply_preset_removed_def apply_role_added_def apply_role_changed_def apply_role_removed_def
      result_iff split: if_splits option.splits)+

lemma agent_chat_versions_from:
  shows "apply_agent_role_changed w a fr tr = Inr w' \<Longrightarrow> versions_from w w'"
    and "apply_agent_renamed w a fn tn = Inr w' \<Longrightarrow> versions_from w w'"
    and "apply_agent_state_changed w a fs ts = Inr w' \<Longrightarrow> versions_from w w'"
    and "apply_agent_added w ag = Inr w' \<Longrightarrow> versions_from w w'"
    and "apply_thread_added w th = Inr w' \<Longrightarrow> versions_from w w'"
    and "apply_thread_changed w t tf tt fc tc = Inr w' \<Longrightarrow> versions_from w w'"
    and "apply_attachment_added w att = Inr w' \<Longrightarrow> versions_from w w'"
    and "apply_draft_changed w t fd td = Inr w' \<Longrightarrow> versions_from w w'"
    and "apply_draft_submitted w t d m = Inr w' \<Longrightarrow> versions_from w w'"
    and "apply_message_appended w m = Inr w' \<Longrightarrow> versions_from w w'"
  by (rule versions_from_same;
      auto simp: apply_agent_role_changed_def apply_agent_renamed_def apply_agent_state_changed_def
      apply_agent_added_def apply_thread_added_def apply_thread_changed_def apply_attachment_added_def
      apply_draft_changed_def apply_draft_submitted_def apply_message_appended_def put_thread_def
      result_iff split: if_splits)+

lemma task_versions_from:
  shows "apply_task_added w tk = Inr w' \<Longrightarrow> versions_from w w'"
    and "apply_handoff_added w h = Inr w' \<Longrightarrow> versions_from w w'"
    and "apply_task_handoff_added w tk h = Inr w' \<Longrightarrow> versions_from w w'"
    and "apply_handoff_changed w h h' = Inr w' \<Longrightarrow> versions_from w w'"
    and "apply_task_cancelled w k from h h' = Inr w' \<Longrightarrow> versions_from w w'"
    and "apply_task_resumed w k from h = Inr w' \<Longrightarrow> versions_from w w'"
    and "apply_task_state_changed w k from to = Inr w' \<Longrightarrow> versions_from w w'"
    and "apply_run_advanced w rid t = Inr w' \<Longrightarrow> versions_from w w'"
    and "apply_step_dispatched w rid sid att tk h = Inr w' \<Longrightarrow> versions_from w w'"
  by (rule versions_from_same;
      auto simp: apply_task_added_def apply_handoff_added_def apply_task_handoff_added_def
      apply_handoff_changed_def apply_task_cancelled_def apply_task_resumed_def
      apply_task_state_changed_def apply_run_advanced_def apply_step_dispatched_def
      insert_task_def insert_handoff_def set_task_state_def result_iff split: if_splits)+

lemma canvas_versions_from:
  assumes "ws_inv w"
  shows "apply_node_added w n = Inr w' \<Longrightarrow> versions_from w w'"
    and "apply_agent_node_added w a n = Inr w' \<Longrightarrow> versions_from w w'"
    and "apply_canvas_replaced w before after = Inr w' \<Longrightarrow> versions_from w w'"
proof -
  have apart: "agents_apart w" using agents_apart_iff [OF ws_invD(2) [OF assms]] .
  then have "agents_apart (place_node n w)" by (simp add: agents_apart_def)
  then show "apply_node_added w n = Inr w' \<Longrightarrow> versions_from w w'"
    using relocated_frame(14) [OF restore_placed_relocated]
    by (intro versions_from_same) (auto simp: apply_node_added_def res_bind_Inr_iff)
  show "apply_agent_node_added w a n = Inr w' \<Longrightarrow> versions_from w w'"
    by (rule versions_from_same) (auto simp: apply_agent_node_added_def res_bind_Inr_iff split: if_splits)
  assume w': "apply_canvas_replaced w before after = Inr w'"
  let ?l = "combine_layouts (all_canvas_layout w) before after"
  let ?v = "(install_layout ?l w)\<lparr>w_floors := move_nodes before after (w_floors w)\<rparr>"
  have r: "w' = restore_placed_agents (archive_unplaced_agents (shown_agents (cl_nodes before)) ?v)"
    using w' by (auto simp: apply_canvas_replaced_def result_iff Let_def split: if_splits)
  have "agents_apart ?v" using apart by (simp add: agents_apart_def)
  note u = archive_unplaced_relocated [OF this]
  have "w_routines w' = w_routines w"
    unfolding r relocated_frame(14) [OF restore_placed_relocated [OF relocated_apart [OF u]]]
      relocated_frame(14) [OF u] by simp
  then show "versions_from w w'" by (rule versions_from_same)
qed

lemma routine_versions_from:
  shows "apply_routine_added w x = Inr w' \<Longrightarrow> versions_from w w'"
    and "apply_version_added w r v = Inr w' \<Longrightarrow> versions_from w w'"
    and "apply_routine_changed w r fn tn rfd rtd = Inr w' \<Longrightarrow> versions_from w w'"
    and "apply_trigger_changed w r tfrom tto = Inr w' \<Longrightarrow> versions_from w w'"
    and "apply_trigger_removed w r t = Inr w' \<Longrightarrow> versions_from w w'"
    and "apply_occurrences_skipped w r tid n next_at = Inr w' \<Longrightarrow> versions_from w w'"
    and "apply_run_started w run firing nxt = Inr w' \<Longrightarrow> versions_from w w'"
proof -
  show "apply_routine_changed w r fn tn rfd rtd = Inr w' \<Longrightarrow> versions_from w w'"
    by (auto simp: apply_routine_changed_def res_bind_Inr_iff set_appearance_def
        intro: versions_from_put split: if_splits)
  show "apply_trigger_changed w r tfrom tto = Inr w' \<Longrightarrow> versions_from w w'"
    by (auto simp: apply_trigger_changed_def result_iff put_trigger_def intro: versions_from_put split: if_splits)
  show "apply_trigger_removed w r t = Inr w' \<Longrightarrow> versions_from w w'"
    by (auto simp: apply_trigger_removed_def res_bind_Inr_iff remove_trigger_def
        intro: versions_from_put split: if_splits)
  show "apply_occurrences_skipped w r tid n next_at = Inr w' \<Longrightarrow> versions_from w w'"
    by (auto simp: apply_occurrences_skipped_def result_iff intro: versions_from_put)
  show "apply_routine_added w x = Inr w' \<Longrightarrow> versions_from w w'"
    by (auto simp: apply_routine_added_def result_iff check_all_Inr_iff versions_from_def put_routine_def
        split: if_splits)
  show "apply_version_added w r v = Inr w' \<Longrightarrow> versions_from w w'"
    by (auto simp: apply_version_added_def result_iff push_version_Inr_iff versions_from_def
        put_routine_def get_routine_def get_or_Inr_iff split: if_splits)
  assume "apply_run_started w run firing nxt = Inr w'"
  then obtain x w1 where x: "get_routine w (run_routine run) = Inr x"
    and w1: "consume_occurrence w run x firing nxt = Inr w1" and w': "w' = insert_run run w1"
    by (auto simp: apply_run_started_def result_iff split: if_splits option.splits)
  have "versions_from w w1"
    using w1 by (cases rule: consume_occurrence_cases) (auto intro: versions_from_same versions_from_put [OF x])
  then show "versions_from w w'" by (simp add: w' versions_from_def insert_run_def)
qed

lemma apply_event_versions_from:
  assumes "ws_inv w" and "apply_event w e = Inr w'"
  shows "versions_from w w'"
  using assms(2)
  by (cases e) (simp_all add: apply_event_def config_versions_from agent_chat_versions_from
      task_versions_from canvas_versions_from [OF assms(1)] routine_versions_from)

lemma steps_staffed_step:
  assumes "ws_inv w" and "admissible e" and step: "apply_event w e = Inr w'" and old: "steps_staffed w"
  shows "steps_staffed w'"
proof -
  have later: "later w w'" by (rule ws.rel_step [OF assms(1-3)])
  have mono: "version_staffed w v \<Longrightarrow> version_staffed w' v" for v
    using later_known [OF later] by (simp add: version_staffed_def)
  show ?thesis
    unfolding steps_staffed_def
  proof (intro allI impI ballI)
    fix k x v
    assume "bm_get (w_routines w') k = Some x" and "v \<in> set (rt_versions x)"
    with apply_event_versions_from [OF assms(1) step]
    have "validate_routine_version w v = Inr () \<or>
        (\<exists>y. bm_get (w_routines w) k = Some y \<and> v \<in> set (rt_versions y))"
      unfolding versions_from_def by blast
    then have "version_staffed w v"
      using validate_routine_version_staffed old unfolding steps_staffed_def by blast
    then show "version_staffed w' v" by (rule mono)
  qed
qed

lemma reachable_staffed: "reachable w \<Longrightarrow> steps_staffed w"
proof (induction rule: reachable.induct)
  case (reachable_new wid nm)
  show ?case by (simp add: steps_staffed_def workspace_new_def)
next
  case (reachable_execute w c w' e)
  then show ?case
    using steps_staffed_step [OF reachable_inv] execute_applies by blast
qed

text \<open>C1: In every workspace commands reach, the collections are consistent with each other. Every record
  is stored under its own id, and these references resolve: agents to their role, environment and
  custom command; tasks to their assignee and to the task they retry; handoffs to their sender,
  recipient, task, run step and parent; conversations to their agent; attachments to their
  conversation; drafts and messages to their attachments; canvas nodes to the agent, task or handoff
  they show; groups and connections to their nodes; floors to their owners, nodes to their floors;
  runs to their routine, to the version they are pinned to and to the agents of its steps; and every
  step of every version of a routine to its agent. The canvas, the conversations, the routines and
  the runs are each well formed. (The floor a step claims and the trigger a run came from may have
  been removed since.)\<close>

lemma workspace_invariant: "reachable w \<Longrightarrow> ws_inv w \<and> steps_staffed w"
  by (simp add: reachable_inv reachable_staffed)

lemma workspace_invariant_witness: "ws_inv sample_workspace \<and> steps_staffed sample_workspace"
  by (rule workspace_invariant [OF sample_reachable])

text \<open>C2: No command loses or rewrites history: an agent, task, handoff, conversation, attachment,
  routine version or run that was there stays there; an agent or task moves only along its
  lifecycle, a handoff only by its operations, a run only by its transitions; messages and routine
  versions are only appended.\<close>

lemma history_only_grows:
  assumes "reachable w" and "execute w c = Inr (w', e)" and "admissible e"
  shows "later w w'"
  using ws.rel_step [OF reachable_inv [OF assms(1)] assms(3) execute_applies [OF assms(2)]] .

lemma history_only_grows_witness: "later sample_with_run sample_workspace"
  by (rule history_only_grows [OF sample_run_reachable sample_dispatch_step])
    (simp add: admissible_def sample_attempt_def sample_step_handoff_def handoff_wf_def
      handoff_log_ok_def delivered_ids_def)

lemma distinct_concat_map:
  assumes "distinct ks" and "\<And>k. k \<in> set ks \<Longrightarrow> distinct (f k)"
    and "\<And>k k'. k \<in> set ks \<Longrightarrow> k' \<in> set ks \<Longrightarrow> k \<noteq> k' \<Longrightarrow> set (f k) \<inter> set (f k') = {}"
  shows "distinct (concat (map f ks))"
  using assms
proof (induction ks)
  case (Cons k ks)
  have "set (f k) \<inter> set (f j) = {}" if "j \<in> set ks" for j
    by (rule Cons.prems(3)) (use that Cons.prems(1) in auto)
  then have "set (f k) \<inter> set (concat (map f ks)) = {}" by auto
  moreover have "distinct (concat (map f ks))"
    by (rule Cons.IH) (use Cons.prems in \<open>simp_all\<close>)
  moreover have "distinct (f k)" by (rule Cons.prems(2)) simp
  ultimately show ?case by simp
qed simp

lemma bm_values_keys: "bm_values m = map (\<lambda>k. the (bm_get m k)) (bm_keys m)"
proof -
  have "snd p = the (bm_get m (fst p))" if "p \<in> set (entries m)" for p
    using that bm_get_Some_iff [of m "fst p" "snd p"] by simp
  then show ?thesis by (simp add: bm_values_def bm_keys_def)
qed

lemma distinct_attempt_reservations: "distinct (attempt_reservations a)"
  by (auto simp: attempt_reservations_def distinct_map inj_on_def)

definition step_held :: "routine_run \<Rightarrow> routine_step_id \<Rightarrow> routine_reservation list" where
  "step_held r k =
     (case bm_get (run_steps r) k of
        None \<Rightarrow> []
      | Some s \<Rightarrow>
          if step_state_holds_reservations (sr_state s) \<and> sr_attempts s \<noteq> []
          then attempt_reservations (last (sr_attempts s)) else [])"

lemma set_step_held: "set (step_held r k) = step_claims r k"
  by (simp add: step_held_def step_claims_def step_run_claims_def split: option.split)

lemma held_reservations_steps: "held_reservations r = concat (map (step_held r) (bm_keys (run_steps r)))"
proof -
  have "concat (map attempt_reservations (List.map_filter active_or_last_attempt
        (filter (\<lambda>s. step_state_holds_reservations (sr_state s)) (map (\<lambda>k. the (bm_get (run_steps r) k)) ks)))) =
      concat (map (step_held r) ks)" if "\<forall>k\<in>set ks. bm_contains (run_steps r) k" for ks
    using that by (induction ks)
      (auto simp: step_held_def active_or_last_attempt_def List.map_filter_simps bm_contains_def)
  from this [of "bm_keys (run_steps r)"] show ?thesis
    by (simp add: held_reservations_def bm_values_keys set_bm_keys)
qed

text \<open>C15: Reservations are exclusive: over all active runs of a workspace no agent, no checkout and no
  named resource is held twice by dispatched or interrupted steps.\<close>

lemma reservations_exclusive:
  assumes "reachable w"
  shows "distinct (concat (map held_reservations (active_routine_runs w)))"
proof -
  have ok: "runs_ok (known_agent w) (w_routines w) (w_runs w)"
    using ws_invD(10) [OF reachable_inv [OF assms]] .
  have excl: "step_claims r s \<inter> step_claims r' s' = {}"
    if "bm_get (w_runs w) k = Some r" "bm_get (w_runs w) k' = Some r'" "(k, s) \<noteq> (k', s')" for k k' r r' s s'
    using ok that unfolding runs_ok_def exclusive_def held_claims_def
    by (metis (no_types, lifting) fst_conv option.simps(5) snd_conv)
  let ?h = "\<lambda>k. held_reservations (the (bm_get (w_runs w) k))"
  let ?ks = "filter (\<lambda>k. run_is_active (the (bm_get (w_runs w) k))) (bm_keys (w_runs w))"
  have "distinct (concat (map ?h ?ks))"
  proof (rule distinct_concat_map)
    show "distinct ?ks" by simp
  next
    fix k assume "k \<in> set ?ks"
    then obtain r where r: "bm_get (w_runs w) k = Some r" by (auto simp: set_bm_keys bm_contains_iff)
    show "distinct (?h k)"
      unfolding held_reservations_steps
    proof (rule distinct_concat_map)
      show "distinct (step_held (the (bm_get (w_runs w) k)) s)" for s
        using distinct_attempt_reservations by (simp add: step_held_def split: option.split)
      show "set (step_held (the (bm_get (w_runs w) k)) s) \<inter> set (step_held (the (bm_get (w_runs w) k)) s') = {}"
        if "s \<noteq> s'" for s s'
        using excl [OF r r, of s s'] that by (simp add: set_step_held r)
    qed simp
  next
    fix k k' assume "k \<in> set ?ks" "k' \<in> set ?ks" "k \<noteq> k'"
    then obtain r r' where "bm_get (w_runs w) k = Some r" "bm_get (w_runs w) k' = Some r'"
      by (auto simp: set_bm_keys bm_contains_iff)
    with excl [of k r k' r'] \<open>k \<noteq> k'\<close> show "set (?h k) \<inter> set (?h k') = {}"
      by (auto simp: held_reservations_steps set_step_held)
  qed
  then show ?thesis
    by (simp add: active_routine_runs_def bm_values_keys filter_map comp_def)
qed

lemma reservations_exclusive_witness:
  "distinct (concat (map held_reservations (active_routine_runs sample_workspace)))"
  by (rule reservations_exclusive [OF sample_reachable])

definition parent_rel :: "workspace \<Rightarrow> (handoff_id \<times> handoff_id) set" where
  "parent_rel w = {(k, p). \<exists>h. bm_get (w_handoffs w) k = Some h \<and> ho_parent h = Some p}"

lemma chain_within_relpow:
  assumes "bm_get (w_handoffs w) k = Some h" and "chain_within n (w_handoffs w) (ho_parent h)"
  shows "(k, x) \<notin> parent_rel w ^^ Suc n"
  using assms
proof (induction n arbitrary: k h)
  case 0
  then show ?case by (cases "ho_parent h") (auto simp: parent_rel_def)
next
  case (Suc n)
  show ?case
  proof (cases "ho_parent h")
    case None
    with Suc.prems(1) have "(k, q) \<notin> parent_rel w" for q by (auto simp: parent_rel_def)
    then show ?thesis by (metis relpow_Suc_E2)
  next
    case (Some p)
    with Suc.prems obtain g where g: "bm_get (w_handoffs w) p = Some g" "chain_within n (w_handoffs w) (ho_parent g)"
      by (auto split: option.splits)
    have "(p, x) \<notin> parent_rel w ^^ Suc n" by (rule Suc.IH [OF g])
    moreover have "q = p" if "(k, q) \<in> parent_rel w" for q
      using that Suc.prems(1) Some by (auto simp: parent_rel_def)
    ultimately show ?thesis by (metis relpow_Suc_E2)
  qed
qed

lemma chain_within_Some: "chain_within n hs (Some p) \<Longrightarrow> \<exists>h. bm_get hs p = Some h"
  by (cases n) (auto split: option.splits)

text \<open>C25: A handoff has at most fifteen ancestors: following parents is never possible sixteen times in a
  row, so the chain has no cycle, and every parent is itself recorded.\<close>

lemma handoff_chains_bounded:
  assumes "reachable w"
  shows "parent_rel w ^^ 16 = {} \<and> (\<forall>k p. (k, p) \<in> parent_rel w \<longrightarrow> bm_contains (w_handoffs w) p)"
proof -
  have chain: "chain_within 15 (w_handoffs w) (ho_parent h)" if "bm_get (w_handoffs w) k = Some h" for k h
    using ws_invD(4) [OF reachable_inv [OF assms]] that
    unfolding handoffs_ok_def by (simp add: max_handoff_depth_def)
  have "(k, x) \<notin> parent_rel w ^^ 16" for k x
  proof (cases "bm_get (w_handoffs w) k")
    case None
    then have "(k, y) \<notin> parent_rel w" for y by (simp add: parent_rel_def)
    moreover have "16 = Suc 15" by simp
    ultimately show ?thesis by (metis relpow_Suc_E2)
  next
    case (Some h)
    from chain_within_relpow [OF Some chain [OF Some]] show ?thesis by (simp add: eval_nat_numeral)
  qed
  moreover have "bm_contains (w_handoffs w) p" if "(k, p) \<in> parent_rel w" for k p
  proof -
    obtain h where h: "bm_get (w_handoffs w) k = Some h" "ho_parent h = Some p"
      using \<open>(k, p) \<in> parent_rel w\<close> by (auto simp: parent_rel_def)
    have "chain_within 15 (w_handoffs w) (Some p)" using chain [OF h(1)] h(2) by simp
    then show ?thesis using chain_within_Some by (fastforce simp: bm_contains_def)
  qed
  ultimately show ?thesis by auto
qed

lemma handoff_chains_bounded_witness: "parent_rel sample_workspace ^^ 16 = {}"
  using handoff_chains_bounded [OF sample_reachable] by blast

text \<open>One command that is carried out.\<close>

inductive commanded :: "workspace \<Rightarrow> workspace \<Rightarrow> bool" where
  commanded: "execute w c = Inr (w', e) \<Longrightarrow> admissible e \<Longrightarrow> commanded w w'"

lemma commanded_reachable: "commanded\<^sup>*\<^sup>* w w' \<Longrightarrow> reachable w \<Longrightarrow> reachable w' \<and> later w w'"
proof (induction rule: rtranclp_induct)
  case (step u v)
  from step(2) obtain c e where exec: "execute u c = Inr (v, e)" and adm: "admissible e"
    by (auto elim: commanded.cases)
  have u: "reachable u" "later w u" using step.IH step.prems by blast+
  have "later u v" by (rule ws.rel_step [OF reachable_inv [OF u(1)] adm execute_applies [OF exec]])
  with u exec adm show ?case by (blast intro: reachable_execute later_trans)
qed (simp add: later_refl)

text \<open>C23: A run works for ever on exactly what it was started with: whatever commands follow, it is still
  there with the same routine, version, trigger, occurrence, start and pin (inputs, agents, checkouts
  and the version's own text), and its routine still has that version unchanged, whatever versions
  and edits were added. At most one run of a routine is active.\<close>

lemma run_stays_pinned:
  assumes "reachable w" and "commanded\<^sup>*\<^sup>* w w'"
  shows "(\<forall>k r. bm_get (w_runs w) k = Some r \<longrightarrow>
      (\<exists>r' x. bm_get (w_runs w') k = Some r' \<and> run_identity r' = run_identity r \<and>
         bm_get (w_routines w') (run_routine r) = Some x \<and>
         routine_version_of x (run_version r) = Some (pin_version (run_pin r)))) \<and>
    (\<forall>k k' r r'. bm_get (w_runs w') k = Some r \<and> bm_get (w_runs w') k' = Some r' \<and>
      run_is_active r \<and> run_is_active r' \<and> run_routine r = run_routine r' \<longrightarrow> k = k')"
proof -
  have reach: "reachable w'" and later: "later w w'" using commanded_reachable assms by blast+
  note ok = ws_invD(10) [OF reachable_inv [OF reach], unfolded runs_ok_def run_pinned_def]
  have "\<exists>r' x. bm_get (w_runs w') k = Some r' \<and> run_identity r' = run_identity r \<and>
         bm_get (w_routines w') (run_routine r) = Some x \<and>
         routine_version_of x (run_version r) = Some (pin_version (run_pin r))"
    if r: "bm_get (w_runs w) k = Some r" for k r
  proof -
    obtain r' where r': "bm_get (w_runs w') k = Some r'" "run_step\<^sup>*\<^sup>* r r'"
      using later r unfolding later_def grows_def by blast
    then have id: "run_identity r' = run_identity r" by (blast intro: run_steps_identity)
    then have "run_routine r' = run_routine r" "run_version r' = run_version r" "run_pin r' = run_pin r"
      by (simp_all add: run_identity_def)
    with ok r'(1) id show ?thesis by metis
  qed
  with ok show ?thesis by blast
qed

lemma run_stays_pinned_witness:
  "\<exists>r' x. bm_get (w_runs sample_workspace) (Id 30) = Some r' \<and> run_identity r' = run_identity sample_run \<and>
     bm_get (w_routines sample_workspace) (Id 5) = Some x \<and>
     routine_version_of x (Id 9) = Some sample_version"
proof -
  have "commanded sample_with_run sample_workspace"
    by (rule commanded [OF sample_dispatch_step])
      (simp add: admissible_def sample_attempt_def sample_step_handoff_def handoff_wf_def
        handoff_log_ok_def delivered_ids_def)
  then have steps: "commanded\<^sup>*\<^sup>* sample_with_run sample_workspace" by blast
  have "bm_get (w_runs sample_with_run) (Id 30) = Some sample_run"
    by (simp add: sample_with_run_def insert_run_def)
  with run_stays_pinned [OF sample_run_reachable steps] have
    "\<exists>r' x. bm_get (w_runs sample_workspace) (Id 30) = Some r' \<and> run_identity r' = run_identity sample_run \<and>
     bm_get (w_routines sample_workspace) (run_routine sample_run) = Some x \<and>
     routine_version_of x (run_version sample_run) = Some (pin_version (run_pin sample_run))" by blast
  then show ?thesis by (simp add: sample_pin_def)
qed

end
