(* ===== verification/Workspace_Guarantees.thy ===== *)
theory Workspace_Guarantees
  imports Workspace_Properties
begin

text \<open>
  Guarantees about single parts of a reachable workspace: which runs an occurrence starts, what a
  dispatch may claim, how much a message carries, and where agents are.
\<close>

section \<open>An occurrence starts one run\<close>

lemma floors_config_runs:
  shows "apply_floors_changed w f g = Inr w' \<Longrightarrow> w_runs w' = w_runs w"
    and "apply_settings_changed w s s' = Inr w' \<Longrightarrow> w_runs w' = w_runs w"
    and "apply_profile_added w p = Inr w' \<Longrightarrow> w_runs w' = w_runs w"
    and "apply_profile_changed w p p' = Inr w' \<Longrightarrow> w_runs w' = w_runs w"
    and "apply_profile_removed w p = Inr w' \<Longrightarrow> w_runs w' = w_runs w"
    and "apply_preset_added w q = Inr w' \<Longrightarrow> w_runs w' = w_runs w"
    and "apply_preset_changed w q q' = Inr w' \<Longrightarrow> w_runs w' = w_runs w"
    and "apply_preset_removed w q = Inr w' \<Longrightarrow> w_runs w' = w_runs w"
    and "apply_role_added w r = Inr w' \<Longrightarrow> w_runs w' = w_runs w"
    and "apply_role_changed w r r' = Inr w' \<Longrightarrow> w_runs w' = w_runs w"
    and "apply_role_removed w r = Inr w' \<Longrightarrow> w_runs w' = w_runs w"
  by (auto simp: apply_floors_changed_def apply_settings_changed_def apply_profile_added_def
      apply_profile_changed_def apply_profile_removed_def apply_preset_added_def apply_preset_changed_def
      apply_preset_removed_def apply_role_added_def apply_role_changed_def apply_role_removed_def
      result_iff split: if_splits option.splits)

lemma agent_chat_runs:
  shows "apply_agent_role_changed w a fr tr = Inr w' \<Longrightarrow> w_runs w' = w_runs w"
    and "apply_agent_renamed w a fn tn = Inr w' \<Longrightarrow> w_runs w' = w_runs w"
    and "apply_agent_state_changed w a fs ts = Inr w' \<Longrightarrow> w_runs w' = w_runs w"
    and "apply_agent_added w ag = Inr w' \<Longrightarrow> w_runs w' = w_runs w"
    and "apply_thread_added w th = Inr w' \<Longrightarrow> w_runs w' = w_runs w"
    and "apply_thread_changed w t tf tt fc tc = Inr w' \<Longrightarrow> w_runs w' = w_runs w"
    and "apply_attachment_added w att = Inr w' \<Longrightarrow> w_runs w' = w_runs w"
    and "apply_draft_changed w t fd td = Inr w' \<Longrightarrow> w_runs w' = w_runs w"
    and "apply_draft_submitted w t d m = Inr w' \<Longrightarrow> w_runs w' = w_runs w"
    and "apply_message_appended w m = Inr w' \<Longrightarrow> w_runs w' = w_runs w"
  by (auto simp: apply_agent_role_changed_def apply_agent_renamed_def apply_agent_state_changed_def
      apply_agent_added_def apply_thread_added_def apply_thread_changed_def apply_attachment_added_def
      apply_draft_changed_def apply_draft_submitted_def apply_message_appended_def put_thread_def
      result_iff split: if_splits)

lemma task_routine_runs:
  shows "apply_task_added w tk = Inr w' \<Longrightarrow> w_runs w' = w_runs w"
    and "apply_handoff_added w h = Inr w' \<Longrightarrow> w_runs w' = w_runs w"
    and "apply_task_handoff_added w tk h = Inr w' \<Longrightarrow> w_runs w' = w_runs w"
    and "apply_handoff_changed w h h' = Inr w' \<Longrightarrow> w_runs w' = w_runs w"
    and "apply_task_cancelled w k from h h' = Inr w' \<Longrightarrow> w_runs w' = w_runs w"
    and "apply_task_resumed w k from h = Inr w' \<Longrightarrow> w_runs w' = w_runs w"
    and "apply_task_state_changed w k from to = Inr w' \<Longrightarrow> w_runs w' = w_runs w"
    and "apply_routine_added w x = Inr w' \<Longrightarrow> w_runs w' = w_runs w"
    and "apply_version_added w r v = Inr w' \<Longrightarrow> w_runs w' = w_runs w"
    and "apply_routine_changed w r fn tn rfd rtd = Inr w' \<Longrightarrow> w_runs w' = w_runs w"
    and "apply_trigger_changed w r tfrom tto = Inr w' \<Longrightarrow> w_runs w' = w_runs w"
    and "apply_trigger_removed w r t = Inr w' \<Longrightarrow> w_runs w' = w_runs w"
    and "apply_occurrences_skipped w r tid n next_at = Inr w' \<Longrightarrow> w_runs w' = w_runs w"
  by (auto simp: apply_task_added_def apply_handoff_added_def apply_task_handoff_added_def
      apply_handoff_changed_def apply_task_cancelled_def apply_task_resumed_def
      apply_task_state_changed_def apply_routine_added_def apply_version_added_def
      apply_routine_changed_def apply_trigger_changed_def apply_trigger_removed_def
      apply_occurrences_skipped_def insert_task_def insert_handoff_def set_task_state_def
      res_bind_Inr_iff split: if_splits)

lemma canvas_runs:
  assumes "ws_inv w"
  shows "apply_node_added w n = Inr w' \<Longrightarrow> w_runs w' = w_runs w"
    and "apply_agent_node_added w a n = Inr w' \<Longrightarrow> w_runs w' = w_runs w"
    and "apply_canvas_replaced w before after = Inr w' \<Longrightarrow> w_runs w' = w_runs w"
proof -
  have apart: "agents_apart w" using agents_apart_iff [OF ws_invD(2) [OF assms]] .
  then have "agents_apart (place_node n w)" by (simp add: agents_apart_def)
  then show "apply_node_added w n = Inr w' \<Longrightarrow> w_runs w' = w_runs w"
    using relocated_frame(15) [OF restore_placed_relocated]
    by (auto simp: apply_node_added_def res_bind_Inr_iff)
  show "apply_agent_node_added w a n = Inr w' \<Longrightarrow> w_runs w' = w_runs w"
    by (auto simp: apply_agent_node_added_def res_bind_Inr_iff split: if_splits)
  assume w': "apply_canvas_replaced w before after = Inr w'"
  let ?l = "combine_layouts (all_canvas_layout w) before after"
  let ?v = "(install_layout ?l w)\<lparr>w_floors := move_nodes before after (w_floors w)\<rparr>"
  have r: "w' = restore_placed_agents (archive_unplaced_agents (shown_agents (cl_nodes before)) ?v)"
    using w' by (auto simp: apply_canvas_replaced_def result_iff Let_def split: if_splits)
  have "agents_apart ?v" using apart by (simp add: agents_apart_def)
  note u = archive_unplaced_relocated [OF this]
  show "w_runs w' = w_runs w"
    unfolding r relocated_frame(15) [OF restore_placed_relocated [OF relocated_apart [OF u]]]
      relocated_frame(15) [OF u] by simp
qed

text \<open>Where the runs of the next workspace come from.\<close>

lemma runs_from:
  assumes "ws_inv w" and "apply_event w e = Inr w'" and "bm_get (w_runs w') k = Some r'"
  shows "(\<exists>r. bm_get (w_runs w) k = Some r \<and> run_identity r' = run_identity r) \<or>
    (\<exists>firing next_at. e = EV_RoutineRunStarted r' firing next_at \<and> k = run_id r' \<and>
       apply_run_started w r' firing next_at = Inr w')"
proof (cases e)
  case (EV_RoutineRunStarted run firing next_at)
  with assms(2) have start: "apply_run_started w run firing next_at = Inr w'" by (simp add: apply_event_def)
  then obtain x w1 where x: "get_routine w (run_routine run) = Inr x"
    and w1: "consume_occurrence w run x firing next_at = Inr w1" and w': "w' = insert_run run w1"
    by (auto simp: apply_run_started_def result_iff split: if_splits option.splits)
  have "w_runs w1 = w_runs w" using consume_occurrence_inv [OF assms(1) x w1] by blast
  with w' assms(3) start EV_RoutineRunStarted show ?thesis
    by (cases "k = run_id run") (auto simp: insert_run_def)
next
  case (EV_RoutineRunAdvanced q t)
  then show ?thesis using assms(2,3) apply_transition_shrinks
    by (fastforce simp: apply_event_def apply_run_advanced_def result_iff shrinks_def split: if_splits)
next
  case (EV_RoutineStepDispatched q s a t h)
  then show ?thesis using assms(2,3) dispatch_identity
    by (fastforce simp: apply_event_def apply_step_dispatched_def res_bind_Inr_iff get_or_Inr_iff
        map_err_Inr_iff insert_handoff_def insert_task_def split: if_splits)
qed (use assms(2,3) in \<open>simp_all add: apply_event_def floors_config_runs agent_chat_runs
    task_routine_runs canvas_runs [OF assms(1)]\<close>)

definition occurrences_unique :: "(routine_run_id, routine_run) bmap \<Rightarrow> bool" where
  "occurrences_unique runs \<longleftrightarrow>
     (\<forall>k k' r r' t occ. bm_get runs k = Some r \<and> bm_get runs k' = Some r' \<and>
        run_trigger r = Some t \<and> run_trigger r' = Some t \<and>
        run_occurrence r = Some occ \<and> run_occurrence r' = Some occ \<longrightarrow> k = k')"

lemma started_occurrence_fresh:
  assumes "apply_run_started w run firing next_at = Inr w'"
    and "run_trigger run = Some t" and "run_occurrence run = Some occ"
    and "bm_get (w_runs w) k = Some r" and "run_trigger r = Some t"
  shows "run_occurrence r \<noteq> Some occ"
proof
  assume occ: "run_occurrence r = Some occ"
  have "r \<in> set (bm_values (w_runs w))" using assms(4) by (auto simp: set_bm_values)
  then have "routine_occurrence_consumed w t occ"
    using assms(5) occ by (auto simp: routine_occurrence_consumed_def list_ex_iff)
  with assms(1-3) show False
    by (auto simp: apply_run_started_def consume_occurrence_def result_iff split: if_splits option.splits)
qed

lemma occurrences_unique_step:
  assumes inv: "ws_inv w" and old: "occurrences_unique (w_runs w)" and step: "apply_event w e = Inr w'"
  shows "occurrences_unique (w_runs w')"
  unfolding occurrences_unique_def
proof (intro allI impI)
  fix k k' r r' t occ
  assume a: "bm_get (w_runs w') k = Some r \<and> bm_get (w_runs w') k' = Some r' \<and>
        run_trigger r = Some t \<and> run_trigger r' = Some t \<and>
        run_occurrence r = Some occ \<and> run_occurrence r' = Some occ"
  have was: "(\<exists>q. bm_get (w_runs w) j = Some q \<and> run_trigger q = Some t \<and> run_occurrence q = Some occ) \<or>
      (\<exists>firing next_at. e = EV_RoutineRunStarted x firing next_at \<and> j = run_id x \<and>
         apply_run_started w x firing next_at = Inr w')"
    if "bm_get (w_runs w') j = Some x" "run_trigger x = Some t" "run_occurrence x = Some occ" for j x
    using runs_from [OF inv step that(1)] that(2,3) run_identityD(4,5) by metis
  from a was [of k r] was [of k' r'] show "k = k'"
    using old started_occurrence_fresh unfolding occurrences_unique_def
    by (metis domain_event.inject(37))
qed

definition started_occurrences :: "workspace \<Rightarrow> (routine_trigger_id \<times> routine_occurrence_key) list" where
  "started_occurrences w =
     List.map_filter (\<lambda>r. case run_trigger r of
         None \<Rightarrow> None
       | Some t \<Rightarrow> map_option (Pair t) (run_occurrence r)) (bm_values (w_runs w))"

lemma distinct_map_filter:
  assumes "distinct ks" and "\<And>k k' v. k \<in> set ks \<Longrightarrow> k' \<in> set ks \<Longrightarrow> f k = Some v \<Longrightarrow> f k' = Some v \<Longrightarrow> k = k'"
  shows "distinct (List.map_filter f ks)"
  using assms
proof (induction ks)
  case (Cons k ks)
  have "distinct (List.map_filter f ks)" by (rule Cons.IH) (use Cons.prems in auto)
  moreover have "v \<notin> set (List.map_filter f ks)" if "f k = Some v" for v
  proof
    assume "v \<in> set (List.map_filter f ks)"
    then obtain k' where "k' \<in> set ks" "f k' = Some v" by (force simp: List.map_filter_def)
    with that Cons.prems(1) Cons.prems(2) [of k k' v] show False by auto
  qed
  ultimately show ?case by (auto simp: List.map_filter_simps split: option.split)
qed (simp add: List.map_filter_simps)

text \<open>C16: An occurrence of a trigger starts at most one run: over all runs of a workspace no pair of a
  trigger and an occurrence appears twice, in whatever order triggers fire and the program
  restarts.\<close>

lemma occurrence_starts_one_run:
  assumes "reachable w"
  shows "distinct (started_occurrences w)"
proof -
  have unique: "occurrences_unique (w_runs w)" using assms
  proof (induction rule: reachable.induct)
    case (reachable_new wid nm)
    then show ?case by (simp add: occurrences_unique_def workspace_new_def)
  next
    case (reachable_execute w c w' e)
    then show ?case using occurrences_unique_step [OF reachable_inv] execute_applies by blast
  qed
  let ?f = "\<lambda>r. case run_trigger r of None \<Rightarrow> None | Some t \<Rightarrow> map_option (Pair t) (run_occurrence r)"
  have "distinct (List.map_filter (\<lambda>k. ?f (the (bm_get (w_runs w) k))) (bm_keys (w_runs w)))"
  proof (rule distinct_map_filter)
    fix k k' v
    assume "k \<in> set (bm_keys (w_runs w))" "k' \<in> set (bm_keys (w_runs w))"
      "?f (the (bm_get (w_runs w) k)) = Some v" "?f (the (bm_get (w_runs w) k')) = Some v"
    then obtain r r' t occ where "bm_get (w_runs w) k = Some r" "bm_get (w_runs w) k' = Some r'"
      "run_trigger r = Some t" "run_trigger r' = Some t" "run_occurrence r = Some occ" "run_occurrence r' = Some occ"
      by (auto simp: set_bm_keys bm_contains_iff split: option.splits)
    then show "k = k'" using unique unfolding occurrences_unique_def by blast
  qed simp
  then show ?thesis
    by (simp add: started_occurrences_def bm_values_keys List.map_filter_def filter_map comp_def)
qed

lemma occurrence_starts_one_run_witness:
  "distinct (started_occurrences sample_workspace) \<and>
   (Id 8, Key ''tick-1'') \<in> set (started_occurrences sample_workspace)"
proof -
  have "bm_get (w_runs sample_workspace) (Id 30) = Some sample_dispatched"
    by (simp add: sample_workspace_def insert_handoff_def insert_task_def)
  then have "sample_dispatched \<in> set (bm_values (w_runs sample_workspace))" by (auto simp: set_bm_values)
  moreover have "run_trigger sample_dispatched = Some (Id 8)"
    "run_occurrence sample_dispatched = Some (Key ''tick-1'')"
    by (simp_all add: sample_dispatched_def put_step_def)
  ultimately have "(Id 8, Key ''tick-1'') \<in> set (started_occurrences sample_workspace)"
    by (force simp: started_occurrences_def List.map_filter_def)
  with occurrence_starts_one_run [OF sample_reachable] show ?thesis by blast
qed

end
