(* ===== verification/Canvas_Replace.thy ===== *)
theory Canvas_Replace
  imports Workspace_Safe
begin

text \<open>
  Replacing the visible canvas: what the workspace shows after the event is exactly the layout the
  event carries, and what it does not show stays. Agents that were ever placed stay on the canvas or
  are archived.
\<close>

section \<open>Sorted layouts\<close>

lemma bm_values_index:
  assumes "distinct (map f xs)"
  shows "bm_values (bm_of_list (map (\<lambda>x. (f x, x)) xs)) = sort_key f xs"
proof -
  let ?m = "bm_of_list (map (\<lambda>x. (f x, x)) xs)"
  have key: "f v = k" if "(k, v) \<in> set (entries ?m)" for k v
    using that index_get [OF assms] by (auto simp flip: bm_get_Some_iff)
  then have "map f (bm_values ?m) = bm_keys ?m" by (auto simp: bm_values_def bm_keys_def)
  moreover have "inj_on f (set xs)" using assms by (simp add: distinct_map)
  moreover have "set (bm_values ?m) = set xs" using index_get [OF assms] by (auto simp: set_bm_values)
  moreover have "distinct (map f (sort_key f xs))"
    using assms by (simp add: distinct_map)
  moreover have "sorted (bm_keys ?m)" using sorted_bm_keys [of ?m] by (simp add: strict_sorted_iff)
  ultimately show ?thesis by (intro map_sorted_distinct_set_unique) simp_all
qed

lemma sort_key_sort [simp]: "sort_key f (sort_key f xs) = sort_key f xs"
  by (simp add: sort_key_id_if_sorted)

lemma sort_key_filter_sort: "sort_key f (filter P (sort_key f xs)) = sort_key f (filter P xs)"
  by (simp add: filter_sort [symmetric])

lemma all_visible_eq:
  assumes "\<And>x. x \<in> set xs \<Longrightarrow> \<not> P x" and "\<And>y. y \<in> set ys \<Longrightarrow> P y"
  shows "filter P (xs @ ys) = ys"
  using assms by (simp add: filter_empty_conv)

section \<open>What is visible before and after\<close>

abbreviation node_ids :: "canvas_layout \<Rightarrow> node_id set" where
  "node_ids l \<equiv> node_ident ` set (cl_nodes l)"

lemma node_eq_idents: "list_all2 node_eq xs ys \<Longrightarrow> map node_ident xs = map node_ident ys"
  by (induction rule: list_all2_induct) (auto simp: node_eq_def)

lemma visible_parts:
  assumes "canvas_layout_eq (canvas_layout w) before"
  shows "node_ids before =
      {node_ident n | n. n \<in> set (bm_values (w_nodes w)) \<and> contains_node (w_floors w) (node_ident n)}"
    and "set (cl_groups before) = {g \<in> set (bm_values (w_groups w)).
      \<forall>m. bm_contains (grp_members g) m \<longrightarrow> contains_node (w_floors w) m}"
    and "set (cl_connections before) = {c \<in> set (bm_values (w_connections w)).
      contains_node (w_floors w) (con_source c) \<and> contains_node (w_floors w) (con_target c)}"
proof -
  have "map node_ident (cl_nodes (canvas_layout w)) = map node_ident (cl_nodes before)"
    and same: "cl_groups (canvas_layout w) = cl_groups before"
      "cl_connections (canvas_layout w) = cl_connections before"
    using assms node_eq_idents by (simp_all add: canvas_layout_eq_def)
  then have "node_ids before = node_ids (canvas_layout w)" by (metis list.set_map)
  then show "node_ids before =
      {node_ident n | n. n \<in> set (bm_values (w_nodes w)) \<and> contains_node (w_floors w) (node_ident n)}"
    by (auto simp: canvas_layout_def canvas_layout_new_def Let_def)
  show "set (cl_groups before) = {g \<in> set (bm_values (w_groups w)).
      \<forall>m. bm_contains (grp_members g) m \<longrightarrow> contains_node (w_floors w) m}"
    unfolding same [symmetric]
    by (auto simp: canvas_layout_def canvas_layout_new_def Let_def list_all_iff bs_elems_def)
  show "set (cl_connections before) = {c \<in> set (bm_values (w_connections w)).
      contains_node (w_floors w) (con_source c) \<and> contains_node (w_floors w) (con_target c)}"
    unfolding same [symmetric] by (auto simp: canvas_layout_def canvas_layout_new_def Let_def)
qed

lemma replaced_parts:
  assumes inv: "ws_inv w" and w': "apply_canvas_replaced w before after = Inr w'"
  shows "w_nodes w' = node_index (cl_nodes (combine_layouts (all_canvas_layout w) before after))"
    and "w_groups w' = bm_of_list (map (\<lambda>g. (grp_ident g, g))
      (cl_groups (combine_layouts (all_canvas_layout w) before after)))"
    and "w_connections w' = bm_of_list (map (\<lambda>c. (con_ident c, c))
      (cl_connections (combine_layouts (all_canvas_layout w) before after)))"
    and "w_floors w' = move_nodes before after (w_floors w)"
proof -
  let ?l = "combine_layouts (all_canvas_layout w) before after"
  let ?v = "(install_layout ?l w)\<lparr>w_floors := move_nodes before after (w_floors w)\<rparr>"
  have r: "w' = restore_placed_agents (archive_unplaced_agents (shown_agents (cl_nodes before)) ?v)"
    using w' by (auto simp: apply_canvas_replaced_def result_iff Let_def split: if_splits)
  have "agents_apart ?v" using agents_apart_iff [OF ws_invD(2) [OF inv]] by (simp add: agents_apart_def)
  note u = archive_unplaced_relocated [OF this]
  note frame = relocated_frame [OF relocated_trans [OF u restore_placed_relocated [OF relocated_apart [OF u]]]]
  show "w_nodes w' = node_index (cl_nodes ?l)"
    "w_groups w' = bm_of_list (map (\<lambda>g. (grp_ident g, g)) (cl_groups ?l))"
    "w_connections w' = bm_of_list (map (\<lambda>c. (con_ident c, c)) (cl_connections ?l))"
    "w_floors w' = move_nodes before after (w_floors w)"
    unfolding r frame(10-13) by simp_all
qed

text \<open>
  The nodes that stay are hidden, before and after; the ones the event carries are shown.
\<close>

lemma replaced_visible:
  assumes inv: "ws_inv w" and eq: "canvas_layout_eq (canvas_layout w) before"
    and f': "f' = move_nodes before after (w_floors w)"
    and apart: "\<forall>k. bm_contains (w_nodes w) k \<and> k \<notin> node_ids before \<longrightarrow> k \<notin> node_ids after"
  shows "bm_contains (w_nodes w) k \<Longrightarrow> contains_node (w_floors w) k \<longleftrightarrow> k \<in> node_ids before"
    and "k \<in> node_ids after \<Longrightarrow> contains_node f' k"
    and "bm_contains (w_nodes w) k \<Longrightarrow> k \<notin> node_ids before \<Longrightarrow> \<not> contains_node f' k"
proof -
  have "node_map.keyed (w_nodes w)" using ws_invD(6) [OF inv] by (simp add: canvas_ok_def)
  then have known: "contains_node (w_floors w) k \<longleftrightarrow> k \<in> node_ids before" if "bm_contains (w_nodes w) k" for k
    using that unfolding visible_parts(1) [OF eq]
    by (auto simp: set_bm_values bm_contains_iff node_map.keyed_def)
  then show "bm_contains (w_nodes w) k \<Longrightarrow> contains_node (w_floors w) k \<longleftrightarrow> k \<in> node_ids before" .
  have placed: "bm_contains (w_nodes w) k" if "bm_get (fs_node_floors (w_floors w)) k = Some i" for i
    using ws_invD(8) [OF inv] that by (auto simp: floors_ok_def)
  show "contains_node f' k" if "k \<in> node_ids after"
    using that f' apart placed
    by (cases "bm_get (fs_node_floors (w_floors w)) k")
      (auto simp: contains_node_def move_nodes_get)
  show "\<not> contains_node f' k" if "bm_contains (w_nodes w) k" "k \<notin> node_ids before"
    using that known [OF that(1)] apart f' by (auto simp: contains_node_def move_nodes_get)
qed

section \<open>Reading the canvas back\<close>

lemma sorted_layout_parts [simp]:
  "cl_nodes (canvas_layout_new ns gs cs) = sort_key node_ident ns"
  "cl_groups (canvas_layout_new ns gs cs) = sort_key grp_ident gs"
  "cl_connections (canvas_layout_new ns gs cs) = sort_key con_ident cs"
  by (simp_all add: canvas_layout_new_def)

lemma distinct_sort_key: "distinct (map f (sort_key f xs)) \<longleftrightarrow> distinct (map f xs)"
  by (simp add: distinct_map)

lemma filter_sort_key_id:
  assumes "\<And>x. x \<in> set xs \<Longrightarrow> \<not> P x" and "\<And>y. y \<in> set ys \<Longrightarrow> P y"
  shows "sort_key f (filter P (sort_key f (xs @ ys))) = sort_key f ys"
  using all_visible_eq [of xs P ys] assms by (simp add: sort_key_filter_sort)

lemma canvas_replaced_layout:
  assumes inv: "ws_inv w" and w': "apply_canvas_replaced w before after = Inr w'"
  shows "canvas_layout w' = canvas_layout_new (cl_nodes after) (cl_groups after) (cl_connections after)"
    and "bm_get (w_nodes w) k = Some n \<Longrightarrow> \<not> contains_node (w_floors w) k \<Longrightarrow>
      bm_get (w_nodes w') k = Some n"
proof -
  let ?l = "combine_layouts (all_canvas_layout w) before after"
  let ?seen = "contains_node (w_floors w')"
  let ?hn = "filter (\<lambda>n. node_ident n \<notin> node_ids before) (sort_key node_ident (bm_values (w_nodes w)))"
  let ?hg = "filter (\<lambda>g. grp_ident g \<notin> grp_ident ` set (cl_groups before))
    (sort_key grp_ident (bm_values (w_groups w)))"
  let ?hc = "filter (\<lambda>c. con_ident c \<notin> con_ident ` set (cl_connections before))
    (sort_key con_ident (bm_values (w_connections w)))"
  have eq: "canvas_layout_eq (canvas_layout w) before" and after: "validate_canvas w after = Inr ()"
    and valid: "validate_canvas w ?l = Inr ()"
    using w' by (auto simp: apply_canvas_replaced_def result_iff Let_def split: if_splits)
  have comb: "cl_nodes ?l = sort_key node_ident (?hn @ cl_nodes after)"
    "cl_groups ?l = sort_key grp_ident (?hg @ cl_groups after)"
    "cl_connections ?l = sort_key con_ident (?hc @ cl_connections after)"
    by (simp_all add: combine_layouts_def all_canvas_layout_def Let_def)
  have lok: "layout_ok (\<lambda>t. contains w (target_ref t)) ?l" using valid by (simp add: validate_canvas_iff)
  then have distinct: "distinct (map node_ident (?hn @ cl_nodes after))"
    "distinct (map grp_ident (?hg @ cl_groups after))" "distinct (map con_ident (?hc @ cl_connections after))"
    unfolding layout_ok_def comb distinct_sort_key by blast+
  have aok: "layout_ok (\<lambda>t. contains w (target_ref t)) after" using after by (simp add: validate_canvas_iff)
  have canvas: "canvas_ok (known_target (known_agent w) (bm_contains (w_tasks w)) (bm_contains (w_handoffs w)))
      (w_nodes w) (w_groups w) (w_connections w)" by (rule ws_invD(6) [OF inv])
  have ident: "node_ident n = k" if "bm_get (w_nodes w) k = Some n" for k n
    using that canvas by (simp add: canvas_ok_def node_map.keyed_def)
  have "k \<notin> node_ids after" if kept: "bm_contains (w_nodes w) k" "k \<notin> node_ids before" for k
  proof
    assume k: "k \<in> node_ids after"
    obtain n where "bm_get (w_nodes w) k = Some n" "node_ident n = k"
      using kept(1) ident unfolding bm_contains_iff by blast
    then have "n \<in> set ?hn" using kept(2) by (auto simp: set_bm_values)
    then have "k \<in> node_ident ` set ?hn" using \<open>node_ident n = k\<close> by blast
    with k distinct(1) show False by (simp only: map_append distinct_append set_map) blast
  qed
  then have apart: "\<forall>k. bm_contains (w_nodes w) k \<and> k \<notin> node_ids before \<longrightarrow> k \<notin> node_ids after" by blast
  note parts = replaced_parts [OF inv w', unfolded comb]
  note inorder = bm_values_index [of node_ident "sort_key node_ident (?hn @ cl_nodes after)", unfolded distinct_sort_key, OF distinct(1)]
    bm_values_index [of grp_ident "sort_key grp_ident (?hg @ cl_groups after)", unfolded distinct_sort_key, OF distinct(2)]
    bm_values_index [of con_ident "sort_key con_ident (?hc @ cl_connections after)", unfolded distinct_sort_key, OF distinct(3)]
  note seen = replaced_visible [OF inv eq parts(4) apart]
  have hidden: "\<not> ?seen k" if "bm_contains (w_nodes w) k" "\<not> contains_node (w_floors w) k" for k
    using seen(1,3) that by blast
  have nodes: "cl_nodes (canvas_layout w') = sort_key node_ident (cl_nodes after)"
  proof -
    have "\<not> ?seen (node_ident n)" if "n \<in> set ?hn" for n
    proof -
      have "bm_contains (w_nodes w) (node_ident n)" "node_ident n \<notin> node_ids before"
        using that ident by (auto simp: set_bm_values bm_contains_iff)
      then show ?thesis by (rule seen(3))
    qed
    moreover have "?seen (node_ident n)" if "n \<in> set (cl_nodes after)" for n
      by (rule seen(2)) (use that in blast)
    ultimately show ?thesis
      using filter_sort_key_id [of ?hn "\<lambda>n. ?seen (node_ident n)" "cl_nodes after" node_ident] inorder(1)
      by (simp add: canvas_layout_def Let_def parts(1) node_index_def)
  qed
  have groups: "cl_groups (canvas_layout w') = sort_key grp_ident (cl_groups after)"
  proof -
    let ?P = "\<lambda>g. list_all ?seen (bm_keys (grp_members g))"
    have "\<not> ?P g" if g: "g \<in> set ?hg" for g
    proof -
      have "g \<notin> set (cl_groups before)" "g \<in> set (bm_values (w_groups w))" using g by auto
      then obtain m where m: "bm_contains (grp_members g) m" "\<not> contains_node (w_floors w) m"
        using visible_parts(2) [OF eq] by blast
      have "group_ok (w_nodes w) g"
        using canvas \<open>g \<in> set (bm_values _)\<close> by (auto simp: canvas_ok_def set_bm_values)
      then have "bm_contains (w_nodes w) m" using m(1) by (auto simp: group_ok_def bs_elems_def)
      with m hidden show ?thesis by (auto simp: list_all_iff bs_elems_def)
    qed
    moreover have "?P g" if "g \<in> set (cl_groups after)" for g
    proof -
      have "bs_elems (grp_members g) \<subseteq> node_ids after" using that aok by (simp add: layout_ok_def)
      then show ?thesis using seen(2) by (simp add: list_all_iff subset_iff)
    qed
    ultimately show ?thesis
      using filter_sort_key_id [of ?hg ?P "cl_groups after" grp_ident] inorder(2)
      by (simp add: canvas_layout_def Let_def parts(2))
  qed
  have connections: "cl_connections (canvas_layout w') = sort_key con_ident (cl_connections after)"
  proof -
    let ?P = "\<lambda>c. ?seen (con_source c) \<and> ?seen (con_target c)"
    have "\<not> ?P c" if c: "c \<in> set ?hc" for c
    proof -
      have c: "c \<notin> set (cl_connections before)" "c \<in> set (bm_values (w_connections w))" using c by auto
      then have "connection_ok (w_nodes w) c" using canvas by (auto simp: canvas_ok_def set_bm_values)
      then have "bm_contains (w_nodes w) (con_source c)" "bm_contains (w_nodes w) (con_target c)"
        by (auto simp: connection_ok_def bm_contains_iff)
      with c hidden show ?thesis using visible_parts(3) [OF eq] by blast
    qed
    moreover have "?P c" if "c \<in> set (cl_connections after)" for c
    proof -
      have "connection_ok (node_index (cl_nodes after)) c" using that aok by (simp add: layout_ok_def)
      then have "con_source c \<in> node_ids after" "con_target c \<in> node_ids after"
        using index_contains [of node_ident "cl_nodes after"]
        by (auto simp: connection_ok_def node_index_def bm_contains_iff)
      then show ?thesis by (simp add: seen(2))
    qed
    ultimately show ?thesis
      using filter_sort_key_id [of ?hc ?P "cl_connections after" con_ident] inorder(3)
      by (simp add: canvas_layout_def Let_def parts(3))
  qed
  from nodes groups connections
  show "canvas_layout w' = canvas_layout_new (cl_nodes after) (cl_groups after) (cl_connections after)"
    by simp
  show "bm_get (w_nodes w') k = Some n" if "bm_get (w_nodes w) k = Some n" "\<not> contains_node (w_floors w) k"
  proof -
    have k: "node_ident n = k" using ident that(1) by blast
    have "k \<notin> node_ids before" using seen(1) [of k] that by (auto simp: bm_contains_iff)
    with that(1) k have "n \<in> set (sort_key node_ident (?hn @ cl_nodes after))" by (auto simp: set_bm_values)
    moreover have "distinct (map node_ident (sort_key node_ident (?hn @ cl_nodes after)))"
      using distinct(1) by (simp only: distinct_sort_key)
    ultimately show ?thesis using k unfolding parts(1) node_index_def by (simp only: index_get)
  qed
qed

text \<open>C37: The three loops of the canvas check accept exactly the well-formed layouts: ids of nodes, groups
  and connections are unique, targets exist, groups have two members or more and share none, and a
  connection joins two different nodes of the layout, with the kind their contents imply, and no
  other connection joins them that way.\<close>

lemma canvas_check_exact: "validate_canvas w l = Inr () \<longleftrightarrow> layout_ok (\<lambda>t. contains w (target_ref t)) l"
  by (rule validate_canvas_iff)

text \<open>C24: Saving the canvas and reading it back gives what was saved: after the visible layout of a workspace
  is replaced, the visible layout is the given one in the order of its ids, and every node of
  another floor is still there unchanged.\<close>

lemma canvas_reads_back:
  assumes "reachable w" and "execute w (DC_ReplaceCanvas before after) = Inr (w', e)"
  shows "canvas_layout w' = canvas_layout_new (cl_nodes after) (cl_groups after) (cl_connections after) \<and>
    (\<forall>k n. bm_get (w_nodes w) k = Some n \<and> \<not> contains_node (w_floors w) k \<longrightarrow>
       bm_get (w_nodes w') k = Some n)"
proof -
  have "apply_canvas_replaced w before after = Inr w'"
    using assms(2) by (auto simp: execute_def decide_def apply_event_def res_bind_Inr_iff)
  from canvas_replaced_layout [OF reachable_inv [OF assms(1)] this] show ?thesis by blast
qed

definition sample_text_node :: "node_id \<Rightarrow> string \<Rightarrow> node" where
  "sample_text_node k t = node_with_content k (CC_Text (CanvasText t))
     \<lparr>point_x = F32 0, point_y = F32 0\<rparr> \<lparr>size_width = F32 1065353216, size_height = F32 1065353216\<rparr>"

definition sample_layout :: canvas_layout where
  "sample_layout =
     \<lparr>cl_nodes = [sample_text_node (Id 2) ''b'', sample_text_node (Id 1) ''a''],
      cl_groups = [node_group_new (Id 7) [Id 1, Id 2]],
      cl_connections = [\<lparr>con_ident = Id 9, con_source = Id 1, con_target = Id 2, con_kind = CK_Reference\<rparr>]\<rparr>"

lemma canvas_reads_back_witness:
  "\<exists>w'. execute (workspace_new (Id 1) (Name ''Demo''))
      (DC_ReplaceCanvas (canvas_layout_new [] [] []) sample_layout) =
      Inr (w', EV_CanvasReplaced (canvas_layout_new [] [] []) sample_layout) \<and>
    cl_nodes (canvas_layout w') = [sample_text_node (Id 1) ''a'', sample_text_node (Id 2) ''b'']"
proof -
  let ?w = "workspace_new (Id 1) (Name ''Demo'')" and ?l = "canvas_layout_new [] [] []"
  let ?new = "canvas_layout_new (cl_nodes sample_layout) (cl_groups sample_layout) (cl_connections sample_layout)"
  let ?v = "(install_layout ?new ?w)\<lparr>w_floors := move_nodes ?l sample_layout (w_floors ?w)\<rparr>"
  let ?w' = "restore_placed_agents (archive_unplaced_agents (shown_agents (cl_nodes ?l)) ?v)"
  have nodes: "cl_nodes ?new = [sample_text_node (Id 1) ''a'', sample_text_node (Id 2) ''b'']"
    by (simp add: sample_layout_def sample_text_node_def node_with_content_def word_le_nat_alt)
  have "layout_ok (\<lambda>t. contains ?w (target_ref t)) l" if "l = sample_layout \<or> l = ?new" for l
    using that
    by (auto simp: layout_ok_def sample_layout_def sample_text_node_def node_with_content_def
        node_reference_def content_reference_def node_group_new_def connection_ok_def node_index_def
        bm_of_list_def kind_between_content_def bm_len_bs word_le_nat_alt)
  then have ok: "validate_canvas ?w sample_layout = Inr ()" "validate_canvas ?w ?new = Inr ()"
    by (simp_all add: validate_canvas_iff)
  have "canvas_layout ?w = ?l" "all_canvas_layout ?w = ?l"
    by (simp_all add: canvas_layout_def all_canvas_layout_def workspace_new_def bm_values_def)
  moreover from this have "canvas_layout_eq (canvas_layout ?w) ?l"
    by (simp add: canvas_layout_eq_def)
  moreover have "combine_layouts ?l ?l sample_layout = ?new" by (simp add: combine_layouts_def)
  ultimately have "apply_canvas_replaced ?w ?l sample_layout = Inr ?w'"
    using ok by (simp add: apply_canvas_replaced_def ensure_def)
  then have exec: "execute ?w (DC_ReplaceCanvas ?l sample_layout) = Inr (?w', EV_CanvasReplaced ?l sample_layout)"
    by (simp add: execute_def decide_def apply_event_def)
  from canvas_reads_back [OF reachable_new exec] have "cl_nodes (canvas_layout ?w') = cl_nodes ?new"
    by simp
  with exec nodes show ?thesis by auto
qed

section \<open>Agents on the canvas\<close>

text \<open>
  Opening the database archives the agents that earlier events placed and that nothing shows any
  more. Commands leave no such agent: an agent that was ever placed is archived when its last node
  goes and comes back with the next one.
\<close>

definition on_canvas :: "workspace \<Rightarrow> agent_id \<Rightarrow> bool" where
  "on_canvas w a \<longleftrightarrow> (\<exists>n\<in>set (bm_values (w_nodes w)). node_reference n = Some (NT_Agent a))"

definition settled_agent :: "workspace \<Rightarrow> agent_id \<Rightarrow> bool" where
  "settled_agent w a \<longleftrightarrow> known_agent w a \<and> (bm_contains (w_agents w) a \<longrightarrow> on_canvas w a)"

lemma on_canvas_shown: "on_canvas w a \<longleftrightarrow> a \<in> set (shown_agents (bm_values (w_nodes w)))"
  by (auto simp: on_canvas_def set_shown_agents)

lemma on_canvas_iff: "on_canvas w a \<longleftrightarrow>
    (\<exists>k n. bm_get (w_nodes w) k = Some n \<and> node_reference n = Some (NT_Agent a))"
  unfolding on_canvas_def Bex_def set_bm_values by blast

lemma on_canvas_insert:
  assumes "on_canvas w a" and "\<not> bm_contains (w_nodes w) (node_ident n)"
    and "w_nodes w' = bm_insert (node_ident n) n (w_nodes w)"
  shows "on_canvas w' a"
proof -
  from assms(1) obtain k m where m: "bm_get (w_nodes w) k = Some m" "node_reference m = Some (NT_Agent a)"
    unfolding on_canvas_iff by blast
  then have "bm_get (w_nodes w') k = Some m" using assms(2,3) by (auto simp: bm_contains_def)
  with m(2) show ?thesis unfolding on_canvas_iff by blast
qed

lemma on_canvas_known:
  assumes "ws_inv w" and "on_canvas w a"
  shows "known_agent w a"
proof -
  from assms(2) obtain k n where "bm_get (w_nodes w) k = Some n" "node_reference n = Some (NT_Agent a)"
    unfolding on_canvas_iff by blast
  then have "known_target (known_agent w) (bm_contains (w_tasks w)) (bm_contains (w_handoffs w)) (NT_Agent a)"
    using ws_invD(6) [OF assms(1)] unfolding canvas_ok_def by blast
  then show ?thesis by simp
qed

lemma archive_agent_active:
  "bm_contains (w_agents (archive_agent a w)) b \<longleftrightarrow>
     bm_contains (w_agents w) b \<and> (b = a \<longrightarrow> on_canvas w a)"
  by (auto simp: archive_agent_def on_canvas_def list_ex_iff bm_contains_def split: option.split)

lemma archive_agent_nodes: "w_nodes (archive_agent a w) = w_nodes w"
  by (simp add: archive_agent_def split: option.split)

lemma archive_unplaced_active:
  "bm_contains (w_agents (archive_unplaced_agents as w)) b \<longleftrightarrow>
     bm_contains (w_agents w) b \<and> (b \<in> set as \<longrightarrow> on_canvas w b)"
proof -
  have same: "on_canvas (archive_agent a w) = on_canvas w" for a w
    by (simp add: on_canvas_def archive_agent_nodes fun_eq_iff)
  show ?thesis
    unfolding archive_unplaced_agents_def
    by (induction as arbitrary: w) (auto simp: archive_agent_active same)
qed

lemma archive_unplaced_none:
  assumes "\<And>a. a \<in> set as \<Longrightarrow> bm_contains (w_agents w) a \<Longrightarrow> on_canvas w a"
  shows "archive_unplaced_agents as w = w"
proof -
  have "archive_agent a w = w" if "bm_contains (w_agents w) a \<longrightarrow> on_canvas w a" for a
    using that by (auto simp: archive_agent_def on_canvas_def list_ex_iff bm_contains_def split: option.split)
  then have "archive_agent a w = w" if "a \<in> set as" for a using assms that by blast
  then show ?thesis unfolding archive_unplaced_agents_def by (induction as) simp_all
qed

lemma restore_agent_active:
  "bm_contains (w_agents (restore_agent a w)) b \<Longrightarrow> bm_contains (w_agents w) b \<or> b = a"
  by (auto simp: restore_agent_def bm_contains_def split: option.splits if_splits)

lemma restore_placed_active:
  "bm_contains (w_agents (restore_placed_agents w)) b \<Longrightarrow> bm_contains (w_agents w) b \<or> on_canvas w b"
proof -
  have "bm_contains (w_agents (fold restore_agent as u)) b \<Longrightarrow> bm_contains (w_agents u) b \<or> b \<in> set as" for as u
    using restore_agent_active by (induction as arbitrary: u) fastforce+
  then show "bm_contains (w_agents (restore_placed_agents w)) b \<Longrightarrow> bm_contains (w_agents w) b \<or> on_canvas w b"
    by (simp add: restore_placed_agents_def on_canvas_shown)
qed

lemma visible_references:
  assumes "canvas_layout_eq (canvas_layout w) before"
  shows "a \<in> set (shown_agents (cl_nodes before)) \<longleftrightarrow>
    (\<exists>n\<in>set (bm_values (w_nodes w)). contains_node (w_floors w) (node_ident n) \<and>
       node_reference n = Some (NT_Agent a))"
proof -
  have refs: "list_all2 node_eq xs ys \<Longrightarrow> node_reference ` set xs = node_reference ` set ys" for xs ys
    by (induction rule: list_all2_induct) (auto simp: node_eq_def node_reference_def)
  have "node_reference ` set (cl_nodes (canvas_layout w)) = node_reference ` set (cl_nodes before)"
    by (rule refs) (use assms in \<open>simp add: canvas_layout_eq_def\<close>)
  moreover have "a \<in> set (shown_agents ns) \<longleftrightarrow> Some (NT_Agent a) \<in> node_reference ` set ns" for ns
    by (force simp: set_shown_agents)
  ultimately have "a \<in> set (shown_agents (cl_nodes before)) \<longleftrightarrow>
      Some (NT_Agent a) \<in> node_reference ` set (cl_nodes (canvas_layout w))" by simp
  then show ?thesis by (force simp: canvas_layout_def Let_def)
qed

lemma canvas_replaced_active:
  assumes inv: "ws_inv w" and w': "apply_canvas_replaced w before after = Inr w'"
    and active: "bm_contains (w_agents w') a" and off: "\<not> on_canvas w' a"
  shows "bm_contains (w_agents w) a" and "\<not> on_canvas w a"
proof -
  let ?l = "combine_layouts (all_canvas_layout w) before after"
  let ?v = "(install_layout ?l w)\<lparr>w_floors := move_nodes before after (w_floors w)\<rparr>"
  let ?u = "archive_unplaced_agents (shown_agents (cl_nodes before)) ?v"
  have eq: "canvas_layout_eq (canvas_layout w) before" and r: "w' = restore_placed_agents ?u"
    using w' by (auto simp: apply_canvas_replaced_def result_iff Let_def split: if_splits)
  have "agents_apart ?v" using agents_apart_iff [OF ws_invD(2) [OF inv]] by (simp add: agents_apart_def)
  note u = archive_unplaced_relocated [OF this]
  have nodes: "w_nodes w' = w_nodes ?u" "w_nodes ?u = w_nodes ?v"
    unfolding r using relocated_frame(10) [OF restore_placed_relocated [OF relocated_apart [OF u]]]
      relocated_frame(10) [OF u] by simp_all
  have same: "on_canvas ?u a = on_canvas w' a" "on_canvas ?v a = on_canvas w' a"
    unfolding on_canvas_def nodes by (rule refl)+
  have "bm_contains (w_agents ?u) a" using restore_placed_active [of ?u a] active off same(1) r by simp
  then have left: "bm_contains (w_agents ?v) a" "a \<notin> set (shown_agents (cl_nodes before))"
    using off same(2) unfolding archive_unplaced_active by blast+
  then show "bm_contains (w_agents w) a" by simp
  show "\<not> on_canvas w a"
  proof
    assume "on_canvas w a"
    then obtain k n where n: "bm_get (w_nodes w) k = Some n" "node_reference n = Some (NT_Agent a)"
      by (auto simp: on_canvas_def set_bm_values)
    have "node_ident n = k" using ws_invD(6) [OF inv] n(1) by (simp add: canvas_ok_def node_map.keyed_def)
    moreover have "n \<in> set (bm_values (w_nodes w))" using n(1) by (auto simp: set_bm_values)
    ultimately have "\<not> contains_node (w_floors w) k"
      using left(2) n(2) unfolding visible_references [OF eq] by blast
    from canvas_replaced_layout(2) [OF inv w' n(1) this] n(2) off show False
      by (auto simp: on_canvas_def set_bm_values)
  qed
qed

lemma canvas_replaced_settles:
  assumes inv: "ws_inv w" and w': "apply_canvas_replaced w before after = Inr w'"
    and a: "a \<in> set (shown_agents (cl_nodes before @ cl_nodes after))"
  shows "settled_agent w' a"
proof -
  have inv': "ws_inv w'" by (rule apply_canvas_replaced_inv [OF inv w'])
  have eq: "canvas_layout_eq (canvas_layout w) before"
    using w' by (auto simp: apply_canvas_replaced_def result_iff Let_def split: if_splits)
  have known: "known_agent w a \<Longrightarrow> known_agent w' a"
    using canvas_events_later(3) [OF inv w'] by (auto simp: later_def known_agent_recorded)
  have "a \<in> set (shown_agents (cl_nodes before)) \<or> a \<in> set (shown_agents (cl_nodes after))"
    using a by (auto simp: set_shown_agents)
  then consider "on_canvas w a" | "on_canvas w' a"
  proof
    assume "a \<in> set (shown_agents (cl_nodes before))"
    then show ?thesis using that(1) unfolding visible_references [OF eq] by (auto simp: on_canvas_def)
  next
    assume "a \<in> set (shown_agents (cl_nodes after))"
    then obtain n where n: "n \<in> set (cl_nodes after)" "node_reference n = Some (NT_Agent a)"
      by (auto simp: set_shown_agents)
    then have "n \<in> set (cl_nodes (canvas_layout w'))" by (simp add: canvas_replaced_layout(1) [OF inv w'])
    then have "n \<in> set (bm_values (w_nodes w'))" by (auto simp: canvas_layout_def Let_def)
    with n(2) show ?thesis using that(2) by (auto simp: on_canvas_def)
  qed
  then show ?thesis
  proof cases
    case 1
    then show ?thesis using known on_canvas_known [OF inv] canvas_replaced_active [OF inv w', of a]
      by (auto simp: settled_agent_def)
  next
    case 2
    then show ?thesis using on_canvas_known [OF inv'] by (simp add: settled_agent_def)
  qed
qed

text \<open>What most events leave: the nodes, and which agents are active.\<close>

definition same_seats :: "workspace \<Rightarrow> workspace \<Rightarrow> bool" where
  "same_seats w w' \<longleftrightarrow>
     w_nodes w' = w_nodes w \<and> (\<forall>a. bm_contains (w_agents w') a \<longrightarrow> bm_contains (w_agents w) a)"

lemma same_seats_frame: "w_nodes w' = w_nodes w \<Longrightarrow> w_agents w' = w_agents w \<Longrightarrow> same_seats w w'"
  by (simp add: same_seats_def)

lemma update_recorded_seats [simp]: "same_seats w (update_recorded_agent a f w)"
  by (simp add: same_seats_def update_recorded_agent_def)

lemma config_seats:
  shows "apply_floors_changed w f g = Inr w' \<Longrightarrow> same_seats w w'"
    and "apply_settings_changed w s s' = Inr w' \<Longrightarrow> same_seats w w'"
    and "apply_profile_added w p = Inr w' \<Longrightarrow> same_seats w w'"
    and "apply_profile_changed w p p' = Inr w' \<Longrightarrow> same_seats w w'"
    and "apply_profile_removed w p = Inr w' \<Longrightarrow> same_seats w w'"
    and "apply_preset_added w q = Inr w' \<Longrightarrow> same_seats w w'"
    and "apply_preset_changed w q q' = Inr w' \<Longrightarrow> same_seats w w'"
    and "apply_preset_removed w q = Inr w' \<Longrightarrow> same_seats w w'"
    and "apply_role_added w r = Inr w' \<Longrightarrow> same_seats w w'"
    and "apply_role_changed w r r' = Inr w' \<Longrightarrow> same_seats w w'"
    and "apply_role_removed w r = Inr w' \<Longrightarrow> same_seats w w'"
  by (rule same_seats_frame;
      auto simp: apply_floors_changed_def apply_settings_changed_def apply_profile_added_def
      apply_profile_changed_def apply_profile_removed_def apply_preset_added_def apply_preset_changed_def
      apply_preset_removed_def apply_role_added_def apply_role_changed_def apply_role_removed_def
      result_iff split: if_splits option.splits)+

lemma agent_seats:
  shows "apply_agent_role_changed w a fr tr = Inr w' \<Longrightarrow> same_seats w w'"
    and "apply_agent_renamed w a fn tn = Inr w' \<Longrightarrow> same_seats w w'"
    and "apply_agent_state_changed w a fs ts = Inr w' \<Longrightarrow> same_seats w w'"
  by (auto simp: apply_agent_role_changed_def apply_agent_renamed_def apply_agent_state_changed_def
      result_iff split: if_splits)

lemma chat_seats:
  shows "apply_thread_added w th = Inr w' \<Longrightarrow> same_seats w w'"
    and "apply_thread_changed w t tf tt fc tc = Inr w' \<Longrightarrow> same_seats w w'"
    and "apply_attachment_added w att = Inr w' \<Longrightarrow> same_seats w w'"
    and "apply_draft_changed w t fd td = Inr w' \<Longrightarrow> same_seats w w'"
    and "apply_draft_submitted w t d m = Inr w' \<Longrightarrow> same_seats w w'"
    and "apply_message_appended w m = Inr w' \<Longrightarrow> same_seats w w'"
  by (rule same_seats_frame;
      auto simp: apply_thread_added_def apply_thread_changed_def apply_attachment_added_def
      apply_draft_changed_def apply_draft_submitted_def apply_message_appended_def put_thread_def
      result_iff split: if_splits)+

lemma task_seats:
  shows "apply_task_added w tk = Inr w' \<Longrightarrow> same_seats w w'"
    and "apply_handoff_added w h = Inr w' \<Longrightarrow> same_seats w w'"
    and "apply_task_handoff_added w tk h = Inr w' \<Longrightarrow> same_seats w w'"
    and "apply_handoff_changed w h h' = Inr w' \<Longrightarrow> same_seats w w'"
    and "apply_task_cancelled w k from h h' = Inr w' \<Longrightarrow> same_seats w w'"
    and "apply_task_resumed w k from h = Inr w' \<Longrightarrow> same_seats w w'"
    and "apply_task_state_changed w k from to = Inr w' \<Longrightarrow> same_seats w w'"
    and "apply_run_advanced w rid t = Inr w' \<Longrightarrow> same_seats w w'"
    and "apply_step_dispatched w rid sid att tk h = Inr w' \<Longrightarrow> same_seats w w'"
  by (rule same_seats_frame;
      auto simp: apply_task_added_def apply_handoff_added_def apply_task_handoff_added_def
      apply_handoff_changed_def apply_task_cancelled_def apply_task_resumed_def
      apply_task_state_changed_def apply_run_advanced_def apply_step_dispatched_def
      insert_task_def insert_handoff_def set_task_state_def result_iff split: if_splits)+

lemma routine_seats:
  shows "apply_routine_added w x = Inr w' \<Longrightarrow> same_seats w w'"
    and "apply_version_added w r v = Inr w' \<Longrightarrow> same_seats w w'"
    and "apply_routine_changed w r fn tn rfd rtd = Inr w' \<Longrightarrow> same_seats w w'"
    and "apply_trigger_changed w r tfrom tto = Inr w' \<Longrightarrow> same_seats w w'"
    and "apply_trigger_removed w r t = Inr w' \<Longrightarrow> same_seats w w'"
    and "apply_occurrences_skipped w r tid n next_at = Inr w' \<Longrightarrow> same_seats w w'"
  by (rule same_seats_frame;
      auto simp: apply_routine_added_def apply_version_added_def apply_routine_changed_def
      apply_trigger_changed_def apply_trigger_removed_def apply_occurrences_skipped_def put_routine_def
      result_iff split: if_splits)+

lemma run_started_seats: "apply_run_started w run firing nxt = Inr w' \<Longrightarrow> same_seats w w'"
proof -
  assume "apply_run_started w run firing nxt = Inr w'"
  then obtain x w1 where w1: "consume_occurrence w run x firing nxt = Inr w1" and w': "w' = insert_run run w1"
    by (auto simp: apply_run_started_def result_iff split: if_splits option.splits)
  from w1 have "w_nodes w1 = w_nodes w \<and> w_agents w1 = w_agents w"
    by (cases rule: consume_occurrence_cases) (simp_all add: put_routine_def)
  then show "same_seats w w'" by (simp add: w' same_seats_def insert_run_def)
qed

lemma settled_later:
  assumes inv: "ws_inv w" and adm: "admissible e" and step: "apply_event w e = Inr w'"
    and a: "settled_agent w a"
  shows "settled_agent w' a"
proof -
  have "later w w'" by (rule apply_event_later [OF inv adm step])
  then have known: "known_agent w' a"
    using a by (auto simp: later_def known_agent_recorded settled_agent_def)
  have seats: "same_seats w w' \<Longrightarrow> bm_contains (w_agents w') a \<longrightarrow> on_canvas w' a"
    using a by (auto simp: same_seats_def settled_agent_def on_canvas_def)
  have grown: "bm_contains (w_agents w') a \<longrightarrow> on_canvas w' a"
    if "on_canvas w a \<Longrightarrow> on_canvas w' a"
      "bm_contains (w_agents w') a \<Longrightarrow> bm_contains (w_agents w) a \<or> on_canvas w' a"
    using that a by (auto simp: settled_agent_def)
  have "bm_contains (w_agents w') a \<longrightarrow> on_canvas w' a"
  proof (cases e)
    case (EV_AgentAdded b)
    then have "agent_ident b \<noteq> a" "w_nodes w' = w_nodes w"
      "w_agents w' = bm_insert (agent_ident b) b (w_agents w)"
      using step a by (auto simp: apply_event_def apply_agent_added_def result_iff settled_agent_def known_agent_def)
    then show ?thesis by (intro grown) (auto simp: on_canvas_def)
  next
    case (EV_AgentNodeAdded b n)
    then have fresh: "agent_ident b \<noteq> a" "\<not> bm_contains (w_nodes w) (node_ident n)"
      and w': "w' = place_node n (w\<lparr>w_agents := bm_insert (agent_ident b) b (w_agents w)\<rparr>)"
      using step a by (auto simp: apply_event_def apply_agent_node_added_def result_iff settled_agent_def
          known_agent_def split: if_splits)
    show ?thesis
    proof (rule grown)
      assume "on_canvas w a"
      from on_canvas_insert [OF this fresh(2)] show "on_canvas w' a" by (simp add: w')
    qed (use fresh(1) in \<open>simp add: w'\<close>)
  next
    case (EV_NodeAdded n)
    then have fresh: "\<not> bm_contains (w_nodes w) (node_ident n)" and w': "w' = restore_placed_agents (place_node n w)"
      using step by (auto simp: apply_event_def apply_node_added_def result_iff)
    have "agents_apart (place_node n w)"
      using agents_apart_iff [OF ws_invD(2) [OF inv]] by (simp add: agents_apart_def)
    then have nodes: "w_nodes w' = w_nodes (place_node n w)"
      unfolding w' by (rule relocated_frame(10) [OF restore_placed_relocated])
    show ?thesis
    proof (rule grown)
      assume "on_canvas w a"
      from on_canvas_insert [OF this fresh] show "on_canvas w' a" by (simp add: nodes)
    next
      assume "bm_contains (w_agents w') a"
      from restore_placed_active [OF this [unfolded w']]
      show "bm_contains (w_agents w) a \<or> on_canvas w' a" by (auto simp: on_canvas_def nodes)
    qed
  next
    case (EV_CanvasReplaced before after)
    then have "apply_canvas_replaced w before after = Inr w'" using step by (simp add: apply_event_def)
    from canvas_replaced_active [OF inv this, of a] a show ?thesis by (auto simp: settled_agent_def)
  qed (use step in \<open>simp_all add: apply_event_def seats config_seats agent_seats chat_seats task_seats
      routine_seats run_started_seats\<close>)
  with known show ?thesis by (simp add: settled_agent_def)
qed

end
