(* ===== verification/Float32.thy ===== *)
theory Float32
  imports Canvas
begin

text \<open>
  The \<open>f32\<close> arithmetic of \<open>src/domain/canvas_content.rs\<close>: coordinates inside a node and stroke
  widths are stored as integers and handed out as \<open>f32\<close>. Every product and quotient there is of
  non-negative numbers, so a finite value is counted in units of \<open>2 ^ - 149\<close>, the least positive
  \<open>f32\<close>, and an operation is the exact fraction rounded to the nearest value, ties to even.
\<close>

section \<open>Rounding\<close>

fun bit_length :: "nat \<Rightarrow> nat" where
  "bit_length n = (if n = 0 then 0 else Suc (bit_length (n div 2)))"

declare bit_length.simps [simp del]

lemma bit_length_0 [simp]: "bit_length 0 = 0"
  by (simp add: bit_length.simps)

definition f32_units :: "f32 \<Rightarrow> nat" where
  "f32_units x =
     (let e = f32_exponent x; fraction = unat (f32_bits x) mod 2 ^ 23 in
      if e = 0 then fraction else (2 ^ 23 + fraction) * 2 ^ (e - 1))"

definition round_half_even :: "nat \<Rightarrow> nat \<Rightarrow> nat" where
  "round_half_even n d =
     (let k = n div d; r = n mod d in if 2 * r < d \<or> 2 * r = d \<and> even k then k else k + 1)"

text \<open>The value nearest to the fraction \<open>a / b\<close>; \<open>scale\<close> leaves 24 significant bits.\<close>

definition f32_scale :: "nat \<Rightarrow> nat \<Rightarrow> nat" where
  "f32_scale a b = bit_length (a * 2 ^ 149 div b) - 24"

definition f32_round :: "nat \<Rightarrow> nat \<Rightarrow> f32" where
  "f32_round a b =
     (let s = f32_scale a b; m = round_half_even (a * 2 ^ 149) (b * 2 ^ s)
      in F32 (of_nat (min (s * 2 ^ 23 + m) (255 * 2 ^ 23))))"

text \<open>\<open>x * n\<close> and \<open>n / k\<close> for integers \<open>n\<close> and \<open>k\<close> that are exact as \<open>f32\<close>, and \<open>x.round() as u16\<close>.\<close>

definition f32_times :: "f32 \<Rightarrow> nat \<Rightarrow> f32" where
  "f32_times x n = f32_round (f32_units x * n) (2 ^ 149)"

definition f32_quotient :: "nat \<Rightarrow> nat \<Rightarrow> f32" where
  "f32_quotient n k = f32_round n k"

definition f32_to_u16 :: "f32 \<Rightarrow> u16" where
  "f32_to_u16 x = of_nat (min ((f32_units x + 2 ^ 148) div 2 ^ 149) 65535)"

definition f32_negative :: "f32 \<Rightarrow> bool" where
  "f32_negative x = (2 ^ 31 \<le> unat (f32_bits x) \<and> \<not> f32_is_zero x)"

section \<open>Coordinates and stroke widths\<close>

definition normalized_max :: nat where "normalized_max = 10000"

definition in_unit_interval :: "f32 \<Rightarrow> bool" where
  "in_unit_interval x = (\<not> f32_negative x \<and> f32_units x \<le> 2 ^ 149)"

definition normalized_point_new ::
  "f32 \<Rightarrow> f32 \<Rightarrow> (drawing_validation_error, normalized_point) result" where
  "normalized_point_new x y =
     (if \<not> f32_is_finite x \<or> \<not> f32_is_finite y then Inl DV_NotFinite
      else if \<not> in_unit_interval x \<or> \<not> in_unit_interval y then Inl DV_OutsideNode
      else Inr (NormalizedPoint (f32_to_u16 (f32_times x normalized_max))
                                (f32_to_u16 (f32_times y normalized_max))))"

fun normalized_x :: "normalized_point \<Rightarrow> f32" where
  "normalized_x (NormalizedPoint x y) = f32_quotient (unat x) normalized_max"

fun normalized_y :: "normalized_point \<Rightarrow> f32" where
  "normalized_y (NormalizedPoint x y) = f32_quotient (unat y) normalized_max"

definition stroke_max_tenths :: nat where "stroke_max_tenths = 640"

definition stroke_width_new :: "f32 \<Rightarrow> (drawing_validation_error, stroke_width) result" where
  "stroke_width_new v =
     (if \<not> f32_is_finite v then Inl DV_NotFinite
      else if f32_le_zero v \<or> f32_units (f32_quotient stroke_max_tenths 10) < f32_units v
      then Inl DV_InvalidStrokeWidth
      else Inr (StrokeWidth (f32_to_u16 (f32_times v 10))))"

fun stroke_width_get :: "stroke_width \<Rightarrow> f32" where
  "stroke_width_get (StrokeWidth n) = f32_quotient (unat n) 10"

section \<open>How far rounding moves a value\<close>

lemma bit_length_bounds: "0 < n \<Longrightarrow> 2 ^ (bit_length n - 1) \<le> n \<and> n < 2 ^ bit_length n"
proof (induction n rule: bit_length.induct)
  case (1 n)
  show ?case
  proof (cases "n = 1")
    case True
    then show ?thesis by (simp add: bit_length.simps)
  next
    case False
    with 1 have half: "2 ^ (bit_length (n div 2) - 1) \<le> n div 2" "n div 2 < 2 ^ bit_length (n div 2)"
      by auto
    have "0 < bit_length (n div 2)" using False 1(2) by (subst bit_length.simps) auto
    then have "2 ^ bit_length (n div 2) = 2 * (2::nat) ^ (bit_length (n div 2) - 1)"
      by (metis Suc_diff_1 power_Suc)
    with half have "2 ^ bit_length (n div 2) \<le> n" "n < 2 * 2 ^ bit_length (n div 2)" by linarith+
    with 1(2) show ?thesis by (subst (1 2) bit_length.simps) simp
  qed
qed

lemma round_half_even_error:
  "0 < d \<Longrightarrow> 2 * n \<le> 2 * (round_half_even n d * d) + d \<and> 2 * (round_half_even n d * d) \<le> 2 * n + d"
proof -
  assume "0 < d"
  obtain k r where k: "k = n div d" and r: "r = n mod d" by blast
  have "n = k * d + r" "r < d" using \<open>0 < d\<close> by (simp_all add: k r)
  then show ?thesis
    unfolding round_half_even_def Let_def k [symmetric] r [symmetric]
    by (auto simp: add_mult_distrib)
qed

lemma round_half_even_le: "0 < d \<Longrightarrow> n \<le> c * d \<Longrightarrow> round_half_even n d \<le> c"
proof -
  assume d: "0 < d" and n: "n \<le> c * d"
  then have "n div d \<le> c" by (metis div_le_mono div_mult_self_is_m)
  show ?thesis
  proof (cases "n div d = c")
    case True
    then have "n mod d = 0" using n by (metis add_le_same_cancel1 div_mult_mod_eq le_zero_eq)
    with True d show ?thesis by (simp add: round_half_even_def)
  qed (use \<open>n div d \<le> c\<close> in \<open>simp add: round_half_even_def Let_def\<close>)
qed

lemma round_half_even_ge: "0 < d \<Longrightarrow> c * d \<le> n \<Longrightarrow> c \<le> round_half_even n d"
proof -
  assume "0 < d" and "c * d \<le> n"
  then have "c \<le> n div d" by (simp add: less_eq_div_iff_mult_less_eq)
  then show ?thesis by (simp add: round_half_even_def Let_def)
qed

lemma f32_units_bits:
  assumes "m \<le> 2 ^ 24" and "s = 0 \<or> 2 ^ 23 \<le> m" and "s < 250"
  shows "f32_units (F32 (of_nat (s * 2 ^ 23 + m))) = m * 2 ^ s"
    and "f32_is_finite (F32 (of_nat (s * 2 ^ 23 + m)))"
    and "unat (of_nat (s * 2 ^ 23 + m) :: u32) = s * 2 ^ 23 + m"
proof -
  have "s * 2 ^ 23 + m < 2 ^ 32" using assms by simp
  then show bits: "unat (of_nat (s * 2 ^ 23 + m) :: u32) = s * 2 ^ 23 + m"
    by (simp only: unat_of_nat) simp
  consider "m < 2 ^ 23" "s = 0" | "2 ^ 23 \<le> m" "m < 2 ^ 24" | "m = 2 ^ 24"
    using assms by linarith
  then have "f32_units (F32 (of_nat (s * 2 ^ 23 + m))) = m * 2 ^ s \<and>
      f32_is_finite (F32 (of_nat (s * 2 ^ 23 + m)))"
  proof cases
    case 1
    with bits show ?thesis
      by (simp add: f32_units_def f32_is_finite_def f32_exponent_def)
  next
    case 2
    then obtain f where f: "m = 2 ^ 23 + f" "f < 2 ^ 23" using le_Suc_ex by fastforce
    then have split: "s * 2 ^ 23 + m = (s + 1) * 2 ^ 23 + f" by simp
    have "(s * 2 ^ 23 + m) div 2 ^ 23 = s + 1" unfolding split using f(2) by (simp only: div_mult_self3) simp
    moreover have "(s * 2 ^ 23 + m) mod 2 ^ 23 = f" unfolding split using f(2) by (simp only: mod_mult_self3) simp
    ultimately show ?thesis
      using f assms(3)
      unfolding f32_units_def f32_is_finite_def f32_exponent_def f32.sel bits Let_def by simp
  next
    case 3
    then have split: "s * 2 ^ 23 + m = (s + 2) * 2 ^ 23" by simp
    have "(s * 2 ^ 23 + m) div 2 ^ 23 = s + 2" "(s * 2 ^ 23 + m) mod 2 ^ 23 = 0"
      unfolding split by simp_all
    then show ?thesis
      using 3 assms(3)
      unfolding f32_units_def f32_is_finite_def f32_exponent_def f32.sel bits Let_def by simp
  qed
  then show "f32_units (F32 (of_nat (s * 2 ^ 23 + m))) = m * 2 ^ s"
    and "f32_is_finite (F32 (of_nat (s * 2 ^ 23 + m)))" by simp_all
qed

text \<open>Everything the code computes stays far below the largest \<open>f32\<close>.\<close>

lemma f32_round_bounds:
  assumes "0 < b" and "a \<le> b * 2 ^ 20"
  defines "u \<equiv> f32_units (f32_round a b)" and "s \<equiv> f32_scale a b"
  shows "2 * (a * 2 ^ 149) \<le> 2 * (u * b) + b * 2 ^ s"
    and "2 * (u * b) \<le> 2 * (a * 2 ^ 149) + b * 2 ^ s"
    and "s = 0 \<or> b * 2 ^ (s + 23) \<le> a * 2 ^ 149"
    and "f32_is_finite (f32_round a b)" and "\<not> f32_negative (f32_round a b)"
    and "a \<le> b * c \<Longrightarrow> u \<le> c * 2 ^ 149"
    and "b * c \<le> a \<Longrightarrow> c * 2 ^ 149 \<le> u"
    and "0 < s \<Longrightarrow> 0 < u"
proof -
  let ?q = "a * 2 ^ 149 div b"
  define m where "m = round_half_even (a * 2 ^ 149) (b * 2 ^ s)"
  have d: "0 < b * 2 ^ s" using assms(1) by simp
  have q: "?q \<le> 2 ^ 169"
  proof -
    have "a * 2 ^ 149 \<le> 2 ^ 169 * b" using assms(2) by simp
    then have "?q \<le> 2 ^ 169 * b div b" by (rule div_le_mono)
    with assms(1) show ?thesis by simp
  qed
  have len: "bit_length ?q \<le> 170"
  proof (cases "?q = 0")
    case False
    with bit_length_bounds [of ?q] q have "2 ^ (bit_length ?q - 1) \<le> (2::nat) ^ 169" by linarith
    then have "bit_length ?q - 1 \<le> 169" by (rule power_le_imp_le_exp [rotated]) simp
    then show ?thesis by simp
  qed simp
  have s: "s = bit_length ?q - 24" "s \<le> 146" using len by (simp_all add: s_def f32_scale_def)
  have upper: "?q < 2 ^ (s + 24)"
  proof (cases "?q = 0")
    case False
    then have "?q < 2 ^ bit_length ?q" using bit_length_bounds by simp
    also have "\<dots> \<le> 2 ^ (s + 24)" unfolding s(1) by (rule power_increasing) simp_all
    finally show ?thesis .
  qed simp
  have lower: "2 ^ (s + 23) \<le> ?q" if "s \<noteq> 0"
  proof -
    have "?q \<noteq> 0" using that s(1) by (metis bit_length_0 zero_diff)
    then have "2 ^ (bit_length ?q - 1) \<le> ?q" using bit_length_bounds by simp
    moreover have "bit_length ?q - 1 = s + 23" using that s(1) by simp
    ultimately show ?thesis by simp
  qed
  have below: "a * 2 ^ 149 \<le> 2 ^ 24 * (b * 2 ^ s)"
  proof -
    have "a * 2 ^ 149 < b + ?q * b" by (rule dividend_less_div_times [OF assms(1)])
    also have "\<dots> = (?q + 1) * b" by simp
    also have "\<dots> \<le> 2 ^ (s + 24) * b" using upper by (intro mult_le_mono1) simp
    finally show ?thesis by (simp add: power_add algebra_simps)
  qed
  have above: "s = 0 \<or> b * 2 ^ (s + 23) \<le> a * 2 ^ 149"
  proof (cases "s = 0")
    case False
    from lower [OF this] have "b * 2 ^ (s + 23) \<le> b * ?q" by simp
    also have "\<dots> \<le> a * 2 ^ 149" by simp
    finally show ?thesis ..
  qed simp
  then show "s = 0 \<or> b * 2 ^ (s + 23) \<le> a * 2 ^ 149" .
  have m_le: "m \<le> 2 ^ 24" unfolding m_def by (rule round_half_even_le [OF d below])
  have m_ge: "s = 0 \<or> 2 ^ 23 \<le> m"
  proof (cases "s = 0")
    case False
    with above have "2 ^ 23 * (b * 2 ^ s) \<le> a * 2 ^ 149" by (simp add: power_add algebra_simps)
    then show ?thesis unfolding m_def using round_half_even_ge [OF d] by blast
  qed simp
  have "s * 2 ^ 23 + m \<le> 255 * 2 ^ 23" using m_le s(2) by simp
  then have rounded: "f32_round a b = F32 (of_nat (s * 2 ^ 23 + m))"
    unfolding f32_round_def Let_def s_def [symmetric] m_def [symmetric] by (simp only: min_absorb1)
  have s_small: "s < 250" using s(2) by simp
  note of_bits = f32_units_bits [OF m_le m_ge s_small]
  have u: "u = m * 2 ^ s" unfolding u_def rounded by (rule of_bits(1))
  show "f32_is_finite (f32_round a b)" unfolding rounded by (rule of_bits(2))
  have "s * 2 ^ 23 + m < 2 ^ 31" using m_le s(2) by simp
  with of_bits(3) show "\<not> f32_negative (f32_round a b)"
    unfolding rounded f32_negative_def by simp
  from round_half_even_error [OF d, of "a * 2 ^ 149"]
  show "2 * (a * 2 ^ 149) \<le> 2 * (u * b) + b * 2 ^ s" and "2 * (u * b) \<le> 2 * (a * 2 ^ 149) + b * 2 ^ s"
    unfolding u m_def [symmetric] by (simp_all add: algebra_simps)
  have split: "(2::nat) ^ 149 = 2 ^ (149 - s) * 2 ^ s" using s(2) by (simp add: power_add [symmetric])
  show "c * 2 ^ 149 \<le> u" if "b * c \<le> a"
  proof -
    have "(c * 2 ^ (149 - s)) * (b * 2 ^ s) = (b * c) * 2 ^ 149" unfolding split by (simp add: algebra_simps)
    also have "\<dots> \<le> a * 2 ^ 149" using that by simp
    finally have "c * 2 ^ (149 - s) \<le> m" unfolding m_def by (rule round_half_even_ge [OF d])
    then have "c * 2 ^ (149 - s) * 2 ^ s \<le> u" unfolding u by simp
    then show ?thesis unfolding split by (simp add: algebra_simps)
  qed
  show "u \<le> c * 2 ^ 149" if "a \<le> b * c"
  proof -
    have "a * 2 ^ 149 \<le> (b * c) * 2 ^ 149" using that by simp
    also have "\<dots> = (c * 2 ^ (149 - s)) * (b * 2 ^ s)" unfolding split by (simp add: algebra_simps)
    finally have "m \<le> c * 2 ^ (149 - s)" unfolding m_def by (rule round_half_even_le [OF d])
    then have "u \<le> c * 2 ^ (149 - s) * 2 ^ s" unfolding u by simp
    then show ?thesis unfolding split by (simp add: algebra_simps)
  qed
  show "0 < u" if "0 < s" using m_ge that unfolding u by auto
qed

text \<open>An integer divided by \<open>k\<close> and multiplied by \<open>k\<close> again rounds back to itself.\<close>

lemma f32_quotient_times:
  assumes "0 < k" and "k \<le> 10000" and "n \<le> 10000"
  shows "f32_to_u16 (f32_times (f32_quotient n k) k) = of_nat n"
proof -
  define u where "u = f32_units (f32_round n k)"
  define s where "s = f32_scale n k"
  have small: "n \<le> k * 2 ^ 20" using assms(1,3) by (cases k) auto
  note first = f32_round_bounds [OF assms(1) small, folded u_def s_def]
  have s_err: "k * 2 ^ s \<le> n * 2 ^ 126 + 10000"
  proof (cases "s = 0")
    case False
    with first(3) have "k * 2 ^ s * 2 ^ 23 \<le> (n * 2 ^ 126) * 2 ^ 23" by (simp add: power_add)
    then have "k * 2 ^ s \<le> n * 2 ^ 126" by (simp only: mult_le_cancel2) simp
    then show ?thesis by simp
  qed (use assms(2) in simp)
  define v where "v = f32_units (f32_round (u * k) (2 ^ 149))"
  define t where "t = f32_scale (u * k) (2 ^ 149)"
  have uk: "2 * (u * k) \<le> 2 * (n * 2 ^ 149) + (n * 2 ^ 126 + 10000)"
    and uk': "2 * (n * 2 ^ 149) \<le> 2 * (u * k) + (n * 2 ^ 126 + 10000)"
    using first(1,2) s_err by linarith+
  have uk_small: "u * k \<le> 2 ^ 149 * 2 ^ 20" using uk assms(3) by simp
  have pos: "(0::nat) < 2 ^ 149" by simp
  note second = f32_round_bounds [OF pos uk_small, folded v_def t_def]
  have t_err: "2 ^ t \<le> (2::nat) ^ 146"
  proof (cases "t = 0")
    case False
    with second(3) have "2 ^ 149 * 2 ^ (t + 23) \<le> (2 ^ 149 * 2 ^ 20) * (2::nat) ^ 149"
      using mult_le_mono1 [OF uk_small, of "2 ^ 149"] by linarith
    then have "(2::nat) ^ (t + 23) \<le> 2 ^ 169" by (simp add: power_add)
    then have "t + 23 \<le> 169" by (rule power_le_imp_le_exp [rotated]) simp
    then show ?thesis by (intro power_increasing) simp_all
  qed simp
  have v1: "2 * v \<le> 2 * (u * k) + 2 ^ t" and v2: "2 * (u * k) \<le> 2 * v + 2 ^ t"
    using second(1,2) by (simp_all add: algebra_simps)
  have "v + 2 ^ 148 < (n + 1) * 2 ^ 149" and "n * 2 ^ 149 \<le> v + 2 ^ 148"
    using v1 v2 uk uk' t_err assms(3) by simp_all
  then have "(v + 2 ^ 148) div 2 ^ 149 = n"
    by (intro div_nat_eqI) (simp_all add: algebra_simps)
  then show ?thesis
    using assms(3)
    unfolding f32_to_u16_def f32_times_def f32_quotient_def u_def [symmetric] v_def [symmetric] by simp
qed

lemma normalized_point_reads_back:
  assumes "unat x \<le> normalized_max" and "unat y \<le> normalized_max"
  shows "normalized_point_new (normalized_x (NormalizedPoint x y)) (normalized_y (NormalizedPoint x y)) =
    Inr (NormalizedPoint x y)"
proof -
  have "f32_is_finite (f32_quotient n 10000) \<and> in_unit_interval (f32_quotient n 10000) \<and>
      f32_to_u16 (f32_times (f32_quotient n 10000) 10000) = of_nat n" if "n \<le> 10000" for n
    using f32_round_bounds(4,5) [of 10000 n] f32_round_bounds(6) [of 10000 n 1]
      f32_quotient_times [of 10000 n] that
    by (simp add: f32_quotient_def in_unit_interval_def)
  with assms show ?thesis by (simp add: normalized_point_new_def normalized_max_def)
qed

lemma stroke_width_reads_back:
  assumes "0 < n" and "unat n \<le> stroke_max_tenths"
  shows "stroke_width_new (stroke_width_get (StrokeWidth n)) = Inr (StrokeWidth n)"
proof -
  let ?x = "f32_quotient (unat n) 10"
  have n: "0 < unat n" "unat n \<le> 640" using assms by (simp_all add: stroke_max_tenths_def unat_gt_0)
  have small: "unat n \<le> 10 * 2 ^ 20" "unat n \<le> 10 * 64" using n(2) by simp_all
  note r = f32_round_bounds [of 10 "unat n", folded f32_quotient_def, OF _ small(1)]
  have pos: "0 < f32_units ?x"
  proof (rule ccontr)
    assume "\<not> ?thesis"
    with r(8) have "f32_scale (unat n) 10 = 0" by auto
    with r(1) \<open>\<not> 0 < f32_units ?x\<close> have "2 * (unat n * 2 ^ 149) \<le> 10" by simp
    with n(1) show False by simp
  qed
  have "\<not> f32_le_zero ?x"
  proof
    assume "f32_le_zero ?x"
    with r(5) have "f32_is_zero ?x" by (auto simp: f32_le_zero_def f32_negative_def)
    then have "unat (f32_bits ?x) mod 2 ^ 31 = 0" by (simp add: f32_is_zero_def)
    then obtain k where k: "unat (f32_bits ?x) = k * 2 ^ 31"
      by (metis dvd_eq_mod_eq_0 dvd_def mult.commute)
    have "unat (f32_bits ?x) div 2 ^ 23 = k * 256" "unat (f32_bits ?x) mod 2 ^ 23 = 0"
      unfolding k by simp_all
    then have "f32_units ?x = 0" by (simp add: f32_units_def f32_exponent_def)
    with pos show False by simp
  qed
  moreover have "f32_units ?x \<le> 64 * 2 ^ 149" using r(6) [of 64] small(2) by simp
  moreover have "64 * 2 ^ 149 \<le> f32_units (f32_quotient 640 10)"
    using f32_round_bounds(7) [of 10 640 64] by (simp add: f32_quotient_def)
  ultimately show ?thesis
    using r(4) f32_quotient_times [of 10 "unat n"] n
    by (simp add: stroke_width_new_def stroke_max_tenths_def)
qed

end
