(* ===== verification/Stored_Config.thy ===== *)
theory Stored_Config
  imports Domain_Event Float32
begin

text \<open>
  The stored records of \<open>src/persistence/codec.rs\<close> for configuration, agents and tasks. A \<open>V1\<close>
  struct is a record of plain values; \<open>save_x\<close> is its \<open>From\<close> and \<open>read_x\<close> its \<open>into_domain\<close>,
  which validates every value again and reports a failure as a text, the unit value here.

  \<open>stored_form\<close> is the contract of such a pair: a valid value reads back as itself. Its facts for
  lists and options are what the records that contain others use.
\<close>

section \<open>The contract\<close>

type_synonym 'a read = "(unit, 'a) result"

text \<open>\<open>.map_err(|error| error.to_string())\<close>.\<close>

definition message :: "('e, 'a) result \<Rightarrow> 'a read" where
  "message r = map_err (\<lambda>_. ()) r"

text \<open>\<open>.map(f).transpose()\<close>.\<close>

definition read_option :: "('b \<Rightarrow> ('e, 'a) result) \<Rightarrow> 'b option \<Rightarrow> ('e, 'a option) result" where
  "read_option f v = (case v of None \<Rightarrow> Inr None | Some x \<Rightarrow> res_bind (f x) (\<lambda>y. Inr (Some y)))"

lemma message_simps [simp]: "message (Inl e) = Inl ()" "message (Inr x) = Inr x"
  by (simp_all add: message_def)

lemma message_Inr_iff [result_iff]: "message r = Inr x \<longleftrightarrow> r = Inr x"
  by (cases r) simp_all

lemma read_option_simps [simp]:
  "read_option f None = Inr None"
  "read_option f (Some x) = res_bind (f x) (\<lambda>y. Inr (Some y))"
  by (simp_all add: read_option_def)

lemma read_option_Inr_iff [result_iff]:
  "read_option f v = Inr y \<longleftrightarrow> rel_option (\<lambda>x y. f x = Inr y) v y"
  by (cases v; cases y) (auto simp: result_iff)

abbreviation valid_option :: "('a \<Rightarrow> bool) \<Rightarrow> 'a option \<Rightarrow> bool" where
  "valid_option valid v \<equiv> pred_option valid v"

locale stored_form =
  fixes save :: "'a \<Rightarrow> 'b" and read :: "'b \<Rightarrow> 'a read" and valid :: "'a \<Rightarrow> bool"
  assumes reads_back: "valid x \<Longrightarrow> read (save x) = Inr x"
begin

lemma reads_back_option: "valid_option valid v \<Longrightarrow> read_option read (map_option save v) = Inr v"
  by (cases v) (simp_all add: reads_back)

lemma reads_back_list: "list_all valid xs \<Longrightarrow> try_map read (map save xs) = Inr xs"
  by (induction xs) (simp_all add: reads_back)

lemma save_inject: "valid x \<Longrightarrow> valid y \<Longrightarrow> save x = save y \<Longrightarrow> x = y"
  by (metis reads_back sum.inject(2))

end

section \<open>Collections\<close>

text \<open>A map or set is stored as the list it iterates over and collected again.\<close>

lemma map_of_al_get: "map_of ps k = al_get ps k"
  by (induction ps k rule: al_get.induct) simp_all

lemma map_of_entries: "map_of (entries m) k = bm_get m k"
  by (simp add: bm_get_def map_of_al_get)

lemma bm_of_list_entries [simp]: "bm_of_list (entries m) = m"
proof (rule bmap_ext)
  show "bm_get (bm_of_list (entries m)) k = bm_get m k" for k
    using distinct_bm_keys [of m]
    by (simp add: bm_get_of_list_distinct bm_keys_def map_of_entries)
qed

lemma bs_get: "bm_get s k = (if bm_contains s k then Some () else None)"
  by (cases "bm_get s k") (simp_all add: bm_contains_def)

lemma bs_of_list_keys [simp]: "bs_of_list (bm_keys s) = s"
  by (rule bmap_ext) (simp add: bs_get bs_elems_def)

section \<open>Values\<close>

text \<open>A value is valid when its constructor returns it from its own text.\<close>

definition name_valid :: "name \<Rightarrow> bool" where
  "name_valid x = (name_new (name_str x) = Inr x)"

definition content_valid :: "content \<Rightarrow> bool" where
  "content_valid x = (content_new (content_str x) = Inr x)"

definition icon_valid :: "workspace_icon \<Rightarrow> bool" where
  "icon_valid x = (workspace_icon_new (workspace_icon_str x) = Inr x)"

definition directory_valid :: "workspace_directory \<Rightarrow> bool" where
  "directory_valid x = (workspace_directory_new (workspace_directory_str x) = Inr x)"

interpretation name_form: stored_form name_str "\<lambda>s. message (name_new s)" name_valid
  by unfold_locales (simp add: name_valid_def)

interpretation content_form: stored_form content_str "\<lambda>s. message (content_new s)" content_valid
  by unfold_locales (simp add: content_valid_def)

interpretation icon_form: stored_form workspace_icon_str "\<lambda>s. message (workspace_icon_new s)" icon_valid
  by unfold_locales (simp add: icon_valid_def)

interpretation directory_form:
  stored_form workspace_directory_str "\<lambda>s. message (workspace_directory_new s)" directory_valid
  by unfold_locales (simp add: directory_valid_def)

lemmas text_forms =
  name_form.reads_back name_form.reads_back_option content_form.reads_back
  content_form.reads_back_option icon_form.reads_back_option directory_form.reads_back
  directory_form.reads_back_option

lemma id_option [simp]: "map_option Id (map_option id_get v) = v"
  by (cases v) simp_all

lemma id_list [simp]: "map Id (map id_get xs) = xs"
  by (induction xs) simp_all

section \<open>Settings\<close>

record settings_v1 =
  settings1_name :: string
  settings1_icon :: "string option"
  settings1_working_directory :: "string option"
  settings1_instructions :: "string option"

definition save_settings :: "workspace_settings \<Rightarrow> settings_v1" where
  "save_settings s =
     \<lparr>settings1_name = name_str (ws_name s),
      settings1_icon = map_option workspace_icon_str (ws_icon s),
      settings1_working_directory = map_option workspace_directory_str (ws_working_directory s),
      settings1_instructions = map_option content_str (ws_instructions s)\<rparr>"

definition read_settings :: "settings_v1 \<Rightarrow> workspace_settings read" where
  "read_settings s =
     res_bind (message (name_new (settings1_name s))) (\<lambda>nm.
     res_bind (read_option (\<lambda>x. message (workspace_icon_new x)) (settings1_icon s)) (\<lambda>icon.
     res_bind (read_option (\<lambda>x. message (workspace_directory_new x)) (settings1_working_directory s)) (\<lambda>dir.
     res_bind (read_option (\<lambda>x. message (content_new x)) (settings1_instructions s)) (\<lambda>instructions.
       Inr \<lparr>ws_name = nm, ws_icon = icon, ws_working_directory = dir, ws_instructions = instructions\<rparr>))))"

definition settings_valid :: "workspace_settings \<Rightarrow> bool" where
  "settings_valid s \<longleftrightarrow>
     name_valid (ws_name s) \<and> valid_option icon_valid (ws_icon s) \<and>
     valid_option directory_valid (ws_working_directory s) \<and> valid_option content_valid (ws_instructions s)"

interpretation settings_form: stored_form save_settings read_settings settings_valid
  by unfold_locales (simp add: save_settings_def read_settings_def settings_valid_def text_forms)

section \<open>Environments, presets and roles\<close>

datatype environment_kind_v1 =
    EK1_Ssh string "string option" "u16 option" string
  | EK1_Container string string string
  | EK1_Custom string "string list" string

record environment_profile_v1 =
  env1_id :: u64
  env1_name :: string
  env1_kind :: environment_kind_v1

fun save_environment_kind :: "environment_kind \<Rightarrow> environment_kind_v1" where
  "save_environment_kind (EK_Ssh e) = EK1_Ssh (ssh_host e) (ssh_user e) (ssh_port e) (ssh_working_directory e)"
| "save_environment_kind (EK_Container e) =
     EK1_Container (container_engine e) (container_name e) (container_working_directory e)"
| "save_environment_kind (EK_Custom e) =
     EK1_Custom (custom_executable e) (custom_arguments e) (workspace_directory_str (custom_working_directory e))"

fun read_environment_kind :: "environment_kind_v1 \<Rightarrow> environment_kind read" where
  "read_environment_kind (EK1_Ssh host user port dir) =
     res_bind (message (ssh_environment_new host user port dir)) (\<lambda>e. Inr (EK_Ssh e))"
| "read_environment_kind (EK1_Container engine container dir) =
     res_bind (message (container_environment_new engine container dir)) (\<lambda>e. Inr (EK_Container e))"
| "read_environment_kind (EK1_Custom executable arguments dir) =
     res_bind (message (workspace_directory_new dir)) (\<lambda>dir.
     res_bind (message (custom_environment_new executable arguments dir)) (\<lambda>e. Inr (EK_Custom e)))"

fun environment_kind_valid :: "environment_kind \<Rightarrow> bool" where
  "environment_kind_valid (EK_Ssh e) \<longleftrightarrow>
     ssh_environment_new (ssh_host e) (ssh_user e) (ssh_port e) (ssh_working_directory e) = Inr e"
| "environment_kind_valid (EK_Container e) \<longleftrightarrow>
     container_environment_new (container_engine e) (container_name e) (container_working_directory e) = Inr e"
| "environment_kind_valid (EK_Custom e) \<longleftrightarrow>
     directory_valid (custom_working_directory e) \<and>
     custom_environment_new (custom_executable e) (custom_arguments e) (custom_working_directory e) = Inr e"

interpretation environment_kind_form:
  stored_form save_environment_kind read_environment_kind environment_kind_valid
proof unfold_locales
  show "read_environment_kind (save_environment_kind k) = Inr k" if "environment_kind_valid k" for k
    using that by (cases k) (simp_all add: text_forms)
qed

definition save_profile :: "environment_profile \<Rightarrow> environment_profile_v1" where
  "save_profile p =
     \<lparr>env1_id = id_get (env_id p), env1_name = name_str (env_name p),
      env1_kind = save_environment_kind (env_kind p)\<rparr>"

definition read_profile :: "environment_profile_v1 \<Rightarrow> environment_profile read" where
  "read_profile p =
     res_bind (message (name_new (env1_name p))) (\<lambda>nm.
     res_bind (read_environment_kind (env1_kind p)) (\<lambda>kind.
       Inr \<lparr>env_id = Id (env1_id p), env_name = nm, env_kind = kind\<rparr>))"

definition profile_valid :: "environment_profile \<Rightarrow> bool" where
  "profile_valid p \<longleftrightarrow> name_valid (env_name p) \<and> environment_kind_valid (env_kind p)"

interpretation profile_form: stored_form save_profile read_profile profile_valid
  by unfold_locales
    (simp add: save_profile_def read_profile_def profile_valid_def text_forms environment_kind_form.reads_back)

record command_preset_v1 =
  preset1_id :: u64
  preset1_name :: string
  preset1_executable :: string
  preset1_arguments :: "string list"

definition save_preset :: "command_preset \<Rightarrow> command_preset_v1" where
  "save_preset p =
     \<lparr>preset1_id = id_get (preset_id p), preset1_name = name_str (preset_name p),
      preset1_executable = preset_executable p, preset1_arguments = preset_arguments p\<rparr>"

definition read_preset :: "command_preset_v1 \<Rightarrow> command_preset read" where
  "read_preset p =
     res_bind (message (name_new (preset1_name p))) (\<lambda>nm.
       message (command_preset_new (Id (preset1_id p)) nm (preset1_executable p) (preset1_arguments p)))"

definition preset_valid :: "command_preset \<Rightarrow> bool" where
  "preset_valid p \<longleftrightarrow>
     name_valid (preset_name p) \<and>
     command_preset_new (preset_id p) (preset_name p) (preset_executable p) (preset_arguments p) = Inr p"

interpretation preset_form: stored_form save_preset read_preset preset_valid
  by unfold_locales (simp add: save_preset_def read_preset_def preset_valid_def text_forms)

record role_v1 =
  role1_id :: u64
  role1_name :: string
  role1_color :: "string option"
  role1_icon :: "string option"
  role1_instructions :: string

definition save_role :: "role \<Rightarrow> role_v1" where
  "save_role r =
     \<lparr>role1_id = id_get (role_ident r), role1_name = name_str (role_name r),
      role1_color = Some (role_color_str (role_color r)), role1_icon = Some (role_icon_str (role_icon r)),
      role1_instructions = content_str (role_instructions r)\<rparr>"

definition role_has_appearance_fields :: "role_v1 \<Rightarrow> bool" where
  "role_has_appearance_fields r = (role1_color r \<noteq> None \<or> role1_icon r \<noteq> None)"

definition read_role :: "role_v1 \<Rightarrow> role read" where
  "read_role r =
     res_bind (message (name_new (role1_name r))) (\<lambda>nm.
     res_bind (message (role_color_new
       (case role1_color r of None \<Rightarrow> role_color_str role_color_default | Some c \<Rightarrow> c))) (\<lambda>color.
     res_bind (message (role_icon_new
       (case role1_icon r of None \<Rightarrow> role_icon_str role_icon_default | Some i \<Rightarrow> i))) (\<lambda>icon.
     res_bind (message (content_new (role1_instructions r))) (\<lambda>instructions.
       Inr \<lparr>role_ident = Id (role1_id r), role_name = nm, role_color = color, role_icon = icon,
            role_instructions = instructions\<rparr>))))"

definition role_valid :: "role \<Rightarrow> bool" where
  "role_valid r \<longleftrightarrow>
     name_valid (role_name r) \<and> content_valid (role_instructions r) \<and>
     role_color_new (role_color_str (role_color r)) = Inr (role_color r) \<and>
     role_icon_new (role_icon_str (role_icon r)) = Inr (role_icon r)"

interpretation role_form: stored_form save_role read_role role_valid
  by unfold_locales (simp add: save_role_def read_role_def role_valid_def text_forms)

section \<open>Agents\<close>

datatype agent_state_v1 =
  AS1_Starting | AS1_Running | AS1_Waiting | AS1_Completed | AS1_Failed | AS1_Stopped

fun save_agent_state :: "agent_state \<Rightarrow> agent_state_v1" where
  "save_agent_state AS_Starting = AS1_Starting"
| "save_agent_state AS_Running = AS1_Running"
| "save_agent_state AS_Waiting = AS1_Waiting"
| "save_agent_state AS_Completed = AS1_Completed"
| "save_agent_state AS_Failed = AS1_Failed"
| "save_agent_state AS_Stopped = AS1_Stopped"

fun read_agent_state :: "agent_state_v1 \<Rightarrow> agent_state" where
  "read_agent_state AS1_Starting = AS_Starting"
| "read_agent_state AS1_Running = AS_Running"
| "read_agent_state AS1_Waiting = AS_Waiting"
| "read_agent_state AS1_Completed = AS_Completed"
| "read_agent_state AS1_Failed = AS_Failed"
| "read_agent_state AS1_Stopped = AS_Stopped"

lemma agent_state_reads_back [simp]: "read_agent_state (save_agent_state s) = s"
  by (cases s) simp_all

datatype agent_program_v1 = AP1_Codex | AP1_Claude | AP1_OpenCode | AP1_Custom u64 | AP1_Shell

fun save_program :: "agent_program \<Rightarrow> agent_program_v1" where
  "save_program AP_Codex = AP1_Codex"
| "save_program AP_Claude = AP1_Claude"
| "save_program AP_OpenCode = AP1_OpenCode"
| "save_program (AP_Custom p) = AP1_Custom (id_get p)"
| "save_program AP_Shell = AP1_Shell"

fun read_program :: "agent_program_v1 \<Rightarrow> agent_program" where
  "read_program AP1_Codex = AP_Codex"
| "read_program AP1_Claude = AP_Claude"
| "read_program AP1_OpenCode = AP_OpenCode"
| "read_program (AP1_Custom p) = AP_Custom (Id p)"
| "read_program AP1_Shell = AP_Shell"

lemma program_reads_back [simp]: "read_program (save_program p) = p"
  by (cases p) simp_all

record agent_v1 =
  agent1_id :: u64
  agent1_name :: string
  agent1_role :: "u64 option"
  agent1_program :: agent_program_v1
  agent1_environment :: "u64 option"
  agent1_state :: agent_state_v1

definition save_agent :: "agent \<Rightarrow> agent_v1" where
  "save_agent a =
     \<lparr>agent1_id = id_get (agent_ident a), agent1_name = name_str (agent_name a),
      agent1_role = map_option id_get (agent_role a), agent1_program = save_program (agent_program a),
      agent1_environment = map_option id_get (agent_environment a),
      agent1_state = save_agent_state (agent_state a)\<rparr>"

text \<open>\<open>into_domain\<close> gives a starting agent and the state it was stored in.\<close>

definition read_agent :: "agent_v1 \<Rightarrow> (agent \<times> agent_state) read" where
  "read_agent a =
     res_bind (message (name_new (agent1_name a))) (\<lambda>nm.
       let agent = agent_with_program (Id (agent1_id a)) nm (map_option Id (agent1_role a))
             (read_program (agent1_program a));
           agent = (case agent1_environment a of
               None \<Rightarrow> agent | Some e \<Rightarrow> agent_in_environment (Id e) agent)
       in Inr (agent, read_agent_state (agent1_state a)))"

definition starting :: "agent \<Rightarrow> agent" where
  "starting a = a\<lparr>agent_state := AS_Starting\<rparr>"

lemma read_save_agent:
  "name_valid (agent_name a) \<Longrightarrow> read_agent (save_agent a) = Inr (starting a, agent_state a)"
  by (cases "agent_environment a")
    (simp_all add: save_agent_def read_agent_def text_forms agent_with_program_def
      agent_in_environment_def starting_def Let_def)

section \<open>Tasks\<close>

datatype task_state_v1 =
  TS1_Queued | TS1_Delivered | TS1_Running | TS1_Blocked | TS1_Completed | TS1_Failed | TS1_Cancelled

fun save_task_state :: "task_state \<Rightarrow> task_state_v1" where
  "save_task_state TS_Queued = TS1_Queued"
| "save_task_state TS_Delivered = TS1_Delivered"
| "save_task_state TS_Running = TS1_Running"
| "save_task_state TS_Blocked = TS1_Blocked"
| "save_task_state TS_Completed = TS1_Completed"
| "save_task_state TS_Failed = TS1_Failed"
| "save_task_state TS_Cancelled = TS1_Cancelled"

fun read_task_state :: "task_state_v1 \<Rightarrow> task_state" where
  "read_task_state TS1_Queued = TS_Queued"
| "read_task_state TS1_Delivered = TS_Delivered"
| "read_task_state TS1_Running = TS_Running"
| "read_task_state TS1_Blocked = TS_Blocked"
| "read_task_state TS1_Completed = TS_Completed"
| "read_task_state TS1_Failed = TS_Failed"
| "read_task_state TS1_Cancelled = TS_Cancelled"

lemma task_state_reads_back [simp]: "read_task_state (save_task_state s) = s"
  by (cases s) simp_all

record task_v1 =
  task1_id :: u64
  task1_title :: string
  task1_prompt :: string
  task1_assignee :: "u64 option"
  task1_retry_of :: "u64 option"
  task1_state :: task_state_v1

definition save_task :: "task \<Rightarrow> task_v1" where
  "save_task t =
     \<lparr>task1_id = id_get (task_ident t), task1_title = name_str (task_title t),
      task1_prompt = content_str (task_prompt t), task1_assignee = map_option id_get (task_assignee t),
      task1_retry_of = map_option id_get (task_retry_of t), task1_state = save_task_state (task_state t)\<rparr>"

definition read_task :: "task_v1 \<Rightarrow> (task \<times> task_state) read" where
  "read_task t =
     res_bind (message (name_new (task1_title t))) (\<lambda>title.
     res_bind (message (content_new (task1_prompt t))) (\<lambda>prompt.
       Inr (task_new (Id (task1_id t)) title prompt (map_option Id (task1_assignee t))
              (map_option Id (task1_retry_of t)), read_task_state (task1_state t))))"

definition task_valid :: "task \<Rightarrow> bool" where
  "task_valid t \<longleftrightarrow> name_valid (task_title t) \<and> content_valid (task_prompt t)"

definition queued :: "task \<Rightarrow> task" where
  "queued t = t\<lparr>task_state := TS_Queued\<rparr>"

lemma read_save_task: "task_valid t \<Longrightarrow> read_task (save_task t) = Inr (queued t, task_state t)"
  by (simp add: save_task_def read_task_def task_valid_def task_new_def queued_def text_forms)

end
