(* ===== verification/Stored_Chat.thy ===== *)
theory Stored_Chat
  imports Stored_Config
begin

text \<open>The stored records of \<open>src/persistence/codec.rs\<close> for conversations.\<close>

section \<open>Targets and authors\<close>

datatype node_target_v1 = NT1_Agent u64 | NT1_Task u64 | NT1_Handoff u64

fun save_target :: "node_target \<Rightarrow> node_target_v1" where
  "save_target (NT_Agent i) = NT1_Agent (id_get i)"
| "save_target (NT_Task i) = NT1_Task (id_get i)"
| "save_target (NT_Handoff i) = NT1_Handoff (id_get i)"

fun read_target :: "node_target_v1 \<Rightarrow> node_target" where
  "read_target (NT1_Agent i) = NT_Agent (Id i)"
| "read_target (NT1_Task i) = NT_Task (Id i)"
| "read_target (NT1_Handoff i) = NT_Handoff (Id i)"

lemma target_reads_back [simp]: "read_target (save_target t) = t"
  by (cases t) simp_all

lemma targets_read_back [simp]: "map read_target (map save_target ts) = ts"
  by (induction ts) simp_all

datatype chat_author_v1 = CA1_User | CA1_Agent u64

fun save_author :: "chat_author \<Rightarrow> chat_author_v1" where
  "save_author CA_User = CA1_User"
| "save_author (CA_Agent i) = CA1_Agent (id_get i)"

fun read_author :: "chat_author_v1 \<Rightarrow> chat_author" where
  "read_author CA1_User = CA_User"
| "read_author (CA1_Agent i) = CA_Agent (Id i)"

lemma author_reads_back [simp]: "read_author (save_author a) = a"
  by (cases a) simp_all

section \<open>Drafts, attachments and messages\<close>

record chat_draft_v1 =
  draft1_text :: string
  draft1_attachments :: "u64 list"
  draft1_mentions :: "node_target_v1 list"

definition save_draft :: "chat_draft \<Rightarrow> chat_draft_v1" where
  "save_draft d =
     \<lparr>draft1_text = dr_text d, draft1_attachments = map id_get (dr_attachments d),
      draft1_mentions = map save_target (dr_mentions d)\<rparr>"

definition read_draft :: "chat_draft_v1 \<Rightarrow> chat_draft read" where
  "read_draft d =
     message (chat_draft_new (draft1_text d) (map Id (draft1_attachments d))
       (map read_target (draft1_mentions d)))"

definition draft_valid :: "chat_draft \<Rightarrow> bool" where
  "draft_valid d = (chat_draft_new (dr_text d) (dr_attachments d) (dr_mentions d) = Inr d)"

interpretation draft_form: stored_form save_draft read_draft draft_valid
  by unfold_locales (simp add: save_draft_def read_draft_def draft_valid_def del: map_map)

record chat_attachment_v1 =
  attachment1_id :: u64
  attachment1_thread :: u64
  attachment1_storage_key :: string
  attachment1_display_name :: string
  attachment1_media_type :: string
  attachment1_byte_len :: u64

definition save_attachment :: "chat_attachment \<Rightarrow> chat_attachment_v1" where
  "save_attachment a =
     \<lparr>attachment1_id = id_get (ca_id a), attachment1_thread = id_get (ca_thread a),
      attachment1_storage_key = ca_storage_key a, attachment1_display_name = ca_display_name a,
      attachment1_media_type = ca_media_type a, attachment1_byte_len = ca_byte_len a\<rparr>"

definition read_attachment :: "chat_attachment_v1 \<Rightarrow> chat_attachment read" where
  "read_attachment a =
     message (chat_attachment_new (Id (attachment1_id a)) (Id (attachment1_thread a))
       (attachment1_storage_key a) (attachment1_display_name a) (attachment1_media_type a)
       (attachment1_byte_len a))"

definition attachment_valid :: "chat_attachment \<Rightarrow> bool" where
  "attachment_valid a =
     (chat_attachment_new (ca_id a) (ca_thread a) (ca_storage_key a) (ca_display_name a)
        (ca_media_type a) (ca_byte_len a) = Inr a)"

interpretation attachment_form: stored_form save_attachment read_attachment attachment_valid
  by unfold_locales (simp add: save_attachment_def read_attachment_def attachment_valid_def)

record chat_message_v1 =
  message1_id :: u64
  message1_thread :: u64
  message1_author :: chat_author_v1
  message1_content :: string
  message1_attachments :: "u64 list"
  message1_mentions :: "node_target_v1 list"
  message1_sent_at :: u64

definition save_message :: "chat_message \<Rightarrow> chat_message_v1" where
  "save_message m =
     \<lparr>message1_id = id_get (msg_id m), message1_thread = id_get (msg_thread m),
      message1_author = save_author (msg_author m), message1_content = content_str (msg_content m),
      message1_attachments = map id_get (msg_attachments m),
      message1_mentions = map save_target (msg_mentions m), message1_sent_at = msg_sent_at m\<rparr>"

definition read_message :: "chat_message_v1 \<Rightarrow> chat_message read" where
  "read_message m =
     res_bind (message (content_new (message1_content m))) (\<lambda>body.
       message (chat_message_new (Id (message1_id m)) (Id (message1_thread m))
         (read_author (message1_author m)) body (map Id (message1_attachments m))
         (map read_target (message1_mentions m)) (message1_sent_at m)))"

definition message_valid :: "chat_message \<Rightarrow> bool" where
  "message_valid m \<longleftrightarrow>
     content_valid (msg_content m) \<and>
     chat_message_new (msg_id m) (msg_thread m) (msg_author m) (msg_content m) (msg_attachments m)
       (msg_mentions m) (msg_sent_at m) = Inr m"

interpretation message_form: stored_form save_message read_message message_valid
  by unfold_locales
    (simp add: save_message_def read_message_def message_valid_def text_forms del: map_map)

section \<open>Threads\<close>

record chat_thread_v1 =
  thread1_id :: u64
  thread1_agent :: u64
  thread1_name :: string
  thread1_color :: string
  thread1_draft :: chat_draft_v1
  thread1_messages :: "chat_message_v1 list"

definition save_thread :: "chat_thread \<Rightarrow> chat_thread_v1" where
  "save_thread t =
     \<lparr>thread1_id = id_get (th_id t), thread1_agent = id_get (th_agent t),
      thread1_name = name_str (th_name t), thread1_color = thread_color_str (th_color t),
      thread1_draft = save_draft (th_draft t), thread1_messages = map save_message (th_messages t)\<rparr>"

text \<open>\<open>into_parts\<close>: the empty thread, its draft and its messages.\<close>

definition read_thread_parts :: "chat_thread_v1 \<Rightarrow> (chat_thread \<times> chat_draft \<times> chat_message list) read" where
  "read_thread_parts t =
     res_bind (message (name_new (thread1_name t))) (\<lambda>nm.
     res_bind (message (thread_color_new (thread1_color t))) (\<lambda>color.
     res_bind (read_draft (thread1_draft t)) (\<lambda>draft.
     res_bind (try_map read_message (thread1_messages t)) (\<lambda>messages.
       Inr (chat_thread_with_color (Id (thread1_id t)) (Id (thread1_agent t)) nm color, draft, messages)))))"

definition read_thread :: "chat_thread_v1 \<Rightarrow> chat_thread read" where
  "read_thread t =
     res_bind (read_thread_parts t) (\<lambda>(thread, draft, messages).
       if \<not> chat_draft_is_empty draft \<or> messages \<noteq> [] then Inl () else Inr thread)"

definition color_valid :: "thread_color \<Rightarrow> bool" where
  "color_valid c = (thread_color_new (thread_color_str c) = Inr c)"

interpretation color_form: stored_form thread_color_str "\<lambda>s. message (thread_color_new s)" color_valid
  by unfold_locales (simp add: color_valid_def)

definition thread_valid :: "chat_thread \<Rightarrow> bool" where
  "thread_valid t \<longleftrightarrow>
     name_valid (th_name t) \<and> color_valid (th_color t) \<and> draft_valid (th_draft t) \<and>
     list_all message_valid (th_messages t)"

definition opened :: "chat_thread \<Rightarrow> chat_thread" where
  "opened t = t\<lparr>th_draft := chat_draft_default, th_messages := []\<rparr>"

lemma read_save_thread_parts:
  "thread_valid t \<Longrightarrow> read_thread_parts (save_thread t) = Inr (opened t, th_draft t, th_messages t)"
  by (simp add: save_thread_def read_thread_parts_def thread_valid_def text_forms color_form.reads_back
      draft_form.reads_back message_form.reads_back_list chat_thread_with_color_def
      chat_thread_new_def opened_def)

lemma read_save_thread:
  assumes "thread_valid t" and "opened t = t"
  shows "read_thread (save_thread t) = Inr t"
proof -
  from assms(2) have "th_draft t = chat_draft_default" "th_messages t = []"
    by (metis opened_def chat_thread.select_convs chat_thread.surjective chat_thread.update_convs)+
  moreover have "chat_draft_is_empty chat_draft_default"
    unfolding chat_draft_is_empty_def chat_draft_default_def by code_simp
  ultimately show ?thesis
    using read_save_thread_parts [OF assms(1)] assms(2) by (simp add: read_thread_def)
qed

end
