(* ===== verification/Portal_Values.thy ===== *)
theory Portal_Values
  imports Canvas
begin

text \<open>
  The constructors of \<open>src/portal.rs\<close> that a portal node on the canvas goes through, with the
  check of \<open>src/security.rs\<close> that keeps credentials out of a stored address.
\<close>

datatype portal_validation_error =
    PV_EmptyText string
  | PV_TextTooLong string nat
  | PV_ControlCharacter string
  | PV_EmbeddedCredentials
  | PV_EmptyFrame
  | PV_FrameTooLarge nat
  | PV_AccessibilityTooLarge nat

definition max_selector_chars :: nat where "max_selector_chars = 2048"

definition portal_validate_text ::
  "string \<Rightarrow> nat \<Rightarrow> string \<Rightarrow> (portal_validation_error, unit) result" where
  "portal_validate_text value max_chars field =
     (if str_trim value = [] then Inl (PV_EmptyText field)
      else if max_chars < chars_count value then Inl (PV_TextTooLong field max_chars)
      else if CHR 0x00 \<in> set value then Inl (PV_ControlCharacter field)
      else Inr ())"

definition url_has_userinfo :: "string \<Rightarrow> bool" where
  "url_has_userinfo value =
     (case str_find ''://'' value of
        None \<Rightarrow> False
      | Some i \<Rightarrow> CHR 0x40 \<in> set (takeWhile (\<lambda>c. c \<notin> set ''/?#'') (drop (i + 3) value)))"

definition portal_target_new ::
  "portal_target_kind \<Rightarrow> string \<Rightarrow> (portal_validation_error, portal_target) result" where
  "portal_target_new kind selector =
     res_bind (portal_validate_text selector max_selector_chars ''portal target selector'') (\<lambda>_.
       if kind = PK_Browser \<and> url_has_userinfo selector then Inl PV_EmbeddedCredentials
       else Inr \<lparr>pt_kind = kind, pt_selector = selector\<rparr>)"

definition portal_presentation_new :: "bool \<Rightarrow> u16 \<Rightarrow> portal_presentation option" where
  "portal_presentation_new preserve limit =
     (if limit = 0 then None
      else Some \<lparr>pp_preserve_aspect_ratio = preserve, pp_frame_rate_limit = limit\<rparr>)"

definition portal_presentation_default :: portal_presentation where
  "portal_presentation_default = \<lparr>pp_preserve_aspect_ratio = True, pp_frame_rate_limit = 30\<rparr>"

definition portal_browser :: "string \<Rightarrow> (portal_validation_error, portal_config) result" where
  "portal_browser url =
     res_bind (portal_target_new PK_Browser url) (\<lambda>t.
       Inr \<lparr>pc_target = t, pc_presentation = portal_presentation_default\<rparr>)"

end
