(* ===== verification/Stored_Canvas.thy ===== *)
theory Stored_Canvas
  imports Stored_Chat Portal_Values
begin

text \<open>
  The stored records of \<open>src/persistence/codec.rs\<close> for the canvas and its floors. A stored layout
  is a list of nodes, groups and connections that \<open>CanvasLayout::new\<close> sorts again; floors are
  stored as the entries of their maps.
\<close>

section \<open>Node content\<close>

datatype diff_comparison_v1 = DC1_WorkingTreeAgainstHead

fun save_comparison :: "diff_comparison \<Rightarrow> diff_comparison_v1" where
  "save_comparison DC_WorkingTreeAgainstHead = DC1_WorkingTreeAgainstHead"

fun read_comparison :: "diff_comparison_v1 \<Rightarrow> diff_comparison" where
  "read_comparison DC1_WorkingTreeAgainstHead = DC_WorkingTreeAgainstHead"

lemma comparison_reads_back [simp]: "read_comparison (save_comparison c) = c"
  by (cases c) simp_all

datatype portal_target_kind_v1 = PK1_Browser | PK1_Android | PK1_Ios

fun save_portal_kind :: "portal_target_kind \<Rightarrow> portal_target_kind_v1" where
  "save_portal_kind PK_Browser = PK1_Browser"
| "save_portal_kind PK_Android = PK1_Android"
| "save_portal_kind PK_Ios = PK1_Ios"

fun read_portal_kind :: "portal_target_kind_v1 \<Rightarrow> portal_target_kind" where
  "read_portal_kind PK1_Browser = PK_Browser"
| "read_portal_kind PK1_Android = PK_Android"
| "read_portal_kind PK1_Ios = PK_Ios"

lemma portal_kind_reads_back [simp]: "read_portal_kind (save_portal_kind k) = k"
  by (cases k) simp_all

datatype shape_kind_v1 = SK1_Rectangle | SK1_Ellipse

fun save_shape_kind :: "shape_kind \<Rightarrow> shape_kind_v1" where
  "save_shape_kind SK_Rectangle = SK1_Rectangle"
| "save_shape_kind SK_Ellipse = SK1_Ellipse"

fun read_shape_kind :: "shape_kind_v1 \<Rightarrow> shape_kind" where
  "read_shape_kind SK1_Rectangle = SK_Rectangle"
| "read_shape_kind SK1_Ellipse = SK_Ellipse"

lemma shape_kind_reads_back [simp]: "read_shape_kind (save_shape_kind k) = k"
  by (cases k) simp_all

record normalized_point_v1 =
  np1_x :: f32
  np1_y :: f32

definition save_point :: "normalized_point \<Rightarrow> normalized_point_v1" where
  "save_point p = \<lparr>np1_x = normalized_x p, np1_y = normalized_y p\<rparr>"

definition read_point :: "normalized_point_v1 \<Rightarrow> normalized_point read" where
  "read_point p = message (normalized_point_new (np1_x p) (np1_y p))"

fun point_valid :: "normalized_point \<Rightarrow> bool" where
  "point_valid (NormalizedPoint x y) \<longleftrightarrow> unat x \<le> normalized_max \<and> unat y \<le> normalized_max"

interpretation point_form: stored_form save_point read_point point_valid
proof unfold_locales
  show "read_point (save_point p) = Inr p" if "point_valid p" for p
    using that
    by (cases p) (simp only: save_point_def read_point_def point_valid.simps normalized_point_v1.select_convs
        normalized_point_reads_back message_simps)
qed

text \<open>A color is stored as its four channels.\<close>

type_synonym color_v1 = "u8 \<times> u8 \<times> u8 \<times> u8"

fun color_channels :: "canvas_color \<Rightarrow> color_v1" where
  "color_channels (CanvasColor r g b a) = (r, g, b, a)"

fun read_color :: "color_v1 \<Rightarrow> canvas_color" where
  "read_color (r, g, b, a) = CanvasColor r g b a"

lemma color_reads_back [simp]: "read_color (color_channels c) = c"
  by (cases c) simp

fun stroke_valid :: "stroke_width \<Rightarrow> bool" where
  "stroke_valid (StrokeWidth n) \<longleftrightarrow> 0 < n \<and> unat n \<le> stroke_max_tenths"

interpretation stroke_form:
  stored_form stroke_width_get "\<lambda>v. message (stroke_width_new v)" stroke_valid
proof unfold_locales
  show "message (stroke_width_new (stroke_width_get w)) = Inr w" if "stroke_valid w" for w
    using that by (cases w) (simp only: stroke_valid.simps stroke_width_reads_back message_simps)
qed

definition path_valid :: "project_path \<Rightarrow> bool" where
  "path_valid p = (project_path_new (project_path_str p) = Inr p)"

interpretation path_form: stored_form project_path_str "\<lambda>s. message (project_path_new s)" path_valid
  by unfold_locales (simp add: path_valid_def)

definition canvas_text_valid :: "canvas_text \<Rightarrow> bool" where
  "canvas_text_valid t = (canvas_text_new (canvas_text_str t) = Inr t)"

interpretation canvas_text_form:
  stored_form canvas_text_str "\<lambda>s. message (canvas_text_new s)" canvas_text_valid
  by unfold_locales (simp add: canvas_text_valid_def)

datatype canvas_node_content_v1 =
    CC1_Note string string
  | CC1_FileTree string
  | CC1_Artifact string
  | CC1_Diff string diff_comparison_v1
  | CC1_Text string
  | CC1_Portal portal_target_kind_v1 string bool u16
  | CC1_Shape shape_kind_v1 color_v1 color_v1 f32
  | CC1_Arrow normalized_point_v1 normalized_point_v1 color_v1 f32 "string option"
  | CC1_Freehand "normalized_point_v1 list" color_v1 f32

text \<open>A reference has no stored content: \<open>unreachable!\<close>, as \<open>save_node\<close> stores it in \<open>target\<close>.\<close>

fun save_content :: "canvas_node_content \<Rightarrow> canvas_node_content_v1 option" where
  "save_content (CC_Reference _) = None"
| "save_content (CC_Note path title) = Some (CC1_Note (project_path_str path) (name_str title))"
| "save_content (CC_FileTree root) = Some (CC1_FileTree (project_path_str root))"
| "save_content (CC_Artifact path) = Some (CC1_Artifact (project_path_str path))"
| "save_content (CC_Diff path comparison) =
     Some (CC1_Diff (project_path_str path) (save_comparison comparison))"
| "save_content (CC_Text markdown) = Some (CC1_Text (canvas_text_str markdown))"
| "save_content (CC_Portal config) =
     Some (CC1_Portal (save_portal_kind (pt_kind (pc_target config))) (pt_selector (pc_target config))
       (pp_preserve_aspect_ratio (pc_presentation config)) (pp_frame_rate_limit (pc_presentation config)))"
| "save_content (CC_Shape s) =
     Some (CC1_Shape (save_shape_kind (shape_kind s)) (color_channels (shape_fill s))
       (color_channels (shape_stroke s)) (stroke_width_get (shape_stroke_width s)))"
| "save_content (CC_Arrow a) =
     Some (CC1_Arrow (save_point (arrow_start a)) (save_point (arrow_end a))
       (color_channels (arrow_stroke a)) (stroke_width_get (arrow_stroke_width a))
       (map_option name_str (arrow_label a)))"
| "save_content (CC_Freehand f) =
     Some (CC1_Freehand (map save_point (free_points f)) (color_channels (free_stroke f))
       (stroke_width_get (free_stroke_width f)))"

fun is_portal :: "canvas_node_content_v1 \<Rightarrow> bool" where
  "is_portal (CC1_Portal _ _ _ _) = True"
| "is_portal _ = False"

fun read_content :: "canvas_node_content_v1 \<Rightarrow> canvas_node_content read" where
  "read_content (CC1_Note path title) =
     res_bind (message (project_path_new path)) (\<lambda>path.
     res_bind (message (name_new title)) (\<lambda>title. Inr (CC_Note path title)))"
| "read_content (CC1_FileTree root) =
     res_bind (message (project_path_new root)) (\<lambda>root. Inr (CC_FileTree root))"
| "read_content (CC1_Artifact path) =
     res_bind (message (project_path_new path)) (\<lambda>path. Inr (CC_Artifact path))"
| "read_content (CC1_Diff path comparison) =
     res_bind (message (project_path_new path)) (\<lambda>path. Inr (CC_Diff path (read_comparison comparison)))"
| "read_content (CC1_Text markdown) =
     res_bind (message (canvas_text_new markdown)) (\<lambda>text. Inr (CC_Text text))"
| "read_content (CC1_Portal kind selector preserve limit) =
     res_bind (message (portal_target_new (read_portal_kind kind) selector)) (\<lambda>target.
     res_bind (ok_or (portal_presentation_new preserve limit) ()) (\<lambda>presentation.
       Inr (CC_Portal \<lparr>pc_target = target, pc_presentation = presentation\<rparr>)))"
| "read_content (CC1_Shape kind fill stroke width) =
     res_bind (message (stroke_width_new width)) (\<lambda>width.
       Inr (CC_Shape \<lparr>shape_kind = read_shape_kind kind, shape_fill = read_color fill,
                      shape_stroke = read_color stroke, shape_stroke_width = width\<rparr>))"
| "read_content (CC1_Arrow start end_point stroke width label) =
     res_bind (read_point start) (\<lambda>start.
     res_bind (read_point end_point) (\<lambda>end_point.
     res_bind (message (stroke_width_new width)) (\<lambda>width.
     res_bind (read_option (\<lambda>s. message (name_new s)) label) (\<lambda>label.
       Inr (CC_Arrow \<lparr>arrow_start = start, arrow_end = end_point, arrow_stroke = read_color stroke,
                      arrow_stroke_width = width, arrow_label = label\<rparr>)))))"
| "read_content (CC1_Freehand points stroke width) =
     res_bind (try_map read_point points) (\<lambda>points.
     res_bind (message (stroke_width_new width)) (\<lambda>width.
     res_bind (message (freehand_new points (read_color stroke) width)) (\<lambda>f. Inr (CC_Freehand f))))"

definition portal_valid :: "portal_config \<Rightarrow> bool" where
  "portal_valid c \<longleftrightarrow>
     portal_target_new (pt_kind (pc_target c)) (pt_selector (pc_target c)) = Inr (pc_target c) \<and>
     pp_frame_rate_limit (pc_presentation c) \<noteq> 0"

text \<open>Owned content, everything but a reference.\<close>

fun owned_valid :: "canvas_node_content \<Rightarrow> bool" where
  "owned_valid (CC_Reference _) \<longleftrightarrow> False"
| "owned_valid (CC_Note path title) \<longleftrightarrow> path_valid path \<and> name_valid title"
| "owned_valid (CC_FileTree root) \<longleftrightarrow> path_valid root"
| "owned_valid (CC_Artifact path) \<longleftrightarrow> path_valid path"
| "owned_valid (CC_Diff path _) \<longleftrightarrow> path_valid path"
| "owned_valid (CC_Text text) \<longleftrightarrow> canvas_text_valid text"
| "owned_valid (CC_Portal config) \<longleftrightarrow> portal_valid config"
| "owned_valid (CC_Shape s) \<longleftrightarrow> stroke_valid (shape_stroke_width s)"
| "owned_valid (CC_Arrow a) \<longleftrightarrow>
     point_valid (arrow_start a) \<and> point_valid (arrow_end a) \<and> stroke_valid (arrow_stroke_width a) \<and>
     valid_option name_valid (arrow_label a)"
| "owned_valid (CC_Freehand f) \<longleftrightarrow>
     list_all point_valid (free_points f) \<and> stroke_valid (free_stroke_width f) \<and>
     freehand_new (free_points f) (free_stroke f) (free_stroke_width f) = Inr f"

lemma read_save_content:
  assumes "owned_valid c" obtains s where "save_content c = Some s" and "read_content s = Inr c"
proof -
  have "\<exists>s. save_content c = Some s \<and> read_content s = Inr c"
    using assms
    by (cases c) (simp_all add: text_forms path_form.reads_back canvas_text_form.reads_back
        stroke_form.reads_back point_form.reads_back point_form.reads_back_list portal_valid_def
        portal_presentation_new_def)
  then show ?thesis using that by blast
qed

section \<open>Nodes, groups and connections\<close>

record node_v1 =
  node1_id :: u64
  node1_target :: "node_target_v1 option"
  node1_content :: "canvas_node_content_v1 option"
  node1_x :: f32
  node1_y :: f32
  node1_width :: f32
  node1_height :: f32
  node1_z_index :: int

definition save_node :: "node \<Rightarrow> node_v1" where
  "save_node n =
     \<lparr>node1_id = id_get (node_ident n),
      node1_target = (case node_content n of CC_Reference t \<Rightarrow> Some (save_target t) | _ \<Rightarrow> None),
      node1_content = save_content (node_content n),
      node1_x = point_x (node_position n), node1_y = point_y (node_position n),
      node1_width = size_width (node_size n), node1_height = size_height (node_size n),
      node1_z_index = node_z_index n\<rparr>"

definition has_portal_content :: "node_v1 \<Rightarrow> bool" where
  "has_portal_content n = (case node1_content n of None \<Rightarrow> False | Some c \<Rightarrow> is_portal c)"

definition read_node_content ::
  "node_target_v1 option \<Rightarrow> canvas_node_content_v1 option \<Rightarrow> canvas_node_content read" where
  "read_node_content target content =
     (case (target, content) of
        (Some t, None) \<Rightarrow> Inr (CC_Reference (read_target t))
      | (None, Some c) \<Rightarrow> read_content c
      | (Some _, Some _) \<Rightarrow> Inl ()
      | (None, None) \<Rightarrow> Inl ())"

definition read_node :: "node_v1 \<Rightarrow> node read" where
  "read_node n =
     res_bind (read_node_content (node1_target n) (node1_content n)) (\<lambda>content.
     res_bind (message (canvas_point_new (node1_x n) (node1_y n))) (\<lambda>position.
     res_bind (message (canvas_size_new (node1_width n) (node1_height n))) (\<lambda>size.
       Inr \<lparr>node_ident = Id (node1_id n), node_content = content, node_position = position,
            node_size = size, node_z_index = node1_z_index n\<rparr>)))"

definition node_valid :: "node \<Rightarrow> bool" where
  "node_valid n \<longleftrightarrow>
     (node_reference n \<noteq> None \<or> owned_valid (node_content n)) \<and>
     canvas_point_new (point_x (node_position n)) (point_y (node_position n)) = Inr (node_position n) \<and>
     canvas_size_new (size_width (node_size n)) (size_height (node_size n)) = Inr (node_size n)"

lemma read_save_node_content:
  assumes "content_reference c \<noteq> None \<or> owned_valid c"
  shows "read_node_content (case c of CC_Reference t \<Rightarrow> Some (save_target t) | _ \<Rightarrow> None)
    (save_content c) = Inr c"
proof (cases "owned_valid c")
  case True
  obtain s where "save_content c = Some s" "read_content s = Inr c"
    using read_save_content [OF True] .
  with True show ?thesis by (cases c) (simp_all add: read_node_content_def)
next
  case False
  with assms show ?thesis
    by (cases c) (simp_all add: read_node_content_def content_reference_def)
qed

interpretation node_form: stored_form save_node read_node node_valid
  by unfold_locales
    (simp add: save_node_def read_node_def node_valid_def node_reference_def read_save_node_content)

record node_group_v1 =
  group1_id :: u64
  group1_members :: "u64 list"

definition save_group :: "node_group \<Rightarrow> node_group_v1" where
  "save_group g =
     \<lparr>group1_id = id_get (grp_ident g), group1_members = map id_get (bm_keys (grp_members g))\<rparr>"

definition read_group :: "node_group_v1 \<Rightarrow> node_group read" where
  "read_group g =
     (if length (group1_members g) < 2 then Inl ()
      else Inr (node_group_new (Id (group1_id g)) (map Id (group1_members g))))"

definition group_valid :: "node_group \<Rightarrow> bool" where
  "group_valid g \<longleftrightarrow> 2 \<le> bm_len (grp_members g)"

interpretation group_form: stored_form save_group read_group group_valid
  by unfold_locales
    (simp add: save_group_def read_group_def group_valid_def node_group_new_def bm_len_def bm_keys_def
      bs_of_list_keys [unfolded bm_keys_def] del: map_map)

datatype connection_kind_v1 =
  CK1_Coordination | CK1_Assignment | CK1_Dependency | CK1_Handoff | CK1_Reference

fun save_connection_kind :: "connection_kind \<Rightarrow> connection_kind_v1" where
  "save_connection_kind CK_Coordination = CK1_Coordination"
| "save_connection_kind CK_Assignment = CK1_Assignment"
| "save_connection_kind CK_Dependency = CK1_Dependency"
| "save_connection_kind CK_Handoff = CK1_Handoff"
| "save_connection_kind CK_Reference = CK1_Reference"

fun read_connection_kind :: "connection_kind_v1 \<Rightarrow> connection_kind" where
  "read_connection_kind CK1_Coordination = CK_Coordination"
| "read_connection_kind CK1_Assignment = CK_Assignment"
| "read_connection_kind CK1_Dependency = CK_Dependency"
| "read_connection_kind CK1_Handoff = CK_Handoff"
| "read_connection_kind CK1_Reference = CK_Reference"

lemma connection_kind_reads_back [simp]: "read_connection_kind (save_connection_kind k) = k"
  by (cases k) simp_all

record connection_v1 =
  con1_id :: u64
  con1_source :: u64
  con1_target :: u64
  con1_kind :: connection_kind_v1

definition save_connection :: "connection \<Rightarrow> connection_v1" where
  "save_connection c =
     \<lparr>con1_id = id_get (con_ident c), con1_source = id_get (con_source c),
      con1_target = id_get (con_target c), con1_kind = save_connection_kind (con_kind c)\<rparr>"

definition read_connection :: "connection_v1 \<Rightarrow> connection" where
  "read_connection c =
     \<lparr>con_ident = Id (con1_id c), con_source = Id (con1_source c), con_target = Id (con1_target c),
      con_kind = read_connection_kind (con1_kind c)\<rparr>"

lemma connection_reads_back [simp]: "read_connection (save_connection c) = c"
  by (simp add: save_connection_def read_connection_def)

lemma connections_read_back [simp]: "map read_connection (map save_connection cs) = cs"
  by (induction cs) simp_all

section \<open>Layouts\<close>

record canvas_layout_v1 =
  layout1_nodes :: "node_v1 list"
  layout1_groups :: "node_group_v1 list"
  layout1_connections :: "connection_v1 list"

definition save_layout :: "canvas_layout \<Rightarrow> canvas_layout_v1" where
  "save_layout l =
     \<lparr>layout1_nodes = map save_node (cl_nodes l), layout1_groups = map save_group (cl_groups l),
      layout1_connections = map save_connection (cl_connections l)\<rparr>"

definition layout_has_owned_content :: "canvas_layout_v1 \<Rightarrow> bool" where
  "layout_has_owned_content l = list_ex (\<lambda>n. node1_content n \<noteq> None) (layout1_nodes l)"

definition layout_has_portal_content :: "canvas_layout_v1 \<Rightarrow> bool" where
  "layout_has_portal_content l = list_ex has_portal_content (layout1_nodes l)"

definition read_layout :: "canvas_layout_v1 \<Rightarrow> canvas_layout read" where
  "read_layout l =
     res_bind (try_map read_node (layout1_nodes l)) (\<lambda>nodes.
     res_bind (try_map read_group (layout1_groups l)) (\<lambda>groups.
       Inr (canvas_layout_new nodes groups (map read_connection (layout1_connections l)))))"

definition layout_valid :: "canvas_layout \<Rightarrow> bool" where
  "layout_valid l \<longleftrightarrow>
     list_all node_valid (cl_nodes l) \<and> list_all group_valid (cl_groups l) \<and>
     canvas_layout_new (cl_nodes l) (cl_groups l) (cl_connections l) = l"

interpretation layout_form: stored_form save_layout read_layout layout_valid
  by unfold_locales
    (simp add: save_layout_def read_layout_def layout_valid_def node_form.reads_back_list
      group_form.reads_back_list del: map_map)

section \<open>Floors\<close>

datatype floor_owner_v1 = FO1_Agent u64 | FO1_Task u64

fun save_owner :: "floor_owner \<Rightarrow> floor_owner_v1" where
  "save_owner (FO_Agent i) = FO1_Agent (id_get i)"
| "save_owner (FO_Task i) = FO1_Task (id_get i)"

fun read_owner :: "floor_owner_v1 \<Rightarrow> floor_owner" where
  "read_owner (FO1_Agent i) = FO_Agent (Id i)"
| "read_owner (FO1_Task i) = FO_Task (Id i)"

lemma owner_reads_back [simp]: "read_owner (save_owner o') = o'"
  by (cases o') simp_all

lemma owner_option [simp]: "map_option read_owner (map_option save_owner v) = v"
  by (cases v) simp_all

datatype floor_lifecycle_v1 = FL1_Available | FL1_Missing | FL1_Removed

fun save_lifecycle :: "floor_lifecycle \<Rightarrow> floor_lifecycle_v1" where
  "save_lifecycle FL_Available = FL1_Available"
| "save_lifecycle FL_Missing = FL1_Missing"
| "save_lifecycle FL_Removed = FL1_Removed"

fun read_lifecycle :: "floor_lifecycle_v1 \<Rightarrow> floor_lifecycle" where
  "read_lifecycle FL1_Available = FL_Available"
| "read_lifecycle FL1_Missing = FL_Missing"
| "read_lifecycle FL1_Removed = FL_Removed"

lemma lifecycle_reads_back [simp]: "read_lifecycle (save_lifecycle l) = l"
  by (cases l) simp_all

record floor_v1 =
  floor1_name :: string
  floor1_directory :: string
  floor1_repository :: string
  floor1_branch :: "string option"
  floor1_base_revision :: string
  floor1_base_branch :: "string option"
  floor1_managed :: bool
  floor1_ownership_token :: "string option"
  floor1_owner :: "floor_owner_v1 option"
  floor1_dirty :: bool
  floor1_lifecycle :: floor_lifecycle_v1

record floors_v1 =
  floors1_entries :: "(u64 \<times> floor_v1) list"
  floors1_node_floors :: "(u64 \<times> u64) list"
  floors1_active :: "u64 option"

definition floors_v1_default :: floors_v1 where
  "floors_v1_default = \<lparr>floors1_entries = [], floors1_node_floors = [], floors1_active = None\<rparr>"

definition save_floor :: "floor \<Rightarrow> floor_v1" where
  "save_floor f =
     \<lparr>floor1_name = name_str (fl_name f), floor1_directory = workspace_directory_str (fl_directory f),
      floor1_repository = workspace_directory_str (fl_repository f), floor1_branch = fl_branch f,
      floor1_base_revision = fl_base_revision f, floor1_base_branch = fl_base_branch f,
      floor1_managed = fl_managed f, floor1_ownership_token = fl_ownership_token f,
      floor1_owner = map_option save_owner (fl_owner f), floor1_dirty = fl_dirty f,
      floor1_lifecycle = save_lifecycle (fl_lifecycle f)\<rparr>"

definition read_floor :: "floor_v1 \<Rightarrow> floor read" where
  "read_floor f =
     res_bind (message (name_new (floor1_name f))) (\<lambda>nm.
     res_bind (message (workspace_directory_new (floor1_directory f))) (\<lambda>dir.
     res_bind (message (workspace_directory_new (floor1_repository f))) (\<lambda>repository.
       Inr \<lparr>fl_name = nm, fl_directory = dir, fl_repository = repository, fl_branch = floor1_branch f,
            fl_base_revision = floor1_base_revision f, fl_base_branch = floor1_base_branch f,
            fl_managed = floor1_managed f, fl_ownership_token = floor1_ownership_token f,
            fl_owner = map_option read_owner (floor1_owner f), fl_dirty = floor1_dirty f,
            fl_lifecycle = read_lifecycle (floor1_lifecycle f)\<rparr>)))"

definition floor_valid :: "floor \<Rightarrow> bool" where
  "floor_valid f \<longleftrightarrow>
     name_valid (fl_name f) \<and> directory_valid (fl_directory f) \<and> directory_valid (fl_repository f)"

interpretation floor_form: stored_form save_floor read_floor floor_valid
  by unfold_locales (simp add: save_floor_def read_floor_def floor_valid_def text_forms del: option.map_comp)

definition save_floors :: "floors \<Rightarrow> floors_v1" where
  "save_floors f =
     \<lparr>floors1_entries = map (\<lambda>(i, f). (i, save_floor f)) (entries (fs_entries f)),
      floors1_node_floors = map (\<lambda>(n, i). (id_get n, i)) (entries (fs_node_floors f)),
      floors1_active = fs_active f\<rparr>"

definition read_floors :: "floors_v1 \<Rightarrow> floors read" where
  "read_floors f =
     res_bind (try_map (\<lambda>(i, f). res_bind (read_floor f) (\<lambda>f. Inr (i, f))) (floors1_entries f)) (\<lambda>es.
       Inr \<lparr>fs_entries = bm_of_list es,
            fs_node_floors = bm_of_list (map (\<lambda>(n, i). (Id n, i)) (floors1_node_floors f)),
            fs_active = floors1_active f\<rparr>)"

definition floors_valid :: "floors \<Rightarrow> bool" where
  "floors_valid f \<longleftrightarrow> list_all floor_valid (bm_values (fs_entries f))"

interpretation floors_form: stored_form save_floors read_floors floors_valid
proof unfold_locales
  fix f assume "floors_valid f"
  then have valid: "list_all (\<lambda>(i, f). floor_valid f) (entries (fs_entries f))"
    by (simp add: floors_valid_def bm_values_def list.pred_map case_prod_unfold comp_def)
  have "try_map (\<lambda>(i, f). res_bind (read_floor f) (\<lambda>f. Inr (i, f)))
      (map (\<lambda>(i, f). (i, save_floor f)) es) = Inr es"
    if "list_all (\<lambda>(i, f). floor_valid f) es" for es
    using that by (induction es) (auto simp: floor_form.reads_back)
  note floors = this [OF valid]
  have "map (\<lambda>(n, i). (Id n, i)) (map (\<lambda>(n, i). (id_get n, i)) ns) = ns" for ns :: "(node_id \<times> u64) list"
    by (induction ns) auto
  then show "read_floors (save_floors f) = Inr f"
    by (simp add: save_floors_def read_floors_def floors del: map_map)
qed

end
