(* ===== verification/Stored_Handoff.thy ===== *)
theory Stored_Handoff
  imports Stored_Chat Handoff_Steps
begin

text \<open>
  The stored record of a handoff, \<open>src/persistence/codec.rs\<close>. Reading it does not copy the
  fields: it opens a new handoff and repeats every recorded operation on it, the attempts of the
  first message, the progress, the answer and then the attempts of the follow-up messages. It
  gives the stored handoff back because the operations can only have happened in that order.
\<close>

section \<open>Values\<close>

record routine_value_entry_v1 =
  entry1_key :: string
  entry1_value :: string

definition message_id_valid :: "handoff_message_id \<Rightarrow> bool" where
  "message_id_valid m = (handoff_message_id_new (message_id_str m) = Inr m)"

interpretation message_id_form:
  stored_form message_id_str "\<lambda>s. message (handoff_message_id_new s)" message_id_valid
  by unfold_locales (simp add: message_id_valid_def)

definition save_value_entry :: "'a key \<times> routine_value \<Rightarrow> routine_value_entry_v1" where
  "save_value_entry e = \<lparr>entry1_key = key_str (fst e), entry1_value = routine_value_str (snd e)\<rparr>"

definition read_value_entry ::
  "(string \<Rightarrow> (routine_error, 'a key) result) \<Rightarrow> routine_value_entry_v1 \<Rightarrow> ('a key \<times> routine_value) read" where
  "read_value_entry new_key e =
     res_bind (message (new_key (entry1_key e))) (\<lambda>k.
     res_bind (message (routine_value_new (entry1_value e))) (\<lambda>v. Inr (k, v)))"

definition value_valid :: "routine_value \<Rightarrow> bool" where
  "value_valid v = (routine_value_new (routine_value_str v) = Inr v)"

definition value_entry_valid ::
  "(string \<Rightarrow> (routine_error, 'a key) result) \<Rightarrow> 'a key \<times> routine_value \<Rightarrow> bool" where
  "value_entry_valid new_key e \<longleftrightarrow> new_key (key_str (fst e)) = Inr (fst e) \<and> value_valid (snd e)"

interpretation value_entry_form:
  stored_form save_value_entry "read_value_entry new_key" "value_entry_valid new_key" for new_key
  by unfold_locales
    (simp add: save_value_entry_def read_value_entry_def value_entry_valid_def value_valid_def)

fun save_payload :: "handoff_payload \<Rightarrow> u64 + string" where
  "save_payload (HP_Task t) = Inl (id_get t)"
| "save_payload (HP_Question c) = Inr (content_str c)"

fun read_payload :: "u64 + string \<Rightarrow> handoff_payload read" where
  "read_payload (Inl t) = Inr (HP_Task (Id t))"
| "read_payload (Inr s) = res_bind (message (content_new s)) (\<lambda>c. Inr (HP_Question c))"

fun payload_valid :: "handoff_payload \<Rightarrow> bool" where
  "payload_valid (HP_Task _) \<longleftrightarrow> True"
| "payload_valid (HP_Question c) \<longleftrightarrow> content_valid c"

interpretation payload_form: stored_form save_payload read_payload payload_valid
proof unfold_locales
  show "read_payload (save_payload p) = Inr p" if "payload_valid p" for p
    using that by (cases p) (simp_all add: text_forms)
qed

section \<open>Attempts\<close>

datatype delivery_mechanism_v1 = DM1_Codex | DM1_Claude | DM1_OpenCode

fun save_mechanism :: "delivery_mechanism \<Rightarrow> delivery_mechanism_v1" where
  "save_mechanism DM_CodexTerminal = DM1_Codex"
| "save_mechanism DM_ClaudeTerminal = DM1_Claude"
| "save_mechanism DM_OpenCodeTerminal = DM1_OpenCode"

fun read_mechanism :: "delivery_mechanism_v1 \<Rightarrow> delivery_mechanism" where
  "read_mechanism DM1_Codex = DM_CodexTerminal"
| "read_mechanism DM1_Claude = DM_ClaudeTerminal"
| "read_mechanism DM1_OpenCode = DM_OpenCodeTerminal"

lemma mechanism_reads_back [simp]: "read_mechanism (save_mechanism m) = m"
  by (cases m) simp_all

datatype delivery_outcome_v1 = DO1_Started | DO1_Delivered u64 | DO1_Failed u64 string bool

fun save_outcome :: "delivery_outcome \<Rightarrow> delivery_outcome_v1" where
  "save_outcome DO_Started = DO1_Started"
| "save_outcome (DO_Delivered t) = DO1_Delivered t"
| "save_outcome (DO_Failed t err retryable) = DO1_Failed t (content_str err) retryable"

record delivery_attempt_v1 =
  attempt1_ordinal :: u32
  attempt1_message_id :: string
  attempt1_started_at :: u64
  attempt1_mechanism :: delivery_mechanism_v1
  attempt1_outcome :: delivery_outcome_v1

definition save_attempt :: "delivery_attempt \<Rightarrow> delivery_attempt_v1" where
  "save_attempt a =
     \<lparr>attempt1_ordinal = att_ordinal a, attempt1_message_id = message_id_str (att_message_id a),
      attempt1_started_at = att_started_at a, attempt1_mechanism = save_mechanism (att_mechanism a),
      attempt1_outcome = save_outcome (att_outcome a)\<rparr>"

definition restore_outcome :: "u32 \<Rightarrow> delivery_outcome_v1 \<Rightarrow> handoff \<Rightarrow> handoff read" where
  "restore_outcome ordinal outcome h =
     (case outcome of
        DO1_Started \<Rightarrow> Inr h
      | DO1_Delivered finished_at \<Rightarrow> message (complete_delivery ordinal finished_at h)
      | DO1_Failed finished_at err retryable \<Rightarrow>
          res_bind (message (content_new err)) (\<lambda>err.
            message (fail_delivery ordinal finished_at err retryable h)))"

definition restore_delivery_attempt :: "handoff \<Rightarrow> delivery_attempt_v1 \<Rightarrow> handoff read" where
  "restore_delivery_attempt h a =
     res_bind (message (handoff_message_id_new (attempt1_message_id a))) (\<lambda>mid.
     res_bind (message (begin_delivery mid (read_mechanism (attempt1_mechanism a))
         (attempt1_started_at a) h)) (\<lambda>(h, ordinal).
       if ordinal \<noteq> attempt1_ordinal a then Inl ()
       else restore_outcome ordinal (attempt1_outcome a) h))"

definition restore_delivery_attempts :: "handoff \<Rightarrow> delivery_attempt_v1 list \<Rightarrow> handoff read" where
  "restore_delivery_attempts = try_fold restore_delivery_attempt"

section \<open>Progress, response and termination\<close>

record handoff_progress_v1 =
  progress1_message_id :: string
  progress1_body :: string
  progress1_reported_at :: u64

definition save_progress :: "handoff_progress \<Rightarrow> handoff_progress_v1" where
  "save_progress p =
     \<lparr>progress1_message_id = message_id_str (prog_message_id p),
      progress1_body = content_str (prog_body p), progress1_reported_at = prog_reported_at p\<rparr>"

definition read_progress :: "handoff_progress_v1 \<Rightarrow> handoff_progress read" where
  "read_progress p =
     res_bind (message (handoff_message_id_new (progress1_message_id p))) (\<lambda>mid.
     res_bind (message (content_new (progress1_body p))) (\<lambda>body.
       Inr \<lparr>prog_message_id = mid, prog_body = body, prog_reported_at = progress1_reported_at p\<rparr>))"

definition progress_valid :: "handoff_progress \<Rightarrow> bool" where
  "progress_valid p \<longleftrightarrow> message_id_valid (prog_message_id p) \<and> content_valid (prog_body p)"

interpretation progress_form: stored_form save_progress read_progress progress_valid
  by unfold_locales
    (simp add: save_progress_def read_progress_def progress_valid_def text_forms message_id_form.reads_back)

datatype handoff_response_status_v1 = HR1_Completed | HR1_Failed | HR1_Blocked

fun save_status :: "handoff_response_status \<Rightarrow> handoff_response_status_v1" where
  "save_status HR_Completed = HR1_Completed"
| "save_status HR_Failed = HR1_Failed"
| "save_status HR_Blocked = HR1_Blocked"

fun read_status :: "handoff_response_status_v1 \<Rightarrow> handoff_response_status" where
  "read_status HR1_Completed = HR_Completed"
| "read_status HR1_Failed = HR_Failed"
| "read_status HR1_Blocked = HR_Blocked"

lemma status_reads_back [simp]: "read_status (save_status s) = s"
  by (cases s) simp_all

record handoff_response_v1 =
  response1_message_id :: string
  response1_status :: handoff_response_status_v1
  response1_body :: string
  response1_responded_at :: u64
  response1_outputs :: "routine_value_entry_v1 list"

definition save_response :: "handoff_response \<Rightarrow> handoff_response_v1" where
  "save_response r =
     \<lparr>response1_message_id = message_id_str (resp_message_id r),
      response1_status = save_status (resp_status r), response1_body = content_str (resp_body r),
      response1_responded_at = resp_responded_at r,
      response1_outputs = map save_value_entry (entries (resp_outputs r))\<rparr>"

definition read_response :: "handoff_response_v1 \<Rightarrow> handoff_response read" where
  "read_response r =
     res_bind (try_map (read_value_entry output_key_new) (response1_outputs r)) (\<lambda>outputs.
     res_bind (message (handoff_message_id_new (response1_message_id r))) (\<lambda>mid.
     res_bind (message (content_new (response1_body r))) (\<lambda>body.
       Inr \<lparr>resp_message_id = mid, resp_status = read_status (response1_status r), resp_body = body,
            resp_responded_at = response1_responded_at r, resp_outputs = bm_of_list outputs\<rparr>)))"

definition response_valid :: "handoff_response \<Rightarrow> bool" where
  "response_valid r \<longleftrightarrow>
     message_id_valid (resp_message_id r) \<and> content_valid (resp_body r) \<and>
     list_all (value_entry_valid output_key_new) (entries (resp_outputs r))"

interpretation response_form: stored_form save_response read_response response_valid
  by unfold_locales
    (simp add: save_response_def read_response_def response_valid_def text_forms
      message_id_form.reads_back value_entry_form.reads_back_list)

datatype handoff_termination_v1 = HT1_Cancelled string string u64 | HT1_TimedOut u64

fun save_termination :: "handoff_termination \<Rightarrow> handoff_termination_v1" where
  "save_termination (HT_Cancelled mid reason t) =
     HT1_Cancelled (message_id_str mid) (content_str reason) t"
| "save_termination (HT_TimedOut t) = HT1_TimedOut t"

fun restore_termination :: "handoff_termination_v1 \<Rightarrow> handoff \<Rightarrow> handoff read" where
  "restore_termination (HT1_Cancelled mid reason t) h =
     res_bind (message (handoff_message_id_new mid)) (\<lambda>mid.
     res_bind (message (content_new reason)) (\<lambda>reason. message (cancel_handoff mid reason t h)))"
| "restore_termination (HT1_TimedOut t) h = message (time_out t h)"

fun termination_valid :: "handoff_termination \<Rightarrow> bool" where
  "termination_valid (HT_Cancelled mid reason _) \<longleftrightarrow> message_id_valid mid \<and> content_valid reason"
| "termination_valid (HT_TimedOut _) \<longleftrightarrow> True"

section \<open>Handoffs\<close>

record handoff_v1 =
  handoff1_id :: u64
  handoff1_source :: u64
  handoff1_routine_origin :: "(u64 \<times> u64) option"
  handoff1_recipient :: u64
  handoff1_payload :: "u64 + string"
  handoff1_message_id :: "string option"
  handoff1_parent :: "u64 option"
  handoff1_created_at :: "u64 option"
  handoff1_response_deadline :: "u64 option"
  handoff1_delivery_attempts :: "delivery_attempt_v1 list"
  handoff1_progress :: "handoff_progress_v1 list"
  handoff1_response :: "handoff_response_v1 option"
  handoff1_termination :: "handoff_termination_v1 option"

definition save_handoff :: "handoff \<Rightarrow> handoff_v1" where
  "save_handoff h =
     \<lparr>handoff1_id = id_get (ho_id h),
      handoff1_source = (case ho_origin h of HO_Agent a \<Rightarrow> id_get a | HO_Routine _ _ \<Rightarrow> 0),
      handoff1_routine_origin =
        (case ho_origin h of HO_Agent _ \<Rightarrow> None | HO_Routine run step \<Rightarrow> Some (id_get run, id_get step)),
      handoff1_recipient = id_get (ho_recipient h), handoff1_payload = save_payload (ho_payload h),
      handoff1_message_id = map_option message_id_str (ho_message_id h),
      handoff1_parent = map_option id_get (ho_parent h), handoff1_created_at = ho_created_at h,
      handoff1_response_deadline = ho_response_deadline h,
      handoff1_delivery_attempts = map save_attempt (ho_attempts h),
      handoff1_progress = map save_progress (ho_progress h),
      handoff1_response = map_option save_response (ho_response h),
      handoff1_termination = map_option save_termination (ho_termination h)\<rparr>"

definition has_orchestration_fields :: "handoff_v1 \<Rightarrow> bool" where
  "has_orchestration_fields h \<longleftrightarrow>
     handoff1_message_id h \<noteq> None \<or> handoff1_parent h \<noteq> None \<or> handoff1_created_at h \<noteq> None \<or>
     handoff1_response_deadline h \<noteq> None \<or> handoff1_delivery_attempts h \<noteq> [] \<or>
     handoff1_progress h \<noteq> [] \<or> handoff1_response h \<noteq> None \<or> handoff1_termination h \<noteq> None"

definition uses_routine_fields :: "handoff_v1 \<Rightarrow> bool" where
  "uses_routine_fields h \<longleftrightarrow>
     handoff1_routine_origin h \<noteq> None \<or>
     (case handoff1_response h of None \<Rightarrow> False | Some r \<Rightarrow> response1_outputs r \<noteq> [])"

definition read_origin :: "handoff_v1 \<Rightarrow> handoff_origin" where
  "read_origin h =
     (case handoff1_routine_origin h of
        Some (run, step) \<Rightarrow> HO_Routine (Id run) (Id step)
      | None \<Rightarrow> HO_Agent (Id (handoff1_source h)))"

definition restore_progress :: "handoff \<Rightarrow> handoff_progress_v1 list \<Rightarrow> handoff read" where
  "restore_progress =
     try_fold (\<lambda>h p. res_bind (read_progress p) (\<lambda>p. message (report_progress p h)))"

definition restore_response :: "handoff_response_v1 option \<Rightarrow> handoff \<Rightarrow> handoff read" where
  "restore_response r h =
     (case r of None \<Rightarrow> Inr h
      | Some r \<Rightarrow> res_bind (read_response r) (\<lambda>r. message (respond r h)))"

definition read_tracked :: "handoff_v1 \<Rightarrow> handoff_payload \<Rightarrow> string \<Rightarrow> handoff read" where
  "read_tracked s payload root =
     res_bind (ok_or (handoff1_created_at s) ()) (\<lambda>created_at.
     res_bind (message (handoff_message_id_new root)) (\<lambda>mid.
     res_bind (message (handoff_tracked (Id (handoff1_id s)) mid (read_origin s)
         (Id (handoff1_recipient s)) payload (map_option Id (handoff1_parent s)) created_at
         (handoff1_response_deadline s))) (\<lambda>h.
     res_bind (restore_delivery_attempts h
         (filter (\<lambda>a. attempt1_message_id a = message_id_str mid) (handoff1_delivery_attempts s))) (\<lambda>h.
     res_bind (restore_progress h (handoff1_progress s)) (\<lambda>h.
     res_bind (restore_response (handoff1_response s) h) (\<lambda>h.
     res_bind (case handoff1_termination s of None \<Rightarrow> Inr h | Some t \<Rightarrow> restore_termination t h) (\<lambda>h.
       restore_delivery_attempts h
         (filter (\<lambda>a. attempt1_message_id a \<noteq> message_id_str mid) (handoff1_delivery_attempts s)))))))))"

definition read_handoff :: "handoff_v1 \<Rightarrow> handoff read" where
  "read_handoff s =
     res_bind (read_payload (handoff1_payload s)) (\<lambda>payload.
       case handoff1_message_id s of
         Some root \<Rightarrow> read_tracked s payload root
       | None \<Rightarrow>
           if has_orchestration_fields s then Inl ()
           else Inr (handoff_with_origin (Id (handoff1_id s)) (read_origin s)
                       (Id (handoff1_recipient s)) payload))"

text \<open>In the \<open>None\<close> branch \<open>has_orchestration_fields\<close> is the disjunction the code writes out.\<close>

section \<open>What can be read back\<close>

text \<open>
  The order in which the operations happened: no attempt follows the delivery of its message, and
  the attempts of the first message come before those of the messages that answer it.
\<close>

abbreviation after_delivery :: "delivery_attempt \<Rightarrow> delivery_attempt \<Rightarrow> bool" where
  "after_delivery a b \<equiv> outcome_is_delivered (att_outcome a) \<longrightarrow> att_message_id a \<noteq> att_message_id b"

definition handoff_replayable :: "handoff \<Rightarrow> bool" where
  "handoff_replayable h \<longleftrightarrow>
     handoff_wf h \<and> sorted_wrt after_delivery (ho_attempts h) \<and>
     sorted_wrt (\<lambda>a b. Some (att_message_id b) = ho_message_id h \<longrightarrow>
       Some (att_message_id a) = ho_message_id h) (ho_attempts h) \<and>
     (ho_message_id h = None \<longleftrightarrow> ho_created_at h = None) \<and>
     (ho_message_id h = None \<longrightarrow> ho_parent h = None \<and> ho_response_deadline h = None) \<and>
     (\<forall>c d. ho_created_at h = Some c \<longrightarrow> ho_response_deadline h = Some d \<longrightarrow> c < d) \<and>
     (\<forall>t. ho_termination h = Some (HT_TimedOut t) \<longrightarrow>
        (\<exists>d. ho_response_deadline h = Some d \<and> d \<le> t))"

definition handoff_valid :: "handoff \<Rightarrow> bool" where
  "handoff_valid h \<longleftrightarrow>
     payload_valid (ho_payload h) \<and> valid_option message_id_valid (ho_message_id h) \<and>
     list_all (\<lambda>a. message_id_valid (att_message_id a) \<and>
       (\<forall>t e r. att_outcome a = DO_Failed t e r \<longrightarrow> content_valid e)) (ho_attempts h) \<and>
     list_all progress_valid (ho_progress h) \<and> valid_option response_valid (ho_response h) \<and>
     valid_option termination_valid (ho_termination h)"

lemma handoff_with_origin_replayable:
  "handoff_replayable (handoff_with_origin hid origin recipient payload)"
  using handoff_with_origin_wf by (simp add: handoff_replayable_def handoff_with_origin_def)

lemma handoff_tracked_replayable:
  "handoff_tracked hid mid origin recipient payload parent t d = Inr h \<Longrightarrow> handoff_replayable h"
  using handoff_tracked_wf [of hid mid origin recipient payload parent t d h]
  by (auto simp: handoff_replayable_def handoff_tracked_def not_le split: if_splits option.splits)

lemma finish_delivery_last:
  assumes "started_attempt h n t = Inr a" and "handoff_wf h"
  obtains ys where "ho_attempts h = ys @ [a]"
    and "\<And>out. finish_delivery n out h = h\<lparr>ho_attempts := ys @ [a\<lparr>att_outcome := out\<rparr>]\<rparr>"
proof -
  obtain ys zs where split: "ho_attempts h = ys @ a # zs" "att_outcome a = DO_Started"
    and fin: "\<And>out. finish_delivery n out h = h\<lparr>ho_attempts := ys @ a\<lparr>att_outcome := out\<rparr> # zs\<rparr>"
    using assms(1) by (rule finish_deliveryE) blast
  have "zs = []"
    using assms(2) split by (cases zs rule: rev_cases) (auto simp: handoff_wf_def handoff_log_ok_def butlast_append)
  with split fin show ?thesis by (intro that) simp_all
qed

lemma finish_delivery_replayable:
  assumes start: "started_attempt h n t = Inr a" and ok: "handoff_replayable h"
    and wf: "handoff_wf (finish_delivery n out h)"
  shows "handoff_replayable (finish_delivery n out h)"
proof -
  have "handoff_wf h" using ok by (simp add: handoff_replayable_def)
  then obtain ys where ys: "ho_attempts h = ys @ [a]"
    and fin: "finish_delivery n out h = h\<lparr>ho_attempts := ys @ [a\<lparr>att_outcome := out\<rparr>]\<rparr>"
    using finish_delivery_last [OF start] by metis
  from ok wf show ?thesis unfolding handoff_replayable_def fin ys by (auto simp: sorted_wrt_append)
qed

lemma begin_delivery_replayable:
  assumes start: "begin_delivery mid mech t h = Inr (h', n)" and ok: "handoff_replayable h"
    and wf: "handoff_wf h'"
  shows "handoff_replayable h'"
proof -
  from start have facts: "has_delivery_message h mid" "\<not> is_message_delivered h mid"
    "\<not> (ho_message_id h = Some mid \<and> (ho_response h \<noteq> None \<or> ho_termination h \<noteq> None))"
    and h': "h' = h\<lparr>ho_attempts := ho_attempts h @
      [\<lparr>att_ordinal = n, att_message_id = mid, att_started_at = t, att_mechanism = mech,
        att_outcome = DO_Started\<rparr>]\<rparr>"
    unfolding begin_delivery_Inr_iff by blast+
  have "Some (att_message_id a) = ho_message_id h" if "a \<in> set (ho_attempts h)" "Some mid = ho_message_id h" for a
  proof (rule ccontr)
    assume other: "Some (att_message_id a) \<noteq> ho_message_id h"
    have log: "handoff_wf h" using ok by (simp add: handoff_replayable_def)
    then have "has_delivery_message h (att_message_id a)"
      using that(1) by (simp add: handoff_wf_def handoff_log_ok_def)
    with other facts(3) that(2) have "ho_progress h \<noteq> []"
      by (auto simp: has_delivery_message_def split: option.splits)
    with log have "is_delivered h" by (simp add: handoff_wf_def)
    with facts(2) that(2) show False by (auto simp: is_delivered_def split: option.splits)
  qed
  moreover have "after_delivery a b"
    if "a \<in> set (ho_attempts h)" "att_message_id b = mid" for a b
    using facts(2) that by (auto simp: is_message_delivered_def list_ex_iff)
  ultimately show ?thesis
    using ok wf unfolding handoff_replayable_def h' by (auto simp: sorted_wrt_append)
qed

lemma handoff_step_replayable:
  assumes "handoff_step h h'" and ok: "handoff_replayable h"
  shows "handoff_replayable h'"
proof -
  have wf: "handoff_wf h'"
    using handoff_step_wf [OF assms(1)] ok by (simp add: handoff_replayable_def)
  show ?thesis
    using assms(1)
  proof cases
    case (step_begin mid mech t n)
    then show ?thesis using begin_delivery_replayable ok wf by blast
  next
    case (step_complete n t)
    then show ?thesis using finish_delivery_replayable ok wf
      unfolding complete_delivery_Inr_iff by blast
  next
    case (step_fail n t e r)
    then show ?thesis using finish_delivery_replayable ok wf
      unfolding fail_delivery_Inr_iff by blast
  next
    case (step_progress p)
    with ok wf show ?thesis unfolding report_progress_Inr_iff handoff_replayable_def by auto
  next
    case (step_respond r)
    with ok wf show ?thesis unfolding respond_Inr_iff handoff_replayable_def by auto
  next
    case (step_cancel mid c t)
    with ok wf show ?thesis unfolding cancel_handoff_Inr_iff handoff_replayable_def by auto
  next
    case (step_time_out t)
    with ok wf show ?thesis unfolding time_out_Inr_iff handoff_replayable_def by auto
  qed
qed

end
