(* ===== verification/Stored_Handoff_Back.thy ===== *)
theory Stored_Handoff_Back
  imports Stored_Handoff
begin

text \<open>Repeating the recorded operations gives the stored handoff back.\<close>

section \<open>Attempts\<close>

definition log_replayable :: "handoff \<Rightarrow> delivery_attempt list \<Rightarrow> bool" where
  "log_replayable h as \<longleftrightarrow>
     map (\<lambda>a. unat (att_ordinal a)) as = [1..<length as + 1] \<and>
     (\<forall>a\<in>set as. attempt_time_ok a \<and> has_delivery_message h (att_message_id a)) \<and>
     (\<forall>a\<in>set (butlast as). att_outcome a \<noteq> DO_Started) \<and> sorted_wrt after_delivery as"

lemma butlast_prefix: "a \<in> set (butlast xs) \<Longrightarrow> a \<in> set (butlast (xs @ ys))"
  by (cases "ys = []") (auto simp: butlast_append dest: in_set_butlastD)

lemma log_replayable_append:
  assumes "log_replayable h (xs @ ys)"
  shows "log_replayable h xs"
proof -
  have "map (\<lambda>a. unat (att_ordinal a)) xs = take (length xs) (map (\<lambda>a. unat (att_ordinal a)) (xs @ ys))"
    by simp
  also have "\<dots> = take (length xs) [1..<length (xs @ ys) + 1]"
    using assms unfolding log_replayable_def by metis
  also have "\<dots> = [1..<length xs + 1]" by (simp add: take_upt del: upt_Suc)
  finally have "map (\<lambda>a. unat (att_ordinal a)) xs = [1..<length xs + 1]" .
  moreover have "\<forall>a\<in>set (butlast xs). att_outcome a \<noteq> DO_Started"
    using assms butlast_prefix unfolding log_replayable_def by metis
  ultimately show ?thesis
    using assms by (simp add: log_replayable_def sorted_wrt_append del: attempt_time_ok.simps)
qed

lemma log_replayable_ordinal:
  assumes "log_replayable h (xs @ a # ys)"
  shows "unat (att_ordinal a) = length xs + 1" and "\<forall>x\<in>set xs. att_ordinal x \<noteq> att_ordinal a"
proof -
  let ?o = "\<lambda>a. unat (att_ordinal a)"
  have os: "map ?o (xs @ a # ys) = [1..<length (xs @ a # ys) + 1]"
    using assms unfolding log_replayable_def by blast
  then have "map ?o (xs @ a # ys) ! length xs = [1..<length (xs @ a # ys) + 1] ! length xs" by simp
  then show "?o a = length xs + 1" by (simp add: nth_append del: upt_Suc)
  have "distinct (map ?o (xs @ a # ys))" unfolding os by simp
  then have "?o a \<notin> ?o ` set xs" by auto
  then show "\<forall>x\<in>set xs. att_ordinal x \<noteq> att_ordinal a" by (metis image_eqI)
qed

lemma find_last_ordinal:
  "\<forall>x\<in>set xs. att_ordinal x \<noteq> att_ordinal a \<Longrightarrow> att_ordinal b = att_ordinal a \<Longrightarrow>
     List.find (\<lambda>x. att_ordinal x = att_ordinal a) (xs @ [b]) = Some b \<and>
     update_first (\<lambda>x. att_ordinal x = att_ordinal a) f (xs @ [b]) = xs @ [f b]"
  by (induction xs) auto

lemma restore_delivery_attempt_back:
  assumes log: "log_replayable h (xs @ [a])"
    and open_log: "\<forall>x\<in>set xs. att_outcome x \<noteq> DO_Started"
    and root: "\<not> (ho_message_id h = Some (att_message_id a) \<and> handoff_closed h)"
    and valid: "message_id_valid (att_message_id a)"
      "\<And>t e r. att_outcome a = DO_Failed t e r \<Longrightarrow> content_valid e"
  shows "restore_delivery_attempt (h\<lparr>ho_attempts := xs\<rparr>) (save_attempt a) =
    Inr (h\<lparr>ho_attempts := xs @ [a]\<rparr>)"
proof -
  define s where "s = a\<lparr>att_outcome := DO_Started\<rparr>"
  have s: "\<lparr>att_ordinal = att_ordinal a, att_message_id = att_message_id a,
      att_started_at = att_started_at a, att_mechanism = att_mechanism a, att_outcome = DO_Started\<rparr> = s"
    by (simp add: s_def)
  note ordinal = log_replayable_ordinal [OF log]
  have fresh: "\<not> is_message_delivered (h\<lparr>ho_attempts := xs\<rparr>) (att_message_id a)"
    using log by (auto simp: log_replayable_def sorted_wrt_append is_message_delivered_def list_ex_iff)
  have known: "has_delivery_message h (att_message_id a)" and time: "attempt_time_ok a"
    using log by (simp_all add: log_replayable_def)
  have begin': "begin_delivery (att_message_id a) (att_mechanism a) (att_started_at a) (h\<lparr>ho_attempts := xs\<rparr>) =
      Inr (h\<lparr>ho_attempts := xs @ [s]\<rparr>, att_ordinal a)"
    using root open_log fresh known ordinal
    unfolding begin_delivery_Inr_iff handoff_closed_def
    by (simp add: has_delivery_message_mono(4) s)
  have start: "started_attempt (h\<lparr>ho_attempts := xs @ [s]\<rparr>) (att_ordinal a) t = Inr s"
    if "att_started_at a \<le> t" for t
    using find_last_ordinal [OF ordinal(2), of s id] that by (simp add: started_attempt_Inr_iff s_def)
  have fin: "finish_delivery (att_ordinal a) out (h\<lparr>ho_attempts := xs @ [s]\<rparr>) =
      h\<lparr>ho_attempts := xs @ [s\<lparr>att_outcome := out\<rparr>]\<rparr>" for out
    using find_last_ordinal [OF ordinal(2), of s "\<lambda>x. x\<lparr>att_outcome := out\<rparr>"]
    by (simp add: finish_delivery_def s_def)
  have a: "s\<lparr>att_outcome := att_outcome a\<rparr> = a" by (simp add: s_def)
  have "restore_outcome (att_ordinal a) (save_outcome (att_outcome a)) (h\<lparr>ho_attempts := xs @ [s]\<rparr>) =
      Inr (h\<lparr>ho_attempts := xs @ [a]\<rparr>)"
  proof (cases "att_outcome a")
    case DO_Started
    then have "s = a" by (simp add: s_def)
    with DO_Started show ?thesis by (simp add: restore_outcome_def)
  next
    case (DO_Delivered t)
    with time have "att_started_at a \<le> t" by simp
    with DO_Delivered a show ?thesis
      by (simp add: restore_outcome_def complete_delivery_def start fin)
  next
    case (DO_Failed t e r)
    with time have "att_started_at a \<le> t" by simp
    with DO_Failed a show ?thesis
      by (simp add: restore_outcome_def fail_delivery_def start fin valid(2) content_form.reads_back)
  qed
  with begin' show ?thesis
    by (simp add: restore_delivery_attempt_def save_attempt_def valid(1) message_id_form.reads_back)
qed

lemma restore_delivery_attempts_back:
  assumes "log_replayable h (xs @ ys)"
    and "ys \<noteq> [] \<Longrightarrow> \<forall>x\<in>set xs. att_outcome x \<noteq> DO_Started"
    and "\<forall>a\<in>set ys. \<not> (ho_message_id h = Some (att_message_id a) \<and> handoff_closed h)"
    and "\<forall>a\<in>set ys. message_id_valid (att_message_id a) \<and>
      (\<forall>t e r. att_outcome a = DO_Failed t e r \<longrightarrow> content_valid e)"
  shows "restore_delivery_attempts (h\<lparr>ho_attempts := xs\<rparr>) (map save_attempt ys) =
    Inr (h\<lparr>ho_attempts := xs @ ys\<rparr>)"
  using assms
proof (induction ys arbitrary: xs)
  case Nil
  then show ?case by (simp add: restore_delivery_attempts_def)
next
  case (Cons a ys)
  have "log_replayable h ((xs @ [a]) @ ys)" using Cons.prems(1) by simp
  moreover from this have "log_replayable h (xs @ [a])" by (rule log_replayable_append)
  then have "restore_delivery_attempt (h\<lparr>ho_attempts := xs\<rparr>) (save_attempt a) =
      Inr (h\<lparr>ho_attempts := xs @ [a]\<rparr>)"
    using Cons.prems by (intro restore_delivery_attempt_back) auto
  moreover have "\<forall>x\<in>set (xs @ [a]). att_outcome x \<noteq> DO_Started" if "ys \<noteq> []"
    using Cons.prems(1) that by (auto simp: log_replayable_def butlast_append)
  ultimately show ?case
    using Cons.IH [of "xs @ [a]"] Cons.prems(3,4) by (simp add: restore_delivery_attempts_def)
qed

section \<open>Progress\<close>

lemma restore_progress_back:
  assumes "list_all progress_valid ps" and "distinct (map prog_message_id (qs @ ps))"
    and "ps \<noteq> [] \<Longrightarrow> is_delivered h" and "ho_response h = None" and "ho_termination h = None"
  shows "restore_progress (h\<lparr>ho_progress := qs\<rparr>) (map save_progress ps) =
    Inr (h\<lparr>ho_progress := qs @ ps\<rparr>)"
  using assms
proof (induction ps arbitrary: qs)
  case Nil
  then show ?case by (simp add: restore_progress_def)
next
  case (Cons p ps)
  have "is_delivered h" using Cons.prems(3) by simp
  with Cons.prems have "report_progress p (h\<lparr>ho_progress := qs\<rparr>) = Inr (h\<lparr>ho_progress := qs @ [p]\<rparr>)"
    unfolding report_progress_Inr_iff by (auto simp: rev_image_eqI)
  moreover have "restore_progress (h\<lparr>ho_progress := qs @ [p]\<rparr>) (map save_progress ps) =
      Inr (h\<lparr>ho_progress := (qs @ [p]) @ ps\<rparr>)"
    using Cons.prems by (intro Cons.IH) simp_all
  ultimately show ?case
    using Cons.prems(1) by (simp add: restore_progress_def progress_form.reads_back)
qed

section \<open>The handoff\<close>

lemma sorted_split:
  "sorted_wrt (\<lambda>a b. P b \<longrightarrow> P a) xs \<Longrightarrow> xs = filter P xs @ filter (\<lambda>a. \<not> P a) xs"
proof (induction xs)
  case (Cons a xs)
  then show ?case
  proof (cases "P a")
    case False
    with Cons.prems have "filter P xs = []" by (auto simp: filter_empty_conv)
    with Cons False show ?thesis by simp
  qed simp
qed simp

lemma filter_attempts:
  "message_id_valid m \<Longrightarrow> \<forall>a\<in>set as. message_id_valid (att_message_id a) \<Longrightarrow>
     filter (\<lambda>a. attempt1_message_id a = message_id_str m) (map save_attempt as) =
       map save_attempt (filter (\<lambda>a. att_message_id a = m) as) \<and>
     filter (\<lambda>a. attempt1_message_id a \<noteq> message_id_str m) (map save_attempt as) =
       map save_attempt (filter (\<lambda>a. att_message_id a \<noteq> m) as)"
proof (induction as)
  case (Cons a as)
  then have "(message_id_str (att_message_id a) = message_id_str m) = (att_message_id a = m)"
    using message_id_form.save_inject by auto
  with Cons show ?case by (simp add: save_attempt_def)
qed simp

lemma read_save_origin: "read_origin (save_handoff h) = ho_origin h"
  by (cases "ho_origin h") (simp_all add: read_origin_def save_handoff_def)

text \<open>The fields a handoff is opened with and, after them, those its operations write.\<close>

abbreviation opened_handoff :: "handoff \<Rightarrow> handoff" where
  "opened_handoff h \<equiv> h\<lparr>ho_progress := [], ho_response := None, ho_termination := None, ho_attempts := []\<rparr>"

lemma read_tracked_back:
  assumes ok: "handoff_replayable h" and valid: "handoff_valid h" and root: "ho_message_id h = Some m"
  shows "read_tracked (save_handoff h) (ho_payload h) (message_id_str m) = Inr h"
proof -
  let ?root = "\<lambda>a. att_message_id a = m"
  define rs where "rs = filter ?root (ho_attempts h)"
  define fs where "fs = filter (\<lambda>a. \<not> ?root a) (ho_attempts h)"
  have m: "message_id_valid m" using valid root by (simp add: handoff_valid_def)
  have ids: "\<forall>a\<in>set (ho_attempts h). message_id_valid (att_message_id a) \<and>
      (\<forall>t e r. att_outcome a = DO_Failed t e r \<longrightarrow> content_valid e)"
    using valid by (simp add: handoff_valid_def list_all_iff)
  have wf: "handoff_wf h" using ok by (simp add: handoff_replayable_def)
  have split: "ho_attempts h = rs @ fs"
    using ok unfolding rs_def fs_def
    by (intro sorted_split) (simp add: handoff_replayable_def root)
  have log: "log_replayable h (rs @ fs)"
    using ok unfolding split [symmetric]
    by (simp add: handoff_replayable_def handoff_wf_def handoff_log_ok_def log_replayable_def)
  obtain c where c: "ho_created_at h = Some c" using ok root by (auto simp: handoff_replayable_def)
  have tracked: "handoff_tracked (ho_id h) m (ho_origin h) (ho_recipient h) (ho_payload h) (ho_parent h) c
      (ho_response_deadline h) = Inr (opened_handoff h)"
    using ok root c by (auto simp: handoff_tracked_def handoff_replayable_def split: option.splits)
  let ?h0 = "opened_handoff h"
  have "log_replayable ?h0 rs"
    using log_replayable_append [OF log] root
    by (auto simp: log_replayable_def has_delivery_message_def rs_def)
  moreover have "\<forall>a\<in>set rs. message_id_valid (att_message_id a) \<and>
      (\<forall>t e r. att_outcome a = DO_Failed t e r \<longrightarrow> content_valid e)"
    using ids by (auto simp: rs_def)
  ultimately have first: "restore_delivery_attempts ?h0 (map save_attempt rs) = Inr (?h0\<lparr>ho_attempts := rs\<rparr>)"
    using restore_delivery_attempts_back [of ?h0 "[]" rs] by (simp add: handoff_closed_def)
  let ?h1 = "?h0\<lparr>ho_attempts := rs\<rparr>"
  have deliv: "is_delivered h' = is_delivered h"
    if "ho_message_id h' = Some m" and "ho_attempts h' = rs" for h'
    using that by (auto simp: is_delivered_def root is_message_delivered_def list_ex_iff rs_def)
  have "restore_progress (?h1\<lparr>ho_progress := []\<rparr>) (map save_progress (ho_progress h)) =
      Inr (?h1\<lparr>ho_progress := [] @ ho_progress h\<rparr>)"
    using wf valid
    by (intro restore_progress_back) (simp_all add: handoff_wf_def handoff_valid_def deliv root)
  moreover have "?h1\<lparr>ho_progress := []\<rparr> = ?h1" by (rule handoff.equality) simp_all
  ultimately have second: "restore_progress ?h1 (map save_progress (ho_progress h)) =
      Inr (?h1\<lparr>ho_progress := ho_progress h\<rparr>)" by (simp only: append_Nil)
  let ?h2 = "?h1\<lparr>ho_progress := ho_progress h\<rparr>"
  have third: "restore_response (map_option save_response (ho_response h)) ?h2 =
      Inr (?h2\<lparr>ho_response := ho_response h\<rparr>)"
  proof (cases "ho_response h")
    case (Some r)
    then have "is_delivered h" "response_valid r"
      using wf valid by (simp_all add: handoff_wf_def handoff_valid_def)
    with Some show ?thesis
      by (simp add: restore_response_def response_form.reads_back message_Inr_iff respond_Inr_iff
          deliv root)
  qed (simp add: restore_response_def)
  let ?h3 = "?h2\<lparr>ho_response := ho_response h\<rparr>"
  have fourth: "(case map_option save_termination (ho_termination h) of None \<Rightarrow> Inr ?h3
      | Some t \<Rightarrow> restore_termination t ?h3) = Inr (?h3\<lparr>ho_termination := ho_termination h\<rparr>)"
  proof (cases "ho_termination h")
    case (Some t)
    then have "ho_response h = None" "termination_valid t"
      using wf valid by (simp_all add: handoff_wf_def handoff_valid_def)
    with Some ok root show ?thesis
      by (cases t) (auto simp: handoff_replayable_def text_forms message_id_form.reads_back
          message_Inr_iff cancel_handoff_Inr_iff time_out_Inr_iff)
  qed simp
  have h: "?h3\<lparr>ho_termination := ho_termination h\<rparr> = h\<lparr>ho_attempts := rs\<rparr>" by simp
  have "\<forall>x\<in>set rs. att_outcome x \<noteq> DO_Started" if "fs \<noteq> []"
    using log that by (auto simp: log_replayable_def butlast_append)
  moreover have "\<forall>a\<in>set fs. \<not> (ho_message_id h = Some (att_message_id a) \<and> handoff_closed h)"
    by (auto simp: fs_def root)
  moreover have "\<forall>a\<in>set fs. message_id_valid (att_message_id a) \<and>
      (\<forall>t e r. att_outcome a = DO_Failed t e r \<longrightarrow> content_valid e)"
    using ids by (auto simp: fs_def)
  moreover have "h\<lparr>ho_attempts := rs @ fs\<rparr> = h" unfolding split [symmetric] by simp
  ultimately have fifth: "restore_delivery_attempts (h\<lparr>ho_attempts := rs\<rparr>) (map save_attempt fs) = Inr h"
    using restore_delivery_attempts_back [OF log] by simp
  have stored:
    "filter (\<lambda>a. attempt1_message_id a = message_id_str m) (map save_attempt (ho_attempts h)) = map save_attempt rs"
    "filter (\<lambda>a. attempt1_message_id a \<noteq> message_id_str m) (map save_attempt (ho_attempts h)) = map save_attempt fs"
    using filter_attempts [OF m, of "ho_attempts h"] ids unfolding rs_def fs_def by blast+
  have m_back: "handoff_message_id_new (message_id_str m) = Inr m" using m by (simp add: message_id_valid_def)
  have fields:
    "handoff1_created_at (save_handoff h) = Some c" "Id (handoff1_id (save_handoff h)) = ho_id h"
    "Id (handoff1_recipient (save_handoff h)) = ho_recipient h"
    "map_option Id (handoff1_parent (save_handoff h)) = ho_parent h"
    "handoff1_response_deadline (save_handoff h) = ho_response_deadline h"
    "handoff1_delivery_attempts (save_handoff h) = map save_attempt (ho_attempts h)"
    "handoff1_progress (save_handoff h) = map save_progress (ho_progress h)"
    "handoff1_response (save_handoff h) = map_option save_response (ho_response h)"
    "handoff1_termination (save_handoff h) = map_option save_termination (ho_termination h)"
    by (simp_all add: save_handoff_def c del: option.map_comp)
  show ?thesis
    unfolding read_tracked_def fields read_save_origin m_back message_simps res_bind_simps ok_or_simps
      tracked stored first second third fourth h fifth ..
qed

interpretation handoff_form:
  stored_form save_handoff read_handoff "\<lambda>h. handoff_replayable h \<and> handoff_valid h"
proof unfold_locales
  fix h assume h: "handoff_replayable h \<and> handoff_valid h"
  have payload: "read_payload (save_payload (ho_payload h)) = Inr (ho_payload h)"
    using h by (simp add: payload_form.reads_back handoff_valid_def)
  show "read_handoff (save_handoff h) = Inr h"
  proof (cases "ho_message_id h")
    case None
    have no_attempts: "ho_attempts h = []"
    proof (rule ccontr)
      assume "ho_attempts h \<noteq> []"
      then obtain a where "a \<in> set (ho_attempts h)" by (cases "ho_attempts h") auto
      with h None show False
        by (auto simp: handoff_replayable_def handoff_wf_def handoff_log_ok_def has_delivery_message_def
            is_delivered_def split: option.splits)
    qed
    have bare: "ho_parent h = None" "ho_created_at h = None" "ho_response_deadline h = None"
      "ho_progress h = []" "ho_response h = None" "ho_termination h = None"
      using h None by (auto simp: handoff_replayable_def handoff_wf_def is_delivered_def)
    have "\<not> has_orchestration_fields (save_handoff h)"
      using None no_attempts bare by (simp add: has_orchestration_fields_def save_handoff_def)
    moreover have "handoff_with_origin (ho_id h) (ho_origin h) (ho_recipient h) (ho_payload h) = h"
      using None no_attempts bare by (simp add: handoff_with_origin_def)
    ultimately show ?thesis
      using payload None read_save_origin [of h]
      by (simp add: read_handoff_def) (simp add: save_handoff_def)
  next
    case (Some m)
    then show ?thesis
      using payload read_tracked_back [of h m] h
      by (simp add: read_handoff_def) (simp add: save_handoff_def)
  qed
qed

end
