(* ===== verification/Stored_Routine.thy ===== *)
theory Stored_Routine
  imports Stored_Handoff Routine_Run
begin

text \<open>
  The stored records of routines, \<open>src/persistence/codec.rs\<close>: versions with their inputs and
  steps, triggers, and the routine that \<open>Routine::restore\<close> puts together again.
\<close>

section \<open>Keys\<close>

text \<open>A key is read by the constructor of its kind.\<close>

definition key_valid :: "(string \<Rightarrow> (routine_error, 'a key) result) \<Rightarrow> 'a key \<Rightarrow> bool" where
  "key_valid new_key k = (new_key (key_str k) = Inr k)"

interpretation key_form:
  stored_form key_str "\<lambda>s. message (new_key s)" "key_valid new_key" for new_key
  by unfold_locales (simp add: key_valid_def)

interpretation value_form:
  stored_form routine_value_str "\<lambda>s. message (routine_value_new s)" value_valid
  by unfold_locales (simp add: value_valid_def)

text \<open>\<open>collect::<Result<Vec<_>, _>>().map_err(..)\<close> over keys.\<close>

definition read_keys :: "(string \<Rightarrow> (routine_error, 'a key) result) \<Rightarrow> string list \<Rightarrow> 'a key list read" where
  "read_keys new_key ss = try_map (\<lambda>s. message (new_key s)) ss"

lemma read_keys_back: "list_all (key_valid new_key) ks \<Longrightarrow> read_keys new_key (map key_str ks) = Inr ks"
  by (simp add: read_keys_def key_form.reads_back_list)

section \<open>Inputs and steps\<close>

record routine_input_v1 =
  input1_key :: string
  input1_label :: string
  input1_required :: bool
  input1_default :: "string option"

definition save_input :: "routine_input_declaration \<Rightarrow> routine_input_v1" where
  "save_input i =
     \<lparr>input1_key = key_str (in_key i), input1_label = name_str (in_label i),
      input1_required = in_required i, input1_default = map_option routine_value_str (in_default i)\<rparr>"

definition read_input :: "routine_input_v1 \<Rightarrow> routine_input_declaration read" where
  "read_input i =
     res_bind (message (input_key_new (input1_key i))) (\<lambda>k.
     res_bind (message (name_new (input1_label i))) (\<lambda>label.
     res_bind (read_option (\<lambda>s. message (routine_value_new s)) (input1_default i)) (\<lambda>dflt.
       Inr \<lparr>in_key = k, in_label = label, in_required = input1_required i, in_default = dflt\<rparr>)))"

definition input_valid :: "routine_input_declaration \<Rightarrow> bool" where
  "input_valid i \<longleftrightarrow>
     key_valid input_key_new (in_key i) \<and> name_valid (in_label i) \<and> valid_option value_valid (in_default i)"

interpretation input_form: stored_form save_input read_input input_valid
  by unfold_locales
    (simp add: save_input_def read_input_def input_valid_def text_forms key_form.reads_back
      value_form.reads_back_option)

datatype routine_binding_source_v1 =
    BS1_Input string
  | BS1_StepOutput u64 string
  | BS1_Literal string

fun save_source :: "routine_binding_source \<Rightarrow> routine_binding_source_v1" where
  "save_source (BS_Input k) = BS1_Input (key_str k)"
| "save_source (BS_StepOutput sid k) = BS1_StepOutput (id_get sid) (key_str k)"
| "save_source (BS_Literal v) = BS1_Literal (routine_value_str v)"

fun read_source :: "routine_binding_source_v1 \<Rightarrow> routine_binding_source read" where
  "read_source (BS1_Input s) = res_bind (message (input_key_new s)) (\<lambda>k. Inr (BS_Input k))"
| "read_source (BS1_StepOutput sid s) =
     res_bind (message (output_key_new s)) (\<lambda>k. Inr (BS_StepOutput (Id sid) k))"
| "read_source (BS1_Literal s) = res_bind (message (routine_value_new s)) (\<lambda>v. Inr (BS_Literal v))"

fun source_valid :: "routine_binding_source \<Rightarrow> bool" where
  "source_valid (BS_Input k) \<longleftrightarrow> key_valid input_key_new k"
| "source_valid (BS_StepOutput _ k) \<longleftrightarrow> key_valid output_key_new k"
| "source_valid (BS_Literal v) \<longleftrightarrow> value_valid v"

interpretation source_form: stored_form save_source read_source source_valid
proof unfold_locales
  show "read_source (save_source s) = Inr s" if "source_valid s" for s
    using that by (cases s) (simp_all add: key_form.reads_back value_form.reads_back)
qed

record routine_binding_v1 =
  binding1_name :: string
  binding1_source :: routine_binding_source_v1

definition save_binding :: "routine_input_key \<times> routine_binding_source \<Rightarrow> routine_binding_v1" where
  "save_binding b = \<lparr>binding1_name = key_str (fst b), binding1_source = save_source (snd b)\<rparr>"

definition read_binding ::
  "routine_binding_v1 \<Rightarrow> (routine_input_key \<times> routine_binding_source) read" where
  "read_binding b =
     res_bind (message (input_key_new (binding1_name b))) (\<lambda>k.
     res_bind (read_source (binding1_source b)) (\<lambda>s. Inr (k, s)))"

definition binding_valid :: "routine_input_key \<times> routine_binding_source \<Rightarrow> bool" where
  "binding_valid b \<longleftrightarrow> key_valid input_key_new (fst b) \<and> source_valid (snd b)"

interpretation binding_form: stored_form save_binding read_binding binding_valid
  by unfold_locales
    (simp add: save_binding_def read_binding_def binding_valid_def key_form.reads_back
      source_form.reads_back)

datatype routine_checkout_claim_v1 = CC1_AgentDefault | CC1_Floor u64

fun save_claim :: "routine_checkout_claim \<Rightarrow> routine_checkout_claim_v1" where
  "save_claim CC_AgentDefault = CC1_AgentDefault"
| "save_claim (CC_Floor floor) = CC1_Floor floor"

fun read_claim :: "routine_checkout_claim_v1 \<Rightarrow> routine_checkout_claim" where
  "read_claim CC1_AgentDefault = CC_AgentDefault"
| "read_claim (CC1_Floor floor) = CC_Floor floor"

lemma claim_reads_back [simp]: "read_claim (save_claim c) = c"
  by (cases c) simp_all

record routine_step_v1 =
  step1_id :: u64
  step1_name :: string
  step1_agent_id :: u64
  step1_prompt :: string
  step1_depends_on :: "u64 list"
  step1_bindings :: "routine_binding_v1 list"
  step1_outputs :: "string list"
  step1_approval_required :: bool
  step1_max_attempts :: u32
  step1_checkout :: routine_checkout_claim_v1
  step1_resources :: "string list"

definition save_step :: "routine_step \<Rightarrow> routine_step_v1" where
  "save_step s =
     \<lparr>step1_id = id_get (st_id s), step1_name = name_str (st_name s),
      step1_agent_id = id_get (st_agent s), step1_prompt = content_str (st_prompt s),
      step1_depends_on = map id_get (bm_keys (st_depends_on s)),
      step1_bindings = map save_binding (entries (st_bindings s)),
      step1_outputs = map key_str (bm_keys (st_outputs s)),
      step1_approval_required = (st_approval s = RA_Required),
      step1_max_attempts = max_attempts (st_retry s),
      step1_checkout = save_claim (claim_checkout (st_claims s)),
      step1_resources = map key_str (bm_keys (claim_resources (st_claims s)))\<rparr>"

definition read_step :: "routine_step_v1 \<Rightarrow> routine_step read" where
  "read_step s =
     res_bind (try_map read_binding (step1_bindings s)) (\<lambda>bindings.
     res_bind (read_keys output_key_new (step1_outputs s)) (\<lambda>outputs.
     res_bind (read_keys resource_key_new (step1_resources s)) (\<lambda>resources.
     res_bind (message (name_new (step1_name s))) (\<lambda>nm.
     res_bind (message (content_new (step1_prompt s))) (\<lambda>prompt.
     res_bind (message (retry_policy_new (step1_max_attempts s))) (\<lambda>retry.
     res_bind (message (step_claims_new (read_claim (step1_checkout s)) resources)) (\<lambda>claims.
       message (routine_step_new (Id (step1_id s)) nm (Id (step1_agent_id s)) prompt
         (map Id (step1_depends_on s)) bindings outputs
         (if step1_approval_required s then RA_Required else RA_NotRequired) retry claims))))))))"

definition step_valid :: "routine_step \<Rightarrow> bool" where
  "step_valid s \<longleftrightarrow>
     name_valid (st_name s) \<and> content_valid (st_prompt s) \<and>
     list_all binding_valid (entries (st_bindings s)) \<and>
     list_all (key_valid output_key_new) (bm_keys (st_outputs s)) \<and>
     list_all (key_valid resource_key_new) (bm_keys (claim_resources (st_claims s))) \<and>
     max_attempts (st_retry s) \<noteq> 0 \<and>
     bm_len (claim_resources (st_claims s)) \<le> max_step_resources \<and>
     bm_len (st_depends_on s) \<le> max_step_dependencies \<and> \<not> bm_contains (st_depends_on s) (st_id s) \<and>
     bm_len (st_bindings s) \<le> max_routine_keys \<and> bm_len (st_outputs s) \<le> max_routine_keys"

interpretation step_form: stored_form save_step read_step step_valid
proof unfold_locales
  fix s assume s: "step_valid s"
  have approval: "(if st_approval s = RA_Required then RA_Required else RA_NotRequired) = st_approval s"
    by (cases "st_approval s") simp_all
  have retry: "RetryPolicy (max_attempts (st_retry s)) = st_retry s" by (cases "st_retry s") simp
  from s show "read_step (save_step s) = Inr s"
    by (simp add: save_step_def read_step_def step_valid_def text_forms binding_form.reads_back_list
        read_keys_back retry_policy_new_def step_claims_new_def routine_step_new_def Let_def not_less
        approval retry del: map_map)
qed

section \<open>Versions\<close>

record routine_version_v1 =
  version1_id :: u64
  version1_routine_id :: u64
  version1_number :: u32
  version1_inputs :: "routine_input_v1 list"
  version1_steps :: "routine_step_v1 list"
  version1_template :: "string option"
  version1_created_at :: u64

definition save_version :: "routine_version \<Rightarrow> routine_version_v1" where
  "save_version v =
     \<lparr>version1_id = id_get (ver_id v), version1_routine_id = id_get (ver_routine v),
      version1_number = ver_number v, version1_inputs = map save_input (ver_inputs v),
      version1_steps = map save_step (ver_steps v),
      version1_template = map_option content_str (ver_template v),
      version1_created_at = ver_created_at v\<rparr>"

definition read_version :: "routine_version_v1 \<Rightarrow> routine_version read" where
  "read_version v =
     res_bind (try_map read_input (version1_inputs v)) (\<lambda>inputs.
     res_bind (try_map read_step (version1_steps v)) (\<lambda>steps.
     res_bind (read_option (\<lambda>s. message (content_new s)) (version1_template v)) (\<lambda>template.
       message (routine_version_new (Id (version1_id v)) (Id (version1_routine_id v))
         (version1_number v) inputs steps template (version1_created_at v)))))"

definition version_valid :: "routine_version \<Rightarrow> bool" where
  "version_valid v \<longleftrightarrow>
     list_all input_valid (ver_inputs v) \<and> list_all step_valid (ver_steps v) \<and>
     valid_option content_valid (ver_template v) \<and>
     routine_version_new (ver_id v) (ver_routine v) (ver_number v) (ver_inputs v) (ver_steps v)
       (ver_template v) (ver_created_at v) = Inr v"

interpretation version_form: stored_form save_version read_version version_valid
  by unfold_locales
    (simp add: save_version_def read_version_def version_valid_def text_forms
      input_form.reads_back_list step_form.reads_back_list)

section \<open>Triggers\<close>

datatype routine_cadence_v1 = CD1_Hourly u32 | CD1_Daily u32 u32 | CD1_Weekly u32 u32 u32

fun save_cadence :: "routine_cadence \<Rightarrow> routine_cadence_v1" where
  "save_cadence (CD_Hourly minute) = CD1_Hourly minute"
| "save_cadence (CD_Daily hour minute) = CD1_Daily hour minute"
| "save_cadence (CD_Weekly weekday hour minute) = CD1_Weekly weekday hour minute"

fun read_cadence :: "routine_cadence_v1 \<Rightarrow> routine_cadence" where
  "read_cadence (CD1_Hourly minute) = CD_Hourly minute"
| "read_cadence (CD1_Daily hour minute) = CD_Daily hour minute"
| "read_cadence (CD1_Weekly weekday hour minute) = CD_Weekly weekday hour minute"

lemma cadence_reads_back [simp]: "read_cadence (save_cadence c) = c"
  by (cases c) simp_all

datatype routine_trigger_kind_v1 =
    TK1_Manual
  | TK1_Filesystem "string list" u64
  | TK1_Git "string list"
  | TK1_Schedule routine_cadence_v1 int "string option" "u64 option"

fun save_trigger_kind :: "routine_trigger_kind \<Rightarrow> routine_trigger_kind_v1" where
  "save_trigger_kind TK_Manual = TK1_Manual"
| "save_trigger_kind (TK_Filesystem patterns debounce_ms) = TK1_Filesystem patterns debounce_ms"
| "save_trigger_kind (TK_Git refs) = TK1_Git refs"
| "save_trigger_kind (TK_Schedule s) =
     TK1_Schedule (save_cadence (sch_cadence s)) (sch_offset_minutes s)
       (map_option name_str (sch_timezone_label s)) (sch_next_occurrence s)"

fun read_trigger_kind :: "routine_trigger_kind_v1 \<Rightarrow> routine_trigger_kind read" where
  "read_trigger_kind TK1_Manual = Inr TK_Manual"
| "read_trigger_kind (TK1_Filesystem patterns debounce_ms) = Inr (TK_Filesystem patterns debounce_ms)"
| "read_trigger_kind (TK1_Git refs) = Inr (TK_Git refs)"
| "read_trigger_kind (TK1_Schedule cadence offset_minutes label next_at) =
     res_bind (read_option (\<lambda>s. message (name_new s)) label) (\<lambda>label.
     res_bind (message (routine_schedule_new (read_cadence cadence) offset_minutes label next_at))
       (\<lambda>s. Inr (TK_Schedule s)))"

definition schedule_valid :: "routine_schedule \<Rightarrow> bool" where
  "schedule_valid s \<longleftrightarrow>
     valid_option name_valid (sch_timezone_label s) \<and>
     routine_schedule_new (sch_cadence s) (sch_offset_minutes s) (sch_timezone_label s)
       (sch_next_occurrence s) = Inr s"

fun trigger_kind_valid :: "routine_trigger_kind \<Rightarrow> bool" where
  "trigger_kind_valid (TK_Schedule s) \<longleftrightarrow> schedule_valid s"
| "trigger_kind_valid _ \<longleftrightarrow> True"

interpretation trigger_kind_form: stored_form save_trigger_kind read_trigger_kind trigger_kind_valid
proof unfold_locales
  show "read_trigger_kind (save_trigger_kind k) = Inr k" if "trigger_kind_valid k" for k
    using that by (cases k) (simp_all add: text_forms name_form.reads_back_option schedule_valid_def)
qed

record routine_firing_v1 =
  firing1_occurrence :: string
  firing1_fired_at :: u64

definition save_firing :: "routine_trigger_firing \<Rightarrow> routine_firing_v1" where
  "save_firing f = \<lparr>firing1_occurrence = key_str (fire_occurrence f), firing1_fired_at = fire_at f\<rparr>"

definition read_firing :: "routine_firing_v1 \<Rightarrow> routine_trigger_firing read" where
  "read_firing f =
     res_bind (message (occurrence_key_new (firing1_occurrence f))) (\<lambda>k.
       Inr \<lparr>fire_occurrence = k, fire_at = firing1_fired_at f\<rparr>)"

definition firing_valid :: "routine_trigger_firing \<Rightarrow> bool" where
  "firing_valid f = key_valid occurrence_key_new (fire_occurrence f)"

interpretation firing_form: stored_form save_firing read_firing firing_valid
  by unfold_locales (simp add: save_firing_def read_firing_def firing_valid_def key_form.reads_back)

record routine_trigger_v1 =
  trigger1_id :: u64
  trigger1_routine_id :: u64
  trigger1_name :: string
  trigger1_kind :: routine_trigger_kind_v1
  trigger1_enabled :: bool
  trigger1_inputs :: "routine_value_entry_v1 list"
  trigger1_last_firing :: "routine_firing_v1 option"
  trigger1_skipped_occurrences :: u32

definition save_trigger :: "routine_trigger \<Rightarrow> routine_trigger_v1" where
  "save_trigger t =
     \<lparr>trigger1_id = id_get (tr_id t), trigger1_routine_id = id_get (tr_routine t),
      trigger1_name = name_str (tr_name t), trigger1_kind = save_trigger_kind (tr_kind t),
      trigger1_enabled = tr_enabled t, trigger1_inputs = map save_value_entry (entries (tr_inputs t)),
      trigger1_last_firing = map_option save_firing (tr_last_firing t),
      trigger1_skipped_occurrences = tr_skipped t\<rparr>"

definition read_trigger :: "routine_trigger_v1 \<Rightarrow> routine_trigger read" where
  "read_trigger t =
     res_bind (try_map (read_value_entry input_key_new) (trigger1_inputs t)) (\<lambda>inputs.
     res_bind (read_option read_firing (trigger1_last_firing t)) (\<lambda>firing.
     res_bind (message (name_new (trigger1_name t))) (\<lambda>nm.
     res_bind (read_trigger_kind (trigger1_kind t)) (\<lambda>kind.
     res_bind (message (routine_trigger_new (Id (trigger1_id t)) (Id (trigger1_routine_id t)) nm kind
         (trigger1_enabled t) (bm_of_list inputs))) (\<lambda>trigger.
       Inr (trigger_with_history firing (trigger1_skipped_occurrences t) trigger))))))"

definition trigger_valid :: "routine_trigger \<Rightarrow> bool" where
  "trigger_valid t \<longleftrightarrow>
     list_all (value_entry_valid input_key_new) (entries (tr_inputs t)) \<and>
     valid_option firing_valid (tr_last_firing t) \<and> name_valid (tr_name t) \<and>
     trigger_kind_valid (tr_kind t) \<and> trigger_kind_validate (tr_kind t) = Inr () \<and>
     bm_len (tr_inputs t) \<le> max_routine_keys"

interpretation trigger_form: stored_form save_trigger read_trigger trigger_valid
  by unfold_locales
    (simp add: save_trigger_def read_trigger_def trigger_valid_def text_forms
      value_entry_form.reads_back_list firing_form.reads_back_option trigger_kind_form.reads_back
      routine_trigger_new_def trigger_with_history_def not_less)

section \<open>Routines\<close>

record routine_v1 =
  routine1_id :: u64
  routine1_name :: string
  routine1_description :: "string option"
  routine1_versions :: "routine_version_v1 list"
  routine1_triggers :: "routine_trigger_v1 list"

definition save_routine :: "routine \<Rightarrow> routine_v1" where
  "save_routine r =
     \<lparr>routine1_id = id_get (rt_id r), routine1_name = name_str (rt_name r),
      routine1_description = map_option content_str (rt_description r),
      routine1_versions = map save_version (rt_versions r),
      routine1_triggers = map save_trigger (bm_values (rt_triggers r))\<rparr>"

definition read_routine :: "routine_v1 \<Rightarrow> routine read" where
  "read_routine r =
     res_bind (try_map read_version (routine1_versions r)) (\<lambda>versions.
     res_bind (try_map read_trigger (routine1_triggers r)) (\<lambda>triggers.
     res_bind (message (name_new (routine1_name r))) (\<lambda>nm.
     res_bind (read_option (\<lambda>s. message (content_new s)) (routine1_description r)) (\<lambda>description.
       message (routine_restore (Id (routine1_id r)) nm description versions triggers)))))"

definition routine_valid :: "routine \<Rightarrow> bool" where
  "routine_valid r \<longleftrightarrow>
     name_valid (rt_name r) \<and> valid_option content_valid (rt_description r) \<and>
     list_all version_valid (rt_versions r) \<and> list_all trigger_valid (bm_values (rt_triggers r)) \<and>
     routine_wf r"

lemma fold_insert_entries:
  assumes "\<forall>p\<in>set ps. f (snd p) = fst p"
  shows "fold (\<lambda>v m. bm_insert (f v) v m) (map snd ps) m = fold (\<lambda>(k, v) m. bm_insert k v m) ps m"
  using assms by (induction ps arbitrary: m) (auto simp: case_prod_unfold)

lemma restore_triggers_back:
  assumes "\<forall>t\<in>set ts. tr_routine t = rid \<and> trigger_kind_validate (tr_kind t) = Inr ()"
  shows "try_fold (restore_trigger rid first) m ts = Inr (fold (\<lambda>t m. bm_insert (tr_id t) t m) ts m)"
  using assms by (induction ts arbitrary: m) (simp_all add: restore_trigger_def)

text \<open>A routine is its own restoration: the invariant is what \<open>Routine::restore\<close> checks.\<close>

lemma routine_restore_self:
  assumes wf: "routine_wf r"
  shows "routine_restore (rt_id r) (rt_name r) (rt_description r) (rt_versions r)
    (bm_values (rt_triggers r)) = Inr r"
proof -
  obtain first rest where versions: "rt_versions r = first # rest"
    using wf by (cases "rt_versions r") (auto simp: routine_wf_def)
  have "unat (ver_number first) = 1"
    using wf versions by (auto simp: routine_wf_def dest: spec [of _ 0])
  then have one: "ver_number first = 1" by (simp add: word_unat_eq_iff)
  have all: "check_all (restore_version (rt_id r)) (enumerate 0 (rt_versions r)) = Inr ()"
  proof -
    have "restore_version (rt_id r) (i, v) = Inr ()" if "(i, v) \<in> set (enumerate 0 (rt_versions r))" for i v
      using that wf by (auto simp: in_set_enumerate_eq restore_version_Inr_iff routine_wf_def)
    then show ?thesis by (auto simp: check_all_Inr_iff)
  qed
  have trg: "tr_routine t = rt_id r \<and> trigger_kind_validate (tr_kind t) = Inr () \<and> tr_id t = k"
    if "(k, t) \<in> set (entries (rt_triggers r))" for k t
    using that wf by (auto simp: routine_wf_def bm_get_Some_iff)
  then have "try_fold (restore_trigger (rt_id r) first) bm_empty (bm_values (rt_triggers r)) =
      Inr (fold (\<lambda>t m. bm_insert (tr_id t) t m) (bm_values (rt_triggers r)) bm_empty)"
    by (intro restore_triggers_back) (auto simp: bm_values_def)
  also have "fold (\<lambda>t m. bm_insert (tr_id t) t m) (bm_values (rt_triggers r)) bm_empty = rt_triggers r"
    using trg fold_insert_entries [of "entries (rt_triggers r)" tr_id bm_empty]
      bm_of_list_entries [of "rt_triggers r"]
    by (simp add: bm_values_def bm_of_list_def)
  finally show ?thesis
    using all one versions by (simp add: routine_restore_def)
qed

interpretation routine_form: stored_form save_routine read_routine routine_valid
  by unfold_locales
    (simp add: save_routine_def read_routine_def routine_valid_def text_forms
      version_form.reads_back_list trigger_form.reads_back_list routine_restore_self)

end
