(* ===== verification/Stored_Run.thy ===== *)
theory Stored_Run
  imports Stored_Routine Routine_Run_Inv
begin

text \<open>
  The stored records of routine runs and their transitions, \<open>src/persistence/codec.rs\<close>. A run is
  restored from its pin and its step runs; a run that satisfies the invariant of \<open>run_wf\<close> is its
  own restoration.
\<close>

section \<open>Approvals and interruptions\<close>

record routine_approval_v1 =
  approval1_approved :: bool
  approval1_decided_at :: u64
  approval1_note :: "string option"

definition save_approval :: "routine_approval_record \<Rightarrow> routine_approval_v1" where
  "save_approval r =
     \<lparr>approval1_approved = (ar_decision r = AD_Approved), approval1_decided_at = ar_decided_at r,
      approval1_note = map_option content_str (ar_note r)\<rparr>"

definition read_approval :: "routine_approval_v1 \<Rightarrow> routine_approval_record read" where
  "read_approval r =
     res_bind (read_option (\<lambda>s. message (content_new s)) (approval1_note r)) (\<lambda>note.
       Inr \<lparr>ar_decision = (if approval1_approved r then AD_Approved else AD_Rejected),
            ar_decided_at = approval1_decided_at r, ar_note = note\<rparr>)"

definition approval_valid :: "routine_approval_record \<Rightarrow> bool" where
  "approval_valid r = valid_option content_valid (ar_note r)"

interpretation approval_form: stored_form save_approval read_approval approval_valid
proof unfold_locales
  fix r assume "approval_valid r"
  moreover have "(if ar_decision r = AD_Approved then AD_Approved else AD_Rejected) = ar_decision r"
    by (cases "ar_decision r") simp_all
  ultimately show "read_approval (save_approval r) = Inr r"
    by (simp add: save_approval_def read_approval_def approval_valid_def text_forms)
qed

datatype routine_interruption_reason_v1 = IR1_DispatchOutcomeUnknown | IR1_ShutdownUnconfirmed

fun save_reason :: "routine_interruption_reason \<Rightarrow> routine_interruption_reason_v1" where
  "save_reason IR_DispatchOutcomeUnknown = IR1_DispatchOutcomeUnknown"
| "save_reason IR_ShutdownUnconfirmed = IR1_ShutdownUnconfirmed"

fun read_reason :: "routine_interruption_reason_v1 \<Rightarrow> routine_interruption_reason" where
  "read_reason IR1_DispatchOutcomeUnknown = IR_DispatchOutcomeUnknown"
| "read_reason IR1_ShutdownUnconfirmed = IR_ShutdownUnconfirmed"

lemma reason_reads_back [simp]: "read_reason (save_reason r) = r"
  by (cases r) simp_all

record routine_interruption_v1 =
  interruption1_reason :: routine_interruption_reason_v1
  interruption1_detected_at :: u64

definition save_interruption :: "routine_interruption \<Rightarrow> routine_interruption_v1" where
  "save_interruption i =
     \<lparr>interruption1_reason = save_reason (intr_reason i), interruption1_detected_at = intr_detected_at i\<rparr>"

definition read_interruption :: "routine_interruption_v1 \<Rightarrow> routine_interruption" where
  "read_interruption i =
     \<lparr>intr_reason = read_reason (interruption1_reason i), intr_detected_at = interruption1_detected_at i\<rparr>"

lemma interruption_reads_back [simp]: "read_interruption (save_interruption i) = i"
  by (simp add: save_interruption_def read_interruption_def)

lemma interruption_option [simp]: "map_option read_interruption (map_option save_interruption v) = v"
  by (cases v) simp_all

section \<open>Attempts\<close>

definition read_checkout :: "string \<Rightarrow> routine_checkout read" where
  "read_checkout s = res_bind (message (workspace_directory_new s)) (\<lambda>d. Inr (RoutineCheckout d))"

definition checkout_str :: "routine_checkout \<Rightarrow> string" where
  "checkout_str c = workspace_directory_str (checkout_directory c)"

definition checkout_valid :: "routine_checkout \<Rightarrow> bool" where
  "checkout_valid c = directory_valid (checkout_directory c)"

interpretation checkout_form: stored_form checkout_str read_checkout checkout_valid
  by unfold_locales (simp add: checkout_str_def read_checkout_def checkout_valid_def text_forms)

datatype routine_attempt_outcome_v1 = AO1_Completed | AO1_Failed | AO1_Cancelled

fun save_attempt_outcome :: "routine_attempt_outcome \<Rightarrow> routine_attempt_outcome_v1" where
  "save_attempt_outcome AO_Completed = AO1_Completed"
| "save_attempt_outcome AO_Failed = AO1_Failed"
| "save_attempt_outcome AO_Cancelled = AO1_Cancelled"

fun read_attempt_outcome :: "routine_attempt_outcome_v1 \<Rightarrow> routine_attempt_outcome" where
  "read_attempt_outcome AO1_Completed = AO_Completed"
| "read_attempt_outcome AO1_Failed = AO_Failed"
| "read_attempt_outcome AO1_Cancelled = AO_Cancelled"

lemma attempt_outcome_reads_back [simp]: "read_attempt_outcome (save_attempt_outcome out) = out"
  by (cases out) simp_all

record routine_attempt_v1 =
  rattempt1_id :: u64
  rattempt1_ordinal :: u32
  rattempt1_task_id :: u64
  rattempt1_handoff_id :: u64
  rattempt1_agent_id :: u64
  rattempt1_checkout :: string
  rattempt1_resources :: "string list"
  rattempt1_started_at :: u64
  rattempt1_outcome :: "routine_attempt_outcome_v1 option"
  rattempt1_finished_at :: "u64 option"

definition save_routine_attempt :: "routine_attempt \<Rightarrow> routine_attempt_v1" where
  "save_routine_attempt a =
     \<lparr>rattempt1_id = id_get (at_id a), rattempt1_ordinal = at_ordinal a,
      rattempt1_task_id = id_get (at_task a), rattempt1_handoff_id = id_get (at_handoff a),
      rattempt1_agent_id = id_get (at_agent a), rattempt1_checkout = checkout_str (at_checkout a),
      rattempt1_resources = map key_str (bm_keys (at_resources a)),
      rattempt1_started_at = at_started_at a,
      rattempt1_outcome = map_option save_attempt_outcome (at_outcome a),
      rattempt1_finished_at = at_finished_at a\<rparr>"

definition read_routine_attempt :: "routine_attempt_v1 \<Rightarrow> routine_attempt read" where
  "read_routine_attempt a =
     res_bind (read_keys resource_key_new (rattempt1_resources a)) (\<lambda>resources.
     res_bind (read_checkout (rattempt1_checkout a)) (\<lambda>checkout.
     res_bind (message (routine_attempt_new (Id (rattempt1_id a)) (rattempt1_ordinal a)
         (Id (rattempt1_task_id a)) (Id (rattempt1_handoff_id a)) (Id (rattempt1_agent_id a))
         checkout resources (rattempt1_started_at a))) (\<lambda>attempt.
       case (rattempt1_outcome a, rattempt1_finished_at a) of
         (Some outcome, Some finished_at) \<Rightarrow>
           message (attempt_finish (read_attempt_outcome outcome) finished_at attempt)
       | (None, None) \<Rightarrow> Inr attempt
       | _ \<Rightarrow> Inl ())))"

definition attempt_valid :: "routine_attempt \<Rightarrow> bool" where
  "attempt_valid a \<longleftrightarrow>
     list_all (key_valid resource_key_new) (bm_keys (at_resources a)) \<and> checkout_valid (at_checkout a) \<and>
     at_ordinal a \<noteq> 0 \<and> (at_outcome a = None \<longleftrightarrow> at_finished_at a = None) \<and>
     (\<forall>t. at_finished_at a = Some t \<longrightarrow> at_started_at a \<le> t)"

interpretation attempt_form: stored_form save_routine_attempt read_routine_attempt attempt_valid
proof unfold_locales
  fix a assume a: "attempt_valid a"
  let ?open = "a\<lparr>at_outcome := None, at_finished_at := None\<rparr>"
  have "routine_attempt_new (at_id a) (at_ordinal a) (at_task a) (at_handoff a) (at_agent a)
      (at_checkout a) (bm_keys (at_resources a)) (at_started_at a) = Inr ?open"
    using a by (simp add: routine_attempt_new_def attempt_valid_def)
  moreover have "attempt_finish out t ?open = Inr a" if "at_outcome a = Some out" "at_finished_at a = Some t" for out t
    using a that by (simp add: attempt_finish_def attempt_valid_def not_less [symmetric])
  ultimately show "read_routine_attempt (save_routine_attempt a) = Inr a"
    using a by (auto simp: save_routine_attempt_def read_routine_attempt_def attempt_valid_def
        read_keys_back checkout_form.reads_back split: option.splits)
qed

section \<open>Step runs\<close>

datatype routine_step_state_v1 =
    SS1_Pending | SS1_AwaitingApproval | SS1_Dispatched | SS1_Completed | SS1_Failed | SS1_Cancelled
  | SS1_Skipped | SS1_Interrupted

fun save_step_state :: "routine_step_state \<Rightarrow> routine_step_state_v1" where
  "save_step_state SS_Pending = SS1_Pending"
| "save_step_state SS_AwaitingApproval = SS1_AwaitingApproval"
| "save_step_state SS_Dispatched = SS1_Dispatched"
| "save_step_state SS_Completed = SS1_Completed"
| "save_step_state SS_Failed = SS1_Failed"
| "save_step_state SS_Cancelled = SS1_Cancelled"
| "save_step_state SS_Skipped = SS1_Skipped"
| "save_step_state SS_Interrupted = SS1_Interrupted"

fun read_step_state :: "routine_step_state_v1 \<Rightarrow> routine_step_state" where
  "read_step_state SS1_Pending = SS_Pending"
| "read_step_state SS1_AwaitingApproval = SS_AwaitingApproval"
| "read_step_state SS1_Dispatched = SS_Dispatched"
| "read_step_state SS1_Completed = SS_Completed"
| "read_step_state SS1_Failed = SS_Failed"
| "read_step_state SS1_Cancelled = SS_Cancelled"
| "read_step_state SS1_Skipped = SS_Skipped"
| "read_step_state SS1_Interrupted = SS_Interrupted"

lemma step_state_reads_back [simp]: "read_step_state (save_step_state s) = s"
  by (cases s) simp_all

record routine_step_run_v1 =
  srun1_step_id :: u64
  srun1_state :: routine_step_state_v1
  srun1_attempts :: "routine_attempt_v1 list"
  srun1_outputs :: "routine_value_entry_v1 list"
  srun1_approval :: "routine_approval_v1 option"
  srun1_interruption :: "routine_interruption_v1 option"
  srun1_failure :: "string option"

definition save_step_run :: "routine_step_run \<Rightarrow> routine_step_run_v1" where
  "save_step_run s =
     \<lparr>srun1_step_id = id_get (sr_step s), srun1_state = save_step_state (sr_state s),
      srun1_attempts = map save_routine_attempt (sr_attempts s),
      srun1_outputs = map save_value_entry (entries (sr_outputs s)),
      srun1_approval = map_option save_approval (sr_approval s),
      srun1_interruption = map_option save_interruption (sr_interruption s),
      srun1_failure = map_option content_str (sr_failure s)\<rparr>"

definition read_step_run :: "routine_step_run_v1 \<Rightarrow> routine_step_run read" where
  "read_step_run s =
     res_bind (try_map (read_value_entry output_key_new) (srun1_outputs s)) (\<lambda>outputs.
     res_bind (try_map read_routine_attempt (srun1_attempts s)) (\<lambda>attempts.
     res_bind (read_option read_approval (srun1_approval s)) (\<lambda>approval.
     res_bind (read_option (\<lambda>s. message (content_new s)) (srun1_failure s)) (\<lambda>failure.
       message (step_run_restore (Id (srun1_step_id s)) (read_step_state (srun1_state s)) attempts
         (bm_of_list outputs) approval (map_option read_interruption (srun1_interruption s)) failure)))))"

definition step_run_valid :: "routine_step_run \<Rightarrow> bool" where
  "step_run_valid s \<longleftrightarrow>
     list_all (value_entry_valid output_key_new) (entries (sr_outputs s)) \<and>
     list_all attempt_valid (sr_attempts s) \<and> valid_option approval_valid (sr_approval s) \<and>
     valid_option content_valid (sr_failure s)"

text \<open>The invariant of a step run is what \<open>RoutineStepRun::restore\<close> checks.\<close>

lemma step_run_restore_self:
  assumes "step_run_ok k st s"
  shows "step_run_restore (sr_step s) (sr_state s) (sr_attempts s) (sr_outputs s) (sr_approval s)
    (sr_interruption s) (sr_failure s) = Inr s"
proof -
  have ordinals: "unat (at_ordinal (sr_attempts s ! i)) = i + 1" if "i < length (sr_attempts s)" for i
    using assms that by (simp add: step_run_ok_def attempts_ok_def)
  have "at_ordinal (sr_attempts s ! i) = expected_ordinal (i + 1)" if "i < length (sr_attempts s)" for i
  proof -
    have "try_u32 (i + 1) = Some (at_ordinal (sr_attempts s ! i))"
      using ordinals [OF that] by (simp add: try_u32_Some_iff)
    then show ?thesis by (simp add: expected_ordinal_def)
  qed
  then have "check_all (\<lambda>(index, a). ensure (at_ordinal a = expected_ordinal (index + 1))
      (RE_InvalidAttemptOrdinal (at_ordinal a))) (enumerate 0 (sr_attempts s)) = Inr ()"
    by (auto simp: check_all_Inr_iff in_set_enumerate_eq ensure_Inr_iff)
  with assms show ?thesis
    by (auto simp: step_run_restore_def step_run_ok_def open_attempt_def)
qed

lemma read_save_step_run:
  "step_run_valid s \<Longrightarrow> step_run_ok k st s \<Longrightarrow> read_step_run (save_step_run s) = Inr s"
  by (simp add: save_step_run_def read_step_run_def step_run_valid_def value_entry_form.reads_back_list
      attempt_form.reads_back_list approval_form.reads_back_option text_forms step_run_restore_self
      del: option.map_comp)

section \<open>Pins\<close>

record routine_run_pin_v1 =
  pin1_version :: routine_version_v1
  pin1_inputs :: "routine_value_entry_v1 list"
  pin1_agents :: "(u64 \<times> u64) list"
  pin1_checkouts :: "(u64 \<times> string) list"
  pin1_revisions :: "(string \<times> string) list"

definition save_pin :: "routine_run_pin \<Rightarrow> routine_run_pin_v1" where
  "save_pin p =
     \<lparr>pin1_version = save_version (pin_version p),
      pin1_inputs = map save_value_entry (entries (pin_inputs p)),
      pin1_agents = map (\<lambda>(s, a). (id_get s, id_get a)) (entries (pin_agents p)),
      pin1_checkouts = map (\<lambda>(s, c). (id_get s, checkout_str c)) (entries (pin_checkouts p)),
      pin1_revisions = map (\<lambda>(c, r). (checkout_str c, r)) (entries (pin_revisions p))\<rparr>"

definition read_step_checkout :: "u64 \<times> string \<Rightarrow> (routine_step_id \<times> routine_checkout) read" where
  "read_step_checkout = (\<lambda>(s, c). res_bind (read_checkout c) (\<lambda>c. Inr (Id s, c)))"

definition read_revision :: "string \<times> string \<Rightarrow> (routine_checkout \<times> string) read" where
  "read_revision = (\<lambda>(c, r). res_bind (read_checkout c) (\<lambda>c. Inr (c, r)))"

definition read_pin :: "routine_run_pin_v1 \<Rightarrow> routine_run_pin read" where
  "read_pin p =
     res_bind (try_map (read_value_entry input_key_new) (pin1_inputs p)) (\<lambda>inputs.
     res_bind (try_map read_step_checkout (pin1_checkouts p)) (\<lambda>checkouts.
     res_bind (try_map read_revision (pin1_revisions p)) (\<lambda>revisions.
     res_bind (read_version (pin1_version p)) (\<lambda>version.
       message (run_pin_new version (bm_of_list inputs)
         (bm_of_list (map (\<lambda>(s, a). (Id s, Id a)) (pin1_agents p)))
         (bm_of_list checkouts) (bm_of_list revisions))))))"

definition pin_valid :: "routine_run_pin \<Rightarrow> bool" where
  "pin_valid p \<longleftrightarrow>
     version_valid (pin_version p) \<and>
     list_all (value_entry_valid input_key_new) (entries (pin_inputs p)) \<and>
     list_all (\<lambda>(_, c). checkout_valid c) (entries (pin_checkouts p)) \<and>
     list_all (\<lambda>(c, _). checkout_valid c) (entries (pin_revisions p)) \<and>
     run_pin_new (pin_version p) (pin_inputs p) (pin_agents p) (pin_checkouts p) (pin_revisions p) = Inr p"

interpretation step_checkout_form:
  stored_form "\<lambda>(s, c). (id_get s, checkout_str c)" read_step_checkout "\<lambda>(_, c). checkout_valid c"
  by unfold_locales (auto simp: read_step_checkout_def checkout_form.reads_back)

interpretation revision_form:
  stored_form "\<lambda>(c, r). (checkout_str c, r)" read_revision "\<lambda>(c, _). checkout_valid c"
  by unfold_locales (auto simp: read_revision_def checkout_form.reads_back)

lemma pinned_agents_back:
  "map (\<lambda>(s, a). (Id s, Id a)) (map (\<lambda>(s, a). (id_get s, id_get a)) as) = as"
  by (induction as) auto

interpretation pin_form: stored_form save_pin read_pin pin_valid
  by unfold_locales
    (simp add: save_pin_def read_pin_def pin_valid_def version_form.reads_back
      value_entry_form.reads_back_list step_checkout_form.reads_back_list revision_form.reads_back_list
      pinned_agents_back del: map_map)

section \<open>Runs\<close>

datatype routine_run_state_v1 =
  RS1_Running | RS1_Cancelling | RS1_Completed | RS1_Failed | RS1_Cancelled | RS1_Interrupted

fun save_run_state :: "routine_run_state \<Rightarrow> routine_run_state_v1" where
  "save_run_state RS_Running = RS1_Running"
| "save_run_state RS_Cancelling = RS1_Cancelling"
| "save_run_state RS_Completed = RS1_Completed"
| "save_run_state RS_Failed = RS1_Failed"
| "save_run_state RS_Cancelled = RS1_Cancelled"
| "save_run_state RS_Interrupted = RS1_Interrupted"

fun read_run_state :: "routine_run_state_v1 \<Rightarrow> routine_run_state" where
  "read_run_state RS1_Running = RS_Running"
| "read_run_state RS1_Cancelling = RS_Cancelling"
| "read_run_state RS1_Completed = RS_Completed"
| "read_run_state RS1_Failed = RS_Failed"
| "read_run_state RS1_Cancelled = RS_Cancelled"
| "read_run_state RS1_Interrupted = RS_Interrupted"

lemma run_state_reads_back [simp]: "read_run_state (save_run_state s) = s"
  by (cases s) simp_all

record routine_run_v1 =
  run1_id :: u64
  run1_trigger_id :: "u64 option"
  run1_occurrence :: "string option"
  run1_pin :: routine_run_pin_v1
  run1_state :: routine_run_state_v1
  run1_started_at :: u64
  run1_finished_at :: "u64 option"
  run1_steps :: "routine_step_run_v1 list"

definition save_run :: "routine_run \<Rightarrow> routine_run_v1" where
  "save_run r =
     \<lparr>run1_id = id_get (run_id r), run1_trigger_id = map_option id_get (run_trigger r),
      run1_occurrence = map_option key_str (run_occurrence r), run1_pin = save_pin (run_pin r),
      run1_state = save_run_state (run_state r), run1_started_at = run_started_at r,
      run1_finished_at = run_finished_at r, run1_steps = map save_step_run (bm_values (run_steps r))\<rparr>"

definition read_run :: "routine_run_v1 \<Rightarrow> routine_run read" where
  "read_run r =
     res_bind (read_option (\<lambda>s. message (occurrence_key_new s)) (run1_occurrence r)) (\<lambda>occurrence.
     res_bind (read_pin (run1_pin r)) (\<lambda>pin.
     res_bind (try_map read_step_run (run1_steps r)) (\<lambda>steps.
       message (run_restore (Id (run1_id r)) (map_option Id (run1_trigger_id r)) occurrence pin
         (read_run_state (run1_state r)) (run1_started_at r) (run1_finished_at r) steps))))"

definition run_valid :: "routine_run \<Rightarrow> bool" where
  "run_valid r \<longleftrightarrow>
     valid_option (key_valid occurrence_key_new) (run_occurrence r) \<and> pin_valid (run_pin r) \<and>
     list_all step_run_valid (bm_values (run_steps r)) \<and> run_wf r"

lemma run_restore_self:
  assumes wf: "run_wf r"
  shows "run_restore (run_id r) (run_trigger r) (run_occurrence r) (run_pin r) (run_state r)
    (run_started_at r) (run_finished_at r) (bm_values (run_steps r)) = Inr r"
proof -
  let ?v = "pin_version (run_pin r)"
  have pre: "steps_pre ?v (run_steps r)" and pin: "pin_ok r" and ends: "ending_ok r"
    using wf by (simp_all add: run_wf_def)
  have "sr_step s = k" if "bm_get (run_steps r) k = Some s" for k s
    using pre that unfolding steps_pre_def step_run_ok_def by blast
  then have "map (\<lambda>s. (sr_step s, s)) (bm_values (run_steps r)) = entries (run_steps r)"
    unfolding bm_values_def map_map comp_def
    by (intro map_idI) (auto simp: bm_get_Some_iff [symmetric])
  then have steps: "bm_of_list (map (\<lambda>s. (sr_step s, s)) (bm_values (run_steps r))) = run_steps r" by simp
  have contains: "bm_contains (run_steps r) k \<longleftrightarrow> k \<in> st_id ` set (ver_steps ?v)" for k
    using pre by (simp add: steps_pre_def)
  have "version_wf ?v" using pin by (simp add: pin_ok_def version_ok_def)
  then have "distinct (map st_id (ver_steps ?v))" by (auto simp: version_wf_def strict_sorted_iff)
  then have "card (st_id ` set (ver_steps ?v)) = length (ver_steps ?v)"
    using distinct_card by fastforce
  then have len: "bm_len (run_steps r) = length (ver_steps ?v)"
    by (simp add: bm_len_keys contains)
  have all: "check_all (\<lambda>s. ensure (bm_contains (run_steps r) (st_id s)) (RE_UnknownStep (st_id s)))
      (ver_steps ?v) = Inr ()"
    by (simp add: check_all_Inr_iff ensure_Inr_iff contains)
  show ?thesis
    using pin ends unfolding run_restore_def Let_def steps all len
    by (simp add: pin_ok_def ending_ok_def)
qed

lemma read_save_step_runs:
  "\<forall>s\<in>set ss. step_run_valid s \<and> (\<exists>k st. step_run_ok k st s) \<Longrightarrow>
     try_map read_step_run (map save_step_run ss) = Inr ss"
  by (induction ss) (auto simp: read_save_step_run)

interpretation run_form: stored_form save_run read_run run_valid
proof unfold_locales
  fix r assume r: "run_valid r"
  have pre: "steps_pre (pin_version (run_pin r)) (run_steps r)"
    using r unfolding run_valid_def run_wf_def by blast
  have "step_run_valid s \<and> (\<exists>k st. step_run_ok k st s)" if s: "s \<in> set (bm_values (run_steps r))" for s
  proof
    obtain k where "bm_get (run_steps r) k = Some s" using s by (auto simp: set_bm_values)
    with pre show "\<exists>k st. step_run_ok k st s" unfolding steps_pre_def by blast
    show "step_run_valid s" using r s unfolding run_valid_def list_all_iff by blast
  qed
  then have "try_map read_step_run (map save_step_run (bm_values (run_steps r))) =
      Inr (bm_values (run_steps r))"
    by (intro read_save_step_runs) blast
  with r show "read_run (save_run r) = Inr r"
    by (simp add: save_run_def read_run_def run_valid_def key_form.reads_back_option pin_form.reads_back
        run_restore_self)
qed

section \<open>Transitions\<close>

datatype routine_transition_v1 =
    RT1_AwaitApproval u64
  | RT1_RecordApproval u64 routine_approval_v1
  | RT1_CompleteStep u64 "routine_value_entry_v1 list" u64
  | RT1_FailStep u64 string u64
  | RT1_InterruptStep u64 routine_interruption_reason_v1 u64
  | RT1_ResolveInterruption u64 u64
  | RT1_CancelStep u64 "string option" u64
  | RT1_RequestCancellation u64
  | RT1_Settle u64

fun save_transition :: "routine_transition \<Rightarrow> routine_transition_v1" where
  "save_transition (RT_AwaitApproval sid) = RT1_AwaitApproval (id_get sid)"
| "save_transition (RT_RecordApproval sid rec) = RT1_RecordApproval (id_get sid) (save_approval rec)"
| "save_transition (RT_CompleteStep sid outputs at) =
     RT1_CompleteStep (id_get sid) (map save_value_entry (entries outputs)) at"
| "save_transition (RT_FailStep sid reason at) = RT1_FailStep (id_get sid) (content_str reason) at"
| "save_transition (RT_InterruptStep sid reason at) =
     RT1_InterruptStep (id_get sid) (save_reason reason) at"
| "save_transition (RT_ResolveInterruption sid at) = RT1_ResolveInterruption (id_get sid) at"
| "save_transition (RT_CancelStep sid reason at) =
     RT1_CancelStep (id_get sid) (map_option content_str reason) at"
| "save_transition (RT_RequestCancellation at) = RT1_RequestCancellation at"
| "save_transition (RT_Settle at) = RT1_Settle at"

fun read_transition :: "routine_transition_v1 \<Rightarrow> routine_transition read" where
  "read_transition (RT1_AwaitApproval sid) = Inr (RT_AwaitApproval (Id sid))"
| "read_transition (RT1_RecordApproval sid rec) =
     res_bind (read_approval rec) (\<lambda>rec. Inr (RT_RecordApproval (Id sid) rec))"
| "read_transition (RT1_CompleteStep sid outputs at) =
     res_bind (try_map (read_value_entry output_key_new) outputs)
       (\<lambda>outputs. Inr (RT_CompleteStep (Id sid) (bm_of_list outputs) at))"
| "read_transition (RT1_FailStep sid reason at) =
     res_bind (message (content_new reason)) (\<lambda>reason. Inr (RT_FailStep (Id sid) reason at))"
| "read_transition (RT1_InterruptStep sid reason at) =
     Inr (RT_InterruptStep (Id sid) (read_reason reason) at)"
| "read_transition (RT1_ResolveInterruption sid at) = Inr (RT_ResolveInterruption (Id sid) at)"
| "read_transition (RT1_CancelStep sid reason at) =
     res_bind (read_option (\<lambda>s. message (content_new s)) reason)
       (\<lambda>reason. Inr (RT_CancelStep (Id sid) reason at))"
| "read_transition (RT1_RequestCancellation at) = Inr (RT_RequestCancellation at)"
| "read_transition (RT1_Settle at) = Inr (RT_Settle at)"

fun transition_valid :: "routine_transition \<Rightarrow> bool" where
  "transition_valid (RT_RecordApproval _ rec) \<longleftrightarrow> approval_valid rec"
| "transition_valid (RT_CompleteStep _ outputs _) \<longleftrightarrow>
     list_all (value_entry_valid output_key_new) (entries outputs)"
| "transition_valid (RT_FailStep _ reason _) \<longleftrightarrow> content_valid reason"
| "transition_valid (RT_CancelStep _ reason _) \<longleftrightarrow> valid_option content_valid reason"
| "transition_valid _ \<longleftrightarrow> True"

interpretation transition_form: stored_form save_transition read_transition transition_valid
proof unfold_locales
  show "read_transition (save_transition t) = Inr t" if "transition_valid t" for t
    using that by (cases t) (simp_all add: approval_form.reads_back value_entry_form.reads_back_list
        text_forms)
qed

end
