(* ===== verification/Stored_Event.thy ===== *)
theory Stored_Event
  imports Stored_Canvas Stored_Handoff_Back Stored_Run Domain_Event
begin

text \<open>
  \<open>StoredEvent\<close> of \<open>src/persistence/codec.rs\<close>: the record of every domain event, the version of
  the format each record needs, and reading it back. A valid event of the current format reads
  back as itself.
\<close>

section \<open>Records\<close>

datatype stored_event =
    SE_FloorsChanged floors_v1 floors_v1
  | SE_WorkspaceSettingsChanged settings_v1 settings_v1
  | SE_EnvironmentProfileAdded environment_profile_v1
  | SE_EnvironmentProfileChanged environment_profile_v1 environment_profile_v1
  | SE_EnvironmentProfileRemoved environment_profile_v1
  | SE_CommandPresetAdded command_preset_v1
  | SE_CommandPresetChanged command_preset_v1 command_preset_v1
  | SE_CommandPresetRemoved command_preset_v1
  | SE_RoleAdded role_v1
  | SE_RoleChanged role_v1 role_v1
  | SE_RoleRemoved role_v1
  | SE_AgentRoleChanged u64 "u64 option" "u64 option"
  | SE_AgentAdded agent_v1
  | SE_AgentRenamed u64 string string
  | SE_ChatThreadAdded chat_thread_v1
  | SE_ChatThreadChanged u64 string string string string
  | SE_ChatAttachmentAdded chat_attachment_v1
  | SE_ChatDraftChanged u64 chat_draft_v1 chat_draft_v1
  | SE_ChatDraftSubmitted u64 chat_draft_v1 chat_message_v1
  | SE_AgentChatMessageAppended chat_message_v1
  | SE_TaskAdded task_v1
  | SE_HandoffAdded handoff_v1
  | SE_TaskHandoffAdded task_v1 handoff_v1
  | SE_HandoffChanged handoff_v1 handoff_v1
  | SE_TaskCancelled u64 task_state_v1 handoff_v1 handoff_v1
  | SE_TaskResumed u64 task_state_v1 handoff_v1
  | SE_NodeAdded node_v1
  | SE_AgentNodeAdded agent_v1 node_v1
  | SE_CanvasReplaced canvas_layout_v1 canvas_layout_v1
  | SE_AgentStateChanged u64 agent_state_v1 agent_state_v1
  | SE_TaskStateChanged u64 task_state_v1 task_state_v1
  | SE_RoutineAdded routine_v1
  | SE_RoutineVersionAdded u64 routine_version_v1
  | SE_RoutineChanged u64 string string "string option" "string option"
  | SE_RoutineTriggerChanged u64 "routine_trigger_v1 option" routine_trigger_v1
  | SE_RoutineTriggerRemoved u64 routine_trigger_v1
  | SE_RoutineRunStarted routine_run_v1 "routine_firing_v1 option" "u64 option"
  | SE_RoutineOccurrencesSkipped u64 u64 u32 "u64 option"
  | SE_RoutineRunAdvanced u64 routine_transition_v1
  | SE_RoutineStepDispatched u64 u64 routine_attempt_v1 task_v1 handoff_v1

fun save_event :: "domain_event \<Rightarrow> stored_event" where
  "save_event (EV_FloorsChanged before after) =
     SE_FloorsChanged (save_floors before) (save_floors after)"
| "save_event (EV_WorkspaceSettingsChanged old new) =
     SE_WorkspaceSettingsChanged (save_settings old) (save_settings new)"
| "save_event (EV_EnvironmentProfileAdded profile) =
     SE_EnvironmentProfileAdded (save_profile profile)"
| "save_event (EV_EnvironmentProfileChanged old new) =
     SE_EnvironmentProfileChanged (save_profile old) (save_profile new)"
| "save_event (EV_EnvironmentProfileRemoved profile) =
     SE_EnvironmentProfileRemoved (save_profile profile)"
| "save_event (EV_CommandPresetAdded preset) =
     SE_CommandPresetAdded (save_preset preset)"
| "save_event (EV_CommandPresetChanged old new) =
     SE_CommandPresetChanged (save_preset old) (save_preset new)"
| "save_event (EV_CommandPresetRemoved preset) =
     SE_CommandPresetRemoved (save_preset preset)"
| "save_event (EV_RoleAdded role) =
     SE_RoleAdded (save_role role)"
| "save_event (EV_RoleChanged old new) =
     SE_RoleChanged (save_role old) (save_role new)"
| "save_event (EV_RoleRemoved role) =
     SE_RoleRemoved (save_role role)"
| "save_event (EV_AgentRoleChanged agent old new) =
     SE_AgentRoleChanged (id_get agent) (map_option id_get old) (map_option id_get new)"
| "save_event (EV_AgentAdded agent) =
     SE_AgentAdded (save_agent agent)"
| "save_event (EV_AgentRenamed agent old new) =
     SE_AgentRenamed (id_get agent) (name_str old) (name_str new)"
| "save_event (EV_ChatThreadAdded thread) =
     SE_ChatThreadAdded (save_thread thread)"
| "save_event (EV_ChatThreadChanged thread old_name new_name old_color new_color) =
     SE_ChatThreadChanged (id_get thread) (name_str old_name) (name_str new_name)
       (thread_color_str old_color) (thread_color_str new_color)"
| "save_event (EV_ChatAttachmentAdded attachment) =
     SE_ChatAttachmentAdded (save_attachment attachment)"
| "save_event (EV_ChatDraftChanged thread old new) =
     SE_ChatDraftChanged (id_get thread) (save_draft old) (save_draft new)"
| "save_event (EV_ChatDraftSubmitted thread old msg) =
     SE_ChatDraftSubmitted (id_get thread) (save_draft old) (save_message msg)"
| "save_event (EV_AgentChatMessageAppended msg) =
     SE_AgentChatMessageAppended (save_message msg)"
| "save_event (EV_TaskAdded task) =
     SE_TaskAdded (save_task task)"
| "save_event (EV_HandoffAdded handoff) =
     SE_HandoffAdded (save_handoff handoff)"
| "save_event (EV_TaskHandoffAdded task handoff) =
     SE_TaskHandoffAdded (save_task task) (save_handoff handoff)"
| "save_event (EV_HandoffChanged before after) =
     SE_HandoffChanged (save_handoff before) (save_handoff after)"
| "save_event (EV_TaskCancelled task old before after) =
     SE_TaskCancelled (id_get task) (save_task_state old) (save_handoff before)
       (save_handoff after)"
| "save_event (EV_TaskResumed task old handoff) =
     SE_TaskResumed (id_get task) (save_task_state old) (save_handoff handoff)"
| "save_event (EV_NodeAdded node) =
     SE_NodeAdded (save_node node)"
| "save_event (EV_AgentNodeAdded agent node) =
     SE_AgentNodeAdded (save_agent agent) (save_node node)"
| "save_event (EV_CanvasReplaced before after) =
     SE_CanvasReplaced (save_layout before) (save_layout after)"
| "save_event (EV_AgentStateChanged agent old new) =
     SE_AgentStateChanged (id_get agent) (save_agent_state old) (save_agent_state new)"
| "save_event (EV_TaskStateChanged task old new) =
     SE_TaskStateChanged (id_get task) (save_task_state old) (save_task_state new)"
| "save_event (EV_RoutineAdded routine) =
     SE_RoutineAdded (save_routine routine)"
| "save_event (EV_RoutineVersionAdded routine version) =
     SE_RoutineVersionAdded (id_get routine) (save_version version)"
| "save_event (EV_RoutineChanged routine old_name new_name old_description new_description) =
     SE_RoutineChanged (id_get routine) (name_str old_name) (name_str new_name)
       (map_option content_str old_description) (map_option content_str new_description)"
| "save_event (EV_RoutineTriggerChanged routine old new) =
     SE_RoutineTriggerChanged (id_get routine) (map_option save_trigger old) (save_trigger new)"
| "save_event (EV_RoutineTriggerRemoved routine trigger) =
     SE_RoutineTriggerRemoved (id_get routine) (save_trigger trigger)"
| "save_event (EV_RoutineRunStarted run firing next_at) =
     SE_RoutineRunStarted (save_run run) (map_option save_firing firing) next_at"
| "save_event (EV_RoutineOccurrencesSkipped routine trigger skipped next_at) =
     SE_RoutineOccurrencesSkipped (id_get routine) (id_get trigger) skipped next_at"
| "save_event (EV_RoutineRunAdvanced run transition) =
     SE_RoutineRunAdvanced (id_get run) (save_transition transition)"
| "save_event (EV_RoutineStepDispatched run step attempt task handoff) =
     SE_RoutineStepDispatched (id_get run) (id_get step) (save_routine_attempt attempt)
       (save_task task) (save_handoff handoff)"

text \<open>\<open>read_starting_agent\<close> and \<open>read_queued_task\<close> are the checks of the events that add one.\<close>

definition read_starting_agent :: "agent_v1 \<Rightarrow> agent read" where
  "read_starting_agent a =
     res_bind (read_agent a) (\<lambda>(agent, state). if state \<noteq> AS_Starting then Inl () else Inr agent)"

definition read_queued_task :: "task_v1 \<Rightarrow> task read" where
  "read_queued_task t =
     res_bind (read_task t) (\<lambda>(task, state). if state \<noteq> TS_Queued then Inl () else Inr task)"

fun read_event :: "stored_event \<Rightarrow> domain_event read" where
  "read_event (SE_FloorsChanged before after) =
     res_bind (read_floors before) (\<lambda>before.
     res_bind (read_floors after) (\<lambda>after.
       Inr (EV_FloorsChanged before after)))"
| "read_event (SE_WorkspaceSettingsChanged old new) =
     res_bind (read_settings old) (\<lambda>old.
     res_bind (read_settings new) (\<lambda>new.
       Inr (EV_WorkspaceSettingsChanged old new)))"
| "read_event (SE_EnvironmentProfileAdded profile) =
     res_bind (read_profile profile) (\<lambda>profile.
       Inr (EV_EnvironmentProfileAdded profile))"
| "read_event (SE_EnvironmentProfileChanged old new) =
     res_bind (read_profile old) (\<lambda>old.
     res_bind (read_profile new) (\<lambda>new.
       Inr (EV_EnvironmentProfileChanged old new)))"
| "read_event (SE_EnvironmentProfileRemoved profile) =
     res_bind (read_profile profile) (\<lambda>profile.
       Inr (EV_EnvironmentProfileRemoved profile))"
| "read_event (SE_CommandPresetAdded preset) =
     res_bind (read_preset preset) (\<lambda>preset.
       Inr (EV_CommandPresetAdded preset))"
| "read_event (SE_CommandPresetChanged old new) =
     res_bind (read_preset old) (\<lambda>old.
     res_bind (read_preset new) (\<lambda>new.
       Inr (EV_CommandPresetChanged old new)))"
| "read_event (SE_CommandPresetRemoved preset) =
     res_bind (read_preset preset) (\<lambda>preset.
       Inr (EV_CommandPresetRemoved preset))"
| "read_event (SE_RoleAdded role) =
     res_bind (read_role role) (\<lambda>role.
       Inr (EV_RoleAdded role))"
| "read_event (SE_RoleChanged old new) =
     res_bind (read_role old) (\<lambda>old.
     res_bind (read_role new) (\<lambda>new.
       Inr (EV_RoleChanged old new)))"
| "read_event (SE_RoleRemoved role) =
     res_bind (read_role role) (\<lambda>role.
       Inr (EV_RoleRemoved role))"
| "read_event (SE_AgentRoleChanged agent old new) =
     Inr (EV_AgentRoleChanged (Id agent) (map_option Id old) (map_option Id new))"
| "read_event (SE_AgentAdded agent) =
     res_bind (read_starting_agent agent) (\<lambda>agent.
       Inr (EV_AgentAdded agent))"
| "read_event (SE_AgentRenamed agent old new) =
     res_bind (message (name_new old)) (\<lambda>old.
     res_bind (message (name_new new)) (\<lambda>new.
       Inr (EV_AgentRenamed (Id agent) old new)))"
| "read_event (SE_ChatThreadAdded thread) =
     res_bind (read_thread thread) (\<lambda>thread.
       Inr (EV_ChatThreadAdded thread))"
| "read_event (SE_ChatThreadChanged thread old_name new_name old_color new_color) =
     res_bind (message (name_new old_name)) (\<lambda>old_name.
     res_bind (message (name_new new_name)) (\<lambda>new_name.
     res_bind (message (thread_color_new old_color)) (\<lambda>old_color.
     res_bind (message (thread_color_new new_color)) (\<lambda>new_color.
       Inr (EV_ChatThreadChanged (Id thread) old_name new_name old_color new_color)))))"
| "read_event (SE_ChatAttachmentAdded attachment) =
     res_bind (read_attachment attachment) (\<lambda>attachment.
       Inr (EV_ChatAttachmentAdded attachment))"
| "read_event (SE_ChatDraftChanged thread old new) =
     res_bind (read_draft old) (\<lambda>old.
     res_bind (read_draft new) (\<lambda>new.
       Inr (EV_ChatDraftChanged (Id thread) old new)))"
| "read_event (SE_ChatDraftSubmitted thread old msg) =
     res_bind (read_draft old) (\<lambda>old.
     res_bind (read_message msg) (\<lambda>msg.
       Inr (EV_ChatDraftSubmitted (Id thread) old msg)))"
| "read_event (SE_AgentChatMessageAppended msg) =
     res_bind (read_message msg) (\<lambda>msg.
       Inr (EV_AgentChatMessageAppended msg))"
| "read_event (SE_TaskAdded task) =
     res_bind (read_queued_task task) (\<lambda>task.
       Inr (EV_TaskAdded task))"
| "read_event (SE_HandoffAdded handoff) =
     res_bind (read_handoff handoff) (\<lambda>handoff.
       Inr (EV_HandoffAdded handoff))"
| "read_event (SE_TaskHandoffAdded task handoff) =
     res_bind (read_queued_task task) (\<lambda>task.
     res_bind (read_handoff handoff) (\<lambda>handoff.
       Inr (EV_TaskHandoffAdded task handoff)))"
| "read_event (SE_HandoffChanged before after) =
     res_bind (read_handoff before) (\<lambda>before.
     res_bind (read_handoff after) (\<lambda>after.
       Inr (EV_HandoffChanged before after)))"
| "read_event (SE_TaskCancelled task old before after) =
     res_bind (read_handoff before) (\<lambda>before.
     res_bind (read_handoff after) (\<lambda>after.
       Inr (EV_TaskCancelled (Id task) (read_task_state old) before after)))"
| "read_event (SE_TaskResumed task old handoff) =
     res_bind (read_handoff handoff) (\<lambda>handoff.
       Inr (EV_TaskResumed (Id task) (read_task_state old) handoff))"
| "read_event (SE_NodeAdded node) =
     res_bind (read_node node) (\<lambda>node.
       Inr (EV_NodeAdded node))"
| "read_event (SE_AgentNodeAdded agent node) =
     res_bind (read_starting_agent agent) (\<lambda>agent.
     res_bind (read_node node) (\<lambda>node.
       Inr (EV_AgentNodeAdded agent node)))"
| "read_event (SE_CanvasReplaced before after) =
     res_bind (read_layout before) (\<lambda>before.
     res_bind (read_layout after) (\<lambda>after.
       Inr (EV_CanvasReplaced before after)))"
| "read_event (SE_AgentStateChanged agent old new) =
     Inr (EV_AgentStateChanged (Id agent) (read_agent_state old) (read_agent_state new))"
| "read_event (SE_TaskStateChanged task old new) =
     Inr (EV_TaskStateChanged (Id task) (read_task_state old) (read_task_state new))"
| "read_event (SE_RoutineAdded routine) =
     res_bind (read_routine routine) (\<lambda>routine.
       Inr (EV_RoutineAdded routine))"
| "read_event (SE_RoutineVersionAdded routine version) =
     res_bind (read_version version) (\<lambda>version.
       Inr (EV_RoutineVersionAdded (Id routine) version))"
| "read_event (SE_RoutineChanged routine old_name new_name old_description new_description) =
     res_bind (message (name_new old_name)) (\<lambda>old_name.
     res_bind (message (name_new new_name)) (\<lambda>new_name.
     res_bind (read_option (\<lambda>s. message (content_new s)) old_description) (\<lambda>old_description.
     res_bind (read_option (\<lambda>s. message (content_new s)) new_description) (\<lambda>new_description.
       Inr (EV_RoutineChanged (Id routine) old_name new_name old_description new_description)))))"
| "read_event (SE_RoutineTriggerChanged routine old new) =
     res_bind (read_option read_trigger old) (\<lambda>old.
     res_bind (read_trigger new) (\<lambda>new.
       Inr (EV_RoutineTriggerChanged (Id routine) old new)))"
| "read_event (SE_RoutineTriggerRemoved routine trigger) =
     res_bind (read_trigger trigger) (\<lambda>trigger.
       Inr (EV_RoutineTriggerRemoved (Id routine) trigger))"
| "read_event (SE_RoutineRunStarted run firing next_at) =
     res_bind (read_run run) (\<lambda>run.
     res_bind (read_option read_firing firing) (\<lambda>firing.
       Inr (EV_RoutineRunStarted run firing next_at)))"
| "read_event (SE_RoutineOccurrencesSkipped routine trigger skipped next_at) =
     Inr (EV_RoutineOccurrencesSkipped (Id routine) (Id trigger) skipped next_at)"
| "read_event (SE_RoutineRunAdvanced run transition) =
     res_bind (read_transition transition) (\<lambda>transition.
       Inr (EV_RoutineRunAdvanced (Id run) transition))"
| "read_event (SE_RoutineStepDispatched run step attempt task handoff) =
     res_bind (read_routine_attempt attempt) (\<lambda>attempt.
     res_bind (read_queued_task task) (\<lambda>task.
     res_bind (read_handoff handoff) (\<lambda>handoff.
       Inr (EV_RoutineStepDispatched (Id run) (Id step) attempt task handoff))))"

section \<open>Format versions\<close>

definition event_format_version :: u32 where "event_format_version = 13"

fun is_settings_change :: "stored_event \<Rightarrow> bool" where
  "is_settings_change (SE_WorkspaceSettingsChanged _ _) = True"
| "is_settings_change _ = False"

fun is_floors_change :: "stored_event \<Rightarrow> bool" where
  "is_floors_change (SE_FloorsChanged _ _) = True"
| "is_floors_change _ = False"

fun is_agent_renaming :: "stored_event \<Rightarrow> bool" where
  "is_agent_renaming (SE_AgentRenamed _ _ _) = True"
| "is_agent_renaming _ = False"

fun requires_version_three :: "stored_event \<Rightarrow> bool" where
  "requires_version_three (SE_AgentAdded agent) = (agent1_program agent \<noteq> AP1_Shell)"
| "requires_version_three (SE_NodeAdded node) = (node1_z_index node \<noteq> 0)"
| "requires_version_three (SE_AgentNodeAdded _ _) = True"
| "requires_version_three (SE_CanvasReplaced _ _) = True"
| "requires_version_three _ = False"

fun requires_version_four :: "stored_event \<Rightarrow> bool" where
  "requires_version_four (SE_EnvironmentProfileAdded _) = True"
| "requires_version_four (SE_EnvironmentProfileChanged _ _) = True"
| "requires_version_four (SE_EnvironmentProfileRemoved _) = True"
| "requires_version_four (SE_AgentAdded agent) = (agent1_environment agent \<noteq> None)"
| "requires_version_four (SE_AgentNodeAdded agent _) = (agent1_environment agent \<noteq> None)"
| "requires_version_four _ = False"

fun program_is_newer :: "agent_program_v1 \<Rightarrow> bool" where
  "program_is_newer AP1_OpenCode = True"
| "program_is_newer (AP1_Custom _) = True"
| "program_is_newer _ = False"

fun requires_version_five :: "stored_event \<Rightarrow> bool" where
  "requires_version_five (SE_CommandPresetAdded _) = True"
| "requires_version_five (SE_CommandPresetChanged _ _) = True"
| "requires_version_five (SE_CommandPresetRemoved _) = True"
| "requires_version_five (SE_RoleChanged _ _) = True"
| "requires_version_five (SE_RoleRemoved _) = True"
| "requires_version_five (SE_AgentRoleChanged _ _ _) = True"
| "requires_version_five (SE_RoleAdded role) = role_has_appearance_fields role"
| "requires_version_five (SE_AgentAdded agent) = program_is_newer (agent1_program agent)"
| "requires_version_five (SE_AgentNodeAdded agent _) = program_is_newer (agent1_program agent)"
| "requires_version_five _ = False"

fun requires_version_six :: "stored_event \<Rightarrow> bool" where
  "requires_version_six (SE_ChatThreadAdded _) = True"
| "requires_version_six (SE_ChatThreadChanged _ _ _ _ _) = True"
| "requires_version_six (SE_ChatAttachmentAdded _) = True"
| "requires_version_six (SE_ChatDraftChanged _ _ _) = True"
| "requires_version_six (SE_ChatDraftSubmitted _ _ _) = True"
| "requires_version_six (SE_AgentChatMessageAppended _) = True"
| "requires_version_six _ = False"

fun requires_version_seven :: "stored_event \<Rightarrow> bool" where
  "requires_version_seven (SE_TaskHandoffAdded _ _) = True"
| "requires_version_seven (SE_HandoffChanged _ _) = True"
| "requires_version_seven (SE_HandoffAdded handoff) = has_orchestration_fields handoff"
| "requires_version_seven _ = False"

fun requires_version_eight :: "stored_event \<Rightarrow> bool" where
  "requires_version_eight (SE_TaskCancelled _ _ _ _) = True"
| "requires_version_eight (SE_TaskResumed _ _ _) = True"
| "requires_version_eight _ = False"

fun requires_version_ten :: "stored_event \<Rightarrow> bool" where
  "requires_version_ten (SE_NodeAdded node) = (node1_content node \<noteq> None)"
| "requires_version_ten (SE_AgentNodeAdded _ node) = (node1_content node \<noteq> None)"
| "requires_version_ten (SE_CanvasReplaced before after) =
     (layout_has_owned_content before \<or> layout_has_owned_content after)"
| "requires_version_ten _ = False"

fun requires_version_eleven :: "stored_event \<Rightarrow> bool" where
  "requires_version_eleven (SE_NodeAdded node) = has_portal_content node"
| "requires_version_eleven (SE_AgentNodeAdded _ node) = has_portal_content node"
| "requires_version_eleven (SE_CanvasReplaced before after) =
     (layout_has_portal_content before \<or> layout_has_portal_content after)"
| "requires_version_eleven _ = False"

fun requires_version_twelve :: "stored_event \<Rightarrow> bool" where
  "requires_version_twelve (SE_RoutineAdded _) = True"
| "requires_version_twelve (SE_RoutineVersionAdded _ _) = True"
| "requires_version_twelve (SE_RoutineChanged _ _ _ _ _) = True"
| "requires_version_twelve (SE_RoutineTriggerChanged _ _ _) = True"
| "requires_version_twelve (SE_RoutineTriggerRemoved _ _) = True"
| "requires_version_twelve (SE_RoutineRunStarted _ _ _) = True"
| "requires_version_twelve (SE_RoutineOccurrencesSkipped _ _ _ _) = True"
| "requires_version_twelve (SE_RoutineRunAdvanced _ _) = True"
| "requires_version_twelve (SE_RoutineStepDispatched _ _ _ _ _) = True"
| "requires_version_twelve (SE_HandoffAdded handoff) = uses_routine_fields handoff"
| "requires_version_twelve (SE_TaskHandoffAdded _ handoff) = uses_routine_fields handoff"
| "requires_version_twelve (SE_HandoffChanged _ after) = uses_routine_fields after"
| "requires_version_twelve (SE_TaskCancelled _ _ _ after) = uses_routine_fields after"
| "requires_version_twelve (SE_TaskResumed _ _ handoff) = uses_routine_fields handoff"
| "requires_version_twelve _ = False"

text \<open>The checks of \<open>decode_event\<close> in order: a record that its format version cannot hold is refused.\<close>

definition event_too_new :: "u32 \<Rightarrow> stored_event \<Rightarrow> bool" where
  "event_too_new v e \<longleftrightarrow>
     v = 1 \<and> is_settings_change e \<or> v < 3 \<and> requires_version_three e \<or>
     v < 4 \<and> requires_version_four e \<or> v < 5 \<and> requires_version_five e \<or>
     v < 6 \<and> requires_version_six e \<or> v < 7 \<and> requires_version_seven e \<or>
     v < 8 \<and> requires_version_eight e \<or> v < 9 \<and> is_floors_change e \<or>
     v < 10 \<and> requires_version_ten e \<or> v < 11 \<and> requires_version_eleven e \<or>
     v < 12 \<and> requires_version_twelve e \<or> v < 13 \<and> is_agent_renaming e"

definition read_event_of_version :: "u32 \<Rightarrow> stored_event \<Rightarrow> domain_event read" where
  "read_event_of_version v e = (if event_too_new v e then Inl () else read_event e)"

section \<open>Valid events\<close>

text \<open>An event records a starting agent, a queued task, and an empty conversation.\<close>

definition agent_recorded :: "agent \<Rightarrow> bool" where
  "agent_recorded a \<longleftrightarrow> name_valid (agent_name a) \<and> agent_state a = AS_Starting"

definition task_recorded :: "task \<Rightarrow> bool" where
  "task_recorded t \<longleftrightarrow> task_valid t \<and> task_state t = TS_Queued"

definition thread_recorded :: "chat_thread \<Rightarrow> bool" where
  "thread_recorded t \<longleftrightarrow> thread_valid t \<and> opened t = t"

definition handoff_recorded :: "handoff \<Rightarrow> bool" where
  "handoff_recorded h \<longleftrightarrow> handoff_replayable h \<and> handoff_valid h"

fun event_valid :: "domain_event \<Rightarrow> bool" where
  "event_valid (EV_FloorsChanged before after) \<longleftrightarrow> floors_valid before \<and> floors_valid after"
| "event_valid (EV_WorkspaceSettingsChanged old new) \<longleftrightarrow>
     settings_valid old \<and> settings_valid new"
| "event_valid (EV_EnvironmentProfileAdded profile) \<longleftrightarrow> profile_valid profile"
| "event_valid (EV_EnvironmentProfileChanged old new) \<longleftrightarrow>
     profile_valid old \<and> profile_valid new"
| "event_valid (EV_EnvironmentProfileRemoved profile) \<longleftrightarrow> profile_valid profile"
| "event_valid (EV_CommandPresetAdded preset) \<longleftrightarrow> preset_valid preset"
| "event_valid (EV_CommandPresetChanged old new) \<longleftrightarrow>
     preset_valid old \<and> preset_valid new"
| "event_valid (EV_CommandPresetRemoved preset) \<longleftrightarrow> preset_valid preset"
| "event_valid (EV_RoleAdded role) \<longleftrightarrow> role_valid role"
| "event_valid (EV_RoleChanged old new) \<longleftrightarrow> role_valid old \<and> role_valid new"
| "event_valid (EV_RoleRemoved role) \<longleftrightarrow> role_valid role"
| "event_valid (EV_AgentAdded agent) \<longleftrightarrow> agent_recorded agent"
| "event_valid (EV_AgentRenamed _ old new) \<longleftrightarrow>
     name_valid old \<and> name_valid new"
| "event_valid (EV_ChatThreadAdded thread) \<longleftrightarrow> thread_recorded thread"
| "event_valid (EV_ChatThreadChanged _ old_name new_name old_color new_color) \<longleftrightarrow>
     name_valid old_name \<and> name_valid new_name \<and> color_valid old_color \<and> color_valid new_color"
| "event_valid (EV_ChatAttachmentAdded attachment) \<longleftrightarrow>
     attachment_valid attachment"
| "event_valid (EV_ChatDraftChanged _ old new) \<longleftrightarrow>
     draft_valid old \<and> draft_valid new"
| "event_valid (EV_ChatDraftSubmitted _ old msg) \<longleftrightarrow>
     draft_valid old \<and> message_valid msg"
| "event_valid (EV_AgentChatMessageAppended msg) \<longleftrightarrow> message_valid msg"
| "event_valid (EV_TaskAdded task) \<longleftrightarrow> task_recorded task"
| "event_valid (EV_HandoffAdded handoff) \<longleftrightarrow> handoff_recorded handoff"
| "event_valid (EV_TaskHandoffAdded task handoff) \<longleftrightarrow>
     task_recorded task \<and> handoff_recorded handoff"
| "event_valid (EV_HandoffChanged before after) \<longleftrightarrow>
     handoff_recorded before \<and> handoff_recorded after"
| "event_valid (EV_TaskCancelled _ _ before after) \<longleftrightarrow>
     handoff_recorded before \<and> handoff_recorded after"
| "event_valid (EV_TaskResumed _ _ handoff) \<longleftrightarrow> handoff_recorded handoff"
| "event_valid (EV_NodeAdded node) \<longleftrightarrow> node_valid node"
| "event_valid (EV_AgentNodeAdded agent node) \<longleftrightarrow>
     agent_recorded agent \<and> node_valid node"
| "event_valid (EV_CanvasReplaced before after) \<longleftrightarrow>
     layout_valid before \<and> layout_valid after"
| "event_valid (EV_RoutineAdded routine) \<longleftrightarrow> routine_valid routine"
| "event_valid (EV_RoutineVersionAdded _ version) \<longleftrightarrow> version_valid version"
| "event_valid (EV_RoutineChanged _ old_name new_name old_description new_description) \<longleftrightarrow>
     name_valid old_name \<and> name_valid new_name \<and> valid_option content_valid old_description \<and> valid_option content_valid new_description"
| "event_valid (EV_RoutineTriggerChanged _ old new) \<longleftrightarrow>
     valid_option trigger_valid old \<and> trigger_valid new"
| "event_valid (EV_RoutineTriggerRemoved _ trigger) \<longleftrightarrow> trigger_valid trigger"
| "event_valid (EV_RoutineRunStarted run firing _) \<longleftrightarrow>
     run_valid run \<and> valid_option firing_valid firing"
| "event_valid (EV_RoutineRunAdvanced _ transition) \<longleftrightarrow>
     transition_valid transition"
| "event_valid (EV_RoutineStepDispatched _ _ attempt task handoff) \<longleftrightarrow>
     attempt_valid attempt \<and> task_recorded task \<and> handoff_recorded handoff"
| "event_valid _ \<longleftrightarrow> True"

section \<open>Reading back\<close>

lemma read_save_starting_agent: "agent_recorded a \<Longrightarrow> read_starting_agent (save_agent a) = Inr a"
  by (simp add: read_starting_agent_def read_save_agent agent_recorded_def starting_def)

lemma read_save_queued_task: "task_recorded t \<Longrightarrow> read_queued_task (save_task t) = Inr t"
  by (simp add: read_queued_task_def read_save_task task_recorded_def queued_def)

lemma read_save_opened_thread: "thread_recorded t \<Longrightarrow> read_thread (save_thread t) = Inr t"
  by (simp add: thread_recorded_def read_save_thread)

lemma read_save_recorded_handoff: "handoff_recorded h \<Longrightarrow> read_handoff (save_handoff h) = Inr h"
  by (simp add: handoff_recorded_def handoff_form.reads_back)

lemmas stored_forms =
  text_forms color_form.reads_back settings_form.reads_back profile_form.reads_back
  preset_form.reads_back role_form.reads_back read_save_starting_agent read_save_queued_task
  read_save_opened_thread read_save_recorded_handoff draft_form.reads_back attachment_form.reads_back
  message_form.reads_back node_form.reads_back layout_form.reads_back floors_form.reads_back
  version_form.reads_back trigger_form.reads_back trigger_form.reads_back_option
  firing_form.reads_back_option routine_form.reads_back attempt_form.reads_back run_form.reads_back
  transition_form.reads_back

interpretation event_form: stored_form save_event read_event event_valid
proof unfold_locales
  show "read_event (save_event e) = Inr e" if "event_valid e" for e
    using that by (cases e) (simp_all add: stored_forms)
qed

lemma current_event_not_too_new: "\<not> event_too_new event_format_version e"
  by (simp add: event_too_new_def event_format_version_def)

lemma read_save_current_event:
  "event_valid e \<Longrightarrow> read_event_of_version event_format_version (save_event e) = Inr e"
  by (simp add: read_event_of_version_def current_event_not_too_new event_form.reads_back)

end
