(* ===== verification/Stored_Workspace.thy ===== *)
theory Stored_Workspace
  imports Stored_Event Workspace_Execute
begin

text \<open>
  \<open>StoredWorkspace\<close> of \<open>src/persistence/codec.rs\<close>: the snapshot of a workspace. Reading it repeats
  commands on an empty workspace until it holds what the snapshot holds, so a snapshot that reads
  satisfies every check the commands make.
\<close>

section \<open>Records\<close>

record workspace_v1 =
  sw_floors :: floors_v1
  sw_id :: u64
  sw_name :: string
  sw_icon :: "string option"
  sw_working_directory :: "string option"
  sw_instructions :: "string option"
  sw_profiles :: "environment_profile_v1 list"
  sw_presets :: "command_preset_v1 list"
  sw_roles :: "role_v1 list"
  sw_agents :: "agent_v1 list"
  sw_archived_agents :: "u64 list"
  sw_chat_threads :: "chat_thread_v1 list"
  sw_chat_attachments :: "chat_attachment_v1 list"
  sw_tasks :: "task_v1 list"
  sw_handoffs :: "handoff_v1 list"
  sw_nodes :: "node_v1 list"
  sw_groups :: "node_group_v1 list"
  sw_connections :: "connection_v1 list"
  sw_routines :: "routine_v1 list"
  sw_routine_runs :: "routine_run_v1 list"

definition save_workspace :: "workspace \<Rightarrow> workspace_v1" where
  "save_workspace w =
     \<lparr>sw_floors = save_floors (w_floors w), sw_id = id_get (w_id w),
      sw_name = name_str (ws_name (w_settings w)),
      sw_icon = map_option workspace_icon_str (ws_icon (w_settings w)),
      sw_working_directory = map_option workspace_directory_str (ws_working_directory (w_settings w)),
      sw_instructions = map_option content_str (ws_instructions (w_settings w)),
      sw_profiles = map save_profile (bm_values (w_profiles w)),
      sw_presets = map save_preset (bm_values (w_presets w)),
      sw_roles = map save_role (bm_values (w_roles w)),
      sw_agents = map save_agent (recorded_agents w),
      sw_archived_agents = map (\<lambda>a. id_get (agent_ident a)) (bm_values (w_archived w)),
      sw_chat_threads = map save_thread (bm_values (w_threads w)),
      sw_chat_attachments = map save_attachment (bm_values (w_attachments w)),
      sw_tasks = map save_task (bm_values (w_tasks w)),
      sw_handoffs = map save_handoff (bm_values (w_handoffs w)),
      sw_nodes = map save_node (bm_values (w_nodes w)),
      sw_groups = map save_group (bm_values (w_groups w)),
      sw_connections = map save_connection (bm_values (w_connections w)),
      sw_routines = map save_routine (bm_values (w_routines w)),
      sw_routine_runs = map save_run (bm_values (w_runs w))\<rparr>"

definition snapshot_format_version :: u32 where "snapshot_format_version = 12"

text \<open>The checks before anything is read; those for routines and floors come later.\<close>

definition snapshot_too_new :: "u32 \<Rightarrow> workspace_v1 \<Rightarrow> bool" where
  "snapshot_too_new v s \<longleftrightarrow>
     v < 12 \<and> sw_archived_agents s \<noteq> [] \<or>
     v = 1 \<and> (sw_icon s \<noteq> None \<or> sw_working_directory s \<noteq> None \<or> sw_instructions s \<noteq> None) \<or>
     v < 3 \<and> (list_ex (\<lambda>a. agent1_program a \<noteq> AP1_Shell) (sw_agents s)
        \<or> list_ex (\<lambda>n. node1_z_index n \<noteq> 0) (sw_nodes s) \<or> sw_groups s \<noteq> [] \<or> sw_connections s \<noteq> []) \<or>
     v < 4 \<and> (sw_profiles s \<noteq> [] \<or> list_ex (\<lambda>a. agent1_environment a \<noteq> None) (sw_agents s)) \<or>
     v < 5 \<and> (sw_presets s \<noteq> [] \<or> list_ex role_has_appearance_fields (sw_roles s)
        \<or> list_ex (\<lambda>a. program_is_newer (agent1_program a)) (sw_agents s)) \<or>
     v < 6 \<and> (sw_chat_threads s \<noteq> [] \<or> sw_chat_attachments s \<noteq> []) \<or>
     v < 7 \<and> list_ex has_orchestration_fields (sw_handoffs s) \<or>
     v < 9 \<and> list_ex (\<lambda>n. node1_content n \<noteq> None) (sw_nodes s) \<or>
     v < 10 \<and> list_ex has_portal_content (sw_nodes s)"

section \<open>Repeating commands\<close>

definition apply_snapshot_command :: "workspace \<Rightarrow> domain_command \<Rightarrow> workspace read" where
  "apply_snapshot_command w c = res_bind (message (execute w c)) (\<lambda>(w, _). Inr w)"

text \<open>\<open>for x in xs { apply_snapshot_command(&mut workspace, Command(x.into_domain()?))?; }\<close>.\<close>

definition restore_all ::
  "('b \<Rightarrow> 'a read) \<Rightarrow> ('a \<Rightarrow> domain_command) \<Rightarrow> 'b list \<Rightarrow> workspace \<Rightarrow> workspace read" where
  "restore_all read command items w =
     try_fold (\<lambda>w s. res_bind (read s) (\<lambda>x. apply_snapshot_command w (command x))) w items"

fun agent_path :: "agent_state \<Rightarrow> agent_state list" where
  "agent_path AS_Starting = []"
| "agent_path AS_Running = [AS_Running]"
| "agent_path AS_Waiting = [AS_Running, AS_Waiting]"
| "agent_path AS_Completed = [AS_Running, AS_Completed]"
| "agent_path AS_Failed = [AS_Failed]"
| "agent_path AS_Stopped = [AS_Stopped]"

definition restore_agent_state :: "agent_id \<Rightarrow> agent_state \<Rightarrow> workspace \<Rightarrow> workspace read" where
  "restore_agent_state a state w =
     try_fold (\<lambda>w to. apply_snapshot_command w (DC_TransitionAgent a to)) w (agent_path state)"

definition restore_agent_v1 :: "workspace \<Rightarrow> agent_v1 \<Rightarrow> workspace read" where
  "restore_agent_v1 w s =
     res_bind (read_agent s) (\<lambda>(agent, state).
     res_bind (apply_snapshot_command w (DC_AddAgent agent)) (\<lambda>w.
       restore_agent_state (agent_ident agent) state w))"

fun task_path :: "task_state \<Rightarrow> task_state list" where
  "task_path TS_Queued = []"
| "task_path TS_Delivered = [TS_Delivered]"
| "task_path TS_Running = [TS_Delivered, TS_Running]"
| "task_path TS_Blocked = [TS_Delivered, TS_Running, TS_Blocked]"
| "task_path TS_Completed = [TS_Delivered, TS_Running, TS_Completed]"
| "task_path TS_Failed = [TS_Delivered, TS_Failed]"
| "task_path TS_Cancelled = [TS_Cancelled]"

definition restore_task_state :: "task_id \<Rightarrow> task_state \<Rightarrow> workspace \<Rightarrow> workspace read" where
  "restore_task_state t state w =
     try_fold (\<lambda>w to. apply_snapshot_command w (DC_TransitionTask t to)) w (task_path state)"

definition restore_task_v1 :: "workspace \<Rightarrow> task_v1 \<Rightarrow> workspace read" where
  "restore_task_v1 w s =
     res_bind (read_task s) (\<lambda>(task, state).
     res_bind (apply_snapshot_command w (DC_AddTask task)) (\<lambda>w.
       restore_task_state (task_ident task) state w))"

text \<open>
  The two loops over \<open>pending_tasks\<close> and \<open>pending_handoffs\<close>: the first item that is ready is
  removed and restored, until none is left or none is ready.
\<close>

function restore_ready ::
  "(workspace \<Rightarrow> 'b \<Rightarrow> bool) \<Rightarrow> (workspace \<Rightarrow> 'b \<Rightarrow> workspace read) \<Rightarrow> 'b list \<Rightarrow> workspace \<Rightarrow>
   workspace read" where
  "restore_ready ready restore pending w =
     (if pending = [] then Inr w
      else case List.extract (ready w) pending of
             None \<Rightarrow> Inl ()
           | Some (before, item, after) \<Rightarrow>
               res_bind (restore w item) (restore_ready ready restore (before @ after)))"
  by pat_completeness auto
termination
  by (relation "measure (\<lambda>(ready, restore, pending, w). length pending)")
    (auto dest!: extract_SomeE)

declare restore_ready.simps [simp del]

definition task_ready :: "workspace \<Rightarrow> task_v1 \<Rightarrow> bool" where
  "task_ready w s =
     (case task1_retry_of s of None \<Rightarrow> True | Some t \<Rightarrow> bm_get (w_tasks w) (Id t) \<noteq> None)"

definition handoff_ready :: "workspace \<Rightarrow> handoff_v1 \<Rightarrow> bool" where
  "handoff_ready w s =
     (case handoff1_parent s of None \<Rightarrow> True | Some p \<Rightarrow> bm_get (w_handoffs w) (Id p) \<noteq> None)"

definition restore_handoff_v1 :: "workspace \<Rightarrow> handoff_v1 \<Rightarrow> workspace read" where
  "restore_handoff_v1 w s =
     res_bind (read_handoff s) (\<lambda>h. apply_snapshot_command w (DC_AddHandoff h))"

definition restore_run_v1 :: "workspace \<Rightarrow> routine_run_v1 \<Rightarrow> workspace read" where
  "restore_run_v1 w s = res_bind (read_run s) (\<lambda>r. message (restore_routine_run w r))"

definition restore_graph ::
  "node_group_v1 list \<Rightarrow> connection_v1 list \<Rightarrow> workspace \<Rightarrow> workspace read" where
  "restore_graph groups connections w =
     (let before = canvas_layout w in
      res_bind (try_map read_group groups) (\<lambda>groups.
        let after = canvas_layout_new (cl_nodes before) groups (map read_connection connections)
        in if \<not> canvas_layout_eq before after
           then apply_snapshot_command w (DC_ReplaceCanvas before after) else Inr w))"

section \<open>Conversations\<close>

text \<open>The threads are added first; their drafts and messages wait for the attachments.\<close>

type_synonym waiting_chat = "chat_thread_id \<times> chat_draft \<times> chat_message list"

definition restore_thread_v1 ::
  "workspace \<times> waiting_chat list \<Rightarrow> chat_thread_v1 \<Rightarrow> (workspace \<times> waiting_chat list) read" where
  "restore_thread_v1 = (\<lambda>(w, waiting) s.
     res_bind (read_thread_parts s) (\<lambda>(thread, draft, messages).
     res_bind (apply_snapshot_command w (DC_AddChatThread thread)) (\<lambda>w.
       Inr (w, waiting @ [(th_id thread, draft, messages)]))))"

definition restore_message :: "chat_thread_id \<Rightarrow> workspace \<Rightarrow> chat_message \<Rightarrow> workspace read" where
  "restore_message thread w m =
     (case msg_author m of
        CA_User \<Rightarrow>
          res_bind (message (chat_draft_new (content_str (msg_content m)) (msg_attachments m)
              (msg_mentions m))) (\<lambda>draft.
          res_bind (apply_snapshot_command w (DC_UpdateChatDraft thread draft)) (\<lambda>w.
            apply_snapshot_command w (DC_SubmitChatDraft thread (msg_id m) (msg_sent_at m))))
      | CA_Agent _ \<Rightarrow> apply_snapshot_command w (DC_AppendAgentChatMessage m))"

definition restore_chat :: "workspace \<Rightarrow> waiting_chat \<Rightarrow> workspace read" where
  "restore_chat w = (\<lambda>(thread, draft, messages).
     res_bind (try_fold (restore_message thread) w messages) (\<lambda>w.
       if \<not> chat_draft_is_empty draft
       then apply_snapshot_command w (DC_UpdateChatDraft thread draft) else Inr w))"

section \<open>Floors and archived agents\<close>

definition restore_floors :: "u32 \<Rightarrow> floors_v1 \<Rightarrow> workspace \<Rightarrow> workspace read" where
  "restore_floors v s w =
     res_bind (read_floors s) (\<lambda>floors.
       if floors \<noteq> floors_default then
         if v < 8 then Inl ()
         else apply_snapshot_command w (DC_ReplaceFloors (w_floors w) floors)
       else Inr w)"

definition archived_refused :: "workspace \<Rightarrow> u64 \<Rightarrow> bool" where
  "archived_refused w i =
     (bm_get (w_agents w) (Id i) = None
      \<or> list_ex (\<lambda>n. node_reference n = Some (NT_Agent (Id i))) (bm_values (w_nodes w)))"

definition restore_archived :: "u64 list \<Rightarrow> workspace \<Rightarrow> workspace read" where
  "restore_archived ids w =
     (if list_ex (archived_refused w) ids then Inl ()
      else Inr (archive_unplaced_agents (map Id ids) w))"

section \<open>The snapshot\<close>

definition restore_settings :: "workspace_v1 \<Rightarrow> workspace read" where
  "restore_settings s =
     res_bind (read_settings \<lparr>settings1_name = sw_name s, settings1_icon = sw_icon s,
         settings1_working_directory = sw_working_directory s,
         settings1_instructions = sw_instructions s\<rparr>) (\<lambda>settings.
       let w = workspace_new (Id (sw_id s)) (ws_name settings) in
       if w_settings w \<noteq> settings
       then apply_snapshot_command w (DC_UpdateWorkspaceSettings settings) else Inr w)"

text \<open>What the rest refers to: configuration, agents and routines with their runs.\<close>

definition restore_config :: "u32 \<Rightarrow> workspace_v1 \<Rightarrow> workspace \<Rightarrow> workspace read" where
  "restore_config v s w =
     res_bind (restore_all read_profile DC_AddEnvironmentProfile (sw_profiles s) w) (\<lambda>w.
     res_bind (restore_all read_preset DC_AddCommandPreset (sw_presets s) w) (\<lambda>w.
     res_bind (restore_all read_role DC_AddRole (sw_roles s) w) (\<lambda>w.
     res_bind (try_fold restore_agent_v1 w (sw_agents s)) (\<lambda>w.
       if v < 11 \<and> (sw_routines s \<noteq> [] \<or> sw_routine_runs s \<noteq> []) then Inl ()
       else res_bind (restore_all read_routine DC_AddRoutine (sw_routines s) w) (\<lambda>w.
         try_fold restore_run_v1 w (sw_routine_runs s))))))"

definition restore_work :: "workspace_v1 \<Rightarrow> workspace \<Rightarrow> workspace read" where
  "restore_work s w =
     res_bind (restore_ready task_ready restore_task_v1 (sw_tasks s) w) (\<lambda>w.
     res_bind (restore_ready handoff_ready restore_handoff_v1 (sw_handoffs s) w) (\<lambda>w.
     res_bind (restore_all read_node DC_AddNode (sw_nodes s) w) (\<lambda>w.
       restore_graph (sw_groups s) (sw_connections s) w)))"

definition restore_chats :: "workspace_v1 \<Rightarrow> workspace \<Rightarrow> workspace read" where
  "restore_chats s w =
     res_bind (try_fold restore_thread_v1 (w, []) (sw_chat_threads s)) (\<lambda>(w, waiting).
     res_bind (restore_all read_attachment DC_AddChatAttachment (sw_chat_attachments s) w) (\<lambda>w.
       try_fold restore_chat w waiting))"

definition read_workspace :: "u32 \<Rightarrow> workspace_v1 \<Rightarrow> workspace read" where
  "read_workspace v s =
     (if snapshot_too_new v s then Inl ()
      else
        res_bind (restore_settings s) (\<lambda>w.
        res_bind (restore_config v s w) (\<lambda>w.
        res_bind (restore_work s w) (\<lambda>w.
        res_bind (restore_chats s w) (\<lambda>w.
        res_bind (restore_floors v (sw_floors s) w) (\<lambda>w.
          restore_archived (sw_archived_agents s) w))))))"

end
