(* ===== verification/Effects.thy ===== *)
theory Effects
  imports Prelude
begin

text \<open>
  Operations that change a state and may fail half-way: what a method with \<open>&mut self\<close> that uses
  \<open>?\<close> does when the changes before the error stay. An action maps a state to its result and the
  state it leaves, also when the result is an error.
\<close>

section \<open>Actions\<close>

type_synonym ('s, 'e, 'a) action = "'s \<Rightarrow> ('e, 'a) result \<times> 's"

definition act_return :: "'a \<Rightarrow> ('s, 'e, 'a) action" where
  "act_return a = (\<lambda>s. (Inr a, s))"

definition act_fail :: "'e \<Rightarrow> ('s, 'e, 'a) action" where
  "act_fail e = (\<lambda>s. (Inl e, s))"

definition act_bind :: "('s, 'e, 'a) action \<Rightarrow> ('a \<Rightarrow> ('s, 'e, 'b) action) \<Rightarrow> ('s, 'e, 'b) action" where
  "act_bind m f = (\<lambda>s. case m s of (Inl e, s') \<Rightarrow> (Inl e, s') | (Inr a, s') \<Rightarrow> f a s')"

text \<open>A step whose error the caller turns into a value, as \<open>match\<close> on a \<open>Result\<close> does.\<close>

definition act_try :: "('s, 'e, 'a) action \<Rightarrow> ('s, 'f, ('e, 'a) result) action" where
  "act_try m = (\<lambda>s. case m s of (r, s') \<Rightarrow> (Inr r, s'))"

definition act_lift :: "('e, 'a) result \<Rightarrow> ('s, 'e, 'a) action" where
  "act_lift r = (\<lambda>s. (r, s))"

definition act_get :: "('s \<Rightarrow> 'a) \<Rightarrow> ('s, 'e, 'a) action" where
  "act_get f = (\<lambda>s. (Inr (f s), s))"

definition act_modify :: "('s \<Rightarrow> 's) \<Rightarrow> ('s, 'e, unit) action" where
  "act_modify f = (\<lambda>s. (Inr (), f s))"

definition act_map_err :: "('e \<Rightarrow> 'f) \<Rightarrow> ('s, 'e, 'a) action \<Rightarrow> ('s, 'f, 'a) action" where
  "act_map_err g m = (\<lambda>s. case m s of (r, s') \<Rightarrow> (map_err g r, s'))"

text \<open>A \<open>for\<close> loop over a list that was computed before the loop.\<close>

fun act_each :: "('a \<Rightarrow> ('s, 'e, unit) action) \<Rightarrow> 'a list \<Rightarrow> ('s, 'e, unit) action" where
  "act_each f [] = act_return ()"
| "act_each f (x # xs) = act_bind (f x) (\<lambda>_. act_each f xs)"

text \<open>An action on a component of the state.\<close>

definition act_zoom :: "('s \<Rightarrow> 't) \<Rightarrow> ('t \<Rightarrow> 's \<Rightarrow> 's) \<Rightarrow> ('t, 'e, 'a) action \<Rightarrow> ('s, 'e, 'a) action" where
  "act_zoom get put m = (\<lambda>s. case m (get s) of (r, t) \<Rightarrow> (r, put t s))"

lemma act_run_simps [simp]:
  "act_return a s = (Inr a, s)"
  "act_fail e s = (Inl e, s)"
  "act_lift r s = (r, s)"
  "act_get f s = (Inr (f s), s)"
  "act_modify g s = (Inr (), g s)"
  by (simp_all add: act_return_def act_fail_def act_lift_def act_get_def act_modify_def)

lemma act_bind_eqs:
  "m s = (Inl e, s') \<Longrightarrow> act_bind m f s = (Inl e, s')"
  "m s = (Inr a, s') \<Longrightarrow> act_bind m f s = f a s'"
  by (simp_all add: act_bind_def)

lemma act_bind_Inr_iff [result_iff]:
  "act_bind m f s = (Inr b, s') \<longleftrightarrow> (\<exists>a t. m s = (Inr a, t) \<and> f a t = (Inr b, s'))"
  by (auto simp: act_bind_def split: prod.splits sum.splits)

lemma act_bind_run [simp]:
  "act_bind (act_return a) f = f a"
  "act_bind (act_fail e) f = act_fail e"
  "act_bind (act_lift (Inr a)) f = f a"
  "act_bind (act_lift (Inl e)) f = act_fail e"
  "act_bind (act_get g) f s = f (g s) s"
  "act_bind (act_modify step) h s = h () (step s)"
  by (simp_all add: act_bind_def fun_eq_iff)

section \<open>What an action keeps\<close>

text \<open>
  \<open>keeps R m\<close>: whatever the outcome, the state the action leaves is related by \<open>R\<close> to the one it
  started from. With a reflexive and transitive \<open>R\<close> the rules below take an operation apart.
\<close>

definition keeps :: "('s \<Rightarrow> 's \<Rightarrow> bool) \<Rightarrow> ('s, 'e, 'a) action \<Rightarrow> bool" where
  "keeps R m \<longleftrightarrow> (\<forall>s. R s (snd (m s)))"

named_theorems keeps_intro \<open>how actions keep a relation\<close>

lemma keepsD: "keeps R m \<Longrightarrow> m s = (r, s') \<Longrightarrow> R s s'"
  by (metis keeps_def snd_conv)

locale kept_relation =
  fixes R :: "'s \<Rightarrow> 's \<Rightarrow> bool"
  assumes kept_refl: "R s s" and kept_trans: "R s t \<Longrightarrow> R t u \<Longrightarrow> R s u"
begin

lemma keeps_pure:
  "keeps R (act_return a)" "keeps R (act_fail e)" "keeps R (act_lift r)" "keeps R (act_get f)"
  by (simp_all add: keeps_def kept_refl)

lemma keeps_modify: "(\<And>s. R s (g s)) \<Longrightarrow> keeps R (act_modify g)"
  by (simp add: keeps_def)

lemma keeps_bind: "keeps R m \<Longrightarrow> (\<And>a. keeps R (f a)) \<Longrightarrow> keeps R (act_bind m f)"
  unfolding keeps_def act_bind_def
  by (auto split: prod.split sum.split) (metis kept_trans snd_conv)+

lemma keeps_each: "(\<And>x. keeps R (f x)) \<Longrightarrow> keeps R (act_each f xs)"
  by (induction xs) (simp_all add: keeps_pure keeps_bind)

lemma keeps_try: "keeps R m \<Longrightarrow> keeps R (act_try m)"
  by (auto simp: keeps_def act_try_def split: prod.split) (metis snd_conv)

lemma keeps_map_err: "keeps R m \<Longrightarrow> keeps R (act_map_err g m)"
  by (auto simp: keeps_def act_map_err_def split: prod.split) (metis snd_conv)

end

section \<open>Loops\<close>

text \<open>
  A \<open>loop\<close> whose body goes round again with a new value of its variables (\<open>Inl\<close>) or leaves with a
  result (\<open>Inr\<close>). The fuel bounds the rounds; a body that lowers a measure whenever it goes round
  never uses it up.
\<close>

fun act_loop ::
  "nat \<Rightarrow> ('b \<Rightarrow> ('s, 'e, 'b + 'a) action) \<Rightarrow> 'b \<Rightarrow> ('s, 'e, 'a option) action" where
  "act_loop 0 body b = act_return None"
| "act_loop (Suc n) body b =
     act_bind (body b) (\<lambda>r. case r of Inl b \<Rightarrow> act_loop n body b | Inr a \<Rightarrow> act_return (Some a))"

locale measured_loop =
  fixes body :: "'b \<Rightarrow> ('s, 'e, 'b + 'a) action" and rank :: "'s \<Rightarrow> nat" and inv :: "'s \<Rightarrow> bool"
  assumes goes_down: "inv s \<Longrightarrow> body b s = (Inr (Inl b'), s') \<Longrightarrow> inv s' \<and> rank s' < rank s"
begin

lemma loop_leaves: "inv s \<Longrightarrow> rank s < n \<Longrightarrow> act_loop n body b s \<noteq> (Inr None, s')"
proof (induction n arbitrary: s b)
  case (Suc n)
  obtain r t where run: "body b s = (r, t)" by fastforce
  have "act_loop n body b' t \<noteq> (Inr None, s')" if "r = Inr (Inl b')" for b'
    using Suc goes_down [of s b b' t] run that by (intro Suc.IH) auto
  with run show ?case by (cases r) (auto simp: act_bind_def split: sum.split)
qed simp

lemma loop_fuel: "inv s \<Longrightarrow> rank s < m \<Longrightarrow> rank s < n \<Longrightarrow> act_loop m body b s = act_loop n body b s"
proof (induction m arbitrary: n s b)
  case (Suc m)
  then obtain k where n: "n = Suc k" by (cases n) auto
  obtain r t where run: "body b s = (r, t)" by fastforce
  have "act_loop m body b' t = act_loop k body b' t" if "r = Inr (Inl b')" for b'
    using Suc goes_down [of s b b' t] run that n by (intro Suc.IH) auto
  with run n show ?case by (cases r) (auto simp: act_bind_def split: sum.split)
qed simp

end

context kept_relation
begin

lemma keeps_loop: "(\<And>b. keeps R (body b)) \<Longrightarrow> keeps R (act_loop n body b)"
  by (induction n arbitrary: b) (auto intro!: keeps_pure keeps_bind split: sum.split)

end

end
