(* ===== verification/Journal.thy ===== *)
theory Journal
  imports Stored_Workspace Effects
begin

text \<open>
  The journal of \<open>src/persistence/storage.rs\<close>: the tables of the database as lists of rows, the
  transaction that records a batch of commands, and recovery. SQLite is what its documentation
  says: a transaction happens as a whole or not at all, and \<open>AUTOINCREMENT\<close> gives every row a number
  above all earlier ones. Which of the coming transactions fail is part of the state of the
  journal, since only the environment knows it.

  The JSON library and the hash are arguments (\<open>codec\<close>); what they write are the stored forms of
  \<open>Stored_Event\<close> and \<open>Stored_Workspace\<close>. Statements that need the library to be faithful say so.
\<close>

section \<open>Errors\<close>

datatype persistence_error =
    PE_Database string
  | PE_UnsupportedRecordVersion string nat u32 u32
  | PE_ChecksumMismatch string nat
  | PE_Serialization string
  | PE_Deserialization string nat
  | PE_InvalidRecord string nat
  | PE_Domain domain_error
  | PE_UnknownWorkspace workspace_id
  | PE_NoValidSnapshot workspace_id nat

section \<open>Encodings\<close>

type_synonym bytes = "8 word list"

definition le_bytes :: "nat \<Rightarrow> 'a::len word \<Rightarrow> bytes" where
  "le_bytes n x = map (\<lambda>i. ucast (drop_bit (8 * i) x)) [0..<n]"

definition text_bytes :: "string \<Rightarrow> bytes" where
  "text_bytes s = map (\<lambda>c. of_nat (byte_of c)) s"

text \<open>\<open>serde_json\<close> for the two kinds of records, and \<open>blake3\<close>.\<close>

record codec =
  cd_hash :: "bytes \<Rightarrow> bytes"
  cd_write_workspace :: "workspace_v1 \<Rightarrow> bytes option"
  cd_read_workspace :: "bytes \<Rightarrow> workspace_v1 option"
  cd_write_event :: "stored_event \<Rightarrow> bytes option"
  cd_read_event :: "bytes \<Rightarrow> stored_event option"

definition encode_event :: "codec \<Rightarrow> domain_event \<Rightarrow> (persistence_error, bytes) result" where
  "encode_event cd e = ok_or (cd_write_event cd (save_event e)) (PE_Serialization ''domain event'')"

definition decode_event ::
  "codec \<Rightarrow> bytes \<Rightarrow> nat \<Rightarrow> u32 \<Rightarrow> (persistence_error, domain_event) result" where
  "decode_event cd payload sequence v =
     res_bind (ok_or (cd_read_event cd payload) (PE_Deserialization ''domain event'' sequence)) (\<lambda>stored.
       map_err (\<lambda>_. PE_InvalidRecord ''domain event'' sequence) (read_event_of_version v stored))"

definition encode_workspace :: "codec \<Rightarrow> workspace \<Rightarrow> (persistence_error, bytes) result" where
  "encode_workspace cd w =
     ok_or (cd_write_workspace cd (save_workspace w)) (PE_Serialization ''workspace snapshot'')"

definition decode_workspace ::
  "codec \<Rightarrow> bytes \<Rightarrow> nat \<Rightarrow> u32 \<Rightarrow> (persistence_error, workspace) result" where
  "decode_workspace cd payload sequence v =
     res_bind (ok_or (cd_read_workspace cd payload) (PE_Deserialization ''workspace snapshot'' sequence))
       (\<lambda>stored. map_err (\<lambda>_. PE_InvalidRecord ''workspace snapshot'' sequence) (read_workspace v stored))"

text \<open>\<open>checksum\<close> of \<open>persistence/codec.rs\<close>: every part is hashed behind its length.\<close>

definition checksum :: "codec \<Rightarrow> bytes list \<Rightarrow> bytes" where
  "checksum cd parts =
     cd_hash cd (concat (map (\<lambda>p. le_bytes 8 (of_nat (length p) :: u64) @ p) parts))"

section \<open>Numbers as text\<close>

text \<open>\<open>str::parse::<u64>()\<close>: an optional plus sign, then digits, within the range.\<close>

definition digits_value :: "string \<Rightarrow> nat" where
  "digits_value s = foldl (\<lambda>n c. 10 * n + (byte_of c - 48)) 0 s"

definition parse_u64 :: "string \<Rightarrow> u64 option" where
  "parse_u64 s =
     (let digits = (if prefix ''+'' s then tl s else s) in
      if digits \<noteq> [] \<and> list_all is_ascii_digit digits \<and> digits_value digits < 2 ^ 64
      then Some (of_nat (digits_value digits)) else None)"

definition u64_text :: "u64 \<Rightarrow> string" where
  "u64_text n = decimal (unat n)"

definition workspace_key :: "workspace_id \<Rightarrow> string" where
  "workspace_key wid = u64_text (id_get wid)"

lemma byte_digit: "d < 10 \<Longrightarrow> byte_of (char_of (48 + d)) = 48 + d"
  by (simp add: byte_of_def)

lemma digits_value_snoc [simp]: "digits_value (s @ [c]) = 10 * digits_value s + (byte_of c - 48)"
  by (simp add: digits_value_def)

lemma decimal_digits: "decimal n \<noteq> [] \<and> list_all is_ascii_digit (decimal n) \<and> digits_value (decimal n) = n"
proof (induction n rule: decimal.induct)
  case (1 n)
  show ?case
  proof (cases "n < 10")
    case True
    then have "digits_value [char_of (48 + n)] = n"
      using byte_digit [of n] digits_value_snoc [of "[]"] by (simp add: digits_value_def)
    with True show ?thesis
      by (subst (1 2 3) decimal.simps) (simp add: is_ascii_digit_def byte_digit)
  next
    case False
    with 1 have "list_all is_ascii_digit (decimal (n div 10)) \<and> digits_value (decimal (n div 10)) = n div 10"
      by blast
    with False show ?thesis
      by (subst (1 2 3) decimal.simps) (simp add: is_ascii_digit_def byte_digit)
  qed
qed

lemma decimal_inject: "decimal m = decimal n \<longleftrightarrow> m = n"
  using decimal_digits [of m] decimal_digits [of n] by metis

lemma u64_text_inject [simp]: "u64_text m = u64_text n \<longleftrightarrow> m = n"
  by (simp add: u64_text_def decimal_inject word_unat_eq_iff)

lemma workspace_key_inject [simp]: "workspace_key a = workspace_key b \<longleftrightarrow> a = b"
  by (cases a; cases b) (simp add: workspace_key_def)

lemma parse_u64_text [simp]: "parse_u64 (u64_text n) = Some n"
proof -
  have digits: "list_all is_ascii_digit (u64_text n)" "u64_text n \<noteq> []" "digits_value (u64_text n) = unat n"
    using decimal_digits [of "unat n"] by (simp_all add: u64_text_def)
  then have "\<not> prefix ''+'' (u64_text n)"
    by (cases "u64_text n") (auto simp: is_ascii_digit_def byte_of_def)
  with digits show ?thesis using unsigned_less [of n, where 'a = nat] by (simp add: parse_u64_def)
qed

section \<open>Tables\<close>

record event_row =
  er_sequence :: nat
  er_workspace :: string
  er_occurred_at :: string
  er_version :: u32
  er_payload :: bytes
  er_checksum :: bytes

record snapshot_row =
  sn_sequence :: nat
  sn_workspace :: string
  sn_version :: u32
  sn_payload :: bytes
  sn_checksum :: bytes

text \<open>
  \<open>jr_faults\<close> lists, for the coming uses of the database, the operation that fails in it, if one
  does; after the list every use succeeds. The registry keeps the time as the number its text
  denotes: longer digits first, then the digits, is the order of the numbers.
\<close>

record journal =
  jr_events :: "event_row list"
  jr_snapshots :: "snapshot_row list"
  jr_registry :: "(workspace_id \<times> timestamp) list"
  jr_active :: "workspace_id option"
  jr_faults :: "string option list"

definition journal_empty :: journal where
  "journal_empty = \<lparr>jr_events = [], jr_snapshots = [], jr_registry = [], jr_active = None, jr_faults = []\<rparr>"

definition use_database :: "(journal, persistence_error, unit) action" where
  "use_database j =
     (case jr_faults j of
        [] \<Rightarrow> (Inr (), j)
      | f # fs \<Rightarrow> (case f of None \<Rightarrow> Inr () | Some op \<Rightarrow> Inl (PE_Database op), j\<lparr>jr_faults := fs\<rparr>))"

definition next_sequence :: "journal \<Rightarrow> nat" where
  "next_sequence j = Suc (fold max (map er_sequence (jr_events j)) 0)"

section \<open>Recording a batch\<close>

text \<open>The loop over the commands: the candidate, the first snapshot, and the encoded events.\<close>

definition plan_command ::
  "codec \<Rightarrow> workspace \<times> bytes option \<times> (bytes \<times> domain_event) list \<Rightarrow> domain_command \<Rightarrow>
   (persistence_error, workspace \<times> bytes option \<times> (bytes \<times> domain_event) list) result" where
  "plan_command cd = (\<lambda>(candidate, first, records) c.
     res_bind (map_err PE_Domain (execute candidate c)) (\<lambda>(candidate, event).
     res_bind (case first of
           None \<Rightarrow> res_bind (encode_workspace cd candidate) (\<lambda>p. Inr (Some p))
         | Some p \<Rightarrow> Inr (Some p)) (\<lambda>first.
     res_bind (encode_event cd event) (\<lambda>payload.
       Inr (candidate, first, records @ [(payload, event)])))))"

definition new_event_row :: "codec \<Rightarrow> workspace_id \<Rightarrow> timestamp \<Rightarrow> nat \<Rightarrow> bytes \<Rightarrow> event_row" where
  "new_event_row cd wid at sequence payload =
     \<lparr>er_sequence = sequence, er_workspace = workspace_key wid, er_occurred_at = u64_text at,
      er_version = event_format_version, er_payload = payload,
      er_checksum = checksum cd [le_bytes 4 event_format_version, text_bytes (workspace_key wid),
        le_bytes 8 at, payload]\<rparr>"

definition new_snapshot_row :: "codec \<Rightarrow> workspace_id \<Rightarrow> nat \<Rightarrow> bytes \<Rightarrow> snapshot_row" where
  "new_snapshot_row cd wid sequence payload =
     \<lparr>sn_sequence = sequence, sn_workspace = workspace_key wid, sn_version = snapshot_format_version,
      sn_payload = payload,
      sn_checksum = checksum cd [le_bytes 4 snapshot_format_version, text_bytes (workspace_key wid),
        le_bytes 8 (of_nat sequence :: u64), payload]\<rparr>"

text \<open>\<open>INSERT INTO workspace_registry ... ON CONFLICT DO NOTHING\<close> and the first active workspace.\<close>

definition register_workspace :: "workspace_id \<Rightarrow> timestamp \<Rightarrow> journal \<Rightarrow> journal" where
  "register_workspace wid at j =
     (if wid \<in> set (map fst (jr_registry j)) then j
      else j\<lparr>jr_registry := jr_registry j @ [(wid, at)], jr_active := Some wid\<rparr>)"

text \<open>
  The statements of the transaction: one row per event, and a snapshot after the first and after
  the last one.
\<close>

definition insert_records ::
  "codec \<Rightarrow> workspace_id \<Rightarrow> timestamp \<Rightarrow> bytes \<Rightarrow> bytes \<Rightarrow> (bytes \<times> domain_event) list \<Rightarrow>
   journal \<Rightarrow> journal \<times> timeline_event list" where
  "insert_records cd wid at first final records j =
     (let base = next_sequence j;
          rows = map (\<lambda>(i, payload, event). new_event_row cd wid at (base + i) payload) (enumerate 0 records);
          last_index = length records - 1;
          snapshots = (if last_index = 0 then [new_snapshot_row cd wid base final]
            else [new_snapshot_row cd wid base first, new_snapshot_row cd wid (base + last_index) final])
      in (j\<lparr>jr_events := jr_events j @ rows, jr_snapshots := jr_snapshots j @ snapshots\<rparr>,
          map (\<lambda>(i, payload, event). \<lparr>te_id = Id (of_nat (base + i)), te_workspace = wid,
            te_occurred_at = at, te_event = event\<rparr>) (enumerate 0 records)))"

definition journal_execute_batch ::
  "codec \<Rightarrow> workspace \<Rightarrow> domain_command list \<Rightarrow> timestamp \<Rightarrow>
   (journal, persistence_error, workspace \<times> timeline_event list) action" where
  "journal_execute_batch cd w commands at =
     act_bind (act_lift (try_fold (plan_command cd) (w, None, []) commands))
       (\<lambda>(candidate, first, records).
         case first of
           None \<Rightarrow> act_return (w, [])
         | Some first \<Rightarrow>
             act_bind (act_lift (encode_workspace cd candidate)) (\<lambda>final.
             act_bind use_database (\<lambda>_ j.
               let (j, events) = insert_records cd (w_id w) at first final records
                     (register_workspace (w_id w) at j)
               in (Inr (candidate, events), j))))"

definition journal_execute ::
  "codec \<Rightarrow> workspace \<Rightarrow> domain_command \<Rightarrow> timestamp \<Rightarrow>
   (journal, persistence_error, workspace \<times> timeline_event) action" where
  "journal_execute cd w command at =
     act_bind (journal_execute_batch cd w [command] at) (\<lambda>(w, events).
       case events of
         e # _ \<Rightarrow> act_return (w, e)
       | [] \<Rightarrow> act_fail (PE_InvalidRecord ''domain command'' 0))"

section \<open>Recovery\<close>

definition decode_snapshot ::
  "codec \<Rightarrow> string \<Rightarrow> workspace_id \<Rightarrow> snapshot_row \<Rightarrow> (persistence_error, workspace) result" where
  "decode_snapshot cd key wid s =
     (if sn_version s = 0 \<or> snapshot_format_version < sn_version s
      then Inl (PE_UnsupportedRecordVersion ''workspace snapshot'' (sn_sequence s) (sn_version s)
             snapshot_format_version)
      else if sn_checksum s \<noteq> checksum cd [le_bytes 4 (sn_version s), text_bytes key,
                le_bytes 8 (of_nat (sn_sequence s) :: u64), sn_payload s]
      then Inl (PE_ChecksumMismatch ''workspace snapshot'' (sn_sequence s))
      else res_bind (decode_workspace cd (sn_payload s) (sn_sequence s) (sn_version s)) (\<lambda>w.
        if w_id w \<noteq> wid then Inl (PE_InvalidRecord ''workspace snapshot'' (sn_sequence s))
        else Inr w))"

definition decode_event_row ::
  "codec \<Rightarrow> string \<Rightarrow> workspace_id \<Rightarrow> event_row \<Rightarrow> (persistence_error, timeline_event) result" where
  "decode_event_row cd key wid e =
     (if er_version e = 0 \<or> event_format_version < er_version e
      then Inl (PE_UnsupportedRecordVersion ''domain event'' (er_sequence e) (er_version e)
             event_format_version)
      else res_bind (ok_or (parse_u64 (er_occurred_at e)) (PE_InvalidRecord ''domain event'' (er_sequence e)))
        (\<lambda>at.
          if er_checksum e \<noteq> checksum cd [le_bytes 4 (er_version e), text_bytes key, le_bytes 8 at,
                er_payload e]
          then Inl (PE_ChecksumMismatch ''domain event'' (er_sequence e))
          else res_bind (decode_event cd (er_payload e) (er_sequence e) (er_version e)) (\<lambda>event.
            Inr \<lparr>te_id = Id (of_nat (er_sequence e)), te_workspace = wid, te_occurred_at = at,
                 te_event = event\<rparr>)))"

definition load_snapshots :: "string \<Rightarrow> journal \<Rightarrow> snapshot_row list" where
  "load_snapshots key j =
     rev (sort_key sn_sequence (filter (\<lambda>s. sn_workspace s = key) (jr_snapshots j)))"

definition load_events_after :: "string \<Rightarrow> nat \<Rightarrow> journal \<Rightarrow> event_row list" where
  "load_events_after key sequence j =
     sort_key er_sequence (filter (\<lambda>e. er_workspace e = key \<and> sequence < er_sequence e) (jr_events j))"

definition replay_row ::
  "codec \<Rightarrow> string \<Rightarrow> workspace_id \<Rightarrow> workspace \<Rightarrow> event_row \<Rightarrow> (persistence_error, workspace) result" where
  "replay_row cd key wid w e =
     res_bind (decode_event_row cd key wid e) (\<lambda>event.
       map_err (\<lambda>_. PE_InvalidRecord ''domain event'' (unat (id_get (te_id event)))) (replay w event))"

text \<open>The newest snapshot that still reads, and the events after it.\<close>

fun newest_snapshot ::
  "codec \<Rightarrow> string \<Rightarrow> workspace_id \<Rightarrow> snapshot_row list \<Rightarrow> (nat \<times> workspace) option" where
  "newest_snapshot cd key wid [] = None"
| "newest_snapshot cd key wid (s # ss) =
     (case decode_snapshot cd key wid s of
        Inr w \<Rightarrow> Some (sn_sequence s, w)
      | Inl _ \<Rightarrow> newest_snapshot cd key wid ss)"

definition recover_rows ::
  "codec \<Rightarrow> workspace_id \<Rightarrow> journal \<Rightarrow> (persistence_error, workspace option) result" where
  "recover_rows cd wid j =
     (let key = workspace_key wid; snapshots = load_snapshots key j in
      case newest_snapshot cd key wid snapshots of
        None \<Rightarrow>
          if filter (\<lambda>e. er_workspace e = key) (jr_events j) = [] then Inr None
          else Inl (PE_NoValidSnapshot wid (length snapshots))
      | Some (sequence, w) \<Rightarrow>
          res_bind (try_fold (replay_row cd key wid) w (load_events_after key sequence j))
            (\<lambda>w. Inr (Some w)))"

definition recover ::
  "codec \<Rightarrow> workspace_id \<Rightarrow> (journal, persistence_error, workspace option) action" where
  "recover cd wid = act_bind use_database (\<lambda>_ j. (recover_rows cd wid j, j))"

definition timeline_after ::
  "codec \<Rightarrow> workspace_id \<Rightarrow> timeline_event_id option \<Rightarrow>
   (journal, persistence_error, timeline_event list) action" where
  "timeline_after cd wid after =
     act_bind use_database (\<lambda>_ j.
       (try_map (decode_event_row cd (workspace_key wid) wid)
          (load_events_after (workspace_key wid) (case after of None \<Rightarrow> 0 | Some i \<Rightarrow> unat (id_get i)) j), j))"

section \<open>The registry of open workspaces\<close>

text \<open>
  The order of \<open>recent_workspace_ids\<close>: the active workspace, then the latest opened, then by the text
  of the identifier.
\<close>

definition recent_rows :: "workspace_id option \<Rightarrow> (workspace_id \<times> timestamp) list \<Rightarrow> workspace_id list" where
  "recent_rows active registry =
     map fst (sort_key (\<lambda>(i, at). (Some i \<noteq> active, - int (unat at), workspace_key i)) registry)"

definition recent_workspace_ids :: "(journal, persistence_error, workspace_id list) action" where
  "recent_workspace_ids =
     act_bind use_database (\<lambda>_. act_get (\<lambda>j. recent_rows (jr_active j) (jr_registry j)))"

definition parse_workspace_id :: "string \<Rightarrow> (persistence_error, workspace_id) result" where
  "parse_workspace_id value =
     (case parse_u64 value of
        None \<Rightarrow> Inl (PE_InvalidRecord ''journal events'' 0)
      | Some n \<Rightarrow> Inr (Id n))"

definition recorded_workspace_ids :: "(journal, persistence_error, workspace_id list) action" where
  "recorded_workspace_ids =
     act_bind use_database (\<lambda>_ j.
       (try_map parse_workspace_id (remdups (map er_workspace (jr_events j))), j))"

definition journal_active_id :: "(journal, persistence_error, workspace_id option) action" where
  "journal_active_id = act_bind use_database (\<lambda>_. act_get jr_active)"

definition journal_remove_workspace ::
  "workspace_id \<Rightarrow> (journal, persistence_error, workspace_id option) action" where
  "journal_remove_workspace wid =
     act_bind use_database (\<lambda>_ j.
       let others = filter (\<lambda>(i, _). i \<noteq> wid) (jr_registry j);
           next = (if jr_active j = Some wid
                   then (case recent_rows None others of [] \<Rightarrow> None | i # _ \<Rightarrow> Some i) else jr_active j)
       in if wid \<notin> set (map fst (jr_registry j)) then (Inl (PE_UnknownWorkspace wid), j)
          else (Inr next, j\<lparr>jr_registry := others, jr_active := next\<rparr>))"

definition journal_restore_workspace ::
  "codec \<Rightarrow> workspace_id \<Rightarrow> timestamp \<Rightarrow> (journal, persistence_error, unit) action" where
  "journal_restore_workspace cd wid at =
     act_bind (recover cd wid) (\<lambda>w.
       if w = None then act_fail (PE_UnknownWorkspace wid)
       else act_bind use_database (\<lambda>_. act_modify (\<lambda>j.
         j\<lparr>jr_registry := (if wid \<in> set (map fst (jr_registry j))
              then map (\<lambda>(i, t). if i = wid then (i, at) else (i, t)) (jr_registry j)
              else jr_registry j @ [(wid, at)]),
           jr_active := Some wid\<rparr>)))"

definition journal_activate_workspace ::
  "workspace_id \<Rightarrow> timestamp \<Rightarrow> (journal, persistence_error, unit) action" where
  "journal_activate_workspace wid at =
     act_bind use_database (\<lambda>_ j.
       if wid \<notin> set (map fst (jr_registry j)) then (Inl (PE_UnknownWorkspace wid), j)
       else (Inr (), j\<lparr>jr_registry := map (\<lambda>(i, t). if i = wid then (i, at) else (i, t)) (jr_registry j),
              jr_active := Some wid\<rparr>))"

end
