(* ===== verification/Manager.thy ===== *)
theory Manager
  imports Journal
begin

text \<open>
  The workspace manager of \<open>src/workspaces.rs\<close>: the open workspaces in memory over their journal.
  Every change goes through \<open>execute\<close> or \<open>execute_batch\<close>, which record it before the workspace in
  memory changes. Import and export of documents are not modelled; looking up a directory is an
  argument.
\<close>

datatype workspace_error =
    WE_Persistence persistence_error
  | WE_Validation validation_error
  | WE_Directory string
  | WE_UnknownWorkspace workspace_id
  | WE_MissingPersistedWorkspace workspace_id
  | WE_WorkspaceIdExhausted

record manager =
  mg_journal :: journal
  mg_workspaces :: "(workspace_id, workspace) bmap"
  mg_recent :: "workspace_id list"
  mg_active :: "workspace_id option"

type_synonym 'a managed = "(manager, workspace_error, 'a) action"

definition on_journal :: "(journal, persistence_error, 'a) action \<Rightarrow> 'a managed" where
  "on_journal m = act_map_err WE_Persistence (act_zoom mg_journal (\<lambda>j s. s\<lparr>mg_journal := j\<rparr>) m)"

definition put_workspace :: "workspace_id \<Rightarrow> workspace \<Rightarrow> manager \<Rightarrow> manager" where
  "put_workspace wid w m = m\<lparr>mg_workspaces := bm_insert wid w (mg_workspaces m)\<rparr>"

definition manager_workspace :: "manager \<Rightarrow> workspace_id \<Rightarrow> workspace option" where
  "manager_workspace m wid = bm_get (mg_workspaces m) wid"

definition recent_workspaces :: "manager \<Rightarrow> workspace list" where
  "recent_workspaces m = List.map_filter (manager_workspace m) (mg_recent m)"

definition manager_execute ::
  "codec \<Rightarrow> workspace_id \<Rightarrow> domain_command \<Rightarrow> timestamp \<Rightarrow> timeline_event managed" where
  "manager_execute cd wid c at =
     act_bind (act_get (\<lambda>m. manager_workspace m wid)) (\<lambda>found.
       case found of
         None \<Rightarrow> act_fail (WE_UnknownWorkspace wid)
       | Some w \<Rightarrow> act_bind (on_journal (journal_execute cd w c at)) (\<lambda>(w, e).
           act_bind (act_modify (put_workspace wid w)) (\<lambda>_. act_return e)))"

definition manager_execute_batch ::
  "codec \<Rightarrow> workspace_id \<Rightarrow> domain_command list \<Rightarrow> timestamp \<Rightarrow> timeline_event list managed" where
  "manager_execute_batch cd wid cs at =
     act_bind (act_get (\<lambda>m. manager_workspace m wid)) (\<lambda>found.
       case found of
         None \<Rightarrow> act_fail (WE_UnknownWorkspace wid)
       | Some w \<Rightarrow> act_bind (on_journal (journal_execute_batch cd w cs at)) (\<lambda>(w, es).
           act_bind (act_modify (put_workspace wid w)) (\<lambda>_. act_return es)))"

section \<open>Opening and closing workspaces\<close>

definition mark_recent :: "workspace_id \<Rightarrow> manager \<Rightarrow> manager" where
  "mark_recent wid m = m\<lparr>mg_recent := wid # filter (\<lambda>i. i \<noteq> wid) (mg_recent m)\<rparr>"

definition manager_switch :: "workspace_id \<Rightarrow> timestamp \<Rightarrow> unit managed" where
  "manager_switch wid at =
     act_bind (act_get (\<lambda>m. manager_workspace m wid)) (\<lambda>found.
       if found = None then act_fail (WE_UnknownWorkspace wid)
       else act_bind (on_journal (journal_activate_workspace wid at)) (\<lambda>_.
         act_modify (\<lambda>m. mark_recent wid (m\<lparr>mg_active := Some wid\<rparr>))))"

definition manager_remove_workspace :: "workspace_id \<Rightarrow> unit managed" where
  "manager_remove_workspace wid =
     act_bind (act_get (\<lambda>m. manager_workspace m wid)) (\<lambda>found.
       if found = None then act_fail (WE_UnknownWorkspace wid)
       else act_bind (on_journal (journal_remove_workspace wid)) (\<lambda>next.
         act_modify (\<lambda>m. m\<lparr>mg_workspaces := bm_remove wid (mg_workspaces m),
           mg_recent := filter (\<lambda>i. i \<noteq> wid) (mg_recent m), mg_active := next\<rparr>)))"

definition next_workspace_id :: "workspace_id managed" where
  "next_workspace_id =
     act_bind (on_journal recorded_workspace_ids) (\<lambda>ids.
       act_lift (map_err (\<lambda>_. WE_WorkspaceIdExhausted)
         (ok_or (map_option Id (checked_add (fold max (map id_get ids) 0) 1)) ())))"

text \<open>\<open>open_workspace\<close> of \<open>create_workspace\<close>: the workspace becomes the most recent and the active one.\<close>

definition adopt_workspace :: "workspace_id \<Rightarrow> workspace \<Rightarrow> manager \<Rightarrow> manager" where
  "adopt_workspace wid w m = mark_recent wid (put_workspace wid w m)\<lparr>mg_active := Some wid\<rparr>"

text \<open>The search for a recorded workspace of the directory that is not open.\<close>

fun reopen_recorded ::
  "codec \<Rightarrow> workspace_directory \<Rightarrow> timestamp \<Rightarrow> workspace_id list \<Rightarrow> workspace_id option managed" where
  "reopen_recorded cd dir at [] = act_return None"
| "reopen_recorded cd dir at (wid # ids) =
     act_bind (act_get (\<lambda>m. manager_workspace m wid)) (\<lambda>open_already.
       if open_already \<noteq> None then reopen_recorded cd dir at ids
       else act_bind (on_journal (recover cd wid)) (\<lambda>recovered.
         case recovered of
           None \<Rightarrow> reopen_recorded cd dir at ids
         | Some w \<Rightarrow>
             if ws_working_directory (w_settings w) = Some dir
             then act_bind (on_journal (journal_restore_workspace cd wid at)) (\<lambda>_.
               act_bind (act_modify (adopt_workspace wid w)) (\<lambda>_. act_return (Some wid)))
             else reopen_recorded cd dir at ids))"

text \<open>
  \<open>create_workspace\<close>: the argument is what \<open>validate_directory\<close> found, the canonical directory and
  the name \<open>default_workspace_name\<close> takes from its last component.
\<close>

definition create_workspace ::
  "codec \<Rightarrow> (workspace_error, workspace_directory \<times> string option) result \<Rightarrow> timestamp \<Rightarrow>
   workspace_id managed" where
  "create_workspace cd directory at =
     act_bind (act_lift directory) (\<lambda>(dir, file_name).
     act_bind (on_journal recorded_workspace_ids) (\<lambda>ids.
     act_bind (reopen_recorded cd dir at ids) (\<lambda>reopened.
       case reopened of
         Some wid \<Rightarrow> act_return wid
       | None \<Rightarrow>
           act_bind (act_lift (map_err WE_Validation (name_new
             (case file_name of Some n \<Rightarrow> if str_trim n = [] then ''Workspace'' else n
              | None \<Rightarrow> ''Workspace'')))) (\<lambda>nm.
           act_bind next_workspace_id (\<lambda>wid.
           act_bind (on_journal (journal_execute cd (workspace_new wid nm)
             (DC_UpdateWorkspaceSettings \<lparr>ws_name = nm, ws_icon = None, ws_working_directory = Some dir,
                ws_instructions = None\<rparr>) at)) (\<lambda>(w, _).
           act_bind (act_modify (adopt_workspace wid w)) (\<lambda>_. act_return wid)))))))"

definition update_settings ::
  "codec \<Rightarrow> workspace_id \<Rightarrow> (workspace_error, workspace_directory \<times> string option) result \<Rightarrow>
   string \<Rightarrow> string option \<Rightarrow> string option \<Rightarrow> timestamp \<Rightarrow> timeline_event managed" where
  "update_settings cd wid directory nm icon instructions at =
     act_bind (act_lift directory) (\<lambda>(dir, _).
     act_bind (act_lift (map_err WE_Validation (name_new nm))) (\<lambda>nm.
     act_bind (act_lift (map_err WE_Validation (case icon of
         Some s \<Rightarrow> if str_trim s = [] then Inr None else res_bind (workspace_icon_new s) (\<lambda>x. Inr (Some x))
       | None \<Rightarrow> Inr None))) (\<lambda>icon.
     act_bind (act_lift (map_err WE_Validation (case instructions of
         Some s \<Rightarrow> if str_trim s = [] then Inr None else res_bind (content_new s) (\<lambda>x. Inr (Some x))
       | None \<Rightarrow> Inr None))) (\<lambda>instructions.
       manager_execute cd wid (DC_UpdateWorkspaceSettings
         \<lparr>ws_name = nm, ws_icon = icon, ws_working_directory = Some dir, ws_instructions = instructions\<rparr>) at))))"

section \<open>Opening the database\<close>

text \<open>
  The agents earlier events show to have been on the canvas, in the order of a \<open>BTreeSet\<close>.
\<close>

definition event_agents :: "domain_event \<Rightarrow> agent_id list" where
  "event_agents e =
     (case e of
        EV_AgentNodeAdded a _ \<Rightarrow> [agent_ident a]
      | EV_NodeAdded n \<Rightarrow> shown_agents [n]
      | EV_CanvasReplaced before after \<Rightarrow> shown_agents (cl_nodes before @ cl_nodes after)
      | _ \<Rightarrow> [])"

definition previously_placed :: "timeline_event list \<Rightarrow> agent_id list" where
  "previously_placed es = bm_keys (bs_of_list (concat (map (event_agents \<circ> te_event) es)))"

definition open_workspace :: "codec \<Rightarrow> workspace_id \<Rightarrow> (journal, workspace_error, workspace) action" where
  "open_workspace cd wid =
     act_bind (act_map_err WE_Persistence (recover cd wid)) (\<lambda>recovered.
       case recovered of
         None \<Rightarrow> act_fail (WE_MissingPersistedWorkspace wid)
       | Some w \<Rightarrow>
           if list_ex (\<lambda>a. agent_ident a \<notin> set (shown_agents (bm_values (w_nodes w)))) (bm_values (w_agents w))
           then act_bind (act_try (timeline_after cd wid None)) (\<lambda>events.
             act_return (case events of
               Inr es \<Rightarrow> archive_unplaced_agents (previously_placed es) w
             | Inl (_ :: persistence_error) \<Rightarrow> w))
           else act_return w)"

fun open_workspaces ::
  "codec \<Rightarrow> workspace_id list \<Rightarrow> (workspace_id, workspace) bmap \<Rightarrow>
   (journal, workspace_error, (workspace_id, workspace) bmap) action" where
  "open_workspaces cd [] ws = act_return ws"
| "open_workspaces cd (wid # ids) ws =
     act_bind (open_workspace cd wid) (\<lambda>w. open_workspaces cd ids (bm_insert wid w ws))"

definition manager_open :: "codec \<Rightarrow> journal \<Rightarrow> (workspace_error, manager) result" where
  "manager_open cd j =
     (case act_bind (act_map_err WE_Persistence recent_workspace_ids) (\<lambda>recent.
           act_bind (open_workspaces cd recent bm_empty) (\<lambda>ws.
           act_bind (act_map_err WE_Persistence journal_active_id) (\<lambda>active.
             case active of
               Some wid \<Rightarrow> if \<not> bm_contains ws wid then act_fail (WE_MissingPersistedWorkspace wid)
                 else act_return (recent, ws, active)
             | None \<Rightarrow> act_return (recent, ws, active)))) j of
        (Inl e, _) \<Rightarrow> Inl e
      | (Inr (recent, ws, active), j) \<Rightarrow>
          Inr \<lparr>mg_journal = j, mg_workspaces = ws, mg_recent = recent, mg_active = active\<rparr>)"

end
