(* ===== verification/Snapshot_Exact.thy ===== *)
theory Snapshot_Exact
  imports "HOL-Library.Multiset" Stored_Workspace Workspace_Keep_Chat Workspace_Keep_Tasks Workspace_Keep_Canvas Workspace_Keep_Routines
begin

text \<open>
  What a snapshot that reads gives back: the workspace it was taken of. Every stage of reading
  repeats commands, and a command that succeeds changes one part of the workspace.
\<close>

section \<open>Valid workspaces\<close>

definition all_values :: "('v \<Rightarrow> bool) \<Rightarrow> ('k::linorder, 'v) bmap \<Rightarrow> bool" where
  "all_values P m \<longleftrightarrow> (\<forall>k v. bm_get m k = Some v \<longrightarrow> P v)"

lemma all_valuesD: "all_values P m \<Longrightarrow> bm_get m k = Some v \<Longrightarrow> P v"
  by (simp add: all_values_def)

lemma all_values_list: "all_values P m \<longleftrightarrow> (\<forall>v\<in>set (bm_values m). P v)"
  by (auto simp: all_values_def set_bm_values)

lemma all_values_simps [simp]:
  "all_values P bm_empty"
  "P v \<Longrightarrow> all_values P m \<Longrightarrow> all_values P (bm_insert k v m)"
  "all_values P m \<Longrightarrow> all_values P (bm_remove k m)"
  by (auto simp: all_values_def)

text \<open>The values of a workspace come from their constructors.\<close>

definition agent_valid :: "agent \<Rightarrow> bool" where
  "agent_valid a = name_valid (agent_name a)"

definition workspace_valid :: "workspace \<Rightarrow> bool" where
  "workspace_valid w \<longleftrightarrow>
     settings_valid (w_settings w) \<and> all_values profile_valid (w_profiles w) \<and>
     all_values preset_valid (w_presets w) \<and> all_values role_valid (w_roles w) \<and>
     all_values agent_valid (w_agents w) \<and> all_values agent_valid (w_archived w) \<and>
     all_values thread_valid (w_threads w) \<and> all_values attachment_valid (w_attachments w) \<and>
     all_values task_valid (w_tasks w) \<and> all_values handoff_recorded (w_handoffs w) \<and>
     all_values node_valid (w_nodes w) \<and> all_values routine_valid (w_routines w) \<and>
     all_values run_valid (w_runs w) \<and> floors_valid (w_floors w)"

text \<open>
  A draft without text but blanks, attachments and mentions counts as empty, and an empty draft is
  not stored; \<open>keeps_drafts\<close> says that every empty draft is the one a thread starts with.
\<close>

definition keeps_drafts :: "workspace \<Rightarrow> bool" where
  "keeps_drafts w \<longleftrightarrow>
     all_values (\<lambda>t. chat_draft_is_empty (th_draft t) \<longrightarrow> th_draft t = chat_draft_default) (w_threads w)"

section \<open>Commands that add one thing\<close>

lemma apply_snapshot_command_Inr_iff:
  "apply_snapshot_command w c = Inr w' \<longleftrightarrow> (\<exists>e. decide w c = Inr e \<and> apply_event w e = Inr w')"
  by (auto simp: apply_snapshot_command_def execute_def res_bind_Inr_iff message_Inr_iff)

lemma snapshot_addition:
  "apply_snapshot_command w (DC_AddEnvironmentProfile p) = Inr w' \<Longrightarrow>
     w' = w\<lparr>w_profiles := bm_insert (env_id p) p (w_profiles w)\<rparr>"
  "apply_snapshot_command w (DC_AddCommandPreset c) = Inr w' \<Longrightarrow>
     w' = w\<lparr>w_presets := bm_insert (preset_id c) c (w_presets w)\<rparr>"
  "apply_snapshot_command w (DC_AddRole r) = Inr w' \<Longrightarrow>
     w' = w\<lparr>w_roles := bm_insert (role_ident r) r (w_roles w)\<rparr>"
  "apply_snapshot_command w (DC_AddAgent a) = Inr w' \<Longrightarrow>
     w' = w\<lparr>w_agents := bm_insert (agent_ident a) a (w_agents w)\<rparr>"
  "apply_snapshot_command w (DC_AddRoutine x) = Inr w' \<Longrightarrow>
     w' = w\<lparr>w_routines := bm_insert (rt_id x) x (w_routines w)\<rparr>"
  "apply_snapshot_command w (DC_AddTask t) = Inr w' \<Longrightarrow>
     w' = w\<lparr>w_tasks := bm_insert (task_ident t) t (w_tasks w)\<rparr>"
  "apply_snapshot_command w (DC_AddHandoff h) = Inr w' \<Longrightarrow>
     w' = w\<lparr>w_handoffs := bm_insert (ho_id h) h (w_handoffs w)\<rparr>"
  "apply_snapshot_command w (DC_AddChatThread th) = Inr w' \<Longrightarrow>
     w' = w\<lparr>w_threads := bm_insert (th_id th) th (w_threads w)\<rparr>"
  "apply_snapshot_command w (DC_AddChatAttachment at) = Inr w' \<Longrightarrow>
     w' = w\<lparr>w_attachments := bm_insert (ca_id at) at (w_attachments w)\<rparr>"
  by (auto simp: apply_snapshot_command_Inr_iff decide_def apply_event_def res_bind_Inr_iff
      apply_profile_added_def apply_preset_added_def apply_role_added_def apply_agent_added_def
      apply_routine_added_def put_routine_def apply_task_added_def insert_task_def
      apply_handoff_added_def insert_handoff_def apply_thread_added_def put_thread_def
      apply_attachment_added_def split: if_splits)

lemma restore_placed_none: "w_archived w = bm_empty \<Longrightarrow> restore_placed_agents w = w"
proof -
  assume "w_archived w = bm_empty"
  then have "fold restore_agent as w = w" for as
    by (induction as) (simp_all add: restore_agent_def)
  then show ?thesis by (simp add: restore_placed_agents_def)
qed

lemma snapshot_node_addition:
  assumes "apply_snapshot_command w (DC_AddNode n) = Inr w'"
    and "w_archived w = bm_empty" and "w_floors w = floors_default"
  shows "w' = w\<lparr>w_nodes := bm_insert (node_ident n) n (w_nodes w)\<rparr>"
  using assms
  by (auto simp: apply_snapshot_command_Inr_iff decide_def apply_event_def res_bind_Inr_iff
      apply_node_added_def place_node_def floors_default_def restore_placed_none)

lemma snapshot_run_restored:
  "message (restore_routine_run w r) = Inr w' \<Longrightarrow> w' = w\<lparr>w_runs := bm_insert (run_id r) r (w_runs w)\<rparr>"
  by (auto simp: restore_routine_run_def insert_run_def res_bind_Inr_iff message_Inr_iff split: if_splits)

section \<open>Collecting what was added\<close>

lemma fold_values_get:
  assumes "\<And>k v. bm_get n k = Some v \<Longrightarrow> ident v = k"
  shows "bm_get (fold (\<lambda>v. bm_insert (ident v) v) (bm_values n) m) k =
    (case bm_get n k of None \<Rightarrow> bm_get m k | Some v \<Rightarrow> Some v)"
proof -
  have "fold (\<lambda>v. bm_insert (ident v) v) (map snd (entries n)) m =
      fold (\<lambda>(k, v) m. bm_insert k v m) (entries n) m"
    using assms by (intro fold_insert_entries) (auto simp: bm_get_Some_iff)
  moreover have "map_of (rev (entries n)) k = bm_get n k"
    using bm_get_of_list [of "entries n" k] by simp
  ultimately show ?thesis by (simp add: bm_values_def bm_get_fold_insert)
qed

lemma collect_values:
  assumes "\<And>k v. bm_get m k = Some v \<Longrightarrow> ident v = k"
  shows "fold (\<lambda>v. bm_insert (ident v) v) (bm_values m) bm_empty = m"
  by (rule bmap_ext) (simp add: fold_values_get [OF assms] split: option.splits)

text \<open>A loop of additions; \<open>ok\<close> is what they need and keep.\<close>

lemma restore_all_exact:
  assumes "restore_all read command (map save xs) w = Inr w'"
    and "\<forall>x\<in>set xs. read (save x) = Inr x" and "ok w"
    and "\<And>w x w'. ok w \<Longrightarrow> apply_snapshot_command w (command x) = Inr w' \<Longrightarrow> w' = put x w"
    and "\<And>w x. ok w \<Longrightarrow> ok (put x w)"
  shows "w' = fold put xs w \<and> ok w'"
  using assms
proof (induction xs arbitrary: w)
  case (Cons x xs)
  then obtain w1 where w1: "apply_snapshot_command w (command x) = Inr w1"
    "restore_all read command (map save xs) w1 = Inr w'"
    by (auto simp: restore_all_def res_bind_Inr_iff)
  have "w1 = put x w" using Cons.prems(3) w1(1) by (rule Cons.prems(4))
  moreover from this have "ok w1" using Cons.prems(3,5) by simp
  moreover have "w' = fold put xs w1 \<and> ok w'"
    using w1(2) _ \<open>ok w1\<close> Cons.prems(4,5) by (rule Cons.IH) (use Cons.prems(2) in simp)
  ultimately show ?case by (metis fold_simps(2))
qed (simp add: restore_all_def)

lemma fold_field:
  "fold (\<lambda>x w. w\<lparr>w_profiles := bm_insert (env_id x) x (w_profiles w)\<rparr>) ps w =
     w\<lparr>w_profiles := fold (\<lambda>x. bm_insert (env_id x) x) ps (w_profiles w)\<rparr>"
  "fold (\<lambda>x w. w\<lparr>w_presets := bm_insert (preset_id x) x (w_presets w)\<rparr>) cs w =
     w\<lparr>w_presets := fold (\<lambda>x. bm_insert (preset_id x) x) cs (w_presets w)\<rparr>"
  "fold (\<lambda>x w. w\<lparr>w_roles := bm_insert (role_ident x) x (w_roles w)\<rparr>) rs w =
     w\<lparr>w_roles := fold (\<lambda>x. bm_insert (role_ident x) x) rs (w_roles w)\<rparr>"
  "fold (\<lambda>x w. w\<lparr>w_agents := bm_insert (agent_ident x) x (w_agents w)\<rparr>) as w =
     w\<lparr>w_agents := fold (\<lambda>x. bm_insert (agent_ident x) x) as (w_agents w)\<rparr>"
  "fold (\<lambda>x w. w\<lparr>w_routines := bm_insert (rt_id x) x (w_routines w)\<rparr>) xs w =
     w\<lparr>w_routines := fold (\<lambda>x. bm_insert (rt_id x) x) xs (w_routines w)\<rparr>"
  "fold (\<lambda>x w. w\<lparr>w_runs := bm_insert (run_id x) x (w_runs w)\<rparr>) us w =
     w\<lparr>w_runs := fold (\<lambda>x. bm_insert (run_id x) x) us (w_runs w)\<rparr>"
  "fold (\<lambda>x w. w\<lparr>w_tasks := bm_insert (task_ident x) x (w_tasks w)\<rparr>) ts w =
     w\<lparr>w_tasks := fold (\<lambda>x. bm_insert (task_ident x) x) ts (w_tasks w)\<rparr>"
  "fold (\<lambda>x w. w\<lparr>w_handoffs := bm_insert (ho_id x) x (w_handoffs w)\<rparr>) hs w =
     w\<lparr>w_handoffs := fold (\<lambda>x. bm_insert (ho_id x) x) hs (w_handoffs w)\<rparr>"
  "fold (\<lambda>x w. w\<lparr>w_nodes := bm_insert (node_ident x) x (w_nodes w)\<rparr>) ns w =
     w\<lparr>w_nodes := fold (\<lambda>x. bm_insert (node_ident x) x) ns (w_nodes w)\<rparr>"
  "fold (\<lambda>x w. w\<lparr>w_attachments := bm_insert (ca_id x) x (w_attachments w)\<rparr>) ats w =
     w\<lparr>w_attachments := fold (\<lambda>x. bm_insert (ca_id x) x) ats (w_attachments w)\<rparr>"
  by ((induction ps arbitrary: w; simp), (induction cs arbitrary: w; simp),
      (induction rs arbitrary: w; simp), (induction as arbitrary: w; simp),
      (induction xs arbitrary: w; simp), (induction us arbitrary: w; simp),
      (induction ts arbitrary: w; simp), (induction hs arbitrary: w; simp),
      (induction ns arbitrary: w; simp), (induction ats arbitrary: w; simp))

section \<open>Agents and tasks with their states\<close>

lemma bm_insert_twice: "bm_insert k y (bm_insert k x m) = bm_insert k y m"
  by (rule bmap_ext) simp

lemma transition_agent_exact:
  assumes "apply_snapshot_command w (DC_TransitionAgent a to) = Inr w'"
    and "bm_get (w_agents w) a = Some x"
  shows "w' = w\<lparr>w_agents := bm_insert a (x\<lparr>agent_state := to\<rparr>) (w_agents w)\<rparr>"
  using assms
  by (auto simp: apply_snapshot_command_Inr_iff decide_def apply_event_def res_bind_Inr_iff
      decide_transition_agent_def apply_agent_state_changed_def update_recorded_agent_def
      bm_contains_def bm_insert_update split: if_splits)

lemma last_agent_path: "last (AS_Starting # agent_path st) = st"
  by (cases st) simp_all

lemma last_task_path: "last (TS_Queued # task_path st) = st"
  by (cases st) simp_all

text \<open>A path of transitions leaves the thing it moves in the last state of the path.\<close>

lemma path_exact:
  assumes "try_fold move w path = Inr w'" and "get w = Some x" and "set_state s x = x"
    and step: "\<And>w x to w'. move w to = Inr w' \<Longrightarrow> get w = Some x \<Longrightarrow> w' = put (set_state to x) w"
    and get_put: "\<And>y w. get (put y w) = Some y" and put_put: "\<And>x y w. put y (put x w) = put y w"
    and put_get: "\<And>x w. get w = Some x \<Longrightarrow> put x w = w"
    and twice: "\<And>a b x. set_state a (set_state b x) = set_state a x"
  shows "w' = put (set_state (last (s # path)) x) w"
  using assms(1-3)
proof (induction path arbitrary: w x s)
  case Nil
  then show ?case by (simp add: put_get)
next
  case (Cons to path)
  then obtain w1 where w1: "move w to = Inr w1" "try_fold move w1 path = Inr w'"
    by (auto simp: res_bind_Inr_iff)
  have w1_eq: "w1 = put (set_state to x) w" using w1(1) Cons.prems(2) by (rule step)
  have "w' = put (set_state (last (to # path)) (set_state to x)) w1"
    using w1(2) by (rule Cons.IH) (simp_all add: w1_eq get_put twice)
  then show ?case by (simp only: w1_eq put_put twice last.simps list.distinct if_False)
qed

lemma insert_same: "bm_get m k = Some v \<Longrightarrow> bm_insert k v m = m"
  by (rule bmap_ext) simp

lemma restore_agent_state_exact:
  assumes "restore_agent_state a st w = Inr w'" and "bm_get (w_agents w) a = Some x"
    and "agent_state x = AS_Starting"
  shows "w' = w\<lparr>w_agents := bm_insert a (x\<lparr>agent_state := st\<rparr>) (w_agents w)\<rparr>"
proof -
  let ?put = "\<lambda>y w. w\<lparr>w_agents := bm_insert a y (w_agents w)\<rparr>"
  have "w' = ?put (x\<lparr>agent_state := last (AS_Starting # agent_path st)\<rparr>) w"
  proof (rule path_exact [where get = "\<lambda>w. bm_get (w_agents w) a" and put = ?put
        and set_state = "\<lambda>st y. y\<lparr>agent_state := st\<rparr>"])
    show "try_fold (\<lambda>w to. apply_snapshot_command w (DC_TransitionAgent a to)) w (agent_path st) = Inr w'"
      using assms(1) by (simp only: restore_agent_state_def)
    show "x\<lparr>agent_state := AS_Starting\<rparr> = x" using assms(3) by (cases x) simp
    show "v = ?put (y\<lparr>agent_state := to\<rparr>) u"
      if "apply_snapshot_command u (DC_TransitionAgent a to) = Inr v" "bm_get (w_agents u) a = Some y" for u y to v
      using that by (rule transition_agent_exact)
  qed (simp_all add: assms(2) insert_same bm_insert_twice)
  then show ?thesis by (simp only: last_agent_path)
qed

lemma restore_agent_exact:
  assumes "restore_agent_v1 w (save_agent a) = Inr w'" and "agent_valid a"
  shows "w' = w\<lparr>w_agents := bm_insert (agent_ident a) a (w_agents w)\<rparr>"
proof -
  have "read_agent (save_agent a) = Inr (starting a, agent_state a)"
    using assms(2) by (simp add: read_save_agent agent_valid_def)
  with assms(1) obtain w1 where w1: "apply_snapshot_command w (DC_AddAgent (starting a)) = Inr w1"
    "restore_agent_state (agent_ident a) (agent_state a) w1 = Inr w'"
    by (auto simp: restore_agent_v1_def res_bind_Inr_iff starting_def)
  have w1_eq: "w1 = w\<lparr>w_agents := bm_insert (agent_ident a) (starting a) (w_agents w)\<rparr>"
    using snapshot_addition(4) [OF w1(1)] by (simp add: starting_def)
  have "w' = w1\<lparr>w_agents := bm_insert (agent_ident a) ((starting a)\<lparr>agent_state := agent_state a\<rparr>) (w_agents w1)\<rparr>"
    using w1(2) by (rule restore_agent_state_exact) (simp_all add: w1_eq starting_def)
  then show ?thesis by (simp add: w1_eq bm_insert_twice starting_def)
qed

lemma restore_agents_exact:
  assumes "try_fold restore_agent_v1 w (map save_agent as) = Inr w'" and "\<forall>a\<in>set as. agent_valid a"
  shows "w' = w\<lparr>w_agents := fold (\<lambda>x. bm_insert (agent_ident x) x) as (w_agents w)\<rparr>"
  using assms
proof (induction as arbitrary: w)
  case (Cons a as)
  then obtain w1 where w1: "restore_agent_v1 w (save_agent a) = Inr w1"
    "try_fold restore_agent_v1 w1 (map save_agent as) = Inr w'"
    by (auto simp: res_bind_Inr_iff)
  with Cons.IH [OF w1(2)] Cons.prems(2) restore_agent_exact [OF w1(1)] show ?case by simp
qed simp

lemma transition_task_exact:
  assumes "apply_snapshot_command w (DC_TransitionTask t to) = Inr w'"
    and "bm_get (w_tasks w) t = Some x"
  shows "w' = w\<lparr>w_tasks := bm_insert t (x\<lparr>task_state := to\<rparr>) (w_tasks w)\<rparr>"
  using assms
  by (auto simp: apply_snapshot_command_Inr_iff decide_def apply_event_def res_bind_Inr_iff
      decide_transition_task_def apply_task_state_changed_def set_task_state_def bm_insert_update)

lemma restore_task_state_exact:
  assumes "restore_task_state t st w = Inr w'" and "bm_get (w_tasks w) t = Some x"
    and "task_state x = TS_Queued"
  shows "w' = w\<lparr>w_tasks := bm_insert t (x\<lparr>task_state := st\<rparr>) (w_tasks w)\<rparr>"
proof -
  let ?put = "\<lambda>y w. w\<lparr>w_tasks := bm_insert t y (w_tasks w)\<rparr>"
  have "w' = ?put (x\<lparr>task_state := last (TS_Queued # task_path st)\<rparr>) w"
  proof (rule path_exact [where get = "\<lambda>w. bm_get (w_tasks w) t" and put = ?put
        and set_state = "\<lambda>st y. y\<lparr>task_state := st\<rparr>"])
    show "try_fold (\<lambda>w to. apply_snapshot_command w (DC_TransitionTask t to)) w (task_path st) = Inr w'"
      using assms(1) by (simp only: restore_task_state_def)
    show "x\<lparr>task_state := TS_Queued\<rparr> = x" using assms(3) by (cases x) simp
    show "v = ?put (y\<lparr>task_state := to\<rparr>) u"
      if "apply_snapshot_command u (DC_TransitionTask t to) = Inr v" "bm_get (w_tasks u) t = Some y" for u y to v
      using that by (rule transition_task_exact)
  qed (simp_all add: assms(2) insert_same bm_insert_twice)
  then show ?thesis by (simp only: last_task_path)
qed

lemma restore_task_exact:
  assumes "restore_task_v1 w (save_task t) = Inr w'" and "task_valid t"
  shows "w' = w\<lparr>w_tasks := bm_insert (task_ident t) t (w_tasks w)\<rparr>"
proof -
  obtain w1 where w1: "apply_snapshot_command w (DC_AddTask (queued t)) = Inr w1"
    "restore_task_state (task_ident t) (task_state t) w1 = Inr w'"
    using assms by (auto simp: restore_task_v1_def res_bind_Inr_iff read_save_task queued_def)
  have w1_eq: "w1 = w\<lparr>w_tasks := bm_insert (task_ident t) (queued t) (w_tasks w)\<rparr>"
    using snapshot_addition(6) [OF w1(1)] by (simp add: queued_def)
  have "w' = w1\<lparr>w_tasks := bm_insert (task_ident t) ((queued t)\<lparr>task_state := task_state t\<rparr>) (w_tasks w1)\<rparr>"
    using w1(2) by (rule restore_task_state_exact) (simp_all add: w1_eq queued_def)
  then show ?thesis by (simp add: w1_eq bm_insert_twice queued_def)
qed

section \<open>The loops over tasks and handoffs\<close>

text \<open>Whatever order the loop takes, it restores every item once.\<close>

lemma restore_ready_exact:
  assumes "restore_ready ready restore (map save xs) w = Inr w'"
    and "\<And>w x w'. x \<in> set xs \<Longrightarrow> restore w (save x) = Inr w' \<Longrightarrow> w' = put x w"
  shows "\<exists>ys. mset ys = mset xs \<and> w' = fold put ys w"
  using assms
proof (induction "length xs" arbitrary: xs w)
  case 0
  then show ?case by (simp add: restore_ready.simps)
next
  case (Suc n)
  then have "map save xs \<noteq> []" by auto
  with Suc.prems(1) obtain before item after w1
    where ext: "List.extract (ready w) (map save xs) = Some (before, item, after)"
      and w1: "restore w item = Inr w1" and rest: "restore_ready ready restore (before @ after) w1 = Inr w'"
    by (subst (asm) restore_ready.simps) (auto simp: res_bind_Inr_iff split: option.splits)
  from extract_SomeE [OF ext] have "map save xs = before @ item # after" by blast
  then obtain bs x as where xs: "xs = bs @ x # as" "before = map save bs" "item = save x" "after = map save as"
    by (auto simp: map_eq_append_conv)
  have "w1 = put x w" using w1 Suc.prems(2) by (simp add: xs)
  moreover have "\<exists>ys. mset ys = mset (bs @ as) \<and> w' = fold put ys w1"
    using rest Suc.hyps(2) Suc.prems(2) by (intro Suc.hyps(1)) (auto simp: xs)
  then obtain ys where "mset ys = mset (bs @ as)" "w' = fold put ys w1" by blast
  ultimately show ?case by (intro exI [of _ "x # ys"]) (simp add: xs)
qed

lemma fold_insert_order:
  assumes "mset ys = mset xs" and "distinct (map ident xs)"
  shows "fold (\<lambda>v. bm_insert (ident v) v) ys m = fold (\<lambda>v. bm_insert (ident v) v) xs m"
proof -
  have "bm_insert (ident x) x \<circ> bm_insert (ident y) y = bm_insert (ident y) y \<circ> bm_insert (ident x) x"
    if "x \<in> set ys" "y \<in> set ys" for x y
  proof
    from that have "x \<in> set xs" "y \<in> set xs" using assms(1) by (auto dest: mset_eq_setD)
    then have "ident x = ident y \<Longrightarrow> x = y" using assms(2) by (auto simp: distinct_map inj_on_def)
    then show "(bm_insert (ident x) x \<circ> bm_insert (ident y) y) z = (bm_insert (ident y) y \<circ> bm_insert (ident x) x) z" for z
      by (intro bmap_ext) auto
  qed
  then have "fold (\<lambda>v. bm_insert (ident v) v) ys = fold (\<lambda>v. bm_insert (ident v) v) xs"
    using assms(1) by (intro fold_multiset_equiv) auto
  then show ?thesis by simp
qed

section \<open>The canvas\<close>

lemma bm_of_values:
  assumes "set xs = set (bm_values m)" and "\<And>k v. bm_get m k = Some v \<Longrightarrow> ident v = k"
  shows "bm_of_list (map (\<lambda>v. (ident v, v)) xs) = m"
proof (rule bmap_ext)
  fix k
  let ?ps = "map (\<lambda>v. (ident v, v)) xs"
  have member: "v \<in> set xs \<longleftrightarrow> (\<exists>j. bm_get m j = Some v)" for v by (simp only: assms(1) set_bm_values mem_Collect_eq)
  show "bm_get (bm_of_list ?ps) k = bm_get m k"
  proof (cases "map_of (rev ?ps) k")
    case None
    then have absent: "k \<notin> ident ` set xs" by (simp add: map_of_eq_None_iff image_image)
    have "bm_get m k = None"
    proof (cases "bm_get m k")
      case (Some v)
      then have "v \<in> set xs" "ident v = k" using member assms(2) by blast+
      with absent show ?thesis by blast
    qed
    with None show ?thesis by (simp add: bm_get_of_list)
  next
    case (Some v)
    then have "(k, v) \<in> set (rev ?ps)" by (rule map_of_SomeD)
    then have "v \<in> set xs" and v: "ident v = k" by auto
    then obtain j where j: "bm_get m j = Some v" using member by blast
    then have "j = k" using assms(2) v by blast
    with j Some show ?thesis by (simp add: bm_get_of_list)
  qed
qed

lemma bm_values_Nil: "bm_values m = [] \<longleftrightarrow> m = bm_empty"
  by (metis bm_values_def entries_inject entries_simps(1) list.simps(8) map_is_Nil_conv)

lemma archive_shown_none:
  assumes "\<forall>a\<in>set as. \<exists>n\<in>set (bm_values (w_nodes w)). node_reference n = Some (NT_Agent a)"
  shows "archive_unplaced_agents as w = w"
  using assms unfolding archive_unplaced_agents_def
  by (induction as) (auto simp: archive_agent_def list_ex_iff)

lemma restore_graph_exact:
  assumes restored: "restore_graph (map save_group (bm_values gs)) (map save_connection (bm_values cs)) w = Inr w'"
    and empty: "w_groups w = bm_empty" "w_connections w = bm_empty" "w_archived w = bm_empty"
      "w_floors w = floors_default"
    and keyed: "node_map.keyed (w_nodes w)" "group_map.keyed gs" "connection_map.keyed cs"
    and valid: "all_values group_valid gs"
  shows "w' = w\<lparr>w_groups := gs, w_connections := cs\<rparr>"
proof -
  let ?before = "canvas_layout w"
  let ?after = "canvas_layout_new (cl_nodes ?before) (bm_values gs) (bm_values cs)"
  have nodes: "set (cl_nodes ?before) = set (bm_values (w_nodes w))"
    and bare: "cl_groups ?before = []" "cl_connections ?before = []"
    by (simp_all add: canvas_layout_def canvas_layout_new_def contains_node_def empty floors_default_def
        bm_values_def)
  have groups: "try_map read_group (map save_group (bm_values gs)) = Inr (bm_values gs)"
    using valid by (intro group_form.reads_back_list) (simp add: all_values_list list_all_iff)
  from restored have cases: "if canvas_layout_eq ?before ?after then w' = w
      else apply_snapshot_command w (DC_ReplaceCanvas ?before ?after) = Inr w'"
    by (simp add: restore_graph_def groups Let_def connections_read_back del: map_map split: if_splits)
  show ?thesis
  proof (cases "canvas_layout_eq ?before ?after")
    case True
    then have "bm_values gs = []" "bm_values cs = []"
      by (auto simp: canvas_layout_eq_def bare canvas_layout_new_def dest: arg_cong [of _ _ length])
    with cases True empty show ?thesis by (simp add: bm_values_Nil)
  next
    case False
    let ?all = "combine_layouts (all_canvas_layout w) ?before ?after"
    have combined: "set (cl_nodes ?all) = set (bm_values (w_nodes w))"
      "set (cl_groups ?all) = set (bm_values gs)" "set (cl_connections ?all) = set (bm_values cs)"
      using nodes by (auto simp: combine_layouts_def canvas_layout_new_def all_canvas_layout_def bare empty
          bm_values_def)
    have "w_nodes (install_layout ?all w) = w_nodes w" "w_groups (install_layout ?all w) = gs"
      "w_connections (install_layout ?all w) = cs"
      using bm_of_values [OF combined(1)] bm_of_values [OF combined(2)] bm_of_values [OF combined(3)] keyed
      by (auto simp: install_layout_def node_map.keyed_def group_map.keyed_def connection_map.keyed_def)
    then have installed: "install_layout ?all w = w\<lparr>w_groups := gs, w_connections := cs\<rparr>"
      by (simp add: install_layout_def)
    have unmoved: "move_nodes ?before ?after (w_floors w) = w_floors w"
      by (simp add: move_nodes_def empty floors_default_def Let_def)
        (rule bmap_ext, simp add: bm_get_retain)
    let ?w = "w\<lparr>w_groups := gs, w_connections := cs\<rparr>"
    have "archive_unplaced_agents (shown_agents (cl_nodes ?before)) ?w = ?w"
      using nodes by (intro archive_shown_none) (auto simp: set_shown_agents)
    moreover have "restore_placed_agents ?w = ?w" by (simp add: restore_placed_none empty)
    ultimately show ?thesis
      using cases False
      by (auto simp: apply_snapshot_command_Inr_iff decide_def apply_event_def apply_canvas_replaced_def
          res_bind_Inr_iff Let_def installed unmoved split: if_splits)
  qed
qed

section \<open>Conversations\<close>

abbreviation put_chat :: "chat_thread \<Rightarrow> workspace \<Rightarrow> workspace" where
  "put_chat t w \<equiv> w\<lparr>w_threads := bm_insert (th_id t) t (w_threads w)\<rparr>"

lemma update_draft_exact:
  assumes "apply_snapshot_command w (DC_UpdateChatDraft tid d) = Inr w'"
    and "bm_get (w_threads w) tid = Some x"
  shows "w' = w\<lparr>w_threads := bm_insert tid (x\<lparr>th_draft := d\<rparr>) (w_threads w)\<rparr>"
  using assms
  by (auto simp: apply_snapshot_command_Inr_iff decide_def apply_event_def res_bind_Inr_iff
      decide_update_draft_def apply_draft_changed_def get_thread_def get_or_Inr_iff put_thread_def
      set_draft_def split: if_splits)

lemma submit_draft_exact:
  assumes "apply_snapshot_command w (DC_SubmitChatDraft tid mid at) = Inr w'"
    and "bm_get (w_threads w) tid = Some x"
  shows "\<exists>m. chat_message_from_draft mid tid (th_draft x) at = Inr m \<and>
    w' = w\<lparr>w_threads := bm_insert tid (x\<lparr>th_messages := th_messages x @ [m], th_draft := chat_draft_default\<rparr>)
      (w_threads w)\<rparr>"
  using assms
  by (auto simp: apply_snapshot_command_Inr_iff decide_def apply_event_def res_bind_Inr_iff map_err_Inr_iff
      decide_submit_draft_def apply_draft_submitted_def get_thread_def get_or_Inr_iff put_thread_def
      set_draft_def push_message_def split: if_splits)

lemma restore_message_exact:
  assumes restored: "restore_message tid w m = Inr w'" and x: "bm_get (w_threads w) tid = Some x"
    and draft: "th_draft x = chat_draft_default" and m: "msg_thread m = tid"
  shows "w' = w\<lparr>w_threads := bm_insert tid (x\<lparr>th_messages := th_messages x @ [m]\<rparr>) (w_threads w)\<rparr>"
proof (cases "msg_author m")
  case CA_User
  then obtain d w1 where d: "chat_draft_new (content_str (msg_content m)) (msg_attachments m) (msg_mentions m) = Inr d"
    and w1: "apply_snapshot_command w (DC_UpdateChatDraft tid d) = Inr w1"
    and w': "apply_snapshot_command w1 (DC_SubmitChatDraft tid (msg_id m) (msg_sent_at m)) = Inr w'"
    using restored by (auto simp: restore_message_def res_bind_Inr_iff message_Inr_iff)
  have w1_eq: "w1 = w\<lparr>w_threads := bm_insert tid (x\<lparr>th_draft := d\<rparr>) (w_threads w)\<rparr>"
    using w1 x by (rule update_draft_exact)
  then have "bm_get (w_threads w1) tid = Some (x\<lparr>th_draft := d\<rparr>)" by simp
  from submit_draft_exact [OF w' this] obtain m' where
    m': "chat_message_from_draft (msg_id m) tid d (msg_sent_at m) = Inr m'"
    and w'_eq: "w' = w1\<lparr>w_threads := bm_insert tid (x\<lparr>th_draft := d, th_messages := th_messages x @ [m'], th_draft := chat_draft_default\<rparr>) (w_threads w1)\<rparr>" by auto
  have "dr_text d = content_str (msg_content m)" "dr_attachments d = msg_attachments m"
    "dr_mentions d = msg_mentions m"
    using d by (auto simp: chat_draft_new_def split: if_splits)
  with m' m CA_User have "m' = m"
    by (auto simp: chat_message_from_draft_Inr_iff chat_message_new_Inr_iff)
  moreover have "x\<lparr>th_messages := ms, th_draft := chat_draft_default\<rparr> = x\<lparr>th_messages := ms\<rparr>" for ms
    using draft by (cases x) simp
  ultimately show ?thesis by (simp add: w'_eq w1_eq bm_insert_twice)
next
  case (CA_Agent a)
  then have "apply_snapshot_command w (DC_AppendAgentChatMessage m) = Inr w'"
    using restored by (simp add: restore_message_def)
  with x m show ?thesis
    by (auto simp: apply_snapshot_command_Inr_iff decide_def apply_event_def res_bind_Inr_iff
        apply_message_appended_def get_thread_def get_or_Inr_iff put_thread_def push_message_def
        split: if_splits)
qed

lemma restore_messages_exact:
  assumes "try_fold (restore_message tid) w ms = Inr w'" and "bm_get (w_threads w) tid = Some x"
    and "th_draft x = chat_draft_default" and "\<forall>m\<in>set ms. msg_thread m = tid"
  shows "w' = w\<lparr>w_threads := bm_insert tid (x\<lparr>th_messages := th_messages x @ ms\<rparr>) (w_threads w)\<rparr>"
  using assms
proof (induction ms arbitrary: w x)
  case Nil
  then show ?case by (simp add: insert_same)
next
  case (Cons m ms)
  then obtain w1 where w1: "restore_message tid w m = Inr w1" "try_fold (restore_message tid) w1 ms = Inr w'"
    by (auto simp: res_bind_Inr_iff)
  have "w1 = w\<lparr>w_threads := bm_insert tid (x\<lparr>th_messages := th_messages x @ [m]\<rparr>) (w_threads w)\<rparr>"
    using w1(1) Cons.prems by (intro restore_message_exact) simp_all
  with Cons.IH [OF w1(2), of "x\<lparr>th_messages := th_messages x @ [m]\<rparr>"] Cons.prems show ?case
    by (simp add: bm_insert_twice)
qed

abbreviation waiting_of :: "chat_thread \<Rightarrow> waiting_chat" where
  "waiting_of t \<equiv> (th_id t, th_draft t, th_messages t)"

lemma restore_chat_exact:
  assumes restored: "restore_chat w (waiting_of t) = Inr w'"
    and "bm_get (w_threads w) (th_id t) = Some (opened t)"
    and "\<forall>m\<in>set (th_messages t). msg_thread m = th_id t"
    and draft: "chat_draft_is_empty (th_draft t) \<longrightarrow> th_draft t = chat_draft_default"
  shows "w' = put_chat t w"
proof -
  obtain w1 where w1: "try_fold (restore_message (th_id t)) w (th_messages t) = Inr w1"
    and w': "if chat_draft_is_empty (th_draft t) then w' = w1
      else apply_snapshot_command w1 (DC_UpdateChatDraft (th_id t) (th_draft t)) = Inr w'"
    using restored by (auto simp: restore_chat_def res_bind_Inr_iff split: if_splits)
  have w1_eq: "w1 = w\<lparr>w_threads := bm_insert (th_id t)
      ((opened t)\<lparr>th_messages := th_messages (opened t) @ th_messages t\<rparr>) (w_threads w)\<rparr>"
    using w1 assms(2) _ assms(3) by (rule restore_messages_exact) (simp add: opened_def)
  have all: "(opened t)\<lparr>th_messages := th_messages (opened t) @ th_messages t, th_draft := th_draft t\<rparr> = t"
    by (simp add: opened_def)
  show ?thesis
  proof (cases "chat_draft_is_empty (th_draft t)")
    case True
    then have "(opened t)\<lparr>th_messages := th_messages (opened t) @ th_messages t\<rparr> = t"
      using draft by (cases t) (simp add: opened_def)
    with True w' w1_eq show ?thesis by simp
  next
    case False
    have "bm_get (w_threads w1) (th_id t) =
        Some ((opened t)\<lparr>th_messages := th_messages (opened t) @ th_messages t\<rparr>)" by (simp add: w1_eq)
    from update_draft_exact [OF _ this] False w' have "w' = w1\<lparr>w_threads := bm_insert (th_id t)
      ((opened t)\<lparr>th_messages := th_messages (opened t) @ th_messages t, th_draft := th_draft t\<rparr>)
      (w_threads w1)\<rparr>" by simp
    then show ?thesis by (simp only: all) (simp add: w1_eq bm_insert_twice)
  qed
qed

lemma restore_threads_exact:
  assumes "try_fold restore_thread_v1 (w, waiting) (map save_thread ts) = Inr (w', waiting')"
    and "\<forall>t\<in>set ts. thread_valid t"
  shows "w' = w\<lparr>w_threads := fold (\<lambda>t. bm_insert (th_id t) t) (map opened ts) (w_threads w)\<rparr> \<and>
    waiting' = waiting @ map waiting_of ts"
  using assms
proof (induction ts arbitrary: w waiting)
  case (Cons t ts)
  then obtain w1 where w1: "apply_snapshot_command w (DC_AddChatThread (opened t)) = Inr w1"
    "try_fold restore_thread_v1 (w1, waiting @ [waiting_of t]) (map save_thread ts) = Inr (w', waiting')"
    by (auto simp: restore_thread_v1_def read_save_thread_parts res_bind_Inr_iff opened_def)
  have "w1 = put_chat (opened t) w" using snapshot_addition(8) [OF w1(1)] .
  with Cons.IH [OF w1(2)] Cons.prems(2) show ?case by simp
qed simp

lemma restore_chats_fold_exact:
  assumes "try_fold restore_chat w (map waiting_of ts) = Inr w'" and "distinct (map th_id ts)"
    and "\<forall>t\<in>set ts. bm_get (w_threads w) (th_id t) = Some (opened t)"
    and "\<forall>t\<in>set ts. \<forall>m\<in>set (th_messages t). msg_thread m = th_id t"
    and "\<forall>t\<in>set ts. chat_draft_is_empty (th_draft t) \<longrightarrow> th_draft t = chat_draft_default"
  shows "w' = w\<lparr>w_threads := fold (\<lambda>t. bm_insert (th_id t) t) ts (w_threads w)\<rparr>"
  using assms
proof (induction ts arbitrary: w)
  case (Cons t ts)
  then obtain w1 where w1: "restore_chat w (waiting_of t) = Inr w1"
    "try_fold restore_chat w1 (map waiting_of ts) = Inr w'"
    by (auto simp: res_bind_Inr_iff)
  have w1_eq: "w1 = put_chat t w" using w1(1) Cons.prems(3-5) by (intro restore_chat_exact) simp_all
  moreover have "bm_get (w_threads w1) (th_id u) = Some (opened u)" if "u \<in> set ts" for u
    using that Cons.prems(2,3) by (auto simp: w1_eq image_iff)
  ultimately show ?case using Cons.IH [OF w1(2)] Cons.prems by simp
qed simp

end
