(* ===== verification/Snapshot_Stages.thy ===== *)
theory Snapshot_Stages
  imports Snapshot_Exact
begin

text \<open>The stages of reading a snapshot, each on the record of the stage before.\<close>

section \<open>Settings\<close>

definition unfilled :: "workspace \<Rightarrow> workspace" where
  "unfilled w = (workspace_new (w_id w) (ws_name (w_settings w)))\<lparr>w_settings := w_settings w\<rparr>"

lemma restore_settings_exact:
  assumes "restore_settings (save_workspace w) = Inr v" and "settings_valid (w_settings w)"
  shows "v = unfilled w"
proof -
  let ?w = "workspace_new (w_id w) (ws_name (w_settings w))"
  have "if w_settings ?w \<noteq> w_settings w
      then apply_snapshot_command ?w (DC_UpdateWorkspaceSettings (w_settings w)) = Inr v else v = ?w"
    using assms settings_form.reads_back [OF assms(2)]
    by (simp add: restore_settings_def save_workspace_def save_settings_def Let_def split: if_splits)
  then show ?thesis
    by (cases "w_settings ?w = w_settings w")
      (auto simp: unfilled_def apply_snapshot_command_Inr_iff decide_def decide_settings_def apply_event_def
        apply_settings_changed_def res_bind_Inr_iff split: if_splits)
qed

lemma unfilled_empty [simp]:
  "w_id (unfilled w) = w_id w" "w_settings (unfilled w) = w_settings w"
  "w_floors (unfilled w) = floors_default"
  "w_profiles (unfilled w) = bm_empty" "w_presets (unfilled w) = bm_empty" "w_roles (unfilled w) = bm_empty"
  "w_agents (unfilled w) = bm_empty" "w_archived (unfilled w) = bm_empty" "w_threads (unfilled w) = bm_empty"
  "w_attachments (unfilled w) = bm_empty" "w_tasks (unfilled w) = bm_empty" "w_handoffs (unfilled w) = bm_empty"
  "w_nodes (unfilled w) = bm_empty" "w_groups (unfilled w) = bm_empty" "w_connections (unfilled w) = bm_empty"
  "w_routines (unfilled w) = bm_empty" "w_runs (unfilled w) = bm_empty"
  by (simp_all add: unfilled_def workspace_new_def)

section \<open>Configuration\<close>

definition all_agents :: "workspace \<Rightarrow> (agent_id, agent) bmap" where
  "all_agents w = fold (\<lambda>x. bm_insert (agent_ident x) x) (recorded_agents w) bm_empty"

lemma all_agents_get:
  assumes "ws_inv w" shows "bm_get (all_agents w) a = recorded_agent w a"
proof -
  have "\<And>k v. bm_get (w_agents w) k = Some v \<Longrightarrow> agent_ident v = k"
    "\<And>k v. bm_get (w_archived w) k = Some v \<Longrightarrow> agent_ident v = k"
    using assms unfolding ws_inv_def agents_ok_def agent_map.keyed_def by blast+
  moreover have "bm_get (w_agents w) a = None \<or> bm_get (w_archived w) a = None"
    using assms unfolding ws_inv_def agents_ok_def bm_contains_def by blast
  ultimately show ?thesis
    by (auto simp: all_agents_def recorded_agents_def recorded_agent_def fold_values_get split: option.splits)
qed

lemma restore_each_exact:
  assumes "restore_all read command (map save xs) w = Inr w'" and "\<forall>x\<in>set xs. read (save x) = Inr x"
    and "\<And>w x w'. apply_snapshot_command w (command x) = Inr w' \<Longrightarrow> w' = put x w"
  shows "w' = fold put xs w"
  using restore_all_exact [where ok = "\<lambda>_. True", OF assms(1,2) TrueI] assms(3) by blast

lemma restore_profiles_exact:
  assumes "restore_all read_profile DC_AddEnvironmentProfile (map save_profile xs) w = Inr w'"
    and "\<forall>x\<in>set xs. profile_valid x"
  shows "w' = w\<lparr>w_profiles := fold (\<lambda>x. bm_insert (env_id x) x) xs (w_profiles w)\<rparr>"
  using restore_each_exact [OF assms(1) _ snapshot_addition(1)] assms(2)
  by (simp add: profile_form.reads_back fold_field)

lemma restore_presets_exact:
  assumes "restore_all read_preset DC_AddCommandPreset (map save_preset xs) w = Inr w'"
    and "\<forall>x\<in>set xs. preset_valid x"
  shows "w' = w\<lparr>w_presets := fold (\<lambda>x. bm_insert (preset_id x) x) xs (w_presets w)\<rparr>"
  using restore_each_exact [OF assms(1) _ snapshot_addition(2)] assms(2)
  by (simp add: preset_form.reads_back fold_field)

lemma restore_roles_exact:
  assumes "restore_all read_role DC_AddRole (map save_role xs) w = Inr w'"
    and "\<forall>x\<in>set xs. role_valid x"
  shows "w' = w\<lparr>w_roles := fold (\<lambda>x. bm_insert (role_ident x) x) xs (w_roles w)\<rparr>"
  using restore_each_exact [OF assms(1) _ snapshot_addition(3)] assms(2)
  by (simp add: role_form.reads_back fold_field)

lemma restore_routines_exact:
  assumes "restore_all read_routine DC_AddRoutine (map save_routine xs) w = Inr w'"
    and "\<forall>x\<in>set xs. routine_valid x"
  shows "w' = w\<lparr>w_routines := fold (\<lambda>x. bm_insert (rt_id x) x) xs (w_routines w)\<rparr>"
  using restore_each_exact [OF assms(1) _ snapshot_addition(5)] assms(2)
  by (simp add: routine_form.reads_back fold_field)

lemma restore_attachments_exact:
  assumes "restore_all read_attachment DC_AddChatAttachment (map save_attachment xs) w = Inr w'"
    and "\<forall>x\<in>set xs. attachment_valid x"
  shows "w' = w\<lparr>w_attachments := fold (\<lambda>x. bm_insert (ca_id x) x) xs (w_attachments w)\<rparr>"
  using restore_each_exact [OF assms(1) _ snapshot_addition(9)] assms(2)
  by (simp add: attachment_form.reads_back fold_field)

lemma restore_runs_exact:
  assumes "try_fold restore_run_v1 w (map save_run rs) = Inr w'" and "\<forall>r\<in>set rs. run_valid r"
  shows "w' = w\<lparr>w_runs := fold (\<lambda>x. bm_insert (run_id x) x) rs (w_runs w)\<rparr>"
  using assms
proof (induction rs arbitrary: w)
  case (Cons r rs)
  then obtain w1 where w1: "message (restore_routine_run w r) = Inr w1"
    "try_fold restore_run_v1 w1 (map save_run rs) = Inr w'"
    by (simp add: restore_run_v1_def [of w] run_form.reads_back) (auto simp: res_bind_Inr_iff)
  with Cons.IH [OF w1(2)] Cons.prems(2) snapshot_run_restored [OF w1(1)] show ?case by simp
qed simp

definition with_config :: "workspace \<Rightarrow> workspace" where
  "with_config w = (unfilled w)\<lparr>w_profiles := w_profiles w, w_presets := w_presets w, w_roles := w_roles w,
     w_agents := all_agents w, w_routines := w_routines w, w_runs := w_runs w\<rparr>"

lemma restore_config_exact:
  assumes restored: "restore_config 12 (save_workspace w) (unfilled w) = Inr v"
    and inv: "ws_inv w" and valid: "workspace_valid w"
  shows "v = with_config w"
proof -
  have stored: "sw_profiles (save_workspace w) = map save_profile (bm_values (w_profiles w))"
    "sw_presets (save_workspace w) = map save_preset (bm_values (w_presets w))"
    "sw_roles (save_workspace w) = map save_role (bm_values (w_roles w))"
    "sw_agents (save_workspace w) = map save_agent (recorded_agents w)"
    "sw_routines (save_workspace w) = map save_routine (bm_values (w_routines w))"
    "sw_routine_runs (save_workspace w) = map save_run (bm_values (w_runs w))"
    by (simp_all add: save_workspace_def)
  obtain w1 w2 w3 w4 w5 where
    stages: "restore_all read_profile DC_AddEnvironmentProfile (map save_profile (bm_values (w_profiles w)))
      (unfilled w) = Inr w1"
    "restore_all read_preset DC_AddCommandPreset (map save_preset (bm_values (w_presets w))) w1 = Inr w2"
    "restore_all read_role DC_AddRole (map save_role (bm_values (w_roles w))) w2 = Inr w3"
    "try_fold restore_agent_v1 w3 (map save_agent (recorded_agents w)) = Inr w4"
    "restore_all read_routine DC_AddRoutine (map save_routine (bm_values (w_routines w))) w4 = Inr w5"
    "try_fold restore_run_v1 w5 (map save_run (bm_values (w_runs w))) = Inr v"
    using restored unfolding restore_config_def stored by (auto simp: res_bind_Inr_iff split: if_splits)
  have valid': "\<forall>x\<in>set (bm_values (w_profiles w)). profile_valid x" "\<forall>x\<in>set (bm_values (w_presets w)). preset_valid x"
    "\<forall>x\<in>set (bm_values (w_roles w)). role_valid x" "\<forall>x\<in>set (recorded_agents w). agent_valid x"
    "\<forall>x\<in>set (bm_values (w_routines w)). routine_valid x" "\<forall>x\<in>set (bm_values (w_runs w)). run_valid x"
    using valid by (auto simp: workspace_valid_def all_values_list recorded_agents_def)
  have keys: "\<And>k v. bm_get (w_profiles w) k = Some v \<Longrightarrow> env_id v = k"
    "\<And>k v. bm_get (w_presets w) k = Some v \<Longrightarrow> preset_id v = k"
    "\<And>k v. bm_get (w_roles w) k = Some v \<Longrightarrow> role_ident v = k"
    "\<And>k v. bm_get (w_routines w) k = Some v \<Longrightarrow> rt_id v = k"
    "\<And>k v. bm_get (w_runs w) k = Some v \<Longrightarrow> run_id v = k"
    using inv unfolding ws_inv_def config_ok_def routines_ok_def runs_ok_def profile_map.keyed_def
      preset_map.keyed_def role_map.keyed_def routine_map.keyed_def run_map.keyed_def by blast+
  note exact = restore_profiles_exact [OF stages(1) valid'(1)] restore_presets_exact [OF stages(2) valid'(2)]
    restore_roles_exact [OF stages(3) valid'(3)] restore_agents_exact [OF stages(4) valid'(4)]
    restore_routines_exact [OF stages(5) valid'(5)] restore_runs_exact [OF stages(6) valid'(6)]
  show ?thesis
    unfolding exact(6) exact(5) exact(4) exact(3) exact(2) exact(1)
    by (simp add: with_config_def all_agents_def collect_values keys)
qed

section \<open>Tasks, handoffs and the canvas\<close>

lemma distinct_idents:
  assumes "\<And>k v. bm_get m k = Some v \<Longrightarrow> ident v = k"
  shows "distinct (map ident (bm_values m))"
proof -
  have "map ident (bm_values m) = map fst (entries m)"
    using assms by (auto simp: bm_values_def bm_get_Some_iff)
  then show ?thesis using distinct_bm_keys [of m] by (simp add: bm_keys_def)
qed

lemma collect_reordered:
  assumes "mset ys = mset (bm_values m)" and "\<And>k v. bm_get m k = Some v \<Longrightarrow> ident v = k"
  shows "fold (\<lambda>v. bm_insert (ident v) v) ys bm_empty = m"
  using fold_insert_order [OF assms(1) distinct_idents [OF assms(2)]] collect_values [OF assms(2)] by simp

lemma restore_tasks_exact:
  assumes "restore_ready task_ready restore_task_v1 (map save_task (bm_values ts)) w = Inr w'"
    and "all_values task_valid ts" and "task_map.keyed ts" and "w_tasks w = bm_empty"
  shows "w' = w\<lparr>w_tasks := ts\<rparr>"
proof -
  let ?put = "\<lambda>x w. w\<lparr>w_tasks := bm_insert (task_ident x) x (w_tasks w)\<rparr>"
  from restore_ready_exact [OF assms(1), where put = ?put] obtain ys
    where "mset ys = mset (bm_values ts)" "w' = fold ?put ys w"
    using assms(2) by (auto simp: all_values_list dest: restore_task_exact)
  then show ?thesis
    using collect_reordered [of ys ts task_ident] assms(3,4) by (simp add: fold_field task_map.keyed_def)
qed

lemma restore_handoffs_exact:
  assumes "restore_ready handoff_ready restore_handoff_v1 (map save_handoff (bm_values hs)) w = Inr w'"
    and "all_values handoff_recorded hs" and "handoff_map.keyed hs" and "w_handoffs w = bm_empty"
  shows "w' = w\<lparr>w_handoffs := hs\<rparr>"
proof -
  let ?put = "\<lambda>x w. w\<lparr>w_handoffs := bm_insert (ho_id x) x (w_handoffs w)\<rparr>"
  have "v = ?put h u" if "h \<in> set (bm_values hs)" "restore_handoff_v1 u (save_handoff h) = Inr v" for h u v
  proof -
    have "read_handoff (save_handoff h) = Inr h"
      using assms(2) that(1) by (simp add: all_values_list handoff_recorded_def handoff_form.reads_back)
    with that(2) have "apply_snapshot_command u (DC_AddHandoff h) = Inr v"
      by (simp add: restore_handoff_v1_def)
    then show ?thesis by (rule snapshot_addition(7))
  qed
  from restore_ready_exact [OF assms(1), where put = ?put, OF this] obtain ys
    where "mset ys = mset (bm_values hs)" "w' = fold ?put ys w" by blast
  then show ?thesis
    using collect_reordered [of ys hs ho_id] assms(3,4) by (simp add: fold_field handoff_map.keyed_def)
qed

lemma restore_nodes_exact:
  assumes "restore_all read_node DC_AddNode (map save_node (bm_values ns)) w = Inr w'"
    and "all_values node_valid ns" and "node_map.keyed ns"
    and "w_archived w = bm_empty" and "w_floors w = floors_default" and "w_nodes w = bm_empty"
  shows "w' = w\<lparr>w_nodes := ns\<rparr>"
proof -
  let ?put = "\<lambda>x w. w\<lparr>w_nodes := bm_insert (node_ident x) x (w_nodes w)\<rparr>"
  let ?ok = "\<lambda>w. w_archived w = bm_empty \<and> w_floors w = floors_default"
  have "w' = fold ?put (bm_values ns) w \<and> ?ok w'"
    using assms(1)
  proof (rule restore_all_exact [where ok = ?ok])
    show "\<forall>n\<in>set (bm_values ns). read_node (save_node n) = Inr n"
      using assms(2) by (simp add: all_values_list node_form.reads_back)
    show "v = ?put n u" if "?ok u" "apply_snapshot_command u (DC_AddNode n) = Inr v" for u n v
      using that(2) that(1) [THEN conjunct1] that(1) [THEN conjunct2] by (rule snapshot_node_addition)
  qed (simp_all add: assms(4,5))
  then show ?thesis
    using collect_values [of ns node_ident] assms(3,6) by (simp add: fold_field node_map.keyed_def)
qed

definition with_work :: "workspace \<Rightarrow> workspace" where
  "with_work w = (with_config w)\<lparr>w_tasks := w_tasks w, w_handoffs := w_handoffs w, w_nodes := w_nodes w,
     w_groups := w_groups w, w_connections := w_connections w\<rparr>"

lemma restore_work_exact:
  assumes restored: "restore_work (save_workspace w) (with_config w) = Inr v"
    and inv: "ws_inv w" and valid: "workspace_valid w"
  shows "v = with_work w"
proof -
  have stored: "sw_tasks (save_workspace w) = map save_task (bm_values (w_tasks w))"
    "sw_handoffs (save_workspace w) = map save_handoff (bm_values (w_handoffs w))"
    "sw_nodes (save_workspace w) = map save_node (bm_values (w_nodes w))"
    "sw_groups (save_workspace w) = map save_group (bm_values (w_groups w))"
    "sw_connections (save_workspace w) = map save_connection (bm_values (w_connections w))"
    by (simp_all add: save_workspace_def)
  obtain w1 w2 w3 where stages:
    "restore_ready task_ready restore_task_v1 (map save_task (bm_values (w_tasks w))) (with_config w) = Inr w1"
    "restore_ready handoff_ready restore_handoff_v1 (map save_handoff (bm_values (w_handoffs w))) w1 = Inr w2"
    "restore_all read_node DC_AddNode (map save_node (bm_values (w_nodes w))) w2 = Inr w3"
    "restore_graph (map save_group (bm_values (w_groups w))) (map save_connection (bm_values (w_connections w))) w3 = Inr v"
    using restored unfolding restore_work_def stored by (auto simp: res_bind_Inr_iff)
  have values_ok: "all_values task_valid (w_tasks w)" "all_values handoff_recorded (w_handoffs w)"
    "all_values node_valid (w_nodes w)"
    using valid by (auto simp: workspace_valid_def)
  have groups_ok: "all_values group_valid (w_groups w)"
    using inv unfolding ws_inv_def canvas_ok_def all_values_def group_ok_def group_valid_def by blast
  have keys: "task_map.keyed (w_tasks w)" "handoff_map.keyed (w_handoffs w)" "node_map.keyed (w_nodes w)"
    "group_map.keyed (w_groups w)" "connection_map.keyed (w_connections w)"
    using inv unfolding ws_inv_def tasks_ok_def handoffs_ok_def canvas_ok_def by blast+
  have w1: "w1 = (with_config w)\<lparr>w_tasks := w_tasks w\<rparr>"
    using stages(1) values_ok(1) keys(1) by (rule restore_tasks_exact) (simp add: with_config_def)
  have w2: "w2 = w1\<lparr>w_handoffs := w_handoffs w\<rparr>"
    using stages(2) values_ok(2) keys(2) by (rule restore_handoffs_exact) (simp add: w1 with_config_def)
  have w3: "w3 = w2\<lparr>w_nodes := w_nodes w\<rparr>"
    using stages(3) values_ok(3) keys(3)
    by (rule restore_nodes_exact) (simp_all add: w1 w2 with_config_def)
  have "v = w3\<lparr>w_groups := w_groups w, w_connections := w_connections w\<rparr>"
    using stages(4)
    by (rule restore_graph_exact) (simp_all add: w1 w2 w3 with_config_def keys groups_ok)
  then show ?thesis by (simp add: w1 w2 w3 with_work_def)
qed

section \<open>Conversations\<close>

definition with_chats :: "workspace \<Rightarrow> workspace" where
  "with_chats w = (with_work w)\<lparr>w_threads := w_threads w, w_attachments := w_attachments w\<rparr>"

lemma fold_opened:
  "fold (\<lambda>t. bm_insert (th_id t) t) (map opened ts) m = fold (\<lambda>t. bm_insert (th_id t) (opened t)) ts m"
  by (induction ts arbitrary: m) (simp_all add: opened_def)

lemma fold_insert_found:
  assumes "distinct (map ident ts)"
  shows "bm_get (fold (\<lambda>t. bm_insert (ident t) (f t)) ts m) k =
    (case List.find (\<lambda>t. ident t = k) ts of None \<Rightarrow> bm_get m k | Some t \<Rightarrow> Some (f t))"
  using assms
proof (induction ts arbitrary: m)
  case (Cons t ts)
  then have "ident t \<notin> ident ` set ts" by simp
  then have "List.find (\<lambda>u. ident u = ident t) ts = None" by (force simp: find_None_iff image_iff)
  with Cons show ?case by (auto split: option.splits)
qed simp

lemma fold_insert_covered:
  assumes "distinct (map ident ts)"
  shows "fold (\<lambda>t. bm_insert (ident t) t) ts (fold (\<lambda>t. bm_insert (ident t) (f t)) ts m) =
    fold (\<lambda>t. bm_insert (ident t) t) ts m"
  by (rule bmap_ext)
    (simp add: fold_insert_found [OF assms, where f = "\<lambda>t. t"] fold_insert_found [OF assms] split: option.splits)

lemma restore_chats_exact:
  assumes restored: "restore_chats (save_workspace w) (with_work w) = Inr v"
    and inv: "ws_inv w" and valid: "workspace_valid w" and drafts: "keeps_drafts w"
  shows "v = with_chats w"
proof -
  let ?ts = "bm_values (w_threads w)"
  have stored: "sw_chat_threads (save_workspace w) = map save_thread ?ts"
    "sw_chat_attachments (save_workspace w) = map save_attachment (bm_values (w_attachments w))"
    by (simp_all add: save_workspace_def)
  obtain w1 waiting w2 where stages:
    "try_fold restore_thread_v1 (with_work w, []) (map save_thread ?ts) = Inr (w1, waiting)"
    "restore_all read_attachment DC_AddChatAttachment (map save_attachment (bm_values (w_attachments w))) w1 = Inr w2"
    "try_fold restore_chat w2 waiting = Inr v"
    using restored unfolding restore_chats_def stored by (auto simp: res_bind_Inr_iff)
  have values_ok: "\<forall>t\<in>set ?ts. thread_valid t" "\<forall>t\<in>set (bm_values (w_attachments w)). attachment_valid t"
    using valid by (auto simp: workspace_valid_def all_values_list)
  have chats: "chat_ok (known_agent w) (w_threads w) (w_attachments w)" using inv by (simp only: ws_inv_def)
  then have "thread_map.keyed (w_threads w)" "attachment_map.keyed (w_attachments w)"
    by (simp_all only: chat_ok_def)
  then have keys: "\<And>k t. bm_get (w_threads w) k = Some t \<Longrightarrow> th_id t = k"
    "\<And>k t. bm_get (w_attachments w) k = Some t \<Longrightarrow> ca_id t = k"
    by (simp_all only: thread_map.keyed_def attachment_map.keyed_def)
  have distinct: "distinct (map th_id ?ts)" using keys(1) by (rule distinct_idents)
  have w1: "w1 = (with_work w)\<lparr>w_threads := fold (\<lambda>t. bm_insert (th_id t) (opened t)) ?ts (w_threads (with_work w))\<rparr>"
    and waiting: "waiting = map waiting_of ?ts"
    using restore_threads_exact [OF stages(1) values_ok(1), unfolded fold_opened append_Nil] by blast+
  have w2: "w2 = w1\<lparr>w_attachments := fold (\<lambda>x. bm_insert (ca_id x) x) (bm_values (w_attachments w)) (w_attachments w1)\<rparr>"
    using stages(2) values_ok(2) by (rule restore_attachments_exact)
  have "v = w2\<lparr>w_threads := fold (\<lambda>t. bm_insert (th_id t) t) ?ts (w_threads w2)\<rparr>"
    using stages(3) [unfolded waiting] distinct
  proof (rule restore_chats_fold_exact)
    show "\<forall>t\<in>set ?ts. bm_get (w_threads w2) (th_id t) = Some (opened t)"
    proof
      fix t assume t: "t \<in> set ?ts"
      have "List.find (\<lambda>u. th_id u = th_id t) ?ts = Some t"
      proof (cases "List.find (\<lambda>u. th_id u = th_id t) ?ts")
        case None
        with t show ?thesis unfolding find_None_iff by blast
      next
        case (Some u)
        then have "u \<in> set ?ts" "th_id u = th_id t" by (auto simp: find_Some_iff)
        with t distinct Some show ?thesis by (simp add: distinct_map inj_on_def)
      qed
      then show "bm_get (w_threads w2) (th_id t) = Some (opened t)"
        by (simp add: w2 w1 fold_insert_found [OF distinct])
    qed
    show "\<forall>t\<in>set ?ts. \<forall>m\<in>set (th_messages t). msg_thread m = th_id t"
      unfolding Ball_def set_bm_values using chats unfolding chat_ok_def thread_ok_def by blast
    show "\<forall>t\<in>set ?ts. chat_draft_is_empty (th_draft t) \<longrightarrow> th_draft t = chat_draft_default"
      using drafts by (simp add: keeps_drafts_def all_values_list)
  qed
  moreover have "w_threads (with_work w) = bm_empty" "w_attachments (with_work w) = bm_empty"
    by (simp_all add: with_work_def with_config_def)
  ultimately show ?thesis
    by (simp add: w1 w2 fold_insert_covered [OF distinct] collect_values keys with_chats_def)
qed

section \<open>Floors and the archive\<close>

lemma restore_floors_exact:
  assumes "restore_floors 12 (save_floors f) w = Inr w'" and "floors_valid f" and "w_floors w = floors_default"
  shows "w' = w\<lparr>w_floors := f\<rparr>"
  using assms
  by (auto simp: restore_floors_def floors_form.reads_back apply_snapshot_command_Inr_iff decide_def
      apply_event_def apply_floors_changed_def res_bind_Inr_iff split: if_splits)

lemma archive_agents_get:
  assumes "\<forall>a\<in>set as. \<forall>n\<in>set (bm_values (w_nodes w)). node_reference n \<noteq> Some (NT_Agent a)"
    and "\<forall>a. bm_get (w_archived w) a = None \<or> bm_get (w_agents w) a = None"
  shows "bm_get (w_agents (archive_unplaced_agents as w)) a = (if a \<in> set as then None else bm_get (w_agents w) a) \<and>
    bm_get (w_archived (archive_unplaced_agents as w)) a =
      (if a \<in> set as \<and> bm_get (w_archived w) a = None then bm_get (w_agents w) a else bm_get (w_archived w) a) \<and>
    (archive_unplaced_agents as w)\<lparr>w_agents := w_agents w, w_archived := w_archived w\<rparr> = w"
  using assms unfolding archive_unplaced_agents_def
proof (induction as arbitrary: w)
  case (Cons b as)
  have nodes: "w_nodes (archive_agent b w) = w_nodes w"
    by (simp add: archive_agent_def split: option.splits)
  have step: "bm_get (w_agents (archive_agent b w)) a = (if a = b then None else bm_get (w_agents w) a)"
    "bm_get (w_archived (archive_agent b w)) a =
      (if a = b \<and> bm_get (w_archived w) a = None then bm_get (w_agents w) a else bm_get (w_archived w) a)"
    "(archive_agent b w)\<lparr>w_agents := w_agents w, w_archived := w_archived w\<rparr> = w" for a
    using Cons.prems(1) Cons.prems(2) [rule_format, of b]
    by (auto simp: archive_agent_def list_ex_iff split: option.splits)
  have "\<forall>a. bm_get (w_archived (archive_agent b w)) a = None \<or> bm_get (w_agents (archive_agent b w)) a = None"
    using Cons.prems(2) by (auto simp: step)
  with Cons.IH [of "archive_agent b w"] Cons.prems(1) nodes have rest:
    "bm_get (w_agents (fold archive_agent as (archive_agent b w))) a =
       (if a \<in> set as then None else bm_get (w_agents (archive_agent b w)) a)"
    "bm_get (w_archived (fold archive_agent as (archive_agent b w))) a =
      (if a \<in> set as \<and> bm_get (w_archived (archive_agent b w)) a = None
       then bm_get (w_agents (archive_agent b w)) a else bm_get (w_archived (archive_agent b w)) a)"
    "(fold archive_agent as (archive_agent b w))\<lparr>w_agents := w_agents (archive_agent b w),
       w_archived := w_archived (archive_agent b w)\<rparr> = archive_agent b w" by simp_all
  from rest(3) have "(fold archive_agent as (archive_agent b w))\<lparr>w_agents := w_agents w, w_archived := w_archived w\<rparr> =
    (archive_agent b w)\<lparr>w_agents := w_agents w, w_archived := w_archived w\<rparr>"
    by (cases "fold archive_agent as (archive_agent b w)"; cases "archive_agent b w") simp
  then show ?case using rest(1,2) step by auto
qed simp

theorem snapshot_exact:
  assumes restored: "read_workspace snapshot_format_version (save_workspace w) = Inr v"
    and inv: "ws_inv w" and valid: "workspace_valid w" and drafts: "keeps_drafts w"
  shows "v = w"
proof -
  have stored: "sw_floors (save_workspace w) = save_floors (w_floors w)"
    "sw_archived_agents (save_workspace w) = map (\<lambda>a. id_get (agent_ident a)) (bm_values (w_archived w))"
    by (simp_all add: save_workspace_def)
  obtain w1 w2 w3 w4 where w1: "restore_settings (save_workspace w) = Inr w1"
    and w2: "restore_config 12 (save_workspace w) w1 = Inr w2" and w3: "restore_work (save_workspace w) w2 = Inr w3"
    and w4: "restore_chats (save_workspace w) w3 = Inr w4"
    and rest: "res_bind (restore_floors 12 (save_floors (w_floors w)) w4) (restore_archived
      (map (\<lambda>a. id_get (agent_ident a)) (bm_values (w_archived w)))) = Inr v"
    using restored by (auto simp: read_workspace_def snapshot_format_version_def stored res_bind_Inr_iff split: if_splits)
  have "w1 = unfilled w" using w1 valid by (intro restore_settings_exact) (auto simp: workspace_valid_def)
  with w2 have "w2 = with_config w" using inv valid by (intro restore_config_exact) simp_all
  with w3 have "w3 = with_work w" using inv valid by (intro restore_work_exact) simp_all
  with w4 have w4: "w4 = with_chats w" using inv valid drafts by (intro restore_chats_exact) simp_all
  let ?w5 = "(with_chats w)\<lparr>w_floors := w_floors w\<rparr>"
  let ?ids = "map agent_ident (bm_values (w_archived w))"
  obtain w5 where w5: "restore_floors 12 (save_floors (w_floors w)) w4 = Inr w5"
    and v: "restore_archived (map (\<lambda>a. id_get (agent_ident a)) (bm_values (w_archived w))) w5 = Inr v"
    using rest by (auto simp: res_bind_Inr_iff)
  have "w5 = ?w5"
    using restore_floors_exact [OF w5] valid
    by (simp add: w4 workspace_valid_def with_chats_def with_work_def with_config_def)
  with v have v: "v = archive_unplaced_agents ?ids ?w5"
    by (simp add: restore_archived_def comp_def split: if_splits)
  have fields: "w_nodes ?w5 = w_nodes w" "w_agents ?w5 = all_agents w" "w_archived ?w5 = bm_empty"
    by (simp_all add: with_chats_def with_work_def with_config_def)
  have archived: "a \<in> set ?ids \<longleftrightarrow> bm_contains (w_archived w) a" for a
    using inv unfolding ws_inv_def agents_ok_def agent_map.keyed_def
    by (force simp: set_bm_values bm_contains_def image_iff)
  have "bm_contains (w_archived w) b \<Longrightarrow> n \<in> set (bm_values (w_nodes w)) \<Longrightarrow>
      node_reference n \<noteq> Some (NT_Agent b)" for b n
    using inv unfolding ws_inv_def placed_ok_def set_bm_values mem_Collect_eq by blast
  then have "\<forall>b\<in>set ?ids. \<forall>n\<in>set (bm_values (w_nodes ?w5)). node_reference n \<noteq> Some (NT_Agent b)"
    unfolding fields using archived by blast
  note moved = archive_agents_get [OF this, unfolded fields archived all_agents_get [OF inv], simplified]
  have got: "bm_get (w_agents v) a = (if bm_contains (w_archived w) a then None else recorded_agent w a)"
    "bm_get (w_archived v) a = (if bm_contains (w_archived w) a then recorded_agent w a else None)"
    "v\<lparr>w_agents := all_agents w, w_archived := bm_empty\<rparr> = ?w5" for a
    using moved [of a] unfolding v by simp_all
  have apart: "bm_get (w_agents w) a = None \<or> bm_get (w_archived w) a = None" for a
    using inv unfolding ws_inv_def agents_ok_def bm_contains_def by blast
  have "bm_get (w_agents v) a = bm_get (w_agents w) a" "bm_get (w_archived v) a = bm_get (w_archived w) a" for a
    using apart [of a] by (auto simp: got recorded_agent_def bm_contains_def split: option.splits)
  then have agents: "w_agents v = w_agents w" "w_archived v = w_archived w" by (auto intro: bmap_ext)
  have "v = v\<lparr>w_agents := all_agents w, w_archived := bm_empty, w_agents := w_agents w, w_archived := w_archived w\<rparr>"
    using agents by (cases v) simp
  also have "\<dots> = ?w5\<lparr>w_agents := w_agents w, w_archived := w_archived w\<rparr>" by (simp only: got(3))
  also have "\<dots> = w"
    by (rule workspace.equality) (simp_all add: with_chats_def with_work_def with_config_def)
  finally show ?thesis .
qed

end
