(* ===== verification/Workspace_Valid.thy ===== *)
theory Workspace_Valid
  imports Snapshot_Stages Workspace_Safe
begin

text \<open>
  Events whose values come from their constructors keep a workspace whose values do, so every
  workspace that is recorded is one its snapshot can describe.
\<close>

section \<open>Values of a map\<close>

lemma all_values_update:
  assumes "all_values P m" and "\<And>v. bm_get m k = Some v \<Longrightarrow> P v \<Longrightarrow> P (f v)"
  shows "all_values P (bm_update k f m)"
  using assms by (auto simp: all_values_def)

lemma all_values_of_list: "(\<forall>v\<in>snd ` set ps. P v) \<Longrightarrow> all_values P (bm_of_list ps)"
  by (force simp: all_values_def bm_get_of_list dest: map_of_SomeD)

lemma all_values_map: "all_values P m \<Longrightarrow> (\<And>k v. P v \<Longrightarrow> P (f k v)) \<Longrightarrow> all_values P (bm_map f m)"
  by (auto simp: all_values_def bm_get_map)

lemma workspace_validD:
  assumes "workspace_valid w"
  shows "settings_valid (w_settings w)" "all_values profile_valid (w_profiles w)"
    "all_values preset_valid (w_presets w)" "all_values role_valid (w_roles w)"
    "all_values agent_valid (w_agents w)" "all_values agent_valid (w_archived w)"
    "all_values thread_valid (w_threads w)" "all_values attachment_valid (w_attachments w)"
    "all_values task_valid (w_tasks w)" "all_values handoff_recorded (w_handoffs w)"
    "all_values node_valid (w_nodes w)" "all_values routine_valid (w_routines w)"
    "all_values run_valid (w_runs w)" "floors_valid (w_floors w)"
  using assms by (simp_all add: workspace_valid_def)

section \<open>Settings, configuration and agents\<close>

lemma config_events_valid:
  assumes "workspace_valid w"
  shows "apply_floors_changed w f g = Inr w' \<Longrightarrow> floors_valid g \<Longrightarrow> workspace_valid w'"
    and "apply_settings_changed w s s' = Inr w' \<Longrightarrow> settings_valid s' \<Longrightarrow> workspace_valid w'"
    and "apply_profile_added w p = Inr w' \<Longrightarrow> profile_valid p \<Longrightarrow> workspace_valid w'"
    and "apply_profile_changed w p p' = Inr w' \<Longrightarrow> profile_valid p' \<Longrightarrow> workspace_valid w'"
    and "apply_profile_removed w p = Inr w' \<Longrightarrow> workspace_valid w'"
    and "apply_preset_added w q = Inr w' \<Longrightarrow> preset_valid q \<Longrightarrow> workspace_valid w'"
    and "apply_preset_changed w q q' = Inr w' \<Longrightarrow> preset_valid q' \<Longrightarrow> workspace_valid w'"
    and "apply_preset_removed w q = Inr w' \<Longrightarrow> workspace_valid w'"
    and "apply_role_added w r = Inr w' \<Longrightarrow> role_valid r \<Longrightarrow> workspace_valid w'"
    and "apply_role_changed w r r' = Inr w' \<Longrightarrow> role_valid r' \<Longrightarrow> workspace_valid w'"
    and "apply_role_removed w r = Inr w' \<Longrightarrow> workspace_valid w'"
  using assms
  by (auto simp: apply_floors_changed_def apply_settings_changed_def apply_profile_added_def
      apply_profile_changed_def apply_profile_removed_def apply_preset_added_def apply_preset_changed_def
      apply_preset_removed_def apply_role_added_def apply_role_changed_def apply_role_removed_def
      result_iff workspace_valid_def split: if_splits option.splits)

lemma update_recorded_valid:
  assumes "workspace_valid w" and "\<And>x. agent_valid x \<Longrightarrow> agent_valid (f x)"
  shows "workspace_valid (update_recorded_agent a f w)"
  using assms by (simp add: workspace_valid_def update_recorded_agent_def all_values_update)

lemma agent_events_valid:
  assumes "workspace_valid w"
  shows "apply_agent_role_changed w a fr tr = Inr w' \<Longrightarrow> workspace_valid w'"
    and "apply_agent_renamed w a fn tn = Inr w' \<Longrightarrow> name_valid tn \<Longrightarrow> workspace_valid w'"
    and "apply_agent_state_changed w a fs ts = Inr w' \<Longrightarrow> workspace_valid w'"
    and "apply_agent_added w ag = Inr w' \<Longrightarrow> agent_recorded ag \<Longrightarrow> workspace_valid w'"
proof -
  show "apply_agent_role_changed w a fr tr = Inr w' \<Longrightarrow> workspace_valid w'"
    and "apply_agent_renamed w a fn tn = Inr w' \<Longrightarrow> name_valid tn \<Longrightarrow> workspace_valid w'"
    and "apply_agent_state_changed w a fs ts = Inr w' \<Longrightarrow> workspace_valid w'"
    using update_recorded_valid [OF assms]
    by (auto simp: apply_agent_role_changed_def apply_agent_renamed_def apply_agent_state_changed_def
        result_iff agent_valid_def split: if_splits)
  show "apply_agent_added w ag = Inr w' \<Longrightarrow> agent_recorded ag \<Longrightarrow> workspace_valid w'"
    using assms by (auto simp: apply_agent_added_def result_iff workspace_valid_def agent_recorded_def agent_valid_def)
qed

section \<open>Conversations\<close>

lemma put_thread_valid: "workspace_valid w \<Longrightarrow> thread_valid x \<Longrightarrow> workspace_valid (put_thread t x w)"
  by (simp add: workspace_valid_def put_thread_def)

lemma default_draft_valid: "draft_valid chat_draft_default"
  by (simp add: draft_valid_def chat_draft_default_def chat_draft_new_def has_duplicates_iff chars_count_def
      content_max_chars_def)

lemma get_thread_valid: "workspace_valid w \<Longrightarrow> get_thread w t = Inr x \<Longrightarrow> thread_valid x"
  using workspace_validD(7) all_valuesD by (fastforce simp: get_thread_def get_or_Inr_iff)

lemma chat_events_valid:
  assumes "workspace_valid w"
  shows "apply_thread_added w th = Inr w' \<Longrightarrow> thread_recorded th \<Longrightarrow> workspace_valid w'"
    and "apply_thread_changed w t tf tt fc tc = Inr w' \<Longrightarrow> name_valid tt \<Longrightarrow> color_valid tc \<Longrightarrow> workspace_valid w'"
    and "apply_attachment_added w att = Inr w' \<Longrightarrow> attachment_valid att \<Longrightarrow> workspace_valid w'"
    and "apply_draft_changed w t fd td = Inr w' \<Longrightarrow> draft_valid td \<Longrightarrow> workspace_valid w'"
    and "apply_draft_submitted w t d m = Inr w' \<Longrightarrow> message_valid m \<Longrightarrow> workspace_valid w'"
    and "apply_message_appended w m = Inr w' \<Longrightarrow> message_valid m \<Longrightarrow> workspace_valid w'"
  using assms get_thread_valid [OF assms]
  by (auto simp: apply_thread_added_def apply_thread_changed_def apply_attachment_added_def
      apply_draft_changed_def apply_draft_submitted_def apply_message_appended_def result_iff
      thread_recorded_def thread_valid_def set_thread_appearance_def set_draft_def push_message_def
      default_draft_valid split: if_splits intro!: put_thread_valid)
    (simp add: workspace_valid_def)

section \<open>Tasks, handoffs and the canvas\<close>

lemma insert_task_handoff_valid:
  "workspace_valid w \<Longrightarrow> task_valid t \<Longrightarrow> workspace_valid (insert_task t w)"
  "workspace_valid w \<Longrightarrow> handoff_recorded h \<Longrightarrow> workspace_valid (insert_handoff h w)"
  "workspace_valid w \<Longrightarrow> workspace_valid (set_task_state k s w)"
  by (auto simp: workspace_valid_def insert_task_def insert_handoff_def set_task_state_def task_valid_def
      intro: all_values_update)

lemma task_events_valid:
  assumes "workspace_valid w"
  shows "apply_task_added w tk = Inr w' \<Longrightarrow> task_recorded tk \<Longrightarrow> workspace_valid w'"
    and "apply_handoff_added w h = Inr w' \<Longrightarrow> handoff_recorded h \<Longrightarrow> workspace_valid w'"
    and "apply_task_handoff_added w tk h = Inr w' \<Longrightarrow> task_recorded tk \<Longrightarrow> handoff_recorded h \<Longrightarrow> workspace_valid w'"
    and "apply_handoff_changed w h h' = Inr w' \<Longrightarrow> handoff_recorded h' \<Longrightarrow> workspace_valid w'"
    and "apply_task_cancelled w k fs h h' = Inr w' \<Longrightarrow> handoff_recorded h' \<Longrightarrow> workspace_valid w'"
    and "apply_task_resumed w k fs h = Inr w' \<Longrightarrow> handoff_recorded h \<Longrightarrow> workspace_valid w'"
    and "apply_task_state_changed w k fs to = Inr w' \<Longrightarrow> workspace_valid w'"
  using assms
  by (auto simp: apply_task_added_def apply_handoff_added_def apply_task_handoff_added_def
      apply_handoff_changed_def apply_task_cancelled_def apply_task_resumed_def
      apply_task_state_changed_def task_recorded_def result_iff insert_task_handoff_valid split: if_splits)

lemma move_agents_valid:
  "workspace_valid w \<Longrightarrow> workspace_valid (archive_agent a w)"
  "workspace_valid w \<Longrightarrow> workspace_valid (restore_agent a w)"
  by (auto simp: workspace_valid_def archive_agent_def restore_agent_def dest: all_valuesD split: option.split)

lemma move_all_agents_valid:
  "workspace_valid w \<Longrightarrow> workspace_valid (archive_unplaced_agents as w)"
  "workspace_valid w \<Longrightarrow> workspace_valid (restore_placed_agents w)"
proof -
  have "workspace_valid v \<Longrightarrow> workspace_valid (fold restore_agent bs v)" for bs v
    by (induction bs arbitrary: v) (simp_all add: move_agents_valid)
  moreover have "workspace_valid v \<Longrightarrow> workspace_valid (fold archive_agent bs v)" for bs v
    by (induction bs arbitrary: v) (simp_all add: move_agents_valid)
  ultimately show "workspace_valid w \<Longrightarrow> workspace_valid (archive_unplaced_agents as w)"
    "workspace_valid w \<Longrightarrow> workspace_valid (restore_placed_agents w)"
    by (simp_all add: archive_unplaced_agents_def restore_placed_agents_def)
qed

lemma place_node_valid: "workspace_valid w \<Longrightarrow> node_valid n \<Longrightarrow> workspace_valid (place_node n w)"
  by (simp add: workspace_valid_def place_node_def floors_valid_def Let_def split: option.split)

lemma install_layout_valid:
  assumes "workspace_valid w" and "\<forall>n\<in>set (cl_nodes l). node_valid n"
  shows "workspace_valid ((install_layout l w)\<lparr>w_floors := move_nodes b a (w_floors w)\<rparr>)"
  using assms
  by (simp add: workspace_valid_def install_layout_def move_nodes_def floors_valid_def Let_def
      all_values_of_list image_image)

lemma canvas_events_valid:
  assumes "workspace_valid w"
  shows "apply_node_added w n = Inr w' \<Longrightarrow> node_valid n \<Longrightarrow> workspace_valid w'"
    and "apply_agent_node_added w a n = Inr w' \<Longrightarrow> agent_recorded a \<Longrightarrow> node_valid n \<Longrightarrow> workspace_valid w'"
    and "apply_canvas_replaced w before after = Inr w' \<Longrightarrow> layout_valid after \<Longrightarrow> workspace_valid w'"
proof -
  show "apply_node_added w n = Inr w' \<Longrightarrow> node_valid n \<Longrightarrow> workspace_valid w'"
    using assms by (auto simp: apply_node_added_def result_iff intro: move_all_agents_valid place_node_valid)
  have "agent_recorded a \<Longrightarrow> workspace_valid (w\<lparr>w_agents := bm_insert (agent_ident a) a (w_agents w)\<rparr>)"
    using assms by (simp add: workspace_valid_def agent_recorded_def agent_valid_def)
  then show "apply_agent_node_added w a n = Inr w' \<Longrightarrow> agent_recorded a \<Longrightarrow> node_valid n \<Longrightarrow> workspace_valid w'"
    by (auto simp: apply_agent_node_added_def result_iff place_node_valid split: if_splits)
  let ?all = "combine_layouts (all_canvas_layout w) before after"
  have "layout_valid after \<Longrightarrow> \<forall>n\<in>set (cl_nodes ?all). node_valid n"
    using workspace_validD(11) [OF assms]
    by (auto simp: combine_layouts_def canvas_layout_new_def all_canvas_layout_def layout_valid_def
        all_values_list list_all_iff Let_def)
  from install_layout_valid [OF assms this]
  show "apply_canvas_replaced w before after = Inr w' \<Longrightarrow> layout_valid after \<Longrightarrow> workspace_valid w'"
    by (auto simp: apply_canvas_replaced_def result_iff Let_def intro!: move_all_agents_valid split: if_splits)
qed

section \<open>Routines\<close>

text \<open>What routines and runs have besides their invariants, which \<open>ws_inv\<close> carries.\<close>

definition routine_texts :: "routine \<Rightarrow> bool" where
  "routine_texts r \<longleftrightarrow>
     name_valid (rt_name r) \<and> valid_option content_valid (rt_description r) \<and>
     list_all version_valid (rt_versions r) \<and> all_values trigger_valid (rt_triggers r)"

definition run_texts :: "routine_run \<Rightarrow> bool" where
  "run_texts r \<longleftrightarrow>
     valid_option (key_valid occurrence_key_new) (run_occurrence r) \<and> pin_valid (run_pin r) \<and>
     all_values step_run_valid (run_steps r)"

lemma routine_valid_iff: "routine_valid r \<longleftrightarrow> routine_texts r \<and> routine_wf r"
  by (auto simp: routine_valid_def routine_texts_def all_values_list list_all_iff)

lemma run_valid_iff: "run_valid r \<longleftrightarrow> run_texts r \<and> run_wf r"
  by (auto simp: run_valid_def run_texts_def all_values_list list_all_iff)

lemma workspace_valid_split:
  assumes "ws_inv w'" and "all_values routine_texts (w_routines w')" and "all_values run_texts (w_runs w')"
    and "workspace_valid (w'\<lparr>w_routines := bm_empty, w_runs := bm_empty\<rparr>)"
  shows "workspace_valid w'"
proof -
  have "routine_wf r" if "bm_get (w_routines w') k = Some r" for k r
    using ws_invD(9) [OF assms(1)] that by (auto simp: routines_ok_def)
  moreover have "run_wf r" if "bm_get (w_runs w') k = Some r" for k r
    using ws_invD(10) [OF assms(1)] that by (auto simp: runs_ok_def)
  ultimately have "all_values routine_valid (w_routines w')" "all_values run_valid (w_runs w')"
    using assms(2,3) by (auto simp: all_values_def routine_valid_iff run_valid_iff)
  with assms(4) show ?thesis by (simp add: workspace_valid_def)
qed

lemma schedule_next_valid: "schedule_valid s \<Longrightarrow> schedule_valid (s\<lparr>sch_next_occurrence := at\<rparr>)"
  by (cases s) (auto simp: schedule_valid_def routine_schedule_new_def res_bind_Inr_iff split: if_splits)

lemma trigger_changes_valid:
  "trigger_valid t \<Longrightarrow> trigger_valid (set_schedule_next at t)"
  "trigger_valid t \<Longrightarrow> trigger_valid (trigger_skip n t)"
  "trigger_valid t \<Longrightarrow> key_valid occurrence_key_new k \<Longrightarrow> trigger_fire k fired t = Inr t' \<Longrightarrow> trigger_valid t'"
  by (auto simp: trigger_valid_def set_schedule_next_def trigger_skip_def trigger_fire_def firing_valid_def
      schedule_next_valid trigger_kind_validate_def split: routine_trigger_kind.splits if_splits)

lemma put_routine_texts:
  assumes "workspace_valid w" and "routine_texts x" and "ws_inv (put_routine r x w)"
  shows "workspace_valid (put_routine r x w)"
  using assms(3)
proof (rule workspace_valid_split)
  show "all_values routine_texts (w_routines (put_routine r x w))" "all_values run_texts (w_runs (put_routine r x w))"
    "workspace_valid ((put_routine r x w)\<lparr>w_routines := bm_empty, w_runs := bm_empty\<rparr>)"
    using assms(1,2) by (auto simp: workspace_valid_def put_routine_def all_values_def routine_valid_iff run_valid_iff)
qed

lemma get_routine_texts: "workspace_valid w \<Longrightarrow> get_routine w r = Inr x \<Longrightarrow> routine_texts x"
  using workspace_validD(12) all_valuesD by (fastforce simp: get_routine_def get_or_Inr_iff routine_valid_iff)

lemma routine_trigger_valid: "routine_texts x \<Longrightarrow> routine_trigger_of x k = Some t \<Longrightarrow> trigger_valid t"
  by (auto simp: routine_texts_def routine_trigger_of_def dest: all_valuesD)

lemma put_trigger_texts: "routine_texts x \<Longrightarrow> trigger_valid t \<Longrightarrow>
    routine_texts (x\<lparr>rt_triggers := bm_insert k t (rt_triggers x)\<rparr>)"
  by (simp add: routine_texts_def)

lemma routine_events_valid:
  assumes "workspace_valid w" and "ws_inv w'"
  shows "apply_routine_added w x = Inr w' \<Longrightarrow> routine_valid x \<Longrightarrow> workspace_valid w'"
    and "apply_version_added w r v = Inr w' \<Longrightarrow> version_valid v \<Longrightarrow> workspace_valid w'"
    and "apply_routine_changed w r fn tn rfd rtd = Inr w' \<Longrightarrow> name_valid tn \<Longrightarrow>
      valid_option content_valid rtd \<Longrightarrow> workspace_valid w'"
    and "apply_trigger_changed w r tfrom tto = Inr w' \<Longrightarrow> trigger_valid tto \<Longrightarrow> workspace_valid w'"
    and "apply_trigger_removed w r t = Inr w' \<Longrightarrow> workspace_valid w'"
    and "apply_occurrences_skipped w r tid n next_at = Inr w' \<Longrightarrow> workspace_valid w'"
proof -
  note put = put_routine_texts [OF assms(1)]
  note get = get_routine_texts [OF assms(1)]
  show "apply_routine_added w x = Inr w' \<Longrightarrow> routine_valid x \<Longrightarrow> workspace_valid w'"
    using assms(2) put by (auto simp: apply_routine_added_def result_iff routine_valid_iff)
  show "apply_version_added w r v = Inr w' \<Longrightarrow> version_valid v \<Longrightarrow> workspace_valid w'"
    using assms(2) put get
    by (fastforce simp: apply_version_added_def result_iff push_version_def routine_texts_def split: if_splits)
  show "apply_routine_changed w r fn tn rfd rtd = Inr w' \<Longrightarrow> name_valid tn \<Longrightarrow>
      valid_option content_valid rtd \<Longrightarrow> workspace_valid w'"
    using assms(2) put get
    by (fastforce simp: apply_routine_changed_def result_iff set_appearance_def routine_texts_def split: if_splits)
  show "apply_trigger_changed w r tfrom tto = Inr w' \<Longrightarrow> trigger_valid tto \<Longrightarrow> workspace_valid w'"
    using assms(2) put get
    by (fastforce simp: apply_trigger_changed_def result_iff put_trigger_def intro: put_trigger_texts split: if_splits)
  show "apply_trigger_removed w r t = Inr w' \<Longrightarrow> workspace_valid w'"
    using assms(2) put get
    by (fastforce simp: apply_trigger_removed_def result_iff remove_trigger_def routine_texts_def split: if_splits)
  show "workspace_valid w'" if skipped: "apply_occurrences_skipped w r tid n next_at = Inr w'"
  proof -
    from skipped obtain x t where x: "get_routine w r = Inr x" "routine_trigger_of x tid = Some t"
      and w': "w' = put_routine r (x\<lparr>rt_triggers :=
        bm_insert tid (set_schedule_next next_at (trigger_skip n t)) (rt_triggers x)\<rparr>) w"
      by (auto simp: apply_occurrences_skipped_def result_iff)
    have "trigger_valid (set_schedule_next next_at (trigger_skip n t))"
      using trigger_changes_valid(1,2) routine_trigger_valid get x by blast
    then show ?thesis using put put_trigger_texts get x(1) assms(2) unfolding w' by blast
  qed
qed

section \<open>Runs\<close>

lemma skip_step_valid:
  assumes "all_values step_run_valid steps"
  shows "all_values step_run_valid (bm_update k (\<lambda>s. s\<lparr>sr_state := st\<rparr>) steps)"
  using assms by (rule all_values_update) (simp add: step_run_valid_def)

lemma skipped_steps_valid:
  assumes steps: "all_values step_run_valid steps"
  shows "all_values step_run_valid (skip_steps ids steps)" and "all_values step_run_valid (propagate_rounds n v steps)"
proof -
  have skip: "all_values step_run_valid (skip_steps ids steps)" if "all_values step_run_valid steps" for ids steps
    using that unfolding skip_steps_def by (induction ids arbitrary: steps) (simp_all add: skip_step_valid)
  from steps show "all_values step_run_valid (skip_steps ids steps)" by (rule skip)
  from steps show "all_values step_run_valid (propagate_rounds n v steps)"
    by (induction n v steps rule: propagate_rounds.induct) (auto simp: skip split: list.split)
qed

lemma propagate_skips_texts: "run_texts r \<Longrightarrow> run_texts (propagate_skips r)"
  by (simp add: run_texts_def propagate_skips_def skipped_steps_valid del: propagate_rounds.simps)

lemma put_step_texts: "run_texts r \<Longrightarrow> step_run_valid s \<Longrightarrow> run_texts (put_step sid s r)"
  by (simp add: run_texts_def put_step_def)

lemma step_mut_valid: "run_texts r \<Longrightarrow> step_mut r sid = Inr s \<Longrightarrow> step_run_valid s"
  by (auto simp: step_mut_def run_texts_def ok_or_Inr_iff dest: all_valuesD)

lemma step_got_valid: "run_texts r \<Longrightarrow> bm_get (run_steps r) sid = Some s \<Longrightarrow> step_run_valid s"
  by (auto simp: run_texts_def dest: all_valuesD)

lemma finish_attempt_valid:
  "step_run_valid s \<Longrightarrow> finish_attempt outcome at s = Inr s' \<Longrightarrow> step_run_valid s'"
  by (cases "sr_attempts s" rule: rev_cases)
    (auto simp: finish_attempt_def attempt_finish_def step_run_valid_def attempt_valid_def res_bind_Inr_iff
      split: if_splits)

lemma dispatch_texts:
  "run_texts r \<Longrightarrow> attempt_valid a \<Longrightarrow> dispatch sid a r = Inr r' \<Longrightarrow> run_texts r'"
  by (auto simp: dispatch_def result_iff Let_def step_run_valid_def split: if_splits
      intro!: put_step_texts dest: step_got_valid)

lemma attempt_edits_valid [simp]:
  "step_run_valid (s\<lparr>sr_state := st\<rparr>) = step_run_valid s"
  "step_run_valid (s\<lparr>sr_interruption := i\<rparr>) = step_run_valid s"
  by (simp_all add: step_run_valid_def)

lemma apply_transition_texts:
  assumes r: "run_texts r" and valid: "transition_valid t" and "apply_transition t r = Inr r'"
  shows "run_texts r'"
proof (cases t)
  case (RT_AwaitApproval sid)
  with assms show ?thesis
    by (auto simp: apply_transition_def require_approval_def result_iff
        intro!: put_step_texts dest: step_got_valid [OF r])
next
  case (RT_RecordApproval sid rec)
  have "step_run_valid (s\<lparr>sr_approval := Some rec, sr_state := st\<rparr>)" if "step_run_valid s" for s st
    using that valid RT_RecordApproval by (simp add: step_run_valid_def)
  with RT_RecordApproval assms(3) show ?thesis
    by (auto simp: apply_transition_def record_approval_def result_iff
        intro!: propagate_skips_texts put_step_texts [OF r] dest: step_got_valid [OF r]
        split: if_splits routine_approval_decision.splits)
next
  case (RT_CompleteStep sid outputs at)
  have "step_run_valid (s\<lparr>sr_outputs := outputs, sr_state := st\<rparr>)" if "step_run_valid s" for s st
    using that valid RT_CompleteStep by (simp add: step_run_valid_def)
  with RT_CompleteStep assms(3) show ?thesis
    by (auto simp: apply_transition_def complete_step_def result_iff Let_def
        intro!: put_step_texts [OF r] dest: step_got_valid [OF r] finish_attempt_valid [rotated]
        split: option.splits)
next
  case (RT_FailStep sid reason at)
  have "step_run_valid (failed_step st reason s)" if "step_run_valid s" for s st
    using that valid RT_FailStep by (simp add: step_run_valid_def failed_step_def)
  with RT_FailStep assms(3) show ?thesis
    by (auto simp: apply_transition_def fail_step_def result_iff Let_def
        intro!: propagate_skips_texts put_step_texts [OF r] dest: step_got_valid [OF r] finish_attempt_valid [rotated]
        split: if_splits)
next
  case (RT_InterruptStep sid reason at)
  with assms(3) show ?thesis
    by (auto simp: apply_transition_def interrupt_step_def result_iff step_run_valid_def
        intro!: put_step_texts [OF r] dest: step_got_valid [OF r])
next
  case (RT_ResolveInterruption sid at)
  with assms(3) show ?thesis
    by (auto simp: apply_transition_def resolve_interruption_def result_iff Let_def step_run_valid_def
        intro!: propagate_skips_texts put_step_texts [OF r] dest: step_got_valid [OF r] finish_attempt_valid [rotated]
        split: if_splits)
next
  case (RT_CancelStep sid reason at)
  have "step_run_valid (s\<lparr>sr_failure := reason\<rparr>)" if "step_run_valid s" for s
    using that valid RT_CancelStep by (simp add: step_run_valid_def)
  with RT_CancelStep assms(3) r show ?thesis
    by (auto simp: apply_transition_def cancel_step_def result_iff Let_def
        intro!: propagate_skips_texts put_step_texts [OF r] dest: step_got_valid [OF r] finish_attempt_valid [rotated]
        split: if_splits)
next
  case (RT_RequestCancellation at)
  with assms(3) r show ?thesis
    by (auto simp: apply_transition_def request_cancellation_def run_texts_def intro!: all_values_map split: if_splits)
next
  case (RT_Settle at)
  with assms(3) r show ?thesis
    by (auto simp: apply_transition_def settle_def run_texts_def Let_def split: if_splits prod.splits)
qed

lemma put_run_valid:
  assumes "workspace_valid w" and "run_texts r" and "ws_inv (w\<lparr>w_runs := bm_insert k r (w_runs w)\<rparr>)"
  shows "workspace_valid (w\<lparr>w_runs := bm_insert k r (w_runs w)\<rparr>)"
  using assms(3)
proof (rule workspace_valid_split)
  show "all_values routine_texts (w_routines (w\<lparr>w_runs := bm_insert k r (w_runs w)\<rparr>))"
    "all_values run_texts (w_runs (w\<lparr>w_runs := bm_insert k r (w_runs w)\<rparr>))"
    "workspace_valid (w\<lparr>w_runs := bm_insert k r (w_runs w), w_routines := bm_empty, w_runs := bm_empty\<rparr>)"
    using assms(1,2) by (auto simp: workspace_valid_def all_values_def routine_valid_iff run_valid_iff)
qed

lemma got_run_texts: "workspace_valid w \<Longrightarrow> bm_get (w_runs w) k = Some r \<Longrightarrow> run_texts r"
  using workspace_validD(13) [of w] by (auto simp: run_valid_iff dest: all_valuesD)

lemma consume_occurrence_texts:
  assumes "consume_occurrence w run x firing next_at = Inr w'" and "routine_texts x"
    and "valid_option firing_valid firing"
  shows "w' = w \<or> (\<exists>y. routine_texts y \<and> w' = put_routine (run_routine run) y w)"
proof -
  consider "w' = w" | tid f t t' where "firing = Some f" "routine_trigger_of x tid = Some t"
    "trigger_fire (fire_occurrence f) (fire_at f) t = Inr t'"
    "w' = put_routine (run_routine run)
       (x\<lparr>rt_triggers := bm_insert tid (set_schedule_next next_at t') (rt_triggers x)\<rparr>) w"
    using assms(1) by (auto simp: consume_occurrence_def result_iff split: option.splits if_splits)
  then show ?thesis
  proof cases
    case 2
    have "trigger_valid (set_schedule_next next_at t')"
      using trigger_changes_valid(1,3) routine_trigger_valid [OF assms(2) 2(2)] assms(3) 2(1,3)
      by (auto simp: firing_valid_def)
    with 2(4) put_trigger_texts [OF assms(2)] show ?thesis by blast
  qed blast
qed

lemma run_events_valid:
  assumes w: "workspace_valid w" and inv: "ws_inv w'"
  shows "apply_run_started w run firing next_at = Inr w' \<Longrightarrow> run_valid run \<Longrightarrow>
      valid_option firing_valid firing \<Longrightarrow> workspace_valid w'"
    and "apply_run_advanced w q tr = Inr w' \<Longrightarrow> transition_valid tr \<Longrightarrow> workspace_valid w'"
    and "apply_step_dispatched w q sid a tk h = Inr w' \<Longrightarrow> attempt_valid a \<Longrightarrow> task_recorded tk \<Longrightarrow>
      handoff_recorded h \<Longrightarrow> workspace_valid w'"
proof -
  show "workspace_valid w'" if "apply_run_started w run firing next_at = Inr w'" "run_valid run"
    "valid_option firing_valid firing"
  proof -
    from that(1) obtain x v where x: "get_routine w (run_routine run) = Inr x"
      and v: "consume_occurrence w run x firing next_at = Inr v" and w': "w' = insert_run run v"
      by (auto simp: apply_run_started_def res_bind_Inr_iff split: if_splits option.splits)
    have "all_values run_texts (w_runs w)" "all_values routine_texts (w_routines w)"
      using workspace_validD(12,13) [OF w] by (auto simp: all_values_def routine_valid_iff run_valid_iff)
    with consume_occurrence_texts [OF v get_routine_texts [OF w x] that(3)] that(2) w
    show ?thesis
      by (intro workspace_valid_split [OF inv])
        (auto simp: w' insert_run_def put_routine_def run_valid_iff workspace_valid_def)
  qed
  show "workspace_valid w'" if "apply_run_advanced w q tr = Inr w'" "transition_valid tr"
  proof -
    from that(1) obtain r r' where "bm_get (w_runs w) q = Some r" "apply_transition tr r = Inr r'"
      and w': "w' = w\<lparr>w_runs := bm_insert q r' (w_runs w)\<rparr>"
      by (auto simp: apply_run_advanced_def result_iff)
    then have "run_texts r'" using apply_transition_texts got_run_texts [OF w] that(2) by blast
    then show ?thesis using put_run_valid [OF w] inv unfolding w' by blast
  qed
  show "workspace_valid w'" if "apply_step_dispatched w q sid a tk h = Inr w'" "attempt_valid a"
    "task_recorded tk" "handoff_recorded h"
  proof -
    from that(1) obtain r r' where "bm_get (w_runs w) q = Some r" "dispatch sid a r = Inr r'"
      and w': "w' = insert_handoff h (insert_task tk (w\<lparr>w_runs := bm_insert q r' (w_runs w)\<rparr>))"
      by (auto simp: apply_step_dispatched_def result_iff)
    then have "run_texts r'" using dispatch_texts got_run_texts [OF w] that(2) by blast
    moreover have "all_values run_texts (w_runs w)" "all_values routine_texts (w_routines w)"
      using workspace_validD(12,13) [OF w] by (auto simp: all_values_def routine_valid_iff run_valid_iff)
    ultimately show ?thesis
      using w that(3,4) by (intro workspace_valid_split [OF inv])
        (auto simp: w' insert_handoff_def insert_task_def task_recorded_def workspace_valid_def)
  qed
qed

section \<open>Every event\<close>

theorem apply_event_valid:
  assumes "workspace_valid w" and "ws_inv w'" and "event_valid e" and "apply_event w e = Inr w'"
  shows "workspace_valid w'"
  using assms(3,4)
  by (cases e)
    (simp_all add: apply_event_def config_events_valid [OF assms(1)] agent_events_valid [OF assms(1)]
      chat_events_valid [OF assms(1)] task_events_valid [OF assms(1)] canvas_events_valid [OF assms(1)]
      routine_events_valid [OF assms(1,2)] run_events_valid [OF assms(1,2)])

end
