(* ===== verification/Storable.thy ===== *)
theory Storable
  imports Workspace_Valid
begin

text \<open>Workspaces a snapshot describes exactly, and the events that keep them so.\<close>

section \<open>Drafts\<close>

text \<open>\<open>ChatDraft::is_empty\<close> ignores blanks; an event of this kind leaves such a draft behind.\<close>

definition blanks_draft :: "domain_event \<Rightarrow> bool" where
  "blanks_draft e =
     (case e of
        EV_ChatDraftChanged t old new \<Rightarrow> chat_draft_is_empty new \<and> new \<noteq> chat_draft_default
      | _ \<Rightarrow> False)"

lemma thread_frames [simp]:
  "w_threads (archive_agent a w) = w_threads w" "w_threads (restore_agent a w) = w_threads w"
  "w_threads (place_node n w) = w_threads w" "w_threads (update_recorded_agent a f w) = w_threads w"
  "w_threads (insert_handoff h w) = w_threads w" "w_threads (insert_task t w) = w_threads w"
  "w_threads (insert_run r w) = w_threads w" "w_threads (put_routine i x w) = w_threads w"
  "w_threads (set_task_state k s w) = w_threads w"
  by (auto simp: archive_agent_def restore_agent_def place_node_def update_recorded_agent_def
      insert_handoff_def insert_task_def insert_run_def put_routine_def set_task_state_def Let_def
      split: option.split)

lemma thread_folds [simp]:
  "w_threads (fold archive_agent as w) = w_threads w" "w_threads (fold restore_agent as w) = w_threads w"
  by (induction as arbitrary: w) simp_all

lemma config_events_threads:
  shows "apply_floors_changed w f g = Inr w' \<Longrightarrow> w_threads w' = w_threads w"
    and "apply_settings_changed w s s' = Inr w' \<Longrightarrow> w_threads w' = w_threads w"
    and "apply_profile_added w p = Inr w' \<Longrightarrow> w_threads w' = w_threads w"
    and "apply_profile_changed w p p' = Inr w' \<Longrightarrow> w_threads w' = w_threads w"
    and "apply_profile_removed w p = Inr w' \<Longrightarrow> w_threads w' = w_threads w"
    and "apply_preset_added w q = Inr w' \<Longrightarrow> w_threads w' = w_threads w"
    and "apply_preset_changed w q q' = Inr w' \<Longrightarrow> w_threads w' = w_threads w"
    and "apply_preset_removed w q = Inr w' \<Longrightarrow> w_threads w' = w_threads w"
    and "apply_role_added w r = Inr w' \<Longrightarrow> w_threads w' = w_threads w"
    and "apply_role_changed w r r' = Inr w' \<Longrightarrow> w_threads w' = w_threads w"
    and "apply_role_removed w r = Inr w' \<Longrightarrow> w_threads w' = w_threads w"
    and "apply_agent_role_changed w a fr tr = Inr w' \<Longrightarrow> w_threads w' = w_threads w"
    and "apply_agent_renamed w a fn tn = Inr w' \<Longrightarrow> w_threads w' = w_threads w"
    and "apply_agent_state_changed w a fs ts = Inr w' \<Longrightarrow> w_threads w' = w_threads w"
    and "apply_agent_added w ag = Inr w' \<Longrightarrow> w_threads w' = w_threads w"
    and "apply_attachment_added w att = Inr w' \<Longrightarrow> w_threads w' = w_threads w"
  by (auto simp: apply_floors_changed_def apply_settings_changed_def apply_profile_added_def
      apply_profile_changed_def apply_profile_removed_def apply_preset_added_def apply_preset_changed_def
      apply_preset_removed_def apply_role_added_def apply_role_changed_def apply_role_removed_def
      apply_agent_role_changed_def apply_agent_renamed_def apply_agent_state_changed_def
      apply_agent_added_def apply_attachment_added_def result_iff split: if_splits option.splits)

lemma task_canvas_events_threads:
  shows "apply_task_added w tk = Inr w' \<Longrightarrow> w_threads w' = w_threads w"
    and "apply_handoff_added w h = Inr w' \<Longrightarrow> w_threads w' = w_threads w"
    and "apply_task_handoff_added w tk h = Inr w' \<Longrightarrow> w_threads w' = w_threads w"
    and "apply_handoff_changed w h h' = Inr w' \<Longrightarrow> w_threads w' = w_threads w"
    and "apply_task_cancelled w k fs h h' = Inr w' \<Longrightarrow> w_threads w' = w_threads w"
    and "apply_task_resumed w k fs h = Inr w' \<Longrightarrow> w_threads w' = w_threads w"
    and "apply_task_state_changed w k fs ts = Inr w' \<Longrightarrow> w_threads w' = w_threads w"
    and "apply_node_added w n = Inr w' \<Longrightarrow> w_threads w' = w_threads w"
    and "apply_agent_node_added w a n = Inr w' \<Longrightarrow> w_threads w' = w_threads w"
    and "apply_canvas_replaced w before after = Inr w' \<Longrightarrow> w_threads w' = w_threads w"
  by (auto simp: apply_task_added_def apply_handoff_added_def apply_task_handoff_added_def
      apply_handoff_changed_def apply_task_cancelled_def apply_task_resumed_def apply_task_state_changed_def
      apply_node_added_def apply_agent_node_added_def apply_canvas_replaced_def restore_placed_agents_def
      archive_unplaced_agents_def install_layout_def Let_def res_bind_Inr_iff split: if_splits)

lemma routine_events_threads:
  shows "apply_routine_added w x = Inr w' \<Longrightarrow> w_threads w' = w_threads w"
    and "apply_version_added w r v = Inr w' \<Longrightarrow> w_threads w' = w_threads w"
    and "apply_routine_changed w r fn tn rfd rtd = Inr w' \<Longrightarrow> w_threads w' = w_threads w"
    and "apply_trigger_changed w r tfrom tto = Inr w' \<Longrightarrow> w_threads w' = w_threads w"
    and "apply_trigger_removed w r t = Inr w' \<Longrightarrow> w_threads w' = w_threads w"
    and "apply_occurrences_skipped w r tid n next_at = Inr w' \<Longrightarrow> w_threads w' = w_threads w"
    and "apply_run_started w run firing next_at = Inr w' \<Longrightarrow> w_threads w' = w_threads w"
    and "apply_run_advanced w q t' = Inr w' \<Longrightarrow> w_threads w' = w_threads w"
    and "apply_step_dispatched w q s a tk h = Inr w' \<Longrightarrow> w_threads w' = w_threads w"
  by (auto simp: apply_routine_added_def apply_version_added_def apply_routine_changed_def
      apply_trigger_changed_def apply_trigger_removed_def apply_occurrences_skipped_def
      apply_run_started_def consume_occurrence_def apply_run_advanced_def apply_step_dispatched_def
      res_bind_Inr_iff split: if_splits option.splits)

lemma put_thread_drafts:
  assumes "keeps_drafts w" and "chat_draft_is_empty (th_draft x) \<longrightarrow> th_draft x = chat_draft_default"
  shows "keeps_drafts (put_thread t x w)"
  using assms by (simp add: keeps_drafts_def put_thread_def)

lemma get_thread_drafts:
  "keeps_drafts w \<Longrightarrow> get_thread w t = Inr x \<Longrightarrow>
     chat_draft_is_empty (th_draft x) \<longrightarrow> th_draft x = chat_draft_default"
  by (auto simp: keeps_drafts_def get_thread_def get_or_Inr_iff dest: all_valuesD)

lemma chat_events_drafts:
  assumes "keeps_drafts w"
  shows "apply_thread_added w th = Inr w' \<Longrightarrow> thread_recorded th \<Longrightarrow> keeps_drafts w'"
    and "apply_thread_changed w t tf tt fc tc = Inr w' \<Longrightarrow> keeps_drafts w'"
    and "apply_draft_changed w t fd td = Inr w' \<Longrightarrow> \<not> (chat_draft_is_empty td \<and> td \<noteq> chat_draft_default) \<Longrightarrow>
      keeps_drafts w'"
    and "apply_draft_submitted w t d m = Inr w' \<Longrightarrow> keeps_drafts w'"
    and "apply_message_appended w m = Inr w' \<Longrightarrow> keeps_drafts w'"
proof -
  note put = put_thread_drafts [OF assms]
  note get = get_thread_drafts [OF assms]
  have opened: "thread_recorded th \<Longrightarrow> th_draft th = chat_draft_default"
    by (cases th) (simp add: thread_recorded_def opened_def)
  show "apply_thread_added w th = Inr w' \<Longrightarrow> thread_recorded th \<Longrightarrow> keeps_drafts w'"
    by (auto simp: apply_thread_added_def result_iff opened intro!: put split: if_splits)
  show "apply_thread_changed w t tf tt fc tc = Inr w' \<Longrightarrow> keeps_drafts w'"
    using get by (auto simp: apply_thread_changed_def result_iff set_thread_appearance_def intro!: put split: if_splits)
  show "apply_draft_changed w t fd td = Inr w' \<Longrightarrow> \<not> (chat_draft_is_empty td \<and> td \<noteq> chat_draft_default) \<Longrightarrow>
      keeps_drafts w'"
    by (auto simp: apply_draft_changed_def result_iff set_draft_def intro!: put split: if_splits)
  show "apply_draft_submitted w t d m = Inr w' \<Longrightarrow> keeps_drafts w'"
    by (auto simp: apply_draft_submitted_def result_iff set_draft_def intro!: put split: if_splits)
  show "apply_message_appended w m = Inr w' \<Longrightarrow> keeps_drafts w'"
    using get by (auto simp: apply_message_appended_def result_iff push_message_def intro!: put split: if_splits)
qed

lemma same_threads_drafts: "w_threads w' = w_threads w \<Longrightarrow> keeps_drafts w \<Longrightarrow> keeps_drafts w'"
  by (simp add: keeps_drafts_def)

lemma apply_event_drafts:
  assumes "keeps_drafts w" and "event_valid e" and "\<not> blanks_draft e" and "apply_event w e = Inr w'"
  shows "keeps_drafts w'"
  using assms(2-4)
  by (cases e)
    (simp_all add: apply_event_def blanks_draft_def chat_events_drafts [OF assms(1)]
      same_threads_drafts [OF config_events_threads(1) assms(1)] same_threads_drafts [OF config_events_threads(2) assms(1)]
      same_threads_drafts [OF _ assms(1)] config_events_threads task_canvas_events_threads routine_events_threads)

section \<open>Storable workspaces\<close>

definition storable :: "workspace \<Rightarrow> bool" where
  "storable w \<longleftrightarrow> ws_inv w \<and> workspace_valid w \<and> keeps_drafts w"

definition recordable :: "domain_event \<Rightarrow> bool" where
  "recordable e \<longleftrightarrow> admissible e \<and> event_valid e \<and> \<not> blanks_draft e"

lemma storable_new: "name_valid nm \<Longrightarrow> storable (workspace_new wid nm)"
  by (simp add: storable_def workspace_new_inv)
    (simp add: workspace_valid_def keeps_drafts_def workspace_new_def settings_valid_def floors_valid_def
      floors_default_def bm_values_def)

lemma storable_step:
  "storable w \<Longrightarrow> recordable e \<Longrightarrow> apply_event w e = Inr w' \<Longrightarrow> storable w'"
  unfolding storable_def recordable_def
  using apply_event_inv apply_event_valid apply_event_drafts by metis

lemma storable_fold:
  "try_fold apply_event w es = Inr w' \<Longrightarrow> storable w \<Longrightarrow> \<forall>e\<in>set es. recordable e \<Longrightarrow> storable w'"
  by (induction es arbitrary: w) (auto simp: res_bind_Inr_iff dest: storable_step)

lemma snapshot_of_storable:
  "storable w \<Longrightarrow> read_workspace snapshot_format_version (save_workspace w) = Inr v \<Longrightarrow> v = w"
  unfolding storable_def by (rule snapshot_exact) simp_all

end
