(* ===== verification/Snapshot_Plain.thy ===== *)
theory Snapshot_Plain
  imports Storable
begin

text \<open>Snapshots that read: those of a workspace with nothing but settings and agents.\<close>

definition only_agents :: "workspace \<Rightarrow> bool" where
  "only_agents w \<longleftrightarrow> w = (unfilled w)\<lparr>w_agents := w_agents w\<rparr>"

lemma restore_settings_back:
  assumes "settings_valid (w_settings w)"
  shows "restore_settings (save_workspace w) = Inr (unfilled w)"
proof -
  let ?w = "workspace_new (w_id w) (ws_name (w_settings w))"
  have read: "read_settings (save_settings (w_settings w)) = Inr (w_settings w)"
    using assms by (rule settings_form.reads_back)
  show ?thesis
  proof (cases "w_settings ?w = w_settings w")
    case True
    then have "unfilled w = ?w" by (cases ?w) (simp add: unfilled_def)
    with True read show ?thesis by (simp add: restore_settings_def save_workspace_def save_settings_def Let_def)
  next
    case False
    then have "apply_snapshot_command ?w (DC_UpdateWorkspaceSettings (w_settings w)) = Inr (unfilled w)"
      by (auto simp: apply_snapshot_command_Inr_iff decide_def decide_settings_def apply_event_def
        apply_settings_changed_def unfilled_def ensure_def)
    with False read show ?thesis
      by (simp add: restore_settings_def save_workspace_def save_settings_def Let_def)
  qed
qed

lemma read_only_agents:
  assumes "only_agents w" and "settings_valid (w_settings w)"
    and "try_fold restore_agent_v1 (unfilled w) (map save_agent (bm_values (w_agents w))) = Inr w"
  shows "read_workspace snapshot_format_version (save_workspace w) = Inr w"
proof -
  have w: "w = (unfilled w)\<lparr>w_agents := w_agents w\<rparr>" using assms(1) by (simp only: only_agents_def)
  have fields: "w_profiles w = bm_empty" "w_presets w = bm_empty" "w_roles w = bm_empty" "w_archived w = bm_empty"
    "w_threads w = bm_empty" "w_attachments w = bm_empty" "w_tasks w = bm_empty" "w_handoffs w = bm_empty"
    "w_nodes w = bm_empty" "w_groups w = bm_empty" "w_connections w = bm_empty" "w_routines w = bm_empty"
    "w_runs w = bm_empty" "w_floors w = floors_default"
    by (subst w, simp)+
  have stored: "sw_profiles (save_workspace w) = []" "sw_presets (save_workspace w) = []"
    "sw_roles (save_workspace w) = []" "sw_agents (save_workspace w) = map save_agent (bm_values (w_agents w))"
    "sw_archived_agents (save_workspace w) = []" "sw_chat_threads (save_workspace w) = []"
    "sw_chat_attachments (save_workspace w) = []" "sw_tasks (save_workspace w) = []"
    "sw_handoffs (save_workspace w) = []" "sw_nodes (save_workspace w) = []" "sw_groups (save_workspace w) = []"
    "sw_connections (save_workspace w) = []" "sw_routines (save_workspace w) = []"
    "sw_routine_runs (save_workspace w) = []" "sw_floors (save_workspace w) = save_floors floors_default"
    by (simp_all add: save_workspace_def fields recorded_agents_def bm_values_def)
  have floors: "read_floors (save_floors floors_default) = Inr floors_default"
    by (rule floors_form.reads_back) (simp add: floors_valid_def floors_default_def bm_values_def)
  have "restore_settings (save_workspace w) = Inr (unfilled w)" using assms(2) by (rule restore_settings_back)
  moreover have "restore_config 12 (save_workspace w) (unfilled w) = Inr w"
    using assms(3) by (simp add: restore_config_def stored restore_all_def)
  moreover have "canvas_layout w = canvas_layout_new [] [] []"
    by (simp add: canvas_layout_def fields bm_values_def)
  then have "restore_work (save_workspace w) w = Inr w"
    by (simp add: restore_work_def stored restore_all_def restore_ready.simps restore_graph_def
        canvas_layout_new_def canvas_layout_eq_def)
  ultimately show ?thesis
    by (simp add: read_workspace_def snapshot_too_new_def snapshot_format_version_def restore_chats_def stored
        restore_all_def restore_floors_def floors restore_archived_def archive_unplaced_agents_def)
qed

lemma read_only_settings:
  assumes "settings_valid s"
  shows "read_workspace snapshot_format_version (save_workspace ((workspace_new wid nm)\<lparr>w_settings := s\<rparr>)) =
    Inr ((workspace_new wid nm)\<lparr>w_settings := s\<rparr>)"
proof (rule read_only_agents)
  let ?w = "(workspace_new wid nm)\<lparr>w_settings := s\<rparr>"
  have "unfilled ?w = ?w" by (simp add: unfilled_def workspace_new_def)
  then show "only_agents ?w" "try_fold restore_agent_v1 (unfilled ?w) (map save_agent (bm_values (w_agents ?w))) = Inr ?w"
    by (simp_all add: only_agents_def bm_values_def) (simp_all add: workspace_new_def)
qed (use assms in simp)

section \<open>Settings from their constructors\<close>

lemma new_texts_valid:
  "name_new s = Inr x \<Longrightarrow> name_valid x"
  "content_new s = Inr c \<Longrightarrow> content_valid c"
  "workspace_icon_new s = Inr i \<Longrightarrow> icon_valid i"
  by (auto simp: name_valid_def content_valid_def icon_valid_def name_new_Inr_iff content_new_Inr_iff
      workspace_icon_new_def Let_def split: if_splits)

lemma settings_event_recordable:
  "settings_valid s \<Longrightarrow> settings_valid s' \<Longrightarrow> recordable (EV_WorkspaceSettingsChanged s s')"
  by (simp add: recordable_def admissible_def blanks_draft_def)

end
