(* ===== verification/Journal_Recovery.thy ===== *)
theory Journal_Recovery
  imports Journal Snapshot_Plain Workspace_Sample
begin

text \<open>
  What recovery gives back: after any batches for this and other workspaces, failed transactions
  and damaged snapshots, the newest readable snapshot and the events after it rebuild the
  workspace the program held in memory.
\<close>

section \<open>Events keep the identifier\<close>

lemma id_frames [simp]:
  "w_id (archive_agent a w) = w_id w" "w_id (restore_agent a w) = w_id w"
  "w_id (place_node n w) = w_id w" "w_id (update_recorded_agent a f w) = w_id w"
  "w_id (insert_handoff h w) = w_id w" "w_id (insert_task t w) = w_id w"
  "w_id (insert_run r w) = w_id w" "w_id (put_routine i x w) = w_id w"
  by (auto simp: archive_agent_def restore_agent_def place_node_def update_recorded_agent_def
      insert_handoff_def insert_task_def insert_run_def put_routine_def Let_def split: option.split)

lemma id_folds [simp]:
  "w_id (fold archive_agent as w) = w_id w" "w_id (fold restore_agent as w) = w_id w"
  by (induction as arbitrary: w) simp_all

lemma config_events_id:
  shows "apply_floors_changed w f g = Inr w' \<Longrightarrow> w_id w' = w_id w"
    and "apply_settings_changed w s s' = Inr w' \<Longrightarrow> w_id w' = w_id w"
    and "apply_profile_added w p = Inr w' \<Longrightarrow> w_id w' = w_id w"
    and "apply_profile_changed w p p' = Inr w' \<Longrightarrow> w_id w' = w_id w"
    and "apply_profile_removed w p = Inr w' \<Longrightarrow> w_id w' = w_id w"
    and "apply_preset_added w q = Inr w' \<Longrightarrow> w_id w' = w_id w"
    and "apply_preset_changed w q q' = Inr w' \<Longrightarrow> w_id w' = w_id w"
    and "apply_preset_removed w q = Inr w' \<Longrightarrow> w_id w' = w_id w"
    and "apply_role_added w r = Inr w' \<Longrightarrow> w_id w' = w_id w"
    and "apply_role_changed w r r' = Inr w' \<Longrightarrow> w_id w' = w_id w"
    and "apply_role_removed w r = Inr w' \<Longrightarrow> w_id w' = w_id w"
  by (auto simp: apply_floors_changed_def apply_settings_changed_def apply_profile_added_def
      apply_profile_changed_def apply_profile_removed_def apply_preset_added_def apply_preset_changed_def
      apply_preset_removed_def apply_role_added_def apply_role_changed_def apply_role_removed_def
      result_iff split: if_splits option.splits)

lemma agent_chat_events_id:
  shows "apply_agent_role_changed w a fr tr = Inr w' \<Longrightarrow> w_id w' = w_id w"
    and "apply_agent_renamed w a fn tn = Inr w' \<Longrightarrow> w_id w' = w_id w"
    and "apply_agent_state_changed w a fs ts = Inr w' \<Longrightarrow> w_id w' = w_id w"
    and "apply_agent_added w ag = Inr w' \<Longrightarrow> w_id w' = w_id w"
    and "apply_thread_added w th = Inr w' \<Longrightarrow> w_id w' = w_id w"
    and "apply_thread_changed w t tf tt fc tc = Inr w' \<Longrightarrow> w_id w' = w_id w"
    and "apply_attachment_added w att = Inr w' \<Longrightarrow> w_id w' = w_id w"
    and "apply_draft_changed w t fd td = Inr w' \<Longrightarrow> w_id w' = w_id w"
    and "apply_draft_submitted w t d m = Inr w' \<Longrightarrow> w_id w' = w_id w"
    and "apply_message_appended w m = Inr w' \<Longrightarrow> w_id w' = w_id w"
  by (auto simp: apply_agent_role_changed_def apply_agent_renamed_def apply_agent_state_changed_def
      apply_agent_added_def apply_thread_added_def apply_thread_changed_def apply_attachment_added_def
      apply_draft_changed_def apply_draft_submitted_def apply_message_appended_def put_thread_def
      result_iff split: if_splits)

lemma task_canvas_events_id:
  shows "apply_task_added w tk = Inr w' \<Longrightarrow> w_id w' = w_id w"
    and "apply_handoff_added w h = Inr w' \<Longrightarrow> w_id w' = w_id w"
    and "apply_task_handoff_added w tk h = Inr w' \<Longrightarrow> w_id w' = w_id w"
    and "apply_handoff_changed w h h' = Inr w' \<Longrightarrow> w_id w' = w_id w"
    and "apply_task_cancelled w k from h h' = Inr w' \<Longrightarrow> w_id w' = w_id w"
    and "apply_task_resumed w k from h = Inr w' \<Longrightarrow> w_id w' = w_id w"
    and "apply_task_state_changed w k from to = Inr w' \<Longrightarrow> w_id w' = w_id w"
    and "apply_node_added w n = Inr w' \<Longrightarrow> w_id w' = w_id w"
    and "apply_agent_node_added w a n = Inr w' \<Longrightarrow> w_id w' = w_id w"
    and "apply_canvas_replaced w before after = Inr w' \<Longrightarrow> w_id w' = w_id w"
  by (auto simp: apply_task_added_def apply_handoff_added_def apply_task_handoff_added_def
      apply_handoff_changed_def apply_task_cancelled_def apply_task_resumed_def
      apply_task_state_changed_def set_task_state_def apply_node_added_def apply_agent_node_added_def
      apply_canvas_replaced_def restore_placed_agents_def archive_unplaced_agents_def install_layout_def
      Let_def res_bind_Inr_iff split: if_splits)

lemma routine_events_id:
  shows "apply_routine_added w x = Inr w' \<Longrightarrow> w_id w' = w_id w"
    and "apply_version_added w r v = Inr w' \<Longrightarrow> w_id w' = w_id w"
    and "apply_routine_changed w r fn tn rfd rtd = Inr w' \<Longrightarrow> w_id w' = w_id w"
    and "apply_trigger_changed w r tfrom tto = Inr w' \<Longrightarrow> w_id w' = w_id w"
    and "apply_trigger_removed w r t = Inr w' \<Longrightarrow> w_id w' = w_id w"
    and "apply_occurrences_skipped w r tid n next_at = Inr w' \<Longrightarrow> w_id w' = w_id w"
    and "apply_run_started w run firing next_at = Inr w' \<Longrightarrow> w_id w' = w_id w"
    and "apply_run_advanced w q t' = Inr w' \<Longrightarrow> w_id w' = w_id w"
    and "apply_step_dispatched w q s a tk h = Inr w' \<Longrightarrow> w_id w' = w_id w"
  by (auto simp: apply_routine_added_def apply_version_added_def apply_routine_changed_def
      apply_trigger_changed_def apply_trigger_removed_def apply_occurrences_skipped_def
      apply_run_started_def consume_occurrence_def apply_run_advanced_def apply_step_dispatched_def
      res_bind_Inr_iff split: if_splits option.splits)

lemma apply_event_id: "apply_event w e = Inr w' \<Longrightarrow> w_id w' = w_id w"
  by (cases e) (simp_all add: apply_event_def config_events_id agent_chat_events_id
      task_canvas_events_id routine_events_id)

lemma execute_id: "execute w c = Inr (w', e) \<Longrightarrow> w_id w' = w_id w"
  using execute_applies apply_event_id by blast

section \<open>Faithful encodings\<close>

text \<open>What recovery relies on: the JSON library reads what it wrote.\<close>

definition faithful :: "codec \<Rightarrow> bool" where
  "faithful cd \<longleftrightarrow>
     (\<forall>s p. cd_write_workspace cd s = Some p \<longrightarrow> cd_read_workspace cd p = Some s) \<and>
     (\<forall>s p. cd_write_event cd s = Some p \<longrightarrow> cd_read_event cd p = Some s)"

lemma decode_encoded_event:
  "faithful cd \<Longrightarrow> encode_event cd e = Inr p \<Longrightarrow> event_valid e \<Longrightarrow>
     decode_event cd p n event_format_version = Inr e"
  by (auto simp: faithful_def encode_event_def decode_event_def ok_or_Inr_iff read_save_current_event)

lemma decode_encoded_workspace:
  "faithful cd \<Longrightarrow> encode_workspace cd w = Inr p \<Longrightarrow>
     decode_workspace cd p n snapshot_format_version =
       map_err (\<lambda>_. PE_InvalidRecord ''workspace snapshot'' n) (read_workspace snapshot_format_version (save_workspace w))"
  by (auto simp: faithful_def encode_workspace_def decode_workspace_def ok_or_Inr_iff)

lemma decode_new_rows:
  assumes "faithful cd"
  shows "encode_event cd e = Inr p \<Longrightarrow> event_valid e \<Longrightarrow>
      decode_event_row cd (workspace_key wid) wid (new_event_row cd wid at n p) =
      Inr \<lparr>te_id = Id (of_nat n), te_workspace = wid, te_occurred_at = at, te_event = e\<rparr>"
    and "encode_workspace cd w = Inr q \<Longrightarrow> w_id w = wid \<Longrightarrow> storable w \<Longrightarrow>
      decode_snapshot cd (workspace_key wid) wid (new_snapshot_row cd wid n q) = Inr v \<Longrightarrow> v = w"
    and "encode_workspace cd w = Inr q \<Longrightarrow> w_id w = wid \<Longrightarrow> storable w \<Longrightarrow>
      read_workspace snapshot_format_version (save_workspace w) = Inr v \<Longrightarrow>
      decode_snapshot cd (workspace_key wid) wid (new_snapshot_row cd wid n q) = Inr v"
proof -
  have versions: "event_format_version \<noteq> 0" "snapshot_format_version \<noteq> 0"
    by (simp_all add: event_format_version_def snapshot_format_version_def)
  show "encode_event cd e = Inr p \<Longrightarrow> event_valid e \<Longrightarrow>
      decode_event_row cd (workspace_key wid) wid (new_event_row cd wid at n p) =
      Inr \<lparr>te_id = Id (of_nat n), te_workspace = wid, te_occurred_at = at, te_event = e\<rparr>"
    by (simp add: decode_event_row_def new_event_row_def versions ok_or_def decode_encoded_event [OF assms])
  show "encode_workspace cd w = Inr q \<Longrightarrow> w_id w = wid \<Longrightarrow> storable w \<Longrightarrow>
      decode_snapshot cd (workspace_key wid) wid (new_snapshot_row cd wid n q) = Inr v \<Longrightarrow> v = w"
    by (auto simp: decode_snapshot_def new_snapshot_row_def versions decode_encoded_workspace [OF assms]
        res_bind_Inr_iff map_err_Inr_iff dest: snapshot_of_storable split: if_splits)
  show "encode_workspace cd w = Inr q \<Longrightarrow> w_id w = wid \<Longrightarrow> storable w \<Longrightarrow>
      read_workspace snapshot_format_version (save_workspace w) = Inr v \<Longrightarrow>
      decode_snapshot cd (workspace_key wid) wid (new_snapshot_row cd wid n q) = Inr v"
    by (frule (1) snapshot_of_storable)
      (simp add: decode_snapshot_def new_snapshot_row_def versions decode_encoded_workspace [OF assms] map_err_def)
qed

lemma replay_new_row:
  assumes "faithful cd" and "encode_event cd e = Inr p" and "event_valid e" and "apply_event w e = Inr w'"
  shows "replay_row cd (workspace_key (w_id w)) (w_id w) w (new_event_row cd (w_id w) at n p) = Inr w'"
  using decode_new_rows(1) [OF assms(1-3)] assms(4) by (simp add: replay_row_def replay_def map_err_def)

section \<open>One batch\<close>

text \<open>The loop over the commands, as a chain of applied events with their encodings.\<close>

lemma plan_commands:
  assumes "try_fold (plan_command cd) (w, first, acc) cs = Inr (w', first', records)"
  shows "\<exists>new. records = acc @ new \<and> length new = length cs \<and>
    (\<forall>(p, e)\<in>set new. encode_event cd e = Inr p) \<and>
    try_fold apply_event w (map snd new) = Inr w' \<and>
    (\<forall>log. try_fold (run_logged execute) (w, log) cs = Inr (w', log @ map snd new)) \<and>
    (case first of Some p \<Rightarrow> first' = Some p
     | None \<Rightarrow> if new = [] then first' = None
         else \<exists>v p. apply_event w (snd (hd new)) = Inr v \<and> encode_workspace cd v = Inr p \<and> first' = Some p)"
  using assms
proof (induction cs arbitrary: w first acc)
  case (Cons c cs)
  then obtain v f r where step: "plan_command cd (w, first, acc) c = Inr (v, f, r)"
    and rest: "try_fold (plan_command cd) (v, f, r) cs = Inr (w', first', records)"
    by (auto simp: res_bind_Inr_iff)
  from step obtain e p where e: "execute w c = Inr (v, e)" "encode_event cd e = Inr p" "r = acc @ [(p, e)]"
    and f: "case first of Some q \<Rightarrow> f = Some q | None \<Rightarrow> \<exists>q. encode_workspace cd v = Inr q \<and> f = Some q"
    by (auto simp: plan_command_def res_bind_Inr_iff map_err_Inr_iff split: option.splits)
  from Cons.IH [OF rest] obtain new where new: "records = r @ new" "length new = length cs"
    "\<forall>(p, e)\<in>set new. encode_event cd e = Inr p" "try_fold apply_event v (map snd new) = Inr w'"
    "\<forall>log. try_fold (run_logged execute) (v, log) cs = Inr (w', log @ map snd new)" "first' = f"
    using f by (auto split: option.splits)
  show ?case
    using e new f execute_applies [OF e(1)]
    by (intro exI [of _ "(p, e) # new"]) (auto simp: run_logged_def split: option.splits)
qed (auto split: option.split)

definition journal_ordered :: "journal \<Rightarrow> bool" where
  "journal_ordered j \<longleftrightarrow> sorted_wrt (<) (map er_sequence (jr_events j))"

lemma fold_max_bounds: "(n::nat) \<le> fold max xs n \<and> (\<forall>x\<in>set xs. x \<le> fold max xs n)"
  by (induction xs arbitrary: n) (auto, (metis max.bounded_iff)+)

lemma next_sequence_above: "e \<in> set (jr_events j) \<Longrightarrow> er_sequence e < next_sequence j"
  using fold_max_bounds [of 0 "map er_sequence (jr_events j)"]
  by (simp add: next_sequence_def less_Suc_eq_le)

lemma use_database_faults: "use_database j = (r, j') \<Longrightarrow> \<exists>fs. j' = j\<lparr>jr_faults := fs\<rparr>"
  by (cases j; cases "jr_faults j") (auto simp: use_database_def split: option.splits)

text \<open>A transaction that commits, for the journal and for the workspace.\<close>

lemma execute_batch_cases:
  assumes "journal_execute_batch cd w cs at j = (Inr (w', events), j')"
  shows "(cs = [] \<and> w' = w \<and> j' = j) \<or>
    (\<exists>records first final v fs. records \<noteq> [] \<and>
       (\<forall>(p, e)\<in>set records. encode_event cd e = Inr p) \<and>
       try_fold apply_event w (map snd records) = Inr w' \<and>
       try_fold (run_logged execute) (w, []) cs = Inr (w', map snd records) \<and>
       apply_event w (snd (hd records)) = Inr v \<and> encode_workspace cd v = Inr first \<and>
       encode_workspace cd w' = Inr final \<and>
       (j', events) = insert_records cd (w_id w) at first final records
         (register_workspace (w_id w) at (j\<lparr>jr_faults := fs\<rparr>)))"
proof -
  from assms obtain c first records where plan: "try_fold (plan_command cd) (w, None, []) cs = Inr (c, first, records)"
    and rest: "(case first of None \<Rightarrow> act_return (w, [])
       | Some first \<Rightarrow> act_bind (act_lift (encode_workspace cd c)) (\<lambda>final.
           act_bind use_database (\<lambda>_ j.
             let (j, events) = insert_records cd (w_id w) at first final records
                   (register_workspace (w_id w) at j) in (Inr (c, events), j)))) j =
       (Inr (w', events), j')"
    by (auto simp: journal_execute_batch_def act_bind_Inr_iff)
  from plan_commands [OF plan] have
    new: "length records = length cs" "\<forall>(p, e)\<in>set records. encode_event cd e = Inr p"
      "try_fold apply_event w (map snd records) = Inr c"
      "try_fold (run_logged execute) (w, []) cs = Inr (c, map snd records)"
      "if records = [] then first = None else \<exists>v p. apply_event w (snd (hd records)) = Inr v \<and>
        encode_workspace cd v = Inr p \<and> first = Some p"
    by auto
  show ?thesis
  proof (cases "records = []")
    case True
    with new rest show ?thesis by simp
  next
    case False
    with new(5) obtain v p where p: "apply_event w (snd (hd records)) = Inr v"
      "encode_workspace cd v = Inr p" "first = Some p" by auto
    from rest p obtain final j1 where final: "encode_workspace cd c = Inr final"
      and db: "use_database j = (Inr (), j1)" and w': "w' = c"
      and ins: "(j', events) = insert_records cd (w_id w) at p final records (register_workspace (w_id w) at j1)"
      by (auto simp: act_bind_Inr_iff case_prod_beta)
    from use_database_faults [OF db] obtain fs where "j1 = j\<lparr>jr_faults := fs\<rparr>" ..
    with False new p final w' ins show ?thesis by blast
  qed
qed

section \<open>What the journal holds of a workspace\<close>

text \<open>
  Every readable snapshot of the workspace and the events after it give the workspace in memory, and a
  workspace without events is the new one.
\<close>

definition workspace_rows :: "journal \<Rightarrow> workspace_id \<Rightarrow> event_row list" where
  "workspace_rows j wid = filter (\<lambda>e. er_workspace e = workspace_key wid) (jr_events j)"

definition rebuilds :: "codec \<Rightarrow> journal \<Rightarrow> workspace \<Rightarrow> bool" where
  "rebuilds cd j w \<longleftrightarrow>
     (\<forall>s v. s \<in> set (jr_snapshots j) \<and> sn_workspace s = workspace_key (w_id w) \<and>
        decode_snapshot cd (workspace_key (w_id w)) (w_id w) s = Inr v \<longrightarrow>
        sn_sequence s < next_sequence j \<and>
        try_fold (replay_row cd (workspace_key (w_id w)) (w_id w)) v
          (filter (\<lambda>e. sn_sequence s < er_sequence e) (workspace_rows j (w_id w))) = Inr w)"

lemma sorted_rows:
  assumes "journal_ordered j"
  shows "load_events_after (workspace_key wid) n j = filter (\<lambda>e. n < er_sequence e) (workspace_rows j wid)"
proof -
  have "sorted_wrt (\<lambda>a b. er_sequence a < er_sequence b) (filter P (jr_events j))" for P
    using assms by (simp add: journal_ordered_def sorted_wrt_map sorted_wrt_filter)
  then have "sorted (map er_sequence (filter P (jr_events j)))" for P
    by (simp add: sorted_map) (metis (mono_tags, lifting) less_imp_le sorted_wrt_mono_rel)
  then show ?thesis
    by (simp add: load_events_after_def workspace_rows_def sort_key_id_if_sorted conj_commute)
qed

lemma is_ok_iff: "is_ok r \<longleftrightarrow> (\<exists>x. r = Inr x)"
  by (cases r) (simp_all add: is_ok_def)

lemma newest_snapshot_Some:
  "newest_snapshot cd key wid ss = Some (n, v) \<Longrightarrow>
     \<exists>s\<in>set ss. n = sn_sequence s \<and> decode_snapshot cd key wid s = Inr v"
  by (induction ss) (auto split: sum.splits)

lemma newest_snapshot_None:
  "newest_snapshot cd key wid ss = None \<Longrightarrow> s \<in> set ss \<Longrightarrow> \<exists>e. decode_snapshot cd key wid s = Inl e"
  by (induction ss) (auto split: sum.splits)

lemma recover_rows_rebuilds:
  assumes "journal_ordered j" and "rebuilds cd j w"
    and "s \<in> set (jr_snapshots j)" and "sn_workspace s = workspace_key (w_id w)"
    and "decode_snapshot cd (workspace_key (w_id w)) (w_id w) s = Inr v"
  shows "recover_rows cd (w_id w) j = Inr (Some w)"
proof -
  let ?key = "workspace_key (w_id w)"
  have "s \<in> set (load_snapshots ?key j)" using assms(3,4) by (simp add: load_snapshots_def)
  with assms(5) obtain n u where u: "newest_snapshot cd ?key (w_id w) (load_snapshots ?key j) = Some (n, u)"
    using newest_snapshot_None [of cd ?key "w_id w" "load_snapshots ?key j" s]
    by (cases "newest_snapshot cd ?key (w_id w) (load_snapshots ?key j)") force+
  from newest_snapshot_Some [OF this] obtain t where "t \<in> set (jr_snapshots j)" "sn_workspace t = ?key"
    "n = sn_sequence t" "decode_snapshot cd ?key (w_id w) t = Inr u"
    by (auto simp: load_snapshots_def)
  with assms(2) have "try_fold (replay_row cd ?key (w_id w)) u (load_events_after ?key n j) = Inr w"
    unfolding sorted_rows [OF assms(1)] by (simp add: rebuilds_def)
  with u show ?thesis by (simp add: recover_rows_def Let_def)
qed

section \<open>Recording keeps it\<close>

lemma replay_new_rows:
  assumes "faithful cd" and "\<forall>(p, e)\<in>set records. encode_event cd e = Inr p \<and> event_valid e"
    and "try_fold apply_event v (map snd records) = Inr w" and "w_id v = wid"
  shows "try_fold (replay_row cd (workspace_key wid) wid) v
    (map (\<lambda>(i, payload, event). new_event_row cd wid at (base + i) payload) (enumerate n records)) = Inr w"
  using assms(2-4)
proof (induction records arbitrary: v n)
  case (Cons r records)
  obtain p e where r: "r = (p, e)" by (cases r)
  with Cons.prems(2) obtain u where u: "apply_event v e = Inr u" "try_fold apply_event u (map snd records) = Inr w"
    by (auto simp: res_bind_Inr_iff)
  have p: "encode_event cd e = Inr p" "event_valid e" using Cons.prems(1) r by auto
  have "replay_row cd (workspace_key wid) wid v (new_event_row cd wid at (base + n) p) = Inr u"
    using replay_new_row [OF assms(1) p u(1)] Cons.prems(3) by simp
  moreover have "try_fold (replay_row cd (workspace_key wid) wid) u
      (map (\<lambda>(i, payload, event). new_event_row cd wid at (base + i) payload) (enumerate (Suc n) records)) = Inr w"
    using Cons.IH [of u "Suc n"] Cons.prems(1,3) u apply_event_id [OF u(1)] by simp
  ultimately show ?case using r by simp
qed simp

lemma try_fold_append:
  "try_fold f s (xs @ ys) = res_bind (try_fold f s xs) (\<lambda>s. try_fold f s ys)"
  by (induction xs arbitrary: s) (simp_all add: res_bind_def split: sum.split)

lemma apply_fold_id: "try_fold apply_event v es = Inr w \<Longrightarrow> w_id w = w_id v"
  by (induction es arbitrary: v) (auto simp: res_bind_Inr_iff dest: apply_event_id)

abbreviation record_rows ::
  "codec \<Rightarrow> workspace_id \<Rightarrow> timestamp \<Rightarrow> nat \<Rightarrow> (bytes \<times> domain_event) list \<Rightarrow> event_row list" where
  "record_rows cd wid at base records \<equiv>
     map (\<lambda>(i, payload, event). new_event_row cd wid at (base + i) payload) (enumerate 0 records)"

lemma record_rows_sequences:
  "map er_sequence (map (\<lambda>(i, payload, event). new_event_row cd wid at (base + i) payload) (enumerate n records)) =
     [base + n..<base + n + length records]"
proof -
  have "map er_sequence (map (\<lambda>(i, payload, event). new_event_row cd wid at (base + i) payload) (enumerate n records)) =
      map ((+) base) (map fst (enumerate n records))"
    by (simp add: new_event_row_def comp_def case_prod_beta del: map_fst_enumerate)
  also have "\<dots> = [base + n..<base + n + length records]"
  proof -
    have "map ((+) base) [n..<n + k] = [base + n..<base + n + k]" for k
      by (induction k) simp_all
    then show ?thesis by simp
  qed
  finally show ?thesis .
qed

lemma new_row_fields [simp]:
  "er_workspace (new_event_row cd wid at n p) = workspace_key wid"
  "er_sequence (new_event_row cd wid at n p) = n"
  "sn_workspace (new_snapshot_row cd wid n p) = workspace_key wid"
  "sn_sequence (new_snapshot_row cd wid n p) = n"
  by (simp_all add: new_event_row_def new_snapshot_row_def)

lemma record_rows_bounds:
  assumes "e \<in> set (map (\<lambda>(i, payload, event). new_event_row cd wid at (base + i) payload) (enumerate n records))"
  shows "base + n \<le> er_sequence e \<and> er_sequence e < base + n + length records"
proof -
  have "er_sequence e \<in> set (map er_sequence
      (map (\<lambda>(i, payload, event). new_event_row cd wid at (base + i) payload) (enumerate n records)))"
    unfolding set_map [of er_sequence] by (rule imageI) (rule assms)
  then show ?thesis unfolding record_rows_sequences by simp
qed

lemma insert_records_rows:
  assumes "(j', events) = insert_records cd wid at first final records j"
  shows "jr_events j' = jr_events j @ record_rows cd wid at (next_sequence j) records"
    and "jr_snapshots j' = jr_snapshots j @
      (if length records - 1 = 0 then [new_snapshot_row cd wid (next_sequence j) final]
       else [new_snapshot_row cd wid (next_sequence j) first,
         new_snapshot_row cd wid (next_sequence j + (length records - 1)) final])"
  using assms by (auto simp: insert_records_def Let_def)

lemma register_rows [simp]:
  "jr_events (register_workspace wid at j) = jr_events j"
  "jr_snapshots (register_workspace wid at j) = jr_snapshots j"
  "next_sequence (register_workspace wid at j) = next_sequence j"
  "next_sequence (j\<lparr>jr_faults := fs\<rparr>) = next_sequence j"
  by (simp_all add: register_workspace_def next_sequence_def)

lemma batch_rows:
  assumes "journal_ordered j"
    and "(j', events) = insert_records cd wid at first final records
      (register_workspace wid at (j\<lparr>jr_faults := fs\<rparr>))"
  shows "journal_ordered j'" and "next_sequence j \<le> next_sequence j'"
    and "workspace_rows j' wid = workspace_rows j wid @ record_rows cd wid at (next_sequence j) records"
    and "other \<noteq> wid \<Longrightarrow> workspace_rows j' other = workspace_rows j other"
    and "records \<noteq> [] \<Longrightarrow> next_sequence j + (length records - 1) < next_sequence j'"
proof -
  note rows = insert_records_rows(1) [OF assms(2), simplified]
  show "journal_ordered j'"
    using assms(1) record_rows_sequences [of cd wid at "next_sequence j" 0 records] 
    by (auto simp: journal_ordered_def rows sorted_wrt_append simp del: map_map dest!: next_sequence_above)
  have above: "er_sequence e < next_sequence j'" if "e \<in> set (jr_events j')" for e
    using that by (rule next_sequence_above)
  show "next_sequence j \<le> next_sequence j'"
    unfolding next_sequence_def rows by (simp add: fold_max_bounds)
  show "workspace_rows j' wid = workspace_rows j wid @ record_rows cd wid at (next_sequence j) records"
    unfolding workspace_rows_def rows by (auto intro!: filter_True)
  show "workspace_rows j' other = workspace_rows j other" if "other \<noteq> wid"
    unfolding workspace_rows_def rows using that by (auto intro!: filter_False)
  show "next_sequence j + (length records - 1) < next_sequence j'" if "records \<noteq> []"
  proof -
    have "next_sequence j + (length records - 1) \<in>
        set (map er_sequence (record_rows cd wid at (next_sequence j) records))"
      unfolding record_rows_sequences using that by (cases records) auto
    then obtain e where "e \<in> set (record_rows cd wid at (next_sequence j) records)"
      "er_sequence e = next_sequence j + (length records - 1)"
      by (metis (no_types, lifting) imageE list.set_map)
    with above [of e] show ?thesis by (simp add: rows)
  qed
qed

lemma rebuilds_other:
  assumes "journal_ordered j" and "rebuilds cd j w" and "w_id w \<noteq> wid"
    and "(j', events) = insert_records cd wid at first final records
      (register_workspace wid at (j\<lparr>jr_faults := fs\<rparr>))"
  shows "rebuilds cd j' w"
  unfolding rebuilds_def
proof (intro allI impI)
  fix s v
  assume s: "s \<in> set (jr_snapshots j') \<and> sn_workspace s = workspace_key (w_id w) \<and>
    decode_snapshot cd (workspace_key (w_id w)) (w_id w) s = Inr v"
  then have "s \<in> set (jr_snapshots j)"
    using assms(3) insert_records_rows(2) [OF assms(4)] by (auto simp: new_snapshot_row_def split: if_splits)
  with s assms(2) batch_rows(2,4) [OF assms(1,4)] assms(3)
  show "sn_sequence s < next_sequence j' \<and>
    try_fold (replay_row cd (workspace_key (w_id w)) (w_id w)) v
      (filter (\<lambda>e. sn_sequence s < er_sequence e) (workspace_rows j' (w_id w))) = Inr w"
    by (auto simp: rebuilds_def intro: less_le_trans)
qed

lemma rebuilds_commit:
  assumes faithful: "faithful cd" and ordered: "journal_ordered j" and "rebuilds cd j w"
    and storable: "storable w"
    and records: "records \<noteq> []" "\<forall>(p, e)\<in>set records. encode_event cd e = Inr p \<and> recordable e"
    and run: "try_fold apply_event w (map snd records) = Inr w'" "apply_event w (snd (hd records)) = Inr v"
    and encoded: "encode_workspace cd v = Inr first" "encode_workspace cd w' = Inr final"
    and ins: "(j', events) = insert_records cd (w_id w) at first final records
      (register_workspace (w_id w) at (j\<lparr>jr_faults := fs\<rparr>))"
  shows "rebuilds cd j' w'"
proof -
  let ?base = "next_sequence j" and ?key = "workspace_key (w_id w)"
  let ?rows = "record_rows cd (w_id w) at ?base records"
  have id': "w_id w' = w_id w" by (rule apply_fold_id [OF run(1)])
  have recorded: "\<forall>(p, e)\<in>set records. encode_event cd e = Inr p \<and> event_valid e"
    using records(2) by (auto simp: recordable_def)
  have storable': "storable w'" "storable v"
    using storable_fold [OF run(1) storable] storable_step [OF storable _ run(2)] records
    by (cases records; fastforce)+
  note batch = batch_rows [OF ordered ins]
  have old: "er_sequence e < ?base" if "e \<in> set (workspace_rows j (w_id w))" for e
    using that by (auto simp: workspace_rows_def next_sequence_above)
  have rows: "?base \<le> er_sequence e \<and> er_sequence e < ?base + length records" if "e \<in> set ?rows" for e
    using record_rows_bounds [where n = 0, OF that] by simp
  have none: "filter (\<lambda>e. ?base + (length records - 1) < er_sequence e) (workspace_rows j' (w_id w)) = []"
    unfolding batch(3) filter_empty_conv using old rows records(1) by fastforce
  have tail: "try_fold (replay_row cd ?key (w_id w)) v
      (filter (\<lambda>e. ?base < er_sequence e) (workspace_rows j' (w_id w))) = Inr w'"
  proof -
    obtain p e rs where r: "records = (p, e) # rs" using records(1) by (cases records) auto
    let ?rest = "map (\<lambda>(i, payload, event). new_event_row cd (w_id w) at (?base + i) payload) (enumerate 1 rs)"
    have "filter (\<lambda>e. ?base < er_sequence e) (workspace_rows j (w_id w)) = []"
      unfolding filter_empty_conv using old by fastforce
    moreover have "filter (\<lambda>e. ?base < er_sequence e) ?rest = ?rest"
      by (rule filter_True) (use record_rows_bounds [where n = 1] in fastforce)
    ultimately have "filter (\<lambda>e. ?base < er_sequence e) (workspace_rows j' (w_id w)) = ?rest"
      unfolding batch(3) r by (simp add: new_event_row_def del: map_map)
    moreover have "try_fold (replay_row cd ?key (w_id w)) v ?rest = Inr w'"
    proof (rule replay_new_rows [OF faithful])
      show "\<forall>(p, e)\<in>set rs. encode_event cd e = Inr p \<and> event_valid e" using recorded r by simp
      show "try_fold apply_event v (map snd rs) = Inr w'" using run r by simp
      show "w_id v = w_id w" by (rule apply_event_id [OF run(2)])
    qed
    ultimately show ?thesis by simp
  qed
  show ?thesis
    unfolding rebuilds_def id'
  proof (intro allI impI)
    fix s u
    assume s: "s \<in> set (jr_snapshots j') \<and> sn_workspace s = ?key \<and> decode_snapshot cd ?key (w_id w) s = Inr u"
    consider (old) "s \<in> set (jr_snapshots j)" | (final) "s = new_snapshot_row cd (w_id w) (?base + (length records - 1)) final"
      | (first) "s = new_snapshot_row cd (w_id w) ?base first"
      using s insert_records_rows(2) [OF ins] by (auto split: if_splits)
    then show "sn_sequence s < next_sequence j' \<and> try_fold (replay_row cd ?key (w_id w)) u
      (filter (\<lambda>e. sn_sequence s < er_sequence e) (workspace_rows j' (w_id w))) = Inr w'"
    proof cases
      case old
      with s assms(3) have below: "sn_sequence s < ?base"
        and rebuilt: "try_fold (replay_row cd ?key (w_id w)) u
          (filter (\<lambda>e. sn_sequence s < er_sequence e) (workspace_rows j (w_id w))) = Inr w"
        by (auto simp: rebuilds_def)
      have "filter (\<lambda>e. sn_sequence s < er_sequence e) ?rows = ?rows"
        by (rule filter_True) (use rows below in fastforce)
      moreover have "try_fold (replay_row cd ?key (w_id w)) w ?rows = Inr w'"
        by (rule replay_new_rows [OF faithful recorded run(1) refl])
      ultimately show ?thesis
        using below batch(2) rebuilt unfolding batch(3) by (simp add: try_fold_append)
    next
      case final
      with s have "u = w'" using decode_new_rows(2) [OF faithful encoded(2) id' storable'(1)] by blast
      with final none batch(5) [OF records(1)] show ?thesis by (simp add: new_snapshot_row_def)
    next
      case first
      with s have "u = v" using decode_new_rows(2) [OF faithful encoded(1) apply_event_id [OF run(2)] storable'(2)] by blast
      with first tail batch(5) [OF records(1)] show ?thesis by (simp add: new_snapshot_row_def)
    qed
  qed
qed

section \<open>Histories of a journal\<close>

text \<open>The events of a batch come from constructors and leave no blank draft.\<close>

definition recordable_batch :: "workspace \<Rightarrow> domain_command list \<Rightarrow> bool" where
  "recordable_batch w cs \<longleftrightarrow>
     (case try_fold (run_logged execute) (w, []) cs of
        Inr (_, log) \<Rightarrow> list_all recordable log
      | Inl _ \<Rightarrow> True)"

text \<open>
  \<open>journal_holds cd j w\<close>: \<open>w\<close> is the workspace in memory after some history whose journal is \<open>j\<close>. A
  batch commits or fails, other workspaces write in between, the application state around the
  tables changes, and snapshots are lost or become unreadable.
\<close>

inductive journal_holds :: "codec \<Rightarrow> journal \<Rightarrow> workspace \<Rightarrow> bool" for cd :: codec where
  holds_new: "jr_events j = [] \<Longrightarrow> jr_snapshots j = [] \<Longrightarrow> name_valid nm \<Longrightarrow>
    journal_holds cd j (workspace_new wid nm)"
| holds_commit: "journal_holds cd j w \<Longrightarrow> recordable_batch w cs \<Longrightarrow>
    journal_execute_batch cd w cs at j = (Inr (w', events), j') \<Longrightarrow> journal_holds cd j' w'"
| holds_failure: "journal_holds cd j w \<Longrightarrow>
    journal_execute_batch cd w cs at j = (Inl err, j') \<Longrightarrow> journal_holds cd j' w"
| holds_other: "journal_holds cd j w \<Longrightarrow> w_id v \<noteq> w_id w \<Longrightarrow>
    journal_execute_batch cd v cs at j = (r, j') \<Longrightarrow> journal_holds cd j' w"
| holds_damage: "journal_holds cd j w \<Longrightarrow> jr_events j' = jr_events j \<Longrightarrow>
    \<forall>s\<in>set (jr_snapshots j'). s \<in> set (jr_snapshots j) \<or> (\<forall>key wid. \<exists>e. decode_snapshot cd key wid s = Inl e) \<Longrightarrow>
    journal_holds cd j' w"

lemma failed_batch_rows:
  assumes "journal_execute_batch cd w cs at j = (Inl err, j')"
  shows "\<exists>fs. j' = j\<lparr>jr_faults := fs\<rparr>"
proof -
  have same: "\<exists>fs. j = j\<lparr>jr_faults := fs\<rparr>" by (cases j) auto
  show ?thesis
  proof (cases "try_fold (plan_command cd) (w, None, []) cs")
    case (Inl e)
    with assms same show ?thesis by (simp add: journal_execute_batch_def)
  next
    case (Inr p)
    obtain c first records where p: "p = (c, first, records)" by (cases p)
    show ?thesis
    proof (cases first)
      case None
      with assms Inr p show ?thesis by (simp add: journal_execute_batch_def)
    next
      case (Some q)
      show ?thesis
      proof (cases "encode_workspace cd c")
        case (Inl e)
        with assms \<open>try_fold _ _ _ = Inr p\<close> p Some same show ?thesis
          by (simp add: journal_execute_batch_def)
      next
        case (Inr final)
        obtain r k where k: "use_database j = (r, k)" by (cases "use_database j")
        with assms \<open>try_fold _ _ _ = Inr p\<close> p Some Inr have "j' = k"
          by (cases r) (simp_all add: journal_execute_batch_def act_bind_def case_prod_beta)
        with use_database_faults [OF k] show ?thesis by simp
      qed
    qed
  qed
qed

lemma committed_batch:
  assumes "faithful cd" and "journal_ordered j"
    and "journal_execute_batch cd w cs at j = (Inr (w', events), j')"
  shows "journal_ordered j'"
    and "rebuilds cd j w \<Longrightarrow> storable w \<Longrightarrow> recordable_batch w cs \<Longrightarrow> rebuilds cd j' w' \<and> storable w'"
    and "w_id u \<noteq> w_id w \<Longrightarrow> rebuilds cd j u \<Longrightarrow> rebuilds cd j' u"
proof -
  consider (same) "w' = w" "j' = j"
    | (rows) records first final v fs where "records \<noteq> []" "\<forall>(p, e)\<in>set records. encode_event cd e = Inr p"
      "try_fold apply_event w (map snd records) = Inr w'"
      "try_fold (run_logged execute) (w, []) cs = Inr (w', map snd records)"
      "apply_event w (snd (hd records)) = Inr v"
      "encode_workspace cd v = Inr first" "encode_workspace cd w' = Inr final"
      "(j', events) = insert_records cd (w_id w) at first final records
         (register_workspace (w_id w) at (j\<lparr>jr_faults := fs\<rparr>))"
    using execute_batch_cases [OF assms(3)] by blast
  then have "journal_ordered j' \<and>
    (rebuilds cd j w \<longrightarrow> storable w \<longrightarrow> recordable_batch w cs \<longrightarrow> rebuilds cd j' w' \<and> storable w') \<and>
    (w_id u \<noteq> w_id w \<longrightarrow> rebuilds cd j u \<longrightarrow> rebuilds cd j' u)"
  proof cases
    case same
    with assms(2) show ?thesis by simp
  next
    case rows
    have "rebuilds cd j' w' \<and> storable w'" if "rebuilds cd j w" "storable w" "recordable_batch w cs"
    proof
      from that(3) rows(4) have events: "\<forall>e\<in>set (map snd records). recordable e"
        by (simp add: recordable_batch_def list_all_iff)
      with rows(2) have "\<forall>(p, e)\<in>set records. encode_event cd e = Inr p \<and> recordable e" by auto
      then show "rebuilds cd j' w'"
        using rebuilds_commit [OF assms(1,2) that(1,2) rows(1) _ rows(3,5-8)] by blast
      show "storable w'" by (rule storable_fold [OF rows(3) that(2) events])
    qed
    with batch_rows(1) [OF assms(2) rows(8)] rebuilds_other [OF assms(2) _ _ rows(8)] show ?thesis by blast
  qed
  then show "journal_ordered j'"
    and "rebuilds cd j w \<Longrightarrow> storable w \<Longrightarrow> recordable_batch w cs \<Longrightarrow> rebuilds cd j' w' \<and> storable w'"
    and "w_id u \<noteq> w_id w \<Longrightarrow> rebuilds cd j u \<Longrightarrow> rebuilds cd j' u" by blast+
qed

lemma same_rows:
  "journal_ordered (j\<lparr>jr_faults := fs\<rparr>) = journal_ordered j"
  "rebuilds cd (j\<lparr>jr_faults := fs\<rparr>) w = rebuilds cd j w"
  by (simp_all add: journal_ordered_def rebuilds_def workspace_rows_def)

lemma journal_holds_rebuilds:
  assumes "faithful cd" and "journal_holds cd j w"
  shows "journal_ordered j \<and> rebuilds cd j w \<and> storable w"
  using assms(2)
proof (induction rule: journal_holds.induct)
  case (holds_new j wid nm)
  then show ?case by (simp add: journal_ordered_def rebuilds_def storable_new)
next
  case (holds_commit j w cs at w' events j')
  then show ?case using committed_batch(1,2) [OF assms(1)] by blast
next
  case (holds_failure j w cs at err j')
  then show ?case using failed_batch_rows same_rows by metis
next
  case (holds_other j w v cs at r j')
  show ?case
  proof (cases r)
    case (Inl e)
    with holds_other show ?thesis using failed_batch_rows same_rows by metis
  next
    case (Inr x)
    obtain v' events where "x = (v', events)" by (cases x)
    with Inr holds_other.hyps(3) have "journal_execute_batch cd v cs at j = (Inr (v', events), j')" by simp
    then show ?thesis
      using holds_other.IH holds_other.hyps(2) committed_batch(1,3) [OF assms(1)] by metis
  qed
next
  case (holds_damage j w j')
  have "next_sequence j' = next_sequence j" using holds_damage.hyps(2) by (simp add: next_sequence_def)
  moreover have "workspace_rows j' (w_id w) = workspace_rows j (w_id w)"
    using holds_damage.hyps(2) by (simp add: workspace_rows_def)
  ultimately show ?case
    using holds_damage by (auto simp: journal_ordered_def rebuilds_def) (metis Inr_not_Inl)+
qed


section \<open>A recorded workspace\<close>

definition sample_codec :: codec where
  "sample_codec =
     \<lparr>cd_hash = id,
      cd_write_workspace = (\<lambda>s. if s = save_workspace sample_with_agent then Some [1] else None),
      cd_read_workspace = (\<lambda>p. if p = [1] then Some (save_workspace sample_with_agent) else None),
      cd_write_event = (\<lambda>e. if e = save_event (EV_AgentAdded sample_agent) then Some [2] else None),
      cd_read_event = (\<lambda>p. if p = [2] then Some (save_event (EV_AgentAdded sample_agent)) else None)\<rparr>"

definition sample_journal :: journal where
  "sample_journal = snd (journal_execute_batch sample_codec sample_new [DC_AddAgent sample_agent] 5 journal_empty)"

lemma sample_names: "name_valid (Name ''Ada'')" "name_valid (Name ''Demo'')"
  unfolding name_valid_def by code_simp+

lemma sample_recordable: "recordable_batch sample_new [DC_AddAgent sample_agent]"
  using sample_names
  by (simp add: recordable_batch_def run_logged_def sample_add_agent recordable_def admissible_def blanks_draft_def
      agent_recorded_def) (simp add: sample_agent_def agent_new_def agent_with_program_def)

lemma sample_batch:
  "journal_execute_batch sample_codec sample_new [DC_AddAgent sample_agent] 5 journal_empty =
     (Inr (sample_with_agent, [\<lparr>te_id = Id 1, te_workspace = Id 1, te_occurred_at = 5,
        te_event = EV_AgentAdded sample_agent\<rparr>]), sample_journal)"
    and sample_snapshots: "jr_snapshots sample_journal = [new_snapshot_row sample_codec (Id 1) 1 [1]]"
proof -
  have "plan_command sample_codec (sample_new, None, []) (DC_AddAgent sample_agent) =
      Inr (sample_with_agent, Some [1], [([2], EV_AgentAdded sample_agent)])"
    by (simp add: plan_command_def sample_add_agent sample_codec_def map_err_def encode_workspace_def
        encode_event_def ok_or_def del: save_event.simps)
  then have run: "fst (journal_execute_batch sample_codec sample_new [DC_AddAgent sample_agent] 5 journal_empty) =
      Inr (sample_with_agent, [\<lparr>te_id = Id 1, te_workspace = Id 1, te_occurred_at = 5,
        te_event = EV_AgentAdded sample_agent\<rparr>])"
    and "jr_snapshots (snd (journal_execute_batch sample_codec sample_new [DC_AddAgent sample_agent] 5 journal_empty)) =
      [new_snapshot_row sample_codec (Id 1) 1 [1]]"
    by (simp_all add: journal_execute_batch_def act_bind_def use_database_def journal_empty_def sample_codec_def
        insert_records_def register_workspace_def next_sequence_def encode_workspace_def ok_or_def)
  then show "journal_execute_batch sample_codec sample_new [DC_AddAgent sample_agent] 5 journal_empty =
     (Inr (sample_with_agent, [\<lparr>te_id = Id 1, te_workspace = Id 1, te_occurred_at = 5,
        te_event = EV_AgentAdded sample_agent\<rparr>]), sample_journal)"
    and "jr_snapshots sample_journal = [new_snapshot_row sample_codec (Id 1) 1 [1]]"
    by (simp_all add: sample_journal_def prod_eq_iff)
qed

lemma sample_reads: "read_workspace snapshot_format_version (save_workspace sample_with_agent) = Inr sample_with_agent"
proof (rule read_only_agents)
  have unfilled: "unfilled sample_with_agent = sample_new"
    by (simp add: unfilled_def sample_with_agent_def sample_new_def workspace_new_def)
  then show "only_agents sample_with_agent" by (simp add: only_agents_def) (simp add: sample_with_agent_def)
  show "settings_valid (w_settings sample_with_agent)"
    using sample_names by (simp add: sample_with_agent_def sample_new_def workspace_new_def settings_valid_def)
  have start: "starting sample_agent = sample_agent" "agent_state sample_agent = AS_Starting"
    "name_valid (agent_name sample_agent)"
    using sample_names by (simp_all add: starting_def sample_agent_def agent_new_def agent_with_program_def)
  have "bm_values (w_agents sample_with_agent) = [sample_agent]" by (simp add: sample_with_agent_def bm_values_def)
  then show "try_fold restore_agent_v1 (unfilled sample_with_agent) (map save_agent (bm_values (w_agents sample_with_agent))) =
      Inr sample_with_agent"
    using start by (simp add: unfilled restore_agent_v1_def read_save_agent apply_snapshot_command_def
        sample_add_agent restore_agent_state_def message_def)
qed


end
