(* ===== verification/Manager_Safe.thy ===== *)
theory Manager_Safe
  imports Manager Journal_Recovery Canvas_Replace
begin

text \<open>
  What the manager keeps: the workspaces in memory are the ones their journal recovers, and every
  workspace only advances along reachable states.
\<close>

section \<open>Journals that agree\<close>

definition same_tables :: "journal \<Rightarrow> journal \<Rightarrow> bool" where
  "same_tables j j' \<longleftrightarrow> jr_events j' = jr_events j \<and> jr_snapshots j' = jr_snapshots j"

interpretation tables: kept_relation same_tables
  by unfold_locales (auto simp: same_tables_def)

lemma same_tables_facts:
  assumes "same_tables j j'"
  shows "journal_ordered j' = journal_ordered j" and "rebuilds cd j' w = rebuilds cd j w"
    and "next_sequence j' = next_sequence j" and "recover_rows cd wid j' = recover_rows cd wid j"
    and "jr_events j' = jr_events j" and "jr_snapshots j' = jr_snapshots j"
proof -
  have same: "jr_events j' = jr_events j" "jr_snapshots j' = jr_snapshots j"
    using assms by (simp_all add: same_tables_def)
  then show "journal_ordered j' = journal_ordered j" "rebuilds cd j' w = rebuilds cd j w"
    "next_sequence j' = next_sequence j" "jr_events j' = jr_events j" "jr_snapshots j' = jr_snapshots j"
    by (simp_all add: journal_ordered_def rebuilds_def next_sequence_def workspace_rows_def)
  show "recover_rows cd wid j' = recover_rows cd wid j"
    unfolding recover_rows_def load_snapshots_def load_events_after_def same ..
qed

lemma keeps_use_database: "keeps same_tables use_database"
  by (auto simp: keeps_def same_tables_def use_database_def split: list.split option.split)

lemma keeps_use_then:
  assumes "\<And>j. same_tables j (snd (f j))"
  shows "keeps same_tables (act_bind use_database (\<lambda>_. f))"
  using assms by (intro tables.keeps_bind keeps_use_database) (simp add: keeps_def)

lemma registry_actions_keep:
  "keeps same_tables recent_workspace_ids" "keeps same_tables recorded_workspace_ids"
  "keeps same_tables journal_active_id" "keeps same_tables (journal_remove_workspace wid)"
  "keeps same_tables (journal_activate_workspace wid at)" "keeps same_tables (recover cd wid)"
  "keeps same_tables (journal_restore_workspace cd wid at)" "keeps same_tables (timeline_after cd wid after)"
proof -
  show "keeps same_tables recent_workspace_ids"
    unfolding recent_workspace_ids_def by (rule keeps_use_then) (simp add: same_tables_def)
  show "keeps same_tables recorded_workspace_ids"
    unfolding recorded_workspace_ids_def by (rule keeps_use_then) (simp add: same_tables_def)
  show "keeps same_tables journal_active_id"
    unfolding journal_active_id_def by (rule keeps_use_then) (simp add: same_tables_def)
  show "keeps same_tables (journal_remove_workspace wid)"
    unfolding journal_remove_workspace_def by (rule keeps_use_then) (simp add: same_tables_def Let_def)
  show "keeps same_tables (journal_activate_workspace wid at)"
    unfolding journal_activate_workspace_def by (rule keeps_use_then) (simp add: same_tables_def)
  show recover: "keeps same_tables (recover cd wid)"
    unfolding recover_def by (rule keeps_use_then) (simp add: same_tables_def)
  have modify: "keeps same_tables (act_bind use_database (\<lambda>_. act_modify f))"
    if "\<And>j. same_tables j (f j)" for f :: "journal \<Rightarrow> journal"
    by (rule keeps_use_then) (simp add: that)
  show "keeps same_tables (journal_restore_workspace cd wid at)"
    unfolding journal_restore_workspace_def
    by (rule tables.keeps_bind [OF recover]) (auto intro!: modify tables.keeps_pure simp: same_tables_def)
  show "keeps same_tables (timeline_after cd wid after)"
    unfolding timeline_after_def by (rule keeps_use_then) (simp add: same_tables_def)
qed

lemma journal_execute_cases:
  assumes "journal_execute cd w c at j = (r, j')"
  shows "(\<exists>e. r = Inl e \<and> same_tables j j') \<or>
    (\<exists>w' e es. r = Inr (w', e) \<and> journal_execute_batch cd w [c] at j = (Inr (w', e # es), j'))"
proof -
  obtain q k where batch: "journal_execute_batch cd w [c] at j = (q, k)" by fastforce
  show ?thesis
  proof (cases q)
    case (Inl e)
    with batch assms have "r = Inl e" "j' = k" by (simp_all add: journal_execute_def act_bind_def)
    then show ?thesis using failed_batch_rows [of cd w "[c]" at j e k] batch Inl
      by (auto simp: same_tables_def)
  next
    case (Inr p)
    obtain w' es where p: "p = (w', es)" by (cases p)
    from execute_batch_cases [of cd w "[c]" at j w' es k] batch Inr p have "es \<noteq> []"
      by (auto simp: insert_records_def Let_def dest: arg_cong [where f = length])
    then obtain e rest where "es = e # rest" by (cases es) auto
    with assms batch Inr p show ?thesis by (simp add: journal_execute_def act_bind_def)
  qed
qed

section \<open>Memory and journal\<close>

text \<open>
  Every workspace identifier has one workspace its rows rebuild; the open ones are in memory. A
  workspace with events has a snapshot that reads, if only the first one.
\<close>

definition has_readable :: "codec \<Rightarrow> journal \<Rightarrow> workspace_id \<Rightarrow> bool" where
  "has_readable cd j wid \<longleftrightarrow>
     (\<exists>s\<in>set (jr_snapshots j). sn_workspace s = workspace_key wid \<and>
        is_ok (decode_snapshot cd (workspace_key wid) wid s))"

text \<open>The agents the recorded events placed are on the canvas or archived.\<close>

definition placed_since :: "codec \<Rightarrow> journal \<Rightarrow> workspace \<Rightarrow> bool" where
  "placed_since cd j w \<longleftrightarrow>
     (\<forall>row\<in>set (jr_events j). \<forall>te.
        er_workspace row = workspace_key (w_id w) \<longrightarrow>
        decode_event_row cd (workspace_key (w_id w)) (w_id w) row = Inr te \<longrightarrow>
        (\<forall>a\<in>set (event_agents (te_event te)). settled_agent w a))"

definition journal_sound :: "codec \<Rightarrow> (workspace_id \<Rightarrow> workspace) \<Rightarrow> journal \<Rightarrow> bool" where
  "journal_sound cd ws j \<longleftrightarrow>
     journal_ordered j \<and>
     (\<forall>wid. w_id (ws wid) = wid \<and> storable (ws wid) \<and> rebuilds cd j (ws wid) \<and>
        placed_since cd j (ws wid)) \<and>
     (\<forall>wid. workspace_key wid \<in> er_workspace ` set (jr_events j) \<longrightarrow> has_readable cd j wid) \<and>
     sn_workspace ` set (jr_snapshots j) = er_workspace ` set (jr_events j)"

definition manager_sound :: "codec \<Rightarrow> manager \<Rightarrow> bool" where
  "manager_sound cd m \<longleftrightarrow>
     (\<exists>ws. journal_sound cd ws (mg_journal m) \<and>
        (\<forall>wid w. manager_workspace m wid = Some w \<longrightarrow>
           w = ws wid \<and> workspace_key wid \<in> er_workspace ` set (jr_events (mg_journal m))))"

lemma journal_sound_tables: "same_tables j j' \<Longrightarrow> journal_sound cd ws j' = journal_sound cd ws j"
  by (simp add: journal_sound_def has_readable_def placed_since_def same_tables_facts)

lemma sound_recovers:
  assumes "journal_sound cd ws j"
  shows "recover_rows cd wid j =
    Inr (if workspace_key wid \<in> er_workspace ` set (jr_events j) then Some (ws wid) else None)"
proof -
  have wid: "w_id (ws wid) = wid" and rb: "rebuilds cd j (ws wid)" and ord: "journal_ordered j"
    and same: "sn_workspace ` set (jr_snapshots j) = er_workspace ` set (jr_events j)"
    and read: "workspace_key wid \<in> er_workspace ` set (jr_events j) \<Longrightarrow> has_readable cd j wid"
    using assms by (simp_all add: journal_sound_def)
  show ?thesis
  proof (cases "workspace_key wid \<in> er_workspace ` set (jr_events j)")
    case True
    from read [OF True] obtain s v where s: "s \<in> set (jr_snapshots j)" "sn_workspace s = workspace_key wid"
      "decode_snapshot cd (workspace_key wid) wid s = Inr v"
      by (auto simp: has_readable_def is_ok_iff)
    with recover_rows_rebuilds [OF ord rb s(1)] wid True show ?thesis by simp
  next
    case False
    then have "filter (\<lambda>s. sn_workspace s = workspace_key wid) (jr_snapshots j) = []"
      unfolding same [symmetric] filter_empty_conv by (metis image_eqI)
    then have "load_snapshots (workspace_key wid) j = []" by (simp add: load_snapshots_def)
    moreover have "filter (\<lambda>e. er_workspace e = workspace_key wid) (jr_events j) = []"
      using False unfolding filter_empty_conv by (metis image_eqI)
    ultimately show ?thesis using False by (simp add: recover_rows_def Let_def)
  qed
qed

lemma event_agents_settled:
  assumes inv: "ws_inv w" and "admissible e" and step: "apply_event w e = Inr w'" and a: "a \<in> set (event_agents e)"
  shows "settled_agent w' a"
proof -
  have inv': "ws_inv w'" by (rule apply_event_inv [OF inv assms(2) step])
  have shown: "on_canvas w' a \<Longrightarrow> settled_agent w' a"
    using on_canvas_known [OF inv'] by (simp add: settled_agent_def)
  from a show ?thesis
  proof (cases e)
    case (EV_AgentNodeAdded b n)
    then have w': "w' = place_node n (w\<lparr>w_agents := bm_insert (agent_ident b) b (w_agents w)\<rparr>)"
      and n: "node_reference n = Some (NT_Agent (agent_ident b))" and "a = agent_ident b"
      using step a by (auto simp: apply_event_def apply_agent_node_added_def event_agents_def result_iff split: if_splits)
    then have "bm_get (w_nodes w') (node_ident n) = Some n \<and> node_reference n = Some (NT_Agent a)" by simp
    then show ?thesis using shown unfolding on_canvas_iff by blast
  next
    case (EV_NodeAdded n)
    then have w': "w' = restore_placed_agents (place_node n w)" and n: "node_reference n = Some (NT_Agent a)"
      using step a by (auto simp: apply_event_def apply_node_added_def event_agents_def set_shown_agents result_iff)
    have "agents_apart (place_node n w)"
      using agents_apart_iff [OF ws_invD(2) [OF inv]] by (simp add: agents_apart_def)
    then have "w_nodes w' = w_nodes (place_node n w)"
      unfolding w' by (rule relocated_frame(10) [OF restore_placed_relocated])
    then have "bm_get (w_nodes w') (node_ident n) = Some n" by simp
    then show ?thesis using shown n unfolding on_canvas_iff by blast
  next
    case (EV_CanvasReplaced before after)
    then have "apply_canvas_replaced w before after = Inr w'" using step by (simp add: apply_event_def)
    from canvas_replaced_settles [OF inv this, of a] a EV_CanvasReplaced show ?thesis by (simp add: event_agents_def)
  qed (simp_all add: event_agents_def)
qed

lemma batch_settles:
  assumes "try_fold apply_event w es = Inr w'" and "ws_inv w" and "\<forall>e\<in>set es. admissible e"
  shows "settled_agent w a \<Longrightarrow> settled_agent w' a"
    and "e \<in> set es \<Longrightarrow> a \<in> set (event_agents e) \<Longrightarrow> settled_agent w' a"
proof -
  have "(settled_agent w a \<longrightarrow> settled_agent w' a) \<and>
      (\<forall>e\<in>set es. a \<in> set (event_agents e) \<longrightarrow> settled_agent w' a)"
    using assms
  proof (induction es arbitrary: w)
    case (Cons e es)
    then obtain v where v: "apply_event w e = Inr v" "try_fold apply_event v es = Inr w'" and e: "admissible e"
      by (auto simp: res_bind_Inr_iff)
    have "ws_inv v" by (rule apply_event_inv [OF Cons.prems(2) e v(1)])
    with Cons.IH [OF v(2)] Cons.prems(3) settled_later [OF Cons.prems(2) e v(1)]
      event_agents_settled [OF Cons.prems(2) e v(1)]
    show ?case by auto
  qed simp
  then show "settled_agent w a \<Longrightarrow> settled_agent w' a"
    and "e \<in> set es \<Longrightarrow> a \<in> set (event_agents e) \<Longrightarrow> settled_agent w' a" by blast+
qed

lemma placed_commit:
  assumes faithful: "faithful cd" and w: "placed_since cd j w" "ws_inv w"
    and records: "\<forall>(p, e)\<in>set records. encode_event cd e = Inr p \<and> recordable e"
    and run: "try_fold apply_event w (map snd records) = Inr w'"
    and rows: "jr_events j' = jr_events j @ record_rows cd (w_id w) at base records"
  shows "placed_since cd j' w'"
  unfolding placed_since_def
proof (intro ballI allI impI)
  fix row te a
  assume row: "row \<in> set (jr_events j')" "er_workspace row = workspace_key (w_id w')"
    and te: "decode_event_row cd (workspace_key (w_id w')) (w_id w') row = Inr te"
    and a: "a \<in> set (event_agents (te_event te))"
  have id': "w_id w' = w_id w" by (rule apply_fold_id [OF run])
  have "\<forall>e\<in>set (map snd records). admissible e" using records by (auto simp: recordable_def)
  note settles = batch_settles [OF run w(2) this]
  show "settled_agent w' a"
  proof (cases "row \<in> set (jr_events j)")
    case True
    then have "settled_agent w a" using w(1) row(2) te a unfolding placed_since_def id' by blast
    then show ?thesis by (rule settles(1))
  next
    case False
    then have "row \<in> set (record_rows cd (w_id w) at base records)" using row(1) by (simp add: rows)
    then obtain i p e where "(i, p, e) \<in> set (enumerate 0 records)"
      and r: "row = new_event_row cd (w_id w) at (base + i) p" by auto
    from this(1) have pe: "(p, e) \<in> set records" unfolding enumerate_eq_zip by (rule set_zip_rightD)
    have "encode_event cd e = Inr p" "event_valid e" using records pe by (auto simp: recordable_def)
    from decode_new_rows(1) [OF faithful this, of "w_id w" at "base + i"] te have "te_event te = e"
      by (auto simp: id' r)
    moreover have "e \<in> set (map snd records)" using pe by force
    ultimately show ?thesis using settles(2) a by blast
  qed
qed

lemma sound_commit:
  assumes faithful: "faithful cd" and sound: "journal_sound cd ws j"
    and w: "rebuilds cd j w" "storable w" "cs \<noteq> []" "recordable_batch w cs" "placed_since cd j w"
    and batch: "journal_execute_batch cd w cs at j = (Inr (w', events), j')"
    and readable: "workspace_key (w_id w) \<in> er_workspace ` set (jr_events j) \<or>
      read_workspace snapshot_format_version (save_workspace w') = Inr w'"
  shows "journal_sound cd (ws(w_id w := w')) j'"
    and "er_workspace ` set (jr_events j') = insert (workspace_key (w_id w)) (er_workspace ` set (jr_events j))"
proof -
  have ord: "journal_ordered j" using sound by (simp add: journal_sound_def)
  from execute_batch_cases [OF batch] \<open>cs \<noteq> []\<close> obtain records first final v fs where
    rec: "records \<noteq> []" "try_fold apply_event w (map snd records) = Inr w'"
      "encode_workspace cd w' = Inr final" "\<forall>(p, e)\<in>set records. encode_event cd e = Inr p"
      "try_fold (run_logged execute) (w, []) cs = Inr (w', map snd records)"
    and ins: "(j', events) = insert_records cd (w_id w) at first final records
         (register_workspace (w_id w) at (j\<lparr>jr_faults := fs\<rparr>))"
    by auto
  note rows = insert_records_rows [OF ins, simplified]
  have id': "w_id w' = w_id w" by (rule apply_fold_id [OF rec(2)])
  have kept: "rebuilds cd j' w'" "storable w'"
    using committed_batch(2) [OF faithful ord batch w(1,2,4)] by simp_all
  have "list_all recordable (map snd records)" using w(4) rec(5) by (simp add: recordable_batch_def)
  then have recorded: "\<forall>(p, e)\<in>set records. encode_event cd e = Inr p \<and> recordable e"
    using rec(4) by (fastforce simp: list_all_iff)
  have "ws_inv w" using w(2) by (simp add: storable_def)
  note placed = placed_commit [OF faithful w(5) this recorded rec(2) rows(1)]
  have others: "placed_since cd j' u" if "placed_since cd j u" "w_id u \<noteq> w_id w" for u
    using that by (auto simp: placed_since_def rows(1))
  show events: "er_workspace ` set (jr_events j') =
      insert (workspace_key (w_id w)) (er_workspace ` set (jr_events j))"
    using rec(1) by (cases records) (auto simp: rows image_Un image_iff)
  have old: "has_readable cd j i \<Longrightarrow> has_readable cd j' i" for i
    by (auto simp: has_readable_def rows)
  show "journal_sound cd (ws(w_id w := w')) j'"
    unfolding journal_sound_def
  proof (intro conjI allI impI)
    show "journal_ordered j'" by (rule committed_batch(1) [OF faithful ord batch])
    show "w_id ((ws(w_id w := w')) wid) = wid" "storable ((ws(w_id w := w')) wid)" for wid
      using sound id' kept(2) by (auto simp: journal_sound_def)
    show "rebuilds cd j' ((ws(w_id w := w')) wid)" for wid
      using committed_batch(3) [OF faithful ord batch] kept(1) sound by (auto simp: journal_sound_def)
    show "placed_since cd j' ((ws(w_id w := w')) wid)" for wid
      using placed others [of "ws wid"] sound by (simp add: journal_sound_def)
    show "sn_workspace ` set (jr_snapshots j') = er_workspace ` set (jr_events j')"
      unfolding events rows(2) using sound by (auto simp: journal_sound_def)
    fix i assume i: "workspace_key i \<in> er_workspace ` set (jr_events j')"
    show "has_readable cd j' i"
    proof (cases "workspace_key i \<in> er_workspace ` set (jr_events j)")
      case True
      with sound old show ?thesis by (simp add: journal_sound_def)
    next
      case False
      with i events readable have "i = w_id w" and read: "read_workspace snapshot_format_version (save_workspace w') = Inr w'"
        by auto
      moreover have "\<exists>n. new_snapshot_row cd (w_id w) n final \<in> set (jr_snapshots j')"
        unfolding rows(2) by (cases "length records \<le> Suc 0") auto
      ultimately show ?thesis
        using decode_new_rows(3) [OF faithful rec(3) id' kept(2) read]
        by (auto simp: has_readable_def is_ok_iff) (metis new_row_fields(3))
    qed
  qed
qed

section \<open>Operations of the manager\<close>

abbreviation sound_step :: "codec \<Rightarrow> manager \<Rightarrow> manager \<Rightarrow> bool" where
  "sound_step cd m m' \<equiv> manager_sound cd m \<longrightarrow> manager_sound cd m'"

interpretation sounds: kept_relation "sound_step cd" for cd
  by unfold_locales auto

lemma on_journal_run:
  "on_journal f m = (map_err WE_Persistence (fst (f (mg_journal m))), m\<lparr>mg_journal := snd (f (mg_journal m))\<rparr>)"
  by (simp add: on_journal_def act_map_err_def act_zoom_def case_prod_beta)

lemma sound_frame:
  assumes "same_tables (mg_journal m) (mg_journal m')"
    and "\<And>wid w. manager_workspace m' wid = Some w \<Longrightarrow> manager_workspace m wid = Some w"
  shows "sound_step cd m m'"
proof
  assume "manager_sound cd m"
  then obtain ws where ws: "journal_sound cd ws (mg_journal m)"
    "\<And>i v. manager_workspace m i = Some v \<Longrightarrow>
      v = ws i \<and> workspace_key i \<in> er_workspace ` set (jr_events (mg_journal m))"
    unfolding manager_sound_def by blast
  show "manager_sound cd m'"
    unfolding manager_sound_def
  proof (intro exI conjI allI impI)
    show "journal_sound cd ws (mg_journal m')" using ws(1) by (simp add: journal_sound_tables [OF assms(1)])
    fix i v assume "manager_workspace m' i = Some v"
    from ws(2) [OF assms(2) [OF this]]
    show "v = ws i" "workspace_key i \<in> er_workspace ` set (jr_events (mg_journal m'))"
      by (simp_all add: same_tables_facts(5) [OF assms(1)])
  qed
qed

lemma keeps_sound_frame:
  assumes "\<And>m wid w. manager_workspace (f m) wid = Some w \<Longrightarrow> manager_workspace m wid = Some w"
    and "\<And>m. mg_journal (f m) = mg_journal m"
  shows "keeps (sound_step cd) (act_modify f)"
proof (rule sounds.keeps_modify, rule sound_frame)
  show "same_tables (mg_journal m) (mg_journal (f m))" for m by (simp add: assms(2) tables.kept_refl)
  show "manager_workspace (f m) wid = Some w \<Longrightarrow> manager_workspace m wid = Some w" for m wid w
    by (rule assms(1))
qed

lemma keeps_sound_journal:
  assumes "keeps same_tables f"
  shows "keeps (sound_step cd) (on_journal f)"
  unfolding keeps_def
proof (intro allI sound_frame)
  show "same_tables (mg_journal m) (mg_journal (snd (on_journal f m)))" for m
    using assms by (simp add: keeps_def on_journal_run)
  show "manager_workspace (snd (on_journal f m)) i = Some w \<Longrightarrow> manager_workspace m i = Some w" for m i w
    by (simp add: on_journal_run manager_workspace_def)
qed

lemma manager_workspace_put [simp]:
  "manager_workspace (put_workspace wid w m) i = (if i = wid then Some w else manager_workspace m i)"
  "manager_workspace (mark_recent wid m) i = manager_workspace m i"
  "mg_journal (put_workspace wid w m) = mg_journal m" "mg_journal (mark_recent wid m) = mg_journal m"
  by (simp_all add: manager_workspace_def put_workspace_def mark_recent_def)

lemma sound_put_batch:
  assumes "faithful cd" and sound: "manager_sound cd m"
    and w: "manager_workspace m wid = Some w" and "cs \<noteq> []" and guard: "recordable_batch w cs"
    and batch: "journal_execute_batch cd w cs at (mg_journal m) = (Inr (w', events), j')"
  shows "manager_sound cd (put_workspace wid w' (m\<lparr>mg_journal := j'\<rparr>))"
proof -
  from sound w obtain ws where ws: "journal_sound cd ws (mg_journal m)" "w = ws wid"
    and opened: "\<And>i v. manager_workspace m i = Some v \<Longrightarrow>
      v = ws i \<and> workspace_key i \<in> er_workspace ` set (jr_events (mg_journal m))"
    unfolding manager_sound_def by blast
  then have wid: "w_id w = wid" "rebuilds cd (mg_journal m) w" "storable w" "placed_since cd (mg_journal m) w"
    by (auto simp: journal_sound_def)
  have "workspace_key (w_id w) \<in> er_workspace ` set (jr_events (mg_journal m))" using opened [OF w] wid(1) by simp
  note commit = sound_commit [OF assms(1) ws(1) wid(2,3) \<open>cs \<noteq> []\<close> guard wid(4) batch, OF disjI1, OF this]
  show ?thesis
    unfolding manager_sound_def
  proof (intro exI conjI allI impI)
    show "journal_sound cd (ws(w_id w := w')) (mg_journal (put_workspace wid w' (m\<lparr>mg_journal := j'\<rparr>)))"
      using commit(1) by simp
    fix i v assume v: "manager_workspace (put_workspace wid w' (m\<lparr>mg_journal := j'\<rparr>)) i = Some v"
    then have old: "i \<noteq> wid \<Longrightarrow> manager_workspace m i = Some v" by (auto simp: manager_workspace_def put_workspace_def)
    show "v = (ws(w_id w := w')) i" using v old opened wid(1) by (cases "i = wid") auto
    show "workspace_key i \<in> er_workspace ` set (jr_events (mg_journal (put_workspace wid w' (m\<lparr>mg_journal := j'\<rparr>))))"
      using old opened wid(1) commit(2) by (cases "i = wid") auto
  qed
qed

text \<open>The guard of an operation on an open workspace.\<close>

definition may_record :: "manager \<Rightarrow> workspace_id \<Rightarrow> domain_command list \<Rightarrow> bool" where
  "may_record m wid cs \<longleftrightarrow>
     (case manager_workspace m wid of None \<Rightarrow> True | Some w \<Rightarrow> recordable_batch w cs)"

lemma manager_execute_step:
  assumes "faithful cd" and sound: "manager_sound cd m" and guard: "may_record m wid [c]"
  shows "manager_sound cd (snd (manager_execute cd wid c at m))"
proof -
  show "manager_sound cd (snd (manager_execute cd wid c at m))"
  proof (cases "manager_workspace m wid")
    case None
    with sound show ?thesis by (simp add: manager_execute_def)
  next
    case (Some w)
    obtain r j' where run: "journal_execute cd w c at (mg_journal m) = (r, j')" by fastforce
    from journal_execute_cases [OF run] show ?thesis
    proof (elim disjE exE conjE)
      fix e assume "r = Inl e" "same_tables (mg_journal m) j'"
      with Some run sound sound_frame [of m "m\<lparr>mg_journal := j'\<rparr>" cd] show ?thesis
        by (simp add: manager_execute_def act_bind_def on_journal_run map_err_def manager_workspace_def)
    next
      fix w' e es assume r: "r = Inr (w', e)"
        and batch: "journal_execute_batch cd w [c] at (mg_journal m) = (Inr (w', e # es), j')"
      have "recordable_batch w [c]" using guard Some by (simp add: may_record_def)
      from sound_put_batch [OF assms(1) sound Some _ this batch] Some run r show ?thesis
        by (simp add: manager_execute_def act_bind_def on_journal_run map_err_def)
    qed
  qed
qed

lemma manager_batch_step:
  assumes "faithful cd" and sound: "manager_sound cd m" and guard: "may_record m wid cs"
  shows "manager_sound cd (snd (manager_execute_batch cd wid cs at m))"
proof -
  show "manager_sound cd (snd (manager_execute_batch cd wid cs at m))"
  proof (cases "manager_workspace m wid")
    case None
    with sound show ?thesis by (simp add: manager_execute_batch_def)
  next
    case (Some w)
    obtain r j' where run: "journal_execute_batch cd w cs at (mg_journal m) = (r, j')" by fastforce
    show ?thesis
    proof (cases r)
      case (Inl e)
      then have "same_tables (mg_journal m) j'"
        using failed_batch_rows run by (fastforce simp: same_tables_def)
      with Inl Some run sound sound_frame [of m "m\<lparr>mg_journal := j'\<rparr>" cd] show ?thesis
        by (simp add: manager_execute_batch_def act_bind_def on_journal_run map_err_def manager_workspace_def)
    next
      case (Inr p)
      obtain w' es where p: "p = (w', es)" by (cases p)
      show ?thesis
      proof (cases "cs = []")
        case True
        with run Inr p have "w' = w" "j' = mg_journal m" "es = []" by (simp_all add: journal_execute_batch_def)
        with Some run Inr p sound sound_frame [of m "put_workspace wid w m" cd] show ?thesis
          by (auto simp: manager_execute_batch_def act_bind_def on_journal_run map_err_def same_tables_def
              split: if_splits)
      next
        case False
        from run Inr p have batch: "journal_execute_batch cd w cs at (mg_journal m) = (Inr (w', es), j')" by simp
        have "recordable_batch w cs" using guard Some by (simp add: may_record_def)
        from sound_put_batch [OF assms(1) sound Some False this batch] Some batch show ?thesis
          by (simp add: manager_execute_batch_def act_bind_def on_journal_run map_err_def)
      qed
    qed
  qed
qed

lemma manager_switch_sound: "keeps (sound_step cd) (manager_switch wid at)"
  unfolding manager_switch_def
  by (auto intro!: sounds.keeps_bind sounds.keeps_pure keeps_sound_journal registry_actions_keep
      keeps_sound_frame simp: manager_workspace_def mark_recent_def)

lemma manager_remove_sound: "keeps (sound_step cd) (manager_remove_workspace wid)"
  unfolding manager_remove_workspace_def
  by (auto intro!: sounds.keeps_bind sounds.keeps_pure keeps_sound_journal registry_actions_keep
      keeps_sound_frame simp: manager_workspace_def split: if_splits)

text \<open>Settings whose texts come from their constructors may always be recorded.\<close>

definition found_valid :: "(workspace_error, workspace_directory \<times> string option) result \<Rightarrow> bool" where
  "found_valid directory = (case directory of Inr (dir, _) \<Rightarrow> directory_valid dir | Inl _ \<Rightarrow> True)"

lemma settings_recordable:
  assumes "storable w" and "settings_valid s"
  shows "recordable_batch w [DC_UpdateWorkspaceSettings s]"
proof -
  have "settings_valid (w_settings w)" using assms(1) by (simp add: storable_def workspace_valid_def)
  with assms(2) settings_event_recordable show ?thesis
    by (auto simp: recordable_batch_def run_logged_def execute_def decide_def decide_settings_def result_iff
        res_bind_def split: sum.splits)
qed

lemma sound_may_record_settings:
  assumes "manager_sound cd m" and "settings_valid s"
  shows "may_record m wid [DC_UpdateWorkspaceSettings s]"
proof (cases "manager_workspace m wid")
  case (Some w)
  with assms(1) have "storable w" unfolding manager_sound_def journal_sound_def by metis
  with Some assms(2) show ?thesis by (simp add: may_record_def settings_recordable)
qed (simp add: may_record_def)

lemma keeps_lift_bind:
  "(\<And>a. r = Inr a \<Longrightarrow> keeps (sound_step cd) (f a)) \<Longrightarrow> keeps (sound_step cd) (act_bind (act_lift r) f)"
  by (cases r) (simp_all add: sounds.keeps_pure)

lemma update_settings_sound:
  assumes "faithful cd" and "found_valid directory"
  shows "keeps (sound_step cd) (update_settings cd wid directory nm icon instructions at)"
proof -
  have run: "keeps (sound_step cd) (manager_execute cd wid (DC_UpdateWorkspaceSettings s) at)"
    if "settings_valid s" for s
    using manager_execute_step [OF assms(1)] sound_may_record_settings that by (auto simp: keeps_def)
  have icon: "valid_option icon_valid i" if "(case icon of
         Some s \<Rightarrow> if str_trim s = [] then Inr None else res_bind (workspace_icon_new s) (\<lambda>x. Inr (Some x))
       | None \<Rightarrow> Inr None) = Inr i" for i
    using that by (auto simp: res_bind_Inr_iff new_texts_valid split: option.splits if_splits)
  have instructions: "valid_option content_valid i" if "(case instructions of
         Some s \<Rightarrow> if str_trim s = [] then Inr None else res_bind (content_new s) (\<lambda>x. Inr (Some x))
       | None \<Rightarrow> Inr None) = Inr i" for i
    using that by (auto simp: res_bind_Inr_iff new_texts_valid split: option.splits if_splits)
  show ?thesis
    unfolding update_settings_def
  proof (rule keeps_lift_bind, split prod.split, intro allI impI, rule keeps_lift_bind,
      rule keeps_lift_bind, rule keeps_lift_bind, rule run)
    fix p dir found n i c
    assume "directory = Inr p" "p = (dir, found)" "map_err WE_Validation (name_new nm) = Inr n"
      "map_err WE_Validation (case icon of None \<Rightarrow> Inr None
         | Some s \<Rightarrow> if str_trim s = [] then Inr None else res_bind (workspace_icon_new s) (\<lambda>x. Inr (Some x))) = Inr i"
      "map_err WE_Validation (case instructions of None \<Rightarrow> Inr None
         | Some s \<Rightarrow> if str_trim s = [] then Inr None else res_bind (content_new s) (\<lambda>x. Inr (Some x))) = Inr c"
    then show "settings_valid \<lparr>ws_name = n, ws_icon = i, ws_working_directory = Some dir, ws_instructions = c\<rparr>"
      using assms(2) icon instructions new_texts_valid(1)
      by (simp add: settings_valid_def found_valid_def map_err_Inr_iff)
  qed
qed

lemma sound_adopt:
  assumes sound: "manager_sound cd m" and found: "recover_rows cd wid (mg_journal m) = Inr (Some w)"
  shows "manager_sound cd (adopt_workspace wid w m)"
proof -
  from sound obtain ws where ws: "journal_sound cd ws (mg_journal m)"
    "\<And>i v. manager_workspace m i = Some v \<Longrightarrow>
      v = ws i \<and> workspace_key i \<in> er_workspace ` set (jr_events (mg_journal m))"
    unfolding manager_sound_def by blast
  from sound_recovers [OF ws(1), of wid] found
  have w: "w = ws wid" "workspace_key wid \<in> er_workspace ` set (jr_events (mg_journal m))"
    by (auto split: if_splits)
  show ?thesis
    unfolding manager_sound_def
  proof (intro exI conjI allI impI)
    show "journal_sound cd ws (mg_journal (adopt_workspace wid w m))"
      using ws(1) by (simp add: adopt_workspace_def mark_recent_def put_workspace_def)
    fix i v assume "manager_workspace (adopt_workspace wid w m) i = Some v"
    then have "i = wid \<and> v = w \<or> manager_workspace m i = Some v"
      by (auto simp: adopt_workspace_def mark_recent_def put_workspace_def manager_workspace_def split: if_splits)
    with w ws(2) show "v = ws i"
      "workspace_key i \<in> er_workspace ` set (jr_events (mg_journal (adopt_workspace wid w m)))"
      by (auto simp: adopt_workspace_def mark_recent_def put_workspace_def)
  qed
qed

lemma on_journal_sound:
  assumes "manager_sound cd m" and "keeps same_tables f" and "on_journal f m = (r, m')"
  shows "manager_sound cd m'" and "recover_rows cd wid (mg_journal m') = recover_rows cd wid (mg_journal m)"
    and "jr_events (mg_journal m') = jr_events (mg_journal m)"
proof -
  show "manager_sound cd m'" using keepsD [OF keeps_sound_journal [OF assms(2)] assms(3)] assms(1) by blast
  have "same_tables (mg_journal m) (mg_journal m')"
    using assms(2,3) by (auto simp: keeps_def on_journal_run)
  then show "recover_rows cd wid (mg_journal m') = recover_rows cd wid (mg_journal m)"
    and "jr_events (mg_journal m') = jr_events (mg_journal m)"
    by (rule same_tables_facts)+
qed

lemma reopen_recorded_sound: "keeps (sound_step cd) (reopen_recorded cd dir at ids)"
proof (induction ids)
  case (Cons wid ids)
  have search: "keeps (sound_step cd) (act_bind (on_journal (recover cd wid)) (\<lambda>recovered.
      case recovered of
        None \<Rightarrow> reopen_recorded cd dir at ids
      | Some w \<Rightarrow>
          if ws_working_directory (w_settings w) = Some dir
          then act_bind (on_journal (journal_restore_workspace cd wid at)) (\<lambda>_.
            act_bind (act_modify (adopt_workspace wid w)) (\<lambda>_. act_return (Some wid)))
          else reopen_recorded cd dir at ids))" (is "keeps _ (act_bind ?m ?f)")
    unfolding keeps_def
  proof (intro allI impI)
    fix m assume sound: "manager_sound cd m"
    obtain r m1 where run: "on_journal (recover cd wid) m = (r, m1)" by fastforce
    note m1 = on_journal_sound [OF sound registry_actions_keep(6) run]
    show "manager_sound cd (snd (act_bind ?m ?f m))"
    proof (cases r)
      case (Inl e)
      with run m1(1) show ?thesis by (simp add: act_bind_def)
    next
      case (Inr recovered)
      have cont: "act_bind ?m ?f m = ?f recovered m1" using run Inr by (simp add: act_bind_def)
      show ?thesis
      proof (cases "\<exists>w. recovered = Some w \<and> ws_working_directory (w_settings w) = Some dir")
        case False
        then have "act_bind ?m ?f m = reopen_recorded cd dir at ids m1"
          unfolding cont by (auto split: option.split)
        then show ?thesis using Cons.IH m1(1) by (simp add: keeps_def)
      next
        case True
        then obtain w where w: "recovered = Some w" "ws_working_directory (w_settings w) = Some dir" by blast
        have "recover_rows cd wid (mg_journal m1) = Inr (Some w)"
          using run Inr w(1) by (auto simp: on_journal_run recover_def act_bind_def map_err_def
              split: sum.splits prod.splits)
        obtain q m2 where restore: "on_journal (journal_restore_workspace cd wid at) m1 = (q, m2)" by fastforce
        note m2 = on_journal_sound [OF m1(1) registry_actions_keep(7) restore]
        show ?thesis
        proof (cases q)
          case (Inl e)
          then show ?thesis unfolding cont using w restore m2(1) by (simp add: act_bind_def)
        next
          case (Inr u)
          then show ?thesis
            unfolding cont using w restore sound_adopt [OF m2(1)] m2(2)
              \<open>recover_rows cd wid (mg_journal m1) = Inr (Some w)\<close>
            by (simp add: act_bind_def)
        qed
      qed
    qed
  qed
  show ?case
    unfolding reopen_recorded.simps
    by (rule sounds.keeps_bind [OF sounds.keeps_pure(4)]) (use search Cons.IH in simp)
next
  case Nil
  show ?case unfolding reopen_recorded.simps by (rule sounds.keeps_pure)
qed

section \<open>Creating a workspace\<close>

lemma fold_max_words: "n \<le> fold max xs n \<and> (\<forall>x\<in>set xs. x \<le> fold max xs (n :: 'a :: linorder))"
  by (induction xs arbitrary: n) (auto, (metis max.bounded_iff)+)

lemma next_workspace_id_fresh:
  assumes "manager_sound cd m" and "next_workspace_id m = (Inr wid, m')"
  shows "workspace_key wid \<notin> er_workspace ` set (jr_events (mg_journal m'))"
proof
  assume recorded: "workspace_key wid \<in> er_workspace ` set (jr_events (mg_journal m'))"
  from assms(2) obtain ids where ids: "on_journal recorded_workspace_ids m = (Inr ids, m')"
    and wid: "checked_add (fold max (map id_get ids) 0) 1 = Some (id_get wid)"
    by (cases wid) (auto simp: next_workspace_id_def act_bind_Inr_iff map_err_Inr_iff ok_or_Inr_iff)
  note same = on_journal_sound(3) [OF assms(1) registry_actions_keep(2) ids]
  from ids have "recorded_workspace_ids (mg_journal m) = (Inr ids, snd (recorded_workspace_ids (mg_journal m)))"
    by (auto simp: on_journal_run map_err_Inr_iff prod_eq_iff)
  then obtain t where db: "use_database (mg_journal m) = (Inr (), t)"
    and "try_map parse_workspace_id (remdups (map er_workspace (jr_events t))) = Inr ids"
    unfolding recorded_workspace_ids_def by (auto simp: act_bind_Inr_iff)
  then have "try_map parse_workspace_id (remdups (map er_workspace (jr_events (mg_journal m)))) = Inr ids"
    using keepsD [OF keeps_use_database db] by (simp add: same_tables_def)
  then have all: "list_all2 (\<lambda>x y. parse_workspace_id x = Inr y)
      (remdups (map er_workspace (jr_events (mg_journal m)))) ids" by (simp add: try_map_Inr_iff)
  have "parse_workspace_id (workspace_key wid) = Inr wid"
    by (cases wid) (simp add: parse_workspace_id_def workspace_key_def)
  moreover from recorded same have "workspace_key wid \<in> set (remdups (map er_workspace (jr_events (mg_journal m))))"
    by auto
  then obtain i where i: "i < length (remdups (map er_workspace (jr_events (mg_journal m))))"
    "remdups (map er_workspace (jr_events (mg_journal m))) ! i = workspace_key wid"
    unfolding in_set_conv_nth by blast
  ultimately have "ids ! i = wid" using list_all2_nthD [OF all i(1)] by simp
  moreover have "i < length ids" using i(1) list_all2_lengthD [OF all] by simp
  ultimately have "wid \<in> set ids" by (metis nth_mem)
  then have "id_get wid \<le> fold max (map id_get ids) 0" using fold_max_words [of 0 "map id_get ids"] by auto
  moreover have "unat (id_get wid) = unat (fold max (map id_get ids) 0) + 1"
    using wid by (simp add: checked_add_Some_iff)
  ultimately show False by (simp add: word_le_nat_alt)
qed

lemma sound_new_workspace:
  assumes faithful: "faithful cd" and sound: "manager_sound cd m"
    and fresh: "workspace_key wid \<notin> er_workspace ` set (jr_events (mg_journal m))"
    and run: "journal_execute cd (workspace_new wid nm) (DC_UpdateWorkspaceSettings s) at (mg_journal m) = (r, j')"
    and valid: "name_valid nm" "settings_valid s"
  shows "manager_sound cd (m\<lparr>mg_journal := j'\<rparr>)"
    and "r = Inr (w, e) \<Longrightarrow> recover_rows cd wid j' = Inr (Some w)"
proof -
  from sound obtain ws where ws: "journal_sound cd ws (mg_journal m)"
    "\<And>i v. manager_workspace m i = Some v \<Longrightarrow>
      v = ws i \<and> workspace_key i \<in> er_workspace ` set (jr_events (mg_journal m))"
    unfolding manager_sound_def by blast
  have nid: "w_id (workspace_new wid nm) = wid" by (simp add: workspace_new_def)
  have "sn_workspace ` set (jr_snapshots (mg_journal m)) = er_workspace ` set (jr_events (mg_journal m))"
    using ws(1) by (simp add: journal_sound_def)
  with fresh have "s \<in> set (jr_snapshots (mg_journal m)) \<Longrightarrow> sn_workspace s \<noteq> workspace_key wid" for s
    by (metis image_eqI)
  then have rb: "rebuilds cd (mg_journal m) (workspace_new wid nm)" by (auto simp: rebuilds_def nid)
  have unplaced: "placed_since cd (mg_journal m) (workspace_new wid nm)"
    using fresh by (auto simp: placed_since_def nid) (metis image_eqI)
  have "manager_sound cd (m\<lparr>mg_journal := j'\<rparr>) \<and> (\<forall>w e. r = Inr (w, e) \<longrightarrow> recover_rows cd wid j' = Inr (Some w))"
    using journal_execute_cases [OF run]
  proof (elim disjE exE conjE)
    fix e assume "r = Inl e" "same_tables (mg_journal m) j'"
    with sound sound_frame [of m "m\<lparr>mg_journal := j'\<rparr>" cd] show ?thesis by (simp add: manager_workspace_def)
  next
    fix w' e es assume r: "r = Inr (w', e)"
      and batch: "journal_execute_batch cd (workspace_new wid nm) [DC_UpdateWorkspaceSettings s] at (mg_journal m) =
        (Inr (w', e # es), j')"
    from execute_batch_cases [OF batch] obtain log where
      "try_fold (run_logged execute) (workspace_new wid nm, []) [DC_UpdateWorkspaceSettings s] = Inr (w', log)" by blast
    then have "w' = (workspace_new wid nm)\<lparr>w_settings := s\<rparr>"
      by (auto simp: run_logged_def execute_def decide_def decide_settings_def apply_event_def
          apply_settings_changed_def result_iff split: if_splits)
    then have read: "read_workspace snapshot_format_version (save_workspace w') = Inr w'"
      using read_only_settings [OF valid(2)] by simp
    note commit = sound_commit [OF faithful ws(1) rb storable_new [OF valid(1)] _
      settings_recordable [OF storable_new [OF valid(1)] valid(2)] unplaced batch, unfolded nid, simplified, OF disjI2, OF read]
    have "v = (ws(wid := w')) i \<and> workspace_key i \<in> er_workspace ` set (jr_events j')"
      if "manager_workspace m i = Some v" for i v
      using ws(2) [OF that] fresh commit(2) by auto
    with commit(1) have "manager_sound cd (m\<lparr>mg_journal := j'\<rparr>)"
      unfolding manager_sound_def by (intro exI [of _ "ws(wid := w')"]) (simp add: manager_workspace_def)
    moreover have "recover_rows cd wid j' = Inr (Some w')"
      using sound_recovers [OF commit(1), of wid] commit(2) by simp
    ultimately show ?thesis using r by simp
  qed
  then show "manager_sound cd (m\<lparr>mg_journal := j'\<rparr>)"
    and "r = Inr (w, e) \<Longrightarrow> recover_rows cd wid j' = Inr (Some w)" by blast+
qed

lemma keeps_runD: "keeps (sound_step cd) f \<Longrightarrow> manager_sound cd m \<Longrightarrow> f m = (r, m') \<Longrightarrow> manager_sound cd m'"
  using keepsD by fastforce

lemma next_workspace_id_sound: "keeps (sound_step cd) next_workspace_id"
  unfolding next_workspace_id_def
  by (intro sounds.keeps_bind sounds.keeps_pure keeps_sound_journal registry_actions_keep)

lemma create_new_sound:
  assumes faithful: "faithful cd" and valid: "name_valid nm" "settings_valid s"
  shows "keeps (sound_step cd) (act_bind next_workspace_id (\<lambda>wid.
    act_bind (on_journal (journal_execute cd (workspace_new wid nm) (DC_UpdateWorkspaceSettings s) at)) (\<lambda>(w, _).
    act_bind (act_modify (adopt_workspace wid w)) (\<lambda>_. act_return wid))))" (is "keeps _ (act_bind _ ?f)")
  unfolding keeps_def
proof (intro allI impI)
  fix m assume sound: "manager_sound cd m"
  obtain r m1 where run: "next_workspace_id m = (r, m1)" by fastforce
  have m1: "manager_sound cd m1" by (rule keeps_runD [OF next_workspace_id_sound sound run])
  show "manager_sound cd (snd (act_bind next_workspace_id ?f m))"
  proof (cases r)
    case (Inl e)
    with run m1 show ?thesis by (simp add: act_bind_def)
  next
    case (Inr wid)
    have fresh: "workspace_key wid \<notin> er_workspace ` set (jr_events (mg_journal m1))"
      by (rule next_workspace_id_fresh [OF sound run [unfolded Inr]])
    obtain q j' where exec: "journal_execute cd (workspace_new wid nm)
      (DC_UpdateWorkspaceSettings s) at (mg_journal m1) = (q, j')" by fastforce
    have m2: "manager_sound cd (m1\<lparr>mg_journal := j'\<rparr>)"
      and found: "\<And>w e. q = Inr (w, e) \<Longrightarrow> recover_rows cd wid j' = Inr (Some w)"
      using sound_new_workspace [OF faithful m1 fresh exec valid] by blast+
    show ?thesis
    proof (cases q)
      case (Inl e)
      with run \<open>r = Inr wid\<close> exec m2 show ?thesis by (simp add: act_bind_def on_journal_run map_err_def)
    next
      case (Inr p)
      obtain w e where p: "p = (w, e)" by (cases p)
      have "manager_sound cd (adopt_workspace wid w (m1\<lparr>mg_journal := j'\<rparr>))"
        by (rule sound_adopt [OF m2]) (use found Inr p in simp)
      with run \<open>r = Inr wid\<close> exec Inr p show ?thesis by (simp add: act_bind_def on_journal_run map_err_def)
    qed
  qed
qed

lemma create_workspace_sound:
  assumes faithful: "faithful cd" and found: "found_valid directory"
  shows "keeps (sound_step cd) (create_workspace cd directory at)"
proof (cases directory)
  case (Inl e)
  then show ?thesis by (simp add: create_workspace_def keeps_def act_bind_def act_lift_def)
next
  case (Inr p)
  obtain dir file_name where p: "p = (dir, file_name)" by (cases p)
  have dir: "directory_valid dir" using found Inr p by (simp add: found_valid_def)
  have fresh: "keeps (sound_step cd) (act_bind (act_lift (map_err WE_Validation (name_new n))) (\<lambda>nm.
           act_bind next_workspace_id (\<lambda>wid.
           act_bind (on_journal (journal_execute cd (workspace_new wid nm)
             (DC_UpdateWorkspaceSettings \<lparr>ws_name = nm, ws_icon = None, ws_working_directory = Some dir,
                ws_instructions = None\<rparr>) at)) (\<lambda>(w, _).
           act_bind (act_modify (adopt_workspace wid w)) (\<lambda>_. act_return wid)))))" for n
  proof (rule keeps_lift_bind, rule create_new_sound [OF faithful])
    fix nm assume "map_err WE_Validation (name_new n) = Inr nm"
    then show nm: "name_valid nm" by (simp add: map_err_Inr_iff new_texts_valid)
    then show "settings_valid \<lparr>ws_name = nm, ws_icon = None, ws_working_directory = Some dir, ws_instructions = None\<rparr>"
      using dir by (simp add: settings_valid_def)
  qed
  have tail: "keeps (sound_step cd) (case reopened of Some wid \<Rightarrow> act_return wid | None \<Rightarrow> f)"
    if "keeps (sound_step cd) f" for reopened :: "workspace_id option" and f
    using that sounds.keeps_pure(1) by (cases reopened) (simp_all only: option.case)
  have "keeps (sound_step cd) (create_workspace cd (Inr (dir, file_name)) at)"
    unfolding create_workspace_def
    by (simp only: act_bind_run prod.case,
      rule sounds.keeps_bind [OF keeps_sound_journal [OF registry_actions_keep(2)]],
      rule sounds.keeps_bind [OF reopen_recorded_sound], rule tail, rule fresh)
  then show ?thesis using Inr p by simp
qed

section \<open>Histories of a manager\<close>

text \<open>
  What the application does with the manager, from an empty database on: directories come from
  \<open>validate_directory\<close>, and what the commands carry from constructors, with no draft of blanks. The
  database may be closed and opened again at any time.
\<close>

inductive manager_history :: "codec \<Rightarrow> manager \<Rightarrow> bool" for cd :: codec where
  history_open: "manager_open cd (journal_empty\<lparr>jr_faults := fs\<rparr>) = Inr m \<Longrightarrow> manager_history cd m"
| history_reopen: "manager_history cd m \<Longrightarrow>
    manager_open cd ((mg_journal m)\<lparr>jr_faults := fs\<rparr>) = Inr m' \<Longrightarrow> manager_history cd m'"
| history_create: "manager_history cd m \<Longrightarrow> found_valid directory \<Longrightarrow>
    create_workspace cd directory at m = (r, m') \<Longrightarrow> manager_history cd m'"
| history_execute: "manager_history cd m \<Longrightarrow> may_record m wid [c] \<Longrightarrow>
    manager_execute cd wid c at m = (s, m') \<Longrightarrow> manager_history cd m'"
| history_batch: "manager_history cd m \<Longrightarrow> may_record m wid cs \<Longrightarrow>
    manager_execute_batch cd wid cs at m = (t, m') \<Longrightarrow> manager_history cd m'"
| history_settings: "manager_history cd m \<Longrightarrow> found_valid directory \<Longrightarrow>
    update_settings cd wid directory nm icon instructions at m = (s, m') \<Longrightarrow> manager_history cd m'"
| history_switch: "manager_history cd m \<Longrightarrow> manager_switch wid at m = (u, m') \<Longrightarrow> manager_history cd m'"
| history_remove: "manager_history cd m \<Longrightarrow> manager_remove_workspace wid m = (u, m') \<Longrightarrow>
    manager_history cd m'"

lemma default_name_valid: "name_valid (Name ''Workspace'')"
  unfolding name_valid_def by code_simp

lemma try_map_found: "try_map f xs = Inr ys \<Longrightarrow> y \<in> set ys \<Longrightarrow> \<exists>x\<in>set xs. f x = Inr y"
  by (induction xs arbitrary: ys) (auto simp: result_iff)

lemma opened_workspace:
  assumes sound: "journal_sound cd ws j" and run: "open_workspace cd wid j = (Inr w, j')"
  shows "same_tables j j'" and "w = ws wid \<and> workspace_key wid \<in> er_workspace ` set (jr_events j)"
proof -
  obtain q j1 where rec0: "recover cd wid j = (q, j1)" by fastforce
  have "\<exists>v. q = Inr (Some v)"
  proof (cases q)
    case (Inl err)
    with run rec0 show ?thesis by (simp add: open_workspace_def act_bind_def act_map_err_def map_err_def)
  next
    case (Inr found)
    with run rec0 show ?thesis
      by (cases found) (simp_all add: open_workspace_def act_bind_def act_map_err_def map_err_def)
  qed
  then obtain v where rec: "recover cd wid j = (Inr (Some v), j1)" using rec0 by blast
  then have "act_map_err WE_Persistence (recover cd wid) j = (Inr (Some v), j1)"
    by (simp add: act_map_err_def map_err_def)
  then have "act_bind (act_map_err WE_Persistence (recover cd wid)) f j = f (Some v) j1"
    for f :: "workspace option \<Rightarrow> (journal, workspace_error, workspace) action" by (rule act_bind_eqs(2))
  from run [unfolded open_workspace_def this option.case]
  have rest: "(if list_ex (\<lambda>a. agent_ident a \<notin> set (shown_agents (bm_values (w_nodes v)))) (bm_values (w_agents v))
           then act_bind (act_try (timeline_after cd wid None)) (\<lambda>events.
             act_return (case events of
               Inr es \<Rightarrow> archive_unplaced_agents (previously_placed es) v
             | Inl (_ :: persistence_error) \<Rightarrow> v))
           else act_return v) j1 = (Inr w :: (workspace_error, workspace) result, j')" .
  have same1: "same_tables j j1" by (rule keepsD [OF registry_actions_keep(6) rec])
  have sound1: "journal_sound cd ws j1" using sound by (simp add: journal_sound_tables [OF same1])
  have "recover_rows cd wid j1 = Inr (Some v)"
    using rec by (auto simp: recover_def act_bind_def split: sum.splits prod.splits)
  with sound_recovers [OF sound1, of wid] have v: "v = ws wid"
    and key: "workspace_key wid \<in> er_workspace ` set (jr_events j1)" by (auto split: if_splits)
  have placed: "placed_since cd j1 v" and vid: "w_id v = wid" using sound1 v by (simp_all add: journal_sound_def)
  have "same_tables j1 j' \<and> w = v"
  proof (cases "list_ex (\<lambda>a. agent_ident a \<notin> set (shown_agents (bm_values (w_nodes v)))) (bm_values (w_agents v))")
    case False
    with rest show ?thesis by (simp add: same_tables_def)
  next
    case True
    obtain events j2 where time: "timeline_after cd wid None j1 = (events, j2)" by fastforce
    with rest True have w: "w = (case events of Inr es \<Rightarrow> archive_unplaced_agents (previously_placed es) v | Inl _ \<Rightarrow> v)"
      and "j' = j2" by (auto simp: act_bind_def act_try_def)
    moreover have "same_tables j1 j2" by (rule keepsD [OF registry_actions_keep(8) time])
    moreover have "w = v"
    proof (cases events)
      case (Inr es)
      have "archive_unplaced_agents (previously_placed es) v = v"
      proof (rule archive_unplaced_none)
        fix a assume a: "a \<in> set (previously_placed es)" and active: "bm_contains (w_agents v) a"
        from a obtain te where te: "te \<in> set es" "a \<in> set (event_agents (te_event te))"
          by (auto simp: previously_placed_def set_bm_keys bs_elems_def [symmetric])
        from time Inr have "try_map (decode_event_row cd (workspace_key wid) wid)
            (load_events_after (workspace_key wid) 0 j2) = Inr es"
          by (auto simp: timeline_after_def act_bind_def split: sum.splits prod.splits)
        then have "\<exists>row\<in>set (load_events_after (workspace_key wid) 0 j2).
            decode_event_row cd (workspace_key wid) wid row = Inr te"
          using te(1) by (rule try_map_found)
        then obtain row where "row \<in> set (jr_events j1)" "er_workspace row = workspace_key wid"
          "decode_event_row cd (workspace_key wid) wid row = Inr te"
          using \<open>same_tables j1 j2\<close> by (auto simp: load_events_after_def same_tables_def)
        with placed te(2) vid have "settled_agent v a" unfolding placed_since_def by blast
        with active show "on_canvas v a" by (simp add: settled_agent_def)
      qed
      then show ?thesis using w Inr by simp
    qed (use w in simp)
    ultimately show ?thesis by blast
  qed
  with same1 show "same_tables j j'" by (auto simp: same_tables_def)
  show "w = ws wid \<and> workspace_key wid \<in> er_workspace ` set (jr_events j)"
    using \<open>same_tables j1 j' \<and> w = v\<close> v key same1 by (simp add: same_tables_def)
qed

lemma opened_workspaces:
  assumes "journal_sound cd ws j" and "open_workspaces cd ids acc j = (Inr ws_open, j')"
    and "\<And>i w. bm_get acc i = Some w \<Longrightarrow> w = ws i \<and> workspace_key i \<in> er_workspace ` set (jr_events j)"
  shows "same_tables j j' \<and> (\<forall>i w. bm_get ws_open i = Some w \<longrightarrow>
    w = ws i \<and> workspace_key i \<in> er_workspace ` set (jr_events j))"
  using assms
proof (induction ids arbitrary: acc j)
  case Nil
  then show ?case by (simp add: same_tables_def)
next
  case (Cons wid ids)
  from Cons.prems(2) obtain w j1 where first: "open_workspace cd wid j = (Inr w, j1)"
    and rest: "open_workspaces cd ids (bm_insert wid w acc) j1 = (Inr ws_open, j')"
    by (auto simp: act_bind_Inr_iff)
  note one = opened_workspace [OF Cons.prems(1) first]
  have same: "jr_events j1 = jr_events j" "jr_snapshots j1 = jr_snapshots j" using one(1) by (simp_all add: same_tables_def)
  have "journal_sound cd ws j1" using Cons.prems(1) by (simp add: journal_sound_tables [OF one(1)])
  moreover have "bm_get (bm_insert wid w acc) i = Some v \<Longrightarrow>
      v = ws i \<and> workspace_key i \<in> er_workspace ` set (jr_events j1)" for i v
    using one(2) Cons.prems(3) [of i v] same(1) by (cases "i = wid") simp_all
  ultimately have "same_tables j1 j' \<and> (\<forall>i w. bm_get ws_open i = Some w \<longrightarrow>
      w = ws i \<and> workspace_key i \<in> er_workspace ` set (jr_events j1))"
    by (rule Cons.IH [OF _ rest])
  then show ?case unfolding same_tables_def same .
qed

lemma manager_open_sound:
  assumes sound: "journal_sound cd ws j" and "manager_open cd (j\<lparr>jr_faults := fs\<rparr>) = Inr m"
  shows "manager_sound cd m"
proof -
  let ?j = "j\<lparr>jr_faults := fs\<rparr>"
  obtain p k where run: "act_bind (act_map_err WE_Persistence recent_workspace_ids) (\<lambda>recent.
           act_bind (open_workspaces cd recent bm_empty) (\<lambda>ws.
           act_bind (act_map_err WE_Persistence journal_active_id) (\<lambda>active.
             case active of
               Some wid \<Rightarrow> if \<not> bm_contains ws wid then act_fail (WE_MissingPersistedWorkspace wid)
                 else act_return (recent, ws, active)
             | None \<Rightarrow> act_return (recent, ws, active)))) ?j = (Inr p, k)"
    and m: "m = \<lparr>mg_journal = k, mg_workspaces = fst (snd p), mg_recent = fst p, mg_active = snd (snd p)\<rparr>"
    using assms(2) unfolding manager_open_def by (auto split: sum.splits prod.splits)
  from run obtain recent j1 ws_open j2 active where
    r: "act_map_err WE_Persistence recent_workspace_ids ?j = (Inr recent, j1)"
    and o: "open_workspaces cd recent bm_empty j1 = (Inr ws_open, j2)"
    and a: "act_map_err WE_Persistence journal_active_id j2 = (Inr active, k)"
    and p: "p = (recent, ws_open, active)"
    by (auto simp: act_bind_Inr_iff split: option.splits if_splits)
  have start: "same_tables ?j j1" "same_tables j2 k"
    using keepsD [OF tables.keeps_map_err [OF registry_actions_keep(1)] r]
      keepsD [OF tables.keeps_map_err [OF registry_actions_keep(3)] a] by blast+
  have "same_tables j j1" using start(1) by (simp add: same_tables_def)
  then have sound1: "journal_sound cd ws j1" using sound by (simp add: journal_sound_tables)
  have all: "same_tables j1 j2 \<and> (\<forall>i w. bm_get ws_open i = Some w \<longrightarrow>
      w = ws i \<and> workspace_key i \<in> er_workspace ` set (jr_events j1))"
    by (rule opened_workspaces [OF sound1 o]) simp
  have same: "same_tables j1 k" using all start(2) by (simp add: same_tables_def)
  have "journal_sound cd ws k" using sound1 by (simp add: journal_sound_tables [OF same])
  moreover have "jr_events k = jr_events j1" using same by (simp add: same_tables_def)
  ultimately show ?thesis
    using all unfolding manager_sound_def by (intro exI [of _ ws]) (simp add: m p manager_workspace_def)
qed

lemma manager_open_empty:
  assumes "manager_open cd (journal_empty\<lparr>jr_faults := fs\<rparr>) = Inr m"
  shows "manager_sound cd m"
proof (rule manager_open_sound [OF _ assms])
  show "journal_sound cd (\<lambda>wid. workspace_new wid (Name ''Workspace'')) journal_empty"
    using default_name_valid
    by (simp add: journal_sound_def journal_ordered_def rebuilds_def placed_since_def storable_new journal_empty_def)
      (simp add: workspace_new_def)
qed

lemma manager_reopen_sound:
  assumes "manager_sound cd m" and "manager_open cd ((mg_journal m)\<lparr>jr_faults := fs\<rparr>) = Inr m'"
  shows "manager_sound cd m'"
  using assms manager_open_sound unfolding manager_sound_def by blast

lemma manager_history_sound:
  assumes faithful: "faithful cd" and "manager_history cd m"
  shows "manager_sound cd m"
  using assms(2)
proof (induction rule: manager_history.induct)
  case (history_execute m wid c at s m')
  then show ?case using manager_execute_step [OF faithful history_execute.IH history_execute.hyps(2), of at] by simp
next
  case (history_batch m wid cs at t m')
  then show ?case using manager_batch_step [OF faithful history_batch.IH history_batch.hyps(2), of at] by simp
qed (rule manager_open_empty manager_reopen_sound keeps_runD [OF create_workspace_sound [OF faithful]]
    keeps_runD [OF update_settings_sound [OF faithful]] keeps_runD [OF manager_switch_sound]
    keeps_runD [OF manager_remove_sound]; assumption)+


definition sample_settings :: workspace_settings where
  "sample_settings = \<lparr>ws_name = Name ''p'', ws_icon = None,
     ws_working_directory = Some (WorkspaceDirectory ''/p''), ws_instructions = None\<rparr>"

definition sample_created :: workspace where
  "sample_created = (workspace_new (Id 1) (Name ''p''))\<lparr>w_settings := sample_settings\<rparr>"

definition sample_created_event :: domain_event where
  "sample_created_event =
     EV_WorkspaceSettingsChanged (w_settings (workspace_new (Id 1) (Name ''p''))) sample_settings"

definition sample_created_codec :: codec where
  "sample_created_codec =
     \<lparr>cd_hash = id,
      cd_write_workspace = (\<lambda>s. if s = save_workspace sample_created then Some [1] else None),
      cd_read_workspace = (\<lambda>p. if p = [1] then Some (save_workspace sample_created) else None),
      cd_write_event = (\<lambda>e. if e = save_event sample_created_event then Some [2] else None),
      cd_read_event = (\<lambda>p. if p = [2] then Some (save_event sample_created_event) else None)\<rparr>"

lemma sample_create:
  "\<exists>j. create_workspace sample_created_codec (Inr (WorkspaceDirectory ''/p'', Some ''p'')) 5
       \<lparr>mg_journal = journal_empty, mg_workspaces = bm_empty, mg_recent = [], mg_active = None\<rparr> =
     (Inr (Id 1), \<lparr>mg_journal = j, mg_workspaces = bm_insert (Id 1) sample_created bm_empty,
        mg_recent = [Id 1], mg_active = Some (Id 1)\<rparr>)"
proof -
  have name: "name_new ''p'' = Inr (Name ''p'')" by code_simp
  have blank: "str_trim ''p'' = ''p''" by code_simp
  have "execute (workspace_new (Id 1) (Name ''p'')) (DC_UpdateWorkspaceSettings sample_settings) =
      Inr (sample_created, sample_created_event)"
    by (simp add: execute_def decide_def decide_settings_def apply_event_def apply_settings_changed_def
        sample_created_def sample_created_event_def) (simp add: workspace_new_def sample_settings_def ensure_def)
  then have plan: "plan_command sample_created_codec (workspace_new (Id 1) (Name ''p''), None, [])
        (DC_UpdateWorkspaceSettings sample_settings) =
      Inr (sample_created, Some [1],
        [([2], sample_created_event)])"
    by (simp add: plan_command_def sample_created_codec_def map_err_def encode_workspace_def encode_event_def ok_or_def)
  have "\<exists>j e. journal_execute sample_created_codec (workspace_new (Id 1) (Name ''p''))
      (DC_UpdateWorkspaceSettings sample_settings) 5 journal_empty = (Inr (sample_created, e), j)"
    by (simp add: journal_execute_def journal_execute_batch_def act_bind_def plan use_database_def
        insert_records_def register_workspace_def Let_def)
      (simp add: journal_empty_def sample_created_codec_def encode_workspace_def ok_or_def)
  then obtain j e where exec: "journal_execute sample_created_codec (workspace_new (Id 1) (Name ''p''))
      (DC_UpdateWorkspaceSettings sample_settings) 5 journal_empty = (Inr (sample_created, e), j)" by blast
  have ids: "recorded_workspace_ids journal_empty = (Inr [], journal_empty)"
    by (simp add: recorded_workspace_ids_def act_bind_def use_database_def journal_empty_def)
  show ?thesis
    by (simp add: create_workspace_def act_bind_def on_journal_run ids map_err_def name blank
        next_workspace_id_def checked_add_def ok_or_def exec [unfolded sample_settings_def]
        adopt_workspace_def mark_recent_def put_workspace_def)
qed


end
