(* ===== verification/Stored_Properties.thy ===== *)
theory Stored_Properties
  imports Journal_Recovery Handoff_Properties
begin

text \<open>
  What the stored records promise: events, handoffs and numbers of the canvas read back as they were
  written, a snapshot is never read as another workspace, and some snapshots do not read at all.
\<close>

section \<open>Events\<close>

text \<open>C11: An event whose values come from their constructors, and whose strokes are at least a tenth
  wide (the constructor rounds thinner ones to no tenths), reads back as itself from the record it
  is stored in, whatever format version the row carries, unless the event is newer than that version;
  it is never newer than the version it is written with, and two events never share a record.\<close>

theorem stored_event_reads_back:
  assumes "event_valid e"
  shows "read_event_of_version v (save_event e) = (if event_too_new v (save_event e) then Inl () else Inr e) \<and>
    \<not> event_too_new event_format_version (save_event e) \<and>
    (event_valid e' \<and> save_event e' = save_event e \<longrightarrow> e' = e)"
  using assms event_form.reads_back event_form.save_inject current_event_not_too_new
  by (simp add: read_event_of_version_def)

lemma stored_event_reads_back_witness:
  "read_event_of_version 1 (save_event (EV_AgentAdded sample_agent)) = Inr (EV_AgentAdded sample_agent) \<and>
   read_event_of_version 12 (save_event (EV_AgentRenamed (Id 4) (Name ''Ada'') (Name ''Demo''))) = Inl ()"
proof -
  have "event_valid (EV_AgentAdded sample_agent)" "event_valid (EV_AgentRenamed (Id 4) (Name ''Ada'') (Name ''Demo''))"
    using sample_names by (simp_all add: agent_recorded_def sample_agent_def agent_new_def agent_with_program_def)
  from stored_event_reads_back [OF this(1), of 1 "EV_AgentAdded sample_agent"]
    stored_event_reads_back [OF this(2), of 12 "EV_AgentAdded sample_agent"]
  show ?thesis
    by (simp add: event_too_new_def save_agent_def sample_agent_def agent_new_def agent_with_program_def)
qed

section \<open>Handoffs\<close>

text \<open>C12: A tracked handoff is stored as its log and read back by replaying the log; after any sequence
  of operations the replay succeeds and gives the same handoff.\<close>

theorem stored_handoff_reads_back:
  assumes "handoff_tracked hid mid origin recipient payload parent created_at deadline = Inr h"
    and "handoff_step\<^sup>*\<^sup>* h h'" and "handoff_valid h'"
  shows "read_handoff (save_handoff h') = Inr h'"
proof -
  from assms(2) have "handoff_replayable h'"
    using handoff_tracked_replayable [OF assms(1)]
    by (induction rule: rtranclp_induct) (auto dest: handoff_step_replayable)
  with assms(3) show ?thesis by (intro handoff_form.reads_back conjI)
qed

lemma stored_handoff_reads_back_witness: "read_handoff (save_handoff sample_delivered) = Inr sample_delivered"
proof (rule stored_handoff_reads_back [OF sample_tracked sample_delivery])
  have "list_all is_key_byte ''m1''"
    by (simp add: is_key_byte_def is_ascii_alphanumeric_def is_ascii_alphabetic_def is_ascii_digit_def byte_of_def)
  then have "message_id_valid (HandoffMessageId ''m1'')"
    by (simp add: message_id_valid_def handoff_message_id_new_def chars_count_def)
  moreover have "str_trim ''ready?'' \<noteq> []" by code_simp
  then have "content_valid (Content ''ready?'')"
    by (simp add: content_valid_def content_new_def content_max_chars_def chars_count_def)
  ultimately show "handoff_valid sample_delivered"
    by (simp add: handoff_valid_def sample_delivered_def sample_handoff_def)
qed

section \<open>Snapshots\<close>



text \<open>The routines of a snapshot are read before its floors.\<close>

lemma claimed_floor_refused:
  assumes "v \<in> set (rt_versions r)" and "s \<in> set (ver_steps v)"
    and "claim_checkout (st_claims s) = CC_Floor f" and "w_floors w = floors_default"
  shows "apply_snapshot_command w (DC_AddRoutine r) \<noteq> Inr w'"
proof
  assume "apply_snapshot_command w (DC_AddRoutine r) = Inr w'"
  then have "check_all (validate_routine_version w) (rt_versions r) = Inr ()"
    by (auto simp: apply_snapshot_command_Inr_iff decide_def apply_event_def apply_routine_added_def result_iff)
  with assms(1,2) have "validate_routine_step w (ver_id v) s = Inr ()"
    by (auto simp: validate_routine_version_def check_all_Inr_iff)
  with assms(3,4) show False
    by (auto simp: validate_routine_step_def res_bind_Inr_iff ensure_Inr_iff floors_default_def)
qed

lemma restore_routines_floors:
  assumes "restore_all read_routine DC_AddRoutine (map save_routine rs) w = Inr w'"
    and "\<forall>r\<in>set rs. routine_valid r" and "w_floors w = floors_default" and "r \<in> set rs"
  shows "\<exists>u u'. w_floors u = floors_default \<and> apply_snapshot_command u (DC_AddRoutine r) = Inr u'"
  using assms
proof (induction rs arbitrary: w)
  case (Cons x rs)
  then obtain w1 where w1: "apply_snapshot_command w (DC_AddRoutine x) = Inr w1"
    "restore_all read_routine DC_AddRoutine (map save_routine rs) w1 = Inr w'"
    by (auto simp: restore_all_def res_bind_Inr_iff routine_form.reads_back)
  show ?case
  proof (cases "r = x")
    case True
    with w1(1) Cons.prems(3) show ?thesis by blast
  next
    case False
    have "w_floors w1 = floors_default" using snapshot_addition(5) [OF w1(1)] Cons.prems(3) by simp
    with Cons.IH [OF w1(2)] Cons.prems(2,4) False show ?thesis by simp
  qed
qed simp

text \<open>C13: A snapshot of a workspace in which some version of some routine has a step that claims a floor
  is refused when it is read: reading adds the routines while the workspace still has no floors.\<close>

theorem floor_claim_snapshot_refused:
  assumes "storable w" and "bm_get (w_routines w) k = Some r" and "v \<in> set (rt_versions r)"
    and "s \<in> set (ver_steps v)" and "claim_checkout (st_claims s) = CC_Floor f"
  shows "read_workspace snapshot_format_version (save_workspace w) = Inl ()"
proof (cases "read_workspace snapshot_format_version (save_workspace w)")
  case (Inr u)
  have valid: "workspace_valid w" using assms(1) by (simp add: storable_def)
  have settings: "restore_settings (save_workspace w) = Inr (unfilled w)"
    using valid by (intro restore_settings_back) (simp add: workspace_valid_def)
  have stored: "sw_profiles (save_workspace w) = map save_profile (bm_values (w_profiles w))"
    "sw_presets (save_workspace w) = map save_preset (bm_values (w_presets w))"
    "sw_roles (save_workspace w) = map save_role (bm_values (w_roles w))"
    "sw_agents (save_workspace w) = map save_agent (recorded_agents w)"
    "sw_routines (save_workspace w) = map save_routine (bm_values (w_routines w))"
    by (simp_all add: save_workspace_def)
  obtain c where "restore_config 12 (save_workspace w) (unfilled w) = Inr c"
    using Inr settings by (auto simp: read_workspace_def snapshot_format_version_def res_bind_Inr_iff split: if_splits)
  then obtain w1 w2 w3 w4 w5 where
    stages: "restore_all read_profile DC_AddEnvironmentProfile (map save_profile (bm_values (w_profiles w)))
      (unfilled w) = Inr w1"
    "restore_all read_preset DC_AddCommandPreset (map save_preset (bm_values (w_presets w))) w1 = Inr w2"
    "restore_all read_role DC_AddRole (map save_role (bm_values (w_roles w))) w2 = Inr w3"
    "try_fold restore_agent_v1 w3 (map save_agent (recorded_agents w)) = Inr w4"
    "restore_all read_routine DC_AddRoutine (map save_routine (bm_values (w_routines w))) w4 = Inr w5"
    unfolding restore_config_def stored by (auto simp: res_bind_Inr_iff split: if_splits)
  have values_ok: "\<forall>x\<in>set (bm_values (w_profiles w)). profile_valid x" "\<forall>x\<in>set (bm_values (w_presets w)). preset_valid x"
    "\<forall>x\<in>set (bm_values (w_roles w)). role_valid x" "\<forall>x\<in>set (recorded_agents w). agent_valid x"
    "\<forall>x\<in>set (bm_values (w_routines w)). routine_valid x"
    using valid by (auto simp: workspace_valid_def all_values_list recorded_agents_def)
  have "w_floors w4 = floors_default"
    unfolding restore_agents_exact [OF stages(4) values_ok(4)] restore_roles_exact [OF stages(3) values_ok(3)]
      restore_presets_exact [OF stages(2) values_ok(2)] restore_profiles_exact [OF stages(1) values_ok(1)] by simp
  from restore_routines_floors [OF stages(5) values_ok(5) this, of r] assms(2)
  obtain a b where "w_floors a = floors_default" "apply_snapshot_command a (DC_AddRoutine r) = Inr b"
    by (auto simp: set_bm_values)
  with claimed_floor_refused [OF assms(3-5)] show ?thesis by blast
qed simp

definition claiming_step :: routine_step where
  "claiming_step = sample_first\<lparr>st_claims := \<lparr>claim_checkout = CC_Floor 1, claim_resources = bm_empty\<rparr>\<rparr>"

definition claiming_version :: routine_version where
  "claiming_version = sample_version\<lparr>ver_steps := [claiming_step]\<rparr>"

definition claiming_routine :: routine where
  "claiming_routine = \<lparr>rt_id = Id 5, rt_name = Name ''ship'', rt_description = None,
     rt_versions = [claiming_version], rt_triggers = bm_empty\<rparr>"

definition sample_floor :: floor where
  "sample_floor = \<lparr>fl_name = Name ''main'', fl_directory = WorkspaceDirectory ''/p'',
     fl_repository = WorkspaceDirectory ''/p'', fl_branch = None, fl_base_revision = ''abc'',
     fl_base_branch = None, fl_managed = False, fl_ownership_token = None, fl_owner = None,
     fl_dirty = False, fl_lifecycle = FL_Available\<rparr>"

definition sample_floors :: floors where
  "sample_floors = floors_default\<lparr>fs_entries := bm_insert 1 sample_floor bm_empty\<rparr>"

definition claiming_workspace :: workspace where
  "claiming_workspace = sample_with_agent\<lparr>w_floors := sample_floors,
     w_routines := bm_insert (Id 5) claiming_routine bm_empty\<rparr>"

lemma sample_routine_name: "name_valid (Name ''ship'')"
  unfolding name_valid_def by code_simp

lemma sample_step_name: "name_valid (Name ''plan'')"
  unfolding name_valid_def by code_simp

lemma sample_floor_name: "name_valid (Name ''main'')"
  unfolding name_valid_def by code_simp

lemma sample_directory: "directory_valid (WorkspaceDirectory ''/p'')"
  unfolding directory_valid_def by code_simp

lemmas sample_texts = sample_routine_name sample_step_name sample_floor_name sample_directory

lemma sample_prompt: "content_valid (Content ''plan it'')"
proof -
  have "str_trim ''plan it'' \<noteq> []" by code_simp
  then show ?thesis by (simp add: content_valid_def content_new_def content_max_chars_def chars_count_def)
qed

lemma sample_agent_storable: "storable sample_with_agent"
proof -
  have "apply_event sample_new (EV_AgentAdded sample_agent) = Inr sample_with_agent"
    using sample_add_agent by (rule execute_applies)
  moreover have "storable sample_new" using sample_names(2) by (simp add: sample_new_def storable_new)
  moreover have "recordable (EV_AgentAdded sample_agent)"
    using sample_recordable by (simp add: recordable_batch_def run_logged_def sample_add_agent)
  ultimately show ?thesis by (metis storable_step)
qed

lemma claiming_routine_valid: "routine_valid claiming_routine" "version_ok claiming_version"
proof -
  have new: "routine_version_new (Id 9) (Id 5) 1 [] [claiming_step] None 100 = Inr claiming_version" by code_simp
  then show "version_ok claiming_version"
    using routine_version_new_wf by (simp add: version_ok_def claiming_version_def claiming_step_def sample_first_def)
  have "key_valid output_key_new (Key ''plan'')" unfolding key_valid_def by code_simp
  moreover have "bm_keys (st_outputs claiming_step) = [Key ''plan'']" "bm_len (st_outputs claiming_step) = 1"
    by code_simp+
  ultimately have "step_valid claiming_step"
    using sample_texts sample_prompt
    by (simp add: step_valid_def max_routine_keys_def)
      (simp add: claiming_step_def sample_first_def bm_len_def bm_keys_def max_step_resources_def
        max_step_dependencies_def max_routine_keys_def)
  moreover have "ver_steps claiming_version = [claiming_step]" "ver_inputs claiming_version = []"
    "ver_template claiming_version = None" "ver_id claiming_version = Id 9" "ver_routine claiming_version = Id 5"
    "ver_number claiming_version = 1" "ver_created_at claiming_version = 100"
    by (simp_all add: claiming_version_def sample_version_def)
  ultimately have "version_valid claiming_version" using new by (simp add: version_valid_def)
  then show "routine_valid claiming_routine"
    using sample_texts
    by (simp add: routine_valid_def claiming_routine_def routine_wf_def bm_values_def claiming_version_def sample_version_def)
qed

lemma claiming_workspace_storable: "storable claiming_workspace"
proof -
  let ?w = "sample_with_agent\<lparr>w_floors := sample_floors\<rparr>"
  have "apply_event sample_with_agent (EV_FloorsChanged floors_default sample_floors) = Inr ?w"
    by (simp add: apply_event_def apply_floors_changed_def sample_floors_def floors_default_def sample_floor_def
        bm_values_def sample_with_agent_def check_option_def)
  moreover have "recordable (EV_FloorsChanged floors_default sample_floors)"
    using sample_texts by (simp add: recordable_def admissible_def blanks_draft_def floors_valid_def sample_floors_def
        floors_default_def bm_values_def floor_valid_def sample_floor_def)
  ultimately have floors: "storable ?w" using sample_agent_storable storable_step by blast
  have "apply_event ?w (EV_RoutineAdded claiming_routine) = Inr claiming_workspace"
    by (simp add: apply_event_def apply_routine_added_def claiming_routine_def bm_values_def
        validate_routine_version_def claiming_version_def validate_routine_step_def claiming_step_def
        sample_first_def sample_floors_def put_routine_def claiming_workspace_def ensure_absent_def
        ensure_reference_def) (simp add: sample_with_agent_def)
  moreover have "recordable (EV_RoutineAdded claiming_routine)"
    using claiming_routine_valid
    by (simp add: recordable_def admissible_def blanks_draft_def routine_event_ok_def routine_valid_def)
      (simp add: claiming_routine_def)
  ultimately show ?thesis using floors storable_step by blast
qed

lemma floor_claim_snapshot_refused_witness:
  "read_workspace snapshot_format_version (save_workspace claiming_workspace) = Inl ()"
  using claiming_workspace_storable
  by (rule floor_claim_snapshot_refused [where k = "Id 5" and r = claiming_routine and v = claiming_version
        and s = claiming_step and f = 1])
    (simp_all add: claiming_workspace_def claiming_routine_def claiming_version_def claiming_step_def)

section \<open>Numbers of the canvas\<close>

text \<open>C38: Positions inside a node and stroke widths survive the way through \<open>f32\<close>: every position up to
  ten thousand and every width of at least one tenth reads back exactly.\<close>

theorem canvas_numbers_survive:
  "(unat x \<le> normalized_max \<and> unat y \<le> normalized_max \<longrightarrow>
     normalized_point_new (normalized_x (NormalizedPoint x y)) (normalized_y (NormalizedPoint x y)) =
       Inr (NormalizedPoint x y)) \<and>
   (0 < n \<and> unat n \<le> stroke_max_tenths \<longrightarrow>
     stroke_width_new (stroke_width_get (StrokeWidth n)) = Inr (StrokeWidth n))"
  using normalized_point_reads_back stroke_width_reads_back by blast

lemma canvas_numbers_survive_witness:
  "normalized_point_new (normalized_x (NormalizedPoint 10000 1)) (normalized_y (NormalizedPoint 10000 1)) =
     Inr (NormalizedPoint 10000 1) \<and>
   stroke_width_new (stroke_width_get (StrokeWidth 640)) = Inr (StrokeWidth 640)"
  using canvas_numbers_survive [of 10000 1 640] by (simp add: normalized_max_def stroke_max_tenths_def)

text \<open>The width 0.04 is accepted and kept as no tenths, which are stored as a width that is refused.\<close>

lemma thin_stroke_lost:
  "stroke_width_new (F32 0x3D23D70A) = Inr (StrokeWidth 0) \<and>
   stroke_width_new (stroke_width_get (StrokeWidth 0)) = Inl DV_InvalidStrokeWidth"
  by (simp add: stroke_width_new_def f32_is_nan_def f32_is_finite_def f32_exponent_def f32_le_zero_def f32_negative_def
      f32_is_zero_def f32_units_def f32_times_def f32_quotient_def f32_round_def f32_scale_def
      round_half_even_def f32_to_u16_def stroke_max_tenths_def bit_length.simps Let_def)

end
