(* ===== verification/Ipc_Protocol.thy ===== *)
theory Ipc_Protocol
  imports Portal_Values Handoff
begin

text \<open>
  The requests agents send over the local socket, from \<open>src/ipc/protocol.rs\<close>: identifiers, commands,
  the version each needs and the checks before a command is looked at. \<open>accepted_message\<close> and
  \<open>message_peer\<close> are the routed form of \<open>src/ipc/server.rs\<close>.
\<close>

section \<open>Limits and errors\<close>

definition max_id_chars :: nat where "max_id_chars = 128"
definition max_title_chars :: nat where "max_title_chars = 255"
definition max_body_chars :: nat where "max_body_chars = 32768"
definition max_portal_target_chars :: nat where "max_portal_target_chars = 2048"
definition max_portal_element_chars :: nat where "max_portal_element_chars = 256"
definition max_output_key_chars :: nat where "max_output_key_chars = 64"
definition max_output_value_chars :: nat where "max_output_value_chars = 16384"
definition max_outputs :: nat where "max_outputs = 64"
definition max_portal_frame_chunk_bytes :: u32 where "max_portal_frame_chunk_bytes = 524288"

datatype protocol_validation_error =
    PVE_InvalidIdentifier
  | PVE_InvalidAgentId
  | PVE_InvalidPortalId
  | PVE_InvalidObservationRevision
  | PVE_InvalidPortalFrameChunk
  | PVE_EmptyPortalScroll
  | PVE_MissingTaskTitle
  | PVE_UnexpectedQuestionTitle
  | PVE_InvalidResponseTimeout
  | PVE_InvalidOutputKey
  | PVE_TooManyOutputs nat
  | PVE_OutputValueTooLong nat
  | PVE_EmptyText string
  | PVE_TextTooLong string nat
  | PVE_ControlCharacter string

type_synonym 'a protocol_checked = "(protocol_validation_error, 'a) result"

definition protocol_validate_text :: "string \<Rightarrow> nat \<Rightarrow> string \<Rightarrow> unit protocol_checked" where
  "protocol_validate_text value max_chars field =
     (if str_trim value = [] then Inl (PVE_EmptyText field)
      else if max_chars < chars_count value then Inl (PVE_TextTooLong field max_chars)
      else if CHR 0x00 \<in> set value then Inl (PVE_ControlCharacter field)
      else Inr ())"

section \<open>Identifiers\<close>

datatype ipc_message_id = IpcMessageId (ipc_id_str: string)

definition ipc_message_id_new :: "string \<Rightarrow> ipc_message_id protocol_checked" where
  "ipc_message_id_new value =
     (if value = [] \<or> max_id_chars < chars_count value then Inl PVE_InvalidIdentifier
      else if \<not> list_all is_key_byte value then Inl PVE_InvalidIdentifier
      else Inr (IpcMessageId value))"

section \<open>Commands\<close>

datatype handoff_kind = HK_Task | HK_Question

datatype ipc_response_status = IS_Completed | IS_Failed | IS_Blocked

datatype portal_action_request =
    PA_Click string u64
  | PA_ClickCoordinate u64 u32 u32
  | PA_TypeText string u64 string
  | PA_Scroll "string option" u64 "32 word" "32 word"
  | PA_ScrollCoordinate u64 u32 u32 "32 word" "32 word"
  | PA_Navigate string

datatype protocol_command =
    PC_ListAgents
  | PC_ListPortals
  | PC_InspectPortal u64
  | PC_ObservePortal u64
  | PC_GetPortalFrame u64 u64 u64 u32
  | PC_RequestPortalAction ipc_message_id u64 portal_action_request
  | PC_GetPortalResult ipc_message_id
  | PC_SendTask ipc_message_id u64 string string
  | PC_SendHandoff ipc_message_id u64 handoff_kind "string option" string "ipc_message_id option" "u64 option"
  | PC_ReportProgress ipc_message_id ipc_message_id string
  | PC_Respond ipc_message_id ipc_message_id ipc_response_status string
  | PC_ReportHandoffProgress ipc_message_id ipc_message_id string
  | PC_RespondToHandoff ipc_message_id ipc_message_id ipc_response_status string "(string, string) bmap"
  | PC_CancelHandoff ipc_message_id ipc_message_id string

fun command_message_id :: "protocol_command \<Rightarrow> ipc_message_id option" where
  "command_message_id (PC_RequestPortalAction m _ _) = Some m"
| "command_message_id (PC_SendTask m _ _ _) = Some m"
| "command_message_id (PC_SendHandoff m _ _ _ _ _ _) = Some m"
| "command_message_id (PC_ReportProgress m _ _) = Some m"
| "command_message_id (PC_Respond m _ _ _) = Some m"
| "command_message_id (PC_ReportHandoffProgress m _ _) = Some m"
| "command_message_id (PC_RespondToHandoff m _ _ _ _) = Some m"
| "command_message_id (PC_CancelHandoff m _ _) = Some m"
| "command_message_id _ = None"

fun is_portal_command :: "protocol_command \<Rightarrow> bool" where
  "is_portal_command PC_ListPortals = True"
| "is_portal_command (PC_InspectPortal _) = True"
| "is_portal_command (PC_ObservePortal _) = True"
| "is_portal_command (PC_GetPortalFrame _ _ _ _) = True"
| "is_portal_command (PC_RequestPortalAction _ _ _) = True"
| "is_portal_command (PC_GetPortalResult _) = True"
| "is_portal_command _ = False"

fun minimum_version :: "protocol_command \<Rightarrow> u16" where
  "minimum_version PC_ListAgents = 1"
| "minimum_version (PC_SendTask _ _ _ _) = 1"
| "minimum_version (PC_ReportProgress _ _ _) = 1"
| "minimum_version (PC_Respond _ _ _ _) = 1"
| "minimum_version (PC_RespondToHandoff _ _ _ _ outputs) = (if bm_len outputs \<noteq> 0 then 4 else 2)"
| "minimum_version (PC_SendHandoff _ _ _ _ _ _ _) = 2"
| "minimum_version (PC_ReportHandoffProgress _ _ _) = 2"
| "minimum_version (PC_CancelHandoff _ _ _) = 2"
| "minimum_version _ = 3"

section \<open>Checks\<close>

definition validate_portal_id :: "u64 \<Rightarrow> unit protocol_checked" where
  "validate_portal_id p = ensure (0 < p) PVE_InvalidPortalId"

definition validate_observation_revision :: "u64 \<Rightarrow> unit protocol_checked" where
  "validate_observation_revision r = (if r = 0 then Inl PVE_InvalidObservationRevision else Inr ())"

definition validate_element :: "string \<Rightarrow> u64 \<Rightarrow> unit protocol_checked" where
  "validate_element element revision =
     res_bind (protocol_validate_text element max_portal_element_chars ''portal element reference'') (\<lambda>_.
       if revision = 0 then Inl PVE_InvalidObservationRevision else Inr ())"

fun validate_portal_action :: "portal_action_request \<Rightarrow> unit protocol_checked" where
  "validate_portal_action (PA_Click element revision) = validate_element element revision"
| "validate_portal_action (PA_ClickCoordinate revision _ _) = validate_observation_revision revision"
| "validate_portal_action (PA_TypeText element revision txt) =
     res_bind (validate_element element revision) (\<lambda>_.
       protocol_validate_text txt max_body_chars ''portal input'')"
| "validate_portal_action (PA_Scroll element revision dx dy) =
     res_bind (case element of
         Some e \<Rightarrow> validate_element e revision
       | None \<Rightarrow> if revision = 0 then Inl PVE_InvalidObservationRevision else Inr ()) (\<lambda>_.
       if dx = 0 \<and> dy = 0 then Inl PVE_EmptyPortalScroll else Inr ())"
| "validate_portal_action (PA_ScrollCoordinate revision _ _ dx dy) =
     res_bind (validate_observation_revision revision) (\<lambda>_.
       if dx = 0 \<and> dy = 0 then Inl PVE_EmptyPortalScroll else Inr ())"
| "validate_portal_action (PA_Navigate target) =
     protocol_validate_text target max_portal_target_chars ''portal navigation target''"

definition validate_output :: "string \<times> string \<Rightarrow> unit protocol_checked" where
  "validate_output = (\<lambda>(key, value).
     if key = [] \<or> max_output_key_chars < chars_count key \<or> \<not> list_all is_key_byte key
     then Inl PVE_InvalidOutputKey
     else if max_output_value_chars < chars_count value
     then Inl (PVE_OutputValueTooLong max_output_value_chars)
     else Inr ())"

definition validate_outputs :: "(string, string) bmap \<Rightarrow> unit protocol_checked" where
  "validate_outputs outputs =
     (if max_outputs < bm_len outputs then Inl (PVE_TooManyOutputs max_outputs)
      else check_all validate_output (entries outputs))"

definition validate_handoff_title :: "handoff_kind \<Rightarrow> string option \<Rightarrow> unit protocol_checked" where
  "validate_handoff_title kind title =
     (case (kind, title) of
        (HK_Task, Some t) \<Rightarrow> protocol_validate_text t max_title_chars ''task title''
      | (HK_Task, None) \<Rightarrow> Inl PVE_MissingTaskTitle
      | (HK_Question, Some _) \<Rightarrow> Inl PVE_UnexpectedQuestionTitle
      | (HK_Question, None) \<Rightarrow> Inr ())"

fun validate_command :: "protocol_command \<Rightarrow> unit protocol_checked" where
  "validate_command PC_ListAgents = Inr ()"
| "validate_command PC_ListPortals = Inr ()"
| "validate_command (PC_InspectPortal p) = validate_portal_id p"
| "validate_command (PC_ObservePortal p) = validate_portal_id p"
| "validate_command (PC_GetPortalFrame p revision _ max_bytes) =
     res_bind (validate_portal_id p) (\<lambda>_.
       if revision = 0 then Inl PVE_InvalidObservationRevision
       else if max_bytes = 0 \<or> max_portal_frame_chunk_bytes < max_bytes
       then Inl PVE_InvalidPortalFrameChunk else Inr ())"
| "validate_command (PC_RequestPortalAction _ p action) =
     res_bind (validate_portal_id p) (\<lambda>_. validate_portal_action action)"
| "validate_command (PC_GetPortalResult _) = Inr ()"
| "validate_command (PC_SendTask _ recipient title body) =
     (if recipient = 0 then Inl PVE_InvalidAgentId
      else res_bind (protocol_validate_text title max_title_chars ''task title'') (\<lambda>_.
        protocol_validate_text body max_body_chars ''task body''))"
| "validate_command (PC_SendHandoff _ recipient kind title body _ timeout) =
     (if recipient = 0 then Inl PVE_InvalidAgentId
      else res_bind (validate_handoff_title kind title) (\<lambda>_.
        if timeout = Some 0 then Inl PVE_InvalidResponseTimeout
        else protocol_validate_text body max_body_chars ''handoff body''))"
| "validate_command (PC_ReportProgress _ _ body) = protocol_validate_text body max_body_chars ''message body''"
| "validate_command (PC_Respond _ _ _ body) = protocol_validate_text body max_body_chars ''message body''"
| "validate_command (PC_ReportHandoffProgress _ _ body) =
     protocol_validate_text body max_body_chars ''message body''"
| "validate_command (PC_RespondToHandoff _ _ _ body outputs) =
     res_bind (protocol_validate_text body max_body_chars ''message body'') (\<lambda>_. validate_outputs outputs)"
| "validate_command (PC_CancelHandoff _ _ reason) =
     protocol_validate_text reason max_body_chars ''cancellation reason''"

section \<open>Routed messages\<close>

datatype message_peer = MP_Agent u64 | MP_Routine

record accepted_message =
  am_workspace :: u64
  am_sender :: u64
  am_recipient :: message_peer
  am_command :: protocol_command

text \<open>The identifiers of the socket are identifiers of handoff messages.\<close>

lemma ipc_id_is_handoff_id:
  "ipc_message_id_new s = Inr m \<Longrightarrow> handoff_message_id_new (ipc_id_str m) = Inr (HandoffMessageId s)"
  by (auto simp: ipc_message_id_new_def handoff_message_id_new_def max_id_chars_def split: if_splits)

end
