(* ===== verification/Prompt.thy ===== *)
theory Prompt
  imports Domain_Error Handoff
begin

text \<open>
  The prompts of \<open>src/orchestration/prompt.rs\<close>: the text pasted into the terminal of an agent. A prompt
  of a handoff without a message identifier would be a panic of the code, \<open>None\<close> here.
\<close>

section \<open>Control characters\<close>

text \<open>The characters of a text: each starts at a byte that continues no other.\<close>

definition is_continuation :: "char \<Rightarrow> bool" where
  "is_continuation c = (128 \<le> byte_of c \<and> byte_of c < 192)"

function utf8_chars :: "string \<Rightarrow> string list" where
  "utf8_chars [] = []"
| "utf8_chars (c # cs) = (c # takeWhile is_continuation cs) # utf8_chars (dropWhile is_continuation cs)"
  by pat_completeness auto
termination by (relation "measure length") (auto simp: le_imp_less_Suc length_dropWhile_le)

text \<open>\<open>char::is_control\<close>: below 32, 127, and the two-byte characters U+0080 to U+009F.\<close>

fun is_control_char :: "string \<Rightarrow> bool" where
  "is_control_char [] = False"
| "is_control_char (c # cs) =
     (byte_of c < 32 \<or> byte_of c = 127
      \<or> byte_of c = 0xC2 \<and> cs \<noteq> [] \<and> 0x80 \<le> byte_of (hd cs) \<and> byte_of (hd cs) \<le> 0x9F)"

definition newline :: char where "newline = CHR 0x0A"

definition kept_char :: "string \<Rightarrow> bool" where
  "kept_char ch = (ch = [newline] \<or> ch = [CHR 0x09] \<or> \<not> is_control_char ch \<and> ch \<noteq> [CHR 0x7F])"

definition sanitize :: "string \<Rightarrow> string" where
  "sanitize s = concat (filter kept_char (utf8_chars s))"

section \<open>The prompts\<close>

definition id_text :: "'a id \<Rightarrow> string" where
  "id_text i = decimal (unat (id_get i))"

definition origin_label :: "handoff \<Rightarrow> string" where
  "origin_label h =
     (case ho_origin h of
        HO_Agent a \<Rightarrow> ''agent '' @ id_text a
      | HO_Routine r s \<Rightarrow> ''routine run '' @ id_text r @ '' step '' @ id_text s)"

definition task_prompt_text :: "handoff \<Rightarrow> string \<Rightarrow> task \<Rightarrow> string" where
  "task_prompt_text h i t =
     ''[OpenPodium task '' @ i @ '']'' @ [newline] @ ''From '' @ origin_label h @ [newline] @
     ''Title: '' @ sanitize (name_str (task_title t)) @ [newline, newline] @
     sanitize (content_str (task_prompt t)) @ [newline, newline] @
     ''Use `openpodium ipc progress report --handoff '' @ i @
     '' --body <text>` for updates and `openpodium ipc respond --handoff '' @ i @
     '' --status <completed|failed|blocked> --body <text>` when finished.''"

definition question_prompt_text :: "handoff \<Rightarrow> string \<Rightarrow> content \<Rightarrow> string" where
  "question_prompt_text h i body =
     ''[OpenPodium question '' @ i @ '']'' @ [newline] @ ''From '' @ origin_label h @ [newline, newline] @
     sanitize (content_str body) @ [newline, newline] @
     ''Reply with `openpodium ipc respond --handoff '' @ i @ '' --status completed --body <text>`.''"

definition handoff_prompt :: "handoff \<Rightarrow> task option \<Rightarrow> string option" where
  "handoff_prompt h t =
     map_option (\<lambda>m.
         sanitize (case (ho_payload h, t) of
           (HP_Task _, Some t) \<Rightarrow> task_prompt_text h (message_id_str m) t
         | (HP_Question body, None) \<Rightarrow> question_prompt_text h (message_id_str m) body
         | _ \<Rightarrow> ''[OpenPodium] Invalid handoff payload''))
       (ho_message_id h)"

definition progress_prompt :: "handoff \<Rightarrow> handoff_progress \<Rightarrow> string option" where
  "progress_prompt h p =
     map_option (\<lambda>m.
         sanitize (''[OpenPodium progress for '' @ message_id_str m @ '']'' @ [newline] @
           ''From agent '' @ id_text (ho_recipient h) @ [newline, newline] @ content_str (prog_body p)))
       (ho_message_id h)"

fun status_text :: "handoff_response_status \<Rightarrow> string" where
  "status_text HR_Completed = ''Completed''"
| "status_text HR_Failed = ''Failed''"
| "status_text HR_Blocked = ''Blocked''"

definition response_prompt :: "handoff \<Rightarrow> handoff_response \<Rightarrow> string option" where
  "response_prompt h r =
     map_option (\<lambda>m.
         sanitize (''[OpenPodium '' @ status_text (resp_status r) @ '' response for '' @ message_id_str m @
           '']'' @ [newline] @ ''From agent '' @ id_text (ho_recipient h) @ [newline, newline] @
           content_str (resp_body r)))
       (ho_message_id h)"

definition cancellation_prompt :: "handoff \<Rightarrow> handoff_termination \<Rightarrow> string option" where
  "cancellation_prompt h t =
     (case t of
        HT_TimedOut _ \<Rightarrow> Some ''[OpenPodium] Handoff timed out''
      | HT_Cancelled _ reason _ \<Rightarrow>
          map_option (\<lambda>m.
              sanitize (''[OpenPodium cancellation for '' @ message_id_str m @ '']'' @ [newline] @
                ''From '' @ origin_label h @ [newline, newline] @ content_str reason))
            (ho_message_id h))"

section \<open>What a prompt holds\<close>

text \<open>
  What must not reach a terminal, in bytes: a code below 32 but the line feed and the tab, a delete, and
  the two bytes C2 80 to C2 9F of the 8-bit control codes, among them the introducer of control
  sequences.
\<close>

definition is_plain_byte :: "char \<Rightarrow> bool" where
  "is_plain_byte c = (byte_of c = 9 \<or> byte_of c = 10 \<or> 32 \<le> byte_of c \<and> byte_of c \<noteq> 127)"

definition no_control_pair :: "char \<Rightarrow> char \<Rightarrow> bool" where
  "no_control_pair c d = (\<not> (byte_of c = 194 \<and> 128 \<le> byte_of d \<and> byte_of d < 160))"

definition plain_text :: "string \<Rightarrow> bool" where
  "plain_text s = (list_all is_plain_byte s \<and> successively no_control_pair s)"

lemma utf8_chars_tails: "ch \<in> set (utf8_chars s) \<Longrightarrow> ch \<noteq> [] \<and> list_all is_continuation (tl ch)"
  by (induction s rule: utf8_chars.induct) (auto simp: list_all_iff dest: set_takeWhileD)

lemma utf8_chars_heads:
  "s = [] \<or> \<not> is_continuation (hd s) \<Longrightarrow> ch \<in> set (utf8_chars s) \<Longrightarrow> \<not> is_continuation (hd ch)"
proof (induction s rule: utf8_chars.induct)
  case (2 c cs)
  have "dropWhile is_continuation cs = [] \<or> \<not> is_continuation (hd (dropWhile is_continuation cs))"
    using hd_dropWhile by blast
  with 2 show ?case by auto
qed simp

lemma utf8_chars_later: "ch \<in> set (tl (utf8_chars s)) \<Longrightarrow> \<not> is_continuation (hd ch)"
proof (cases s)
  case (Cons c cs)
  assume "ch \<in> set (tl (utf8_chars s))"
  then have "ch \<in> set (utf8_chars (dropWhile is_continuation cs))" by (simp add: Cons)
  moreover have "dropWhile is_continuation cs = [] \<or> \<not> is_continuation (hd (dropWhile is_continuation cs))"
    using hd_dropWhile by blast
  ultimately show ?thesis by (rule utf8_chars_heads [rotated])
qed simp

lemma in_set_tl: "x \<in> set (tl xs) \<Longrightarrow> x \<in> set xs"
  by (cases xs) auto

lemma set_tl_filter: "set (tl (filter P xs)) \<subseteq> set (tl xs)"
  by (cases xs) (auto dest: in_set_tl)

lemma successively_concat:
  assumes "\<And>x. x \<in> set xs \<Longrightarrow> x \<noteq> [] \<and> successively R x" and "\<And>x c. x \<in> set (tl xs) \<Longrightarrow> R c (hd x)"
  shows "successively R (concat xs)"
  using assms
proof (induction xs)
  case (Cons x xs)
  have rest: "successively R (concat xs)"
    by (rule Cons.IH) (use Cons.prems in \<open>auto dest: in_set_tl\<close>)
  show ?case
  proof (cases xs)
    case Nil
    with Cons.prems(1) [of x] show ?thesis by simp
  next
    case (Cons y ys)
    have "y \<noteq> []" "R (last x) (hd y)" "successively R x"
      using Cons.prems(1) [of y] Cons.prems(1) [of x] Cons.prems(2) [of y "last x"] Cons by simp_all
    with rest Cons show ?thesis by (simp add: successively_append_iff)
  qed
qed simp

lemma plain_char:
  assumes "ch \<noteq> []" and "list_all is_continuation (tl ch)"
    and "kept_char ch"
  shows "list_all is_plain_byte ch" and "successively no_control_pair ch"
proof -
  obtain c cs where ch: "ch = c # cs" using assms(1) by (cases ch) auto
  have tail: "list_all is_continuation cs" using assms(2) ch by simp
  have "list_all is_plain_byte cs" using tail by (auto simp: list_all_iff is_continuation_def is_plain_byte_def)
  moreover have "is_plain_byte newline" "is_plain_byte (CHR 0x09)"
    by (simp_all add: is_plain_byte_def newline_def byte_of_def)
  then have "is_plain_byte c" using assms(3) by (auto simp: ch kept_char_def is_plain_byte_def)
  ultimately show "list_all is_plain_byte ch" by (simp add: ch)
  have "successively no_control_pair cs" using tail
    by (induction cs rule: induct_list012) (auto simp: no_control_pair_def is_continuation_def)
  moreover have "cs \<noteq> [] \<Longrightarrow> no_control_pair c (hd cs)"
    using assms(3) by (auto simp: ch kept_char_def no_control_pair_def)
  ultimately show "successively no_control_pair ch" by (cases cs) (simp_all add: ch)
qed

text \<open>No control code of a terminal is left in what \<open>sanitize\<close> returns.\<close>

lemma sanitize_plain: "plain_text (sanitize s)"
proof -
  let ?kept = "filter kept_char (utf8_chars s)"
  have kept: "ch \<noteq> [] \<and> list_all is_plain_byte ch \<and> successively no_control_pair ch" if "ch \<in> set ?kept" for ch
    using that utf8_chars_tails [of ch s] plain_char [of ch] by simp
  have "no_control_pair c (hd ch)" if "ch \<in> set (tl ?kept)" for ch c
  proof -
    have "ch \<in> set (tl (utf8_chars s))" by (rule subsetD [OF set_tl_filter that])
    from utf8_chars_later [OF this] show ?thesis by (auto simp: no_control_pair_def is_continuation_def)
  qed
  with kept have "successively no_control_pair (concat ?kept)" by (intro successively_concat) blast+
  moreover have "list_all is_plain_byte (concat ?kept)" using kept by (auto simp: list_all_iff)
  ultimately show ?thesis by (simp add: plain_text_def sanitize_def)
qed

lemma prompts_plain:
  "handoff_prompt h t = Some p \<Longrightarrow> plain_text p"
  "progress_prompt h g = Some p \<Longrightarrow> plain_text p"
  "response_prompt h r = Some p \<Longrightarrow> plain_text p"
  "cancellation_prompt h x = Some p \<Longrightarrow> plain_text p"
proof -
  note plain = sanitize_plain
  show "handoff_prompt h t = Some p \<Longrightarrow> plain_text p"
    using plain by (auto simp only: handoff_prompt_def map_option_eq_Some)
  show "progress_prompt h g = Some p \<Longrightarrow> plain_text p"
    using plain by (auto simp only: progress_prompt_def map_option_eq_Some)
  show "response_prompt h r = Some p \<Longrightarrow> plain_text p"
    using plain by (auto simp only: response_prompt_def map_option_eq_Some)
  show "cancellation_prompt h x = Some p \<Longrightarrow> plain_text p"
  proof (cases x)
    case (HT_Cancelled m r t)
    then show "cancellation_prompt h x = Some p \<Longrightarrow> plain_text p"
      using plain by (auto simp only: cancellation_prompt_def handoff_termination.case map_option_eq_Some)
  next
    case (HT_TimedOut t)
    have "plain_text ''[OpenPodium] Handoff timed out''"
      by (simp add: plain_text_def is_plain_byte_def no_control_pair_def byte_of_def)
    with HT_TimedOut show "cancellation_prompt h x = Some p \<Longrightarrow> plain_text p"
      by (simp add: cancellation_prompt_def)
  qed
qed

text \<open>Texts without control characters stay as they are.\<close>

lemma utf8_chars_ascii: "list_all (\<lambda>c. byte_of c < 128) s \<Longrightarrow> utf8_chars s = map (\<lambda>c. [c]) s"
proof (induction s rule: utf8_chars.induct)
  case (2 c cs)
  have "\<not> is_continuation d" if "d \<in> set cs" for d
    using that 2(2) by (auto simp: list_all_iff is_continuation_def)
  then have "takeWhile is_continuation cs = []" "dropWhile is_continuation cs = cs"
    by (cases cs; simp)+
  with 2 show ?case by simp
qed simp

lemma sanitize_keeps:
  assumes "list_all (\<lambda>c. is_plain_byte c \<and> byte_of c < 128) s"
  shows "sanitize s = s"
proof -
  have "kept_char [c]" if "is_plain_byte c" for c
  proof -
    from that consider "byte_of c = 9" | "byte_of c = 10" | "32 \<le> byte_of c" "byte_of c \<noteq> 127"
      by (auto simp: is_plain_byte_def)
    then show ?thesis
    proof cases
      case 1
      then have "(of_char c :: nat) = of_char (CHR 0x09)" by (simp add: byte_of_def)
      then have "c = CHR 0x09" by (simp only: of_char_eq_iff)
      then show ?thesis by (simp add: kept_char_def)
    next
      case 2
      then have "(of_char c :: nat) = of_char newline" by (simp add: byte_of_def newline_def)
      then have "c = newline" by (simp only: of_char_eq_iff)
      then show ?thesis by (simp add: kept_char_def)
    next
      case 3
      then have "c \<noteq> CHR 0x7F" by (auto simp: byte_of_def)
      with 3 show ?thesis by (simp add: kept_char_def)
    qed
  qed
  then have "\<forall>ch\<in>set (map (\<lambda>c. [c]) s). kept_char ch" using assms by (auto simp: list_all_iff)
  then have "filter kept_char (map (\<lambda>c. [c]) s) = map (\<lambda>c. [c]) s" by (simp only: filter_id_conv)
  moreover have "utf8_chars s = map (\<lambda>c. [c]) s" using assms by (intro utf8_chars_ascii) (simp add: list_all_iff)
  ultimately show ?thesis by (simp add: sanitize_def)
qed

end
