(* ===== verification/Orchestrator.thy ===== *)
theory Orchestrator
  imports Ipc_Protocol Prompt Manager
begin

text \<open>
  The orchestrator of \<open>src/orchestration/engine.rs\<close>: it turns accepted messages into commands of the
  aggregate and keeps, for every agent, a mailbox of prompts to type into its terminal. A change is
  recorded through the manager first; what is queued lives in memory only.

  \<open>hub\<close> holds what the methods take by \<open>&mut\<close>: the manager, the mailboxes of the orchestrator, and
  the registrations of the routine scheduler. A panic of an \<open>expect\<close> is \<open>OE_Panic\<close>.
\<close>

section \<open>State\<close>

definition delivery_window_ms :: u64 where "delivery_window_ms = 30000"
definition initial_retry_ms :: u64 where "initial_retry_ms = 250"
definition max_backoff_shift :: u32 where "max_backoff_shift = 4"

datatype orchestration_error =
    OE_Workspace workspace_error
  | OE_Validation validation_error
  | OE_Handoff handoff_mutation_error
  | OE_UnknownWorkspace workspace_id
  | OE_UnknownHandoff string
  | OE_UnsafeAdapter agent_id string
  | OE_Routine routine_error
  | OE_IdentifierExhausted string
  | OE_TimeOverflow string
  | OE_InvalidMessage string
  | OE_Panic

type_synonym mailbox_key = "workspace_id \<times> agent_id"

record pending_delivery =
  pd_workspace :: workspace_id
  pd_handoff :: handoff_id
  pd_message :: handoff_message_id
  pd_recipient :: agent_id
  pd_mechanism :: delivery_mechanism
  pd_prompt :: string
  pd_deadline :: timestamp
  pd_next_attempt_at :: timestamp
  pd_failures :: u32

record delivery_request =
  dr_pending :: pending_delivery
  dr_attempt_ordinal :: u32

record routine_dispatch =
  rd_workspace :: workspace_id
  rd_run :: routine_run_id
  rd_step :: routine_step_id
  rd_handoff :: handoff_id
  rd_message :: handoff_message_id
  rd_agent :: agent_id

record hub =
  hub_manager :: manager
  hub_mailboxes :: "(mailbox_key, pending_delivery list) bmap"
  hub_registrations :: "routine_dispatch list"

type_synonym 'a orchestrated = "(hub, orchestration_error, 'a) action"

section \<open>Reading and recording\<close>

definition find_workspace :: "workspace_id \<Rightarrow> workspace orchestrated" where
  "find_workspace wid =
     act_bind (act_get (\<lambda>s. manager_workspace (hub_manager s) wid)) (\<lambda>w.
       act_lift (ok_or w (OE_UnknownWorkspace wid)))"

definition get_handoff :: "workspace_id \<Rightarrow> handoff_id \<Rightarrow> handoff orchestrated" where
  "get_handoff wid hid =
     act_bind (find_workspace wid) (\<lambda>w.
       act_lift (ok_or (bm_get (w_handoffs w) hid) (OE_UnknownHandoff (id_text hid))))"

definition max_by_id :: "handoff list \<Rightarrow> handoff option" where
  "max_by_id hs =
     foldl (\<lambda>best h. case best of
         None \<Rightarrow> Some h
       | Some b \<Rightarrow> if ho_id b \<le> ho_id h then Some h else Some b) None hs"

definition task_handoff :: "workspace \<Rightarrow> task_id \<Rightarrow> (orchestration_error, handoff) result" where
  "task_handoff w t =
     ok_or (max_by_id (filter (\<lambda>h. ho_payload h = HP_Task t) (bm_values (w_handoffs w))))
       (OE_InvalidMessage (''task '' @ id_text t @ '' has no handoff''))"

definition find_handoff :: "hub \<Rightarrow> workspace_id \<Rightarrow> handoff_message_id \<Rightarrow> handoff option" where
  "find_handoff s wid m =
     Option.bind (manager_workspace (hub_manager s) wid) (\<lambda>w.
       List.find (\<lambda>h. ho_message_id h = Some m) (bm_values (w_handoffs w)))"

definition after_highest :: "u64 list \<Rightarrow> u64 option" where
  "after_highest ids = checked_add (fold max ids 0) 1"

definition next_task_id :: "workspace \<Rightarrow> (orchestration_error, task_id) result" where
  "next_task_id w =
     ok_or (map_option Id (after_highest (map (\<lambda>t. id_get (task_ident t)) (bm_values (w_tasks w)))))
       (OE_IdentifierExhausted ''task'')"

definition next_handoff_id :: "workspace \<Rightarrow> (orchestration_error, handoff_id) result" where
  "next_handoff_id w =
     ok_or (map_option Id (after_highest (map (\<lambda>h. id_get (ho_id h)) (bm_values (w_handoffs w)))))
       (OE_IdentifierExhausted ''handoff'')"

definition domain_message_id :: "ipc_message_id \<Rightarrow> (orchestration_error, handoff_message_id) result" where
  "domain_message_id m = map_err OE_Handoff (handoff_message_id_new (ipc_id_str m))"

definition recovery_message_id ::
  "string \<Rightarrow> workspace_id \<Rightarrow> task_id \<Rightarrow> timestamp \<Rightarrow> (orchestration_error, handoff_message_id) result" where
  "recovery_message_id action wid t at =
     map_err OE_Handoff (handoff_message_id_new
       (''ui-'' @ action @ ''-'' @ id_text wid @ ''-'' @ id_text t @ ''-'' @ decimal (unat at)))"

definition checked_timestamp_add ::
  "timestamp \<Rightarrow> u64 \<Rightarrow> string \<Rightarrow> (orchestration_error, timestamp) result" where
  "checked_timestamp_add t ms field = ok_or (checked_add t ms) (OE_TimeOverflow field)"

definition orchestration_content :: "string \<Rightarrow> (orchestration_error, content) result" where
  "orchestration_content s = map_err OE_Validation (content_new s)"

definition on_manager :: "'a managed \<Rightarrow> 'a orchestrated" where
  "on_manager f = act_map_err OE_Workspace (act_zoom hub_manager (\<lambda>m s. s\<lparr>hub_manager := m\<rparr>) f)"

definition run_command :: "codec \<Rightarrow> workspace_id \<Rightarrow> domain_command \<Rightarrow> timestamp \<Rightarrow> unit orchestrated" where
  "run_command cd wid c at = act_bind (on_manager (manager_execute cd wid c at)) (\<lambda>_. act_return ())"

definition execute_handoff_update ::
  "codec \<Rightarrow> workspace_id \<Rightarrow> handoff \<Rightarrow> handoff \<Rightarrow> timestamp \<Rightarrow> unit orchestrated" where
  "execute_handoff_update cd wid before after at = run_command cd wid (DC_UpdateHandoff before after) at"

definition execute_task_cancellation ::
  "codec \<Rightarrow> workspace_id \<Rightarrow> task_id \<Rightarrow> handoff \<Rightarrow> handoff \<Rightarrow> timestamp \<Rightarrow> unit orchestrated" where
  "execute_task_cancellation cd wid t before after at = run_command cd wid (DC_CancelTask t before after) at"

text \<open>A change of a handoff: the new value is computed on a copy and recorded.\<close>

definition change_handoff ::
  "codec \<Rightarrow> workspace_id \<Rightarrow> (handoff \<Rightarrow> (handoff_mutation_error, handoff) result) \<Rightarrow> handoff \<Rightarrow> timestamp \<Rightarrow>
   unit orchestrated" where
  "change_handoff cd wid f before at =
     act_bind (act_lift (map_err OE_Handoff (f before))) (\<lambda>after.
       execute_handoff_update cd wid before after at)"

section \<open>Tasks\<close>

fun task_state_text :: "task_state \<Rightarrow> string" where
  "task_state_text TS_Queued = ''queued''"
| "task_state_text TS_Delivered = ''delivered''"
| "task_state_text TS_Running = ''running''"
| "task_state_text TS_Blocked = ''blocked''"
| "task_state_text TS_Completed = ''completed''"
| "task_state_text TS_Failed = ''failed''"
| "task_state_text TS_Cancelled = ''cancelled''"

definition current_task_state :: "workspace_id \<Rightarrow> task_id \<Rightarrow> task_state orchestrated" where
  "current_task_state wid t =
     act_bind (find_workspace wid) (\<lambda>w.
       act_lift (ok_or (map_option task_state (bm_get (w_tasks w) t))
         (OE_InvalidMessage (''task '' @ id_text t @ '' is missing''))))"

definition invalid_task_state :: "task_id \<Rightarrow> task_state \<Rightarrow> string \<Rightarrow> orchestration_error" where
  "invalid_task_state t state action =
     OE_InvalidMessage (''cannot '' @ action @ '' task '' @ id_text t @ '' while it is '' @ task_state_text state)"

definition transition_task :: "codec \<Rightarrow> workspace_id \<Rightarrow> task_id \<Rightarrow> task_state \<Rightarrow> timestamp \<Rightarrow> unit orchestrated" where
  "transition_task cd wid t to at = run_command cd wid (DC_TransitionTask t to) at"

definition transition_task_delivered :: "codec \<Rightarrow> workspace_id \<Rightarrow> task_id \<Rightarrow> timestamp \<Rightarrow> unit orchestrated" where
  "transition_task_delivered cd wid t at =
     act_bind (current_task_state wid t) (\<lambda>state.
       if state = TS_Queued then transition_task cd wid t TS_Delivered at else act_return ())"

definition transition_task_running :: "codec \<Rightarrow> workspace_id \<Rightarrow> task_id \<Rightarrow> timestamp \<Rightarrow> unit orchestrated" where
  "transition_task_running cd wid t at =
     act_bind (transition_task_delivered cd wid t at) (\<lambda>_.
     act_bind (current_task_state wid t) (\<lambda>state.
       if state = TS_Delivered \<or> state = TS_Blocked then transition_task cd wid t TS_Running at
       else if state = TS_Running then act_return ()
       else act_fail (invalid_task_state t state ''report progress'')))"

definition transition_task_response ::
  "codec \<Rightarrow> workspace_id \<Rightarrow> task_id \<Rightarrow> ipc_response_status \<Rightarrow> timestamp \<Rightarrow> unit orchestrated" where
  "transition_task_response cd wid t status at =
     (case status of
        IS_Completed \<Rightarrow> act_bind (transition_task_running cd wid t at) (\<lambda>_.
          transition_task cd wid t TS_Completed at)
      | IS_Blocked \<Rightarrow> act_bind (transition_task_running cd wid t at) (\<lambda>_.
          transition_task cd wid t TS_Blocked at)
      | IS_Failed \<Rightarrow> act_bind (transition_task_delivered cd wid t at) (\<lambda>_.
          act_bind (current_task_state wid t) (\<lambda>state.
            if state \<in> set [TS_Delivered, TS_Running, TS_Blocked] then transition_task cd wid t TS_Failed at
            else if state = TS_Failed then act_return ()
            else act_fail (invalid_task_state t state ''fail''))))"

definition transition_task_cancelled :: "codec \<Rightarrow> workspace_id \<Rightarrow> task_id \<Rightarrow> timestamp \<Rightarrow> unit orchestrated" where
  "transition_task_cancelled cd wid t at =
     act_bind (current_task_state wid t) (\<lambda>state.
       if state \<in> set [TS_Queued, TS_Delivered, TS_Running, TS_Blocked]
       then transition_task cd wid t TS_Cancelled at
       else if state = TS_Cancelled then act_return ()
       else act_fail (invalid_task_state t state ''cancel''))"

definition transition_task_failed :: "codec \<Rightarrow> workspace_id \<Rightarrow> task_id \<Rightarrow> timestamp \<Rightarrow> unit orchestrated" where
  "transition_task_failed cd wid t at =
     act_bind (current_task_state wid t) (\<lambda>state.
       if state \<in> set [TS_Queued, TS_Delivered, TS_Running, TS_Blocked]
       then transition_task cd wid t TS_Failed at
       else if state = TS_Failed then act_return ()
       else act_fail (invalid_task_state t state ''time out''))"

section \<open>What is delivered to whom\<close>

definition originating_agent :: "handoff \<Rightarrow> (orchestration_error, agent_id) result" where
  "originating_agent h =
     ok_or (origin_agent (ho_origin h))
       (OE_InvalidMessage (''handoff '' @ id_text (ho_id h) @
         '' was submitted by a routine and has no agent to notify''))"

definition notifies_origin :: "handoff \<Rightarrow> bool" where
  "notifies_origin h = (origin_agent (ho_origin h) \<noteq> None)"

fun program_label :: "agent_program \<Rightarrow> string" where
  "program_label AP_Codex = ''Codex''"
| "program_label AP_Claude = ''Claude''"
| "program_label AP_OpenCode = ''OpenCode''"
| "program_label (AP_Custom _) = ''Custom''"
| "program_label AP_Shell = ''Shell''"

definition delivery_mechanism_of :: "workspace \<Rightarrow> agent_id \<Rightarrow> (orchestration_error, delivery_mechanism) result" where
  "delivery_mechanism_of w recipient =
     res_bind (ok_or (bm_get (w_agents w) recipient)
         (OE_InvalidMessage (''recipient agent '' @ id_text recipient @ '' does not exist''))) (\<lambda>a.
       case agent_program a of
         AP_Codex \<Rightarrow> Inr DM_CodexTerminal
       | AP_Claude \<Rightarrow> Inr DM_ClaudeTerminal
       | AP_OpenCode \<Rightarrow> Inr DM_OpenCodeTerminal
       | program \<Rightarrow> Inl (OE_UnsafeAdapter recipient (program_label program)))"

definition cancellation_details ::
  "handoff \<Rightarrow> handoff_message_id \<Rightarrow> (orchestration_error, agent_id \<times> timestamp \<times> string) result" where
  "cancellation_details h m =
     (case ho_termination h of
        Some (HT_Cancelled cancellation reason cancelled_at) \<Rightarrow>
          if cancellation = m then
            res_bind (ok_or (cancellation_prompt h (HT_Cancelled cancellation reason cancelled_at)) OE_Panic)
              (\<lambda>prompt. Inr (ho_recipient h, cancelled_at, prompt))
          else Inl (OE_InvalidMessage
            (''message '' @ message_id_str m @ '' is not part of handoff '' @ id_text (ho_id h)))
      | _ \<Rightarrow> Inl (OE_InvalidMessage
            (''message '' @ message_id_str m @ '' is not part of handoff '' @ id_text (ho_id h))))"

definition delivery_details ::
  "workspace \<Rightarrow> handoff \<Rightarrow> handoff_message_id \<Rightarrow>
   (orchestration_error, agent_id \<times> timestamp \<times> string) result" where
  "delivery_details w h m =
     (if ho_message_id h = Some m then
        if ho_termination h \<noteq> None \<and> \<not> is_delivered h
        then Inl (OE_InvalidMessage ''terminal handoff no longer accepts initial delivery'')
        else
          let t = (case ho_payload h of HP_Task t \<Rightarrow> bm_get (w_tasks w) t | HP_Question _ \<Rightarrow> None) in
          res_bind (ok_or (ho_created_at h) OE_Panic) (\<lambda>created_at.
          res_bind (ok_or (handoff_prompt h t) OE_Panic) (\<lambda>prompt.
            Inr (ho_recipient h, created_at, prompt)))
      else case List.find (\<lambda>p. prog_message_id p = m) (ho_progress h) of
        Some p \<Rightarrow>
          res_bind (originating_agent h) (\<lambda>a.
          res_bind (ok_or (progress_prompt h p) OE_Panic) (\<lambda>prompt. Inr (a, prog_reported_at p, prompt)))
      | None \<Rightarrow>
        (case ho_response h of
           Some r \<Rightarrow>
             if resp_message_id r = m then
               res_bind (originating_agent h) (\<lambda>a.
               res_bind (ok_or (response_prompt h r) OE_Panic) (\<lambda>prompt.
                 Inr (a, resp_responded_at r, prompt)))
             else cancellation_details h m
         | None \<Rightarrow> cancellation_details h m))"

text \<open>The messages of a handoff that are not settled by its termination.\<close>

definition delivery_message_ids :: "handoff \<Rightarrow> handoff_message_id list" where
  "delivery_message_ids h =
     (if ho_termination h = None \<or> is_delivered h then case ho_message_id h of None \<Rightarrow> [] | Some m \<Rightarrow> [m] else [])
     @ (if origin_agent (ho_origin h) \<noteq> None
        then map prog_message_id (ho_progress h)
          @ (case ho_response h of None \<Rightarrow> [] | Some r \<Rightarrow> [resp_message_id r])
        else [])
     @ (case ho_termination h of Some (HT_Cancelled m _ _) \<Rightarrow> [m] | _ \<Rightarrow> [])"

definition recovery_message_ids :: "handoff \<Rightarrow> handoff_message_id list" where
  "recovery_message_ids h =
     (if origin_run (ho_origin h) \<noteq> None \<and> ho_attempts h \<noteq> [] then [] else delivery_message_ids h)"

section \<open>Mailboxes\<close>

definition all_pending :: "hub \<Rightarrow> pending_delivery list" where
  "all_pending s = concat (bm_values (hub_mailboxes s))"

definition is_queued :: "hub \<Rightarrow> workspace_id \<Rightarrow> handoff_message_id \<Rightarrow> bool" where
  "is_queued s wid m =
     list_ex (list_ex (\<lambda>p. pd_workspace p = wid \<and> pd_message p = m)) (bm_values (hub_mailboxes s))"

definition earlier_failures :: "handoff \<Rightarrow> handoff_message_id \<Rightarrow> u32" where
  "earlier_failures h m =
     (case try_u32 (length (filter (\<lambda>a. att_message_id a = m \<and>
          (case att_outcome a of DO_Failed _ _ retryable \<Rightarrow> retryable | _ \<Rightarrow> False)) (ho_attempts h))) of
        Some n \<Rightarrow> n
      | None \<Rightarrow> - 1)"

definition push_pending :: "pending_delivery \<Rightarrow> hub \<Rightarrow> hub" where
  "push_pending p s =
     (let key = (pd_workspace p, pd_recipient p);
          mailbox = (case bm_get (hub_mailboxes s) key of None \<Rightarrow> [] | Some ps \<Rightarrow> ps) in
      s\<lparr>hub_mailboxes := bm_insert key (mailbox @ [p]) (hub_mailboxes s)\<rparr>)"

definition pending_of ::
  "workspace \<Rightarrow> workspace_id \<Rightarrow> handoff_id \<Rightarrow> handoff \<Rightarrow> handoff_message_id \<Rightarrow> timestamp \<Rightarrow>
   (orchestration_error, pending_delivery) result" where
  "pending_of w wid hid h m now =
     res_bind (delivery_details w h m) (\<lambda>(recipient, accepted_at, prompt).
     res_bind (delivery_mechanism_of w recipient) (\<lambda>mechanism.
     res_bind (checked_timestamp_add accepted_at delivery_window_ms ''delivery deadline'') (\<lambda>deadline.
       Inr \<lparr>pd_workspace = wid, pd_handoff = hid, pd_message = m, pd_recipient = recipient,
            pd_mechanism = mechanism, pd_prompt = prompt, pd_deadline = deadline,
            pd_next_attempt_at = now, pd_failures = earlier_failures h m\<rparr>)))"

definition enqueue ::
  "workspace_id \<Rightarrow> handoff_id \<Rightarrow> handoff_message_id \<Rightarrow> timestamp \<Rightarrow> unit orchestrated" where
  "enqueue wid hid m now =
     act_bind (act_get (\<lambda>s. is_queued s wid m)) (\<lambda>queued.
       if queued then act_return ()
       else act_bind (find_workspace wid) (\<lambda>w.
         act_bind (act_lift (ok_or (bm_get (w_handoffs w) hid) (OE_UnknownHandoff (id_text hid)))) (\<lambda>h.
           if is_delivery_terminal h m then act_return ()
           else act_bind (act_lift (pending_of w wid hid h m now)) (\<lambda>p. act_modify (push_pending p)))))"

text \<open>\<open>retain\<close> on the mailboxes and inside each of them.\<close>

definition remove_pending :: "workspace_id \<Rightarrow> handoff_message_id \<Rightarrow> hub \<Rightarrow> hub" where
  "remove_pending wid m s =
     s\<lparr>hub_mailboxes :=
         bm_retain (\<lambda>_ ps. ps \<noteq> [])
           (bm_map (\<lambda>_. filter (\<lambda>p. pd_workspace p \<noteq> wid \<or> pd_message p \<noteq> m)) (hub_mailboxes s))\<rparr>"

end
