(* ===== verification/Orchestrator_Steps.thy ===== *)
theory Orchestrator_Steps
  imports Orchestrator
begin

text \<open>
  The operations of the orchestrator in \<open>src/orchestration/engine.rs\<close>: accepting messages, working the
  mailboxes off, deadlines, recovery, and what the user may do to a task.
\<close>

section \<open>Messages between agents\<close>

definition participants_match :: "handoff \<Rightarrow> accepted_message \<Rightarrow> bool \<Rightarrow> bool" where
  "participants_match h sent from_recipient =
     (let origin = (case ho_origin h of HO_Agent a \<Rightarrow> MP_Agent (id_get a) | HO_Routine _ _ \<Rightarrow> MP_Routine);
          recipient = MP_Agent (id_get (ho_recipient h));
          (sender, peer) = (if from_recipient then (recipient, origin) else (origin, recipient)) in
      sender = MP_Agent (am_sender sent) \<and> am_recipient sent = peer)"

definition validate_routed_participants ::
  "handoff \<Rightarrow> accepted_message \<Rightarrow> bool \<Rightarrow> (orchestration_error, unit) result" where
  "validate_routed_participants h sent from_recipient =
     ensure (participants_match h sent from_recipient)
       (OE_InvalidMessage ''routed message participants do not match the handoff'')"

fun domain_status :: "ipc_response_status \<Rightarrow> handoff_response_status" where
  "domain_status IS_Completed = HR_Completed"
| "domain_status IS_Failed = HR_Failed"
| "domain_status IS_Blocked = HR_Blocked"

definition domain_outputs ::
  "(string, string) bmap \<Rightarrow> (orchestration_error, (routine_output_key, routine_value) bmap) result" where
  "domain_outputs outputs =
     res_bind (try_map (\<lambda>(key, value).
         res_bind (map_err OE_Routine (output_key_new key)) (\<lambda>k.
         res_bind (map_err OE_Routine (routine_value_new value)) (\<lambda>v. Inr (k, v)))) (entries outputs))
       (\<lambda>kvs. Inr (bm_of_list kvs))"

text \<open>The command of a new handoff; a task comes with its record.\<close>

definition new_handoff_command ::
  "workspace \<Rightarrow> handoff_id \<Rightarrow> handoff_message_id \<Rightarrow> agent_id \<Rightarrow> agent_id \<Rightarrow> handoff_kind \<Rightarrow> string option \<Rightarrow>
   string \<Rightarrow> handoff_id option \<Rightarrow> timestamp \<Rightarrow> timestamp option \<Rightarrow>
   (orchestration_error, domain_command) result" where
  "new_handoff_command w hid m source recipient kind title body parent at deadline =
     (case kind of
        HK_Task \<Rightarrow>
          res_bind (next_task_id w) (\<lambda>tid.
          res_bind (ok_or title (OE_InvalidMessage ''task handoff is missing a title'')) (\<lambda>title.
          res_bind (map_err OE_Validation (name_new title)) (\<lambda>title.
          res_bind (orchestration_content body) (\<lambda>body.
          res_bind (map_err OE_Handoff (handoff_tracked hid m (HO_Agent source) recipient (HP_Task tid)
              parent at deadline)) (\<lambda>h.
            Inr (DC_AddTaskHandoff (task_new tid title body (Some recipient) None) h))))))
      | HK_Question \<Rightarrow>
          res_bind (orchestration_content body) (\<lambda>body.
          res_bind (map_err OE_Handoff (handoff_tracked hid m (HO_Agent source) recipient
              (HP_Question body) parent at deadline)) (\<lambda>h.
            Inr (DC_AddHandoff h))))"

definition parent_handoff ::
  "hub \<Rightarrow> workspace_id \<Rightarrow> ipc_message_id option \<Rightarrow> (orchestration_error, handoff_id option) result" where
  "parent_handoff s wid parent =
     (case parent of
        None \<Rightarrow> Inr None
      | Some p \<Rightarrow>
          res_bind (domain_message_id p) (\<lambda>m.
          res_bind (ok_or (find_handoff s wid m)
              (OE_InvalidMessage ''parent handoff does not exist in the workspace'')) (\<lambda>h.
            Inr (Some (ho_id h)))))"

definition accept_handoff ::
  "codec \<Rightarrow> workspace_id \<Rightarrow> agent_id \<Rightarrow> agent_id \<Rightarrow> ipc_message_id \<Rightarrow> handoff_kind \<Rightarrow> string option \<Rightarrow> string \<Rightarrow>
   ipc_message_id option \<Rightarrow> u64 option \<Rightarrow> timestamp \<Rightarrow> unit orchestrated" where
  "accept_handoff cd wid source recipient message_id kind title body parent timeout at =
     act_bind (act_lift (domain_message_id message_id)) (\<lambda>m.
     act_bind (act_get (\<lambda>s. find_handoff s wid m)) (\<lambda>existing.
       case existing of
         Some h \<Rightarrow> enqueue wid (ho_id h) m at
       | None \<Rightarrow>
           act_bind (find_workspace wid) (\<lambda>w.
           act_bind (act_lift (delivery_mechanism_of w recipient)) (\<lambda>_.
           act_bind (act_lift (next_handoff_id w)) (\<lambda>hid.
           act_bind (act_get (\<lambda>s. parent_handoff s wid parent)) (\<lambda>found.
           act_bind (act_lift found) (\<lambda>parent.
           act_bind (act_lift (case timeout of
               None \<Rightarrow> Inr None
             | Some ms \<Rightarrow> res_bind (checked_timestamp_add at ms ''response deadline'') (\<lambda>t. Inr (Some t)))) (\<lambda>deadline.
           act_bind (act_lift (new_handoff_command w hid m source recipient kind title body parent at deadline)) (\<lambda>c.
           act_bind (run_command cd wid c at) (\<lambda>_.
             enqueue wid hid m at))))))))))"

definition find_root :: "workspace_id \<Rightarrow> handoff_message_id \<Rightarrow> handoff orchestrated" where
  "find_root wid root =
     act_bind (act_get (\<lambda>s. find_handoff s wid root)) (\<lambda>found.
     act_bind (act_lift (ok_or found (OE_UnknownHandoff (message_id_str root)))) (\<lambda>h.
       get_handoff wid (ho_id h)))"

definition notify_origin ::
  "workspace_id \<Rightarrow> handoff_id \<Rightarrow> handoff_message_id \<Rightarrow> timestamp \<Rightarrow> unit orchestrated" where
  "notify_origin wid hid m at =
     act_bind (get_handoff wid hid) (\<lambda>h.
       if \<not> notifies_origin h then act_return () else enqueue wid hid m at)"

definition accept_progress ::
  "codec \<Rightarrow> accepted_message \<Rightarrow> ipc_message_id \<Rightarrow> ipc_message_id \<Rightarrow> string \<Rightarrow> timestamp \<Rightarrow> unit orchestrated" where
  "accept_progress cd sent message_id handoff_message body at =
     (let wid = Id (am_workspace sent) in
      act_bind (act_lift (domain_message_id handoff_message)) (\<lambda>root.
      act_bind (act_lift (domain_message_id message_id)) (\<lambda>progress.
      act_bind (find_root wid root) (\<lambda>before.
      act_bind (act_lift (validate_routed_participants before sent True)) (\<lambda>_.
      act_bind
        (if list_ex (\<lambda>p. prog_message_id p = progress) (ho_progress before) then act_return ()
         else act_bind (act_lift (orchestration_content body)) (\<lambda>body.
           change_handoff cd wid (report_progress \<lparr>prog_message_id = progress, prog_body = body,
             prog_reported_at = at\<rparr>) before at)) (\<lambda>_.
      act_bind (get_handoff wid (ho_id before)) (\<lambda>h.
      act_bind (case ho_payload h of
          HP_Task t \<Rightarrow> transition_task_running cd wid t at
        | HP_Question _ \<Rightarrow> act_return ()) (\<lambda>_.
        notify_origin wid (ho_id before) progress at))))))))"

definition accept_response ::
  "codec \<Rightarrow> workspace_id \<Rightarrow> accepted_message \<Rightarrow> ipc_message_id \<Rightarrow> ipc_message_id \<Rightarrow> ipc_response_status \<Rightarrow>
   string \<Rightarrow> (string, string) bmap \<Rightarrow> timestamp \<Rightarrow> unit orchestrated" where
  "accept_response cd wid sent message_id handoff_message status body outputs at =
     act_bind (act_lift (domain_message_id handoff_message)) (\<lambda>root.
     act_bind (act_lift (domain_message_id message_id)) (\<lambda>response.
     act_bind (find_root wid root) (\<lambda>before.
     act_bind (act_lift (validate_routed_participants before sent True)) (\<lambda>_.
     act_bind
       (if map_option resp_message_id (ho_response before) = Some response then act_return ()
        else act_bind (act_lift (orchestration_content body)) (\<lambda>body.
          act_bind (act_lift (domain_outputs outputs)) (\<lambda>outputs.
            change_handoff cd wid (respond \<lparr>resp_message_id = response, resp_status = domain_status status,
              resp_body = body, resp_responded_at = at, resp_outputs = outputs\<rparr>) before at))) (\<lambda>_.
     act_bind (get_handoff wid (ho_id before)) (\<lambda>h.
     act_bind (case ho_payload h of
         HP_Task t \<Rightarrow> transition_task_response cd wid t status at
       | HP_Question _ \<Rightarrow> act_return ()) (\<lambda>_.
       notify_origin wid (ho_id before) response at)))))))"

fun payload_task :: "handoff_payload \<Rightarrow> task_id option" where
  "payload_task (HP_Task t) = Some t"
| "payload_task (HP_Question _) = None"

definition accept_cancellation ::
  "codec \<Rightarrow> workspace_id \<Rightarrow> accepted_message \<Rightarrow> ipc_message_id \<Rightarrow> ipc_message_id \<Rightarrow> string \<Rightarrow> timestamp \<Rightarrow>
   unit orchestrated" where
  "accept_cancellation cd wid sent message_id handoff_message reason at =
     act_bind (act_lift (domain_message_id handoff_message)) (\<lambda>root.
     act_bind (act_lift (domain_message_id message_id)) (\<lambda>cancellation.
     act_bind (find_root wid root) (\<lambda>before.
     act_bind (act_lift (validate_routed_participants before sent False)) (\<lambda>_.
     act_bind
       (if ho_termination before = None then
          act_bind (act_lift (orchestration_content reason)) (\<lambda>reason.
          act_bind (act_lift (map_err OE_Handoff (cancel_handoff cancellation reason at before))) (\<lambda>after.
            case payload_task (ho_payload before) of
              Some t \<Rightarrow> execute_task_cancellation cd wid t before after at
            | None \<Rightarrow> execute_handoff_update cd wid before after at))
        else case payload_task (ho_payload before) of
            Some t \<Rightarrow> transition_task_cancelled cd wid t at
          | None \<Rightarrow> act_return ()) (\<lambda>_.
     act_bind (act_modify (remove_pending wid root)) (\<lambda>_.
       enqueue wid (ho_id before) cancellation at))))))"

fun accept :: "codec \<Rightarrow> accepted_message \<Rightarrow> timestamp \<Rightarrow> unit orchestrated" where
  "accept cd sent at =
     (let wid = Id (am_workspace sent); sender = Id (am_sender sent) in
      case am_command sent of
        PC_SendTask m recipient title body \<Rightarrow>
          accept_handoff cd wid sender (Id recipient) m HK_Task (Some title) body None None at
      | PC_SendHandoff m recipient kind title body parent timeout \<Rightarrow>
          accept_handoff cd wid sender (Id recipient) m kind title body parent timeout at
      | PC_ReportProgress m root body \<Rightarrow> accept_progress cd sent m root body at
      | PC_ReportHandoffProgress m root body \<Rightarrow> accept_progress cd sent m root body at
      | PC_Respond m root status body \<Rightarrow> accept_response cd wid sent m root status body bm_empty at
      | PC_RespondToHandoff m root status body outputs \<Rightarrow>
          accept_response cd wid sent m root status body outputs at
      | PC_CancelHandoff m root reason \<Rightarrow> accept_cancellation cd wid sent m root reason at
      | _ \<Rightarrow> act_fail (OE_InvalidMessage
          ''agent-list and portal requests do not enter the orchestration queue''))"

section \<open>Working the mailboxes off\<close>

definition next_due :: "timestamp \<Rightarrow> hub \<Rightarrow> pending_delivery option" where
  "next_due now s =
     List.find (\<lambda>p. pd_next_attempt_at p \<le> now)
       (List.map_filter (\<lambda>ps. case ps of [] \<Rightarrow> None | p # _ \<Rightarrow> Some p) (bm_values (hub_mailboxes s)))"

text \<open>\<open>saturating_mul\<close>.\<close>

definition saturating_mul :: "u64 \<Rightarrow> u64 \<Rightarrow> u64" where
  "saturating_mul a b = (if unat a * unat b < 2 ^ 64 then a * b else - 1)"

definition backoff_delay :: "u32 \<Rightarrow> u64" where
  "backoff_delay failures =
     (let shift = min (if failures = 0 then 0 else failures - 1) max_backoff_shift in
      saturating_mul initial_retry_ms (push_bit (unat shift) 1))"

definition set_mailbox :: "mailbox_key \<Rightarrow> pending_delivery list \<Rightarrow> hub \<Rightarrow> hub" where
  "set_mailbox key ps s =
     s\<lparr>hub_mailboxes :=
         (if ps = [] then bm_remove key (hub_mailboxes s) else bm_insert key ps (hub_mailboxes s))\<rparr>"

text \<open>
  The end of \<open>finish_delivery\<close>: the front of the mailbox is removed or put off. The number of failures
  is written before the time of the next attempt is known to be in range.
\<close>

definition settle_front :: "delivery_request \<Rightarrow> bool \<Rightarrow> timestamp \<Rightarrow> unit orchestrated" where
  "settle_front request finished finished_at s =
     (let p = dr_pending request; key = (pd_workspace p, pd_recipient p) in
      case bm_get (hub_mailboxes s) key of
        None \<Rightarrow> (Inl (OE_InvalidMessage ''mailbox disappeared''), s)
      | Some [] \<Rightarrow> (Inl (OE_InvalidMessage ''mailbox order changed during delivery''), s)
      | Some (front # rest) \<Rightarrow>
          if pd_message front \<noteq> pd_message p
          then (Inl (OE_InvalidMessage ''mailbox order changed during delivery''), s)
          else if finished then (Inr (), set_mailbox key rest s)
          else
            let front = front\<lparr>pd_failures := saturating_add (pd_failures front) 1\<rparr> in
            case checked_timestamp_add finished_at (backoff_delay (pd_failures front)) ''retry time'' of
              Inl e \<Rightarrow> (Inl e, set_mailbox key (front # rest) s)
            | Inr t \<Rightarrow> (Inr (), set_mailbox key (front\<lparr>pd_next_attempt_at := t\<rparr> # rest) s))"

text \<open>The task of a handoff moves with the delivery of its first message.\<close>

definition root_task :: "handoff \<Rightarrow> handoff_message_id \<Rightarrow> task_id option" where
  "root_task h m = (if ho_message_id h = Some m then payload_task (ho_payload h) else None)"

definition finish_request ::
  "codec \<Rightarrow> delivery_request \<Rightarrow> (string, unit) result \<Rightarrow> timestamp \<Rightarrow> unit orchestrated" where
  "finish_request cd request outcome finished_at =
     (let p = dr_pending request; wid = pd_workspace p;
          delivered = is_ok outcome; retryable = (\<not> delivered \<and> finished_at < pd_deadline p) in
      act_bind (get_handoff wid (pd_handoff p)) (\<lambda>before.
      act_bind (case outcome of
          Inr _ \<Rightarrow> act_lift (map_err OE_Handoff (complete_delivery (dr_attempt_ordinal request) finished_at before))
        | Inl err \<Rightarrow>
            act_bind (act_lift (orchestration_content
                (if str_trim err = [] then ''terminal delivery failed'' else err))) (\<lambda>reason.
              act_lift (map_err OE_Handoff
                (fail_delivery (dr_attempt_ordinal request) finished_at reason retryable before)))) (\<lambda>after.
      act_bind (execute_handoff_update cd wid before after finished_at) (\<lambda>_.
      act_bind
        (if delivered then
           act_bind (get_handoff wid (pd_handoff p)) (\<lambda>h.
             case root_task h (pd_message p) of
               Some t \<Rightarrow> transition_task_delivered cd wid t finished_at
             | None \<Rightarrow> act_return ())
         else if \<not> retryable then
           act_bind (get_handoff wid (pd_handoff p)) (\<lambda>h.
             case root_task h (pd_message p) of
               Some t \<Rightarrow> transition_task_failed cd wid t finished_at
             | None \<Rightarrow> act_return ())
         else act_return ()) (\<lambda>_.
        settle_front request (delivered \<or> \<not> retryable) finished_at)))))"

text \<open>
  One round of the loop of \<open>prepare_next\<close>: it leaves with \<open>None\<close> when nothing is due and with the
  request to hand out otherwise, or goes round again.
\<close>

definition prepare_round ::
  "codec \<Rightarrow> timestamp \<Rightarrow> unit \<Rightarrow> (unit + delivery_request option) orchestrated" where
  "prepare_round cd now = (\<lambda>_.
     act_bind (act_get (next_due now)) (\<lambda>due.
       case due of
         None \<Rightarrow> act_return (Inr None)
       | Some p \<Rightarrow>
           act_bind (get_handoff (pd_workspace p) (pd_handoff p)) (\<lambda>before.
             if ho_message_id before = Some (pd_message p) \<and> ho_termination before \<noteq> None \<and> \<not> is_delivered before
             then act_bind (act_modify (remove_pending (pd_workspace p) (pd_message p))) (\<lambda>_. act_return (Inl ()))
             else
               act_bind (act_lift (map_err OE_Handoff
                   (begin_delivery (pd_message p) (pd_mechanism p) now before))) (\<lambda>(after, ordinal).
               act_bind (execute_handoff_update cd (pd_workspace p) before after now) (\<lambda>_.
                 let request = \<lparr>dr_pending = p, dr_attempt_ordinal = ordinal\<rparr> in
                 if pd_deadline p \<le> now
                 then act_bind (finish_request cd request (Inl ''delivery deadline expired'') now) (\<lambda>_.
                   act_return (Inl ()))
                 else act_return (Inr (Some request)))))))"

text \<open>
  Every round that goes on takes a prompt out of a mailbox, so one round more than there are prompts is
  enough; a result of \<open>None\<close> would be a loop that is still running.
\<close>

definition prepare_next :: "codec \<Rightarrow> timestamp \<Rightarrow> delivery_request option option orchestrated" where
  "prepare_next cd now =
     act_bind (act_get (\<lambda>s. length (all_pending s))) (\<lambda>n. act_loop (Suc n) (prepare_round cd now) ())"

section \<open>Deadlines and recovery\<close>

definition response_due :: "timestamp \<Rightarrow> handoff \<Rightarrow> bool" where
  "response_due now h =
     (ho_response h = None \<and> ho_termination h = None
      \<and> (case ho_response_deadline h of None \<Rightarrow> False | Some d \<Rightarrow> d \<le> now))"

definition due_handoffs :: "timestamp \<Rightarrow> hub \<Rightarrow> (workspace_id \<times> handoff_id) list" where
  "due_handoffs now s =
     concat (map (\<lambda>w. map (\<lambda>h. (w_id w, ho_id h)) (filter (response_due now) (bm_values (w_handoffs w))))
       (recent_workspaces (hub_manager s)))"

definition expire_handoff :: "codec \<Rightarrow> timestamp \<Rightarrow> workspace_id \<times> handoff_id \<Rightarrow> unit orchestrated" where
  "expire_handoff cd now = (\<lambda>(wid, hid).
     act_bind (get_handoff wid hid) (\<lambda>before.
     act_bind (act_lift (ok_or (ho_message_id before) OE_Panic)) (\<lambda>m.
     act_bind (change_handoff cd wid (time_out now) before now) (\<lambda>_.
     act_bind (get_handoff wid hid) (\<lambda>h.
     act_bind (case payload_task (ho_payload h) of
         Some t \<Rightarrow> transition_task_failed cd wid t now
       | None \<Rightarrow> act_return ()) (\<lambda>_.
       act_modify (remove_pending wid m)))))))"

definition expire_due :: "codec \<Rightarrow> timestamp \<Rightarrow> unit orchestrated" where
  "expire_due cd now = act_bind (act_get (due_handoffs now)) (act_each (expire_handoff cd now))"

definition interrupted_attempts :: "hub \<Rightarrow> (workspace_id \<times> handoff_id \<times> u32) list" where
  "interrupted_attempts s =
     concat (map (\<lambda>w. concat (map (\<lambda>h.
         map (\<lambda>a. (w_id w, ho_id h, att_ordinal a)) (filter (\<lambda>a. att_outcome a = DO_Started) (ho_attempts h)))
         (bm_values (w_handoffs w)))) (recent_workspaces (hub_manager s)))"

definition close_attempt :: "codec \<Rightarrow> timestamp \<Rightarrow> workspace_id \<times> handoff_id \<times> u32 \<Rightarrow> unit orchestrated" where
  "close_attempt cd at = (\<lambda>(wid, hid, ordinal).
     act_bind (get_handoff wid hid) (\<lambda>before.
     act_bind (act_lift (orchestration_content
         ''delivery outcome is unknown after OpenPodium restarted'')) (\<lambda>reason.
       change_handoff cd wid (fail_delivery ordinal at reason True) before at)))"

definition undelivered_messages :: "hub \<Rightarrow> (workspace_id \<times> handoff_id \<times> handoff_message_id) list" where
  "undelivered_messages s =
     concat (map (\<lambda>w. concat (map (\<lambda>h. map (\<lambda>m. (w_id w, ho_id h, m)) (recovery_message_ids h))
         (bm_values (w_handoffs w)))) (recent_workspaces (hub_manager s)))"

text \<open>\<open>Orchestrator::recover\<close>: the new orchestrator starts without mailboxes.\<close>

definition orchestrator_recover :: "codec \<Rightarrow> timestamp \<Rightarrow> unit orchestrated" where
  "orchestrator_recover cd at =
     act_bind (act_get interrupted_attempts) (\<lambda>interrupted.
     act_bind (act_each (close_attempt cd at) interrupted) (\<lambda>_.
     act_bind (act_modify (\<lambda>s. s\<lparr>hub_mailboxes := bm_empty\<rparr>)) (\<lambda>_.
     act_bind (act_get undelivered_messages) (\<lambda>messages.
     act_bind (act_each (\<lambda>(wid, hid, m). enqueue wid hid m at) messages) (\<lambda>_.
       expire_due cd at)))))"

section \<open>What the scheduler and the user ask for\<close>

definition submit_routine_handoff :: "workspace_id \<Rightarrow> handoff_id \<Rightarrow> timestamp \<Rightarrow> unit orchestrated" where
  "submit_routine_handoff wid hid now =
     act_bind (get_handoff wid hid) (\<lambda>h.
       if origin_run (ho_origin h) = None
       then act_fail (OE_InvalidMessage (''handoff '' @ id_text hid @ '' was not submitted by a routine''))
       else act_bind (act_lift (ok_or (ho_message_id h)
           (OE_InvalidMessage (''routine handoff '' @ id_text hid @ '' has no message ID'')))) (\<lambda>m.
         enqueue wid hid m now))"

definition cancel_task :: "codec \<Rightarrow> workspace_id \<Rightarrow> task_id \<Rightarrow> timestamp \<Rightarrow> unit orchestrated" where
  "cancel_task cd wid t at =
     act_bind (find_workspace wid) (\<lambda>w.
     act_bind (act_lift (task_handoff w t)) (\<lambda>before.
     act_bind (act_lift (ok_or (ho_message_id before) OE_Panic)) (\<lambda>root.
     act_bind (act_lift (recovery_message_id ''cancel'' wid t at)) (\<lambda>cancellation.
     act_bind (act_lift (orchestration_content ''Cancelled by the user'')) (\<lambda>reason.
     act_bind (act_lift (map_err OE_Handoff (cancel_handoff cancellation reason at before))) (\<lambda>after.
     act_bind (execute_task_cancellation cd wid t before after at) (\<lambda>_.
     act_bind (act_modify (remove_pending wid root)) (\<lambda>_.
       enqueue wid (ho_id before) cancellation at))))))))"

definition resume_task :: "codec \<Rightarrow> workspace_id \<Rightarrow> task_id \<Rightarrow> timestamp \<Rightarrow> unit orchestrated" where
  "resume_task cd wid t at =
     act_bind (current_task_state wid t) (\<lambda>state.
       if state \<noteq> TS_Blocked then act_fail (invalid_task_state t state ''resume'')
       else act_bind (find_workspace wid) (\<lambda>w.
       act_bind (act_lift (task_handoff w t)) (\<lambda>previous.
       act_bind
         (if ho_response previous = None \<and> ho_termination previous = None then
            act_bind (act_lift (ok_or (ho_message_id previous) OE_Panic)) (\<lambda>m.
            act_bind (transition_task cd wid t TS_Running at) (\<lambda>_. act_return (ho_id previous, m)))
          else
            act_bind (act_lift (delivery_mechanism_of w (ho_recipient previous))) (\<lambda>_.
            act_bind (act_lift (next_handoff_id w)) (\<lambda>hid.
            act_bind (act_lift (recovery_message_id ''resume'' wid t at)) (\<lambda>m.
            act_bind (act_lift (map_err OE_Handoff (handoff_tracked hid m (ho_origin previous)
                (ho_recipient previous) (HP_Task t) None at None))) (\<lambda>h.
            act_bind (run_command cd wid (DC_ResumeTask t h) at) (\<lambda>_. act_return (hid, m))))))) (\<lambda>(hid, m).
         enqueue wid hid m at))))"

definition retry_task :: "codec \<Rightarrow> workspace_id \<Rightarrow> task_id \<Rightarrow> timestamp \<Rightarrow> task_id orchestrated" where
  "retry_task cd wid t at =
     act_bind (find_workspace wid) (\<lambda>w.
     act_bind (act_lift (ok_or (bm_get (w_tasks w) t)
         (OE_InvalidMessage (''task '' @ id_text t @ '' is missing'')))) (\<lambda>original.
       if task_state original \<notin> set [TS_Failed, TS_Cancelled]
       then act_fail (invalid_task_state t (task_state original) ''retry'')
       else
         act_bind (act_lift (task_handoff w t)) (\<lambda>previous.
         act_bind (act_lift (delivery_mechanism_of w (ho_recipient previous))) (\<lambda>_.
         act_bind (act_lift (next_task_id w)) (\<lambda>tid.
         act_bind (act_lift (next_handoff_id w)) (\<lambda>hid.
         act_bind (act_lift (recovery_message_id ''retry'' wid tid at)) (\<lambda>m.
         act_bind (act_lift (map_err OE_Handoff (handoff_tracked hid m (ho_origin previous)
             (ho_recipient previous) (HP_Task tid) None at None))) (\<lambda>h.
         act_bind (run_command cd wid (DC_AddTaskHandoff
             (task_new tid (task_title original) (task_prompt original) (task_assignee original) (Some t)) h) at) (\<lambda>_.
         act_bind (enqueue wid hid m at) (\<lambda>_. act_return tid))))))))))"

end
