(* ===== verification/Orchestrator_Boxes.thy ===== *)
theory Orchestrator_Boxes
  imports Orchestrator_Steps "HOL-Library.Multiset"
begin

text \<open>
  The mailboxes as the bag of the prompts in them, what leaves them alone, and the loop of
  \<open>prepare_next\<close>, which the number of prompts bounds.
\<close>

section \<open>The prompts of all mailboxes\<close>

abbreviation prompts :: "hub \<Rightarrow> pending_delivery multiset" where
  "prompts s \<equiv> mset (all_pending s)"

lemma al_insert_new:
  "k \<notin> fst ` set es \<Longrightarrow> mset (concat (map snd (al_insert k qs es))) = mset qs + mset (concat (map snd es))"
  by (induction k qs es rule: al_insert.induct) auto

lemma al_insert_old:
  "keys_sorted es \<Longrightarrow> (k, ps) \<in> set es \<Longrightarrow>
     mset (concat (map snd (al_insert k qs es))) + mset ps = mset (concat (map snd es)) + mset qs"
  by (induction k qs es rule: al_insert.induct) (force simp: ac_simps)+

lemma al_filter_old:
  "keys_sorted es \<Longrightarrow> (k, ps) \<in> set es \<Longrightarrow>
     mset (concat (map snd (filter (\<lambda>(k', _). k' \<noteq> k) es))) + mset ps = mset (concat (map snd es))"
proof (induction es)
  case (Cons e es)
  show ?case
  proof (cases "e = (k, ps)")
    case True
    have "filter (\<lambda>(k', _). k' \<noteq> k) es = es"
      using Cons.prems(1) True by (intro filter_True) auto
    with True show ?thesis by (simp add: ac_simps)
  next
    case False
    with Cons.prems have "(k, ps) \<in> set es" "fst e \<noteq> k" by force+
    with Cons False show ?thesis by (auto simp: case_prod_unfold ac_simps)
  qed
qed simp

text \<open>What replacing, emptying or filling a mailbox does to the prompts.\<close>

lemma set_mailbox_prompts:
  assumes "bm_get (hub_mailboxes s) key = Some ps"
  shows "prompts (set_mailbox key qs s) + mset ps = prompts s + mset qs"
proof -
  have mem: "(key, ps) \<in> set (entries (hub_mailboxes s))" using assms by (simp add: bm_get_Some_iff)
  show ?thesis
    using al_insert_old [OF keys_sorted_entries mem, of qs] al_filter_old [OF keys_sorted_entries mem]
    by (simp add: set_mailbox_def all_pending_def bm_values_def bm_remove_def del: mset_concat)
qed

lemma push_prompts: "prompts (push_pending p s) = add_mset p (prompts s)"
proof (cases "bm_get (hub_mailboxes s) (pd_workspace p, pd_recipient p)")
  case None
  then have "(pd_workspace p, pd_recipient p) \<notin> fst ` set (entries (hub_mailboxes s))"
    by (force simp: bm_get_Some_iff [symmetric])
  from al_insert_new [OF this] None show ?thesis
    by (simp add: push_pending_def all_pending_def bm_values_def del: mset_concat)
next
  case (Some ps)
  have "prompts (push_pending p s) + mset ps = prompts s + mset (ps @ [p])"
    using set_mailbox_prompts [OF Some, of "ps @ [p]"] Some by (simp add: push_pending_def set_mailbox_def)
  then show ?thesis by simp
qed

lemma remove_pending_prompts:
  "all_pending (remove_pending wid m s) = filter (\<lambda>p. pd_workspace p \<noteq> wid \<or> pd_message p \<noteq> m) (all_pending s)"
proof -
  have "concat (map snd (filter (\<lambda>(_, ps). ps \<noteq> []) (map (\<lambda>(k, ps). (k, filter Q ps)) es))) =
      filter Q (concat (map snd es))" for es :: "(mailbox_key \<times> pending_delivery list) list" and Q
    by (induction es) auto
  then show ?thesis by (simp add: remove_pending_def all_pending_def bm_values_def)
qed

lemma remove_pending_fewer:
  "p \<in> set (all_pending s) \<Longrightarrow>
     length (all_pending (remove_pending (pd_workspace p) (pd_message p) s)) < length (all_pending s)"
  unfolding remove_pending_prompts by (rule length_filter_less) auto

lemma find_SomeD: "List.find Q xs = Some x \<Longrightarrow> x \<in> set xs \<and> Q x"
  by (induction xs) (auto split: if_splits)

lemma next_due_pending: "next_due now s = Some p \<Longrightarrow> p \<in> set (all_pending s) \<and> pd_next_attempt_at p \<le> now"
  by (force dest!: find_SomeD simp: next_due_def all_pending_def List.map_filter_def split: list.splits)

section \<open>What changes the mailboxes\<close>

text \<open>Reading, recording and moving tasks leave them alone.\<close>

abbreviation same_boxes :: "hub \<Rightarrow> hub \<Rightarrow> bool" where
  "same_boxes s s' \<equiv> hub_mailboxes s' = hub_mailboxes s"

interpretation boxes: kept_relation same_boxes
  by unfold_locales auto

lemma keeps_find_workspace: "keeps same_boxes (find_workspace wid)"
  unfolding find_workspace_def by (intro boxes.keeps_bind boxes.keeps_pure)

lemma keeps_get_handoff: "keeps same_boxes (get_handoff wid hid)"
  unfolding get_handoff_def by (intro boxes.keeps_bind keeps_find_workspace boxes.keeps_pure)

lemma keeps_run_command: "keeps same_boxes (run_command cd wid c at)"
  unfolding run_command_def
proof (rule boxes.keeps_bind)
  show "keeps same_boxes (on_manager f)" for f :: "'x managed"
    by (auto simp: keeps_def on_manager_def act_map_err_def act_zoom_def split: prod.split)
qed (rule boxes.keeps_pure)

lemma keeps_task_state: "keeps same_boxes (current_task_state wid t)"
  unfolding current_task_state_def by (intro boxes.keeps_bind keeps_find_workspace boxes.keeps_pure)

lemmas keeps_reading = boxes.keeps_pure keeps_find_workspace keeps_get_handoff keeps_run_command keeps_task_state

lemma keeps_updates:
  "keeps same_boxes (execute_handoff_update cd wid before after at)"
  "keeps same_boxes (execute_task_cancellation cd wid t before after at)"
  "keeps same_boxes (transition_task cd wid t to at)"
  "keeps same_boxes (change_handoff cd wid f before at)"
  by (auto simp: execute_handoff_update_def execute_task_cancellation_def transition_task_def change_handoff_def
      intro!: boxes.keeps_bind keeps_reading)

lemma keeps_delivered: "keeps same_boxes (transition_task_delivered cd wid t at)"
  unfolding transition_task_delivered_def by (auto intro!: boxes.keeps_bind keeps_reading keeps_updates)

lemma keeps_running: "keeps same_boxes (transition_task_running cd wid t at)"
  unfolding transition_task_running_def
  by (auto intro!: boxes.keeps_bind keeps_reading keeps_updates keeps_delivered)

lemma keeps_transitions:
  "keeps same_boxes (transition_task_response cd wid t status at)"
  "keeps same_boxes (transition_task_cancelled cd wid t at)"
  "keeps same_boxes (transition_task_failed cd wid t at)"
  unfolding transition_task_response_def transition_task_cancelled_def transition_task_failed_def
  by (auto intro!: boxes.keeps_bind keeps_reading keeps_updates keeps_delivered keeps_running
      split: ipc_response_status.split)

lemmas keeps_recording = keeps_reading keeps_updates keeps_delivered keeps_running keeps_transitions

section \<open>The loop of prepare_next\<close>

lemma finish_request_shrinks:
  assumes "finish_request cd request (Inl err) now s = (Inr u, s')" and "pd_deadline (dr_pending request) \<le> now"
  shows "length (all_pending s') < length (all_pending s)"
proof -
  have late: "\<not> now < pd_deadline (dr_pending request)" using assms(2) by simp
  from assms(1) late obtain t where t: "hub_mailboxes t = hub_mailboxes s"
    "settle_front request True now t = (Inr u, s')"
    unfolding finish_request_def
    by (auto simp: Let_def is_ok_def result_iff
        dest!: keepsD [OF keeps_get_handoff] keepsD [OF keeps_updates(1)]
          keepsD [OF keeps_transitions(3)] split: option.splits)
  let ?key = "(pd_workspace (dr_pending request), pd_recipient (dr_pending request))"
  from t(2) obtain front rest where front: "bm_get (hub_mailboxes t) ?key = Some (front # rest)"
    "s' = set_mailbox ?key rest t"
    by (auto simp: settle_front_def Let_def split: option.splits list.splits if_splits)
  from set_mailbox_prompts [OF front(1), of rest] have "prompts s' + mset (front # rest) = prompts t + mset rest"
    unfolding front(2) .
  then have "length (all_pending s') + Suc (length rest) = length (all_pending t) + length rest"
    unfolding size_mset [symmetric] by (metis size_union size_mset length_Cons)
  with t(1) show ?thesis by (simp add: all_pending_def)
qed

lemma prepare_round_shrinks:
  assumes "prepare_round cd now b s = (Inr (Inl b'), s')"
  shows "length (all_pending s') < length (all_pending s)"
proof -
  from assms obtain p where p: "next_due now s = Some p"
    by (cases "next_due now s") (simp_all add: prepare_round_def)
  then have mem: "p \<in> set (all_pending s)" by (simp add: next_due_pending)
  from assms p obtain before t where before: "get_handoff (pd_workspace p) (pd_handoff p) s = (Inr before, t)"
    by (auto simp: prepare_round_def result_iff)
  then have t: "hub_mailboxes t = hub_mailboxes s" using keepsD [OF keeps_get_handoff] by blast
  show ?thesis
  proof (cases "ho_message_id before = Some (pd_message p) \<and> ho_termination before \<noteq> None \<and> \<not> is_delivered before")
    case True
    with assms p before have "s' = remove_pending (pd_workspace p) (pd_message p) t"
      by (simp add: prepare_round_def act_bind_eqs(2) act_bind_def)
    moreover have "p \<in> set (all_pending t)" using mem t by (simp add: all_pending_def)
    ultimately show ?thesis using remove_pending_fewer [of p t] t by (simp add: all_pending_def)
  next
    case False
    from assms p before have "act_bind (act_lift (map_err OE_Handoff
            (begin_delivery (pd_message p) (pd_mechanism p) now before))) (\<lambda>(after, ordinal).
          act_bind (execute_handoff_update cd (pd_workspace p) before after now) (\<lambda>_.
            let request = \<lparr>dr_pending = p, dr_attempt_ordinal = ordinal\<rparr> in
            if pd_deadline p \<le> now
            then act_bind (finish_request cd request (Inl ''delivery deadline expired'') now) (\<lambda>_. act_return (Inl ()))
            else act_return (Inr (Some request)))) t = (Inr (Inl b'), s')"
      using False by (simp add: prepare_round_def act_bind_eqs(2) split: if_splits)
    then obtain after ordinal u v where
      "execute_handoff_update cd (pd_workspace p) before after now t = (Inr u, v)" "pd_deadline p \<le> now"
      "\<exists>x. finish_request cd \<lparr>dr_pending = p, dr_attempt_ordinal = ordinal\<rparr>
         (Inl ''delivery deadline expired'') now v = (Inr x, s')"
      by (auto simp: result_iff Let_def split: prod.splits if_splits)
    moreover have "hub_mailboxes v = hub_mailboxes s" using keepsD [OF keeps_updates(1)] calculation(1) t by metis
    ultimately show ?thesis
      using finish_request_shrinks [where s = v and s' = s'] by (fastforce simp: all_pending_def)
  qed
qed

interpretation prepare: measured_loop "prepare_round cd now" "\<lambda>s. length (all_pending s)" "\<lambda>_. True" for cd now
  by unfold_locales (simp add: prepare_round_shrinks)

section \<open>The invariant of the mailboxes\<close>

text \<open>
  The invariant of the mailboxes: none is empty, every prompt is filed under its recipient and is
  plain text, and no message is queued twice.
\<close>

definition pending_key :: "pending_delivery \<Rightarrow> workspace_id \<times> handoff_message_id" where
  "pending_key p = (pd_workspace p, pd_message p)"

definition filed :: "mailbox_key \<Rightarrow> pending_delivery list \<Rightarrow> bool" where
  "filed key ps \<longleftrightarrow>
     ps \<noteq> [] \<and> (\<forall>p\<in>set ps. (pd_workspace p, pd_recipient p) = key \<and> plain_text (pd_prompt p))"

definition boxes_ok :: "hub \<Rightarrow> bool" where
  "boxes_ok s \<longleftrightarrow>
     (\<forall>key ps. bm_get (hub_mailboxes s) key = Some ps \<longrightarrow> filed key ps) \<and>
     distinct (map pending_key (all_pending s))"

lemma boxes_filed: "boxes_ok s \<Longrightarrow> bm_get (hub_mailboxes s) key = Some ps \<Longrightarrow> filed key ps"
  unfolding boxes_ok_def by blast

lemma boxes_ok_same: "hub_mailboxes s' = hub_mailboxes s \<Longrightarrow> boxes_ok s' = boxes_ok s"
  by (simp add: boxes_ok_def all_pending_def)

lemma boxes_ok_empty: "boxes_ok (s\<lparr>hub_mailboxes := bm_empty\<rparr>)"
  by (simp add: boxes_ok_def all_pending_def bm_values_def)

lemma distinct_keys_prompts:
  "prompts s' = prompts s \<Longrightarrow> distinct (map pending_key (all_pending s')) = distinct (map pending_key (all_pending s))"
  by (intro mset_eq_imp_distinct_iff) simp

lemma is_queued_iff: "is_queued s wid m \<longleftrightarrow> (wid, m) \<in> pending_key ` set (all_pending s)"
  by (auto simp: is_queued_def list_ex_iff all_pending_def pending_key_def image_iff)

lemma push_ok:
  assumes "boxes_ok s" and "\<not> is_queued s (pd_workspace p) (pd_message p)" and "plain_text (pd_prompt p)"
  shows "boxes_ok (push_pending p s)"
proof -
  note old = boxes_filed [OF assms(1)]
  have "mset (map pending_key (all_pending (push_pending p s))) = mset (pending_key p # map pending_key (all_pending s))"
    using push_prompts [of p s] by simp
  from mset_eq_imp_distinct_iff [OF this] have "distinct (map pending_key (all_pending (push_pending p s)))"
    using assms(1,2) by (simp add: boxes_ok_def is_queued_iff pending_key_def)
  moreover have "filed key ps" if "bm_get (hub_mailboxes (push_pending p s)) key = Some ps" for key ps
  proof (cases "key = (pd_workspace p, pd_recipient p)")
    case True
    with that obtain qs where qs: "ps = qs @ [p]" "qs = [] \<or> bm_get (hub_mailboxes s) key = Some qs"
      by (auto simp: push_pending_def Let_def split: option.splits)
    have "\<forall>q\<in>set qs. (pd_workspace q, pd_recipient q) = key \<and> plain_text (pd_prompt q)"
      using qs(2) old [of key qs] by (cases "qs = []") (simp, simp only: filed_def, blast)
    with assms(3) True show ?thesis unfolding qs(1) filed_def by simp
  next
    case False
    with that show ?thesis by (intro old) (simp add: push_pending_def Let_def)
  qed
  ultimately show ?thesis unfolding boxes_ok_def by blast
qed

lemma distinct_submset:
  assumes "mset xs \<subseteq># mset ys" and "distinct ys"
  shows "distinct xs"
proof -
  have "count (mset xs) a = (if a \<in> set xs then 1 else 0)" for a
  proof -
    have "count (mset xs) a \<le> 1"
      using mset_subset_eq_count [OF assms(1), of a] assms(2) unfolding distinct_count_atmost_1
      by (metis One_nat_def le_zero_eq linorder_le_cases order.trans)
    then show ?thesis
      by (metis One_nat_def Suc_leI count_greater_zero_iff le_antisym not_gr0 set_mset_mset)
  qed
  then show ?thesis by (simp add: distinct_count_atmost_1)
qed

lemma set_mailbox_ok:
  assumes "boxes_ok s" and "bm_get (hub_mailboxes s) key = Some ps"
    and "qs \<noteq> [] \<Longrightarrow> filed key qs" and "mset (map pending_key qs) \<subseteq># mset (map pending_key ps)"
  shows "boxes_ok (set_mailbox key qs s)"
proof -
  let ?keys = "\<lambda>s. image_mset pending_key (prompts s)"
  have "?keys (set_mailbox key qs s) + mset (map pending_key ps) = ?keys s + mset (map pending_key qs)"
    using arg_cong [OF set_mailbox_prompts [OF assms(2), of qs], of "image_mset pending_key"] by simp
  then have "?keys (set_mailbox key qs s) \<subseteq># ?keys s"
    using assms(4) by (metis add_le_cancel_right subset_mset.add_left_mono subset_mset.add_le_cancel_right)
  then have "mset (map pending_key (all_pending (set_mailbox key qs s))) \<subseteq># mset (map pending_key (all_pending s))"
    by simp
  then have "distinct (map pending_key (all_pending (set_mailbox key qs s)))"
    using assms(1) distinct_submset unfolding boxes_ok_def by blast
  then show ?thesis
    using assms(1,3) by (auto simp: boxes_ok_def set_mailbox_def split: if_splits)
qed

lemma remove_pending_ok:
  assumes "boxes_ok s"
  shows "boxes_ok (remove_pending wid m s)"
proof -
  have "distinct (map pending_key (all_pending (remove_pending wid m s)))"
    using assms unfolding boxes_ok_def remove_pending_prompts by (simp add: distinct_map_filter)
  moreover have "filed key ps" if "bm_get (hub_mailboxes (remove_pending wid m s)) key = Some ps" for key ps
    using that boxes_filed [OF assms, of key]
    by (auto simp: filed_def remove_pending_def bm_get_retain bm_get_map split: option.splits if_splits)
  ultimately show ?thesis unfolding boxes_ok_def by blast
qed

lemma settle_front_ok:
  assumes "boxes_ok s"
  shows "boxes_ok (snd (settle_front request finished now s))"
proof -
  let ?key = "(pd_workspace (dr_pending request), pd_recipient (dr_pending request))"
  have ok: "boxes_ok (set_mailbox ?key qs s)"
    if "bm_get (hub_mailboxes s) ?key = Some (front # rest)"
      "qs = rest \<or> (\<exists>f. qs = f # rest \<and> pending_key f = pending_key front \<and> pd_recipient f = pd_recipient front
         \<and> pd_prompt f = pd_prompt front)" for front rest qs
  proof (rule set_mailbox_ok [OF assms that(1)])
    have "filed ?key (front # rest)" using assms that(1) by (simp add: boxes_ok_def)
    with that(2) show "filed ?key qs" if "qs \<noteq> []" using that by (auto simp: filed_def pending_key_def)
    show "mset (map pending_key qs) \<subseteq># mset (map pending_key (front # rest))" using that(2) by auto
  qed
  show ?thesis
    using assms by (auto simp: settle_front_def Let_def pending_key_def intro!: ok split: option.split list.split sum.split)
qed

lemma details_plain: "delivery_details w h m = Inr (a, t, p) \<Longrightarrow> plain_text p"
  by (auto simp: delivery_details_def cancellation_details_def result_iff prompts_plain Let_def
      split: if_splits option.splits handoff_termination.splits)

lemma pending_of_fields:
  "pending_of w wid hid h m now = Inr p \<Longrightarrow>
     pd_workspace p = wid \<and> pd_message p = m \<and> plain_text (pd_prompt p)"
  by (auto simp: pending_of_def result_iff details_plain)

end
