(* ===== verification/Orchestrator_Records.thy ===== *)
theory Orchestrator_Records
  imports Orchestrator_Boxes Manager_Safe
begin

text \<open>
  What the orchestrator records: its commands come from constructors, so the manager that executes
  them stays in step with its journal, whatever fails on the way.
\<close>

section \<open>Texts from their constructors\<close>

lemma domain_message_valid: "handoff_message_id_new s = Inr m \<Longrightarrow> message_id_valid m"
  by (auto simp: message_id_valid_def handoff_message_id_new_def result_iff split: if_splits)

lemma new_keys_valid:
  "output_key_new s = Inr k \<Longrightarrow> output_key_new (key_str k) = Inr k"
  "routine_value_new s = Inr v \<Longrightarrow> value_valid v"
  by (auto simp: output_key_new_def key_new_def routine_value_new_def value_valid_def Let_def result_iff
      split: if_splits)

lemma try_map_member: "try_map f xs = Inr ys \<Longrightarrow> y \<in> set ys \<Longrightarrow> \<exists>x\<in>set xs. f x = Inr y"
  by (induction xs arbitrary: ys) (auto simp: result_iff)

lemma domain_outputs_valid:
  assumes "domain_outputs outputs = Inr os"
  shows "list_all (value_entry_valid output_key_new) (entries os)"
proof -
  from assms obtain kvs where kvs: "try_map (\<lambda>(key, value).
         res_bind (map_err OE_Routine (output_key_new key)) (\<lambda>k.
         res_bind (map_err OE_Routine (routine_value_new value)) (\<lambda>v. Inr (k, v)))) (entries outputs) = Inr kvs"
    and os: "os = bm_of_list kvs"
    by (auto simp: domain_outputs_def result_iff)
  have "output_key_new (key_str k) = Inr k \<and> value_valid v" if "(k, v) \<in> set kvs" for k v
    using try_map_member [OF kvs that] by (auto simp: result_iff dest: new_keys_valid)
  moreover have "set (entries os) \<subseteq> set kvs"
    unfolding os by (auto simp: bm_get_Some_iff [symmetric] bm_get_of_list dest!: map_of_SomeD)
  ultimately show ?thesis by (auto simp: list_all_iff value_entry_valid_def)
qed

section \<open>Handoffs\<close>

lemma handoff_messages_valid: "handoff_valid h \<Longrightarrow> has_delivery_message h m \<Longrightarrow> message_id_valid m"
  by (auto simp: handoff_valid_def has_delivery_message_def list_all_iff list_ex_iff progress_valid_def
      response_valid_def split: option.splits handoff_termination.splits)

lemma update_first_member: "x \<in> set (update_first P f xs) \<Longrightarrow> x \<in> set xs \<or> (\<exists>y\<in>set xs. x = f y)"
  by (induction xs) (auto split: if_splits)

lemma finish_delivery_valid:
  "handoff_valid h \<Longrightarrow> (\<And>t e r. out = DO_Failed t e r \<Longrightarrow> content_valid e) \<Longrightarrow> handoff_valid (finish_delivery n out h)"
  by (auto simp: handoff_valid_def finish_delivery_def list_all_iff dest: update_first_member)

lemma handoff_changes_valid:
  assumes "handoff_valid h"
  shows "begin_delivery m mech t h = Inr (h', n) \<Longrightarrow> handoff_valid h'"
    and "complete_delivery n t h = Inr h' \<Longrightarrow> handoff_valid h'"
    and "content_valid e \<Longrightarrow> fail_delivery n t e r h = Inr h' \<Longrightarrow> handoff_valid h'"
    and "progress_valid p \<Longrightarrow> report_progress p h = Inr h' \<Longrightarrow> handoff_valid h'"
    and "response_valid rsp \<Longrightarrow> respond rsp h = Inr h' \<Longrightarrow> handoff_valid h'"
    and "message_id_valid m \<Longrightarrow> content_valid e \<Longrightarrow> cancel_handoff m e t h = Inr h' \<Longrightarrow> handoff_valid h'"
    and "time_out t h = Inr h' \<Longrightarrow> handoff_valid h'"
  using assms handoff_messages_valid [OF assms]
  by (auto simp: handoff_op_iffs intro!: finish_delivery_valid) (auto simp: handoff_valid_def)

section \<open>Commands that may be recorded\<close>

lemma recordable_single:
  "(\<And>w' e. execute w c = Inr (w', e) \<Longrightarrow> recordable e) \<Longrightarrow> recordable_batch w [c]"
  by (auto simp: recordable_batch_def run_logged_def res_bind_def split: sum.splits)

lemma stored_handoff: "storable w \<Longrightarrow> bm_get (w_handoffs w) i = Some h \<Longrightarrow> handoff_recorded h"
  by (auto simp: storable_def workspace_valid_def dest: all_valuesD)

lemma check_current_stored:
  "storable w \<Longrightarrow> check_current_handoff w before = Inr u \<Longrightarrow> handoff_recorded before"
  by (auto simp: check_current_handoff_def result_iff get_or_Inr_iff dest: stored_handoff)

lemma successor_recorded:
  "handoff_recorded before \<Longrightarrow> (handoff_valid before \<Longrightarrow> handoff_valid after) \<Longrightarrow>
     validate_successor after before = Inr u \<Longrightarrow> handoff_recorded after"
  using validate_successor_sound handoff_step_replayable by (auto simp: handoff_recorded_def)

lemma update_recordable:
  assumes "storable w" and "handoff_valid before \<Longrightarrow> handoff_valid after"
  shows "recordable_batch w [DC_UpdateHandoff before after]"
proof (rule recordable_single)
  fix w' e assume "execute w (DC_UpdateHandoff before after) = Inr (w', e)"
  then have e: "e = EV_HandoffChanged before after" and "check_current_handoff w before = Inr ()"
    and "validate_successor after before = Inr ()"
    by (auto simp: execute_def decide_def apply_event_def apply_handoff_changed_def result_iff)
  with assms check_current_stored successor_recorded show "recordable e"
    by (auto simp: recordable_def admissible_def blanks_draft_def)
qed

lemma cancel_recordable:
  assumes "storable w" and "handoff_valid before \<Longrightarrow> handoff_valid after"
  shows "recordable_batch w [DC_CancelTask t before after]"
proof (rule recordable_single)
  fix w' e assume "execute w (DC_CancelTask t before after) = Inr (w', e)"
  then obtain s where e: "e = EV_TaskCancelled t s before after" and "check_current_handoff w before = Inr ()"
    and "validate_successor after before = Inr ()"
    by (auto simp: execute_def decide_def decide_cancel_task_def apply_event_def apply_task_cancelled_def
        result_iff split: if_splits)
  with assms check_current_stored successor_recorded show "recordable e"
    by (auto simp: recordable_def admissible_def blanks_draft_def)
qed

lemma transition_recordable: "recordable_batch w [DC_TransitionTask t to]"
  by (rule recordable_single)
    (auto simp: execute_def decide_def decide_transition_task_def result_iff recordable_def admissible_def
      blanks_draft_def)

lemma tracked_recorded:
  assumes "handoff_tracked hid m origin recipient payload parent t d = Inr h"
    and "message_id_valid m" and "payload_valid payload"
  shows "handoff_recorded h \<and> handoff_wf h"
  using assms handoff_tracked_replayable [OF assms(1)]
  by (auto simp: handoff_recorded_def handoff_replayable_def)
    (auto simp: handoff_valid_def handoff_tracked_def handoff_with_origin_def split: if_splits option.splits)

lemma new_handoff_recordable:
  assumes "handoff_recorded h" and "handoff_wf h"
  shows "recordable_batch w [DC_AddHandoff h]" and "recordable_batch w [DC_ResumeTask t h]"
    and "task_recorded tk \<Longrightarrow> recordable_batch w [DC_AddTaskHandoff tk h]"
  using assms
  by (auto intro!: recordable_single simp: execute_def decide_def decide_resume_task_def result_iff
      recordable_def admissible_def blanks_draft_def)

end
