(* ===== verification/Orchestrator_Safe.thy ===== *)
theory Orchestrator_Safe
  imports Orchestrator_Records
begin

text \<open>
  Every operation of the orchestrator keeps its manager in step with the journal and its mailboxes in
  order, also when it fails half-way: the rules, and the operations one by one.
\<close>

section \<open>Rules\<close>

definition hub_ok :: "codec \<Rightarrow> hub \<Rightarrow> bool" where
  "hub_ok cd s \<longleftrightarrow> manager_sound cd (hub_manager s) \<and> boxes_ok s"

abbreviation hub_step :: "codec \<Rightarrow> hub \<Rightarrow> hub \<Rightarrow> bool" where
  "hub_step cd s s' \<equiv> hub_ok cd s \<longrightarrow> hub_ok cd s'"

interpretation hubs: kept_relation "hub_step cd" for cd
  by unfold_locales auto

lemma sound_storable: "manager_sound cd m \<Longrightarrow> manager_workspace m wid = Some w \<Longrightarrow> storable w"
  unfolding manager_sound_def journal_sound_def by metis

lemma hubs_find:
  assumes "\<And>w. storable w \<Longrightarrow> keeps (hub_step cd) (f w)"
  shows "keeps (hub_step cd) (act_bind (find_workspace wid) f)"
  unfolding keeps_def
proof (intro allI impI)
  fix s assume ok: "hub_ok cd s"
  show "hub_ok cd (snd (act_bind (find_workspace wid) f s))"
  proof (cases "manager_workspace (hub_manager s) wid")
    case (Some w)
    with ok have "storable w" unfolding hub_ok_def using sound_storable by blast
    from assms [OF this] ok Some show ?thesis
      by (simp add: find_workspace_def keeps_def act_bind_eqs(2) [where m = "act_bind _ _"])
  qed (simp add: find_workspace_def act_bind_def ok)
qed

lemma hubs_lift:
  "(\<And>a. r = Inr a \<Longrightarrow> keeps (hub_step cd) (f a)) \<Longrightarrow> keeps (hub_step cd) (act_bind (act_lift r) f)"
  by (cases r) (simp_all add: hubs.keeps_pure)

lemma bind_assoc: "act_bind (act_bind m f) g = act_bind m (\<lambda>a. act_bind (f a) g)"
  by (auto simp: act_bind_def fun_eq_iff split: prod.split sum.split)

lemma hubs_handoff:
  assumes "\<And>h. handoff_recorded h \<Longrightarrow> keeps (hub_step cd) (f h)"
  shows "keeps (hub_step cd) (act_bind (get_handoff wid hid) f)"
  unfolding get_handoff_def bind_assoc
  by (intro hubs_find hubs_lift assms) (auto simp: ok_or_Inr_iff dest: stored_handoff)

lemma hubs_run_command:
  assumes faithful: "faithful cd" and guard: "\<And>w. storable w \<Longrightarrow> recordable_batch w [c]"
  shows "keeps (hub_step cd) (run_command cd wid c at)"
  unfolding keeps_def
proof (intro allI impI)
  fix s assume ok: "hub_ok cd s"
  then have sound: "manager_sound cd (hub_manager s)" by (simp add: hub_ok_def)
  have "may_record (hub_manager s) wid [c]"
    using sound_storable [OF sound] guard by (auto simp: may_record_def split: option.split)
  from manager_execute_step [OF faithful sound this, of at]
  have "manager_sound cd (hub_manager (snd (run_command cd wid c at s)))"
    by (auto simp: run_command_def on_manager_def act_bind_def act_map_err_def act_zoom_def map_err_def
        split: prod.splits sum.splits)
  moreover have same: "hub_mailboxes (snd (run_command cd wid c at s)) = hub_mailboxes s"
    using keeps_run_command by (simp add: keeps_def)
  ultimately show "hub_ok cd (snd (run_command cd wid c at s))"
    using ok by (simp add: hub_ok_def boxes_ok_same [OF same])
qed

lemma hubs_cases:
  "keeps (hub_step cd) m \<Longrightarrow> keeps (hub_step cd) n \<Longrightarrow> keeps (hub_step cd) (if b then m else n)"
  "keeps (hub_step cd) m \<Longrightarrow> (\<And>x. keeps (hub_step cd) (f x)) \<Longrightarrow>
     keeps (hub_step cd) (case v of None \<Rightarrow> m | Some x \<Rightarrow> f x)"
  "(\<And>t. keeps (hub_step cd) (k t)) \<Longrightarrow> (\<And>q. keeps (hub_step cd) (l q)) \<Longrightarrow>
     keeps (hub_step cd) (case payload of HP_Task t \<Rightarrow> k t | HP_Question q \<Rightarrow> l q)"
  by (auto split: option.split handoff_payload.split)

lemma box_changes [simp]:
  "hub_manager (push_pending p s) = hub_manager s" "hub_manager (remove_pending wid m s) = hub_manager s"
  "hub_manager (set_mailbox key ps s) = hub_manager s"
  by (simp_all add: push_pending_def remove_pending_def set_mailbox_def Let_def)

lemma hubs_remove: "keeps (hub_step cd) (act_modify (remove_pending wid m))"
  by (rule hubs.keeps_modify) (simp add: hub_ok_def remove_pending_ok)

lemma hubs_clear: "keeps (hub_step cd) (act_modify (\<lambda>s. s\<lparr>hub_mailboxes := bm_empty\<rparr>))"
  by (rule hubs.keeps_modify) (simp add: hub_ok_def boxes_ok_empty)

lemma hubs_reading:
  "keeps (hub_step cd) (find_workspace wid)" "keeps (hub_step cd) (get_handoff wid hid)"
  "keeps (hub_step cd) (current_task_state wid t)"
  unfolding current_task_state_def find_workspace_def get_handoff_def
  by (intro hubs.keeps_bind hubs.keeps_pure)+

section \<open>Parts of the operations\<close>

lemma hubs_updates:
  assumes "faithful cd"
  shows "(handoff_valid before \<Longrightarrow> handoff_valid after) \<Longrightarrow>
      keeps (hub_step cd) (execute_handoff_update cd wid before after at)"
    and "(handoff_valid before \<Longrightarrow> handoff_valid after) \<Longrightarrow>
      keeps (hub_step cd) (execute_task_cancellation cd wid t before after at)"
    and "keeps (hub_step cd) (transition_task cd wid t to at)"
  unfolding execute_handoff_update_def execute_task_cancellation_def transition_task_def
  by (intro hubs_run_command [OF assms] update_recordable cancel_recordable transition_recordable; assumption)+

lemma hubs_change:
  assumes "faithful cd" and "\<And>h'. handoff_valid before \<Longrightarrow> f before = Inr h' \<Longrightarrow> handoff_valid h'"
  shows "keeps (hub_step cd) (change_handoff cd wid f before at)"
  unfolding change_handoff_def
  by (intro hubs_lift hubs_updates(1) [OF assms(1)]) (auto simp: result_iff intro: assms(2))

lemma hubs_tasks:
  assumes "faithful cd"
  shows "keeps (hub_step cd) (transition_task_delivered cd wid t at)"
    and "keeps (hub_step cd) (transition_task_running cd wid t at)"
    and "keeps (hub_step cd) (transition_task_response cd wid t status at)"
    and "keeps (hub_step cd) (transition_task_cancelled cd wid t at)"
    and "keeps (hub_step cd) (transition_task_failed cd wid t at)"
proof -
  note move = hubs.keeps_bind hubs_reading(3) hubs_updates(3) [OF assms] hubs.keeps_pure
  show delivered: "keeps (hub_step cd) (transition_task_delivered cd wid t at)"
    unfolding transition_task_delivered_def by (auto intro!: move)
  show running: "keeps (hub_step cd) (transition_task_running cd wid t at)"
    unfolding transition_task_running_def by (auto intro!: move delivered)
  show "keeps (hub_step cd) (transition_task_response cd wid t status at)"
    unfolding transition_task_response_def
    by (cases status) (auto intro!: move delivered running)
  show "keeps (hub_step cd) (transition_task_cancelled cd wid t at)"
    "keeps (hub_step cd) (transition_task_failed cd wid t at)"
    unfolding transition_task_cancelled_def transition_task_failed_def by (auto intro!: move)
qed

lemma hubs_enqueue: "keeps (hub_step cd) (enqueue wid hid m now)"
  unfolding keeps_def
proof (intro allI impI)
  fix s assume ok: "hub_ok cd s"
  have "snd (enqueue wid hid m now s) = s \<or>
      (\<exists>p w h. \<not> is_queued s wid m \<and> pending_of w wid hid h m now = Inr p \<and>
        snd (enqueue wid hid m now s) = push_pending p s)"
    by (auto simp: enqueue_def find_workspace_def act_bind_def ok_or_def split: option.split sum.split) 
  then show "hub_ok cd (snd (enqueue wid hid m now s))"
    using ok pending_of_fields push_ok by (fastforce simp: hub_ok_def)
qed

lemma hubs_notify: "keeps (hub_step cd) (notify_origin wid hid m at)"
  unfolding notify_origin_def by (auto intro!: hubs.keeps_bind hubs.keeps_pure hubs_reading hubs_enqueue)

lemma hubs_settle: "keeps (hub_step cd) (settle_front request finished now)"
  unfolding keeps_def
proof (intro allI impI)
  fix s assume "hub_ok cd s"
  moreover have "hub_manager (snd (settle_front request finished now s)) = hub_manager s"
    by (auto simp: settle_front_def Let_def split: option.split list.split sum.split)
  ultimately show "hub_ok cd (snd (settle_front request finished now s))"
    by (simp add: hub_ok_def settle_front_ok)
qed

section \<open>Messages\<close>

lemma new_command_recordable:
  assumes "new_handoff_command v hid m source recipient kind title body parent at deadline = Inr c"
    and "message_id_valid m"
  shows "recordable_batch w [c]"
  using assms
  by (auto simp: new_handoff_command_def result_iff orchestration_content_def task_recorded_def task_valid_def
      task_new_def dest!: tracked_recorded [OF _ assms(2)] dest: new_texts_valid
      simp del: name_new_Inr_iff content_new_Inr_iff intro!: new_handoff_recordable split: handoff_kind.splits)

lemma hubs_accept_handoff:
  assumes "faithful cd"
  shows "keeps (hub_step cd) (accept_handoff cd wid source recipient m kind title body parent timeout at)"
proof -
  have valid: "domain_message_id m = Inr x \<Longrightarrow> message_id_valid x" for x
    by (auto simp: domain_message_id_def result_iff dest: domain_message_valid)
  have run: "keeps (hub_step cd) (run_command cd wid c at)"
    if "new_handoff_command v hid x source recipient kind title body p at d = Inr c" "domain_message_id m = Inr x"
    for v hid x p d c
    by (intro hubs_run_command [OF assms] new_command_recordable [OF that(1)] valid [OF that(2)])
  show ?thesis
    unfolding accept_handoff_def
  proof (rule hubs_lift)
    fix x assume x: "domain_message_id m = Inr x"
    show "keeps (hub_step cd) (act_bind (act_get (\<lambda>s. find_handoff s wid x)) (\<lambda>existing.
       case existing of
         Some h \<Rightarrow> enqueue wid (ho_id h) x at
       | None \<Rightarrow>
           act_bind (find_workspace wid) (\<lambda>w.
           act_bind (act_lift (delivery_mechanism_of w recipient)) (\<lambda>_.
           act_bind (act_lift (next_handoff_id w)) (\<lambda>hid.
           act_bind (act_get (\<lambda>s. parent_handoff s wid parent)) (\<lambda>found.
           act_bind (act_lift found) (\<lambda>parent.
           act_bind (act_lift (case timeout of
               None \<Rightarrow> Inr None
             | Some ms \<Rightarrow> res_bind (checked_timestamp_add at ms ''response deadline'') (\<lambda>t. Inr (Some t)))) (\<lambda>deadline.
           act_bind (act_lift (new_handoff_command w hid x source recipient kind title body parent at deadline)) (\<lambda>c.
           act_bind (run_command cd wid c at) (\<lambda>_.
             enqueue wid hid x at))))))))))"
      by (rule hubs.keeps_bind [OF hubs.keeps_pure(4)], split option.split, intro conjI allI impI,
        (rule hubs_enqueue hubs_find hubs_lift hubs.keeps_bind [OF hubs.keeps_pure(4)]
          hubs.keeps_bind [OF run [OF _ x]] | assumption)+)
  qed
qed

lemma hubs_find_root:
  assumes "\<And>h. handoff_recorded h \<Longrightarrow> keeps (hub_step cd) (f h)"
  shows "keeps (hub_step cd) (act_bind (find_root wid root) f)"
  unfolding find_root_def bind_assoc
  by (intro hubs.keeps_bind [OF hubs.keeps_pure(4)] hubs_lift hubs_handoff assms)

lemma orchestration_content_valid: "orchestration_content s = Inr c \<Longrightarrow> content_valid c"
  by (auto simp: orchestration_content_def map_err_Inr_iff dest: new_texts_valid)

lemma domain_id_valid: "domain_message_id m = Inr x \<Longrightarrow> message_id_valid x"
  by (auto simp: domain_message_id_def map_err_Inr_iff dest: domain_message_valid)

lemma hubs_accept_progress:
  assumes "faithful cd"
  shows "keeps (hub_step cd) (accept_progress cd sent m root body at)"
  unfolding accept_progress_def Let_def
proof (rule hubs_lift hubs_find_root)+
  fix root' progress before u
  assume "domain_message_id m = Inr progress"
  then have m: "message_id_valid progress" by (rule domain_id_valid)
  have change: "keeps (hub_step cd) (change_handoff cd wid (report_progress
      \<lparr>prog_message_id = progress, prog_body = c, prog_reported_at = at\<rparr>) before at)"
    if "orchestration_content body = Inr c" for c wid
    by (rule hubs_change [OF assms], erule handoff_changes_valid(4))
      (simp_all add: progress_valid_def m orchestration_content_valid [OF that])
  show "keeps (hub_step cd) (act_bind
        (if list_ex (\<lambda>p. prog_message_id p = progress) (ho_progress before) then act_return ()
         else act_bind (act_lift (orchestration_content body)) (\<lambda>body.
           change_handoff cd (Id (am_workspace sent)) (report_progress \<lparr>prog_message_id = progress, prog_body = body,
             prog_reported_at = at\<rparr>) before at)) (\<lambda>_.
      act_bind (get_handoff (Id (am_workspace sent)) (ho_id before)) (\<lambda>h.
      act_bind (case ho_payload h of
          HP_Task t \<Rightarrow> transition_task_running cd (Id (am_workspace sent)) t at
        | HP_Question _ \<Rightarrow> act_return ()) (\<lambda>_.
        notify_origin (Id (am_workspace sent)) (ho_id before) progress at))))"
    by (rule hubs.keeps_pure change hubs_reading hubs_tasks [OF assms] hubs_notify hubs_cases hubs_lift
        hubs.keeps_bind | assumption)+
qed

lemma hubs_accept_response:
  assumes "faithful cd"
  shows "keeps (hub_step cd) (accept_response cd wid sent m root status body outputs at)"
  unfolding accept_response_def
proof (rule hubs_lift hubs_find_root)+
  fix root' response before u
  assume "domain_message_id m = Inr response"
  then have m: "message_id_valid response" by (rule domain_id_valid)
  have change: "keeps (hub_step cd) (change_handoff cd wid (respond \<lparr>resp_message_id = response,
      resp_status = domain_status status, resp_body = c, resp_responded_at = at, resp_outputs = os\<rparr>) before at)"
    if "orchestration_content body = Inr c" "domain_outputs outputs = Inr os" for c os
    by (rule hubs_change [OF assms], erule handoff_changes_valid(5))
      (simp_all add: response_valid_def m orchestration_content_valid [OF that(1)] domain_outputs_valid [OF that(2)])
  show "keeps (hub_step cd) (act_bind
       (if map_option resp_message_id (ho_response before) = Some response then act_return ()
        else act_bind (act_lift (orchestration_content body)) (\<lambda>body.
          act_bind (act_lift (domain_outputs outputs)) (\<lambda>outputs.
            change_handoff cd wid (respond \<lparr>resp_message_id = response, resp_status = domain_status status,
              resp_body = body, resp_responded_at = at, resp_outputs = outputs\<rparr>) before at))) (\<lambda>_.
     act_bind (get_handoff wid (ho_id before)) (\<lambda>h.
     act_bind (case ho_payload h of
         HP_Task t \<Rightarrow> transition_task_response cd wid t status at
       | HP_Question _ \<Rightarrow> act_return ()) (\<lambda>_.
       notify_origin wid (ho_id before) response at))))"
    by (rule hubs.keeps_pure change hubs_reading hubs_tasks [OF assms] hubs_notify hubs_cases hubs_lift
        hubs.keeps_bind | assumption)+
qed

lemma hubs_accept_cancellation:
  assumes "faithful cd"
  shows "keeps (hub_step cd) (accept_cancellation cd wid sent m root reason at)"
  unfolding accept_cancellation_def
proof (rule hubs_lift hubs_find_root)+
  fix root' cancellation before u
  assume "domain_message_id m = Inr cancellation"
  then have m: "message_id_valid cancellation" by (rule domain_id_valid)
  have after: "handoff_valid before \<Longrightarrow> handoff_valid after"
    if "orchestration_content reason = Inr c" "map_err OE_Handoff (cancel_handoff cancellation c at before) = Inr after"
    for c after
    using that handoff_changes_valid(6) [OF _ m orchestration_content_valid [OF that(1)]]
    by (auto simp: map_err_Inr_iff)
  show "keeps (hub_step cd) (act_bind
       (if ho_termination before = None then
          act_bind (act_lift (orchestration_content reason)) (\<lambda>reason.
          act_bind (act_lift (map_err OE_Handoff (cancel_handoff cancellation reason at before))) (\<lambda>after.
            case payload_task (ho_payload before) of
              Some t \<Rightarrow> execute_task_cancellation cd wid t before after at
            | None \<Rightarrow> execute_handoff_update cd wid before after at))
        else case payload_task (ho_payload before) of
            Some t \<Rightarrow> transition_task_cancelled cd wid t at
          | None \<Rightarrow> act_return ()) (\<lambda>_.
     act_bind (act_modify (remove_pending wid root')) (\<lambda>_.
       enqueue wid (ho_id before) cancellation at)))"
    by (rule hubs.keeps_pure hubs_updates [OF assms] hubs_tasks [OF assms] hubs_enqueue hubs_remove
        hubs_cases hubs_lift hubs.keeps_bind | erule (2) after)+
qed

lemma hubs_accept: "faithful cd \<Longrightarrow> keeps (hub_step cd) (accept cd sent at)"
  by (auto simp: Let_def hubs_accept_handoff hubs_accept_progress hubs_accept_response
      hubs_accept_cancellation hubs.keeps_pure split: protocol_command.split)

section \<open>Deliveries\<close>

lemma hubs_finish:
  assumes "faithful cd"
  shows "keeps (hub_step cd) (finish_request cd request outcome now)"
  unfolding finish_request_def Let_def
proof (rule hubs_handoff)
  fix before
  let ?p = "dr_pending request"
  let ?settled = "is_ok outcome \<or> \<not> (\<not> is_ok outcome \<and> now < pd_deadline ?p)"
  have rest: "keeps (hub_step cd) (act_bind (execute_handoff_update cd (pd_workspace ?p) before after now) (\<lambda>_.
      act_bind
        (if is_ok outcome then
           act_bind (get_handoff (pd_workspace ?p) (pd_handoff ?p)) (\<lambda>h.
             case root_task h (pd_message ?p) of
               Some t \<Rightarrow> transition_task_delivered cd (pd_workspace ?p) t now
             | None \<Rightarrow> act_return ())
         else if \<not> (\<not> is_ok outcome \<and> now < pd_deadline ?p) then
           act_bind (get_handoff (pd_workspace ?p) (pd_handoff ?p)) (\<lambda>h.
             case root_task h (pd_message ?p) of
               Some t \<Rightarrow> transition_task_failed cd (pd_workspace ?p) t now
             | None \<Rightarrow> act_return ())
         else act_return ()) (\<lambda>_.
        settle_front request ?settled now)))"
    if "handoff_valid before \<Longrightarrow> handoff_valid after" for after
    by (rule hubs_updates(1) [OF assms that] hubs.keeps_pure hubs_reading hubs_tasks [OF assms] hubs_settle hubs_cases
        hubs.keeps_bind | assumption)+
  show "keeps (hub_step cd) (act_bind (case outcome of
          Inr _ \<Rightarrow> act_lift (map_err OE_Handoff (complete_delivery (dr_attempt_ordinal request) now before))
        | Inl err \<Rightarrow>
            act_bind (act_lift (orchestration_content
                (if str_trim err = [] then ''terminal delivery failed'' else err))) (\<lambda>reason.
              act_lift (map_err OE_Handoff (fail_delivery (dr_attempt_ordinal request) now reason
                (\<not> is_ok outcome \<and> now < pd_deadline ?p) before)))) (\<lambda>after.
      act_bind (execute_handoff_update cd (pd_workspace ?p) before after now) (\<lambda>_.
      act_bind
        (if is_ok outcome then
           act_bind (get_handoff (pd_workspace ?p) (pd_handoff ?p)) (\<lambda>h.
             case root_task h (pd_message ?p) of
               Some t \<Rightarrow> transition_task_delivered cd (pd_workspace ?p) t now
             | None \<Rightarrow> act_return ())
         else if \<not> (\<not> is_ok outcome \<and> now < pd_deadline ?p) then
           act_bind (get_handoff (pd_workspace ?p) (pd_handoff ?p)) (\<lambda>h.
             case root_task h (pd_message ?p) of
               Some t \<Rightarrow> transition_task_failed cd (pd_workspace ?p) t now
             | None \<Rightarrow> act_return ())
         else act_return ()) (\<lambda>_.
        settle_front request ?settled now))))"
  proof (cases outcome)
    case (Inl err)
    then show ?thesis
      by (simp only: sum.case bind_assoc) (intro hubs_lift rest [unfolded Inl],
        auto simp: map_err_Inr_iff dest: handoff_changes_valid(3) [rotated 2] orchestration_content_valid)
  next
    case (Inr u)
    then show ?thesis
      by (simp only: sum.case) (intro hubs_lift rest [unfolded Inr],
        auto simp: map_err_Inr_iff dest: handoff_changes_valid(2))
  qed
qed

lemma hubs_prepare:
  assumes "faithful cd"
  shows "keeps (hub_step cd) (prepare_round cd now b)" and "keeps (hub_step cd) (prepare_next cd now)"
proof -
  show round: "keeps (hub_step cd) (prepare_round cd now b)" for b
    unfolding prepare_round_def Let_def
  proof (rule hubs.keeps_bind [OF hubs.keeps_pure(4)], rule hubs_cases(2), rule hubs.keeps_pure)
    fix p
    have expire: "keeps (hub_step cd) (if pd_deadline p \<le> now
          then act_bind (finish_request cd \<lparr>dr_pending = p, dr_attempt_ordinal = n\<rparr>
            (Inl ''delivery deadline expired'') now) (\<lambda>_. act_return (Inl ()))
          else act_return (Inr (Some \<lparr>dr_pending = p, dr_attempt_ordinal = n\<rparr>)))" for n
      by (rule hubs_cases hubs.keeps_pure hubs_finish [OF assms] hubs.keeps_bind)+
    have begun: "handoff_valid before \<Longrightarrow> handoff_valid h"
      if "map_err OE_Handoff (begin_delivery (pd_message p) (pd_mechanism p) now before) = Inr (h, n)" for before h n
      using that handoff_changes_valid(1) by (auto simp: map_err_Inr_iff)
    have attempt: "keeps (hub_step cd) (act_bind (act_lift (map_err OE_Handoff
                   (begin_delivery (pd_message p) (pd_mechanism p) now before))) (\<lambda>(after, ordinal).
               act_bind (execute_handoff_update cd (pd_workspace p) before after now) (\<lambda>_.
                 if pd_deadline p \<le> now
                 then act_bind (finish_request cd \<lparr>dr_pending = p, dr_attempt_ordinal = ordinal\<rparr>
                     (Inl ''delivery deadline expired'') now) (\<lambda>_. act_return (Inl ()))
                 else act_return (Inr (Some \<lparr>dr_pending = p, dr_attempt_ordinal = ordinal\<rparr>)))))" for before
      by (rule hubs_lift, split prod.split, intro allI impI)
        (rule hubs.keeps_bind [OF _ expire], rule hubs_updates(1) [OF assms], use begun in blast)
    show "keeps (hub_step cd) (act_bind (get_handoff (pd_workspace p) (pd_handoff p)) (\<lambda>before.
             if ho_message_id before = Some (pd_message p) \<and> ho_termination before \<noteq> None \<and> \<not> is_delivered before
             then act_bind (act_modify (remove_pending (pd_workspace p) (pd_message p))) (\<lambda>_. act_return (Inl ()))
             else
               act_bind (act_lift (map_err OE_Handoff
                   (begin_delivery (pd_message p) (pd_mechanism p) now before))) (\<lambda>(after, ordinal).
               act_bind (execute_handoff_update cd (pd_workspace p) before after now) (\<lambda>_.
                 if pd_deadline p \<le> now
                 then act_bind (finish_request cd \<lparr>dr_pending = p, dr_attempt_ordinal = ordinal\<rparr>
                     (Inl ''delivery deadline expired'') now) (\<lambda>_. act_return (Inl ()))
                 else act_return (Inr (Some \<lparr>dr_pending = p, dr_attempt_ordinal = ordinal\<rparr>))))))"
      by (rule hubs_handoff hubs_cases(1) attempt hubs_remove hubs.keeps_pure hubs.keeps_bind)+
  qed
  show "keeps (hub_step cd) (prepare_next cd now)"
    unfolding prepare_next_def
    by (rule hubs.keeps_bind [OF hubs.keeps_pure(4)], rule hubs.keeps_loop, rule round)
qed

section \<open>Deadlines, recovery, and the user\<close>

lemma hubs_expire:
  assumes "faithful cd"
  shows "keeps (hub_step cd) (expire_due cd now)"
proof -
  have change: "keeps (hub_step cd) (change_handoff cd wid (time_out now) before now)" for wid before
    by (rule hubs_change [OF assms], erule handoff_changes_valid(7))
  have "keeps (hub_step cd) (expire_handoff cd now x)" for x
    unfolding expire_handoff_def
    by (split prod.split, intro allI impI)
      (rule hubs_remove hubs.keeps_pure change hubs_reading hubs_tasks [OF assms] hubs_cases
        hubs.keeps_bind)+
  then show ?thesis
    unfolding expire_due_def by (intro hubs.keeps_bind [OF hubs.keeps_pure(4)] hubs.keeps_each)
qed

lemma hubs_recover:
  assumes "faithful cd"
  shows "keeps (hub_step cd) (orchestrator_recover cd at)"
proof -
  have change: "keeps (hub_step cd) (change_handoff cd wid (fail_delivery n at reason True) before at)"
    if "orchestration_content body = Inr reason" for wid n reason before body
    using that by (intro hubs_change [OF assms]) (rule handoff_changes_valid(3), auto dest: orchestration_content_valid)
  have each: "keeps (hub_step cd) (close_attempt cd at x)" for x
    unfolding close_attempt_def
    by (split prod.split, intro allI impI, split prod.split, intro allI impI)
      (rule change hubs_reading hubs_lift hubs.keeps_bind | assumption)+
  have queue: "keeps (hub_step cd) (case x of (wid, hid, m) \<Rightarrow> enqueue wid hid m at)" for x
    by (cases x) (simp add: hubs_enqueue)
  show ?thesis
    unfolding orchestrator_recover_def
    by (intro hubs.keeps_bind hubs.keeps_pure(4) hubs.keeps_each each queue hubs_clear hubs_expire [OF assms])
qed

lemma hubs_submit: "keeps (hub_step cd) (submit_routine_handoff wid hid now)"
  unfolding submit_routine_handoff_def
  by (rule hubs.keeps_pure hubs_reading hubs_enqueue hubs_cases hubs_lift hubs.keeps_bind)+

lemma recovery_id_valid: "recovery_message_id action wid t at = Inr m \<Longrightarrow> message_id_valid m"
  by (auto simp: recovery_message_id_def map_err_Inr_iff dest: domain_message_valid)

lemma hubs_cancel_task:
  assumes "faithful cd"
  shows "keeps (hub_step cd) (cancel_task cd wid t at)"
proof -
  have "handoff_valid before \<Longrightarrow> handoff_valid after"
    if "recovery_message_id ''cancel'' wid t at = Inr m" "orchestration_content body = Inr reason"
      "map_err OE_Handoff (cancel_handoff m reason at before) = Inr after" for m body reason before after
    using that handoff_changes_valid(6) [OF _ recovery_id_valid [OF that(1)] orchestration_content_valid [OF that(2)]]
    by (auto simp: map_err_Inr_iff)
  then have recorded: "keeps (hub_step cd) (execute_task_cancellation cd wid t before after at)"
    if "recovery_message_id ''cancel'' wid t at = Inr m" "orchestration_content body = Inr reason"
      "map_err OE_Handoff (cancel_handoff m reason at before) = Inr after" for m body reason before after
    using that by (intro hubs_updates(2) [OF assms]) blast
  show ?thesis
    unfolding cancel_task_def
    by (rule hubs_enqueue hubs_remove hubs_lift hubs_find hubs.keeps_bind [OF recorded] hubs.keeps_bind
        | assumption)+
qed

lemma resent_recorded:
  assumes "recovery_message_id action wid t at = Inr m"
    and "map_err OE_Handoff (handoff_tracked hid m origin recipient (HP_Task k) None at None) = Inr h"
  shows "handoff_recorded h" and "handoff_wf h"
  using tracked_recorded [of hid m origin recipient "HP_Task k" None at None h] assms recovery_id_valid
  by (auto simp: map_err_Inr_iff)

lemma hubs_resume_task:
  assumes "faithful cd"
  shows "keeps (hub_step cd) (resume_task cd wid t at)"
proof -
  have recorded: "keeps (hub_step cd) (run_command cd wid (DC_ResumeTask t h) at)"
    if "recovery_message_id ''resume'' wid t at = Inr m"
      "map_err OE_Handoff (handoff_tracked hid m origin recipient (HP_Task t) None at None) = Inr h"
    for m hid origin recipient h
    by (intro hubs_run_command [OF assms] new_handoff_recordable(2) resent_recorded [OF that])
  have queue: "keeps (hub_step cd) (case x of (hid, m) \<Rightarrow> enqueue wid hid m at)" for x
    by (cases x) (simp add: hubs_enqueue)
  show ?thesis
    unfolding resume_task_def
    by (rule queue hubs.keeps_pure hubs_reading hubs_updates(3) [OF assms] recorded hubs_cases(1) hubs_lift hubs_find
        hubs.keeps_bind | assumption)+
qed

lemma hubs_retry_task:
  assumes "faithful cd"
  shows "keeps (hub_step cd) (retry_task cd wid t at)"
  unfolding retry_task_def
proof (rule hubs_find, rule hubs_lift)
  fix w original
  assume w: "storable w" and "ok_or (bm_get (w_tasks w) t)
    (OE_InvalidMessage (''task '' @ id_text t @ '' is missing'')) = Inr original"
  then have task: "task_valid original"
    by (auto simp: ok_or_Inr_iff storable_def workspace_valid_def dest: all_valuesD)
  have recorded: "keeps (hub_step cd) (run_command cd wid (DC_AddTaskHandoff
             (task_new tid (task_title original) (task_prompt original) (task_assignee original) (Some t)) h) at)"
    if "recovery_message_id ''retry'' wid tid at = Inr m"
      "map_err OE_Handoff (handoff_tracked hid m origin recipient (HP_Task tid) None at None) = Inr h"
    for m hid origin recipient tid h
    using task by (intro hubs_run_command [OF assms] new_handoff_recordable(3) resent_recorded [OF that])
      (simp add: task_recorded_def task_valid_def task_new_def)
  show "keeps (hub_step cd) (if task_state original \<notin> set [TS_Failed, TS_Cancelled]
       then act_fail (invalid_task_state t (task_state original) ''retry'')
       else
         act_bind (act_lift (task_handoff w t)) (\<lambda>previous.
         act_bind (act_lift (delivery_mechanism_of w (ho_recipient previous))) (\<lambda>_.
         act_bind (act_lift (next_task_id w)) (\<lambda>tid.
         act_bind (act_lift (next_handoff_id w)) (\<lambda>hid.
         act_bind (act_lift (recovery_message_id ''retry'' wid tid at)) (\<lambda>m.
         act_bind (act_lift (map_err OE_Handoff (handoff_tracked hid m (ho_origin previous)
             (ho_recipient previous) (HP_Task tid) None at None))) (\<lambda>h.
         act_bind (run_command cd wid (DC_AddTaskHandoff
             (task_new tid (task_title original) (task_prompt original) (task_assignee original) (Some t)) h) at) (\<lambda>_.
         act_bind (enqueue wid hid m at) (\<lambda>_. act_return tid)))))))))"
    by (rule hubs.keeps_pure hubs_enqueue hubs_cases(1) hubs_lift recorded hubs.keeps_bind | assumption)+
qed

end
