(* ===== verification/Orchestrator_History.thy ===== *)
theory Orchestrator_History
  imports Orchestrator_Safe
begin

text \<open>
  Histories of the orchestrator: the operations in any order, with any outcome, and the manager used
  by the rest of the application in between.
\<close>

lemma loop_last:
  assumes "act_loop n body b s = (Inr (Some a), s')" and "P b s"
    and "\<And>b s b' t. P b s \<Longrightarrow> body b s = (Inr (Inl b'), t) \<Longrightarrow> P b' t"
  shows "\<exists>b t. P b t \<and> body b t = (Inr (Inr a), s')"
  using assms(1,2)
proof (induction n arbitrary: b s)
  case (Suc n)
  then obtain r t where r: "body b s = (Inr r, t)" by (auto simp: act_bind_Inr_iff)
  with Suc show ?case by (cases r) (auto simp: act_bind_def assms(3))
qed simp

section \<open>Steps\<close>

inductive manager_change :: "codec \<Rightarrow> manager \<Rightarrow> manager \<Rightarrow> bool" for cd :: codec and m :: manager where
  change_create: "found_valid directory \<Longrightarrow> create_workspace cd directory at m = (r, m') \<Longrightarrow> manager_change cd m m'"
| change_execute: "may_record m wid [c] \<Longrightarrow> manager_execute cd wid c at m = (e, m') \<Longrightarrow> manager_change cd m m'"
| change_batch: "may_record m wid cs \<Longrightarrow> manager_execute_batch cd wid cs at m = (es, m') \<Longrightarrow>
    manager_change cd m m'"
| change_settings: "found_valid directory \<Longrightarrow>
    update_settings cd wid directory nm icon instructions at m = (e, m') \<Longrightarrow> manager_change cd m m'"
| change_switch: "manager_switch wid at m = (u, m') \<Longrightarrow> manager_change cd m m'"
| change_remove: "manager_remove_workspace wid m = (u, m') \<Longrightarrow> manager_change cd m m'"

inductive orchestrator_step :: "codec \<Rightarrow> hub \<Rightarrow> hub \<Rightarrow> bool" for cd :: codec and s :: hub where
  step_recover: "orchestrator_recover cd at s = (u, s') \<Longrightarrow> orchestrator_step cd s s'"
| step_accept: "accept cd sent at s = (u, s') \<Longrightarrow> orchestrator_step cd s s'"
| step_prepare: "prepare_next cd now s = (q, s') \<Longrightarrow> orchestrator_step cd s s'"
| step_finish: "finish_request cd request outcome now s = (u, s') \<Longrightarrow> orchestrator_step cd s s'"
| step_expire: "expire_due cd now s = (u, s') \<Longrightarrow> orchestrator_step cd s s'"
| step_submit: "submit_routine_handoff wid hid now s = (u, s') \<Longrightarrow> orchestrator_step cd s s'"
| step_cancel: "cancel_task cd wid t at s = (u, s') \<Longrightarrow> orchestrator_step cd s s'"
| step_resume: "resume_task cd wid t at s = (u, s') \<Longrightarrow> orchestrator_step cd s s'"
| step_retry: "retry_task cd wid t at s = (q, s') \<Longrightarrow> orchestrator_step cd s s'"

text \<open>
  \<open>hub_history\<close> starts with an opened manager and \<open>Orchestrator::default\<close>; the application may
  stop and start again on the same database.
\<close>

inductive hub_history :: "codec \<Rightarrow> hub \<Rightarrow> bool" for cd :: codec where
  hub_opened: "manager_history cd m \<Longrightarrow>
    hub_history cd \<lparr>hub_manager = m, hub_mailboxes = bm_empty, hub_registrations = []\<rparr>"
| hub_restarted: "hub_history cd s \<Longrightarrow>
    manager_open cd ((mg_journal (hub_manager s))\<lparr>jr_faults := fs\<rparr>) = Inr m \<Longrightarrow>
    hub_history cd \<lparr>hub_manager = m, hub_mailboxes = bm_empty, hub_registrations = []\<rparr>"
| hub_managed: "hub_history cd s \<Longrightarrow> manager_change cd (hub_manager s) m' \<Longrightarrow>
    hub_history cd (s\<lparr>hub_manager := m'\<rparr>)"
| hub_stepped: "hub_history cd s \<Longrightarrow> orchestrator_step cd s s' \<Longrightarrow> hub_history cd s'"

lemma manager_change_sound:
  assumes "faithful cd" and "manager_change cd m m'" and "manager_sound cd m"
  shows "manager_sound cd m'"
  using assms(2)
proof cases
  case (change_execute wid c at e)
  then show ?thesis using manager_execute_step [OF assms(1,3), of wid c at] by simp
next
  case (change_batch wid cs at es)
  then show ?thesis using manager_batch_step [OF assms(1,3), of wid cs at] by simp
qed (rule keeps_runD [OF create_workspace_sound [OF assms(1)] assms(3)]
    keeps_runD [OF update_settings_sound [OF assms(1)] assms(3)] keeps_runD [OF manager_switch_sound assms(3)]
    keeps_runD [OF manager_remove_sound assms(3)]; assumption)+

lemma orchestrator_step_ok:
  assumes "faithful cd" and "orchestrator_step cd s s'" and "hub_ok cd s"
  shows "hub_ok cd s'"
  using assms(2)
proof cases
  case (step_recover at u) then show ?thesis using keepsD [OF hubs_recover [OF assms(1)]] assms(3) by blast
next
  case (step_accept sent at u) then show ?thesis using keepsD [OF hubs_accept [OF assms(1)]] assms(3) by blast
next
  case (step_prepare now q) then show ?thesis using keepsD [OF hubs_prepare(2) [OF assms(1)]] assms(3) by blast
next
  case (step_finish request outcome now u)
  then show ?thesis using keepsD [OF hubs_finish [OF assms(1)]] assms(3) by blast
next
  case (step_expire now u) then show ?thesis using keepsD [OF hubs_expire [OF assms(1)]] assms(3) by blast
next
  case (step_submit wid hid now u) then show ?thesis using keepsD [OF hubs_submit] assms(3) by blast
next
  case (step_cancel wid t at u) then show ?thesis using keepsD [OF hubs_cancel_task [OF assms(1)]] assms(3) by blast
next
  case (step_resume wid t at u) then show ?thesis using keepsD [OF hubs_resume_task [OF assms(1)]] assms(3) by blast
next
  case (step_retry wid t at q) then show ?thesis using keepsD [OF hubs_retry_task [OF assms(1)]] assms(3) by blast
qed

lemma hub_history_ok:
  assumes "faithful cd" and "hub_history cd s"
  shows "hub_ok cd s"
  using assms(2)
proof (induction rule: hub_history.induct)
  case (hub_opened m)
  then show ?case using manager_history_sound [OF assms(1)]
    by (simp add: hub_ok_def boxes_ok_def all_pending_def bm_values_def)
next
  case (hub_restarted s fs m)
  then have "manager_sound cd m" using manager_reopen_sound [of cd "hub_manager s" fs m] by (simp add: hub_ok_def)
  then show ?case by (simp add: hub_ok_def boxes_ok_def all_pending_def bm_values_def)
next
  case (hub_managed s m')
  then have "manager_sound cd m'" using manager_change_sound [OF assms(1)] by (simp add: hub_ok_def)
  with hub_managed.IH boxes_ok_same [of "s\<lparr>hub_manager := m'\<rparr>" s] show ?case by (simp add: hub_ok_def)
next
  case (hub_stepped s s')
  with orchestrator_step_ok [OF assms(1)] show ?case by blast
qed

section \<open>What a recorded change leaves\<close>

lemma enqueue_manager: "hub_manager (snd (enqueue wid hid m now s)) = hub_manager s"
  by (auto simp: enqueue_def find_workspace_def act_bind_def ok_or_def split: option.split sum.split)

lemma manager_sound_recovers:
  assumes "manager_sound cd m" and "manager_workspace m wid = Some w"
  shows "recover_rows cd wid (mg_journal m) = Inr (Some w)"
proof -
  from assms obtain ws where "journal_sound cd ws (mg_journal m)"
    "w = ws wid" "workspace_key wid \<in> er_workspace ` set (jr_events (mg_journal m))"
    unfolding manager_sound_def by blast
  with sound_recovers [of cd ws "mg_journal m" wid] show ?thesis by simp
qed

lemma manager_execute_recorded:
  assumes "manager_execute cd wid c at m = (r, m')"
  shows "mg_recent m' = mg_recent m"
    and "r = Inl err \<Longrightarrow> manager_workspace m' = manager_workspace m"
    and "r = Inr t \<Longrightarrow> \<exists>w w' e. manager_workspace m wid = Some w \<and> execute w c = Inr (w', e) \<and>
      manager_workspace m' = (manager_workspace m)(wid \<mapsto> w')"
proof -
  have "mg_recent m' = mg_recent m \<and> (\<forall>err. r = Inl err \<longrightarrow> manager_workspace m' = manager_workspace m) \<and>
    (\<forall>t. r = Inr t \<longrightarrow> (\<exists>w w' e. manager_workspace m wid = Some w \<and> execute w c = Inr (w', e) \<and>
      manager_workspace m' = (manager_workspace m)(wid \<mapsto> w')))"
  proof (cases "manager_workspace m wid")
    case None
    with assms show ?thesis by (auto simp: manager_execute_def)
  next
    case (Some w)
    obtain q j' where j: "journal_execute cd w c at (mg_journal m) = (q, j')" by fastforce
    show ?thesis
    proof (cases q)
      case (Inl err)
      with assms Some j have "r = Inl (WE_Persistence err)" "m' = m\<lparr>mg_journal := j'\<rparr>"
        by (simp_all add: manager_execute_def act_bind_def on_journal_run map_err_def)
      then show ?thesis by (simp add: manager_workspace_def fun_eq_iff)
    next
      case (Inr p)
      obtain w' t where p: "p = (w', t)" by (cases p)
      from journal_execute_cases [OF j] Inr p obtain es where
        "journal_execute_batch cd w [c] at (mg_journal m) = (Inr (w', es), j')" by auto
      from execute_batch_cases [OF this] obtain log where "try_fold (run_logged execute) (w, []) [c] = Inr (w', log)"
        by auto
      then obtain e where "execute w c = Inr (w', e)" by (auto simp: run_logged_def result_iff)
      moreover have "r = Inr t" "m' = put_workspace wid w' (m\<lparr>mg_journal := j'\<rparr>)"
        using assms Some j Inr p by (simp_all add: manager_execute_def act_bind_def on_journal_run map_err_def)
      ultimately show ?thesis using Some by (auto simp: put_workspace_def manager_workspace_def fun_eq_iff)
    qed
  qed
  then show "mg_recent m' = mg_recent m" "r = Inl err \<Longrightarrow> manager_workspace m' = manager_workspace m"
    "r = Inr t \<Longrightarrow> \<exists>w w' e. manager_workspace m wid = Some w \<and> execute w c = Inr (w', e) \<and>
      manager_workspace m' = (manager_workspace m)(wid \<mapsto> w')"
    by blast+
qed

lemma run_command_recorded:
  assumes "run_command cd wid c at s = (Inr u, s')"
  shows "\<exists>w w' e. manager_workspace (hub_manager s) wid = Some w \<and> execute w c = Inr (w', e) \<and>
    manager_workspace (hub_manager s') wid = Some w'"
proof -
  from assms obtain e m' where run: "manager_execute cd wid c at (hub_manager s) = (Inr e, m')"
    and s': "s' = s\<lparr>hub_manager := m'\<rparr>"
    by (auto simp: run_command_def on_manager_def act_bind_def act_map_err_def act_zoom_def map_err_def
        split: prod.splits sum.splits)
  from manager_execute_recorded(3) [OF run refl] s' show ?thesis by auto
qed

lemma update_recorded:
  assumes "execute_handoff_update cd wid before after at s = (Inr u, s')"
  shows "\<exists>w. manager_workspace (hub_manager s') wid = Some w \<and> bm_get (w_handoffs w) (ho_id before) = Some after"
proof -
  from run_command_recorded [OF assms [unfolded execute_handoff_update_def]] obtain w w' e where
    x: "execute w (DC_UpdateHandoff before after) = Inr (w', e)" and w': "manager_workspace (hub_manager s') wid = Some w'"
    by blast
  from x have "validate_successor after before = Inr ()" "w' = insert_handoff after w"
    by (auto simp: execute_def decide_def apply_event_def apply_handoff_changed_def result_iff)
  moreover from this(1) have "ho_id after = ho_id before"
    using validate_successor_sound handoff_step_identity by (fastforce simp: same_identity_def)
  ultimately show ?thesis using w' by (simp add: insert_handoff_def)
qed

lemma moved_handoff:
  assumes "bm_get (w_handoffs w) (ho_id h) = Some h" and "handoff_step h h'"
  shows "execute w (DC_UpdateHandoff h h') = Inr (insert_handoff h' w, EV_HandoffChanged h h')"
  using assms(1) validate_successor_complete [OF assms(2)]
  by (simp add: execute_def decide_def apply_event_def apply_handoff_changed_def check_current_handoff_def get_or_def)

end
