(* ===== verification/Orchestrator_Sample.thy ===== *)
theory Orchestrator_Sample
  imports Orchestrator_History
begin

text \<open>
  A short history for the witnesses: a workspace with two agents, a task one sends the other, and the
  first attempt to deliver it.
\<close>

section \<open>The workspace as it grows\<close>

definition lead_agent :: agent where
  "lead_agent = agent_with_program (Id 1) (Name ''A'') None AP_Claude"

definition worker_agent :: agent where
  "worker_agent = agent_with_program (Id 2) (Name ''B'') None AP_Codex"

definition sent_task :: task where
  "sent_task = task_new (Id 1) (Name ''T'') (Content ''do'') (Some (Id 2)) None"

definition sent_handoff :: handoff where
  "sent_handoff =
     \<lparr>ho_id = Id 1, ho_origin = HO_Agent (Id 1), ho_recipient = Id 2, ho_payload = HP_Task (Id 1),
      ho_message_id = Some (HandoffMessageId ''m1''), ho_parent = None, ho_created_at = Some 100,
      ho_response_deadline = None, ho_attempts = [], ho_progress = [], ho_response = None,
      ho_termination = None\<rparr>"

definition tried_handoff :: handoff where
  "tried_handoff = sent_handoff\<lparr>ho_attempts :=
     [\<lparr>att_ordinal = 1, att_message_id = HandoffMessageId ''m1'', att_started_at = 200,
       att_mechanism = DM_CodexTerminal, att_outcome = DO_Started\<rparr>]\<rparr>"

definition led_workspace :: workspace where
  "led_workspace = sample_created\<lparr>w_agents := bm_insert (Id 1) lead_agent bm_empty\<rparr>"

definition staffed_workspace :: workspace where
  "staffed_workspace = sample_created\<lparr>w_agents := bm_insert (Id 2) worker_agent (bm_insert (Id 1) lead_agent bm_empty)\<rparr>"

definition tasked_workspace :: workspace where
  "tasked_workspace = insert_handoff sent_handoff (insert_task sent_task staffed_workspace)"

definition tried_workspace :: workspace where
  "tried_workspace = insert_handoff tried_handoff tasked_workspace"

lemma created_fields [simp]:
  "w_id sample_created = Id 1" "w_floors sample_created = floors_default" "w_agents sample_created = bm_empty"
  "w_archived sample_created = bm_empty" "w_profiles sample_created = bm_empty" "w_presets sample_created = bm_empty"
  "w_roles sample_created = bm_empty" "w_tasks sample_created = bm_empty" "w_handoffs sample_created = bm_empty"
  "w_routines sample_created = bm_empty" "w_runs sample_created = bm_empty" "w_nodes sample_created = bm_empty"
  "w_threads sample_created = bm_empty" "w_attachments sample_created = bm_empty"
  by (simp_all add: sample_created_def workspace_new_def)

lemma staffing:
  "execute sample_created (DC_AddAgent lead_agent) = Inr (led_workspace, EV_AgentAdded lead_agent)"
  "execute led_workspace (DC_AddAgent worker_agent) = Inr (staffed_workspace, EV_AgentAdded worker_agent)"
  by (simp_all add: execute_def decide_def apply_event_def apply_agent_added_def ensure_absent_def
      check_agent_references_def check_option_def lead_agent_def worker_agent_def
      agent_with_program_def led_workspace_def staffed_workspace_def)

lemma sending:
  "execute staffed_workspace (DC_AddTaskHandoff sent_task sent_handoff) =
     Inr (tasked_workspace, EV_TaskHandoffAdded sent_task sent_handoff)"
  by (simp add: execute_def decide_def apply_event_def apply_task_handoff_added_def validate_new_task_def
      ensure_absent_def sent_task_def task_new_def sent_handoff_def validate_new_handoff_def
      check_option_def ensure_reference_def validate_handoff_origin_def validate_handoff_payload_def handoff_chain.simps
      staffed_workspace_def tasked_workspace_def)

lemma trying:
  "execute tasked_workspace (DC_UpdateHandoff sent_handoff tried_handoff) =
     Inr (tried_workspace, EV_HandoffChanged sent_handoff tried_handoff)"
proof -
  have "begin_delivery (HandoffMessageId ''m1'') DM_CodexTerminal 200 sent_handoff = Inr (tried_handoff, 1)"
    by (simp add: begin_delivery_Inr_iff sent_handoff_def tried_handoff_def has_delivery_message_def
        is_message_delivered_def)
  then have step: "handoff_step sent_handoff tried_handoff" by (rule step_begin)
  have "bm_get (w_handoffs tasked_workspace) (ho_id sent_handoff) = Some sent_handoff"
    by (simp add: tasked_workspace_def insert_handoff_def)
  from moved_handoff [OF this step] show ?thesis by (simp add: tried_workspace_def)
qed

section \<open>A codec that holds it\<close>

definition grown_workspaces :: "workspace list" where
  "grown_workspaces = [sample_created, led_workspace, staffed_workspace, tasked_workspace, tried_workspace]"

definition grown_events :: "domain_event list" where
  "grown_events = [sample_created_event, EV_AgentAdded lead_agent, EV_AgentAdded worker_agent,
     EV_TaskHandoffAdded sent_task sent_handoff, EV_HandoffChanged sent_handoff tried_handoff]"

text \<open>A value is stored as its first place in a list.\<close>

fun place_in :: "'a list \<Rightarrow> 'a \<Rightarrow> nat option" where
  "place_in [] x = None"
| "place_in (y # ys) x = (if x = y then Some 0 else map_option Suc (place_in ys x))"

lemma place_in_nth: "place_in xs x = Some n \<Longrightarrow> n < length xs \<and> xs ! n = x"
  by (induction xs arbitrary: n) (auto split: if_splits)

lemma place_in_member: "x \<in> set xs \<Longrightarrow> \<exists>n. place_in xs x = Some n"
  by (induction xs) auto

definition delivery_codec :: codec where
  "delivery_codec =
     \<lparr>cd_hash = id,
      cd_write_workspace = (\<lambda>s. map_option (\<lambda>n. replicate n 0) (place_in (map save_workspace grown_workspaces) s)),
      cd_read_workspace = (\<lambda>p. if length p < length grown_workspaces
        then Some (save_workspace (grown_workspaces ! length p)) else None),
      cd_write_event = (\<lambda>e. map_option (\<lambda>n. replicate n 0) (place_in (map save_event grown_events) e)),
      cd_read_event = (\<lambda>p. if length p < length grown_events
        then Some (save_event (grown_events ! length p)) else None)\<rparr>"

lemma delivery_codec_faithful: "faithful delivery_codec"
  using place_in_nth [of "map save_workspace grown_workspaces"] place_in_nth [of "map save_event grown_events"]
  by (fastforce simp: faithful_def delivery_codec_def)

lemma delivery_codec_encodes:
  "w \<in> set grown_workspaces \<Longrightarrow> \<exists>p. encode_workspace delivery_codec w = Inr p"
  "e \<in> set grown_events \<Longrightarrow> \<exists>p. encode_event delivery_codec e = Inr p"
  using place_in_member [of "save_workspace w" "map save_workspace grown_workspaces"]
    place_in_member [of "save_event e" "map save_event grown_events"]
  by (auto simp: encode_workspace_def encode_event_def delivery_codec_def ok_or_def)

section \<open>Recording it\<close>

lemma recorded_in_journal:
  assumes "execute w c = Inr (w', e)" and "w' \<in> set grown_workspaces" and "e \<in> set grown_events" and "jr_faults j = []"
  shows "\<exists>t j'. journal_execute delivery_codec w c at j = (Inr (w', t), j') \<and> jr_faults j' = [] \<and>
    w_id w \<in> fst ` set (jr_registry j')"
proof -
  from delivery_codec_encodes(1) [OF assms(2)] obtain p where p: "encode_workspace delivery_codec w' = Inr p" ..
  from delivery_codec_encodes(2) [OF assms(3)] obtain q where q: "encode_event delivery_codec e = Inr q" ..
  have "plan_command delivery_codec (w, None, []) c = Inr (w', Some p, [(q, e)])"
    by (simp add: plan_command_def assms(1) p q map_err_def)
  then show ?thesis
    using p assms(4)
    by (auto simp: journal_execute_def journal_execute_batch_def act_bind_def use_database_def insert_records_def
        register_workspace_def Let_def)
qed

definition grown :: "manager \<Rightarrow> workspace \<Rightarrow> bool" where
  "grown m w \<longleftrightarrow> manager_workspace m (Id 1) = Some w \<and> jr_faults (mg_journal m) = [] \<and>
     Id 1 \<in> fst ` set (jr_registry (mg_journal m)) \<and> w_id w = Id 1"

lemma grown_workspace_id: "w \<in> set grown_workspaces \<Longrightarrow> w_id w = Id 1"
  by (auto simp: grown_workspaces_def led_workspace_def staffed_workspace_def tasked_workspace_def tried_workspace_def
      insert_handoff_def insert_task_def)

lemma recorded_in_manager:
  assumes "grown m w" and "execute w c = Inr (w', e)" and "w' \<in> set grown_workspaces" and "e \<in> set grown_events"
  shows "\<exists>t m'. manager_execute delivery_codec (Id 1) c at m = (Inr t, m') \<and> grown m' w'"
proof -
  from recorded_in_journal [OF assms(2-4), of "mg_journal m" at] assms(1) obtain t j' where
    "journal_execute delivery_codec w c at (mg_journal m) = (Inr (w', t), j')" "jr_faults j' = []"
    "Id 1 \<in> fst ` set (jr_registry j')"
    by (auto simp: grown_def)
  with assms(1) grown_workspace_id [OF assms(3)] show ?thesis
    by (auto simp: grown_def manager_execute_def act_bind_def on_journal_run map_err_def)
qed

lemma recorded_in_hub:
  assumes "grown (hub_manager s) w" and "execute w c = Inr (w', e)" and "w' \<in> set grown_workspaces"
    and "e \<in> set grown_events"
  shows "\<exists>m'. run_command delivery_codec (Id 1) c at s = (Inr (), s\<lparr>hub_manager := m'\<rparr>) \<and> grown m' w'"
  using recorded_in_manager [OF assms, of at]
  by (auto simp: run_command_def on_manager_def act_bind_def act_map_err_def act_zoom_def map_err_def)

lemma grown_start:
  "\<exists>m. manager_history delivery_codec m \<and> grown m sample_created"
proof -
  have name: "name_new ''p'' = Inr (Name ''p'')" by code_simp
  have blank: "str_trim ''p'' = ''p''" by code_simp
  have "execute (workspace_new (Id 1) (Name ''p'')) (DC_UpdateWorkspaceSettings sample_settings) =
      Inr (sample_created, sample_created_event)"
    by (simp add: execute_def decide_def decide_settings_def apply_event_def apply_settings_changed_def
        sample_created_def sample_created_event_def) (simp add: workspace_new_def sample_settings_def ensure_def)
  from recorded_in_journal [OF this, of journal_empty 5] obtain t j where
    exec: "journal_execute delivery_codec (workspace_new (Id 1) (Name ''p''))
      (DC_UpdateWorkspaceSettings sample_settings) 5 journal_empty = (Inr (sample_created, t), j)" "jr_faults j = []"
      "Id 1 \<in> fst ` set (jr_registry j)"
    by (auto simp: grown_workspaces_def grown_events_def journal_empty_def workspace_new_def)
  have ids: "recorded_workspace_ids journal_empty = (Inr [], journal_empty)"
    by (simp add: recorded_workspace_ids_def act_bind_def use_database_def journal_empty_def)
  let ?m = "\<lparr>mg_journal = journal_empty, mg_workspaces = bm_empty, mg_recent = [], mg_active = None\<rparr>"
  have create: "create_workspace delivery_codec (Inr (WorkspaceDirectory ''/p'', Some ''p'')) 5 ?m =
     (Inr (Id 1), \<lparr>mg_journal = j, mg_workspaces = bm_insert (Id 1) sample_created bm_empty,
        mg_recent = [Id 1], mg_active = Some (Id 1)\<rparr>)"
    by (simp add: create_workspace_def act_bind_def on_journal_run ids map_err_def name blank
        next_workspace_id_def checked_add_def ok_or_def exec(1) [unfolded sample_settings_def]
        adopt_workspace_def mark_recent_def put_workspace_def)
  have found: "found_valid (Inr (WorkspaceDirectory ''/p'', Some ''p''))"
    unfolding found_valid_def directory_valid_def by code_simp
  have "manager_open delivery_codec (journal_empty\<lparr>jr_faults := []\<rparr>) = Inr ?m"
    by (simp add: manager_open_def act_bind_def act_map_err_def recent_workspace_ids_def use_database_def
        journal_empty_def recent_rows_def map_err_def journal_active_id_def)
  note history = history_create [OF history_open [OF this] found create]
  show ?thesis
    by (rule exI, rule conjI, rule history) (simp add: grown_def manager_workspace_def exec(2,3))
qed

lemma grown_members:
  "set [sample_created, led_workspace, staffed_workspace, tasked_workspace, tried_workspace] \<subseteq> set grown_workspaces"
  "set [EV_AgentAdded lead_agent, EV_AgentAdded worker_agent, EV_TaskHandoffAdded sent_task sent_handoff,
     EV_HandoffChanged sent_handoff tried_handoff] \<subseteq> set grown_events"
  by (simp_all add: grown_workspaces_def grown_events_def)

lemma staffed_history: "\<exists>m. manager_history delivery_codec m \<and> grown m staffed_workspace"
proof -
  have lead: "name_valid (Name ''A'')" unfolding name_valid_def by code_simp
  have worker: "name_valid (Name ''B'')" unfolding name_valid_def by code_simp
  have allowed: "recordable_batch sample_created [DC_AddAgent lead_agent]"
    "recordable_batch led_workspace [DC_AddAgent worker_agent]"
    using lead worker by (simp_all add: recordable_batch_def run_logged_def staffing recordable_def admissible_def
        blanks_draft_def agent_recorded_def) (simp_all add: lead_agent_def worker_agent_def agent_with_program_def)
  from grown_start obtain m where m: "manager_history delivery_codec m" "grown m sample_created" by blast
  from recorded_in_manager [OF m(2) staffing(1), of 6] grown_members obtain t m' where
    m': "manager_execute delivery_codec (Id 1) (DC_AddAgent lead_agent) 6 m = (Inr t, m')" "grown m' led_workspace" by auto
  have h': "manager_history delivery_codec m'"
    using m allowed(1) by (intro history_execute [OF m(1) _ m'(1)]) (simp add: may_record_def grown_def)
  from recorded_in_manager [OF m'(2) staffing(2), of 7] grown_members obtain t' m'' where
    m'': "manager_execute delivery_codec (Id 1) (DC_AddAgent worker_agent) 7 m' = (Inr t', m'')"
      "grown m'' staffed_workspace" by auto
  have "manager_history delivery_codec m''"
    using m' allowed(2) by (intro history_execute [OF h' _ m''(1)]) (simp add: may_record_def grown_def)
  with m'' show ?thesis by blast
qed

section \<open>Sending and delivering\<close>

definition sent_message :: accepted_message where
  "sent_message = \<lparr>am_workspace = 1, am_sender = 1, am_recipient = MP_Agent 2,
     am_command = PC_SendTask (IpcMessageId ''m1'') 2 ''T'' ''do''\<rparr>"

definition sent_pending :: pending_delivery where
  "sent_pending =
     \<lparr>pd_workspace = Id 1, pd_handoff = Id 1, pd_message = HandoffMessageId ''m1'', pd_recipient = Id 2,
      pd_mechanism = DM_CodexTerminal, pd_prompt = the (handoff_prompt sent_handoff (Some sent_task)),
      pd_deadline = 30100, pd_next_attempt_at = 100, pd_failures = 0\<rparr>"

lemma sent_fields [simp]:
  "ho_id sent_handoff = Id 1" "ho_message_id sent_handoff = Some (HandoffMessageId ''m1'')"
  "ho_attempts sent_handoff = []" "ho_termination sent_handoff = None" "ho_response sent_handoff = None"
  "ho_recipient sent_handoff = Id 2" "ho_payload sent_handoff = HP_Task (Id 1)"
  "ho_created_at sent_handoff = Some 100" "ho_progress sent_handoff = []" "task_ident sent_task = Id 1"
  by (simp_all add: sent_handoff_def sent_task_def task_new_def)

lemma tasked_fields [simp]:
  "bm_get (w_handoffs tasked_workspace) (Id 1) = Some sent_handoff"
  "bm_get (w_tasks tasked_workspace) (Id 1) = Some sent_task"
  "bm_get (w_agents tasked_workspace) (Id 2) = Some worker_agent"
  "bm_get (w_agents staffed_workspace) (Id 2) = Some worker_agent"
  "w_handoffs staffed_workspace = bm_empty" "w_tasks staffed_workspace = bm_empty"
  "agent_program worker_agent = AP_Codex"
  by (simp_all add: tasked_workspace_def insert_handoff_def insert_task_def staffed_workspace_def worker_agent_def
      agent_with_program_def)

lemma sent_details:
  "pending_of tasked_workspace (Id 1) (Id 1) sent_handoff (HandoffMessageId ''m1'') 100 = Inr sent_pending"
proof -
  obtain prompt where p: "handoff_prompt sent_handoff (Some sent_task) = Some prompt"
    by (simp add: handoff_prompt_def)
  then show ?thesis
    by (simp add: pending_of_def delivery_details_def ok_or_def delivery_mechanism_of_def checked_timestamp_add_def
        checked_add_def delivery_window_ms_def earlier_failures_def sent_pending_def try_u32_def)
qed

lemma accepted_run:
  assumes m: "grown m staffed_workspace"
  shows "\<exists>m'. accept_handoff delivery_codec (Id 1) (Id 1) (Id 2) (IpcMessageId ''m1'') HK_Task (Some ''T'') ''do''
      None None 100 \<lparr>hub_manager = m, hub_mailboxes = bm_empty, hub_registrations = []\<rparr> =
    (Inr (), push_pending sent_pending \<lparr>hub_manager = m', hub_mailboxes = bm_empty, hub_registrations = []\<rparr>) \<and>
    grown m' tasked_workspace"
proof -
  let ?s = "\<lparr>hub_manager = m, hub_mailboxes = bm_empty, hub_registrations = []\<rparr>"
  from recorded_in_hub [of ?s, OF _ sending, of 100] m grown_members obtain m' where
    run: "run_command delivery_codec (Id 1) (DC_AddTaskHandoff sent_task sent_handoff) 100 ?s =
      (Inr (), ?s\<lparr>hub_manager := m'\<rparr>)" and m': "grown m' tasked_workspace" by auto
  have id: "domain_message_id (IpcMessageId ''m1'') = Inr (HandoffMessageId ''m1'')" by code_simp
  have title: "name_new ''T'' = Inr (Name ''T'')" by code_simp
  have "str_trim ''do'' \<noteq> []" by code_simp
  then have body: "content_new ''do'' = Inr (Content ''do'')"
    by (simp add: content_new_def content_max_chars_def chars_count_def)
  have command: "new_handoff_command staffed_workspace (Id 1) (HandoffMessageId ''m1'') (Id 1) (Id 2) HK_Task
      (Some ''T'') ''do'' None 100 None = Inr (DC_AddTaskHandoff sent_task sent_handoff)"
    by (simp add: new_handoff_command_def next_task_id_def after_highest_def checked_add_def ok_or_def
        orchestration_content_def title body map_err_def handoff_tracked_def)
      (simp add: sent_task_def task_new_def sent_handoff_def)
  have queue: "enqueue (Id 1) (Id 1) (HandoffMessageId ''m1'') 100 (?s\<lparr>hub_manager := m'\<rparr>) =
      (Inr (), push_pending sent_pending (?s\<lparr>hub_manager := m'\<rparr>))"
    using m' by (simp add: enqueue_def is_queued_def find_workspace_def act_bind_def grown_def ok_or_def sent_details
        is_delivery_terminal_def)
  have "accept_handoff delivery_codec (Id 1) (Id 1) (Id 2) (IpcMessageId ''m1'') HK_Task (Some ''T'') ''do''
      None None 100 ?s = (Inr (), push_pending sent_pending (?s\<lparr>hub_manager := m'\<rparr>))"
    using m
    by (simp add: accept_handoff_def act_bind_def Let_def id find_handoff_def grown_def find_workspace_def
        ok_or_def delivery_mechanism_of_def next_handoff_id_def after_highest_def checked_add_def parent_handoff_def
        command run queue [simplified])
  then show ?thesis using m' by auto
qed

lemma accepted_history:
  "\<exists>m. hub_history delivery_codec (push_pending sent_pending
       \<lparr>hub_manager = m, hub_mailboxes = bm_empty, hub_registrations = []\<rparr>) \<and> grown m tasked_workspace"
proof -
  from staffed_history obtain m where m: "manager_history delivery_codec m" "grown m staffed_workspace" by blast
  let ?s = "\<lparr>hub_manager = m, hub_mailboxes = bm_empty, hub_registrations = []\<rparr>"
  from accepted_run [OF m(2)] obtain m' where
    "accept_handoff delivery_codec (Id 1) (Id 1) (Id 2) (IpcMessageId ''m1'') HK_Task (Some ''T'') ''do''
      None None 100 ?s = (Inr (), push_pending sent_pending (?s\<lparr>hub_manager := m'\<rparr>))" "grown m' tasked_workspace" by auto
  moreover from this(1) have "accept delivery_codec sent_message 100 ?s =
      (Inr (), push_pending sent_pending (?s\<lparr>hub_manager := m'\<rparr>))"
    by (simp add: sent_message_def)
  ultimately show ?thesis using hub_stepped [OF hub_opened [OF m(1)] step_accept] by fastforce
qed

lemma handed_out:
  assumes "grown (hub_manager s) tasked_workspace" and "hub_mailboxes s = bm_insert (Id 1, Id 2) [sent_pending] bm_empty"
  shows "\<exists>m. prepare_next delivery_codec 200 s =
    (Inr (Some (Some \<lparr>dr_pending = sent_pending, dr_attempt_ordinal = 1\<rparr>)), s\<lparr>hub_manager := m\<rparr>)"
proof -
  from recorded_in_hub [OF assms(1) trying, of 200] grown_members obtain m where
    run: "run_command delivery_codec (Id 1) (DC_UpdateHandoff sent_handoff tried_handoff) 200 s =
      (Inr (), s\<lparr>hub_manager := m\<rparr>)" by auto
  have started: "begin_delivery (HandoffMessageId ''m1'') DM_CodexTerminal 200 sent_handoff = Inr (tried_handoff, 1)"
    by (simp add: begin_delivery_Inr_iff tried_handoff_def has_delivery_message_def is_message_delivered_def)
  have due: "next_due 200 s = Some sent_pending"
    by (simp add: next_due_def assms(2) bm_values_def List.map_filter_def sent_pending_def)
  have update: "act_bind (execute_handoff_update delivery_codec (Id 1) sent_handoff tried_handoff 200) f s =
      f () (s\<lparr>hub_manager := m\<rparr>)" for f :: "unit \<Rightarrow> 'a orchestrated"
    unfolding execute_handoff_update_def by (rule act_bind_eqs(2)) (rule run)
  have "prepare_round delivery_codec 200 () s =
      (Inr (Inr (Some \<lparr>dr_pending = sent_pending, dr_attempt_ordinal = 1\<rparr>)), s\<lparr>hub_manager := m\<rparr>)"
    using assms(1)
    by (simp add: prepare_round_def due get_handoff_def find_workspace_def grown_def ok_or_def
        map_err_def bind_assoc) (simp add: sent_pending_def started update)
  then have "prepare_next delivery_codec 200 s =
      (Inr (Some (Some \<lparr>dr_pending = sent_pending, dr_attempt_ordinal = 1\<rparr>)), s\<lparr>hub_manager := m\<rparr>)"
    by (simp add: prepare_next_def act_bind_def)
  then show ?thesis by blast
qed

end
