(* ===== verification/Orchestrator_Properties.thy ===== *)
theory Orchestrator_Properties
  imports Orchestrator_Sample
begin

text \<open>What the orchestrator promises.\<close>

section \<open>The loop of prepare_next returns\<close>

text \<open>C34: \<open>prepare_next\<close> always returns: its loop skips settled messages and expires late ones, and every
  round that goes on takes a prompt out of the mailboxes.\<close>

theorem prepare_next_returns: "fst (prepare_next cd now s) \<noteq> Inr None"
proof
  assume "fst (prepare_next cd now s) = Inr None"
  then have "act_loop (Suc (length (all_pending s))) (prepare_round cd now) () s = (Inr None, snd (prepare_next cd now s))"
    by (simp add: prepare_next_def prod_eq_iff)
  moreover have "length (all_pending s) < Suc (length (all_pending s))" by (rule lessI)
  ultimately show False using prepare.loop_leaves [OF TrueI] by blast
qed

section \<open>Backing off\<close>

text \<open>The delay before the next attempt is the first one, a quarter of a second, doubled for every failure
  after the first, and stays at four seconds from the fifth failure on.\<close>

theorem backoff_doubles:
  "unat (backoff_delay failures) = 250 * 2 ^ min (unat failures - 1) 4"
proof -
  define k where "k = (if failures = 0 then 0 else failures - 1)"
  have k: "unat k = unat failures - 1"
    by (cases "failures = 0") (simp_all add: k_def unat_minus_one)
  have shift: "unat (min k 4) = min (unat failures - 1) 4"
    using k by (simp add: min_def word_le_nat_alt)
  have pow: "unat (push_bit n 1 :: u64) = 2 ^ n" if "n \<le> 4" for n
  proof -
    have "n = 0 \<or> n = 1 \<or> n = 2 \<or> n = 3 \<or> n = 4" using that by linarith
    then show ?thesis by (elim disjE) (simp_all add: push_bit_eq_mult)
  qed
  have "unat (push_bit (unat (min k 4)) 1 :: u64) = 2 ^ min (unat failures - 1) 4"
    using pow [of "unat (min k 4)"] shift by simp
  moreover have "(2::nat) ^ min (unat failures - 1) 4 \<le> 16"
    using power_increasing [of "min (unat failures - 1) 4" 4 "2::nat"] by simp
  ultimately show ?thesis
    by (simp add: backoff_delay_def saturating_mul_def initial_retry_ms_def max_backoff_shift_def
        k_def [symmetric] Let_def unat_mult_lem [THEN iffD1])
qed

section \<open>What is handed out\<close>

lemma prepare_next_last:
  assumes "prepare_next cd now s = (Inr (Some (Some request)), s')" and "faithful cd" and "hub_ok cd s"
  shows "\<exists>t. hub_ok cd t \<and> prepare_round cd now () t = (Inr (Inr (Some request)), s')"
proof -
  have run: "act_loop (Suc (length (all_pending s))) (prepare_round cd now) () s = (Inr (Some (Some request)), s')"
    using assms(1) by (simp add: prepare_next_def)
  have "hub_ok cd t" if "hub_ok cd v" "prepare_round cd now b v = (Inr (Inl b'), t)" for v t b b'
    using keepsD [OF hubs_prepare(1) [OF assms(2)] that(2)] that(1) by simp
  from loop_last [where P = "\<lambda>_. hub_ok cd", OF run assms(3) this] show ?thesis by auto
qed

lemma prepare_round_hands_out:
  assumes "prepare_round cd now b s = (Inr (Inr (Some request)), s')"
  shows "\<exists>before after. let p = dr_pending request in
    next_due now s = Some p \<and> now < pd_deadline p \<and> get_handoff (pd_workspace p) (pd_handoff p) s = (Inr before, s) \<and>
    begin_delivery (pd_message p) (pd_mechanism p) now before = Inr (after, dr_attempt_ordinal request) \<and>
    execute_handoff_update cd (pd_workspace p) before after now s = (Inr (), s')"
  using assms
  by (auto simp: prepare_round_def result_iff not_le get_handoff_def find_workspace_def Let_def
      split: option.splits if_splits)



section \<open>Messages that arrive twice\<close>

lemma find_handoff_stored:
  assumes "manager_workspace (hub_manager s) wid = Some w" and "bm_get (w_handoffs w) i = Some h"
    and "ho_message_id h = Some m"
  shows "find_handoff s wid m \<noteq> None"
proof -
  have "h \<in> set (bm_values (w_handoffs w))" using assms(2) by (auto simp: set_bm_values)
  with assms(1,3) show ?thesis by (auto simp: find_handoff_def find_None_iff)
qed

lemma new_command_stores:
  assumes "new_handoff_command v hid m source recipient kind title body parent at deadline = Inr c"
    and "execute w c = Inr (w', e)"
  shows "\<exists>h. bm_get (w_handoffs w') hid = Some h \<and> ho_message_id h = Some m"
proof -
  have stored: "ho_id h = hid \<and> ho_message_id h = Some m"
    if "handoff_tracked hid m (HO_Agent source) recipient payload parent at deadline = Inr h" for payload h
    using that by (auto simp: handoff_tracked_def split: if_splits)
  show ?thesis
    using assms
    by (cases kind)
      (auto simp: new_handoff_command_def execute_def decide_def apply_event_def apply_task_handoff_added_def
        apply_handoff_added_def result_iff insert_handoff_def split: if_splits dest!: stored)
qed

text \<open>C8: A message the queue delivers again, because the application stopped before acknowledging it, starts
  nothing twice: once a handoff was accepted, accepting its message again records nothing, whatever the
  repeated message says.\<close>

theorem accepted_once:
  assumes "accept_handoff cd wid source recipient mid kind title body parent timeout at s = (Inr u, s')"
  shows "hub_manager (snd (accept_handoff cd wid source' recipient' mid kind' title' body' parent' timeout' at' s')) =
    hub_manager s'"
proof -
  from assms obtain m where m: "domain_message_id mid = Inr m" by (auto simp: accept_handoff_def result_iff)
  have "find_handoff s' wid m \<noteq> None"
  proof (cases "find_handoff s wid m")
    case (Some h)
    with assms m have "enqueue wid (ho_id h) m at s = (Inr u, s')" by (simp add: accept_handoff_def)
    then have "hub_manager s' = hub_manager s" using enqueue_manager by (metis snd_conv)
    with Some show ?thesis by (simp add: find_handoff_def)
  next
    case None
    with assms m obtain v hid parent' deadline c t where
      c: "new_handoff_command v hid m source recipient kind title body parent' at deadline = Inr c"
      and run: "run_command cd wid c at s = (Inr (), t)" and queue: "enqueue wid hid m at t = (Inr u, s')"
      by (auto simp: accept_handoff_def result_iff find_workspace_def)
    from run_command_recorded [OF run] obtain w w' e where
      w': "execute w c = Inr (w', e)" "manager_workspace (hub_manager t) wid = Some w'" by blast
    from new_command_stores [OF c w'(1)] obtain h where
      "bm_get (w_handoffs w') hid = Some h" "ho_message_id h = Some m" by blast
    with w'(2) have "find_handoff t wid m \<noteq> None" by (intro find_handoff_stored)
    moreover have "hub_manager s' = hub_manager t" using enqueue_manager queue by (metis snd_conv)
    ultimately show ?thesis by (simp add: find_handoff_def)
  qed
  then obtain h where "find_handoff s' wid m = Some h" by auto
  then show ?thesis by (simp add: accept_handoff_def m enqueue_manager)
qed

lemma accepted_once_witness:
  "\<exists>(s :: hub). find_handoff s (Id 1) (HandoffMessageId ''m1'') = Some sent_handoff \<and>
     hub_manager (snd (accept_handoff delivery_codec (Id 1) (Id 1) (Id 2) (IpcMessageId ''m1'') HK_Task (Some ''U'') ''more''
       None None 150 s)) = hub_manager s"
proof -
  from staffed_history obtain m where m: "grown m staffed_workspace" by blast
  from accepted_run [OF this] obtain m' where
    run: "accept_handoff delivery_codec (Id 1) (Id 1) (Id 2) (IpcMessageId ''m1'') HK_Task (Some ''T'') ''do'' None None 100
      \<lparr>hub_manager = m, hub_mailboxes = bm_empty, hub_registrations = []\<rparr> =
      (Inr (), push_pending sent_pending \<lparr>hub_manager = m', hub_mailboxes = bm_empty, hub_registrations = []\<rparr>)"
    and m': "grown m' tasked_workspace" by blast
  let ?s = "push_pending sent_pending \<lparr>hub_manager = m', hub_mailboxes = bm_empty, hub_registrations = []\<rparr>"
  have "bm_values (w_handoffs tasked_workspace) = [sent_handoff]"
    by (simp add: tasked_workspace_def insert_handoff_def insert_task_def bm_values_def)
  then have "find_handoff ?s (Id 1) (HandoffMessageId ''m1'') = Some sent_handoff"
    using m' by (simp add: find_handoff_def grown_def push_pending_def)
  with accepted_once [OF run] show ?thesis by blast
qed

section \<open>The mailboxes\<close>

text \<open>C9: Over any history of the orchestrator and its manager no mailbox is empty, every prompt is filed under
  the agent it goes to and is plain text (no control code but newline and tab, no DEL, and none of the
  two-byte characters U+0080 to U+009F), and no message is queued twice. The application may restart.\<close>

theorem mailboxes_in_order:
  assumes "faithful cd" and "hub_history cd s"
  shows "boxes_ok s"
  using hub_history_ok [OF assms] by (simp add: hub_ok_def)

lemma mailboxes_in_order_witness: "\<exists>s. boxes_ok s \<and> all_pending s = [sent_pending]"
proof -
  from accepted_history obtain m where "hub_history delivery_codec (push_pending sent_pending
       \<lparr>hub_manager = m, hub_mailboxes = bm_empty, hub_registrations = []\<rparr>)" by blast
  from mailboxes_in_order [OF delivery_codec_faithful this] show ?thesis
    by (auto simp: push_pending_def sent_pending_def all_pending_def bm_values_def)
qed

section \<open>A workspace that is gone\<close>

text \<open>C33: Once the prompt that is due first belongs to a workspace that was removed, \<open>prepare_next\<close> fails, and
  leaves everything as it is: it will fail again, and no other mailbox is served.\<close>

theorem removed_workspace_blocks:
  assumes "next_due now s = Some p" and "manager_workspace (hub_manager s) (pd_workspace p) = None"
  shows "prepare_next cd now s = (Inl (OE_UnknownWorkspace (pd_workspace p)), s)"
  using assms
  by (simp add: prepare_next_def prepare_round_def get_handoff_def find_workspace_def act_bind_def)

lemma removed_workspace_blocks_witness:
  "\<exists>s. hub_history delivery_codec s \<and> prepare_next delivery_codec 200 s = (Inl (OE_UnknownWorkspace (Id 1)), s)"
proof -
  from accepted_history obtain m where m: "grown m tasked_workspace"
    and history: "hub_history delivery_codec (push_pending sent_pending
       \<lparr>hub_manager = m, hub_mailboxes = bm_empty, hub_registrations = []\<rparr>)" by blast
  let ?s = "push_pending sent_pending \<lparr>hub_manager = m, hub_mailboxes = bm_empty, hub_registrations = []\<rparr>"
  from m obtain m' where removed: "manager_remove_workspace (Id 1) m = (Inr (), m')" "manager_workspace m' (Id 1) = None"
    by (auto simp: manager_remove_workspace_def grown_def act_bind_def on_journal_run journal_remove_workspace_def
        use_database_def map_err_def manager_workspace_def Let_def)
  have "manager_change delivery_codec (hub_manager ?s) m'" using removed(1) by (intro change_remove) simp
  from hub_managed [OF history this] have "hub_history delivery_codec (?s\<lparr>hub_manager := m'\<rparr>)" .
  moreover have "next_due 200 (?s\<lparr>hub_manager := m'\<rparr>) = Some sent_pending"
    by (simp add: next_due_def push_pending_def sent_pending_def bm_values_def List.map_filter_def)
  then have "prepare_next delivery_codec 200 (?s\<lparr>hub_manager := m'\<rparr>) =
      (Inl (OE_UnknownWorkspace (pd_workspace sent_pending)), ?s\<lparr>hub_manager := m'\<rparr>)"
    by (rule removed_workspace_blocks) (simp add: removed(2) sent_pending_def)
  ultimately show ?thesis by (auto simp: sent_pending_def)
qed

end
