(* ===== verification/Scheduler.thy ===== *)
theory Scheduler
  imports Orchestrator_Steps Routine_Run_Ends
begin

text \<open>
  The routine scheduler of \<open>src/routines/engine.rs\<close>: what it freezes when a run starts, and the tick
  that records finished steps, dispatches ready ones and settles runs. Its decisions are functions of
  the workspace; its changes are commands of the manager.

  \<open>outside\<close> stands for the file system and \<open>git\<close>: the canonical form of a path, when it exists and is
  text, and the output of \<open>git rev-parse --verify HEAD\<close> in a directory, when it succeeds and is text.
\<close>

section \<open>Vocabulary\<close>

datatype scheduler_error =
    SE_Workspace workspace_error
  | SE_Orchestration orchestration_error
  | SE_Routine routine_error
  | SE_UnknownWorkspace workspace_id
  | SE_UnknownRoutine routine_id
  | SE_UnknownRun routine_run_id
  | SE_UnknownTrigger routine_trigger_id
  | SE_UnknownAgent agent_id
  | SE_TriggerDisabled routine_trigger_id
  | SE_OccurrenceAlreadyConsumed routine_occurrence_key
  | SE_RunAlreadyActive routine_id routine_run_id
  | SE_UnavailableCheckout "u64 option"
  | SE_CheckoutMismatch agent_id string string

record outside =
  out_canonicalize :: "string \<Rightarrow> string option"
  out_git_head :: "string \<Rightarrow> string option"

record trigger_firing =
  tf_trigger :: routine_trigger_id
  tf_occurrence :: routine_occurrence_key
  tf_next_occurrence :: "timestamp option"

record run_request =
  rq_inputs :: "(routine_input_key, routine_value) bmap"
  rq_observed :: "(routine_input_key, routine_value) bmap"
  rq_trigger :: "trigger_firing option"

type_synonym 'a scheduled = "(hub, scheduler_error, 'a) action"

definition scheduler_workspace :: "hub \<Rightarrow> workspace_id \<Rightarrow> (scheduler_error, workspace) result" where
  "scheduler_workspace s wid = ok_or (manager_workspace (hub_manager s) wid) (SE_UnknownWorkspace wid)"

definition scheduler_run :: "hub \<Rightarrow> workspace_id \<Rightarrow> routine_run_id \<Rightarrow> (scheduler_error, routine_run) result" where
  "scheduler_run s wid r =
     res_bind (scheduler_workspace s wid) (\<lambda>w. ok_or (bm_get (w_runs w) r) (SE_UnknownRun r))"

text \<open>A decision on the workspace as it is now.\<close>

definition decided :: "(hub \<Rightarrow> (scheduler_error, 'a) result) \<Rightarrow> 'a scheduled" where
  "decided f = act_bind (act_get f) act_lift"

definition record_command :: "codec \<Rightarrow> workspace_id \<Rightarrow> domain_command \<Rightarrow> timestamp \<Rightarrow> unit scheduled" where
  "record_command cd wid c at =
     act_map_err SE_Workspace (act_zoom hub_manager (\<lambda>m s. s\<lparr>hub_manager := m\<rparr>)
       (act_bind (manager_execute cd wid c at) (\<lambda>_. act_return ())))"

definition advance ::
  "codec \<Rightarrow> workspace_id \<Rightarrow> routine_run_id \<Rightarrow> routine_transition \<Rightarrow> timestamp \<Rightarrow> unit scheduled" where
  "advance cd wid r t at = record_command cd wid (DC_AdvanceRoutineRun r t) at"

definition scheduler_content :: "string \<Rightarrow> (scheduler_error, content) result" where
  "scheduler_content s = map_err (\<lambda>e. SE_Orchestration (OE_Validation e)) (content_new s)"

section \<open>Identifiers\<close>

definition scheduler_next_run_id :: "workspace \<Rightarrow> (scheduler_error, routine_run_id) result" where
  "scheduler_next_run_id w =
     ok_or (map_option Id (after_highest (map (\<lambda>r. id_get (run_id r)) (bm_values (w_runs w)))))
       (SE_Routine (RE_IdentifierExhausted ''routine run''))"

definition scheduler_next_attempt_id :: "workspace \<Rightarrow> (scheduler_error, routine_attempt_id) result" where
  "scheduler_next_attempt_id w =
     ok_or (map_option Id (after_highest (map (\<lambda>a. id_get (at_id a))
         (concat (map sr_attempts (concat (map (\<lambda>r. bm_values (run_steps r)) (bm_values (w_runs w)))))))))
       (SE_Routine (RE_IdentifierExhausted ''routine attempt''))"

definition scheduler_next_task_id :: "workspace \<Rightarrow> (scheduler_error, task_id) result" where
  "scheduler_next_task_id w =
     ok_or (map_option Id (checked_add (highest_task_id w) 1)) (SE_Routine (RE_IdentifierExhausted ''task''))"

definition scheduler_next_handoff_id :: "workspace \<Rightarrow> (scheduler_error, handoff_id) result" where
  "scheduler_next_handoff_id w =
     ok_or (map_option Id (checked_add (highest_handoff_id w) 1))
       (SE_Routine (RE_IdentifierExhausted ''handoff''))"

definition routine_message_id ::
  "routine_run_id \<Rightarrow> routine_step_id \<Rightarrow> u32 \<Rightarrow> (scheduler_error, handoff_message_id) result" where
  "routine_message_id r sid ordinal =
     map_err (\<lambda>e. SE_Orchestration (OE_Handoff e)) (handoff_message_id_new
       (''routine-'' @ id_text r @ ''-'' @ id_text sid @ ''-'' @ decimal (unat ordinal)))"

section \<open>Checkouts\<close>

definition canonical_directory :: "outside \<Rightarrow> workspace_directory \<Rightarrow> workspace_directory" where
  "canonical_directory out d =
     (case out_canonicalize out (workspace_directory_str d) of
        None \<Rightarrow> d
      | Some p \<Rightarrow> (case workspace_directory_new p of Inl _ \<Rightarrow> d | Inr c \<Rightarrow> c))"

definition head_revision :: "outside \<Rightarrow> routine_checkout \<Rightarrow> string option" where
  "head_revision out c =
     (case out_git_head out (workspace_directory_str (checkout_directory c)) of
        None \<Rightarrow> None
      | Some output \<Rightarrow> if str_trim output = [] then None else Some (str_trim output))"

definition agent_checkout :: "workspace \<Rightarrow> agent_id \<Rightarrow> workspace_directory option" where
  "agent_checkout w a =
     (case List.find (\<lambda>n. node_reference n = Some (NT_Agent a)) (cl_nodes (all_canvas_layout w)) of
        Some n \<Rightarrow> node_directory w (node_ident n)
      | None \<Rightarrow> ws_working_directory (w_settings w))"

definition resolve_checkout ::
  "outside \<Rightarrow> workspace \<Rightarrow> routine_step \<Rightarrow> agent_id \<Rightarrow> (scheduler_error, routine_checkout) result" where
  "resolve_checkout out w st a =
     res_bind (ok_or (agent_checkout w a) (SE_UnavailableCheckout None)) (\<lambda>d.
       let actual = RoutineCheckout (canonical_directory out d) in
       case claim_checkout (st_claims st) of
         CC_AgentDefault \<Rightarrow> Inr actual
       | CC_Floor f \<Rightarrow>
           res_bind (ok_or (floor_directory w f) (SE_UnavailableCheckout (Some f))) (\<lambda>d.
             let claimed = RoutineCheckout (canonical_directory out d) in
             if claimed \<noteq> actual
             then Inl (SE_CheckoutMismatch a (workspace_directory_str (checkout_directory claimed))
                 (workspace_directory_str (checkout_directory actual)))
             else Inr claimed))"

section \<open>Starting a run\<close>

definition pin_steps ::
  "outside \<Rightarrow> workspace \<Rightarrow> (routine_step_id, agent_id) bmap \<Rightarrow>
   (routine_step_id, agent_id) bmap \<times> (routine_step_id, routine_checkout) bmap \<times> (routine_checkout, string) bmap \<Rightarrow>
   routine_step \<Rightarrow>
   (scheduler_error, (routine_step_id, agent_id) bmap \<times> (routine_step_id, routine_checkout) bmap \<times>
     (routine_checkout, string) bmap) result" where
  "pin_steps out w overrides = (\<lambda>(agents, checkouts, revisions) st.
     let a = (case bm_get overrides (st_id st) of Some a \<Rightarrow> a | None \<Rightarrow> st_agent st) in
     if bm_get (w_agents w) a = None then Inl (SE_UnknownAgent a)
     else res_bind (resolve_checkout out w st a) (\<lambda>c.
       Inr (bm_insert (st_id st) a agents, bm_insert (st_id st) c checkouts,
            (case head_revision out c of None \<Rightarrow> revisions | Some r \<Rightarrow> bm_insert c r revisions))))"

definition scheduler_pin_version ::
  "outside \<Rightarrow> workspace \<Rightarrow> routine_version \<Rightarrow> (routine_input_key, routine_value) bmap \<Rightarrow>
   (routine_step_id, agent_id) bmap \<Rightarrow> (scheduler_error, routine_run_pin) result" where
  "scheduler_pin_version out w v inputs overrides =
     res_bind (try_fold (pin_steps out w overrides) (bm_empty, bm_empty, bm_empty) (ver_steps v))
       (\<lambda>(agents, checkouts, revisions). map_err SE_Routine (run_pin_new v inputs agents checkouts revisions))"

text \<open>\<open>entry(key).or_insert(value)\<close> for every entry.\<close>

definition offer_values ::
  "(routine_input_key, routine_value) bmap \<Rightarrow> (routine_input_key \<times> routine_value) list \<Rightarrow>
   (routine_input_key, routine_value) bmap" where
  "offer_values supplied offered =
     fold (\<lambda>(k, v) m. if bm_contains m k then m else bm_insert k v m) offered supplied"

definition supplied_values ::
  "workspace \<Rightarrow> routine \<Rightarrow> run_request \<Rightarrow> (scheduler_error, (routine_input_key, routine_value) bmap) result" where
  "supplied_values w x request =
     (case rq_trigger request of
        None \<Rightarrow> Inr (rq_inputs request)
      | Some firing \<Rightarrow>
          res_bind (ok_or (routine_trigger_of x (tf_trigger firing)) (SE_UnknownTrigger (tf_trigger firing))) (\<lambda>t.
            if \<not> tr_enabled t then Inl (SE_TriggerDisabled (tf_trigger firing))
            else
              let declared = map in_key (ver_inputs (latest_version x));
                  supplied = offer_values (rq_inputs request) (entries (tr_inputs t));
                  supplied = offer_values supplied
                    (filter (\<lambda>(k, _). k \<in> set declared) (entries (rq_observed request))) in
              if routine_occurrence_consumed w (tf_trigger firing) (tf_occurrence firing)
              then Inl (SE_OccurrenceAlreadyConsumed (tf_occurrence firing))
              else Inr supplied))"

text \<open>What is checked before anything changes: the version to run and the values of its inputs.\<close>

definition plan_run ::
  "workspace \<Rightarrow> routine_id \<Rightarrow> run_request \<Rightarrow>
   (scheduler_error, routine_version \<times> (routine_input_key, routine_value) bmap) result" where
  "plan_run w rid request =
     res_bind (ok_or (bm_get (w_routines w) rid) (SE_UnknownRoutine rid)) (\<lambda>x.
     res_bind (supplied_values w x request) (\<lambda>supplied.
       case List.find (\<lambda>r. run_routine r = rid) (active_routine_runs w) of
         Some active \<Rightarrow> Inl (SE_RunAlreadyActive rid (run_id active))
       | None \<Rightarrow>
           res_bind (map_err SE_Routine (resolve_inputs (latest_version x) supplied)) (\<lambda>inputs.
             Inr (latest_version x, inputs))))"

text \<open>A template names the agents it was saved with as \<open>agent-<id>\<close>.\<close>

definition template_bindings ::
  "routine_version \<Rightarrow> (string, agent_id) bmap \<Rightarrow> (routine_step_id, agent_id) bmap" where
  "template_bindings v agents =
     bm_of_list (List.map_filter (\<lambda>st. map_option (\<lambda>a. (st_id st, a))
       (bm_get agents (''agent-'' @ id_text (st_agent st)))) (ver_steps v))"

definition new_run ::
  "outside \<Rightarrow> workspace \<Rightarrow> routine_version \<Rightarrow> (routine_input_key, routine_value) bmap \<Rightarrow>
   (routine_step_id, agent_id) bmap \<Rightarrow> trigger_firing option \<Rightarrow> timestamp \<Rightarrow>
   (scheduler_error, routine_run) result" where
  "new_run out w v inputs bindings firing at =
     res_bind (scheduler_pin_version out w v inputs bindings) (\<lambda>pin.
     res_bind (scheduler_next_run_id w) (\<lambda>r.
       Inr (run_start r (map_option tf_trigger firing) (map_option tf_occurrence firing) pin at)))"

text \<open>\<open>instantiate\<close> is \<open>WorkspaceManager::instantiate_template\<close>, which this development does not model.\<close>

definition start_run ::
  "codec \<Rightarrow> outside \<Rightarrow> (workspace_id \<Rightarrow> string \<Rightarrow> timestamp \<Rightarrow> (string, agent_id) bmap managed) \<Rightarrow>
   workspace_id \<Rightarrow> routine_id \<Rightarrow> run_request \<Rightarrow> timestamp \<Rightarrow> routine_run_id scheduled" where
  "start_run cd out instantiate wid rid request at =
     act_bind (decided (\<lambda>s. res_bind (scheduler_workspace s wid) (\<lambda>w. plan_run w rid request))) (\<lambda>(v, inputs).
     act_bind (case ver_template v of
         None \<Rightarrow> act_return bm_empty
       | Some t \<Rightarrow>
           act_bind (act_map_err SE_Workspace (act_zoom hub_manager (\<lambda>m s. s\<lparr>hub_manager := m\<rparr>)
             (instantiate wid (content_str t) at))) (\<lambda>agents. act_return (template_bindings v agents))) (\<lambda>bindings.
     act_bind (decided (\<lambda>s. res_bind (scheduler_workspace s wid) (\<lambda>w.
         new_run out w v inputs bindings (rq_trigger request) at))) (\<lambda>run.
     act_bind (record_command cd wid (DC_StartRoutineRun run
         (map_option (\<lambda>f. \<lparr>fire_occurrence = tf_occurrence f, fire_at = at\<rparr>) (rq_trigger request))
         (Option.bind (rq_trigger request) tf_next_occurrence)) at) (\<lambda>_.
       act_return (run_id run)))))"

section \<open>Observing finished steps\<close>

definition join_texts :: "string \<Rightarrow> string list \<Rightarrow> string" where
  "join_texts sep parts = (case parts of [] \<Rightarrow> [] | p # ps \<Rightarrow> p @ concat (map (\<lambda>q. sep @ q) ps))"

definition output_mismatch :: "string list \<Rightarrow> string list \<Rightarrow> string" where
  "output_mismatch missing undeclared =
     ''the step completed but '' @ join_texts ''; and ''
       ((if missing = [] then [] else [''did not return its declared output(s): '' @ join_texts '', '' missing])
        @ (if undeclared = [] then []
           else [''returned output(s) it does not declare: '' @ join_texts '', '' undeclared]))"

definition terminal_delivery_failure :: "handoff \<Rightarrow> content option" where
  "terminal_delivery_failure h =
     (case ho_message_id h of
        None \<Rightarrow> None
      | Some m \<Rightarrow>
          if is_message_delivered h m then None
          else (case List.map_filter (\<lambda>a. case att_outcome a of
                     DO_Failed _ err retryable \<Rightarrow> if retryable then None else Some err
                   | _ \<Rightarrow> None)
                 (filter (\<lambda>a. att_message_id a = m) (ho_attempts h)) of
              [] \<Rightarrow> None
            | err # _ \<Rightarrow> Some err))"

definition declared_outputs :: "routine_run \<Rightarrow> routine_step_id \<Rightarrow> routine_output_key bset" where
  "declared_outputs r sid =
     (case version_step (pin_version (run_pin r)) sid of None \<Rightarrow> bm_empty | Some st \<Rightarrow> st_outputs st)"

definition observed_response ::
  "routine_run \<Rightarrow> routine_step_id \<Rightarrow> handoff_response \<Rightarrow> (scheduler_error, routine_transition) result" where
  "observed_response r sid rsp =
     (case resp_status rsp of
        HR_Completed \<Rightarrow>
          let declared = declared_outputs r sid; outputs = resp_outputs rsp;
              missing = map key_str (filter (\<lambda>k. \<not> bm_contains outputs k) (bm_keys declared));
              undeclared = map key_str (filter (\<lambda>k. \<not> bm_contains declared k) (bm_keys outputs)) in
          if missing = [] \<and> undeclared = [] then Inr (RT_CompleteStep sid outputs (resp_responded_at rsp))
          else res_bind (scheduler_content (output_mismatch missing undeclared)) (\<lambda>reason.
            Inr (RT_FailStep sid reason (resp_responded_at rsp)))
      | _ \<Rightarrow> Inr (RT_FailStep sid (resp_body rsp) (resp_responded_at rsp)))"

fun termination_time :: "handoff_termination \<Rightarrow> timestamp" where
  "termination_time (HT_Cancelled _ _ t) = t"
| "termination_time (HT_TimedOut t) = t"

text \<open>What the stored handoff of a dispatched step says; \<open>None\<close> goes on to the next step.\<close>

definition observe_step ::
  "workspace \<Rightarrow> timestamp \<Rightarrow> routine_run \<Rightarrow> routine_step_run \<Rightarrow>
   (scheduler_error, (routine_run_id \<times> routine_transition) option) result" where
  "observe_step w now r s =
     (case active_or_last_attempt s of
        None \<Rightarrow> Inr None
      | Some a \<Rightarrow>
        (case bm_get (w_handoffs w) (at_handoff a) of
           None \<Rightarrow> Inr None
         | Some h \<Rightarrow>
           (case ho_response h of
              Some rsp \<Rightarrow> res_bind (observed_response r (sr_step s) rsp) (\<lambda>t. Inr (Some (run_id r, t)))
            | None \<Rightarrow>
              (case ho_termination h of
                 Some t \<Rightarrow> Inr (Some (run_id r, RT_InterruptStep (sr_step s) IR_ShutdownUnconfirmed
                   (max (termination_time t) (case ho_created_at h of None \<Rightarrow> now | Some c \<Rightarrow> c))))
               | None \<Rightarrow>
                 (case terminal_delivery_failure h of
                    Some reason \<Rightarrow> Inr (Some (run_id r, RT_FailStep (sr_step s) reason now))
                  | None \<Rightarrow> Inr None)))))"

text \<open>A search that stops at the first value or error.\<close>

fun first_some :: "('a \<Rightarrow> ('e, 'b option) result) \<Rightarrow> 'a list \<Rightarrow> ('e, 'b option) result" where
  "first_some f [] = Inr None"
| "first_some f (x # xs) =
     res_bind (f x) (\<lambda>r. case r of Some b \<Rightarrow> Inr (Some b) | None \<Rightarrow> first_some f xs)"

definition next_observation ::
  "workspace \<Rightarrow> timestamp \<Rightarrow> (scheduler_error, (routine_run_id \<times> routine_transition) option) result" where
  "next_observation w now =
     first_some (\<lambda>r. first_some (observe_step w now r)
         (filter (\<lambda>s. sr_state s = SS_Dispatched) (bm_values (run_steps r))))
       (active_routine_runs w)"

section \<open>Planning a dispatch\<close>

record planned_dispatch =
  pl_run :: routine_run_id
  pl_step :: routine_step_id
  pl_handoff_id :: handoff_id
  pl_message :: handoff_message_id
  pl_agent :: agent_id
  pl_attempt :: routine_attempt
  pl_task :: task
  pl_handoff :: handoff

datatype dispatch_plan =
    PL_AwaitApproval routine_run_id routine_step_id
  | PL_Fail routine_run_id routine_step_id content
  | PL_Dispatch planned_dispatch

definition is_checkout_claim :: "routine_reservation \<Rightarrow> bool" where
  "is_checkout_claim c = (case c of RV_Checkout _ \<Rightarrow> True | _ \<Rightarrow> False)"

definition scheduler_held ::
  "hub \<Rightarrow> workspace_id \<Rightarrow> (scheduler_error, routine_reservation bset) result" where
  "scheduler_held s wid =
     res_bind (scheduler_workspace s wid) (\<lambda>w.
       Inr (fold (\<lambda>other held.
           if w_id other = wid then held
           else fold bs_insert (filter is_checkout_claim (bm_keys (held_routine_reservations other))) held)
         (recent_workspaces (hub_manager s)) (held_routine_reservations w)))"

definition checkout_text :: "routine_checkout \<Rightarrow> string" where
  "checkout_text c = workspace_directory_str (checkout_directory c)"

definition wrong_checkout_text :: "routine_checkout \<Rightarrow> agent_id \<Rightarrow> routine_checkout option \<Rightarrow> string" where
  "wrong_checkout_text checkout a running_in =
     ''the step reserved checkout '' @ checkout_text checkout @ '', but agent '' @ id_text a @
     '' now runs in '' @ (case running_in of None \<Rightarrow> ''no checkout'' | Some c \<Rightarrow> checkout_text c)"

definition retry_source :: "workspace \<Rightarrow> routine_step_run \<Rightarrow> task_id option" where
  "retry_source w s =
     Option.bind (active_or_last_attempt s) (\<lambda>a.
       case bm_get (w_tasks w) (at_task a) of
         Some t \<Rightarrow> if task_state t = TS_Failed \<or> task_state t = TS_Cancelled then Some (at_task a) else None
       | None \<Rightarrow> None)"

text \<open>The attempt with its task and handoff, once the claims of the step are free.\<close>

definition build_dispatch ::
  "workspace \<Rightarrow> timestamp \<Rightarrow> task_id \<Rightarrow> handoff_id \<Rightarrow> routine_attempt_id \<Rightarrow> routine_run \<Rightarrow> routine_step \<Rightarrow>
   routine_step_run \<Rightarrow> agent_id \<Rightarrow> routine_checkout \<Rightarrow> (scheduler_error, planned_dispatch) result" where
  "build_dispatch w now tid hid aid r st s a checkout =
     res_bind (map_err SE_Routine (resolve_bindings r (st_id st))) (\<lambda>bindings.
     res_bind (map_err SE_Routine (render_prompt st bindings)) (\<lambda>prompt.
     res_bind (ok_or (next_ordinal (length (sr_attempts s)))
         (SE_Routine (RE_IdentifierExhausted ''routine attempt''))) (\<lambda>ordinal.
     let t = task_new tid (st_name st) prompt (Some a) (retry_source w s) in
     res_bind (routine_message_id (run_id r) (st_id st) ordinal) (\<lambda>m.
     res_bind (map_err (\<lambda>e. SE_Orchestration (OE_Handoff e))
         (handoff_tracked hid m (HO_Routine (run_id r) (st_id st)) a (HP_Task tid) None now None)) (\<lambda>h.
     res_bind (map_err SE_Routine (routine_attempt_new aid ordinal tid hid a checkout
         (bm_keys (claim_resources (st_claims st))) now)) (\<lambda>attempt.
       Inr \<lparr>pl_run = run_id r, pl_step = st_id st, pl_handoff_id = hid, pl_message = m, pl_agent = a,
            pl_attempt = attempt, pl_task = t, pl_handoff = h\<rparr>))))))"

definition required_claims :: "routine_step \<Rightarrow> agent_id \<Rightarrow> routine_checkout \<Rightarrow> routine_reservation list" where
  "required_claims st a checkout =
     [RV_Agent a, RV_Checkout checkout] @ map RV_Named (bm_keys (claim_resources (st_claims st)))"

definition plan_step ::
  "outside \<Rightarrow> workspace \<Rightarrow> routine_reservation bset \<Rightarrow> timestamp \<Rightarrow> task_id \<Rightarrow> handoff_id \<Rightarrow> routine_attempt_id \<Rightarrow>
   routine_run \<Rightarrow> routine_step_id \<Rightarrow> (scheduler_error, dispatch_plan option) result" where
  "plan_step out w held now tid hid aid r sid =
     res_bind (map_err SE_Routine (pinned_step r sid)) (\<lambda>st.
     res_bind (ok_or (bm_get (run_steps r) sid) (SE_Routine (RE_UnknownStep sid))) (\<lambda>s.
       if st_approval st = RA_Required \<and> sr_approval s = None
       then Inr (Some (PL_AwaitApproval (run_id r) sid))
       else
         res_bind (ok_or (bm_get (pin_agents (run_pin r)) sid) (SE_Routine (RE_UnpinnedStepBinding sid))) (\<lambda>a.
         res_bind (ok_or (bm_get (pin_checkouts (run_pin r)) sid) (SE_Routine (RE_UnpinnedStepCheckout sid))) (\<lambda>checkout.
         let running_in = map_option (\<lambda>d. RoutineCheckout (canonical_directory out d)) (agent_checkout w a) in
         if running_in \<noteq> Some checkout
         then res_bind (scheduler_content (wrong_checkout_text checkout a running_in)) (\<lambda>reason.
           Inr (Some (PL_Fail (run_id r) sid reason)))
         else if list_ex (bm_contains held) (required_claims st a checkout) then Inr None
         else res_bind (build_dispatch w now tid hid aid r st s a checkout) (\<lambda>d.
           Inr (Some (PL_Dispatch d)))))))"

definition next_dispatch ::
  "outside \<Rightarrow> hub \<Rightarrow> workspace_id \<Rightarrow> timestamp \<Rightarrow> (scheduler_error, dispatch_plan option) result" where
  "next_dispatch out s wid now =
     res_bind (scheduler_workspace s wid) (\<lambda>w.
     res_bind (scheduler_held s wid) (\<lambda>held.
     res_bind (scheduler_next_task_id w) (\<lambda>tid.
     res_bind (scheduler_next_handoff_id w) (\<lambda>hid.
     res_bind (scheduler_next_attempt_id w) (\<lambda>aid.
       first_some (\<lambda>r. first_some (plan_step out w held now tid hid aid r) (ready_steps r))
         (filter (\<lambda>r. run_state r = RS_Running) (active_routine_runs w)))))))"

section \<open>The tick\<close>

text \<open>
  What the runs of a workspace may still do. Every round of the loops below advances a run, which lowers
  it (\<open>Routine_Run_Ends\<close>), so it bounds the rounds.
\<close>

definition work_left :: "workspace_id \<Rightarrow> hub \<Rightarrow> nat" where
  "work_left wid s =
     (case manager_workspace (hub_manager s) wid of
        None \<Rightarrow> 0
      | Some w \<Rightarrow> sum_list (map run_cost (bm_values (w_runs w))))"

definition observe_round ::
  "codec \<Rightarrow> workspace_id \<Rightarrow> timestamp \<Rightarrow> unit \<Rightarrow> (unit + unit) scheduled" where
  "observe_round cd wid now = (\<lambda>_.
     act_bind (decided (\<lambda>s. res_bind (scheduler_workspace s wid) (\<lambda>w. next_observation w now))) (\<lambda>found.
       case found of
         None \<Rightarrow> act_return (Inr ())
       | Some (r, t) \<Rightarrow> act_bind (advance cd wid r t now) (\<lambda>_. act_return (Inl ()))))"

definition observe_finished_steps :: "codec \<Rightarrow> workspace_id \<Rightarrow> timestamp \<Rightarrow> unit option scheduled" where
  "observe_finished_steps cd wid now =
     act_bind (act_get (work_left wid)) (\<lambda>n. act_loop (Suc n) (observe_round cd wid now) ())"

definition carry_out_dispatch :: "codec \<Rightarrow> workspace_id \<Rightarrow> planned_dispatch \<Rightarrow> timestamp \<Rightarrow> unit scheduled" where
  "carry_out_dispatch cd wid d now =
     act_bind (record_command cd wid (DC_DispatchRoutineStep (pl_run d) (pl_step d) (pl_attempt d)
         (pl_task d) (pl_handoff d)) now) (\<lambda>_.
     act_bind (act_map_err SE_Orchestration (submit_routine_handoff wid (pl_handoff_id d) now)) (\<lambda>_.
       act_modify (\<lambda>s. s\<lparr>hub_registrations := hub_registrations s @
         [\<lparr>rd_workspace = wid, rd_run = pl_run d, rd_step = pl_step d, rd_handoff = pl_handoff_id d,
           rd_message = pl_message d, rd_agent = pl_agent d\<rparr>]\<rparr>)))"

text \<open>The variable of the loop says whether anything went out yet.\<close>

definition dispatch_round ::
  "codec \<Rightarrow> outside \<Rightarrow> workspace_id \<Rightarrow> timestamp \<Rightarrow> bool \<Rightarrow> (bool + bool) scheduled" where
  "dispatch_round cd out wid now dispatched =
     act_bind (decided (\<lambda>s. next_dispatch out s wid now)) (\<lambda>plan.
       case plan of
         None \<Rightarrow> act_return (Inr dispatched)
       | Some (PL_AwaitApproval r sid) \<Rightarrow>
           act_bind (advance cd wid r (RT_AwaitApproval sid) now) (\<lambda>_. act_return (Inl dispatched))
       | Some (PL_Fail r sid reason) \<Rightarrow>
           act_bind (advance cd wid r (RT_CancelStep sid (Some reason) now) now) (\<lambda>_. act_return (Inl dispatched))
       | Some (PL_Dispatch d) \<Rightarrow>
           act_bind (carry_out_dispatch cd wid d now) (\<lambda>_. act_return (Inl True)))"

definition dispatch_ready_steps :: "codec \<Rightarrow> outside \<Rightarrow> workspace_id \<Rightarrow> timestamp \<Rightarrow> bool option scheduled" where
  "dispatch_ready_steps cd out wid now =
     act_bind (act_get (work_left wid)) (\<lambda>n. act_loop (Suc n) (dispatch_round cd out wid now) False)"

definition settled_candidates :: "workspace \<Rightarrow> routine_run_id list" where
  "settled_candidates w =
     map run_id (filter (\<lambda>r. list_all (\<lambda>s. step_state_is_terminal (sr_state s)) (bm_values (run_steps r)))
       (active_routine_runs w))"

definition settle_runs :: "codec \<Rightarrow> workspace_id \<Rightarrow> timestamp \<Rightarrow> bool scheduled" where
  "settle_runs cd wid now =
     act_bind (decided (\<lambda>s. res_bind (scheduler_workspace s wid) (\<lambda>w. Inr (settled_candidates w)))) (\<lambda>candidates.
     act_bind (act_each (\<lambda>r. advance cd wid r (RT_Settle now) now) candidates) (\<lambda>_.
       act_return (candidates \<noteq> [])))"

text \<open>The result of a loop that left; a loop that is still running stops the tick with \<open>None\<close>.\<close>

definition tick_round ::
  "codec \<Rightarrow> outside \<Rightarrow> workspace_id \<Rightarrow> timestamp \<Rightarrow> unit \<Rightarrow> (unit + unit option) scheduled" where
  "tick_round cd out wid now = (\<lambda>_.
     act_bind (observe_finished_steps cd wid now) (\<lambda>observed.
     act_bind (dispatch_ready_steps cd out wid now) (\<lambda>dispatched.
     act_bind (settle_runs cd wid now) (\<lambda>settled.
       act_return
         (case (observed, dispatched) of
            (Some _, Some dispatched) \<Rightarrow> if \<not> dispatched \<and> \<not> settled then Inr (Some ()) else Inl ()
          | _ \<Rightarrow> Inr None)))))"

definition tick_workspace :: "codec \<Rightarrow> outside \<Rightarrow> timestamp \<Rightarrow> workspace_id \<Rightarrow> unit option scheduled" where
  "tick_workspace cd out now wid =
     act_bind (act_get (work_left wid)) (\<lambda>n.
     act_bind (act_loop (Suc n) (tick_round cd out wid now) ()) (\<lambda>r. act_return (Option.bind r id)))"

fun tick_workspaces :: "codec \<Rightarrow> outside \<Rightarrow> timestamp \<Rightarrow> workspace_id list \<Rightarrow> unit option scheduled" where
  "tick_workspaces cd out now [] = act_return (Some ())"
| "tick_workspaces cd out now (wid # ids) =
     act_bind (tick_workspace cd out now wid) (\<lambda>r.
       case r of None \<Rightarrow> act_return None | Some _ \<Rightarrow> tick_workspaces cd out now ids)"

definition tick :: "codec \<Rightarrow> outside \<Rightarrow> timestamp \<Rightarrow> routine_dispatch list option scheduled" where
  "tick cd out now =
     act_bind (act_get (\<lambda>s. map w_id (recent_workspaces (hub_manager s)))) (\<lambda>ids.
     act_bind (tick_workspaces cd out now ids) (\<lambda>r.
       case r of
         None \<Rightarrow> act_return None
       | Some _ \<Rightarrow>
           act_bind (act_get hub_registrations) (\<lambda>registrations.
           act_bind (act_modify (\<lambda>s. s\<lparr>hub_registrations := []\<rparr>)) (\<lambda>_. act_return (Some registrations)))))"

section \<open>What a person decides\<close>

definition decide_approval ::
  "codec \<Rightarrow> workspace_id \<Rightarrow> routine_run_id \<Rightarrow> routine_step_id \<Rightarrow> routine_approval_decision \<Rightarrow> content option \<Rightarrow>
   timestamp \<Rightarrow> unit scheduled" where
  "decide_approval cd wid r sid decision note at =
     advance cd wid r (RT_RecordApproval sid
       \<lparr>ar_decision = decision, ar_decided_at = at, ar_note = note\<rparr>) at"

definition scheduler_resolve_interruption ::
  "codec \<Rightarrow> workspace_id \<Rightarrow> routine_run_id \<Rightarrow> routine_step_id \<Rightarrow> timestamp \<Rightarrow> unit scheduled" where
  "scheduler_resolve_interruption cd wid r sid at = advance cd wid r (RT_ResolveInterruption sid at) at"

definition dispatched_tasks :: "routine_run \<Rightarrow> (routine_step_id \<times> task_id) list" where
  "dispatched_tasks r =
     List.map_filter (\<lambda>s. map_option (\<lambda>a. (sr_step s, at_task a)) (active_or_last_attempt s))
       (filter (\<lambda>s. sr_state s = SS_Dispatched) (bm_values (run_steps r)))"

definition stop_step ::
  "codec \<Rightarrow> workspace_id \<Rightarrow> routine_run_id \<Rightarrow> timestamp \<Rightarrow> routine_step_id \<times> task_id \<Rightarrow> unit scheduled" where
  "stop_step cd wid r at = (\<lambda>(sid, t).
     act_bind (act_try (cancel_task cd wid t at)) (\<lambda>outcome.
     act_bind (case outcome of
         Inr _ \<Rightarrow> act_return ()
       | Inl (OE_InvalidMessage _) \<Rightarrow> act_return ()
       | Inl e \<Rightarrow> act_fail (SE_Orchestration e)) (\<lambda>_.
       advance cd wid r (RT_InterruptStep sid IR_ShutdownUnconfirmed at) at)))"

definition cancel_run :: "codec \<Rightarrow> workspace_id \<Rightarrow> routine_run_id \<Rightarrow> timestamp \<Rightarrow> unit scheduled" where
  "cancel_run cd wid r at =
     act_bind (advance cd wid r (RT_RequestCancellation at) at) (\<lambda>_.
     act_bind (decided (\<lambda>s. res_bind (scheduler_run s wid r) (\<lambda>x. Inr (dispatched_tasks x)))) (\<lambda>active.
     act_bind (act_each (stop_step cd wid r at) active) (\<lambda>_.
     act_bind (settle_runs cd wid at) (\<lambda>_. act_return ()))))"

section \<open>Recovery\<close>

definition dispatched_steps :: "hub \<Rightarrow> (workspace_id \<times> routine_run_id \<times> routine_step_id) list" where
  "dispatched_steps s =
     concat (map (\<lambda>w. concat (map (\<lambda>r.
         map (\<lambda>x. (w_id w, run_id r, sr_step x))
           (filter (\<lambda>x. sr_state x = SS_Dispatched) (bm_values (run_steps r))))
         (active_routine_runs w))) (recent_workspaces (hub_manager s)))"

definition live_dispatches :: "hub \<Rightarrow> routine_dispatch list" where
  "live_dispatches s =
     concat (map (\<lambda>w. concat (map (\<lambda>r.
         List.map_filter (\<lambda>x.
             Option.bind (active_or_last_attempt x) (\<lambda>a.
             Option.bind (bm_get (w_handoffs w) (at_handoff a)) (\<lambda>h.
               map_option (\<lambda>m. \<lparr>rd_workspace = w_id w, rd_run = run_id r, rd_step = sr_step x,
                 rd_handoff = at_handoff a, rd_message = m, rd_agent = at_agent a\<rparr>) (ho_message_id h))))
           (filter (\<lambda>x. step_state_holds_reservations (sr_state x)) (bm_values (run_steps r))))
         (active_routine_runs w))) (recent_workspaces (hub_manager s)))"

definition scheduler_recover :: "codec \<Rightarrow> timestamp \<Rightarrow> unit scheduled" where
  "scheduler_recover cd at =
     act_bind (act_get dispatched_steps) (\<lambda>interrupted.
     act_bind (act_each (\<lambda>(wid, r, sid).
         advance cd wid r (RT_InterruptStep sid IR_DispatchOutcomeUnknown at) at) interrupted) (\<lambda>_.
       act_modify (\<lambda>s. s\<lparr>hub_registrations := live_dispatches s\<rparr>)))"

end
