(* ===== verification/Scheduler_Tick.thy ===== *)
theory Scheduler_Tick
  imports Scheduler Orchestrator_History
begin

text \<open>
  What a tick of the scheduler keeps, and why it returns: every round of its loops moves a run, which
  lowers the work left in the workspace.
\<close>

section \<open>States between rounds\<close>

definition scheduler_ok :: "hub \<Rightarrow> bool" where
  "scheduler_ok s \<longleftrightarrow>
     (\<forall>wid w. manager_workspace (hub_manager s) wid = Some w \<longrightarrow>
        ws_inv w \<and> w_id w = wid \<and> wid \<in> set (mg_recent (hub_manager s)))"

definition holds_checkout :: "workspace \<Rightarrow> routine_checkout \<Rightarrow> bool" where
  "holds_checkout w c = bm_contains (held_routine_reservations w) (RV_Checkout c)"

definition checkouts_apart :: "hub \<Rightarrow> bool" where
  "checkouts_apart s \<longleftrightarrow>
     (\<forall>i j v w c. i \<noteq> j \<longrightarrow> manager_workspace (hub_manager s) i = Some v \<longrightarrow>
        manager_workspace (hub_manager s) j = Some w \<longrightarrow> holds_checkout v c \<longrightarrow> \<not> holds_checkout w c)"

definition calmer :: "workspace_id \<Rightarrow> hub \<Rightarrow> hub \<Rightarrow> bool" where
  "calmer wid s s' \<longleftrightarrow>
     (scheduler_ok s \<longrightarrow> scheduler_ok s' \<and> work_left wid s' \<le> work_left wid s \<and>
        (checkouts_apart s \<longrightarrow> checkouts_apart s'))"

interpretation calm: kept_relation "calmer wid" for wid
  by unfold_locales (auto simp: calmer_def)

lemma same_workspaces_calm:
  assumes "manager_workspace (hub_manager s') = manager_workspace (hub_manager s)"
    and "mg_recent (hub_manager s') = mg_recent (hub_manager s)"
  shows "calmer wid s s'"
  by (simp add: calmer_def scheduler_ok_def checkouts_apart_def work_left_def assms)

section \<open>The work left\<close>

lemma values_insert_old:
  assumes "bm_get m k = Some x"
  shows "mset (bm_values (bm_insert k y m)) + {#x#} = mset (bm_values m) + {#y#}"
proof -
  have "mset (map snd (al_insert k y es)) + {#x#} = mset (map snd es) + {#y#}"
    if "keys_sorted es" "(k, x) \<in> set es" for es
    using that by (induction k y es rule: al_insert.induct) force+
  from this [OF keys_sorted_entries] assms show ?thesis by (simp add: bm_get_Some_iff bm_values_def)
qed

lemma runs_cost_insert:
  assumes "bm_get runs k = Some x"
  shows "sum_list (map run_cost (bm_values (bm_insert k y runs))) + run_cost x =
    sum_list (map run_cost (bm_values runs)) + run_cost y"
proof -
  have "sum_list (map run_cost zs) = sum_mset (image_mset run_cost (mset zs))" for zs
    by (simp add: sum_mset_sum_list [symmetric] del: sum_mset_sum_list)
  with arg_cong [OF values_insert_old [OF assms, of y], of "\<lambda>z. sum_mset (image_mset run_cost z)"]
  show ?thesis by simp
qed

lemma work_left_moved:
  assumes "manager_workspace (hub_manager s) wid = Some w" and "manager_workspace (hub_manager s') wid = Some w'"
    and "bm_get (w_runs w) r = Some x" and "w_runs w' = bm_insert r x' (w_runs w)"
  shows "run_cost x' < run_cost x \<Longrightarrow> work_left wid s' < work_left wid s"
    and "x' = x \<Longrightarrow> work_left wid s' = work_left wid s"
  using runs_cost_insert [OF assms(3), of x'] assms by (auto simp: work_left_def)

section \<open>Held checkouts\<close>

lemma holds_checkout_iff:
  "ws_inv w \<Longrightarrow> holds_checkout w c \<longleftrightarrow> (\<exists>p. RV_Checkout c \<in> held_claims (w_runs w) p)"
  unfolding holds_checkout_def using held_routine_reservations_iff ws_invD(10) by blast

lemma apart_moved:
  assumes ok: "scheduler_ok s" and ok': "ws_inv w'" and apart: "checkouts_apart s"
    and w: "manager_workspace (hub_manager s) wid = Some w"
    and s': "manager_workspace (hub_manager s') = (manager_workspace (hub_manager s))(wid \<mapsto> w')"
    and kept: "\<And>c. holds_checkout w' c \<Longrightarrow> holds_checkout w c \<or>
      (\<forall>j v. j \<noteq> wid \<longrightarrow> manager_workspace (hub_manager s) j = Some v \<longrightarrow> \<not> holds_checkout v c)"
  shows "checkouts_apart s'"
  unfolding checkouts_apart_def
proof (intro allI impI notI)
  fix i j u v c
  assume ij: "i \<noteq> j" and u: "manager_workspace (hub_manager s') i = Some u"
    and v: "manager_workspace (hub_manager s') j = Some v" and c: "holds_checkout u c" "holds_checkout v c"
  have new: False if "a = wid" "a \<noteq> b" "manager_workspace (hub_manager s') a = Some x"
    "manager_workspace (hub_manager s') b = Some y" "holds_checkout x c" "holds_checkout y c" for a b x y
  proof -
    from that s' have x: "x = w'" and b: "b \<noteq> wid" "manager_workspace (hub_manager s) b = Some y" by auto
    have "\<not> holds_checkout w c"
      using apart w b that(6) unfolding checkouts_apart_def by (metis (no_types))
    with kept [of c] x b that(5,6) show False by (metis (no_types))
  qed
  show False
  proof (cases "i = wid \<or> j = wid")
    case True
    with new [of i j u v] new [of j i v u] ij u v c show False by blast
  next
    case False
    with u v s' have "manager_workspace (hub_manager s) i = Some u" "manager_workspace (hub_manager s) j = Some v"
      by auto
    with apart ij c show False unfolding checkouts_apart_def by blast
  qed
qed

section \<open>Commands of the scheduler\<close>

lemma record_command_cases:
  assumes "record_command cd wid c at s = (r, s')"
  shows "mg_recent (hub_manager s') = mg_recent (hub_manager s)"
    and "r = Inl e \<Longrightarrow> manager_workspace (hub_manager s') = manager_workspace (hub_manager s)"
    and "r = Inr u \<Longrightarrow> \<exists>w w' ev. manager_workspace (hub_manager s) wid = Some w \<and> execute w c = Inr (w', ev) \<and>
      manager_workspace (hub_manager s') = (manager_workspace (hub_manager s))(wid \<mapsto> w')"
proof -
  obtain q m' where q: "manager_execute cd wid c at (hub_manager s) = (q, m')" by fastforce
  with assms have r: "r = (case q of Inl e \<Rightarrow> Inl (SE_Workspace e) | Inr _ \<Rightarrow> Inr ())" and s': "s' = s\<lparr>hub_manager := m'\<rparr>"
    by (auto simp: record_command_def act_map_err_def act_zoom_def act_bind_def map_err_def split: sum.splits)
  note cases = manager_execute_recorded [OF q]
  show "mg_recent (hub_manager s') = mg_recent (hub_manager s)" using cases(1) s' by simp
  show "r = Inl e \<Longrightarrow> manager_workspace (hub_manager s') = manager_workspace (hub_manager s)"
    using cases(2) s' r by (auto split: sum.splits)
  show "r = Inr u \<Longrightarrow> \<exists>w w' ev. manager_workspace (hub_manager s) wid = Some w \<and> execute w c = Inr (w', ev) \<and>
      manager_workspace (hub_manager s') = (manager_workspace (hub_manager s))(wid \<mapsto> w')"
    using cases(3) s' r by (auto split: sum.splits)
qed

text \<open>Moving a run.\<close>

lemma advance_moves:
  assumes "advance cd wid r t at s = (Inr u, s')" and ok: "scheduler_ok s"
  shows "\<exists>w x x'. manager_workspace (hub_manager s) wid = Some w \<and> bm_get (w_runs w) r = Some x \<and>
    apply_transition t x = Inr x' \<and> calmer wid s s' \<and> (x' \<noteq> x \<longrightarrow> work_left wid s' < work_left wid s)"
proof -
  note cases = record_command_cases [OF assms(1) [unfolded advance_def]]
  from cases(3) [OF refl] obtain w w' ev where w: "manager_workspace (hub_manager s) wid = Some w"
    and exec: "execute w (DC_AdvanceRoutineRun r t) = Inr (w', ev)"
    and s': "manager_workspace (hub_manager s') = (manager_workspace (hub_manager s))(wid \<mapsto> w')" by blast
  from exec have event: "ev = EV_RoutineRunAdvanced r t" "apply_event w ev = Inr w'"
    by (auto simp: execute_def decide_def result_iff)
  then obtain x x' where x: "bm_get (w_runs w) r = Some x" "apply_transition t x = Inr x'"
    and w': "w' = w\<lparr>w_runs := bm_insert r x' (w_runs w)\<rparr>"
    by (auto simp: apply_event_def apply_run_advanced_def result_iff)
  have inv: "ws_inv w" "w_id w = wid" using ok w by (auto simp: scheduler_ok_def)
  have inv': "ws_inv w'" by (rule apply_event_inv [OF inv(1) _ event(2)]) (simp add: event(1) admissible_def)
  have ok': "scheduler_ok s'" using ok w inv inv' cases(1) s' by (auto simp: scheduler_ok_def w' split: if_splits)
  have work: "run_cost x' < run_cost x \<Longrightarrow> work_left wid s' < work_left wid s" "x' = x \<Longrightarrow> work_left wid s' = work_left wid s"
    using work_left_moved [OF w _ x(1)] s' w' by auto
  have cost: "x' = x \<or> run_cost x' < run_cost x" by (rule apply_transition_cost [OF x(2)])
  have "step_claims x' k \<subseteq> step_claims x k" for k
    using apply_transition_shrinks [OF x(2)] by (simp add: shrinks_def)
  then have "held_claims (bm_insert r x' (w_runs w)) p \<subseteq> held_claims (w_runs w) p" for p
    using x(1) by (auto simp: held_claims_insert held_claims_def)
  then have kept: "holds_checkout w' c \<Longrightarrow> holds_checkout w c" for c
    using holds_checkout_iff [OF inv(1), of c] holds_checkout_iff [OF inv', of c] by (fastforce simp: w')
  have "checkouts_apart s \<Longrightarrow> checkouts_apart s'"
    by (rule apart_moved [OF ok inv' _ w s']) (use kept in blast)+
  with ok' work cost w x show ?thesis by (auto simp: calmer_def)
qed

lemma failed_advance_calm:
  assumes "advance cd wid r t at s = (Inl e, s')"
  shows "calmer i s s'"
  using record_command_cases(1,2) [OF assms [unfolded advance_def]] by (intro same_workspaces_calm) simp_all

lemma advance_calm: "keeps (calmer wid) (advance cd wid r t at)"
  unfolding keeps_def
proof
  fix s
  obtain q s' where run: "advance cd wid r t at s = (q, s')" by fastforce
  show "calmer wid s (snd (advance cd wid r t at s))"
  proof (cases "q = Inr () \<and> scheduler_ok s")
    case True
    with run advance_moves [of cd wid r t at s "()" s'] show ?thesis by auto
  next
    case False
    with run failed_advance_calm [of cd wid r t at s _ s' wid] show ?thesis by (cases q) (auto simp: calmer_def)
  qed
qed

section \<open>Planning\<close>

lemma first_some_found: "first_some f xs = Inr (Some b) \<Longrightarrow> \<exists>x\<in>set xs. f x = Inr (Some b)"
  by (induction xs) (auto simp: result_iff split: option.splits)

lemma build_dispatch_fields:
  "build_dispatch w now tid hid aid r st s a checkout = Inr d \<Longrightarrow>
     pl_run d = run_id r \<and> at_outcome (pl_attempt d) = None \<and> at_checkout (pl_attempt d) = checkout \<and>
     handoff_wf (pl_handoff d)"
  using handoff_tracked_wf
  by (fastforce simp: build_dispatch_def result_iff Let_def routine_attempt_new_def split: if_splits)

lemma plan_step_cases:
  "plan_step out w held now tid hid aid r sid = Inr (Some (PL_Dispatch d)) \<Longrightarrow>
     pl_run d = run_id r \<and> at_outcome (pl_attempt d) = None \<and> handoff_wf (pl_handoff d) \<and>
     \<not> bm_contains held (RV_Checkout (at_checkout (pl_attempt d)))"
  "plan_step out w held now tid hid aid r sid = Inr (Some (PL_Fail i k reason)) \<Longrightarrow> i = run_id r \<and> k = sid"
  by (auto simp: plan_step_def result_iff Let_def required_claims_def dest!: build_dispatch_fields split: if_splits)

lemma next_dispatch_found:
  assumes "next_dispatch out s wid now = Inr (Some plan)"
  shows "\<exists>w held tid hid aid r sid. manager_workspace (hub_manager s) wid = Some w \<and>
    scheduler_held s wid = Inr held \<and> r \<in> set (bm_values (w_runs w)) \<and> sid \<in> set (ready_steps r) \<and>
    plan_step out w held now tid hid aid r sid = Inr (Some plan)"
  using assms
  by (fastforce simp: next_dispatch_def result_iff scheduler_workspace_def active_routine_runs_def
      dest!: first_some_found)

lemma held_elsewhere:
  "bm_contains (fold (\<lambda>other held.
       if w_id other = wid then held
       else fold bs_insert (filter is_checkout_claim (bm_keys (held_routine_reservations other))) held) ws held) x \<longleftrightarrow>
     bm_contains held x \<or>
     (\<exists>v\<in>set ws. w_id v \<noteq> wid \<and> is_checkout_claim x \<and> bm_contains (held_routine_reservations v) x)"
proof (induction ws arbitrary: held)
  case (Cons v ws)
  have "bm_contains (fold bs_insert xs h) y \<longleftrightarrow> y \<in> set xs \<or> bm_contains h y" for xs h and y :: routine_reservation
    by (induction xs arbitrary: h) auto
  with Cons show ?case by (auto simp: bs_elems_def)
qed simp

lemma scheduler_held_covers:
  assumes "scheduler_held s wid = Inr held" and "scheduler_ok s"
    and "manager_workspace (hub_manager s) j = Some v" and "j \<noteq> wid" and "holds_checkout v c"
  shows "bm_contains held (RV_Checkout c)"
proof -
  have "w_id v = j" "j \<in> set (mg_recent (hub_manager s))" using assms(2,3) by (auto simp: scheduler_ok_def)
  then have "v \<in> set (recent_workspaces (hub_manager s))" using assms(3)
    by (auto simp: recent_workspaces_def List.map_filter_def image_iff)
  with assms(1,4,5) \<open>w_id v = j\<close> show ?thesis
    by (auto simp: scheduler_held_def result_iff held_elsewhere holds_checkout_def is_checkout_claim_def)
qed

section \<open>Dispatching\<close>

lemma submit_manager: "hub_manager (snd (submit_routine_handoff wid hid now s)) = hub_manager s"
  by (auto simp: submit_routine_handoff_def get_handoff_def find_workspace_def act_bind_def ok_or_def enqueue_manager
      split: option.split sum.split)

lemma carry_out_manager:
  assumes "record_command cd wid (DC_DispatchRoutineStep (pl_run d) (pl_step d) (pl_attempt d)
    (pl_task d) (pl_handoff d)) now s = (r, t)"
  shows "hub_manager (snd (carry_out_dispatch cd wid d now s)) = hub_manager t"
    and "fst (carry_out_dispatch cd wid d now s) = Inr u \<Longrightarrow> r = Inr ()"
  using submit_manager [of wid "pl_handoff_id d" now t] assms
  by (auto simp: carry_out_dispatch_def act_bind_def act_map_err_def map_err_def split: sum.splits prod.splits)

lemma dispatch_moves:
  assumes ok: "scheduler_ok s" and plan: "next_dispatch out s wid now = Inr (Some (PL_Dispatch d))"
    and run: "carry_out_dispatch cd wid d now s = (q, s')"
  shows "calmer wid s s' \<and> (\<forall>u. q = Inr u \<longrightarrow> work_left wid s' < work_left wid s)"
proof -
  obtain r t where rec: "record_command cd wid (DC_DispatchRoutineStep (pl_run d) (pl_step d) (pl_attempt d)
    (pl_task d) (pl_handoff d)) now s = (r, t)" by fastforce
  note cases = record_command_cases [OF rec]
  have m: "hub_manager s' = hub_manager t" and q: "\<And>u. q = Inr u \<Longrightarrow> r = Inr ()"
    using carry_out_manager [OF rec] run by auto
  show ?thesis
  proof (cases r)
    case (Inl e)
    with cases(1,2) m q show ?thesis by (auto intro!: same_workspaces_calm)
  next
    case (Inr u)
    with cases(3) obtain w w' ev where w: "manager_workspace (hub_manager s) wid = Some w"
      and exec: "execute w (DC_DispatchRoutineStep (pl_run d) (pl_step d) (pl_attempt d) (pl_task d) (pl_handoff d)) = Inr (w', ev)"
      and t: "manager_workspace (hub_manager t) = (manager_workspace (hub_manager s))(wid \<mapsto> w')" by blast
    let ?a = "pl_attempt d"
    from next_dispatch_found [OF plan] obtain v held tid hid aid x sid where
      held: "scheduler_held s wid = Inr held" and step: "plan_step out v held now tid hid aid x sid = Inr (Some (PL_Dispatch d))"
      by blast
    from plan_step_cases(1) [OF step] have fresh: "at_outcome ?a = None" "handoff_wf (pl_handoff d)"
      and free: "\<not> bm_contains held (RV_Checkout (at_checkout ?a))" by simp_all
    have event: "ev = EV_RoutineStepDispatched (pl_run d) (pl_step d) ?a (pl_task d) (pl_handoff d)"
      "apply_event w ev = Inr w'"
      using exec by (auto simp: execute_def decide_def result_iff)
    then obtain y y' where y: "bm_get (w_runs w) (pl_run d) = Some y" "dispatch (pl_step d) ?a y = Inr y'"
      and w': "w' = insert_handoff (pl_handoff d) (insert_task (pl_task d) (w\<lparr>w_runs := bm_insert (pl_run d) y' (w_runs w)\<rparr>))"
      by (auto simp: apply_event_def apply_step_dispatched_def result_iff)
    have fields: "w_id w' = w_id w" "w_runs w' = bm_insert (pl_run d) y' (w_runs w)"
      by (simp_all add: w' insert_handoff_def insert_task_def)
    have inv: "ws_inv w" "w_id w = wid" using ok w by (auto simp: scheduler_ok_def)
    have inv': "ws_inv w'" using fresh by (intro apply_event_inv [OF inv(1) _ event(2)]) (simp add: event(1) admissible_def)
    have ok': "scheduler_ok t" using ok w inv inv' cases(1) t fields by (auto simp: scheduler_ok_def split: if_splits)
    have work: "work_left wid t < work_left wid s"
      using work_left_moved(1) [OF w _ y(1)] t fields(2) dispatch_cost [OF y(2)] by auto
    have kept: "holds_checkout w c \<or>
        (\<forall>j u. j \<noteq> wid \<longrightarrow> manager_workspace (hub_manager s) j = Some u \<longrightarrow> \<not> holds_checkout u c)"
      if "holds_checkout w' c" for c
    proof (cases "c = at_checkout ?a")
      case True
      with scheduler_held_covers [OF held ok] free show ?thesis by blast
    next
      case False
      from that obtain p where p: "RV_Checkout c \<in> held_claims (w_runs w') p"
        using holds_checkout_iff [OF inv'] by blast
      have "RV_Checkout c \<in> held_claims (w_runs w) p"
        using p False y(1) dispatch_claims [OF y(2)]
        by (auto simp: fields(2) held_claims_insert held_claims_def attempt_reservations_def split: if_splits)
      then show ?thesis using holds_checkout_iff [OF inv(1)] by blast
    qed
    have "checkouts_apart s \<Longrightarrow> checkouts_apart t"
      by (rule apart_moved [OF ok inv' _ w t]) (use kept in blast)+
    then have "calmer wid s t" using ok' work by (simp add: calmer_def)
    moreover have "calmer wid t s'" using m by (intro same_workspaces_calm) simp_all
    moreover have "work_left wid s' = work_left wid t" using m by (simp add: work_left_def)
    ultimately show ?thesis using work calm.kept_trans by metis
  qed
qed

section \<open>Rounds\<close>

text \<open>What is observed or planned moves the run: none of it is a cancellation that changes nothing.\<close>

lemma observed_not_cancel:
  assumes "next_observation w now = Inr (Some (r, t))"
  shows "\<not> cancels t"
  using assms
  by (auto simp: next_observation_def observe_step_def observed_response_def result_iff Let_def
      dest!: first_some_found split: option.splits handoff_response_status.splits if_splits)

lemma observe_round_moves:
  assumes "observe_round cd wid now b s = (Inr (Inl b'), s')" and "scheduler_ok s"
  shows "scheduler_ok s' \<and> work_left wid s' < work_left wid s"
proof -
  from assms(1) obtain w r t where "next_observation w now = Inr (Some (r, t))"
    and run: "advance cd wid r t now s = (Inr (), s')"
    by (auto simp: observe_round_def decided_def result_iff split: option.splits)
  then have "\<not> cancels t" by (intro observed_not_cancel)
  with advance_moves [OF run assms(2)] apply_transition_lowers show ?thesis
    using assms(2) unfolding calmer_def by (metis less_irrefl)
qed

lemma observe_calm: "keeps (calmer wid) (observe_finished_steps cd wid now)"
proof -
  have "keeps (calmer wid) (observe_round cd wid now b)" for b
    unfolding observe_round_def decided_def
    by (auto intro!: calm.keeps_bind calm.keeps_pure advance_calm split: option.split)
  then show ?thesis
    unfolding observe_finished_steps_def by (intro calm.keeps_bind [OF calm.keeps_pure(4)] calm.keeps_loop)
qed

lemma planned_fail_lowers:
  assumes "ws_inv w" and "r \<in> set (bm_values (w_runs w))" and "sid \<in> set (ready_steps r)"
    and "bm_get (w_runs w) (run_id r) = Some x" and "apply_transition (RT_CancelStep sid reason at) x = Inr x'"
  shows "run_cost x' < run_cost x"
proof -
  have runs: "run_map.keyed (w_runs w)" and wf: "run_wf r"
    using ws_invD(10) [OF assms(1)] assms(2) by (auto simp: runs_ok_def set_bm_values)
  have x: "x = r" using run_map.keyed_vals [OF runs assms(2)] assms(4) by simp
  from assms(3) obtain s where s: "s \<in> set (bm_values (run_steps r))" "sr_step s = sid" "sr_state s = SS_Pending"
    by (auto simp: ready_steps_def)
  then obtain k where k: "bm_get (run_steps r) k = Some s" by (auto simp: set_bm_values)
  moreover have "k = sid" using wf s(2) steps_pre_keyed [OF _ k] by (auto simp: run_wf_def)
  ultimately show ?thesis
    using assms(5) s(3) unfolding x by (intro cancel_step_lowers) (auto simp: apply_transition_def)
qed

text \<open>What a round of dispatching leaves; \<open>b\<close> and \<open>b'\<close> say whether anything went out before and after.\<close>

lemma dispatch_round_moves:
  assumes round: "dispatch_round cd out wid now b s = (Inr (Inl b'), s')" and ok: "scheduler_ok s"
  shows "scheduler_ok s' \<and> work_left wid s' < work_left wid s"
proof -
  from round obtain plan where plan: "next_dispatch out s wid now = Inr (Some plan)"
    by (auto simp: dispatch_round_def decided_def result_iff split: option.splits)
  have calm: "calmer wid s s' \<Longrightarrow> scheduler_ok s'" using ok by (simp add: calmer_def)
  show ?thesis
  proof (cases plan)
    case (PL_AwaitApproval r sid)
    with round plan have "advance cd wid r (RT_AwaitApproval sid) now s = (Inr (), s')"
      by (auto simp: dispatch_round_def decided_def result_iff)
    from advance_moves [OF this ok] obtain x x' where x: "apply_transition (RT_AwaitApproval sid) x = Inr x'"
      "calmer wid s s'" "x' \<noteq> x \<longrightarrow> work_left wid s' < work_left wid s" by blast
    then have "x' \<noteq> x" using apply_transition_lowers [OF x(1)] by auto
    with x calm show ?thesis by blast
  next
    case (PL_Fail r sid reason)
    with round plan have "advance cd wid r (RT_CancelStep sid (Some reason) now) now s = (Inr (), s')"
      by (auto simp: dispatch_round_def decided_def result_iff)
    from advance_moves [OF this ok] obtain w x x' where w: "manager_workspace (hub_manager s) wid = Some w"
      and x: "bm_get (w_runs w) r = Some x" "apply_transition (RT_CancelStep sid (Some reason) now) x = Inr x'"
        "calmer wid s s'" "x' \<noteq> x \<longrightarrow> work_left wid s' < work_left wid s" by blast
    from next_dispatch_found [OF plan [unfolded PL_Fail]] w obtain held tid hid aid y k where
      y: "y \<in> set (bm_values (w_runs w))" "k \<in> set (ready_steps y)"
      and step: "plan_step out w held now tid hid aid y k = Inr (Some (PL_Fail r sid reason))" by auto
    from plan_step_cases(2) [OF step] have "r = run_id y" "sid = k" by simp_all
    moreover have "ws_inv w" using ok w by (auto simp: scheduler_ok_def)
    ultimately have "x' \<noteq> x" using planned_fail_lowers [OF _ y, of x _ now x'] x by auto
    with x calm show ?thesis by blast
  next
    case (PL_Dispatch d)
    with round plan have "carry_out_dispatch cd wid d now s = (Inr (), s')"
      by (auto simp: dispatch_round_def decided_def result_iff)
    from dispatch_moves [OF ok plan [unfolded PL_Dispatch] this] calm show ?thesis by blast
  qed
qed

lemma dispatch_calm: "keeps (calmer wid) (dispatch_round cd out wid now b)"
  unfolding keeps_def
proof
  fix s
  show "calmer wid s (snd (dispatch_round cd out wid now b s))"
  proof (cases "\<exists>d. next_dispatch out s wid now = Inr (Some (PL_Dispatch d)) \<and> scheduler_ok s")
    case True
    then obtain d where plan: "next_dispatch out s wid now = Inr (Some (PL_Dispatch d))" and ok: "scheduler_ok s" by blast
    obtain q t where run: "carry_out_dispatch cd wid d now s = (q, t)" by fastforce
    with plan have "snd (dispatch_round cd out wid now b s) = t"
      by (cases q) (simp_all add: dispatch_round_def decided_def act_bind_def)
    with dispatch_moves [OF ok plan run] show ?thesis by simp
  next
    case False
    show ?thesis
    proof (cases "scheduler_ok s")
      case ok: True
      have "keeps (calmer wid) (case plan of None \<Rightarrow> act_return (Inr b)
         | Some (PL_AwaitApproval r sid) \<Rightarrow>
             act_bind (advance cd wid r (RT_AwaitApproval sid) now) (\<lambda>_. act_return (Inl b))
         | Some (PL_Fail r sid reason) \<Rightarrow>
             act_bind (advance cd wid r (RT_CancelStep sid (Some reason) now) now) (\<lambda>_. act_return (Inl b))
         | Some (PL_Dispatch d) \<Rightarrow> act_bind (carry_out_dispatch cd wid d now) (\<lambda>_. act_return (Inl True)))"
        if "\<And>d. plan \<noteq> Some (PL_Dispatch d)" for plan
        using that by (auto intro!: calm.keeps_bind calm.keeps_pure advance_calm split: option.split dispatch_plan.split)
      with False ok show ?thesis
        by (cases "next_dispatch out s wid now")
          (auto simp: dispatch_round_def decided_def act_bind_def keeps_def calm.kept_refl split: prod.splits sum.splits)
    qed (simp add: calmer_def)
  qed
qed

section \<open>Loops\<close>

interpretation observing: measured_loop "observe_round cd wid now" "work_left wid" scheduler_ok for cd wid now
  by unfold_locales (rule observe_round_moves)

interpretation dispatching: measured_loop "dispatch_round cd out wid now" "work_left wid" scheduler_ok
  for cd out wid now
  by unfold_locales (rule dispatch_round_moves)

lemma observe_leaves:
  assumes "scheduler_ok s"
  shows "fst (observe_finished_steps cd wid now s) \<noteq> Inr None"
proof
  assume "fst (observe_finished_steps cd wid now s) = Inr None"
  then have "act_loop (Suc (work_left wid s)) (observe_round cd wid now) () s =
      (Inr None, snd (observe_finished_steps cd wid now s))"
    by (simp add: observe_finished_steps_def prod_eq_iff del: act_loop.simps)
  moreover have "work_left wid s < Suc (work_left wid s)" by (rule lessI)
  ultimately show False using observing.loop_leaves [OF assms] by blast
qed

lemma dispatch_leaves:
  assumes "scheduler_ok s"
  shows "fst (dispatch_ready_steps cd out wid now s) \<noteq> Inr None"
proof
  assume "fst (dispatch_ready_steps cd out wid now s) = Inr None"
  then have "act_loop (Suc (work_left wid s)) (dispatch_round cd out wid now) False s =
      (Inr None, snd (dispatch_ready_steps cd out wid now s))"
    by (simp add: dispatch_ready_steps_def prod_eq_iff del: act_loop.simps)
  moreover have "work_left wid s < Suc (work_left wid s)" by (rule lessI)
  ultimately show False using dispatching.loop_leaves [OF assms] by blast
qed

lemma dispatch_ready_calm: "keeps (calmer wid) (dispatch_ready_steps cd out wid now)"
  unfolding dispatch_ready_steps_def
  by (intro calm.keeps_bind [OF calm.keeps_pure(4)] calm.keeps_loop dispatch_calm)

lemma dispatch_round_left:
  assumes "dispatch_round cd out wid now b s = (Inr (Inr b'), s')"
  shows "b' = b \<and> s' = s"
proof (cases "next_dispatch out s wid now")
  case (Inr found)
  show ?thesis
  proof (cases found)
    case (Some plan)
    with assms Inr show ?thesis by (cases plan) (auto simp: dispatch_round_def decided_def result_iff)
  qed (use assms Inr in \<open>simp add: dispatch_round_def decided_def act_bind_def\<close>)
qed (use assms in \<open>simp add: dispatch_round_def decided_def act_bind_def\<close>)

lemma dispatch_ready_lowers:
  assumes "dispatch_ready_steps cd out wid now s = (Inr (Some True), s')" and ok: "scheduler_ok s"
  shows "work_left wid s' < work_left wid s"
proof -
  define P where "P b t \<longleftrightarrow> scheduler_ok t \<and> work_left wid t \<le> work_left wid s \<and>
    (b \<longrightarrow> work_left wid t < work_left wid s)" for b t
  have run: "act_loop (Suc (work_left wid s)) (dispatch_round cd out wid now) False s = (Inr (Some True), s')"
    using assms(1) by (simp add: dispatch_ready_steps_def del: act_loop.simps)
  have start: "P False s" using ok by (simp add: P_def)
  have step: "P b' u" if "P b t" "dispatch_round cd out wid now b t = (Inr (Inl b'), u)" for b t b' u
  proof -
    have t: "scheduler_ok t" "work_left wid t \<le> work_left wid s" using that(1) by (simp_all add: P_def)
    from dispatch_round_moves [OF that(2) t(1)] t(2) show ?thesis by (simp add: P_def)
  qed
  from loop_last [where P = P, OF run start] step obtain b t where P: "P b t"
    and last: "dispatch_round cd out wid now b t = (Inr (Inr True), s')" by blast
  from dispatch_round_left [OF last] have "b" "s' = t" by simp_all
  with P show ?thesis by (simp add: P_def)
qed

lemma settle_calm: "keeps (calmer wid) (settle_runs cd wid now)"
  unfolding settle_runs_def decided_def
  by (auto intro!: calm.keeps_bind calm.keeps_pure calm.keeps_each advance_calm)

lemma settle_lowers:
  assumes "settle_runs cd wid now s = (Inr True, s')" and ok: "scheduler_ok s"
  shows "work_left wid s' < work_left wid s"
proof -
  from assms(1) obtain r rs where run: "act_each (\<lambda>r. advance cd wid r (RT_Settle now) now) (r # rs) s = (Inr (), s')"
    by (auto simp: settle_runs_def decided_def result_iff neq_Nil_conv)
  then obtain t where first: "advance cd wid r (RT_Settle now) now s = (Inr (), t)"
    and rest: "act_each (\<lambda>r. advance cd wid r (RT_Settle now) now) rs t = (Inr (), s')"
    by (auto simp: result_iff)
  have "keeps (calmer wid) (act_each (\<lambda>r. advance cd wid r (RT_Settle now) now) rs)"
    by (intro calm.keeps_each advance_calm)
  from keepsD [OF this rest] have "calmer wid t s'" .
  moreover from advance_moves [OF first ok] obtain x x' where "apply_transition (RT_Settle now) x = Inr x'"
    "calmer wid s t" "x' \<noteq> x \<longrightarrow> work_left wid t < work_left wid s" by blast
  moreover from this(1) have "x' \<noteq> x" using apply_transition_lowers by fastforce
  ultimately show ?thesis using ok by (auto simp: calmer_def)
qed

lemma tick_round_calm: "keeps (calmer wid) (tick_round cd out wid now b)"
  unfolding tick_round_def
  by (intro calm.keeps_bind observe_calm dispatch_ready_calm settle_calm calm.keeps_pure)

lemma tick_round_moves:
  assumes round: "tick_round cd out wid now b s = (Inr r, s')" and ok: "scheduler_ok s"
  shows "scheduler_ok s'" and "r = Inl b' \<Longrightarrow> work_left wid s' < work_left wid s" and "r \<noteq> Inr None"
proof -
  from round obtain o1 d1 e1 t u where observe: "observe_finished_steps cd wid now s = (Inr o1, t)"
    and dispatch: "dispatch_ready_steps cd out wid now t = (Inr d1, u)"
    and settle: "settle_runs cd wid now u = (Inr e1, s')"
    and r: "r = (case (o1, d1) of
            (Some _, Some dispatched) \<Rightarrow> if \<not> dispatched \<and> \<not> e1 then Inr (Some ()) else Inl ()
          | _ \<Rightarrow> Inr None)"
    by (auto simp: tick_round_def result_iff)
  have t: "scheduler_ok t" "work_left wid t \<le> work_left wid s"
    using keepsD [OF observe_calm observe] ok by (simp_all add: calmer_def)
  have u: "scheduler_ok u" "work_left wid u \<le> work_left wid t"
    using keepsD [OF dispatch_ready_calm dispatch] t by (simp_all add: calmer_def)
  have s': "scheduler_ok s'" "work_left wid s' \<le> work_left wid u"
    using keepsD [OF settle_calm settle] u by (simp_all add: calmer_def)
  show "scheduler_ok s'" by (rule s')
  have "o1 \<noteq> None" "d1 \<noteq> None"
    using observe_leaves [OF ok, of cd wid now] dispatch_leaves [OF t(1), of cd out wid now] observe dispatch by auto
  then show "r \<noteq> Inr None" by (auto simp: r split: if_splits)
  show "work_left wid s' < work_left wid s" if "r = Inl b'"
  proof -
    from that r have "d1 = Some True \<or> e1" by (auto split: option.splits if_splits)
    then show ?thesis
      using dispatch_ready_lowers [of cd out wid now t u] settle_lowers [of cd wid now u s'] dispatch settle t u s'
      by fastforce
  qed
qed

interpretation ticking: measured_loop "tick_round cd out wid now" "work_left wid" scheduler_ok for cd out wid now
  using tick_round_moves(1,2) by unfold_locales blast

lemma tick_workspace_leaves:
  assumes ok: "scheduler_ok s"
  shows "fst (tick_workspace cd out now wid s) \<noteq> Inr None"
proof
  assume "fst (tick_workspace cd out now wid s) = Inr None"
  then obtain r s' where run: "act_loop (Suc (work_left wid s)) (tick_round cd out wid now) () s = (Inr r, s')"
    and r: "Option.bind r id = None"
    by (auto simp: tick_workspace_def act_bind_def simp del: act_loop.simps split: prod.splits sum.splits)
  have "r \<noteq> None"
  proof
    assume "r = None"
    with run have "act_loop (Suc (work_left wid s)) (tick_round cd out wid now) () s = (Inr None, s')" by simp
    moreover have "work_left wid s < Suc (work_left wid s)" by (rule lessI)
    ultimately show False using ticking.loop_leaves [OF ok] by blast
  qed
  with r obtain q where q: "r = Some q" "q = None" by (cases r) auto
  from loop_last [where P = "\<lambda>_. scheduler_ok", OF run [unfolded q(1)] ok] tick_round_moves(1)
  obtain b t where "scheduler_ok t" "tick_round cd out wid now b t = (Inr (Inr q), s')" by blast
  with tick_round_moves(3) q(2) show False by blast
qed

section \<open>The whole tick\<close>

definition calm_tick :: "hub \<Rightarrow> hub \<Rightarrow> bool" where
  "calm_tick s s' \<longleftrightarrow> (scheduler_ok s \<longrightarrow> scheduler_ok s' \<and> (checkouts_apart s \<longrightarrow> checkouts_apart s'))"

interpretation whole_ticks: kept_relation calm_tick
  by unfold_locales (auto simp: calm_tick_def)

lemma tick_workspace_calm: "keeps calm_tick (tick_workspace cd out now wid)"
proof -
  have "keeps (calmer wid) (tick_workspace cd out now wid)"
    unfolding tick_workspace_def
    by (intro calm.keeps_bind calm.keeps_pure calm.keeps_loop tick_round_calm)
  then show ?thesis by (auto simp: keeps_def calm_tick_def calmer_def)
qed

lemma tick_workspaces_calm: "keeps calm_tick (tick_workspaces cd out now ids)"
proof (induction ids)
  case Nil show ?case unfolding tick_workspaces.simps by (rule whole_ticks.keeps_pure)
next
  case (Cons wid ids)
  have "keeps calm_tick (case r of None \<Rightarrow> act_return None | Some u \<Rightarrow> tick_workspaces cd out now ids)" for r
    using Cons.IH whole_ticks.keeps_pure(1) by (cases r) simp_all
  then show ?case unfolding tick_workspaces.simps by (intro whole_ticks.keeps_bind tick_workspace_calm)
qed

lemma tick_workspaces_leave: "scheduler_ok s \<Longrightarrow> fst (tick_workspaces cd out now ids s) \<noteq> Inr None"
proof (induction ids arbitrary: s)
  case (Cons wid ids)
  obtain r t where run: "tick_workspace cd out now wid s = (r, t)" by fastforce
  with tick_workspace_leaves [OF Cons.prems, of cd out now wid] have "r \<noteq> Inr None" by auto
  moreover have "scheduler_ok t"
    using keepsD [OF tick_workspace_calm run] Cons.prems by (simp add: calm_tick_def)
  ultimately show ?case using Cons.IH [of t] run by (cases r) (auto simp: act_bind_def split: option.split)
qed simp

lemma tick_calm: "keeps calm_tick (tick cd out now)"
proof -
  have clear: "keeps calm_tick (act_modify (\<lambda>s. s\<lparr>hub_registrations := []\<rparr>))"
    by (rule whole_ticks.keeps_modify) (simp add: calm_tick_def scheduler_ok_def checkouts_apart_def)
  show ?thesis
    unfolding tick_def
    by (auto intro!: whole_ticks.keeps_bind whole_ticks.keeps_pure tick_workspaces_calm clear split: option.split)
qed

lemma tick_leaves: "scheduler_ok s \<Longrightarrow> fst (tick cd out now s) \<noteq> Inr None"
  using tick_workspaces_leave [of s cd out now "map w_id (recent_workspaces (hub_manager s))"]
  by (auto simp: tick_def act_bind_def split: prod.splits sum.splits option.splits)

end
