(* ===== verification/Scheduler_Properties.thy ===== *)
theory Scheduler_Properties
  imports Scheduler_Tick Orchestrator_Sample
begin

text \<open>What a tick of the routine scheduler promises, at a manager that holds a workspace with a running step.\<close>

text \<open>C7: A tick of the scheduler always returns. Observing, dispatching and settling go round for as long as
  anything moves, and retries put failed steps back; but every move lowers what the runs may still do.\<close>

theorem tick_returns:
  assumes "scheduler_ok s"
  shows "fst (tick cd out now s) \<noteq> Inr None"
  using tick_leaves [OF assms] .

text \<open>C6: Two workspaces never work in the same checkout: when no checkout is held by the runs of two open
  workspaces, none is after a tick, whatever the tick dispatches and wherever it fails.\<close>

theorem tick_keeps_checkouts_apart:
  assumes "scheduler_ok s" and "checkouts_apart s"
  shows "checkouts_apart (snd (tick cd out now s))"
proof -
  obtain r s' where run: "tick cd out now s = (r, s')" by fastforce
  from keepsD [OF tick_calm run] assms show ?thesis by (simp add: calm_tick_def run)
qed

section \<open>What is observed\<close>

lemma finish_open_attempt:
  assumes "open_attempt (sr_attempts s)"
  shows "(\<exists>s'. finish_attempt outcome at s = Inr s') \<or>
    (\<exists>k. finish_attempt outcome at s = Inl (RE_InvalidAttemptTime k))"
  using assms by (auto simp: finish_attempt_def attempt_finish_def open_attempt_def)

lemma dispatched_step:
  assumes "run_wf r" and "bm_get (run_steps r) k = Some s" and "sr_state s = SS_Dispatched"
  shows "\<exists>st. pinned_step r k = Inr st \<and> version_step (pin_version (run_pin r)) k = Some st" and
    "open_attempt (sr_attempts s)" and "sr_step s = k"
proof -
  have "steps_pre (pin_version (run_pin r)) (run_steps r)" using assms(1) by (simp add: run_wf_def)
  from steps_preD(2) [OF this assms(2)] obtain st where
    st: "version_step (pin_version (run_pin r)) k = Some st" "step_run_ok k st s" by blast
  from st(1) have "pinned_step r k = Inr st" by (simp add: pinned_step_def)
  with st(1) show "\<exists>st. pinned_step r k = Inr st \<and> version_step (pin_version (run_pin r)) k = Some st" by blast
  from st(2) assms(3) show "open_attempt (sr_attempts s)" "sr_step s = k" by (simp_all add: step_run_ok_def)
qed

definition refused_for_time :: "routine_transition \<Rightarrow> routine_run \<Rightarrow> bool" where
  "refused_for_time t r = (case apply_transition t r of Inl (RE_InvalidAttemptTime _) \<Rightarrow> True | _ \<Rightarrow> False)"

lemma finished_or_refused:
  assumes "bm_get (run_steps r) k = Some s" and "open_attempt (sr_attempts s)" and "sr_state s = SS_Dispatched"
    and "pinned_step r k = Inr st"
  shows "(\<exists>x. apply_transition (RT_FailStep k reason at) r = Inr x) \<or> refused_for_time (RT_FailStep k reason at) r"
    and "\<forall>y\<in>set (bm_keys outputs). bm_contains (st_outputs st) y \<Longrightarrow>
      \<forall>y\<in>set (bm_keys (st_outputs st)). bm_contains outputs y \<Longrightarrow>
      (\<exists>x. apply_transition (RT_CompleteStep k outputs at) r = Inr x) \<or>
      refused_for_time (RT_CompleteStep k outputs at) r"
    and "\<exists>x. apply_transition (RT_InterruptStep k why at) r = Inr x"
proof -
  have step: "step_mut r k = Inr s" using assms(1) by (simp add: step_mut_def)
  show "(\<exists>x. apply_transition (RT_FailStep k reason at) r = Inr x) \<or> refused_for_time (RT_FailStep k reason at) r"
    using finish_open_attempt [OF assms(2), of AO_Failed at]
    by (auto simp: refused_for_time_def apply_transition_def fail_step_def step assms(3,4) Let_def)
  show "\<exists>x. apply_transition (RT_InterruptStep k why at) r = Inr x"
    by (simp add: apply_transition_def interrupt_step_def step assms(3) expect_state_def ensure_def)
  assume outputs: "\<forall>y\<in>set (bm_keys outputs). bm_contains (st_outputs st) y"
    "\<forall>y\<in>set (bm_keys (st_outputs st)). bm_contains outputs y"
  then have "List.find (\<lambda>k. \<not> bm_contains (st_outputs st) k) (bm_keys outputs) = None"
    "List.find (\<lambda>k. \<not> bm_contains outputs k) (bm_keys (st_outputs st)) = None"
    by (auto simp: find_None_iff)
  then show "(\<exists>x. apply_transition (RT_CompleteStep k outputs at) r = Inr x) \<or>
      refused_for_time (RT_CompleteStep k outputs at) r"
    using finish_open_attempt [OF assms(2), of AO_Completed at]
    by (auto simp: refused_for_time_def apply_transition_def complete_step_def step assms(3,4) Let_def
        expect_state_def ensure_def)
qed

lemma observed_step:
  assumes "run_wf r" and "bm_get (run_steps r) k = Some s" and "sr_state s = SS_Dispatched"
    and "observe_step w now r s = Inr (Some (i, t))"
  shows "i = run_id r \<and> ((\<exists>x. apply_transition t r = Inr x) \<or> refused_for_time t r)"
proof -
  note d = dispatched_step [OF assms(1-3)]
  from d(1) obtain st where st: "pinned_step r k = Inr st" "version_step (pin_version (run_pin r)) k = Some st" by blast
  note cases = finished_or_refused [OF assms(2) d(2) assms(3) st(1)]
  from assms(4) consider
      rsp where "observed_response r k rsp = Inr t" "i = run_id r"
    | why at where "t = RT_InterruptStep k why at" "i = run_id r"
    | reason at where "t = RT_FailStep k reason at" "i = run_id r"
    by (auto simp: observe_step_def d(3) result_iff split: option.splits)
  then show ?thesis
  proof cases
    case (1 rsp)
    then consider reason at where "t = RT_FailStep k reason at"
      | "t = RT_CompleteStep k (resp_outputs rsp) (resp_responded_at rsp)"
        "\<forall>y\<in>set (bm_keys (resp_outputs rsp)). bm_contains (st_outputs st) y"
        "\<forall>y\<in>set (bm_keys (st_outputs st)). bm_contains (resp_outputs rsp) y"
      by (auto simp: observed_response_def declared_outputs_def st(2) result_iff Let_def filter_empty_conv
          split: handoff_response_status.splits if_splits)
    then show ?thesis using cases(1,2) 1(2) by cases blast+
  qed (use cases in blast)+
qed

text \<open>C31: The scheduler never asks a run for a step it has to refuse, but for one reason: whatever the stored
  handoffs say of the steps in flight, the run takes the transition observed, or its only objection is
  that the attempt would end before it started.\<close>

theorem observed_steps_taken:
  assumes "scheduler_ok s" and "manager_workspace (hub_manager s) wid = Some w"
    and "next_observation w now = Inr (Some (i, t))"
  shows "\<exists>r. bm_get (w_runs w) i = Some r \<and> ((\<exists>r'. apply_transition t r = Inr r') \<or> refused_for_time t r)"
proof -
  from assms(3) obtain r x where r: "r \<in> set (active_routine_runs w)"
    and x: "x \<in> set (bm_values (run_steps r))" "sr_state x = SS_Dispatched"
    and observed: "observe_step w now r x = Inr (Some (i, t))"
    by (auto simp: next_observation_def dest!: first_some_found)
  have run: "r \<in> set (bm_values (w_runs w))" using r by (simp add: active_routine_runs_def)
  have "ws_inv w" using assms(1,2) by (simp add: scheduler_ok_def)
  then have wf: "run_wf r" and keyed: "run_map.keyed (w_runs w)"
    using run ws_invD(10) by (auto simp: runs_ok_def set_bm_values)
  from x(1) obtain k where "bm_get (run_steps r) k = Some x" by (auto simp: set_bm_values)
  from observed_step [OF wf this x(2) observed] run_map.keyed_vals [OF keyed run] show ?thesis by auto
qed

section \<open>What a refusal does\<close>

lemma refused_advance:
  assumes "manager_workspace (hub_manager s) wid = Some w" and "bm_get (w_runs w) r = Some x"
    and "apply_transition t x = Inl e"
  shows "\<exists>err s'. advance cd wid r t at s = (Inl err, s') \<and>
    manager_workspace (hub_manager s') = manager_workspace (hub_manager s) \<and>
    mg_recent (hub_manager s') = mg_recent (hub_manager s)"
proof -
  obtain q s' where run: "advance cd wid r t at s = (q, s')" by fastforce
  note cases = record_command_cases [OF run [unfolded advance_def]]
  show ?thesis
  proof (cases q)
    case (Inl err)
    with run cases(1,2) show ?thesis by blast
  next
    case (Inr u)
    from cases(3) [OF this] assms(1) obtain w' ev where "execute w (DC_AdvanceRoutineRun r t) = Inr (w', ev)" by auto
    then have "ev = EV_RoutineRunAdvanced r t" "apply_event w ev = Inr w'"
      by (auto simp: execute_def decide_def result_iff)
    with assms(2,3) show ?thesis by (auto simp: apply_event_def apply_run_advanced_def result_iff)
  qed
qed

text \<open>What is done for one workspace leaves the others and the order they were opened in alone.\<close>

definition only_in :: "workspace_id \<Rightarrow> hub \<Rightarrow> hub \<Rightarrow> bool" where
  "only_in wid s s' \<longleftrightarrow>
     mg_recent (hub_manager s') = mg_recent (hub_manager s) \<and>
     (\<forall>j. j \<noteq> wid \<longrightarrow> manager_workspace (hub_manager s') j = manager_workspace (hub_manager s) j)"

interpretation inside: kept_relation "only_in wid" for wid
  by unfold_locales (simp_all add: only_in_def)

lemma record_command_inside: "keeps (only_in wid) (record_command cd wid c at)"
  unfolding keeps_def
proof
  fix s
  obtain r s' where run: "record_command cd wid c at s = (r, s')" by fastforce
  note cases = record_command_cases [OF run]
  have "only_in wid s s'" using cases(1) cases(2) cases(3) by (cases r) (auto simp: only_in_def)
  then show "only_in wid s (snd (record_command cd wid c at s))" by (simp add: run)
qed

lemma carry_out_inside: "keeps (only_in wid) (carry_out_dispatch cd wid d now)"
  unfolding keeps_def
proof
  fix s
  obtain r t where run: "record_command cd wid (DC_DispatchRoutineStep (pl_run d) (pl_step d) (pl_attempt d)
    (pl_task d) (pl_handoff d)) now s = (r, t)" by fastforce
  from keepsD [OF record_command_inside run] carry_out_manager(1) [OF run]
  show "only_in wid s (snd (carry_out_dispatch cd wid d now s))" by (simp add: only_in_def)
qed

lemma tick_workspace_inside: "keeps (only_in wid) (tick_workspace cd out now wid)"
proof -
  have advance: "keeps (only_in wid) (advance cd wid r t at)" for r t at
    unfolding advance_def by (rule record_command_inside)
  have "keeps (only_in wid) (observe_round cd wid now b)" for b
    unfolding observe_round_def decided_def
    by (auto intro!: inside.keeps_bind inside.keeps_pure advance split: option.split prod.split)
  then have observe: "keeps (only_in wid) (observe_finished_steps cd wid now)"
    unfolding observe_finished_steps_def by (intro inside.keeps_bind inside.keeps_pure inside.keeps_loop)
  have "keeps (only_in wid) (dispatch_round cd out wid now b)" for b
    unfolding dispatch_round_def decided_def
    by (auto intro!: inside.keeps_bind inside.keeps_pure advance carry_out_inside
        split: option.split dispatch_plan.split)
  then have dispatch: "keeps (only_in wid) (dispatch_ready_steps cd out wid now)"
    unfolding dispatch_ready_steps_def by (intro inside.keeps_bind inside.keeps_pure inside.keeps_loop)
  have settle: "keeps (only_in wid) (settle_runs cd wid now)"
    unfolding settle_runs_def decided_def
    by (auto intro!: inside.keeps_bind inside.keeps_pure inside.keeps_each advance)
  have "keeps (only_in wid) (tick_round cd out wid now b)" for b
    unfolding tick_round_def by (intro inside.keeps_bind observe dispatch settle inside.keeps_pure)
  then show ?thesis
    unfolding tick_workspace_def by (intro inside.keeps_bind inside.keeps_pure inside.keeps_loop)
qed

definition refused_at :: "workspace \<Rightarrow> timestamp \<Rightarrow> bool" where
  "refused_at w now =
     (case next_observation w now of
        Inr (Some (i, t)) \<Rightarrow>
          (case bm_get (w_runs w) i of None \<Rightarrow> False | Some r \<Rightarrow> \<not> is_ok (apply_transition t r))
      | _ \<Rightarrow> False)"

lemma refused_workspace:
  assumes w: "manager_workspace (hub_manager s) wid = Some w" and "refused_at w now"
  shows "\<exists>err s'. tick_workspace cd out now wid s = (Inl err, s') \<and>
    manager_workspace (hub_manager s') = manager_workspace (hub_manager s) \<and>
    mg_recent (hub_manager s') = mg_recent (hub_manager s)"
proof -
  from assms(2) obtain i t r where obs: "next_observation w now = Inr (Some (i, t))"
    and r: "bm_get (w_runs w) i = Some r" and "\<not> is_ok (apply_transition t r)"
    by (auto simp: refused_at_def split: sum.splits option.splits)
  from this(3) obtain e where refused: "apply_transition t r = Inl e" by (cases "apply_transition t r") simp_all
  from refused_advance [OF w r refused] obtain err s' where
    "advance cd wid i t now s = (Inl err, s')" and same: "manager_workspace (hub_manager s') = manager_workspace (hub_manager s)"
    "mg_recent (hub_manager s') = mg_recent (hub_manager s)" by blast
  then have "observe_round cd wid now () s = (Inl err, s')"
    using w obs by (simp add: observe_round_def decided_def act_bind_def scheduler_workspace_def ok_or_def)
  then have "observe_finished_steps cd wid now s = (Inl err, s')"
    by (simp add: observe_finished_steps_def act_bind_def)
  then have "tick_round cd out wid now () s = (Inl err, s')" by (simp add: tick_round_def act_bind_def)
  then have "tick_workspace cd out now wid s = (Inl err, s')" by (simp add: tick_workspace_def act_bind_def)
  with same show ?thesis by blast
qed

lemma refused_workspaces:
  assumes "scheduler_ok s" and "manager_workspace (hub_manager s) wid = Some w" and "refused_at w now"
    and "wid \<notin> set before"
  shows "\<exists>err s'. tick_workspaces cd out now (before @ wid # ids) s = (Inl err, s') \<and>
    mg_recent (hub_manager s') = mg_recent (hub_manager s) \<and>
    (\<forall>j. j \<notin> set before \<longrightarrow> manager_workspace (hub_manager s') j = manager_workspace (hub_manager s) j)"
  using assms(1,2,4)
proof (induction before arbitrary: s)
  case Nil
  from refused_workspace [OF Nil(2) assms(3), of cd out] show ?case by (auto simp: act_bind_def)
next
  case (Cons i before)
  obtain r t where run: "tick_workspace cd out now i s = (r, t)" by fastforce
  from keepsD [OF tick_workspace_inside run] have inside: "only_in i s t" .
  have ok: "scheduler_ok t" using keepsD [OF tick_workspace_calm run] Cons.prems(1) by (simp add: calm_tick_def)
  have "manager_workspace (hub_manager t) wid = Some w"
    using inside Cons.prems(2,3) by (simp add: only_in_def)
  from Cons.IH [OF ok this] Cons.prems(3) obtain err s' where rest:
    "tick_workspaces cd out now (before @ wid # ids) t = (Inl err, s')"
    "mg_recent (hub_manager s') = mg_recent (hub_manager t)"
    "\<forall>j. j \<notin> set before \<longrightarrow> manager_workspace (hub_manager s') j = manager_workspace (hub_manager t) j" by auto
  show ?case
  proof (cases r)
    case (Inl e)
    with run inside show ?thesis by (simp add: act_bind_def only_in_def)
  next
    case (Inr u)
    then have "u \<noteq> None" using tick_workspace_leaves [OF Cons.prems(1), of cd out now i] run by auto
    with Inr run rest inside show ?thesis by (auto simp: act_bind_def only_in_def)
  qed
qed

lemma recent_ids:
  assumes "scheduler_ok s"
  shows "map w_id (recent_workspaces (hub_manager s)) =
    filter (\<lambda>i. manager_workspace (hub_manager s) i \<noteq> None) (mg_recent (hub_manager s))"
proof -
  have "map w_id (List.map_filter (manager_workspace (hub_manager s)) ids) =
      filter (\<lambda>i. manager_workspace (hub_manager s) i \<noteq> None) ids" for ids
    using assms by (induction ids) (auto simp: List.map_filter_simps scheduler_ok_def split: option.split)
  then show ?thesis by (simp add: recent_workspaces_def)
qed

definition opened_before :: "workspace_id \<Rightarrow> hub \<Rightarrow> workspace_id list" where
  "opened_before wid s = takeWhile (\<lambda>i. i \<noteq> wid) (mg_recent (hub_manager s))"

lemma refused_tick:
  assumes ok: "scheduler_ok s" and w: "manager_workspace (hub_manager s) wid = Some w" and "refused_at w now"
  shows "\<exists>err s'. tick cd out now s = (Inl err, s') \<and> scheduler_ok s' \<and>
    mg_recent (hub_manager s') = mg_recent (hub_manager s) \<and>
    (\<forall>j. j \<notin> set (opened_before wid s) \<longrightarrow>
       manager_workspace (hub_manager s') j = manager_workspace (hub_manager s) j)"
proof -
  let ?open = "\<lambda>i. manager_workspace (hub_manager s) i \<noteq> None"
  have "wid \<in> set (mg_recent (hub_manager s))" using ok w by (simp add: scheduler_ok_def)
  from split_list_first [OF this] obtain vs rest where
    recent: "mg_recent (hub_manager s) = vs @ wid # rest" and new: "wid \<notin> set vs" by blast
  then have vs: "opened_before wid s = vs"
    unfolding opened_before_def by (subst recent, subst takeWhile_append2) auto
  have ids: "map w_id (recent_workspaces (hub_manager s)) =
      filter ?open (opened_before wid s) @ wid # filter ?open rest"
    by (simp add: recent_ids [OF ok] recent vs w)
  have "wid \<notin> set (filter ?open (opened_before wid s))" using new vs by simp
  from refused_workspaces [OF ok w assms(3) this, of cd out "filter ?open rest"] obtain err s' where
    run: "tick_workspaces cd out now (filter ?open (opened_before wid s) @ wid # filter ?open rest) s = (Inl err, s')"
    and s': "mg_recent (hub_manager s') = mg_recent (hub_manager s)"
      "\<forall>j. j \<notin> set (filter ?open (opened_before wid s)) \<longrightarrow>
        manager_workspace (hub_manager s') j = manager_workspace (hub_manager s) j" by blast
  from run have tick: "tick cd out now s = (Inl err, s')" by (simp add: tick_def act_bind_def ids)
  moreover have "scheduler_ok s'" using keepsD [OF tick_calm tick] ok by (simp add: calm_tick_def)
  ultimately show ?thesis using s' by auto
qed

text \<open>C32: An observation a run refuses stops the scheduler for good. Take an open workspace in which,
  whenever one looks, what is observed next is refused by its run (an answer that bears a time before
  its attempt is such a case). However often the scheduler ticks and whenever, every tick fails, and
  neither this workspace nor any that comes after it in the order they were last opened is touched.\<close>

theorem refused_observation_stops_tick:
  assumes "scheduler_ok s" and "manager_workspace (hub_manager s) wid = Some w" and "\<forall>at. refused_at w at"
    and "s' = fold (\<lambda>(out, at) u. snd (tick cd out at u)) ticks s"
  shows "(\<exists>err. fst (tick cd out now s') = Inl err) \<and>
    (\<forall>j. j \<notin> set (opened_before wid s) \<longrightarrow>
       manager_workspace (hub_manager s') j = manager_workspace (hub_manager s) j)"
proof -
  have w_left: "wid \<notin> set (opened_before wid s)" for s
    using set_takeWhileD by (fastforce simp: opened_before_def)
  have "scheduler_ok s' \<and> mg_recent (hub_manager s') = mg_recent (hub_manager s) \<and>
      (\<forall>j. j \<notin> set (opened_before wid s) \<longrightarrow>
         manager_workspace (hub_manager s') j = manager_workspace (hub_manager s) j)"
    using assms(1,2,4)
  proof (induction ticks arbitrary: s)
    case (Cons a ticks)
    obtain o1 at where a: "a = (o1, at)" by fastforce
    from refused_tick [OF Cons.prems(1,2) spec [OF assms(3)], of cd o1 at] obtain err t where
      t: "tick cd o1 at s = (Inl err, t)" "scheduler_ok t" "mg_recent (hub_manager t) = mg_recent (hub_manager s)"
        "\<forall>j. j \<notin> set (opened_before wid s) \<longrightarrow>
           manager_workspace (hub_manager t) j = manager_workspace (hub_manager s) j" by blast
    have "manager_workspace (hub_manager t) wid = Some w" using t(4) w_left Cons.prems(2) by simp
    moreover have "s' = fold (\<lambda>(out, at) u. snd (tick cd out at u)) ticks t" using Cons.prems(3) t(1) a by simp
    ultimately show ?case using Cons.IH [OF t(2)] t(3,4) by (simp add: opened_before_def)
  qed simp
  moreover from this have "manager_workspace (hub_manager s') wid = Some w" using w_left assms(2) by simp
  ultimately show ?thesis using refused_tick [OF _ _ spec [OF assms(3)], of s' wid cd out now] by auto
qed

section \<open>A workspace with a dispatched step\<close>

definition second_workspace :: workspace where
  "second_workspace = workspace_new (Id 2) (Name ''Other'')"

definition hub_with :: "workspace \<Rightarrow> hub" where
  "hub_with w =
     \<lparr>hub_manager = \<lparr>mg_journal = journal_empty,
        mg_workspaces = bm_insert (Id 2) second_workspace (bm_insert (Id 1) w bm_empty),
        mg_recent = [Id 1, Id 2], mg_active = Some (Id 1)\<rparr>,
      hub_mailboxes = bm_empty, hub_registrations = []\<rparr>"

definition no_outside :: outside where
  "no_outside = \<lparr>out_canonicalize = (\<lambda>_. None), out_git_head = (\<lambda>_. None)\<rparr>"

lemma second_workspace_fields [simp]: "w_id second_workspace = Id 2" "w_runs second_workspace = bm_empty"
  by (simp_all add: second_workspace_def workspace_new_def)

lemma hub_with_ok:
  assumes "reachable w" and "w_id w = Id 1"
  shows "scheduler_ok (hub_with w)" and "checkouts_apart (hub_with w)"
proof -
  have second: "ws_inv second_workspace" by (simp add: second_workspace_def workspace_new_inv)
  then show "scheduler_ok (hub_with w)"
    using assms reachable_inv [OF assms(1)] by (auto simp: scheduler_ok_def hub_with_def manager_workspace_def)
  have "\<not> holds_checkout second_workspace c" for c
    by (simp add: holds_checkout_def held_routine_reservations_def active_routine_runs_def)
  then show "checkouts_apart (hub_with w)"
    by (auto simp: checkouts_apart_def hub_with_def manager_workspace_def split: if_splits)
qed

lemma sample_workspace_id: "w_id sample_workspace = Id 1"
  by (simp add: sample_workspace_def insert_handoff_def insert_task_def sample_with_run_def insert_run_def
      put_routine_def sample_with_routine_def sample_with_agent_def)

lemma tick_returns_witness:
  "fst (tick sample_created_codec no_outside 400 (hub_with sample_workspace)) \<noteq> Inr None"
  by (rule tick_returns [OF hub_with_ok(1) [OF sample_reachable sample_workspace_id]])

lemma tick_keeps_checkouts_apart_witness:
  "checkouts_apart (snd (tick sample_created_codec no_outside 400 (hub_with sample_workspace)))"
  by (rule tick_keeps_checkouts_apart [OF hub_with_ok [OF sample_reachable sample_workspace_id]])

section \<open>An answer from before the attempt\<close>

text \<open>The clock was set back after the dispatch: the answer bears an earlier time than the attempt.\<close>

definition early_response :: handoff_response where
  "early_response = \<lparr>resp_message_id = HandoffMessageId ''m2'', resp_status = HR_Failed, resp_body = Content ''no'',
     resp_responded_at = 207, resp_outputs = bm_empty\<rparr>"

definition started_early :: handoff where
  "started_early = sample_step_handoff\<lparr>ho_attempts := [\<lparr>att_ordinal = 1, att_message_id = HandoffMessageId ''m1'',
     att_started_at = 205, att_mechanism = DM_CodexTerminal, att_outcome = DO_Started\<rparr>]\<rparr>"

definition delivered_early :: handoff where
  "delivered_early = finish_delivery 1 (DO_Delivered 206) started_early"

definition answered_early :: handoff where
  "answered_early = delivered_early\<lparr>ho_response := Some early_response\<rparr>"

definition answered_workspace :: workspace where
  "answered_workspace =
     insert_handoff answered_early (insert_handoff delivered_early (insert_handoff started_early sample_workspace))"

lemma early_ids [simp]:
  "ho_id sample_step_handoff = Id 60" "ho_id started_early = Id 60" "ho_id delivered_early = Id 60"
  "ho_id answered_early = Id 60"
  by (simp_all add: sample_step_handoff_def started_early_def delivered_early_def answered_early_def finish_delivery_def)

lemma early_steps:
  "handoff_step sample_step_handoff started_early" "handoff_step started_early delivered_early"
  "handoff_step delivered_early answered_early"
proof -
  have "begin_delivery (HandoffMessageId ''m1'') DM_CodexTerminal 205 sample_step_handoff = Inr (started_early, 1)"
    by (simp add: begin_delivery_Inr_iff sample_step_handoff_def started_early_def has_delivery_message_def
        is_message_delivered_def)
  then show "handoff_step sample_step_handoff started_early" by (rule step_begin)
  have "complete_delivery 1 206 started_early = Inr delivered_early"
    by (simp add: complete_delivery_def started_attempt_def started_early_def delivered_early_def ok_or_def)
  then show "handoff_step started_early delivered_early" by (rule step_complete)
  have "respond early_response delivered_early = Inr answered_early"
    by (simp add: respond_Inr_iff answered_early_def)
      (simp add: delivered_early_def finish_delivery_def started_early_def sample_step_handoff_def is_delivered_def
        is_message_delivered_def)
  then show "handoff_step delivered_early answered_early" by (rule step_respond)
qed

lemma answered_reachable: "reachable answered_workspace"
proof -
  have stored: "bm_get (w_handoffs (insert_handoff h w)) (ho_id h) = Some h" for h w by (simp add: insert_handoff_def)
  have start: "bm_get (w_handoffs sample_workspace) (ho_id sample_step_handoff) = Some sample_step_handoff"
    unfolding sample_workspace_def by (rule stored)
  have moved: "reachable (insert_handoff h' w)"
    if "reachable w" "bm_get (w_handoffs w) (ho_id h) = Some h" "handoff_step h h'" for h h' w
    by (rule reachable_execute [OF that(1) moved_handoff [OF that(2,3)]]) (simp add: admissible_def)
  from moved [OF moved [OF moved [OF sample_reachable start early_steps(1)] stored early_steps(2)] stored early_steps(3)]
  show ?thesis by (simp only: answered_workspace_def)
qed

lemma answered_fields:
  "w_id answered_workspace = Id 1" "w_runs answered_workspace = bm_insert (Id 30) sample_dispatched bm_empty"
  "bm_get (w_handoffs answered_workspace) (Id 60) = Some answered_early"
  using sample_workspace_id
  by (simp_all add: answered_workspace_def insert_handoff_def)
    (simp add: sample_workspace_def insert_handoff_def insert_task_def sample_with_run_def insert_run_def
      put_routine_def sample_with_routine_def sample_with_agent_def bmap_ext)

lemma answered_observation:
  "next_observation answered_workspace now = Inr (Some (Id 30, RT_FailStep (Id 1) (Content ''no'') 207))"
proof -
  let ?x = "\<lparr>sr_step = Id 1, sr_state = SS_Dispatched, sr_attempts = [sample_attempt 1],
      sr_outputs = bm_empty, sr_approval = None, sr_interruption = None, sr_failure = None\<rparr>"
  have id: "run_id sample_dispatched = Id 30" by (simp add: sample_dispatched_def put_step_def)
  have "run_state sample_dispatched = RS_Running" by (simp add: sample_dispatched_def put_step_def sample_run_fields)
  then have active: "active_routine_runs answered_workspace = [sample_dispatched]"
    by (simp add: active_routine_runs_def answered_fields bm_values_def run_is_active_def)
  have steps: "filter (\<lambda>s. sr_state s = SS_Dispatched) (bm_values (run_steps sample_dispatched)) = [?x]"
    by (simp add: sample_dispatched_def put_step_def sample_run_def run_start_def sample_pin_def sample_version_def
        sample_first_def sample_second_def bm_of_list_def bm_values_def step_run_pending_def)
  have "ho_response answered_early = Some early_response" by (simp add: answered_early_def)
  then have "observe_step answered_workspace now sample_dispatched ?x =
      Inr (Some (Id 30, RT_FailStep (Id 1) (Content ''no'') 207))"
    by (simp add: observe_step_def active_or_last_attempt_def answered_fields id sample_attempt_def
        observed_response_def early_response_def)
  then show ?thesis by (simp add: next_observation_def active steps)
qed

lemma answered_refused:
  "apply_transition (RT_FailStep (Id 1) (Content ''no'') 207) sample_dispatched = Inl (RE_InvalidAttemptTime 1)"
proof -
  have "version_step (pin_version (run_pin sample_dispatched)) (Id 1) = Some sample_first"
    by (simp add: version_step_def sample_dispatched_def sample_run_def run_start_def sample_pin_def
        sample_version_def sample_first_def)
  then have "pinned_step sample_dispatched (Id 1) = Inr sample_first" by (simp add: pinned_step_def)
  moreover have "finish_attempt AO_Failed 207 \<lparr>sr_step = Id 1, sr_state = SS_Dispatched, sr_attempts = [sample_attempt 1],
      sr_outputs = bm_empty, sr_approval = None, sr_interruption = None, sr_failure = None\<rparr> = Inl (RE_InvalidAttemptTime 1)"
    by (simp add: finish_attempt_def attempt_finish_def sample_attempt_def)
  moreover have "bm_get (run_steps sample_dispatched) (Id 1) = Some \<lparr>sr_step = Id 1, sr_state = SS_Dispatched,
      sr_attempts = [sample_attempt 1], sr_outputs = bm_empty, sr_approval = None, sr_interruption = None,
      sr_failure = None\<rparr>"
    by (simp add: sample_dispatched_def)
  ultimately show ?thesis by (simp add: apply_transition_def fail_step_def step_mut_def)
qed

lemma answered_hub:
  "recent_workspaces (hub_manager (hub_with answered_workspace)) = [answered_workspace, second_workspace]"
  "manager_workspace (hub_manager (hub_with answered_workspace)) (Id 1) = Some answered_workspace"
  by (simp_all add: hub_with_def recent_workspaces_def manager_workspace_def List.map_filter_def)

lemma observed_steps_taken_witness:
  "\<exists>r. bm_get (w_runs answered_workspace) (Id 30) = Some r \<and>
     ((\<exists>r'. apply_transition (RT_FailStep (Id 1) (Content ''no'') 207) r = Inr r') \<or>
      refused_for_time (RT_FailStep (Id 1) (Content ''no'') 207) r)"
  by (rule observed_steps_taken
      [OF hub_with_ok(1) [OF answered_reachable answered_fields(1)] answered_hub(2) answered_observation])

lemma refused_observation_stops_tick_witness:
  "reachable answered_workspace \<and>
   (\<exists>err. fst (tick sample_created_codec no_outside 1200
       (fold (\<lambda>(out, at) u. snd (tick sample_created_codec out at u)) [(no_outside, 500), (no_outside, 900)]
         (hub_with answered_workspace))) = Inl err)"
proof -
  have "refused_at answered_workspace at" for at
    by (simp add: refused_at_def answered_observation answered_fields answered_refused)
  then have "\<forall>at. refused_at answered_workspace at" by blast
  from refused_observation_stops_tick
    [OF hub_with_ok(1) [OF answered_reachable answered_fields(1)] answered_hub(2) this refl]
  show ?thesis using answered_reachable by blast
qed

end
