(* ===== verification/Spec2Isabelle.thy ===== *)
theory Spec2Isabelle
  imports
    Value_Properties Handoff_Properties Routine_Outcome Workspace_Guarantees Canvas_Replace
    Manager_Safe Stored_Properties Orchestrator_Properties Scheduler_Properties
begin

text \<open>
  OpenPodium keeps a workspace of coding agents: their configuration, the tasks handed to them,
  the conversations with them, a canvas on which they are drawn, and routines, which are
  versioned graphs of prompts that run on a schedule. Everything the program decides goes through
  one aggregate, \<open>Workspace\<close> in \<open>src/src/domain\<close>: a \<open>DomainCommand\<close> becomes a \<open>DomainEvent\<close>, the
  event is applied, stored, and replayed on the next start. This development models that domain
  layer, from the constructors of its values to the aggregate, the stored form and the journal below it,
  and the two engines above it: the orchestrator, which types prompts into the terminals of agents, and
  the scheduler, which runs routines.

  The parts, with the file each models (all below \<open>src/src/domain\<close>):

    \<^item> \<open>Prelude\<close>, \<open>BTree_Map\<close>: results, checks in sequence, UTF-8 lengths, and the ordered maps and
      sets of Rust's standard library as sorted association lists. \<open>ordered_map\<close> is the interface
      the keyed collections of the workspace use; each collection interprets it.
    \<^item> \<open>Values\<close>, \<open>Config\<close>, \<open>Entities\<close>, \<open>Lifecycle\<close>: \<open>value_objects.rs\<close>, \<open>ids.rs\<close>, \<open>agents.rs\<close>,
      \<open>environments.rs\<close>, \<open>entities.rs\<close>, \<open>lifecycle.rs\<close>. Every constructor is a definition that
      returns the value or the error the code returns. \<open>Value_Properties\<close> says what an accepted
      value promises.
    \<^item> \<open>Handoff\<close>: \<open>orchestration.rs\<close>, the record of one delivery of a prompt or task to an agent.
      \<open>Handoff_Steps\<close> gives the step relation of its operations and the abstract log it keeps;
      \<open>Handoff_Properties\<close> states what holds of every history.
    \<^item> \<open>Routine_Base\<close>, \<open>Routine_Version\<close>, \<open>Routine_Schedule\<close>, \<open>Routine_Trigger\<close>, \<open>Routine_Run\<close>:
      \<open>routines.rs\<close>. A version is a checked graph (\<open>Routine_Version_Props\<close>: dependencies, order,
      placeholders); a schedule yields its next occurrence; a run is a state machine over the steps
      of one pinned version (\<open>Routine_Run_Inv\<close>, \<open>Routine_Run_Steps\<close>, \<open>Routine_Run_Bindings\<close>).
    \<^item> \<open>Chat\<close>, \<open>Canvas\<close>: \<open>chat.rs\<close>, \<open>canvas_content.rs\<close>, \<open>floors.rs\<close> and the canvas records of
      \<open>entities.rs\<close>.
    \<^item> \<open>Domain_Error\<close>, \<open>Domain_Event\<close>, \<open>Workspace\<close>, \<open>Workspace_Apply\<close>,
      \<open>Workspace_Execute\<close>: \<open>events.rs\<close> and \<open>workspace.rs\<close>, the aggregate with one definition per
      event and per command.

  and, outside \<open>domain\<close>:

    \<^item> \<open>Effects\<close>: operations that change a state and may fail half-way, the locale \<open>kept_relation\<close>
      of the relations every part of such an operation keeps, \<open>loop\<close> with fuel, where \<open>None\<close> is a loop
      that has not left, and the locale \<open>measured_loop\<close> of the loops whose rounds lower a measure.
    \<^item> \<open>Float32\<close>, \<open>Portal_Values\<close>: the products and quotients of \<open>f32\<close> behind positions and stroke widths
      in \<open>domain/canvas_content.rs\<close>, and the constructors of \<open>portal.rs\<close> that stored nodes go through.
    \<^item> \<open>Stored_Config\<close>, \<open>Stored_Canvas\<close>, \<open>Stored_Chat\<close>, \<open>Stored_Handoff\<close>, \<open>Stored_Routine\<close>, \<open>Stored_Run\<close>,
      \<open>Stored_Event\<close>, \<open>Stored_Workspace\<close>: \<open>persistence/codec.rs\<close>. A stored struct \<open>XV1\<close> is a record with
      the fields serde writes, \<open>From<&X>\<close> is \<open>save_x\<close> and \<open>into_domain\<close> is \<open>read_x\<close>; the locale
      \<open>stored_form\<close> is the contract of such a pair and every pair interprets it. Reading a snapshot
      repeats commands on an empty workspace. Messages of errors are left out, so a failed read is
      \<open>Inl ()\<close>.
    \<^item> \<open>Journal\<close>: \<open>persistence/storage.rs\<close>, the event log with its snapshots, and recovery.
    \<^item> \<open>Manager\<close>: \<open>workspaces.rs\<close>, the open workspaces over their journal.
    \<^item> \<open>Ipc_Protocol\<close>: the commands of \<open>ipc/protocol.rs\<close> with their checks, and the routed message of
      \<open>ipc/server.rs\<close>.
    \<^item> \<open>Prompt\<close>, \<open>Orchestrator\<close>, \<open>Orchestrator_Steps\<close>: \<open>orchestration/prompt.rs\<close> and
      \<open>orchestration/engine.rs\<close>. \<open>hub\<close> is the state the engines share: the manager, the mailboxes and the
      registrations of the scheduler. An operation is an action on it (\<open>Effects\<close>), and a change made
      before an error stays made.
    \<^item> \<open>Scheduler\<close>: \<open>routines/engine.rs\<close>, which dispatches through the orchestrator. What it reads of the
      file system and of \<open>git\<close> is the record \<open>outside\<close>; the instantiation of a template is an argument
      of \<open>start_run\<close>.

  What the lemmas show:

    \<^item> Runs. \<open>Routine_Run_Inv\<close> is the invariant of a run and \<open>Routine_Run_Steps\<close> shows every operation
      keeps it. \<open>Routine_Run_Ends\<close> joins the operations to one step relation \<open>run_step\<close> and bounds the
      steps by a cost. \<open>Routine_Properties\<close>, \<open>Routine_History\<close> and \<open>Routine_Outcome\<close> state what
      this means for versions, for whole histories of a run, and for its outcome and its schedule.
    \<^item> The aggregate. \<open>Workspace_Inv\<close> is its well-formedness; \<open>Workspace_Runs\<close>, \<open>Canvas_Check\<close> and the
      \<open>Workspace_Keep\<close> theories show that every event keeps it. \<open>Workspace_History\<close> relates a workspace
      to the later ones. \<open>Workspace_Safe\<close> states what an event-sourced aggregate is, as the locale
      \<open>event_sourced\<close>, and interprets it on \<open>execute\<close> and \<open>apply_event\<close>; \<open>reachable\<close> are the workspaces
      commands reach from an empty one. \<open>Workspace_Properties\<close>, \<open>Workspace_Guarantees\<close> and
      \<open>Canvas_Replace\<close> state the properties, on the workspace of \<open>Workspace_Sample\<close> for their witnesses.
    \<^item> Stored records. \<open>Snapshot_Stages\<close> and \<open>Snapshot_Exact\<close> follow a workspace through each stage of
      reading its snapshot; \<open>Workspace_Valid\<close> and \<open>Storable\<close> show that events made of constructed
      values lead to workspaces whose snapshot is read as themselves or not at all. \<open>Snapshot_Plain\<close>
      shows that the snapshots of new workspaces are read. \<open>Stored_Properties\<close> states the
      properties, among them that a snapshot with a step that claims a floor is refused.
    \<^item> Storage. \<open>Journal_Recovery\<close> shows that recovery returns what was in memory, \<open>Manager_Safe\<close>
      that this holds of every open workspace under every operation of the manager and over restarts.
      Commands carry constructed values and leave no draft of blanks, which snapshots do not keep. On
      a restart \<open>open_workspace\<close> archives agents that earlier events placed and nothing shows; the end
      of \<open>Canvas_Replace\<close> shows that commands leave no such agent. The JSON library and the hash are arguments; \<open>faithful\<close> says that JSON reads
      what it wrote. SQLite is taken at its word: a transaction happens as a whole or not at
      all. Which transactions fail is part of the state (\<open>jr_faults\<close>), so the theorems hold for
      every pattern of failures.

    \<^item> The orchestrator. \<open>Orchestrator_Boxes\<close> and \<open>Orchestrator_Records\<close> follow the
      mailboxes and the recorded commands through every operation, \<open>Orchestrator_Safe\<close> joins them to the
      invariant \<open>hub_ok\<close>, and \<open>Orchestrator_History\<close> to whole histories. \<open>Orchestrator_Properties\<close>
      states the properties, on the history of \<open>Orchestrator_Sample\<close> for their witnesses.
    \<^item> The scheduler. \<open>Scheduler_Tick\<close> shows what a tick keeps and that every move lowers the work left;
      \<open>Scheduler_Properties\<close> states the properties, among them when an observation is refused.

  The handlers of the aggregate rely on their callers in one respect, written out as \<open>admissible\<close>:
  handoffs, routines, versions and runs inside events were built by their own constructors, which
  the fields' privacy enforces in the code, a started run is fresh from \<open>RoutineRun::start\<close>, and a
  dispatched attempt has no outcome yet.

  State and errors. A struct is a \<open>record\<close> with the fields of the source, an enum a \<open>datatype\<close>.
  A method that takes \<open>&mut self\<close> returns the changed record; \<open>Result\<close> is the sum type of the
  prelude, with the error on the left. Where the code returns an error after it has written to
  \<open>self\<close>, the definition says so and returns the written state. Machine integers that may
  overflow are words or integers with the range check written out (\<open>i64_add\<close> and the like);
  identifiers are 64-bit words; \<open>f32\<close> is its bit pattern. A text is the list of its UTF-8 bytes; where the
  code goes through the characters of a text (\<open>sanitize\<close>), \<open>utf8_chars\<close> groups the bytes.

  Loops are structural recursions, except the rounds of \<open>propagate_skips\<close>, which repeat until
  nothing changes: the fuel is one more than the number of steps, and \<open>Routine_Run_Inv\<close> shows
  that this reaches the fixed point, since every round but the last skips a step. The walk up the
  parents of a handoff is bounded by \<open>MAX_HANDOFF_DEPTH\<close>, as in the code. A run makes at most eight
  steps per attempt its retry policies allow, five per step and two more. The loops of the engines
  run on fuel: \<open>prepare_next\<close> one more than the prompts that wait, since every round takes one out of a
  mailbox, and the loops of a tick one more than \<open>work_left\<close>, the cost of the runs, since every round moves
  a run; both are shown to leave.

  Not modelled: the user interface (\<open>app.rs\<close> and its modules, the panels, \<open>canvas/\<close>), which is glue
  over a third-party toolkit; schema migrations and portable documents (\<open>persistence/\<close>); the watchers of
  \<open>routines/triggers.rs\<close>; authentication and the request store of \<open>ipc/\<close>;
  processes, terminals, sockets, browsers and devices. Formatting of errors is left out everywhere.
\<close>

end
